(* ===== verification/Go_Prelude.thy ===== *)
theory Go_Prelude
  imports
    Main
    "HOL-Library.Sublist"
    "HOL-Library.Char_ord"
    "HOL-Library.List_Lexorder"
    "HOL-Library.Multiset"
begin

text \<open>
  The part of Go and of its standard library that RepoWolf's sources use, as HOL functions:
  byte strings and the operations of package \<^verbatim>\<open>strings\<close>/\<^verbatim>\<open>bytes\<close>, the rune decoding of
  \<^verbatim>\<open>range\<close> over a string and of package \<^verbatim>\<open>unicode/utf8\<close>, Go maps as association lists in
  an iteration order, and the result type of a function that may return an error.

  A Go string or byte slice is a \<^typ>\<open>string\<close>, one \<^typ>\<open>char\<close> per byte. A Go map is an
  association list with distinct keys: the order of the list stands for the order in which one
  execution of \<^verbatim>\<open>range\<close> happens to visit the map, so a fact proved for every permutation of the
  list is a fact about every iteration order. A fallible function returns a value of
  \<open>'e + 'a\<close>, where \<open>Inl\<close> carries the error.
\<close>

named_theorems go_defs \<open>definitions of the modelled library functions\<close>
named_theorems result_simps \<open>simplification of results that may be errors\<close>


section \<open>Results\<close>

definition bindE :: "'e + 'a \<Rightarrow> ('a \<Rightarrow> 'e + 'b) \<Rightarrow> 'e + 'b" where
  "bindE m f = (case m of Inl e \<Rightarrow> Inl e | Inr x \<Rightarrow> f x)"

lemma bindE_Inl [simp]: "bindE (Inl e) f = Inl e"
  by (simp add: bindE_def)

lemma bindE_Inr [simp]: "bindE (Inr x) f = f x"
  by (simp add: bindE_def)

lemma bindE_return [simp]: "bindE m Inr = m"
  by (cases m) simp_all

lemma bindE_eq_Inr [result_simps]:
  "bindE m f = Inr y \<longleftrightarrow> (\<exists>x. m = Inr x \<and> f x = Inr y)"
  by (cases m) auto

lemma bindE_eq_Inl [result_simps]:
  "bindE m f = Inl e \<longleftrightarrow> m = Inl e \<or> (\<exists>x. m = Inr x \<and> f x = Inl e)"
  by (cases m) auto

lemma bindE_cong [fundef_cong]:
  "m = m' \<Longrightarrow> (\<And>x. m' = Inr x \<Longrightarrow> f x = f' x) \<Longrightarrow> bindE m f = bindE m' f'"
  by (cases m') auto

definition isOK :: "'e + 'a \<Rightarrow> bool" where
  "isOK m = (case m of Inl _ \<Rightarrow> False | Inr _ \<Rightarrow> True)"

lemma isOK_simps [simp]: "\<not> isOK (Inl e)" "isOK (Inr x)"
  by (simp_all add: isOK_def)

lemma isOK_iff: "isOK m \<longleftrightarrow> (\<exists>x. m = Inr x)"
  by (cases m) auto

lemma isOK_unit: "isOK m \<longleftrightarrow> m = Inr ()"
  by (cases m) simp_all

lemma isOK_bindE_unit [simp]: "isOK (bindE m (\<lambda>_. Inr ())) \<longleftrightarrow> isOK m"
  by (cases m) simp_all

lemma isOK_bindE_const: "isOK (bindE m (\<lambda>_. k)) \<longleftrightarrow> isOK m \<and> isOK k"
  by (cases m) simp_all

lemma isOK_if_Inl: "isOK (if b then Inl e else k) \<longleftrightarrow> \<not> b \<and> isOK k"
  by simp

lemma isOK_bindE [result_simps]: "isOK (bindE m f) \<longleftrightarrow> (\<exists>x. m = Inr x \<and> isOK (f x))"
  by (cases m) auto

text \<open>A loop whose body may return early with an error: the first error wins.\<close>

fun checkAll :: "('a \<Rightarrow> 'e + unit) \<Rightarrow> 'a list \<Rightarrow> 'e + unit" where
  "checkAll f [] = Inr ()"
| "checkAll f (x # xs) = bindE (f x) (\<lambda>_. checkAll f xs)"

lemma isOK_checkAll: "isOK (checkAll f xs) \<longleftrightarrow> (\<forall>x \<in> set xs. isOK (f x))"
  by (induction xs) (auto simp: result_simps isOK_iff)

lemma checkAll_Inr: "checkAll f xs = Inr u \<longleftrightarrow> (\<forall>x \<in> set xs. f x = Inr ())"
  by (induction xs) (auto simp: result_simps)


text \<open>A loop that carries a state and may return early with an error.\<close>

fun foldE :: "('s \<Rightarrow> 'a \<Rightarrow> 'e + 's) \<Rightarrow> 's \<Rightarrow> 'a list \<Rightarrow> 'e + 's" where
  "foldE f s [] = Inr s"
| "foldE f s (x # xs) = bindE (f s x) (\<lambda>s'. foldE f s' xs)"

lemma foldE_append: "foldE f s (xs @ ys) = bindE (foldE f s xs) (\<lambda>s'. foldE f s' ys)"
  by (induction xs arbitrary: s) (auto simp: bindE_def split: sum.splits)

lemma foldE_filter:
  "(\<And>s x. \<not> P x \<Longrightarrow> f s x = Inr s) \<Longrightarrow> foldE f s xs = foldE f s (filter P xs)"
  by (induction xs arbitrary: s) auto

lemma foldE_map: "foldE f s (map g xs) = foldE (\<lambda>s x. f s (g x)) s xs"
  by (induction xs arbitrary: s) auto

lemma foldE_cong:
  "(\<And>s x. x \<in> set xs \<Longrightarrow> f s x = g s x) \<Longrightarrow> foldE f s xs = foldE g s xs"
  by (induction xs arbitrary: s) (auto intro!: bindE_cong)

lemma foldE_concat: "foldE f s (concat xss) = foldE (foldE f) s xss"
  by (induction xss arbitrary: s) (auto simp: foldE_append)

text \<open>
  The interface of a loop that files elements under keys and returns an error on an element that
  is not acceptable or whose key is already taken. RepoWolf does this for credential names,
  repository slugs, bearer tokens, ref names, shallow lines and protocol capabilities.
\<close>

locale unique_index =
  fixes ok :: "'a \<Rightarrow> bool"
    and key :: "'a \<Rightarrow> 'k"
    and val :: "'a \<Rightarrow> 'v"
    and add :: "('k \<rightharpoonup> 'v) \<Rightarrow> 'a \<Rightarrow> 'e + ('k \<rightharpoonup> 'v)"
  assumes add_fresh: "ok x \<Longrightarrow> m (key x) = None \<Longrightarrow> add m x = Inr (m(key x \<mapsto> val x))"
    and add_taken: "m (key x) \<noteq> None \<Longrightarrow> \<not> isOK (add m x)"
    and add_bad: "\<not> ok x \<Longrightarrow> \<not> isOK (add m x)"
begin

lemma add_isOK_iff: "isOK (add m x) \<longleftrightarrow> ok x \<and> m (key x) = None"
  using add_fresh [of x m] add_taken [of m x] add_bad [of x m] by (cases "ok x") fastforce+

lemma add_Inr_iff: "add m x = Inr m' \<longleftrightarrow> ok x \<and> m (key x) = None \<and> m' = m(key x \<mapsto> val x)"
proof
  assume *: "add m x = Inr m'"
  then have "ok x \<and> m (key x) = None"
    using add_isOK_iff [of m x] by simp
  with * show "ok x \<and> m (key x) = None \<and> m' = m(key x \<mapsto> val x)"
    using add_fresh [of x m] by simp
qed (simp add: add_fresh)

lemma foldE_isOK_iff:
  "isOK (foldE add m xs) \<longleftrightarrow>
     (\<forall>x \<in> set xs. ok x \<and> m (key x) = None) \<and> distinct (map key xs)"
proof (induction xs arbitrary: m)
  case (Cons x xs)
  have "isOK (foldE add m (x # xs)) \<longleftrightarrow>
      ok x \<and> m (key x) = None \<and> isOK (foldE add (m(key x \<mapsto> val x)) xs)"
    by (auto simp: result_simps add_Inr_iff)
  moreover have "(\<forall>y \<in> set xs. ok y \<and> (m(key x \<mapsto> val x)) (key y) = None) \<longleftrightarrow>
      (\<forall>y \<in> set xs. ok y \<and> m (key y) = None) \<and> key x \<notin> key ` set xs"
    by (auto simp: image_iff split: if_splits)
  ultimately show ?case
    using Cons.IH [of "m(key x \<mapsto> val x)"] by auto
qed simp

lemma foldE_result:
  "foldE add m xs = Inr m' \<Longrightarrow>
     m' k = (case map_of (map (\<lambda>x. (key x, val x)) xs) k of Some v \<Rightarrow> Some v | None \<Rightarrow> m k)"
proof (induction xs arbitrary: m)
  case (Cons x xs)
  from Cons.prems have *: "foldE add (m(key x \<mapsto> val x)) xs = Inr m'" "m (key x) = None"
    by (auto simp: result_simps add_Inr_iff)
  from * have "key x \<notin> key ` set xs"
    using foldE_isOK_iff [of "m(key x \<mapsto> val x)" xs] by (auto split: if_splits)
  then have "map_of (map (\<lambda>x. (key x, val x)) xs) (key x) = None"
    by (auto simp: map_of_eq_None_iff)
  with Cons.IH [OF *(1)] show ?case
    by (auto split: option.splits)
qed simp

lemma foldE_dom: "foldE add m xs = Inr m' \<Longrightarrow> dom m' = dom m \<union> key ` set xs"
proof (induction xs arbitrary: m)
  case (Cons x xs)
  then show ?case
    by (fastforce simp: result_simps add_Inr_iff)
qed simp

end


section \<open>Bytes and strings\<close>

abbreviation code :: "char \<Rightarrow> int" where
  "code c \<equiv> of_char c"

lemma code_less_256 [simp]: "code c < 256"
  using pos_mod_bound [of 256 "code c"] by simp

lemma code_nonneg [simp]: "0 \<le> code c"
  using pos_mod_sign [of 256 "code c"] by simp

definition isDigit :: "char \<Rightarrow> bool" where
  "isDigit c = (48 \<le> code c \<and> code c \<le> 57)"

definition isUpper :: "char \<Rightarrow> bool" where
  "isUpper c = (65 \<le> code c \<and> code c \<le> 90)"

definition isLower :: "char \<Rightarrow> bool" where
  "isLower c = (97 \<le> code c \<and> code c \<le> 122)"

definition isAlnum :: "char \<Rightarrow> bool" where
  "isAlnum c = (isUpper c \<or> isLower c \<or> isDigit c)"

lemmas char_class_defs = isDigit_def isUpper_def isLower_def isAlnum_def

text \<open>\<^verbatim>\<open>strings.HasPrefix\<close>, \<^verbatim>\<open>strings.HasSuffix\<close>, \<^verbatim>\<open>strings.Contains\<close> and their \<^verbatim>\<open>bytes\<close> twins.\<close>

definition hasPrefix :: "string \<Rightarrow> string \<Rightarrow> bool" where
  [go_defs]: "hasPrefix s p = prefix p s"

definition hasSuffix :: "string \<Rightarrow> string \<Rightarrow> bool" where
  [go_defs]: "hasSuffix s p = suffix p s"

definition contains :: "string \<Rightarrow> string \<Rightarrow> bool" where
  [go_defs]: "contains s p = sublist p s"

text \<open>
  \<^verbatim>\<open>strings.ContainsAny\<close> for a set of ASCII characters. An ASCII byte never occurs inside a
  multi-byte sequence, so the bytewise test is the rune-wise one.
\<close>

definition containsAny :: "string \<Rightarrow> string \<Rightarrow> bool" where
  "containsAny s chars = list_ex (\<lambda>c. c \<in> set chars) s"

lemma containsAny_iff: "containsAny s chars \<longleftrightarrow> (\<exists>c \<in> set s. c \<in> set chars)"
  by (auto simp: containsAny_def list_ex_iff)

definition trimPrefix :: "string \<Rightarrow> string \<Rightarrow> string" where
  "trimPrefix s p = (if hasPrefix s p then drop (length p) s else s)"

definition trimSuffix :: "string \<Rightarrow> string \<Rightarrow> string" where
  "trimSuffix s p = (if hasSuffix s p then take (length s - length p) s else s)"

lemma trimPrefix_append [simp]: "trimPrefix (p @ s) p = s"
  by (simp add: trimPrefix_def hasPrefix_def)

lemma trimSuffix_append [simp]: "trimSuffix (s @ p) p = s"
  by (simp add: trimSuffix_def hasSuffix_def suffix_def)

text \<open>\<^verbatim>\<open>strings.Trim\<close> with an ASCII cutset.\<close>

definition trim :: "string \<Rightarrow> string \<Rightarrow> string" where
  "trim s cutset =
     rev (dropWhile (\<lambda>c. c \<in> set cutset) (rev (dropWhile (\<lambda>c. c \<in> set cutset) s)))"

lemma trim_eq_Nil_iff: "trim s cutset = [] \<longleftrightarrow> (\<forall>c \<in> set s. c \<in> set cutset)"
proof -
  have *: "dropWhile P xs = [] \<longleftrightarrow> (\<forall>x \<in> set xs. P x)" for P and xs :: string
    by (induction xs) auto
  have "(\<forall>x \<in> set (dropWhile P s). P x) \<longleftrightarrow> (\<forall>x \<in> set s. P x)" for P
    by (induction s) auto
  then show ?thesis
    by (simp add: trim_def *)
qed

text \<open>\<^verbatim>\<open>strings.Cut\<close> and \<^verbatim>\<open>strings.Split\<close>; every separator in the sources is one byte.\<close>

fun cut :: "char \<Rightarrow> string \<Rightarrow> string \<times> string \<times> bool" where
  "cut c [] = ([], [], False)"
| "cut c (x # xs) =
     (if x = c then ([], xs, True)
      else (case cut c xs of (a, b, f) \<Rightarrow> (x # a, b, f)))"

lemma cut_eq:
  "cut c s = (takeWhile (\<lambda>x. x \<noteq> c) s, tl (dropWhile (\<lambda>x. x \<noteq> c) s), c \<in> set s)"
  by (induction s) auto

lemma cut_found: "cut c s = (a, b, True) \<longleftrightarrow> s = a @ c # b \<and> c \<notin> set a"
proof
  assume "cut c s = (a, b, True)"
  then have a: "a = takeWhile (\<lambda>x. x \<noteq> c) s" and b: "b = tl (dropWhile (\<lambda>x. x \<noteq> c) s)"
    and c: "c \<in> set s"
    by (auto simp: cut_eq)
  from c obtain y ys where d: "dropWhile (\<lambda>x. x \<noteq> c) s = y # ys"
    by (cases "dropWhile (\<lambda>x. x \<noteq> c) s") (auto simp: dropWhile_eq_Nil_conv)
  then have "y = c"
    using hd_dropWhile [of "\<lambda>x. x \<noteq> c" s] by simp
  with a b d show "s = a @ c # b \<and> c \<notin> set a"
    using takeWhile_dropWhile_id [of "\<lambda>x. x \<noteq> c" s] by (auto dest: set_takeWhileD)
next
  assume "s = a @ c # b \<and> c \<notin> set a"
  then have s: "s = a @ c # b" and "\<forall>x \<in> set a. x \<noteq> c"
    by auto
  then show "cut c s = (a, b, True)"
    by (simp add: cut_eq takeWhile_append2 dropWhile_append2)
qed

lemma cut_not_found: "cut c s = (a, b, False) \<longleftrightarrow> a = s \<and> b = [] \<and> c \<notin> set s"
proof -
  have "c \<notin> set s \<Longrightarrow> cut c s = (s, [], False)"
    by (induction s) auto
  then show ?thesis
    by (auto simp: cut_eq)
qed

lemma cut_append: "c \<notin> set a \<Longrightarrow> cut c (a @ c # b) = (a, b, True)"
  by (simp add: cut_found)

fun split :: "char \<Rightarrow> string \<Rightarrow> string list" where
  "split c [] = [[]]"
| "split c (x # xs) =
     (if x = c then [] # split c xs
      else (case split c xs of [] \<Rightarrow> [[x]] | y # ys \<Rightarrow> (x # y) # ys))"

fun join :: "char \<Rightarrow> string list \<Rightarrow> string" where
  "join c [] = []"
| "join c [x] = x"
| "join c (x # y # ys) = x @ c # join c (y # ys)"

lemma split_not_Nil [simp]: "split c s \<noteq> []"
  by (induction s) (auto split: list.splits)

lemma join_split: "join c (split c s) = s"
proof (induction s)
  case (Cons x xs)
  obtain y ys where "split c xs = y # ys"
    by (cases "split c xs") simp_all
  with Cons show ?case
    by (cases ys) auto
qed simp

lemma split_no_sep: "p \<in> set (split c s) \<Longrightarrow> c \<notin> set p"
proof (induction s arbitrary: p)
  case (Cons x xs)
  obtain y ys where *: "split c xs = y # ys"
    by (cases "split c xs") simp_all
  with Cons.prems consider "p = [] \<or> p \<in> set (split c xs)" | "x \<noteq> c" "p = x # y"
    by (auto split: if_splits)
  then show ?case
    using Cons.IH * by cases auto
qed simp

lemma split_set: "p \<in> set (split c s) \<Longrightarrow> set p \<subseteq> set s"
proof (induction s arbitrary: p)
  case (Cons x xs)
  obtain y ys where *: "split c xs = y # ys"
    by (cases "split c xs") simp_all
  with Cons.prems consider "p = [] \<or> p \<in> set (split c xs)" | "p = x # y"
    by (auto split: if_splits)
  then show ?case
    using Cons.IH * by cases fastforce+
qed simp

lemma split_single: "c \<notin> set s \<Longrightarrow> split c s = [s]"
  by (induction s) auto

lemma split_append: "split c (a @ c # b) = split c a @ split c b"
  by (induction a) (auto split: list.splits)

lemma split_join:
  "xs \<noteq> [] \<Longrightarrow> (\<forall>x \<in> set xs. c \<notin> set x) \<Longrightarrow> split c (join c xs) = xs"
  by (induction c xs rule: join.induct) (simp_all add: split_single split_append)

lemma split_Nil_suffix: "suffix [c] s \<Longrightarrow> [] \<in> set (split c s)"
  by (auto simp: suffix_def split_append)

lemma split_Nil_sublist: "sublist [c, c] s \<Longrightarrow> [] \<in> set (split c s)"
  by (auto simp: sublist_def split_append)

lemma split_suffix: "c \<notin> set p \<Longrightarrow> suffix p s \<Longrightarrow> \<exists>q \<in> set (split c s). suffix p q"
proof -
  assume p: "c \<notin> set p"
  have "\<exists>q \<in> set (split c (a @ p)). suffix p q" for a
  proof (induction a)
    case Nil
    with p show ?case by (simp add: split_single)
  next
    case (Cons x a)
    then show ?case
      by (cases "split c (a @ p)") (auto intro: suffix_ConsI)
  qed
  moreover assume "suffix p s"
  ultimately show ?thesis by (auto simp: suffix_def)
qed

text \<open>\<^verbatim>\<open>strings.LastIndex\<close>: \<^term>\<open>None\<close> for the result -1.\<close>

fun lastIndex :: "string \<Rightarrow> string \<Rightarrow> nat option" where
  "lastIndex [] p = (if p = [] then Some 0 else None)"
| "lastIndex (x # xs) p =
     (case lastIndex xs p of
        Some i \<Rightarrow> Some (Suc i)
      | None \<Rightarrow> if prefix p (x # xs) then Some 0 else None)"

lemma lastIndex_SomeD: "lastIndex s p = Some i \<Longrightarrow> prefix p (drop i s) \<and> i + length p \<le> length s"
proof (induction s arbitrary: i)
  case (Cons x xs)
  then show ?case
    by (auto split: option.splits if_splits dest: prefix_length_le)
qed (simp split: if_splits)

text \<open>
  \<^verbatim>\<open>s[i:j]\<close>. Go panics unless \<^verbatim>\<open>0 <= i <= j <= len(s)\<close>; where the bounds are not evident from the
  guards of the source, a lemma of the component shows that they hold.
\<close>

definition substr :: "string \<Rightarrow> nat \<Rightarrow> nat \<Rightarrow> string" where
  "substr s i j = take (j - i) (drop i s)"

text \<open>\<^verbatim>\<open>bytes.Count\<close> and \<^verbatim>\<open>strings.Count\<close> of one byte.\<close>

definition countByte :: "string \<Rightarrow> char \<Rightarrow> nat" where
  "countByte s c = length (filter (\<lambda>x. x = c) s)"

lemma countByte_0: "countByte s c = 0 \<longleftrightarrow> c \<notin> set s"
  by (auto simp: countByte_def filter_empty_conv)

abbreviation NUL :: char where "NUL \<equiv> CHR 0x00"

abbreviation LF :: char where "LF \<equiv> CHR 0x0A"

abbreviation CR :: char where "CR \<equiv> CHR 0x0D"

text \<open>ASCII letter case: \<^verbatim>\<open>strings.ToLower\<close> on the ASCII strings the sources pass to it.\<close>

definition lowerByte :: "char \<Rightarrow> char" where
  "lowerByte c = (if 65 \<le> code c \<and> code c \<le> 90 then char_of (code c + 32) else c)"

definition toLower :: "string \<Rightarrow> string" where
  "toLower s = map lowerByte s"

definition isASCII :: "string \<Rightarrow> bool" where
  "isASCII s = list_all (\<lambda>c. code c < 128) s"

lemma length_toLower [simp]: "length (toLower s) = length s"
  by (simp add: toLower_def)

lemma code_lowerByte: "code (lowerByte c) = (if 65 \<le> code c \<and> code c \<le> 90 then code c + 32 else code c)"
  by (simp add: lowerByte_def)

lemma lowerByte_idem [simp]: "lowerByte (lowerByte c) = lowerByte c"
  using code_lowerByte [of c] by (auto simp: lowerByte_def [of "lowerByte c"] split: if_splits)

lemma toLower_idem [simp]: "toLower (toLower s) = toLower s"
  by (simp add: toLower_def comp_def)


section \<open>Runes\<close>

text \<open>
  \<^verbatim>\<open>utf8.DecodeRuneInString\<close> on a non-empty string: the rune and its width in bytes; an invalid
  sequence is U+FFFD of width 1. The accepted ranges of the second byte are the table of package
  \<^verbatim>\<open>unicode/utf8\<close> (no overlong forms, no surrogates, nothing above U+10FFFF).
\<close>

definition runeError :: int where
  "runeError = 65533"

definition isCont :: "char \<Rightarrow> bool" where
  "isCont c = (128 \<le> code c \<and> code c \<le> 191)"

definition secondOK :: "int \<Rightarrow> char \<Rightarrow> bool" where
  "secondOK b0 c =
     (if b0 = 224 then 160 \<le> code c \<and> code c \<le> 191
      else if b0 = 237 then 128 \<le> code c \<and> code c \<le> 159
      else if b0 = 240 then 144 \<le> code c \<and> code c \<le> 191
      else if b0 = 244 then 128 \<le> code c \<and> code c \<le> 143
      else isCont c)"

definition decodeRune :: "char \<Rightarrow> string \<Rightarrow> int \<times> nat" where
  "decodeRune c cs =
     (let b0 = code c in
      if b0 < 128 then (b0, 1)
      else if b0 < 194 \<or> 244 < b0 then (runeError, 1)
      else if b0 < 224 then
        (case cs of
           c1 # _ \<Rightarrow> if isCont c1 then ((b0 - 192) * 64 + (code c1 - 128), 2) else (runeError, 1)
         | _ \<Rightarrow> (runeError, 1))
      else if b0 < 240 then
        (case cs of
           c1 # c2 # _ \<Rightarrow>
             if secondOK b0 c1 \<and> isCont c2
             then ((b0 - 224) * 4096 + (code c1 - 128) * 64 + (code c2 - 128), 3)
             else (runeError, 1)
         | _ \<Rightarrow> (runeError, 1))
      else
        (case cs of
           c1 # c2 # c3 # _ \<Rightarrow>
             if secondOK b0 c1 \<and> isCont c2 \<and> isCont c3
             then ((b0 - 240) * 262144 + (code c1 - 128) * 4096 + (code c2 - 128) * 64
                     + (code c3 - 128), 4)
             else (runeError, 1)
         | _ \<Rightarrow> (runeError, 1)))"

text \<open>
  The runes that \<^verbatim>\<open>for _, r := range s\<close> visits, each with the bytes it was decoded from.
\<close>

function runes :: "string \<Rightarrow> (int \<times> string) list" where
  "runes [] = []"
| "runes (c # cs) =
     (let (r, n) = decodeRune c cs in (r, take n (c # cs)) # runes (drop (n - 1) cs))"
  by pat_completeness auto
termination
  by (relation "measure length") auto

text \<open>\<^verbatim>\<open>utf8.ValidString\<close>: no position decodes to the error rune of width one.\<close>

definition validString :: "string \<Rightarrow> bool" where
  "validString s = list_all (\<lambda>(r, b). \<not> (r = runeError \<and> length b = 1)) (runes s)"

definition allRunes :: "(int \<Rightarrow> bool) \<Rightarrow> string \<Rightarrow> bool" where
  "allRunes P s = list_all (\<lambda>(r, b). P r) (runes s)"

lemma decodeRune_ascii: "code c < 128 \<Longrightarrow> decodeRune c cs = (code c, 1)"
  by (simp add: decodeRune_def)

lemma decodeRune_wide:
  assumes "128 \<le> code c" and "decodeRune c cs = (r, n)"
  shows "128 \<le> r \<and> 1 \<le> n \<and> n \<le> Suc (length cs) \<and> (\<forall>d \<in> set (take n (c # cs)). 128 \<le> code d)"
  using assms
  by (auto simp: decodeRune_def Let_def runeError_def isCont_def secondOK_def
      split: if_splits list.splits)

text \<open>
  The bridge from runes to bytes: a condition that treats every rune above the ASCII range alike
  may be tested byte by byte.
\<close>

lemma allRunes_bytes:
  assumes wide: "\<And>r. 128 \<le> r \<Longrightarrow> P r = P 128"
  shows "allRunes P s \<longleftrightarrow> (\<forall>c \<in> set s. P (code c))"
  unfolding allRunes_def
proof (induction s rule: runes.induct)
  case (2 c cs)
  obtain r n where d: "decodeRune c cs = (r, n)"
    by force
  note IH = 2 [OF d [symmetric] refl]
  show ?case
  proof (cases "code c < 128")
    case True
    with d have "r = code c" and "n = 1"
      by (simp_all add: decodeRune_ascii)
    with IH d show ?thesis by simp
  next
    case False
    with d have w: "128 \<le> r" "1 \<le> n" "\<forall>x \<in> set (take n (c # cs)). 128 \<le> code x"
      using decodeRune_wide [of c cs r n] by simp_all
    have "set (c # cs) = set (take n (c # cs)) \<union> set (drop (n - 1) cs)"
      using w(2) by (cases n) (simp_all flip: set_append)
    moreover have "(\<forall>x \<in> set (take n (c # cs)). P (code x)) = P 128"
    proof
      assume "\<forall>x \<in> set (take n (c # cs)). P (code x)"
      moreover have "c \<in> set (take n (c # cs))"
        using w(2) by (cases n) simp_all
      ultimately show "P 128"
        using wide [of "code c"] False by auto
    next
      assume "P 128"
      then show "\<forall>x \<in> set (take n (c # cs)). P (code x)"
        using w(3) wide by blast
    qed
    ultimately show ?thesis
      using IH d w(1) wide [of r] by auto
  qed
qed simp

lemma runes_concat: "concat (map snd (runes s)) = s"
proof (induction s rule: runes.induct)
  case (2 c cs)
  obtain r n where d: "decodeRune c cs = (r, n)"
    by force
  have "1 \<le> n"
    using d decodeRune_wide [of c cs r n] decodeRune_ascii [of c cs]
    by (cases "code c < 128") simp_all
  with 2 [OF d [symmetric] refl] d show ?case
    by (cases n) simp_all
qed simp

lemma runes_ascii: "isASCII s \<Longrightarrow> runes s = map (\<lambda>c. (code c, [c])) s"
  by (induction s) (auto simp: isASCII_def decodeRune_ascii)

lemma validString_ascii: "isASCII s \<Longrightarrow> validString s"
  by (auto simp: validString_def runes_ascii list_all_iff isASCII_def runeError_def)

text \<open>\<^verbatim>\<open>unicode.IsSpace\<close> and \<^verbatim>\<open>strings.Fields\<close>.\<close>

definition isSpace :: "int \<Rightarrow> bool" where
  "isSpace r =
     (r \<in> {9, 10, 11, 12, 13, 32, 133, 160, 5760, 8232, 8233, 8239, 8287, 12288}
      \<or> 8192 \<le> r \<and> r \<le> 8202)"

fun fieldsAux :: "(int \<times> string) list \<Rightarrow> string \<Rightarrow> string list" where
  "fieldsAux [] acc = (if acc = [] then [] else [acc])"
| "fieldsAux ((r, b) # rs) acc =
     (if isSpace r then (if acc = [] then fieldsAux rs [] else acc # fieldsAux rs [])
      else fieldsAux rs (acc @ b))"

definition strings_Fields :: "string \<Rightarrow> string list" where
  "strings_Fields s = fieldsAux (runes s) []"


section \<open>Go maps\<close>

type_synonym 'v gomap = "(string \<times> 'v) list"

definition keys :: "'v gomap \<Rightarrow> string list" where
  "keys m = map fst m"

definition wfMap :: "'v gomap \<Rightarrow> bool" where
  "wfMap m = distinct (keys m)"

text \<open>\<^verbatim>\<open>sortedIDs\<close>: \<^verbatim>\<open>sort.Strings\<close> orders byte strings lexicographically.\<close>

definition sortedIDs :: "'v gomap \<Rightarrow> string list" where
  "sortedIDs m = sort (keys m)"

lemma set_sortedIDs [simp]: "set (sortedIDs m) = set (keys m)"
  by (simp add: sortedIDs_def)

lemma distinct_sortedIDs: "wfMap m \<Longrightarrow> distinct (sortedIDs m)"
  by (simp add: sortedIDs_def wfMap_def)

lemma wfMap_Nil [simp]: "wfMap []"
  by (simp add: wfMap_def keys_def)

lemma sortedIDs_perm: "mset m = mset m' \<Longrightarrow> sortedIDs m = sortedIDs m'"
  by (simp add: sortedIDs_def keys_def) (metis mset_map properties_for_sort sorted_sort mset_sort)

lemma map_of_perm:
  assumes "wfMap m" and "mset m = mset m'"
  shows "map_of m = map_of m'"
proof (rule map_of_inject_set [THEN iffD2])
  have "mset (map fst m) = mset (map fst m')"
    using assms(2) by simp
  with assms(1) show "distinct (map fst m)" and "distinct (map fst m')"
    using mset_eq_imp_distinct_iff [of "map fst m" "map fst m'"] by (auto simp: wfMap_def keys_def)
  show "set m = set m'"
    using assms(2) by (rule mset_eq_setD)
qed

lemma wfMap_perm: "mset m = mset m' \<Longrightarrow> wfMap m \<longleftrightarrow> wfMap m'"
  unfolding wfMap_def keys_def by (metis mset_eq_imp_distinct_iff mset_map)

text \<open>
  Reading a missing key gives the zero value of the element type; writing replaces the entry of
  a present key and adds a missing one.
\<close>

definition mapGet :: "'v \<Rightarrow> 'v gomap \<Rightarrow> string \<Rightarrow> 'v" where
  "mapGet zero m k = (case map_of m k of None \<Rightarrow> zero | Some v \<Rightarrow> v)"

fun mapSet :: "string \<Rightarrow> 'v \<Rightarrow> 'v gomap \<Rightarrow> 'v gomap" where
  "mapSet k v [] = [(k, v)]"
| "mapSet k v ((k', v') # m) = (if k' = k then (k, v) # m else (k', v') # mapSet k v m)"

lemma map_of_mapSet [simp]: "map_of (mapSet k v m) = (map_of m)(k \<mapsto> v)"
  by (induction m) (auto simp: fun_eq_iff)

lemma set_keys_mapSet [simp]: "set (keys (mapSet k v m)) = insert k (set (keys m))"
  using dom_map_of_conv_image_fst [of "mapSet k v m"] dom_map_of_conv_image_fst [of m]
  by (simp add: keys_def)

lemma wfMap_mapSet: "wfMap m \<Longrightarrow> wfMap (mapSet k v m)"
proof (induction m)
  case (Cons x m)
  then show ?case
    using set_keys_mapSet [of k v m] by (cases x) (auto simp: wfMap_def keys_def)
qed (simp add: wfMap_def keys_def)

lemma map_of_keys: "k \<in> set (keys m) \<longleftrightarrow> map_of m k \<noteq> None"
  by (simp add: keys_def map_of_eq_None_iff)

lemma mapGet_Some: "map_of m k = Some v \<Longrightarrow> mapGet zero m k = v"
  by (simp add: mapGet_def)

end
