(* ===== verification/Go_Text.thy ===== *)
theory Go_Text
  imports Go_Prelude
begin

text \<open>
  The text formats of Go's standard library that RepoWolf writes: decimal numbers (\<^verbatim>\<open>strconv\<close>), query
  strings (\<^verbatim>\<open>net/url\<close>) and JSON (\<^verbatim>\<open>encoding/json\<close>).
\<close>

section \<open>Decimal numbers\<close>

text \<open>\<^verbatim>\<open>strconv.Itoa\<close> and \<^verbatim>\<open>strconv.FormatUint\<close> of a number that is not negative.\<close>

function itoa :: "int \<Rightarrow> string" where
  "itoa n = (if n < 10 then [char_of (48 + n)] else itoa (n div 10) @ [char_of (48 + n mod 10)])"
  by pat_completeness auto
termination
  by (relation "measure nat") auto

declare itoa.simps [simp del]

lemma digit_char: "0 \<le> (n :: int) \<Longrightarrow> n < 10 \<Longrightarrow> isDigit (char_of (48 + n))"
  by (simp add: isDigit_def of_char_of)

lemma itoa_digits: "0 \<le> n \<Longrightarrow> itoa n \<noteq> [] \<and> list_all isDigit (itoa n)"
proof (induction n rule: itoa.induct)
  case (1 n)
  show ?case
  proof (cases "n < 10")
    case True
    then show ?thesis using "1.prems" by (simp add: itoa.simps [of n] digit_char)
  next
    case False
    then have "list_all isDigit (itoa (n div 10))"
      using "1.IH" "1.prems" by (simp add: pos_imp_zdiv_nonneg_iff)
    then show ?thesis
      using False by (simp add: itoa.simps [of n] digit_char)
  qed
qed

text \<open>\<^verbatim>\<open>strconv\<close>'s inverse, for the round trip.\<close>

definition atoi :: "string \<Rightarrow> int" where
  "atoi s = foldl (\<lambda>acc c. acc * 10 + (code c - 48)) 0 s"

lemma atoi_itoa: "0 \<le> n \<Longrightarrow> atoi (itoa n) = n"
proof (induction n rule: itoa.induct)
  case (1 n)
  show ?case
  proof (cases "n < 10")
    case True
    then show ?thesis using "1.prems" by (simp add: itoa.simps [of n] atoi_def of_char_of)
  next
    case False
    then have "atoi (itoa (n div 10)) = n div 10"
      using "1.IH" "1.prems" by (simp add: pos_imp_zdiv_nonneg_iff)
    then show ?thesis
      using False by (simp add: itoa.simps [of n] atoi_def of_char_of)
  qed
qed


section \<open>Query strings\<close>

definition upperHex :: "int \<Rightarrow> char" where
  "upperHex n = (if n < 10 then char_of (48 + n) else char_of (55 + n))"

definition queryEscapeByte :: "char \<Rightarrow> string" where
  "queryEscapeByte c =
     (if isAlnum c \<or> c = CHR ''-'' \<or> c = CHR ''_'' \<or> c = CHR ''.'' \<or> c = CHR ''~'' then [c]
      else if c = CHR '' '' then ''+''
      else [CHR ''%'', upperHex (code c div 16), upperHex (code c mod 16)])"

text \<open>\<^verbatim>\<open>url.QueryEscape\<close>\<close>

definition queryEscape :: "string \<Rightarrow> string" where
  "queryEscape s = concat (map queryEscapeByte s)"

text \<open>\<^verbatim>\<open>url.Values.Encode\<close> of a map with one value per key: sorted by key.\<close>

definition queryEncode :: "string gomap \<Rightarrow> string" where
  "queryEncode vals =
     join CHR ''&'' (map (\<lambda>k. queryEscape k @ ''='' @ queryEscape (mapGet [] vals k)) (sortedIDs vals))"

definition queryChar :: "char \<Rightarrow> bool" where
  "queryChar c = (isAlnum c \<or> c \<in> set ''-_.~%+=&'')"

lemma upperHex_alnum: "0 \<le> n \<Longrightarrow> n < 16 \<Longrightarrow> isAlnum (upperHex n)"
  by (auto simp: upperHex_def char_class_defs of_char_of)

lemma queryEscape_chars: "list_all queryChar (queryEscape s)"
proof -
  have "list_all queryChar (queryEscapeByte c)" for c
  proof -
    have "0 \<le> code c div 16" "code c div 16 < 16"
      using code_nonneg [of c] code_less_256 [of c] by linarith+
    then have "isAlnum (upperHex (code c div 16))" "isAlnum (upperHex (code c mod 16))"
      by (simp_all add: upperHex_alnum)
    then show ?thesis
      by (auto simp: queryEscapeByte_def queryChar_def)
  qed
  then show ?thesis
    by (induct s) (auto simp: queryEscape_def)
qed

lemma list_all_join: "P sep \<Longrightarrow> list_all (list_all P) ss \<Longrightarrow> list_all P (join sep ss)"
  by (induct sep ss rule: join.induct) auto

lemma queryEncode_chars: "list_all queryChar (queryEncode vals)"
  unfolding queryEncode_def
proof (rule list_all_join)
  have "queryChar CHR ''=''"
    by (simp add: queryChar_def)
  then show "list_all (list_all queryChar)
      (map (\<lambda>k. queryEscape k @ ''='' @ queryEscape (mapGet [] vals k)) (sortedIDs vals))"
    by (simp add: list.pred_map comp_def queryEscape_chars list.pred_True)
qed (simp add: queryChar_def)


section \<open>JSON\<close>

datatype json =
    JNull
  | JBool bool
  | JNumber int
  | JString string
  | JArray "json list"
  | JObject "(string \<times> json) list"

text \<open>
  The string encoding of \<^verbatim>\<open>encoding/json\<close> with HTML escaping, rune by rune: invalid UTF-8 becomes the
  replacement character, the two Unicode line separators are escaped, other runes above ASCII are
  copied.
\<close>

definition lowerHex :: "int \<Rightarrow> char" where
  "lowerHex n = (if n < 10 then char_of (48 + n) else char_of (87 + n))"

definition jsonEscapeRune :: "int \<times> string \<Rightarrow> string" where
  "jsonEscapeRune rb =
     (case rb of (r, b) \<Rightarrow>
        if r = runeError \<and> length b = 1 then [CHR 0x5C] @ ''ufffd''
        else if r = 0x2028 then [CHR 0x5C] @ ''u2028''
        else if r = 0x2029 then [CHR 0x5C] @ ''u2029''
        else if r \<ge> 128 then b
        else if r = 0x22 \<or> r = 0x5C then CHR 0x5C # b
        else if r = 8 then [CHR 0x5C, CHR ''b'']
        else if r = 12 then [CHR 0x5C, CHR ''f'']
        else if r = 10 then [CHR 0x5C, CHR ''n'']
        else if r = 13 then [CHR 0x5C, CHR ''r'']
        else if r = 9 then [CHR 0x5C, CHR ''t'']
        else if r < 32 \<or> r = 0x3C \<or> r = 0x3E \<or> r = 0x26
        then [CHR 0x5C] @ ''u00'' @ [lowerHex (r div 16), lowerHex (r mod 16)]
        else b)"

definition jsonString :: "string \<Rightarrow> string" where
  "jsonString s = [CHR 0x22] @ concat (map jsonEscapeRune (runes s)) @ [CHR 0x22]"

text \<open>\<^verbatim>\<open>json.Marshal\<close>; the members of an object are in the order they are written.\<close>

fun jsonMarshal :: "json \<Rightarrow> string" where
  "jsonMarshal JNull = ''null''"
| "jsonMarshal (JBool b) = (if b then ''true'' else ''false'')"
| "jsonMarshal (JNumber n) = (if n < 0 then CHR ''-'' # itoa (- n) else itoa n)"
| "jsonMarshal (JString s) = jsonString s"
| "jsonMarshal (JArray vs) = [CHR ''[''] @ join CHR '','' (map jsonMarshal vs) @ [CHR '']'']"
| "jsonMarshal (JObject ms) =
     [CHR 0x7B] @ join CHR '','' (map (\<lambda>(k, v). jsonString k @ '':'' @ jsonMarshal v) ms) @ [CHR 0x7D]"

text \<open>A Go map is written in the order of its keys, a nil slice as null.\<close>

definition jsonMap :: "json gomap \<Rightarrow> json" where
  "jsonMap m = JObject (map (\<lambda>k. (k, mapGet JNull m k)) (sortedIDs m))"

definition jsonStrings :: "string list \<Rightarrow> json" where
  "jsonStrings vs = (if vs = [] then JNull else JArray (map JString vs))"

end
