(* ===== verification/Go_Errors.thy ===== *)
theory Go_Errors
  imports Go_Prelude
begin

text \<open>
  Go's error values. A sentinel (\<^verbatim>\<open>errors.New\<close> in a package-level \<^verbatim>\<open>var\<close>) is a constructor of
  \<open>sentinel\<close>; \<^verbatim>\<open>fmt.Errorf\<close> keeps its format and arguments (the rendered text is never
  inspected by the program); wrapping with \<^verbatim>\<open>%w\<close>, \<^verbatim>\<open>errors.Join\<close> and the error types with an
  \<^verbatim>\<open>Unwrap\<close> or \<^verbatim>\<open>Is\<close> method are constructors of their own, and \<open>errors_Is\<close> is
  \<^verbatim>\<open>errors.Is\<close> over them. The sentinels come from \<^verbatim>\<open>policy/snapshot.go\<close>,
  \<^verbatim>\<open>rpcstatus/status.go\<close>, \<^verbatim>\<open>runner/command.go\<close>, \<^verbatim>\<open>gitservice\<close>, \<^verbatim>\<open>audit/writer.go\<close>,
  \<^verbatim>\<open>context\<close> and \<^verbatim>\<open>io\<close>.
\<close>

datatype sentinel =
    \<comment> \<open>\<^verbatim>\<open>policy\<close>\<close>
    ErrDenied | ErrRepository | ErrRefPolicy
    \<comment> \<open>\<^verbatim>\<open>rpcstatus\<close>\<close>
  | ErrUnauthenticated | ErrInvalidArgument | ErrUnsupported | ErrRepositoryUnavailable
  | ErrProviderFailure | ErrNotFound | ErrIssueKind | ErrPullKind | ErrFailedPrecondition
  | ErrWriteOutcomeUnknown | ErrEditPartial | ErrResourceExhausted | ErrServiceUnavailable
    \<comment> \<open>\<^verbatim>\<open>runner\<close>\<close>
  | ErrInvalidCommand | ErrStartFailed | ErrCommandFailed | ErrInputLimit | ErrOutputLimit
  | ErrCleanupFailed
    \<comment> \<open>\<^verbatim>\<open>gitservice\<close>\<close>
  | ErrInvalidFrame | ErrChunkLimit | ErrSendBlocked | ErrTerminalDelivery | ErrTerminalAudit
    \<comment> \<open>\<^verbatim>\<open>audit\<close>\<close>
  | ErrSink | ErrIncomplete
    \<comment> \<open>\<^verbatim>\<open>provider/github\<close>, \<^verbatim>\<open>provider/gitea\<close>: \<^verbatim>\<open>ErrInvalidRequest\<close>\<close>
  | GitHubErrInvalidRequest | GiteaErrInvalidRequest
    \<comment> \<open>\<^verbatim>\<open>providerhttp\<close>\<close>
  | ErrAuthority | ErrAuthorization | ErrRedirect | ErrTrustRoots | ErrTimeout | ErrResponseLimit
    \<comment> \<open>\<^verbatim>\<open>client/gitssh\<close>\<close>
  | ErrInvalidServerFrame | ErrRelayCompleted
    \<comment> \<open>\<^verbatim>\<open>context\<close> and \<^verbatim>\<open>io\<close>\<close>
  | ContextCanceled | ContextDeadlineExceeded | IoEOF | IoUnexpectedEOF | IoErrShortWrite

text \<open>A requested ref update, \<^verbatim>\<open>policy.Update\<close>.\<close>

record update =
  OldOID :: string
  NewOID :: string
  Ref :: string

text \<open>The gRPC status codes the program uses and the structured detail it attaches.\<close>

datatype grpc_code =
    OK | Canceled | InvalidArgument | DeadlineExceeded | NotFound | PermissionDenied
  | ResourceExhausted | FailedPrecondition | Unimplemented | Internal | Unavailable
  | Unauthenticated | OtherCode nat

record error_info =
  Reason :: string
  Domain :: string

record grpc_status =
  Code :: grpc_code
  Message :: string
  Details :: "error_info list"

datatype arg = ArgS string | ArgI int

datatype go_error =
    Sentinel sentinel
  | Errorf string "arg list"
  | Wrapf string "arg list" go_error
  | Join "go_error list"
  | RejectedUpdates "update list"
  | ProcessFailure go_error int
  | StatusError grpc_status
  | TrustedStatus grpc_status sentinel

text \<open>
  \<^verbatim>\<open>errors.Is\<close>: the error itself, what it unwraps to, or what its \<^verbatim>\<open>Is\<close> method claims.
  \<^verbatim>\<open>rejectedUpdatesError\<close> unwraps to \<^verbatim>\<open>policy.ErrRefPolicy\<close>, \<^verbatim>\<open>processFailure\<close> to its cause, and
  the trusted statuses of \<^verbatim>\<open>rpcstatus\<close> answer for one sentinel each.
\<close>

fun errors_Is :: "go_error \<Rightarrow> sentinel \<Rightarrow> bool" where
  "errors_Is (Sentinel t) s = (t = s)"
| "errors_Is (Errorf _ _) s = False"
| "errors_Is (Wrapf _ _ e) s = errors_Is e s"
| "errors_Is (Join es) s = list_ex (\<lambda>e. errors_Is e s) es"
| "errors_Is (RejectedUpdates _) s = (s = ErrRefPolicy)"
| "errors_Is (ProcessFailure e _) s = errors_Is e s"
| "errors_Is (StatusError _) s = False"
| "errors_Is (TrustedStatus _ t) s = (t = s)"

type_synonym 'a result = "go_error + 'a"

definition errorf :: "string \<Rightarrow> 'a result" where
  "errorf msg = Inl (Errorf msg [])"

definition fail :: "sentinel \<Rightarrow> 'a result" where
  "fail s = Inl (Sentinel s)"

lemma errorf_neq_Inr [simp]: "errorf msg \<noteq> Inr x" "\<not> isOK (errorf msg)"
  by (simp_all add: errorf_def)

lemma fail_neq_Inr [simp]: "fail s \<noteq> Inr x" "\<not> isOK (fail s)"
  by (simp_all add: fail_def)

lemma bindE_errorf [simp]: "bindE (errorf msg) f = errorf msg"
  by (simp add: errorf_def)

lemma bindE_fail [simp]: "bindE (fail s) f = fail s"
  by (simp add: fail_def)

lemma isOK_if_errorf: "isOK (if b then errorf msg else k) \<longleftrightarrow> \<not> b \<and> isOK k"
  by simp

lemma isOK_if_fail: "isOK (if b then fail s else k) \<longleftrightarrow> \<not> b \<and> isOK k"
  by simp

lemmas isOK_steps = isOK_bindE_const isOK_if_Inl isOK_if_errorf isOK_if_fail

end
