(* ===== verification/Pktline.thy ===== *)
theory Pktline
  imports Go_Errors
begin

text \<open>
  \<^verbatim>\<open>internal/gitproto/pktline.go\<close>: the bounded reader of Git pkt-lines. The underlying
  \<^verbatim>\<open>io.Reader\<close> is the bytes it will still deliver and the error it reports after them. Every byte
  taken from it is recorded in \<open>raw\<close>, the buffer that is later forwarded verbatim.
\<close>

definition maximumPacketLength :: int where
  "maximumPacketLength = 65520"

record packet_reader =
  input :: string
  fault :: go_error
  limit :: int
  raw :: string

definition newPacketReader :: "string \<Rightarrow> go_error \<Rightarrow> int \<Rightarrow> packet_reader result" where
  "newPacketReader inp flt lim =
     (if lim < 4 then errorf ''receive-pack byte limit must allow a pkt-line header''
      else Inr \<lparr>input = inp, fault = flt, limit = lim, raw = []\<rparr>)"

text \<open>
  \<^verbatim>\<open>io.ReadFull\<close>: exactly \<open>n\<close> bytes; \<^verbatim>\<open>EOF\<close> only if none was read, \<^verbatim>\<open>ErrUnexpectedEOF\<close> after
  some, any other error of the reader unchanged.
\<close>

definition readFull :: "nat \<Rightarrow> packet_reader \<Rightarrow> (string \<times> packet_reader) result" where
  "readFull n r =
     (if n \<le> length (input r) then Inr (take n (input r), r\<lparr>input := drop n (input r)\<rparr>)
      else if input r \<noteq> [] \<and> fault r = Sentinel IoEOF then fail IoUnexpectedEOF
      else Inl (fault r))"

definition readExact :: "nat \<Rightarrow> packet_reader \<Rightarrow> (string \<times> packet_reader) result" where
  "readExact n r =
     (if int n > limit r - int (length (raw r))
      then Inl (Errorf ''receive-pack prefix exceeds %d bytes'' [ArgI (limit r)])
      else bindE (readFull n r) (\<lambda>(data, r'). Inr (data, r'\<lparr>raw := raw r' @ data\<rparr>)))"

definition hexValue :: "char \<Rightarrow> int option" where
  "hexValue c =
     (if 48 \<le> code c \<and> code c \<le> 57 then Some (code c - 48)
      else if 97 \<le> code c \<and> code c \<le> 102 then Some (code c - 97 + 10)
      else if 65 \<le> code c \<and> code c \<le> 70 then Some (code c - 65 + 10)
      else None)"

fun packetLengthLoop :: "string \<Rightarrow> int \<Rightarrow> int option" where
  "packetLengthLoop [] value = Some value"
| "packetLengthLoop (c # cs) value =
     (case hexValue c of None \<Rightarrow> None | Some d \<Rightarrow> packetLengthLoop cs (16 * value + d))"

definition parsePacketLength :: "string \<Rightarrow> int result" where
  "parsePacketLength header =
     (if length header \<noteq> 4
      then Inl (Errorf ''pkt-line header has length %d'' [ArgI (int (length header))])
      else case packetLengthLoop header 0 of
        None \<Rightarrow> Inl (Errorf ''invalid pkt-line length %q'' [ArgS header])
      | Some value \<Rightarrow> Inr value)"

text \<open>A packet is its payload, whether it is a flush packet, and the reader after it.\<close>

definition readPacket :: "packet_reader \<Rightarrow> (string \<times> bool \<times> packet_reader) result" where
  "readPacket r =
     (case readExact 4 r of
        Inl e \<Rightarrow> Inl (Wrapf ''read pkt-line header: %w'' [] e)
      | Inr (header, r1) \<Rightarrow>
          bindE (parsePacketLength header) (\<lambda>len.
          if len = 0 then Inr ([], True, r1)
          else if len < 4 then Inl (Errorf ''invalid pkt-line length %d'' [ArgI len])
          else if len > maximumPacketLength
          then Inl (Errorf ''pkt-line length %d exceeds protocol maximum %d''
                 [ArgI len, ArgI maximumPacketLength])
          else if len - 4 > limit r1 - int (length (raw r1))
          then Inl (Errorf ''receive-pack prefix exceeds %d bytes'' [ArgI (limit r1)])
          else (case readExact (nat (len - 4)) r1 of
                  Inl e \<Rightarrow> Inl (Wrapf ''read pkt-line payload: %w'' [] e)
                | Inr (payload, r2) \<Rightarrow> Inr (payload, False, r2))))"


section \<open>The interface of a packet source\<close>

text \<open>
  What the parsers rely on: a successful read moves a non-empty run of bytes from what is pending
  to what is recorded, never past the budget and never changing it.
\<close>

locale packet_source =
  fixes read :: "'r \<Rightarrow> (string \<times> bool \<times> 'r) result"
    and recorded :: "'r \<Rightarrow> string"
    and pending :: "'r \<Rightarrow> string"
    and budget :: "'r \<Rightarrow> int"
  assumes conserve: "read r = Inr (p, f, r') \<Longrightarrow> recorded r' @ pending r' = recorded r @ pending r"
    and progress: "read r = Inr (p, f, r') \<Longrightarrow> length (pending r') < length (pending r)"
    and same_budget: "read r = Inr (p, f, r') \<Longrightarrow> budget r' = budget r"
    and within: "read r = Inr (p, f, r') \<Longrightarrow> int (length (recorded r)) \<le> budget r \<Longrightarrow>
      int (length (recorded r')) \<le> budget r'"
begin

abbreviation step :: "'r \<Rightarrow> 'r \<Rightarrow> bool" where
  "step r r' \<equiv> (\<exists>p f. read r = Inr (p, f, r'))"

lemma steps_conserve: "step\<^sup>*\<^sup>* r r' \<Longrightarrow> recorded r' @ pending r' = recorded r @ pending r"
  by (induction rule: rtranclp_induct) (auto dest: conserve)

lemma steps_budget: "step\<^sup>*\<^sup>* r r' \<Longrightarrow> budget r' = budget r"
  by (induction rule: rtranclp_induct) (auto dest: same_budget)

lemma steps_within:
  "step\<^sup>*\<^sup>* r r' \<Longrightarrow> int (length (recorded r)) \<le> budget r \<Longrightarrow> int (length (recorded r')) \<le> budget r'"
  by (induction rule: rtranclp_induct) (auto dest: within)

lemma steps_length: "step\<^sup>*\<^sup>* r r' \<Longrightarrow> length (pending r') \<le> length (pending r)"
  by (induction rule: rtranclp_induct) (auto dest: progress)

lemma steps_prefix: "step\<^sup>*\<^sup>* r r' \<Longrightarrow> recorded r = [] \<Longrightarrow> prefix (recorded r') (pending r)"
  using steps_conserve [of r r'] by (auto simp: prefix_def) metis

end

lemma readFull_Inr:
  "readFull n r = Inr (d, r') \<longleftrightarrow>
     n \<le> length (input r) \<and> d = take n (input r) \<and> r' = r\<lparr>input := drop n (input r)\<rparr>"
  by (auto simp: readFull_def)

lemma readExact_Inr:
  "readExact n r = Inr (d, r') \<longleftrightarrow>
     int (length (raw r)) + int n \<le> limit r \<and> n \<le> length (input r) \<and> d = take n (input r)
     \<and> r' = r\<lparr>input := drop n (input r), raw := raw r @ d\<rparr>"
  by (auto simp: readExact_def result_simps readFull_Inr split: prod.splits)

text \<open>The two reads of a packet, undone: its bytes are the header and the payload.\<close>

lemma readPacket_Inr:
  assumes "readPacket r = Inr (p, f, r')"
  shows "\<exists>header len. length header = 4 \<and> parsePacketLength header = Inr len
    \<and> (if f then len = 0 \<and> p = [] else 4 \<le> len \<and> len \<le> maximumPacketLength \<and> int (length p) = len - 4)
    \<and> input r = header @ p @ input r' \<and> raw r' = raw r @ header @ p
    \<and> limit r' = limit r \<and> fault r' = fault r \<and> int (length (raw r')) \<le> limit r"
proof -
  from assms obtain header r1 where h: "readExact 4 r = Inr (header, r1)"
    by (cases "readExact 4 r") (auto simp: readPacket_def)
  with assms obtain len where len: "parsePacketLength header = Inr len"
    by (cases "parsePacketLength header") (auto simp: readPacket_def)
  have r1: "raw r1 = raw r @ header" "limit r1 = limit r" "fault r1 = fault r"
    "input r = header @ input r1" "length header = 4" "int (length (raw r1)) \<le> limit r"
    using h by (auto simp: readExact_Inr)
  show ?thesis
  proof (cases "len = 0")
    case True
    with assms h len have "r' = r1" "f" "p = []"
      by (simp_all add: readPacket_def)
    with True r1 len show ?thesis
      by (intro exI [of _ header]) simp
  next
    case False
    with assms h len have ok: "4 \<le> len" "len \<le> maximumPacketLength" "\<not> f"
      and "readExact (nat (len - 4)) r1 = Inr (p, r')"
      by (auto simp: readPacket_def split: if_splits sum.splits)
    then have "length p = nat (len - 4)" "input r1 = p @ input r'" "raw r' = raw r1 @ p"
      "limit r' = limit r1" "fault r' = fault r1" "int (length (raw r')) \<le> limit r1"
      by (auto simp: readExact_Inr)
    with ok r1 len show ?thesis
      by (intro exI [of _ header] exI [of _ len]) simp
  qed
qed

interpretation pkt: packet_source readPacket raw input limit
proof (unfold_locales, goal_cases)
  case (1 r p f r')
  then show ?case using readPacket_Inr [OF 1] by auto
next
  case (2 r p f r')
  then show ?case using readPacket_Inr [OF 2] by auto
next
  case (3 r p f r')
  then show ?case using readPacket_Inr [OF 3] by auto
next
  case (4 r p f r')
  then show ?case using readPacket_Inr [OF 4(1)] by auto
qed

lemma readPacket_shrinks [termination_simp]:
  "readPacket r = Inr (p, f, r') \<Longrightarrow> length (input r') < length (input r)"
  by (rule pkt.progress)

text \<open>The reads of a parser: any number of successful packet reads.\<close>

definition reads :: "packet_reader \<Rightarrow> packet_reader \<Rightarrow> bool" where
  "reads r r' = (\<lambda>r r'. \<exists>p f. readPacket r = Inr (p, f, r'))\<^sup>*\<^sup>* r r'"

lemma reads_refl [simp]: "reads r r"
  by (simp add: reads_def)

lemma reads_step: "readPacket r = Inr (p, f, r1) \<Longrightarrow> reads r1 r2 \<Longrightarrow> reads r r2"
  unfolding reads_def by (rule converse_rtranclp_into_rtranclp) blast+

lemma reads_one: "readPacket r = Inr (p, f, r1) \<Longrightarrow> reads r r1"
  using reads_step reads_refl by blast

lemma reads_trans: "reads r r1 \<Longrightarrow> reads r1 r2 \<Longrightarrow> reads r r2"
  unfolding reads_def by (rule rtranclp_trans)

lemmas reads_facts =
  pkt.steps_conserve [folded reads_def] pkt.steps_budget [folded reads_def]
  pkt.steps_within [folded reads_def] pkt.steps_prefix [folded reads_def]


section \<open>Packet lengths\<close>

lemma hexValue_bounds: "hexValue c = Some d \<Longrightarrow> 0 \<le> d \<and> d \<le> 15"
  by (auto simp: hexValue_def split: if_splits)

lemma packetLengthLoop_bounds:
  "packetLengthLoop cs v = Some w \<Longrightarrow> 0 \<le> v \<Longrightarrow> 0 \<le> w \<and> w < (v + 1) * 16 ^ length cs"
proof (induction cs arbitrary: v)
  case (Cons c cs)
  then obtain d where d: "hexValue c = Some d" "packetLengthLoop cs (16 * v + d) = Some w"
    by (auto split: option.splits)
  with hexValue_bounds [OF d(1)] Cons.prems(2) have "0 \<le> w" "w < (16 * v + d + 1) * 16 ^ length cs"
    using Cons.IH [OF d(2)] by simp_all
  moreover have "(16 * v + d + 1) * 16 ^ length cs \<le> (16 * (v + 1)) * 16 ^ length cs"
    using hexValue_bounds [OF d(1)] by (intro mult_right_mono) simp_all
  ultimately have "0 \<le> w \<and> w < (16 * (v + 1)) * 16 ^ length cs"
    by linarith
  then show ?case
    by (simp add: algebra_simps)
qed simp

lemma parsePacketLength_bounds: "parsePacketLength h = Inr len \<Longrightarrow> 0 \<le> len \<and> len < 65536"
  using packetLengthLoop_bounds [of h 0 len]
  by (auto simp: parsePacketLength_def split: if_splits option.splits)


section \<open>Writing packets\<close>

text \<open>The pkt-line encoding a conforming peer uses, and the flush packet.\<close>

definition hexDigit :: "int \<Rightarrow> char" where
  "hexDigit d = (if d < 10 then char_of (48 + d) else char_of (87 + d))"

definition hex4 :: "int \<Rightarrow> string" where
  "hex4 n = [hexDigit (n div 16 div 16 div 16 mod 16), hexDigit (n div 16 div 16 mod 16),
     hexDigit (n div 16 mod 16), hexDigit (n mod 16)]"

definition encodePacket :: "string \<Rightarrow> string" where
  "encodePacket payload = hex4 (int (length payload) + 4) @ payload"

definition flushPacket :: string where
  "flushPacket = ''0000''"

lemma hexValue_hexDigit: "0 \<le> d \<Longrightarrow> d < 16 \<Longrightarrow> hexValue (hexDigit d) = Some d"
  by (simp add: hexValue_def hexDigit_def)

lemma hex4_sum:
  assumes "0 \<le> n" and "n < (65536 :: int)"
  shows "16 * (16 * (16 * (n div 16 div 16 div 16 mod 16) + n div 16 div 16 mod 16) + n div 16 mod 16)
    + n mod 16 = n"
proof -
  have "0 \<le> n div 16 div 16 div 16" "n div 16 div 16 div 16 < 16"
    using assms by simp_all
  then have "n div 16 div 16 div 16 mod 16 = n div 16 div 16 div 16"
    by (rule mod_pos_pos_trivial)
  then show ?thesis
    by (simp only: mult_div_mod_eq)
qed

lemma parsePacketLength_hex4: "0 \<le> n \<Longrightarrow> n < 65536 \<Longrightarrow> parsePacketLength (hex4 n) = Inr n"
proof -
  assume n: "0 \<le> n" "n < 65536"
  have "packetLengthLoop (hex4 n) 0 =
      Some (16 * (16 * (16 * (n div 16 div 16 div 16 mod 16) + n div 16 div 16 mod 16) + n div 16 mod 16)
        + n mod 16)"
    by (simp add: hex4_def hexValue_hexDigit)
  also have "\<dots> = Some n"
    by (simp only: hex4_sum [OF n])
  finally show ?thesis
    by (simp add: parsePacketLength_def) (simp add: hex4_def)
qed

lemma length_hex4 [simp]: "length (hex4 n) = 4"
  by (simp add: hex4_def)

lemma readExact_append:
  "input r = d @ rest \<Longrightarrow> int (length (raw r)) + int (length d) \<le> limit r \<Longrightarrow>
     readExact (length d) r = Inr (d, r\<lparr>input := rest, raw := raw r @ d\<rparr>)"
  by (simp add: readExact_Inr)

lemma readPacket_encodePacket:
  assumes "input r = encodePacket p @ rest" and "length p + 4 \<le> 65520"
    and "int (length (raw r)) + int (length (encodePacket p)) \<le> limit r"
  shows "readPacket r = Inr (p, False, r\<lparr>input := rest, raw := raw r @ encodePacket p\<rparr>)"
proof -
  let ?r1 = "r\<lparr>input := p @ rest, raw := raw r @ hex4 (int (length p) + 4)\<rparr>"
  have "readExact 4 r = Inr (hex4 (int (length p) + 4), ?r1)"
    using assms readExact_append [of r "hex4 (int (length p) + 4)" "p @ rest"] by (simp add: encodePacket_def)
  moreover have "parsePacketLength (hex4 (int (length p) + 4)) = Inr (int (length p) + 4)"
    using assms(2) by (intro parsePacketLength_hex4) linarith+
  moreover have "readExact (length p) ?r1 = Inr (p, ?r1\<lparr>input := rest, raw := raw ?r1 @ p\<rparr>)"
    using assms(3) by (intro readExact_append) (simp_all add: encodePacket_def)
  ultimately show ?thesis
    using assms(2,3) by (simp add: readPacket_def maximumPacketLength_def encodePacket_def)
qed

lemma readPacket_flushPacket:
  assumes "input r = flushPacket @ rest" and "int (length (raw r)) + 4 \<le> limit r"
  shows "readPacket r = Inr ([], True, r\<lparr>input := rest, raw := raw r @ flushPacket\<rparr>)"
proof -
  have "readExact 4 r = Inr (flushPacket, r\<lparr>input := rest, raw := raw r @ flushPacket\<rparr>)"
    using assms by (simp add: readExact_Inr flushPacket_def)
  moreover have "parsePacketLength flushPacket = Inr 0"
    using parsePacketLength_hex4 [of 0] by (simp add: flushPacket_def hex4_def hexDigit_def char_of_def bit_numeral_rec)
  ultimately show ?thesis
    by (simp add: readPacket_def)
qed

text \<open>
  A packet that is written is read back: from a reader whose input starts with the encoding of a
  payload of at most 65516 bytes that fits the remaining budget, \<^verbatim>\<open>read\<close> returns exactly that
  payload, records exactly its encoding and leaves exactly the rest of the input.
\<close>

theorem readPacket_roundtrip:
  assumes "input r = encodePacket p @ rest" and "length p \<le> 65516"
    and "int (length (raw r)) + int (length (encodePacket p)) \<le> limit r"
  shows "readPacket r = Inr (p, False, r\<lparr>input := rest, raw := raw r @ encodePacket p\<rparr>)"
  using assms by (intro readPacket_encodePacket) simp_all

theorem readPacket_roundtrip_witness:
  "readPacket \<lparr>input = ''0009hello0000'', fault = Sentinel IoEOF, limit = 100, raw = []\<rparr> =
     Inr (''hello'', False, \<lparr>input = ''0000'', fault = Sentinel IoEOF, limit = 100, raw = ''0009hello''\<rparr>)"
proof -
  have "encodePacket ''hello'' = ''0009hello''"
    by code_simp
  then show ?thesis
    using readPacket_roundtrip
      [of "\<lparr>input = ''0009hello0000'', fault = Sentinel IoEOF, limit = 100, raw = []\<rparr>" "''hello''" "''0000''"]
    by simp
qed

end
