(* ===== verification/Proto_Common.thy ===== *)
theory Proto_Common
  imports Main "HOL-Library.Word"
begin

text \<open>
  The messages that the Git, GitHub and Gitea services share (\<^verbatim>\<open>proto/repowolf/v1/common.proto\<close>). A
  message pointer that may be nil is an option; an integer has the width of its field.
\<close>

record repo_selector =
  msgHost :: string
  msgOwner :: string
  msgName :: string
  msgSshPort :: "32 word"
  msgSshUser :: string

record request_context =
  ctxRepository :: "repo_selector option"

end
