(* ===== verification/Git_Frames.thy ===== *)
theory Git_Frames
  imports Pktline Proto_Common
begin

text \<open>
  The frames of a Git stream: \<^verbatim>\<open>gitservice/chunk.go\<close>, \<^verbatim>\<open>gitservice/frame.go\<close>, the copying of
  frames to and from a process (\<^verbatim>\<open>gitservice/copy.go\<close>, \<^verbatim>\<open>sendBytes\<close> of \<^verbatim>\<open>receive.go\<close>) and
  \<^verbatim>\<open>clientDataReader\<close> (\<^verbatim>\<open>receive.go\<close>), which presents the data frames of a client as one
  byte stream.

  A protobuf message pointer that may be nil is an option. What a stream delivers is the list of the
  results its successive \<^verbatim>\<open>Recv\<close> calls return.
\<close>

record git_open =
  openRepository :: "repo_selector option"

datatype terminal_category =
    Unspecified | Completed | TermPermissionDenied | TermInvalidRequest | TermProviderFailure
  | TermDeadlineExceeded | TermLimitExceeded | TermUnavailable

record git_terminal =
  ExitCode :: "32 word"
  Category :: terminal_category

datatype frame_payload =
    FrameOpen "git_open option"
  | FrameData "string option"
  | FrameTerminal "git_terminal option"
  | NoPayload

type_synonym git_frame = "frame_payload option"

definition maxChunkBytes :: int where
  "maxChunkBytes = 65536"

definition validChunk :: "string \<Rightarrow> go_error option" where
  "validChunk data = (if int (length data) > maxChunkBytes then Some (Sentinel ErrChunkLimit) else None)"


section \<open>The client's frames\<close>

record client_frame_state =
  opened :: bool
  failed :: bool

definition newClientState :: client_frame_state where
  "newClientState = \<lparr>opened = False, failed = False\<rparr>"

definition clientReject :: "client_frame_state \<Rightarrow> sentinel \<Rightarrow> go_error option \<times> client_frame_state" where
  "clientReject st e = (Some (Sentinel e), st\<lparr>failed := True\<rparr>)"

definition client_Accept :: "client_frame_state \<Rightarrow> git_frame \<Rightarrow> go_error option \<times> client_frame_state" where
  "client_Accept st frame =
     (case frame of
        None \<Rightarrow> clientReject st ErrInvalidFrame
      | Some payload \<Rightarrow>
          if failed st then clientReject st ErrInvalidFrame
          else (case payload of
              FrameOpen open \<Rightarrow>
                if opened st \<or> (case open of None \<Rightarrow> True | Some m \<Rightarrow> openRepository m = None)
                then clientReject st ErrInvalidFrame
                else (None, st\<lparr>opened := True\<rparr>)
            | FrameData data \<Rightarrow>
                (case data of
                   None \<Rightarrow> clientReject st ErrInvalidFrame
                 | Some bytes \<Rightarrow>
                     if \<not> opened st then clientReject st ErrInvalidFrame
                     else (case validChunk bytes of
                         Some err \<Rightarrow> (Some err, st\<lparr>failed := True\<rparr>)
                       | None \<Rightarrow> (None, st)))
            | _ \<Rightarrow> clientReject st ErrInvalidFrame))"

definition client_Close :: "client_frame_state \<Rightarrow> go_error option" where
  "client_Close st = (if failed st \<or> \<not> opened st then Some (Sentinel ErrInvalidFrame) else None)"

text \<open>\<^verbatim>\<open>frame.GetData().GetData()\<close>: the getters of protobuf return the zero value through nil.\<close>

definition frameData :: "git_frame \<Rightarrow> string" where
  "frameData frame =
     (case frame of Some (FrameData (Some bytes)) \<Rightarrow> bytes | _ \<Rightarrow> [])"


section \<open>The server's frames\<close>

definition validTerminal :: "git_terminal option \<Rightarrow> bool" where
  "validTerminal terminal =
     (case terminal of
        None \<Rightarrow> False
      | Some t \<Rightarrow>
          (if Category t = Completed then ExitCode t = 0
           else if Category t \<in> {TermPermissionDenied, TermInvalidRequest, TermProviderFailure,
               TermDeadlineExceeded, TermLimitExceeded, TermUnavailable}
           then ExitCode t \<noteq> 0
           else False))"

text \<open>The state is whether the terminal frame has been sent; the result says whether this one is it.\<close>

definition server_Accept :: "bool \<Rightarrow> git_frame \<Rightarrow> (bool \<times> go_error option) \<times> bool" where
  "server_Accept terminated frame =
     (case frame of
        None \<Rightarrow> ((False, Some (Sentinel ErrInvalidFrame)), terminated)
      | Some payload \<Rightarrow>
          if terminated then ((False, Some (Sentinel ErrInvalidFrame)), terminated)
          else (case payload of
              FrameData (Some bytes) \<Rightarrow> ((False, validChunk bytes), terminated)
            | FrameTerminal t \<Rightarrow>
                if \<not> validTerminal t then ((False, Some (Sentinel ErrInvalidFrame)), terminated)
                else ((True, None), True)
            | _ \<Rightarrow> ((False, Some (Sentinel ErrInvalidFrame)), terminated)))"


section \<open>Copying\<close>

definition dataFrameForWire :: "string \<Rightarrow> git_frame" where
  "dataFrameForWire data = Some (FrameData (Some data))"

text \<open>
  \<^verbatim>\<open>sendBytes\<close>. The send pump is a function from the frames already sent to the error of the next
  send, if any. The result is the frames sent and the error.
\<close>

function sendLoop ::
  "(git_frame list \<Rightarrow> go_error option) \<Rightarrow> nat \<Rightarrow> git_frame list \<Rightarrow> string \<Rightarrow> git_frame list \<times> go_error option" where
  "sendLoop send chunkSize sent data =
     (if data = [] \<or> chunkSize = 0 then (sent, None)
      else let size = (if length data > chunkSize then chunkSize else length data) in
        case send sent of
          Some err \<Rightarrow> (sent, Some err)
        | None \<Rightarrow> sendLoop send chunkSize (sent @ [dataFrameForWire (take size data)]) (drop size data))"
  by pat_completeness auto
termination
  by (relation "measure (\<lambda>(_, _, _, data). length data)") (auto split: if_splits)

declare sendLoop.simps [simp del]

definition sendBytes ::
  "(git_frame list \<Rightarrow> go_error option) \<Rightarrow> string \<Rightarrow> int \<Rightarrow> git_frame list \<times> go_error option" where
  "sendBytes send data chunkSize =
     (if chunkSize \<le> 0 \<or> chunkSize > maxChunkBytes then ([], Some (Sentinel ErrChunkLimit))
      else sendLoop send (nat chunkSize) [] data)"

text \<open>
  \<^verbatim>\<open>copyOutputToFrames\<close>. Each \<^verbatim>\<open>Read\<close> of the process output fills at most the buffer and may return
  data together with an error; the list is what the successive reads return. A list that runs out
  stands for a reader that blocks for ever, so the loop has not returned.
\<close>

fun copyOutputLoop ::
  "(git_frame list \<Rightarrow> go_error option) \<Rightarrow> git_frame list \<Rightarrow> int \<Rightarrow> (string \<times> go_error option) list
     \<Rightarrow> (git_frame list \<times> int \<times> go_error option) option" where
  "copyOutputLoop send sent tot [] = None"
| "copyOutputLoop send sent tot ((data, err) # rest) =
     (if data \<noteq> [] then
        (case send sent of
           Some sendErr \<Rightarrow> Some (sent, tot + int (length data), Some sendErr)
         | None \<Rightarrow>
             (case err of
                Some e \<Rightarrow> Some (sent @ [dataFrameForWire data], tot + int (length data),
                            if errors_Is e IoEOF then None else Some e)
              | None \<Rightarrow> copyOutputLoop send (sent @ [dataFrameForWire data]) (tot + int (length data)) rest))
      else
        (case err of
           Some e \<Rightarrow> Some (sent, tot, if errors_Is e IoEOF then None else Some e)
         | None \<Rightarrow> copyOutputLoop send sent tot rest))"

definition copyOutputToFrames ::
  "(git_frame list \<Rightarrow> go_error option) \<Rightarrow> int \<Rightarrow> (string \<times> go_error option) list
     \<Rightarrow> (git_frame list \<times> int \<times> go_error option) option" where
  "copyOutputToFrames send chunkSize rest =
     (if chunkSize \<le> 0 \<or> chunkSize > maxChunkBytes then Some ([], 0, Some (Sentinel ErrChunkLimit))
      else copyOutputLoop send [] 0 rest)"

text \<open>
  \<^verbatim>\<open>copyFramesToInput\<close>. The stream is what its \<^verbatim>\<open>Recv\<close> calls return; the pipe says, from what was
  written before and the new bytes, how many it takes and with which error. The result is the bytes
  written, their count and the error.
\<close>

fun copyFramesToInput ::
  "(string \<Rightarrow> string \<Rightarrow> nat \<times> go_error option) \<Rightarrow> client_frame_state \<Rightarrow> string \<Rightarrow> (go_error + git_frame) list
     \<Rightarrow> (string \<times> go_error option) option" where
  "copyFramesToInput write st written [] = None"
| "copyFramesToInput write st written (Inl e # rest) =
     (if errors_Is e IoEOF then Some (written, client_Close st) else Some (written, Some e))"
| "copyFramesToInput write st written (Inr frame # rest) =
     (case client_Accept st frame of
        (Some err, _) \<Rightarrow> Some (written, Some err)
      | (None, st') \<Rightarrow>
          (let data = frameData frame in
           case write written data of (n, err) \<Rightarrow>
             (let written' = written @ take n data in
              case err of
                Some e \<Rightarrow> Some (written', Some e)
              | None \<Rightarrow>
                  if n \<noteq> length data then Some (written', Some (Sentinel IoErrShortWrite))
                  else copyFramesToInput write st' written' rest)))"


section \<open>The client's data as a byte stream\<close>

record client_reader =
  stream :: "(go_error + git_frame) list"
  crState :: client_frame_state
  crPending :: string
  crTotal :: int
  crMaxBytes :: int

text \<open>
  The loop of \<^verbatim>\<open>clientDataReader.Read\<close> that waits for data. \<^term>\<open>None\<close>: nothing more ever arrives.
\<close>

fun fillLoop ::
  "(go_error + git_frame) list \<Rightarrow> client_reader \<Rightarrow> (go_error option \<times> client_reader) option" where
  "fillLoop [] r = None"
| "fillLoop (Inl e # rest) r =
     (if errors_Is e IoEOF then
        (case client_Close (crState r) of
           Some closeErr \<Rightarrow> Some (Some closeErr, r\<lparr>stream := rest\<rparr>)
         | None \<Rightarrow> Some (Some (Sentinel IoEOF), r\<lparr>stream := rest\<rparr>))
      else Some (Some e, r\<lparr>stream := rest\<rparr>))"
| "fillLoop (Inr frame # rest) r =
     (case client_Accept (crState r) frame of
        (Some err, st) \<Rightarrow> Some (Some err, r\<lparr>stream := rest, crState := st\<rparr>)
      | (None, st) \<Rightarrow>
          (let data = frameData frame in
           if int (length data) > crMaxBytes r - crTotal r
           then Some (Some (Sentinel ErrInputLimit), r\<lparr>stream := rest, crState := st\<rparr>)
           else
             (let r' = r\<lparr>stream := rest, crState := st, crTotal := crTotal r + int (length data),
                          crPending := data\<rparr> in
              if data = [] then fillLoop rest r' else Some (None, r'))))"

text \<open>\<^verbatim>\<open>Read\<close> into a buffer of \<open>n\<close> bytes: the bytes copied and the error, if any.\<close>

definition client_Read :: "nat \<Rightarrow> client_reader \<Rightarrow> ((string \<times> go_error option) \<times> client_reader) option" where
  "client_Read n r =
     (if crPending r = [] then
        (case fillLoop (stream r) r of
           None \<Rightarrow> None
         | Some (Some err, r') \<Rightarrow> Some (([], Some err), r')
         | Some (None, r') \<Rightarrow>
             Some ((take n (crPending r'), None), r'\<lparr>crPending := drop n (crPending r')\<rparr>))
      else Some ((take n (crPending r), None), r\<lparr>crPending := drop n (crPending r)\<rparr>))"



section \<open>The grammar of a client stream\<close>

text \<open>A client stream is one open frame that names a repository and then data frames within the limit.\<close>

definition validOpen :: "git_frame \<Rightarrow> bool" where
  "validOpen frame = (case frame of Some (FrameOpen (Some m)) \<Rightarrow> openRepository m \<noteq> None | _ \<Rightarrow> False)"

definition validData :: "git_frame \<Rightarrow> bool" where
  "validData frame =
     (case frame of Some (FrameData (Some bytes)) \<Rightarrow> int (length bytes) \<le> maxChunkBytes | _ \<Rightarrow> False)"

definition clientGrammar :: "git_frame list \<Rightarrow> bool" where
  "clientGrammar frames = (case frames of [] \<Rightarrow> False | f # fs \<Rightarrow> validOpen f \<and> list_all validData fs)"

text \<open>The run of the checker over a sequence of frames, up to the first error.\<close>

fun clientRun :: "client_frame_state \<Rightarrow> git_frame list \<Rightarrow> go_error option \<times> client_frame_state" where
  "clientRun st [] = (client_Close st, st)"
| "clientRun st (f # fs) =
     (case client_Accept st f of (Some err, st') \<Rightarrow> (Some err, st') | (None, st') \<Rightarrow> clientRun st' fs)"

text \<open>The checker as a state machine.\<close>

inductive clientStep :: "client_frame_state \<Rightarrow> git_frame \<Rightarrow> client_frame_state \<Rightarrow> bool" where
  open_step: "\<not> failed st \<Longrightarrow> \<not> opened st \<Longrightarrow> validOpen f \<Longrightarrow> clientStep st f (st\<lparr>opened := True\<rparr>)"
| data_step: "\<not> failed st \<Longrightarrow> opened st \<Longrightarrow> validData f \<Longrightarrow> clientStep st f st"

inductive_cases clientStepE: "clientStep st f st'"

lemma client_Accept_None_iff: "client_Accept st f = (None, st') \<longleftrightarrow> clientStep st f st'"
proof
  assume "client_Accept st f = (None, st')"
  then show "clientStep st f st'"
    by (auto simp: client_Accept_def clientReject_def validChunk_def validOpen_def validData_def
        split: option.splits frame_payload.splits if_splits intro!: clientStep.intros)
next
  assume "clientStep st f st'"
  then show "client_Accept st f = (None, st')"
    by cases (auto simp: client_Accept_def validChunk_def validOpen_def validData_def
        split: option.splits frame_payload.splits)
qed

lemma client_Accept_error: "client_Accept st f = (Some e, st') \<Longrightarrow> failed st' \<and> opened st' = opened st"
  by (auto simp: client_Accept_def clientReject_def split: option.splits frame_payload.splits if_splits)

lemma clientRun_opened:
  "\<not> failed st \<Longrightarrow> opened st \<Longrightarrow> fst (clientRun st fs) = None \<longleftrightarrow> list_all validData fs"
proof (induction fs)
  case (Cons f fs)
  show ?case
  proof (cases "validData f")
    case True
    then have "client_Accept st f = (None, st)"
      using Cons.prems by (simp add: client_Accept_None_iff data_step)
    with True Cons show ?thesis by simp
  next
    case False
    then have "\<not> clientStep st f st'" for st'
      using Cons.prems by (auto elim: clientStepE)
    then obtain e st' where "client_Accept st f = (Some e, st')"
      by (metis client_Accept_None_iff option.exhaust surj_pair)
    with False show ?thesis by simp
  qed
qed (simp add: client_Close_def)

text \<open>
  The frame checker accepts exactly one shape of client stream: a stream passes
  \<^verbatim>\<open>clientFrameState\<close> and its closing check exactly when it is one open frame that names a repository,
  first, followed only by data frames of at most 64 KiB.
\<close>

theorem clientRun_grammar: "fst (clientRun newClientState frames) = None \<longleftrightarrow> clientGrammar frames"
proof (cases frames)
  case (Cons f fs)
  show ?thesis
  proof (cases "validOpen f")
    case True
    then have "client_Accept newClientState f = (None, newClientState\<lparr>opened := True\<rparr>)"
      using open_step [of newClientState f] by (simp add: client_Accept_None_iff newClientState_def)
    with True Cons clientRun_opened [of "newClientState\<lparr>opened := True\<rparr>" fs] show ?thesis
      by (simp add: clientGrammar_def newClientState_def)
  next
    case False
    then have "\<not> clientStep newClientState f st'" for st'
      by (auto simp: newClientState_def elim: clientStepE)
    then obtain e st' where "client_Accept newClientState f = (Some e, st')"
      by (metis client_Accept_None_iff option.exhaust surj_pair)
    with False Cons show ?thesis by (simp add: clientGrammar_def)
  qed
qed (simp add: clientGrammar_def newClientState_def client_Close_def)


section \<open>Data frames are the bytes\<close>

lemma sendLoop_spec:
  "sendLoop send k sent data = (sent', None) \<Longrightarrow> 0 < k \<Longrightarrow>
     \<exists>new. sent' = sent @ new \<and> concat (map frameData new) = data
       \<and> list_all (\<lambda>f. f = dataFrameForWire (frameData f) \<and> 0 < length (frameData f) \<and> length (frameData f) \<le> k) new"
proof (induction send k sent data rule: sendLoop.induct)
  case (1 send k sent data)
  show ?case
  proof (cases "data = []")
    case True
    with "1.prems" show ?thesis by (auto simp: sendLoop.simps [of send k sent "[]"])
  next
    case False
    let ?size = "if length data > k then k else length data"
    let ?f = "dataFrameForWire (take ?size data)"
    have ok: "send sent = None" and rec: "sendLoop send k (sent @ [?f]) (drop ?size data) = (sent', None)"
      using "1.prems" False by (auto simp: sendLoop.simps [of send k sent data] Let_def split: option.splits)
    have guard: "\<not> (data = [] \<or> k = 0)"
      using False "1.prems"(2) by simp
    from "1.IH" [OF guard refl ok rec "1.prems"(2)] obtain new where
      new: "sent' = (sent @ [?f]) @ new" "concat (map frameData new) = drop ?size data"
      "list_all (\<lambda>f. f = dataFrameForWire (frameData f) \<and> 0 < length (frameData f) \<and> length (frameData f) \<le> k) new"
      by blast
    have "frameData ?f = take ?size data"
      by (simp add: frameData_def dataFrameForWire_def)
    with new False "1.prems"(2) show ?thesis
      by (intro exI [of _ "?f # new"]) (simp add: append_take_drop_id)
  qed
qed

text \<open>
  A byte string sent as frames arrives as that byte string: when \<^verbatim>\<open>sendBytes\<close> succeeds, the
  frames it sent are non-empty data frames within both the configured chunk size and the 64 KiB limit
  the receiving side enforces, and their contents concatenate to exactly the bytes given.
\<close>

theorem sendBytes_exact:
  assumes "sendBytes send data chunkSize = (frames, None)"
  shows "concat (map frameData frames) = data
    \<and> list_all (\<lambda>f. validData f \<and> 0 < length (frameData f) \<and> int (length (frameData f)) \<le> chunkSize) frames"
proof -
  from assms have k: "0 < chunkSize" "chunkSize \<le> maxChunkBytes"
    and run: "sendLoop send (nat chunkSize) [] data = (frames, None)"
    by (auto simp: sendBytes_def split: if_splits)
  from sendLoop_spec [OF run] k have spec: "concat (map frameData frames) = data"
    "list_all (\<lambda>f. f = dataFrameForWire (frameData f) \<and> 0 < length (frameData f)
      \<and> length (frameData f) \<le> nat chunkSize) frames"
    by auto
  have "validData f \<and> 0 < length (frameData f) \<and> int (length (frameData f)) \<le> chunkSize"
    if "f = dataFrameForWire (frameData f)" "0 < length (frameData f)" "length (frameData f) \<le> nat chunkSize" for f
  proof -
    have "int (length (frameData f)) \<le> chunkSize" using that(3) k by linarith
    moreover have "validData (dataFrameForWire (frameData f))"
      using calculation k by (simp add: validData_def dataFrameForWire_def)
    ultimately show ?thesis using that by metis
  qed
  with spec show ?thesis
    by (simp add: list_all_iff)
qed

theorem sendBytes_exact_witness:
  "concat (map frameData (fst (sendBytes (\<lambda>_. None) ''abcdefgh'' 3))) = ''abcdefgh''"
proof -
  have "sendBytes (\<lambda>_. None) ''abcdefgh'' 3 = (fst (sendBytes (\<lambda>_. None) ''abcdefgh'' 3), None)"
    by code_simp
  from sendBytes_exact [OF this] show ?thesis by blast
qed



section \<open>The client's data reader\<close>

text \<open>What a client stream delivers: its bytes, and the error that ends it.\<close>

fun clientStream ::
  "client_frame_state \<Rightarrow> int \<Rightarrow> int \<Rightarrow> (go_error + git_frame) list \<Rightarrow> (string \<times> go_error) option" where
  "clientStream st tot mx [] = None"
| "clientStream st tot mx (Inl e # rest) =
     Some ([], if errors_Is e IoEOF then (case client_Close st of Some c \<Rightarrow> c | None \<Rightarrow> Sentinel IoEOF) else e)"
| "clientStream st tot mx (Inr frame # rest) =
     (case client_Accept st frame of
        (Some err, _) \<Rightarrow> Some ([], err)
      | (None, st') \<Rightarrow>
          (let data = frameData frame in
           if int (length data) > mx - tot then Some ([], Sentinel ErrInputLimit)
           else map_option (\<lambda>(bytes, e). (data @ bytes, e)) (clientStream st' (tot + int (length data)) mx rest)))"

definition delivers :: "client_reader \<Rightarrow> (string \<times> go_error) option" where
  "delivers r =
     map_option (\<lambda>(bytes, e). (crPending r @ bytes, e))
       (clientStream (crState r) (crTotal r) (crMaxBytes r) (stream r))"

lemma fillLoop_spec:
  "clientStream (crState r) (crTotal r) (crMaxBytes r) evs = Some (bytes, e) \<Longrightarrow> crPending r = [] \<Longrightarrow>
     (bytes = [] \<longrightarrow> (\<exists>r'. fillLoop evs r = Some (Some e, r')))
     \<and> (bytes \<noteq> [] \<longrightarrow> (\<exists>r'. fillLoop evs r = Some (None, r') \<and> crPending r' \<noteq> [] \<and> delivers r' = Some (bytes, e)))"
proof (induction evs r arbitrary: bytes rule: fillLoop.induct)
  case (2 e rest r)
  then show ?case by (auto split: option.splits if_splits)
next
  case (3 frame rest r)
  show ?case
  proof (cases "client_Accept (crState r) frame")
    case (Pair err st)
    show ?thesis
    proof (cases err)
      case (Some a)
      with 3 Pair show ?thesis by auto
    next
      case None
      let ?data = "frameData frame"
      let ?r' = "r\<lparr>stream := rest, crState := st, crTotal := crTotal r + int (length ?data), crPending := ?data\<rparr>"
      show ?thesis
      proof (cases "int (length ?data) > crMaxBytes r - crTotal r")
        case True
        with 3 Pair None show ?thesis by (auto simp: Let_def)
      next
        case fits: False
        with "3.prems" Pair None obtain b where b: "bytes = ?data @ b"
          "clientStream st (crTotal r + int (length ?data)) (crMaxBytes r) rest = Some (b, e)"
          by (auto simp: Let_def)
        show ?thesis
        proof (cases "?data = []")
          case True
          have "(b = [] \<longrightarrow> (\<exists>r'. fillLoop rest ?r' = Some (Some e, r')))
             \<and> (b \<noteq> [] \<longrightarrow> (\<exists>r'. fillLoop rest ?r' = Some (None, r') \<and> crPending r' \<noteq> [] \<and> delivers r' = Some (b, e)))"
            using "3.IH" [OF Pair [symmetric] None refl fits refl True] b True by simp
          with True Pair None fits b show ?thesis by (simp add: Let_def)
        next
          case False
          with Pair None fits b show ?thesis by (simp add: Let_def delivers_def)
        qed
      qed
    qed
  qed
qed simp

text \<open>One \<^verbatim>\<open>Read\<close>: it delivers some of the bytes, or the error when there are none left.\<close>

lemma client_Read_spec:
  assumes "delivers r = Some (bytes, e)" and "0 < n"
  shows "(bytes = [] \<longrightarrow> (\<exists>r'. client_Read n r = Some (([], Some e), r')))
    \<and> (bytes \<noteq> [] \<longrightarrow> (\<exists>d rest r'. client_Read n r = Some ((d, None), r') \<and> d \<noteq> [] \<and> length d \<le> n
        \<and> bytes = d @ rest \<and> delivers r' = Some (rest, e)))"
proof (cases "crPending r = []")
  case True
  with assms(1) have cs: "clientStream (crState r) (crTotal r) (crMaxBytes r) (stream r) = Some (bytes, e)"
    by (auto simp: delivers_def)
  note f = fillLoop_spec [OF this True]
  show ?thesis
  proof (cases "bytes = []")
    case True
    with f \<open>crPending r = []\<close> show ?thesis by (auto simp: client_Read_def)
  next
    case False
    with f obtain r' where r': "fillLoop (stream r) r = Some (None, r')" "crPending r' \<noteq> []"
      "delivers r' = Some (bytes, e)"
      by blast
    then obtain b where b: "bytes = crPending r' @ b"
      "clientStream (crState r') (crTotal r') (crMaxBytes r') (stream r') = Some (b, e)"
      by (auto simp: delivers_def)
    let ?r2 = "r'\<lparr>crPending := drop n (crPending r')\<rparr>"
    have "client_Read n r = Some ((take n (crPending r'), None), ?r2)"
      using True r' by (simp add: client_Read_def)
    moreover have "delivers ?r2 = Some (drop n (crPending r') @ b, e)"
      using b by (simp add: delivers_def)
    moreover have "bytes = take n (crPending r') @ drop n (crPending r') @ b"
      using b by simp
    ultimately show ?thesis
      using False r'(2) assms(2) by (metis length_take min.cobounded2 take_eq_Nil not_gr0)
  qed
next
  case False
  with assms(1) obtain b where b: "bytes = crPending r @ b"
    "clientStream (crState r) (crTotal r) (crMaxBytes r) (stream r) = Some (b, e)"
    by (auto simp: delivers_def)
  let ?r2 = "r\<lparr>crPending := drop n (crPending r)\<rparr>"
  have "client_Read n r = Some ((take n (crPending r), None), ?r2)"
    using False by (simp add: client_Read_def)
  moreover have "delivers ?r2 = Some (drop n (crPending r) @ b, e)"
    using b by (simp add: delivers_def)
  moreover have "bytes = take n (crPending r) @ drop n (crPending r) @ b"
    using b by simp
  ultimately show ?thesis
    using False assms(2) b(1) by (metis append_is_Nil_conv length_take min.cobounded2 take_eq_Nil not_gr0)
qed


text \<open>\<^verbatim>\<open>io.ReadFull\<close> over the reader: \<^verbatim>\<open>Read\<close> until the buffer is full or an error ends it.\<close>

lemma fillLoop_pending: "fillLoop evs r = Some (None, r') \<Longrightarrow> crPending r' \<noteq> []"
  by (induction evs r rule: fillLoop.induct)
    (auto simp: Let_def split: option.splits if_splits prod.splits)

lemma client_Read_progress: "client_Read n r = Some ((d, None), r') \<Longrightarrow> 0 < n \<Longrightarrow> 0 < length d"
  by (auto simp: client_Read_def split: if_splits option.splits prod.splits dest: fillLoop_pending)

function clientReadFull :: "nat \<Rightarrow> string \<Rightarrow> client_reader \<Rightarrow> (string \<times> client_reader) result option" where
  "clientReadFull n acc r =
     (if n = 0 then Some (Inr (acc, r))
      else case client_Read n r of
        None \<Rightarrow> None
      | Some ((d, None), r') \<Rightarrow> clientReadFull (n - length d) (acc @ d) r'
      | Some ((d, Some e), r') \<Rightarrow>
          if n \<le> length d then Some (Inr (acc @ d, r'))
          else if acc @ d \<noteq> [] \<and> e = Sentinel IoEOF then Some (Inl (Sentinel IoUnexpectedEOF))
          else Some (Inl e))"
  by pat_completeness auto
termination
  by (relation "measure (\<lambda>(n, _, _). n)") (auto dest: client_Read_progress)

declare clientReadFull.simps [simp del]

lemma clientReadFull_spec:
  "delivers r = Some (bytes, e) \<Longrightarrow>
     (if n \<le> length bytes
      then \<exists>r'. clientReadFull n acc r = Some (Inr (acc @ take n bytes, r')) \<and> delivers r' = Some (drop n bytes, e)
      else clientReadFull n acc r =
        Some (Inl (if acc @ bytes \<noteq> [] \<and> e = Sentinel IoEOF then Sentinel IoUnexpectedEOF else e)))"
proof (induction n acc r arbitrary: bytes rule: clientReadFull.induct)
  case (1 n acc r)
  show ?case
  proof (cases "n = 0")
    case True
    with "1.prems" show ?thesis by (simp add: clientReadFull.simps [of 0])
  next
    case False
    note spec = client_Read_spec [OF "1.prems", of n]
    show ?thesis
    proof (cases "bytes = []")
      case True
      with spec False obtain r' where "client_Read n r = Some (([], Some e), r')" by auto
      with True False show ?thesis by (simp add: clientReadFull.simps [of n])
    next
      case bne: False
      with spec False obtain d rest r' where r: "client_Read n r = Some ((d, None), r')" "d \<noteq> []"
        "length d \<le> n" "bytes = d @ rest" "delivers r' = Some (rest, e)"
        by auto
      have step: "clientReadFull n acc r = clientReadFull (n - length d) (acc @ d) r'"
        using False r(1) by (simp add: clientReadFull.simps [of n])
      from "1.IH" [OF False r(1) refl refl refl r(5)] r(2,3,4) show ?thesis
        unfolding step by (auto split: if_splits)
    qed
  qed
qed

text \<open>
  C30. The frames of a client are one byte stream to the push parser: if the data frames of a client,
  within the frame grammar and the byte limit, deliver \<open>bytes\<close> and then end with error \<open>e\<close>, then
  \<^verbatim>\<open>io.ReadFull\<close> over \<^verbatim>\<open>clientDataReader\<close>, however the bytes are cut into frames, gives exactly what it
  gives on a reader holding \<open>bytes\<close> followed by \<open>e\<close>, and leaves the rest to be delivered.
\<close>

theorem clientDataReader_refines:
  assumes "delivers r = Some (bytes, e)" and "input p = bytes" and "fault p = e"
  shows "\<exists>result. clientReadFull n [] r = Some result
    \<and> (case readFull n p of
        Inl err \<Rightarrow> result = Inl err
      | Inr (data, p') \<Rightarrow> \<exists>r'. result = Inr (data, r') \<and> delivers r' = Some (input p', fault p'))"
  using clientReadFull_spec [OF assms(1), of n "[]"] assms(2,3)
  by (auto simp: readFull_def fail_def split: if_splits)

theorem clientDataReader_refines_witness:
  "\<exists>result. clientReadFull 5 [] \<lparr>stream = [Inr (dataFrameForWire ''abc''), Inr (dataFrameForWire ''def''),
       Inl (Sentinel IoEOF)], crState = \<lparr>opened = True, failed = False\<rparr>, crPending = [], crTotal = 0,
       crMaxBytes = 100\<rparr> = Some result \<and> isOK result"
proof -
  let ?r = "\<lparr>stream = [Inr (dataFrameForWire ''abc''), Inr (dataFrameForWire ''def''),
       Inl (Sentinel IoEOF)], crState = \<lparr>opened = True, failed = False\<rparr>, crPending = [], crTotal = 0,
       crMaxBytes = 100\<rparr>"
  let ?p = "\<lparr>input = ''abcdef'', fault = Sentinel IoEOF, limit = 0, raw = []\<rparr>"
  have d: "delivers ?r = Some (''abcdef'', Sentinel IoEOF)"
    by code_simp
  obtain p' where "readFull 5 ?p = Inr (''abcde'', p')"
    by (simp add: readFull_def)
  with clientDataReader_refines [OF d, of ?p 5] show ?thesis
    by auto
qed

end
