(* ===== verification/Config_Types.thy ===== *)
theory Config_Types
  imports Go_Errors "HOL-Library.Word"
begin

text \<open>
  \<^verbatim>\<open>internal/config/types.go\<close> and \<^verbatim>\<open>defaults.go\<close>: the startup configuration, its capabilities,
  and the default limits and push policy. \<^verbatim>\<open>Capability\<close> and \<^verbatim>\<open>ProviderKind\<close> are Go strings: any
  text may appear in a configuration, so they stay strings here and the named constants are
  definitions. A \<^verbatim>\<open>uint16\<close> port is a \<open>16 word\<close>; an \<^verbatim>\<open>int\<close> or \<^verbatim>\<open>int64\<close> limit and a
  \<^verbatim>\<open>time.Duration\<close> (nanoseconds) are \<^typ>\<open>int\<close>: they are compared, never computed with.
\<close>

type_synonym capability = string

definition RepositoryRead :: capability where "RepositoryRead = ''repository:read''"
definition IssuesRead :: capability where "IssuesRead = ''issues:read''"
definition IssuesWrite :: capability where "IssuesWrite = ''issues:write''"
definition PullRequestsRead :: capability where "PullRequestsRead = ''pull_requests:read''"
definition PullRequestsWrite :: capability where "PullRequestsWrite = ''pull_requests:write''"
definition ActionsRead :: capability where "ActionsRead = ''actions:read''"
definition StatusesRead :: capability where "StatusesRead = ''statuses:read''"
definition GitRead :: capability where "GitRead = ''git:read''"
definition GitWrite :: capability where "GitWrite = ''git:write''"

lemmas capability_defs =
  RepositoryRead_def IssuesRead_def IssuesWrite_def PullRequestsRead_def PullRequestsWrite_def
  ActionsRead_def StatusesRead_def GitRead_def GitWrite_def

type_synonym provider_kind = string

definition ProviderGitHub :: provider_kind where "ProviderGitHub = ''github''"
definition ProviderGitea :: provider_kind where "ProviderGitea = ''gitea''"

lemmas kind_defs = ProviderGitHub_def ProviderGitea_def

record tls =
  Certificate :: string
  PrivateKey :: string

record tools =
  GH :: "string option"
  SSH :: "string option"

record provider =
  Kind :: provider_kind
  APIHost :: string
  GitHost :: string
  SSHUser :: string
  SSHPort :: "16 word"
  TokenEnv :: string
  CAFile :: string

record push_policy =
  DenyRefs :: "string list"
  DenyDeletes :: bool
  MaxRefUpdates :: int

record repository =
  Provider :: string
  Owner :: string
  Name :: string
  Git :: push_policy

record grant =
  Repository :: string
  GrantCapabilities :: "capability list"

record principal =
  TokenEnvs :: "string list"
  Grants :: "grant list"

record limits =
  MaxConcurrentRequests :: int
  MaxConcurrentRequestsPerPrincipal :: int
  MaxMessageBytes :: int
  MaxStreamChunkBytes :: int
  MaxPushPrefixBytes :: int
  MaxGitBytesPerDirection :: int
  InitialStreamTimeout :: int
  OperationTimeout :: int
  IdleStreamTimeout :: int

record config =
  APIVersion :: string
  Listen :: string
  TLS :: tls
  Tools :: tools
  Providers :: "provider gomap"
  Repositories :: "repository gomap"
  Principals :: "principal gomap"
  Limits :: limits

text \<open>\<^verbatim>\<open>Config.Repository\<close>: the copy of the deny list is the list itself here.\<close>

definition config_Repository :: "config \<Rightarrow> string \<Rightarrow> repository option" where
  "config_Repository c i = map_of (Repositories c) i"


section \<open>Defaults\<close>

definition defaultSSHPort :: "16 word" where "defaultSSHPort = 22"
definition maxMessageBytes :: int where "maxMessageBytes = 2 ^ 20"
definition maxStreamChunkBytes :: int where "maxStreamChunkBytes = 64 * 2 ^ 10"
definition maxPushPrefixBytes :: int where "maxPushPrefixBytes = 2 ^ 20"
definition defaultGitBytesPerLimit :: int where "defaultGitBytesPerLimit = 8 * 2 ^ 30"

definition second :: int where "second = 1000000000"

definition defaultLimits :: limits where
  "defaultLimits = \<lparr>
     MaxConcurrentRequests = 8,
     MaxConcurrentRequestsPerPrincipal = 4,
     MaxMessageBytes = maxMessageBytes,
     MaxStreamChunkBytes = maxStreamChunkBytes,
     MaxPushPrefixBytes = maxPushPrefixBytes,
     MaxGitBytesPerDirection = defaultGitBytesPerLimit,
     InitialStreamTimeout = 5 * second,
     OperationTimeout = 10 * 60 * second,
     IdleStreamTimeout = 2 * 60 * second\<rparr>"

definition defaultPushPolicy :: push_policy where
  "defaultPushPolicy =
     \<lparr>DenyRefs = [''refs/heads/main''], DenyDeletes = False, MaxRefUpdates = 0\<rparr>"

lemmas limit_defs =
  maxMessageBytes_def maxStreamChunkBytes_def maxPushPrefixBytes_def
  defaultGitBytesPerLimit_def second_def

end
