(* ===== verification/Ref_Grammar.thy ===== *)
theory Ref_Grammar
  imports Go_Errors
begin

text \<open>
  The contract of a ref-name check. RepoWolf has three of them, one in \<^verbatim>\<open>config/validate.go\<close> for
  the refs an operator denies, one in \<^verbatim>\<open>policy/push.go\<close> for the refs a push updates and one in
  \<^verbatim>\<open>gitproto/validate.go\<close> for the refs on the wire. Each of them is interpreted as an instance of
  this locale in its own theory; the client lemmas are what the code that forwards a ref relies
  on.
\<close>

definition specials :: string where
  "specials = '' ~^:?*['' @ [CHR 0x5C]"

locale ref_grammar =
  fixes valid :: "string \<Rightarrow> bool"
  assumes refs_prefix: "valid r \<Longrightarrow> prefix ''refs/'' r"
    and printable: "valid r \<Longrightarrow> c \<in> set r \<Longrightarrow> 32 < code c \<and> code c \<noteq> 127"
    and no_special: "valid r \<Longrightarrow> c \<in> set r \<Longrightarrow> c \<notin> set specials"
    and no_dotdot: "valid r \<Longrightarrow> \<not> sublist ''..'' r"
    and no_reflog: "valid r \<Longrightarrow> \<not> sublist [CHR ''@'', CHR ''{''] r"
    and component: "valid r \<Longrightarrow> p \<in> set (split CHR ''/'' r) \<Longrightarrow> p \<noteq> [] \<and> hd p \<noteq> CHR ''.''"
    and no_final_dot: "valid r \<Longrightarrow> \<not> suffix ''.'' r"
begin

lemma not_empty: "valid r \<Longrightarrow> r \<noteq> []"
  using refs_prefix [of r] by auto

text \<open>A valid ref is one field of a line: no space, no line feed, no NUL.\<close>

lemma one_field: "valid r \<Longrightarrow> c \<in> set r \<Longrightarrow> code c \<notin> {0, 10, 13, 32}"
  using printable [of r c] by auto

text \<open>It never looks like a command-line option.\<close>

lemma not_option: "valid r \<Longrightarrow> hd r \<noteq> CHR ''-''"
  using refs_prefix [of r] by (auto simp: prefix_def)

text \<open>It cannot climb out of the ref namespace: no component is empty, a dot or a double dot.\<close>

lemma no_traversal: "valid r \<Longrightarrow> p \<in> set (split CHR ''/'' r) \<Longrightarrow> p \<notin> {[], ''.'', ''..''}"
  using component [of r p] by auto

text \<open>It is strictly below \<^verbatim>\<open>refs/\<close>.\<close>

lemma below_refs: "valid r \<Longrightarrow> \<exists>s. r = ''refs/'' @ s \<and> s \<noteq> []"
proof -
  assume v: "valid r"
  then obtain s where s: "r = ''refs/'' @ s"
    using refs_prefix by (auto simp: prefix_def)
  have "s \<noteq> []"
  proof
    assume "s = []"
    with s have "[] \<in> set (split CHR ''/'' r)" by simp
    with component [OF v] show False by blast
  qed
  with s show ?thesis by blast
qed

text \<open>A stricter check keeps the contract.\<close>

lemma strengthen: "(\<And>r. v r \<Longrightarrow> valid r) \<Longrightarrow> ref_grammar v"
  by unfold_locales (use refs_prefix printable no_special no_dotdot no_reflog component no_final_dot in blast)+

end

end
