(* ===== verification/Config_Validate.thy ===== *)
theory Config_Validate
  imports Config_Types Ref_Grammar
begin

text \<open>
  \<^verbatim>\<open>internal/config/validate.go\<close>: the checks on a decoded configuration. Regular expressions
  are matchers over byte strings; \<^verbatim>\<open>net.SplitHostPort\<close>, \<^verbatim>\<open>strconv.ParseUint\<close> and the IPv4 case of
  \<^verbatim>\<open>net.ParseIP\<close> (the only one a host without a colon can reach) are modelled from the standard
  library. Loops over maps visit the association list in order.
\<close>

section \<open>Name grammars\<close>

definition tokenEnvName :: "string \<Rightarrow> bool" where
  "tokenEnvName s =
     (hasPrefix s ''REPOWOLF_TOKEN_''
      \<and> drop 15 s \<noteq> []
      \<and> list_all (\<lambda>c. isUpper c \<or> isDigit c \<or> c = CHR ''_'') (drop 15 s))"

definition identifierName :: "string \<Rightarrow> bool" where
  "identifierName s =
     (case s of [] \<Rightarrow> False
      | c # cs \<Rightarrow> isAlnum c \<and> list_all (\<lambda>c. isAlnum c \<or> c = CHR ''_'' \<or> c = CHR ''-'') cs)"

definition ownerName :: "string \<Rightarrow> bool" where
  "ownerName s =
     (case s of [] \<Rightarrow> False
      | c # cs \<Rightarrow> isAlnum c \<and> length cs \<le> 38 \<and> list_all (\<lambda>c. isAlnum c \<or> c = CHR ''-'') cs)"

definition repositoryName :: "string \<Rightarrow> bool" where
  "repositoryName s =
     (case s of [] \<Rightarrow> False
      | c # cs \<Rightarrow> isAlnum c \<and> length cs \<le> 99
          \<and> list_all (\<lambda>c. isAlnum c \<or> c = CHR ''.'' \<or> c = CHR ''_'' \<or> c = CHR ''-'') cs)"

definition giteaName :: "string \<Rightarrow> bool" where
  "giteaName s =
     (case s of [] \<Rightarrow> False
      | c # cs \<Rightarrow> isAlnum c \<and> length cs \<le> 99
          \<and> list_all (\<lambda>c. isAlnum c \<or> c = CHR ''.'' \<or> c = CHR ''_'' \<or> c = CHR ''-'') cs)"

definition sshUserName :: "string \<Rightarrow> bool" where
  "sshUserName s =
     (case s of [] \<Rightarrow> False
      | c # cs \<Rightarrow> (isLower c \<or> c = CHR ''_'')
          \<and> list_all (\<lambda>c. isLower c \<or> isDigit c \<or> c = CHR ''_'' \<or> c = CHR ''-'')
              (trimSuffix cs ''$''))"

definition validGiteaName :: "string \<Rightarrow> bool" where
  "validGiteaName value = (giteaName value \<and> value \<noteq> ''.'' \<and> value \<noteq> ''..'')"

definition ValidRepositoryIdentity :: "provider_kind \<Rightarrow> string \<Rightarrow> string \<Rightarrow> bool" where
  "ValidRepositoryIdentity kind owner name =
     (if kind = ProviderGitHub then ownerName owner \<and> repositoryName name
      else if kind = ProviderGitea then
        validGiteaName owner \<and> validGiteaName name \<and> \<not> hasSuffix (toLower name) ''.git''
      else False)"


section \<open>Addresses\<close>

text \<open>\<^verbatim>\<open>net.SplitHostPort\<close>; \<^term>\<open>None\<close> for its address errors.\<close>

definition splitHostPort :: "string \<Rightarrow> (string \<times> string) option" where
  "splitHostPort hp =
     (case lastIndex hp '':'' of
        None \<Rightarrow> None
      | Some i \<Rightarrow>
          if hd hp = CHR ''['' then
            (case cut CHR '']'' hp of
               (before, after, found) \<Rightarrow>
                 if \<not> found then None
                 else if length before + 1 = i
                   \<and> CHR ''['' \<notin> set (tl hp) \<and> CHR '']'' \<notin> set (drop (length before + 1) hp)
                 then Some (tl before, drop (i + 1) hp)
                 else None)
          else if CHR '':'' \<in> set (take i hp) then None
          else if CHR ''['' \<in> set hp \<or> CHR '']'' \<in> set hp then None
          else Some (take i hp, drop (i + 1) hp))"

text \<open>\<^verbatim>\<open>strconv.ParseUint(s, 10, bits)\<close>.\<close>

definition decimalValue :: "string \<Rightarrow> int" where
  "decimalValue s = foldl (\<lambda>v c. 10 * v + (code c - 48)) 0 s"

definition parseUint :: "nat \<Rightarrow> string \<Rightarrow> int option" where
  "parseUint bits s =
     (if s \<noteq> [] \<and> list_all isDigit s \<and> decimalValue s < 2 ^ bits then Some (decimalValue s) else None)"

definition validateListen :: "string \<Rightarrow> unit result" where
  "validateListen listen =
     (if listen = [] then errorf ''listen is required''
      else case splitHostPort listen of
        None \<Rightarrow> Inl (Errorf ''invalid listen address %q'' [ArgS listen])
      | Some (_, port) \<Rightarrow>
          (case parseUint 16 port of
             None \<Rightarrow> Inl (Errorf ''invalid listen address %q'' [ArgS listen])
           | Some value \<Rightarrow>
               if value = 0 then Inl (Errorf ''invalid listen address %q'' [ArgS listen])
               else Inr ()))"

definition isAbs :: "string \<Rightarrow> bool" where
  "isAbs path = hasPrefix path ''/''"

definition validateTools :: "tools \<Rightarrow> unit result" where
  "validateTools t =
     checkAll (\<lambda>(name, path).
       case path of
         Some p \<Rightarrow>
           if \<not> isAbs p \<or> p = ''/''
           then Inl (Errorf ''%s override must be an absolute executable path'' [ArgS name])
           else Inr ()
       | None \<Rightarrow> Inr ())
       [(''gh'', GH t), (''ssh'', SSH t)]"

text \<open>
  \<^verbatim>\<open>net.ParseIP\<close> on a string without a colon is its dotted-decimal case: four fields of one to
  three digits, no leading zero, each at most 255.
\<close>

definition ipv4Field :: "string \<Rightarrow> bool" where
  "ipv4Field f =
     (f \<noteq> [] \<and> length f \<le> 3 \<and> list_all isDigit f \<and> (1 < length f \<longrightarrow> hd f \<noteq> CHR ''0'')
      \<and> decimalValue f \<le> 255)"

definition parseIPv4 :: "string \<Rightarrow> bool" where
  "parseIPv4 host = (length (split CHR ''.'' host) = 4 \<and> list_all ipv4Field (split CHR ''.'' host))"

definition validLabel :: "string \<Rightarrow> bool" where
  "validLabel label =
     (\<not> (label = [] \<or> 63 < length label \<or> hd label = CHR ''-'' \<or> last label = CHR ''-'')
      \<and> allRunes (\<lambda>r. 97 \<le> r \<and> r \<le> 122 \<or> 65 \<le> r \<and> r \<le> 90 \<or> 48 \<le> r \<and> r \<le> 57 \<or> r = 45) label)"

definition ValidProviderHost :: "string \<Rightarrow> bool" where
  "ValidProviderHost host =
     (if host = [] \<or> 253 < length host \<or> containsAny host '':/@ '' then False
      else if parseIPv4 host then True
      else list_all validLabel (split CHR ''.'' host))"


section \<open>Ref names\<close>

definition config_validRef :: "string \<Rightarrow> bool" where
  "config_validRef ref =
     (allRunes (\<lambda>r. \<not> (r \<le> 31 \<or> r = 127)) ref
      \<and> \<not> (\<not> hasPrefix ref ''refs/'' \<or> length ref = length ''refs/'' \<or> hasSuffix ref ''/''
           \<or> hasSuffix ref ''.'' \<or> hasSuffix ref ''.lock'' \<or> contains ref ''..''
           \<or> contains ref [CHR ''@'', CHR ''{''] \<or> contains ref ''//'' \<or> containsAny ref specials)
      \<and> list_all (\<lambda>component. \<not> (component = [] \<or> hasPrefix component ''.''))
          (split CHR ''/'' ref))"


section \<open>Sections of the configuration\<close>

definition validateProvider :: "string \<Rightarrow> provider \<Rightarrow> unit result" where
  "validateProvider i p =
     (if \<not> (Kind p = ProviderGitHub \<or> Kind p = ProviderGitea)
      then Inl (Errorf ''provider %q has unsupported kind %q'' [ArgS i, ArgS (Kind p)])
      else if TokenEnv p = [] \<and> Kind p = ProviderGitea
      then Inl (Errorf ''provider %q requires tokenEnv'' [ArgS i])
      else if TokenEnv p \<noteq> [] \<and> \<not> tokenEnvName (TokenEnv p)
      then Inl (Errorf ''provider %q has invalid token environment name'' [ArgS i])
      else if CAFile p \<noteq> [] \<and> Kind p \<noteq> ProviderGitea
      then Inl (Errorf ''provider %q caFile is supported only for Gitea'' [ArgS i])
      else if \<not> ValidProviderHost (APIHost p) \<or> \<not> ValidProviderHost (GitHost p)
      then Inl (Errorf ''provider %q has invalid host'' [ArgS i])
      else if \<not> sshUserName (SSHUser p)
      then Inl (Errorf ''provider %q has invalid ssh user'' [ArgS i])
      else if SSHPort p = 0
      then Inl (Errorf ''provider %q has invalid ssh port'' [ArgS i])
      else Inr ())"

text \<open>The loop over the denied refs carries the set of refs seen so far.\<close>

definition addDeniedRef :: "string \<Rightarrow> (string \<rightharpoonup> unit) \<Rightarrow> string \<Rightarrow> (string \<rightharpoonup> unit) result" where
  "addDeniedRef i seen ref =
     (if \<not> config_validRef ref
      then Inl (Errorf ''repository %q has invalid denied ref %q'' [ArgS i, ArgS ref])
      else if seen ref \<noteq> None
      then Inl (Errorf ''repository %q duplicates denied ref %q'' [ArgS i, ArgS ref])
      else Inr (seen(ref \<mapsto> ())))"

definition validatePushPolicy :: "string \<Rightarrow> push_policy \<Rightarrow> unit result" where
  "validatePushPolicy i policy =
     (if MaxRefUpdates policy \<le> 0
      then Inl (Errorf ''repository %q has invalid maxRefUpdates'' [ArgS i])
      else bindE (foldE (addDeniedRef i) Map.empty (DenyRefs policy)) (\<lambda>_. Inr ()))"

definition validateRepository :: "string \<Rightarrow> repository \<Rightarrow> provider gomap \<Rightarrow> unit result" where
  "validateRepository i repo providers =
     (case map_of providers (Provider repo) of
        None \<Rightarrow> Inl (Errorf ''repository %q references undefined provider %q''
                  [ArgS i, ArgS (Provider repo)])
      | Some p \<Rightarrow>
          if \<not> ValidRepositoryIdentity (Kind p) (Owner repo) (Name repo)
          then Inl (Errorf ''repository %q has invalid owner or name'' [ArgS i])
          else validatePushPolicy i (Git repo))"

text \<open>Who a token environment belongs to: the text \<^verbatim>\<open>principal %q\<close> or \<^verbatim>\<open>provider %q\<close>.\<close>

type_synonym credential_owner = "string \<times> string"

definition addCredentialName ::
  "(string \<rightharpoonup> credential_owner) \<Rightarrow> string \<Rightarrow> credential_owner \<Rightarrow> (string \<rightharpoonup> credential_owner) result"
where
  "addCredentialName owners name owner =
     (case owners name of
        Some previous \<Rightarrow>
          Inl (Errorf ''%s and %s duplicate token environment %q''
            [ArgS (snd previous), ArgS (snd owner), ArgS name])
      | None \<Rightarrow> Inr (owners(name \<mapsto> owner)))"

definition addPrincipalName ::
  "string \<Rightarrow> (string \<rightharpoonup> credential_owner) \<Rightarrow> string \<Rightarrow> (string \<rightharpoonup> credential_owner) result"
where
  "addPrincipalName i owners name =
     (if \<not> tokenEnvName name
      then Inl (Errorf ''principal %q has invalid token environment name'' [ArgS i])
      else addCredentialName owners name (''principal'', i))"

definition addProviderName ::
  "provider gomap \<Rightarrow> (string \<rightharpoonup> credential_owner) \<Rightarrow> string \<Rightarrow> (string \<rightharpoonup> credential_owner) result"
where
  "addProviderName providers owners i =
     (case map_of providers i of
        None \<Rightarrow> Inr owners
      | Some p \<Rightarrow>
          if TokenEnv p = [] then Inr owners
          else addCredentialName owners (TokenEnv p) (''provider'', i))"

definition tokenEnvsOf :: "principal gomap \<Rightarrow> string \<Rightarrow> string list" where
  "tokenEnvsOf principals i =
     (case map_of principals i of None \<Rightarrow> [] | Some p \<Rightarrow> TokenEnvs p)"

definition validateCredentialNames :: "principal gomap \<Rightarrow> provider gomap \<Rightarrow> unit result" where
  "validateCredentialNames principals providers =
     bindE
       (foldE (\<lambda>owners i. foldE (addPrincipalName i) owners (tokenEnvsOf principals i))
          Map.empty (sortedIDs principals))
       (\<lambda>owners. bindE (foldE (addProviderName providers) owners (sortedIDs providers))
         (\<lambda>_. Inr ()))"

definition slugKey :: "repository \<Rightarrow> string" where
  "slugKey repo = toLower (Owner repo) @ ''/'' @ toLower (Name repo)"

definition addSlug ::
  "repository gomap \<Rightarrow> provider gomap \<Rightarrow> (string \<rightharpoonup> string) \<Rightarrow> string \<Rightarrow> (string \<rightharpoonup> string) result"
where
  "addSlug repositories providers slugs i =
     (case map_of repositories i of
        None \<Rightarrow> Inr slugs
      | Some repo \<Rightarrow>
          if (case map_of providers (Provider repo) of
                None \<Rightarrow> True | Some p \<Rightarrow> Kind p \<noteq> ProviderGitea)
          then Inr slugs
          else case slugs (slugKey repo) of
            Some previous \<Rightarrow>
              Inl (Errorf ''repositories %q and %q have colliding Gitea repository slug''
                [ArgS previous, ArgS i])
          | None \<Rightarrow> Inr (slugs(slugKey repo \<mapsto> i)))"

definition validateGiteaRepositoryCollisions ::
  "repository gomap \<Rightarrow> provider gomap \<Rightarrow> unit result"
where
  "validateGiteaRepositoryCollisions repositories providers =
     bindE (foldE (addSlug repositories providers) Map.empty (sortedIDs repositories)) (\<lambda>_. Inr ())"

definition validCapability :: "capability \<Rightarrow> bool" where
  "validCapability c =
     (c \<in> set [RepositoryRead, IssuesRead, IssuesWrite, PullRequestsRead, PullRequestsWrite,
               ActionsRead, StatusesRead, GitRead, GitWrite])"

definition addCapability ::
  "string \<Rightarrow> nat \<Rightarrow> (capability \<rightharpoonup> unit) \<Rightarrow> capability \<Rightarrow> (capability \<rightharpoonup> unit) result"
where
  "addCapability who index seen c =
     (if \<not> validCapability c
      then Inl (Errorf ''principal %q grant %d has unsupported capability %q''
             [ArgS who, ArgI (int index), ArgS c])
      else if seen c \<noteq> None
      then Inl (Errorf ''principal %q grant %d duplicates capability %q''
             [ArgS who, ArgI (int index), ArgS c])
      else Inr (seen(c \<mapsto> ())))"

definition validateCapabilities :: "string \<Rightarrow> nat \<Rightarrow> capability list \<Rightarrow> unit result" where
  "validateCapabilities who index capabilities =
     (if capabilities = []
      then Inl (Errorf ''principal %q grant %d has no capabilities'' [ArgS who, ArgI (int index)])
      else bindE (foldE (addCapability who index) Map.empty capabilities) (\<lambda>seen.
        if seen GitWrite \<noteq> None \<and> seen GitRead = None
        then Inl (Errorf ''principal %q grant %d grants git:write without git:read''
               [ArgS who, ArgI (int index)])
        else Inr ()))"

definition addGrant ::
  "string \<Rightarrow> repository gomap \<Rightarrow> (string \<rightharpoonup> unit) \<Rightarrow> nat \<times> grant \<Rightarrow> (string \<rightharpoonup> unit) result"
where
  "addGrant i repositories granted ig =
     (case ig of (index, g) \<Rightarrow>
        if map_of repositories (Repository g) = None
        then Inl (Errorf ''principal %q grant %d references undefined repository %q''
               [ArgS i, ArgI (int index), ArgS (Repository g)])
        else if granted (Repository g) \<noteq> None
        then Inl (Errorf ''principal %q has duplicate grant for repository %q''
               [ArgS i, ArgS (Repository g)])
        else bindE (validateCapabilities i index (GrantCapabilities g))
          (\<lambda>_. Inr (granted(Repository g \<mapsto> ()))))"

definition validatePrincipal :: "repository gomap \<Rightarrow> string \<times> principal \<Rightarrow> unit result" where
  "validatePrincipal repositories ip =
     (case ip of (i, p) \<Rightarrow>
        if \<not> identifierName i then Inl (Errorf ''invalid principal id %q'' [ArgS i])
        else if TokenEnvs p = [] \<or> Grants p = []
        then Inl (Errorf ''principal %q requires tokenEnvs and grants'' [ArgS i])
        else bindE (foldE (addGrant i repositories) Map.empty (enumerate 0 (Grants p)))
          (\<lambda>_. Inr ()))"

definition validatePrincipals :: "principal gomap \<Rightarrow> repository gomap \<Rightarrow> unit result" where
  "validatePrincipals principals repositories = checkAll (validatePrincipal repositories) principals"

definition limitValues :: "limits \<Rightarrow> (string \<times> int) list" where
  "limitValues l =
     [(''maxConcurrentRequests'', MaxConcurrentRequests l),
      (''maxConcurrentRequestsPerPrincipal'', MaxConcurrentRequestsPerPrincipal l),
      (''maxMessageBytes'', MaxMessageBytes l),
      (''maxStreamChunkBytes'', MaxStreamChunkBytes l),
      (''maxPushPrefixBytes'', MaxPushPrefixBytes l),
      (''maxGitBytesPerDirection'', MaxGitBytesPerDirection l),
      (''initialStreamTimeout'', InitialStreamTimeout l),
      (''operationTimeout'', OperationTimeout l),
      (''idleStreamTimeout'', IdleStreamTimeout l)]"

definition validateLimits :: "limits \<Rightarrow> unit result" where
  "validateLimits l =
     bindE (checkAll (\<lambda>(name, value).
         if value \<le> 0 then Inl (Errorf ''%s must be positive'' [ArgS name]) else Inr ())
         (limitValues l)) (\<lambda>_.
     if MaxConcurrentRequestsPerPrincipal l > MaxConcurrentRequests l
     then errorf ''maxConcurrentRequestsPerPrincipal exceeds maxConcurrentRequests''
     else if MaxMessageBytes l > maxMessageBytes
     then errorf ''maxMessageBytes exceeds hard cap''
     else if MaxStreamChunkBytes l > maxStreamChunkBytes
       \<or> MaxStreamChunkBytes l > MaxMessageBytes l
     then errorf ''maxStreamChunkBytes exceeds its cap''
     else if MaxPushPrefixBytes l > maxPushPrefixBytes
       \<or> MaxPushPrefixBytes l > MaxGitBytesPerDirection l
     then errorf ''maxPushPrefixBytes exceeds its cap''
     else Inr ())"

definition legacyGitHubProviders :: "provider gomap \<Rightarrow> nat" where
  "legacyGitHubProviders providers =
     length (filter (\<lambda>(i, p). Kind p = ProviderGitHub \<and> TokenEnv p = []) providers)"

definition Validate :: "config \<Rightarrow> unit result" where
  "Validate c =
     (if APIVersion c \<noteq> ''repowolf.dev/v1alpha1''
      then Inl (Errorf ''unsupported apiVersion %q'' [ArgS (APIVersion c)])
      else bindE (validateListen (Listen c)) (\<lambda>_.
      if Certificate (TLS c) = [] \<or> PrivateKey (TLS c) = []
      then errorf ''tls certificate and privateKey are required''
      else bindE (validateTools (Tools c)) (\<lambda>_.
      if Providers c = [] \<or> Repositories c = [] \<or> Principals c = []
      then errorf ''providers, repositories, and principals are required''
      else bindE (checkAll (\<lambda>(i, p).
          if \<not> identifierName i then Inl (Errorf ''invalid provider id %q'' [ArgS i])
          else validateProvider i p) (Providers c)) (\<lambda>_.
      if legacyGitHubProviders (Providers c) > 1
      then errorf ''only one GitHub provider may omit tokenEnv for legacy configuration''
      else bindE (validateCredentialNames (Principals c) (Providers c)) (\<lambda>_.
      bindE (checkAll (\<lambda>(i, r).
          if \<not> identifierName i then Inl (Errorf ''invalid repository id %q'' [ArgS i])
          else validateRepository i r (Providers c)) (Repositories c)) (\<lambda>_.
      bindE (validateGiteaRepositoryCollisions (Repositories c) (Providers c)) (\<lambda>_.
      bindE (validatePrincipals (Principals c) (Repositories c)) (\<lambda>_.
      validateLimits (Limits c)))))))))"



section \<open>What the section checks accept\<close>

text \<open>The ref grammar of the configuration is an instance of the shared contract.\<close>

lemma specials_code: "c \<in> set specials \<longleftrightarrow> code c \<in> {32, 126, 94, 58, 63, 42, 91, 92}"
  by (auto simp: specials_def intro: of_char_eqI)

lemma config_validRef_iff:
  "config_validRef r \<longleftrightarrow>
     prefix ''refs/'' r
     \<and> (\<forall>c \<in> set r. 32 < code c \<and> code c \<noteq> 127 \<and> c \<notin> set specials)
     \<and> \<not> sublist ''..'' r \<and> \<not> sublist [CHR ''@'', CHR ''{''] r \<and> \<not> suffix ''.'' r \<and> \<not> suffix ''.lock'' r
     \<and> (\<forall>p \<in> set (split CHR ''/'' r). p \<noteq> [] \<and> hd p \<noteq> CHR ''.'')"
    (is "_ \<longleftrightarrow> ?rhs")
proof -
  have "\<not> (code c \<le> 31 \<or> code c = 127) \<and> c \<notin> set specials \<longleftrightarrow>
      32 < code c \<and> code c \<noteq> 127 \<and> c \<notin> set specials" for c
    by (auto simp: specials_code)
  then have bytes: "allRunes (\<lambda>r. \<not> (r \<le> 31 \<or> r = 127)) r \<and> \<not> containsAny r specials \<longleftrightarrow>
      (\<forall>c \<in> set r. 32 < code c \<and> code c \<noteq> 127 \<and> c \<notin> set specials)"
    by (subst allRunes_bytes) (simp, auto simp: containsAny_iff)
  have dots: "list_all (\<lambda>p. \<not> (p = [] \<or> prefix ''.'' p)) (split CHR ''/'' r) \<longleftrightarrow>
      (\<forall>p \<in> set (split CHR ''/'' r). p \<noteq> [] \<and> hd p \<noteq> CHR ''.'')"
    by (auto simp: list_all_iff prefix_def neq_Nil_conv)
  have empties: "length r \<noteq> length ''refs/'' \<and> \<not> suffix ''/'' r \<and> \<not> sublist ''//'' r"
    if "prefix ''refs/'' r" "\<forall>p \<in> set (split CHR ''/'' r). p \<noteq> [] \<and> hd p \<noteq> CHR ''.''"
    using that split_Nil_suffix [of "CHR ''/''" r] split_Nil_sublist [of "CHR ''/''" r]
    by (auto simp: prefix_def)
  show ?thesis
    unfolding config_validRef_def go_defs dots
    using bytes empties by argo
qed

interpretation config_ref: ref_grammar config_validRef
  by unfold_locales (auto simp: config_validRef_iff)

interpretation denied_refs: unique_index config_validRef "\<lambda>r. r" "\<lambda>_. ()" "addDeniedRef i" for i
  by unfold_locales (auto simp: addDeniedRef_def)

lemma validatePushPolicy_iff:
  "isOK (validatePushPolicy i policy) \<longleftrightarrow>
     0 < MaxRefUpdates policy \<and> list_all config_validRef (DenyRefs policy) \<and> distinct (DenyRefs policy)"
  by (auto simp: validatePushPolicy_def result_simps isOK_iff [symmetric]
      denied_refs.foldE_isOK_iff list_all_iff simp flip: isOK_iff)

interpretation capabilities: unique_index validCapability "\<lambda>c. c" "\<lambda>_. ()" "addCapability who n" for who n
  by unfold_locales (auto simp: addCapability_def)

lemma validateCapabilities_iff:
  "isOK (validateCapabilities who n caps) \<longleftrightarrow>
     caps \<noteq> [] \<and> list_all validCapability caps \<and> distinct caps
     \<and> (GitWrite \<in> set caps \<longrightarrow> GitRead \<in> set caps)"
proof -
  have ok: "isOK (foldE (addCapability who n) Map.empty caps) \<longleftrightarrow>
      list_all validCapability caps \<and> distinct caps"
    by (simp add: capabilities.foldE_isOK_iff list_all_iff)
  show ?thesis
  proof (cases "foldE (addCapability who n) Map.empty caps")
    case (Inl e)
    with ok show ?thesis by (auto simp: validateCapabilities_def)
  next
    case (Inr seen)
    then have "dom seen = set caps"
      using capabilities.foldE_dom [OF Inr] by simp
    then have "seen c = None \<longleftrightarrow> c \<notin> set caps" for c
      by (metis domIff)
    from this [of GitWrite] this [of GitRead] ok show ?thesis
      by (auto simp: validateCapabilities_def Inr)
  qed
qed

interpretation grants: unique_index
  "\<lambda>ig. map_of repositories (Repository (snd ig)) \<noteq> None
     \<and> isOK (validateCapabilities i (fst ig) (GrantCapabilities (snd ig)))"
  "\<lambda>ig. Repository (snd ig)" "\<lambda>_. ()" "addGrant i repositories" for i repositories
proof (unfold_locales, goal_cases)
  case (1 x m)
  then show ?case
    by (cases x) (auto simp: addGrant_def isOK_iff)
next
  case (2 m x)
  then show ?case
    by (cases x) (auto simp: addGrant_def)
next
  case (3 x m)
  then show ?case
    by (cases x) (auto simp: addGrant_def result_simps isOK_iff)
qed

lemma validatePrincipal_iff:
  "isOK (validatePrincipal repositories (i, p)) \<longleftrightarrow>
     identifierName i \<and> TokenEnvs p \<noteq> [] \<and> Grants p \<noteq> []
     \<and> distinct (map Repository (Grants p))
     \<and> (\<forall>g \<in> set (Grants p). map_of repositories (Repository g) \<noteq> None
         \<and> GrantCapabilities g \<noteq> [] \<and> list_all validCapability (GrantCapabilities g)
         \<and> distinct (GrantCapabilities g)
         \<and> (GitWrite \<in> set (GrantCapabilities g) \<longrightarrow> GitRead \<in> set (GrantCapabilities g)))"
proof -
  let ?ok = "\<lambda>n g. map_of repositories (Repository g) \<noteq> None
      \<and> isOK (validateCapabilities i n (GrantCapabilities g))"
  have names: "map (\<lambda>ig. Repository (snd ig)) (enumerate 0 gs) = map Repository gs"
    for gs :: "grant list"
    by (metis (no_types, lifting) comp_apply list.map_comp map_eq_conv map_snd_enumerate)
  have each: "(\<forall>ig \<in> set (enumerate 0 gs). ?ok (fst ig) (snd ig)) \<longleftrightarrow>
      (\<forall>g \<in> set gs. ?ok 0 g)" for gs
  proof -
    have "set gs = snd ` set (enumerate 0 gs)"
      by (metis list.set_map map_snd_enumerate)
    then show ?thesis by (simp add: validateCapabilities_iff)
  qed
  have "isOK (foldE (addGrant i repositories) Map.empty (enumerate 0 (Grants p))) \<longleftrightarrow>
      (\<forall>g \<in> set (Grants p). ?ok 0 g) \<and> distinct (map Repository (Grants p))"
    unfolding grants.foldE_isOK_iff names using each [of "Grants p"] by simp
  then show ?thesis
    by (auto simp: validatePrincipal_def result_simps validateCapabilities_iff simp flip: isOK_iff)
qed


section \<open>Credential names are never shared\<close>

definition principalNames :: "principal gomap \<Rightarrow> string list" where
  "principalNames principals = concat (map (tokenEnvsOf principals) (sortedIDs principals))"

definition namedProvider :: "provider gomap \<Rightarrow> string \<Rightarrow> (string \<times> credential_owner) list" where
  "namedProvider providers i =
     (case map_of providers i of
        None \<Rightarrow> []
      | Some p \<Rightarrow> if TokenEnv p = [] then [] else [(TokenEnv p, (''provider'', i))])"

definition providerNames :: "provider gomap \<Rightarrow> string list" where
  "providerNames providers = concat (map (map fst \<circ> namedProvider providers) (sortedIDs providers))"

interpretation principal_names: unique_index
  "\<lambda>x. tokenEnvName (snd x)" snd "\<lambda>x. (''principal'', fst x)"
  "\<lambda>m x. addPrincipalName (fst x) m (snd x)"
  by unfold_locales (auto simp: addPrincipalName_def addCredentialName_def split: option.splits)

interpretation credential_names: unique_index
  "\<lambda>_. True" fst snd "\<lambda>m x. addCredentialName m (fst x) (snd x)"
  by unfold_locales (auto simp: addCredentialName_def split: option.splits)

lemma principal_fold:
  "foldE (\<lambda>m i. foldE (addPrincipalName i) m (L i)) m ids =
   foldE (\<lambda>m x. addPrincipalName (fst x) m (snd x)) m (concat (map (\<lambda>i. map (Pair i) (L i)) ids))"
  by (simp add: foldE_concat foldE_map)

lemma provider_fold:
  "foldE (addProviderName providers) m ids =
   foldE (\<lambda>m x. addCredentialName m (fst x) (snd x)) m
     (concat (map (namedProvider providers) ids))"
  unfolding foldE_concat foldE_map
  by (rule foldE_cong) (simp add: addProviderName_def namedProvider_def split: option.splits)

lemma snd_pairs: "map snd (concat (map (\<lambda>i. map (Pair i) (L i)) ids)) = concat (map L ids)"
  by (simp add: map_concat comp_def)

lemma set_pairs: "snd ` set (concat (map (\<lambda>i. map (Pair i) (L i)) ids)) = set (concat (map L ids))"
  by (metis snd_pairs list.set_map)

lemma validateCredentialNames_iff:
  "isOK (validateCredentialNames principals providers) \<longleftrightarrow>
     list_all tokenEnvName (principalNames principals)
     \<and> distinct (principalNames principals @ providerNames providers)"
proof -
  let ?xs = "concat (map (\<lambda>i. map (Pair i) (tokenEnvsOf principals i)) (sortedIDs principals))"
  let ?ys = "concat (map (namedProvider providers) (sortedIDs providers))"
  let ?add = "\<lambda>m x. addPrincipalName (fst x) m (snd x)"
  let ?addc = "\<lambda>m x. addCredentialName m (fst x) (snd x)"
  have ys: "map fst ?ys = providerNames providers"
    by (simp add: providerNames_def map_concat)
  have xs: "map snd ?xs = principalNames principals"
    by (simp add: principalNames_def snd_pairs)
  then have set_xs: "snd ` set ?xs = set (principalNames principals)"
    by (metis list.set_map)
  have first: "isOK (foldE ?add Map.empty ?xs) \<longleftrightarrow>
      list_all tokenEnvName (principalNames principals) \<and> distinct (principalNames principals)"
    by (simp only: principal_names.foldE_isOK_iff xs simp_thms)
      (simp add: list_all_iff flip: set_xs)
  have second: "isOK (foldE ?addc m ?ys) \<longleftrightarrow>
      set (principalNames principals) \<inter> set (providerNames providers) = {}
      \<and> distinct (providerNames providers)"
    if "foldE ?add Map.empty ?xs = Inr m" for m
  proof -
    have "dom m = set (principalNames principals)"
      using principal_names.foldE_dom [OF that] set_xs by simp
    moreover have "set (providerNames providers) = fst ` set ?ys"
      by (metis ys list.set_map)
    ultimately show ?thesis
      by (auto simp add: credential_names.foldE_isOK_iff ys [symmetric] domIff)
  qed
  have "isOK (validateCredentialNames principals providers) \<longleftrightarrow>
      (\<exists>m. foldE ?add Map.empty ?xs = Inr m \<and> isOK (foldE ?addc m ?ys))"
    by (simp add: validateCredentialNames_def principal_fold provider_fold isOK_bindE)
  then show ?thesis
    using first second by (auto simp: isOK_iff)
qed


section \<open>Gitea slugs do not collide\<close>

definition isGiteaRepo :: "repository gomap \<Rightarrow> provider gomap \<Rightarrow> string \<Rightarrow> bool" where
  "isGiteaRepo repositories providers i =
     (case map_of repositories i of
        None \<Rightarrow> False
      | Some r \<Rightarrow> (case map_of providers (Provider r) of
          None \<Rightarrow> False | Some p \<Rightarrow> Kind p = ProviderGitea))"

definition slugOf :: "repository gomap \<Rightarrow> string \<Rightarrow> string" where
  "slugOf repositories i = slugKey (the (map_of repositories i))"

interpretation slugs: unique_index
  "\<lambda>_. True" fst snd
  "\<lambda>m x. case m (fst x) of
     Some previous \<Rightarrow>
       Inl (Errorf ''repositories %q and %q have colliding Gitea repository slug''
         [ArgS previous, ArgS (snd x)])
   | None \<Rightarrow> Inr (m(fst x \<mapsto> snd x))"
  by unfold_locales (auto split: option.splits)

lemma validateGiteaRepositoryCollisions_iff:
  assumes "wfMap repositories"
  shows "isOK (validateGiteaRepositoryCollisions repositories providers) \<longleftrightarrow>
     inj_on (slugOf repositories) {i. isGiteaRepo repositories providers i}"
proof -
  let ?add = "\<lambda>m x. case m (fst x) of
     Some previous \<Rightarrow>
       Inl (Errorf ''repositories %q and %q have colliding Gitea repository slug''
         [ArgS previous, ArgS (snd x)])
   | None \<Rightarrow> Inr (m(fst x \<mapsto> snd x))"
  let ?ids = "filter (isGiteaRepo repositories providers) (sortedIDs repositories)"
  have step: "addSlug repositories providers m i = ?add m (slugOf repositories i, i)"
    if "i \<in> set ?ids" for m i
    using that by (auto simp: addSlug_def isGiteaRepo_def slugOf_def split: option.splits)
  have "foldE (addSlug repositories providers) Map.empty (sortedIDs repositories) =
      foldE (addSlug repositories providers) Map.empty ?ids"
    by (rule foldE_filter) (auto simp: addSlug_def isGiteaRepo_def split: option.splits)
  also have "\<dots> = foldE ?add Map.empty (map (\<lambda>i. (slugOf repositories i, i)) ?ids)"
    unfolding foldE_map by (rule foldE_cong) (rule step)
  finally have "isOK (validateGiteaRepositoryCollisions repositories providers) \<longleftrightarrow>
      distinct (map (slugOf repositories) ?ids)"
    by (simp add: validateGiteaRepositoryCollisions_def slugs.foldE_isOK_iff comp_def)
  moreover have "set ?ids = {i. isGiteaRepo repositories providers i}"
    by (auto simp: isGiteaRepo_def keys_def split: option.splits dest: map_of_SomeD
        intro: image_eqI [where x = "(a, b)" for a b])
  moreover have "distinct ?ids"
    using assms by (simp add: distinct_sortedIDs)
  ultimately show ?thesis
    by (simp add: distinct_map)
qed


section \<open>Limits\<close>

lemma validateLimits_iff:
  "isOK (validateLimits l) \<longleftrightarrow>
     0 < MaxConcurrentRequestsPerPrincipal l
     \<and> MaxConcurrentRequestsPerPrincipal l \<le> MaxConcurrentRequests l
     \<and> 0 < MaxStreamChunkBytes l \<and> MaxStreamChunkBytes l \<le> maxStreamChunkBytes
     \<and> MaxStreamChunkBytes l \<le> MaxMessageBytes l \<and> MaxMessageBytes l \<le> maxMessageBytes
     \<and> 0 < MaxPushPrefixBytes l \<and> MaxPushPrefixBytes l \<le> maxPushPrefixBytes
     \<and> MaxPushPrefixBytes l \<le> MaxGitBytesPerDirection l
     \<and> 0 < InitialStreamTimeout l \<and> 0 < OperationTimeout l \<and> 0 < IdleStreamTimeout l"
  by (auto simp: validateLimits_def limitValues_def)

lemma defaultLimits_valid: "validateLimits defaultLimits = Inr ()"
  by (simp add: validateLimits_def limitValues_def defaultLimits_def limit_defs)


section \<open>The whole configuration\<close>

lemma isOK_checkEntries:
  fixes f :: "string \<Rightarrow> 'b \<Rightarrow> unit result"
  shows "isOK (checkAll (\<lambda>(i, p). if \<not> identifierName i then Inl (E i) else f i p) m) \<longleftrightarrow>
    (\<forall>(i, p) \<in> set m. identifierName i \<and> isOK (f i p))"
  unfolding isOK_checkAll by (rule ball_cong) (auto split: prod.splits)

lemma Validate_iff:
  "Validate c = Inr () \<longleftrightarrow>
     APIVersion c = ''repowolf.dev/v1alpha1''
     \<and> isOK (validateListen (Listen c))
     \<and> (Certificate (TLS c) \<noteq> [] \<and> PrivateKey (TLS c) \<noteq> [])
     \<and> isOK (validateTools (Tools c))
     \<and> (Providers c \<noteq> [] \<and> Repositories c \<noteq> [] \<and> Principals c \<noteq> [])
     \<and> (\<forall>(i, p) \<in> set (Providers c). identifierName i \<and> isOK (validateProvider i p))
     \<and> legacyGitHubProviders (Providers c) \<le> 1
     \<and> isOK (validateCredentialNames (Principals c) (Providers c))
     \<and> (\<forall>(i, r) \<in> set (Repositories c).
          identifierName i \<and> isOK (validateRepository i r (Providers c)))
     \<and> isOK (validateGiteaRepositoryCollisions (Repositories c) (Providers c))
     \<and> (\<forall>ip \<in> set (Principals c). isOK (validatePrincipal (Repositories c) ip))
     \<and> isOK (validateLimits (Limits c))"
  unfolding isOK_unit [symmetric] Validate_def isOK_steps isOK_checkEntries
  unfolding validatePrincipals_def isOK_checkAll not_less de_Morgan_disj not_not ..

end
