(* ===== verification/Policy.thy ===== *)
theory Policy
  imports Config_Validate
begin

text \<open>
  Package \<^verbatim>\<open>internal/policy\<close>: the indexed snapshot of the configuration (\<^verbatim>\<open>snapshot.go\<close>), the
  resolution of a client's selector to one granted repository (\<^verbatim>\<open>authorize.go\<close>) and the check of a
  push's ref updates (\<^verbatim>\<open>push.go\<close>).
\<close>

section \<open>The snapshot\<close>

record snapshot =
  providers :: "provider gomap"
  repositories :: "repository gomap"
  grants :: "(capability set) gomap gomap"

record resolved =
  ID :: string
  resRepository :: repository
  resProvider :: provider

definition zeroProvider :: provider where
  "zeroProvider = \<lparr>Kind = [], APIHost = [], GitHost = [], SSHUser = [], SSHPort = 0,
     TokenEnv = [], CAFile = []\<rparr>"

definition zeroPushPolicy :: push_policy where
  "zeroPushPolicy = \<lparr>DenyRefs = [], DenyDeletes = False, MaxRefUpdates = 0\<rparr>"

definition zeroRepository :: repository where
  "zeroRepository = \<lparr>Provider = [], Owner = [], Name = [], Git = zeroPushPolicy\<rparr>"

text \<open>A copy of the deny list is the list itself: values are immutable here.\<close>

definition copyRepository :: "repository \<Rightarrow> repository" where
  "copyRepository r = r\<lparr>Git := (Git r)\<lparr>DenyRefs := DenyRefs (Git r)\<rparr>\<rparr>"

definition indexRepository ::
  "provider gomap \<Rightarrow> repository gomap \<Rightarrow> string \<times> repository \<Rightarrow> repository gomap result"
where
  "indexRepository ps acc ir =
     (case ir of (i, r) \<Rightarrow>
        if map_of ps (Provider r) = None
        then Inl (Wrapf ''%w: repository %q references provider %q''
               [ArgS i, ArgS (Provider r)] (Sentinel ErrRepository))
        else Inr (mapSet i (copyRepository r) acc))"

definition indexGrant ::
  "string \<Rightarrow> repository gomap \<Rightarrow> (capability set) gomap \<Rightarrow> grant \<Rightarrow> (capability set) gomap result"
where
  "indexGrant who rs acc g =
     (if map_of rs (Repository g) = None
      then Inl (Wrapf ''%w: principal %q references repository %q''
             [ArgS who, ArgS (Repository g)] (Sentinel ErrRepository))
      else Inr (mapSet (Repository g) (set (GrantCapabilities g)) acc))"

definition indexPrincipal ::
  "repository gomap \<Rightarrow> (capability set) gomap gomap \<Rightarrow> string \<times> principal
     \<Rightarrow> (capability set) gomap gomap result"
where
  "indexPrincipal rs acc ip =
     (case ip of (i, p) \<Rightarrow>
        bindE (foldE (indexGrant i rs) [] (Grants p)) (\<lambda>g. Inr (mapSet i g acc)))"

definition policy_New :: "config \<Rightarrow> snapshot result" where
  "policy_New cfg =
     (let ps = fold (\<lambda>(i, p) acc. mapSet i p acc) (Providers cfg) [] in
      bindE (foldE (indexRepository ps) [] (Repositories cfg)) (\<lambda>rs.
      bindE (foldE (indexPrincipal rs) [] (Principals cfg)) (\<lambda>gs.
      Inr \<lparr>providers = ps, repositories = rs, grants = gs\<rparr>)))"


section \<open>Selectors\<close>

record selector =
  selKind :: provider_kind
  selHost :: string
  selSSHPort :: "16 word"
  selOwner :: string
  selName :: string

record git_selector =
  gitSSHUser :: string
  gitHost :: string
  gitSSHPort :: "16 word"
  gitOwner :: string
  gitName :: string

text \<open>The loop over the indices of two strings of the same length.\<close>

definition asciiEqualFold :: "string \<Rightarrow> string \<Rightarrow> bool" where
  "asciiEqualFold left right =
     (length left = length right
      \<and> list_all (\<lambda>(l, r). code l < 128 \<and> code r < 128 \<and> lowerByte l = lowerByte r)
          (zip left right))"

definition matchesRepositoryIdentity :: "selector \<Rightarrow> repository \<Rightarrow> provider_kind \<Rightarrow> bool" where
  "matchesRepositoryIdentity s r kind =
     (if kind = ProviderGitea then
        (selOwner s = [] \<or> asciiEqualFold (selOwner s) (Owner r))
        \<and> (selName s = [] \<or> asciiEqualFold (selName s) (Name r))
      else
        (selOwner s = [] \<or> selOwner s = Owner r) \<and> (selName s = [] \<or> selName s = Name r))"

definition matches :: "selector \<Rightarrow> repository \<Rightarrow> provider \<Rightarrow> bool" where
  "matches s r p =
     ((selKind s = [] \<or> selKind s = Kind p)
      \<and> (selHost s = [] \<or> selHost s = GitHost p)
      \<and> (selSSHPort s = 0 \<or> selSSHPort s = SSHPort p)
      \<and> matchesRepositoryIdentity s r (Kind p))"

definition matchesGit :: "git_selector \<Rightarrow> repository \<Rightarrow> provider \<Rightarrow> bool" where
  "matchesGit s r p =
     (let userMatches =
            (if gitSSHUser s = [] then Kind p = ProviderGitHub \<and> SSHUser p = ''git''
             else gitSSHUser s = SSHUser p);
          slugMatches =
            (if Kind p = ProviderGitea
             then asciiEqualFold (gitOwner s) (Owner r) \<and> asciiEqualFold (gitName s) (Name r)
             else gitOwner s = Owner r \<and> gitName s = Name r)
      in userMatches \<and> asciiEqualFold (gitHost s) (GitHost p)
         \<and> (gitSSHPort s = 0 \<or> gitSSHPort s = SSHPort p) \<and> slugMatches)"


section \<open>Resolution\<close>

definition lookupRepository :: "snapshot \<Rightarrow> string \<Rightarrow> resolved" where
  "lookupRepository sn i =
     (let r = mapGet zeroRepository (repositories sn) i
      in \<lparr>ID = i, resRepository = r, resProvider = mapGet zeroProvider (providers sn) (Provider r)\<rparr>)"

fun resolveLoop ::
  "snapshot \<Rightarrow> (repository \<Rightarrow> provider \<Rightarrow> bool) \<Rightarrow> (capability set) gomap \<Rightarrow> resolved option
     \<Rightarrow> resolved option result"
where
  "resolveLoop sn f [] match = Inr match"
| "resolveLoop sn f ((i, _) # gs) match =
     (let x = lookupRepository sn i in
      if \<not> f (resRepository x) (resProvider x) then resolveLoop sn f gs match
      else if match \<noteq> None then fail ErrDenied
      else resolveLoop sn f gs (Some x))"

definition resolve ::
  "snapshot \<Rightarrow> string \<Rightarrow> capability \<Rightarrow> (repository \<Rightarrow> provider \<Rightarrow> bool) \<Rightarrow> resolved result"
where
  "resolve sn who cap f =
     (case map_of (grants sn) who of
        None \<Rightarrow> fail ErrDenied
      | Some gs \<Rightarrow>
          bindE (resolveLoop sn f gs None) (\<lambda>match.
          case match of
            None \<Rightarrow> fail ErrDenied
          | Some x \<Rightarrow>
              if cap \<notin> mapGet {} gs (ID x) then fail ErrDenied
              else Inr (x\<lparr>resRepository := copyRepository (resRepository x)\<rparr>)))"

definition Resolve :: "snapshot \<Rightarrow> string \<Rightarrow> selector \<Rightarrow> capability \<Rightarrow> resolved result" where
  "Resolve sn who sel cap = resolve sn who cap (matches sel)"

definition ResolveGit :: "snapshot \<Rightarrow> string \<Rightarrow> git_selector \<Rightarrow> capability \<Rightarrow> resolved result" where
  "ResolveGit sn who sel cap = resolve sn who cap (matchesGit sel)"


section \<open>Push policy\<close>

definition validOID :: "string \<Rightarrow> bool" where
  "validOID oid =
     ((length oid = 40 \<or> length oid = 64)
      \<and> allRunes (\<lambda>r. 48 \<le> r \<and> r \<le> 57 \<or> 97 \<le> r \<and> r \<le> 102 \<or> 65 \<le> r \<and> r \<le> 70) oid)"

definition zeroOID :: "string \<Rightarrow> bool" where
  "zeroOID oid = (trim oid ''0'' = [])"

definition policy_validRef :: "string \<Rightarrow> bool" where
  "policy_validRef ref =
     (allRunes (\<lambda>r. \<not> (r \<le> 31 \<or> r = 127)) ref
      \<and> \<not> (\<not> hasPrefix ref ''refs/'' \<or> length ref = length ''refs/'' \<or> hasSuffix ref ''/''
           \<or> hasSuffix ref ''.'' \<or> contains ref ''..'' \<or> contains ref [CHR ''@'', CHR ''{''] \<or> contains ref ''//''
           \<or> containsAny ref specials)
      \<and> list_all (\<lambda>component.
            \<not> (component = [] \<or> hasPrefix component ''.'' \<or> hasSuffix component ''.lock''))
          (split CHR ''/'' ref))"

definition refPolicyError :: "string \<Rightarrow> arg list \<Rightarrow> go_error" where
  "refPolicyError msg args = Wrapf msg args (Sentinel ErrRefPolicy)"

definition checkUpdate :: "push_policy \<Rightarrow> update \<Rightarrow> unit result" where
  "checkUpdate policy u =
     (if \<not> policy_validRef (Ref u) then Inl (refPolicyError ''%w: invalid ref'' [])
      else if \<not> validOID (OldOID u) \<or> \<not> validOID (NewOID u)
        \<or> length (OldOID u) \<noteq> length (NewOID u)
      then Inl (refPolicyError ''%w: invalid object ID'' [])
      else if Ref u \<in> set (DenyRefs policy) then Inl (refPolicyError ''%w: denied ref'' [])
      else if DenyDeletes policy \<and> zeroOID (NewOID u)
      then Inl (refPolicyError ''%w: denied deletion'' [])
      else Inr ())"

definition ValidatePush :: "push_policy \<Rightarrow> update list \<Rightarrow> unit result" where
  "ValidatePush policy updates =
     (if int (length updates) > MaxRefUpdates policy
      then Inl (refPolicyError ''%w: %d updates exceeds maximum %d''
             [ArgI (int (length updates)), ArgI (MaxRefUpdates policy)])
      else checkAll (checkUpdate policy) updates)"



section \<open>The snapshot is well formed\<close>

text \<open>
  What a snapshot built from a configuration satisfies: its maps have distinct keys, every
  repository names a known provider and every grant a known repository.
\<close>

definition wfSnapshot :: "snapshot \<Rightarrow> bool" where
  "wfSnapshot sn =
     (wfMap (grants sn)
      \<and> (\<forall>i r. map_of (repositories sn) i = Some r \<longrightarrow> map_of (providers sn) (Provider r) \<noteq> None)
      \<and> (\<forall>who gs. map_of (grants sn) who = Some gs \<longrightarrow>
           wfMap gs \<and> (\<forall>i \<in> set (keys gs). map_of (repositories sn) i \<noteq> None)))"

lemma copyRepository_id [simp]: "copyRepository r = r"
  by (simp add: copyRepository_def)

lemma fold_mapSet: "map_of (fold (\<lambda>(i, p) acc. mapSet i p acc) m acc) = map_of acc ++ map_of (rev m)"
  by (induction m arbitrary: acc) (auto simp: map_add_def fun_eq_iff split: option.splits)

lemma map_of_rev_wf: "wfMap m \<Longrightarrow> map_of (rev m) = map_of m"
  by (rule map_of_perm [symmetric]) simp_all

lemma indexRepository_Inr:
  "indexRepository ps acc (i, r) = Inr m \<longleftrightarrow> map_of ps (Provider r) \<noteq> None \<and> m = mapSet i r acc"
  by (auto simp: indexRepository_def)

lemma indexGrant_Inr:
  "indexGrant who rs acc g = Inr m \<longleftrightarrow>
     map_of rs (Repository g) \<noteq> None \<and> m = mapSet (Repository g) (set (GrantCapabilities g)) acc"
  by (auto simp: indexGrant_def)

lemma indexRepositories:
  "foldE (indexRepository ps) acc rs = Inr rs' \<Longrightarrow>
     map_of rs' = map_of acc ++ map_of (rev rs)
     \<and> (\<forall>(i, r) \<in> set rs. map_of ps (Provider r) \<noteq> None)"
proof (induction rs arbitrary: acc)
  case (Cons x rs)
  obtain i r where x: "x = (i, r)" by force
  with Cons.prems have "map_of ps (Provider r) \<noteq> None"
    and "foldE (indexRepository ps) (mapSet i r acc) rs = Inr rs'"
    by (simp_all add: result_simps indexRepository_Inr)
  with Cons.IH [of "mapSet i r acc"] x show ?case
    by (auto simp: map_add_def fun_eq_iff split: option.splits)
qed simp

lemma indexRepositories_isOK:
  "isOK (foldE (indexRepository ps) acc rs) \<longleftrightarrow> (\<forall>(i, r) \<in> set rs. map_of ps (Provider r) \<noteq> None)"
proof (induction rs arbitrary: acc)
  case (Cons x rs)
  then show ?case
    by (cases x) (simp add: result_simps indexRepository_Inr)
qed simp

text \<open>The entry the index holds for one configured principal.\<close>

definition grantPairs :: "grant list \<Rightarrow> (capability set) gomap" where
  "grantPairs gs = map (\<lambda>g. (Repository g, set (GrantCapabilities g))) gs"

definition grantIndex :: "principal \<Rightarrow> (capability set) gomap" where
  "grantIndex p = fold (\<lambda>(i, c) acc. mapSet i c acc) (grantPairs (Grants p)) []"

lemma indexGrants_eq:
  "(\<forall>g \<in> set gs. map_of rs (Repository g) \<noteq> None) \<Longrightarrow>
     foldE (indexGrant who rs) acc gs = Inr (fold (\<lambda>(i, c) acc. mapSet i c acc) (grantPairs gs) acc)"
  by (induction gs arbitrary: acc) (auto simp: indexGrant_def grantPairs_def)

lemma indexGrants_isOK:
  "isOK (foldE (indexGrant who rs) acc gs) \<longleftrightarrow> (\<forall>g \<in> set gs. map_of rs (Repository g) \<noteq> None)"
  by (induction gs arbitrary: acc) (simp_all add: result_simps indexGrant_Inr)

lemma indexPrincipal_Inr:
  "indexPrincipal rs acc (i, p) = Inr m \<longleftrightarrow>
     (\<forall>g \<in> set (Grants p). map_of rs (Repository g) \<noteq> None) \<and> m = mapSet i (grantIndex p) acc"
proof (cases "\<forall>g \<in> set (Grants p). map_of rs (Repository g) \<noteq> None")
  case True
  then show ?thesis
    by (auto simp: indexPrincipal_def indexGrants_eq grantIndex_def)
next
  case False
  then have "\<not> isOK (foldE (indexGrant i rs) [] (Grants p))"
    by (simp add: indexGrants_isOK)
  with False show ?thesis
    by (auto simp: indexPrincipal_def result_simps isOK_iff)
qed

lemma indexPrincipals:
  "foldE (indexPrincipal rs) acc ps = Inr m \<Longrightarrow>
     map_of m = map_of acc ++ map_of (rev (map (\<lambda>(i, p). (i, grantIndex p)) ps))
     \<and> (wfMap acc \<longrightarrow> wfMap m)
     \<and> (\<forall>(i, p) \<in> set ps. \<forall>g \<in> set (Grants p). map_of rs (Repository g) \<noteq> None)"
proof (induction ps arbitrary: acc)
  case (Cons x ps)
  obtain i p where x: "x = (i, p)" by force
  with Cons.prems have "\<forall>g \<in> set (Grants p). map_of rs (Repository g) \<noteq> None"
    and "foldE (indexPrincipal rs) (mapSet i (grantIndex p) acc) ps = Inr m"
    by (simp_all add: result_simps indexPrincipal_Inr)
  with Cons.IH [of "mapSet i (grantIndex p) acc"] wfMap_mapSet [of acc] x show ?case
    by (auto simp: map_add_def fun_eq_iff split: option.splits)
qed simp

lemma indexPrincipals_isOK:
  "isOK (foldE (indexPrincipal rs) acc ps) \<longleftrightarrow>
     (\<forall>(i, p) \<in> set ps. \<forall>g \<in> set (Grants p). map_of rs (Repository g) \<noteq> None)"
proof (induction ps arbitrary: acc)
  case (Cons x ps)
  then show ?case
    by (cases x) (simp add: result_simps indexPrincipal_Inr)
qed simp

lemma wfMap_fold: "wfMap acc \<Longrightarrow> wfMap (fold (\<lambda>(i, p) acc. mapSet i p acc) m acc)"
  by (induction m arbitrary: acc) (auto simp: wfMap_mapSet)

lemma grantIndex_wf: "wfMap (grantIndex p)"
  by (simp add: grantIndex_def wfMap_fold)

lemma grantIndex_map_of: "map_of (grantIndex p) = map_of (rev (grantPairs (Grants p)))"
  by (simp add: grantIndex_def fold_mapSet)

lemma grantIndex_keys: "set (keys (grantIndex p)) = Repository ` set (Grants p)"
proof -
  have "set (keys (grantIndex p)) = dom (map_of (rev (grantPairs (Grants p))))"
    by (auto simp: map_of_keys grantIndex_map_of)
  also have "\<dots> = Repository ` set (Grants p)"
    by (simp add: dom_map_of_conv_image_fst grantPairs_def image_image)
  finally show ?thesis .
qed

lemma grantIndex_Some_iff:
  assumes "distinct (map Repository (Grants p))"
  shows "map_of (grantIndex p) i = Some caps \<longleftrightarrow>
    (\<exists>g \<in> set (Grants p). Repository g = i \<and> set (GrantCapabilities g) = caps)"
proof -
  have *: "distinct (map fst (grantPairs (Grants p)))"
    using assms by (simp add: grantPairs_def comp_def)
  then have "map_of (grantIndex p) = map_of (grantPairs (Grants p))"
    by (simp add: grantIndex_map_of map_of_rev_wf wfMap_def keys_def)
  then show ?thesis
    using * by (auto simp: grantPairs_def)
qed

lemma policy_New_cases:
  assumes "policy_New cfg = Inr sn"
  shows "map_of (providers sn) = map_of (rev (Providers cfg))"
    and "map_of (repositories sn) = map_of (rev (Repositories cfg))"
    and "map_of (grants sn) = map_of (rev (map (\<lambda>(i, p). (i, grantIndex p)) (Principals cfg)))"
    and "wfSnapshot sn"
proof -
  let ?ps = "fold (\<lambda>(i, p) acc. mapSet i p acc) (Providers cfg) []"
  from assms obtain rs gs where rs: "foldE (indexRepository ?ps) [] (Repositories cfg) = Inr rs"
    and gs: "foldE (indexPrincipal rs) [] (Principals cfg) = Inr gs"
    and sn: "sn = \<lparr>providers = ?ps, repositories = rs, grants = gs\<rparr>"
    by (auto simp: policy_New_def Let_def result_simps)
  show p: "map_of (providers sn) = map_of (rev (Providers cfg))"
    by (simp add: sn fold_mapSet)
  show r: "map_of (repositories sn) = map_of (rev (Repositories cfg))"
    using indexRepositories [OF rs] by (simp add: sn)
  show g: "map_of (grants sn) = map_of (rev (map (\<lambda>(i, p). (i, grantIndex p)) (Principals cfg)))"
    using indexPrincipals [OF gs] by (simp add: sn)
  have "map_of (repositories sn) i = Some x \<Longrightarrow> map_of (providers sn) (Provider x) \<noteq> None" for i x
    using indexRepositories [OF rs] by (auto simp: r sn dest!: map_of_SomeD)
  moreover have "wfMap gs' \<and> (\<forall>i \<in> set (keys gs'). map_of (repositories sn) i \<noteq> None)"
    if look: "map_of (grants sn) who = Some gs'" for who gs'
  proof -
    from look obtain pr where pr: "(who, pr) \<in> set (Principals cfg)" "gs' = grantIndex pr"
      by (auto simp: g dest!: map_of_SomeD)
    with indexPrincipals [OF gs] have "\<forall>g \<in> set (Grants pr). map_of rs (Repository g) \<noteq> None"
      by fastforce
    with pr show ?thesis
      by (auto simp: grantIndex_wf grantIndex_keys sn)
  qed
  ultimately show "wfSnapshot sn"
    using indexPrincipals [OF gs] by (auto simp: wfSnapshot_def sn)
qed



section \<open>What resolution returns\<close>

definition matchingGrants ::
  "snapshot \<Rightarrow> (repository \<Rightarrow> provider \<Rightarrow> bool) \<Rightarrow> (capability set) gomap \<Rightarrow> (capability set) gomap"
where
  "matchingGrants sn f gs =
     filter (\<lambda>(i, _). f (resRepository (lookupRepository sn i)) (resProvider (lookupRepository sn i))) gs"

lemma resolveLoop_Some:
  "resolveLoop sn f gs (Some x) =
     (if matchingGrants sn f gs = [] then Inr (Some x) else fail ErrDenied)"
  by (induction gs) (auto simp: matchingGrants_def Let_def)

lemma resolveLoop_None:
  "resolveLoop sn f gs None =
     (case matchingGrants sn f gs of
        [] \<Rightarrow> Inr None
      | [x] \<Rightarrow> Inr (Some (lookupRepository sn (fst x)))
      | _ \<Rightarrow> fail ErrDenied)"
  by (induction gs)
    (auto simp: matchingGrants_def Let_def resolveLoop_Some split: list.splits)

lemma resolve_eq:
  "resolve sn who cap f =
     (case map_of (grants sn) who of
        None \<Rightarrow> fail ErrDenied
      | Some gs \<Rightarrow>
          (case matchingGrants sn f gs of
             [x] \<Rightarrow> if cap \<in> mapGet {} gs (fst x) then Inr (lookupRepository sn (fst x))
                   else fail ErrDenied
           | _ \<Rightarrow> fail ErrDenied))"
  by (auto simp: resolve_def resolveLoop_None lookupRepository_def Let_def
      split: option.splits list.splits)

lemma resolve_denied: "resolve sn who cap f = Inl e \<Longrightarrow> e = Sentinel ErrDenied"
  by (auto simp: resolve_eq fail_def split: option.splits list.splits if_splits)

lemma filter_single_iff:
  assumes "wfMap gs"
  shows "(\<exists>c. filter (\<lambda>(i, _). P i) gs = [(k, c)]) \<longleftrightarrow>
    k \<in> set (keys gs) \<and> P k \<and> (\<forall>j \<in> set (keys gs). P j \<longrightarrow> j = k)"
proof
  assume "\<exists>c. filter (\<lambda>(i, _). P i) gs = [(k, c)]"
  then obtain c where "filter (\<lambda>(i, _). P i) gs = [(k, c)]"
    by blast
  then have eq: "set (filter (\<lambda>(i, _). P i) gs) = {(k, c)}"
    by (simp only: list.set)
  have *: "(i, d) \<in> set gs \<and> P i \<longleftrightarrow> i = k \<and> d = c" for i d
  proof -
    have "(i, d) \<in> set (filter (\<lambda>(i, _). P i) gs) \<longleftrightarrow> (i, d) \<in> {(k, c)}"
      by (simp only: eq)
    then show ?thesis by simp
  qed
  then have "k \<in> set (keys gs)" and "P k"
    by (force simp: keys_def)+
  moreover have "j = k" if "j \<in> set (keys gs)" "P j" for j
    using that * [of j] by (auto simp: keys_def)
  ultimately show "k \<in> set (keys gs) \<and> P k \<and> (\<forall>j \<in> set (keys gs). P j \<longrightarrow> j = k)"
    by blast
next
  assume *: "k \<in> set (keys gs) \<and> P k \<and> (\<forall>j \<in> set (keys gs). P j \<longrightarrow> j = k)"
  let ?xs = "filter (\<lambda>(i, _). P i) gs"
  have "distinct (map fst ?xs)"
    using assms by (simp add: wfMap_def keys_def distinct_map_filter)
  moreover have "set (map fst ?xs) = {k}"
  proof
    show "set (map fst ?xs) \<subseteq> {k}"
      using * by (auto simp: keys_def)
    from * obtain c where "(k, c) \<in> set ?xs"
      by (auto simp: keys_def)
    then have "fst (k, c) \<in> fst ` set ?xs"
      by (rule imageI)
    then show "{k} \<subseteq> set (map fst ?xs)"
      by simp
  qed
  ultimately have "length (map fst ?xs) = 1"
    by (metis distinct_card card_1_singleton_iff One_nat_def)
  then obtain x where "?xs = [x]"
    by (metis One_nat_def length_0_conv length_Suc_conv length_map)
  with \<open>set (map fst ?xs) = {k}\<close> show "\<exists>c. ?xs = [(k, c)]"
    by (cases x) auto
qed

lemma resolve_Inr_iff:
  assumes "wfSnapshot sn"
  shows "resolve sn who cap f = Inr x \<longleftrightarrow>
    (\<exists>gs caps. map_of (grants sn) who = Some gs \<and> map_of gs (ID x) = Some caps \<and> cap \<in> caps
       \<and> x = lookupRepository sn (ID x)
       \<and> f (resRepository x) (resProvider x)
       \<and> (\<forall>j \<in> set (keys gs). f (resRepository (lookupRepository sn j))
             (resProvider (lookupRepository sn j)) \<longrightarrow> j = ID x))"
    (is "?lhs \<longleftrightarrow> (\<exists>gs caps. ?R gs caps)")
proof -
  have ID: "ID (lookupRepository sn k) = k" for k
    by (simp add: lookupRepository_def Let_def)
  have single: "(\<exists>c. matchingGrants sn f gs = [(ID x, c)]) \<longleftrightarrow>
      ID x \<in> set (keys gs)
      \<and> f (resRepository (lookupRepository sn (ID x))) (resProvider (lookupRepository sn (ID x)))
      \<and> (\<forall>j \<in> set (keys gs). f (resRepository (lookupRepository sn j))
             (resProvider (lookupRepository sn j)) \<longrightarrow> j = ID x)"
    if "map_of (grants sn) who = Some gs" for gs
    using assms that unfolding matchingGrants_def wfSnapshot_def
    by (intro filter_single_iff) blast
  have "?lhs \<longleftrightarrow> (\<exists>gs c. map_of (grants sn) who = Some gs \<and> matchingGrants sn f gs = [(ID x, c)]
      \<and> cap \<in> mapGet {} gs (ID x) \<and> x = lookupRepository sn (ID x))"
    using ID by (auto simp: resolve_eq split: option.splits list.splits) 
  also have "\<dots> \<longleftrightarrow> (\<exists>gs. map_of (grants sn) who = Some gs \<and> (\<exists>c. matchingGrants sn f gs = [(ID x, c)])
      \<and> cap \<in> mapGet {} gs (ID x) \<and> x = lookupRepository sn (ID x))"
    by blast
  also have "\<dots> \<longleftrightarrow> (\<exists>gs caps. ?R gs caps)"
    using single by (auto simp: map_of_keys mapGet_def split: option.splits)
  finally show ?thesis .
qed



text \<open>
  The interface the Git service and the provider services call: a resolver answers with a
  repository the principal holds the capability for, taken from the trusted snapshot, or denies.
\<close>

locale repository_resolver =
  fixes res :: "snapshot \<Rightarrow> string \<Rightarrow> 'sel \<Rightarrow> capability \<Rightarrow> resolved result"
    and sat :: "'sel \<Rightarrow> repository \<Rightarrow> provider \<Rightarrow> bool"
  assumes granted: "wfSnapshot sn \<Longrightarrow> res sn who sel cap = Inr x \<Longrightarrow>
      \<exists>gs caps. map_of (grants sn) who = Some gs \<and> map_of gs (ID x) = Some caps \<and> cap \<in> caps"
    and selected: "wfSnapshot sn \<Longrightarrow> res sn who sel cap = Inr x \<Longrightarrow>
      sat sel (resRepository x) (resProvider x)"
    and indexed: "wfSnapshot sn \<Longrightarrow> res sn who sel cap = Inr x \<Longrightarrow> x = lookupRepository sn (ID x)"
    and only_match: "wfSnapshot sn \<Longrightarrow> res sn who sel cap = Inr x \<Longrightarrow>
      map_of (grants sn) who = Some gs \<Longrightarrow> j \<in> set (keys gs) \<Longrightarrow>
      sat sel (resRepository (lookupRepository sn j)) (resProvider (lookupRepository sn j)) \<Longrightarrow> j = ID x"
    and uniform: "res sn who sel cap = Inl e \<Longrightarrow> e = Sentinel ErrDenied"
begin

lemma known:
  assumes "wfSnapshot sn" and "res sn who sel cap = Inr x"
  shows "map_of (repositories sn) (ID x) = Some (resRepository x)"
    and "map_of (providers sn) (Provider (resRepository x)) = Some (resProvider x)"
proof -
  from granted [OF assms] obtain gs where "map_of (grants sn) who = Some gs" "ID x \<in> set (keys gs)"
    by (auto simp: map_of_keys)
  with assms(1) obtain r p where rp: "map_of (repositories sn) (ID x) = Some r"
    "map_of (providers sn) (Provider r) = Some p"
    by (fastforce simp: wfSnapshot_def)
  moreover from indexed [OF assms] rp have "resRepository x = r" "resProvider x = p"
    by (auto simp: lookupRepository_def Let_def mapGet_def dest: arg_cong [of _ _ resRepository]
        arg_cong [of _ _ resProvider])
  ultimately show "map_of (repositories sn) (ID x) = Some (resRepository x)"
    and "map_of (providers sn) (Provider (resRepository x)) = Some (resProvider x)"
    by simp_all
qed

lemma capability_irrelevant:
  assumes "wfSnapshot sn" and "res sn who sel cap = Inr x" and "res sn who sel cap' = Inr y"
  shows "x = y"
proof -
  from granted [OF assms(1,3)] obtain gs where gs: "map_of (grants sn) who = Some gs"
    and y: "ID y \<in> set (keys gs)"
    by (auto simp: map_of_keys)
  have "sat sel (resRepository (lookupRepository sn (ID y))) (resProvider (lookupRepository sn (ID y)))"
    using selected [OF assms(1,3)] indexed [OF assms(1,3)] by simp
  then have "ID y = ID x"
    using only_match [OF assms(1,2) gs y] by simp
  then show ?thesis
    using indexed [OF assms(1,2)] indexed [OF assms(1,3)] by simp
qed

lemma unknown_principal:
  assumes "wfSnapshot sn" and "map_of (grants sn) who = None"
  shows "res sn who sel cap = Inl (Sentinel ErrDenied)"
proof (cases "res sn who sel cap")
  case (Inl e)
  then show ?thesis using uniform by simp
next
  case (Inr x)
  with granted [OF assms(1) Inr] assms(2) show ?thesis by simp
qed

lemma missing_capability:
  assumes "wfSnapshot sn" and "map_of (grants sn) who = Some gs"
    and "\<And>i caps. map_of gs i = Some caps \<Longrightarrow> cap \<notin> caps"
  shows "res sn who sel cap = Inl (Sentinel ErrDenied)"
proof (cases "res sn who sel cap")
  case (Inl e)
  then show ?thesis using uniform by simp
next
  case (Inr x)
  with granted [OF assms(1) Inr] assms(2,3) show ?thesis by fastforce
qed

end

interpretation api: repository_resolver Resolve matches
  by unfold_locales
    (auto simp: Resolve_def resolve_Inr_iff dest: resolve_denied)

interpretation git: repository_resolver ResolveGit matchesGit
  by unfold_locales
    (auto simp: ResolveGit_def resolve_Inr_iff dest: resolve_denied)


section \<open>Selector matching\<close>

lemma asciiEqualFold_iff:
  "asciiEqualFold l r \<longleftrightarrow> isASCII l \<and> isASCII r \<and> toLower l = toLower r"
proof (induction l arbitrary: r)
  case (Cons a l)
  then show ?case
    by (cases r) (auto simp: asciiEqualFold_def isASCII_def toLower_def)
qed (auto simp: asciiEqualFold_def isASCII_def toLower_def)

lemma asciiEqualFold_sym: "asciiEqualFold l r = asciiEqualFold r l"
  by (auto simp: asciiEqualFold_iff)

lemma asciiEqualFold_trans: "asciiEqualFold a b \<Longrightarrow> asciiEqualFold b c \<Longrightarrow> asciiEqualFold a c"
  by (simp add: asciiEqualFold_iff)


section \<open>Ref names in a push\<close>

lemma policy_validRef_iff:
  "policy_validRef r \<longleftrightarrow>
     config_validRef r \<and> (\<forall>p \<in> set (split CHR ''/'' r). \<not> suffix ''.lock'' p)"
proof -
  have "\<exists>p \<in> set (split CHR ''/'' r). suffix ''.lock'' p" if "suffix ''.lock'' r"
    using split_suffix [of "CHR ''/''" "''.lock''" r] that by simp
  moreover have "list_all (\<lambda>p. \<not> (p = [] \<or> hasPrefix p ''.'' \<or> hasSuffix p ''.lock'')) ps \<longleftrightarrow>
      list_all (\<lambda>p. \<not> (p = [] \<or> hasPrefix p ''.'')) ps \<and> (\<forall>p \<in> set ps. \<not> suffix ''.lock'' p)" for ps
    by (auto simp: list_all_iff hasSuffix_def)
  ultimately show ?thesis
    unfolding policy_validRef_def config_validRef_def hasSuffix_def by blast
qed

interpretation policy_ref: ref_grammar policy_validRef
  by (rule config_ref.strengthen) (simp add: policy_validRef_iff)

definition isHexDigit :: "char \<Rightarrow> bool" where
  "isHexDigit c = (isDigit c \<or> 97 \<le> code c \<and> code c \<le> 102 \<or> 65 \<le> code c \<and> code c \<le> 70)"

lemma validOID_iff:
  "validOID oid \<longleftrightarrow> (length oid = 40 \<or> length oid = 64) \<and> list_all isHexDigit oid"
  unfolding validOID_def by (subst allRunes_bytes) (auto simp: isHexDigit_def isDigit_def list_all_iff)

lemma zeroOID_iff: "zeroOID oid \<longleftrightarrow> list_all (\<lambda>c. c = CHR ''0'') oid"
  by (simp add: zeroOID_def trim_eq_Nil_iff list_all_iff)

lemma checkUpdate_Inr:
  "checkUpdate policy u = Inr () \<longleftrightarrow>
     policy_validRef (Ref u) \<and> validOID (OldOID u) \<and> validOID (NewOID u)
     \<and> length (OldOID u) = length (NewOID u) \<and> Ref u \<notin> set (DenyRefs policy)
     \<and> \<not> (DenyDeletes policy \<and> zeroOID (NewOID u))"
  by (auto simp: checkUpdate_def)

lemma ValidatePush_Inr:
  "ValidatePush policy us = Inr () \<longleftrightarrow>
     int (length us) \<le> MaxRefUpdates policy \<and> (\<forall>u \<in> set us. checkUpdate policy u = Inr ())"
  by (auto simp: ValidatePush_def checkAll_Inr)

lemma ValidatePush_error: "ValidatePush policy us = Inl e \<Longrightarrow> errors_Is e ErrRefPolicy"
proof -
  have "checkUpdate policy u = Inl e \<Longrightarrow> errors_Is e ErrRefPolicy" for u e
    by (auto simp: checkUpdate_def refPolicyError_def split: if_splits)
  then have "checkAll (checkUpdate policy) us = Inl e \<Longrightarrow> errors_Is e ErrRefPolicy" for e
    by (induction us) (auto simp: result_simps)
  then show "ValidatePush policy us = Inl e \<Longrightarrow> errors_Is e ErrRefPolicy"
    by (auto simp: ValidatePush_def refPolicyError_def split: if_splits)
qed



section \<open>From the configuration to a resolved repository\<close>

text \<open>Go maps have distinct keys.\<close>

definition wfConfig :: "config \<Rightarrow> bool" where
  "wfConfig cfg = (wfMap (Providers cfg) \<and> wfMap (Repositories cfg) \<and> wfMap (Principals cfg))"

text \<open>The access matrix an operator writes: who may do what to which repository.\<close>

definition authorized :: "config \<Rightarrow> string \<Rightarrow> string \<Rightarrow> capability \<Rightarrow> bool" where
  "authorized cfg who i cap =
     (case map_of (Principals cfg) who of
        None \<Rightarrow> False
      | Some p \<Rightarrow> list_ex (\<lambda>g. Repository g = i \<and> cap \<in> set (GrantCapabilities g)) (Grants p))"

lemma snapshot_maps:
  assumes "wfConfig cfg" and "policy_New cfg = Inr sn"
  shows "map_of (providers sn) = map_of (Providers cfg)"
    and "map_of (repositories sn) = map_of (Repositories cfg)"
    and "map_of (grants sn) = map_option grantIndex \<circ> map_of (Principals cfg)"
proof -
  have "wfMap (map (\<lambda>(i, p). (i, grantIndex p)) (Principals cfg))"
    using assms(1) by (simp add: wfConfig_def wfMap_def keys_def comp_def case_prod_beta')
  then show "map_of (grants sn) = map_option grantIndex \<circ> map_of (Principals cfg)"
    using policy_New_cases(3) [OF assms(2)] by (simp add: map_of_rev_wf map_of_map)
  show "map_of (providers sn) = map_of (Providers cfg)"
    "map_of (repositories sn) = map_of (Repositories cfg)"
    using policy_New_cases(1,2) [OF assms(2)] assms(1) by (simp_all add: map_of_rev_wf wfConfig_def)
qed

lemma granted_authorized:
  assumes "wfConfig cfg" and "policy_New cfg = Inr sn"
    and "map_of (grants sn) who = Some gs" and "map_of gs i = Some caps" and "cap \<in> caps"
  shows "authorized cfg who i cap"
proof -
  from assms(3) obtain p where p: "map_of (Principals cfg) who = Some p" "gs = grantIndex p"
    by (auto simp: snapshot_maps(3) [OF assms(1,2)])
  with assms(4) have "(i, caps) \<in> set (grantPairs (Grants p))"
    by (auto simp: grantIndex_map_of dest!: map_of_SomeD)
  with p assms(5) show ?thesis
    by (auto simp: authorized_def grantPairs_def list_ex_iff)
qed

lemma authorized_granted:
  assumes "wfConfig cfg" and "Validate cfg = Inr ()" and "policy_New cfg = Inr sn"
    and "authorized cfg who i cap"
  shows "\<exists>gs caps. map_of (grants sn) who = Some gs \<and> map_of gs i = Some caps \<and> cap \<in> caps"
proof -
  from assms(4) obtain p g where p: "map_of (Principals cfg) who = Some p"
    and g: "g \<in> set (Grants p)" "Repository g = i" "cap \<in> set (GrantCapabilities g)"
    by (auto simp: authorized_def list_ex_iff split: option.splits)
  have "isOK (validatePrincipal (Repositories cfg) (who, p))"
    using assms(2) map_of_SomeD [OF p] by (simp add: Validate_iff)
  then have "distinct (map Repository (Grants p))"
    by (simp add: validatePrincipal_iff)
  with g have "map_of (grantIndex p) i = Some (set (GrantCapabilities g))"
    by (auto simp: grantIndex_Some_iff)
  with p g show ?thesis
    by (simp add: snapshot_maps(3) [OF assms(1,3)])
qed

text \<open>A configuration with one GitHub and one Gitea repository, used to instantiate hypotheses.\<close>

definition exampleConfig :: config where
  "exampleConfig = \<lparr>
     APIVersion = ''repowolf.dev/v1alpha1'',
     Listen = ''127.0.0.1:8443'',
     TLS = \<lparr>Certificate = ''/c.pem'', PrivateKey = ''/k.pem''\<rparr>,
     Tools = \<lparr>GH = None, SSH = Some ''/usr/bin/ssh''\<rparr>,
     Providers =
       [(''gh'', \<lparr>Kind = ''github'', APIHost = ''api.github.com'', GitHost = ''github.com'',
          SSHUser = ''git'', SSHPort = 22, TokenEnv = ''REPOWOLF_TOKEN_GH'', CAFile = []\<rparr>),
        (''forge'', \<lparr>Kind = ''gitea'', APIHost = ''git.example'', GitHost = ''git.example'',
          SSHUser = ''git'', SSHPort = 2222, TokenEnv = ''REPOWOLF_TOKEN_FORGE'', CAFile = []\<rparr>)],
     Repositories =
       [(''alpha'', \<lparr>Provider = ''gh'', Owner = ''acme'', Name = ''app'',
          Git = \<lparr>DenyRefs = [''refs/heads/main''], DenyDeletes = True, MaxRefUpdates = 2\<rparr>\<rparr>),
        (''beta'', \<lparr>Provider = ''forge'', Owner = ''Team'', Name = ''Repo'',
          Git = \<lparr>DenyRefs = [], DenyDeletes = False, MaxRefUpdates = 1\<rparr>\<rparr>)],
     Principals =
       [(''agent'', \<lparr>TokenEnvs = [''REPOWOLF_TOKEN_AGENT''], Grants =
          [\<lparr>Repository = ''alpha'', GrantCapabilities = [GitRead, GitWrite, IssuesRead]\<rparr>,
           \<lparr>Repository = ''beta'', GrantCapabilities = [GitRead]\<rparr>]\<rparr>)],
     Limits = defaultLimits\<rparr>"

definition exampleSnapshot :: snapshot where
  "exampleSnapshot = projr (policy_New exampleConfig)"

lemma exampleConfig_wf: "wfConfig exampleConfig"
  by code_simp

lemma exampleConfig_valid: "Validate exampleConfig = Inr ()"
  by code_simp

lemma exampleConfig_New: "policy_New exampleConfig = Inr exampleSnapshot"
  by code_simp

definition exampleSelector :: selector where
  "exampleSelector = \<lparr>selKind = ''github'', selHost = ''github.com'', selSSHPort = 0,
     selOwner = ''acme'', selName = ''app''\<rparr>"

definition exampleGitSelector :: git_selector where
  "exampleGitSelector = \<lparr>gitSSHUser = ''git'', gitHost = ''GIT.example'', gitSSHPort = 2222,
     gitOwner = ''team'', gitName = ''REPO''\<rparr>"



section \<open>Properties\<close>

lemma resolved_from_config:
  assumes "wfConfig cfg" and "policy_New cfg = Inr sn"
    and "map_of (repositories sn) (ID x) = Some (resRepository x)"
    and "map_of (providers sn) (Provider (resRepository x)) = Some (resProvider x)"
  shows "map_of (Repositories cfg) (ID x) = Some (resRepository x)
    \<and> map_of (Providers cfg) (Provider (resRepository x)) = Some (resProvider x)"
  using assms(3,4) by (simp add: snapshot_maps [OF assms(1,2)])

text \<open>
  C5. Authority comes from the configuration alone: when \<^verbatim>\<open>Snapshot.Resolve\<close> answers with a
  repository, the configuration grants the principal that capability on it, the repository and its
  provider are the configured records (never the client's words), and they match every field the
  selector gives.
\<close>

theorem Resolve_authorized:
  assumes "wfConfig cfg" and "policy_New cfg = Inr sn" and "Resolve sn who sel cap = Inr x"
  shows "authorized cfg who (ID x) cap
    \<and> map_of (Repositories cfg) (ID x) = Some (resRepository x)
    \<and> map_of (Providers cfg) (Provider (resRepository x)) = Some (resProvider x)
    \<and> matches sel (resRepository x) (resProvider x)"
proof -
  note wf = policy_New_cases(4) [OF assms(2)]
  from api.granted [OF wf assms(3)] have "authorized cfg who (ID x) cap"
    using granted_authorized [OF assms(1,2)] by blast
  then show ?thesis
    using api.selected [OF wf assms(3)] resolved_from_config [OF assms(1,2) api.known [OF wf assms(3)]]
    by blast
qed

theorem Resolve_authorized_witness:
  "\<exists>x. Resolve exampleSnapshot ''agent'' exampleSelector GitWrite = Inr x
     \<and> ID x = ''alpha'' \<and> authorized exampleConfig ''agent'' (ID x) GitWrite"
proof -
  have "\<exists>x. Resolve exampleSnapshot ''agent'' exampleSelector GitWrite = Inr x \<and> ID x = ''alpha''"
    by (rule exI [of _ "lookupRepository exampleSnapshot ''alpha''"]) code_simp
  then show ?thesis
    using Resolve_authorized [OF exampleConfig_wf exampleConfig_New] by blast
qed

text \<open>
  The same for the Git transport: a repository that \<^verbatim>\<open>Snapshot.ResolveGit\<close> returns is granted
  to the principal with the capability, comes from the configuration, and matches the SSH user,
  host, port and slug of the untrusted selector.
\<close>

theorem ResolveGit_authorized:
  assumes "wfConfig cfg" and "policy_New cfg = Inr sn" and "ResolveGit sn who sel cap = Inr x"
  shows "authorized cfg who (ID x) cap
    \<and> map_of (Repositories cfg) (ID x) = Some (resRepository x)
    \<and> map_of (Providers cfg) (Provider (resRepository x)) = Some (resProvider x)
    \<and> matchesGit sel (resRepository x) (resProvider x)"
proof -
  note wf = policy_New_cases(4) [OF assms(2)]
  from git.granted [OF wf assms(3)] have "authorized cfg who (ID x) cap"
    using granted_authorized [OF assms(1,2)] by blast
  then show ?thesis
    using git.selected [OF wf assms(3)] resolved_from_config [OF assms(1,2) git.known [OF wf assms(3)]]
    by blast
qed

theorem ResolveGit_authorized_witness:
  "\<exists>x. ResolveGit exampleSnapshot ''agent'' exampleGitSelector GitRead = Inr x
     \<and> ID x = ''beta'' \<and> authorized exampleConfig ''agent'' (ID x) GitRead"
proof -
  have "\<exists>x. ResolveGit exampleSnapshot ''agent'' exampleGitSelector GitRead = Inr x \<and> ID x = ''beta''"
    by (rule exI [of _ "lookupRepository exampleSnapshot ''beta''"]) code_simp
  then show ?thesis
    using ResolveGit_authorized [OF exampleConfig_wf exampleConfig_New] by blast
qed

text \<open>
  C13. Completeness of resolution: in a validated configuration, if the principal is granted the
  capability on a repository and that repository is the only one granted to it that matches the
  selector, \<^verbatim>\<open>Resolve\<close> returns exactly that repository. With the previous properties this makes
  the snapshot a refinement of the configured access matrix.
\<close>

theorem Resolve_complete:
  assumes "wfConfig cfg" and "Validate cfg = Inr ()" and "policy_New cfg = Inr sn"
    and "authorized cfg who i cap"
    and "matches sel (resRepository (lookupRepository sn i)) (resProvider (lookupRepository sn i))"
    and "\<And>j c. authorized cfg who j c \<Longrightarrow>
      matches sel (resRepository (lookupRepository sn j)) (resProvider (lookupRepository sn j)) \<Longrightarrow> j = i"
  shows "Resolve sn who sel cap = Inr (lookupRepository sn i)"
proof -
  note wf = policy_New_cases(4) [OF assms(3)]
  obtain gs caps where gs: "map_of (grants sn) who = Some gs" "map_of gs i = Some caps" "cap \<in> caps"
    using authorized_granted [OF assms(1-4)] by blast
  have "j = i" if j: "j \<in> set (keys gs)"
    "matches sel (resRepository (lookupRepository sn j)) (resProvider (lookupRepository sn j))" for j
  proof -
    from gs(1) obtain p where p: "map_of (Principals cfg) who = Some p" "gs = grantIndex p"
      by (auto simp: snapshot_maps(3) [OF assms(1,3)])
    with j(1) obtain g where g: "g \<in> set (Grants p)" "Repository g = j"
      by (auto simp: grantIndex_keys)
    have "isOK (validatePrincipal (Repositories cfg) (who, p))"
      using assms(2) map_of_SomeD [OF p(1)] by (simp add: Validate_iff)
    with g obtain c where "c \<in> set (GrantCapabilities g)"
      by (cases "GrantCapabilities g") (auto simp: validatePrincipal_iff)
    with g p have "authorized cfg who j c"
      by (auto simp: authorized_def list_ex_iff)
    then show ?thesis using assms(6) j(2) by blast
  qed
  then show ?thesis
    using gs assms(5) wf
    by (auto simp: Resolve_def resolve_Inr_iff lookupRepository_def Let_def)
qed

theorem Resolve_complete_witness:
  "Resolve exampleSnapshot ''agent'' exampleSelector IssuesRead =
     Inr (lookupRepository exampleSnapshot ''alpha'')"
proof (rule Resolve_complete [OF exampleConfig_wf exampleConfig_valid exampleConfig_New])
  show "authorized exampleConfig ''agent'' ''alpha'' IssuesRead"
    by code_simp
  show "matches exampleSelector (resRepository (lookupRepository exampleSnapshot ''alpha''))
      (resProvider (lookupRepository exampleSnapshot ''alpha''))"
    by code_simp
  fix j c
  assume a: "authorized exampleConfig ''agent'' j c"
    and m: "matches exampleSelector (resRepository (lookupRepository exampleSnapshot j))
      (resProvider (lookupRepository exampleSnapshot j))"
  from a have "j = ''alpha'' \<or> j = ''beta''"
    by (auto simp: authorized_def exampleConfig_def)
  moreover have "\<not> matches exampleSelector (resRepository (lookupRepository exampleSnapshot ''beta''))
      (resProvider (lookupRepository exampleSnapshot ''beta''))"
    by code_simp
  ultimately show "j = ''alpha''"
    using m by blast
qed

text \<open>
  The answer does not depend on the order in which Go happens to iterate over the
  principal's grant map: two snapshots whose grant maps for the principal hold the same entries in
  different orders resolve every selector alike.
\<close>

theorem resolve_order_independent:
  assumes "map_of (grants sn) who = Some gs" and "wfMap gs" and "mset gs' = mset gs"
    and "map_of (grants sn') who = Some gs'"
    and "repositories sn' = repositories sn" and "providers sn' = providers sn"
  shows "resolve sn' who cap f = resolve sn who cap f"
proof -
  have look: "lookupRepository sn' = lookupRepository sn"
    using assms(5,6) by (simp add: lookupRepository_def fun_eq_iff)
  have "mset (matchingGrants sn' f gs') = mset (matchingGrants sn f gs)"
    using assms(3) by (simp add: matchingGrants_def look)
  then have eq: "matchingGrants sn' f gs' = [x] \<longleftrightarrow> matchingGrants sn f gs = [x]" for x
    by (metis mset_single_iff_right)
  have get: "mapGet {} gs' = mapGet {} gs"
    using map_of_perm [OF assms(2) assms(3) [symmetric]] by (simp add: mapGet_def fun_eq_iff)
  show ?thesis
  proof (cases "\<exists>x. matchingGrants sn f gs = [x]")
    case True
    then obtain x where "matchingGrants sn f gs = [x]" by blast
    with eq [of x] show ?thesis
      using assms(1,4) look get by (simp add: resolve_eq)
  next
    case False
    with eq have "\<nexists>x. matchingGrants sn' f gs' = [x]" by blast
    with False show ?thesis
      using assms(1,4) by (auto simp: resolve_eq split: list.splits)
  qed
qed

theorem resolve_order_independent_witness:
  "resolve (exampleSnapshot\<lparr>grants := [(''agent'', [(''beta'', {GitRead}), (''alpha'', {GitRead, GitWrite, IssuesRead})])]\<rparr>)
     ''agent'' GitWrite (matches exampleSelector)
   = resolve exampleSnapshot ''agent'' GitWrite (matches exampleSelector)"
proof (rule resolve_order_independent)
  let ?gs = "[(''alpha'', {GitRead, GitWrite, IssuesRead}), (''beta'', {GitRead})]"
  show "map_of (grants exampleSnapshot) ''agent'' = Some ?gs"
    by code_simp
  show "wfMap ?gs"
    by (simp add: wfMap_def keys_def)
qed simp_all

text \<open>
  C14. What a principal can observe is confined to its own grants: two snapshots that agree on the
  principal's grants and on the repositories and providers those grants reach give it the same
  answers, whatever other repositories and principals they hold.
\<close>

theorem resolve_isolation:
  assumes "map_of (grants sn) who = map_of (grants sn') who"
    and "\<And>gs i. map_of (grants sn) who = Some gs \<Longrightarrow> i \<in> set (keys gs) \<Longrightarrow>
      lookupRepository sn i = lookupRepository sn' i"
  shows "resolve sn who cap f = resolve sn' who cap f"
proof (cases "map_of (grants sn) who")
  case None
  then show ?thesis using assms(1) by (simp add: resolve_eq)
next
  case (Some gs)
  have keys: "fst x \<in> set (keys gs)" if "x \<in> set gs" for x
    using that by (simp add: keys_def)
  then have eq: "matchingGrants sn f gs = matchingGrants sn' f gs"
    unfolding matchingGrants_def using assms(2) [OF Some] by (intro filter_cong) (auto split: prod.splits)
  have "lookupRepository sn (fst x) = lookupRepository sn' (fst x)"
    if "matchingGrants sn' f gs = [x]" for x
  proof -
    have "x \<in> set gs"
      using that by (metis filter_is_subset in_mono list.set_intros(1) matchingGrants_def)
    then show ?thesis using assms(2) [OF Some] keys by blast
  qed
  moreover have "map_of (grants sn') who = Some gs"
    using assms(1) Some by simp
  ultimately show ?thesis
    by (auto simp: resolve_eq Some eq split: list.splits)
qed

theorem resolve_isolation_witness:
  "resolve exampleSnapshot ''agent'' GitRead (matches exampleSelector) =
   resolve (exampleSnapshot\<lparr>grants := (''other'', [(''alpha'', {GitWrite})]) # grants exampleSnapshot\<rparr>)
     ''agent'' GitRead (matches exampleSelector)"
  by (rule resolve_isolation) (simp_all add: lookupRepository_def)

text \<open>
  Denials are indistinguishable: whatever is wrong (unknown principal, unknown or ungranted
  repository, ambiguous selector, missing capability), both resolvers return the very same
  \<^verbatim>\<open>ErrDenied\<close> and no other error.
\<close>

theorem resolve_denials_uniform:
  "(Resolve sn who sel cap = Inl (Sentinel ErrDenied) \<or> isOK (Resolve sn who sel cap))
   \<and> (ResolveGit sn who gsel cap = Inl (Sentinel ErrDenied) \<or> isOK (ResolveGit sn who gsel cap))"
proof
  show "Resolve sn who sel cap = Inl (Sentinel ErrDenied) \<or> isOK (Resolve sn who sel cap)"
    using api.uniform [of sn who sel cap] by (cases "Resolve sn who sel cap") simp_all
  show "ResolveGit sn who gsel cap = Inl (Sentinel ErrDenied) \<or> isOK (ResolveGit sn who gsel cap)"
    using git.uniform [of sn who gsel cap] by (cases "ResolveGit sn who gsel cap") simp_all
qed

text \<open>
  \<^verbatim>\<open>policy.New\<close> never fails on a configuration that \<^verbatim>\<open>Config.Validate\<close> accepted.
\<close>

theorem policy_New_total:
  assumes "wfConfig cfg" and "Validate cfg = Inr ()"
  shows "\<exists>sn. policy_New cfg = Inr sn \<and> wfSnapshot sn"
proof -
  let ?ps = "fold (\<lambda>(i, p) acc. mapSet i p acc) (Providers cfg) []"
  have ps: "map_of ?ps = map_of (Providers cfg)"
    using assms(1) by (simp add: fold_mapSet map_of_rev_wf wfConfig_def)
  have "\<forall>(i, r) \<in> set (Repositories cfg). map_of ?ps (Provider r) \<noteq> None"
    using assms(2) by (fastforce simp: Validate_iff validateRepository_def ps split: option.splits)
  then obtain rs where rs: "foldE (indexRepository ?ps) [] (Repositories cfg) = Inr rs"
    using indexRepositories_isOK [of ?ps "[]" "Repositories cfg"] by (auto simp: isOK_iff)
  have map_rs: "map_of rs = map_of (Repositories cfg)"
    using indexRepositories [OF rs] assms(1) by (simp add: map_of_rev_wf wfConfig_def)
  have "map_of rs (Repository g) \<noteq> None"
    if "(i, p) \<in> set (Principals cfg)" and "g \<in> set (Grants p)" for i p g
  proof -
    have "isOK (validatePrincipal (Repositories cfg) (i, p))"
      using assms(2) that(1) by (simp add: Validate_iff)
    with that(2) show ?thesis
      by (simp add: validatePrincipal_iff map_rs)
  qed
  then have "\<forall>(i, p) \<in> set (Principals cfg). \<forall>g \<in> set (Grants p). map_of rs (Repository g) \<noteq> None"
    by blast
  then obtain gs where "foldE (indexPrincipal rs) [] (Principals cfg) = Inr gs"
    using indexPrincipals_isOK [of rs "[]" "Principals cfg"] by (auto simp: isOK_iff)
  with rs have "\<exists>sn. policy_New cfg = Inr sn"
    by (simp add: policy_New_def Let_def)
  then show ?thesis
    using policy_New_cases(4) by blast
qed

theorem policy_New_total_witness:
  "\<exists>sn. policy_New exampleConfig = Inr sn \<and> wfSnapshot sn"
  by (rule policy_New_total [OF exampleConfig_wf exampleConfig_valid])

section \<open>The grammar of refs a push may name\<close>

text \<open>
  Git's rules for a ref name, by its components: \<^verbatim>\<open>refs\<close> followed by one or more components, each
  of printable characters without the separator and the characters Git reserves, not starting with
  a dot, not ending in \<^verbatim>\<open>.lock\<close>, and without two dots or an at sign and a brace in a row; the name
  does not end in a dot.
\<close>

definition refComponent :: "string \<Rightarrow> bool" where
  "refComponent c =
     (c \<noteq> [] \<and> hd c \<noteq> CHR ''.''
      \<and> list_all (\<lambda>x. 32 < code x \<and> code x \<noteq> 127 \<and> x \<notin> set (CHR 0x5C # ''/~^:?*['')) c
      \<and> \<not> sublist ''..'' c \<and> \<not> sublist [CHR ''@'', CHR ''{''] c \<and> \<not> suffix ''.lock'' c)"

definition gitRefName :: "string \<Rightarrow> bool" where
  "gitRefName r \<longleftrightarrow>
     (\<exists>cs. cs \<noteq> [] \<and> r = join CHR ''/'' (''refs'' # cs) \<and> list_all refComponent cs
        \<and> last (last cs) \<noteq> CHR ''.'')"

lemma refComponent_bytes:
  assumes "refComponent c" and "x \<in> set c"
  shows "32 < code x \<and> code x \<noteq> 127 \<and> x \<notin> set specials"
proof -
  have "32 < code x \<and> code x \<noteq> 127 \<and> x \<notin> set (CHR 0x5C # ''/~^:?*['')"
    using assms unfolding refComponent_def list_all_iff by blast
  then show ?thesis
    by (cases "x = CHR '' ''") (simp_all add: specials_def)
qed

lemma sublist_Cons_sep: "s \<notin> set p \<Longrightarrow> p \<noteq> [] \<Longrightarrow> sublist p (s # xs) \<longleftrightarrow> sublist p xs"
  by (cases p) (auto simp: sublist_Cons_right)

lemma sublist_append_sep:
  "s \<notin> set p \<Longrightarrow> p \<noteq> [] \<Longrightarrow> sublist p (xs @ s # ys) \<longleftrightarrow> sublist p xs \<or> sublist p ys"
proof (induction xs)
  case (Cons x xs)
  have "prefix p (x # xs @ s # ys) \<longleftrightarrow> prefix p (x # xs)"
  proof
    assume "prefix p (x # xs @ s # ys)"
    then have "prefix p (x # xs) \<or> (\<exists>us. p = (x # xs) @ us \<and> prefix us (s # ys))"
      using prefix_append [of p "x # xs" "s # ys"] by simp
    with Cons.prems show "prefix p (x # xs)"
      by (auto simp: prefix_Cons)
  next
    assume "prefix p (x # xs)"
    then show "prefix p (x # xs @ s # ys)"
      using prefix_prefix [of p "x # xs" "s # ys"] by simp
  qed
  with Cons show ?case
    by (simp add: sublist_Cons_right)
qed (simp add: sublist_Cons_sep)

lemma sublist_join:
  "s \<notin> set p \<Longrightarrow> p \<noteq> [] \<Longrightarrow> sublist p (join s ps) \<longleftrightarrow> (\<exists>q \<in> set ps. sublist p q)"
  by (induction s ps rule: join.induct) (simp_all add: sublist_append_sep)

lemma suffix_join:
  "s \<notin> set p \<Longrightarrow> ps \<noteq> [] \<Longrightarrow> suffix p (join s ps) \<longleftrightarrow> suffix p (last ps)"
proof (induction s ps rule: join.induct)
  case (3 c x y ys)
  have "suffix p (x @ c # zs) \<longleftrightarrow> suffix p zs" for zs
    using 3(2) by (auto simp: suffix_append suffix_Cons)
  with 3 show ?case by simp
qed simp_all

lemma set_join_iff: "(\<forall>x \<in> set (join s ps). P x) \<longleftrightarrow> (\<forall>q \<in> set ps. \<forall>x \<in> set q. P x) \<and> (1 < length ps \<longrightarrow> P s)"
  by (induction s ps rule: join.induct) auto

lemma split_refs: "prefix ''refs/'' r \<Longrightarrow> \<exists>cs. cs \<noteq> [] \<and> split CHR ''/'' r = ''refs'' # cs"
proof -
  assume "prefix ''refs/'' r"
  then obtain r' where "r = ''refs'' @ CHR ''/'' # r'"
    by (auto simp: prefix_def)
  then have "split CHR ''/'' r = ''refs'' # split CHR ''/'' r'"
    by (simp only: split_append) (simp add: split_single)
  then show ?thesis by simp
qed

lemma policy_validRef_grammar: "policy_validRef r \<longleftrightarrow> gitRefName r"
proof
  assume valid: "policy_validRef r"
  then obtain cs where cs: "cs \<noteq> []" "split CHR ''/'' r = ''refs'' # cs"
    using split_refs [of r] by (auto simp: policy_validRef_iff config_validRef_iff)
  have r: "r = join CHR ''/'' (''refs'' # cs)"
    by (simp flip: cs(2) add: join_split)
  show "gitRefName r"
    unfolding gitRefName_def
  proof (intro exI conjI)
    show "list_all refComponent cs"
      unfolding list_all_iff
    proof
      fix c assume c: "c \<in> set cs"
      then have c': "c \<in> set (split CHR ''/'' r)" by (simp add: cs)
      then have "CHR ''/'' \<notin> set c" and "set c \<subseteq> set r"
        by (rule split_no_sep, rule split_set)
      have "\<not> sublist ''..'' c" "\<not> sublist [CHR ''@'', CHR ''{''] c"
        using valid c unfolding policy_validRef_iff config_validRef_iff r
        by (simp_all add: sublist_join)
      moreover have "c \<noteq> []" "hd c \<noteq> CHR ''.''" "\<not> suffix ''.lock'' c"
        using valid c' unfolding policy_validRef_iff config_validRef_iff by blast+
      moreover have "\<forall>x \<in> set c. 32 < code x \<and> code x \<noteq> 127 \<and> x \<notin> set specials"
        using valid \<open>set c \<subseteq> set r\<close> unfolding policy_validRef_iff config_validRef_iff by blast
      then have "list_all (\<lambda>x. 32 < code x \<and> code x \<noteq> 127 \<and> x \<notin> set (CHR 0x5C # ''/~^:?*['')) c"
        using \<open>CHR ''/'' \<notin> set c\<close> by (auto simp: list_all_iff specials_def)
      ultimately show "refComponent c"
        by (simp add: refComponent_def)
    qed
    show "last (last cs) \<noteq> CHR ''.''"
    proof -
      have "\<not> suffix ''.'' (last cs)"
        using valid cs(1) by (simp add: policy_validRef_iff config_validRef_iff r suffix_join)
      moreover have "last cs \<noteq> []"
        using valid cs by (auto simp: policy_validRef_iff config_validRef_iff)
      ultimately show ?thesis
        by (metis append_butlast_last_id suffix_def)
    qed
  qed (use cs r in simp_all)
next
  assume "gitRefName r"
  then obtain cs where cs: "cs \<noteq> []" "r = join CHR ''/'' (''refs'' # cs)" "list_all refComponent cs"
    "last (last cs) \<noteq> CHR ''.''"
    by (auto simp: gitRefName_def)
  have split: "split CHR ''/'' r = ''refs'' # cs"
    unfolding cs(2) using cs(3) by (intro split_join) (auto simp: list_all_iff refComponent_def)
  have last: "\<not> suffix ''.'' (last cs)" "\<not> suffix ''.lock'' (last cs)"
    using cs by (auto simp: suffix_def list_all_iff refComponent_def)
  show "policy_validRef r"
    unfolding policy_validRef_iff config_validRef_iff split
  proof (intro conjI)
    show "prefix ''refs/'' r"
      using cs(1) by (cases cs) (simp_all add: cs(2))
    show "\<forall>c \<in> set r. 32 < code c \<and> code c \<noteq> 127 \<and> c \<notin> set specials"
      unfolding cs(2) set_join_iff
    proof (rule conjI, intro ballI)
      fix q x assume q: "q \<in> set (''refs'' # cs)" "x \<in> set q"
      show "32 < code x \<and> code x \<noteq> 127 \<and> x \<notin> set specials"
      proof (cases "q \<in> set cs")
        case True
        with cs(3) q(2) show ?thesis
          using refComponent_bytes unfolding list_all_iff by blast
      next
        case False
        with q have "x \<in> set ''refs''" by simp
        then show ?thesis by (auto simp: specials_def)
      qed
    qed (simp add: specials_def)
    have "\<not> sublist ''..'' c" "\<not> sublist [CHR ''@'', CHR ''{''] c" if "c \<in> set cs" for c
      using cs(3) that by (simp_all add: list_all_iff refComponent_def)
    then show "\<not> sublist ''..'' r" "\<not> sublist [CHR ''@'', CHR ''{''] r"
      by (simp_all add: cs(2) sublist_join sublist_Cons_right)
    show "\<not> suffix ''.'' r" "\<not> suffix ''.lock'' r"
      using cs(1) last by (simp_all add: cs(2) suffix_join)
  qed (use cs(3) in \<open>auto simp: list_all_iff refComponent_def suffix_Cons\<close>)
qed

text \<open>
  C23. \<^verbatim>\<open>ValidatePush\<close> accepts a list of updates exactly when it is within the repository's update
  limit and every update names a well-formed ref that is not denied, carries two full-length
  hexadecimal object IDs of the same width, and deletes nothing where deletions are denied; every
  rejection is an \<^verbatim>\<open>ErrRefPolicy\<close>.
\<close>

theorem ValidatePush_spec:
  "(ValidatePush policy us = Inr () \<longleftrightarrow>
      int (length us) \<le> MaxRefUpdates policy
      \<and> list_all (\<lambda>u. gitRefName (Ref u) \<and> Ref u \<notin> set (DenyRefs policy)
          \<and> (length (OldOID u) = 40 \<or> length (OldOID u) = 64)
          \<and> length (NewOID u) = length (OldOID u)
          \<and> list_all isHexDigit (OldOID u @ NewOID u)
          \<and> \<not> (DenyDeletes policy \<and> list_all (\<lambda>c. c = CHR ''0'') (NewOID u))) us)
   \<and> (case ValidatePush policy us of Inl e \<Rightarrow> errors_Is e ErrRefPolicy | Inr _ \<Rightarrow> True)"
  using ValidatePush_error [of policy us]
  by (auto simp: ValidatePush_Inr checkUpdate_Inr policy_validRef_grammar validOID_iff zeroOID_iff list_all_iff
      split: sum.splits)

end
