(* ===== verification/Wire_Grammar.thy ===== *)
theory Wire_Grammar
  imports Policy
begin

text \<open>
  The lexical checks of package \<^verbatim>\<open>internal/gitproto\<close>: object IDs and ref names
  (\<^verbatim>\<open>validate.go\<close>), line endings (\<^verbatim>\<open>advertised.go\<close>) and the texts of a push certificate
  (\<^verbatim>\<open>certificate_validate.go\<close>, \<^verbatim>\<open>certificate.go\<close>).
\<close>

section \<open>Object IDs and refs\<close>

definition validObjectID :: "string \<Rightarrow> bool" where
  "validObjectID objectID =
     (\<not> (length objectID \<noteq> 40 \<and> length objectID \<noteq> 64)
      \<and> allRunes (\<lambda>r. r \<in> set (map of_char ''0123456789abcdefABCDEF'')) objectID)"

definition isZeroObjectID :: "string \<Rightarrow> bool" where
  "isZeroObjectID objectID = (objectID \<noteq> [] \<and> trim objectID ''0'' = [])"

text \<open>The characters \<^verbatim>\<open>strings.ContainsRune\<close> looks for: the special ones other than the space.\<close>

definition refMeta :: string where
  "refMeta = ''~^:?*['' @ [CHR 0x5C]"

definition proto_validRef :: "string \<Rightarrow> bool" where
  "proto_validRef ref =
     (\<not> (\<not> validString ref \<or> \<not> hasPrefix ref ''refs/'' \<or> contains ref ''..'' \<or> contains ref ''//''
         \<or> contains ref [CHR ''@'', CHR ''{''] \<or> hasSuffix ref ''.'')
      \<and> allRunes (\<lambda>r. \<not> (r \<le> 32 \<or> r = 127 \<or> r \<in> set (map of_char refMeta))) ref
      \<and> ref \<noteq> ''@''
      \<and> list_all (\<lambda>part. \<not> (part = [] \<or> hd part = CHR ''.'' \<or> hasSuffix part ''.lock''))
          (split CHR ''/'' ref))"

definition hasSingleTerminalLF :: "string \<Rightarrow> bool" where
  "hasSingleTerminalLF value = (length value > 0 \<and> last value = LF \<and> countByte value LF = 1)"


section \<open>Push certificates\<close>

definition validCertificateText :: "string \<Rightarrow> bool" where
  "validCertificateText value =
     (\<not> (value = [] \<or> \<not> validString value) \<and> allRunes (\<lambda>r. \<not> (r \<le> 31 \<or> r = 127)) value)"

definition validDecimal :: "string \<Rightarrow> bool" where
  "validDecimal value = (value \<noteq> [] \<and> allRunes (\<lambda>r. \<not> (r < 48 \<or> r > 57)) value)"

definition validTimezone :: "string \<Rightarrow> bool" where
  "validTimezone value =
     (length value = 5 \<and> (value ! 0 = CHR ''+'' \<or> value ! 0 = CHR ''-'') \<and> validDecimal (drop 1 value))"

text \<open>
  The ident is a name, an email in angle brackets, a timestamp and a timezone. \<^term>\<open>None\<close> and
  \<^term>\<open>Some 0\<close> are the two results of \<^verbatim>\<open>strings.LastIndex\<close> that are not positive.
\<close>

definition validIdent :: "string \<Rightarrow> bool" where
  "validIdent ident =
     (case lastIndex ident '' <'' of
        None \<Rightarrow> False
      | Some nameAt \<Rightarrow>
          if nameAt = 0 \<or> \<not> hasSuffix ident ''>'' then False
          else let name = take nameAt ident; email = substr ident (nameAt + 2) (length ident - 1) in
            validCertificateText name \<and> validCertificateText email \<and> \<not> containsAny email '' <>'')"

definition validPusherIdent :: "string \<Rightarrow> bool" where
  "validPusherIdent value =
     (if \<not> validCertificateText value then False
      else case lastIndex value '' '' of
        None \<Rightarrow> False
      | Some timezoneAt \<Rightarrow>
          if timezoneAt = 0 \<or> \<not> validTimezone (drop (timezoneAt + 1) value) then False
          else case lastIndex (take timezoneAt value) '' '' of
            None \<Rightarrow> False
          | Some timestampAt \<Rightarrow>
              if timestampAt = 0 \<or> \<not> validDecimal (substr value (timestampAt + 1) timezoneAt) then False
              else validIdent (take timestampAt value))"

definition validRequiredCertificateHeader :: "string \<Rightarrow> string \<Rightarrow> bool" where
  "validRequiredCertificateHeader field value =
     (if field = ''pusher'' then validPusherIdent value
      else if field = ''pushee'' \<or> field = ''nonce'' then validCertificateText value
      else False)"

definition validCertificateBodyPacket :: "string \<Rightarrow> bool" where
  "validCertificateBodyPacket payload = (hasSingleTerminalLF payload \<and> \<not> containsAny payload [NUL, CR])"

definition validPushOption :: "string \<Rightarrow> bool" where
  "validPushOption value = (value \<noteq> [] \<and> allRunes (\<lambda>r. \<not> (r < 32 \<or> r > 126)) value)"

definition isCommandLine :: "string \<Rightarrow> bool" where
  "isCommandLine line =
     (let fs = strings_Fields line in
      length fs = 3 \<and> validObjectID (fs ! 0) \<and> validObjectID (fs ! 1))"

definition signatureEnvelopeEnd :: "string \<Rightarrow> string option" where
  "signatureEnvelopeEnd start =
     (if start = ''-----BEGIN PGP SIGNATURE-----'' then Some ''-----END PGP SIGNATURE-----''
      else if start = ''-----BEGIN PGP MESSAGE-----'' then Some ''-----END PGP MESSAGE-----''
      else if start = ''-----BEGIN SSH SIGNATURE-----'' then Some ''-----END SSH SIGNATURE-----''
      else if start = ''-----BEGIN SIGNED MESSAGE-----'' then Some ''-----END SIGNED MESSAGE-----''
      else None)"

text \<open>One header line of a certificate: a field and a value, separated by the first space.\<close>

definition parseCertificateHeader :: "string \<Rightarrow> (string \<times> string) result" where
  "parseCertificateHeader payload =
     (if \<not> hasSingleTerminalLF payload \<or> containsAny payload [NUL, CR]
      then errorf ''invalid push certificate header''
      else case cut CHR '' '' (butlast payload) of (field, value, found) \<Rightarrow>
        if \<not> found \<or> field = [] \<or> value = [] \<or> containsAny value [NUL, CR, LF]
        then errorf ''invalid push certificate header''
        else Inr (field, value))"


section \<open>The checks on the wire against those of the policy\<close>

lemma validObjectID_iff: "validObjectID = validOID"
proof
  fix oid
  have "validObjectID oid \<longleftrightarrow> (length oid = 40 \<or> length oid = 64)
      \<and> (\<forall>c \<in> set oid. code c \<in> set (map of_char ''0123456789abcdefABCDEF''))"
    unfolding validObjectID_def by (subst allRunes_bytes) auto
  moreover have "code c \<in> set (map of_char ''0123456789abcdefABCDEF'') \<longleftrightarrow> isHexDigit c" for c
    by (simp add: isHexDigit_def isDigit_def) presburger
  ultimately show "validObjectID oid = validOID oid"
    by (simp add: validOID_iff list_all_iff)
qed

lemma isZeroObjectID_iff: "isZeroObjectID oid \<longleftrightarrow> oid \<noteq> [] \<and> zeroOID oid"
  by (simp add: isZeroObjectID_def zeroOID_def)

lemma validPushOption_iff: "validPushOption v \<longleftrightarrow> v \<noteq> [] \<and> (\<forall>c \<in> set v. 32 \<le> code c \<and> code c \<le> 126)"
  unfolding validPushOption_def by (subst allRunes_bytes) auto

lemma hasSingleTerminalLF_iff: "hasSingleTerminalLF v \<longleftrightarrow> (\<exists>l. v = l @ [LF] \<and> LF \<notin> set l)"
proof
  assume h: "hasSingleTerminalLF v"
  then have v: "v = butlast v @ [LF]"
    by (metis append_butlast_last_id hasSingleTerminalLF_def length_greater_0_conv)
  then have "countByte (butlast v @ [LF]) LF = 1"
    using h by (metis hasSingleTerminalLF_def)
  then have "LF \<notin> set (butlast v)"
    using countByte_0 [of "butlast v" LF] by (simp add: countByte_def)
  with v show "\<exists>l. v = l @ [LF] \<and> LF \<notin> set l" by blast
next
  assume "\<exists>l. v = l @ [LF] \<and> LF \<notin> set l"
  then show "hasSingleTerminalLF v"
    using countByte_0 [of _ LF] by (auto simp: hasSingleTerminalLF_def countByte_def)
qed

text \<open>The slice that extracts the email is always in range, so the check never panics.\<close>

lemma validIdent_in_range:
  assumes "lastIndex ident '' <'' = Some nameAt" and "hasSuffix ident ''>''"
  shows "nameAt + 2 \<le> length ident - 1"
proof -
  obtain l where ident: "ident = l @ ''>''"
    using assms(2) by (auto simp: hasSuffix_def suffix_def)
  obtain t where t: "drop nameAt ident = '' <'' @ t" and le: "nameAt + 2 \<le> length ident"
    using lastIndex_SomeD [OF assms(1)] by (auto simp: prefix_def)
  have "nameAt + 2 \<noteq> length ident"
  proof
    assume "nameAt + 2 = length ident"
    then have "length (drop nameAt ident) = 2"
      by simp
    with t have "t = []" by simp
    with t have "last (drop nameAt ident) = CHR ''<''" by simp
    moreover have "last (drop nameAt ident) = last ident"
      using le by (intro last_drop) simp
    ultimately show False using ident by simp
  qed
  with le show ?thesis by simp
qed

lemma ref_byte:
  "\<not> (code c \<le> 32 \<or> code c = 127 \<or> code c \<in> set (map of_char refMeta)) \<longleftrightarrow>
     \<not> (code c \<le> 31 \<or> code c = 127) \<and> c \<notin> set specials"
proof -
  have "code c \<in> set (map of_char refMeta) \<longleftrightarrow> c \<in> set refMeta"
    by auto
  moreover have "c \<in> set specials \<longleftrightarrow> c = CHR '' '' \<or> c \<in> set refMeta"
    by (simp add: specials_def refMeta_def)
  moreover have "code c = 32 \<longleftrightarrow> c = CHR '' ''"
    by (auto intro: of_char_eqI)
  moreover have "code c \<le> 32 \<longleftrightarrow> code c \<le> 31 \<or> code c = 32"
    by linarith
  ultimately show ?thesis by blast
qed

lemma proto_validRef_iff': "proto_validRef r \<longleftrightarrow> validString r \<and> policy_validRef r"
proof -
  have runes: "allRunes (\<lambda>r. \<not> (r \<le> 32 \<or> r = 127 \<or> r \<in> set (map of_char refMeta))) r \<longleftrightarrow>
      allRunes (\<lambda>r. \<not> (r \<le> 31 \<or> r = 127)) r \<and> \<not> containsAny r specials"
  proof -
    have "allRunes (\<lambda>r. \<not> (r \<le> 32 \<or> r = 127 \<or> r \<in> set (map of_char refMeta))) r \<longleftrightarrow>
        (\<forall>c \<in> set r. \<not> (code c \<le> 32 \<or> code c = 127 \<or> code c \<in> set (map of_char refMeta)))"
      by (subst allRunes_bytes) (auto simp: refMeta_def)
    moreover have "allRunes (\<lambda>r. \<not> (r \<le> 31 \<or> r = 127)) r \<longleftrightarrow>
        (\<forall>c \<in> set r. \<not> (code c \<le> 31 \<or> code c = 127))"
      by (subst allRunes_bytes) auto
    ultimately show ?thesis
      unfolding containsAny_iff using ref_byte by blast
  qed
  have parts: "list_all (\<lambda>part. \<not> (part = [] \<or> hd part = CHR ''.'' \<or> hasSuffix part ''.lock'')) ps \<longleftrightarrow>
      list_all (\<lambda>c. \<not> (c = [] \<or> hasPrefix c ''.'' \<or> hasSuffix c ''.lock'')) ps" for ps
    by (auto simp: list_all_iff hasPrefix_def prefix_def neq_Nil_conv)
  have ends: "list_all (\<lambda>c. \<not> (c = [] \<or> hasPrefix c ''.'' \<or> hasSuffix c ''.lock'')) (split CHR ''/'' r) \<Longrightarrow>
      \<not> hasSuffix r ''/'' \<and> r \<noteq> ''refs/''"
    using split_Nil_suffix [of "CHR ''/''" r]
    by (auto simp: list_all_iff hasSuffix_def)
  have "hasPrefix r ''refs/'' \<Longrightarrow> r \<noteq> ''@'' \<and> (length r = length ''refs/'' \<longleftrightarrow> r = ''refs/'')"
    by (auto simp: hasPrefix_def prefix_def)
  with ends show ?thesis
    unfolding proto_validRef_def policy_validRef_def runes parts by blast
qed

interpretation proto_ref: ref_grammar proto_validRef
  by (rule policy_ref.strengthen) (simp add: proto_validRef_iff')

text \<open>
  The ref check on the wire and the ref check of the push policy agree: \<^verbatim>\<open>gitproto.validRef\<close>
  accepts a byte string exactly when it is valid UTF-8 and \<^verbatim>\<open>policy.validRef\<close> accepts it, although
  the two are written differently.
\<close>

theorem proto_validRef_iff: "proto_validRef r \<longleftrightarrow> validString r \<and> policy_validRef r"
  by (rule proto_validRef_iff')

end
