(* ===== verification/Capabilities.thy ===== *)
theory Capabilities
  imports Go_Errors
begin

text \<open>
  \<^verbatim>\<open>internal/gitproto/capabilities.go\<close>: parsing a space-delimited capability list into a map
  and checking the capabilities a client requests against those the server advertised. A
  capability list is a Go map, so \<^verbatim>\<open>ValidateRequestedCapabilities\<close> visits it in any order.
\<close>

type_synonym capabilities = "string gomap"

definition Has :: "capabilities \<Rightarrow> string \<Rightarrow> bool" where
  "Has caps name = (map_of caps name \<noteq> None)"

definition Value :: "capabilities \<Rightarrow> string \<Rightarrow> string" where
  "Value caps name = mapGet [] caps name"

definition validCapabilityPart :: "string \<Rightarrow> bool" where
  "validCapabilityPart value = allRunes (\<lambda>r. \<not> (r \<le> 32 \<or> r = 127 \<or> r = 0)) value"

definition addToken :: "capabilities \<Rightarrow> string \<Rightarrow> capabilities result" where
  "addToken caps token =
     (case cut CHR ''='' token of (name, parameter, found) \<Rightarrow>
        if name = [] \<or> \<not> validCapabilityPart name
          \<or> found \<and> (parameter = [] \<or> \<not> validCapabilityPart parameter)
        then Inl (Errorf ''invalid capability %q'' [ArgS token])
        else if Has caps name then Inl (Errorf ''duplicate capability %q'' [ArgS name])
        else Inr (mapSet name parameter caps))"

definition ParseCapabilities :: "string \<Rightarrow> capabilities result" where
  "ParseCapabilities value =
     (if value = [] then Inr []
      else if value = '' '' then errorf ''invalid empty capability list''
      else foldE addToken [] (split CHR '' '' (if hasPrefix value '' '' then tl value else value)))"

definition validatePushCertificate :: "capabilities \<Rightarrow> unit result" where
  "validatePushCertificate advertised =
     (if \<not> Has advertised ''push-cert'' \<or> Value advertised ''push-cert'' = []
      then errorf ''push certificate was not advertised with a nonce''
      else Inr ())"

definition checkRequested :: "capabilities \<Rightarrow> string \<times> string \<Rightarrow> unit result" where
  "checkRequested advertised np =
     (case np of (name, parameter) \<Rightarrow>
      let found = Has advertised name; advertisedParameter = Value advertised name in
      if name = ''agent'' then
        (if \<not> found \<or> advertisedParameter = [] \<or> parameter = []
         then errorf ''agent capability requires an advertised server value and nonempty client value''
         else Inr ())
      else if name = ''session-id'' then
        (if \<not> found \<or> advertisedParameter = [] \<or> parameter = []
         then errorf ''session-id capability requires an advertised server value and nonempty client value''
         else Inr ())
      else if name = ''push-cert'' \<or> name = ''object-format'' then
        (if \<not> found \<or> parameter = [] \<or> parameter \<noteq> advertisedParameter
         then Inl (Errorf ''requested capability %q does not match advertisement'' [ArgS name])
         else Inr ())
      else
        (if \<not> found \<or> parameter \<noteq> advertisedParameter
         then Inl (Errorf ''requested capability %q was not advertised'' [ArgS name])
         else Inr ()))"

definition ValidateRequestedCapabilities :: "capabilities \<Rightarrow> capabilities \<Rightarrow> unit result" where
  "ValidateRequestedCapabilities requested advertised = checkAll (checkRequested advertised) requested"


section \<open>Parsing and printing\<close>

text \<open>A capability as it is written on the wire, and the list of them.\<close>

definition showToken :: "string \<times> string \<Rightarrow> string" where
  "showToken np = (case np of (name, parameter) \<Rightarrow>
     if parameter = [] then name else name @ ''='' @ parameter)"

definition showCapabilities :: "capabilities \<Rightarrow> string" where
  "showCapabilities caps = join CHR '' '' (map showToken caps)"

definition wfToken :: "string \<times> string \<Rightarrow> bool" where
  "wfToken np = (case np of (name, parameter) \<Rightarrow>
     name \<noteq> [] \<and> validCapabilityPart name \<and> CHR ''='' \<notin> set name \<and> validCapabilityPart parameter)"

definition wfCapabilities :: "capabilities \<Rightarrow> bool" where
  "wfCapabilities caps = (wfMap caps \<and> list_all wfToken caps)"

lemma validCapabilityPart_iff:
  "validCapabilityPart v \<longleftrightarrow> (\<forall>c \<in> set v. 32 < code c \<and> code c \<noteq> 127)"
  unfolding validCapabilityPart_def by (subst allRunes_bytes) auto

lemma validCapabilityPart_no_space: "validCapabilityPart v \<Longrightarrow> CHR '' '' \<notin> set v"
  by (auto simp: validCapabilityPart_iff)

lemma addToken_Inr:
  "addToken caps token = Inr caps' \<longleftrightarrow>
     (\<exists>name parameter found. cut CHR ''='' token = (name, parameter, found)
        \<and> name \<noteq> [] \<and> validCapabilityPart name
        \<and> (found \<longrightarrow> parameter \<noteq> [] \<and> validCapabilityPart parameter)
        \<and> map_of caps name = None \<and> caps' = mapSet name parameter caps)"
  by (auto simp: addToken_def Has_def split: prod.splits)

lemma mapSet_fresh: "map_of m k = None \<Longrightarrow> mapSet k v m = m @ [(k, v)]"
  by (induction m) (auto split: if_splits)

lemma addToken_wf:
  assumes "addToken caps token = Inr caps'" and "wfCapabilities caps"
  shows "wfCapabilities caps' \<and> (\<exists>np. caps' = caps @ [np] \<and> showToken np = token)"
proof -
  from assms(1) obtain name parameter found where c: "cut CHR ''='' token = (name, parameter, found)"
    and ok: "name \<noteq> []" "validCapabilityPart name" "found \<longrightarrow> parameter \<noteq> [] \<and> validCapabilityPart parameter"
    and new: "map_of caps name = None" "caps' = caps @ [(name, parameter)]"
    by (auto simp: addToken_Inr mapSet_fresh)
  have "CHR ''='' \<notin> set name \<and> validCapabilityPart parameter \<and> showToken (name, parameter) = token"
    using c ok by (cases found) (auto simp: cut_found cut_not_found showToken_def validCapabilityPart_iff)
  moreover have "wfMap caps'"
    using assms(2) new by (auto simp: wfCapabilities_def wfMap_def keys_def map_of_eq_None_iff)
  ultimately show ?thesis
    using assms(2) ok new by (auto simp: wfCapabilities_def wfToken_def)
qed

lemma foldE_addToken:
  "foldE addToken caps tokens = Inr caps' \<Longrightarrow> wfCapabilities caps \<Longrightarrow>
     wfCapabilities caps' \<and> (\<exists>nps. caps' = caps @ nps \<and> map showToken nps = tokens)"
proof (induction tokens arbitrary: caps)
  case (Cons token tokens)
  then obtain c1 where c1: "addToken caps token = Inr c1" "foldE addToken c1 tokens = Inr caps'"
    by (auto simp: result_simps)
  from addToken_wf [OF c1(1) Cons.prems(2)] obtain np where "wfCapabilities c1" "c1 = caps @ [np]"
    "showToken np = token"
    by blast
  with Cons.IH [OF c1(2)] show ?case
    by (metis append.assoc append_Cons append_Nil list.simps(9))
qed simp

lemma ParseCapabilities_wf: "ParseCapabilities v = Inr caps \<Longrightarrow> wfCapabilities caps"
  using foldE_addToken [of "[]"]
  by (auto simp: ParseCapabilities_def wfCapabilities_def split: if_splits)

lemma addToken_show:
  assumes "wfToken np" and "map_of caps (fst np) = None"
  shows "addToken caps (showToken np) = Inr (caps @ [np])"
proof -
  obtain name parameter where np: "np = (name, parameter)" by force
  show ?thesis
  proof (cases "parameter = []")
    case True
    with assms np have "cut CHR ''='' (showToken np) = (name, [], False)"
      by (simp add: showToken_def wfToken_def cut_not_found)
    with True assms np show ?thesis
      by (simp add: addToken_def wfToken_def Has_def mapSet_fresh)
  next
    case False
    with assms np have "cut CHR ''='' (showToken np) = (name, parameter, True)"
      by (simp add: showToken_def wfToken_def cut_found)
    with False assms np show ?thesis
      by (simp add: addToken_def wfToken_def Has_def mapSet_fresh)
  qed
qed

lemma foldE_addToken_show:
  "list_all wfToken nps \<Longrightarrow> wfMap (caps @ nps) \<Longrightarrow>
     foldE addToken caps (map showToken nps) = Inr (caps @ nps)"
proof (induction nps arbitrary: caps)
  case (Cons np nps)
  then have "map_of caps (fst np) = None"
    by (auto simp: wfMap_def keys_def map_of_eq_None_iff)
  with Cons show ?case
    by (simp add: addToken_show)
qed simp

lemma showToken_no_space: "wfToken np \<Longrightarrow> CHR '' '' \<notin> set (showToken np) \<and> showToken np \<noteq> []"
  by (auto simp: wfToken_def showToken_def dest: validCapabilityPart_no_space split: prod.splits if_splits)

lemma showCapabilities_first:
  assumes "list_all wfToken caps" and "caps \<noteq> []"
  shows "\<exists>c cs. showCapabilities caps = c # cs \<and> c \<noteq> CHR '' ''"
proof -
  obtain np nps where caps: "caps = np # nps" using assms(2) by (cases caps) auto
  then obtain c cs where c: "showToken np = c # cs" "c \<noteq> CHR '' ''"
    using showToken_no_space [of np] assms(1) by (cases "showToken np") auto
  then show ?thesis
    using caps by (cases nps) (simp_all add: showCapabilities_def)
qed


lemma ParseCapabilities_showCapabilities:
  assumes "wfCapabilities caps"
  shows "ParseCapabilities (showCapabilities caps) = Inr caps"
proof (cases "caps = []")
  case True
  then show ?thesis
    by (simp add: showCapabilities_def ParseCapabilities_def)
next
  case False
  have tokens: "list_all wfToken caps" "wfMap caps"
    using assms by (simp_all add: wfCapabilities_def)
  obtain c cs where "showCapabilities caps = c # cs" "c \<noteq> CHR '' ''"
    using showCapabilities_first [OF tokens(1) False] by blast
  then have "ParseCapabilities (showCapabilities caps) =
      foldE addToken [] (split CHR '' '' (showCapabilities caps))"
    by (simp add: ParseCapabilities_def hasPrefix_def)
  also have "split CHR '' '' (showCapabilities caps) = map showToken caps"
    unfolding showCapabilities_def
    using False tokens(1) showToken_no_space by (intro split_join) (auto simp: list_all_iff)
  finally show ?thesis
    using foldE_addToken_show [of caps "[]"] tokens by simp
qed

lemma ValidateRequestedCapabilities_Has:
  assumes "ValidateRequestedCapabilities requested advertised = Inr ()" and "Has requested name"
  shows "Has advertised name"
proof -
  from assms(2) obtain parameter where "(name, parameter) \<in> set requested"
    using map_of_SomeD by (fastforce simp: Has_def)
  with assms(1) have "checkRequested advertised (name, parameter) = Inr ()"
    by (simp add: ValidateRequestedCapabilities_def checkAll_Inr)
  then show ?thesis
    by (auto simp: checkRequested_def Let_def split: if_splits)
qed


section \<open>Properties\<close>

text \<open>
  Parsing inverts printing: every well-formed capability map, written on the wire as
  space-separated \<^verbatim>\<open>name\<close> or \<^verbatim>\<open>name=value\<close> tokens, is parsed back to exactly itself.
\<close>

theorem ParseCapabilities_show:
  assumes "wfCapabilities caps"
  shows "ParseCapabilities (showCapabilities caps) = Inr caps"
  using assms by (rule ParseCapabilities_showCapabilities)

theorem ParseCapabilities_show_witness:
  "ParseCapabilities (showCapabilities [(''report-status'', []), (''agent'', ''git/2.50'')]) =
     Inr [(''report-status'', []), (''agent'', ''git/2.50'')]"
  by (rule ParseCapabilities_show) code_simp

text \<open>
  Soundness of parsing: whatever \<^verbatim>\<open>ParseCapabilities\<close> accepts is a map with distinct, non-empty,
  printable names, and the text it came from is that map's own rendering (up to the one leading
  space the protocol allows).
\<close>

theorem ParseCapabilities_sound:
  assumes "ParseCapabilities v = Inr caps"
  shows "wfCapabilities caps \<and> (v = showCapabilities caps \<or> v = '' '' @ showCapabilities caps)"
proof -
  let ?v = "if hasPrefix v '' '' then tl v else v"
  show ?thesis
  proof (cases "v = []")
    case True
    with assms show ?thesis
      by (simp add: ParseCapabilities_def showCapabilities_def wfCapabilities_def)
  next
    case False
    with assms have *: "foldE addToken [] (split CHR '' '' ?v) = Inr caps"
      by (auto simp: ParseCapabilities_def split: if_splits)
    then have "wfCapabilities caps" and "map showToken caps = split CHR '' '' ?v"
      using foldE_addToken [OF *] by (simp_all add: wfCapabilities_def)
    then have "showCapabilities caps = ?v"
      by (simp only: showCapabilities_def join_split)
    with \<open>wfCapabilities caps\<close> show ?thesis
      by (auto simp: hasPrefix_def prefix_def)
  qed
qed

theorem ParseCapabilities_sound_witness:
  "ParseCapabilities '' delete-refs ofs-delta'' = Inr [(''delete-refs'', []), (''ofs-delta'', [])]
   \<and> wfCapabilities [(''delete-refs'', []), (''ofs-delta'', [])]"
proof -
  have *: "ParseCapabilities '' delete-refs ofs-delta'' = Inr [(''delete-refs'', []), (''ofs-delta'', [])]"
    by code_simp
  with ParseCapabilities_sound [OF *] show ?thesis by simp
qed

text \<open>
  A client gets no capability the server did not offer: after
  \<^verbatim>\<open>ValidateRequestedCapabilities\<close> every requested name was advertised, and its parameter is the
  advertised one unless the name is \<^verbatim>\<open>agent\<close> or \<^verbatim>\<open>session-id\<close>, whose values each side chooses but
  neither may leave empty.
\<close>

theorem ValidateRequestedCapabilities_sound:
  assumes "ValidateRequestedCapabilities requested advertised = Inr ()"
    and "wfMap requested" and "Has requested name"
  shows "Has advertised name
    \<and> (if name = ''agent'' \<or> name = ''session-id''
       then Value requested name \<noteq> [] \<and> Value advertised name \<noteq> []
       else Value requested name = Value advertised name)"
proof -
  from assms(3) obtain parameter where p: "map_of requested name = Some parameter"
    by (auto simp: Has_def)
  then have "checkRequested advertised (name, parameter) = Inr ()"
    using assms(1) map_of_SomeD [OF p] by (simp add: ValidateRequestedCapabilities_def checkAll_Inr)
  with p show ?thesis
    by (auto simp: checkRequested_def Let_def Value_def mapGet_def split: if_splits)
qed

theorem ValidateRequestedCapabilities_sound_witness:
  "Has [(''agent'', ''git/2''), (''delete-refs'', [])] ''agent''"
proof -
  have "ValidateRequestedCapabilities [(''agent'', ''x'')] [(''agent'', ''git/2''), (''delete-refs'', [])] = Inr ()"
    by code_simp
  moreover have "wfMap [(''agent'', ''x'')]" "Has [(''agent'', ''x'')] ''agent''"
    by code_simp+
  ultimately show ?thesis
    using ValidateRequestedCapabilities_sound by blast
qed

text \<open>
  The verdict of \<^verbatim>\<open>ValidateRequestedCapabilities\<close> does not depend on the iteration order of the
  requested map.
\<close>

theorem ValidateRequestedCapabilities_order:
  assumes "mset requested = mset requested'"
  shows "isOK (ValidateRequestedCapabilities requested advertised) \<longleftrightarrow>
    isOK (ValidateRequestedCapabilities requested' advertised)"
  using mset_eq_setD [OF assms] by (simp add: ValidateRequestedCapabilities_def isOK_checkAll)

theorem ValidateRequestedCapabilities_order_witness:
  "isOK (ValidateRequestedCapabilities [(''a'', []), (''b'', [])] [(''b'', []), (''a'', [])])"
proof -
  have "isOK (ValidateRequestedCapabilities [(''b'', []), (''a'', [])] [(''b'', []), (''a'', [])])"
    by code_simp
  then show ?thesis
    using ValidateRequestedCapabilities_order [of "[(''a'', []), (''b'', [])]" "[(''b'', []), (''a'', [])]"]
    by simp
qed

end
