(* ===== verification/Advertised.thy ===== *)
theory Advertised
  imports Wire_Grammar Pktline Capabilities
begin

text \<open>
  \<^verbatim>\<open>internal/gitproto/advertised.go\<close>: the server's receive-pack advertisement, read packet by packet
  up to its flush. What is recorded is forwarded to the client unchanged; the capabilities of the
  first line bound what the client may request.
\<close>

record advertisement =
  Raw :: string
  advCapabilities :: capabilities

definition validAdvertisedRef :: "string \<Rightarrow> bool" where
  "validAdvertisedRef ref =
     (if ref = ''HEAD'' \<or> ref = ''.have'' \<or> ref = ''capabilities^{}'' then True
      else if hasSuffix ref ''^{}'' then proto_validRef (trimSuffix ref ''^{}'')
      else proto_validRef ref)"

definition validAdvertisementLine :: "string \<Rightarrow> nat \<Rightarrow> bool" where
  "validAdvertisementLine line width =
     (case cut CHR '' '' line of (objectID, ref, found) \<Rightarrow>
        found \<and> length objectID = width \<and> \<not> contains ref '' '' \<and> validObjectID objectID
        \<and> validAdvertisedRef ref)"

definition advertisedObjectIDWidth :: "capabilities \<Rightarrow> nat result" where
  "advertisedObjectIDWidth caps =
     (let format = Value caps ''object-format'' in
      if format = [] \<or> format = ''sha1'' then Inr 40
      else if format = ''sha256'' then Inr 64
      else Inl (Errorf ''unsupported advertised object format %q'' [ArgS format]))"

definition shallowID :: "string \<Rightarrow> string" where
  "shallowID payload = substr payload (length ''shallow '') (length payload - 1)"

definition addAdvertisedShallow ::
  "nat \<Rightarrow> (string \<rightharpoonup> unit) \<Rightarrow> string \<Rightarrow> (string \<rightharpoonup> unit) result" where
  "addAdvertisedShallow width seen payload =
     (if \<not> hasSingleTerminalLF payload \<or> containsAny payload [NUL, CR]
      then errorf ''invalid advertised shallow declaration''
      else let objectID = shallowID payload in
        if length objectID \<noteq> width \<or> \<not> validObjectID objectID
        then errorf ''invalid advertised shallow object ID''
        else let key = toLower objectID in
          if seen key \<noteq> None then errorf ''duplicate advertised shallow object ID''
          else Inr (seen(key \<mapsto> ())))"

text \<open>The loop over the packets after the first, up to the flush.\<close>

function advertisementLoop ::
  "nat \<Rightarrow> (string \<rightharpoonup> unit) \<Rightarrow> packet_reader \<Rightarrow> packet_reader result" where
  "advertisementLoop width seen reader =
     (case readPacket reader of
        Inl e \<Rightarrow> Inl e
      | Inr (payload, flush, reader') \<Rightarrow>
          if flush then Inr reader'
          else if hasPrefix payload ''shallow '' then
            (case addAdvertisedShallow width seen payload of
               Inl e \<Rightarrow> Inl e
             | Inr seen' \<Rightarrow> advertisementLoop width seen' reader')
          else if \<not> hasSingleTerminalLF payload \<or> \<not> validAdvertisementLine (butlast payload) width
          then errorf ''invalid advertisement reference''
          else advertisementLoop width seen reader')"
  by pat_completeness auto
termination
  by (relation "measure (\<lambda>(_, _, r). length (input r))") (auto dest: readPacket_shrinks)

declare advertisementLoop.simps [simp del]

text \<open>The first packet: the object ID, the capabilities and the width of object IDs.\<close>

definition parseFirstReference :: "string \<Rightarrow> (string \<times> capabilities \<times> nat) result" where
  "parseFirstReference first =
     (case cut NUL first of (line, rawCapabilities, found) \<Rightarrow>
        if \<not> found \<or> NUL \<in> set rawCapabilities
        then errorf ''advertisement lacks one capability separator''
        else if LF \<in> set line \<or> \<not> hasSingleTerminalLF rawCapabilities
        then errorf ''advertisement first reference lacks one terminal LF''
        else case cut CHR '' '' line of (objectID, ref, found') \<Rightarrow>
          if \<not> found' \<or> contains ref '' '' \<or> \<not> validObjectID objectID \<or> \<not> validAdvertisedRef ref
          then errorf ''invalid advertisement first reference''
          else bindE (ParseCapabilities (butlast rawCapabilities)) (\<lambda>caps.
            bindE (advertisedObjectIDWidth caps) (\<lambda>width.
              if length objectID \<noteq> width
              then errorf ''advertisement first reference has wrong object ID width''
              else Inr (objectID, caps, width))))"

definition ParseAdvertisement :: "string \<Rightarrow> go_error \<Rightarrow> int \<Rightarrow> (advertisement \<times> packet_reader) result" where
  "ParseAdvertisement inp flt maxBytes =
     bindE (newPacketReader inp flt maxBytes) (\<lambda>reader.
     bindE (readPacket reader) (\<lambda>(first, flush, reader1).
     if flush then errorf ''empty receive-pack advertisement''
     else bindE (parseFirstReference first) (\<lambda>(objectID, caps, width).
     bindE (advertisementLoop width Map.empty reader1) (\<lambda>reader2.
     Inr (\<lparr>Raw = raw reader2, advCapabilities = caps\<rparr>, reader2)))))"


section \<open>What an accepted advertisement is\<close>

interpretation shallows: unique_index
  "\<lambda>p. hasSingleTerminalLF p \<and> \<not> containsAny p [NUL, CR] \<and> length (shallowID p) = width
     \<and> validObjectID (shallowID p)"
  "\<lambda>p. toLower (shallowID p)" "\<lambda>_. ()" "addAdvertisedShallow width" for width
  by unfold_locales (auto simp: addAdvertisedShallow_def Let_def)

lemma advertisementLoop_reads: "advertisementLoop w seen r = Inr r' \<Longrightarrow> reads r r'"
proof (induction w seen r rule: advertisementLoop.induct)
  case (1 w seen r)
  from "1.prems" obtain p f r1 where r1: "readPacket r = Inr (p, f, r1)"
    by (cases "readPacket r") (auto simp: advertisementLoop.simps [of w seen r])
  show ?case
  proof (cases f)
    case True
    with "1.prems" r1 show ?thesis
      by (auto simp: advertisementLoop.simps [of w seen r] intro: reads_one)
  next
    case False
    with "1.prems" r1 obtain seen' where "advertisementLoop w seen' r1 = Inr r'"
      and "reads r1 r'"
      using "1.IH"(1) [OF r1 refl refl False] "1.IH"(2) [OF r1 refl refl False]
      by (auto simp: advertisementLoop.simps [of w seen r] split: if_splits sum.splits)
    with r1 show ?thesis by (blast intro: reads_step)
  qed
qed

lemma parseFirstReference_Inr:
  assumes "parseFirstReference first = Inr (objectID, caps, width)"
  shows "wfCapabilities caps \<and> advertisedObjectIDWidth caps = Inr width \<and> length objectID = width
    \<and> validObjectID objectID"
  using assms
  by (auto simp: parseFirstReference_def result_simps split: prod.splits if_splits
      dest: ParseCapabilities_wf)

lemma ParseAdvertisement_Inr:
  assumes "ParseAdvertisement inp flt maxBytes = Inr (adv, reader)"
  shows "\<exists>reader0. newPacketReader inp flt maxBytes = Inr reader0 \<and> reads reader0 reader
    \<and> Raw adv = raw reader \<and> wfCapabilities (advCapabilities adv)
    \<and> isOK (advertisedObjectIDWidth (advCapabilities adv))"
proof -
  from assms obtain r0 first r1 objectID caps width r2
    where r0: "newPacketReader inp flt maxBytes = Inr r0"
      and r1: "readPacket r0 = Inr (first, False, r1)"
      and p: "parseFirstReference first = Inr (objectID, caps, width)"
      and r2: "advertisementLoop width Map.empty r1 = Inr r2"
      and res: "adv = \<lparr>Raw = raw r2, advCapabilities = caps\<rparr>" "reader = r2"
    unfolding ParseAdvertisement_def result_simps by (auto simp: result_simps split: prod.splits if_splits)
  have "reads r0 r2"
    using r1 advertisementLoop_reads [OF r2] by (rule reads_step)
  with r0 res parseFirstReference_Inr [OF p] show ?thesis
    by auto
qed

text \<open>
  An accepted advertisement is forwarded byte for byte and within its budget: the recorded
  bytes are exactly the prefix consumed from the server, at most \<^verbatim>\<open>maxBytes\<close> of them, nothing after
  the flush packet has been read, and the capabilities have distinct, printable names and a known
  object format.
\<close>

theorem ParseAdvertisement_exact:
  assumes "ParseAdvertisement inp flt maxBytes = Inr (adv, reader)"
  shows "inp = Raw adv @ input reader \<and> int (length (Raw adv)) \<le> maxBytes
    \<and> wfCapabilities (advCapabilities adv)
    \<and> Value (advCapabilities adv) ''object-format'' \<in> {[], ''sha1'', ''sha256''}"
proof -
  obtain r0 where r0: "newPacketReader inp flt maxBytes = Inr r0" and rd: "reads r0 reader"
    and adv: "Raw adv = raw reader" "wfCapabilities (advCapabilities adv)"
      "isOK (advertisedObjectIDWidth (advCapabilities adv))"
    using ParseAdvertisement_Inr [OF assms] by blast
  have init: "raw r0 = []" "input r0 = inp" "limit r0 = maxBytes" "4 \<le> maxBytes"
    using r0 by (auto simp: newPacketReader_def split: if_splits)
  have "raw reader @ input reader = inp" "limit reader = maxBytes"
    using reads_facts(1) [OF rd] reads_facts(2) [OF rd] init by simp_all
  moreover have "int (length (raw reader)) \<le> maxBytes"
    using reads_facts(3) [OF rd] init calculation by simp
  ultimately show ?thesis
    using adv by (auto simp: advertisedObjectIDWidth_def Let_def split: if_splits)
qed

definition exampleOID :: string where
  "exampleOID = ''1234567890abcdef1234567890abcdef12345678''"

definition exampleAdvertisement :: string where
  "exampleAdvertisement =
     ''0056'' @ exampleOID @ '' refs/heads/main'' @ [NUL] @ ''delete-refs push-options'' @ [LF] @ ''0000''"

theorem ParseAdvertisement_exact_witness:
  "ParseAdvertisement (exampleAdvertisement @ ''rest'') (Sentinel IoEOF) 200 =
     Inr (\<lparr>Raw = exampleAdvertisement, advCapabilities = [(''delete-refs'', []), (''push-options'', [])]\<rparr>,
          \<lparr>input = ''rest'', fault = Sentinel IoEOF, limit = 200, raw = exampleAdvertisement\<rparr>)
   \<and> int (length exampleAdvertisement) \<le> 200"
proof -
  have *: "ParseAdvertisement (exampleAdvertisement @ ''rest'') (Sentinel IoEOF) 200 =
     Inr (\<lparr>Raw = exampleAdvertisement, advCapabilities = [(''delete-refs'', []), (''push-options'', [])]\<rparr>,
          \<lparr>input = ''rest'', fault = Sentinel IoEOF, limit = 200, raw = exampleAdvertisement\<rparr>)"
    by code_simp
  with ParseAdvertisement_exact [OF *] show ?thesis by simp
qed

end
