(* ===== verification/Receive.thy ===== *)
theory Receive
  imports Advertised
begin

text \<open>
  The receive-pack request of a push, up to the pack itself: \<^verbatim>\<open>receive.go\<close>, the parser's methods
  in \<^verbatim>\<open>validate.go\<close>, the push certificate (\<^verbatim>\<open>certificate.go\<close>, \<^verbatim>\<open>signature.go\<close>) and the error of a
  denied push (\<^verbatim>\<open>rejection.go\<close>) of package \<^verbatim>\<open>internal/gitproto\<close>.

  The parser object is a record that every method takes and returns. Its loops read one packet
  per turn and terminate because a packet that is read shortens the input.
\<close>

record receive_options =
  MaxBytes :: int
  MaxCommands :: int
  optPolicy :: push_policy
  AdvertisedCaps :: capabilities

record receive_result =
  Prefix :: string
  Updates :: "update list"
  resCapabilities :: capabilities

record receive_parser =
  reader :: packet_reader
  options :: receive_options
  updates :: "update list"
  pCapabilities :: capabilities
  seenRefs :: "string \<rightharpoonup> unit"
  seenShallows :: "string \<rightharpoonup> unit"
  shallowIDs :: "string list"
  oidWidth :: nat

text \<open>\<^verbatim>\<open>parser.reader.read()\<close>\<close>

definition readNext :: "receive_parser \<Rightarrow> (string \<times> bool \<times> receive_parser) result" where
  "readNext p = bindE (readPacket (reader p)) (\<lambda>(payload, flush, r). Inr (payload, flush, p\<lparr>reader := r\<rparr>))"

definition pending :: "receive_parser \<Rightarrow> nat" where
  "pending p = length (input (reader p))"

lemma readNext_Inr:
  "readNext p = Inr (payload, flush, p') \<longleftrightarrow>
     (\<exists>r. readPacket (reader p) = Inr (payload, flush, r) \<and> p' = p\<lparr>reader := r\<rparr>)"
  by (auto simp: readNext_def result_simps)

lemma readNext_shrinks: "readNext p = Inr (payload, flush, p') \<Longrightarrow> pending p' < pending p"
  by (auto simp: readNext_Inr pending_def dest: readPacket_shrinks)

lemma readNext_then:
  "readNext p = Inr (payload, flush, p1) \<Longrightarrow> reader p2 = reader p1 \<Longrightarrow> pending p2 < pending p"
  using readNext_shrinks by (fastforce simp: pending_def)


section \<open>Shallow lines, object IDs and commands\<close>

definition addShallow :: "receive_parser \<Rightarrow> string \<Rightarrow> receive_parser result" where
  "addShallow p line =
     (if \<not> hasPrefix line ''shallow '' \<or> \<not> hasSuffix line [LF] \<or> countByte line LF \<noteq> 1
        \<or> containsAny line [CR, NUL]
      then errorf ''invalid shallow declaration''
      else let objectID = trimSuffix (trimPrefix line ''shallow '') [LF] in
        if \<not> validObjectID objectID then errorf ''invalid shallow object ID''
        else let key = toLower objectID in
          if seenShallows p key \<noteq> None then errorf ''duplicate shallow object ID''
          else Inr (p\<lparr>seenShallows := (seenShallows p)(key \<mapsto> ()), shallowIDs := shallowIDs p @ [objectID]\<rparr>))"

definition requestedWidth :: "capabilities \<Rightarrow> capabilities \<Rightarrow> nat result" where
  "requestedWidth advertised requested =
     (if Has requested ''object-format'' then
        let format = Value requested ''object-format'';
            unsupported = Inl (Errorf ''unsupported requested object format %q'' [ArgS format]) in
        if format = ''sha1'' then (if Value advertised ''object-format'' \<noteq> ''sha1'' then unsupported else Inr 40)
        else if format = ''sha256''
        then (if Value advertised ''object-format'' \<noteq> ''sha256'' then unsupported else Inr 64)
        else unsupported
      else Inr 40)"

definition negotiateObjectIDWidth :: "receive_parser \<Rightarrow> capabilities \<Rightarrow> receive_parser result" where
  "negotiateObjectIDWidth p requested =
     bindE (requestedWidth (AdvertisedCaps (options p)) requested) (\<lambda>width.
     if \<not> list_all (\<lambda>objectID. length objectID = width) (shallowIDs p)
     then errorf ''shallow object ID does not match negotiated object format''
     else Inr (p\<lparr>oidWidth := width\<rparr>))"

definition setOIDWidth :: "receive_parser \<Rightarrow> string \<Rightarrow> bool \<times> receive_parser" where
  "setOIDWidth p objectID =
     (if oidWidth p = 0 then (True, p\<lparr>oidWidth := length objectID\<rparr>)
      else (oidWidth p = length objectID, p))"

definition addCommand :: "receive_parser \<Rightarrow> string \<Rightarrow> receive_parser result" where
  "addCommand p line =
     (if MaxCommands (options p) > 0 \<and> int (length (updates p)) \<ge> MaxCommands (options p)
      then Inl (Errorf ''receive-pack command count exceeds %d'' [ArgI (MaxCommands (options p))])
      else let fs = strings_Fields line in
        if length fs \<noteq> 3 \<or> join CHR '' '' fs \<noteq> line then errorf ''invalid ref update command''
        else let oldID = fs ! 0; newID = fs ! 1; ref = fs ! 2 in
          if \<not> validObjectID oldID \<or> \<not> validObjectID newID then errorf ''invalid or mixed object IDs''
          else case setOIDWidth p oldID of (okOld, p1) \<Rightarrow>
            if \<not> okOld then errorf ''invalid or mixed object IDs''
            else case setOIDWidth p1 newID of (okNew, p2) \<Rightarrow>
              if \<not> okNew then errorf ''invalid or mixed object IDs''
              else if isZeroObjectID newID \<and> \<not> Has (AdvertisedCaps (options p)) ''delete-refs''
              then errorf ''delete command requires advertised delete-refs capability''
              else if \<not> proto_validRef ref then Inl (Errorf ''invalid ref %q'' [ArgS ref])
              else if seenRefs p2 ref \<noteq> None then Inl (Errorf ''duplicate ref %q'' [ArgS ref])
              else Inr (p2\<lparr>seenRefs := (seenRefs p2)(ref \<mapsto> ()),
                           updates := updates p2 @ [\<lparr>OldOID = oldID, NewOID = newID, Ref = ref\<rparr>]\<rparr>))"


section \<open>Push options\<close>

text \<open>
  The loop of \<^verbatim>\<open>parsePushOptions\<close>. The last comparison walks the header options by index; the
  counts agree by then, so \<^verbatim>\<open>trailingOptions[index]\<close> exists.
\<close>

fun optionMismatch :: "nat \<Rightarrow> string list \<Rightarrow> string list \<Rightarrow> nat option" where
  "optionMismatch i (option # header) (trailing # rest) =
     (if trailing \<noteq> option then Some i else optionMismatch (Suc i) header rest)"
| "optionMismatch i _ _ = None"

definition compareOptions :: "bool \<Rightarrow> string list \<Rightarrow> string list \<Rightarrow> unit result" where
  "compareOptions isSigned headerOptions trailingOptions =
     (if \<not> isSigned then Inr ()
      else if length headerOptions \<noteq> length trailingOptions
      then errorf ''signed push option count mismatch''
      else case optionMismatch 0 headerOptions trailingOptions of
        Some index \<Rightarrow> Inl (Errorf ''signed push option mismatch at index %d'' [ArgI (int index)])
      | None \<Rightarrow> Inr ())"

function pushOptionsLoop ::
  "string list \<Rightarrow> bool \<Rightarrow> string list \<Rightarrow> receive_parser \<Rightarrow> receive_parser result" where
  "pushOptionsLoop headerOptions isSigned trailingOptions p =
     (case readNext p of
        Inl e \<Rightarrow> Inl e
      | Inr (payload, flush, p') \<Rightarrow>
          if flush then bindE (compareOptions isSigned headerOptions trailingOptions) (\<lambda>_. Inr p')
          else if \<not> validPushOption payload then errorf ''invalid push option''
          else pushOptionsLoop headerOptions isSigned (trailingOptions @ [payload]) p')"
  by pat_completeness auto
termination
  by (relation "measure (\<lambda>(_, _, _, p). pending p)") (auto dest: readNext_shrinks)

declare pushOptionsLoop.simps [simp del]

definition parsePushOptions ::
  "receive_parser \<Rightarrow> capabilities \<Rightarrow> string list \<Rightarrow> bool \<Rightarrow> receive_parser result" where
  "parsePushOptions p caps headerOptions isSigned =
     (if \<not> Has caps ''push-options'' then
        (if isSigned \<and> length headerOptions \<noteq> 0
         then errorf ''signed push option header lacks client selection'' else Inr p)
      else if \<not> Has (AdvertisedCaps (options p)) ''push-options''
      then errorf ''client requested unadvertised push-options capability''
      else pushOptionsLoop headerOptions isSigned [] p)"


section \<open>Push certificates\<close>

definition expectFlush :: "receive_parser \<Rightarrow> string \<Rightarrow> receive_parser result" where
  "expectFlush p ctx =
     bindE (readNext p) (\<lambda>(_, flush, p').
     if \<not> flush then Inl (Errorf ''expected %s flush'' [ArgS ctx]) else Inr p')"

definition expectPacket :: "receive_parser \<Rightarrow> string \<Rightarrow> receive_parser result" where
  "expectPacket p want =
     bindE (readNext p) (\<lambda>(payload, flush, p').
     if flush \<or> payload \<noteq> want
     then Inl (Errorf ''expected push certificate %q'' [ArgS (trim want [LF])]) else Inr p')"

definition requiredHeaders :: "string list" where
  "requiredHeaders = [''pusher'', ''pushee'', ''nonce'']"

function certificateHeadersLoop ::
  "capabilities \<Rightarrow> nat \<Rightarrow> string list \<Rightarrow> receive_parser \<Rightarrow> (string list \<times> receive_parser) result" where
  "certificateHeadersLoop requested nextRequired headerOptions p =
     (case readNext p of
        Inl e \<Rightarrow> Inl e
      | Inr (payload, flush, p') \<Rightarrow>
          if flush then errorf ''invalid push certificate headers''
          else if payload = [LF] then
            (if nextRequired \<noteq> length requiredHeaders
             then errorf ''push certificate lacks required headers'' else Inr (headerOptions, p'))
          else (case parseCertificateHeader payload of
              Inl e \<Rightarrow> Inl e
            | Inr (field, value) \<Rightarrow>
                if nextRequired < length requiredHeaders then
                  (if field \<noteq> requiredHeaders ! nextRequired
                      \<or> \<not> validRequiredCertificateHeader field value
                   then errorf ''invalid push certificate header order or value''
                   else if field = ''nonce'' \<and> value \<noteq> Value (AdvertisedCaps (options p')) ''push-cert''
                   then errorf ''push certificate nonce does not match advertisement''
                   else certificateHeadersLoop requested (nextRequired + 1) headerOptions p')
                else if field \<noteq> ''push-option'' \<or> \<not> Has requested ''push-options''
                    \<or> \<not> Has (AdvertisedCaps (options p')) ''push-options'' \<or> \<not> validPushOption value
                then errorf ''invalid push certificate push-option''
                else certificateHeadersLoop requested nextRequired (headerOptions @ [value]) p'))"
  by pat_completeness auto
termination
  by (relation "measure (\<lambda>(_, _, _, p). pending p)") (auto dest: readNext_shrinks)

declare certificateHeadersLoop.simps [simp del]

definition parseCertificateHeaders ::
  "receive_parser \<Rightarrow> capabilities \<Rightarrow> (string list \<times> receive_parser) result" where
  "parseCertificateHeaders p requested = certificateHeadersLoop requested 0 [] p"

text \<open>
  The body of a certificate: its commands, then one signature envelope. The four local variables
  of \<^verbatim>\<open>parseCertificateBody\<close> are a record.
\<close>

record body_state =
  commandsSeen :: bool
  signatureEnd :: string
  signatureEnded :: bool
  signatureContent :: bool

definition bodyStart :: body_state where
  "bodyStart = \<lparr>commandsSeen = False, signatureEnd = [], signatureEnded = False, signatureContent = False\<rparr>"

definition bodyLine :: "body_state \<Rightarrow> receive_parser \<Rightarrow> string \<Rightarrow> (body_state \<times> receive_parser) result" where
  "bodyLine b p line =
     (if signatureEnd b = [] then
        (if isCommandLine line
         then bindE (addCommand p line) (\<lambda>p'. Inr (b\<lparr>commandsSeen := True\<rparr>, p'))
         else case signatureEnvelopeEnd line of
           None \<Rightarrow> errorf ''invalid push certificate signature''
         | Some e \<Rightarrow> Inr (b\<lparr>signatureEnd := e\<rparr>, p))
      else if line = signatureEnd b then
        (if signatureEnded b then errorf ''invalid push certificate signature''
         else Inr (b\<lparr>signatureEnded := True\<rparr>, p))
      else if signatureEnded b then errorf ''invalid push certificate signature''
      else Inr (if line \<noteq> [] then b\<lparr>signatureContent := True\<rparr> else b, p))"

lemma addCommand_reader: "addCommand p line = Inr p' \<Longrightarrow> reader p' = reader p"
  by (auto simp: addCommand_def Let_def setOIDWidth_def split: if_splits)

lemma bodyLine_reader: "bodyLine b p line = Inr (b', p') \<Longrightarrow> reader p' = reader p"
  by (auto simp: bodyLine_def result_simps addCommand_reader split: if_splits option.splits)

function certificateBodyLoop :: "body_state \<Rightarrow> receive_parser \<Rightarrow> receive_parser result" where
  "certificateBodyLoop b p =
     (case readNext p of
        Inl e \<Rightarrow> Inl e
      | Inr (payload, flush, p') \<Rightarrow>
          if flush \<or> \<not> validCertificateBodyPacket payload
          then errorf ''invalid push certificate body''
          else let line = trimSuffix payload [LF] in
            if line = ''push-cert-end'' then
              (if \<not> commandsSeen b \<or> signatureEnd b = [] \<or> \<not> signatureEnded b \<or> \<not> signatureContent b
               then errorf ''incomplete push certificate'' else Inr p')
            else (case bodyLine b p' line of
                Inl e \<Rightarrow> Inl e
              | Inr (b', p'') \<Rightarrow> certificateBodyLoop b' p''))"
  by pat_completeness auto
termination
  by (relation "measure (\<lambda>(_, p). pending p)")
    (auto intro: readNext_then dest: bodyLine_reader)

declare certificateBodyLoop.simps [simp del]

definition parseCertificateBody :: "receive_parser \<Rightarrow> receive_parser result" where
  "parseCertificateBody p = certificateBodyLoop bodyStart p"

text \<open>\<^verbatim>\<open>push-cert\<close> and the NUL that introduce a certificate.\<close>

definition certificatePrefix :: string where
  "certificatePrefix = ''push-cert'' @ [NUL]"

definition versionLine :: string where
  "versionLine = ''certificate version 0.1'' @ [LF]"

definition parseCertificate :: "receive_parser \<Rightarrow> string \<Rightarrow> receive_parser result" where
  "parseCertificate p first =
     (case ParseCapabilities (drop (length certificatePrefix) first) of
        Inl _ \<Rightarrow> errorf ''invalid push certificate preamble''
      | Inr caps \<Rightarrow>
          bindE (ValidateRequestedCapabilities caps (AdvertisedCaps (options p))) (\<lambda>_.
          bindE (negotiateObjectIDWidth p caps) (\<lambda>p1.
          let p2 = p1\<lparr>pCapabilities := caps\<rparr> in
          bindE (validatePushCertificate (AdvertisedCaps (options p2))) (\<lambda>_.
          bindE (expectPacket p2 versionLine) (\<lambda>p3.
          bindE (parseCertificateHeaders p3 caps) (\<lambda>(headerOptions, p4).
          bindE (parseCertificateBody p4) (\<lambda>p5.
          bindE (expectFlush p5 ''push certificate terminator'') (\<lambda>p6.
          parsePushOptions p6 caps headerOptions True))))))))"


section \<open>Requests\<close>

definition parseFirstCommand :: "string \<Rightarrow> (string \<times> capabilities) result" where
  "parseFirstCommand payload =
     (case cut NUL payload of (command, caps, found) \<Rightarrow>
        if \<not> found then errorf ''first command lacks capability separator''
        else if LF \<in> set command then errorf ''ordinary command must not contain newline''
        else bindE (ParseCapabilities caps) (\<lambda>capabilities. Inr (command, capabilities)))"

function commandsLoop :: "capabilities \<Rightarrow> receive_parser \<Rightarrow> receive_parser result" where
  "commandsLoop caps p =
     (case readNext p of
        Inl e \<Rightarrow> Inl e
      | Inr (payload, flush, p') \<Rightarrow>
          if flush then parsePushOptions p' caps [] False
          else (case addCommand p' payload of
              Inl e \<Rightarrow> Inl e
            | Inr p'' \<Rightarrow> commandsLoop caps p''))"
  by pat_completeness auto
termination
  by (relation "measure (\<lambda>(_, p). pending p)")
    (auto intro: readNext_then dest: addCommand_reader)

declare commandsLoop.simps [simp del]

definition parseRequest :: "receive_parser \<Rightarrow> string \<Rightarrow> receive_parser result" where
  "parseRequest p first =
     (if hasPrefix first certificatePrefix then parseCertificate p first
      else
        bindE (parseFirstCommand first) (\<lambda>(command, caps).
        bindE (ValidateRequestedCapabilities caps (AdvertisedCaps (options p))) (\<lambda>_.
        bindE (negotiateObjectIDWidth p caps) (\<lambda>p1.
        let p2 = p1\<lparr>pCapabilities := caps\<rparr> in
        bindE (addCommand p2 command) (\<lambda>p3. commandsLoop caps p3)))))"

lemma addShallow_reader: "addShallow p line = Inr p' \<Longrightarrow> reader p' = reader p"
  by (auto simp: addShallow_def Let_def split: if_splits)

function parse :: "receive_parser \<Rightarrow> receive_parser result" where
  "parse p =
     (case readNext p of
        Inl e \<Rightarrow> Inl e
      | Inr (payload, flush, p') \<Rightarrow>
          if flush then errorf ''receive-pack request has no command list''
          else if \<not> hasPrefix payload ''shallow '' then parseRequest p' payload
          else (case addShallow p' payload of
              Inl e \<Rightarrow> Inl e
            | Inr p'' \<Rightarrow> parse p''))"
  by pat_completeness auto
termination
  by (relation "measure pending")
    (auto intro: readNext_then dest: addShallow_reader)

declare parse.simps [simp del]

definition newRejectedUpdatesError :: "update list \<Rightarrow> go_error" where
  "newRejectedUpdatesError us = RejectedUpdates us"

definition newReceiveParser :: "packet_reader \<Rightarrow> receive_options \<Rightarrow> receive_parser" where
  "newReceiveParser r opts =
     \<lparr>reader = r, options = opts, updates = [], pCapabilities = [], seenRefs = Map.empty,
      seenShallows = Map.empty, shallowIDs = [], oidWidth = 0\<rparr>"

text \<open>
  The second component of the result is the reader afterwards: what it still has to deliver is
  the pack, which the caller forwards next.
\<close>

definition ParseReceivePack ::
  "string \<Rightarrow> go_error \<Rightarrow> receive_options \<Rightarrow> (receive_result \<times> packet_reader) result" where
  "ParseReceivePack inp flt opts =
     (if MaxCommands opts < 1 then errorf ''receive-pack command limit must be positive''
      else
        bindE (newPacketReader inp flt (MaxBytes opts)) (\<lambda>r.
        bindE (parse (newReceiveParser r opts)) (\<lambda>p.
        case ValidatePush (optPolicy opts) (updates p) of
          Inl _ \<Rightarrow> Inl (newRejectedUpdatesError (updates p))
        | Inr _ \<Rightarrow> Inr (\<lparr>Prefix = raw (reader p), Updates = updates p,
                        resCapabilities = pCapabilities p\<rparr>, reader p))))"

text \<open>
  \<^verbatim>\<open>RejectedUpdates\<close>: \<^verbatim>\<open>errors.As\<close> for the rejection, depth first; \<open>[]\<close> is Go's nil slice.
\<close>

fun errors_AsRejected :: "go_error \<Rightarrow> update list option"
  and firstRejected :: "go_error list \<Rightarrow> update list option" where
  "errors_AsRejected (RejectedUpdates us) = Some us"
| "errors_AsRejected (Wrapf _ _ e) = errors_AsRejected e"
| "errors_AsRejected (ProcessFailure e _) = errors_AsRejected e"
| "errors_AsRejected (Join es) = firstRejected es"
| "errors_AsRejected _ = None"
| "firstRejected [] = None"
| "firstRejected (e # es) =
     (case errors_AsRejected e of Some us \<Rightarrow> Some us | None \<Rightarrow> firstRejected es)"

definition rejectedUpdates :: "go_error \<Rightarrow> update list" where
  "rejectedUpdates e = (case errors_AsRejected e of None \<Rightarrow> [] | Some us \<Rightarrow> us)"

end
