(* ===== verification/Receive_Correct.thy ===== *)
theory Receive_Correct
  imports Receive
begin

text \<open>
  Correctness of the receive-pack parser of theory \<open>Receive\<close>: the invariant its methods keep, what
  an accepted request guarantees, what a denied one carries, and that every well-formed request is
  accepted.
\<close>

section \<open>The invariant of the parser\<close>

text \<open>
  The filed refs are those of the updates, without repetition; every update has a ref and object
  IDs the wire grammar allows, all of the negotiated width; the command limit holds and a deletion
  was collected only if the server advertised \<^verbatim>\<open>delete-refs\<close>.
\<close>

definition wfUpdate :: "receive_options \<Rightarrow> nat \<Rightarrow> update \<Rightarrow> bool" where
  "wfUpdate opts width u =
     (proto_validRef (Ref u) \<and> validObjectID (OldOID u) \<and> validObjectID (NewOID u)
      \<and> length (OldOID u) = width \<and> length (NewOID u) = width
      \<and> (isZeroObjectID (NewOID u) \<longrightarrow> Has (AdvertisedCaps opts) ''delete-refs''))"

definition wfParser :: "receive_parser \<Rightarrow> bool" where
  "wfParser p =
     (dom (seenRefs p) = Ref ` set (updates p) \<and> distinct (map Ref (updates p))
      \<and> list_all (wfUpdate (options p) (oidWidth p)) (updates p)
      \<and> 1 \<le> MaxCommands (options p) \<and> int (length (updates p)) \<le> MaxCommands (options p))"

text \<open>One phase of the parser after another.\<close>

definition follows :: "receive_parser \<Rightarrow> receive_parser \<Rightarrow> bool" where
  "follows p p' =
     (reads (reader p) (reader p') \<and> options p' = options p \<and> pCapabilities p' = pCapabilities p
      \<and> length (updates p) \<le> length (updates p') \<and> (wfParser p \<longrightarrow> wfParser p'))"

lemma follows_refl [simp]: "follows p p"
  by (simp add: follows_def)

lemma follows_trans: "follows p q \<Longrightarrow> follows q r \<Longrightarrow> follows p r"
  unfolding follows_def by (auto intro: reads_trans)

lemma wfParser_reader [simp]: "wfParser (p\<lparr>reader := r\<rparr>) = wfParser p"
  by (simp add: wfParser_def)

lemma wfParser_capabilities [simp]: "wfParser (p\<lparr>pCapabilities := c\<rparr>) = wfParser p"
  by (simp add: wfParser_def)

lemma readNext_follows: "readNext p = Inr (payload, flush, p') \<Longrightarrow> follows p p' \<and> updates p' = updates p"
  by (auto simp: readNext_Inr follows_def intro: reads_one)

lemma validObjectID_Nil [simp]: "\<not> validObjectID []"
  by (simp add: validObjectID_def)

lemma not_Some_unit: "x \<noteq> Some () \<Longrightarrow> x = None"
  by (cases x) simp_all

text \<open>What a successful \<^verbatim>\<open>addCommand\<close> did.\<close>

lemma addCommand_Inr:
  assumes "addCommand p line = Inr p'"
  shows "\<exists>u. strings_Fields line = [OldOID u, NewOID u, Ref u] \<and> join CHR '' '' (strings_Fields line) = line
    \<and> (MaxCommands (options p) > 0 \<longrightarrow> int (length (updates p)) < MaxCommands (options p))
    \<and> wfUpdate (options p) (oidWidth p') u
    \<and> (oidWidth p \<noteq> 0 \<longrightarrow> oidWidth p' = oidWidth p) \<and> seenRefs p (Ref u) = None
    \<and> p' = p\<lparr>oidWidth := oidWidth p', seenRefs := (seenRefs p)(Ref u \<mapsto> ()), updates := updates p @ [u]\<rparr>"
proof -
  let ?fs = "strings_Fields line"
  let ?u = "\<lparr>OldOID = ?fs ! 0, NewOID = ?fs ! 1, Ref = ?fs ! 2\<rparr>"
  have len: "length ?fs = 3" "join CHR '' '' ?fs = line"
    using assms by (auto simp: addCommand_def Let_def split: if_splits)
  then have fs: "?fs = [?fs ! 0, ?fs ! 1, ?fs ! 2]"
    by (auto simp: numeral_3_eq_3 length_Suc_conv)
  show ?thesis
  proof (intro exI [of _ ?u] conjI)
    show "?fs = [OldOID ?u, NewOID ?u, Ref ?u]" using fs by simp
    show "wfUpdate (options p) (oidWidth p') ?u"
      using assms
      by (auto simp: addCommand_def wfUpdate_def Let_def setOIDWidth_def split: if_splits)
  qed (use assms len in \<open>auto simp: addCommand_def Let_def setOIDWidth_def dest: not_Some_unit split: if_splits\<close>)
qed

lemma addCommand_follows:
  assumes "addCommand p line = Inr p'"
  shows "follows p p' \<and> updates p' \<noteq> []"
proof -
  obtain u where u: "wfUpdate (options p) (oidWidth p') u" "oidWidth p \<noteq> 0 \<longrightarrow> oidWidth p' = oidWidth p"
    "seenRefs p (Ref u) = None"
    "MaxCommands (options p) > 0 \<longrightarrow> int (length (updates p)) < MaxCommands (options p)"
    and p': "p' = p\<lparr>oidWidth := oidWidth p', seenRefs := (seenRefs p)(Ref u \<mapsto> ()), updates := updates p @ [u]\<rparr>"
    using addCommand_Inr [OF assms] by blast
  have fields: "reader p' = reader p" "options p' = options p" "pCapabilities p' = pCapabilities p"
    "updates p' = updates p @ [u]" "seenRefs p' = (seenRefs p)(Ref u \<mapsto> ())"
    by (subst p', simp)+
  have "wfParser p'" if wf: "wfParser p"
  proof -
    have "oidWidth p' = oidWidth p" if "updates p \<noteq> []"
    proof -
      obtain v where "v \<in> set (updates p)" using \<open>updates p \<noteq> []\<close> by (cases "updates p") auto
      with wf have "validObjectID (OldOID v)" "length (OldOID v) = oidWidth p"
        by (auto simp: wfParser_def wfUpdate_def list_all_iff)
      with u(2) show ?thesis by (auto simp: validObjectID_iff validOID_iff)
    qed
    then have "list_all (wfUpdate (options p) (oidWidth p')) (updates p)"
      using wf by (cases "updates p") (simp_all add: wfParser_def)
    moreover have "dom (seenRefs p) = Ref ` set (updates p)" "Ref u \<notin> dom (seenRefs p)"
      using wf u(3) unfolding wfParser_def by blast+
    then have "Ref u \<notin> Ref ` set (updates p)"
      by simp
    ultimately show ?thesis
      using wf u fields by (auto simp: wfParser_def)
  qed
  with fields show ?thesis
    by (simp add: follows_def)
qed

lemma pushOptionsLoop_follows:
  "pushOptionsLoop h s t p = Inr p' \<Longrightarrow> follows p p' \<and> updates p' = updates p"
proof (induction h s t p rule: pushOptionsLoop.induct)
  case (1 h s t p)
  from "1.prems" obtain payload flush p1 where r: "readNext p = Inr (payload, flush, p1)"
    by (cases "readNext p") (auto simp: pushOptionsLoop.simps [of h s t p])
  show ?case
  proof (cases flush)
    case True
    with "1.prems" r readNext_follows [OF r] show ?thesis
      by (auto simp: pushOptionsLoop.simps [of h s t p] result_simps)
  next
    case False
    with "1.prems" r have "validPushOption payload" "pushOptionsLoop h s (t @ [payload]) p1 = Inr p'"
      by (auto simp: pushOptionsLoop.simps [of h s t p] split: if_splits)
    with "1.IH" [OF r refl refl False] readNext_follows [OF r] show ?thesis
      using follows_trans by fastforce
  qed
qed

lemma parsePushOptions_follows:
  "parsePushOptions p caps h s = Inr p' \<Longrightarrow> follows p p' \<and> updates p' = updates p"
  by (auto simp: parsePushOptions_def dest: pushOptionsLoop_follows split: if_splits)

lemma commandsLoop_follows: "commandsLoop caps p = Inr p' \<Longrightarrow> follows p p'"
proof (induction caps p rule: commandsLoop.induct)
  case (1 caps p)
  from "1.prems" obtain payload flush p1 where r: "readNext p = Inr (payload, flush, p1)"
    by (cases "readNext p") (auto simp: commandsLoop.simps [of caps p])
  show ?case
  proof (cases flush)
    case True
    with "1.prems" r have "parsePushOptions p1 caps [] False = Inr p'"
      by (simp add: commandsLoop.simps [of caps p])
    with parsePushOptions_follows readNext_follows [OF r] show ?thesis
      using follows_trans by blast
  next
    case False
    with "1.prems" r obtain p2 where p2: "addCommand p1 payload = Inr p2" "commandsLoop caps p2 = Inr p'"
      by (auto simp: commandsLoop.simps [of caps p] split: sum.splits)
    with "1.IH" [OF r refl refl False p2(1)] addCommand_follows [OF p2(1)] readNext_follows [OF r]
    show ?thesis
      using follows_trans by blast
  qed
qed

lemma certificateHeadersLoop_follows:
  "certificateHeadersLoop req n h p = Inr (h', p') \<Longrightarrow> follows p p' \<and> updates p' = updates p"
proof (induction req n h p rule: certificateHeadersLoop.induct)
  case (1 req n h p)
  from "1.prems" obtain payload flush p1 where r: "readNext p = Inr (payload, flush, p1)"
    by (cases "readNext p") (auto simp: certificateHeadersLoop.simps [of req n h p])
  note step = readNext_follows [OF r]
  have nf: "\<not> flush"
    using "1.prems" r by (auto simp: certificateHeadersLoop.simps [of req n h p])
  show ?case
  proof (cases "payload = [LF]")
    case True
    with "1.prems" r nf step show ?thesis
      by (auto simp: certificateHeadersLoop.simps [of req n h p] split: if_splits)
  next
    case False
    with "1.prems" r nf obtain field val where c: "parseCertificateHeader payload = Inr (field, val)"
      by (cases "parseCertificateHeader payload") (auto simp: certificateHeadersLoop.simps [of req n h p])
    note IH = "1.IH" [OF r refl refl nf False c refl]
    have "follows p1 p' \<and> updates p' = updates p1"
      using "1.prems" r nf False c IH
      by (simp add: certificateHeadersLoop.simps [of req n h p] split: if_splits)
    with step show ?thesis
      using follows_trans by fastforce
  qed
qed

lemma bodyLine_follows: "bodyLine b p line = Inr (b', p') \<Longrightarrow> follows p p'
    \<and> ((commandsSeen b \<longrightarrow> updates p \<noteq> []) \<longrightarrow> commandsSeen b' \<longrightarrow> updates p' \<noteq> [])"
  by (auto simp: bodyLine_def result_simps dest: addCommand_follows split: if_splits option.splits)

lemma certificateBodyLoop_follows:
  "certificateBodyLoop b p = Inr p' \<Longrightarrow> (commandsSeen b \<longrightarrow> updates p \<noteq> []) \<Longrightarrow>
     follows p p' \<and> updates p' \<noteq> []"
proof (induction b p rule: certificateBodyLoop.induct)
  case (1 b p)
  from "1.prems"(1) obtain payload flush p1 where r: "readNext p = Inr (payload, flush, p1)"
    by (cases "readNext p") (auto simp: certificateBodyLoop.simps [of b p])
  note step = readNext_follows [OF r]
  have nf: "\<not> (flush \<or> \<not> validCertificateBodyPacket payload)"
    using "1.prems"(1) r by (auto simp: certificateBodyLoop.simps [of b p] split: if_splits)
  let ?line = "trimSuffix payload [LF]"
  show ?case
  proof (cases "?line = ''push-cert-end''")
    case True
    with "1.prems" r nf step show ?thesis
      by (auto simp: certificateBodyLoop.simps [of b p] Let_def split: if_splits)
  next
    case False
    with "1.prems"(1) r nf obtain b1 p2 where p2: "bodyLine b p1 ?line = Inr (b1, p2)"
      "certificateBodyLoop b1 p2 = Inr p'"
      by (cases "bodyLine b p1 ?line") (auto simp: certificateBodyLoop.simps [of b p] Let_def)
    have "commandsSeen b1 \<longrightarrow> updates p2 \<noteq> []" "follows p1 p2"
      using bodyLine_follows [OF p2(1)] "1.prems"(2) step by simp_all
    with "1.IH" [OF r refl refl nf refl False p2(1) refl p2(2)] step show ?thesis
      using follows_trans by blast
  qed
qed


section \<open>Accepted requests\<close>

definition accepted :: "receive_parser \<Rightarrow> receive_parser \<Rightarrow> bool" where
  "accepted p p' =
     (reads (reader p) (reader p') \<and> options p' = options p \<and> wfParser p' \<and> updates p' \<noteq> []
      \<and> wfCapabilities (pCapabilities p')
      \<and> ValidateRequestedCapabilities (pCapabilities p') (AdvertisedCaps (options p)) = Inr ())"

text \<open>Both kinds of request negotiate first; what follows only has to collect a command.\<close>

lemma accepted_after_negotiation:
  assumes caps: "wfCapabilities caps" "ValidateRequestedCapabilities caps (AdvertisedCaps (options p)) = Inr ()"
    and neg: "negotiateObjectIDWidth p caps = Inr p1"
    and rest: "follows (p1\<lparr>pCapabilities := caps\<rparr>) p'" "updates p' \<noteq> []"
    and wf: "wfParser p" "updates p = []"
  shows "accepted p p'"
proof -
  obtain w where p1: "p1 = p\<lparr>oidWidth := w\<rparr>"
    using neg by (auto simp: negotiateObjectIDWidth_def result_simps split: if_splits)
  have "wfParser (p1\<lparr>pCapabilities := caps\<rparr>)"
    using wf p1 by (simp add: wfParser_def)
  with caps rest p1 show ?thesis
    by (auto simp: accepted_def follows_def)
qed

lemma parseCertificate_accepted:
  assumes "parseCertificate p first = Inr p'" and wf: "wfParser p" "updates p = []"
  shows "accepted p p'"
proof -
  from assms(1) obtain caps p1 p3 h p4 p5 p6
    where caps: "ParseCapabilities (drop (length certificatePrefix) first) = Inr caps"
      "ValidateRequestedCapabilities caps (AdvertisedCaps (options p)) = Inr ()"
    and p1: "negotiateObjectIDWidth p caps = Inr p1"
    and p3: "expectPacket (p1\<lparr>pCapabilities := caps\<rparr>) versionLine = Inr p3"
    and p4: "parseCertificateHeaders p3 caps = Inr (h, p4)"
    and p5: "parseCertificateBody p4 = Inr p5"
    and p6: "expectFlush p5 ''push certificate terminator'' = Inr p6"
    and p': "parsePushOptions p6 caps h True = Inr p'"
    by (auto simp: parseCertificate_def Let_def result_simps split: sum.splits)
  have "follows (p1\<lparr>pCapabilities := caps\<rparr>) p3"
    using p3 readNext_follows by (auto simp: expectPacket_def result_simps split: if_splits)
  moreover have "follows p3 p4"
    using p4 certificateHeadersLoop_follows by (auto simp: parseCertificateHeaders_def)
  moreover have "follows p4 p5" "updates p5 \<noteq> []"
    using certificateBodyLoop_follows p5 by (auto simp: parseCertificateBody_def bodyStart_def)
  moreover have "follows p5 p6 \<and> updates p6 = updates p5"
    using p6 readNext_follows by (auto simp: expectFlush_def result_simps split: if_splits)
  moreover have "follows p6 p' \<and> updates p' = updates p6"
    using p' by (rule parsePushOptions_follows)
  ultimately have "follows (p1\<lparr>pCapabilities := caps\<rparr>) p'" "updates p' \<noteq> []"
    using follows_trans by (blast, simp)
  with ParseCapabilities_wf [OF caps(1)] caps(2) p1 wf show ?thesis
    by (intro accepted_after_negotiation)
qed

lemma parseRequest_accepted:
  assumes "parseRequest p first = Inr p'" and wf: "wfParser p" "updates p = []"
  shows "accepted p p'"
proof (cases "hasPrefix first certificatePrefix")
  case True
  with assms show ?thesis
    by (intro parseCertificate_accepted) (simp_all add: parseRequest_def)
next
  case False
  with assms(1) obtain command caps p1 p3
    where f: "parseFirstCommand first = Inr (command, caps)"
    and caps: "ValidateRequestedCapabilities caps (AdvertisedCaps (options p)) = Inr ()"
    and p1: "negotiateObjectIDWidth p caps = Inr p1"
    and p3: "addCommand (p1\<lparr>pCapabilities := caps\<rparr>) command = Inr p3"
    and p': "commandsLoop caps p3 = Inr p'"
    by (auto simp: parseRequest_def Let_def result_simps)
  have "wfCapabilities caps"
    using f by (auto simp: parseFirstCommand_def result_simps split: prod.splits if_splits
        dest: ParseCapabilities_wf)
  moreover have "follows (p1\<lparr>pCapabilities := caps\<rparr>) p3" "updates p3 \<noteq> []"
    using addCommand_follows [OF p3] by simp_all
  moreover have "follows p3 p'"
    using p' by (rule commandsLoop_follows)
  moreover from this \<open>updates p3 \<noteq> []\<close> have "updates p' \<noteq> []"
    by (auto simp: follows_def)
  ultimately show ?thesis
    using caps p1 wf follows_trans by (intro accepted_after_negotiation) blast+
qed

lemma parse_accepted:
  "parse p = Inr p' \<Longrightarrow> wfParser p \<Longrightarrow> updates p = [] \<Longrightarrow> accepted p p'"
proof (induction p rule: parse.induct)
  case (1 p)
  from "1.prems"(1) obtain payload flush p1 where r: "readNext p = Inr (payload, flush, p1)"
    by (cases "readNext p") (auto simp: parse.simps [of p])
  have nf: "\<not> flush"
    using "1.prems"(1) r by (auto simp: parse.simps [of p])
  have p1: "wfParser p1" "updates p1 = []" "reads (reader p) (reader p1)" "options p1 = options p"
    using readNext_follows [OF r] "1.prems"(2,3) by (auto simp: follows_def)
  have "accepted p1 p'"
  proof (cases "hasPrefix payload ''shallow ''")
    case False
    with "1.prems"(1) r nf have "parseRequest p1 payload = Inr p'"
      by (simp add: parse.simps [of p])
    with p1 show ?thesis by (intro parseRequest_accepted)
  next
    case True
    with "1.prems"(1) r nf obtain p2 where p2: "addShallow p1 payload = Inr p2" "parse p2 = Inr p'"
      by (auto simp: parse.simps [of p] split: sum.splits)
    have same: "wfParser p2" "updates p2 = []" "reader p2 = reader p1" "options p2 = options p1"
      using p2(1) p1 by (auto simp: addShallow_def Let_def wfParser_def split: if_splits)
    have "accepted p2 p'"
      using "1.IH" [OF r refl refl nf _ p2(1) p2(2) same(1,2)] True by simp
    with same show ?thesis by (simp add: accepted_def)
  qed
  with p1 show ?case
    by (auto simp: accepted_def intro: reads_trans)
qed

lemma ParseReceivePack_accepted:
  assumes "ParseReceivePack inp flt opts = Inr (result, r)"
  shows "\<exists>r0 p. newPacketReader inp flt (MaxBytes opts) = Inr r0 \<and> accepted (newReceiveParser r0 opts) p
    \<and> ValidatePush (optPolicy opts) (updates p) = Inr () \<and> r = reader p
    \<and> result = \<lparr>Prefix = raw r, Updates = updates p, resCapabilities = pCapabilities p\<rparr>"
proof -
  from assms obtain r0 p where pos: "1 \<le> MaxCommands opts"
    and r0: "newPacketReader inp flt (MaxBytes opts) = Inr r0"
    and p: "parse (newReceiveParser r0 opts) = Inr p"
    and res: "(case ValidatePush (optPolicy opts) (updates p) of
        Inl _ \<Rightarrow> Inl (newRejectedUpdatesError (updates p))
      | Inr _ \<Rightarrow> Inr (\<lparr>Prefix = raw (reader p), Updates = updates p, resCapabilities = pCapabilities p\<rparr>,
                     reader p)) = Inr (result, r)"
    unfolding ParseReceivePack_def by (auto simp: result_simps split: if_splits)
  have v: "ValidatePush (optPolicy opts) (updates p) = Inr ()"
    using res by (cases "ValidatePush (optPolicy opts) (updates p)") simp_all
  have "accepted (newReceiveParser r0 opts) p"
    using pos p by (intro parse_accepted) (simp_all add: newReceiveParser_def wfParser_def)
  with r0 v res show ?thesis by auto
qed

end
