(* ===== verification/Receive_Requests.thy ===== *)
theory Receive_Requests
  imports Receive_Correct
begin

text \<open>
  Requests as their peers write them: every well-formed push is accepted with exactly its updates
  and its bytes, a denied push is reported with exactly its updates, and the signed parts of a push
  certificate are those the server asked for.
\<close>

section \<open>Writing a request\<close>

definition commandLine :: "update \<Rightarrow> string" where
  "commandLine u = OldOID u @ '' '' @ NewOID u @ '' '' @ Ref u"

text \<open>Packets in a row, and a push that offers capabilities and sends push options if it chose to.\<close>

definition encodePackets :: "string list \<Rightarrow> string" where
  "encodePackets ps = concat (map encodePacket ps)"

definition requestPayloads :: "update list \<Rightarrow> capabilities \<Rightarrow> string list" where
  "requestPayloads us caps =
     (case us of [] \<Rightarrow> [] | u # us' \<Rightarrow>
        (commandLine u @ [NUL] @ showCapabilities caps) # map commandLine us')"

definition encodeRequest :: "update list \<Rightarrow> capabilities \<Rightarrow> string list \<Rightarrow> string" where
  "encodeRequest us caps pushOptions =
     encodePackets (requestPayloads us caps) @ flushPacket
     @ (if Has caps ''push-options'' then encodePackets pushOptions @ flushPacket else [])"

definition fits :: "string \<Rightarrow> bool" where
  "fits payload = (int (length payload) \<le> 65516)"

lemma encodePackets_Cons: "encodePackets (p # ps) = encodePacket p @ encodePackets ps"
  by (simp add: encodePackets_def)

lemma encodePackets_Nil [simp]: "encodePackets [] = []"
  by (simp add: encodePackets_def)

text \<open>A reader that has read everything up to a point of its input.\<close>

definition readUpTo :: "packet_reader \<Rightarrow> string \<Rightarrow> packet_reader" where
  "readUpTo r s = r\<lparr>input := drop (length s) (input r), raw := raw r @ s\<rparr>"

lemma readUpTo_append: "readUpTo (readUpTo r s) t = readUpTo r (s @ t)"
  by (simp add: readUpTo_def add.commute)

lemma readNext_encodePacket:
  assumes "input (reader p) = encodePacket payload @ rest" and "fits payload"
    and "int (length (raw (reader p))) + int (length (encodePacket payload)) \<le> limit (reader p)"
  shows "readNext p = Inr (payload, False, p\<lparr>reader := readUpTo (reader p) (encodePacket payload)\<rparr>)"
  using readPacket_encodePacket [OF assms(1) _ assms(3)] assms(1,2)
  by (simp add: readNext_def readUpTo_def fits_def)

lemma readNext_flushPacket:
  assumes "input (reader p) = flushPacket @ rest" and "int (length (raw (reader p))) + 4 \<le> limit (reader p)"
  shows "readNext p = Inr ([], True, p\<lparr>reader := readUpTo (reader p) flushPacket\<rparr>)"
  using readPacket_flushPacket [OF assms] assms(1)
  by (simp add: readNext_def readUpTo_def flushPacket_def)


section \<open>Command lines\<close>

lemma fieldsAux_word:
  "\<forall>c \<in> set w. \<not> isSpace (code c) \<Longrightarrow>
     fieldsAux (map (\<lambda>c. (code c, [c])) w @ rs) acc = fieldsAux rs (acc @ w)"
  by (induction w arbitrary: acc) auto

lemma strings_Fields_words:
  assumes "\<forall>w \<in> {a, b, c}. w \<noteq> [] \<and> (\<forall>x \<in> set w. 32 < code x \<and> code x < 127)"
  shows "strings_Fields (a @ '' '' @ b @ '' '' @ c) = [a, b, c]"
proof -
  have ns: "\<not> isSpace (code x)" if "32 < code x" "code x < 127" for x :: char
    using that by (auto simp: isSpace_def)
  have ascii: "isASCII (a @ '' '' @ b @ '' '' @ c)"
    using assms by (force simp: isASCII_def list_all_iff)
  have sp: "isSpace 32" by (simp add: isSpace_def)
  have "\<forall>x \<in> set a. \<not> isSpace (code x)" "\<forall>x \<in> set b. \<not> isSpace (code x)" "\<forall>x \<in> set c. \<not> isSpace (code x)"
    using assms ns by blast+
  then show ?thesis
    unfolding strings_Fields_def runes_ascii [OF ascii]
    using assms fieldsAux_word [of a] fieldsAux_word [of b] fieldsAux_word [of c "[]"] sp
    by simp
qed

lemma validObjectID_printable: "validObjectID w \<Longrightarrow> w \<noteq> [] \<and> (\<forall>x \<in> set w. 32 < code x \<and> code x < 127)"
  by (auto simp: validObjectID_iff validOID_iff list_all_iff isHexDigit_def isDigit_def)

lemma validRef_printable:
  assumes "proto_validRef w" and "isASCII w"
  shows "w \<noteq> [] \<and> (\<forall>x \<in> set w. 32 < code x \<and> code x < 127)"
  using assms proto_ref.not_empty proto_ref.printable [OF assms(1)]
  by (fastforce simp: isASCII_def list_all_iff)

lemma commandLine_fields:
  assumes "wfUpdate opts w u" and "isASCII (Ref u)"
  shows "strings_Fields (commandLine u) = [OldOID u, NewOID u, Ref u]"
proof -
  have "validObjectID (OldOID u)" "validObjectID (NewOID u)" "proto_validRef (Ref u)"
    using assms(1) by (simp_all add: wfUpdate_def)
  then have "\<forall>w \<in> {OldOID u, NewOID u, Ref u}. w \<noteq> [] \<and> (\<forall>x \<in> set w. 32 < code x \<and> code x < 127)"
    using validObjectID_printable [of "OldOID u"] validObjectID_printable [of "NewOID u"]
      validRef_printable [OF _ assms(2)] by (simp add: ball_simps)
  then show ?thesis
    unfolding commandLine_def by (rule strings_Fields_words)
qed

lemma commandLine_bytes:
  assumes "wfUpdate opts w u" and "isASCII (Ref u)" and "x \<in> set (commandLine u)"
  shows "32 \<le> code x"
proof -
  consider "x \<in> set (OldOID u)" | "x \<in> set (NewOID u)" | "x \<in> set (Ref u)" | "x = CHR '' ''"
    using assms(3) by (auto simp: commandLine_def)
  then show ?thesis
    using assms(1,2) validObjectID_printable [of "OldOID u"] validObjectID_printable [of "NewOID u"]
      validRef_printable [of "Ref u"]
    by cases (auto simp: wfUpdate_def dest!: bspec)
qed

lemma addCommand_commandLine:
  assumes u: "wfUpdate (options p) w u" "isASCII (Ref u)"
    and w: "oidWidth p = w"
    and new: "seenRefs p (Ref u) = None" and max: "int (length (updates p)) < MaxCommands (options p)"
  shows "addCommand p (commandLine u) =
    Inr (p\<lparr>seenRefs := (seenRefs p)(Ref u \<mapsto> ()), updates := updates p @ [u]\<rparr>)"
proof -
  have "join CHR '' '' [OldOID u, NewOID u, Ref u] = commandLine u"
    by (simp add: commandLine_def)
  moreover have "oidWidth p \<noteq> 0"
    using u(1) w by (cases "oidWidth p") (auto simp: wfUpdate_def)
  moreover have "\<lparr>OldOID = OldOID u, NewOID = NewOID u, Ref = Ref u\<rparr> = u"
    by simp
  ultimately show ?thesis
    using u w new max commandLine_fields [OF u]
    unfolding addCommand_def by (auto simp: Let_def setOIDWidth_def wfUpdate_def)
qed


section \<open>The loops on a written request\<close>

text \<open>
  The hypothesis every step carries: the input starts with the bytes to be read and they fit the
  budget.
\<close>

definition ready :: "packet_reader \<Rightarrow> string \<Rightarrow> bool" where
  "ready r s = (prefix s (input r) \<and> int (length (raw r)) + int (length s) \<le> limit r)"

lemma ready_readUpTo: "ready r (s @ t) \<Longrightarrow> ready (readUpTo r s) t"
  by (auto simp: ready_def readUpTo_def prefix_def)

lemma ready_appendD: "ready r (s @ t) \<Longrightarrow> ready r s"
  by (auto simp: ready_def prefix_def)

lemma readNext_ready:
  "ready (reader p) (encodePacket payload) \<Longrightarrow> fits payload \<Longrightarrow>
     readNext p = Inr (payload, False, p\<lparr>reader := readUpTo (reader p) (encodePacket payload)\<rparr>)"
  by (auto simp: ready_def prefix_def intro!: readNext_encodePacket)

lemma readNext_ready_flush:
  "ready (reader p) flushPacket \<Longrightarrow>
     readNext p = Inr ([], True, p\<lparr>reader := readUpTo (reader p) flushPacket\<rparr>)"
  by (auto simp: ready_def prefix_def flushPacket_def intro!: readNext_flushPacket [unfolded flushPacket_def])

lemma pushOptionsLoop_encode:
  "ready (reader p) (encodePackets os @ flushPacket) \<Longrightarrow> list_all (\<lambda>x. validPushOption x \<and> fits x) os \<Longrightarrow>
     pushOptionsLoop h False t p =
       Inr (p\<lparr>reader := readUpTo (reader p) (encodePackets os @ flushPacket)\<rparr>)"
proof (induction os arbitrary: p t)
  case Nil
  then show ?case
    by (simp add: pushOptionsLoop.simps [of h False t p] readNext_ready_flush compareOptions_def)
next
  case (Cons x os)
  let ?p1 = "p\<lparr>reader := readUpTo (reader p) (encodePacket x)\<rparr>"
  have r: "ready (reader p) (encodePacket x @ encodePackets os @ flushPacket)"
    using Cons.prems(1) by (simp add: encodePackets_Cons)
  then have "readNext p = Inr (x, False, ?p1)"
    using Cons.prems(2) by (intro readNext_ready) (auto dest: ready_appendD)
  moreover have "pushOptionsLoop h False (t @ [x]) ?p1 =
      Inr (?p1\<lparr>reader := readUpTo (reader ?p1) (encodePackets os @ flushPacket)\<rparr>)"
    using Cons.prems(2) ready_readUpTo [OF r] by (intro Cons.IH) simp_all
  ultimately show ?case
    using Cons.prems(2) by (simp add: pushOptionsLoop.simps [of h False t p] encodePackets_Cons readUpTo_append)
qed

definition trailer :: "capabilities \<Rightarrow> string list \<Rightarrow> string" where
  "trailer caps os = (if Has caps ''push-options'' then encodePackets os @ flushPacket else [])"

lemma parsePushOptions_encode:
  assumes "ready (reader p) (trailer caps os)" and "list_all (\<lambda>x. validPushOption x \<and> fits x) os"
    and "Has caps ''push-options'' \<longrightarrow> Has (AdvertisedCaps (options p)) ''push-options''"
  shows "parsePushOptions p caps [] False = Inr (p\<lparr>reader := readUpTo (reader p) (trailer caps os)\<rparr>)"
  using assms pushOptionsLoop_encode [of p os "[]" "[]"]
  by (auto simp: parsePushOptions_def trailer_def readUpTo_def)

definition sendable :: "receive_options \<Rightarrow> nat \<Rightarrow> update \<Rightarrow> bool" where
  "sendable opts w u = (wfUpdate opts w u \<and> isASCII (Ref u) \<and> fits (commandLine u))"

lemma commandsLoop_encode:
  assumes "ready (reader p) (encodePackets (map commandLine us) @ flushPacket @ trailer caps os)"
    and "list_all (sendable (options p) (oidWidth p)) us" and "distinct (map Ref us)"
    and "\<forall>u \<in> set us. seenRefs p (Ref u) = None"
    and "int (length (updates p)) + int (length us) \<le> MaxCommands (options p)"
    and "list_all (\<lambda>x. validPushOption x \<and> fits x) os"
    and "Has caps ''push-options'' \<longrightarrow> Has (AdvertisedCaps (options p)) ''push-options''"
  shows "\<exists>seen. commandsLoop caps p =
    Inr (p\<lparr>seenRefs := seen, updates := updates p @ us,
      reader := readUpTo (reader p) (encodePackets (map commandLine us) @ flushPacket @ trailer caps os)\<rparr>)"
  using assms
proof (induction us arbitrary: p)
  case Nil
  let ?p1 = "p\<lparr>reader := readUpTo (reader p) flushPacket\<rparr>"
  have r: "ready (reader p) (flushPacket @ trailer caps os)"
    using Nil by simp
  then have "readNext p = Inr ([], True, ?p1)"
    by (intro readNext_ready_flush) (rule ready_appendD)
  moreover have "parsePushOptions ?p1 caps [] False =
      Inr (?p1\<lparr>reader := readUpTo (reader ?p1) (trailer caps os)\<rparr>)"
    using Nil ready_readUpTo [OF r] by (intro parsePushOptions_encode) simp_all
  ultimately show ?case
    by (intro exI [of _ "seenRefs p"]) (simp add: commandsLoop.simps [of caps p] readUpTo_append)
next
  case (Cons u us)
  let ?rest = "encodePackets (map commandLine us) @ flushPacket @ trailer caps os"
  let ?p1 = "p\<lparr>reader := readUpTo (reader p) (encodePacket (commandLine u))\<rparr>"
  let ?p2 = "?p1\<lparr>seenRefs := (seenRefs p)(Ref u \<mapsto> ()), updates := updates p @ [u]\<rparr>"
  have r: "ready (reader p) (encodePacket (commandLine u) @ ?rest)"
    using Cons.prems(1) by (simp add: encodePackets_Cons)
  have u: "wfUpdate (options p) (oidWidth p) u" "isASCII (Ref u)" "fits (commandLine u)"
    using Cons.prems(2) by (simp_all add: sendable_def)
  have "readNext p = Inr (commandLine u, False, ?p1)"
    using r u(3) by (intro readNext_ready) (auto dest: ready_appendD)
  moreover have "addCommand ?p1 (commandLine u) = Inr ?p2"
    using u Cons.prems(4,5) addCommand_commandLine [of ?p1 "oidWidth p" u] by simp
  moreover have "\<forall>v \<in> set us. ((seenRefs p)(Ref u \<mapsto> ())) (Ref v) = None"
  proof
    fix v assume "v \<in> set us"
    then have "Ref v \<in> Ref ` set us" "seenRefs p (Ref v) = None"
      using Cons.prems(4) by auto
    moreover have "Ref u \<notin> Ref ` set us"
      using Cons.prems(3) by simp
    ultimately have "Ref v \<noteq> Ref u" "seenRefs p (Ref v) = None"
      by metis+
    then show "((seenRefs p)(Ref u \<mapsto> ())) (Ref v) = None" by simp
  qed
  then have "\<exists>seen. commandsLoop caps ?p2 =
    Inr (?p2\<lparr>seenRefs := seen, updates := updates ?p2 @ us, reader := readUpTo (reader ?p2) ?rest\<rparr>)"
    using Cons.prems(2,3,5,6,7) ready_readUpTo [OF r] by (intro Cons.IH) simp_all
  ultimately show ?case
    by (simp add: commandsLoop.simps [of caps p] encodePackets_Cons readUpTo_append)
qed


section \<open>Well-formed requests are accepted\<close>

definition firstPayload :: "update \<Rightarrow> capabilities \<Rightarrow> string" where
  "firstPayload u caps = commandLine u @ [NUL] @ showCapabilities caps"

lemma commandLine_head:
  assumes "wfUpdate opts w u"
  shows "\<exists>c cs. commandLine u = c # cs \<and> c \<noteq> CHR ''s'' \<and> c \<noteq> CHR ''p''"
proof -
  have "validOID (OldOID u)"
    using assms by (simp add: wfUpdate_def validObjectID_iff)
  then obtain c cs where "OldOID u = c # cs" "isHexDigit c"
    by (cases "OldOID u") (auto simp: validOID_iff)
  then show ?thesis
    by (auto simp: commandLine_def isHexDigit_def isDigit_def)
qed

lemma parseFirstCommand_firstPayload:
  assumes "wfUpdate opts w u" and "isASCII (Ref u)" and "wfCapabilities caps"
  shows "parseFirstCommand (firstPayload u caps) = Inr (commandLine u, caps)"
proof -
  have "NUL \<notin> set (commandLine u)" "LF \<notin> set (commandLine u)"
    using commandLine_bytes [OF assms(1,2)] by fastforce+
  then show ?thesis
    using ParseCapabilities_showCapabilities [OF assms(3)]
    by (simp add: parseFirstCommand_def firstPayload_def cut_append)
qed

definition sendableRequest :: "receive_options \<Rightarrow> update list \<Rightarrow> capabilities \<Rightarrow> string list \<Rightarrow> bool" where
  "sendableRequest opts us caps os =
     (us \<noteq> [] \<and> (case requestedWidth (AdvertisedCaps opts) caps of
        Inl _ \<Rightarrow> False | Inr w \<Rightarrow> list_all (sendable opts w) us)
      \<and> fits (firstPayload (hd us) caps) \<and> distinct (map Ref us)
      \<and> int (length us) \<le> MaxCommands opts \<and> wfCapabilities caps
      \<and> isOK (ValidateRequestedCapabilities caps (AdvertisedCaps opts))
      \<and> list_all (\<lambda>x. validPushOption x \<and> fits x) os
      \<and> int (length (encodeRequest us caps os)) \<le> MaxBytes opts)"

lemma parse_encodeRequest:
  assumes ok: "sendableRequest opts us caps os"
    and r: "ready r (encodeRequest us caps os)"
  shows "\<exists>p. parse (newReceiveParser r opts) = Inr p \<and> updates p = us \<and> pCapabilities p = caps
    \<and> reader p = readUpTo r (encodeRequest us caps os)"
proof -
  obtain u us' where us: "us = u # us'"
    using ok by (cases us) (auto simp: sendableRequest_def)
  obtain w where w: "requestedWidth (AdvertisedCaps opts) caps = Inr w" and all: "list_all (sendable opts w) us"
    using ok by (auto simp: sendableRequest_def split: sum.splits)
  have vrc: "ValidateRequestedCapabilities caps (AdvertisedCaps opts) = Inr ()"
    and caps: "wfCapabilities caps" and dist: "distinct (map Ref us)"
    and max: "int (length us) \<le> MaxCommands opts" and fit: "fits (firstPayload u caps)"
    and os: "list_all (\<lambda>x. validPushOption x \<and> fits x) os"
    using ok us by (simp_all add: sendableRequest_def isOK_unit)
  have u: "wfUpdate opts w u" "isASCII (Ref u)"
    using all us by (simp_all add: sendable_def)
  let ?rest = "encodePackets (map commandLine us') @ flushPacket @ trailer caps os"
  let ?p = "newReceiveParser r opts"
  let ?p1 = "?p\<lparr>reader := readUpTo r (encodePacket (firstPayload u caps))\<rparr>"
  let ?p2 = "?p1\<lparr>oidWidth := w, pCapabilities := caps\<rparr>"
  let ?p3 = "?p2\<lparr>seenRefs := [Ref u \<mapsto> ()], updates := [u]\<rparr>"
  have enc: "encodeRequest us caps os = encodePacket (firstPayload u caps) @ ?rest"
    by (simp add: us encodeRequest_def requestPayloads_def firstPayload_def encodePackets_Cons trailer_def)
  have rd: "readNext ?p = Inr (firstPayload u caps, False, ?p1)"
    using readNext_ready [of ?p "firstPayload u caps"] r fit unfolding enc
    by (auto simp: newReceiveParser_def dest: ready_appendD)
  have head: "\<not> hasPrefix (firstPayload u caps) ''shallow ''" "\<not> hasPrefix (firstPayload u caps) certificatePrefix"
    using commandLine_head [OF u(1)]
    by (auto simp: firstPayload_def hasPrefix_def certificatePrefix_def prefix_def)
  have neg: "negotiateObjectIDWidth ?p1 caps = Inr (?p1\<lparr>oidWidth := w\<rparr>)"
    using w by (simp add: negotiateObjectIDWidth_def newReceiveParser_def)
  have add: "addCommand ?p2 (commandLine u) = Inr ?p3"
    using addCommand_commandLine [of ?p2 w u] u max us by (simp add: newReceiveParser_def)
  have "\<forall>v \<in> set us'. Ref v \<noteq> Ref u"
    using dist us by (metis distinct.simps(2) image_eqI list.set_map list.simps(9))
  moreover have "ready (readUpTo r (encodePacket (firstPayload u caps))) ?rest"
    using r unfolding enc by (rule ready_readUpTo)
  ultimately have "\<exists>seen. commandsLoop caps ?p3 = Inr (?p3\<lparr>seenRefs := seen, updates := updates ?p3 @ us',
      reader := readUpTo (reader ?p3) ?rest\<rparr>)"
    using all dist max os us ValidateRequestedCapabilities_Has [OF vrc, of "''push-options''"]
    by (intro commandsLoop_encode) (simp_all add: newReceiveParser_def)
  moreover have "parse ?p = parseRequest ?p1 (firstPayload u caps)"
    using rd head(1) by (simp add: parse.simps [of ?p])
  moreover have "parseRequest ?p1 (firstPayload u caps) = commandsLoop caps ?p3"
    using head(2) neg add vrc parseFirstCommand_firstPayload [OF u caps]
    by (simp add: parseRequest_def newReceiveParser_def)
  ultimately show ?thesis
    unfolding enc by (auto simp: us readUpTo_append newReceiveParser_def)
qed

lemma ParseReceivePack_encoded:
  assumes "sendableRequest opts us caps os"
  shows "ParseReceivePack (encodeRequest us caps os @ pack) flt opts =
    (case ValidatePush (optPolicy opts) us of
       Inl _ \<Rightarrow> Inl (newRejectedUpdatesError us)
     | Inr _ \<Rightarrow> Inr (\<lparr>Prefix = encodeRequest us caps os, Updates = us, resCapabilities = caps\<rparr>,
         \<lparr>input = pack, fault = flt, limit = MaxBytes opts, raw = encodeRequest us caps os\<rparr>))"
proof -
  let ?req = "encodeRequest us caps os"
  let ?r = "\<lparr>input = ?req @ pack, fault = flt, limit = MaxBytes opts, raw = []\<rparr>"
  have len: "4 \<le> length ?req" "int (length ?req) \<le> MaxBytes opts" "1 \<le> MaxCommands opts"
    using assms(1) by (cases us; auto simp: sendableRequest_def encodeRequest_def flushPacket_def)+
  obtain p where p: "parse (newReceiveParser ?r opts) = Inr p" "updates p = us" "pCapabilities p = caps"
    "reader p = readUpTo ?r ?req"
    using parse_encodeRequest [OF assms(1), of ?r] len by (auto simp: ready_def)
  have "newPacketReader (?req @ pack) flt (MaxBytes opts) = Inr ?r"
    using len by (simp add: newPacketReader_def)
  with p len show ?thesis
    by (simp add: ParseReceivePack_def readUpTo_def split: sum.splits)
qed

text \<open>
  C11. Every well-formed push is let through unchanged: for updates within the limits, with distinct
  refs, object IDs of the negotiated width and capabilities the server advertised, that the push
  policy accepts, \<^verbatim>\<open>ParseReceivePack\<close> on the bytes of the request followed by any pack returns
  exactly those bytes, those updates and those capabilities, and leaves exactly the pack unread.
\<close>

theorem ParseReceivePack_complete:
  assumes "sendableRequest opts us caps os" and "ValidatePush (optPolicy opts) us = Inr ()"
  shows "ParseReceivePack (encodeRequest us caps os @ pack) flt opts =
    Inr (\<lparr>Prefix = encodeRequest us caps os, Updates = us, resCapabilities = caps\<rparr>,
         \<lparr>input = pack, fault = flt, limit = MaxBytes opts, raw = encodeRequest us caps os\<rparr>)"
  using ParseReceivePack_encoded [OF assms(1), of pack flt] assms(2) by simp


definition exampleOptions :: receive_options where
  "exampleOptions =
     \<lparr>MaxBytes = 1000, MaxCommands = 4,
      optPolicy = \<lparr>DenyRefs = [''refs/heads/main''], DenyDeletes = True, MaxRefUpdates = 2\<rparr>,
      AdvertisedCaps = [(''delete-refs'', []), (''report-status'', []), (''push-options'', [])]\<rparr>"

definition exampleUpdates :: "string \<Rightarrow> update list" where
  "exampleUpdates ref =
     [\<lparr>OldOID = exampleOID, NewOID = rev exampleOID, Ref = ''refs/heads/topic''\<rparr>,
      \<lparr>OldOID = replicate 40 CHR ''0'', NewOID = exampleOID, Ref = ref\<rparr>]"

definition exampleCaps :: capabilities where
  "exampleCaps = [(''report-status'', []), (''push-options'', [])]"

lemma example_sendable: "sendableRequest exampleOptions (exampleUpdates ''refs/tags/v1'') exampleCaps [''ci.skip'']"
  by code_simp

lemma example_allowed: "ValidatePush (optPolicy exampleOptions) (exampleUpdates ''refs/tags/v1'') = Inr ()"
  by code_simp

theorem ParseReceivePack_complete_witness:
  "sendableRequest exampleOptions (exampleUpdates ''refs/tags/v1'') exampleCaps [''ci.skip'']
   \<and> isOK (ParseReceivePack (encodeRequest (exampleUpdates ''refs/tags/v1'') exampleCaps [''ci.skip''] @ ''PACK'')
       (Sentinel IoEOF) exampleOptions)"
  using example_sendable
    ParseReceivePack_complete [OF example_sendable example_allowed, of "''PACK''" "Sentinel IoEOF"]
  by simp


lemma example_accepted:
  "\<exists>result r. ParseReceivePack
     (encodeRequest (exampleUpdates ''refs/tags/v1'') exampleCaps [''ci.skip''] @ ''PACK'') (Sentinel IoEOF) exampleOptions =
     Inr (result, r) \<and> Updates result = exampleUpdates ''refs/tags/v1'' \<and> resCapabilities result = exampleCaps"
proof -
  let ?m = "ParseReceivePack (encodeRequest (exampleUpdates ''refs/tags/v1'') exampleCaps [''ci.skip''] @ ''PACK'')
     (Sentinel IoEOF) exampleOptions"
  have "case ?m of Inl _ \<Rightarrow> False
    | Inr (result, r) \<Rightarrow> Updates result = exampleUpdates ''refs/tags/v1'' \<and> resCapabilities result = exampleCaps"
    by code_simp
  then show ?thesis
    by (cases ?m) auto
qed

text \<open>
  C10. What RepoWolf forwards of a push is exactly what it checked: the forwarded prefix is the part
  of the client's stream that was consumed, within \<^verbatim>\<open>MaxBytes\<close>, and the pack after it is untouched;
  there is at least one update and at most \<^verbatim>\<open>MaxCommands\<close>, no ref is updated twice, all object IDs
  have one width, every deletion was announced as possible by the server, and the push policy
  accepts the updates.
\<close>

theorem ParseReceivePack_sound:
  assumes "ParseReceivePack inp flt opts = Inr (result, r)"
  shows "inp = Prefix result @ input r \<and> int (length (Prefix result)) \<le> MaxBytes opts
    \<and> Updates result \<noteq> [] \<and> int (length (Updates result)) \<le> MaxCommands opts
    \<and> distinct (map Ref (Updates result))
    \<and> (\<exists>width. list_all (wfUpdate opts width) (Updates result))
    \<and> ValidatePush (optPolicy opts) (Updates result) = Inr ()"
proof -
  obtain r0 p where r0: "newPacketReader inp flt (MaxBytes opts) = Inr r0"
    and acc: "accepted (newReceiveParser r0 opts) p"
    and v: "ValidatePush (optPolicy opts) (updates p) = Inr ()" and r: "r = reader p"
    and res: "result = \<lparr>Prefix = raw r, Updates = updates p, resCapabilities = pCapabilities p\<rparr>"
    using ParseReceivePack_accepted [OF assms] by blast
  have init: "raw r0 = []" "input r0 = inp" "limit r0 = MaxBytes opts" "4 \<le> MaxBytes opts"
    using r0 by (auto simp: newPacketReader_def split: if_splits)
  have rd: "reads r0 r" and wf: "wfParser p" "options p = opts" "updates p \<noteq> []"
    using acc r by (simp_all add: accepted_def newReceiveParser_def)
  have "raw r @ input r = inp" "limit r = MaxBytes opts"
    using reads_facts(1,2) [OF rd] init by simp_all
  moreover have "int (length (raw r)) \<le> MaxBytes opts"
    using reads_facts(3) [OF rd] init calculation by simp
  ultimately show ?thesis
    using wf v res by (auto simp: wfParser_def)
qed

theorem ParseReceivePack_sound_witness:
  "\<exists>result r. ParseReceivePack
     (encodeRequest (exampleUpdates ''refs/tags/v1'') exampleCaps [''ci.skip''] @ ''PACK'') (Sentinel IoEOF) exampleOptions =
     Inr (result, r) \<and> distinct (map Ref (Updates result)) \<and> int (length (Prefix result)) \<le> 1000"
proof -
  obtain result r where *: "ParseReceivePack
     (encodeRequest (exampleUpdates ''refs/tags/v1'') exampleCaps [''ci.skip''] @ ''PACK'') (Sentinel IoEOF) exampleOptions =
     Inr (result, r)"
    using example_accepted by blast
  with ParseReceivePack_sound [OF *] show ?thesis
    by (auto simp: exampleOptions_def)
qed

text \<open>
  A push gets no capability the server did not offer: the capabilities of an accepted push have
  distinct, printable names and passed \<^verbatim>\<open>ValidateRequestedCapabilities\<close> against the advertisement.
\<close>

theorem ParseReceivePack_capabilities:
  assumes "ParseReceivePack inp flt opts = Inr (result, r)"
  shows "wfCapabilities (resCapabilities result)
    \<and> ValidateRequestedCapabilities (resCapabilities result) (AdvertisedCaps opts) = Inr ()"
proof -
  obtain r0 p where "accepted (newReceiveParser r0 opts) p" "resCapabilities result = pCapabilities p"
    using ParseReceivePack_accepted [OF assms] by auto
  then show ?thesis
    by (simp add: accepted_def newReceiveParser_def)
qed

theorem ParseReceivePack_capabilities_witness:
  "wfCapabilities exampleCaps \<and> ValidateRequestedCapabilities exampleCaps (AdvertisedCaps exampleOptions) = Inr ()"
proof -
  obtain result r where "ParseReceivePack
     (encodeRequest (exampleUpdates ''refs/tags/v1'') exampleCaps [''ci.skip''] @ ''PACK'') (Sentinel IoEOF) exampleOptions =
     Inr (result, r)" "resCapabilities result = exampleCaps"
    using example_accepted by blast
  with ParseReceivePack_capabilities show ?thesis
    by metis
qed

end
