(* ===== verification/Receive_Denied.thy ===== *)
theory Receive_Denied
  imports Receive_Requests
begin

text \<open>
  The failures of the receive-pack parser: only a push the policy denies carries the policy error
  and the parsed updates, which are those of the stream whatever the policy. And the certificate of a signed push: its headers, its nonce and its
  push options.
\<close>

section \<open>Which errors are policy denials\<close>

lemma rejected_is_policy:
  "errors_AsRejected e = Some us \<Longrightarrow> errors_Is e ErrRefPolicy"
  "firstRejected es = Some us \<Longrightarrow> list_ex (\<lambda>e. errors_Is e ErrRefPolicy) es"
  by (induction e and es arbitrary: us and us rule: errors_AsRejected_firstRejected.induct)
    (auto split: option.splits)

text \<open>
  A class of errors that the errors of the wire format belong to: messages of their own, what wraps a
  member, and the short read. What the parsers report on a stream is in the class if the error that
  ends the stream is.
\<close>

definition quiet :: "(go_error \<Rightarrow> bool) \<Rightarrow> receive_parser \<Rightarrow> bool" where
  "quiet ok p = ok (fault (reader p))"

lemma quiet_cong: "reader p' = reader p \<Longrightarrow> quiet ok p' = quiet ok p"
  by (simp add: quiet_def)

locale error_class =
  fixes foreign :: "go_error \<Rightarrow> bool"
  assumes own_message [simp]: "foreign (Errorf f as)"
    and wrapped [simp]: "foreign (Wrapf f as e) = foreign e"
    and short_read [simp]: "foreign (Sentinel IoUnexpectedEOF)"
begin

lemma errorf_foreign [simp]: "errorf msg = Inl e \<Longrightarrow> foreign e"
  by (auto simp: errorf_def)

lemma parsePacketLength_foreign: "parsePacketLength h = Inl e \<Longrightarrow> foreign e"
  by (auto simp: parsePacketLength_def split: if_splits option.splits)

lemma readExact_foreign: "readExact n r = Inl e \<Longrightarrow> foreign (fault r) \<Longrightarrow> foreign e"
  by (auto simp: readExact_def readFull_def result_simps fail_def split: if_splits)

lemma readPacket_foreign:
  assumes "readPacket r = Inl e" and "foreign (fault r)"
  shows "foreign e"
proof (cases "readExact 4 r")
  case (Inl e')
  with assms readExact_foreign [OF Inl] show ?thesis
    by (auto simp: readPacket_def)
next
  case (Inr hr)
  obtain h r1 where hr: "hr = (h, r1)" by force
  with Inr have f: "foreign (fault r1)"
    using assms(2) by (auto simp: readExact_Inr)
  show ?thesis
  proof (cases "parsePacketLength h")
    case (Inl e')
    with assms Inr hr parsePacketLength_foreign [OF Inl] show ?thesis
      by (auto simp: readPacket_def)
  next
    case len: (Inr len)
    show ?thesis
    proof (cases "readExact (nat (len - 4)) r1")
      case (Inl e')
      with assms Inr hr len readExact_foreign [OF Inl f] show ?thesis
        by (auto simp: readPacket_def split: if_splits)
    next
      case r2: (Inr _)
      with assms Inr hr len show ?thesis
        by (auto simp: readPacket_def split: if_splits prod.splits)
    qed
  qed
qed

lemma readNext_foreign: "readNext p = Inl e \<Longrightarrow> quiet foreign p \<Longrightarrow> foreign e"
  by (auto simp: readNext_def result_simps quiet_def dest: readPacket_foreign)

lemma readNext_quiet: "readNext p = Inr (payload, flush, p') \<Longrightarrow> quiet foreign p \<Longrightarrow> quiet foreign p'"
  using readPacket_Inr by (fastforce simp: readNext_Inr quiet_def)

lemma follows_quiet: "follows p p' \<Longrightarrow> quiet foreign p \<Longrightarrow> quiet foreign p'"
proof -
  have "reads r r' \<Longrightarrow> fault r' = fault r" for r r'
    unfolding reads_def by (induction rule: rtranclp_induct) (use readPacket_Inr in fastforce)+
  then show "follows p p' \<Longrightarrow> quiet foreign p \<Longrightarrow> quiet foreign p'"
    unfolding follows_def quiet_def by metis
qed

lemma addCommand_foreign: "addCommand p line = Inl e \<Longrightarrow> foreign e"
  by (auto simp: addCommand_def Let_def split: if_splits prod.splits)

lemma addShallow_foreign: "addShallow p line = Inl e \<Longrightarrow> foreign e"
  by (auto simp: addShallow_def Let_def split: if_splits)

lemma addToken_foreign: "foldE addToken caps tokens = Inl e \<Longrightarrow> foreign e"
  by (induction tokens arbitrary: caps)
    (auto simp: result_simps addToken_def split: if_splits prod.splits)

lemma ParseCapabilities_foreign: "ParseCapabilities s = Inl e \<Longrightarrow> foreign e"
  by (auto simp: ParseCapabilities_def dest: addToken_foreign split: if_splits)

lemma if_foreign:
  "(if b then x else y) = Inl e \<Longrightarrow> (x = Inl e \<Longrightarrow> foreign e) \<Longrightarrow> (y = Inl e \<Longrightarrow> foreign e) \<Longrightarrow> foreign e"
  by (simp split: if_splits)

lemma ValidateRequestedCapabilities_foreign: "ValidateRequestedCapabilities c a = Inl e \<Longrightarrow> foreign e"
proof -
  have "checkRequested a np = Inl e \<Longrightarrow> foreign e" for np e
    by (cases np; simp only: checkRequested_def Let_def prod.case) (elim if_foreign; force)
  then have "checkAll (checkRequested a) xs = Inl e \<Longrightarrow> foreign e" for xs
    by (induction xs) (auto simp: result_simps)
  then show "ValidateRequestedCapabilities c a = Inl e \<Longrightarrow> foreign e"
    by (simp add: ValidateRequestedCapabilities_def)
qed

lemma negotiateObjectIDWidth_foreign: "negotiateObjectIDWidth p c = Inl e \<Longrightarrow> foreign e"
  by (auto simp: negotiateObjectIDWidth_def requestedWidth_def result_simps Let_def split: if_splits)

lemma parseCertificateHeader_foreign: "parseCertificateHeader s = Inl e \<Longrightarrow> foreign e"
  by (auto simp: parseCertificateHeader_def split: if_splits prod.splits)

lemma bodyLine_foreign: "bodyLine b p line = Inl e \<Longrightarrow> foreign e"
  by (auto simp: bodyLine_def result_simps dest: addCommand_foreign split: if_splits option.splits)

lemma compareOptions_foreign: "compareOptions s h t = Inl e \<Longrightarrow> foreign e"
  by (auto simp: compareOptions_def split: if_splits option.splits)

lemmas foreign_intros =
  readNext_foreign addCommand_foreign addShallow_foreign ParseCapabilities_foreign
  ValidateRequestedCapabilities_foreign negotiateObjectIDWidth_foreign parseCertificateHeader_foreign
  bodyLine_foreign compareOptions_foreign

lemma pushOptionsLoop_foreign: "pushOptionsLoop h s t p = Inl e \<Longrightarrow> quiet foreign p \<Longrightarrow> foreign e"
proof (induction h s t p rule: pushOptionsLoop.induct)
  case (1 h s t p)
  show ?case
  proof (cases "readNext p")
    case (Inl e')
    with "1.prems" readNext_foreign show ?thesis
      by (auto simp: pushOptionsLoop.simps [of h s t p])
  next
    case (Inr x)
    obtain payload flush p1 where r: "readNext p = Inr (payload, flush, p1)"
      using Inr by (cases x) auto
    show ?thesis
      using "1.prems" "1.IH" [OF r refl refl] readNext_quiet [OF r] r
      by (auto simp: pushOptionsLoop.simps [of h s t p] result_simps split: if_splits
          dest: compareOptions_foreign)
  qed
qed

lemma parsePushOptions_foreign: "parsePushOptions p c h s = Inl e \<Longrightarrow> quiet foreign p \<Longrightarrow> foreign e"
  by (auto simp: parsePushOptions_def dest: pushOptionsLoop_foreign split: if_splits)

lemma commandsLoop_foreign: "commandsLoop c p = Inl e \<Longrightarrow> quiet foreign p \<Longrightarrow> foreign e"
proof (induction c p rule: commandsLoop.induct)
  case (1 c p)
  show ?case
  proof (cases "readNext p")
    case (Inl e')
    with "1.prems" readNext_foreign show ?thesis
      by (auto simp: commandsLoop.simps [of c p])
  next
    case (Inr x)
    obtain payload flush p1 where r: "readNext p = Inr (payload, flush, p1)"
      using Inr by (cases x) auto
    show ?thesis
      using "1.prems" "1.IH" [OF r refl refl] readNext_quiet [OF r] r
      by (auto simp: commandsLoop.simps [of c p] quiet_cong [OF addCommand_reader]
          split: if_splits sum.splits dest: addCommand_foreign parsePushOptions_foreign)
  qed
qed

lemma certificateHeadersLoop_foreign:
  "certificateHeadersLoop req n h p = Inl e \<Longrightarrow> quiet foreign p \<Longrightarrow> foreign e"
proof (induction req n h p rule: certificateHeadersLoop.induct)
  case (1 req n h p)
  show ?case
  proof (cases "readNext p")
    case (Inl e')
    with "1.prems" readNext_foreign show ?thesis
      by (auto simp: certificateHeadersLoop.simps [of req n h p])
  next
    case (Inr x)
    obtain payload flush p1 where r: "readNext p = Inr (payload, flush, p1)"
      using Inr by (cases x) auto
    show ?thesis
    proof (cases "flush \<or> payload = [LF]")
      case True
      with "1.prems" r show ?thesis
        by (auto simp: certificateHeadersLoop.simps [of req n h p] split: if_splits)
    next
      case False
      show ?thesis
        using "1.prems" "1.IH" [OF r refl refl] readNext_quiet [OF r] r False
        by (cases "parseCertificateHeader payload")
          (auto simp: certificateHeadersLoop.simps [of req n h p] split: if_splits
            dest: parseCertificateHeader_foreign)
    qed
  qed
qed

lemma certificateBodyLoop_foreign: "certificateBodyLoop b p = Inl e \<Longrightarrow> quiet foreign p \<Longrightarrow> foreign e"
proof (induction b p rule: certificateBodyLoop.induct)
  case (1 b p)
  show ?case
  proof (cases "readNext p")
    case (Inl e')
    with "1.prems" readNext_foreign show ?thesis
      by (auto simp: certificateBodyLoop.simps [of b p])
  next
    case (Inr x)
    obtain payload flush p1 where r: "readNext p = Inr (payload, flush, p1)"
      using Inr by (cases x) auto
    show ?thesis
      using "1.prems" "1.IH" [OF r refl refl] readNext_quiet [OF r] r
      by (auto simp: certificateBodyLoop.simps [of b p] Let_def quiet_cong [OF bodyLine_reader]
          split: if_splits sum.splits dest: bodyLine_foreign)
  qed
qed


text \<open>One step of a chain of steps: it either fails or leads to the next state.\<close>

lemma bindE_foreign:
  "bindE m f = Inl e \<Longrightarrow> (m = Inl e \<Longrightarrow> foreign e) \<Longrightarrow> (\<And>x. m = Inr x \<Longrightarrow> f x = Inl e \<Longrightarrow> foreign e) \<Longrightarrow>
     foreign e"
  by (auto simp: result_simps)

lemma negotiate_quiet: "negotiateObjectIDWidth p c = Inr p1 \<Longrightarrow> quiet foreign p \<Longrightarrow> quiet foreign (p1\<lparr>pCapabilities := c'\<rparr>)"
  by (auto simp: negotiateObjectIDWidth_def quiet_def result_simps split: if_splits)

lemma parseCertificate_foreign:
  assumes "parseCertificate p first = Inl e" and q: "quiet foreign p"
  shows "foreign e"
proof (cases "ParseCapabilities (drop (length certificatePrefix) first)")
  case (Inl e')
  with assms show ?thesis by (auto simp: parseCertificate_def)
next
  case (Inr caps)
  have expectP: "expectPacket p' w = Inl e \<Longrightarrow> quiet foreign p' \<Longrightarrow> foreign e" for p' w e
    by (auto simp: expectPacket_def result_simps dest: readNext_foreign split: if_splits)
  have expectF: "expectFlush p' w = Inl e \<Longrightarrow> quiet foreign p' \<Longrightarrow> foreign e" for p' w e
    by (auto simp: expectFlush_def result_simps dest: readNext_foreign split: if_splits)
  have qP: "expectPacket p' w = Inr p'' \<Longrightarrow> quiet foreign p' \<Longrightarrow> quiet foreign p''" for p' w p''
    by (auto simp: expectPacket_def result_simps dest: readNext_quiet split: if_splits)
  have qF: "expectFlush p' w = Inr p'' \<Longrightarrow> quiet foreign p' \<Longrightarrow> quiet foreign p''" for p' w p''
    by (auto simp: expectFlush_def result_simps dest: readNext_quiet split: if_splits)
  have qH: "parseCertificateHeaders p' c = Inr (h, p'') \<Longrightarrow> quiet foreign p' \<Longrightarrow> quiet foreign p''" for p' c h p''
    using certificateHeadersLoop_follows follows_quiet by (fastforce simp: parseCertificateHeaders_def)
  have qB: "parseCertificateBody p' = Inr p'' \<Longrightarrow> quiet foreign p' \<Longrightarrow> quiet foreign p''" for p' p''
    using certificateBodyLoop_follows follows_quiet by (fastforce simp: parseCertificateBody_def bodyStart_def)
  have v: "validatePushCertificate a = Inl e \<Longrightarrow> foreign e" for a e
    by (auto simp: validatePushCertificate_def split: if_splits)
  show ?thesis
    using assms Inr unfolding parseCertificate_def
    by (auto simp: Let_def result_simps parseCertificateHeaders_def parseCertificateBody_def
        dest!: ValidateRequestedCapabilities_foreign negotiateObjectIDWidth_foreign v
          expectP expectF certificateHeadersLoop_foreign certificateBodyLoop_foreign parsePushOptions_foreign
        dest: negotiate_quiet qP qF qH [unfolded parseCertificateHeaders_def]
          qB [unfolded parseCertificateBody_def])
      (metis negotiate_quiet qP qF qH [unfolded parseCertificateHeaders_def]
        qB [unfolded parseCertificateBody_def])
qed

lemma parseRequest_foreign:
  assumes "parseRequest p first = Inl e" and "quiet foreign p"
  shows "foreign e"
proof (cases "hasPrefix first certificatePrefix")
  case True
  with assms parseCertificate_foreign show ?thesis by (auto simp: parseRequest_def)
next
  case False
  have first: "parseFirstCommand s = Inl e \<Longrightarrow> foreign e" for s e
    by (auto simp: parseFirstCommand_def result_simps dest: ParseCapabilities_foreign
        split: if_splits prod.splits)
  from assms False show ?thesis
    by (auto simp: parseRequest_def Let_def result_simps quiet_cong [OF addCommand_reader]
        dest!: first ValidateRequestedCapabilities_foreign negotiateObjectIDWidth_foreign
          addCommand_foreign commandsLoop_foreign
        dest: negotiate_quiet)
qed

lemma parse_foreign: "parse p = Inl e \<Longrightarrow> quiet foreign p \<Longrightarrow> foreign e"
proof (induction p rule: parse.induct)
  case (1 p)
  show ?case
  proof (cases "readNext p")
    case (Inl e')
    with "1.prems" readNext_foreign show ?thesis
      by (auto simp: parse.simps [of p])
  next
    case (Inr x)
    obtain payload flush p1 where r: "readNext p = Inr (payload, flush, p1)"
      using Inr by (cases x) auto
    show ?thesis
      using "1.prems" "1.IH" [OF r refl refl] readNext_quiet [OF r] r
      by (auto simp: parse.simps [of p] quiet_cong [OF addShallow_reader]
          split: if_splits sum.splits dest: addShallow_foreign parseRequest_foreign)
  qed
qed

text \<open>A failed request is in the class, or it was parsed and carries all its updates.\<close>

lemma ParseReceivePack_Inl:
  assumes "ParseReceivePack inp flt opts = Inl e" and flt: "foreign flt"
  shows "foreign e \<or>
    (\<exists>r p. 1 \<le> MaxCommands opts \<and> newPacketReader inp flt (MaxBytes opts) = Inr r
       \<and> parse (newReceiveParser r opts) = Inr p \<and> ValidatePush (optPolicy opts) (updates p) \<noteq> Inr ()
       \<and> e = RejectedUpdates (updates p))"
proof (cases "MaxCommands opts < 1 \<or> MaxBytes opts < 4")
  case True
  with assms(1) show ?thesis
    by (cases "MaxCommands opts < 1") (auto simp: ParseReceivePack_def newPacketReader_def)
next
  case False
  then obtain r where r: "newPacketReader inp flt (MaxBytes opts) = Inr r" "fault r = flt"
    by (auto simp: newPacketReader_def)
  show ?thesis
  proof (cases "parse (newReceiveParser r opts)")
    case (Inl e')
    with False r assms(1) have "e' = e" by (simp add: ParseReceivePack_def)
    with Inl parse_foreign [OF Inl] r flt show ?thesis
      by (simp add: quiet_def newReceiveParser_def)
  next
    case (Inr p)
    with False r assms(1) have "ValidatePush (optPolicy opts) (updates p) \<noteq> Inr ()"
      "e = RejectedUpdates (updates p)"
      by (auto simp: ParseReceivePack_def newRejectedUpdatesError_def split: sum.splits)
    with False r(1) Inr show ?thesis by auto
  qed
qed

lemma advertisementLoop_foreign: "advertisementLoop w seen r = Inl e \<Longrightarrow> foreign (fault r) \<Longrightarrow> foreign e"
proof (induction w seen r rule: advertisementLoop.induct)
  case (1 w seen r)
  show ?case
  proof (cases "readPacket r")
    case (Inl e')
    with "1.prems" readPacket_foreign show ?thesis
      by (auto simp: advertisementLoop.simps [of w seen r])
  next
    case (Inr x)
    obtain payload flush r1 where r: "readPacket r = Inr (payload, flush, r1)"
      using Inr by (cases x) auto
    have "fault r1 = fault r"
      using readPacket_Inr [OF r] by auto
    moreover have "addAdvertisedShallow w seen payload = Inl e' \<Longrightarrow> foreign e'" for e'
      by (auto simp: addAdvertisedShallow_def Let_def split: if_splits)
    ultimately show ?thesis
      using "1.prems" "1.IH" [OF r refl refl] r
      by (auto simp: advertisementLoop.simps [of w seen r] split: if_splits sum.splits)
  qed
qed

lemma parseFirstReference_foreign: "parseFirstReference first = Inl e \<Longrightarrow> foreign e"
  by (auto simp: parseFirstReference_def advertisedObjectIDWidth_def result_simps Let_def
      dest: ParseCapabilities_foreign split: prod.splits if_splits)

lemma ParseAdvertisement_foreign:
  assumes "ParseAdvertisement inp flt m = Inl e" and "foreign flt"
  shows "foreign e"
proof (cases "newPacketReader inp flt m")
  case (Inl e')
  with assms show ?thesis
    by (auto simp: ParseAdvertisement_def newPacketReader_def split: if_splits)
next
  case (Inr r)
  then have f: "fault r = flt" by (auto simp: newPacketReader_def split: if_splits)
  show ?thesis
  proof (cases "readPacket r")
    case (Inl e')
    with assms Inr f readPacket_foreign [OF Inl] show ?thesis by (simp add: ParseAdvertisement_def)
  next
    case rd: (Inr x)
    obtain first flush r1 where x: "x = (first, flush, r1)" by (cases x)
    then have "fault r1 = flt" using f readPacket_Inr [OF rd [unfolded x]] by auto
    with assms Inr rd x show ?thesis
      by (auto simp: ParseAdvertisement_def result_simps split: if_splits
          dest: parseFirstReference_foreign advertisementLoop_foreign)
  qed
qed

end

interpretation denial: error_class "\<lambda>e. \<not> errors_Is e ErrRefPolicy"
  by unfold_locales simp_all


section \<open>The parser does not look at the policy\<close>

definition withPolicy :: "push_policy \<Rightarrow> receive_parser \<Rightarrow> receive_parser" where
  "withPolicy pol p = p\<lparr>options := (options p)\<lparr>optPolicy := pol\<rparr>\<rparr>"

lemma withPolicy_simps [simp]:
  "reader (withPolicy pol p) = reader p" "updates (withPolicy pol p) = updates p"
  "pCapabilities (withPolicy pol p) = pCapabilities p"
  "MaxCommands (options (withPolicy pol p)) = MaxCommands (options p)"
  "AdvertisedCaps (options (withPolicy pol p)) = AdvertisedCaps (options p)"
  "withPolicy pol p\<lparr>reader := r\<rparr> = withPolicy pol (p\<lparr>reader := r\<rparr>)"
  "withPolicy pol p\<lparr>pCapabilities := c\<rparr> = withPolicy pol (p\<lparr>pCapabilities := c\<rparr>)"
  "withPolicy pol p\<lparr>oidWidth := w\<rparr> = withPolicy pol (p\<lparr>oidWidth := w\<rparr>)"
  "shallowIDs (withPolicy pol p) = shallowIDs p"
  by (simp_all add: withPolicy_def)

lemma readNext_withPolicy:
  "readNext p = Inr (payload, flush, p') \<Longrightarrow> readNext (withPolicy pol p) = Inr (payload, flush, withPolicy pol p')"
  by (auto simp: readNext_Inr)

lemma addShallow_withPolicy:
  "addShallow p line = Inr p' \<Longrightarrow> addShallow (withPolicy pol p) line = Inr (withPolicy pol p')"
  by (auto simp: addShallow_def Let_def withPolicy_def split: if_splits)

lemma negotiate_withPolicy:
  "negotiateObjectIDWidth p c = Inr p' \<Longrightarrow> negotiateObjectIDWidth (withPolicy pol p) c = Inr (withPolicy pol p')"
  by (auto simp: negotiateObjectIDWidth_def result_simps split: if_splits)

lemma setOIDWidth_withPolicy:
  "setOIDWidth (withPolicy pol p) i = (fst (setOIDWidth p i), withPolicy pol (snd (setOIDWidth p i)))"
  by (simp add: setOIDWidth_def withPolicy_def)

lemma addCommand_withPolicy:
  "addCommand p line = Inr p' \<Longrightarrow> addCommand (withPolicy pol p) line = Inr (withPolicy pol p')"
  by (auto simp: addCommand_def Let_def setOIDWidth_def withPolicy_def split: if_splits)

lemma pushOptionsLoop_withPolicy:
  "pushOptionsLoop h s ts p = Inr p' \<Longrightarrow> pushOptionsLoop h s ts (withPolicy pol p) = Inr (withPolicy pol p')"
proof (induction h s ts p rule: pushOptionsLoop.induct)
  case (1 h s ts p)
  then obtain payload flush p1 where r: "readNext p = Inr (payload, flush, p1)"
    by (cases "readNext p") (auto simp: pushOptionsLoop.simps [of h s ts p])
  show ?case
    using "1.prems" "1.IH" [OF r refl refl] readNext_withPolicy [OF r, of pol] r
    by (auto simp: pushOptionsLoop.simps [of h s ts p] pushOptionsLoop.simps [of h s ts "withPolicy pol p"]
        result_simps split: if_splits)
qed

lemma parsePushOptions_withPolicy:
  "parsePushOptions p c h s = Inr p' \<Longrightarrow> parsePushOptions (withPolicy pol p) c h s = Inr (withPolicy pol p')"
  by (auto simp: parsePushOptions_def intro: pushOptionsLoop_withPolicy split: if_splits)

lemma commandsLoop_withPolicy:
  "commandsLoop c p = Inr p' \<Longrightarrow> commandsLoop c (withPolicy pol p) = Inr (withPolicy pol p')"
proof (induction c p rule: commandsLoop.induct)
  case (1 c p)
  then obtain payload flush p1 where r: "readNext p = Inr (payload, flush, p1)"
    by (cases "readNext p") (auto simp: commandsLoop.simps [of c p])
  show ?case
    using "1.prems" "1.IH" [OF r refl refl] readNext_withPolicy [OF r, of pol] r
    by (cases "addCommand p1 payload")
      (auto simp: commandsLoop.simps [of c p] commandsLoop.simps [of c "withPolicy pol p"]
        addCommand_withPolicy parsePushOptions_withPolicy split: if_splits)
qed

lemma certificateHeadersLoop_withPolicy:
  "certificateHeadersLoop req n h p = Inr (h', p') \<Longrightarrow>
     certificateHeadersLoop req n h (withPolicy pol p) = Inr (h', withPolicy pol p')"
proof (induction req n h p rule: certificateHeadersLoop.induct)
  case (1 req n h p)
  then obtain payload flush p1 where r: "readNext p = Inr (payload, flush, p1)"
    by (cases "readNext p") (auto simp: certificateHeadersLoop.simps [of req n h p])
  show ?case
  proof (cases "payload = [LF]")
    case True
    with "1.prems" r readNext_withPolicy [OF r, of pol] show ?thesis
      by (auto simp: certificateHeadersLoop.simps [of req n h p]
          certificateHeadersLoop.simps [of req n h "withPolicy pol p"] split: if_splits)
  next
    case False
    with "1.prems" r obtain field val where c: "parseCertificateHeader payload = Inr (field, val)" and f: "\<not> flush"
      by (cases "parseCertificateHeader payload")
        (auto simp: certificateHeadersLoop.simps [of req n h p] split: if_splits)
    note ih = "1.IH" [OF r refl refl f False c refl]
    show ?thesis
    proof (cases "n < length requiredHeaders")
      case True
      with "1.prems" False r c f have "certificateHeadersLoop req (n + 1) h p1 = Inr (h', p')"
        by (auto simp: certificateHeadersLoop.simps [of req n h p] split: if_splits)
      with "1.prems" False True r c f ih(1) [OF True] readNext_withPolicy [OF r, of pol] show ?thesis
        by (auto simp: certificateHeadersLoop.simps [of req n h p]
            certificateHeadersLoop.simps [of req n h "withPolicy pol p"] split: if_splits)
    next
      case n: False
      with "1.prems" False r c f have "certificateHeadersLoop req n (h @ [val]) p1 = Inr (h', p')"
        by (auto simp: certificateHeadersLoop.simps [of req n h p] split: if_splits)
      with "1.prems" False n r c f ih(2) [OF n] readNext_withPolicy [OF r, of pol] show ?thesis
        by (auto simp: certificateHeadersLoop.simps [of req n h p]
            certificateHeadersLoop.simps [of req n h "withPolicy pol p"] split: if_splits)
    qed
  qed
qed

lemma bodyLine_withPolicy:
  "bodyLine b p line = Inr (b', p') \<Longrightarrow> bodyLine b (withPolicy pol p) line = Inr (b', withPolicy pol p')"
  by (auto simp: bodyLine_def result_simps addCommand_withPolicy split: if_splits option.splits)

lemma certificateBodyLoop_withPolicy:
  "certificateBodyLoop b p = Inr p' \<Longrightarrow> certificateBodyLoop b (withPolicy pol p) = Inr (withPolicy pol p')"
proof (induction b p rule: certificateBodyLoop.induct)
  case (1 b p)
  then obtain payload flush p1 where r: "readNext p = Inr (payload, flush, p1)"
    by (cases "readNext p") (auto simp: certificateBodyLoop.simps [of b p])
  have v: "\<not> flush \<and> validCertificateBodyPacket payload"
    using "1.prems" r by (auto simp: certificateBodyLoop.simps [of b p] split: if_splits)
  show ?case
  proof (cases "trimSuffix payload [LF] = ''push-cert-end''")
    case True
    with "1.prems" r v readNext_withPolicy [OF r, of pol] show ?thesis
      by (auto simp: certificateBodyLoop.simps [of b p] certificateBodyLoop.simps [of b "withPolicy pol p"]
          split: if_splits)
  next
    case False
    with "1.prems" r v obtain b1 p2 where bl: "bodyLine b p1 (trimSuffix payload [LF]) = Inr (b1, p2)"
      "certificateBodyLoop b1 p2 = Inr p'"
      by (cases "bodyLine b p1 (trimSuffix payload [LF])") (auto simp: certificateBodyLoop.simps [of b p])
    have "certificateBodyLoop b1 (withPolicy pol p2) = Inr (withPolicy pol p')"
      using "1.IH" [OF r refl refl _ refl False bl(1) refl bl(2)] v by simp
    with r v False readNext_withPolicy [OF r, of pol] bodyLine_withPolicy [OF bl(1), of pol] show ?thesis
      by (simp add: certificateBodyLoop.simps [of b "withPolicy pol p"])
  qed
qed

lemma expect_withPolicy:
  "expectPacket p w = Inr p' \<Longrightarrow> expectPacket (withPolicy pol p) w = Inr (withPolicy pol p')"
  "expectFlush p w = Inr p' \<Longrightarrow> expectFlush (withPolicy pol p) w = Inr (withPolicy pol p')"
  by (cases "readNext p";
      force simp: expectPacket_def expectFlush_def readNext_withPolicy split: if_splits prod.splits)+

lemma parseCertificate_withPolicy:
  assumes "parseCertificate p first = Inr p'"
  shows "parseCertificate (withPolicy pol p) first = Inr (withPolicy pol p')"
proof (cases "ParseCapabilities (drop (length certificatePrefix) first)")
  case (Inr caps)
  obtain p1 p3 h p4 p5 p6 where
    s: "ValidateRequestedCapabilities caps (AdvertisedCaps (options p)) = Inr ()"
    "negotiateObjectIDWidth p caps = Inr p1"
    "validatePushCertificate (AdvertisedCaps (options (p1\<lparr>pCapabilities := caps\<rparr>))) = Inr ()"
    "expectPacket (p1\<lparr>pCapabilities := caps\<rparr>) versionLine = Inr p3"
    "parseCertificateHeaders p3 caps = Inr (h, p4)" "parseCertificateBody p4 = Inr p5"
    "expectFlush p5 ''push certificate terminator'' = Inr p6" "parsePushOptions p6 caps h True = Inr p'"
    using assms Inr by (auto simp: parseCertificate_def Let_def result_simps)
  have "parseCertificateHeaders (withPolicy pol p3) caps = Inr (h, withPolicy pol p4)"
    "parseCertificateBody (withPolicy pol p4) = Inr (withPolicy pol p5)"
    using s(5,6) by (simp_all add: parseCertificateHeaders_def parseCertificateBody_def
        certificateHeadersLoop_withPolicy certificateBodyLoop_withPolicy)
  then show ?thesis
    using s(1,3) negotiate_withPolicy [OF s(2), of pol] expect_withPolicy(1) [OF s(4), of pol]
      expect_withPolicy(2) [OF s(7), of pol] parsePushOptions_withPolicy [OF s(8), of pol] Inr
    by (simp add: parseCertificate_def)
qed (use assms in \<open>simp add: parseCertificate_def\<close>)

lemma parseRequest_withPolicy:
  assumes "parseRequest p first = Inr p'"
  shows "parseRequest (withPolicy pol p) first = Inr (withPolicy pol p')"
proof (cases "hasPrefix first certificatePrefix")
  case True
  with assms show ?thesis by (simp add: parseRequest_def parseCertificate_withPolicy)
next
  case False
  then obtain command caps p1 p3 where "parseFirstCommand first = Inr (command, caps)"
    "ValidateRequestedCapabilities caps (AdvertisedCaps (options p)) = Inr ()"
    "negotiateObjectIDWidth p caps = Inr p1" "addCommand (p1\<lparr>pCapabilities := caps\<rparr>) command = Inr p3"
    "commandsLoop caps p3 = Inr p'"
    using assms by (auto simp: parseRequest_def Let_def result_simps)
  with False show ?thesis
    by (simp add: parseRequest_def negotiate_withPolicy addCommand_withPolicy commandsLoop_withPolicy)
qed

lemma parse_withPolicy: "parse p = Inr p' \<Longrightarrow> parse (withPolicy pol p) = Inr (withPolicy pol p')"
proof (induction p rule: parse.induct)
  case (1 p)
  then obtain payload flush p1 where r: "readNext p = Inr (payload, flush, p1)"
    by (cases "readNext p") (auto simp: parse.simps [of p])
  show ?case
    using "1.prems" "1.IH" [OF r refl refl] readNext_withPolicy [OF r, of pol] r
    by (cases "addShallow p1 payload")
      (auto simp: parse.simps [of p] parse.simps [of "withPolicy pol p"] addShallow_withPolicy
        parseRequest_withPolicy split: if_splits)
qed

text \<open>
  C12. A policy denial is told apart from every other failure and carries exactly the denied updates:
  when \<^verbatim>\<open>ParseReceivePack\<close> fails on a stream whose own read error is not a policy error,
  \<^verbatim>\<open>RejectedUpdates\<close> returns a non-empty list exactly if \<^verbatim>\<open>errors.Is(err, policy.ErrRefPolicy)\<close>. That
  list is what the stream asks for: the push policy rejects it, and under any policy that accepts it the
  same stream is accepted with exactly this list as its updates, in this order. In particular it is the
  list of updates of a request encoded on the wire.
\<close>

theorem ParseReceivePack_rejection:
  assumes "ParseReceivePack inp flt opts = Inl e" and "\<not> errors_Is flt ErrRefPolicy"
  shows "(errors_Is e ErrRefPolicy \<longleftrightarrow> rejectedUpdates e \<noteq> [])
    \<and> (errors_Is e ErrRefPolicy \<longrightarrow>
        ValidatePush (optPolicy opts) (rejectedUpdates e) \<noteq> Inr ()
        \<and> distinct (map Ref (rejectedUpdates e))
        \<and> (\<exists>width. list_all (wfUpdate opts width) (rejectedUpdates e))
        \<and> int (length (rejectedUpdates e)) \<le> MaxCommands opts
        \<and> (\<forall>pol. ValidatePush pol (rejectedUpdates e) = Inr () \<longrightarrow>
             (\<exists>res r. ParseReceivePack inp flt (opts\<lparr>optPolicy := pol\<rparr>) = Inr (res, r)
                \<and> Updates res = rejectedUpdates e)))
    \<and> (\<forall>us caps os pack. inp = encodeRequest us caps os @ pack \<and> sendableRequest opts us caps os \<longrightarrow>
         errors_Is e ErrRefPolicy \<and> rejectedUpdates e = us)"
proof -
  have plain: "\<not> errors_Is e ErrRefPolicy \<Longrightarrow> rejectedUpdates e = []"
    using rejected_is_policy(1) by (auto simp: rejectedUpdates_def split: option.splits)
  have wire: "errors_Is e ErrRefPolicy \<and> rejectedUpdates e = us"
    if "inp = encodeRequest us caps os @ pack" "sendableRequest opts us caps os" for us caps os pack
    using ParseReceivePack_encoded [OF that(2), of pack flt] assms(1) that(1)
    by (auto simp: rejectedUpdates_def newRejectedUpdatesError_def split: sum.splits)
  show ?thesis
  proof (cases "errors_Is e ErrRefPolicy")
    case False
    with plain wire show ?thesis by blast
  next
    case True
    then obtain r p where p: "1 \<le> MaxCommands opts" "newPacketReader inp flt (MaxBytes opts) = Inr r"
      "parse (newReceiveParser r opts) = Inr p" "ValidatePush (optPolicy opts) (updates p) \<noteq> Inr ()"
      and e: "rejectedUpdates e = updates p"
      using denial.ParseReceivePack_Inl [OF assms] by (auto simp: rejectedUpdates_def)
    have acc: "accepted (newReceiveParser r opts) p"
      using p by (intro parse_accepted) (simp_all add: newReceiveParser_def wfParser_def)
    have "parse (newReceiveParser r (opts\<lparr>optPolicy := pol\<rparr>)) = Inr (withPolicy pol p)" for pol
      using parse_withPolicy [OF p(3), of pol] by (simp add: withPolicy_def newReceiveParser_def)
    then have "\<exists>res r. ParseReceivePack inp flt (opts\<lparr>optPolicy := pol\<rparr>) = Inr (res, r) \<and> Updates res = updates p"
      if "ValidatePush pol (updates p) = Inr ()" for pol
      using p(1,2) that by (simp add: ParseReceivePack_def)
    with acc p(4) True e wire show ?thesis
      by (simp add: accepted_def wfParser_def newReceiveParser_def) blast
  qed
qed

lemma example_rejected:
  "ParseReceivePack (encodeRequest (exampleUpdates ''refs/heads/main'') exampleCaps []) (Sentinel IoEOF) exampleOptions =
     Inl (RejectedUpdates (exampleUpdates ''refs/heads/main''))"
  by code_simp

theorem ParseReceivePack_rejection_witness:
  "ValidatePush (optPolicy exampleOptions) (exampleUpdates ''refs/heads/main'') \<noteq> Inr ()"
  using ParseReceivePack_rejection [OF example_rejected] by (simp add: rejectedUpdates_def)


section \<open>Signed pushes\<close>

text \<open>The payloads of consecutive packets, none of them a flush.\<close>

primrec readsPayloads :: "string list \<Rightarrow> packet_reader \<Rightarrow> packet_reader \<Rightarrow> bool" where
  "readsPayloads [] r r' = (r' = r)"
| "readsPayloads (x # xs) r r' = (\<exists>r1. readPacket r = Inr (x, False, r1) \<and> readsPayloads xs r1 r')"

definition headerLine :: "string \<Rightarrow> string \<Rightarrow> string" where
  "headerLine field val = field @ '' '' @ val @ [LF]"

lemma parseCertificateHeader_Inr: "parseCertificateHeader payload = Inr (field, val) \<Longrightarrow> payload = headerLine field val"
proof -
  assume *: "parseCertificateHeader payload = Inr (field, val)"
  then obtain l where l: "payload = l @ [LF]"
    by (auto simp: parseCertificateHeader_def hasSingleTerminalLF_iff split: if_splits)
  with * have "cut CHR '' '' l = (field, val, True)"
    by (auto simp: parseCertificateHeader_def split: if_splits prod.splits)
  with l show ?thesis
    by (simp add: cut_found headerLine_def)
qed

text \<open>What the header loop has read when it returns, from any of its states.\<close>

lemma certificateHeadersLoop_payloads:
  "certificateHeadersLoop req n h p = Inr (h', p') \<Longrightarrow> n \<le> 3 \<Longrightarrow>
     \<exists>vs os. length vs = 3 - n \<and> h' = h @ os
       \<and> readsPayloads (map2 headerLine (drop n requiredHeaders) vs
           @ map (headerLine ''push-option'') os @ [[LF]]) (reader p) (reader p')
       \<and> list_all2 validRequiredCertificateHeader (drop n requiredHeaders) vs
       \<and> (n < 3 \<longrightarrow> last vs = Value (AdvertisedCaps (options p)) ''push-cert'')
       \<and> list_all validPushOption os \<and> (os \<noteq> [] \<longrightarrow> Has req ''push-options'')"
proof (induction req n h p rule: certificateHeadersLoop.induct)
  case (1 req n h p)
  from "1.prems" obtain payload flush p1 where r: "readNext p = Inr (payload, flush, p1)"
    by (cases "readNext p") (auto simp: certificateHeadersLoop.simps [of req n h p])
  then have rp: "readPacket (reader p) = Inr (payload, flush, reader p1)" and opts: "options p1 = options p"
    by (auto simp: readNext_Inr)
  have nf: "\<not> flush"
    using "1.prems" r by (auto simp: certificateHeadersLoop.simps [of req n h p])
  show ?case
  proof (cases "payload = [LF]")
    case True
    with "1.prems" r nf have "n = 3" "h' = h" "p' = p1"
      by (auto simp: certificateHeadersLoop.simps [of req n h p] requiredHeaders_def split: if_splits)
    with True rp nf show ?thesis
      by (intro exI [of _ "[]"]) (simp add: requiredHeaders_def)
  next
    case False
    with "1.prems" r nf obtain field val where c: "parseCertificateHeader payload = Inr (field, val)"
      by (cases "parseCertificateHeader payload") (auto simp: certificateHeadersLoop.simps [of req n h p])
    then have payload: "payload = headerLine field val"
      by (rule parseCertificateHeader_Inr)
    show ?thesis
    proof (cases "n < 3")
      case True
      then have req_n: "drop n requiredHeaders = (requiredHeaders ! n) # drop (n + 1) requiredHeaders"
        using Cons_nth_drop_Suc [of n requiredHeaders] by (simp add: requiredHeaders_def)
      from True "1.prems" r nf False c
      have ok: "field = requiredHeaders ! n" "validRequiredCertificateHeader field val"
        "field = ''nonce'' \<longrightarrow> val = Value (AdvertisedCaps (options p)) ''push-cert''"
        and rec: "certificateHeadersLoop req (n + 1) h p1 = Inr (h', p')"
        using opts by (auto simp: certificateHeadersLoop.simps [of req n h p] requiredHeaders_def split: if_splits)
      have "\<exists>vs os. length vs = 3 - (n + 1) \<and> h' = h @ os
       \<and> readsPayloads (map2 headerLine (drop (n + 1) requiredHeaders) vs
           @ map (headerLine ''push-option'') os @ [[LF]]) (reader p1) (reader p')
       \<and> list_all2 validRequiredCertificateHeader (drop (n + 1) requiredHeaders) vs
       \<and> (n + 1 < 3 \<longrightarrow> last vs = Value (AdvertisedCaps (options p1)) ''push-cert'')
       \<and> list_all validPushOption os \<and> (os \<noteq> [] \<longrightarrow> Has req ''push-options'')"
        using "1.IH"(1) [OF r refl refl nf False c refl _ _ _ rec] True ok opts
        by (simp add: requiredHeaders_def)
      then obtain vs os where ih: "length vs = 3 - (n + 1)" "h' = h @ os"
        "readsPayloads (map2 headerLine (drop (n + 1) requiredHeaders) vs
           @ map (headerLine ''push-option'') os @ [[LF]]) (reader p1) (reader p')"
        "list_all2 validRequiredCertificateHeader (drop (n + 1) requiredHeaders) vs"
        "n + 1 < 3 \<longrightarrow> last vs = Value (AdvertisedCaps (options p)) ''push-cert''"
        "list_all validPushOption os" "os \<noteq> [] \<longrightarrow> Has req ''push-options''"
        using opts by auto
      have "n = 2 \<longrightarrow> field = ''nonce''"
        using ok(1) by (auto simp: requiredHeaders_def)
      then have "last (val # vs) = Value (AdvertisedCaps (options p)) ''push-cert''"
        using True ih(1,5) ok(3) by (cases "n = 2") auto
      moreover have "readsPayloads (map2 headerLine (drop n requiredHeaders) (val # vs)
           @ map (headerLine ''push-option'') os @ [[LF]]) (reader p) (reader p')"
        using ih(3) rp nf payload ok(1) by (simp add: req_n)
      moreover have "list_all2 validRequiredCertificateHeader (drop n requiredHeaders) (val # vs)"
        using ih(4) ok(1,2) by (simp add: req_n)
      moreover have "length (val # vs) = 3 - n"
        using ih(1) True by simp
      ultimately show ?thesis
        using ih(2,6,7) by (intro exI [of _ "val # vs"] exI [of _ os]) simp
    next
      case n3: False
      with "1.prems"(2) have n: "n = 3" by simp
      with "1.prems" r nf False c
      have ok: "field = ''push-option''" "Has req ''push-options''" "validPushOption val"
        "Has (AdvertisedCaps (options p1)) ''push-options''"
        and rec: "certificateHeadersLoop req 3 (h @ [val]) p1 = Inr (h', p')"
        by (auto simp: certificateHeadersLoop.simps [of req 3 h p] requiredHeaders_def split: if_splits)
      from "1.IH"(2) [OF r refl refl nf False c refl] n ok rec obtain os where
        "h' = (h @ [val]) @ os"
        "readsPayloads (map (headerLine ''push-option'') os @ [[LF]]) (reader p1) (reader p')"
        "list_all validPushOption os"
        by (auto simp: requiredHeaders_def)
      with n ok rp nf payload show ?thesis
        by (intro exI [of _ "[]"] exI [of _ "val # os"]) (auto simp: requiredHeaders_def)
    qed
  qed
qed


lemma optionMismatch_None: "length h = length t \<Longrightarrow> optionMismatch i h t = None \<longleftrightarrow> h = t"
  by (induction i h t rule: optionMismatch.induct) (auto split: if_splits)

lemma readsPayloads_snoc:
  "readsPayloads xs r r1 \<Longrightarrow> readPacket r1 = Inr (x, False, r2) \<Longrightarrow> readsPayloads (xs @ [x]) r r2"
  by (induction xs arbitrary: r) auto

lemma pushOptionsLoop_payloads:
  "pushOptionsLoop h s t p = Inr p' \<Longrightarrow> s \<Longrightarrow> readsPayloads t r0 (reader p) \<Longrightarrow>
     \<exists>r1. readsPayloads h r0 r1 \<and> readPacket r1 = Inr ([], True, reader p')"
proof (induction h s t p rule: pushOptionsLoop.induct)
  case (1 h s t p)
  from "1.prems"(1) obtain payload flush p1 where r: "readNext p = Inr (payload, flush, p1)"
    by (cases "readNext p") (auto simp: pushOptionsLoop.simps [of h s t p])
  then have rp: "readPacket (reader p) = Inr (payload, flush, reader p1)"
    by (auto simp: readNext_Inr)
  show ?case
  proof (cases flush)
    case True
    with "1.prems"(1,2) r have "compareOptions True h t = Inr ()" "p' = p1"
      by (auto simp: pushOptionsLoop.simps [of h True t p] result_simps)
    then have "h = t"
      using optionMismatch_None [of h t 0] by (auto simp: compareOptions_def split: if_splits option.splits)
    with "1.prems"(3) True rp readPacket_Inr [OF rp] \<open>p' = p1\<close> show ?thesis
      by auto
  next
    case False
    with "1.prems"(1) r have v: "validPushOption payload"
      and rec: "pushOptionsLoop h s (t @ [payload]) p1 = Inr p'"
      by (auto simp: pushOptionsLoop.simps [of h s t p] split: if_splits)
    have "readsPayloads (t @ [payload]) r0 (reader p1)"
      using "1.prems"(3) rp False by (auto intro: readsPayloads_snoc)
    with "1.IH" [OF r refl refl False _ rec "1.prems"(2)] v show ?thesis
      by simp
  qed
qed

text \<open>
  A signed push is bound to this session of this server: the packets \<^verbatim>\<open>parseCertificateHeaders\<close>
  consumes are exactly the headers \<^verbatim>\<open>pusher\<close>, \<^verbatim>\<open>pushee\<close> and \<^verbatim>\<open>nonce\<close> in this order, one
  \<^verbatim>\<open>push-option\<close> line per returned option and the empty line; the pusher is a valid ident and the nonce
  is the one the server advertised.
\<close>

theorem parseCertificateHeaders_bound:
  assumes "parseCertificateHeaders p requested = Inr (headerOptions, p')"
  shows "\<exists>pusher pushee.
    readsPayloads ([headerLine ''pusher'' pusher, headerLine ''pushee'' pushee,
        headerLine ''nonce'' (Value (AdvertisedCaps (options p)) ''push-cert'')]
      @ map (headerLine ''push-option'') headerOptions @ [[LF]]) (reader p) (reader p')
    \<and> validPusherIdent pusher \<and> validCertificateText pushee
    \<and> list_all validPushOption headerOptions"
proof -
  obtain vs where vs: "length vs = 3" "last vs = Value (AdvertisedCaps (options p)) ''push-cert''"
    "readsPayloads (map2 headerLine requiredHeaders vs @ map (headerLine ''push-option'') headerOptions @ [[LF]])
       (reader p) (reader p')"
    "list_all2 validRequiredCertificateHeader requiredHeaders vs" "list_all validPushOption headerOptions"
    using certificateHeadersLoop_payloads [OF assms [unfolded parseCertificateHeaders_def]] by auto
  then obtain pusher pushee nonce where "vs = [pusher, pushee, nonce]"
    by (auto simp: numeral_3_eq_3 length_Suc_conv)
  with vs show ?thesis
    by (intro exI [of _ pusher] exI [of _ pushee])
      (auto simp: requiredHeaders_def validRequiredCertificateHeader_def)
qed

text \<open>A signed push with one option, as \<^verbatim>\<open>git push --signed --push-option\<close> sends it.\<close>

definition signedCaps :: capabilities where
  "signedCaps = [(''push-cert'', ''1700000000-abc''), (''push-options'', [])]"

definition signedParser :: "string list \<Rightarrow> receive_parser" where
  "signedParser ps =
     newReceiveParser \<lparr>input = encodePackets ps @ flushPacket, fault = Sentinel IoEOF, limit = 1000, raw = []\<rparr>
       (exampleOptions\<lparr>AdvertisedCaps := signedCaps\<rparr>)"

definition signedHeaders :: "string list" where
  "signedHeaders =
     [headerLine ''pusher'' ''A U Thor <a@x> 1700000000 +0000'', headerLine ''pushee'' ''https://x/r.git'',
      headerLine ''nonce'' ''1700000000-abc'', headerLine ''push-option'' ''ci.skip'', [LF]]"

theorem parseCertificateHeaders_bound_witness:
  "case parseCertificateHeaders (signedParser signedHeaders) signedCaps of
     Inl _ \<Rightarrow> False
   | Inr (h, p') \<Rightarrow> h = [''ci.skip''] \<and> (\<exists>pusher. validPusherIdent pusher)"
proof -
  let ?m = "parseCertificateHeaders (signedParser signedHeaders) signedCaps"
  have "case ?m of Inl _ \<Rightarrow> False | Inr (h, p') \<Rightarrow> h = [''ci.skip'']"
    by code_simp
  then obtain p' where "?m = Inr ([''ci.skip''], p')"
    by (cases ?m) auto
  with parseCertificateHeaders_bound [OF this] show ?thesis
    by auto
qed

text \<open>
  The options a pusher signs are the options the push carries: when \<^verbatim>\<open>parsePushOptions\<close> accepts a
  signed push, the packets after the certificate are exactly the options of the certificate's
  headers, in order, followed by a flush; without the capability there are none.
\<close>

theorem parsePushOptions_signed:
  assumes "parsePushOptions p caps headerOptions True = Inr p'"
  shows "if Has caps ''push-options''
    then \<exists>r. readsPayloads headerOptions (reader p) r \<and> readPacket r = Inr ([], True, reader p')
    else headerOptions = [] \<and> p' = p"
  using assms pushOptionsLoop_payloads [of headerOptions True "[]" p p' "reader p"]
  by (auto simp: parsePushOptions_def split: if_splits)


theorem parsePushOptions_signed_witness:
  "\<exists>r. readsPayloads [''ci.skip''] (reader (signedParser [''ci.skip''])) r"
proof -
  let ?m = "parsePushOptions (signedParser [''ci.skip'']) signedCaps [''ci.skip''] True"
  have "isOK ?m" "Has signedCaps ''push-options''"
    by code_simp+
  then obtain p' where "?m = Inr p'"
    by (auto simp: isOK_iff)
  with \<open>Has signedCaps ''push-options''\<close> parsePushOptions_signed [OF this] show ?thesis
    by auto
qed

end
