(* ===== verification/Runner.thy ===== *)
theory Runner
  imports Config_Validate
begin

text \<open>
  Package \<^verbatim>\<open>internal/runner\<close>: the environment and the command of a provider process
  (\<^verbatim>\<open>environment.go\<close>, \<^verbatim>\<open>command.go\<close>, \<^verbatim>\<open>tools.go\<close>), its bounded input and output
  (\<^verbatim>\<open>input.go\<close>, \<^verbatim>\<open>output.go\<close>), the classification of its end (\<^verbatim>\<open>call.go\<close>, \<^verbatim>\<open>stream.go\<close>)
  and the authority over its process group (\<^verbatim>\<open>process_linux.go\<close>).

  A pipe or a file system is what its calls return; the state of the package's objects is a record.
\<close>

section \<open>Environments\<close>

definition tokenEnvironmentPrefixes :: "string list" where
  "tokenEnvironmentPrefixes = [''REPOWOLF_'', ''GH_'', ''GITHUB_'']"

definition hasTokenEnvironmentPrefix :: "string \<Rightarrow> bool" where
  "hasTokenEnvironmentPrefix name = list_ex (\<lambda>p. hasPrefix name p) tokenEnvironmentPrefixes"

definition entryName :: "string \<Rightarrow> string" where
  "entryName entry = fst (cut CHR ''='' entry)"

fun tokenFreeLoop :: "string list \<Rightarrow> string list \<Rightarrow> string list \<Rightarrow> string list" where
  "tokenFreeLoop blocked [] acc = acc"
| "tokenFreeLoop blocked (entry # base) acc =
     (if entryName entry \<in> set blocked \<or> hasTokenEnvironmentPrefix (entryName entry)
      then tokenFreeLoop blocked base acc
      else tokenFreeLoop blocked base (acc @ [entry]))"

definition TokenFreeEnvironment :: "string list \<Rightarrow> string list \<Rightarrow> string list" where
  "TokenFreeEnvironment base excluded = tokenFreeLoop excluded base []"

definition GitHubEnvironment :: "string list \<Rightarrow> string \<Rightarrow> string list" where
  "GitHubEnvironment tokenFree token =
     filter (\<lambda>entry. entryName entry \<noteq> ''NO_COLOR'') tokenFree
     @ [''GH_TOKEN='' @ token, ''GH_PROMPT_DISABLED=1'', ''GH_NO_UPDATE_NOTIFIER=1'', ''NO_COLOR=1'']"


section \<open>Commands\<close>

record runner_command =
  cmdPath :: string
  Args :: "string list"
  cmdStdin :: string
  Env :: "string list"
  Timeout :: int
  StdinLimit :: int
  StdoutLimit :: int
  StderrLimit :: int

record runner_result =
  Stdout :: string
  resExitCode :: int
  TimedOut :: bool
  StdinBytes :: int
  StdoutBytes :: int
  StderrBytes :: int

definition cloneAndValidate :: "runner_command \<Rightarrow> runner_command result" where
  "cloneAndValidate command =
     (if \<not> isAbs (cmdPath command) \<or> Timeout command \<le> 0 \<or> StdinLimit command \<le> 0
        \<or> StdoutLimit command \<le> 0 \<or> StderrLimit command \<le> 0
      then fail ErrInvalidCommand
      else if int (length (cmdStdin command)) > StdinLimit command then fail ErrInputLimit
      else if NUL \<in> set (cmdPath command) then fail ErrInvalidCommand
      else if list_ex (\<lambda>argument. NUL \<in> set argument) (Args command) then fail ErrInvalidCommand
      else if list_ex (\<lambda>entry. NUL \<in> set entry) (Env command) then fail ErrInvalidCommand
      else Inr command)"


section \<open>Tools\<close>

record toolset =
  toolGH :: string
  toolSSH :: string

record file_info =
  isRegular :: bool
  perm :: "32 word"

text \<open>The file system calls of \<^verbatim>\<open>resolveTool\<close>.\<close>

record file_system =
  Abs :: "string \<Rightarrow> string result"
  EvalSymlinks :: "string \<Rightarrow> string result"
  Stat :: "string \<Rightarrow> file_info result"

definition resolveTool ::
  "file_system \<Rightarrow> string \<Rightarrow> string option \<Rightarrow> (string \<Rightarrow> string result) \<Rightarrow> string result" where
  "resolveTool fs name override lookPath =
     bindE (case override of
         Some p \<Rightarrow>
           if \<not> isAbs p then Inl (Errorf ''resolve %s: override must be absolute'' [ArgS name]) else Inr p
       | None \<Rightarrow>
           (case lookPath name of
              Inl _ \<Rightarrow> Inl (Errorf ''resolve %s: executable not found'' [ArgS name])
            | Inr p \<Rightarrow> Inr p)) (\<lambda>path.
     bindE (case Abs fs path of
         Inl _ \<Rightarrow> Inl (Errorf ''resolve %s: invalid executable path'' [ArgS name]) | Inr a \<Rightarrow> Inr a) (\<lambda>absolute.
     bindE (case EvalSymlinks fs absolute of
         Inl e \<Rightarrow> Inl (Wrapf ''resolve %s: canonicalize executable: %w'' [ArgS name] e) | Inr c \<Rightarrow> Inr c) (\<lambda>canonical.
     bindE (case Stat fs canonical of
         Inl e \<Rightarrow> Inl (Wrapf ''resolve %s: inspect executable: %w'' [ArgS name] e) | Inr i \<Rightarrow> Inr i) (\<lambda>info.
     if \<not> isRegular info \<or> and (perm info) 0x49 = 0
     then Inl (Errorf ''resolve %s: path is not a regular executable'' [ArgS name])
     else Inr canonical))))"

definition ResolveTools ::
  "file_system \<Rightarrow> tools \<Rightarrow> bool \<Rightarrow> (string \<Rightarrow> string result) option \<Rightarrow> toolset result" where
  "ResolveTools fs ts githubRequired lookPath =
     (case lookPath of
        None \<Rightarrow> errorf ''resolve provider tools: lookup is unavailable''
      | Some look \<Rightarrow>
          bindE (if githubRequired then resolveTool fs ''gh'' (GH ts) look else Inr []) (\<lambda>gh.
          bindE (resolveTool fs ''ssh'' (SSH ts) look) (\<lambda>ssh.
          Inr \<lparr>toolGH = gh, toolSSH = ssh\<rparr>)))"


section \<open>Bounded input\<close>

text \<open>
  The pipe to the process is what it has taken so far and the results of its next writes: how many
  bytes it takes (at most what it is given) and with which error. Once those run out it takes all.
\<close>

record raw_pipe =
  taken :: string
  outcomes :: "(nat \<times> go_error option) list"
  closed :: bool

definition rawWrite :: "raw_pipe \<Rightarrow> string \<Rightarrow> (nat \<times> go_error option) \<times> raw_pipe" where
  "rawWrite pipe val =
     (case outcomes pipe of
        [] \<Rightarrow> ((length val, None), pipe\<lparr>taken := taken pipe @ val\<rparr>)
      | (n, e) # rest \<Rightarrow>
          ((min n (length val), e), pipe\<lparr>taken := taken pipe @ take n val, outcomes := rest\<rparr>))"

record input_pipe =
  ipRaw :: raw_pipe
  ipPrefix :: string
  ipLimit :: int
  prefixSent :: bool
  prefixErr :: "go_error option"
  reserved :: int
  ipCount :: int
  overflowed :: bool

definition newInputPipe :: "raw_pipe \<Rightarrow> string \<Rightarrow> int \<Rightarrow> input_pipe" where
  "newInputPipe raw pre lim =
     \<lparr>ipRaw = raw, ipPrefix = pre, ipLimit = lim, prefixSent = False, prefixErr = None,
      reserved = int (length pre), ipCount = 0, overflowed = False\<rparr>"

definition sendPrefix :: "input_pipe \<Rightarrow> input_pipe" where
  "sendPrefix inp =
     (if prefixSent inp then inp
      else case rawWrite (ipRaw inp) (ipPrefix inp) of ((n, err), raw) \<Rightarrow>
        inp\<lparr>ipRaw := raw, ipCount := ipCount inp + int n, prefixErr := err, prefixSent := True\<rparr>)"

definition reserve :: "input_pipe \<Rightarrow> int \<Rightarrow> bool \<times> input_pipe" where
  "reserve inp n =
     (if n > ipLimit inp - reserved inp then (False, inp)
      else (True, inp\<lparr>reserved := reserved inp + n\<rparr>))"

definition input_Write :: "input_pipe \<Rightarrow> string \<Rightarrow> (nat \<times> go_error option) \<times> input_pipe" where
  "input_Write inp val =
     (case reserve inp (int (length val)) of
        (False, inp1) \<Rightarrow> ((0, Some (Sentinel ErrInputLimit)), inp1\<lparr>overflowed := True\<rparr>)
      | (True, inp1) \<Rightarrow>
          (let inp2 = sendPrefix inp1 in
           case prefixErr inp2 of
             Some e \<Rightarrow> ((0, Some e), inp2)
           | None \<Rightarrow>
               (case rawWrite (ipRaw inp2) val of ((n, err), raw) \<Rightarrow>
                  ((n, err), inp2\<lparr>ipRaw := raw, ipCount := ipCount inp2 + int n\<rparr>))))"

definition input_Close :: "input_pipe \<Rightarrow> input_pipe" where
  "input_Close inp =
     (let inp1 = sendPrefix inp in inp1\<lparr>ipRaw := (ipRaw inp1)\<lparr>closed := True\<rparr>\<rparr>)"


section \<open>Bounded output\<close>

text \<open>
  The pipe from the process is the bytes it still holds and, per \<^verbatim>\<open>Read\<close>, how many of them it gives at
  most; when it is empty it returns its final error. Every read with a non-empty buffer gives at
  least one byte while there are any.
\<close>

record raw_output =
  pendingOut :: string
  sizes :: "nat list"
  final :: go_error

definition rawRead :: "raw_output \<Rightarrow> nat \<Rightarrow> (string \<times> go_error option) \<times> raw_output" where
  "rawRead out n =
     (if pendingOut out = [] then (([], Some (final out)), out)
      else case sizes out of
        [] \<Rightarrow> ((take n (pendingOut out), None), out\<lparr>pendingOut := drop n (pendingOut out)\<rparr>)
      | k # ks \<Rightarrow>
          (let m = min n (max 1 k) in
           ((take m (pendingOut out), None), out\<lparr>pendingOut := drop m (pendingOut out), sizes := ks\<rparr>)))"

record limited_reader =
  lrRaw :: raw_output
  lrLimit :: int
  lrCount :: int
  lrOverflow :: bool

definition limited_Read :: "limited_reader \<Rightarrow> nat \<Rightarrow> (string \<times> go_error option) \<times> limited_reader" where
  "limited_Read r n =
     (let remaining = lrLimit r - lrCount r in
      if remaining \<le> 0 then
        (case rawRead (lrRaw r) 1 of ((data, err), raw) \<Rightarrow>
           if length data > 0 then (([], Some (Sentinel ErrOutputLimit)), r\<lparr>lrRaw := raw, lrOverflow := True\<rparr>)
           else (([], err), r\<lparr>lrRaw := raw\<rparr>))
      else
        (let readSize = (if int n > remaining + 1 then nat (remaining + 1) else n) in
         case rawRead (lrRaw r) readSize of ((data, err), raw) \<Rightarrow>
           if int (length data) > remaining
           then ((take (nat remaining) data, Some (Sentinel ErrOutputLimit)),
                 r\<lparr>lrRaw := raw, lrCount := lrCount r + remaining, lrOverflow := True\<rparr>)
           else ((data, err), r\<lparr>lrRaw := raw, lrCount := lrCount r + int (length data)\<rparr>)))"

record stderr_capture =
  scLimit :: int
  scCount :: int
  scOverflow :: bool
  scData :: string

text \<open>\<^verbatim>\<open>drain\<close> over what the successive reads return; \<^term>\<open>None\<close> if they never end.\<close>

fun drain :: "stderr_capture \<Rightarrow> (string \<times> go_error option) list \<Rightarrow> (go_error option \<times> stderr_capture) option" where
  "drain c [] = None"
| "drain c ((data, err) # rest) =
     (let remaining = scLimit c - scCount c;
          accepted = (if int (length data) > remaining then remaining else int (length data));
          c1 = (if data = [] then c
                else (let c0 = (if accepted > 0
                       then c\<lparr>scData := scData c @ take (nat accepted) data, scCount := scCount c + accepted\<rparr> else c)
                  in if accepted < int (length data) then c0\<lparr>scOverflow := True\<rparr> else c0)) in
      case err of
        Some e \<Rightarrow> Some (if errors_Is e IoEOF then None else Some e, c1)
      | None \<Rightarrow> drain c1 rest)"


section \<open>The end of a process\<close>

text \<open>
  \<^verbatim>\<open>classifyWaitError\<close>: the reason the process was terminated for, the observed errors and whether
  the stderr error is \<^verbatim>\<open>os.ErrClosed\<close>. \<^term>\<open>None\<close> is a nil error; \<^verbatim>\<open>errors.Join\<close> drops nil.
\<close>

definition errors_Join :: "go_error option list \<Rightarrow> go_error option" where
  "errors_Join es =
     (let some = List.map_filter (\<lambda>e. e) es in if some = [] then None else Some (Join some))"

definition reasonIs :: "go_error option \<Rightarrow> sentinel \<Rightarrow> bool" where
  "reasonIs r s = (case r of None \<Rightarrow> False | Some e \<Rightarrow> errors_Is e s)"

definition classifyWaitError ::
  "go_error option \<Rightarrow> go_error option \<Rightarrow> go_error option \<Rightarrow> go_error option \<Rightarrow> go_error option \<Rightarrow> bool
     \<Rightarrow> go_error option \<Rightarrow> go_error option" where
  "classifyWaitError interruption observationErr waitErr groupErr stderrErr stderrClosed cleanupErr =
     (let primary =
        (if reasonIs interruption ErrInputLimit then Some (Sentinel ErrInputLimit)
         else if reasonIs interruption ErrOutputLimit then Some (Sentinel ErrOutputLimit)
         else if reasonIs interruption ContextDeadlineExceeded then Some (Sentinel ContextDeadlineExceeded)
         else if reasonIs interruption ContextCanceled then Some (Sentinel ContextCanceled)
         else if observationErr \<noteq> None \<or> (stderrErr \<noteq> None \<and> \<not> stderrClosed) \<or> waitErr \<noteq> None
         then Some (Sentinel ErrCommandFailed)
         else None) in
      if groupErr \<noteq> None \<or> cleanupErr \<noteq> None
      then errors_Join [primary, Some (Sentinel ErrCleanupFailed)]
      else primary)"

text \<open>\<^verbatim>\<open>exitCode\<close>: the error of \<^verbatim>\<open>Cmd.Wait\<close> and, if it is an \<^verbatim>\<open>ExitError\<close>, its code.\<close>

definition runner_exitCode :: "go_error option \<Rightarrow> int option \<Rightarrow> int" where
  "runner_exitCode err exitError =
     (if err = None then 0
      else case exitError of Some c \<Rightarrow> if c > 0 then c else 1 | None \<Rightarrow> 1)"

definition Call ::
  "(unit result) \<Rightarrow> string \<Rightarrow> go_error option \<Rightarrow> runner_result \<times> go_error option
     \<Rightarrow> runner_result option \<times> go_error option" where
  "Call start stdout readErr waited =
     (case start of
        Inl e \<Rightarrow> (None, Some e)
      | Inr _ \<Rightarrow>
          (case waited of (res, waitErr) \<Rightarrow>
             let res' = res\<lparr>Stdout := stdout\<rparr> in
             if readErr \<noteq> None then
               (if waitErr \<noteq> None then (Some res', waitErr) else (Some res', Some (Sentinel ErrCommandFailed)))
             else (Some res', waitErr)))"


section \<open>The authority over a process group\<close>

record process_authority =
  pgid :: int
  terminated :: bool
  retired :: bool
  reason :: "go_error option"
  signals :: "int list"

definition newProcessAuthority :: "int \<Rightarrow> process_authority" where
  "newProcessAuthority pid =
     \<lparr>pgid = pid, terminated = False, retired = False, reason = None, signals = []\<rparr>"

definition kill :: "process_authority \<Rightarrow> process_authority" where
  "kill a = a\<lparr>signals := signals a @ [- pgid a]\<rparr>"

definition terminate :: "process_authority \<Rightarrow> go_error option \<Rightarrow> bool \<times> process_authority" where
  "terminate a r =
     (if retired a \<or> terminated a then
        (False, if reason a = None \<and> reasonIs r ErrOutputLimit
                then a\<lparr>reason := Some (Sentinel ErrOutputLimit)\<rparr> else a)
      else (True, kill (a\<lparr>terminated := True, reason := r\<rparr>)))"

definition terminationReason :: "process_authority \<Rightarrow> go_error option" where
  "terminationReason a = reason a"

definition retireAndReap :: "process_authority \<Rightarrow> process_authority" where
  "retireAndReap a =
     (let a1 = (if \<not> terminated a then kill (a\<lparr>terminated := True\<rparr>) else a) in a1\<lparr>retired := True\<rparr>)"


section \<open>Admission of starts\<close>

record runner_state =
  closing :: bool
  starting :: nat
  processes :: "nat set"

definition beginStart :: "runner_state \<Rightarrow> bool \<times> runner_state" where
  "beginStart r = (if closing r then (False, r) else (True, r\<lparr>starting := starting r + 1\<rparr>))"

definition register :: "runner_state \<Rightarrow> nat \<Rightarrow> runner_state" where
  "register r p = r\<lparr>processes := insert p (processes r)\<rparr>"

definition forget :: "runner_state \<Rightarrow> nat \<Rightarrow> runner_state" where
  "forget r p = r\<lparr>processes := processes r - {p}\<rparr>"


text \<open>
  The life of a runner as other goroutines see it: a start is admitted, and later either registers
  its process or fails; both end the admission. \<^verbatim>\<open>Cleanup\<close> closes the runner, waits until no start is
  in progress and then takes its snapshot of the processes to stop.
\<close>

inductive runnerStep :: "runner_state \<Rightarrow> runner_state \<Rightarrow> bool" where
  start_begin: "beginStart r = (True, r') \<Longrightarrow> runnerStep r r'"
| start_ok: "0 < starting r \<Longrightarrow> runnerStep r ((register r p)\<lparr>starting := starting r - 1\<rparr>)"
| start_fail: "0 < starting r \<Longrightarrow> runnerStep r (r\<lparr>starting := starting r - 1\<rparr>)"
| forgotten: "runnerStep r (forget r p)"
| close: "runnerStep r (r\<lparr>closing := True\<rparr>)"

inductive_cases runnerStepE: "runnerStep r r'"

definition cleanupSnapshot :: "runner_state \<Rightarrow> nat set option" where
  "cleanupSnapshot r = (if closing r \<and> starting r = 0 then Some (processes r) else None)"

text \<open>The errors \<^verbatim>\<open>Cleanup\<close> reports: cancellation is expected unless cleaning up failed too.\<close>

definition cleanupError :: "go_error option list \<Rightarrow> go_error option" where
  "cleanupError errs =
     foldl (\<lambda>result err.
       case err of
         None \<Rightarrow> result
       | Some e \<Rightarrow>
           if \<not> errors_Is e ContextCanceled \<or> errors_Is e ErrCleanupFailed
           then errors_Join [result, Some e] else result) None errs"


section \<open>Properties of the environment\<close>

lemma tokenFreeLoop_eq:
  "tokenFreeLoop blocked base acc =
     acc @ filter (\<lambda>e. entryName e \<notin> set blocked \<and> \<not> hasTokenEnvironmentPrefix (entryName e)) base"
  by (induction blocked base acc rule: tokenFreeLoop.induct) auto

lemma entryName_literal: "CHR ''='' \<notin> set n \<Longrightarrow> entryName (n @ ''='' @ v) = n"
  using cut_append [of "CHR ''=''" n v] by (simp add: entryName_def)

text \<open>
  A provider process never inherits a credential: the token-free environment is the base
  environment less exactly the entries whose name is excluded or starts with \<^verbatim>\<open>REPOWOLF_\<close>,
  \<^verbatim>\<open>GH_\<close> or \<^verbatim>\<open>GITHUB_\<close>, in the same order; and the environment of the GitHub CLI built from it has
  exactly one entry with a name of one of those prefixes that carries a token, the \<^verbatim>\<open>GH_TOKEN\<close> of its
  own provider.
\<close>

theorem environments_carry_no_foreign_token:
  "TokenFreeEnvironment base excluded =
     filter (\<lambda>e. entryName e \<notin> set excluded \<and> \<not> hasTokenEnvironmentPrefix (entryName e)) base
   \<and> filter (\<lambda>e. hasTokenEnvironmentPrefix (entryName e))
       (GitHubEnvironment (TokenFreeEnvironment base excluded) token) =
     [''GH_TOKEN='' @ token, ''GH_PROMPT_DISABLED=1'', ''GH_NO_UPDATE_NOTIFIER=1'']"
proof -
  have tf: "TokenFreeEnvironment base excluded =
     filter (\<lambda>e. entryName e \<notin> set excluded \<and> \<not> hasTokenEnvironmentPrefix (entryName e)) base"
    by (simp add: TokenFreeEnvironment_def tokenFreeLoop_eq)
  have names: "entryName (''GH_TOKEN='' @ token) = ''GH_TOKEN''"
    "entryName ''GH_PROMPT_DISABLED=1'' = ''GH_PROMPT_DISABLED''"
    "entryName ''GH_NO_UPDATE_NOTIFIER=1'' = ''GH_NO_UPDATE_NOTIFIER''" "entryName ''NO_COLOR=1'' = ''NO_COLOR''"
    using entryName_literal [of "''GH_TOKEN''" token] by (simp_all add: entryName_def)
  have "filter (\<lambda>e. hasTokenEnvironmentPrefix (entryName e))
      (filter (\<lambda>entry. entryName entry \<noteq> ''NO_COLOR'') (TokenFreeEnvironment base excluded)) = []"
    by (auto simp: tf filter_empty_conv)
  moreover have "hasTokenEnvironmentPrefix ''GH_TOKEN''" "hasTokenEnvironmentPrefix ''GH_PROMPT_DISABLED''"
    "hasTokenEnvironmentPrefix ''GH_NO_UPDATE_NOTIFIER''" "\<not> hasTokenEnvironmentPrefix ''NO_COLOR''"
    by code_simp+
  ultimately show ?thesis
    using tf names by (simp only: GitHubEnvironment_def filter_append filter.simps names if_True if_False append_Nil)
qed


section \<open>Byte budgets\<close>

text \<open>
  The interface of an object that passes bytes on under a budget: whatever it is asked to do, it
  never passes on more than its budget.
\<close>

locale byte_budget =
  fixes step :: "'s \<Rightarrow> 'x \<Rightarrow> 's"
    and passed :: "'s \<Rightarrow> int"
    and budget :: "'s \<Rightarrow> int"
    and ok :: "'s \<Rightarrow> bool"
  assumes ok_step: "ok s \<Longrightarrow> ok (step s x)"
    and budget_step: "ok s \<Longrightarrow> budget (step s x) = budget s"
    and ok_bound: "ok s \<Longrightarrow> passed s \<le> budget s"
begin

lemma ok_foldl: "ok s \<Longrightarrow> ok (foldl step s xs)"
  by (induction xs arbitrary: s) (simp_all add: ok_step)

lemma budget_foldl: "ok s \<Longrightarrow> budget (foldl step s xs) = budget s"
  by (induction xs arbitrary: s) (simp_all add: budget_step ok_step)

lemma bounded: "ok s \<Longrightarrow> passed (foldl step s xs) \<le> budget s"
  using ok_bound [OF ok_foldl] budget_foldl by metis

end

definition inputStep :: "input_pipe \<Rightarrow> string \<Rightarrow> input_pipe" where
  "inputStep inp val = snd (input_Write inp val)"

text \<open>What was reserved covers what the pipe took and the prefix that is still to be sent.\<close>

definition inputOK :: "input_pipe \<Rightarrow> bool" where
  "inputOK inp =
     (ipCount inp = int (length (taken (ipRaw inp))) \<and> reserved inp \<le> ipLimit inp
      \<and> ipCount inp + (if prefixSent inp then 0 else int (length (ipPrefix inp))) \<le> reserved inp)"

lemma rawWrite_spec:
  "rawWrite pipe v = ((n, e), pipe') \<Longrightarrow> taken pipe' = taken pipe @ take n v \<and> n \<le> length v"
  by (auto simp: rawWrite_def min_def split: list.splits)

lemma sendPrefix_OK: "inputOK inp \<Longrightarrow> inputOK (sendPrefix inp) \<and> prefixSent (sendPrefix inp)
    \<and> reserved (sendPrefix inp) = reserved inp \<and> ipLimit (sendPrefix inp) = ipLimit inp"
  by (auto simp: sendPrefix_def inputOK_def split: prod.splits dest!: rawWrite_spec)

lemma sendPrefix_room:
  "inputOK inp \<Longrightarrow> 0 \<le> k \<Longrightarrow> ipCount (sendPrefix (inp\<lparr>reserved := reserved inp + k\<rparr>)) + k \<le> reserved inp + k"
  by (auto simp: sendPrefix_def inputOK_def split: prod.splits dest!: rawWrite_spec)

lemma inputStep_OK:
  assumes ok: "inputOK inp"
  shows "inputOK (inputStep inp v) \<and> ipLimit (inputStep inp v) = ipLimit inp"
proof (cases "int (length v) > ipLimit inp - reserved inp")
  case True
  with ok show ?thesis
    by (auto simp: inputStep_def input_Write_def reserve_def inputOK_def)
next
  case False
  let ?i1 = "inp\<lparr>reserved := reserved inp + int (length v)\<rparr>"
  let ?i2 = "sendPrefix ?i1"
  have i1: "inputOK ?i1"
    using ok False by (auto simp: inputOK_def)
  have i2: "inputOK ?i2" "prefixSent ?i2" "reserved ?i2 = reserved inp + int (length v)" "ipLimit ?i2 = ipLimit inp"
    using sendPrefix_OK [OF i1] by simp_all
  have room: "ipCount ?i2 + int (length v) \<le> reserved ?i2"
    using sendPrefix_room [OF ok, of "int (length v)"] i2(3) by simp
  have res: "reserve inp (int (length v)) = (True, ?i1)"
    using False by (simp add: reserve_def)
  show ?thesis
  proof (cases "prefixErr ?i2")
    case (Some e)
    with res i2 show ?thesis
      by (simp add: inputStep_def input_Write_def Let_def)
  next
    case None
    obtain n e raw where w: "rawWrite (ipRaw ?i2) v = ((n, e), raw)"
      by (metis surj_pair)
    with None res i2 room rawWrite_spec [OF w] show ?thesis
      by (auto simp: inputStep_def input_Write_def Let_def inputOK_def)
  qed
qed

interpretation stdin_budget: byte_budget inputStep ipCount ipLimit inputOK
proof (unfold_locales, goal_cases)
  case (3 inp)
  then show ?case by (auto simp: inputOK_def split: if_splits)
qed (use inputStep_OK in blast)+

text \<open>The reads of a bounded output, with what they returned so far.\<close>

definition outputStep :: "string \<times> limited_reader \<Rightarrow> nat \<Rightarrow> string \<times> limited_reader" where
  "outputStep s n = (case s of (got, r) \<Rightarrow> case limited_Read r n of ((data, _), r') \<Rightarrow> (got @ data, r'))"

text \<open>
  While the budget is not used up nothing is lost: what was returned and what is pending are the
  whole output. Afterwards what was returned stays its prefix.
\<close>

definition outputOK :: "string \<Rightarrow> string \<times> limited_reader \<Rightarrow> bool" where
  "outputOK whole s =
     (case s of (got, r) \<Rightarrow>
        lrCount r = int (length got) \<and> lrCount r \<le> lrLimit r \<and> prefix got whole
        \<and> (lrCount r < lrLimit r \<longrightarrow> got @ pendingOut (lrRaw r) = whole))"

lemma rawRead_spec:
  "rawRead out n = ((data, e), out') \<Longrightarrow> data @ pendingOut out' = pendingOut out \<and> length data \<le> n"
  by (auto simp: rawRead_def Let_def min_def split: if_splits list.splits)

lemma outputStep_OK:
  assumes ok: "outputOK whole s"
  shows "outputOK whole (outputStep s n) \<and> lrLimit (snd (outputStep s n)) = lrLimit (snd s)"
proof -
  obtain got r where s: "s = (got, r)" by force
  let ?rem = "lrLimit r - lrCount r"
  show ?thesis
  proof (cases "?rem \<le> 0")
    case True
    with ok s show ?thesis
      by (auto simp: outputStep_def limited_Read_def outputOK_def Let_def split: prod.splits)
  next
    case False
    let ?size = "if int n > ?rem + 1 then nat (?rem + 1) else n"
    obtain data e raw where rd: "rawRead (lrRaw r) ?size = ((data, e), raw)"
      by (metis surj_pair)
    have d: "data @ pendingOut raw = pendingOut (lrRaw r)"
      using rawRead_spec [OF rd] by simp
    have whole: "got @ data @ pendingOut raw = whole" "lrCount r = int (length got)"
      using ok s False d by (simp_all add: outputOK_def)
    show ?thesis
    proof (cases "int (length data) > ?rem")
      case over: True
      have "prefix (got @ take (nat ?rem) data) whole"
        using whole(1) by (metis append.assoc append_take_drop_id prefixI)
      with over False whole s rd show ?thesis
        by (simp add: outputStep_def limited_Read_def outputOK_def Let_def)
    next
      case fits: False
      have "prefix (got @ data) whole"
        using whole(1) by (metis append.assoc prefixI)
      with fits False whole s rd show ?thesis
        by (simp add: outputStep_def limited_Read_def outputOK_def Let_def)
    qed
  qed
qed

interpretation stdout_budget:
  byte_budget outputStep "\<lambda>s. int (length (fst s))" "\<lambda>s. lrLimit (snd s)" "outputOK whole" for whole
proof (unfold_locales, goal_cases)
  case (3 s)
  then show ?case by (auto simp: outputOK_def)
qed (use outputStep_OK in blast)+

text \<open>
  C28. A provider process never gets more input than its limit nor produces more output than its
  limit: whatever is written to it, in whatever pieces and however the pipe behaves, the bytes that
  reach it, the configured prefix included, are at most the input limit; and whatever is read from
  it, the bytes returned are a prefix of its output and at most the output limit.
\<close>

theorem process_io_bounded:
  assumes "int (length pre) \<le> inLimit" and "0 \<le> outLimit" and "taken pipe = []"
  shows "int (length (taken (ipRaw (foldl inputStep (newInputPipe pipe pre inLimit) writes)))) \<le> inLimit
    \<and> (let got = fst (foldl outputStep ([], \<lparr>lrRaw = out, lrLimit = outLimit, lrCount = 0, lrOverflow = False\<rparr>)
          readSizes)
       in int (length got) \<le> outLimit \<and> prefix got (pendingOut out))"
proof -
  have "inputOK (newInputPipe pipe pre inLimit)"
    using assms by (simp add: inputOK_def newInputPipe_def)
  from stdin_budget.ok_foldl [OF this, of writes] stdin_budget.bounded [OF this, of writes]
  have "int (length (taken (ipRaw (foldl inputStep (newInputPipe pipe pre inLimit) writes)))) \<le> inLimit"
    by (auto simp: inputOK_def newInputPipe_def)
  moreover let ?s = "([], \<lparr>lrRaw = out, lrLimit = outLimit, lrCount = 0, lrOverflow = False\<rparr>)"
  have ok: "outputOK (pendingOut out) ?s"
    using assms(2) by (simp add: outputOK_def)
  from stdout_budget.ok_foldl [OF ok, of readSizes] stdout_budget.bounded [OF ok, of readSizes]
  have "int (length (fst (foldl outputStep ?s readSizes))) \<le> outLimit
      \<and> prefix (fst (foldl outputStep ?s readSizes)) (pendingOut out)"
    by (auto simp: outputOK_def)
  ultimately show ?thesis by (simp add: Let_def)
qed

theorem process_io_bounded_witness:
  "int (length (taken (ipRaw (foldl inputStep
     (newInputPipe \<lparr>taken = [], outcomes = [(2, None)], closed = False\<rparr> ''ab'' 5) [''cde'', ''f''])))) \<le> 5"
  using process_io_bounded [of "''ab''" 5 0 "\<lparr>taken = [], outcomes = [(2, None)], closed = False\<rparr>"
    "[''cde'', ''f'']" "\<lparr>pendingOut = [], sizes = [], final = Sentinel IoEOF\<rparr>" "[]"]
  by simp



section \<open>Signals and reasons\<close>

text \<open>
  The calls any goroutines make on the authority. Each holds its mutex throughout, so every
  interleaving is one sequence of calls; a result is what \<^verbatim>\<open>terminate\<close> returns.
\<close>

datatype authority_call = CallTerminate "go_error option" | CallRetire

fun callAuthority :: "process_authority \<Rightarrow> authority_call \<Rightarrow> bool \<times> process_authority" where
  "callAuthority a (CallTerminate r) = terminate a r"
| "callAuthority a CallRetire = (False, retireAndReap a)"

fun authorityRun :: "process_authority \<Rightarrow> authority_call list \<Rightarrow> bool list \<times> process_authority" where
  "authorityRun a [] = ([], a)"
| "authorityRun a (c # cs) =
     (case callAuthority a c of (b, a1) \<Rightarrow> (case authorityRun a1 cs of (bs, a2) \<Rightarrow> (b # bs, a2)))"

text \<open>Whether a call reports that the output limit was exceeded.\<close>

definition reportsLimit :: "authority_call \<Rightarrow> bool" where
  "reportsLimit c = (case c of CallTerminate r \<Rightarrow> reasonIs r ErrOutputLimit | CallRetire \<Rightarrow> False)"

lemma authorityRun_terminated:
  "terminated a \<Longrightarrow>
     authorityRun a cs =
       (replicate (length cs) False,
        a\<lparr>retired := retired a \<or> CallRetire \<in> set cs,
          reason := (if reason a = None \<and> list_ex reportsLimit cs then Some (Sentinel ErrOutputLimit) else reason a)\<rparr>)"
proof (induction cs arbitrary: a)
  case (Cons c cs)
  then show ?case
    by (cases c) (simp_all add: terminate_def retireAndReap_def reportsLimit_def)
qed simp

text \<open>
  C29. The process group is signalled exactly once, by the first call on its authority, whatever the
  goroutines call and in whatever order: before the first call nothing is sent, and after it there has
  been one SIGKILL to the group of this process and there is never another, so none after the group's
  identifier is given up. \<^verbatim>\<open>terminate\<close> returns true for that first call alone. The recorded reason is the
  reason of that call; only where it gave none, a later report of the output limit is recorded.
\<close>

theorem authority_signals_once:
  "authorityRun (newProcessAuthority pid) calls =
     (case calls of
        [] \<Rightarrow> ([], newProcessAuthority pid)
      | first # later \<Rightarrow>
          ((first \<noteq> CallRetire) # replicate (length later) False,
           \<lparr>pgid = pid, terminated = True, retired = (CallRetire \<in> set calls),
            reason =
              (case first of
                 CallTerminate (Some e) \<Rightarrow> Some e
               | _ \<Rightarrow> if list_ex reportsLimit later then Some (Sentinel ErrOutputLimit) else None),
            signals = [- pid]\<rparr>))"
proof (cases calls)
  case (Cons first later)
  then show ?thesis
    by (cases first)
      (auto simp: terminate_def retireAndReap_def kill_def newProcessAuthority_def authorityRun_terminated
        split: option.splits)
qed simp

text \<open>
  \<^verbatim>\<open>Cleanup\<close> misses no process: once the runner is closed and no start is in progress, which is
  when \<^verbatim>\<open>Cleanup\<close> takes its snapshot, no later step of any goroutine adds a process, so every process
  that ever exists afterwards is in the snapshot.
\<close>

theorem cleanup_snapshot_complete:
  assumes "cleanupSnapshot r = Some ps" and "runnerStep\<^sup>*\<^sup>* r r'"
  shows "processes r' \<subseteq> ps \<and> cleanupSnapshot r' = Some (processes r')"
  using assms(2)
proof (induction rule: rtranclp_induct)
  case base
  with assms(1) show ?case by (auto simp: cleanupSnapshot_def split: if_splits)
next
  case (step r1 r2)
  then have "closing r1" "starting r1 = 0"
    by (auto simp: cleanupSnapshot_def split: if_splits)
  with step show ?case
    by (auto elim!: runnerStepE simp: beginStart_def forget_def cleanupSnapshot_def split: if_splits)
qed

theorem cleanup_snapshot_complete_witness:
  "processes (forget \<lparr>closing = True, starting = 0, processes = {1, 2}\<rparr> 1) \<subseteq> {1, 2}"
proof -
  let ?r = "\<lparr>closing = True, starting = 0, processes = {1, 2}\<rparr>"
  have "runnerStep\<^sup>*\<^sup>* ?r (forget ?r 1)"
    by (rule r_into_rtranclp) (rule forgotten)
  moreover have "cleanupSnapshot ?r = Some {1, 2}"
    by (simp add: cleanupSnapshot_def)
  ultimately show ?thesis
    using cleanup_snapshot_complete by blast
qed

end
