(* ===== verification/Auth.thy ===== *)
theory Auth
  imports Go_Errors
begin

text \<open>
  Package \<^verbatim>\<open>internal/auth\<close>: bearer tokens (\<^verbatim>\<open>token.go\<close>), the index of token digests
  (\<^verbatim>\<open>index.go\<close>), the authenticated context (\<^verbatim>\<open>context.go\<close>) and the interceptors that admit a
  request (\<^verbatim>\<open>interceptor.go\<close>).

  \<^verbatim>\<open>sha256.Sum256\<close> is the parameter \<open>sha\<close>: every property holds for any function in its place, and
  the ones that need the absence of collisions say so for the tokens involved. The random source is
  the bytes it delivers.
\<close>

section \<open>Base64 with the URL alphabet, without padding\<close>

definition encodeSextet :: "int \<Rightarrow> char" where
  "encodeSextet v =
     char_of (if v < 26 then 65 + v else if v < 52 then 71 + v else if v < 62 then v - 4
              else if v = 62 then 45 else 95)"

definition decodeSextet :: "char \<Rightarrow> int option" where
  "decodeSextet c =
     (let n = code c in
      if 65 \<le> n \<and> n \<le> 90 then Some (n - 65)
      else if 97 \<le> n \<and> n \<le> 122 then Some (n - 71)
      else if 48 \<le> n \<and> n \<le> 57 then Some (n + 4)
      else if n = 45 then Some 62
      else if n = 95 then Some 63
      else None)"

fun base64Encode :: "string \<Rightarrow> string" where
  "base64Encode (a # b # c # rest) =
     encodeSextet (code a div 4) # encodeSextet (code a mod 4 * 16 + code b div 16)
     # encodeSextet (code b mod 16 * 4 + code c div 64) # encodeSextet (code c mod 64)
     # base64Encode rest"
| "base64Encode [a, b] =
     [encodeSextet (code a div 4), encodeSextet (code a mod 4 * 16 + code b div 16),
      encodeSextet (code b mod 16 * 4)]"
| "base64Encode [a] = [encodeSextet (code a div 4), encodeSextet (code a mod 4 * 16)]"
| "base64Encode [] = []"

text \<open>
  \<^verbatim>\<open>RawURLEncoding.Strict().DecodeString\<close>: carriage returns and line feeds are skipped, every other
  byte must be of the alphabet, and the unused low bits of the last character must be zero.
\<close>

fun decodeSextets :: "int list \<Rightarrow> string option" where
  "decodeSextets (s # t # u # v # rest) =
     (case decodeSextets rest of
        None \<Rightarrow> None
      | Some bytes \<Rightarrow> Some (char_of (s * 4 + t div 16) # char_of (t mod 16 * 16 + u div 4)
                         # char_of (u mod 4 * 64 + v) # bytes))"
| "decodeSextets [s, t, u] =
     (if u mod 4 = 0 then Some [char_of (s * 4 + t div 16), char_of (t mod 16 * 16 + u div 4)] else None)"
| "decodeSextets [s, t] = (if t mod 16 = 0 then Some [char_of (s * 4 + t div 16)] else None)"
| "decodeSextets [s] = None"
| "decodeSextets [] = Some []"

fun sextets :: "string \<Rightarrow> int list option" where
  "sextets [] = Some []"
| "sextets (c # cs) =
     (if c = CR \<or> c = LF then sextets cs
      else case decodeSextet c of
        None \<Rightarrow> None
      | Some v \<Rightarrow> (case sextets cs of None \<Rightarrow> None | Some vs \<Rightarrow> Some (v # vs)))"

definition base64Decode :: "string \<Rightarrow> string option" where
  "base64Decode s = (case sextets s of None \<Rightarrow> None | Some vs \<Rightarrow> decodeSextets vs)"


section \<open>Tokens\<close>

definition tokenPrefix :: string where
  "tokenPrefix = ''rw1_''"

definition tokenEntropyBytes :: nat where
  "tokenEntropyBytes = 32"

definition tokenLength :: nat where
  "tokenLength = length tokenPrefix + 43"

text \<open>\<^verbatim>\<open>io.ReadFull\<close> of 32 bytes from a source that delivers the given ones.\<close>

definition Generate :: "string \<Rightarrow> string result" where
  "Generate random =
     (if length random < tokenEntropyBytes then errorf ''failed to read token entropy''
      else Inr (tokenPrefix @ base64Encode (take tokenEntropyBytes random)))"

definition tokenEntropy :: "string \<Rightarrow> string option" where
  "tokenEntropy token =
     (if length token \<noteq> tokenLength \<or> \<not> hasPrefix token tokenPrefix then None
      else let encoded = drop (length tokenPrefix) token in
        case base64Decode encoded of
          None \<Rightarrow> None
        | Some entropy \<Rightarrow>
            if length entropy \<noteq> tokenEntropyBytes \<or> base64Encode entropy \<noteq> encoded then None
            else Some entropy)"

definition tokenDigest :: "(string \<Rightarrow> 'd) \<Rightarrow> string \<Rightarrow> 'd option" where
  "tokenDigest sha token = map_option sha (tokenEntropy token)"

definition ValidToken :: "string \<Rightarrow> bool" where
  "ValidToken token = (tokenDigest (\<lambda>e. e) token \<noteq> None)"


section \<open>The index of principals\<close>

type_synonym 'd index = "('d \<times> string) list"

definition addEntry ::
  "(string \<Rightarrow> 'd) \<Rightarrow> ('d \<rightharpoonup> string) \<times> 'd index \<Rightarrow> string \<times> string \<Rightarrow> (('d \<rightharpoonup> string) \<times> 'd index) result" where
  "addEntry sha st idv =
     (case (st, idv) of ((seen, entries), (pid, val)) \<Rightarrow>
        case tokenDigest sha val of
          None \<Rightarrow> Inl (Errorf ''principal %q has an invalid token'' [ArgS pid])
        | Some digest \<Rightarrow>
            (case seen digest of
               Some previous \<Rightarrow>
                 Inl (Errorf ''principal %q duplicates token for principal %q'' [ArgS pid, ArgS previous])
             | None \<Rightarrow> Inr (seen(digest \<mapsto> pid), entries @ [(digest, pid)])))"

text \<open>The principals in the order of their sorted identifiers, each with its tokens.\<close>

definition tokenPairs :: "string list gomap \<Rightarrow> (string \<times> string) list" where
  "tokenPairs principals =
     concat (map (\<lambda>pid. map (\<lambda>v. (pid, v)) (mapGet [] principals pid)) (sortedIDs principals))"

definition NewIndex :: "(string \<Rightarrow> 'd) \<Rightarrow> string list gomap \<Rightarrow> 'd index result" where
  "NewIndex sha principals =
     bindE (foldE (addEntry sha) (Map.empty, []) (tokenPairs principals)) (\<lambda>(_, entries). Inr entries)"

fun authenticateLoop :: "'d \<Rightarrow> 'd index \<Rightarrow> int \<Rightarrow> string \<Rightarrow> int \<times> string" where
  "authenticateLoop digest [] hits found = (hits, found)"
| "authenticateLoop digest ((d, who) # entries) hits found =
     (let match = (if digest = d then 1 else 0) in
      authenticateLoop digest entries (hits + match) (if match = 1 then who else found))"

text \<open>A nil index is \<^term>\<open>None\<close>; the result is \<^term>\<open>None\<close> where the Go function returns false.\<close>

definition Authenticate :: "(string \<Rightarrow> 'd) \<Rightarrow> 'd index option \<Rightarrow> string \<Rightarrow> string option" where
  "Authenticate sha index token =
     (case (tokenDigest sha token, index) of
        (Some digest, Some entries) \<Rightarrow>
          (case authenticateLoop digest entries 0 [] of (hits, found) \<Rightarrow>
             if hits = 1 then Some found else None)
      | _ \<Rightarrow> None)"


section \<open>The authenticated context\<close>

record rpc_context =
  Metadata :: "string list gomap"
  ctxPrincipal :: "string option"
  ctxRequestID :: "string option"

definition WithPrincipal :: "rpc_context \<Rightarrow> string \<Rightarrow> rpc_context" where
  "WithPrincipal ctx who = ctx\<lparr>ctxPrincipal := Some who\<rparr>"

definition WithRequestID :: "rpc_context \<Rightarrow> string \<Rightarrow> rpc_context" where
  "WithRequestID ctx requestID = ctx\<lparr>ctxRequestID := Some requestID\<rparr>"

definition unauthenticated :: go_error where
  "unauthenticated = StatusError \<lparr>Code = Unauthenticated, Message = ''authentication required'', Details = []\<rparr>"

text \<open>\<^verbatim>\<open>hex.EncodeToString\<close> of 16 random bytes; \<^term>\<open>None\<close> is a failing random source.\<close>

definition hexPair :: "char \<Rightarrow> string" where
  "hexPair c =
     map (\<lambda>d. if d < 10 then char_of (48 + d) else char_of (87 + d)) [code c div 16, code c mod 16 :: int]"

definition newRequestID :: "string option \<Rightarrow> string option" where
  "newRequestID random = map_option (\<lambda>bytes. concat (map hexPair (take 16 bytes))) random"

definition authenticatedContext ::
  "(string \<Rightarrow> 'd) \<Rightarrow> 'd index option \<Rightarrow> string option \<Rightarrow> rpc_context \<Rightarrow> rpc_context result" where
  "authenticatedContext sha index random ctx =
     (let values = mapGet [] (Metadata ctx) ''authorization'' in
      if length values \<noteq> 1 \<or> \<not> hasPrefix (values ! 0) ''Bearer '' then Inl unauthenticated
      else let token = trimPrefix (values ! 0) ''Bearer '' in
        case Authenticate sha index token of
          None \<Rightarrow> Inl unauthenticated
        | Some who \<Rightarrow>
            (case newRequestID random of
               None \<Rightarrow> Inl (StatusError \<lparr>Code = Unavailable, Message = ''service unavailable'', Details = []\<rparr>)
             | Some requestID \<Rightarrow> Inr (WithRequestID (WithPrincipal ctx who) requestID)))"

definition isHealthMethod :: "string \<Rightarrow> bool" where
  "isHealthMethod fullMethod =
     (fullMethod = ''/grpc.health.v1.Health/Check'' \<or> fullMethod = ''/grpc.health.v1.Health/Watch'')"

text \<open>
  The interceptor around a handler. The handler takes its context; the stream interceptor hands it
  the same context through a wrapped stream, so one definition serves for both.
\<close>

definition ServerInterceptor ::
  "(string \<Rightarrow> 'd) \<Rightarrow> 'd index option \<Rightarrow> string option \<Rightarrow> (rpc_context \<Rightarrow> 'r result) \<Rightarrow> string
     \<Rightarrow> rpc_context \<Rightarrow> 'r result" where
  "ServerInterceptor sha index random handler fullMethod ctx =
     (if isHealthMethod fullMethod then handler ctx
      else bindE (authenticatedContext sha index random ctx) handler)"


section \<open>Base64 round trip\<close>

lemma decodeSextet_encodeSextet: "0 \<le> v \<Longrightarrow> v < 64 \<Longrightarrow> decodeSextet (encodeSextet v) = Some v"
  by (auto simp: decodeSextet_def encodeSextet_def Let_def)

lemma encodeSextet_no_break: "0 \<le> v \<Longrightarrow> v < 64 \<Longrightarrow> encodeSextet v \<noteq> CR \<and> encodeSextet v \<noteq> LF"
  using decodeSextet_encodeSextet [of v] by (auto simp: decodeSextet_def Let_def)

lemma sextets_encodeSextet:
  "0 \<le> v \<Longrightarrow> v < 64 \<Longrightarrow> sextets (encodeSextet v # cs) = map_option (Cons v) (sextets cs)"
  using encodeSextet_no_break [of v] decodeSextet_encodeSextet [of v] by (auto split: option.splits)

lemma sextet_bounds:
  fixes a b :: int
  assumes "0 \<le> a" "a < 256" "0 \<le> b" "b < 256"
  shows "0 \<le> a div 4" "a div 4 < 64" "0 \<le> a mod 4 * 16 + b div 16" "a mod 4 * 16 + b div 16 < 64"
    "0 \<le> a mod 16 * 4 + b div 64" "a mod 16 * 4 + b div 64 < 64" "0 \<le> a mod 64" "a mod 64 < 64"
    "0 \<le> a mod 4 * 16" "a mod 4 * 16 < 64" "0 \<le> a mod 16 * 4" "a mod 16 * 4 < 64"
  using assms by auto


text \<open>Each decoded byte is put together from the sextets its bits were spread over.\<close>

lemma char_of_code_eq: "n = code c \<Longrightarrow> char_of n = c"
  by simp

lemma sextetA: "char_of (code a div 4 * 4 + (code a mod 4 * 16 + code b div 16) div 16) = (a :: char)"
proof (rule char_of_code_eq)
  have "code b div 16 < 16" "0 \<le> code b div 16"
    using code_less_256 [of b] code_nonneg [of b] by linarith+
  then have "(code a mod 4 * 16 + code b div 16) div 16 = code a mod 4"
    by simp
  then show "code a div 4 * 4 + (code a mod 4 * 16 + code b div 16) div 16 = code a"
    by simp
qed

lemma sextetB:
  "char_of ((code a mod 4 * 16 + code b div 16) mod 16 * 16 + (code b mod 16 * 4 + code c div 64) div 4) = (b :: char)"
proof (rule char_of_code_eq)
  have "code b div 16 < 16" "0 \<le> code b div 16" "code c div 64 < 4" "0 \<le> code c div 64"
    using code_less_256 [of b] code_nonneg [of b] code_less_256 [of c] code_nonneg [of c] by linarith+
  then have "(code a mod 4 * 16 + code b div 16) mod 16 = code b div 16"
    "(code b mod 16 * 4 + code c div 64) div 4 = code b mod 16"
    by simp_all
  then show "(code a mod 4 * 16 + code b div 16) mod 16 * 16 + (code b mod 16 * 4 + code c div 64) div 4 = code b"
    by simp
qed

lemma sextetC: "char_of ((code b mod 16 * 4 + code c div 64) mod 4 * 64 + code c mod 64) = (c :: char)"
proof (rule char_of_code_eq)
  have "code c div 64 < 4" "0 \<le> code c div 64"
    using code_less_256 [of c] code_nonneg [of c] by linarith+
  then have "(code b mod 16 * 4 + code c div 64) mod 4 = code c div 64"
    by simp
  then show "(code b mod 16 * 4 + code c div 64) mod 4 * 64 + code c mod 64 = code c"
    by simp
qed

lemma sextetB0:
  "char_of ((code a mod 4 * 16 + code b div 16) mod 16 * 16 + (code b mod 16 * 4) div 4) = (b :: char)"
proof (rule char_of_code_eq)
  have "code b div 16 < 16" "0 \<le> code b div 16"
    using code_less_256 [of b] code_nonneg [of b] by linarith+
  then have "(code a mod 4 * 16 + code b div 16) mod 16 = code b div 16"
    by simp
  then show "(code a mod 4 * 16 + code b div 16) mod 16 * 16 + (code b mod 16 * 4) div 4 = code b"
    by simp
qed

lemma sextetA0: "char_of (code a div 4 * 4 + (code a mod 4 * 16) div 16) = (a :: char)"
  by (rule char_of_code_eq) simp

lemma base64Decode_base64Encode: "base64Decode (base64Encode e) = Some e"
proof -
  have "\<exists>vs. sextets (base64Encode e) = Some vs \<and> decodeSextets vs = Some e"
  proof (induction e rule: base64Encode.induct)
    case (1 a b c rest)
    then obtain vs where vs: "sextets (base64Encode rest) = Some vs" "decodeSextets vs = Some rest" by blast
    note bounds = sextet_bounds [OF code_nonneg code_less_256 code_nonneg code_less_256]
    have "sextets (base64Encode (a # b # c # rest)) =
        Some (code a div 4 # (code a mod 4 * 16 + code b div 16) # (code b mod 16 * 4 + code c div 64)
          # (code c mod 64) # vs)"
      using vs(1) bounds by (simp del: sextets.simps add: sextets_encodeSextet)
    moreover have "decodeSextets (code a div 4 # (code a mod 4 * 16 + code b div 16)
        # (code b mod 16 * 4 + code c div 64) # (code c mod 64) # vs) = Some (a # b # c # rest)"
      using vs(2) sextetA [of a b] sextetB [of a b c] sextetC [of b c] by simp
    ultimately show ?case by blast
  next
    case (2 a b)
    note bounds = sextet_bounds [OF code_nonneg code_less_256 code_nonneg code_less_256]
    have "sextets (base64Encode [a, b]) =
        Some [code a div 4, code a mod 4 * 16 + code b div 16, code b mod 16 * 4]"
      using bounds by (simp del: sextets.simps(2) add: sextets_encodeSextet)
    then show ?case
      using sextetA [of a b] sextetB0 [of a b] by simp
  next
    case (3 a)
    note bounds = sextet_bounds [OF code_nonneg code_less_256 code_nonneg code_less_256]
    have "sextets (base64Encode [a]) = Some [code a div 4, code a mod 4 * 16]"
      using bounds by (simp del: sextets.simps(2) add: sextets_encodeSextet)
    then show ?case
      using sextetA0 [of a] by simp
  qed simp
  then show ?thesis
    by (auto simp: base64Decode_def)
qed

lemma length_base64Encode: "length (base64Encode e) = (4 * length e + 2) div 3"
  by (induction e rule: base64Encode.induct) auto


section \<open>Tokens are canonical\<close>

lemma tokenEntropy_encode: "length e = 32 \<Longrightarrow> tokenEntropy (tokenPrefix @ base64Encode e) = Some e"
  by (simp add: tokenEntropy_def tokenLength_def tokenEntropyBytes_def hasPrefix_def length_base64Encode
      base64Decode_base64Encode)

lemma tokenEntropy_Some:
  "tokenEntropy t = Some e \<longleftrightarrow> length e = 32 \<and> t = tokenPrefix @ base64Encode e"
proof
  assume *: "tokenEntropy t = Some e"
  then obtain rest where rest: "t = tokenPrefix @ rest"
    by (auto simp: tokenEntropy_def hasPrefix_def prefix_def split: if_splits)
  with * show "length e = 32 \<and> t = tokenPrefix @ base64Encode e"
    by (auto simp: tokenEntropy_def tokenEntropyBytes_def Let_def split: if_splits option.splits)
qed (use tokenEntropy_encode in auto)

lemma tokenDigest_Some:
  "tokenDigest sha t = Some d \<longleftrightarrow> (\<exists>e. length e = 32 \<and> t = tokenPrefix @ base64Encode e \<and> d = sha e)"
  by (auto simp: tokenDigest_def tokenEntropy_Some)

text \<open>
  Tokens are canonical: a string is a valid token exactly when it is \<^verbatim>\<open>rw1_\<close> followed by the
  unpadded URL base64 encoding of 32 bytes; no two different tokens carry the same 32 bytes, and
  every token \<^verbatim>\<open>Generate\<close> returns is valid and carries the first 32 bytes of the random source.
\<close>

theorem ValidToken_canonical:
  "(ValidToken t \<longleftrightarrow> (\<exists>e. length e = 32 \<and> t = tokenPrefix @ base64Encode e))
   \<and> (tokenEntropy t = Some e \<and> tokenEntropy t' = Some e \<longrightarrow> t = t')
   \<and> (length random \<ge> 32 \<longrightarrow>
       (\<exists>tok. Generate random = Inr tok \<and> tokenEntropy tok = Some (take 32 random)))"
  using tokenEntropy_encode [of "take 32 random"]
  by (auto simp: ValidToken_def tokenDigest_def tokenEntropy_Some Generate_def tokenEntropyBytes_def)

theorem ValidToken_canonical_witness:
  "\<exists>tok. Generate (replicate 40 CHR ''x'') = Inr tok \<and> ValidToken tok"
proof -
  have "\<exists>tok. Generate (replicate 40 CHR ''x'') = Inr tok
      \<and> tokenEntropy tok = Some (take 32 (replicate 40 CHR ''x''))"
    using ValidToken_canonical [of _ _ _ "replicate 40 CHR ''x''"] by simp
  then show ?thesis
    by (auto simp: ValidToken_def tokenDigest_def)
qed


section \<open>The index\<close>

lemma addEntry_Inr:
  "addEntry sha (seen, es) (pid, v) = Inr st \<longleftrightarrow>
     (\<exists>d. tokenDigest sha v = Some d \<and> seen d = None \<and> st = (seen(d \<mapsto> pid), es @ [(d, pid)]))"
  by (auto simp: addEntry_def split: option.splits)

definition entryOf :: "(string \<Rightarrow> 'd) \<Rightarrow> string \<times> string \<Rightarrow> 'd \<times> string" where
  "entryOf sha pv = (the (tokenDigest sha (snd pv)), fst pv)"

lemma foldE_addEntry:
  "foldE (addEntry sha) (seen, es) pvs = Inr (seen', es') \<Longrightarrow>
     dom seen = fst ` set es \<Longrightarrow> distinct (map fst es) \<Longrightarrow>
     es' = es @ map (entryOf sha) pvs \<and> distinct (map fst es')
       \<and> list_all (\<lambda>pv. tokenDigest sha (snd pv) \<noteq> None) pvs"
proof (induction pvs arbitrary: seen es)
  case (Cons pv pvs)
  obtain pid v where pv: "pv = (pid, v)" by force
  from Cons.prems(1) pv obtain d where d: "tokenDigest sha v = Some d" "seen d = None"
    and rest: "foldE (addEntry sha) (seen(d \<mapsto> pid), es @ [(d, pid)]) pvs = Inr (seen', es')"
    by (auto simp: result_simps addEntry_Inr)
  have new: "d \<notin> fst ` set es"
    using d(2) Cons.prems(2) by (metis domIff)
  have dom: "dom (seen(d \<mapsto> pid)) = fst ` set (es @ [(d, pid)])"
    using Cons.prems(2) by simp
  have dist: "distinct (map fst (es @ [(d, pid)]))"
    using Cons.prems(3) new by simp
  note ih = Cons.IH [OF rest dom dist]
  then have "es' = es @ map (entryOf sha) (pv # pvs)"
    using d pv by (simp add: entryOf_def)
  moreover have "list_all (\<lambda>pv. tokenDigest sha (snd pv) \<noteq> None) (pv # pvs)"
    using ih d pv by simp
  ultimately show ?case
    using ih by blast
qed auto

lemma set_tokenPairs: "(pid, v) \<in> set (tokenPairs ps) \<longleftrightarrow> v \<in> set (mapGet [] ps pid)"
proof -
  have "mapGet [] ps pid = []" if "pid \<notin> set (keys ps)"
    using that map_of_keys [of pid ps] by (simp add: mapGet_def)
  then show ?thesis
    by (cases "pid \<in> set (keys ps)") (auto simp: tokenPairs_def)
qed

lemma NewIndex_Inr:
  assumes "NewIndex sha principals = Inr entries"
  shows "entries = map (entryOf sha) (tokenPairs principals)" and "distinct (map fst entries)"
    and "v \<in> set (mapGet [] principals who) \<Longrightarrow> tokenDigest sha v \<noteq> None"
proof -
  from assms obtain seen where f: "foldE (addEntry sha) (Map.empty, []) (tokenPairs principals) = Inr (seen, entries)"
    by (auto simp: NewIndex_def result_simps)
  have *: "entries = map (entryOf sha) (tokenPairs principals)" "distinct (map fst entries)"
    "list_all (\<lambda>pv. tokenDigest sha (snd pv) \<noteq> None) (tokenPairs principals)"
    using foldE_addEntry [OF f] unfolding append_Nil by (metis dom_empty image_empty list.set(1) distinct.simps(1) list.simps(8))+
  show "entries = map (entryOf sha) (tokenPairs principals)" "distinct (map fst entries)"
    by (rule *)+
  show "tokenDigest sha v \<noteq> None" if "v \<in> set (mapGet [] principals who)"
    using *(3) that set_tokenPairs [of who v principals] by (force simp: list_all_iff)
qed

lemma NewIndex_entry:
  assumes "NewIndex sha principals = Inr entries"
  shows "map_of entries d = Some who \<longleftrightarrow>
    (\<exists>v \<in> set (mapGet [] principals who). tokenDigest sha v = Some d)"
proof -
  note ix = NewIndex_Inr [OF assms]
  have "map_of entries d = Some who \<longleftrightarrow> (d, who) \<in> set entries"
    using ix(2) by simp
  also have "\<dots> \<longleftrightarrow> (\<exists>v. (who, v) \<in> set (tokenPairs principals) \<and> the (tokenDigest sha v) = d)"
    unfolding ix(1) by (force simp: entryOf_def)
  also have "\<dots> \<longleftrightarrow> (\<exists>v \<in> set (mapGet [] principals who). tokenDigest sha v = Some d)"
    using ix(3) set_tokenPairs [of who _ principals] by (metis option.collapse option.sel)
  finally show ?thesis .
qed

lemma authenticateLoop_none: "d \<notin> fst ` set entries \<Longrightarrow> authenticateLoop d entries n w = (n, w)"
  by (induction entries arbitrary: n w) (auto simp: Let_def)

lemma authenticateLoop_eq:
  "distinct (map fst entries) \<Longrightarrow>
     authenticateLoop d entries n w =
       (case map_of entries d of None \<Rightarrow> (n, w) | Some who \<Rightarrow> (n + 1, who))"
  by (induction entries arbitrary: n w) (auto simp: Let_def authenticateLoop_none split: option.splits)

text \<open>What a successful authentication means, for any digest function.\<close>

lemma Authenticate_map_of:
  "distinct (map fst entries) \<Longrightarrow>
     Authenticate sha (Some entries) t = Option.bind (tokenDigest sha t) (map_of entries)"
  by (cases "tokenDigest sha t") (auto simp: Authenticate_def authenticateLoop_eq split: option.splits)

lemma Authenticate_iff:
  assumes "NewIndex sha principals = Inr entries"
  shows "Authenticate sha (Some entries) t = Some who \<longleftrightarrow>
    (\<exists>d. tokenDigest sha t = Some d \<and> (\<exists>v \<in> set (mapGet [] principals who). tokenDigest sha v = Some d))"
  by (simp add: Authenticate_map_of [OF NewIndex_Inr(2) [OF assms]] bind_eq_Some_conv NewIndex_entry [OF assms])

text \<open>
  C24. Authentication is exact. For an index built from the principals' tokens, a presented string
  authenticates as a principal exactly when it is one of that principal's own tokens, provided the
  digest function does not collide on it and a configured token. In particular no token is accepted
  for two principals.
\<close>

theorem Authenticate_exact:
  assumes "NewIndex sha principals = Inr entries"
    and "\<forall>p v. v \<in> set (mapGet [] principals p) \<longrightarrow> tokenDigest sha v = tokenDigest sha t \<longrightarrow> v = t"
  shows "Authenticate sha (Some entries) t = Some who \<longleftrightarrow> t \<in> set (mapGet [] principals who)"
  using Authenticate_iff [OF assms(1)] NewIndex_Inr(3) [OF assms(1)] assms(2) by (metis option.exhaust)

text \<open>Two principals with one token each.\<close>

definition exampleToken :: "char \<Rightarrow> string" where
  "exampleToken c = tokenPrefix @ base64Encode (replicate 32 c)"

definition examplePrincipals :: "string list gomap" where
  "examplePrincipals = [(''bob'', [exampleToken CHR ''b'']), (''alice'', [exampleToken CHR ''a''])]"

theorem Authenticate_exact_witness:
  "\<exists>entries. NewIndex (\<lambda>e. e) examplePrincipals = Inr entries
     \<and> Authenticate (\<lambda>e. e) (Some entries) (exampleToken CHR ''a'') = Some ''alice''"
proof -
  have "isOK (NewIndex (\<lambda>e. e) examplePrincipals)"
    by code_simp
  then obtain entries where ix: "NewIndex (\<lambda>e. e) examplePrincipals = Inr entries"
    by (auto simp: isOK_iff)
  have "tokenDigest (\<lambda>e. e) (exampleToken CHR ''a'') = Some (replicate 32 CHR ''a'')"
    using tokenEntropy_encode [of "replicate 32 CHR ''a''"] by (simp add: exampleToken_def tokenDigest_def)
  then have "\<forall>p v. v \<in> set (mapGet [] examplePrincipals p) \<longrightarrow>
      tokenDigest (\<lambda>e. e) v = tokenDigest (\<lambda>e. e) (exampleToken CHR ''a'') \<longrightarrow> v = exampleToken CHR ''a''"
    by (simp only:) (auto simp: exampleToken_def tokenDigest_Some)
  moreover have "exampleToken CHR ''a'' \<in> set (mapGet [] examplePrincipals ''alice'')"
    by (simp add: examplePrincipals_def mapGet_def)
  ultimately show ?thesis
    using Authenticate_exact [OF ix] ix by blast
qed

text \<open>
  No handler runs for a caller that is not known: apart from the two gRPC health methods, a
  request reaches the handler only if it carries exactly one \<^verbatim>\<open>authorization\<close> value, of the form
  \<^verbatim>\<open>Bearer\<close> token, that authenticates; the handler then sees that principal, whatever principal the
  incoming context claimed; in every other case the caller gets \<^verbatim>\<open>Unauthenticated\<close>, or
  \<^verbatim>\<open>Unavailable\<close> when no request ID can be drawn.
\<close>

theorem ServerInterceptor_admits:
  assumes "\<not> isHealthMethod fullMethod"
  shows "(\<exists>token who rid. mapGet [] (Metadata ctx) ''authorization'' = [''Bearer '' @ token]
      \<and> Authenticate sha index token = Some who \<and> newRequestID random = Some rid
      \<and> ServerInterceptor sha index random handler fullMethod ctx =
          handler (ctx\<lparr>ctxPrincipal := Some who, ctxRequestID := Some rid\<rparr>))
    \<or> (\<exists>st. ServerInterceptor sha index random handler fullMethod ctx = Inl (StatusError st)
        \<and> (Code st = Unauthenticated \<or> Code st = Unavailable \<and> newRequestID random = None))"
proof (cases "\<exists>token. mapGet [] (Metadata ctx) ''authorization'' = [''Bearer '' @ token]")
  case True
  then obtain token where t: "mapGet [] (Metadata ctx) ''authorization'' = [''Bearer '' @ token]" by blast
  have ac: "authenticatedContext sha index random ctx = (case Authenticate sha index token of
          None \<Rightarrow> Inl unauthenticated
        | Some who \<Rightarrow> (case newRequestID random of
               None \<Rightarrow> Inl (StatusError \<lparr>Code = Unavailable, Message = ''service unavailable'', Details = []\<rparr>)
             | Some requestID \<Rightarrow> Inr (WithRequestID (WithPrincipal ctx who) requestID)))"
    using t trimPrefix_append [of "''Bearer ''" token]
    by (simp add: authenticatedContext_def hasPrefix_def del: append.simps)
  show ?thesis
    using assms t
    by (cases "Authenticate sha index token"; cases "newRequestID random")
      (auto simp: ServerInterceptor_def ac unauthenticated_def WithPrincipal_def WithRequestID_def)
next
  case False
  let ?v = "mapGet [] (Metadata ctx) ''authorization''"
  have "length ?v \<noteq> 1 \<or> \<not> hasPrefix (?v ! 0) ''Bearer ''"
    using False by (auto simp: hasPrefix_def prefix_def length_Suc_conv)
  then have "authenticatedContext sha index random ctx = Inl unauthenticated"
    unfolding authenticatedContext_def Let_def by (rule if_P)
  then show ?thesis
    using assms by (auto simp: ServerInterceptor_def unauthenticated_def)
qed

theorem ServerInterceptor_admits_witness:
  "\<exists>st. ServerInterceptor (\<lambda>e. e) (Some []) (Some ''0123456789abcdef'') (\<lambda>ctx. Inr (ctxPrincipal ctx))
     ''/repowolf.v1.GitHub/Execute'' \<lparr>Metadata = [], ctxPrincipal = Some ''root'', ctxRequestID = None\<rparr> =
     Inl (StatusError st) \<and> Code st = Unauthenticated"
proof -
  have "\<not> isHealthMethod ''/repowolf.v1.GitHub/Execute''"
    by code_simp
  from ServerInterceptor_admits [OF this,
      of "\<lparr>Metadata = [], ctxPrincipal = Some ''root'', ctxRequestID = None\<rparr>" "\<lambda>e. e" "Some []"
        "Some ''0123456789abcdef''" "\<lambda>ctx. Inr (ctxPrincipal ctx)"]
  show ?thesis
    by (auto simp: mapGet_def newRequestID_def)
qed

end
