(* ===== verification/Audit_Log.thy ===== *)
theory Audit_Log
  imports Go_Errors
begin

text \<open>
  Package \<^verbatim>\<open>internal/audit\<close>: the events (\<^verbatim>\<open>event.go\<close>) and the writer that serialises them
  (\<^verbatim>\<open>writer.go\<close>). A time stamp is a number; the zero time is 0. The duration of an event is not modelled. The mutex of the writer
  is the field \<open>locked\<close>: another goroutine is inside a write.
\<close>

datatype outcome = Accepted | Denied | OutcomeCompleted | Cancelled | Failed | Unknown | Partial

record event =
  Timestamp :: int
  evRequestID :: string
  evPrincipal :: string
  evProvider :: string
  evRepository :: string
  Operation :: string
  Outcome :: outcome
  evReason :: string
  InputBytes :: int
  OutputBytes :: int
  Refs :: "string list"
  UpdateCount :: int
  Transitioned :: "bool option"

definition zeroEvent :: event where
  "zeroEvent =
     \<lparr>Timestamp = 0, evRequestID = [], evPrincipal = [], evProvider = [], evRepository = [], Operation = [],
      Outcome = OutcomeCompleted, evReason = [], InputBytes = 0, OutputBytes = 0, Refs = [],
      UpdateCount = 0, Transitioned = None\<rparr>"

record audit_writer =
  hasEncoder :: bool
  records :: "event list"
  locked :: bool
  flusher :: "go_error option option"

definition NewWriter :: "bool \<Rightarrow> go_error option option \<Rightarrow> audit_writer" where
  "NewWriter hasOutput flsh = \<lparr>hasEncoder = hasOutput, records = [], locked = False, flusher = flsh\<rparr>"

text \<open>
  \<^verbatim>\<open>Write\<close>, entered with the mutex held. The arguments are the clock and whether the encoder accepts the
  record; a nil writer is \<^term>\<open>None\<close>.
\<close>

definition audit_Write ::
  "int \<Rightarrow> (event \<Rightarrow> bool) \<Rightarrow> audit_writer option \<Rightarrow> event \<Rightarrow> go_error option \<times> audit_writer option" where
  "audit_Write now encodes writer ev =
     (case writer of
        None \<Rightarrow> (Some (Sentinel ErrSink), None)
      | Some w \<Rightarrow>
          if \<not> hasEncoder w then (Some (Sentinel ErrSink), Some w)
          else (let ev' = (if Timestamp ev = 0 then ev\<lparr>Timestamp := now\<rparr> else ev) in
            if \<not> encodes ev' then (Some (Sentinel ErrSink), Some w)
            else (None, Some (w\<lparr>records := records w @ [ev']\<rparr>))))"

definition flushLocked :: "audit_writer \<Rightarrow> go_error option" where
  "flushLocked w =
     (case flusher w of None \<Rightarrow> None | Some None \<Rightarrow> None | Some (Some _) \<Rightarrow> Some (Sentinel ErrSink))"

definition audit_Flush :: "audit_writer option \<Rightarrow> go_error option" where
  "audit_Flush writer = (case writer of None \<Rightarrow> Some (Sentinel ErrSink) | Some w \<Rightarrow> flushLocked w)"

definition FlushIfIdle :: "audit_writer option \<Rightarrow> go_error option" where
  "FlushIfIdle writer =
     (case writer of
        None \<Rightarrow> Some (Sentinel ErrSink)
      | Some w \<Rightarrow> if locked w then Some (Sentinel ErrSink) else flushLocked w)"

text \<open>A write that reports success recorded the event, stamped; a failed one recorded nothing.\<close>

lemma audit_Write_records:
  assumes "now \<noteq> 0" and "audit_Write now encodes (Some w) ev = (err, Some w')"
  shows "if err = None
    then \<exists>ev'. records w' = records w @ [ev'] \<and> Timestamp ev' \<noteq> 0 \<and> ev' = ev\<lparr>Timestamp := Timestamp ev'\<rparr>
    else w' = w"
  using assms by (auto simp: audit_Write_def Let_def split: if_splits)

end
