(* ===== verification/Rpcstatus.thy ===== *)
theory Rpcstatus
  imports Go_Errors
begin

text \<open>
  \<^verbatim>\<open>internal/rpcstatus/status.go\<close>: the translation of domain failures to gRPC statuses that carry
  no untrusted text, and the recognisers of the structured ones.

  The package \<^verbatim>\<open>google.golang.org/grpc/status\<close> is not part of the repository: what the code uses of it
  is the record \<open>grpc_lib\<close>, an argument of the definitions, and its documented behaviour is the
  predicate \<open>grpcDocumented\<close>.
\<close>

record grpc_lib =
  FromError :: "go_error \<Rightarrow> grpc_status option"
  WithDetails :: "grpc_status \<Rightarrow> error_info \<Rightarrow> grpc_status option"

text \<open>\<^verbatim>\<open>status.Error(code, msg)\<close> and \<^verbatim>\<open>status.New(code, msg)\<close>.\<close>

definition newStatus :: "grpc_code \<Rightarrow> string \<Rightarrow> grpc_status" where
  "newStatus c msg = \<lparr>Code = c, Message = msg, Details = []\<rparr>"

definition statusError :: "grpc_code \<Rightarrow> string \<Rightarrow> go_error" where
  "statusError c msg = StatusError (newStatus c msg)"

definition issueKindReason :: string where "issueKindReason = ''GITEA_ISSUE_KIND_PULL_REQUEST''"
definition pullKindReason :: string where "pullKindReason = ''GITEA_PULL_KIND_ISSUE''"
definition issueKindDomain :: string where "issueKindDomain = ''repowolf.dev/gitea''"
definition giteaWriteOutcomeUnknownReason :: string where
  "giteaWriteOutcomeUnknownReason = ''GITEA_WRITE_OUTCOME_UNKNOWN''"
definition giteaWriteOutcomeUnknownDomain :: string where
  "giteaWriteOutcomeUnknownDomain = ''repowolf.dev/gitea''"
definition giteaEditPartialReason :: string where "giteaEditPartialReason = ''GITEA_EDIT_PARTIAL''"
definition giteaEditPartialDomain :: string where "giteaEditPartialDomain = ''repowolf.dev/gitea''"

lemmas reason_defs =
  issueKindReason_def pullKindReason_def issueKindDomain_def giteaWriteOutcomeUnknownReason_def
  giteaWriteOutcomeUnknownDomain_def giteaEditPartialReason_def giteaEditPartialDomain_def

definition internalFailure :: go_error where
  "internalFailure = statusError Internal ''internal failure''"

definition issueKindError :: "grpc_lib \<Rightarrow> go_error" where
  "issueKindError g =
     (case WithDetails g (newStatus FailedPrecondition ''index is a pull request; use tea pulls'')
             \<lparr>Reason = issueKindReason, Domain = issueKindDomain\<rparr> of
        None \<Rightarrow> internalFailure | Some s \<Rightarrow> StatusError s)"

definition pullKindError :: "grpc_lib \<Rightarrow> go_error" where
  "pullKindError g =
     (case WithDetails g (newStatus FailedPrecondition ''index is an issue; use tea issues'')
             \<lparr>Reason = pullKindReason, Domain = issueKindDomain\<rparr> of
        None \<Rightarrow> internalFailure | Some s \<Rightarrow> StatusError s)"

definition writeOutcomeUnknownError :: "grpc_lib \<Rightarrow> go_error" where
  "writeOutcomeUnknownError g =
     (case WithDetails g (newStatus Unavailable ''write outcome unknown'')
             \<lparr>Reason = giteaWriteOutcomeUnknownReason, Domain = giteaWriteOutcomeUnknownDomain\<rparr> of
        None \<Rightarrow> internalFailure | Some s \<Rightarrow> TrustedStatus s ErrWriteOutcomeUnknown)"

definition editPartialError :: "grpc_lib \<Rightarrow> go_error" where
  "editPartialError g =
     (case WithDetails g (newStatus FailedPrecondition ''issue edit partially applied'')
             \<lparr>Reason = giteaEditPartialReason, Domain = giteaEditPartialDomain\<rparr> of
        None \<Rightarrow> internalFailure | Some s \<Rightarrow> TrustedStatus s ErrEditPartial)"

definition mapDomainError :: "grpc_lib \<Rightarrow> go_error \<Rightarrow> go_error option" where
  "mapDomainError g err =
     (if errors_Is err ErrUnauthenticated then Some (statusError Unauthenticated ''authentication required'')
      else if errors_Is err ErrDenied then Some (statusError PermissionDenied ''permission denied'')
      else if errors_Is err ErrInvalidArgument \<or> errors_Is err ErrRefPolicy \<or> errors_Is err ErrInvalidCommand
      then Some (statusError InvalidArgument ''invalid request'')
      else if errors_Is err ErrUnsupported then Some (statusError Unimplemented ''unsupported operation'')
      else if errors_Is err ErrRepositoryUnavailable
      then Some (statusError Unavailable ''repository unavailable'')
      else if errors_Is err ErrNotFound then Some (statusError NotFound ''not found'')
      else if errors_Is err ErrIssueKind then Some (issueKindError g)
      else if errors_Is err ErrPullKind then Some (pullKindError g)
      else if errors_Is err ErrFailedPrecondition
      then Some (statusError FailedPrecondition ''operation precondition failed'')
      else if errors_Is err ErrWriteOutcomeUnknown then Some (writeOutcomeUnknownError g)
      else if errors_Is err ErrEditPartial then Some (editPartialError g)
      else if errors_Is err ContextDeadlineExceeded then Some (statusError DeadlineExceeded ''deadline exceeded'')
      else if errors_Is err ContextCanceled then Some (statusError Canceled ''request canceled'')
      else if errors_Is err ErrResourceExhausted \<or> errors_Is err ErrInputLimit \<or> errors_Is err ErrOutputLimit
      then Some (statusError ResourceExhausted ''request limit exceeded'')
      else if errors_Is err ErrServiceUnavailable then Some (statusError Unavailable ''service unavailable'')
      else if errors_Is err ErrProviderFailure then Some (statusError Unavailable ''provider failure'')
      else if errors_Is err ErrStartFailed \<or> errors_Is err ErrCommandFailed \<or> errors_Is err ErrCleanupFailed
      then Some (statusError Unavailable ''provider failure'')
      else None)"

definition canonical :: "grpc_code \<Rightarrow> go_error" where
  "canonical c =
     (if c = Unauthenticated then statusError c ''authentication required''
      else if c = PermissionDenied then statusError c ''permission denied''
      else if c = InvalidArgument then statusError c ''invalid request''
      else if c = Unimplemented then statusError c ''unsupported operation''
      else if c = Unavailable then statusError c ''service unavailable''
      else if c = NotFound then statusError c ''not found''
      else if c = FailedPrecondition then statusError c ''operation precondition failed''
      else if c = DeadlineExceeded then statusError c ''deadline exceeded''
      else if c = ResourceExhausted then statusError c ''request limit exceeded''
      else if c = Canceled then statusError c ''request canceled''
      else internalFailure)"

text \<open>\<^verbatim>\<open>Error\<close>; \<^term>\<open>None\<close> is a nil error.\<close>

definition rpc_Error :: "grpc_lib \<Rightarrow> go_error option \<Rightarrow> go_error option" where
  "rpc_Error g err =
     (case err of
        None \<Rightarrow> None
      | Some e \<Rightarrow>
          (case mapDomainError g e of
             Some mapped \<Rightarrow> Some mapped
           | None \<Rightarrow>
               (case FromError g e of
                  Some existing \<Rightarrow> Some (canonical (Code existing))
                | None \<Rightarrow> Some internalFailure)))"

text \<open>The recognisers; \<^verbatim>\<open>status.FromError(nil)\<close> is the OK status, which none of them accepts.\<close>

definition isTuple :: "grpc_lib \<Rightarrow> grpc_code \<Rightarrow> string \<Rightarrow> string \<Rightarrow> string \<Rightarrow> go_error \<Rightarrow> bool" where
  "isTuple g c msg reason domain err =
     (case FromError g err of
        None \<Rightarrow> False
      | Some st \<Rightarrow>
          \<not> (Code st \<noteq> c \<or> Message st \<noteq> msg \<or> length (Details st) \<noteq> 1)
          \<and> Reason (Details st ! 0) = reason \<and> Domain (Details st ! 0) = domain)"

definition IsGiteaEditPartial :: "grpc_lib \<Rightarrow> go_error \<Rightarrow> bool" where
  "IsGiteaEditPartial g err =
     isTuple g FailedPrecondition ''issue edit partially applied'' giteaEditPartialReason giteaEditPartialDomain err"

definition IsGiteaWriteOutcomeUnknown :: "grpc_lib \<Rightarrow> go_error \<Rightarrow> bool" where
  "IsGiteaWriteOutcomeUnknown g err =
     isTuple g Unavailable ''write outcome unknown'' giteaWriteOutcomeUnknownReason
       giteaWriteOutcomeUnknownDomain err"

definition IsPullKindStatus :: "grpc_lib \<Rightarrow> go_error \<Rightarrow> bool" where
  "IsPullKindStatus g err =
     isTuple g FailedPrecondition ''index is an issue; use tea issues'' pullKindReason issueKindDomain err"

definition IsIssueKindStatus :: "grpc_lib \<Rightarrow> go_error \<Rightarrow> bool" where
  "IsIssueKindStatus g err =
     (case FromError g err of
        None \<Rightarrow> False
      | Some st \<Rightarrow>
          Code st = FailedPrecondition
          \<and> list_ex (\<lambda>info. Reason info = issueKindReason \<and> Domain info = issueKindDomain) (Details st))"


section \<open>What the gRPC package promises\<close>

text \<open>
  An error that carries a status gives that status back, an error made by this program from a plain
  text or a sentinel carries none, and a detail can be attached to every status but OK.
\<close>

definition grpcDocumented :: "grpc_lib \<Rightarrow> bool" where
  "grpcDocumented g =
     ((\<forall>s. FromError g (StatusError s) = Some s)
      \<and> (\<forall>s t. FromError g (TrustedStatus s t) = Some s)
      \<and> (\<forall>t. FromError g (Sentinel t) = None) \<and> (\<forall>f as. FromError g (Errorf f as) = None)
      \<and> (\<forall>s i. WithDetails g s i = (if Code s = OK then None else Some (s\<lparr>Details := Details s @ [i]\<rparr>))))"

text \<open>An implementation that looks through wrapped and joined errors.\<close>

fun findStatus :: "go_error \<Rightarrow> grpc_status option"
  and findFirstStatus :: "go_error list \<Rightarrow> grpc_status option" where
  "findStatus (StatusError s) = Some s"
| "findStatus (TrustedStatus s _) = Some s"
| "findStatus (Wrapf _ _ e) = findStatus e"
| "findStatus (ProcessFailure e _) = findStatus e"
| "findStatus (Join es) = findFirstStatus es"
| "findStatus _ = None"
| "findFirstStatus [] = None"
| "findFirstStatus (e # es) = (case findStatus e of Some s \<Rightarrow> Some s | None \<Rightarrow> findFirstStatus es)"

definition exampleGrpc :: grpc_lib where
  "exampleGrpc =
     \<lparr>FromError = findStatus,
      WithDetails = (\<lambda>s i. if Code s = OK then None else Some (s\<lparr>Details := Details s @ [i]\<rparr>))\<rparr>"

lemma exampleGrpc_documented: "grpcDocumented exampleGrpc"
  by (simp add: grpcDocumented_def exampleGrpc_def)


section \<open>Properties\<close>

definition safeMessages :: "string set" where
  "safeMessages =
     {''authentication required'', ''permission denied'', ''invalid request'', ''unsupported operation'',
      ''repository unavailable'', ''not found'', ''index is a pull request; use tea pulls'',
      ''index is an issue; use tea issues'', ''operation precondition failed'', ''write outcome unknown'',
      ''issue edit partially applied'', ''deadline exceeded'', ''request canceled'', ''request limit exceeded'',
      ''service unavailable'', ''provider failure'', ''internal failure''}"

definition safeReasons :: "string set" where
  "safeReasons = {issueKindReason, pullKindReason, giteaWriteOutcomeUnknownReason, giteaEditPartialReason}"

definition safeStatus :: "grpc_status \<Rightarrow> bool" where
  "safeStatus s =
     (Code s \<noteq> OK \<and> Message s \<in> safeMessages
      \<and> list_all (\<lambda>i. Reason i \<in> safeReasons \<and> Domain i = issueKindDomain) (Details s))"

definition sanitized :: "go_error \<Rightarrow> bool" where
  "sanitized e =
     (case e of StatusError s \<Rightarrow> safeStatus s
      | TrustedStatus s t \<Rightarrow> safeStatus s \<and> (t = ErrWriteOutcomeUnknown \<or> t = ErrEditPartial)
      | _ \<Rightarrow> False)"

lemma statusError_sanitized [simp]: "sanitized (statusError c msg) \<longleftrightarrow> c \<noteq> OK \<and> msg \<in> safeMessages"
  by (simp add: sanitized_def statusError_def safeStatus_def newStatus_def)

lemma internalFailure_sanitized: "sanitized internalFailure"
  by (simp add: internalFailure_def safeMessages_def)

lemma structured_sanitized:
  assumes "grpcDocumented g"
  shows "sanitized (issueKindError g)" "sanitized (pullKindError g)" "sanitized (writeOutcomeUnknownError g)"
    "sanitized (editPartialError g)"
  using assms
  by (simp_all add: issueKindError_def pullKindError_def writeOutcomeUnknownError_def editPartialError_def
      grpcDocumented_def newStatus_def sanitized_def safeStatus_def safeMessages_def safeReasons_def reason_defs)

lemma canonical_sanitized: "sanitized (canonical c)"
  by (simp add: canonical_def safeMessages_def internalFailure_def)

lemma mapDomainError_sanitized:
  assumes "grpcDocumented g" and "mapDomainError g e = Some e'"
  shows "sanitized e'"
proof -
  have "case mapDomainError g e of None \<Rightarrow> True | Some e' \<Rightarrow> sanitized e'"
    using structured_sanitized [OF assms(1)] unfolding mapDomainError_def
    by (simp add: safeMessages_def)
  with assms(2) show ?thesis by simp
qed

text \<open>
  C27. Nothing of an internal error reaches the client: whatever the error is, what \<^verbatim>\<open>rpcstatus.Error\<close>
  returns for it is a status other than OK with one of seventeen fixed messages and with details
  only of RepoWolf's own four reasons.
\<close>

theorem rpc_Error_sanitized:
  assumes "grpcDocumented g"
  shows "\<exists>e'. rpc_Error g (Some e) = Some e' \<and> sanitized e'"
  using mapDomainError_sanitized [OF assms] canonical_sanitized internalFailure_sanitized
  by (auto simp: rpc_Error_def split: option.splits)

theorem rpc_Error_sanitized_witness:
  "\<exists>e'. rpc_Error exampleGrpc (Some (Wrapf ''read %s: %w'' [ArgS ''/etc/secret''] (Sentinel IoEOF))) = Some e'
     \<and> sanitized e'"
  using rpc_Error_sanitized [OF exampleGrpc_documented] .

text \<open>
  The two outcomes a Gitea client must be able to tell apart survive every layer: an error that
  means an unknown write outcome or a partial edit is mapped to a status its recogniser accepts, and
  mapping that status again, as an outer layer does, returns it unchanged.
\<close>

theorem rpc_Error_structured:
  assumes "grpcDocumented g"
  shows "rpc_Error g (Some (Sentinel ErrWriteOutcomeUnknown)) = Some (writeOutcomeUnknownError g)
    \<and> rpc_Error g (Some (writeOutcomeUnknownError g)) = Some (writeOutcomeUnknownError g)
    \<and> IsGiteaWriteOutcomeUnknown g (writeOutcomeUnknownError g)
    \<and> rpc_Error g (Some (Sentinel ErrEditPartial)) = Some (editPartialError g)
    \<and> rpc_Error g (Some (editPartialError g)) = Some (editPartialError g)
    \<and> IsGiteaEditPartial g (editPartialError g)
    \<and> \<not> IsGiteaEditPartial g (writeOutcomeUnknownError g) \<and> \<not> IsGiteaWriteOutcomeUnknown g (editPartialError g)"
  using assms
  by (simp add: rpc_Error_def mapDomainError_def writeOutcomeUnknownError_def editPartialError_def
      IsGiteaWriteOutcomeUnknown_def IsGiteaEditPartial_def isTuple_def grpcDocumented_def newStatus_def reason_defs)

theorem rpc_Error_structured_witness:
  "IsGiteaEditPartial exampleGrpc (editPartialError exampleGrpc)"
  using rpc_Error_structured [OF exampleGrpc_documented] by simp

end
