(* ===== verification/Git_Session.thy ===== *)
theory Git_Session
  imports Go_Text Git_Frames Receive_Denied Runner Auth Audit_Log Rpcstatus
begin

text \<open>
  Package \<^verbatim>\<open>internal/gitservice\<close>, the sessions: the service and its commands (\<^verbatim>\<open>upload.go\<close>), the
  end of a session (\<^verbatim>\<open>finish\<close>, \<^verbatim>\<open>terminalCategory\<close>, \<^verbatim>\<open>writeAudit\<close>), and the course of a push
  (\<^verbatim>\<open>receive.go\<close>).

  What a session does is the list of its actions: audit records, the process it starts, the bytes it
  passes to the client and to the process, the terminal frame. What its surroundings answer (the
  stream, the audit sink, the process, the deadlines) is the record \<open>surroundings\<close>.
\<close>

section \<open>The service\<close>

record service_options =
  svcPolicy :: "snapshot option"
  SSHPath :: string
  svcEnvironment :: "string list"
  svcLimits :: limits
  hasRunner :: bool
  hasAudit :: bool

definition service_New :: "service_options \<Rightarrow> service_options result" where
  "service_New opts =
     (if svcPolicy opts = None \<or> \<not> hasRunner opts \<or> \<not> hasAudit opts \<or> SSHPath opts = []
      then errorf ''incomplete Git service dependencies''
      else let l = svcLimits opts in
        if MaxStreamChunkBytes l \<le> 0 \<or> MaxStreamChunkBytes l > maxChunkBytes
          \<or> MaxPushPrefixBytes l \<le> 0 \<or> MaxPushPrefixBytes l > 2 ^ 20
          \<or> MaxGitBytesPerDirection l \<le> 0 \<or> MaxGitBytesPerDirection l > 8 * 2 ^ 30
          \<or> InitialStreamTimeout l \<le> 0 \<or> OperationTimeout l \<le> 0 \<or> IdleStreamTimeout l \<le> 0
        then errorf ''invalid Git service limits''
        else Inr opts)"

definition stderrLimitBytes :: int where
  "stderrLimitBytes = 2 ^ 20"

definition zeroResolved :: resolved where
  "zeroResolved = \<lparr>ID = [], resRepository = zeroRepository, resProvider = zeroProvider\<rparr>"

definition gitSelectorOf :: "repo_selector \<Rightarrow> git_selector" where
  "gitSelectorOf sel =
     \<lparr>gitSSHUser = msgSshUser sel, gitHost = msgHost sel, gitSSHPort = ucast (msgSshPort sel),
      gitOwner = msgOwner sel, gitName = msgName sel\<rparr>"

definition remoteCommand :: "string \<Rightarrow> repository \<Rightarrow> string" where
  "remoteCommand remoteService repo =
     remoteService @ '' '' @ [CHR 0x27] @ Owner repo @ ''/'' @ Name repo @ ''.git'' @ [CHR 0x27]"

definition sshCommand :: "service_options \<Rightarrow> string \<Rightarrow> resolved \<Rightarrow> runner_command" where
  "sshCommand opts remoteService repo =
     \<lparr>cmdPath = SSHPath opts,
      Args = [''-T'', ''-p'', itoa (uint (SSHPort (resProvider repo))), ''--'',
              SSHUser (resProvider repo) @ ''@'' @ GitHost (resProvider repo),
              remoteCommand remoteService (resRepository repo)],
      cmdStdin = [], Env = svcEnvironment opts, Timeout = OperationTimeout (svcLimits opts),
      StdinLimit = MaxGitBytesPerDirection (svcLimits opts),
      StdoutLimit = MaxGitBytesPerDirection (svcLimits opts), StderrLimit = stderrLimitBytes\<rparr>"

definition git_command ::
  "service_options \<Rightarrow> rpc_context \<Rightarrow> git_open option \<Rightarrow> capability \<Rightarrow> string \<Rightarrow> provider_kind list
     \<Rightarrow> (runner_command \<times> resolved) result" where
  "git_command opts ctx open capability remoteService allowedKinds =
     (case (svcPolicy opts, open) of
        (Some sn, Some m) \<Rightarrow>
          (case openRepository m of
             None \<Rightarrow> fail ErrInvalidArgument
           | Some sel \<Rightarrow>
               if msgHost sel = [] \<or> msgOwner sel = [] \<or> msgName sel = [] \<or> uint (msgSshPort sel) > 65535
               then fail ErrInvalidArgument
               else case ctxPrincipal ctx of
                 None \<Rightarrow> fail ErrUnauthenticated
               | Some who \<Rightarrow>
                   (case ResolveGit sn who (gitSelectorOf sel) capability of
                      Inl _ \<Rightarrow> fail ErrDenied
                    | Inr repo \<Rightarrow>
                        if \<not> list_ex (\<lambda>kind. Kind (resProvider repo) = kind) allowedKinds then fail ErrDenied
                        else if \<not> ValidRepositoryIdentity (Kind (resProvider repo))
                              (Owner (resRepository repo)) (Name (resRepository repo))
                        then fail ErrInvalidArgument
                        else if remoteService \<noteq> ''git-upload-pack'' \<and> remoteService \<noteq> ''git-receive-pack''
                        then fail ErrInvalidArgument
                        else Inr (sshCommand opts remoteService repo, repo)))
      | _ \<Rightarrow> fail ErrInvalidArgument)"

text \<open>
  \<^verbatim>\<open>receiveCommand\<close>: a push needs both capabilities, and both must resolve to one repository. On an
  error the repository that was resolved for reading, if any, comes back for the audit record.
\<close>

definition receiveCommand ::
  "service_options \<Rightarrow> rpc_context \<Rightarrow> git_open option \<Rightarrow> (resolved \<times> go_error) + (resolved \<times> runner_command)" where
  "receiveCommand opts ctx open =
     (let kinds = [ProviderGitHub, ProviderGitea] in
      case git_command opts ctx open GitRead ''git-receive-pack'' kinds of
        Inl e \<Rightarrow> Inl (zeroResolved, e)
      | Inr (_, readRepository) \<Rightarrow>
          (case git_command opts ctx open GitWrite ''git-receive-pack'' kinds of
             Inl e \<Rightarrow> Inl (readRepository, e)
           | Inr (command, writeRepository) \<Rightarrow>
               if ID readRepository \<noteq> ID writeRepository then Inl (readRepository, Sentinel ErrDenied)
               else Inr (writeRepository, command)))"


section \<open>The end of a session\<close>

definition firstError :: "go_error option list \<Rightarrow> go_error option" where
  "firstError vals = (case List.map_filter (\<lambda>v. v) vals of [] \<Rightarrow> None | e # _ \<Rightarrow> Some e)"

definition causeWithExit :: "go_error option \<Rightarrow> int \<Rightarrow> go_error option" where
  "causeWithExit err exitCode =
     (case err of
        None \<Rightarrow> if exitCode = 0 then None else Some (ProcessFailure (Sentinel ErrCommandFailed) exitCode)
      | Some e \<Rightarrow> Some (ProcessFailure e exitCode))"

definition terminalCategory :: "go_error option \<Rightarrow> terminal_category" where
  "terminalCategory err =
     (case err of
        None \<Rightarrow> Completed
      | Some e \<Rightarrow>
          if errors_Is e ErrDenied then TermPermissionDenied
          else if errors_Is e ErrInvalidFrame \<or> errors_Is e ErrInvalidArgument \<or> errors_Is e ErrRefPolicy
          then TermInvalidRequest
          else if errors_Is e ErrChunkLimit \<or> errors_Is e ErrInputLimit \<or> errors_Is e ErrOutputLimit
            \<or> errors_Is e ErrResourceExhausted
          then TermLimitExceeded
          else if errors_Is e ContextDeadlineExceeded then TermDeadlineExceeded
          else if errors_Is e ErrStartFailed \<or> errors_Is e ErrCommandFailed \<or> errors_Is e ErrCleanupFailed
          then TermProviderFailure
          else TermUnavailable)"

text \<open>\<^verbatim>\<open>errors.As\<close> for a \<^verbatim>\<open>processFailure\<close>.\<close>

fun errors_AsFailure :: "go_error \<Rightarrow> int option"
  and firstFailure :: "go_error list \<Rightarrow> int option" where
  "errors_AsFailure (ProcessFailure _ c) = Some c"
| "errors_AsFailure (Wrapf _ _ e) = errors_AsFailure e"
| "errors_AsFailure (Join es) = firstFailure es"
| "errors_AsFailure _ = None"
| "firstFailure [] = None"
| "firstFailure (e # es) = (case errors_AsFailure e of Some c \<Rightarrow> Some c | None \<Rightarrow> firstFailure es)"

definition terminalOf :: "go_error option \<Rightarrow> git_terminal" where
  "terminalOf operationErr =
     (let category = terminalCategory operationErr in
      \<lparr>ExitCode =
         (if category = Completed then 0
          else case operationErr of
            None \<Rightarrow> 1
          | Some e \<Rightarrow> (case errors_AsFailure e of
                Some c \<Rightarrow> if c > 0 then word_of_int c else 1 | None \<Rightarrow> 1)),
       Category = category\<rparr>)"

definition outcomeOf :: "go_error option \<Rightarrow> outcome" where
  "outcomeOf operationErr =
     (case operationErr of
        None \<Rightarrow> OutcomeCompleted
      | Some e \<Rightarrow>
          if errors_Is e ErrDenied \<or> errors_Is e ErrRefPolicy then Denied
          else if errors_Is e ContextCanceled \<or> errors_Is e ContextDeadlineExceeded then Cancelled
          else Failed)"

definition finishDeliveryError :: "go_error option \<Rightarrow> go_error option \<Rightarrow> go_error option" where
  "finishDeliveryError deliveryErr auditErr =
     (let failures = (if deliveryErr \<noteq> None then [Sentinel ErrTerminalDelivery] else [])
        @ (if auditErr \<noteq> None then [Sentinel ErrTerminalAudit] else []) in
      if failures = [] then None else Some (Join (Sentinel ErrServiceUnavailable # failures)))"

definition categoryName :: "terminal_category \<Rightarrow> string" where
  "categoryName c =
     ''GIT_TERMINAL_CATEGORY_'' @
     (case c of Unspecified \<Rightarrow> ''UNSPECIFIED'' | Completed \<Rightarrow> ''COMPLETED''
      | TermPermissionDenied \<Rightarrow> ''PERMISSION_DENIED'' | TermInvalidRequest \<Rightarrow> ''INVALID_REQUEST''
      | TermProviderFailure \<Rightarrow> ''PROVIDER_FAILURE'' | TermDeadlineExceeded \<Rightarrow> ''DEADLINE_EXCEEDED''
      | TermLimitExceeded \<Rightarrow> ''LIMIT_EXCEEDED'' | TermUnavailable \<Rightarrow> ''UNAVAILABLE'')"

text \<open>The record \<^verbatim>\<open>writeAudit\<close> hands to the sink.\<close>

definition auditEvent ::
  "rpc_context \<Rightarrow> resolved \<Rightarrow> string \<Rightarrow> outcome \<Rightarrow> string \<Rightarrow> int \<Rightarrow> int \<Rightarrow> string list \<Rightarrow> nat \<Rightarrow> event" where
  "auditEvent ctx repo operation out why inBytes outBytes refs ups =
     zeroEvent\<lparr>
       evRequestID := (case ctxRequestID ctx of None \<Rightarrow> [] | Some i \<Rightarrow> i),
       evPrincipal := (case ctxPrincipal ctx of None \<Rightarrow> [] | Some i \<Rightarrow> i),
       evProvider := (if ID repo \<noteq> [] then Kind (resProvider repo) else []),
       evRepository := ID repo, Operation := operation, Outcome := out, evReason := why,
       InputBytes := inBytes, OutputBytes := outBytes, Refs := refs, UpdateCount := int ups\<rparr>"



section \<open>Actions and surroundings\<close>

datatype arrival = InputDone | OutputDone | OperationDone

datatype action =
    AuditRecord event
  | StartProcess runner_command
  | ToClient "git_frame list"
  | ToProcess string
  | CloseInput
  | Terminal git_terminal

record surroundings =
  firstFrame :: "go_error + git_frame"        \<comment> \<open>the first \<^verbatim>\<open>Recv\<close>, within the initial timeout\<close>
  sink :: "event \<Rightarrow> go_error option"           \<comment> \<open>the audit sink\<close>
  started :: "go_error option"                \<comment> \<open>\<^verbatim>\<open>Runner.Start\<close>\<close>
  serverBytes :: string                       \<comment> \<open>the standard output of the process\<close>
  serverFault :: go_error
  cause :: "go_error option"                  \<comment> \<open>\<^verbatim>\<open>context.Cause(processContext)\<close>\<close>
  pump :: "git_frame list \<Rightarrow> go_error option"  \<comment> \<open>the send pump\<close>
  stopped :: "runner_result \<times> go_error option" \<comment> \<open>\<^verbatim>\<open>stopProcess\<close>\<close>
  clientFrames :: "(go_error + git_frame) list" \<comment> \<open>the client's later frames\<close>
  outputReads :: "(string \<times> go_error option) list"
  stdinAccepts :: "nat \<times> go_error"            \<comment> \<open>how many bytes the process takes, and the error after them\<close>
  pipeTakes :: "string \<Rightarrow> string \<Rightarrow> nat \<times> go_error option"  \<comment> \<open>the input pipe of an upload-pack\<close>
  arrivals :: "arrival list"                 \<comment> \<open>what the \<^verbatim>\<open>select\<close> of \<^verbatim>\<open>uploadPack\<close> receives\<close>
  waited :: "runner_result \<times> go_error option"  \<comment> \<open>\<^verbatim>\<open>Process.Wait\<close>\<close>
  deliver :: "git_terminal \<Rightarrow> go_error option" \<comment> \<open>\<^verbatim>\<open>SendFinal\<close>\<close>

definition finish ::
  "surroundings \<Rightarrow> rpc_context \<Rightarrow> resolved \<Rightarrow> string \<Rightarrow> int \<Rightarrow> int \<Rightarrow> string list \<Rightarrow> nat \<Rightarrow> go_error option
     \<Rightarrow> action list \<times> go_error option" where
  "finish env ctx repo operation inBytes outBytes refs ups operationErr =
     (let t = terminalOf operationErr;
          validationErr = snd (fst (server_Accept False (Some (FrameTerminal (Some t)))));
          deliveryErr = (case validationErr of Some e \<Rightarrow> Some e | None \<Rightarrow> deliver env t);
          ev = auditEvent ctx repo operation (outcomeOf operationErr) (categoryName (Category t))
                 inBytes outBytes refs ups;
          auditErr = sink env ev in
      ((if validationErr = None then [Terminal t] else []) @ [AuditRecord ev],
       finishDeliveryError deliveryErr auditErr))"

definition updateRefs :: "update list \<Rightarrow> string list" where
  "updateRefs us = map Ref us"

definition classifyReceiveRequestError :: "go_error \<Rightarrow> go_error" where
  "classifyReceiveRequestError err =
     (if errors_Is err ErrRefPolicy \<or> errors_Is err ErrInvalidFrame \<or> errors_Is err ErrChunkLimit
        \<or> errors_Is err ErrInputLimit \<or> errors_Is err ContextCanceled \<or> errors_Is err ContextDeadlineExceeded
      then err
      else Join [Sentinel ErrInvalidArgument, err])"

text \<open>
  \<^verbatim>\<open>writeValidatedInput\<close>: the checked prefix, then the rest of the client's bytes until its stream ends.
\<close>

definition writeValidatedInput ::
  "nat \<times> go_error \<Rightarrow> string \<Rightarrow> string \<Rightarrow> go_error \<Rightarrow> string \<times> go_error option" where
  "writeValidatedInput accepts pre rest flt =
     (case accepts of (n, e) \<Rightarrow>
        if n < length pre then (take n pre, Some e)
        else if n < length pre + length rest then (pre @ take (n - length pre) rest, Some e)
        else (pre @ rest, if flt = Sentinel IoEOF then None else Some flt))"

definition receiveOptionsOf :: "service_options \<Rightarrow> resolved \<Rightarrow> capabilities \<Rightarrow> receive_options" where
  "receiveOptionsOf opts repo caps =
     \<lparr>MaxBytes = MaxPushPrefixBytes (svcLimits opts), MaxCommands = MaxPushPrefixBytes (svcLimits opts),
      optPolicy = Git (resRepository repo), AdvertisedCaps = caps\<rparr>"

text \<open>
  \<^verbatim>\<open>receivePack\<close> after the process has been started. \<^term>\<open>None\<close>: the client or the process never
  delivers what is waited for. The frames to the client and the bytes to the process are sent
  concurrently; they are listed one after the other.
\<close>

definition having :: "action list \<Rightarrow> action list \<times> go_error option \<Rightarrow> action list \<times> go_error option" where
  "having acts r = (acts @ fst r, snd r)"

definition pushOperation :: string where
  "pushOperation = ''git.receive-pack''"

definition clientReader :: "service_options \<Rightarrow> surroundings \<Rightarrow> client_frame_state \<Rightarrow> client_reader" where
  "clientReader opts env st =
     \<lparr>stream = clientFrames env, crState = st, crPending = [], crTotal = 0,
      crMaxBytes = MaxGitBytesPerDirection (svcLimits opts)\<rparr>"

text \<open>The accepted request: relay it, wait for both directions and for the process.\<close>

definition relayPush ::
  "service_options \<Rightarrow> surroundings \<Rightarrow> rpc_context \<Rightarrow> resolved \<Rightarrow> advertisement \<Rightarrow> git_frame list
     \<Rightarrow> receive_result \<Rightarrow> packet_reader \<Rightarrow> (action list \<times> go_error option) option" where
  "relayPush opts env ctx repo adv frames parsed r =
     (case writeValidatedInput (stdinAccepts env) (Prefix parsed) (input r) (fault r) of
        (written, inputErr) \<Rightarrow>
          (case copyOutputToFrames (\<lambda>sent. pump env (frames @ sent)) (MaxStreamChunkBytes (svcLimits opts))
               (outputReads env) of
             None \<Rightarrow> None
           | Some (sent, outBytes, outErr) \<Rightarrow>
               (let res = fst (waited env);
                    c0 = firstError [inputErr, cause env, outErr, snd (waited env)];
                    c = (if TimedOut res then Some (Sentinel ContextDeadlineExceeded) else c0) in
                Some (having [ToProcess written, ToClient sent]
                  (finish env ctx repo pushOperation (int (length written))
                     (int (length (Raw adv)) + outBytes) (updateRefs (Updates parsed))
                     (length (Updates parsed)) (causeWithExit c (resExitCode res)))))))"

definition runPush ::
  "service_options \<Rightarrow> surroundings \<Rightarrow> rpc_context \<Rightarrow> client_frame_state \<Rightarrow> resolved
     \<Rightarrow> (action list \<times> go_error option) option" where
  "runPush opts env ctx st repo =
     (let lim = svcLimits opts; outBytes = StdoutBytes (fst (stopped env)) in
      case ParseAdvertisement (serverBytes env) (serverFault env) (MaxPushPrefixBytes lim) of
        Inl err \<Rightarrow>
          Some (finish env ctx repo pushOperation 0 outBytes [] 0
            (firstError [cause env, Some err, snd (stopped env)]))
      | Inr (adv, _) \<Rightarrow>
          (case sendBytes (pump env) (Raw adv) (MaxStreamChunkBytes lim) of
             (frames, Some err) \<Rightarrow>
               Some (having [ToClient frames]
                 (finish env ctx repo pushOperation 0 outBytes [] 0 (firstError [Some err, snd (stopped env)])))
           | (frames, None) \<Rightarrow>
               (case delivers (clientReader opts env st) of
                  None \<Rightarrow> None
                | Some (bytes, flt) \<Rightarrow>
                    (case ParseReceivePack bytes flt (receiveOptionsOf opts repo (advCapabilities adv)) of
                       Inl err \<Rightarrow>
                         Some (having [ToClient frames]
                           (finish env ctx repo pushOperation 0 outBytes (updateRefs (rejectedUpdates err))
                              (length (rejectedUpdates err))
                              (firstError [Some (classifyReceiveRequestError err), snd (stopped env)])))
                     | Inr (parsed, r) \<Rightarrow>
                         map_option (having [ToClient frames])
                           (relayPush opts env ctx repo adv frames parsed r)))))"

definition openOf :: "git_frame \<Rightarrow> git_open option" where
  "openOf frame = (case frame of Some (FrameOpen m) \<Rightarrow> m | _ \<Rightarrow> None)"

definition receivePack ::
  "service_options \<Rightarrow> surroundings \<Rightarrow> rpc_context \<Rightarrow> (action list \<times> go_error option) option" where
  "receivePack opts env ctx =
     (case firstFrame env of
        Inl e \<Rightarrow> Some (finish env ctx zeroResolved pushOperation 0 0 [] 0 (Some e))
      | Inr frame \<Rightarrow>
          (case client_Accept newClientState frame of
             (Some e, _) \<Rightarrow> Some (finish env ctx zeroResolved pushOperation 0 0 [] 0 (Some e))
           | (None, st) \<Rightarrow>
               (case receiveCommand opts ctx (openOf frame) of
                  Inl (repo, e) \<Rightarrow> Some (finish env ctx repo pushOperation 0 0 [] 0 (Some e))
                | Inr (repo, command) \<Rightarrow>
                    (let ev = auditEvent ctx repo pushOperation Accepted [] 0 0 [] 0 in
                     case sink env ev of
                       Some _ \<Rightarrow>
                         Some (having [AuditRecord ev]
                           (finish env ctx repo pushOperation 0 0 [] 0 (Some (Sentinel ErrServiceUnavailable))))
                     | None \<Rightarrow>
                         (case started env of
                            Some e \<Rightarrow>
                              Some (having [AuditRecord ev, StartProcess command]
                                (finish env ctx repo pushOperation 0 0 [] 0 (Some e)))
                          | None \<Rightarrow>
                              map_option (having [AuditRecord ev, StartProcess command])
                                (runPush opts env ctx st repo))))))"


section \<open>The course of a fetch\<close>

definition fetchOperation :: string where
  "fetchOperation = ''git.upload-pack''"

text \<open>
  The \<^verbatim>\<open>select\<close> loop of \<^verbatim>\<open>uploadPack\<close>: whether the input, the output and the operation are still
  pending when it ends. \<^term>\<open>None\<close>: nothing arrives.
\<close>

fun selectLoop :: "bool \<Rightarrow> bool \<Rightarrow> bool \<Rightarrow> arrival list \<Rightarrow> (bool \<times> bool \<times> bool) option" where
  "selectLoop inputPending outputPending operationLive evs =
     (if inputPending \<and> outputPending \<and> operationLive then
        (case evs of
           [] \<Rightarrow> None
         | InputDone # rest \<Rightarrow> selectLoop False outputPending operationLive rest
         | OutputDone # rest \<Rightarrow> selectLoop inputPending False operationLive rest
         | OperationDone # rest \<Rightarrow> selectLoop inputPending outputPending False rest)
      else Some (inputPending, outputPending, operationLive))"

declare selectLoop.simps [simp del]

text \<open>The data of the client's frames up to the first that is not accepted.\<close>

fun acceptedData :: "client_frame_state \<Rightarrow> (go_error + git_frame) list \<Rightarrow> string" where
  "acceptedData st (Inr frame # rest) =
     (case client_Accept st frame of
        (None, st') \<Rightarrow> frameData frame @ acceptedData st' rest
      | (Some _, _) \<Rightarrow> [])"
| "acceptedData st _ = []"

text \<open>
  \<^verbatim>\<open>uploadPack\<close> after the process has been started. Input that is still pending when the process
  has ended is counted as the process counted it.
\<close>

definition runFetch ::
  "service_options \<Rightarrow> surroundings \<Rightarrow> rpc_context \<Rightarrow> client_frame_state \<Rightarrow> resolved
     \<Rightarrow> (action list \<times> go_error option) option" where
  "runFetch opts env ctx st repo =
     (case (selectLoop True True True (arrivals env),
            copyOutputToFrames (pump env) (MaxStreamChunkBytes (svcLimits opts)) (outputReads env)) of
        (Some (inputPending, outputPending, operationLive), Some (sent, outBytes, outErr)) \<Rightarrow>
          (let res = fst (waited env);
               operationCause = (if operationLive then None else cause env) in
           case (if inputPending
                 then Some (take (nat (StdinBytes res)) (acceptedData st (clientFrames env)), None)
                 else copyFramesToInput (pipeTakes env) st [] (clientFrames env)) of
             None \<Rightarrow> None
           | Some (written, inputErr) \<Rightarrow>
               (let inBytes = (if inputPending then StdinBytes res else int (length written));
                    c0 = firstError [cause env, operationCause, inputErr, outErr, snd (waited env)];
                    c = (if TimedOut res then Some (Sentinel ContextDeadlineExceeded) else c0) in
                Some (having ([ToProcess written, ToClient sent]
                        @ (if inputPending \<and> \<not> outputPending \<and> operationLive then [CloseInput] else []))
                  (finish env ctx repo fetchOperation inBytes outBytes [] 0 (causeWithExit c (resExitCode res))))))
      | _ \<Rightarrow> None)"

definition uploadPack ::
  "service_options \<Rightarrow> surroundings \<Rightarrow> rpc_context \<Rightarrow> (action list \<times> go_error option) option" where
  "uploadPack opts env ctx =
     (case firstFrame env of
        Inl e \<Rightarrow> Some (finish env ctx zeroResolved fetchOperation 0 0 [] 0 (Some e))
      | Inr frame \<Rightarrow>
          (case client_Accept newClientState frame of
             (Some e, _) \<Rightarrow> Some (finish env ctx zeroResolved fetchOperation 0 0 [] 0 (Some e))
           | (None, st) \<Rightarrow>
               (case git_command opts ctx (openOf frame) GitRead ''git-upload-pack''
                   [ProviderGitHub, ProviderGitea] of
                  Inl e \<Rightarrow> Some (finish env ctx zeroResolved fetchOperation 0 0 [] 0 (Some e))
                | Inr (command, repo) \<Rightarrow>
                    (let ev = auditEvent ctx repo fetchOperation Accepted [] 0 0 [] 0 in
                     case sink env ev of
                       Some _ \<Rightarrow>
                         Some (having [AuditRecord ev]
                           (finish env ctx repo fetchOperation 0 0 [] 0 (Some (Sentinel ErrServiceUnavailable))))
                     | None \<Rightarrow>
                         (case started env of
                            Some e \<Rightarrow>
                              Some (having [AuditRecord ev, StartProcess command]
                                (finish env ctx repo fetchOperation 0 0 [] 0 (Some e)))
                          | None \<Rightarrow>
                              map_option (having [AuditRecord ev, StartProcess command])
                                (runFetch opts env ctx st repo))))))"

end
