(* ===== verification/Client_Ssh.thy ===== *)
theory Client_Ssh
  imports Git_Session
begin

text \<open>
  Package \<^verbatim>\<open>internal/client/gitssh\<close>: the program that Git starts in the sandbox instead of \<^verbatim>\<open>ssh\<close>. It accepts
  exactly the invocations of Git's smart protocol (\<^verbatim>\<open>parse.go\<close>, \<^verbatim>\<open>probe.go\<close>), checks the frames of the
  server (\<^verbatim>\<open>frame.go\<close>) and relays both directions (\<^verbatim>\<open>relay.go\<close>).

  A loop over the runes of a string with an ASCII condition is written over its bytes where its
  position matters: the first byte of a wider rune fails the condition like the rune itself.
\<close>

section \<open>Arguments\<close>

datatype git_operation = UploadPack | ReceivePack

record ssh_request =
  reqRepository :: repo_selector
  reqOperation :: git_operation

definition maximumArguments :: int where "maximumArguments = 64"
definition maximumArgvBytes :: int where "maximumArgvBytes = 65536"

definition asciiAlphaNumeric :: "int \<Rightarrow> bool" where
  "asciiAlphaNumeric r = (97 \<le> r \<and> r \<le> 122 \<or> 65 \<le> r \<and> r \<le> 90 \<or> 48 \<le> r \<and> r \<le> 57)"

text \<open>The loop of \<^verbatim>\<open>validateArguments\<close> carries the total number of bytes.\<close>

definition addArgument :: "int \<Rightarrow> string \<Rightarrow> int result" where
  "addArgument n argument =
     (let n' = n + int (length argument) in
      if n' > maximumArgvBytes \<or> \<not> validString argument \<or> NUL \<in> set argument
      then errorf ''invalid SSH argument data'' else Inr n')"

definition validateArguments :: "string list \<Rightarrow> unit result" where
  "validateArguments args =
     (if int (length args) < 2 \<or> int (length args) > maximumArguments then errorf ''unsupported SSH argument count''
      else bindE (foldE addArgument 0 args) (\<lambda>_. Inr ()))"

definition parsePort :: "string \<Rightarrow> int result" where
  "parsePort v =
     (if v = [] \<or> \<not> allRunes (\<lambda>r. 48 \<le> r \<and> r \<le> 57) v then errorf ''invalid SSH port''
      else case parseUint 16 v of
        None \<Rightarrow> errorf ''invalid SSH port''
      | Some port \<Rightarrow> if port = 0 then errorf ''invalid SSH port'' else Inr port)"

fun sshUserRest :: "string \<Rightarrow> bool" where
  "sshUserRest [] = True"
| "sshUserRest (c # cs) =
     (if isLower c \<or> isDigit c \<or> c = CHR ''_'' \<or> c = CHR ''-'' then sshUserRest cs else c = CHR ''$'' \<and> cs = [])"

definition validSSHUser :: "string \<Rightarrow> bool" where
  "validSSHUser v =
     (case v of [] \<Rightarrow> False | c # cs \<Rightarrow> if \<not> (isLower c \<or> c = CHR ''_'') then False else sshUserRest cs)"

definition ssh_validHost :: "string \<Rightarrow> bool" where
  "ssh_validHost v =
     (if v = [] \<or> 253 < length v \<or> hasPrefix v ''.'' \<or> hasSuffix v ''.'' then False
      else list_all (\<lambda>label. \<not> (label = [] \<or> 63 < length label \<or> hd label = CHR ''-'' \<or> last label = CHR ''-'')
             \<and> allRunes (\<lambda>r. asciiAlphaNumeric r \<or> r = 45) label) (split CHR ''.'' v))"

definition validGitHubName :: "string \<Rightarrow> bool" where
  "validGitHubName name =
     (if name = [] \<or> 100 < length name \<or> name = ''.'' \<or> name = ''..'' then False
      else allRunes (\<lambda>r. asciiAlphaNumeric r \<or> r = 46 \<or> r = 95 \<or> r = 45) name)"

definition validGitHubSlug :: "string \<Rightarrow> string \<Rightarrow> bool" where
  "validGitHubSlug owner name =
     (if owner = [] \<or> 39 < length owner \<or> \<not> validGitHubName name then False
      else if hd owner = CHR ''-'' \<or> last owner = CHR ''-'' \<or> contains owner ''--'' then False
      else allRunes (\<lambda>r. asciiAlphaNumeric r \<or> r = 45) owner)"

definition validGiteaComponent :: "string \<Rightarrow> bool" where
  "validGiteaComponent v =
     (if v = [] \<or> 100 < length v \<or> v = ''.'' \<or> v = ''..'' \<or> \<not> asciiAlphaNumeric (code (hd v)) then False
      else allRunes (\<lambda>r. asciiAlphaNumeric r \<or> r = 46 \<or> r = 95 \<or> r = 45) v)"

definition ssh_validSlug :: "string \<Rightarrow> string \<Rightarrow> bool" where
  "ssh_validSlug owner name \<longleftrightarrow> validGitHubSlug owner name \<or> validGiteaComponent owner \<and> validGiteaComponent name"

definition parseAuthority :: "string \<Rightarrow> (string \<times> string) result" where
  "parseAuthority authority =
     (if countByte authority CHR ''@'' \<noteq> 1 then errorf ''invalid SSH authority''
      else case cut CHR ''@'' authority of (user, host, _) \<Rightarrow>
        if \<not> validSSHUser user then errorf ''unsupported SSH user''
        else if \<not> ssh_validHost host then errorf ''invalid SSH host''
        else Inr (user, toLower host))"

definition commandPrefix :: "git_operation \<Rightarrow> string" where
  "commandPrefix op = (case op of UploadPack \<Rightarrow> ''git-upload-pack '' | ReceivePack \<Rightarrow> ''git-receive-pack '') @ [CHR 0x27]"

definition commandSuffix :: string where
  "commandSuffix = ''.git'' @ [CHR 0x27]"

text \<open>One round of the loop over the two candidates; \<^term>\<open>None\<close> is \<^verbatim>\<open>continue\<close>.\<close>

definition matchCommand :: "string \<Rightarrow> git_operation \<Rightarrow> (git_operation \<times> string \<times> string) option" where
  "matchCommand command op =
     (if \<not> hasPrefix command (commandPrefix op) \<or> \<not> hasSuffix command commandSuffix then None
      else
        let slug = trimPrefix (substr command (length (commandPrefix op)) (length command - length commandSuffix)) ''/'' in
        case split CHR ''/'' slug of
          [owner, name] \<Rightarrow> if ssh_validSlug owner name then Some (op, owner, name) else None
        | _ \<Rightarrow> None)"

definition parseCommand :: "string \<Rightarrow> (git_operation \<times> string \<times> string) result" where
  "parseCommand command =
     (case matchCommand command UploadPack of
        Some r \<Rightarrow> Inr r
      | None \<Rightarrow> (case matchCommand command ReceivePack of
          Some r \<Rightarrow> Inr r
        | None \<Rightarrow> errorf ''unsupported SSH remote command''))"

text \<open>The optional arguments before the authority: what is left of them, with the port (0 if there is none).\<close>

definition skipSendEnv :: "string \<Rightarrow> string list \<Rightarrow> string list result" where
  "skipSendEnv msg args =
     (case args of
        a # b # rest \<Rightarrow>
          if a = ''-o'' then (if b \<noteq> ''SendEnv=GIT_PROTOCOL'' then errorf msg else Inr rest) else Inr args
      | _ \<Rightarrow> Inr args)"

definition takePort :: "string list \<Rightarrow> (int \<times> string list) result" where
  "takePort args =
     (case args of
        a # b # rest \<Rightarrow> if a = ''-p'' then bindE (parsePort b) (\<lambda>port. Inr (port, rest)) else Inr (0, args)
      | _ \<Rightarrow> Inr (0, args))"

definition ssh_Parse :: "string list \<Rightarrow> ssh_request result" where
  "ssh_Parse args =
     bindE (validateArguments args) (\<lambda>_.
     bindE (skipSendEnv ''unsupported SSH option'' args) (\<lambda>rest.
     bindE (takePort rest) (\<lambda>(port, rest').
       case rest' of
         [authority, command] \<Rightarrow>
           bindE (parseAuthority authority) (\<lambda>(user, host).
           bindE (parseCommand command) (\<lambda>(op, owner, name).
             Inr \<lparr>reqRepository = \<lparr>msgHost = host, msgOwner = owner, msgName = name, msgSshPort = word_of_int port,
                 msgSshUser = user\<rparr>, reqOperation = op\<rparr>))
       | _ \<Rightarrow> errorf ''unsupported SSH argument shape'')))"

definition validateVariantProbe :: "string list \<Rightarrow> unit result" where
  "validateVariantProbe args =
     bindE (validateArguments args) (\<lambda>_.
       if hd args \<noteq> ''-G'' then errorf ''not an SSH variant probe''
       else bindE (skipSendEnv ''unsupported SSH probe option'' (tl args)) (\<lambda>rest.
         bindE (takePort rest) (\<lambda>(_, rest').
           case rest' of
             [authority] \<Rightarrow> bindE (parseAuthority authority) (\<lambda>_. Inr ())
           | _ \<Rightarrow> errorf ''unsupported SSH probe argument shape'')))"


section \<open>Relaying\<close>

definition ssh_Accept :: "bool \<Rightarrow> git_frame \<Rightarrow> (bool \<times> go_error option) \<times> bool" where
  "ssh_Accept terminal frame =
     (if terminal \<or> frame = None then ((False, Some (Sentinel ErrInvalidServerFrame)), terminal)
      else case the frame of
        FrameData data \<Rightarrow>
          (case data of
             None \<Rightarrow> ((False, Some (Sentinel ErrInvalidServerFrame)), terminal)
           | Some bytes \<Rightarrow>
               if int (length bytes) > maxChunkBytes then ((False, Some (Sentinel ErrInvalidServerFrame)), terminal)
               else ((False, None), terminal))
      | FrameTerminal t \<Rightarrow>
          if \<not> validTerminal t then ((False, Some (Sentinel ErrInvalidServerFrame)), terminal) else ((True, None), True)
      | _ \<Rightarrow> ((False, Some (Sentinel ErrInvalidServerFrame)), terminal))"

definition maximumGitBytes :: int where "maximumGitBytes = 8 * 2 ^ 30"

function writeAll :: "raw_pipe \<Rightarrow> string \<Rightarrow> go_error option \<times> raw_pipe" where
  "writeAll out data =
     (if data = [] then (None, out)
      else case rawWrite out data of ((n, err), out') \<Rightarrow>
        if err \<noteq> None then (err, out')
        else if n = 0 then (Some (Sentinel IoErrShortWrite), out')
        else writeAll out' (drop n data))"
  by pat_completeness auto
termination
  by (relation "measure (\<lambda>(out, data). length data)") auto

declare writeAll.simps [simp del]

text \<open>
  The receiving loop of \<^verbatim>\<open>relayWithLimits\<close>, over the results of \<^verbatim>\<open>Recv\<close>; \<^term>\<open>None\<close> while it waits. \<open>senderError\<close> is
  the error of the sender if it has ended with one when a receive fails, and \<open>relayError\<close> is why the
  relay had ended before its terminal frame and the end of the stream, if it had.
\<close>

fun relayLoop ::
  "go_error option \<Rightarrow> go_error option \<Rightarrow> int \<Rightarrow> git_terminal option \<Rightarrow> int \<Rightarrow> raw_pipe \<Rightarrow> git_frame result list
    \<Rightarrow> (git_terminal result \<times> raw_pipe) option" where
  "relayLoop senderError relayError maxBytes terminal outputBytes out [] = None"
| "relayLoop senderError relayError maxBytes terminal outputBytes out (Inl e # rest) =
     Some (case terminal of
             Some t \<Rightarrow>
               if errors_Is e IoEOF then (case relayError of None \<Rightarrow> Inr t | Some e' \<Rightarrow> Inl e')
               else Inl (case senderError of None \<Rightarrow> e | Some e' \<Rightarrow> e')
           | None \<Rightarrow> Inl (case senderError of None \<Rightarrow> e | Some e' \<Rightarrow> e'), out)"
| "relayLoop senderError relayError maxBytes terminal outputBytes out (Inr frame # rest) =
     (case ssh_Accept (terminal \<noteq> None) frame of ((isTerminal, err), _) \<Rightarrow>
        case err of
          Some e \<Rightarrow> Some (Inl e, out)
        | None \<Rightarrow>
            if isTerminal then
              relayLoop senderError relayError maxBytes
                (case frame of Some (FrameTerminal t) \<Rightarrow> t | _ \<Rightarrow> None) outputBytes out rest
            else
              let data = frameData frame in
              if int (length data) > maxBytes - outputBytes then Some (errorf ''Git output exceeds local limit'', out)
              else case writeAll out data of
                (Some e, out') \<Rightarrow> Some (Inl e, out')
              | (None, out') \<Rightarrow>
                  relayLoop senderError relayError maxBytes terminal (outputBytes + int (length data)) out' rest)"

text \<open>
  One round of \<^verbatim>\<open>sendInput\<close>: what \<^verbatim>\<open>Read\<close> returns, whether the input was stopped or the context had ended
  when it is checked, the result of \<^verbatim>\<open>Send\<close>, and whether the input had been stopped when a failure
  is recorded.
\<close>

record send_round =
  srBytes :: string
  srError :: "go_error option"
  srInterrupt :: "go_error option option"
  srSend :: "go_error option"
  srStopped :: bool

definition recordFailure :: "send_round \<Rightarrow> go_error option \<Rightarrow> go_error option" where
  "recordFailure r err = (if srStopped r then None else err)"

definition errNoProgress :: go_error where
  "errNoProgress = Errorf ''multiple Read calls return no data or error'' []"

text \<open>The bytes of the data frames that were sent, and the result.\<close>

fun sendInput :: "int \<Rightarrow> go_error option \<Rightarrow> int \<Rightarrow> string list \<Rightarrow> send_round list \<Rightarrow> (string list \<times> go_error option) option" where
  "sendInput maxBytes closeSend n sent [] = None"
| "sendInput maxBytes closeSend n sent (r # rs) =
     (let m = int (length (srBytes r)) in
      if m > 0 \<and> m > maxBytes - n
      then Some (sent, recordFailure r (Some (Errorf ''Git input exceeds local limit'' [])))
      else if m > 0 \<and> srInterrupt r \<noteq> None then Some (sent, the (srInterrupt r))
      else if m > 0 \<and> srSend r \<noteq> None then Some (sent, recordFailure r (srSend r))
      else
        let sent' = (if m > 0 then sent @ [srBytes r] else sent) in
        case srError r of
          Some e \<Rightarrow>
            if errors_Is e IoEOF then Some (sent', recordFailure r closeSend) else Some (sent', recordFailure r (Some e))
        | None \<Rightarrow>
            if m = 0 then Some (sent', recordFailure r (Some errNoProgress))
            else sendInput maxBytes closeSend (n + m) sent' rs)"


section \<open>Exit status\<close>

definition shellStatus :: "32 word \<Rightarrow> int" where
  "shellStatus status = (if sint status < 1 \<or> sint status > 255 then 1 else sint status)"

text \<open>\<^verbatim>\<open>contextStatus\<close>: whether the context was cancelled, and the exit code of its cause if it has one.\<close>

definition contextStatus :: "bool \<Rightarrow> 32 word option \<Rightarrow> int" where
  "contextStatus isCancelled exitCause =
     (if \<not> isCancelled then 1 else case exitCause of Some c \<Rightarrow> shellStatus c | None \<Rightarrow> 130)"

text \<open>\<^verbatim>\<open>Run\<close>, given what the configuration, the connection and the relay result in.\<close>

definition ssh_Run :: "string list \<Rightarrow> bool \<Rightarrow> bool \<Rightarrow> int \<Rightarrow> (ssh_request \<Rightarrow> git_terminal result) \<Rightarrow> int" where
  "ssh_Run args configOK dialOK ctxStatus relay =
     (if args \<noteq> [] \<and> hd args = ''-G'' then (case validateVariantProbe args of Inl _ \<Rightarrow> 2 | Inr _ \<Rightarrow> 0)
      else case ssh_Parse args of
        Inl _ \<Rightarrow> 2
      | Inr request \<Rightarrow>
          if \<not> configOK then 1 else if \<not> dialOK then ctxStatus
          else case relay request of
            Inl _ \<Rightarrow> ctxStatus
          | Inr terminal \<Rightarrow> if ExitCode terminal \<noteq> 0 then shellStatus (ExitCode terminal) else 0)"


section \<open>The invocations of Git\<close>

text \<open>
  How Git invokes \<^verbatim>\<open>ssh\<close> for a repository: with or without the option for the protocol version, a port
  if the address has one, and the path with or without a leading slash.
\<close>

definition sshArgs ::
  "bool \<Rightarrow> string option \<Rightarrow> string \<Rightarrow> string \<Rightarrow> git_operation \<Rightarrow> bool \<Rightarrow> string \<Rightarrow> string \<Rightarrow> string list" where
  "sshArgs sendEnv port user host op slash owner name =
     (if sendEnv then [''-o'', ''SendEnv=GIT_PROTOCOL''] else [])
     @ (case port of None \<Rightarrow> [] | Some digits \<Rightarrow> [''-p'', digits])
     @ [user @ ''@'' @ host, commandPrefix op @ (if slash then ''/'' else []) @ owner @ ''/'' @ name @ commandSuffix]"

lemma code_inject: "c = d \<longleftrightarrow> code c = code d"
  by simp

lemma allRunes_name:
  "allRunes (\<lambda>r. asciiAlphaNumeric r \<or> r = 46 \<or> r = 95 \<or> r = 45) s \<longleftrightarrow>
     (\<forall>c \<in> set s. isAlnum c \<or> c = CHR ''.'' \<or> c = CHR ''_'' \<or> c = CHR ''-'')"
proof -
  have "c = CHR ''.'' \<longleftrightarrow> code c = 46" "c = CHR ''_'' \<longleftrightarrow> code c = 95" "c = CHR ''-'' \<longleftrightarrow> code c = 45" for c
    unfolding code_inject [of c "CHR ''.''"] code_inject [of c "CHR ''_''"] code_inject [of c "CHR ''-''"] by simp_all
  then show ?thesis
    by (subst allRunes_bytes) (auto simp: asciiAlphaNumeric_def char_class_defs)
qed

lemma allRunes_label:
  "allRunes (\<lambda>r. asciiAlphaNumeric r \<or> r = 45) s \<longleftrightarrow> (\<forall>c \<in> set s. isAlnum c \<or> c = CHR ''-'')"
proof -
  have "c = CHR ''-'' \<longleftrightarrow> code c = 45" for c
    unfolding code_inject [of c "CHR ''-''"] by simp
  then show ?thesis
    by (subst allRunes_bytes) (auto simp: asciiAlphaNumeric_def char_class_defs)
qed

lemma allRunes_digits: "allRunes (\<lambda>r. 48 \<le> r \<and> r \<le> 57) s \<longleftrightarrow> list_all isDigit s"
  by (subst allRunes_bytes) (auto simp: list_all_iff isDigit_def)

definition validPort :: "string \<Rightarrow> bool" where
  "validPort digits \<longleftrightarrow> digits \<noteq> [] \<and> list_all isDigit digits \<and> 0 < decimalValue digits \<and> decimalValue digits < 65536"

lemma decimalValue_nonneg: "list_all isDigit s \<Longrightarrow> 0 \<le> decimalValue s"
proof -
  have "0 \<le> n \<Longrightarrow> list_all isDigit s \<Longrightarrow> 0 \<le> foldl (\<lambda>v c. 10 * v + (code c - 48)) n s" for n
    by (induction s arbitrary: n) (auto simp: isDigit_def)
  then show "list_all isDigit s \<Longrightarrow> 0 \<le> decimalValue s"
    by (simp add: decimalValue_def)
qed

lemma parsePort_iff: "parsePort v = Inr port \<longleftrightarrow> validPort v \<and> port = decimalValue v"
  using decimalValue_nonneg [of v]
  by (auto simp: parsePort_def parseUint_def validPort_def allRunes_digits)

lemma countByte_1: "countByte s c = 1 \<longleftrightarrow> (\<exists>a b. s = a @ c # b \<and> c \<notin> set a \<and> c \<notin> set b)"
proof
  assume "countByte s c = 1"
  then obtain a b where s: "s = a @ c # b" "c \<notin> set a"
    by (metis (no_types, lifting) One_nat_def countByte_0 split_list_first zero_neq_one)
  then have "countByte b c = 0" using \<open>countByte s c = 1\<close> by (simp add: countByte_def filter_empty_conv)
  then show "\<exists>a b. s = a @ c # b \<and> c \<notin> set a \<and> c \<notin> set b" using s countByte_0 by blast
next
  assume "\<exists>a b. s = a @ c # b \<and> c \<notin> set a \<and> c \<notin> set b"
  then show "countByte s c = 1" by (auto simp: countByte_def filter_empty_conv)
qed

lemma set_join: "x \<in> set (join c ps) \<Longrightarrow> x = c \<or> (\<exists>p \<in> set ps. x \<in> set p)"
  by (induction c ps rule: join.induct) auto

lemma ssh_validHost_labels:
  assumes "ssh_validHost h" and "label \<in> set (split CHR ''.'' h)"
  shows "\<forall>c \<in> set label. isAlnum c \<or> c = CHR ''-''"
proof -
  have "allRunes (\<lambda>r. asciiAlphaNumeric r \<or> r = 45) label"
    using assms unfolding ssh_validHost_def list_all_iff by (metis (no_types, lifting))
  then show ?thesis by (simp only: allRunes_label)
qed

lemma host_chars: "ssh_validHost h \<Longrightarrow> c \<in> set h \<Longrightarrow> isAlnum c \<or> c = CHR ''-'' \<or> c = CHR ''.''"
  using set_join [of c "CHR ''.''" "split CHR ''.'' h"] ssh_validHost_labels by (fastforce simp: join_split)

lemma host_no_at: "ssh_validHost h \<Longrightarrow> CHR ''@'' \<notin> set h"
proof
  assume "ssh_validHost h" and "CHR ''@'' \<in> set h"
  then have "isAlnum CHR ''@'' \<or> CHR ''@'' = CHR ''-'' \<or> CHR ''@'' = CHR ''.''" by (rule host_chars)
  moreover have "\<not> isAlnum CHR ''@''" by code_simp
  ultimately show False by simp
qed

lemma sshUserRest_chars: "sshUserRest s \<Longrightarrow> c \<in> set s \<Longrightarrow> isLower c \<or> isDigit c \<or> c \<in> set ''_-$''"
  by (induction s) (auto split: if_splits)

lemma user_no_at: "validSSHUser u \<Longrightarrow> CHR ''@'' \<notin> set u"
proof
  assume v: "validSSHUser u" and "CHR ''@'' \<in> set u"
  then have "isLower CHR ''@'' \<or> isDigit CHR ''@'' \<or> CHR ''@'' \<in> set ''_-$''"
    using sshUserRest_chars [of "tl u" "CHR ''@''"] by (cases u) (auto simp: validSSHUser_def split: if_splits)
  moreover have "\<not> (isLower CHR ''@'' \<or> isDigit CHR ''@'' \<or> CHR ''@'' \<in> set ''_-$'')" by code_simp
  ultimately show False by blast
qed

lemma parseAuthority_iff:
  "parseAuthority authority = Inr (user, host') \<longleftrightarrow>
     (\<exists>host. authority = user @ ''@'' @ host \<and> validSSHUser user \<and> ssh_validHost host \<and> host' = toLower host)"
proof
  assume p: "parseAuthority authority = Inr (user, host')"
  then have "countByte authority CHR ''@'' = 1" by (auto simp: parseAuthority_def split: if_splits)
  then obtain a b where ab: "authority = a @ CHR ''@'' # b" "CHR ''@'' \<notin> set a"
    using countByte_1 by metis
  then have "cut CHR ''@'' authority = (a, b, True)" by (simp add: cut_append)
  then show "\<exists>host. authority = user @ ''@'' @ host \<and> validSSHUser user \<and> ssh_validHost host \<and> host' = toLower host"
    using p ab(1) by (auto simp: parseAuthority_def split: if_splits)
next
  assume "\<exists>host. authority = user @ ''@'' @ host \<and> validSSHUser user \<and> ssh_validHost host \<and> host' = toLower host"
  then obtain host where h: "authority = user @ CHR ''@'' # host" "validSSHUser user" "ssh_validHost host" "host' = toLower host"
    by auto
  note no = user_no_at [OF h(2)] host_no_at [OF h(3)]
  have "countByte authority CHR ''@'' = 1"
    unfolding countByte_1 using h(1) no by blast
  moreover have "cut CHR ''@'' authority = (user, host, True)"
    unfolding h(1) by (rule cut_append [OF no(1)])
  ultimately show "parseAuthority authority = Inr (user, host')"
    using h(2-4) by (simp add: parseAuthority_def)
qed

lemma between:
  assumes "prefix p c" and "suffix s c" and "s \<noteq> []" and "hd s \<notin> set p"
  shows "c = p @ substr c (length p) (length c - length s) @ s"
proof -
  obtain x y where x: "c = p @ x" and y: "c = y @ s"
    using assms(1,2) unfolding prefix_def suffix_def by blast
  have "length p \<le> length y"
  proof (rule ccontr)
    assume less: "\<not> length p \<le> length y"
    then have "p ! length y = c ! length y" using x by (simp add: nth_append)
    also have "\<dots> = hd s" using y assms(3) by (simp add: nth_append hd_conv_nth)
    finally have "p ! length y = hd s" .
    moreover have "p ! length y \<in> set p" using less by simp
    ultimately show False using assms(4) by simp
  qed
  then have "substr c (length p) (length c - length s) = drop (length p) y"
    unfolding y by (simp add: substr_def)
  moreover have "y = p @ drop (length p) y"
    using x y \<open>length p \<le> length y\<close> by (metis append_eq_append_conv_if append_take_drop_id)
  ultimately show ?thesis using y by (metis append.assoc)
qed

lemma validGiteaComponent_chars:
  "validGiteaComponent v \<Longrightarrow> v \<noteq> [] \<and> (\<forall>c \<in> set v. isAlnum c \<or> c = CHR ''.'' \<or> c = CHR ''_'' \<or> c = CHR ''-'')"
  unfolding validGiteaComponent_def allRunes_name by (auto split: if_splits)

lemma validGitHubSlug_chars:
  assumes "validGitHubSlug owner name"
  shows "owner \<noteq> [] \<and> (\<forall>c \<in> set owner. isAlnum c \<or> c = CHR ''-'')"
    and "name \<noteq> [] \<and> (\<forall>c \<in> set name. isAlnum c \<or> c = CHR ''.'' \<or> c = CHR ''_'' \<or> c = CHR ''-'')"
  using assms unfolding validGitHubSlug_def validGitHubName_def allRunes_name allRunes_label by (auto split: if_splits)

lemma slug_chars:
  assumes "ssh_validSlug owner name"
  shows "owner \<noteq> [] \<and> CHR ''/'' \<notin> set owner" "name \<noteq> [] \<and> CHR ''/'' \<notin> set name"
proof -
  have "\<not> isAlnum CHR ''/''" by code_simp
  then have "\<not> (isAlnum CHR ''/'' \<or> CHR ''/'' = CHR ''.'' \<or> CHR ''/'' = CHR ''_'' \<or> CHR ''/'' = CHR ''-'')" by simp
  then show "owner \<noteq> [] \<and> CHR ''/'' \<notin> set owner" "name \<noteq> [] \<and> CHR ''/'' \<notin> set name"
    using assms validGitHubSlug_chars [of owner name] validGiteaComponent_chars [of owner] validGiteaComponent_chars [of name]
    unfolding ssh_validSlug_def by blast+
qed

definition repoCommand :: "git_operation \<Rightarrow> bool \<Rightarrow> string \<Rightarrow> string \<Rightarrow> string" where
  "repoCommand op slash owner name =
     commandPrefix op @ (if slash then ''/'' else []) @ owner @ ''/'' @ name @ commandSuffix"

lemma split_two: "split CHR ''/'' s = [a, b] \<longleftrightarrow> s = a @ ''/'' @ b \<and> CHR ''/'' \<notin> set a \<and> CHR ''/'' \<notin> set b"
proof
  assume s: "split CHR ''/'' s = [a, b]"
  then have "s = a @ ''/'' @ b" using join_split [of "CHR ''/''" s] by simp
  then show "s = a @ ''/'' @ b \<and> CHR ''/'' \<notin> set a \<and> CHR ''/'' \<notin> set b"
    using s split_no_sep [of _ "CHR ''/''" s] by simp
qed (simp add: split_append split_single)

lemma trimPrefix_slash: "\<exists>slash. s = (if slash then ''/'' else []) @ trimPrefix s ''/''"
proof (cases "prefix ''/'' s")
  case True
  then have "s = (if True then ''/'' else []) @ trimPrefix s ''/''" by (auto simp: trimPrefix_def go_defs prefix_def)
  then show ?thesis by blast
next
  case False
  then have "s = (if False then ''/'' else []) @ trimPrefix s ''/''" by (simp add: trimPrefix_def go_defs)
  then show ?thesis by blast
qed

lemma matchCommand_iff:
  "matchCommand command op = Some (op', owner, name) \<longleftrightarrow>
     op' = op \<and> ssh_validSlug owner name \<and> (\<exists>slash. command = repoCommand op slash owner name)"
proof
  assume m: "matchCommand command op = Some (op', owner, name)"
  let ?mid = "substr command (length (commandPrefix op)) (length command - length commandSuffix)"
  have pre: "prefix (commandPrefix op) command" "suffix commandSuffix command"
    using m by (auto simp: matchCommand_def go_defs split: if_splits)
  have "hd commandSuffix \<notin> set (commandPrefix op)" by (cases op) (simp_all add: commandSuffix_def commandPrefix_def)
  then have c: "command = commandPrefix op @ ?mid @ commandSuffix"
    using between [OF pre] by (simp add: commandSuffix_def)
  have s: "split CHR ''/'' (trimPrefix ?mid ''/'') = [owner, name]" "ssh_validSlug owner name" "op' = op"
    using m by (auto simp: matchCommand_def Let_def split: if_splits list.splits)
  then have t: "trimPrefix ?mid ''/'' = owner @ ''/'' @ name" by (simp add: split_two)
  then obtain slash where "?mid = (if slash then ''/'' else []) @ owner @ ''/'' @ name"
    using trimPrefix_slash [of ?mid] by metis
  then have "command = repoCommand op slash owner name"
    using c unfolding repoCommand_def by (metis append.assoc)
  then show "op' = op \<and> ssh_validSlug owner name \<and> (\<exists>slash. command = repoCommand op slash owner name)"
    using s by blast
next
  assume "op' = op \<and> ssh_validSlug owner name \<and> (\<exists>slash. command = repoCommand op slash owner name)"
  then obtain slash where o: "op' = op" "ssh_validSlug owner name" "command = repoCommand op slash owner name" by blast
  note ch = slug_chars [OF o(2)]
  have "substr command (length (commandPrefix op)) (length command - length commandSuffix)
      = (if slash then ''/'' else []) @ owner @ ''/'' @ name"
    by (simp add: o(3) repoCommand_def substr_def)
  moreover have "trimPrefix ((if slash then ''/'' else []) @ owner @ ''/'' @ name) ''/'' = owner @ ''/'' @ name"
    using ch(1) by (cases owner) (auto simp: trimPrefix_def go_defs)
  moreover have "split CHR ''/'' (owner @ ''/'' @ name) = [owner, name]" using ch by (simp add: split_two)
  moreover have "hasPrefix command (commandPrefix op)" "hasSuffix command commandSuffix"
    by (auto simp: o(3) repoCommand_def go_defs suffix_def)
  ultimately show "matchCommand command op = Some (op', owner, name)"
    using o by (simp add: matchCommand_def)
qed

lemma matchCommand_op: "matchCommand command op = Some (op', r) \<Longrightarrow> op' = op"
  by (auto simp: matchCommand_def Let_def split: if_splits list.splits)

lemma parseCommand_iff:
  "parseCommand command = Inr (op, owner, name) \<longleftrightarrow>
     ssh_validSlug owner name \<and> (\<exists>slash. command = repoCommand op slash owner name)"
proof -
  have one: "matchCommand command UploadPack = None \<or> matchCommand command ReceivePack = None"
  proof (rule ccontr)
    assume "\<not> ?thesis"
    then have "prefix (commandPrefix UploadPack) command" "prefix (commandPrefix ReceivePack) command"
      by (auto simp: matchCommand_def go_defs split: if_splits)
    then have "prefix ''git-u'' command" "prefix ''git-r'' command"
      by (auto simp: commandPrefix_def prefix_def)
    then show False by (auto simp: prefix_def)
  qed
  have "parseCommand command = Inr (op, owner, name) \<longleftrightarrow> matchCommand command op = Some (op, owner, name)"
    using one matchCommand_op [of command]
    by (cases op; cases "matchCommand command UploadPack"; cases "matchCommand command ReceivePack")
      (auto simp: parseCommand_def)
  then show ?thesis by (simp add: matchCommand_iff)
qed

lemma skipSendEnv_iff:
  "skipSendEnv msg args = Inr rest \<longleftrightarrow>
     args = ''-o'' # ''SendEnv=GIT_PROTOCOL'' # rest \<or> rest = args \<and> (length args < 2 \<or> hd args \<noteq> ''-o'')"
  by (auto simp: skipSendEnv_def split: list.splits if_splits)

lemma takePort_iff:
  "takePort args = Inr (port, rest) \<longleftrightarrow>
     (\<exists>digits. args = ''-p'' # digits # rest \<and> validPort digits \<and> port = decimalValue digits)
     \<or> rest = args \<and> port = 0 \<and> (length args < 2 \<or> hd args \<noteq> ''-p'')"
  by (auto simp: takePort_def parsePort_iff result_simps split: list.splits if_splits)

lemma at_not_option: "validSSHUser user \<Longrightarrow> user @ ''@'' @ host \<noteq> ''-o'' \<and> user @ ''@'' @ host \<noteq> ''-p''"
  by (cases user) (auto simp: validSSHUser_def isLower_def split: if_splits)

lemma ssh_Parse_steps:
  assumes "ssh_Parse args = Inr request"
  obtains rest port authority command user host' op owner name where "validateArguments args = Inr ()"
    "skipSendEnv ''unsupported SSH option'' args = Inr rest" "takePort rest = Inr (port, [authority, command])"
    "parseAuthority authority = Inr (user, host')" "parseCommand command = Inr (op, owner, name)"
    "request = \<lparr>reqRepository = \<lparr>msgHost = host', msgOwner = owner, msgName = name, msgSshPort = word_of_int port,
        msgSshUser = user\<rparr>, reqOperation = op\<rparr>"
proof -
  obtain rest where v: "validateArguments args = Inr ()" "skipSendEnv ''unsupported SSH option'' args = Inr rest"
    using assms by (auto simp: ssh_Parse_def result_simps)
  then obtain port rest' where q: "takePort rest = Inr (port, rest')"
    using assms by (auto simp: ssh_Parse_def result_simps)
  then obtain authority command where r: "rest' = [authority, command]"
    using assms v by (auto simp: ssh_Parse_def split: list.splits)
  then show thesis
    using assms v q that by (auto simp: ssh_Parse_def result_simps)
qed

lemma ssh_Parse_exact_iff:
  "ssh_Parse args = Inr request \<longleftrightarrow>
     validateArguments args = Inr () \<and>
     (\<exists>sendEnv port user host op slash owner name.
        args = sshArgs sendEnv port user host op slash owner name
        \<and> (case port of None \<Rightarrow> True | Some digits \<Rightarrow> validPort digits)
        \<and> validSSHUser user \<and> ssh_validHost host \<and> ssh_validSlug owner name
        \<and> request = \<lparr>reqRepository = \<lparr>msgHost = toLower host, msgOwner = owner, msgName = name,
            msgSshPort = word_of_int (case port of None \<Rightarrow> 0 | Some digits \<Rightarrow> decimalValue digits), msgSshUser = user\<rparr>,
            reqOperation = op\<rparr>)"
  (is "_ \<longleftrightarrow> _ \<and> ?form")
proof
  assume "ssh_Parse args = Inr request"
  then obtain rest port authority command user host' op owner name where p: "validateArguments args = Inr ()"
    "skipSendEnv ''unsupported SSH option'' args = Inr rest" "takePort rest = Inr (port, [authority, command])"
    "parseAuthority authority = Inr (user, host')" "parseCommand command = Inr (op, owner, name)"
    "request = \<lparr>reqRepository = \<lparr>msgHost = host', msgOwner = owner, msgName = name, msgSshPort = word_of_int port,
        msgSshUser = user\<rparr>, reqOperation = op\<rparr>"
    by (rule ssh_Parse_steps)
  obtain host where h: "authority = user @ ''@'' @ host" "validSSHUser user" "ssh_validHost host" "host' = toLower host"
    using p(4) parseAuthority_iff by blast
  obtain slash where c: "ssh_validSlug owner name" "command = repoCommand op slash owner name"
    using p(5) parseCommand_iff by blast
  obtain digits where port: "rest = (case digits of None \<Rightarrow> [] | Some d \<Rightarrow> [''-p'', d]) @ [authority, command]"
    "case digits of None \<Rightarrow> True | Some d \<Rightarrow> validPort d" "port = (case digits of None \<Rightarrow> 0 | Some d \<Rightarrow> decimalValue d)"
    using p(3) unfolding takePort_iff
    by (elim disjE exE conjE) (auto intro: that [of "Some _"] that [of None])
  obtain sendEnv where "args = (if sendEnv then [''-o'', ''SendEnv=GIT_PROTOCOL''] else []) @ rest"
    using p(2) unfolding skipSendEnv_iff
    by (elim disjE conjE) (auto intro: that [of True] that [of False])
  then have "args = sshArgs sendEnv digits user host op slash owner name"
    using port(1) h(1) c(2) by (simp add: sshArgs_def repoCommand_def)
  then show "validateArguments args = Inr () \<and> ?form"
    using p(1,6) h(2-4) c(1) port(2,3) by blast
next
  assume "validateArguments args = Inr () \<and> ?form"
  then obtain sendEnv port user host op slash owner name where f: "validateArguments args = Inr ()"
    "args = sshArgs sendEnv port user host op slash owner name"
    "case port of None \<Rightarrow> True | Some digits \<Rightarrow> validPort digits" "validSSHUser user" "ssh_validHost host"
    "ssh_validSlug owner name"
    "request = \<lparr>reqRepository = \<lparr>msgHost = toLower host, msgOwner = owner, msgName = name,
            msgSshPort = word_of_int (case port of None \<Rightarrow> 0 | Some digits \<Rightarrow> decimalValue digits), msgSshUser = user\<rparr>,
            reqOperation = op\<rparr>"
    by blast
  let ?rest = "(case port of None \<Rightarrow> [] | Some d \<Rightarrow> [''-p'', d]) @ [user @ ''@'' @ host, repoCommand op slash owner name]"
  have args: "args = (if sendEnv then [''-o'', ''SendEnv=GIT_PROTOCOL''] else []) @ ?rest"
    by (simp add: f(2) sshArgs_def repoCommand_def)
  have "skipSendEnv msg args = Inr ?rest" for msg
    unfolding skipSendEnv_iff args using at_not_option [OF f(4), of host] by (cases port) auto
  moreover have "takePort ?rest = Inr (case port of None \<Rightarrow> 0 | Some d \<Rightarrow> decimalValue d,
      [user @ ''@'' @ host, repoCommand op slash owner name])"
    unfolding takePort_iff using at_not_option [OF f(4), of host] f(3) by (cases port) auto
  moreover have "parseAuthority (user @ ''@'' @ host) = Inr (user, toLower host)"
    unfolding parseAuthority_iff using f(4,5) by blast
  moreover have "parseCommand (repoCommand op slash owner name) = Inr (op, owner, name)"
    unfolding parseCommand_iff using f(6) by blast
  ultimately show "ssh_Parse args = Inr request"
    using f(1,7) by (simp add: ssh_Parse_def)
qed


text \<open>
  C17. The client accepts exactly what Git sends for a supported operation: the arguments, within the
  size limits, are one of the forms in which Git invokes \<^verbatim>\<open>ssh\<close> for a fetch or a push, with a valid
  user, host, port and path; and the request is exactly the repository named there, the host in
  lower case and port 0 for none.
\<close>

theorem ssh_Parse_exact:
  "ssh_Parse args = Inr request \<longleftrightarrow>
     validateArguments args = Inr () \<and>
     (\<exists>sendEnv port user host op slash owner name.
        args = sshArgs sendEnv port user host op slash owner name
        \<and> (case port of None \<Rightarrow> True | Some digits \<Rightarrow> validPort digits)
        \<and> validSSHUser user \<and> ssh_validHost host \<and> ssh_validSlug owner name
        \<and> request = \<lparr>reqRepository = \<lparr>msgHost = toLower host, msgOwner = owner, msgName = name,
            msgSshPort = word_of_int (case port of None \<Rightarrow> 0 | Some digits \<Rightarrow> decimalValue digits), msgSshUser = user\<rparr>,
            reqOperation = op\<rparr>)"
  by (rule ssh_Parse_exact_iff)


section \<open>Configured repositories\<close>

lemma sshUserName_valid: "sshUserName u \<Longrightarrow> validSSHUser u"
proof (cases u)
  case (Cons c cs)
  assume u: "sshUserName u"
  have rest: "sshUserRest (a @ b)" if "list_all (\<lambda>c. isLower c \<or> isDigit c \<or> c = CHR ''_'' \<or> c = CHR ''-'') a" "b = [] \<or> b = ''$''"
    for a b using that by (induction a) (auto simp: isLower_def isDigit_def)
  have "sshUserRest cs"
  proof (cases "suffix ''$'' cs")
    case True
    then obtain a where "cs = a @ ''$''" by (auto simp: suffix_def)
    then show ?thesis using u Cons rest [of a "''$''"] by (simp add: sshUserName_def)
  next
    case False
    then show ?thesis using u Cons rest [of cs "[]"] by (simp add: sshUserName_def trimSuffix_def go_defs)
  qed
  then show "validSSHUser u" using u Cons by (auto simp: sshUserName_def validSSHUser_def)
qed (simp add: sshUserName_def)

lemma ipv4Field_label: "ipv4Field f \<Longrightarrow> validLabel f"
proof -
  assume f: "ipv4Field f"
  have "isDigit (hd f)" "isDigit (last f)" using f by (simp_all add: ipv4Field_def list_all_iff)
  moreover have "\<not> isDigit CHR ''-''" by code_simp
  ultimately have "hd f \<noteq> CHR ''-''" "last f \<noteq> CHR ''-''" by metis+
  moreover have "allRunes (\<lambda>r. 97 \<le> r \<and> r \<le> 122 \<or> 65 \<le> r \<and> r \<le> 90 \<or> 48 \<le> r \<and> r \<le> 57 \<or> r = 45) f"
    using f by (subst allRunes_bytes) (auto simp: ipv4Field_def list_all_iff isDigit_def)
  ultimately show "validLabel f"
    using f by (auto simp: validLabel_def ipv4Field_def)
qed

lemma ValidProviderHost_valid:
  assumes "ValidProviderHost h"
  shows "ssh_validHost h"
proof -
  have h: "h \<noteq> []" "length h \<le> 253" "\<forall>label \<in> set (split CHR ''.'' h). validLabel label"
    using assms ipv4Field_label
    by (auto simp: ValidProviderHost_def parseIPv4_def list_all_iff split: if_splits)
  have "[] \<notin> set (split CHR ''.'' h)" using h(3) by (auto simp: validLabel_def)
  then have "\<not> hasPrefix h ''.''" "\<not> hasSuffix h ''.''"
    using split_Nil_suffix [of "CHR ''.''" h] by (auto simp: go_defs prefix_def)
  then show ?thesis
    using h by (auto simp: ssh_validHost_def list_all_iff validLabel_def asciiAlphaNumeric_def disj_assoc)
qed

lemma name_component:
  assumes "case s of [] \<Rightarrow> False | c # cs \<Rightarrow> isAlnum c \<and> length cs \<le> 99
      \<and> list_all (\<lambda>c. isAlnum c \<or> c = CHR ''.'' \<or> c = CHR ''_'' \<or> c = CHR ''-'') cs"
  shows "validGiteaComponent s"
proof (cases s)
  case (Cons c cs)
  then have c: "isAlnum c" "length s \<le> 100" "\<forall>d \<in> set s. isAlnum d \<or> d = CHR ''.'' \<or> d = CHR ''_'' \<or> d = CHR ''-''"
    using assms by (auto simp: list_all_iff)
  moreover have "c \<noteq> CHR ''.''" using c(1) by (auto simp: char_class_defs)
  moreover have "asciiAlphaNumeric (code c)" using c(1) by (auto simp: asciiAlphaNumeric_def char_class_defs)
  ultimately show ?thesis
    using Cons unfolding validGiteaComponent_def allRunes_name by auto
qed (use assms in simp)

lemma ValidRepositoryIdentity_slug:
  assumes "ValidRepositoryIdentity kind owner name"
  shows "ssh_validSlug owner name" and "length owner \<le> 100" and "length name \<le> 100"
proof -
  have "validGiteaComponent owner \<and> validGiteaComponent name"
    using assms
    by (intro conjI; rule_tac name_component)
      (auto simp: ValidRepositoryIdentity_def ownerName_def repositoryName_def validGiteaName_def giteaName_def list_all_iff
        split: if_splits list.splits)
  then show "ssh_validSlug owner name" "length owner \<le> 100" "length name \<le> 100"
    by (auto simp: ssh_validSlug_def validGiteaComponent_def split: if_splits)
qed

lemma decimalValue_itoa: "0 \<le> n \<Longrightarrow> decimalValue (itoa n) = n"
  using atoi_itoa [of n] by (simp add: atoi_def decimalValue_def mult.commute)

lemma port_itoa: "(p :: 16 word) \<noteq> 0 \<Longrightarrow> validPort (itoa (uint p))"
  using itoa_digits [of "uint p"] decimalValue_itoa [of "uint p"] uint_bounded [of p] uint_ge_0 [of p] uint_0_iff [of p]
  by (simp add: validPort_def order.not_eq_order_implies_strict)

lemma port_cast: "ucast (word_of_int (uint p) :: 32 word) = (p :: 16 word)"
  by transfer simp

text \<open>Arguments of printable ASCII within the limit pass.\<close>

definition plain :: "string \<Rightarrow> bool" where
  "plain s \<longleftrightarrow> (\<forall>c \<in> set s. 0 < code c \<and> code c < 128)"

lemma foldE_addArgument:
  assumes "\<forall>a \<in> set args. plain a" and "n + int (length (concat args)) \<le> maximumArgvBytes"
  shows "isOK (foldE addArgument n args)"
  using assms
proof (induction args arbitrary: n)
  case (Cons a args)
  have "isASCII a" "NUL \<notin> set a"
    using Cons.prems(1) by (auto simp: plain_def isASCII_def list_all_iff)
  then have "addArgument n a = Inr (n + int (length a))"
    using Cons.prems(2) by (simp add: addArgument_def Let_def validString_ascii)
  then show ?case using Cons by simp
qed simp

lemma plain_append [simp]: "plain (a @ b) \<longleftrightarrow> plain a \<and> plain b"
  by (auto simp: plain_def)

lemma plain_Cons [simp]: "plain (c # s) \<longleftrightarrow> 0 < code c \<and> code c < 128 \<and> plain s"
  by (auto simp: plain_def)

lemma isAlnum_plain: "isAlnum c \<Longrightarrow> 0 < code c \<and> code c < 128"
  by (auto simp: char_class_defs)

lemma plain_user: "validSSHUser u \<Longrightarrow> plain u"
proof -
  assume u: "validSSHUser u"
  have "isLower c \<or> isDigit c \<or> c \<in> set ''_-$''" if "c \<in> set u" for c
    using u that sshUserRest_chars [of "tl u" c] by (cases u) (auto simp: validSSHUser_def split: if_splits)
  then show "plain u" by (fastforce simp: plain_def isLower_def isDigit_def)
qed

lemma plain_host: "ssh_validHost h \<Longrightarrow> plain h"
  using host_chars isAlnum_plain by (fastforce simp: plain_def)

lemma plain_slug: "ssh_validSlug owner name \<Longrightarrow> plain owner \<and> plain name"
  using validGitHubSlug_chars [of owner name] validGiteaComponent_chars [of owner] validGiteaComponent_chars [of name] isAlnum_plain
  unfolding ssh_validSlug_def plain_def by fastforce

lemma plain_port: "validPort digits \<Longrightarrow> plain digits"
  by (auto simp: validPort_def plain_def list_all_iff isDigit_def)

lemma validateArguments_sshArgs:
  assumes "validSSHUser user" "ssh_validHost host" "ssh_validSlug owner name"
    and "case port of None \<Rightarrow> True | Some digits \<Rightarrow> validPort digits \<and> length digits \<le> 100"
    and "length user \<le> 1024" "length host \<le> 253" "length owner \<le> 100" "length name \<le> 100"
  shows "validateArguments (sshArgs sendEnv port user host op slash owner name) = Inr ()"
proof -
  let ?args = "sshArgs sendEnv port user host op slash owner name"
  have lit: "plain ''-o''" "plain ''SendEnv=GIT_PROTOCOL''" "plain ''-p''" "plain ''/''" "plain ''@''" "plain []"
    "plain (commandPrefix op)" "plain commandSuffix" "length (commandPrefix op) \<le> 18" "length commandSuffix = 5"
    by (cases op; simp add: plain_def commandPrefix_def commandSuffix_def)+
  have "\<forall>a \<in> set ?args. plain a"
    using plain_user [OF assms(1)] plain_host [OF assms(2)] plain_slug [OF assms(3)] assms(4) plain_port lit
    by (auto simp: sshArgs_def split: option.splits)
  moreover have "int (length (concat ?args)) \<le> maximumArgvBytes"
    using assms(4-8) lit(9,10) by (auto simp: sshArgs_def maximumArgvBytes_def split: option.splits)
  ultimately have "isOK (foldE addArgument 0 ?args)" using foldE_addArgument [of ?args 0] by simp
  moreover have "2 \<le> length ?args" "length ?args \<le> 64"
    by (auto simp: sshArgs_def split: option.splits)
  ultimately show ?thesis
    by (auto simp: validateArguments_def maximumArguments_def isOK_iff)
qed

lemma itoa_length: "0 \<le> n \<Longrightarrow> n < 10 ^ Suc k \<Longrightarrow> length (itoa n) \<le> Suc k"
proof (induction k arbitrary: n)
  case (Suc k)
  show ?case
  proof (cases "n < 10")
    case False
    have "n div 10 < 10 ^ Suc k" using Suc.prems by simp
    then show ?thesis
      using Suc.IH [of "n div 10"] Suc.prems False by (simp add: itoa.simps [of n] pos_imp_zdiv_nonneg_iff)
  qed (simp add: itoa.simps)
qed (simp add: itoa.simps)

text \<open>
  C15. Every configured repository can be reached through the client. In a validated configuration,
  whatever Git sends for a fetch or a push of a repository at its provider's SSH address (with or
  without the port, the option for the protocol version and the leading slash) is accepted by the
  client as that operation, and the selector it sends is one that the service matches with the
  repository. (The configuration does not bound the length of the SSH user, the client does: at most
  1024 bytes.)
\<close>

theorem configured_repository_reachable:
  assumes "Validate cfg = Inr ()" and "map_of (Repositories cfg) i = Some repo"
    and "map_of (Providers cfg) (Provider repo) = Some p" and "length (SSHUser p) \<le> 1024"
    and "port = None \<or> port = Some (itoa (uint (SSHPort p)))"
  shows "\<exists>request. ssh_Parse (sshArgs sendEnv port (SSHUser p) (GitHost p) op slash (Owner repo) (Name repo)) = Inr request
    \<and> reqOperation request = op \<and> matchesGit (gitSelectorOf (reqRepository request)) repo p"
proof -
  have p: "ValidProviderHost (GitHost p)" "sshUserName (SSHUser p)" "SSHPort p \<noteq> 0"
    using assms(1) map_of_SomeD [OF assms(3)] by (auto simp: Validate_iff validateProvider_def split: if_splits)
  have "ValidRepositoryIdentity (Kind p) (Owner repo) (Name repo)"
    using assms(1,3) map_of_SomeD [OF assms(2)] by (auto simp: Validate_iff validateRepository_def split: if_splits)
  note slug = ValidRepositoryIdentity_slug [OF this]
  note user = sshUserName_valid [OF p(2)] and host = ValidProviderHost_valid [OF p(1)]
  have host_len: "length (GitHost p) \<le> 253" using host by (simp add: ssh_validHost_def split: if_splits)
  have digits: "case port of None \<Rightarrow> True | Some digits \<Rightarrow> validPort digits \<and> length digits \<le> 100"
    using assms(5) port_itoa [OF p(3)] itoa_length [of "uint (SSHPort p)" 4] uint_bounded [of "SSHPort p"] by auto
  let ?args = "sshArgs sendEnv port (SSHUser p) (GitHost p) op slash (Owner repo) (Name repo)"
  let ?port = "case port of None \<Rightarrow> 0 | Some digits \<Rightarrow> decimalValue digits"
  let ?request = "\<lparr>reqRepository = \<lparr>msgHost = toLower (GitHost p), msgOwner = Owner repo, msgName = Name repo,
      msgSshPort = word_of_int ?port, msgSshUser = SSHUser p\<rparr>, reqOperation = op\<rparr>"
  have "ssh_Parse ?args = Inr ?request"
    unfolding ssh_Parse_exact_iff
    using validateArguments_sshArgs [OF user host slug(1) digits assms(4) host_len slug(2,3)] digits user host slug(1)
    by (intro conjI exI refl) (auto split: option.splits)
  moreover have "ucast (word_of_int ?port :: 32 word) = (0 :: 16 word) \<or> ucast (word_of_int ?port :: 32 word) = SSHPort p"
    using assms(5) port_cast [of "SSHPort p"] by (auto simp: decimalValue_itoa)
  moreover have "asciiEqualFold (toLower (GitHost p)) (GitHost p)" "isASCII (Owner repo)" "isASCII (Name repo)"
    using plain_host [OF host] plain_slug [OF slug(1)] code_lowerByte
    by (auto simp: asciiEqualFold_iff isASCII_def plain_def list_all_iff toLower_def)
  moreover have "SSHUser p \<noteq> []" using user by (auto simp: validSSHUser_def)
  ultimately show ?thesis
    by (intro exI [of _ ?request]) (auto simp: matchesGit_def gitSelectorOf_def asciiEqualFold_iff)
qed


section \<open>What is relayed\<close>

lemma writeAll_taken: "writeAll out data = (None, out') \<Longrightarrow> taken out' = taken out @ data"
proof (induction out data rule: writeAll.induct)
  case (1 out data)
  show ?case
  proof (cases "data = []")
    case False
    obtain n err out1 where w: "rawWrite out data = ((n, err), out1)" by (metis surj_pair)
    then have o: "taken out1 = taken out @ take n data"
      by (auto simp: rawWrite_def min_def split: list.splits)
    have r: "err = None" "n \<noteq> 0" "writeAll out1 (drop n data) = (None, out')"
      using "1.prems" False w by (auto simp: writeAll.simps [of out data] split: if_splits)
    then show ?thesis using "1.IH" [OF False w [symmetric]] o by auto
  qed (use "1.prems" in \<open>simp add: writeAll.simps\<close>)
qed

lemma writeAll_free: "outcomes out = [] \<Longrightarrow> writeAll out data = (None, if data = [] then out else out\<lparr>taken := taken out @ data\<rparr>)"
  by (simp add: writeAll.simps [of out data] writeAll.simps [of _ "[]"] rawWrite_def)

definition dataFrame :: "string \<Rightarrow> git_frame result" where
  "dataFrame d = Inr (Some (FrameData (Some d)))"

definition terminalFrame :: "git_terminal \<Rightarrow> git_frame result" where
  "terminalFrame t = Inr (Some (FrameTerminal (Some t)))"

lemma ssh_Accept_data:
  "ssh_Accept terminal frame = ((False, None), b) \<longleftrightarrow>
     \<not> terminal \<and> \<not> b \<and> (\<exists>d. frame = Some (FrameData (Some d)) \<and> int (length d) \<le> maxChunkBytes)"
  by (auto simp: ssh_Accept_def not_less split: frame_payload.splits option.splits if_splits)

lemma ssh_Accept_terminal:
  "ssh_Accept terminal frame = ((True, None), b) \<longleftrightarrow>
     \<not> terminal \<and> b \<and> (\<exists>t. frame = Some (FrameTerminal (Some t)) \<and> validTerminal (Some t))"
proof (cases frame)
  case (Some payload)
  moreover have "validTerminal t \<Longrightarrow> \<exists>t'. t = Some t'" for t by (cases t) (simp_all add: validTerminal_def)
  ultimately show ?thesis
    by (cases payload) (auto simp: ssh_Accept_def split: option.splits if_splits)
qed (simp add: ssh_Accept_def)

text \<open>The frames after the terminal one: none is accepted.\<close>

lemma relayLoop_ended:
  "relayLoop se re m (Some t) n out recvs = Some (Inr t', out') \<Longrightarrow>
     \<exists>e rest. recvs = Inl e # rest \<and> errors_Is e IoEOF \<and> re = None \<and> t' = t \<and> out' = out"
proof (cases recvs)
  case (Cons r rest)
  assume run: "relayLoop se re m (Some t) n out recvs = Some (Inr t', out')"
  then show ?thesis
    using Cons by (cases r) (auto simp: ssh_Accept_def split: if_splits option.splits)
qed simp

lemma relayLoop_sound:
  assumes "relayLoop se re m None n out recvs = Some (Inr t, out')" and "n \<le> m"
  shows "\<exists>datas e rest. recvs = map dataFrame datas @ terminalFrame t # Inl e # rest \<and> errors_Is e IoEOF
    \<and> taken out' = taken out @ concat datas \<and> n + int (length (concat datas)) \<le> m
    \<and> list_all (\<lambda>d. int (length d) \<le> maxChunkBytes) datas \<and> validTerminal (Some t) \<and> re = None"
  using assms
proof (induction recvs arbitrary: n out)
  case (Cons r recvs)
  then obtain frame where r: "r = Inr frame" by (cases r) auto
  obtain isT err b where a: "ssh_Accept False frame = ((isT, err), b)" by (metis surj_pair)
  have err: "err = None" using Cons.prems(1) r a by (cases err) auto
  show ?case
  proof (cases isT)
    case True
    then obtain t1 where t1: "frame = Some (FrameTerminal (Some t1))" "validTerminal (Some t1)"
      using a err ssh_Accept_terminal [of False frame b] by auto
    then have "relayLoop se re m (Some t1) n out recvs = Some (Inr t, out')"
      using Cons.prems(1) r a err True by simp
    from relayLoop_ended [OF this] obtain e rest where "recvs = Inl e # rest" "errors_Is e IoEOF" "re = None" "t = t1" "out' = out"
      by blast
    then show ?thesis
      using t1 r Cons.prems(2) by (intro exI [of _ "[]"] exI [of _ e] exI [of _ rest]) (simp add: terminalFrame_def)
  next
    case False
    then obtain d where d: "frame = Some (FrameData (Some d))" "int (length d) \<le> maxChunkBytes"
      using a err ssh_Accept_data [of False frame b] by auto
    have fits: "int (length d) \<le> m - n"
      using Cons.prems(1) r a err False d(1) by (simp add: frameData_def errorf_def not_less [symmetric] split: if_splits)
    obtain werr out1 where w: "writeAll out d = (werr, out1)" by fastforce
    then have w1: "werr = None" and run: "relayLoop se re m None (n + int (length d)) out1 recvs = Some (Inr t, out')"
      using Cons.prems(1) r a err False d(1) fits by (cases werr; simp add: frameData_def)+
    obtain datas e rest where ih: "recvs = map dataFrame datas @ terminalFrame t # Inl e # rest" "errors_Is e IoEOF"
      "taken out' = taken out1 @ concat datas" "n + int (length d) + int (length (concat datas)) \<le> m"
      "list_all (\<lambda>d. int (length d) \<le> maxChunkBytes) datas" "validTerminal (Some t)" "re = None"
      using Cons.IH [OF run] fits by force
    show ?thesis
      using ih r d w w1 writeAll_taken [of out d out1]
      by (intro exI [of _ "d # datas"] exI [of _ e] exI [of _ rest]) (simp add: dataFrame_def)
  qed
qed simp

lemma relayLoop_complete:
  assumes "list_all (\<lambda>d. int (length d) \<le> maxChunkBytes) datas" and "n + int (length (concat datas)) \<le> m"
    and "validTerminal (Some t)" and "errors_Is e IoEOF" and "outcomes out = []"
  shows "\<exists>out'. relayLoop se None m None n out (map dataFrame datas @ terminalFrame t # Inl e # rest) = Some (Inr t, out')
    \<and> taken out' = taken out @ concat datas"
  using assms
proof (induction datas arbitrary: n out)
  case Nil
  then show ?case by (simp add: terminalFrame_def ssh_Accept_def)
next
  case (Cons d datas)
  let ?out1 = "if d = [] then out else out\<lparr>taken := taken out @ d\<rparr>"
  have "ssh_Accept False (Some (FrameData (Some d))) = ((False, None), False)"
    using Cons.prems(1) by (simp add: ssh_Accept_def)
  moreover obtain out' where "relayLoop se None m None (n + int (length d)) ?out1 (map dataFrame datas @ terminalFrame t # Inl e # rest)
      = Some (Inr t, out')" "taken out' = taken ?out1 @ concat datas"
    using Cons.IH [of "n + int (length d)" ?out1] Cons.prems by auto
  ultimately show ?case
    using Cons.prems(2) writeAll_free [OF Cons.prems(5), of d]
    by (intro exI [of _ out']) (simp add: dataFrame_def [of d] frameData_def)
qed

text \<open>
  C16. The client reports the end of a Git session only when it has it all: if the relay returns a
  terminal frame, the server sent data frames within the limits, then that valid terminal frame, then
  the end of the stream, nothing had failed, and the standard output took exactly the bytes of the
  data frames, at most the limit. Conversely every such stream is relayed to its end if the standard
  output takes what it is given.
\<close>

theorem relay_delivers:
  assumes "0 \<le> m"
  shows "(relayLoop se re m None 0 out recvs = Some (Inr t, out') \<longrightarrow>
      (\<exists>datas e rest. recvs = map dataFrame datas @ terminalFrame t # Inl e # rest \<and> errors_Is e IoEOF
        \<and> taken out' = taken out @ concat datas \<and> int (length (concat datas)) \<le> m
        \<and> list_all (\<lambda>d. int (length d) \<le> maxChunkBytes) datas \<and> validTerminal (Some t) \<and> re = None))
    \<and> (list_all (\<lambda>d. int (length d) \<le> maxChunkBytes) datas \<and> int (length (concat datas)) \<le> m \<and> validTerminal (Some t)
        \<and> outcomes out = [] \<longrightarrow>
      (\<exists>out'. relayLoop se None m None 0 out (map dataFrame datas @ [terminalFrame t, Inl (Sentinel IoEOF)]) = Some (Inr t, out')
        \<and> taken out' = taken out @ concat datas))"
proof (intro conjI impI)
  assume "relayLoop se re m None 0 out recvs = Some (Inr t, out')"
  from relayLoop_sound [OF this assms]
  show "\<exists>datas e rest. recvs = map dataFrame datas @ terminalFrame t # Inl e # rest \<and> errors_Is e IoEOF
      \<and> taken out' = taken out @ concat datas \<and> int (length (concat datas)) \<le> m
      \<and> list_all (\<lambda>d. int (length d) \<le> maxChunkBytes) datas \<and> validTerminal (Some t) \<and> re = None"
    unfolding add_0 .
next
  assume "list_all (\<lambda>d. int (length d) \<le> maxChunkBytes) datas \<and> int (length (concat datas)) \<le> m \<and> validTerminal (Some t)
    \<and> outcomes out = []"
  then show "\<exists>out'. relayLoop se None m None 0 out (map dataFrame datas @ [terminalFrame t, Inl (Sentinel IoEOF)]) = Some (Inr t, out')
    \<and> taken out' = taken out @ concat datas"
    using relayLoop_complete [of datas 0 m t "Sentinel IoEOF" out se "[]"] by simp
qed

theorem relay_delivers_witness:
  "\<exists>out'. relayLoop None None 100 None 0 \<lparr>taken = [], outcomes = [], closed = False\<rparr>
      (map dataFrame [''abc'', ''de''] @ [terminalFrame \<lparr>ExitCode = 0, Category = Completed\<rparr>, Inl (Sentinel IoEOF)])
        = Some (Inr \<lparr>ExitCode = 0, Category = Completed\<rparr>, out') \<and> taken out' = ''abcde''"
proof -
  have "list_all (\<lambda>d. int (length d) \<le> maxChunkBytes) [''abc'', ''de'']" "int (length (concat [''abc'', ''de''])) \<le> 100"
    "validTerminal (Some \<lparr>ExitCode = 0, Category = Completed\<rparr>)"
    by (simp_all add: maxChunkBytes_def validTerminal_def)
  then show ?thesis
    using relay_delivers [of 100 None None "\<lparr>taken = [], outcomes = [], closed = False\<rparr>" "[]" "\<lparr>ExitCode = 0, Category = Completed\<rparr>"
        "\<lparr>taken = [], outcomes = [], closed = False\<rparr>" "[''abc'', ''de'']"] by simp
qed

theorem configured_repository_reachable_witness:
  "\<exists>request. ssh_Parse [''-o'', ''SendEnv=GIT_PROTOCOL'', ''-p'', ''2222'', ''git'' @ ''@'' @ ''git.example'',
       ''git-upload-pack '' @ [CHR 0x27] @ ''/Team/Repo.git'' @ [CHR 0x27]] = Inr request \<and> reqOperation request = UploadPack"
proof -
  define repo where "repo = snd (Repositories exampleConfig ! 1)"
  define p where "p = snd (Providers exampleConfig ! 1)"
  have m: "map_of (Repositories exampleConfig) ''beta'' = Some repo" "map_of (Providers exampleConfig) (Provider repo) = Some p"
    "length (SSHUser p) \<le> 1024"
    by (simp_all add: repo_def p_def exampleConfig_def)
  have "uint (SSHPort p) = 2222" by (simp add: p_def exampleConfig_def)
  moreover have "itoa 2222 = ''2222''" by code_simp
  ultimately have "itoa (uint (SSHPort p)) = ''2222''" by simp
  then have "sshArgs True (Some (itoa (uint (SSHPort p)))) (SSHUser p) (GitHost p) UploadPack True (Owner repo) (Name repo)
    = [''-o'', ''SendEnv=GIT_PROTOCOL'', ''-p'', ''2222'', ''git'' @ ''@'' @ ''git.example'',
       ''git-upload-pack '' @ [CHR 0x27] @ ''/Team/Repo.git'' @ [CHR 0x27]]"
    by (simp add: sshArgs_def repo_def p_def exampleConfig_def commandPrefix_def commandSuffix_def)
  then show ?thesis
    using configured_repository_reachable [OF exampleConfig_valid m, of "Some (itoa (uint (SSHPort p)))" True UploadPack True]
    by auto
qed

end
