(* ===== verification/Gitea_Request.thy ===== *)
theory Gitea_Request
  imports Config_Types Go_Errors Proto_Common
begin

text \<open>
  Package \<^verbatim>\<open>internal/provider/gitea\<close>, the typed requests: their messages
  (\<^verbatim>\<open>proto/repowolf/v1/gitea.proto\<close>), validation, capability and operation name (\<^verbatim>\<open>operation.go\<close>).

  The functions of the protobuf library on time stamps are a parameter (\<open>timestamp_lib\<close>).
\<close>

section \<open>Messages\<close>

record timestamp =
  tsSeconds :: int
  tsNanos :: int

text \<open>\<^verbatim>\<open>Timestamp.IsValid\<close>, \<^verbatim>\<open>Timestamp.AsTime\<close> and \<^verbatim>\<open>timestamppb.New\<close>. A \<^verbatim>\<open>time.Time\<close> is the number of nanoseconds since its zero value.\<close>

record timestamp_lib =
  tsIsValid :: "timestamp \<Rightarrow> bool"
  tsAsTime :: "timestamp \<Rightarrow> int"
  tsNew :: "int \<Rightarrow> timestamp"

record gt_issue_list =
  gilState :: int
  gilKeyword :: "string option"
  gilAuthor :: "string option"
  gilAssignee :: "string option"
  gilMentions :: "string option"
  gilFrom :: "timestamp option"
  gilUntil :: "timestamp option"
  gilOwner :: "string option"
  gilPage :: int
  gilLimit :: int
  gilFields :: "int list"

record gt_view =
  gvIndex :: int
  gvIncludeComments :: bool

record gt_issue_create =
  gicTitle :: string
  gicDescription :: "string option"
  gicAssignees :: "string list"
  gicLabels :: "string list"

record gt_issue_comment =
  gcmIndex :: int
  gcmBody :: string

text \<open>The \<^verbatim>\<open>oneof\<close>s of an edit, each case with its list message, which may be nil.\<close>

datatype assignee_action =
  SetAssignees "string list option" | AddAssignees "string list option" | RemoveAssignees "string list option"

datatype label_action = GtAddLabels "string list option" | GtRemoveLabels "string list option"

record gt_issue_edit =
  gieIndex :: int
  gieTitle :: "string option"
  gieDescription :: "string option"
  gieAssigneeAction :: "assignee_action option"
  gieLabelAction :: "label_action option"

record gt_pull_list =
  gplState :: int
  gplPage :: int
  gplLimit :: int
  gplFields :: "int list"

datatype gitea_operation =
    GtNone
  | GtRepositoryView "unit option"
  | GtIssueList "gt_issue_list option"
  | GtIssueView "gt_view option"
  | GtIssueCreate "gt_issue_create option"
  | GtIssueComment "gt_issue_comment option"
  | GtIssueClose "int option"
  | GtIssueReopen "int option"
  | GtIssueEdit "gt_issue_edit option"
  | GtPullList "gt_pull_list option"
  | GtPullView "gt_view option"

record gitea_request =
  gtContext :: "request_context option"
  gtOperation :: gitea_operation


section \<open>Validation\<close>

definition maximumMutationBodyBytes :: int where "maximumMutationBodyBytes = 65536"

abbreviation gt_invalid :: "'a result" where
  "gt_invalid \<equiv> fail GiteaErrInvalidRequest"

definition gt_check :: "bool \<Rightarrow> unit result" where
  "gt_check ok = (if ok then Inr () else gt_invalid)"

definition validMutationText :: "string \<Rightarrow> bool \<Rightarrow> int \<Rightarrow> int \<Rightarrow> bool" where
  "validMutationText v allowEmpty maxBytes maxRunes =
     (\<not> (\<not> allowEmpty \<and> v = [] \<or> \<not> validString v \<or> NUL \<in> set v
         \<or> maxBytes > 0 \<and> int (length v) > maxBytes \<or> maxRunes > 0 \<and> int (length (runes v)) > maxRunes))"

fun validMutationLoop :: "string set \<Rightarrow> string list \<Rightarrow> bool" where
  "validMutationLoop seen [] = True"
| "validMutationLoop seen (v # vs) =
     (if \<not> validMutationText v False 0 255 then False
      else if v \<in> seen then False
      else validMutationLoop (insert v seen) vs)"

definition validMutationList :: "string list \<Rightarrow> bool" where
  "validMutationList vs = (if length vs > 25 then False else validMutationLoop {} vs)"

definition gt_validateIssueCreate :: "gt_issue_create option \<Rightarrow> unit result" where
  "gt_validateIssueCreate v =
     (case v of
        None \<Rightarrow> gt_invalid
      | Some r \<Rightarrow> gt_check
          (validMutationText (gicTitle r) False 0 255
           \<and> (case gicDescription r of None \<Rightarrow> True | Some d \<Rightarrow> validMutationText d True maximumMutationBodyBytes 0)
           \<and> validMutationList (gicAssignees r) \<and> validMutationList (gicLabels r)))"

fun actionAssignees :: "assignee_action \<Rightarrow> string list option \<times> bool" where
  "actionAssignees (SetAssignees l) = (l, True)"
| "actionAssignees (AddAssignees l) = (l, False)"
| "actionAssignees (RemoveAssignees l) = (l, False)"

fun actionLabels :: "label_action \<Rightarrow> string list option" where
  "actionLabels (GtAddLabels l) = l"
| "actionLabels (GtRemoveLabels l) = l"

definition gt_validateIssueEdit :: "gt_issue_edit option \<Rightarrow> unit result" where
  "gt_validateIssueEdit v =
     (case v of
        None \<Rightarrow> gt_invalid
      | Some r \<Rightarrow>
          if gieIndex r \<le> 0 \<or> gieTitle r = None \<and> gieDescription r = None
            \<and> gieAssigneeAction r = None \<and> gieLabelAction r = None
          then gt_invalid
          else if (case gieTitle r of None \<Rightarrow> False | Some t \<Rightarrow> \<not> validMutationText t False 0 255)
            \<or> (case gieDescription r of None \<Rightarrow> False
               | Some d \<Rightarrow> \<not> validMutationText d True maximumMutationBodyBytes 0)
          then gt_invalid
          else
            (let (assignees, allowEmpty) =
                   (case gieAssigneeAction r of None \<Rightarrow> (None, False) | Some a \<Rightarrow> actionAssignees a);
                 labels = (case gieLabelAction r of None \<Rightarrow> None | Some a \<Rightarrow> actionLabels a) in
             if (case assignees of None \<Rightarrow> False
                 | Some vs \<Rightarrow> \<not> allowEmpty \<and> vs = [] \<or> \<not> validMutationList vs)
               \<or> gieAssigneeAction r \<noteq> None \<and> assignees = None
             then gt_invalid
             else if (case labels of None \<Rightarrow> False | Some vs \<Rightarrow> vs = [] \<or> \<not> validMutationList vs)
               \<or> gieLabelAction r \<noteq> None \<and> labels = None
             then gt_invalid
             else Inr ()))"

fun distinctFields :: "int \<Rightarrow> int set \<Rightarrow> int list \<Rightarrow> bool" where
  "distinctFields mx seen [] = True"
| "distinctFields mx seen (f # fs) =
     (if f < 1 \<or> f > mx \<or> f \<in> seen then False else distinctFields mx (insert f seen) fs)"

definition badFilter :: "string option \<Rightarrow> bool" where
  "badFilter v =
     (case v of None \<Rightarrow> False | Some s \<Rightarrow> s = [] \<or> length s > 255 \<or> \<not> validString s \<or> NUL \<in> set s)"

definition gt_validateIssueList :: "timestamp_lib \<Rightarrow> gt_issue_list option \<Rightarrow> unit result" where
  "gt_validateIssueList lib v =
     (case v of
        None \<Rightarrow> gt_invalid
      | Some r \<Rightarrow>
          if gilState r < 1 \<or> gilState r > 3 \<or> gilPage r \<le> 0 \<or> gilLimit r \<le> 0 \<or> gilLimit r > 50 \<or> gilFields r = []
          then gt_invalid
          else if list_ex badFilter [gilKeyword r, gilAuthor r, gilAssignee r, gilMentions r, gilOwner r]
          then gt_invalid
          else if (case gilFrom r of None \<Rightarrow> False | Some t \<Rightarrow> \<not> tsIsValid lib t)
            \<or> (case gilUntil r of None \<Rightarrow> False | Some t \<Rightarrow> \<not> tsIsValid lib t)
            \<or> (case (gilFrom r, gilUntil r) of
                 (Some f, Some u) \<Rightarrow> tsAsTime lib f > tsAsTime lib u | _ \<Rightarrow> False)
          then gt_invalid
          else gt_check (distinctFields 17 {} (gilFields r)))"

definition gt_validatePullList :: "gt_pull_list option \<Rightarrow> unit result" where
  "gt_validatePullList v =
     (case v of
        None \<Rightarrow> gt_invalid
      | Some r \<Rightarrow>
          if gplState r < 1 \<or> gplState r > 3 \<or> gplPage r \<le> 0 \<or> gplLimit r \<le> 0 \<or> gplLimit r > 50 \<or> gplFields r = []
          then gt_invalid
          else gt_check (distinctFields 18 {} (gplFields r)))"

definition positive :: "int option \<Rightarrow> unit result" where
  "positive v = (case v of None \<Rightarrow> gt_invalid | Some n \<Rightarrow> gt_check (n > 0))"

fun gt_validateOperation :: "timestamp_lib \<Rightarrow> gitea_operation \<Rightarrow> unit result" where
  "gt_validateOperation lib (GtRepositoryView v) = (if v = None then gt_invalid else Inr ())"
| "gt_validateOperation lib (GtIssueList v) = gt_validateIssueList lib v"
| "gt_validateOperation lib (GtIssueView v) = positive (map_option gvIndex v)"
| "gt_validateOperation lib (GtIssueCreate v) = gt_validateIssueCreate v"
| "gt_validateOperation lib (GtIssueComment v) =
     (case v of
        None \<Rightarrow> gt_invalid
      | Some r \<Rightarrow> gt_check (gcmIndex r > 0 \<and> validMutationText (gcmBody r) False maximumMutationBodyBytes 0))"
| "gt_validateOperation lib (GtIssueClose v) = positive v"
| "gt_validateOperation lib (GtIssueReopen v) = positive v"
| "gt_validateOperation lib (GtIssueEdit v) = gt_validateIssueEdit v"
| "gt_validateOperation lib (GtPullList v) = gt_validatePullList v"
| "gt_validateOperation lib (GtPullView v) = positive (map_option gvIndex v)"
| "gt_validateOperation lib GtNone = gt_invalid"

definition gitea_ValidateRequest :: "timestamp_lib \<Rightarrow> gitea_request option \<Rightarrow> unit result" where
  "gitea_ValidateRequest lib request =
     (case request of None \<Rightarrow> gt_invalid | Some r \<Rightarrow> gt_validateOperation lib (gtOperation r))"


section \<open>Capability and operation name\<close>

fun gt_operationCapability :: "gitea_operation \<Rightarrow> capability result" where
  "gt_operationCapability (GtRepositoryView _) = Inr RepositoryRead"
| "gt_operationCapability (GtIssueList _) = Inr IssuesRead"
| "gt_operationCapability (GtIssueView _) = Inr IssuesRead"
| "gt_operationCapability (GtIssueCreate _) = Inr IssuesWrite"
| "gt_operationCapability (GtIssueComment _) = Inr IssuesWrite"
| "gt_operationCapability (GtIssueClose _) = Inr IssuesWrite"
| "gt_operationCapability (GtIssueReopen _) = Inr IssuesWrite"
| "gt_operationCapability (GtIssueEdit _) = Inr IssuesWrite"
| "gt_operationCapability (GtPullList _) = Inr PullRequestsRead"
| "gt_operationCapability (GtPullView _) = Inr PullRequestsRead"
| "gt_operationCapability GtNone = gt_invalid"

definition gitea_Capability :: "timestamp_lib \<Rightarrow> gitea_request option \<Rightarrow> capability result" where
  "gitea_Capability lib request =
     bindE (gitea_ValidateRequest lib request) (\<lambda>_.
       case request of None \<Rightarrow> gt_invalid | Some r \<Rightarrow> gt_operationCapability (gtOperation r))"

fun gt_operationName :: "gitea_operation \<Rightarrow> string result" where
  "gt_operationName (GtRepositoryView _) = Inr ''gitea.repository_view''"
| "gt_operationName (GtIssueList _) = Inr ''gitea.issue_list''"
| "gt_operationName (GtIssueView _) = Inr ''gitea.issue_view''"
| "gt_operationName (GtIssueCreate _) = Inr ''gitea.issue_create''"
| "gt_operationName (GtIssueComment _) = Inr ''gitea.issue_comment''"
| "gt_operationName (GtIssueClose _) = Inr ''gitea.issue_close''"
| "gt_operationName (GtIssueReopen _) = Inr ''gitea.issue_reopen''"
| "gt_operationName (GtIssueEdit _) = Inr ''gitea.issue_edit''"
| "gt_operationName (GtPullList _) = Inr ''gitea.pull_list''"
| "gt_operationName (GtPullView _) = Inr ''gitea.pull_view''"
| "gt_operationName GtNone = gt_invalid"

definition gitea_OperationName :: "timestamp_lib \<Rightarrow> gitea_request option \<Rightarrow> string result" where
  "gitea_OperationName lib request =
     bindE (gitea_ValidateRequest lib request) (\<lambda>_.
       case request of None \<Rightarrow> gt_invalid | Some r \<Rightarrow> gt_operationName (gtOperation r))"


section \<open>Lists without duplicates\<close>

lemma validMutationLoop_iff:
  "validMutationLoop seen vs \<longleftrightarrow>
     distinct vs \<and> set vs \<inter> seen = {} \<and> (\<forall>v \<in> set vs. validMutationText v False 0 255)"
  by (induct vs arbitrary: seen) auto

lemma validMutationList_iff:
  "validMutationList vs \<longleftrightarrow>
     length vs \<le> 25 \<and> distinct vs \<and> (\<forall>v \<in> set vs. validMutationText v False 0 255)"
  by (auto simp: validMutationList_def validMutationLoop_iff)

lemma distinctFields_iff:
  "distinctFields mx seen fs \<longleftrightarrow> distinct fs \<and> set fs \<inter> seen = {} \<and> (\<forall>f \<in> set fs. 1 \<le> f \<and> f \<le> mx)"
  by (induct fs arbitrary: seen) auto

end
