(* ===== verification/Go_Time.thy ===== *)
theory Go_Time
  imports Go_Text Config_Validate
begin

text \<open>
  What RepoWolf's clients use of Go's packages \<^verbatim>\<open>time\<close> and \<^verbatim>\<open>strconv\<close>: \<^verbatim>\<open>time.Parse\<close> with the layout
  \<^verbatim>\<open>time.RFC3339\<close>, and \<^verbatim>\<open>strconv.ParseInt\<close>. A \<^verbatim>\<open>time.Time\<close> is the number of nanoseconds since its zero
  value, the first instant of the year 1.
\<close>

section \<open>Calendar\<close>

definition isLeap :: "int \<Rightarrow> bool" where
  "isLeap y = (y mod 4 = 0 \<and> (y mod 100 \<noteq> 0 \<or> y mod 400 = 0))"

definition daysIn :: "int \<Rightarrow> int \<Rightarrow> int" where
  "daysIn m y = (if m = 2 then (if isLeap y then 29 else 28) else if m \<in> {4, 6, 9, 11} then 30 else 31)"

fun daysBefore :: "nat \<Rightarrow> int \<Rightarrow> int" where
  "daysBefore 0 y = 0"
| "daysBefore (Suc m) y = daysBefore m y + daysIn (int m + 1) y"

text \<open>The days between the first day of the year 1 and a date.\<close>

definition dayNumber :: "int \<Rightarrow> int \<Rightarrow> int \<Rightarrow> int" where
  "dayNumber y m d =
     365 * (y - 1) + (y - 1) div 4 - (y - 1) div 100 + (y - 1) div 400 + daysBefore (nat (m - 1)) y + (d - 1)"


section \<open>Parsing\<close>

text \<open>\<^verbatim>\<open>getnum\<close>: a number of two digits, or of one if \<open>fixed\<close> is not set.\<close>

definition getnum :: "bool \<Rightarrow> string \<Rightarrow> (int \<times> string) option" where
  "getnum fixed s =
     (case s of
        [] \<Rightarrow> None
      | c # rest \<Rightarrow>
          if \<not> isDigit c then None
          else case rest of
            d # rest' \<Rightarrow>
              if isDigit d then Some (10 * (code c - 48) + (code d - 48), rest')
              else if fixed then None else Some (code c - 48, rest)
          | [] \<Rightarrow> if fixed then None else Some (code c - 48, rest))"

definition number :: "bool \<Rightarrow> int \<Rightarrow> int \<Rightarrow> string \<Rightarrow> (int \<times> string) option" where
  "number fixed lo hi s =
     Option.bind (getnum fixed s) (\<lambda>(n, rest). if lo \<le> n \<and> n \<le> hi then Some (n, rest) else None)"

definition literal :: "char \<Rightarrow> string \<Rightarrow> string option" where
  "literal c s = (case s of d # rest \<Rightarrow> if d = c then Some rest else None | [] \<Rightarrow> None)"

definition parseYear :: "string \<Rightarrow> (int \<times> string) option" where
  "parseYear s = (if length s < 4 \<or> \<not> list_all isDigit (take 4 s) then None else Some (decimalValue (take 4 s), drop 4 s))"

text \<open>A fraction of a second, which the layout does not have but a value may: its first nine digits.\<close>

definition parseFraction :: "string \<Rightarrow> int \<times> string" where
  "parseFraction s =
     (case s of
        p # d # rest \<Rightarrow>
          if (p = CHR ''.'' \<or> p = CHR '','') \<and> isDigit d then
            (let digits = takeWhile isDigit (d # rest); used = take 9 digits in
             (decimalValue used * 10 ^ (9 - length used), dropWhile isDigit (d # rest)))
          else (0, s)
      | _ \<Rightarrow> (0, s))"

text \<open>\<^verbatim>\<open>Z07:00\<close>: the offset in seconds.\<close>

definition parseZone :: "string \<Rightarrow> (int \<times> string) option" where
  "parseZone s =
     (case s of
        [] \<Rightarrow> None
      | c # rest \<Rightarrow>
          if c = CHR ''Z'' then Some (0, rest)
          else if length s < 6 \<or> s ! 3 \<noteq> CHR '':'' then None
          else
            Option.bind (getnum True (take 2 rest)) (\<lambda>(hr, _).
            Option.bind (getnum True (take 2 (drop 4 s))) (\<lambda>(mm, _).
              if hr > 24 \<or> mm > 60 then None
              else if c = CHR ''+'' then Some ((hr * 60 + mm) * 60, drop 6 s)
              else if c = CHR ''-'' then Some (- ((hr * 60 + mm) * 60), drop 6 s)
              else None)))"

definition timeParse :: "string \<Rightarrow> int option" where
  "timeParse v =
     Option.bind (parseYear v) (\<lambda>(year, v).
     Option.bind (literal CHR ''-'' v) (\<lambda>v.
     Option.bind (number True 1 12 v) (\<lambda>(month, v).
     Option.bind (literal CHR ''-'' v) (\<lambda>v.
     Option.bind (getnum True v) (\<lambda>(day, v).
     Option.bind (literal CHR ''T'' v) (\<lambda>v.
     Option.bind (number False 0 23 v) (\<lambda>(hour, v).
     Option.bind (literal CHR '':'' v) (\<lambda>v.
     Option.bind (number True 0 59 v) (\<lambda>(min, v).
     Option.bind (literal CHR '':'' v) (\<lambda>v.
     Option.bind (number True 0 59 v) (\<lambda>(sec, v).
       case parseFraction v of (nsec, v) \<Rightarrow>
     Option.bind (parseZone v) (\<lambda>(offset, v).
       if v \<noteq> [] then None
       else if day < 1 \<or> day > daysIn month year then None
       else Some (((dayNumber year month day * 24 + hour) * 3600 + min * 60 + sec - offset) * 1000000000 + nsec)))))))))))))"


section \<open>Signed decimal numbers\<close>

definition parseInt :: "nat \<Rightarrow> string \<Rightarrow> int option" where
  "parseInt bits s =
     (let (neg, digits) =
        (case s of
           [] \<Rightarrow> (False, s)
         | c # cs \<Rightarrow> if c = CHR ''-'' then (True, cs) else if c = CHR ''+'' then (False, cs) else (False, s)) in
      if digits = [] \<or> \<not> list_all isDigit digits then None
      else if neg then (if decimalValue digits \<le> 2 ^ (bits - 1) then Some (- decimalValue digits) else None)
      else if decimalValue digits < 2 ^ (bits - 1) then Some (decimalValue digits) else None)"

lemma decimalValue_itoa_atoi: "decimalValue s = atoi s"
  by (simp add: decimalValue_def atoi_def mult.commute)

lemma parseInt_itoa:
  assumes "0 \<le> n" and "n < 2 ^ (bits - 1)"
  shows "parseInt bits (itoa n) = Some n"
proof -
  obtain c cs where s: "itoa n = c # cs" using itoa_digits [OF assms(1)] by (cases "itoa n") auto
  then have d: "isDigit c" "list_all isDigit (c # cs)" using itoa_digits [OF assms(1)] by auto
  then have "c \<noteq> CHR ''-''" "c \<noteq> CHR ''+''" by (auto simp: isDigit_def)
  moreover have "decimalValue (c # cs) = n"
    using atoi_itoa [OF assms(1)] by (simp add: decimalValue_itoa_atoi s)
  ultimately show ?thesis
    using assms(2) d(2) by (simp add: parseInt_def s)
qed

end
