(* ===== verification/Tea_Parse.thy ===== *)
theory Tea_Parse
  imports Gitea_Request Go_Time
begin

text \<open>
  Package \<^verbatim>\<open>internal/client/gitea\<close>, the arguments: the program that stands for \<^verbatim>\<open>tea\<close> in the sandbox turns
  a bounded list of arguments into one typed request (\<^verbatim>\<open>parse.go\<close>, \<^verbatim>\<open>pull_parse.go\<close>,
  \<^verbatim>\<open>issue_edit_parse.go\<close>), with the registries of field names (\<^verbatim>\<open>issue_fields.go\<close>, \<^verbatim>\<open>pull_fields.go\<close>).
\<close>

section \<open>Commands\<close>

datatype output_format = OutputSimple | OutputTable | OutputJSON

record tea_command =
  cmdRequest :: gitea_request
  cmdFormat :: output_format
  cmdFields :: "int list"
  cmdPullFields :: "int list"
  cmdMutation :: bool

definition maximumFilterBytes :: int where "maximumFilterBytes = 255"

definition issueFieldDescriptors :: "(int \<times> string) list" where
  "issueFieldDescriptors =
     [(1, ''index''), (2, ''state''), (3, ''author''), (4, ''author-id''), (5, ''url''), (6, ''title''), (8, ''created''),
      (9, ''updated''), (10, ''deadline''), (11, ''assignees''), (12, ''milestone''), (13, ''labels''), (14, ''comments''),
      (15, ''repo''), (16, ''owner''), (17, ''kind''), (7, ''body'')]"

definition issueFieldByName :: "int gomap" where
  "issueFieldByName = map (\<lambda>(f, n). (n, f)) issueFieldDescriptors"

definition pullFieldDescriptors :: "(int \<times> string) list" where
  "pullFieldDescriptors =
     [(1, ''index''), (2, ''state''), (3, ''author''), (4, ''author-id''), (5, ''url''), (6, ''title''), (8, ''mergeable''),
      (9, ''base''), (10, ''base-commit''), (11, ''head''), (12, ''created''), (13, ''updated''), (14, ''deadline''),
      (15, ''assignees''), (16, ''milestone''), (17, ''labels''), (18, ''comments''), (7, ''body'')]"

definition pullFieldByName :: "int gomap" where
  "pullFieldByName = map (\<lambda>(f, n). (n, f)) pullFieldDescriptors"

definition defaultIssueFields :: "int list" where "defaultIssueFields = [1, 6, 2, 3, 12, 13, 16, 15]"
definition defaultPullFields :: "int list" where "defaultPullFields = [1, 6, 2, 3, 16, 13, 17]"


section \<open>Values\<close>

definition tea_addArgument :: "int \<Rightarrow> string \<Rightarrow> int result" where
  "tea_addArgument n arg =
     (let n' = n + int (length arg) in
      if n' > 65536 \<or> \<not> validString arg \<or> NUL \<in> set arg then errorf ''invalid argument data'' else Inr n')"

definition validateArgv :: "string list \<Rightarrow> unit result" where
  "validateArgv args =
     (if args = [] \<or> length args > 64 then errorf ''invalid argument count''
      else bindE (foldE tea_addArgument 0 args) (\<lambda>_. Inr ()))"

definition validPart :: "string \<Rightarrow> bool" where
  "validPart v =
     (if v = [] \<or> length v > 100 \<or> v = ''.'' \<or> v = ''..'' \<or> \<not> isAlnum (hd v) then False
      else list_all (\<lambda>c. isAlnum c \<or> c = CHR ''.'' \<or> c = CHR ''_'' \<or> c = CHR ''-'') (tl v))"

definition parseSlug :: "string \<Rightarrow> (string \<times> string) option" where
  "parseSlug v =
     (case split CHR ''/'' v of
        [owner, name] \<Rightarrow>
          if \<not> validPart owner \<or> \<not> validPart name \<or> hasSuffix (toLower name) ''.git'' then None else Some (owner, name)
      | _ \<Rightarrow> None)"

definition parseOutput :: "string \<Rightarrow> output_format result" where
  "parseOutput v =
     (if v = ''simple'' then Inr OutputSimple else if v = ''table'' then Inr OutputTable
      else if v = ''json'' then Inr OutputJSON else errorf ''invalid output'')"

definition validateFilter :: "string \<Rightarrow> unit result" where
  "validateFilter v =
     (if v = [] \<or> int (length v) > maximumFilterBytes \<or> \<not> validString v \<or> NUL \<in> set v
      then errorf ''invalid filter'' else Inr ())"

definition parsePositive :: "string \<Rightarrow> int \<Rightarrow> int result" where
  "parsePositive v maximum =
     (case parseInt 64 v of
        None \<Rightarrow> errorf ''invalid positive integer''
      | Some n \<Rightarrow> if n \<le> 0 \<or> n > maximum then errorf ''invalid positive integer'' else Inr n)"

text \<open>A failure of \<^verbatim>\<open>parsePositive\<close> under the message of its caller.\<close>

definition parseNumber :: "string \<Rightarrow> string \<Rightarrow> int \<Rightarrow> int result" where
  "parseNumber msg v maximum = (case parsePositive v maximum of Inl _ \<Rightarrow> errorf msg | Inr n \<Rightarrow> Inr n)"

definition parseIndex :: "string \<Rightarrow> string \<Rightarrow> int result" where
  "parseIndex msg v = parseNumber msg v 9223372036854775807"

fun fieldsLoop :: "int gomap \<Rightarrow> int set \<Rightarrow> int list \<Rightarrow> string list \<Rightarrow> int list result" where
  "fieldsLoop byName seen out [] = Inr out"
| "fieldsLoop byName seen out (part # parts) =
     (case map_of byName part of
        None \<Rightarrow> errorf ''invalid fields''
      | Some field \<Rightarrow>
          if field \<in> seen then errorf ''invalid fields''
          else fieldsLoop byName (insert field seen) (out @ [field]) parts)"

definition parseIssueFields :: "string \<Rightarrow> int list result" where
  "parseIssueFields v =
     (let parts = split CHR '','' v in
      if parts = [] then errorf ''invalid fields'' else fieldsLoop issueFieldByName {} [] parts)"

definition parsePullFields :: "string \<Rightarrow> int list result" where
  "parsePullFields v =
     bindE (fieldsLoop pullFieldByName {} [] (split CHR '','' v)) (\<lambda>out.
       if out = [] then errorf ''invalid fields'' else Inr out)"

definition validateMutationText :: "string \<Rightarrow> bool \<Rightarrow> int \<Rightarrow> int \<Rightarrow> unit result" where
  "validateMutationText v allowEmpty maximumBytes maximumRunes =
     (if \<not> allowEmpty \<and> v = [] \<or> \<not> validString v \<or> NUL \<in> set v
         \<or> maximumBytes > 0 \<and> int (length v) > maximumBytes
         \<or> maximumRunes > 0 \<and> int (length (runes v)) > maximumRunes
      then errorf ''invalid text'' else Inr ())"

fun uniqueLoop :: "string set \<Rightarrow> string list \<Rightarrow> unit result" where
  "uniqueLoop seen [] = Inr ()"
| "uniqueLoop seen (part # parts) =
     (if \<not> isOK (validateMutationText part False 0 255) \<or> part \<in> seen then errorf ''invalid list''
      else uniqueLoop (insert part seen) parts)"

definition parseUniqueCSV :: "string \<Rightarrow> string list result" where
  "parseUniqueCSV v =
     (let parts = split CHR '','' v in
      if length parts > 25 then errorf ''too many values'' else bindE (uniqueLoop {} parts) (\<lambda>_. Inr parts))"

definition parseEditCSV :: "string \<Rightarrow> bool \<Rightarrow> string list result" where
  "parseEditCSV v allowEmpty = (if v = [] \<and> allowEmpty then Inr [] else parseUniqueCSV v)"

definition requestFor :: "string \<Rightarrow> string \<Rightarrow> gitea_operation \<Rightarrow> gitea_request" where
  "requestFor owner name oper =
     \<lparr>gtContext = Some \<lparr>ctxRepository = Some \<lparr>msgHost = [], msgOwner = owner, msgName = name, msgSshPort = 0,
        msgSshUser = []\<rparr>\<rparr>, gtOperation = oper\<rparr>"


section \<open>Flags\<close>

text \<open>What the loops over flags carry: the repository, the output format and the request under construction.\<close>

record 'r flags =
  flagRepo :: string
  flagFormat :: output_format
  flagReq :: 'r

text \<open>The loop that five of the parsers share: pairs of a flag and its value, each key once.\<close>

fun flagLoop ::
  "string gomap \<Rightarrow> (string \<Rightarrow> string \<Rightarrow> 's \<Rightarrow> 's result) \<Rightarrow> string set \<Rightarrow> 's \<Rightarrow> string list \<Rightarrow> (string set \<times> 's) result" where
  "flagLoop aliases step seen s [] = Inr (seen, s)"
| "flagLoop aliases step seen s [a] = errorf ''invalid flag''"
| "flagLoop aliases step seen s (a # v # rest) =
     (if contains a ''='' then errorf ''invalid flag''
      else case map_of aliases a of
        None \<Rightarrow> errorf ''unsupported or duplicate flag''
      | Some key \<Rightarrow>
          if key \<in> seen then errorf ''unsupported or duplicate flag''
          else bindE (step key v s) (\<lambda>s'. flagLoop aliases step (insert key seen) s' rest))"

definition repoAliases :: "string gomap" where
  "repoAliases = [(''-r'', ''repo''), (''--repo'', ''repo''), (''-o'', ''output''), (''--output'', ''output'')]"

text \<open>The repository and the output format, which every flag switch has; the other keys are \<open>other\<close>.\<close>

definition commonFlag :: "(string \<Rightarrow> string \<Rightarrow> 'r \<Rightarrow> 'r result) \<Rightarrow> string \<Rightarrow> string \<Rightarrow> 'r flags \<Rightarrow> 'r flags result" where
  "commonFlag other key v s =
     (if key = ''repo'' then Inr (s\<lparr>flagRepo := v\<rparr>)
      else if key = ''output'' then bindE (parseOutput v) (\<lambda>f. Inr (s\<lparr>flagFormat := f\<rparr>))
      else bindE (other key v (flagReq s)) (\<lambda>r. Inr (s\<lparr>flagReq := r\<rparr>)))"

text \<open>After the loop: the repository flag is required and names a repository.\<close>

definition teaSlug :: "string \<Rightarrow> (string \<times> string) result" where
  "teaSlug repo = (case parseSlug repo of None \<Rightarrow> errorf ''invalid repository'' | Some s \<Rightarrow> Inr s)"

definition requiredSlug :: "string \<Rightarrow> string set \<Rightarrow> string \<Rightarrow> (string \<times> string) result" where
  "requiredSlug key seen repo = (if key \<notin> seen then errorf ''missing repository'' else teaSlug repo)"

definition command :: "gitea_operation \<Rightarrow> output_format \<Rightarrow> bool \<Rightarrow> string \<times> string \<Rightarrow> tea_command" where
  "command oper format mutation slug =
     \<lparr>cmdRequest = requestFor (fst slug) (snd slug) oper, cmdFormat = format, cmdFields = [], cmdPullFields = [],
      cmdMutation = mutation\<rparr>"


section \<open>Repositories\<close>

fun repositoryLoop :: "string set \<Rightarrow> string \<Rightarrow> output_format \<Rightarrow> string list \<Rightarrow> (string set \<times> string \<times> output_format) result" where
  "repositoryLoop seen explicit format [] = Inr (seen, explicit, format)"
| "repositoryLoop seen explicit format [a] = errorf ''invalid flag''"
| "repositoryLoop seen explicit format (a # v # rest) =
     (if contains a ''='' then errorf ''invalid flag''
      else
        let key = (if a = ''-r'' then ''--repo'' else if a = ''-o'' then ''--output'' else a) in
        if key \<in> seen then errorf ''duplicate flag''
        else if key = ''--repo'' then repositoryLoop (insert key seen) v format rest
        else if key = ''--output''
        then bindE (parseOutput v) (\<lambda>f. repositoryLoop (insert key seen) explicit f rest)
        else errorf ''unsupported flag'')"

definition parseRepository :: "string list \<Rightarrow> tea_command result" where
  "parseRepository args =
     (if length args < 4 then errorf ''invalid argument count''
      else
        let positional = args ! 1 in
        if hasPrefix positional ''-'' then errorf ''missing repository''
        else case parseSlug positional of
          None \<Rightarrow> errorf ''invalid repository''
        | Some slug \<Rightarrow>
            bindE (repositoryLoop {} [] OutputSimple (drop 2 args)) (\<lambda>(seen, explicit, format).
              if ''--repo'' \<notin> seen then errorf ''missing repository flag''
              else if parseSlug explicit = None \<or> toLower positional \<noteq> toLower explicit
              then errorf ''repository selectors disagree''
              else Inr (command (GtRepositoryView (Some ())) format False slug)))"


section \<open>Issues\<close>

definition issueListAliases :: "string gomap" where
  "issueListAliases =
     repoAliases @
     [(''-k'', ''keyword''), (''--keyword'', ''keyword''), (''-A'', ''author''), (''--author'', ''author''),
      (''-a'', ''assignee''), (''--assignee'', ''assignee''), (''-M'', ''mentions''), (''--mentions'', ''mentions''),
      (''-F'', ''from''), (''--from'', ''from''), (''-u'', ''until''), (''--until'', ''until''), (''--owner'', ''owner''),
      (''--org'', ''owner''), (''-p'', ''page''), (''--page'', ''page''), (''--lm'', ''limit''), (''--limit'', ''limit''),
      (''--state'', ''state''), (''--fields'', ''fields'')]"

definition parseState :: "string \<Rightarrow> int result" where
  "parseState v =
     (if v = ''open'' then Inr 1 else if v = ''closed'' then Inr 2 else if v = ''all'' then Inr 3 else errorf ''invalid state'')"

definition issueListFlag :: "timestamp_lib \<Rightarrow> string \<Rightarrow> string \<Rightarrow> gt_issue_list \<Rightarrow> gt_issue_list result" where
  "issueListFlag lib key v req =
     (if key = ''state'' then bindE (parseState v) (\<lambda>n. Inr (req\<lparr>gilState := n\<rparr>))
      else if key \<in> {''keyword'', ''author'', ''assignee'', ''mentions'', ''owner''} then
        bindE (validateFilter v) (\<lambda>_. Inr
          (if key = ''keyword'' then req\<lparr>gilKeyword := Some v\<rparr>
           else if key = ''author'' then req\<lparr>gilAuthor := Some v\<rparr>
           else if key = ''assignee'' then req\<lparr>gilAssignee := Some v\<rparr>
           else if key = ''mentions'' then req\<lparr>gilMentions := Some v\<rparr>
           else req\<lparr>gilOwner := Some v\<rparr>))
      else if key \<in> {''from'', ''until''} then
        (case timeParse v of
           None \<Rightarrow> errorf ''invalid time''
         | Some t \<Rightarrow> Inr (if key = ''from'' then req\<lparr>gilFrom := Some (tsNew lib t)\<rparr> else req\<lparr>gilUntil := Some (tsNew lib t)\<rparr>))
      else if key = ''page'' then bindE (parseNumber ''invalid page'' v 2147483647) (\<lambda>n. Inr (req\<lparr>gilPage := n\<rparr>))
      else if key = ''limit'' then bindE (parseNumber ''invalid limit'' v 50) (\<lambda>n. Inr (req\<lparr>gilLimit := n\<rparr>))
      else if key = ''fields'' then bindE (parseIssueFields v) (\<lambda>fs. Inr (req\<lparr>gilFields := fs\<rparr>))
      else Inr req)"

definition defaultIssueList :: gt_issue_list where
  "defaultIssueList =
     \<lparr>gilState = 1, gilKeyword = None, gilAuthor = None, gilAssignee = None, gilMentions = None, gilFrom = None,
      gilUntil = None, gilOwner = None, gilPage = 1, gilLimit = 30, gilFields = defaultIssueFields\<rparr>"

text \<open>\<open>args\<close> are the arguments from \<^verbatim>\<open>start\<close> on.\<close>

definition parseIssueList :: "timestamp_lib \<Rightarrow> string list \<Rightarrow> tea_command result" where
  "parseIssueList lib args =
     bindE (flagLoop issueListAliases (commonFlag (issueListFlag lib)) {}
         \<lparr>flagRepo = [], flagFormat = OutputTable, flagReq = defaultIssueList\<rparr> args) (\<lambda>(seen, s).
     bindE (requiredSlug ''repo'' seen (flagRepo s)) (\<lambda>slug.
       let req = flagReq s in
       if (case (gilFrom req, gilUntil req) of (Some f, Some u) \<Rightarrow> tsAsTime lib f > tsAsTime lib u | _ \<Rightarrow> False)
       then errorf ''invalid time range''
       else Inr ((command (GtIssueList (Some req)) (flagFormat s) False slug)\<lparr>cmdFields := gilFields req\<rparr>)))"

text \<open>The keys of \<^verbatim>\<open>parseIssueView\<close> are the long flags.\<close>

fun issueViewLoop ::
  "string set \<Rightarrow> gt_view flags \<Rightarrow> string list \<Rightarrow> (string set \<times> gt_view flags) result" where
  "issueViewLoop seen s [] = Inr (seen, s)"
| "issueViewLoop seen s (flag # rest) =
     (let key = (if flag = ''-r'' then ''--repo'' else if flag = ''-o'' then ''--output'' else flag) in
      if key \<in> seen \<or> contains flag ''='' then errorf ''duplicate or invalid flag''
      else if key = ''--comments''
      then issueViewLoop (insert key seen) (s\<lparr>flagReq := (flagReq s)\<lparr>gvIncludeComments := True\<rparr>\<rparr>) rest
      else case rest of
        [] \<Rightarrow> errorf ''missing flag value''
      | v # rest' \<Rightarrow>
          if key = ''--repo'' then issueViewLoop (insert key seen) (s\<lparr>flagRepo := v\<rparr>) rest'
          else if key = ''--output''
          then bindE (parseOutput v) (\<lambda>f. issueViewLoop (insert key seen) (s\<lparr>flagFormat := f\<rparr>) rest')
          else errorf ''unsupported flag'')"

definition viewFlags :: "int \<Rightarrow> gt_view flags" where
  "viewFlags index = \<lparr>flagRepo = [], flagFormat = OutputSimple, flagReq = \<lparr>gvIndex = index, gvIncludeComments = False\<rparr>\<rparr>"

definition parseIssueView :: "string list \<Rightarrow> int \<Rightarrow> tea_command result" where
  "parseIssueView args index =
     bindE (issueViewLoop {} (viewFlags index) (drop 2 args)) (\<lambda>(seen, s).
     bindE (requiredSlug ''--repo'' seen (flagRepo s)) (\<lambda>slug.
       Inr (command (GtIssueView (Some (flagReq s))) (flagFormat s) False slug)))"

definition issueCreateAliases :: "string gomap" where
  "issueCreateAliases =
     repoAliases @
     [(''-t'', ''title''), (''--title'', ''title''), (''-d'', ''description''), (''--description'', ''description''),
      (''-a'', ''assignees''), (''--assignees'', ''assignees''), (''-L'', ''labels''), (''--labels'', ''labels'')]"

definition issueCreateFlag :: "string \<Rightarrow> string \<Rightarrow> gt_issue_create \<Rightarrow> gt_issue_create result" where
  "issueCreateFlag key v req =
     (if key = ''title'' then
        (if \<not> isOK (validateMutationText v False 0 255) then errorf ''invalid title'' else Inr (req\<lparr>gicTitle := v\<rparr>))
      else if key = ''description'' then
        (if \<not> isOK (validateMutationText v True 65536 0) then errorf ''invalid description''
         else Inr (req\<lparr>gicDescription := Some v\<rparr>))
      else if key = ''assignees'' then bindE (parseUniqueCSV v) (\<lambda>vs. Inr (req\<lparr>gicAssignees := vs\<rparr>))
      else if key = ''labels'' then bindE (parseUniqueCSV v) (\<lambda>vs. Inr (req\<lparr>gicLabels := vs\<rparr>))
      else Inr req)"

definition parseIssueCreate :: "string list \<Rightarrow> tea_command result" where
  "parseIssueCreate args =
     bindE (flagLoop issueCreateAliases (commonFlag issueCreateFlag) {}
         \<lparr>flagRepo = [], flagFormat = OutputSimple,
          flagReq = \<lparr>gicTitle = [], gicDescription = None, gicAssignees = [], gicLabels = []\<rparr>\<rparr> args) (\<lambda>(seen, s).
       if ''repo'' \<notin> seen \<or> ''title'' \<notin> seen then errorf ''missing required flag''
       else bindE (teaSlug (flagRepo s)) (\<lambda>slug.
         Inr (command (GtIssueCreate (Some (flagReq s))) (flagFormat s) True slug)))"

text \<open>The body of a comment is a positional argument or a flag, in any position but once.\<close>

definition commentAliases :: "string gomap" where
  "commentAliases = repoAliases @ [(''-d'', ''description''), (''--description'', ''description'')]"

fun commentLoop ::
  "string set \<Rightarrow> string option flags \<Rightarrow> string list \<Rightarrow> (string set \<times> string option flags) result" where
  "commentLoop seen s [] = Inr (seen, s)"
| "commentLoop seen s (a # rest) =
     (if \<not> hasPrefix a ''-'' then
        (if flagReq s \<noteq> None then errorf ''extra positional'' else commentLoop seen (s\<lparr>flagReq := Some a\<rparr>) rest)
      else if contains a ''='' then errorf ''invalid flag''
      else case rest of
        [] \<Rightarrow> errorf ''invalid flag''
      | v # rest' \<Rightarrow>
          (case map_of commentAliases a of
             None \<Rightarrow> errorf ''unsupported or duplicate flag''
           | Some key \<Rightarrow>
               if key \<in> seen then errorf ''unsupported or duplicate flag''
               else if key = ''repo'' then commentLoop (insert key seen) (s\<lparr>flagRepo := v\<rparr>) rest'
               else if key = ''output''
               then bindE (parseOutput v) (\<lambda>f. commentLoop (insert key seen) (s\<lparr>flagFormat := f\<rparr>) rest')
               else if flagReq s \<noteq> None then errorf ''duplicate body''
               else commentLoop (insert key seen) (s\<lparr>flagReq := Some v\<rparr>) rest'))"

definition parseIssueComment :: "string list \<Rightarrow> tea_command result" where
  "parseIssueComment args =
     (if args = [] then errorf ''missing issue index''
      else
        let start = (if args ! 0 = ''comments'' \<and> length args > 1 \<and> (args ! 1 = ''add'' \<or> args ! 1 = ''a'') then 2 else 1) in
        if length args \<le> start then errorf ''missing issue index''
        else
          bindE (parseIndex ''invalid issue index'' (args ! start)) (\<lambda>index.
          bindE (commentLoop {} \<lparr>flagRepo = [], flagFormat = OutputSimple, flagReq = None\<rparr> (drop (start + 1) args)) (\<lambda>(seen, s).
            if ''repo'' \<notin> seen then errorf ''missing or invalid comment body''
            else case flagReq s of
              None \<Rightarrow> errorf ''missing or invalid comment body''
            | Some body \<Rightarrow>
                if \<not> isOK (validateMutationText body False 65536 0) then errorf ''missing or invalid comment body''
                else bindE (teaSlug (flagRepo s)) (\<lambda>slug.
                  Inr (command (GtIssueComment (Some \<lparr>gcmIndex = index, gcmBody = body\<rparr>)) (flagFormat s) True slug)))))"

definition parseIssueState :: "string list \<Rightarrow> bool \<Rightarrow> tea_command result" where
  "parseIssueState args reopen =
     (case args of
        [] \<Rightarrow> errorf ''missing issue index''
      | a # rest \<Rightarrow>
          bindE (parseIndex ''invalid issue index'' a) (\<lambda>index.
          bindE (flagLoop repoAliases (commonFlag (\<lambda>_ _ r. Inr r)) {}
              \<lparr>flagRepo = [], flagFormat = OutputSimple, flagReq = ()\<rparr> rest) (\<lambda>(seen, s).
          bindE (requiredSlug ''repo'' seen (flagRepo s)) (\<lambda>slug.
            Inr (command (if reopen then GtIssueReopen (Some index) else GtIssueClose (Some index)) (flagFormat s) True slug)))))"


section \<open>Editing\<close>

definition issueEditAliases :: "string gomap" where
  "issueEditAliases =
     repoAliases @
     [(''--title'', ''title''), (''--description'', ''description''), (''--set-assignees'', ''set-assignees''),
      (''-a'', ''add-assignees''), (''--add-assignees'', ''add-assignees''), (''--remove-assignees'', ''remove-assignees''),
      (''-L'', ''add-labels''), (''--add-labels'', ''add-labels''), (''--remove-labels'', ''remove-labels'')]"

text \<open>The request under construction, with the lists by their keys.\<close>

definition issueEditFlag ::
  "string \<Rightarrow> string \<Rightarrow> gt_issue_edit \<times> string list gomap \<Rightarrow> (gt_issue_edit \<times> string list gomap) result" where
  "issueEditFlag key v rl =
     (case rl of (req, byKey) \<Rightarrow>
        if key = ''title'' then
          (if \<not> isOK (validateMutationText v False 0 255) then errorf ''invalid title''
           else Inr (req\<lparr>gieTitle := Some v\<rparr>, byKey))
        else if key = ''description'' then
          (if \<not> isOK (validateMutationText v True 65536 0) then errorf ''invalid description''
           else Inr (req\<lparr>gieDescription := Some v\<rparr>, byKey))
        else bindE (parseEditCSV v (key = ''set-assignees'')) (\<lambda>vs. Inr (req, mapSet key vs byKey)))"

definition chooseActions :: "gt_issue_edit \<Rightarrow> string list gomap \<Rightarrow> gt_issue_edit" where
  "chooseActions req byKey =
     req\<lparr>gieAssigneeAction :=
           (case map_of byKey ''set-assignees'' of
              Some vs \<Rightarrow> Some (SetAssignees (Some vs))
            | None \<Rightarrow> (case map_of byKey ''add-assignees'' of
                Some vs \<Rightarrow> Some (AddAssignees (Some vs))
              | None \<Rightarrow> (case map_of byKey ''remove-assignees'' of
                  Some vs \<Rightarrow> Some (RemoveAssignees (Some vs))
                | None \<Rightarrow> gieAssigneeAction req))),
         gieLabelAction :=
           (case map_of byKey ''add-labels'' of
              Some vs \<Rightarrow> Some (GtAddLabels (Some vs))
            | None \<Rightarrow> (case map_of byKey ''remove-labels'' of
                Some vs \<Rightarrow> Some (GtRemoveLabels (Some vs))
              | None \<Rightarrow> gieLabelAction req))\<rparr>"

definition parseIssueEdit :: "string list \<Rightarrow> tea_command result" where
  "parseIssueEdit args =
     (case args of
        [] \<Rightarrow> errorf ''missing issue index''
      | a # rest \<Rightarrow>
          bindE (parseIndex ''invalid issue index'' a) (\<lambda>index.
          bindE (flagLoop issueEditAliases (commonFlag issueEditFlag) {}
              \<lparr>flagRepo = [], flagFormat = OutputSimple,
               flagReq = (\<lparr>gieIndex = index, gieTitle = None, gieDescription = None, gieAssigneeAction = None,
                 gieLabelAction = None\<rparr>, [])\<rparr> rest) (\<lambda>(seen, s).
          bindE (requiredSlug ''repo'' seen (flagRepo s)) (\<lambda>slug.
            let req = chooseActions (fst (flagReq s)) (snd (flagReq s)) in
            if gieTitle req = None \<and> gieDescription req = None \<and> gieAssigneeAction req = None \<and> gieLabelAction req = None
            then errorf ''missing mutation''
            else Inr (command (GtIssueEdit (Some req)) (flagFormat s) True slug)))))"


section \<open>Pull requests\<close>

definition pullListAliases :: "string gomap" where
  "pullListAliases =
     repoAliases @
     [(''-p'', ''page''), (''--page'', ''page''), (''--lm'', ''limit''), (''--limit'', ''limit''), (''--state'', ''state''),
      (''--fields'', ''fields'')]"

definition pullListFlag :: "string \<Rightarrow> string \<Rightarrow> gt_pull_list \<Rightarrow> gt_pull_list result" where
  "pullListFlag key v req =
     (if key = ''state'' then bindE (parseState v) (\<lambda>n. Inr (req\<lparr>gplState := n\<rparr>))
      else if key = ''page'' then bindE (parseNumber ''invalid page'' v 2147483647) (\<lambda>n. Inr (req\<lparr>gplPage := n\<rparr>))
      else if key = ''limit'' then bindE (parseNumber ''invalid limit'' v 50) (\<lambda>n. Inr (req\<lparr>gplLimit := n\<rparr>))
      else if key = ''fields'' then bindE (parsePullFields v) (\<lambda>fs. Inr (req\<lparr>gplFields := fs\<rparr>))
      else Inr req)"

definition defaultPullList :: gt_pull_list where
  "defaultPullList = \<lparr>gplState = 1, gplPage = 1, gplLimit = 30, gplFields = defaultPullFields\<rparr>"

definition parsePullList :: "string list \<Rightarrow> tea_command result" where
  "parsePullList args =
     bindE (flagLoop pullListAliases (commonFlag pullListFlag) {}
         \<lparr>flagRepo = [], flagFormat = OutputTable, flagReq = defaultPullList\<rparr> args) (\<lambda>(seen, s).
     bindE (requiredSlug ''repo'' seen (flagRepo s)) (\<lambda>slug.
       Inr ((command (GtPullList (Some (flagReq s))) (flagFormat s) False slug)\<lparr>cmdPullFields := gplFields (flagReq s)\<rparr>)))"

definition pullViewAliases :: "string gomap" where
  "pullViewAliases = repoAliases @ [(''--comments'', ''comments'')]"

fun pullViewLoop ::
  "string set \<Rightarrow> gt_view flags \<Rightarrow> string list \<Rightarrow> (string set \<times> gt_view flags) result" where
  "pullViewLoop seen s [] = Inr (seen, s)"
| "pullViewLoop seen s (flag # rest) =
     (case map_of pullViewAliases flag of
        None \<Rightarrow> errorf ''unsupported or duplicate flag''
      | Some key \<Rightarrow>
          if key \<in> seen \<or> contains flag ''='' then errorf ''unsupported or duplicate flag''
          else if key = ''comments''
          then pullViewLoop (insert key seen) (s\<lparr>flagReq := (flagReq s)\<lparr>gvIncludeComments := True\<rparr>\<rparr>) rest
          else case rest of
            [] \<Rightarrow> errorf ''missing flag value''
          | v # rest' \<Rightarrow>
              if key = ''repo'' then pullViewLoop (insert key seen) (s\<lparr>flagRepo := v\<rparr>) rest'
              else bindE (parseOutput v) (\<lambda>f. pullViewLoop (insert key seen) (s\<lparr>flagFormat := f\<rparr>) rest'))"

definition parsePullView :: "string list \<Rightarrow> int \<Rightarrow> tea_command result" where
  "parsePullView args index =
     bindE (pullViewLoop {} (viewFlags index) (drop 2 args)) (\<lambda>(seen, s).
     bindE (requiredSlug ''repo'' seen (flagRepo s)) (\<lambda>slug.
       Inr (command (GtPullView (Some (flagReq s))) (flagFormat s) False slug)))"


section \<open>The command\<close>

definition parseIssues :: "timestamp_lib \<Rightarrow> string list \<Rightarrow> bool \<Rightarrow> tea_command result" where
  "parseIssues lib args allowMutations =
     (let listed = length args > 1 \<and> (args ! 1 = ''list'' \<or> args ! 1 = ''ls'') in
      if length args > 1 \<and> args ! 1 \<in> {''create'', ''c'', ''edit'', ''e'', ''close'', ''reopen'', ''open''} then
        (if \<not> allowMutations then errorf ''unsupported issue command''
         else if args ! 1 \<in> {''create'', ''c''} then parseIssueCreate (drop 2 args)
         else if args ! 1 \<in> {''edit'', ''e''} then parseIssueEdit (drop 2 args)
         else if args ! 1 = ''close'' then parseIssueState (drop 2 args) False
         else parseIssueState (drop 2 args) True)
      else if length args > 1 \<and> \<not> listed \<and> \<not> hasPrefix (args ! 1) ''-'' then
        bindE (parseIndex ''invalid issue index'' (args ! 1)) (parseIssueView args)
      else parseIssueList lib (drop (if listed then 2 else 1) args))"

definition parsePulls :: "string list \<Rightarrow> tea_command result" where
  "parsePulls args =
     (let listed = length args > 1 \<and> (args ! 1 = ''list'' \<or> args ! 1 = ''ls'') in
      if \<not> listed \<and> length args > 1 \<and> \<not> hasPrefix (args ! 1) ''-'' then
        bindE (parseIndex ''invalid pull index'' (args ! 1)) (parsePullView args)
      else parsePullList (drop (if listed then 2 else 1) args))"

definition tea_Parse :: "timestamp_lib \<Rightarrow> string list \<Rightarrow> tea_command result" where
  "tea_Parse lib args =
     bindE (validateArgv args) (\<lambda>_.
       let c = args ! 0 in
       if c \<in> {''repos'', ''repo''} then parseRepository args
       else if c = ''issues'' then parseIssues lib args True
       else if c \<in> {''issue'', ''i''} then parseIssues lib args False
       else if c \<in> {''comments'', ''comment'', ''c''} then parseIssueComment args
       else if c \<in> {''pulls'', ''pull'', ''pr''} then parsePulls args
       else errorf ''unsupported command'')"

end
