(* ===== verification/Server_Limits.thy ===== *)
theory Server_Limits
  imports Audit_Log
begin

text \<open>
  Package \<^verbatim>\<open>internal/server\<close>, the capacity and the lifecycle of the service: \<^verbatim>\<open>concurrency.go\<close>, \<^verbatim>\<open>admit\<close> of
  \<^verbatim>\<open>interceptor.go\<close>, \<^verbatim>\<open>lifecycle.go\<close> and the parts of \<^verbatim>\<open>server.go\<close> they use.

  Requests run concurrently: each is a number and has a stage, and a step of one request is one
  synchronised action of the code (an operation on the channel, an atomic load, a critical section).
  The cancel function that \<^verbatim>\<open>active\<close> holds for an identifier is the request it cancels. Identifiers
  are unbounded numbers: the counter would wrap around only after \<open>2\<^sup>6\<^sup>4\<close> requests.
\<close>

section \<open>Operations\<close>

record concurrency_limits =
  perMax :: int
  per :: "string \<rightharpoonup> int"

definition newConcurrencyLimits :: "int \<Rightarrow> int \<Rightarrow> concurrency_limits" where
  "newConcurrencyLimits _ perPrincipal = \<lparr>perMax = perPrincipal, per = Map.empty\<rparr>"

definition perCount :: "concurrency_limits \<Rightarrow> string \<Rightarrow> int" where
  "perCount l p = (case per l p of None \<Rightarrow> 0 | Some n \<Rightarrow> n)"

definition acquire :: "concurrency_limits \<Rightarrow> string \<Rightarrow> bool \<times> concurrency_limits" where
  "acquire l p =
     (if perCount l p \<ge> perMax l then (False, l) else (True, l\<lparr>per := (per l)(p \<mapsto> perCount l p + 1)\<rparr>))"

definition release :: "concurrency_limits \<Rightarrow> string \<Rightarrow> concurrency_limits" where
  "release l p =
     (if perCount l p - 1 = 0 then l\<lparr>per := (per l)(p := None)\<rparr> else l\<lparr>per := (per l)(p \<mapsto> perCount l p - 1)\<rparr>)"

record server =
  globalCap :: int
  globalLen :: int
  srvLimits :: concurrency_limits
  stopping :: bool
  ready :: bool
  serving :: bool
  active :: "nat \<rightharpoonup> nat"
  nextID :: nat
  activeMu :: "nat option"

definition newServer :: "int \<Rightarrow> int \<Rightarrow> server" where
  "newServer maxRequests maxPerPrincipal =
     \<lparr>globalCap = maxRequests, globalLen = 0, srvLimits = newConcurrencyLimits maxRequests maxPerPrincipal,
      stopping = False, ready = False, serving = False, active = Map.empty, nextID = 0, activeMu = None\<rparr>"

definition acquireGlobal :: "server \<Rightarrow> server option" where
  "acquireGlobal s = (if globalLen s < globalCap s then Some (s\<lparr>globalLen := globalLen s + 1\<rparr>) else None)"

definition releaseGlobal :: "server \<Rightarrow> server" where
  "releaseGlobal s = s\<lparr>globalLen := globalLen s - 1\<rparr>"

definition MarkReady :: "server option \<Rightarrow> server option" where
  "MarkReady s =
     (case s of None \<Rightarrow> None | Some v \<Rightarrow> if stopping v then Some v else Some (v\<lparr>ready := True, serving := True\<rparr>))"

definition markStopping :: "server option \<Rightarrow> server option" where
  "markStopping s =
     (case s of None \<Rightarrow> None | Some v \<Rightarrow> if stopping v then Some v else Some (v\<lparr>stopping := True, serving := False\<rparr>))"

text \<open>The critical section of \<^verbatim>\<open>admit\<close> and of the function that it returns.\<close>

definition registerActive :: "server \<Rightarrow> nat \<Rightarrow> nat \<times> server" where
  "registerActive s r =
     (let i = nextID s + 1 in (i, s\<lparr>nextID := i, active := (active s)(i \<mapsto> r)\<rparr>))"

definition doneActive :: "server \<Rightarrow> nat \<Rightarrow> server" where
  "doneActive s i = s\<lparr>active := (active s)(i := None)\<rparr>"

text \<open>\<^verbatim>\<open>admit\<close> of one request alone.\<close>

definition admit :: "server \<Rightarrow> nat \<Rightarrow> (nat \<times> server) result" where
  "admit s r =
     (if stopping s then fail ErrServiceUnavailable
      else if stopping s then fail ErrServiceUnavailable
      else Inr (registerActive s r))"

text \<open>\<^verbatim>\<open>cancelActive\<close>: the requests it cancels, and whether there were any.\<close>

definition cancelActive :: "server \<Rightarrow> nat set \<times> bool" where
  "cancelActive s = (ran (active s), active s \<noteq> Map.empty)"

text \<open>\<^verbatim>\<open>errors.Join\<close>: the errors that are not nil, and nil if there are none.\<close>

definition joinErrors :: "go_error option list \<Rightarrow> go_error option" where
  "joinErrors es = (let es' = List.map_filter id es in if es' = [] then None else Some (Join es'))"

definition server_finish ::
  "(unit \<Rightarrow> go_error option) option \<Rightarrow> (unit \<Rightarrow> go_error option) option \<Rightarrow> go_error option" where
  "server_finish cleanup flush =
     joinErrors [case cleanup of None \<Rightarrow> None | Some f \<Rightarrow> f (), case flush of None \<Rightarrow> None | Some f \<Rightarrow> f ()]"

definition finishForced ::
  "(unit \<Rightarrow> go_error option) option \<Rightarrow> (unit \<Rightarrow> go_error option) option \<Rightarrow> bool \<Rightarrow> go_error option" where
  "finishForced cleanup flushIfIdle incompleteAudit =
     (let c = (case cleanup of None \<Rightarrow> None | Some f \<Rightarrow> f ());
          e = (case flushIfIdle of None \<Rightarrow> None | Some f \<Rightarrow> f ()) in
      if incompleteAudit then joinErrors [c, e, Some (Sentinel ErrIncomplete)] else joinErrors [c, e])"


section \<open>Requests\<close>

datatype stage =
    Idle
  | Leased            \<comment> \<open>holds a slot of the global channel\<close>
  | Checked           \<comment> \<open>\<^verbatim>\<open>admit\<close> has seen that the server is not stopping\<close>
  | Locked            \<comment> \<open>and holds \<^verbatim>\<open>activeMu\<close>\<close>
  | Cleared           \<comment> \<open>and has seen it again\<close>
  | Admitted nat
  | Running nat       \<comment> \<open>in its handler, with the capacity of its principal\<close>
  | Leaving nat
  | Exiting
  | Finished

record run =
  srv :: server
  stageOf :: "nat \<Rightarrow> stage"
  cancelled :: "nat set option"

definition withPrincipal :: "string option \<Rightarrow> (string \<Rightarrow> server \<Rightarrow> server) \<Rightarrow> server \<Rightarrow> server" where
  "withPrincipal who f s = (case who of None \<Rightarrow> s | Some p \<Rightarrow> f p s)"

text \<open>
  The steps of request \<open>r\<close>, in the order of the interceptors: the global slot, authentication, \<^verbatim>\<open>admit\<close>,
  the capacity of the principal \<open>who r\<close> (\<^term>\<open>None\<close> for a health method, which takes none), the
  handler, and back; and the steps of \<^verbatim>\<open>shutdown\<close>.
\<close>

inductive srv_step :: "(nat \<Rightarrow> string option) \<Rightarrow> run \<Rightarrow> run \<Rightarrow> bool" for who where
  enter: "stageOf s r = Idle \<Longrightarrow> acquireGlobal (srv s) = Some v \<Longrightarrow>
    srv_step who s (s\<lparr>srv := v, stageOf := (stageOf s)(r := Leased)\<rparr>)"
| refused: "stageOf s r = Idle \<Longrightarrow> acquireGlobal (srv s) = None \<Longrightarrow>
    srv_step who s (s\<lparr>stageOf := (stageOf s)(r := Finished)\<rparr>)"
| unauthenticated: "stageOf s r = Leased \<Longrightarrow> srv_step who s (s\<lparr>stageOf := (stageOf s)(r := Exiting)\<rparr>)"
| check: "stageOf s r = Leased \<Longrightarrow> \<not> stopping (srv s) \<Longrightarrow> srv_step who s (s\<lparr>stageOf := (stageOf s)(r := Checked)\<rparr>)"
| stop_check: "stageOf s r = Leased \<Longrightarrow> stopping (srv s) \<Longrightarrow> srv_step who s (s\<lparr>stageOf := (stageOf s)(r := Exiting)\<rparr>)"
| lock: "stageOf s r = Checked \<Longrightarrow> activeMu (srv s) = None \<Longrightarrow>
    srv_step who s (s\<lparr>srv := (srv s)\<lparr>activeMu := Some r\<rparr>, stageOf := (stageOf s)(r := Locked)\<rparr>)"
| stop_locked: "stageOf s r = Locked \<Longrightarrow> stopping (srv s) \<Longrightarrow>
    srv_step who s (s\<lparr>srv := (srv s)\<lparr>activeMu := None\<rparr>, stageOf := (stageOf s)(r := Exiting)\<rparr>)"
| clear: "stageOf s r = Locked \<Longrightarrow> \<not> stopping (srv s) \<Longrightarrow> srv_step who s (s\<lparr>stageOf := (stageOf s)(r := Cleared)\<rparr>)"
| register: "stageOf s r = Cleared \<Longrightarrow> registerActive (srv s) r = (i, v) \<Longrightarrow>
    srv_step who s (s\<lparr>srv := v\<lparr>activeMu := None\<rparr>, stageOf := (stageOf s)(r := Admitted i)\<rparr>)"
| acquired: "stageOf s r = Admitted i \<Longrightarrow> who r = Some p \<Longrightarrow> acquire (srvLimits (srv s)) p = (True, l) \<Longrightarrow>
    srv_step who s (s\<lparr>srv := (srv s)\<lparr>srvLimits := l\<rparr>, stageOf := (stageOf s)(r := Running i)\<rparr>)"
| health: "stageOf s r = Admitted i \<Longrightarrow> who r = None \<Longrightarrow> srv_step who s (s\<lparr>stageOf := (stageOf s)(r := Running i)\<rparr>)"
| exhausted: "stageOf s r = Admitted i \<Longrightarrow> who r = Some p \<Longrightarrow> acquire (srvLimits (srv s)) p = (False, l) \<Longrightarrow>
    srv_step who s (s\<lparr>stageOf := (stageOf s)(r := Leaving i)\<rparr>)"
| returned: "stageOf s r = Running i \<Longrightarrow>
    srv_step who s (s\<lparr>srv := withPrincipal (who r) (\<lambda>p v. v\<lparr>srvLimits := release (srvLimits v) p\<rparr>) (srv s),
      stageOf := (stageOf s)(r := Leaving i)\<rparr>)"
| unregister: "stageOf s r = Leaving i \<Longrightarrow> activeMu (srv s) = None \<Longrightarrow>
    srv_step who s (s\<lparr>srv := doneActive (srv s) i, stageOf := (stageOf s)(r := Exiting)\<rparr>)"
| leave: "stageOf s r = Exiting \<Longrightarrow>
    srv_step who s (s\<lparr>srv := releaseGlobal (srv s), stageOf := (stageOf s)(r := Finished)\<rparr>)"
| mark_stopping: "markStopping (Some (srv s)) = Some v \<Longrightarrow> srv_step who s (s\<lparr>srv := v\<rparr>)"
| cancel: "stopping (srv s) \<Longrightarrow> activeMu (srv s) = None \<Longrightarrow> cancelled s = None \<Longrightarrow>
    srv_step who s (s\<lparr>cancelled := Some (fst (cancelActive (srv s)))\<rparr>)"

definition initialRun :: "int \<Rightarrow> int \<Rightarrow> run" where
  "initialRun maxRequests maxPerPrincipal =
     \<lparr>srv = newServer maxRequests maxPerPrincipal, stageOf = \<lambda>_. Idle, cancelled = None\<rparr>"

section \<open>Invariant\<close>

fun holdsGlobal :: "stage \<Rightarrow> bool" where
  "holdsGlobal Idle = False"
| "holdsGlobal Finished = False"
| "holdsGlobal _ = True"

fun holdsLock :: "stage \<Rightarrow> bool" where
  "holdsLock Locked = True"
| "holdsLock Cleared = True"
| "holdsLock _ = False"

text \<open>The identifier under which an admitted request is registered.\<close>

fun activeID :: "stage \<Rightarrow> nat option" where
  "activeID (Admitted i) = Some i"
| "activeID (Running i) = Some i"
| "activeID (Leaving i) = Some i"
| "activeID _ = None"

fun isRunning :: "stage \<Rightarrow> bool" where
  "isRunning (Running i) = True"
| "isRunning _ = False"

definition globalHolders :: "run \<Rightarrow> nat set" where
  "globalHolders s = {r. holdsGlobal (stageOf s r)}"

definition principalHolders :: "(nat \<Rightarrow> string option) \<Rightarrow> string \<Rightarrow> run \<Rightarrow> nat set" where
  "principalHolders who p s = {r. who r = Some p \<and> isRunning (stageOf s r)}"

text \<open>Slots are counted exactly and within the limits.\<close>

definition slotInv :: "(nat \<Rightarrow> string option) \<Rightarrow> run \<Rightarrow> bool" where
  "slotInv who s \<longleftrightarrow>
     finite {r. stageOf s r \<noteq> Idle}
     \<and> globalLen (srv s) = int (card (globalHolders s)) \<and> int (card (globalHolders s)) \<le> globalCap (srv s)
     \<and> (\<forall>p. perCount (srvLimits (srv s)) p = int (card (principalHolders who p s)))
     \<and> (\<forall>p. int (card (principalHolders who p s)) \<le> perMax (srvLimits (srv s)))"

text \<open>The mutex has the holder that believes so, and \<^verbatim>\<open>active\<close> exactly the admitted requests.\<close>

definition activeInv :: "run \<Rightarrow> bool" where
  "activeInv s \<longleftrightarrow>
     (\<forall>r. activeMu (srv s) = Some r \<longleftrightarrow> holdsLock (stageOf s r))
     \<and> (\<forall>i r. active (srv s) i = Some r \<longleftrightarrow> activeID (stageOf s r) = Some i)
     \<and> (\<forall>i r. active (srv s) i = Some r \<longrightarrow> i \<le> nextID (srv s))"

text \<open>Once \<^verbatim>\<open>cancelActive\<close> has collected the requests, no other one is admitted.\<close>

definition cancelInv :: "run \<Rightarrow> bool" where
  "cancelInv s \<longleftrightarrow>
     (\<forall>c. cancelled s = Some c \<longrightarrow> stopping (srv s) \<and> (\<forall>r. stageOf s r \<noteq> Cleared)
        \<and> (\<forall>r. activeID (stageOf s r) \<noteq> None \<longrightarrow> r \<in> c))"

text \<open>How the number of requests in a class of stages changes with one request.\<close>

lemma card_stage_update:
  assumes "finite {q. f q \<noteq> Idle}" and "\<And>q. \<not> P q Idle"
  shows "int (card {q. P q ((f(r := x)) q)}) =
    int (card {q. P q (f q)}) + (if P r x then 1 else 0) - (if P r (f r) then 1 else 0)"
proof -
  let ?A = "{q. P q (f q)}" and ?rest = "{q. q \<noteq> r \<and> P q (f q)}"
  have fin: "finite ?rest"
    by (rule finite_subset [OF _ assms(1)]) (use assms(2) in \<open>metis (mono_tags, lifting) mem_Collect_eq subsetI\<close>)
  have "?A = (if P r (f r) then insert r ?rest else ?rest)"
    "{q. P q ((f(r := x)) q)} = (if P r x then insert r ?rest else ?rest)"
    by auto
  then show ?thesis
    using fin by simp
qed

lemma finite_stage_update: "finite {q. f q \<noteq> Idle} \<Longrightarrow> finite {q. (f(r := x)) q \<noteq> Idle}"
  by (rule finite_subset [of _ "insert r {q. f q \<noteq> Idle}"]) auto

lemma globalHolders_update:
  assumes "finite {q. stageOf s q \<noteq> Idle}" and "stageOf s' = (stageOf s)(r := x)"
  shows "int (card (globalHolders s')) =
    int (card (globalHolders s)) + (if holdsGlobal x then 1 else 0) - (if holdsGlobal (stageOf s r) then 1 else 0)"
  using card_stage_update [OF assms(1), of "\<lambda>_. holdsGlobal" r x] assms(2) by (simp add: globalHolders_def)

lemma principalHolders_update:
  assumes "finite {q. stageOf s q \<noteq> Idle}" and "stageOf s' = (stageOf s)(r := x)"
  shows "int (card (principalHolders who p s')) =
    int (card (principalHolders who p s)) + (if who r = Some p \<and> isRunning x then 1 else 0)
      - (if who r = Some p \<and> isRunning (stageOf s r) then 1 else 0)"
  using card_stage_update [OF assms(1), of "\<lambda>q y. who q = Some p \<and> isRunning y" r x] assms(2)
  by (simp add: principalHolders_def)

lemma perCount_acquire:
  assumes "acquire l p = (True, l')"
  shows "perCount l' q = perCount l q + (if q = p then 1 else 0)" "perCount l p < perMax l" "perMax l' = perMax l"
  using assms by (auto simp: acquire_def perCount_def split: if_splits)

lemma perCount_release:
  "perCount (release l p) q = perCount l q - (if q = p then 1 else 0)" "perMax (release l p) = perMax l"
  by (auto simp: release_def perCount_def split: option.splits)

text \<open>What a step does to the slots: of the global channel, and of the principal of the request.\<close>

lemma slotInv_update:
  assumes inv: "slotInv who s" and st: "stageOf s' = (stageOf s)(r := x)"
    and cap: "globalCap (srv s') = globalCap (srv s)" "perMax (srvLimits (srv s')) = perMax (srvLimits (srv s))"
    and len: "globalLen (srv s') = globalLen (srv s) + (if holdsGlobal x then 1 else 0)
      - (if holdsGlobal (stageOf s r) then 1 else 0)" "globalLen (srv s') \<le> globalCap (srv s)"
    and cnt: "\<And>p. perCount (srvLimits (srv s')) p = perCount (srvLimits (srv s)) p
      + (if who r = Some p \<and> isRunning x then 1 else 0) - (if who r = Some p \<and> isRunning (stageOf s r) then 1 else 0)"
      "\<And>p. perCount (srvLimits (srv s')) p \<le> perMax (srvLimits (srv s))"
  shows "slotInv who s'"
proof -
  have fin: "finite {q. stageOf s q \<noteq> Idle}" using inv by (simp add: slotInv_def)
  have "finite {q. stageOf s' q \<noteq> Idle}" using finite_stage_update [OF fin] st by simp
  moreover have "globalLen (srv s') = int (card (globalHolders s'))"
    using inv len(1) globalHolders_update [OF fin st] by (simp add: slotInv_def)
  moreover have "perCount (srvLimits (srv s')) p = int (card (principalHolders who p s'))" for p
    using inv cnt(1) [of p] principalHolders_update [OF fin st, of who p] by (simp add: slotInv_def)
  ultimately show ?thesis
    using cap len(2) cnt(2) by (simp add: slotInv_def)
qed

lemma slotInv_same:
  assumes "slotInv who s" and "stageOf s' = stageOf s" and "globalCap (srv s') = globalCap (srv s)"
    and "globalLen (srv s') = globalLen (srv s)" and "srvLimits (srv s') = srvLimits (srv s)"
  shows "slotInv who s'"
  using assms by (simp add: slotInv_def globalHolders_def principalHolders_def)

lemma slotInv_step:
  assumes step: "srv_step who s s'" and inv: "slotInv who s"
  shows "slotInv who s'"
proof -
  have bounds: "globalLen (srv s) \<le> globalCap (srv s)" "perCount (srvLimits (srv s)) p \<le> perMax (srvLimits (srv s))" for p
    using inv by (simp_all add: slotInv_def)
  have less: "perCount (srvLimits (srv s)) p - 1 \<le> perMax (srvLimits (srv s))" for p
    using bounds(2) [of p] by simp
  show ?thesis
    using step
  proof cases
    case (enter r v)
    then show ?thesis using bounds by (auto intro!: slotInv_update [OF inv] simp: acquireGlobal_def split: if_splits)
  next
    case (acquired r i p l)
    note q = perCount_acquire [OF acquired(4)]
    have "perCount l p' \<le> perMax (srvLimits (srv s))" for p'
      using q(1) [of p'] q(2) bounds(2) [of p'] by auto
    then show ?thesis using acquired bounds q by (auto intro!: slotInv_update [OF inv])
  next
    case (returned r i)
    then show ?thesis
      using bounds less
      by (cases "who r") (auto intro!: slotInv_update [OF inv] simp: withPrincipal_def perCount_release)
  next
    case (mark_stopping v)
    then show ?thesis by (auto intro!: slotInv_same [OF inv] simp: markStopping_def split: if_splits)
  next
    case cancel
    then show ?thesis by (auto intro!: slotInv_same [OF inv])
  next
    case (register r i v)
    then show ?thesis using bounds by (auto intro!: slotInv_update [OF inv] simp: registerActive_def Let_def)
  qed (use bounds in \<open>auto intro!: slotInv_update [OF inv] simp: doneActive_def releaseGlobal_def\<close>)
qed

lemma activeInv_keep:
  assumes inv: "activeInv s" and st: "stageOf s' = (stageOf s)(r := x)"
    and x: "holdsLock x = holdsLock (stageOf s r)" "activeID x = activeID (stageOf s r)"
    and srv: "activeMu (srv s') = activeMu (srv s)" "active (srv s') = active (srv s)" "nextID (srv s') = nextID (srv s)"
  shows "activeInv s'"
proof -
  have same: "holdsLock (stageOf s' q) = holdsLock (stageOf s q)" "activeID (stageOf s' q) = activeID (stageOf s q)" for q
    using st x by simp_all
  show ?thesis
    unfolding activeInv_def srv same by (rule inv [unfolded activeInv_def])
qed

lemma activeInv_same:
  assumes "activeInv s" and "stageOf s' = stageOf s" and "activeMu (srv s') = activeMu (srv s)"
    and "active (srv s') = active (srv s)" and "nextID (srv s') = nextID (srv s)"
  shows "activeInv s'"
  unfolding activeInv_def assms(2-5) by (rule assms(1) [unfolded activeInv_def])

lemma activeInv_step:
  assumes step: "srv_step who s s'" and inv: "activeInv s"
  shows "activeInv s'"
proof -
  have mu: "activeMu (srv s) = Some r \<longleftrightarrow> holdsLock (stageOf s r)"
    and act: "active (srv s) i = Some r \<longleftrightarrow> activeID (stageOf s r) = Some i"
    and old: "active (srv s) i = Some r \<Longrightarrow> i \<le> nextID (srv s)" for r i
    using inv unfolding activeInv_def by blast+
  have free: "\<not> holdsLock (stageOf s r)" if "activeMu (srv s) = None" for r
    using mu [of r] that by simp
  have only: "holdsLock (stageOf s q) \<longleftrightarrow> q = r" if "holdsLock (stageOf s r)" for q r
    using mu [of q] mu [of r] that by auto
  show ?thesis
    using step
  proof cases
    case (register r i v)
    have "active (srv s) (nextID (srv s) + 1) = None"
      using old [of "nextID (srv s) + 1"] by (cases "active (srv s) (nextID (srv s) + 1)") auto
    moreover have "activeID (stageOf s q) \<noteq> Some (nextID (srv s) + 1)" for q
      using act [of "nextID (srv s) + 1" q] calculation by simp
    ultimately show ?thesis
      using register act old only [of r]
      by (auto simp: activeInv_def registerActive_def Let_def le_Suc_eq split: if_splits)
  next
    case (lock r)
    then show ?thesis using act old free by (auto simp: activeInv_def)
  next
    case (stop_locked r)
    then show ?thesis using act old only [of r] by (auto simp: activeInv_def)
  next
    case (unregister r i)
    have "q = r" if "activeID (stageOf s q) = Some i" for q
      using act [of i q] act [of i r] unregister(2) that by simp
    then show ?thesis using unregister act old free by (auto simp: activeInv_def doneActive_def split: if_splits)
  next
    case (mark_stopping v)
    then show ?thesis by (auto intro!: activeInv_same [OF inv] simp: markStopping_def split: if_splits)
  next
    case cancel
    then show ?thesis by (auto intro!: activeInv_same [OF inv])
  next
    case (enter r v)
    then show ?thesis by (auto intro!: activeInv_keep [OF inv] simp: acquireGlobal_def split: if_splits)
  next
    case (returned r i)
    then show ?thesis by (cases "who r") (auto intro!: activeInv_keep [OF inv] simp: withPrincipal_def)
  qed (auto intro!: activeInv_keep [OF inv] simp: releaseGlobal_def)
qed

lemma cancelInv_step:
  assumes step: "srv_step who s s'" and act: "activeInv s" and inv: "cancelInv s"
  shows "cancelInv s'"
  using step
proof cases
  case cancel
  have "stageOf s r \<noteq> Cleared" for r
    using act cancel(3) by (metis activeInv_def holdsLock.simps(2) option.distinct(1))
  moreover have "r \<in> ran (active (srv s))" if "activeID (stageOf s r) = Some i" for r i
    using act that by (auto simp: activeInv_def ran_def)
  ultimately show ?thesis
    using cancel by (auto simp: cancelInv_def cancelActive_def)
qed (use inv in \<open>auto simp: cancelInv_def doneActive_def releaseGlobal_def acquireGlobal_def registerActive_def
    withPrincipal_def markStopping_def Let_def split: if_splits option.splits\<close>)

lemma caps_step:
  "srv_step who s s' \<Longrightarrow>
     globalCap (srv s') = globalCap (srv s) \<and> perMax (srvLimits (srv s')) = perMax (srvLimits (srv s))"
  by (erule srv_step.cases)
    (auto simp: doneActive_def releaseGlobal_def acquireGlobal_def registerActive_def withPrincipal_def
      markStopping_def perCount_acquire(3) perCount_release(2) Let_def split: if_splits option.splits)


section \<open>Reachable states\<close>

definition reachable :: "(nat \<Rightarrow> string option) \<Rightarrow> int \<Rightarrow> int \<Rightarrow> run \<Rightarrow> bool" where
  "reachable who maxRequests maxPer s \<longleftrightarrow> (srv_step who)\<^sup>*\<^sup>* (initialRun maxRequests maxPer) s"

lemma initial_inv:
  assumes "maxRequests \<ge> 0" and "maxPer \<ge> 0"
  shows "slotInv who (initialRun maxRequests maxPer) \<and> activeInv (initialRun maxRequests maxPer)
    \<and> cancelInv (initialRun maxRequests maxPer)"
  using assms
  by (simp add: slotInv_def activeInv_def cancelInv_def initialRun_def newServer_def newConcurrencyLimits_def
      globalHolders_def principalHolders_def perCount_def)

lemma reachable_inv:
  assumes "reachable who maxRequests maxPer s" and "maxRequests \<ge> 0" and "maxPer \<ge> 0"
  shows "slotInv who s \<and> activeInv s \<and> cancelInv s \<and> globalCap (srv s) = maxRequests \<and> perMax (srvLimits (srv s)) = maxPer"
  using assms(1) unfolding reachable_def
proof (induct rule: rtranclp_induct)
  case base
  then show ?case
    using initial_inv [OF assms(2,3)] by (simp add: initialRun_def newServer_def newConcurrencyLimits_def)
next
  case (step s s')
  then show ?case
    using slotInv_step activeInv_step cancelInv_step caps_step by metis
qed

text \<open>Every request that has begun is over, and nothing is held any more.\<close>

definition drained :: "run \<Rightarrow> bool" where
  "drained s \<longleftrightarrow>
     (\<forall>r. stageOf s r = Idle \<or> stageOf s r = Finished)
     \<and> globalLen (srv s) = 0 \<and> (\<forall>p. perCount (srvLimits (srv s)) p = 0)
     \<and> active (srv s) = Map.empty \<and> activeMu (srv s) = None"

lemma quiescent_drained:
  assumes slot: "slotInv who s" and act: "activeInv s"
    and idle: "\<forall>r. stageOf s r = Idle \<or> stageOf s r = Finished"
  shows "drained s"
proof -
  have none: "\<not> holdsGlobal (stageOf s r)" "\<not> isRunning (stageOf s r)" "\<not> holdsLock (stageOf s r)"
    "activeID (stageOf s r) = None" for r
    using idle [rule_format, of r] by auto
  have "active (srv s) i = None" for i
    using act none(4) unfolding activeInv_def by (metis not_None_eq option.distinct(1))
  moreover have "activeMu (srv s) = None"
    using act none(3) unfolding activeInv_def by (metis not_None_eq)
  moreover have "globalHolders s = {}" "principalHolders who p s = {}" for p
    using none by (simp_all add: globalHolders_def principalHolders_def)
  ultimately show ?thesis
    using slot idle by (auto simp: drained_def slotInv_def)
qed

text \<open>
  C35. Capacity is bounded and counted exactly. In every interleaving of any number of requests and the
  shutdown, the length of the global channel is the number of requests that hold a slot of the server,
  authentication included, and is at most the configured number; the count of a principal is the number
  of its requests that run a handler, at most the configured number per principal; a slot is granted
  exactly if fewer are held than configured; \<^verbatim>\<open>active\<close> registers exactly the admitted requests; and
  when every request that has begun is over, everything is free again.
\<close>

theorem slots_bounded:
  assumes "reachable who maxRequests maxPer s" and "maxRequests > 0" and "maxPer > 0"
  shows "finite (globalHolders s)
    \<and> globalLen (srv s) = int (card (globalHolders s)) \<and> int (card (globalHolders s)) \<le> maxRequests
    \<and> (acquireGlobal (srv s) \<noteq> None \<longleftrightarrow> int (card (globalHolders s)) < maxRequests)
    \<and> perCount (srvLimits (srv s)) p = int (card (principalHolders who p s))
    \<and> int (card (principalHolders who p s)) \<le> maxPer
    \<and> (fst (acquire (srvLimits (srv s)) p) \<longleftrightarrow> int (card (principalHolders who p s)) < maxPer)
    \<and> (active (srv s) i = Some r \<longleftrightarrow> activeID (stageOf s r) = Some i)
    \<and> ((\<forall>r. stageOf s r = Idle \<or> stageOf s r = Finished) \<longrightarrow> drained s)"
proof -
  have slot: "slotInv who s" and act: "activeInv s"
    and caps: "globalCap (srv s) = maxRequests" "perMax (srvLimits (srv s)) = maxPer"
    using reachable_inv [OF assms(1)] assms(2,3) by auto
  have "finite (globalHolders s)"
  proof (rule finite_subset)
    show "globalHolders s \<subseteq> {r. stageOf s r \<noteq> Idle}" by (auto simp: globalHolders_def)
  qed (use slot in \<open>simp add: slotInv_def\<close>)
  moreover have "acquireGlobal (srv s) \<noteq> None \<longleftrightarrow> globalLen (srv s) < maxRequests"
    "fst (acquire (srvLimits (srv s)) p) \<longleftrightarrow> perCount (srvLimits (srv s)) p < maxPer"
    using caps by (auto simp: acquireGlobal_def acquire_def)
  moreover have "active (srv s) i = Some r \<longleftrightarrow> activeID (stageOf s r) = Some i"
    using act unfolding activeInv_def by blast
  ultimately show ?thesis
    using slot caps quiescent_drained [OF slot act] by (auto simp: slotInv_def)
qed

text \<open>
  C36. A forced shutdown misses no request. Once \<^verbatim>\<open>cancelActive\<close> has collected the requests to cancel,
  every request that is or later comes to be admitted is among them, whatever the requests that
  were passing \<^verbatim>\<open>admit\<close> did in between.
\<close>

theorem shutdown_complete:
  assumes "reachable who maxRequests maxPer s" and "maxRequests > 0" and "maxPer > 0"
    and "cancelled s = Some c" and "(srv_step who)\<^sup>*\<^sup>* s s'"
  shows "cancelled s' = Some c \<and> (\<forall>r. activeID (stageOf s' r) \<noteq> None \<longrightarrow> r \<in> c)"
proof -
  have keep: "cancelled s' = Some c"
    using assms(5,4) by (induct rule: rtranclp_induct) (auto elim: srv_step.cases)
  have "reachable who maxRequests maxPer s'"
    using assms(1,5) unfolding reachable_def by simp
  then have "cancelInv s'"
    using reachable_inv assms(2,3) by force
  then show ?thesis
    using keep by (auto simp: cancelInv_def)
qed

text \<open>How far a request is from its end.\<close>

fun stageRank :: "stage \<Rightarrow> nat" where
  "stageRank Idle = 9"
| "stageRank Leased = 8"
| "stageRank Checked = 7"
| "stageRank Locked = 6"
| "stageRank Cleared = 5"
| "stageRank (Admitted i) = 4"
| "stageRank (Running i) = 3"
| "stageRank (Leaving i) = 2"
| "stageRank Exiting = 1"
| "stageRank Finished = 0"

lemma step_rank:
  assumes "srv_step who s s'"
  shows "stageOf s' r = stageOf s r \<or> stageRank (stageOf s' r) < stageRank (stageOf s r)"
  using assms by cases auto

lemma step_to:
  assumes "srv_step who s s'" and "stageRank (stageOf s' q) < stageRank (stageOf s q)"
  shows "\<exists>s'. srv_step who s s' \<and> stageRank (stageOf s' q) < stageRank (stageOf s q)"
  using assms by blast

lemma holder_steps:
  assumes "holdsLock (stageOf s q)"
  shows "\<exists>s'. srv_step who s s' \<and> stageRank (stageOf s' q) < stageRank (stageOf s q)"
proof (cases "stageOf s q = Locked")
  case True
  show ?thesis
  proof (cases "stopping (srv s)")
    case True
    with \<open>stageOf s q = Locked\<close> show ?thesis by (intro step_to [OF srv_step.stop_locked [of s q]]) auto
  next
    case False
    with \<open>stageOf s q = Locked\<close> show ?thesis by (intro step_to [OF srv_step.clear [of s q]]) auto
  qed
next
  case False
  then have "stageOf s q = Cleared" using assms by (cases "stageOf s q") auto
  then show ?thesis by (intro step_to [OF srv_step.register [of s q "fst (registerActive (srv s) q)" "snd (registerActive (srv s) q)"]]) auto
qed

lemma free_steps:
  assumes "stageOf s r \<noteq> Finished" and free: "activeMu (srv s) = None"
  shows "\<exists>s'. srv_step who s s' \<and> stageRank (stageOf s' r) < stageRank (stageOf s r)"
proof (cases "stageOf s r")
  case Idle
  show ?thesis
  proof (cases "acquireGlobal (srv s)")
    case None
    with Idle show ?thesis by (intro step_to [OF srv_step.refused [of s r]]) auto
  next
    case (Some v)
    with Idle show ?thesis by (intro step_to [OF srv_step.enter [of s r v]]) auto
  qed
next
  case Leased
  then show ?thesis by (intro step_to [OF srv_step.unauthenticated [of s r]]) auto
next
  case Checked
  with free show ?thesis by (intro step_to [OF srv_step.lock [of s r]]) auto
next
  case (Admitted i)
  show ?thesis
  proof (cases "who r")
    case None
    with Admitted show ?thesis by (intro step_to [OF srv_step.health [of s r i]]) auto
  next
    case (Some p)
    obtain b l where a: "acquire (srvLimits (srv s)) p = (b, l)" by fastforce
    show ?thesis
    proof (cases b)
      case True
      with Admitted Some a show ?thesis by (intro step_to [OF srv_step.acquired [of s r i who p l]]) auto
    next
      case False
      with Admitted Some a show ?thesis by (intro step_to [OF srv_step.exhausted [of s r i who p l]]) auto
    qed
  qed
next
  case (Running i)
  then show ?thesis by (intro step_to [OF srv_step.returned [of s r i]]) auto
next
  case (Leaving i)
  with free show ?thesis by (intro step_to [OF srv_step.unregister [of s r i]]) auto
next
  case Exiting
  then show ?thesis by (intro step_to [OF srv_step.leave [of s r]]) auto
qed (use assms(1) holder_steps [of s r who] in simp_all)

text \<open>One step of one request, the others unchanged.\<close>

lemma step_single:
  assumes "srv_step who s s'" and "stageRank (stageOf s' q) < stageRank (stageOf s q)" and "r \<noteq> q"
  shows "stageOf s' r = stageOf s r"
  using assms by cases (auto split: if_splits)

lemma request_steps:
  assumes "activeInv s" and "stageOf s r \<noteq> Finished"
  shows "\<exists>q s'. srv_step who s s' \<and> stageRank (stageOf s' q) < stageRank (stageOf s q)
    \<and> (q = r \<or> activeMu (srv s) = Some q)"
  using assms(1) holder_steps [of s _ who] free_steps [OF assms(2), of who]
  by (cases "activeMu (srv s)") (force simp: activeInv_def)+

text \<open>The steps that the requests which have begun still have to take.\<close>

definition workLeft :: "run \<Rightarrow> nat" where
  "workLeft s = (\<Sum>r \<in> {r. stageOf s r \<noteq> Idle}. stageRank (stageOf s r))"

lemma workLeft_less:
  assumes "srv_step who s s'" and "stageRank (stageOf s' q) < stageRank (stageOf s q)"
    and "stageOf s q \<noteq> Idle" and fin: "finite {r. stageOf s r \<noteq> Idle}"
  shows "workLeft s' < workLeft s \<and> (\<forall>r. stageOf s' r = Idle \<longleftrightarrow> stageOf s r = Idle)"
proof -
  have "stageRank x \<le> 9" for x by (cases x) auto
  with assms(2) have "stageOf s' q \<noteq> Idle"
    by (metis leD stageRank.simps(1))
  then have same: "stageOf s' r = Idle \<longleftrightarrow> stageOf s r = Idle" for r
    using assms(3) step_single [OF assms(1,2), of r] by (cases "r = q") auto
  have "workLeft s' < workLeft s"
    unfolding workLeft_def same
  proof (rule sum_strict_mono_ex1 [OF fin])
    show "\<forall>r \<in> {r. stageOf s r \<noteq> Idle}. stageRank (stageOf s' r) \<le> stageRank (stageOf s r)"
      using step_rank [OF assms(1)] by (metis less_imp_le order_refl)
  qed (use assms(2,3) in blast)
  with same show ?thesis by blast
qed

lemma drains:
  assumes "slotInv who s" and "activeInv s"
  shows "\<exists>s'. (srv_step who)\<^sup>*\<^sup>* s s' \<and> (\<forall>r. stageOf s' r = Idle \<longleftrightarrow> stageOf s r = Idle) \<and> drained s'"
  using assms
proof (induction "workLeft s" arbitrary: s rule: less_induct)
  case less
  show ?case
  proof (cases "\<forall>r. stageOf s r = Idle \<or> stageOf s r = Finished")
    case True
    with quiescent_drained [OF less.prems] show ?thesis by blast
  next
    case False
    then obtain r where r: "stageOf s r \<noteq> Idle" "stageOf s r \<noteq> Finished" by blast
    then obtain q s1 where q: "srv_step who s s1" "stageRank (stageOf s1 q) < stageRank (stageOf s q)"
      "q = r \<or> activeMu (srv s) = Some q"
      using request_steps [OF less.prems(2) r(2)] by blast
    have "stageOf s q \<noteq> Idle"
      using q(3) r(1) less.prems(2) unfolding activeInv_def by (metis holdsLock.simps(3))
    with q less.prems(1) have w: "workLeft s1 < workLeft s" "\<And>r. stageOf s1 r = Idle \<longleftrightarrow> stageOf s r = Idle"
      using workLeft_less [of who s s1 q] by (auto simp: slotInv_def)
    have "slotInv who s1" "activeInv s1"
      using slotInv_step [OF q(1) less.prems(1)] activeInv_step [OF q(1) less.prems(2)] .
    from less.hyps [OF w(1) this] w(2) q(1) show ?thesis
      by (meson converse_rtranclp_into_rtranclp)
  qed
qed

text \<open>
  C37. No request gets stuck and every request gives back what it holds. Whatever happens, a request
  only moves towards its end; in every reachable state each request that has not finished can move
  itself, or another request that holds the mutex can; a state in which no request that has begun can
  move is one in which all of them are over and every slot, every count, every registration and the
  mutex are free; and from every reachable state a run in which no further request begins leads there.
\<close>

theorem requests_progress:
  assumes "reachable who maxRequests maxPer s" and "maxRequests > 0" and "maxPer > 0"
  shows "(\<forall>s' r. srv_step who s s' \<longrightarrow>
        stageOf s' r = stageOf s r \<or> stageRank (stageOf s' r) < stageRank (stageOf s r))
    \<and> (\<forall>r. stageOf s r \<noteq> Finished \<longrightarrow>
        (\<exists>q s'. srv_step who s s' \<and> stageRank (stageOf s' q) < stageRank (stageOf s q)
          \<and> (q = r \<or> activeMu (srv s) = Some q)))
    \<and> ((\<forall>q s'. stageOf s q \<noteq> Idle \<and> srv_step who s s' \<longrightarrow> stageOf s' q = stageOf s q) \<longrightarrow> drained s)
    \<and> (\<exists>s'. (srv_step who)\<^sup>*\<^sup>* s s' \<and> (\<forall>r. stageOf s' r = Idle \<longleftrightarrow> stageOf s r = Idle) \<and> drained s')"
proof -
  have inv: "slotInv who s" "activeInv s"
    using reachable_inv [OF assms(1)] assms(2,3) by auto
  have "drained s" if stuck: "\<forall>q s'. stageOf s q \<noteq> Idle \<and> srv_step who s s' \<longrightarrow> stageOf s' q = stageOf s q"
  proof (rule quiescent_drained [OF inv], rule allI, rule ccontr)
    fix r assume r: "\<not> (stageOf s r = Idle \<or> stageOf s r = Finished)"
    then obtain q s' where q: "srv_step who s s'" "stageRank (stageOf s' q) < stageRank (stageOf s q)"
      "q = r \<or> activeMu (srv s) = Some q"
      using request_steps [OF inv(2), of r] by blast
    have "stageOf s q \<noteq> Idle"
      using q(3) r inv(2) unfolding activeInv_def by (metis holdsLock.simps(3))
    with stuck q(1) have "stageOf s' q = stageOf s q" by blast
    with q(2) show False by simp
  qed
  then show ?thesis
    using step_rank request_steps [OF inv(2)] drains [OF inv] by blast
qed


section \<open>A run\<close>

text \<open>One request of a principal is admitted and runs; the server stops and cancels it.\<close>

definition exampleWho :: "nat \<Rightarrow> string option" where
  "exampleWho r = Some ''agent''"

definition exampleServer :: server where
  "exampleServer = \<lparr>globalCap = 2, globalLen = 1, srvLimits = \<lparr>perMax = 1, per = [''agent'' \<mapsto> 1]\<rparr>,
     stopping = False, ready = False, serving = False, active = [1 \<mapsto> 0], nextID = 1, activeMu = None\<rparr>"

definition exampleRunning :: run where
  "exampleRunning = \<lparr>srv = exampleServer, stageOf = (\<lambda>_. Idle)(0 := Running 1), cancelled = None\<rparr>"

definition exampleCancelled :: run where
  "exampleCancelled = exampleRunning\<lparr>srv := exampleServer\<lparr>stopping := True\<rparr>, cancelled := Some {0}\<rparr>"

lemma exampleRunning_reachable: "reachable exampleWho 2 1 exampleRunning"
proof -
  let ?f = "\<lambda>_ :: nat. Idle"
  let ?v0 = "newServer 2 1"
  let ?v1 = "?v0\<lparr>globalLen := 1\<rparr>"
  let ?v2 = "?v1\<lparr>activeMu := Some 0\<rparr>"
  let ?v3 = "?v1\<lparr>nextID := 1, active := [1 \<mapsto> 0]\<rparr>"
  let ?s = "\<lambda>v x. \<lparr>srv = v, stageOf = ?f(0 := x), cancelled = None\<rparr>"
  have 1: "srv_step exampleWho (initialRun 2 1) (?s ?v1 Leased)"
    using srv_step.enter [of "initialRun 2 1" 0 ?v1 exampleWho]
    by (simp add: initialRun_def acquireGlobal_def newServer_def)
  have 2: "srv_step exampleWho (?s ?v1 Leased) (?s ?v1 Checked)"
    using srv_step.check [of "?s ?v1 Leased" 0 exampleWho] by (simp add: newServer_def)
  have 3: "srv_step exampleWho (?s ?v1 Checked) (?s ?v2 Locked)"
    using srv_step.lock [of "?s ?v1 Checked" 0 exampleWho] by (simp add: newServer_def)
  have 4: "srv_step exampleWho (?s ?v2 Locked) (?s ?v2 Cleared)"
    using srv_step.clear [of "?s ?v2 Locked" 0 exampleWho] by (simp add: newServer_def)
  have 5: "srv_step exampleWho (?s ?v2 Cleared) (?s ?v3 (Admitted 1))"
    using srv_step.register [of "?s ?v2 Cleared" 0 1 "?v2\<lparr>nextID := 1, active := [1 \<mapsto> 0]\<rparr>" exampleWho]
    by (simp add: newServer_def registerActive_def)
  have 6: "srv_step exampleWho (?s ?v3 (Admitted 1)) exampleRunning"
    using srv_step.acquired [of "?s ?v3 (Admitted 1)" 0 1 exampleWho "''agent''" "srvLimits exampleServer"]
    by (simp add: newServer_def newConcurrencyLimits_def exampleWho_def acquire_def perCount_def exampleServer_def
        exampleRunning_def)
  show ?thesis
    unfolding reachable_def
    using 1 2 3 4 5 6 by (meson converse_rtranclp_into_rtranclp rtranclp.rtrancl_refl)
qed

lemma exampleCancelled_step: "(srv_step exampleWho)\<^sup>*\<^sup>* exampleRunning exampleCancelled"
proof -
  let ?s = "exampleRunning\<lparr>srv := exampleServer\<lparr>stopping := True\<rparr>\<rparr>"
  have 1: "srv_step exampleWho exampleRunning ?s"
    using srv_step.mark_stopping [of exampleRunning "exampleServer\<lparr>stopping := True\<rparr>" exampleWho]
    by (simp add: exampleRunning_def exampleServer_def markStopping_def)
  have "ran [1 :: nat \<mapsto> 0 :: nat] = {0}" by simp
  then have 2: "srv_step exampleWho ?s exampleCancelled"
    using srv_step.cancel [of ?s exampleWho]
    by (simp add: exampleRunning_def exampleServer_def exampleCancelled_def cancelActive_def)
  show ?thesis
    using 1 2 by (meson converse_rtranclp_into_rtranclp rtranclp.rtrancl_refl)
qed

theorem slots_bounded_witness:
  "reachable exampleWho 2 1 exampleRunning \<and> principalHolders exampleWho ''agent'' exampleRunning = {0}
    \<and> int (card (principalHolders exampleWho ''agent'' exampleRunning)) \<le> 1"
proof -
  have "principalHolders exampleWho ''agent'' exampleRunning = {0}"
    by (auto simp: principalHolders_def exampleWho_def exampleRunning_def split: if_splits)
  then show ?thesis
    using slots_bounded [OF exampleRunning_reachable, of "''agent''"] exampleRunning_reachable by simp
qed

theorem shutdown_complete_witness:
  "\<exists>c. cancelled exampleCancelled = Some c \<and> activeID (stageOf exampleCancelled 0) = Some 1 \<and> 0 \<in> c"
proof -
  have c: "cancelled exampleCancelled = Some {0}" "activeID (stageOf exampleCancelled 0) = Some 1"
    by (simp_all add: exampleCancelled_def exampleRunning_def)
  have "reachable exampleWho 2 1 exampleCancelled"
    using exampleRunning_reachable exampleCancelled_step unfolding reachable_def by simp
  then have "\<forall>r. activeID (stageOf exampleCancelled r) \<noteq> None \<longrightarrow> r \<in> {0}"
    using shutdown_complete [of exampleWho 2 1 exampleCancelled "{0}" exampleCancelled] c by simp
  then show ?thesis
    using c by auto
qed

theorem requests_progress_witness:
  "stageOf exampleRunning 0 = Running 1
   \<and> (\<exists>s'. (srv_step exampleWho)\<^sup>*\<^sup>* exampleRunning s' \<and> stageOf s' 0 = Finished \<and> globalLen (srv s') = 0)"
proof -
  have run: "stageOf exampleRunning 0 = Running 1"
    by (simp add: exampleRunning_def)
  have "\<exists>s'. (srv_step exampleWho)\<^sup>*\<^sup>* exampleRunning s'
      \<and> (\<forall>r. stageOf s' r = Idle \<longleftrightarrow> stageOf exampleRunning r = Idle) \<and> drained s'"
    using requests_progress [OF exampleRunning_reachable] by simp
  then obtain s' where "(srv_step exampleWho)\<^sup>*\<^sup>* exampleRunning s'" "drained s'"
    "stageOf s' 0 = Idle \<longleftrightarrow> stageOf exampleRunning 0 = Idle"
    by blast
  with run show ?thesis
    by (auto simp: drained_def)
qed

end
