(* ===== verification/GitHub_Request.thy ===== *)
theory GitHub_Request
  imports Config_Types Go_Errors Proto_Common
begin

text \<open>
  Package \<^verbatim>\<open>internal/provider/github\<close>, the typed requests: their messages
  (\<^verbatim>\<open>proto/repowolf/v1/github.proto\<close>), their validation (\<^verbatim>\<open>validate.go\<close>, \<^verbatim>\<open>validate_patchmill.go\<close>),
  the capability each needs and its name in the audit log (\<^verbatim>\<open>operation.go\<close>).

  A message pointer that may be nil is an option; the getters of a nil message return zero values.
\<close>

section \<open>Messages\<close>

record gh_issue_list =
  ilState :: int
  ilLimit :: "64 word"

record gh_issue_view =
  ivNumber :: "64 word"
  ivIncludeComments :: bool

record gh_issue_create =
  icTitle :: string
  icBody :: "string option"
  icLabels :: "string list"
  icAssignees :: "string list"

record gh_issue_edit =
  ieNumber :: "64 word"
  ieTitle :: "string option"
  ieBody :: "string option"
  ieLabels :: "string list option"
  ieAssignees :: "string list option"

record gh_comment =
  cmNumber :: "64 word"
  cmBody :: string

record gh_label_create =
  lcName :: string
  lcColor :: string
  lcDescription :: string

record gh_label_change =
  lhNumber :: "64 word"
  AddLabels :: "string list"
  RemoveLabels :: "string list"

record gh_pull_list =
  plState :: int
  plBase :: "string option"
  plHead :: "string option"
  plLimit :: "64 word"

record gh_pull_create =
  pcTitle :: string
  pcHead :: string
  pcBase :: string
  pcBody :: "string option"
  pcDraft :: "bool option"

record gh_pull_edit =
  peNumber :: "64 word"
  peTitle :: "string option"
  peBody :: "string option"
  peBase :: "string option"

record gh_run_list =
  rlBranch :: "string option"
  rlStatus :: "int option"
  rlLimit :: "64 word"

text \<open>
  The \<^verbatim>\<open>oneof\<close> of a request: no operation, or one case with its message, which may be nil. The
  messages that hold only a number or an object ID are that value.
\<close>

datatype github_operation =
    GhNone
  | GhCurrentUser "unit option"
  | GhRepositoryView "unit option"
  | GhLabelList "64 word option"
  | GhIssueList "gh_issue_list option"
  | GhIssueView "gh_issue_view option"
  | GhIssueCreate "gh_issue_create option"
  | GhIssueEdit "gh_issue_edit option"
  | GhIssueComment "gh_comment option"
  | GhIssueClose "64 word option"
  | GhIssueReopen "64 word option"
  | GhLabelCreate "gh_label_create option"
  | GhIssueLabelChange "gh_label_change option"
  | GhPullList "gh_pull_list option"
  | GhPullView "64 word option"
  | GhPullCreate "gh_pull_create option"
  | GhPullEdit "gh_pull_edit option"
  | GhPullComment "gh_comment option"
  | GhPullClose "64 word option"
  | GhPullReopen "64 word option"
  | GhPullReady "64 word option"
  | GhPullChecks "64 word option"
  | GhRunList "gh_run_list option"
  | GhRunView "64 word option"
  | GhStatusView "string option"

record github_request =
  ghContext :: "request_context option"
  ghOperation :: github_operation


section \<open>Field checks\<close>

definition gh_invalid :: "string \<Rightarrow> 'a result" where
  "gh_invalid field = Inl (Wrapf ''%w: %s'' [ArgS field] (Sentinel GitHubErrInvalidRequest))"

definition maximumTitleBytes :: int where "maximumTitleBytes = 256"
definition maximumBodyBytes :: int where "maximumBodyBytes = 65536"
definition maximumNameBytes :: int where "maximumNameBytes = 255"
definition maximumListLimit :: int where "maximumListLimit = 100"
definition maximumIssueListLimit :: int where "maximumIssueListLimit = 1001"
definition maximumLabelListLimit :: int where "maximumLabelListLimit = 1000"

definition gh_number :: "64 word \<Rightarrow> unit result" where
  "gh_number v = (if v = 0 then gh_invalid ''number'' else Inr ())"

definition gh_limit :: "64 word \<Rightarrow> int \<Rightarrow> unit result" where
  "gh_limit v maximum = (if v = 0 \<or> uint v > maximum then gh_invalid ''limit'' else Inr ())"

definition gh_title :: "string \<Rightarrow> unit result" where
  "gh_title v =
     (if v = [] \<or> int (length v) > maximumTitleBytes \<or> \<not> validString v then gh_invalid ''title'' else Inr ())"

definition gh_body :: "string \<Rightarrow> bool \<Rightarrow> unit result" where
  "gh_body v required =
     (if required \<and> v = [] \<or> int (length v) > maximumBodyBytes \<or> \<not> validString v
      then gh_invalid ''body'' else Inr ())"

definition gh_name :: "string \<Rightarrow> bool \<Rightarrow> unit result" where
  "gh_name v required =
     (if required \<and> v = [] \<or> int (length v) > maximumNameBytes \<or> \<not> validString v
        \<or> containsAny v [CHR '' '', CHR 0x09, CR, LF, NUL]
      then gh_invalid ''name'' else Inr ())"

definition gh_names :: "string list \<Rightarrow> unit result" where
  "gh_names vs =
     (if length vs > 100 then gh_invalid ''names'' else checkAll (\<lambda>v. gh_name v True) vs)"

definition gh_labels :: "string list \<Rightarrow> unit result" where
  "gh_labels vs =
     (if length vs > 100 then gh_invalid ''labels''
      else checkAll (\<lambda>v. if v = [] \<or> int (length v) > maximumNameBytes \<or> \<not> validString v \<or> NUL \<in> set v
                         then gh_invalid ''label'' else Inr ()) vs)"

definition hexRune :: "int \<Rightarrow> bool" where
  "hexRune r = (48 \<le> r \<and> r \<le> 57 \<or> 97 \<le> r \<and> r \<le> 102 \<or> 65 \<le> r \<and> r \<le> 70)"

definition gh_objectID :: "string \<Rightarrow> unit result" where
  "gh_objectID v =
     (if length v \<noteq> 40 \<and> length v \<noteq> 64 then gh_invalid ''object id''
      else if \<not> allRunes hexRune v then gh_invalid ''object id'' else Inr ())"

text \<open>\<^verbatim>\<open>unicode.IsControl\<close>: the category Cc.\<close>

definition isControl :: "int \<Rightarrow> bool" where
  "isControl r = (0 \<le> r \<and> r \<le> 31 \<or> 127 \<le> r \<and> r \<le> 159)"

definition runeCount :: "string \<Rightarrow> int" where
  "runeCount s = int (length (runes s))"

definition labelCreateName :: "string \<Rightarrow> unit result" where
  "labelCreateName v =
     (if v = [] \<or> \<not> validString v \<or> runeCount v > 50 then gh_invalid ''label name''
      else if \<not> allRunes (\<lambda>r. \<not> isControl r) v then gh_invalid ''label name'' else Inr ())"

definition labelDescription :: "string \<Rightarrow> unit result" where
  "labelDescription v =
     (if \<not> validString v \<or> NUL \<in> set v \<or> runeCount v > 100 then gh_invalid ''label description'' else Inr ())"

definition labelColor :: "string \<Rightarrow> unit result" where
  "labelColor v =
     (if length v \<noteq> 6 then gh_invalid ''label color''
      else if \<not> allRunes hexRune v then gh_invalid ''label color'' else Inr ())"

definition addDistinctLabel :: "string set \<Rightarrow> string \<Rightarrow> string set result" where
  "addDistinctLabel seen v = (if v \<in> seen then gh_invalid ''duplicate label'' else Inr (insert v seen))"

definition distinctLabels :: "string list \<Rightarrow> string set \<Rightarrow> string set result" where
  "distinctLabels vs seen = foldE addDistinctLabel seen vs"

text \<open>A check of an optional field.\<close>

definition whenSet :: "'a option \<Rightarrow> ('a \<Rightarrow> unit result) \<Rightarrow> unit result" where
  "whenSet v check = (case v of None \<Rightarrow> Inr () | Some x \<Rightarrow> check x)"


section \<open>Validation\<close>

definition validateCurrentUser :: "unit option \<Rightarrow> unit result" where
  "validateCurrentUser v = (if v = None then gh_invalid ''operation'' else Inr ())"

definition validateLabelList :: "64 word option \<Rightarrow> unit result" where
  "validateLabelList v = (case v of None \<Rightarrow> gh_invalid ''operation'' | Some l \<Rightarrow> gh_limit l maximumLabelListLimit)"

definition validateIssueList :: "gh_issue_list option \<Rightarrow> unit result" where
  "validateIssueList v =
     (case v of
        None \<Rightarrow> gh_invalid ''state''
      | Some r \<Rightarrow> if ilState r < 1 \<or> ilState r > 3 then gh_invalid ''state'' else gh_limit (ilLimit r) maximumIssueListLimit)"

definition validateIssueCreate :: "gh_issue_create option \<Rightarrow> unit result" where
  "validateIssueCreate v =
     (case v of
        None \<Rightarrow> gh_invalid ''operation''
      | Some r \<Rightarrow>
          bindE (gh_title (icTitle r)) (\<lambda>_.
          bindE (whenSet (icBody r) (\<lambda>b. gh_body b False)) (\<lambda>_.
          bindE (gh_labels (icLabels r)) (\<lambda>_.
          gh_names (icAssignees r)))))"

definition validateIssueEdit :: "gh_issue_edit option \<Rightarrow> unit result" where
  "validateIssueEdit v =
     (case v of
        None \<Rightarrow> gh_invalid ''operation''
      | Some r \<Rightarrow>
          bindE (gh_number (ieNumber r)) (\<lambda>_.
          if ieTitle r = None \<and> ieBody r = None \<and> ieLabels r = None \<and> ieAssignees r = None
          then gh_invalid ''empty edit''
          else
          bindE (whenSet (ieTitle r) gh_title) (\<lambda>_.
          bindE (whenSet (ieBody r) (\<lambda>b. gh_body b False)) (\<lambda>_.
          bindE (whenSet (ieLabels r) gh_labels) (\<lambda>_.
          whenSet (ieAssignees r) gh_names)))))"

definition validateComment :: "64 word \<Rightarrow> string \<Rightarrow> unit result" where
  "validateComment n v = bindE (gh_number n) (\<lambda>_. gh_body v True)"

definition validateLabelCreate :: "gh_label_create option \<Rightarrow> unit result" where
  "validateLabelCreate v =
     (case v of
        None \<Rightarrow> gh_invalid ''operation''
      | Some r \<Rightarrow>
          bindE (labelCreateName (lcName r)) (\<lambda>_.
          bindE (labelDescription (lcDescription r)) (\<lambda>_.
          labelColor (lcColor r))))"

definition validateIssueLabelChange :: "gh_label_change option \<Rightarrow> unit result" where
  "validateIssueLabelChange v =
     (case v of
        None \<Rightarrow> gh_invalid ''operation''
      | Some r \<Rightarrow>
          bindE (gh_number (lhNumber r)) (\<lambda>_.
          if AddLabels r = [] \<and> RemoveLabels r = [] then gh_invalid ''empty label change''
          else
          bindE (gh_labels (AddLabels r)) (\<lambda>_.
          bindE (gh_labels (RemoveLabels r)) (\<lambda>_.
          bindE (distinctLabels (AddLabels r) {}) (\<lambda>seen.
          bindE (distinctLabels (RemoveLabels r) seen) (\<lambda>_. Inr ()))))))"

definition validatePullList :: "gh_pull_list option \<Rightarrow> unit result" where
  "validatePullList v =
     (case v of
        None \<Rightarrow> gh_invalid ''state''
      | Some r \<Rightarrow>
          if plState r < 1 \<or> plState r > 3 then gh_invalid ''state''
          else
          bindE (gh_limit (plLimit r) maximumListLimit) (\<lambda>_.
          bindE (whenSet (plBase r) (\<lambda>s. gh_name s False)) (\<lambda>_.
          whenSet (plHead r) (\<lambda>s. gh_name s False))))"

definition validatePullCreate :: "gh_pull_create option \<Rightarrow> unit result" where
  "validatePullCreate v =
     (case v of
        None \<Rightarrow> gh_invalid ''operation''
      | Some r \<Rightarrow>
          bindE (gh_title (pcTitle r)) (\<lambda>_.
          bindE (gh_name (pcHead r) True) (\<lambda>_.
          bindE (gh_name (pcBase r) True) (\<lambda>_.
          whenSet (pcBody r) (\<lambda>b. gh_body b False)))))"

definition validatePullEdit :: "gh_pull_edit option \<Rightarrow> unit result" where
  "validatePullEdit v =
     (case v of
        None \<Rightarrow> gh_invalid ''operation''
      | Some r \<Rightarrow>
          bindE (gh_number (peNumber r)) (\<lambda>_.
          if peTitle r = None \<and> peBody r = None \<and> peBase r = None then gh_invalid ''empty edit''
          else
          bindE (whenSet (peTitle r) gh_title) (\<lambda>_.
          bindE (whenSet (peBody r) (\<lambda>b. gh_body b False)) (\<lambda>_.
          whenSet (peBase r) (\<lambda>s. gh_name s True)))))"

definition validateRunList :: "gh_run_list option \<Rightarrow> unit result" where
  "validateRunList v =
     (case v of
        None \<Rightarrow> gh_invalid ''operation''
      | Some r \<Rightarrow>
          bindE (gh_limit (rlLimit r) maximumListLimit) (\<lambda>_.
          bindE (whenSet (rlBranch r) (\<lambda>s. gh_name s False)) (\<lambda>_.
          whenSet (rlStatus r) (\<lambda>s. if s < 1 \<or> s > 15 then gh_invalid ''status'' else Inr ()))))"

text \<open>The getters of a message that may be nil.\<close>

definition getNumber :: "64 word option \<Rightarrow> 64 word" where
  "getNumber v = (case v of None \<Rightarrow> 0 | Some n \<Rightarrow> n)"

definition getComment :: "gh_comment option \<Rightarrow> gh_comment" where
  "getComment v = (case v of None \<Rightarrow> \<lparr>cmNumber = 0, cmBody = []\<rparr> | Some c \<Rightarrow> c)"

definition validateComment' :: "gh_comment option \<Rightarrow> unit result" where
  "validateComment' v = validateComment (cmNumber (getComment v)) (cmBody (getComment v))"

fun validateOperation :: "github_operation \<Rightarrow> unit result" where
  "validateOperation (GhCurrentUser v) = validateCurrentUser v"
| "validateOperation (GhRepositoryView v) = (if v = None then gh_invalid ''operation'' else Inr ())"
| "validateOperation (GhLabelList v) = validateLabelList v"
| "validateOperation (GhIssueList v) = validateIssueList v"
| "validateOperation (GhIssueView v) = gh_number (getNumber (map_option ivNumber v))"
| "validateOperation (GhIssueCreate v) = validateIssueCreate v"
| "validateOperation (GhIssueEdit v) = validateIssueEdit v"
| "validateOperation (GhIssueComment v) = validateComment' v"
| "validateOperation (GhIssueClose v) = gh_number (getNumber v)"
| "validateOperation (GhIssueReopen v) = gh_number (getNumber v)"
| "validateOperation (GhLabelCreate v) = validateLabelCreate v"
| "validateOperation (GhIssueLabelChange v) = validateIssueLabelChange v"
| "validateOperation (GhPullList v) = validatePullList v"
| "validateOperation (GhPullView v) = gh_number (getNumber v)"
| "validateOperation (GhPullCreate v) = validatePullCreate v"
| "validateOperation (GhPullEdit v) = validatePullEdit v"
| "validateOperation (GhPullComment v) = validateComment' v"
| "validateOperation (GhPullClose v) = gh_number (getNumber v)"
| "validateOperation (GhPullReopen v) = gh_number (getNumber v)"
| "validateOperation (GhPullReady v) = gh_number (getNumber v)"
| "validateOperation (GhPullChecks v) = gh_number (getNumber v)"
| "validateOperation (GhRunList v) = validateRunList v"
| "validateOperation (GhRunView v) = gh_number (getNumber v)"
| "validateOperation (GhStatusView v) = gh_objectID (case v of None \<Rightarrow> [] | Some s \<Rightarrow> s)"
| "validateOperation GhNone = gh_invalid ''operation''"

definition ValidateGitHubRequest :: "github_request option \<Rightarrow> unit result" where
  "ValidateGitHubRequest request =
     (case request of None \<Rightarrow> gh_invalid ''request'' | Some r \<Rightarrow> validateOperation (ghOperation r))"


section \<open>Capability and operation name\<close>

fun operationCapability :: "github_operation \<Rightarrow> capability result" where
  "operationCapability (GhCurrentUser _) = Inr RepositoryRead"
| "operationCapability (GhRepositoryView _) = Inr RepositoryRead"
| "operationCapability (GhLabelList _) = Inr IssuesRead"
| "operationCapability (GhIssueList _) = Inr IssuesRead"
| "operationCapability (GhIssueView _) = Inr IssuesRead"
| "operationCapability (GhLabelCreate _) = Inr IssuesWrite"
| "operationCapability (GhIssueLabelChange _) = Inr IssuesWrite"
| "operationCapability (GhIssueCreate _) = Inr IssuesWrite"
| "operationCapability (GhIssueEdit _) = Inr IssuesWrite"
| "operationCapability (GhIssueComment _) = Inr IssuesWrite"
| "operationCapability (GhIssueClose _) = Inr IssuesWrite"
| "operationCapability (GhIssueReopen _) = Inr IssuesWrite"
| "operationCapability (GhPullList _) = Inr PullRequestsRead"
| "operationCapability (GhPullView _) = Inr PullRequestsRead"
| "operationCapability (GhPullCreate _) = Inr PullRequestsWrite"
| "operationCapability (GhPullEdit _) = Inr PullRequestsWrite"
| "operationCapability (GhPullComment _) = Inr PullRequestsWrite"
| "operationCapability (GhPullClose _) = Inr PullRequestsWrite"
| "operationCapability (GhPullReopen _) = Inr PullRequestsWrite"
| "operationCapability (GhPullReady _) = Inr PullRequestsWrite"
| "operationCapability (GhPullChecks _) = Inr StatusesRead"
| "operationCapability (GhStatusView _) = Inr StatusesRead"
| "operationCapability (GhRunList _) = Inr ActionsRead"
| "operationCapability (GhRunView _) = Inr ActionsRead"
| "operationCapability GhNone = fail GitHubErrInvalidRequest"

definition github_Capability :: "github_request option \<Rightarrow> capability result" where
  "github_Capability request =
     (case request of None \<Rightarrow> fail GitHubErrInvalidRequest | Some r \<Rightarrow> operationCapability (ghOperation r))"

fun operationName :: "github_operation \<Rightarrow> string result" where
  "operationName (GhCurrentUser _) = Inr ''github.current_user''"
| "operationName (GhRepositoryView _) = Inr ''github.repository_view''"
| "operationName (GhLabelList _) = Inr ''github.label_list''"
| "operationName (GhIssueList _) = Inr ''github.issue_list''"
| "operationName (GhIssueView _) = Inr ''github.issue_view''"
| "operationName (GhIssueCreate _) = Inr ''github.issue_create''"
| "operationName (GhIssueEdit _) = Inr ''github.issue_edit''"
| "operationName (GhIssueComment _) = Inr ''github.issue_comment''"
| "operationName (GhIssueClose _) = Inr ''github.issue_close''"
| "operationName (GhIssueReopen _) = Inr ''github.issue_reopen''"
| "operationName (GhLabelCreate _) = Inr ''github.label_create''"
| "operationName (GhIssueLabelChange _) = Inr ''github.issue_label_change''"
| "operationName (GhPullList _) = Inr ''github.pull_list''"
| "operationName (GhPullView _) = Inr ''github.pull_view''"
| "operationName (GhPullCreate _) = Inr ''github.pull_create''"
| "operationName (GhPullEdit _) = Inr ''github.pull_edit''"
| "operationName (GhPullComment _) = Inr ''github.pull_comment''"
| "operationName (GhPullClose _) = Inr ''github.pull_close''"
| "operationName (GhPullReopen _) = Inr ''github.pull_reopen''"
| "operationName (GhPullReady _) = Inr ''github.pull_ready''"
| "operationName (GhPullChecks _) = Inr ''github.pull_checks''"
| "operationName (GhRunList _) = Inr ''github.run_list''"
| "operationName (GhRunView _) = Inr ''github.run_view''"
| "operationName (GhStatusView _) = Inr ''github.status_view''"
| "operationName GhNone = fail GitHubErrInvalidRequest"

definition github_OperationName :: "github_request option \<Rightarrow> string result" where
  "github_OperationName request =
     (case request of None \<Rightarrow> fail GitHubErrInvalidRequest | Some r \<Rightarrow> operationName (ghOperation r))"

end
