(* ===== verification/Server_Chain.thy ===== *)
theory Server_Chain
  imports Server_Limits Auth Rpcstatus Policy GitHub_Request Gitea_Request
begin

text \<open>
  Package \<^verbatim>\<open>internal/server\<close>, one request on its way through the server: the interceptors in their order
  (\<^verbatim>\<open>interceptor.go\<close>, \<^verbatim>\<open>concurrency.go\<close>, \<^verbatim>\<open>audit.go\<close>), the lifecycle of a provider request
  (\<^verbatim>\<open>provider_lifecycle.go\<close>, \<^verbatim>\<open>provider_context.go\<close>) and the two provider services (\<^verbatim>\<open>github.go\<close>,
  \<^verbatim>\<open>gitea.go\<close>). A stream interceptor does the same around a stream and is not modelled twice.

  The state is a world that the executors change, the log of audit records and of executor calls,
  and the metadata that \<^verbatim>\<open>withProviderMetadata\<close> puts into the context. What the shared state of the
  server answers (the global slot, \<^verbatim>\<open>admit\<close>, the slot of the principal) is a field of the surroundings.
\<close>

record provider_metadata =
  pmOperation :: string
  pmProvider :: string
  pmRepository :: string
  pmInputBytes :: int
  pmOutputBytes :: int
  pmTransitioned :: "bool option"
  pmCompleted :: bool

datatype srv_action = Recorded event | Executed resolved string

record 'w chain =
  chWorld :: 'w
  chLog :: "srv_action list"
  chMeta :: "provider_metadata option"

record 'd srv_env =
  sha256 :: "string \<Rightarrow> 'd"
  tokens :: "'d index option"
  entropy :: "string option"
  globalFree :: bool
  admits :: bool
  perFree :: "string \<Rightarrow> bool"
  grpc :: grpc_lib
  codeName :: "grpc_code \<Rightarrow> string"
  auditSink :: "event \<Rightarrow> go_error option"

type_synonym ('w, 'r) handler = "rpc_context \<Rightarrow> 'w chain \<Rightarrow> 'r result \<times> 'w chain"


section \<open>The audit interceptor\<close>

text \<open>\<^verbatim>\<open>status.Code\<close> of what \<^verbatim>\<open>rpcstatus.Error\<close> returns.\<close>

fun statusCode :: "go_error option \<Rightarrow> grpc_code" where
  "statusCode None = OK"
| "statusCode (Some (StatusError s)) = Code s"
| "statusCode (Some (TrustedStatus s _)) = Code s"
| "statusCode (Some _) = OtherCode 2"

definition auditOutcome :: "grpc_lib \<Rightarrow> go_error option \<Rightarrow> outcome" where
  "auditOutcome g err =
     (if err \<noteq> None \<and> errors_Is (the err) ErrWriteOutcomeUnknown then Unknown
      else if err \<noteq> None \<and> errors_Is (the err) ErrEditPartial then Partial
      else case statusCode (rpc_Error g err) of
             OK \<Rightarrow> OutcomeCompleted
           | PermissionDenied \<Rightarrow> Denied
           | Canceled \<Rightarrow> Cancelled
           | DeadlineExceeded \<Rightarrow> Cancelled
           | _ \<Rightarrow> Failed)"

definition writeRecord :: "('d, 'x) srv_env_scheme \<Rightarrow> event \<Rightarrow> 'w chain \<Rightarrow> go_error option \<times> 'w chain" where
  "writeRecord env ev st =
     (case auditSink env ev of
        Some e \<Rightarrow> (Some e, st)
      | None \<Rightarrow> (None, st\<lparr>chLog := chLog st @ [Recorded ev]\<rparr>))"

definition terminalEvent ::
  "('d, 'x) srv_env_scheme \<Rightarrow> rpc_context \<Rightarrow> string \<Rightarrow> go_error option \<Rightarrow> provider_metadata option \<Rightarrow> event" where
  "terminalEvent env ctx operation err md =
     (let ev = zeroEvent\<lparr>evRequestID := (case ctxRequestID ctx of None \<Rightarrow> [] | Some i \<Rightarrow> i),
                 evPrincipal := (case ctxPrincipal ctx of None \<Rightarrow> [] | Some p \<Rightarrow> p), Operation := operation,
                 Outcome := auditOutcome (grpc env) err,
                 evReason := codeName env (statusCode (rpc_Error (grpc env) err))\<rparr> in
      case md of
        None \<Rightarrow> ev
      | Some m \<Rightarrow> ev\<lparr>Outcome := (if pmCompleted m then OutcomeCompleted else Outcome ev),
          Operation := pmOperation m, evProvider := pmProvider m, evRepository := pmRepository m,
          InputBytes := pmInputBytes m, OutputBytes := pmOutputBytes m, Transitioned := pmTransitioned m\<rparr>)"

definition writeTerminal ::
  "('d, 'x) srv_env_scheme \<Rightarrow> rpc_context \<Rightarrow> string \<Rightarrow> go_error option \<Rightarrow> 'w chain \<Rightarrow> go_error option \<times> 'w chain" where
  "writeTerminal env ctx operation err st = writeRecord env (terminalEvent env ctx operation err (chMeta st)) st"

definition auditUnavailable :: go_error where
  "auditUnavailable = statusError Unavailable ''audit unavailable''"

definition errOf :: "'r result \<Rightarrow> go_error option" where
  "errOf r = (case r of Inl e \<Rightarrow> Some e | Inr _ \<Rightarrow> None)"

definition auditUnary ::
  "('d, 'x) srv_env_scheme \<Rightarrow> int \<Rightarrow> ('r \<Rightarrow> int) \<Rightarrow> string \<Rightarrow> ('w, 'r) handler \<Rightarrow> ('w, 'r) handler" where
  "auditUnary env inputBytes sizeOf method handler ctx st =
     (let md = \<lparr>pmOperation = method, pmProvider = [], pmRepository = [], pmInputBytes = inputBytes,
                pmOutputBytes = 0, pmTransitioned = None, pmCompleted = False\<rparr> in
      case handler ctx (st\<lparr>chMeta := Some md\<rparr>) of (r, st1) \<Rightarrow>
        let st2 = (case r of
              Inr v \<Rightarrow> st1\<lparr>chMeta := map_option (pmOutputBytes_update (\<lambda>_. sizeOf v)) (chMeta st1)\<rparr>
            | Inl _ \<Rightarrow> st1) in
        case writeTerminal env ctx method (errOf r) st2 of (werr, st3) \<Rightarrow>
          (if werr \<noteq> None then Inl auditUnavailable else r, st3))"

text \<open>A call that is rejected before it reaches the interceptor above.\<close>

definition auditRejection ::
  "('d, 'x) srv_env_scheme \<Rightarrow> rpc_context \<Rightarrow> string \<Rightarrow> go_error \<Rightarrow> 'w chain \<Rightarrow> 'r result \<times> 'w chain" where
  "auditRejection env ctx operation err st =
     (if ctxPrincipal ctx = None then (Inl (the (rpc_Error (grpc env) (Some err))), st)
      else case writeTerminal env ctx operation (Some err) st of (werr, st') \<Rightarrow>
        (if werr \<noteq> None then Inl auditUnavailable else Inl (the (rpc_Error (grpc env) (Some err))), st'))"


section \<open>The other interceptors\<close>

definition globalConcurrencyUnary :: "('d, 'x) srv_env_scheme \<Rightarrow> ('w, 'r) handler \<Rightarrow> ('w, 'r) handler" where
  "globalConcurrencyUnary env handler ctx st =
     (if \<not> globalFree env then (Inl (the (rpc_Error (grpc env) (Some (Sentinel ErrResourceExhausted)))), st)
      else handler ctx st)"

definition authUnary :: "('d, 'x) srv_env_scheme \<Rightarrow> string \<Rightarrow> ('w, 'r) handler \<Rightarrow> ('w, 'r) handler" where
  "authUnary env method handler ctx st =
     (case ServerInterceptor (sha256 env) (tokens env) (entropy env) (\<lambda>c. Inr (handler c st)) method ctx of
        Inl e \<Rightarrow> (Inl e, st)
      | Inr p \<Rightarrow> p)"

definition statusUnary :: "('d, 'x) srv_env_scheme \<Rightarrow> ('w, 'r) handler \<Rightarrow> ('w, 'r) handler" where
  "statusUnary env handler ctx st =
     (case handler ctx st of (r, st') \<Rightarrow>
        (case r of Inl e \<Rightarrow> Inl (the (rpc_Error (grpc env) (Some e))) | Inr v \<Rightarrow> Inr v, st'))"

definition admissionUnary :: "('d, 'x) srv_env_scheme \<Rightarrow> string \<Rightarrow> ('w, 'r) handler \<Rightarrow> ('w, 'r) handler" where
  "admissionUnary env method handler ctx st =
     (if \<not> admits env then auditRejection env ctx method (Sentinel ErrServiceUnavailable) st else handler ctx st)"

definition concurrencyUnary :: "('d, 'x) srv_env_scheme \<Rightarrow> string \<Rightarrow> ('w, 'r) handler \<Rightarrow> ('w, 'r) handler" where
  "concurrencyUnary env method handler ctx st =
     (if isHealthMethod method then handler ctx st
      else case ctxPrincipal ctx of
        None \<Rightarrow> (Inl (the (rpc_Error (grpc env) (Some (Sentinel ErrResourceExhausted)))), st)
      | Some p \<Rightarrow>
          if \<not> perFree env p then auditRejection env ctx method (Sentinel ErrResourceExhausted) st
          else handler ctx st)"

definition deadlineUnary :: "('d, 'x) srv_env_scheme \<Rightarrow> ('w, 'r) handler \<Rightarrow> ('w, 'r) handler" where
  "deadlineUnary env handler ctx st =
     (case handler ctx st of (r, st') \<Rightarrow>
        (case r of
           Inl e \<Rightarrow> Inl (if errors_Is e ContextCanceled \<or> errors_Is e ContextDeadlineExceeded
                         then the (rpc_Error (grpc env) (Some e)) else e)
         | Inr v \<Rightarrow> Inr v, st'))"

text \<open>\<^verbatim>\<open>unaryInterceptors\<close>, the outermost first.\<close>

definition serveUnary ::
  "('d, 'x) srv_env_scheme \<Rightarrow> int \<Rightarrow> ('r \<Rightarrow> int) \<Rightarrow> string \<Rightarrow> ('w, 'r) handler \<Rightarrow> ('w, 'r) handler" where
  "serveUnary env inputBytes sizeOf method handler =
     globalConcurrencyUnary env (authUnary env method (statusUnary env (admissionUnary env method
       (concurrencyUnary env method (deadlineUnary env (auditUnary env inputBytes sizeOf method handler))))))"


section \<open>The lifecycle of a provider request\<close>

definition acceptedEvent :: "rpc_context \<Rightarrow> string \<Rightarrow> provider_kind \<Rightarrow> resolved \<Rightarrow> string \<Rightarrow> event" where
  "acceptedEvent ctx who kind repo operation =
     zeroEvent\<lparr>evRequestID := (case ctxRequestID ctx of None \<Rightarrow> [] | Some i \<Rightarrow> i), evPrincipal := who, evProvider := kind,
       evRepository := ID repo, Operation := operation, Outcome := Accepted\<rparr>"

definition lifecycle_Resolve ::
  "('d, 'x) srv_env_scheme \<Rightarrow> snapshot \<Rightarrow> selector \<Rightarrow> capability \<Rightarrow> provider_kind \<Rightarrow> string \<Rightarrow> ('w, resolved) handler" where
  "lifecycle_Resolve env sn sel cap kind operation ctx st =
     (case ctxPrincipal ctx of
        None \<Rightarrow> (fail ErrUnauthenticated, st)
      | Some who \<Rightarrow>
          let st1 = st\<lparr>chMeta := map_option (pmOperation_update (\<lambda>_. operation)) (chMeta st)\<rparr> in
          case Resolve sn who sel cap of
            Inl _ \<Rightarrow> (fail ErrDenied, st1)
          | Inr repo \<Rightarrow>
              if Kind (resProvider repo) \<noteq> kind then (fail ErrDenied, st1)
              else
                let st2 = st1\<lparr>chMeta := map_option (\<lambda>m. m\<lparr>pmProvider := kind, pmRepository := ID repo\<rparr>) (chMeta st1)\<rparr> in
                case writeRecord env (acceptedEvent ctx who kind repo operation) st2 of (werr, st3) \<Rightarrow>
                  (if werr \<noteq> None then fail ErrServiceUnavailable else Inr repo, st3))"

definition responseLimitBytes :: int where "responseLimitBytes = 8 * 1048576"

text \<open>\<^verbatim>\<open>Complete\<close>: a response with its request identifier. \<open>sizeOf\<close> is \<^verbatim>\<open>proto.Size\<close> of it.\<close>

definition lifecycle_Complete ::
  "(string \<times> 'r \<Rightarrow> int) \<Rightarrow> rpc_context \<Rightarrow> 'r option \<Rightarrow> (string \<times> 'r) result" where
  "lifecycle_Complete sizeOf ctx response =
     (case response of
        None \<Rightarrow> fail ErrRepositoryUnavailable
      | Some v \<Rightarrow>
          let full = (case ctxRequestID ctx of None \<Rightarrow> [] | Some i \<Rightarrow> i, v) in
          if sizeOf full > responseLimitBytes then fail ErrOutputLimit else Inr full)"


section \<open>The provider services\<close>

definition githubSelector :: "github_request \<Rightarrow> selector result" where
  "githubSelector request =
     (case ghContext request of
        None \<Rightarrow> fail ErrInvalidArgument
      | Some c \<Rightarrow>
          (case ctxRepository c of
             None \<Rightarrow> fail ErrInvalidArgument
           | Some m \<Rightarrow>
               if msgHost m = [] \<or> msgOwner m = [] \<or> msgName m = [] \<or> msgSshPort m \<noteq> 0 \<or> msgSshUser m \<noteq> []
               then fail ErrInvalidArgument
               else Inr \<lparr>selKind = ProviderGitHub, selHost = msgHost m, selSSHPort = 0, selOwner = msgOwner m,
                         selName = msgName m\<rparr>))"

definition giteaSelector :: "gitea_request \<Rightarrow> selector result" where
  "giteaSelector request =
     (case gtContext request of
        None \<Rightarrow> fail ErrInvalidArgument
      | Some c \<Rightarrow>
          (case ctxRepository c of
             None \<Rightarrow> fail ErrInvalidArgument
           | Some m \<Rightarrow>
               if msgHost m \<noteq> [] \<or> msgSshPort m \<noteq> 0 \<or> msgSshUser m \<noteq> []
                 \<or> \<not> ValidRepositoryIdentity ProviderGitea (msgOwner m) (msgName m)
               then fail ErrInvalidArgument
               else Inr \<lparr>selKind = ProviderGitea, selHost = [], selSSHPort = 0, selOwner = msgOwner m,
                         selName = msgName m\<rparr>))"

text \<open>The executors: an adapter changes the world. The one of Gitea also fills the mutation metadata.\<close>

type_synonym ('w, 'r) github_executor = "resolved \<Rightarrow> github_request \<Rightarrow> 'w \<Rightarrow> 'r option result \<times> 'w"
type_synonym ('w, 'r) gitea_executor = "resolved \<Rightarrow> gitea_request \<Rightarrow> 'w \<Rightarrow> ('r option result \<times> bool option) \<times> 'w"

text \<open>What the two services check before they resolve: capability, operation name and selector.\<close>

definition requestFacts ::
  "unit result \<Rightarrow> capability result \<Rightarrow> string result \<Rightarrow> selector result \<Rightarrow> (capability \<times> string \<times> selector) result" where
  "requestFacts valid cap name sel =
     (case (valid, cap, name, sel) of
        (Inr _, Inr c, Inr n, Inr s) \<Rightarrow> Inr (c, n, s)
      | _ \<Rightarrow> fail ErrInvalidArgument)"

definition githubService_Execute ::
  "('d, 'x) srv_env_scheme \<Rightarrow> (string \<times> 'r \<Rightarrow> int) \<Rightarrow> snapshot option \<Rightarrow> ('w, 'r) github_executor option \<Rightarrow> github_request
    \<Rightarrow> ('w, string \<times> 'r) handler" where
  "githubService_Execute env sizeOf sn executor request ctx st =
     (case (sn, executor) of
        (Some sn, Some execute) \<Rightarrow>
          (case requestFacts (ValidateGitHubRequest (Some request)) (github_Capability (Some request))
                  (github_OperationName (Some request)) (githubSelector request) of
             Inl e \<Rightarrow> (Inl e, st)
           | Inr (cap, operation, sel) \<Rightarrow>
               (case lifecycle_Resolve env sn sel cap ProviderGitHub operation ctx st of (r, st1) \<Rightarrow>
                  case r of
                    Inl e \<Rightarrow> (Inl e, st1)
                  | Inr repo \<Rightarrow>
                      (case execute repo request (chWorld st1) of (v, w) \<Rightarrow>
                         let st2 = st1\<lparr>chWorld := w, chLog := chLog st1 @ [Executed repo operation]\<rparr> in
                         (case v of Inl e \<Rightarrow> Inl e | Inr response \<Rightarrow> lifecycle_Complete sizeOf ctx response, st2))))
      | _ \<Rightarrow> (fail ErrServiceUnavailable, st))"

definition giteaService_Execute ::
  "('d, 'x) srv_env_scheme \<Rightarrow> timestamp_lib \<Rightarrow> (string \<times> 'r \<Rightarrow> int) \<Rightarrow> snapshot option \<Rightarrow> ('w, 'r) gitea_executor option
    \<Rightarrow> gitea_request \<Rightarrow> ('w, string \<times> 'r) handler" where
  "giteaService_Execute env lib sizeOf sn executor request ctx st =
     (case (sn, executor) of
        (Some sn, Some execute) \<Rightarrow>
          (case requestFacts (gitea_ValidateRequest lib (Some request)) (gitea_Capability lib (Some request))
                  (gitea_OperationName lib (Some request)) (giteaSelector request) of
             Inl e \<Rightarrow> (Inl e, st)
           | Inr (cap, operation, sel) \<Rightarrow>
               (case lifecycle_Resolve env sn sel cap ProviderGitea operation ctx st of (r, st1) \<Rightarrow>
                  case r of
                    Inl e \<Rightarrow> (Inl e, st1)
                  | Inr repo \<Rightarrow>
                      (case execute repo request (chWorld st1) of ((v, transition), w) \<Rightarrow>
                         let st2 = st1\<lparr>chWorld := w, chLog := chLog st1 @ [Executed repo operation],
                               chMeta := (if transition = None then chMeta st1
                                          else map_option (pmTransitioned_update (\<lambda>_. transition)) (chMeta st1))\<rparr> in
                         case v of
                           Inl e \<Rightarrow> (Inl e, st2)
                         | Inr response \<Rightarrow>
                             (lifecycle_Complete sizeOf ctx response,
                              st2\<lparr>chMeta := (if cap = IssuesWrite
                                  then map_option (pmCompleted_update (\<lambda>_. True)) (chMeta st2) else chMeta st2)\<rparr>))))
      | _ \<Rightarrow> (fail ErrServiceUnavailable, st))"

end
