(* ===== verification/Tea_Correct.thy ===== *)
theory Tea_Correct
  imports Tea_Parse Server_Chain
begin

text \<open>
  What the arguments of the Gitea client amount to: every request the client makes of them is one
  the service accepts, if its time stamps are valid ones, it is marked as a mutation exactly if it needs the capability to write, and
  every request that the service accepts and the syntax can express can be written as arguments.
\<close>

section \<open>Values\<close>

lemma validateMutationText_iff: "isOK (validateMutationText v a b r) \<longleftrightarrow> validMutationText v a b r"
  by (simp add: validateMutationText_def validMutationText_def)

lemma uniqueLoop_iff: "uniqueLoop seen parts = Inr () \<longleftrightarrow> validMutationLoop seen parts"
  by (induction parts arbitrary: seen) (simp_all add: validateMutationText_iff)

lemma parseUniqueCSV_Inr: "parseUniqueCSV v = Inr vs \<longleftrightarrow> vs = split CHR '','' v \<and> validMutationList vs"
  by (auto simp: parseUniqueCSV_def Let_def result_simps validMutationList_def uniqueLoop_iff)

lemma parseEditCSV_Inr:
  "parseEditCSV v allowEmpty = Inr vs \<Longrightarrow> validMutationList vs \<and> (vs = [] \<longrightarrow> allowEmpty)"
  by (auto simp: parseEditCSV_def parseUniqueCSV_Inr validMutationList_def split: if_splits)

lemma validPart_iff: "validPart v \<longleftrightarrow> validGiteaName v"
  by (cases v) (auto simp: validPart_def validGiteaName_def giteaName_def)

lemma giteaIdentity:
  "ValidRepositoryIdentity ProviderGitea owner name \<longleftrightarrow>
     validGiteaName owner \<and> validGiteaName name \<and> \<not> hasSuffix (toLower name) ''.git''"
  by (simp add: ValidRepositoryIdentity_def ProviderGitea_def ProviderGitHub_def)

lemma parseSlug_Some:
  "parseSlug v = Some (owner, name) \<longleftrightarrow> ValidRepositoryIdentity ProviderGitea owner name \<and> v = owner @ ''/'' @ name"
proof
  assume "parseSlug v = Some (owner, name)"
  then have s: "split CHR ''/'' v = [owner, name]" "ValidRepositoryIdentity ProviderGitea owner name"
    by (auto simp: parseSlug_def giteaIdentity validPart_iff split: list.splits if_splits)
  then show "ValidRepositoryIdentity ProviderGitea owner name \<and> v = owner @ ''/'' @ name"
    using join_split [of "CHR ''/''" v] by simp
next
  assume r: "ValidRepositoryIdentity ProviderGitea owner name \<and> v = owner @ ''/'' @ name"
  then have valid: "validPart owner" "validPart name" "\<not> hasSuffix (toLower name) ''.git''"
    by (auto simp: giteaIdentity validPart_iff)
  have "CHR ''/'' \<notin> set p" if "validPart p" for p
    using that by (cases p) (auto simp: validPart_def list_all_iff char_class_defs split: if_splits)
  with valid have "split CHR ''/'' (owner @ CHR ''/'' # name) = [owner, name]"
    by (simp add: split_append split_single)
  with r valid show "parseSlug v = Some (owner, name)"
    by (simp add: parseSlug_def)
qed

lemma teaSlug_Inr: "teaSlug repo = Inr (owner, name) \<longleftrightarrow>
    ValidRepositoryIdentity ProviderGitea owner name \<and> repo = owner @ ''/'' @ name"
  unfolding parseSlug_Some [symmetric] by (auto simp: teaSlug_def split: option.splits)

lemma requiredSlug_Inr: "requiredSlug key seen repo = Inr slug \<longleftrightarrow> key \<in> seen \<and> teaSlug repo = Inr slug"
  by (simp add: requiredSlug_def)

lemma parseNumber_Inr: "parseNumber msg v m = Inr n \<longleftrightarrow> parseInt 64 v = Some n \<and> 0 < n \<and> n \<le> m"
  by (auto simp: parseNumber_def parsePositive_def split: option.splits if_splits sum.splits)

lemma parseState_Inr: "parseState v = Inr n \<Longrightarrow> 1 \<le> n \<and> n \<le> 3"
  by (auto simp: parseState_def split: if_splits)

lemma fieldsLoop_Inr:
  assumes "fieldsLoop byName seen out parts = Inr fs" and "distinct out" and "set out = seen"
  shows "distinct fs \<and> set fs \<subseteq> seen \<union> snd ` set byName \<and> length fs = length out + length parts"
  using assms
proof (induction parts arbitrary: seen out)
  case (Cons part parts)
  then obtain field where f: "map_of byName part = Some field" "field \<notin> seen"
    "fieldsLoop byName (insert field seen) (out @ [field]) parts = Inr fs"
    by (auto split: option.splits if_splits)
  from Cons.IH [OF f(3)] Cons.prems(2,3) f(2)
  have "distinct fs" "set fs \<subseteq> insert field (seen \<union> snd ` set byName)" "length fs = length out + length (part # parts)"
    by auto
  moreover have "field \<in> snd ` set byName" using map_of_SomeD [OF f(1)] by force
  ultimately show ?case by auto
qed simp

lemma fields_range: "snd ` set issueFieldByName \<subseteq> {1..17}" "snd ` set pullFieldByName \<subseteq> {1..18}"
  by (simp_all add: issueFieldByName_def issueFieldDescriptors_def pullFieldByName_def pullFieldDescriptors_def)

lemma parseIssueFields_Inr: "parseIssueFields v = Inr fs \<Longrightarrow> fs \<noteq> [] \<and> distinctFields 17 {} fs"
  using fieldsLoop_Inr [of issueFieldByName "{}" "[]" "split CHR '','' v" fs] fields_range(1)
  by (fastforce simp: parseIssueFields_def distinctFields_iff Let_def)

lemma parsePullFields_Inr: "parsePullFields v = Inr fs \<Longrightarrow> fs \<noteq> [] \<and> distinctFields 18 {} fs"
  using fieldsLoop_Inr [of pullFieldByName "{}" "[]" "split CHR '','' v" fs] fields_range(2)
  by (fastforce simp: parsePullFields_def distinctFields_iff result_simps split: if_splits)

lemma validateFilter_Inr: "validateFilter v = Inr () \<longleftrightarrow> \<not> badFilter (Some v)"
  by (auto simp: validateFilter_def badFilter_def maximumFilterBytes_def)


section \<open>Flags\<close>

text \<open>
  What a switch over flags keeps, the loop establishes. \<open>inv\<close> relates the keys that were seen with the
  request under construction.
\<close>

locale flag_switch =
  fixes aliases :: "string gomap"
    and other :: "string \<Rightarrow> string \<Rightarrow> 'r \<Rightarrow> 'r result"
    and inv :: "string set \<Rightarrow> 'r \<Rightarrow> bool"
  assumes other_inv: "inv seen r \<Longrightarrow> key \<in> snd ` set aliases \<Longrightarrow> key \<notin> {''repo'', ''output''} \<Longrightarrow>
      other key v r = Inr r' \<Longrightarrow> inv (insert key seen) r'"
    and common_inv: "inv seen r \<Longrightarrow> key \<in> {''repo'', ''output''} \<Longrightarrow> inv (insert key seen) r"
begin

lemma step_inv:
  assumes "inv seen (flagReq s)" and "key \<in> snd ` set aliases" and "commonFlag other key v s = Inr s'"
  shows "inv (insert key seen) (flagReq s')"
proof (cases "key \<in> {''repo'', ''output''}")
  case True
  moreover have "flagReq s' = flagReq s"
    using assms(3) True by (cases "key = ''repo''") (auto simp: commonFlag_def result_simps)
  ultimately show ?thesis using common_inv [OF assms(1)] by simp
next
  case False
  then have "other key v (flagReq s) = Inr (flagReq s')"
    using assms(3) by (cases "other key v (flagReq s)") (auto simp: commonFlag_def)
  then show ?thesis using other_inv [OF assms(1,2) False] by simp
qed

lemma loop_inv:
  assumes "flagLoop aliases (commonFlag other) seen s args = Inr (seen', s')" and "inv seen (flagReq s)"
  shows "inv seen' (flagReq s')"
  using assms
proof (induction args arbitrary: seen s rule: induct_list012)
  case (3 a v rest)
  then obtain key s1 where k: "map_of aliases a = Some key" "key \<notin> seen" "\<not> contains a ''=''"
    "commonFlag other key v s = Inr s1" "flagLoop aliases (commonFlag other) (insert key seen) s1 rest = Inr (seen', s')"
    by (auto simp: result_simps split: option.splits if_splits)
  have "key \<in> snd ` set aliases" using map_of_SomeD [OF k(1)] by force
  from step_inv [OF "3.prems"(2) this k(4)] show ?case
    using "3.IH"(1) k(5) by blast
qed simp_all

end

definition listOK :: "string set \<Rightarrow> gt_issue_list \<Rightarrow> bool" where
  "listOK seen r \<longleftrightarrow> 1 \<le> gilState r \<and> gilState r \<le> 3 \<and> 0 < gilPage r \<and> 0 < gilLimit r \<and> gilLimit r \<le> 50
     \<and> gilFields r \<noteq> [] \<and> distinctFields 17 {} (gilFields r)
     \<and> \<not> badFilter (gilKeyword r) \<and> \<not> badFilter (gilAuthor r) \<and> \<not> badFilter (gilAssignee r)
     \<and> \<not> badFilter (gilMentions r) \<and> \<not> badFilter (gilOwner r)"

interpretation issue_list: flag_switch issueListAliases "issueListFlag lib" listOK for lib
  by unfold_locales
    (auto simp: listOK_def issueListFlag_def result_simps parseNumber_Inr validateFilter_Inr
      dest: parseState_Inr parseIssueFields_Inr split: if_splits option.splits)

definition createOK :: "string set \<Rightarrow> gt_issue_create \<Rightarrow> bool" where
  "createOK seen r \<longleftrightarrow> (''title'' \<in> seen \<longrightarrow> validMutationText (gicTitle r) False 0 255)
     \<and> (case gicDescription r of None \<Rightarrow> True | Some d \<Rightarrow> validMutationText d True maximumMutationBodyBytes 0)
     \<and> validMutationList (gicAssignees r) \<and> validMutationList (gicLabels r)"

interpretation issue_create: flag_switch issueCreateAliases issueCreateFlag createOK
  by unfold_locales
    (auto simp: createOK_def issueCreateFlag_def result_simps parseUniqueCSV_Inr validateMutationText_iff
      maximumMutationBodyBytes_def split: if_splits)

definition editOK :: "int \<Rightarrow> string set \<Rightarrow> gt_issue_edit \<times> string list gomap \<Rightarrow> bool" where
  "editOK index seen rl \<longleftrightarrow> gieIndex (fst rl) = index \<and> gieAssigneeAction (fst rl) = None \<and> gieLabelAction (fst rl) = None
     \<and> (case gieTitle (fst rl) of None \<Rightarrow> True | Some v \<Rightarrow> validMutationText v False 0 255)
     \<and> (case gieDescription (fst rl) of None \<Rightarrow> True | Some d \<Rightarrow> validMutationText d True maximumMutationBodyBytes 0)
     \<and> (\<forall>key vs. map_of (snd rl) key = Some vs \<longrightarrow> validMutationList vs \<and> (vs = [] \<longrightarrow> key = ''set-assignees''))"

interpretation issue_edit: flag_switch issueEditAliases issueEditFlag "editOK index" for index
  by unfold_locales
    (auto simp: editOK_def issueEditFlag_def result_simps validateMutationText_iff maximumMutationBodyBytes_def
      dest: parseEditCSV_Inr split: if_splits prod.splits)

definition pullsOK :: "string set \<Rightarrow> gt_pull_list \<Rightarrow> bool" where
  "pullsOK seen r \<longleftrightarrow> 1 \<le> gplState r \<and> gplState r \<le> 3 \<and> 0 < gplPage r \<and> 0 < gplLimit r \<and> gplLimit r \<le> 50
     \<and> gplFields r \<noteq> [] \<and> distinctFields 18 {} (gplFields r)"

interpretation pull_list: flag_switch pullListAliases pullListFlag pullsOK
  by unfold_locales
    (auto simp: pullsOK_def pullListFlag_def result_simps parseNumber_Inr
      dest: parseState_Inr parsePullFields_Inr split: if_splits)


section \<open>Every request is acceptable\<close>

text \<open>The time stamps of a request are ones the protobuf library calls valid.\<close>

definition timesValid :: "timestamp_lib \<Rightarrow> gitea_operation \<Rightarrow> bool" where
  "timesValid lib oper =
     (case oper of
        GtIssueList (Some r) \<Rightarrow> (case gilFrom r of None \<Rightarrow> True | Some x \<Rightarrow> tsIsValid lib x)
          \<and> (case gilUntil r of None \<Rightarrow> True | Some x \<Rightarrow> tsIsValid lib x)
      | _ \<Rightarrow> True)"

definition requestOK :: "timestamp_lib \<Rightarrow> tea_command \<Rightarrow> bool" where
  "requestOK lib cmd \<longleftrightarrow> (\<exists>owner name oper. cmdRequest cmd = requestFor owner name oper
     \<and> ValidRepositoryIdentity ProviderGitea owner name
     \<and> (gt_validateOperation lib oper = Inr () \<longleftrightarrow> timesValid lib oper)
     \<and> (cmdMutation cmd \<longleftrightarrow> gt_operationCapability oper = Inr IssuesWrite))"

lemma command_requestOK:
  assumes "teaSlug repo = Inr slug" and "gt_validateOperation lib oper = Inr () \<longleftrightarrow> timesValid lib oper"
    and "mutation \<longleftrightarrow> gt_operationCapability oper = Inr IssuesWrite"
  shows "requestOK lib (command oper format mutation slug)"
  using assms unfolding requestOK_def
  by (intro exI [of _ "fst slug"] exI [of _ "snd slug"] exI [of _ oper]) (cases slug; simp add: command_def teaSlug_Inr)

lemma requestOK_fields [simp]:
  "requestOK lib (cmd\<lparr>cmdFields := fs\<rparr>) = requestOK lib cmd" "requestOK lib (cmd\<lparr>cmdPullFields := fs\<rparr>) = requestOK lib cmd"
  by (simp_all add: requestOK_def)

lemma writeCapability:
  "gt_operationCapability oper = Inr IssuesWrite \<longleftrightarrow>
     (case oper of GtIssueCreate _ \<Rightarrow> True | GtIssueComment _ \<Rightarrow> True | GtIssueClose _ \<Rightarrow> True | GtIssueReopen _ \<Rightarrow> True
      | GtIssueEdit _ \<Rightarrow> True | _ \<Rightarrow> False)"
  by (cases oper) (simp_all add: capability_defs fail_def)

lemma positive_valid: "0 < n \<Longrightarrow> positive (Some n) = Inr ()"
  by (simp add: positive_def gt_check_def)

lemma parseRepository_ok:
  assumes "parseRepository args = Inr cmd"
  shows "requestOK lib cmd"
proof -
  obtain slug seen explicit format where "parseSlug (args ! 1) = Some slug"
    "cmd = command (GtRepositoryView (Some ())) format False slug"
    using assms by (auto simp: parseRepository_def Let_def result_simps split: if_splits option.splits)
  then show ?thesis
    using command_requestOK [of "args ! 1" slug lib "GtRepositoryView (Some ())" False format]
    by (simp add: teaSlug_def timesValid_def capability_defs)
qed

lemma parseIssueList_ok:
  assumes "parseIssueList lib args = Inr cmd"
  shows "requestOK lib cmd"
proof -
  obtain seen s slug where p: "flagLoop issueListAliases (commonFlag (issueListFlag lib)) {}
         \<lparr>flagRepo = [], flagFormat = OutputTable, flagReq = defaultIssueList\<rparr> args = Inr (seen, s)"
    "teaSlug (flagRepo s) = Inr slug"
    "\<not> (case (gilFrom (flagReq s), gilUntil (flagReq s)) of (Some f, Some u) \<Rightarrow> tsAsTime lib f > tsAsTime lib u | _ \<Rightarrow> False)"
    "cmd = (command (GtIssueList (Some (flagReq s))) (flagFormat s) False slug)\<lparr>cmdFields := gilFields (flagReq s)\<rparr>"
    using assms by (auto simp: parseIssueList_def Let_def result_simps requiredSlug_Inr split: if_splits)
  have "listOK {} defaultIssueList"
    by (simp add: listOK_def defaultIssueList_def defaultIssueFields_def badFilter_def)
  then have "listOK seen (flagReq s)" using issue_list.loop_inv [OF p(1)] by simp
  then have "gt_validateIssueList lib (Some (flagReq s)) = Inr () \<longleftrightarrow> timesValid lib (GtIssueList (Some (flagReq s)))"
    using p(3) by (auto simp: gt_validateIssueList_def listOK_def timesValid_def gt_check_def fail_def split: option.splits)
  then show ?thesis
    using command_requestOK [OF p(2), of lib "GtIssueList (Some (flagReq s))" False "flagFormat s"] p(4)
    by (simp add: capability_defs)
qed

lemma issueViewLoop_index: "issueViewLoop seen s args = Inr (seen', s') \<Longrightarrow> gvIndex (flagReq s') = gvIndex (flagReq s)"
proof (induction seen s args rule: issueViewLoop.induct)
  case (2 seen s flag rest)
  show ?case
  proof (cases rest)
    case Nil
    then show ?thesis using 2 by (auto simp: Let_def split: if_splits)
  next
    case (Cons v rest')
    then show ?thesis using 2 by (auto simp: Let_def result_simps split: if_splits)
  qed
qed simp

lemma pullViewLoop_index: "pullViewLoop seen s args = Inr (seen', s') \<Longrightarrow> gvIndex (flagReq s') = gvIndex (flagReq s)"
proof (induction seen s args rule: pullViewLoop.induct)
  case (2 seen s flag rest)
  show ?case
  proof (cases rest)
    case Nil
    then show ?thesis using 2 by (auto split: if_splits option.splits)
  next
    case (Cons v rest')
    then show ?thesis using 2 by (auto simp: result_simps split: if_splits option.splits)
  qed
qed simp

lemma parseIssueView_ok: "parseIssueView args index = Inr cmd \<Longrightarrow> 0 < index \<Longrightarrow> requestOK lib cmd"
  by (auto simp: parseIssueView_def result_simps requiredSlug_Inr viewFlags_def timesValid_def positive_valid capability_defs
      dest!: issueViewLoop_index intro!: command_requestOK)

lemma parsePullView_ok: "parsePullView args index = Inr cmd \<Longrightarrow> 0 < index \<Longrightarrow> requestOK lib cmd"
  by (auto simp: parsePullView_def result_simps requiredSlug_Inr viewFlags_def timesValid_def positive_valid capability_defs
      dest!: pullViewLoop_index intro!: command_requestOK)

lemma parseIssueCreate_ok:
  assumes "parseIssueCreate args = Inr cmd"
  shows "requestOK lib cmd"
proof -
  obtain seen s slug where p: "flagLoop issueCreateAliases (commonFlag issueCreateFlag) {}
         \<lparr>flagRepo = [], flagFormat = OutputSimple,
          flagReq = \<lparr>gicTitle = [], gicDescription = None, gicAssignees = [], gicLabels = []\<rparr>\<rparr> args = Inr (seen, s)"
    "''title'' \<in> seen" "teaSlug (flagRepo s) = Inr slug"
    "cmd = command (GtIssueCreate (Some (flagReq s))) (flagFormat s) True slug"
    using assms by (auto simp: parseIssueCreate_def result_simps split: if_splits)
  have "createOK {} \<lparr>gicTitle = [], gicDescription = None, gicAssignees = [], gicLabels = []\<rparr>"
    by (simp add: createOK_def validMutationList_def)
  then have "createOK seen (flagReq s)"
    using issue_create.loop_inv [OF p(1)] by simp
  then show ?thesis
    using p(2-4) command_requestOK [OF p(3), of lib "GtIssueCreate (Some (flagReq s))" True "flagFormat s"]
    by (auto simp: createOK_def gt_validateIssueCreate_def gt_check_def timesValid_def)
qed

lemma parseIssueComment_ok:
  assumes "parseIssueComment args = Inr cmd"
  shows "requestOK lib cmd"
proof -
  obtain index body repo slug format where p: "0 < index" "validMutationText body False maximumMutationBodyBytes 0"
    "teaSlug repo = Inr slug" "cmd = command (GtIssueComment (Some \<lparr>gcmIndex = index, gcmBody = body\<rparr>)) format True slug"
    using assms
    by (auto simp: parseIssueComment_def parseIndex_def parseNumber_Inr result_simps Let_def validateMutationText_iff
        maximumMutationBodyBytes_def split: if_splits option.splits)
  show ?thesis
    unfolding p(4) by (rule command_requestOK [OF p(3)]) (use p(1,2) in \<open>simp_all add: gt_check_def timesValid_def\<close>)
qed

lemma parseIssueState_ok: "parseIssueState args reopen = Inr cmd \<Longrightarrow> requestOK lib cmd"
  by (auto simp: parseIssueState_def parseIndex_def parseNumber_Inr result_simps requiredSlug_Inr timesValid_def positive_valid capability_defs
      intro!: command_requestOK split: list.splits)

lemma chooseActions_valid:
  assumes "editOK index seen (req, byKey)" and "0 < index"
    and "\<not> (gieTitle (chooseActions req byKey) = None \<and> gieDescription (chooseActions req byKey) = None
      \<and> gieAssigneeAction (chooseActions req byKey) = None \<and> gieLabelAction (chooseActions req byKey) = None)"
  shows "gt_validateIssueEdit (Some (chooseActions req byKey)) = Inr ()"
proof -
  let ?r = "chooseActions req byKey"
  have vals: "gieIndex ?r = index" "case gieTitle ?r of None \<Rightarrow> True | Some v \<Rightarrow> validMutationText v False 0 255"
    "case gieDescription ?r of None \<Rightarrow> True | Some d \<Rightarrow> validMutationText d True maximumMutationBodyBytes 0"
    using assms(1) by (auto simp: editOK_def chooseActions_def)
  have byKey: "validMutationList vs \<and> (vs = [] \<longrightarrow> key = ''set-assignees'')" if "map_of byKey key = Some vs" for key vs
    using assms(1) that by (simp add: editOK_def)
  have none: "gieAssigneeAction req = None" "gieLabelAction req = None" using assms(1) by (auto simp: editOK_def)
  have assignees: "case gieAssigneeAction ?r of None \<Rightarrow> True
      | Some a \<Rightarrow> (\<exists>vs. fst (actionAssignees a) = Some vs \<and> validMutationList vs \<and> (vs = [] \<longrightarrow> snd (actionAssignees a)))"
    using byKey [of "''set-assignees''"] byKey [of "''add-assignees''"] byKey [of "''remove-assignees''"] none(1)
    by (cases "map_of byKey ''set-assignees''"; cases "map_of byKey ''add-assignees''"; cases "map_of byKey ''remove-assignees''")
      (simp_all add: chooseActions_def)
  have labels: "case gieLabelAction ?r of None \<Rightarrow> True
      | Some a \<Rightarrow> (\<exists>vs. actionLabels a = Some vs \<and> validMutationList vs \<and> vs \<noteq> [])"
    using byKey [of "''add-labels''"] byKey [of "''remove-labels''"] none(2)
    by (cases "map_of byKey ''add-labels''"; cases "map_of byKey ''remove-labels''") (simp_all add: chooseActions_def)
  show ?thesis
    using vals assignees labels assms(2,3) unfolding gt_validateIssueEdit_def
    by (cases "gieTitle ?r"; cases "gieDescription ?r"; cases "gieAssigneeAction ?r"; cases "gieLabelAction ?r"; auto simp: case_prod_beta)
qed

lemma parseIssueEdit_ok:
  assumes "parseIssueEdit args = Inr cmd"
  shows "requestOK lib cmd"
proof -
  obtain a rest where args: "args = a # rest" using assms by (cases args) (auto simp: parseIssueEdit_def)
  obtain index where index: "parseIndex ''invalid issue index'' a = Inr index" "0 < index"
    using assms by (auto simp: args parseIssueEdit_def result_simps parseIndex_def parseNumber_Inr)
  let ?s = "\<lparr>flagRepo = [], flagFormat = OutputSimple, flagReq = (\<lparr>gieIndex = index, gieTitle = None, gieDescription = None,
      gieAssigneeAction = None, gieLabelAction = None\<rparr>, [] :: string list gomap)\<rparr>"
  obtain seen s where loop: "flagLoop issueEditAliases (commonFlag issueEditFlag) {} ?s rest = Inr (seen, s)"
    using assms index(1) by (auto simp: args parseIssueEdit_def bindE_eq_Inr [of "flagLoop _ _ _ _ _"])
  let ?r = "chooseActions (fst (flagReq s)) (snd (flagReq s))"
  let ?empty = "gieTitle ?r = None \<and> gieDescription ?r = None \<and> gieAssigneeAction ?r = None \<and> gieLabelAction ?r = None"
  have "bindE (requiredSlug ''repo'' seen (flagRepo s)) (\<lambda>slug. if ?empty then errorf ''missing mutation''
      else Inr (command (GtIssueEdit (Some ?r)) (flagFormat s) True slug)) = Inr cmd"
    using assms unfolding args parseIssueEdit_def Let_def by (simp only: list.case index(1) bindE_Inr loop prod.case)
  then obtain slug where slug: "teaSlug (flagRepo s) = Inr slug"
    and cmd: "\<not> ?empty" "cmd = command (GtIssueEdit (Some ?r)) (flagFormat s) True slug"
    unfolding bindE_eq_Inr requiredSlug_Inr by (metis errorf_neq_Inr(1) sum.inject(2))
  have "editOK index {} (flagReq ?s)" by (simp add: editOK_def)
  from issue_edit.loop_inv [OF loop this] have "editOK index seen (fst (flagReq s), snd (flagReq s))" by simp
  from chooseActions_valid [OF this index(2) cmd(1)] show ?thesis
    unfolding cmd(2) by (intro command_requestOK [OF slug]) (simp_all add: timesValid_def)
qed

lemma parsePullList_ok:
  assumes "parsePullList args = Inr cmd"
  shows "requestOK lib cmd"
proof -
  obtain seen s slug where p: "flagLoop pullListAliases (commonFlag pullListFlag) {}
         \<lparr>flagRepo = [], flagFormat = OutputTable, flagReq = defaultPullList\<rparr> args = Inr (seen, s)"
    "teaSlug (flagRepo s) = Inr slug"
    "cmd = (command (GtPullList (Some (flagReq s))) (flagFormat s) False slug)\<lparr>cmdPullFields := gplFields (flagReq s)\<rparr>"
    using assms by (auto simp: parsePullList_def result_simps requiredSlug_Inr)
  have "pullsOK {} defaultPullList"
    by (simp add: pullsOK_def defaultPullList_def defaultPullFields_def)
  then have "pullsOK seen (flagReq s)" using pull_list.loop_inv [OF p(1)] by simp
  then show ?thesis
    using command_requestOK [OF p(2), of lib "GtPullList (Some (flagReq s))" False "flagFormat s"] p(3)
    by (simp add: pullsOK_def gt_validatePullList_def gt_check_def timesValid_def capability_defs)
qed

lemma tea_Parse_ok:
  assumes "tea_Parse lib args = Inr cmd"
  shows "requestOK lib cmd"
  using assms
  by (auto simp: tea_Parse_def parseIssues_def parsePulls_def Let_def result_simps parseIndex_def parseNumber_Inr
      intro: parseRepository_ok parseIssueList_ok parseIssueView_ok parseIssueCreate_ok parseIssueComment_ok parseIssueState_ok
        parseIssueEdit_ok parsePullList_ok parsePullView_ok split: if_splits)


lemma tea_Parse_singular:
  assumes "tea_Parse lib args = Inr cmd" and "args ! 0 \<in> {''issue'', ''i''}"
  shows "\<not> cmdMutation cmd"
proof -
  have "parseIssues lib args False = Inr cmd"
    using assms by (auto simp: tea_Parse_def result_simps Let_def)
  then consider index where "parseIssueView args index = Inr cmd" | rest where "parseIssueList lib rest = Inr cmd"
    unfolding parseIssues_def Let_def by (auto simp: bindE_eq_Inr split: if_splits)
  then show ?thesis
    by cases (auto simp: parseIssueView_def parseIssueList_def Let_def result_simps command_def split: if_splits)
qed

text \<open>
  C18. What the client accepts, the service accepts, time stamps apart. A request that the Gitea client makes of its
  arguments names a repository by a valid owner and name in the one form the service takes, passes
  the validation of the service exactly if the time stamps it carries, which only an issue list has,
  are valid ones for protobuf (the client does not check that), and is marked as a mutation
  exactly if the service asks the capability of issue writing for it. The singular aliases of the
  issue command make no mutation.
\<close>

theorem tea_request_accepted:
  assumes "tea_Parse lib args = Inr cmd"
  shows "\<exists>owner name oper. cmdRequest cmd = requestFor owner name oper
    \<and> giteaSelector (cmdRequest cmd) = Inr \<lparr>selKind = ProviderGitea, selHost = [], selSSHPort = 0, selOwner = owner, selName = name\<rparr>
    \<and> (gitea_ValidateRequest lib (Some (cmdRequest cmd)) = Inr () \<longleftrightarrow> timesValid lib oper)
    \<and> (timesValid lib oper \<longrightarrow> (cmdMutation cmd \<longleftrightarrow> gitea_Capability lib (Some (cmdRequest cmd)) = Inr IssuesWrite))
    \<and> (args ! 0 \<in> {''issue'', ''i''} \<longrightarrow> \<not> cmdMutation cmd)"
proof -
  obtain owner name oper where o: "cmdRequest cmd = requestFor owner name oper" "ValidRepositoryIdentity ProviderGitea owner name"
    "gt_validateOperation lib oper = Inr () \<longleftrightarrow> timesValid lib oper"
    "cmdMutation cmd \<longleftrightarrow> gt_operationCapability oper = Inr IssuesWrite"
    using tea_Parse_ok [OF assms] unfolding requestOK_def by blast
  then have "giteaSelector (cmdRequest cmd)
      = Inr \<lparr>selKind = ProviderGitea, selHost = [], selSSHPort = 0, selOwner = owner, selName = name\<rparr>"
    by (simp add: giteaSelector_def requestFor_def)
  moreover have "gitea_ValidateRequest lib (Some (cmdRequest cmd)) = Inr () \<longleftrightarrow> timesValid lib oper"
    using o(1,3) by (simp add: gitea_ValidateRequest_def requestFor_def)
  moreover have "timesValid lib oper \<longrightarrow> (cmdMutation cmd \<longleftrightarrow> gitea_Capability lib (Some (cmdRequest cmd)) = Inr IssuesWrite)"
    using o by (cases "timesValid lib oper") (simp_all add: gitea_Capability_def gitea_ValidateRequest_def requestFor_def)
  moreover have "args ! 0 \<in> {''issue'', ''i''} \<longrightarrow> \<not> cmdMutation cmd"
    using tea_Parse_singular [OF assms] by blast
  ultimately show ?thesis using o(1) by blast
qed



section \<open>Every request can be written\<close>

text \<open>Arguments for a request on the repository \<open>slug\<close>; \<open>stamps\<close> are the two time stamps of a list as they are written.\<close>

definition flagOpt :: "string \<Rightarrow> string option \<Rightarrow> string list" where
  "flagOpt a v = (case v of None \<Rightarrow> [] | Some x \<Rightarrow> [a, x])"

definition csvOpt :: "string \<Rightarrow> string list \<Rightarrow> string list" where
  "csvOpt a vs = (if vs = [] then [] else [a, join CHR '','' vs])"

definition stateArg :: "int \<Rightarrow> string" where
  "stateArg n = (if n = 1 then ''open'' else if n = 2 then ''closed'' else ''all'')"

definition fieldArg :: "(int \<times> string) list \<Rightarrow> int \<Rightarrow> string" where
  "fieldArg descriptors f = (case map_of descriptors f of None \<Rightarrow> [] | Some n \<Rightarrow> n)"

fun assigneeArgs :: "assignee_action option \<Rightarrow> string list" where
  "assigneeArgs (Some (SetAssignees (Some vs))) = [''--set-assignees'', join CHR '','' vs]"
| "assigneeArgs (Some (AddAssignees (Some vs))) = [''--add-assignees'', join CHR '','' vs]"
| "assigneeArgs (Some (RemoveAssignees (Some vs))) = [''--remove-assignees'', join CHR '','' vs]"
| "assigneeArgs _ = []"

fun labelArgs :: "label_action option \<Rightarrow> string list" where
  "labelArgs (Some (GtAddLabels (Some vs))) = [''--add-labels'', join CHR '','' vs]"
| "labelArgs (Some (GtRemoveLabels (Some vs))) = [''--remove-labels'', join CHR '','' vs]"
| "labelArgs _ = []"

fun teaArgs :: "string option \<times> string option \<Rightarrow> string \<Rightarrow> gitea_operation \<Rightarrow> string list" where
  "teaArgs stamps slug (GtRepositoryView _) = [''repos'', slug, ''--repo'', slug]"
| "teaArgs stamps slug (GtIssueList (Some r)) =
     [''issues'', ''--repo'', slug, ''--state'', stateArg (gilState r), ''--page'', itoa (gilPage r), ''--limit'', itoa (gilLimit r),
      ''--fields'', join CHR '','' (map (fieldArg issueFieldDescriptors) (gilFields r))]
     @ flagOpt ''--keyword'' (gilKeyword r) @ flagOpt ''--author'' (gilAuthor r) @ flagOpt ''--assignee'' (gilAssignee r)
     @ flagOpt ''--mentions'' (gilMentions r) @ flagOpt ''--owner'' (gilOwner r)
     @ flagOpt ''--from'' (fst stamps) @ flagOpt ''--until'' (snd stamps)"
| "teaArgs stamps slug (GtIssueView (Some r)) =
     [''issues'', itoa (gvIndex r), ''--repo'', slug] @ (if gvIncludeComments r then [''--comments''] else [])"
| "teaArgs stamps slug (GtIssueCreate (Some r)) =
     [''issues'', ''create'', ''--repo'', slug, ''--title'', gicTitle r] @ flagOpt ''--description'' (gicDescription r)
     @ csvOpt ''--assignees'' (gicAssignees r) @ csvOpt ''--labels'' (gicLabels r)"
| "teaArgs stamps slug (GtIssueComment (Some r)) =
     [''comment'', itoa (gcmIndex r), ''--repo'', slug, ''--description'', gcmBody r]"
| "teaArgs stamps slug (GtIssueClose (Some n)) = [''issues'', ''close'', itoa n, ''--repo'', slug]"
| "teaArgs stamps slug (GtIssueReopen (Some n)) = [''issues'', ''reopen'', itoa n, ''--repo'', slug]"
| "teaArgs stamps slug (GtIssueEdit (Some r)) =
     [''issues'', ''edit'', itoa (gieIndex r), ''--repo'', slug] @ flagOpt ''--title'' (gieTitle r)
     @ flagOpt ''--description'' (gieDescription r) @ assigneeArgs (gieAssigneeAction r) @ labelArgs (gieLabelAction r)"
| "teaArgs stamps slug (GtPullList (Some r)) =
     [''pulls'', ''--repo'', slug, ''--state'', stateArg (gplState r), ''--page'', itoa (gplPage r), ''--limit'', itoa (gplLimit r),
      ''--fields'', join CHR '','' (map (fieldArg pullFieldDescriptors) (gplFields r))]"
| "teaArgs stamps slug (GtPullView (Some r)) =
     [''pulls'', itoa (gvIndex r), ''--repo'', slug] @ (if gvIncludeComments r then [''--comments''] else [])"
| "teaArgs stamps slug _ = []"

text \<open>The time stamp that a written time denotes, \<^term>\<open>None\<close> if it is none.\<close>

definition stampOf :: "timestamp_lib \<Rightarrow> string option \<Rightarrow> timestamp option option" where
  "stampOf lib v = (case v of None \<Rightarrow> Some None | Some x \<Rightarrow> map_option (\<lambda>n. Some (tsNew lib n)) (timeParse x))"

text \<open>
  The time stamps of a list are the written ones. What the syntax of the arguments cannot express: commas in
  names, numbers of more than their width.
\<close>

definition commaFree :: "string list \<Rightarrow> bool" where
  "commaFree vs = list_all (\<lambda>v. CHR '','' \<notin> set v) vs"

fun expressible :: "timestamp_lib \<Rightarrow> string option \<times> string option \<Rightarrow> gitea_operation \<Rightarrow> bool" where
  "expressible lib stamps (GtIssueList (Some r)) = (stampOf lib (fst stamps) = Some (gilFrom r) \<and> stampOf lib (snd stamps) = Some (gilUntil r) \<and> gilPage r < 2 ^ 31)"
| "expressible lib stamps (GtIssueView (Some r)) = (gvIndex r < 2 ^ 63)"
| "expressible lib stamps (GtIssueCreate (Some r)) = (commaFree (gicAssignees r) \<and> commaFree (gicLabels r))"
| "expressible lib stamps (GtIssueComment (Some r)) = (gcmIndex r < 2 ^ 63)"
| "expressible lib stamps (GtIssueClose (Some n)) = (n < 2 ^ 63)"
| "expressible lib stamps (GtIssueReopen (Some n)) = (n < 2 ^ 63)"
| "expressible lib stamps (GtIssueEdit (Some r)) =
     (gieIndex r < 2 ^ 63
      \<and> (case gieAssigneeAction r of None \<Rightarrow> True
         | Some a \<Rightarrow> (case fst (actionAssignees a) of None \<Rightarrow> True | Some vs \<Rightarrow> commaFree vs))
      \<and> (case gieLabelAction r of None \<Rightarrow> True
         | Some a \<Rightarrow> (case actionLabels a of None \<Rightarrow> True | Some vs \<Rightarrow> commaFree vs)))"
| "expressible lib stamps (GtPullList (Some r)) = (gplPage r < 2 ^ 31)"
| "expressible lib stamps (GtPullView (Some r)) = (gvIndex r < 2 ^ 63)"
| "expressible lib stamps _ = True"

lemma parseNumber_itoa: "0 < n \<Longrightarrow> n \<le> m \<Longrightarrow> n < 2 ^ 63 \<Longrightarrow> parseNumber msg (itoa n) m = Inr n"
  by (simp add: parseNumber_Inr parseInt_itoa)

lemma parseState_arg: "1 \<le> n \<Longrightarrow> n \<le> 3 \<Longrightarrow> parseState (stateArg n) = Inr n"
  by (auto simp: parseState_def stateArg_def)

lemma fieldArgs:
  "list_all (\<lambda>f. map_of issueFieldByName (fieldArg issueFieldDescriptors f) = Some f
     \<and> CHR '','' \<notin> set (fieldArg issueFieldDescriptors f)) [1..17]"
  "list_all (\<lambda>f. map_of pullFieldByName (fieldArg pullFieldDescriptors f) = Some f
     \<and> CHR '','' \<notin> set (fieldArg pullFieldDescriptors f)) [1..18]"
  by code_simp+

lemma fieldsLoop_args:
  assumes "distinct fs" and "set fs \<inter> seen = {}" and "\<forall>f \<in> set fs. map_of byName (arg f) = Some f"
  shows "fieldsLoop byName seen out (map arg fs) = Inr (out @ fs)"
  using assms by (induction fs arbitrary: seen out) auto

lemma parseIssueFields_args:
  assumes "fs \<noteq> []" and "distinctFields 17 {} fs"
  shows "parseIssueFields (join CHR '','' (map (fieldArg issueFieldDescriptors) fs)) = Inr fs"
proof -
  have "\<forall>f \<in> set fs. map_of issueFieldByName (fieldArg issueFieldDescriptors f) = Some f
      \<and> CHR '','' \<notin> set (fieldArg issueFieldDescriptors f)" "distinct fs"
    using assms(2) fieldArgs(1) by (auto simp: distinctFields_iff list_all_iff)
  then show ?thesis
    using assms(1) split_join [of "map (fieldArg issueFieldDescriptors) fs"] fieldsLoop_args [of fs "{}" issueFieldByName]
    by (simp add: parseIssueFields_def commaFree_def list_all_iff)
qed

lemma parsePullFields_args:
  assumes "fs \<noteq> []" and "distinctFields 18 {} fs"
  shows "parsePullFields (join CHR '','' (map (fieldArg pullFieldDescriptors) fs)) = Inr fs"
proof -
  have "\<forall>f \<in> set fs. map_of pullFieldByName (fieldArg pullFieldDescriptors f) = Some f
      \<and> CHR '','' \<notin> set (fieldArg pullFieldDescriptors f)" "distinct fs"
    using assms(2) fieldArgs(2) by (auto simp: distinctFields_iff list_all_iff)
  then show ?thesis
    using assms(1) split_join [of "map (fieldArg pullFieldDescriptors) fs"] fieldsLoop_args [of fs "{}" pullFieldByName]
    by (simp add: parsePullFields_def commaFree_def list_all_iff)
qed

lemma parseUniqueCSV_args: "vs \<noteq> [] \<Longrightarrow> validMutationList vs \<Longrightarrow> commaFree vs \<Longrightarrow> parseUniqueCSV (join CHR '','' vs) = Inr vs"
  by (simp add: parseUniqueCSV_Inr split_join commaFree_def list_all_iff)


lemma contains_byte: "contains s [c] \<longleftrightarrow> c \<in> set s"
  by (auto simp: contains_def sublist_def in_set_conv_decomp)

lemmas flag_eval = contains_byte commonFlag_def repoAliases_def requiredSlug_def teaSlug_def

lemma teaSlug_arg: "ValidRepositoryIdentity ProviderGitea owner name \<Longrightarrow> parseSlug (owner @ ''/'' @ name) = Some (owner, name)"
  by (simp add: parseSlug_Some)

text \<open>The optional filters of a list, in the order in which they are written.\<close>

definition setFilter :: "string \<Rightarrow> string option \<Rightarrow> gt_issue_list \<Rightarrow> gt_issue_list" where
  "setFilter key v r =
     (if v = None then r
      else if key = ''keyword'' then r\<lparr>gilKeyword := v\<rparr> else if key = ''author'' then r\<lparr>gilAuthor := v\<rparr>
      else if key = ''assignee'' then r\<lparr>gilAssignee := v\<rparr> else if key = ''mentions'' then r\<lparr>gilMentions := v\<rparr>
      else r\<lparr>gilOwner := v\<rparr>)"

lemma setFilter_fresh:
  "gilKeyword r = None \<Longrightarrow> setFilter ''keyword'' v r = r\<lparr>gilKeyword := v\<rparr>"
  "gilAuthor r = None \<Longrightarrow> setFilter ''author'' v r = r\<lparr>gilAuthor := v\<rparr>"
  "gilAssignee r = None \<Longrightarrow> setFilter ''assignee'' v r = r\<lparr>gilAssignee := v\<rparr>"
  "gilMentions r = None \<Longrightarrow> setFilter ''mentions'' v r = r\<lparr>gilMentions := v\<rparr>"
  "gilOwner r = None \<Longrightarrow> setFilter ''owner'' v r = r\<lparr>gilOwner := v\<rparr>"
  by (cases r; cases v; simp add: setFilter_def)+

definition filterKeys :: "string list" where
  "filterKeys = [''keyword'', ''author'', ''assignee'', ''mentions'', ''owner'']"

lemma filter_flag:
  assumes "key \<in> set filterKeys" and "key \<notin> seen" and "\<not> badFilter (Some x)"
  shows "flagLoop issueListAliases (commonFlag (issueListFlag lib)) seen s ((''--'' @ key) # x # rest)
    = flagLoop issueListAliases (commonFlag (issueListFlag lib)) (insert key seen)
        (s\<lparr>flagReq := setFilter key (Some x) (flagReq s)\<rparr>) rest"
  using assms(2,3) validateFilter_Inr [of x] assms(1)
  unfolding filterKeys_def list.set insert_iff empty_iff
  by (elim disjE) (simp_all add: flag_eval issueListAliases_def issueListFlag_def setFilter_def)

lemma filter_flags:
  assumes "distinct ks" and "set ks \<subseteq> set filterKeys" and "set ks \<inter> seen = {}" and "\<forall>k \<in> set ks. \<not> badFilter (v k)"
  shows "\<exists>seen'. seen \<subseteq> seen' \<and> seen' \<subseteq> seen \<union> set ks
    \<and> flagLoop issueListAliases (commonFlag (issueListFlag lib)) seen s
        (concat (map (\<lambda>k. flagOpt (''--'' @ k) (v k)) ks) @ rest)
      = flagLoop issueListAliases (commonFlag (issueListFlag lib)) seen'
          (s\<lparr>flagReq := fold (\<lambda>k. setFilter k (v k)) ks (flagReq s)\<rparr>) rest"
  using assms
proof (induction ks arbitrary: seen s)
  case (Cons k ks)
  let ?seen = "if v k = None then seen else insert k seen" and ?s = "s\<lparr>flagReq := setFilter k (v k) (flagReq s)\<rparr>"
  have step: "flagLoop issueListAliases (commonFlag (issueListFlag lib)) seen s
        (concat (map (\<lambda>k. flagOpt (''--'' @ k) (v k)) (k # ks)) @ rest)
      = flagLoop issueListAliases (commonFlag (issueListFlag lib)) ?seen ?s
          (concat (map (\<lambda>k. flagOpt (''--'' @ k) (v k)) ks) @ rest)"
  proof (cases "v k")
    case None
    then show ?thesis by (simp add: flagOpt_def setFilter_def)
  next
    case (Some x)
    then show ?thesis
      using filter_flag [of k seen x lib s] Cons.prems by (simp add: flagOpt_def)
  qed
  have disjoint: "set ks \<inter> ?seen = {}"
    using Cons.prems by auto
  obtain seen' where "?seen \<subseteq> seen'" "seen' \<subseteq> ?seen \<union> set ks"
    "flagLoop issueListAliases (commonFlag (issueListFlag lib)) ?seen ?s
        (concat (map (\<lambda>k. flagOpt (''--'' @ k) (v k)) ks) @ rest)
      = flagLoop issueListAliases (commonFlag (issueListFlag lib)) seen'
          (?s\<lparr>flagReq := fold (\<lambda>k. setFilter k (v k)) ks (flagReq ?s)\<rparr>) rest"
    using Cons.IH [of ?seen ?s] Cons.prems disjoint by auto
  with step show ?case
    by (intro exI [of _ seen']) (auto split: if_splits)
qed auto

lemma time_flags:
  assumes "''from'' \<notin> seen" and "''until'' \<notin> seen" and "gilFrom (flagReq s) = None" and "gilUntil (flagReq s) = None"
    and "stampOf lib f = Some a" and "stampOf lib u = Some b"
  shows "\<exists>seen'. seen \<subseteq> seen'
    \<and> flagLoop issueListAliases (commonFlag (issueListFlag lib)) seen s (flagOpt ''--from'' f @ flagOpt ''--until'' u)
      = Inr (seen', s\<lparr>flagReq := (flagReq s)\<lparr>gilFrom := a, gilUntil := b\<rparr>\<rparr>)"
  using assms
  by (cases s; cases "flagReq s"; cases f; cases u)
    (auto simp: stampOf_def flagOpt_def flag_eval issueListAliases_def issueListFlag_def)

lemma parseIssueList_args:
  assumes "gt_validateIssueList lib (Some r) = Inr ()" and "expressible lib stamps (GtIssueList (Some r))" and "parseSlug slug = Some on"
  shows "\<exists>cmd. parseIssueList lib (tl (teaArgs stamps slug (GtIssueList (Some r)))) = Inr cmd
    \<and> cmdRequest cmd = requestFor (fst on) (snd on) (GtIssueList (Some r))"
proof -
  have v: "1 \<le> gilState r" "gilState r \<le> 3" "0 < gilPage r" "0 < gilLimit r" "gilLimit r \<le> 50" "gilFields r \<noteq> []"
    "distinctFields 17 {} (gilFields r)" "\<not> badFilter (gilKeyword r)" "\<not> badFilter (gilAuthor r)"
    "\<not> badFilter (gilAssignee r)" "\<not> badFilter (gilMentions r)" "\<not> badFilter (gilOwner r)"
    and range: "\<not> (case (gilFrom r, gilUntil r) of (Some f, Some u) \<Rightarrow> tsAsTime lib f > tsAsTime lib u | _ \<Rightarrow> False)"
    using assms(1) by (auto simp: gt_validateIssueList_def gt_check_def split: if_splits option.splits)
  have w: "stampOf lib (fst stamps) = Some (gilFrom r)" "stampOf lib (snd stamps) = Some (gilUntil r)"
    "gilPage r \<le> 2147483647" "gilPage r < 2 ^ 63" "gilLimit r < 2 ^ 63"
    using assms(2) v(5) by auto
  let ?s = "\<lparr>flagRepo = slug, flagFormat = OutputTable, flagReq = defaultIssueList\<lparr>gilState := gilState r, gilPage := gilPage r,
      gilLimit := gilLimit r, gilFields := gilFields r\<rparr>\<rparr>"
  let ?seen = "{''repo'', ''state'', ''page'', ''limit'', ''fields''}"
  let ?times = "flagOpt ''--from'' (fst stamps) @ flagOpt ''--until'' (snd stamps)"
  let ?opts = "flagOpt ''--keyword'' (gilKeyword r) @ flagOpt ''--author'' (gilAuthor r) @ flagOpt ''--assignee'' (gilAssignee r)
     @ flagOpt ''--mentions'' (gilMentions r) @ flagOpt ''--owner'' (gilOwner r)"
  have start: "flagLoop issueListAliases (commonFlag (issueListFlag lib)) {}
      \<lparr>flagRepo = [], flagFormat = OutputTable, flagReq = defaultIssueList\<rparr> (tl (teaArgs stamps slug (GtIssueList (Some r))))
    = flagLoop issueListAliases (commonFlag (issueListFlag lib)) ?seen ?s (?opts @ ?times)"
    using v w
    by (simp add: flag_eval issueListAliases_def issueListFlag_def parseState_arg parseNumber_itoa parseIssueFields_args insert_commute)
  have "\<exists>seen s. flagLoop issueListAliases (commonFlag (issueListFlag lib)) ?seen ?s (?opts @ ?times) = Inr (seen, s)
      \<and> ''repo'' \<in> seen \<and> flagRepo s = slug \<and> flagReq s = r"
  proof -
    let ?v = "\<lambda>k. if k = ''keyword'' then gilKeyword r else if k = ''author'' then gilAuthor r else if k = ''assignee'' then gilAssignee r
        else if k = ''mentions'' then gilMentions r else gilOwner r"
    let ?r = "r\<lparr>gilFrom := None, gilUntil := None\<rparr>"
    have opts: "?opts = concat (map (\<lambda>k. flagOpt (''--'' @ k) (?v k)) filterKeys)"
      by (simp add: filterKeys_def)
    have fold: "fold (\<lambda>k. setFilter k (?v k)) filterKeys (flagReq ?s) = ?r"
      by (cases r) (simp add: filterKeys_def setFilter_fresh defaultIssueList_def)
    have "distinct filterKeys" "set filterKeys \<inter> ?seen = {}" "\<forall>k \<in> set filterKeys. \<not> badFilter (?v k)"
      using v(8-12) by (simp_all add: filterKeys_def)
    then obtain seen' where seen': "?seen \<subseteq> seen'" "seen' \<subseteq> ?seen \<union> set filterKeys"
      "flagLoop issueListAliases (commonFlag (issueListFlag lib)) ?seen ?s (?opts @ ?times)
         = flagLoop issueListAliases (commonFlag (issueListFlag lib)) seen' (?s\<lparr>flagReq := ?r\<rparr>) ?times"
      using filter_flags [of filterKeys ?seen ?v lib ?s ?times] unfolding opts fold by auto
    have "''from'' \<notin> seen'" "''until'' \<notin> seen'"
      using seen'(2) by (auto simp: filterKeys_def)
    then obtain seen where "seen' \<subseteq> seen" "flagLoop issueListAliases (commonFlag (issueListFlag lib)) seen' (?s\<lparr>flagReq := ?r\<rparr>) ?times
        = Inr (seen, ?s\<lparr>flagReq := ?r\<lparr>gilFrom := gilFrom r, gilUntil := gilUntil r\<rparr>\<rparr>)"
      using time_flags [OF _ _ _ _ w(1,2), of seen' "?s\<lparr>flagReq := ?r\<rparr>"] by auto
    with seen' show ?thesis by auto
  qed
  then obtain seen s where "flagLoop issueListAliases (commonFlag (issueListFlag lib)) ?seen ?s (?opts @ ?times) = Inr (seen, s)"
    "''repo'' \<in> seen" "flagRepo s = slug" "flagReq s = r"
    by blast
  then show ?thesis
    using assms(3) range unfolding parseIssueList_def start
    by (simp add: requiredSlug_def teaSlug_def command_def)
qed


lemma parsePullList_args:
  assumes "gt_validatePullList (Some r) = Inr ()" and "expressible lib stamps (GtPullList (Some r))" and "parseSlug slug = Some on"
  shows "\<exists>cmd. parsePullList (tl (teaArgs stamps slug (GtPullList (Some r)))) = Inr cmd
    \<and> cmdRequest cmd = requestFor (fst on) (snd on) (GtPullList (Some r))"
proof -
  have v: "1 \<le> gplState r" "gplState r \<le> 3" "0 < gplPage r" "0 < gplLimit r" "gplLimit r \<le> 50" "gplFields r \<noteq> []"
    "distinctFields 18 {} (gplFields r)"
    using assms(1) by (auto simp: gt_validatePullList_def gt_check_def split: if_splits)
  have w: "gplPage r \<le> 2147483647" "gplPage r < 2 ^ 63" "gplLimit r < 2 ^ 63"
    using assms(2) v(5) by auto
  show ?thesis
    using v w assms(3)
    by (cases r) (simp add: parsePullList_def flag_eval pullListAliases_def pullListFlag_def parseState_arg parseNumber_itoa
        parsePullFields_args defaultPullList_def command_def)
qed

lemma parseIssueCreate_args:
  assumes "gt_validateIssueCreate (Some r) = Inr ()" and "expressible lib stamps (GtIssueCreate (Some r))" and "parseSlug slug = Some on"
  shows "\<exists>cmd. parseIssueCreate (drop 2 (teaArgs stamps slug (GtIssueCreate (Some r)))) = Inr cmd
    \<and> cmdRequest cmd = requestFor (fst on) (snd on) (GtIssueCreate (Some r))"
proof -
  have v: "isOK (validateMutationText (gicTitle r) False 0 255)" "validMutationList (gicAssignees r)" "validMutationList (gicLabels r)"
    "\<And>d. gicDescription r = Some d \<Longrightarrow> isOK (validateMutationText d True 65536 0)"
    using assms(1)
    by (auto simp: gt_validateIssueCreate_def gt_check_def validateMutationText_iff maximumMutationBodyBytes_def split: if_splits)
  obtain title d as ls where r: "r = \<lparr>gicTitle = title, gicDescription = d, gicAssignees = as, gicLabels = ls\<rparr>" by (cases r)
  show ?thesis
    using v assms(2,3) parseUniqueCSV_args [of as] parseUniqueCSV_args [of ls] unfolding r
    by (cases d; cases "as = []"; cases "ls = []")
      (simp_all add: parseIssueCreate_def flag_eval issueCreateAliases_def issueCreateFlag_def flagOpt_def csvOpt_def command_def)
qed

definition csvArg :: "string list \<Rightarrow> bool \<Rightarrow> bool" where
  "csvArg vs allowEmpty \<longleftrightarrow> parseEditCSV (join CHR '','' vs) allowEmpty = Inr vs"

lemma csvArgI:
  assumes "validMutationList vs" and "commaFree vs" and "vs = [] \<Longrightarrow> allowEmpty"
  shows "csvArg vs allowEmpty"
proof (cases "vs = []")
  case False
  then have "join CHR '','' vs \<noteq> []"
    using assms(1) by (cases vs; cases "tl vs") (auto simp: validMutationList_iff validMutationText_def)
  then show ?thesis
    using False assms(1,2) by (simp add: csvArg_def parseEditCSV_def parseUniqueCSV_args)
qed (use assms(3) in \<open>simp add: csvArg_def parseEditCSV_def\<close>)

lemma edit_lists:
  assumes seen: "seen \<subseteq> {''repo'', ''title'', ''description''}"
    and req: "gieAssigneeAction req = None" "gieLabelAction req = None"
    and as: "\<And>x. a = Some x \<Longrightarrow> \<exists>vs. fst (actionAssignees x) = Some vs \<and> csvArg vs (snd (actionAssignees x))"
    and ls: "\<And>x. l = Some x \<Longrightarrow> \<exists>vs. actionLabels x = Some vs \<and> csvArg vs False"
  shows "\<exists>seen' byKey. seen \<subseteq> seen' \<and> flagLoop issueEditAliases (commonFlag issueEditFlag) seen
      \<lparr>flagRepo = slug, flagFormat = format, flagReq = (req, [])\<rparr> (assigneeArgs a @ labelArgs l)
        = Inr (seen', \<lparr>flagRepo = slug, flagFormat = format, flagReq = (req, byKey)\<rparr>)
    \<and> chooseActions req byKey = req\<lparr>gieAssigneeAction := a, gieLabelAction := l\<rparr>"
proof -
  have keys: "k \<notin> seen" if "k \<in> {''set-assignees'', ''add-assignees'', ''remove-assignees'', ''add-labels'', ''remove-labels''}" for k
    using seen that by auto
  obtain i t d where r: "req = \<lparr>gieIndex = i, gieTitle = t, gieDescription = d, gieAssigneeAction = None, gieLabelAction = None\<rparr>"
    using req by (cases req) simp
  consider (none) "a = None" | (set) vs where "a = Some (SetAssignees (Some vs))" "csvArg vs True"
    | (add) vs where "a = Some (AddAssignees (Some vs))" "csvArg vs False"
    | (remove) vs where "a = Some (RemoveAssignees (Some vs))" "csvArg vs False"
    using as by (cases a; cases "the a") fastforce+
  note as_cases = this
  consider (none) "l = None" | (add) vs where "l = Some (GtAddLabels (Some vs))" "csvArg vs False"
    | (remove) vs where "l = Some (GtRemoveLabels (Some vs))" "csvArg vs False"
    using ls by (cases l; cases "the l") fastforce+
  note ls_cases = this
  note eval = flag_eval issueEditAliases_def issueEditFlag_def csvArg_def keys chooseActions_def r
  show ?thesis
    by (rule as_cases; rule ls_cases) (auto simp: eval)
qed

lemma parseIssueEdit_args:
  assumes "gt_validateIssueEdit (Some r) = Inr ()" and "expressible lib stamps (GtIssueEdit (Some r))" and "parseSlug slug = Some on"
  shows "\<exists>cmd. parseIssueEdit (drop 2 (teaArgs stamps slug (GtIssueEdit (Some r)))) = Inr cmd
    \<and> cmdRequest cmd = requestFor (fst on) (snd on) (GtIssueEdit (Some r))"
proof -
  obtain n title d a l where r: "r = \<lparr>gieIndex = n, gieTitle = title, gieDescription = d, gieAssigneeAction = a, gieLabelAction = l\<rparr>"
    by (cases r)
  have v: "0 < n" "n < 2 ^ 63" "\<not> (title = None \<and> d = None \<and> a = None \<and> l = None)"
    "\<And>x. title = Some x \<Longrightarrow> isOK (validateMutationText x False 0 255)"
    "\<And>x. d = Some x \<Longrightarrow> isOK (validateMutationText x True 65536 0)"
    using assms(1,2)
    by (auto simp: r gt_validateIssueEdit_def validateMutationText_iff maximumMutationBodyBytes_def split: if_splits)
  have idx: "parseIndex msg (itoa n) = Inr n" for msg
    using v(1,2) by (simp add: parseIndex_def parseNumber_itoa)
  have as: "\<exists>vs. fst (actionAssignees x) = Some vs \<and> csvArg vs (snd (actionAssignees x))" if "a = Some x" for x
    using assms(1,2) that
    by (cases "actionAssignees x") (auto simp: r gt_validateIssueEdit_def Let_def intro!: csvArgI split: if_splits option.splits)
  have ls: "\<exists>vs. actionLabels x = Some vs \<and> csvArg vs False" if "l = Some x" for x
    using assms(1,2) that
    by (auto simp: r gt_validateIssueEdit_def case_prod_beta Let_def intro!: csvArgI split: if_splits option.splits)
  let ?loop = "flagLoop issueEditAliases (commonFlag issueEditFlag)" and ?rest = "assigneeArgs a @ labelArgs l"
  let ?new = "\<lparr>gieIndex = n, gieTitle = None, gieDescription = None, gieAssigneeAction = None, gieLabelAction = None\<rparr>"
  let ?req = "?new\<lparr>gieTitle := title, gieDescription := d\<rparr>"
  have "\<exists>seen. seen \<subseteq> {''repo'', ''title'', ''description''} \<and> ''repo'' \<in> seen
      \<and> ?loop {} \<lparr>flagRepo = [], flagFormat = OutputSimple, flagReq = (?new, [])\<rparr>
          ([''--repo'', slug] @ flagOpt ''--title'' title @ flagOpt ''--description'' d @ ?rest)
        = ?loop seen \<lparr>flagRepo = slug, flagFormat = OutputSimple, flagReq = (?req, [])\<rparr> ?rest"
    using v(4,5)
    by (intro exI [of _ "(if d = None then {} else {''description''}) \<union> (if title = None then {} else {''title''}) \<union> {''repo''}"])
      (cases title; cases d; simp add: flag_eval issueEditAliases_def issueEditFlag_def flagOpt_def insert_commute)
  then obtain seen where seen: "seen \<subseteq> {''repo'', ''title'', ''description''}" "''repo'' \<in> seen"
    "?loop {} \<lparr>flagRepo = [], flagFormat = OutputSimple, flagReq = (?new, [])\<rparr>
        ([''--repo'', slug] @ flagOpt ''--title'' title @ flagOpt ''--description'' d @ ?rest)
      = ?loop seen \<lparr>flagRepo = slug, flagFormat = OutputSimple, flagReq = (?req, [])\<rparr> ?rest"
    by blast
  obtain seen' byKey where "seen \<subseteq> seen'"
    "?loop seen \<lparr>flagRepo = slug, flagFormat = OutputSimple, flagReq = (?req, [])\<rparr> ?rest
      = Inr (seen', \<lparr>flagRepo = slug, flagFormat = OutputSimple, flagReq = (?req, byKey)\<rparr>)"
    "chooseActions ?req byKey = r"
    using edit_lists [of seen ?req a l slug OutputSimple] seen(1) as ls unfolding r by auto
  moreover have "drop 2 (teaArgs stamps slug (GtIssueEdit (Some r)))
      = itoa n # [''--repo'', slug] @ flagOpt ''--title'' title @ flagOpt ''--description'' d @ ?rest"
    by (simp add: r)
  ultimately show ?thesis
    using seen(2,3) v(3) assms(3)
    by (auto simp: parseIssueEdit_def idx requiredSlug_def teaSlug_def command_def r)
qed

lemma itoa_plain: "0 < n \<Longrightarrow> itoa n \<notin> {''list'', ''ls'', ''create'', ''c'', ''edit'', ''e'', ''close'', ''reopen'', ''open'', ''add'', ''a''}
    \<and> \<not> hasPrefix (itoa n) ''-''"
proof -
  assume "0 < n"
  then obtain c cs where "itoa n = c # cs" "isDigit c" using itoa_digits [of n] by (cases "itoa n") auto
  then show ?thesis by (auto simp: hasPrefix_def isDigit_def)
qed

lemma slug_noDash: "ValidRepositoryIdentity ProviderGitea owner name \<Longrightarrow> \<not> hasPrefix (owner @ s) ''-''"
  by (cases owner) (auto simp: giteaIdentity validGiteaName_def giteaName_def hasPrefix_def char_class_defs)

lemma parseIndex_itoa: "0 < n \<Longrightarrow> n < 2 ^ 63 \<Longrightarrow> parseIndex msg (itoa n) = Inr n"
  by (simp add: parseIndex_def parseNumber_itoa)

definition readsBack :: "timestamp_lib \<Rightarrow> string option \<times> string option \<Rightarrow> string \<Rightarrow> string \<Rightarrow> gitea_operation \<Rightarrow> bool" where
  "readsBack lib stamps owner name oper \<longleftrightarrow>
     (\<exists>cmd. tea_Parse lib (teaArgs stamps (owner @ ''/'' @ name) oper) = Inr cmd \<and> cmdRequest cmd = requestFor owner name oper)"

lemma repository_readsBack:
  assumes "oper = GtRepositoryView (Some ())" and "ValidRepositoryIdentity ProviderGitea owner name"
    and "validateArgv (teaArgs stamps (owner @ ''/'' @ name) oper) = Inr ()"
  shows "readsBack lib stamps owner name oper"
  using slug_noDash [OF assms(2), of "''/'' @ name"] assms teaSlug_arg [OF assms(2)]
  by (simp add: readsBack_def tea_Parse_def parseRepository_def flag_eval command_def)

lemma view_readsBack:
  assumes "oper = GtIssueView (Some r) \<or> oper = GtPullView (Some r)"
    and "gt_validateOperation lib oper = Inr ()" and "ValidRepositoryIdentity ProviderGitea owner name"
    and "expressible lib stamps oper" and "validateArgv (teaArgs stamps (owner @ ''/'' @ name) oper) = Inr ()"
  shows "readsBack lib stamps owner name oper"
proof -
  have "0 < gvIndex r" "gvIndex r < 2 ^ 63"
    using assms(1,2,4) by (auto simp: positive_def gt_check_def split: if_splits)
  then show ?thesis
    using assms(1,5) itoa_plain [of "gvIndex r"] teaSlug_arg [OF assms(3)]
    by (cases r; elim disjE) (simp_all add: readsBack_def tea_Parse_def parseIssues_def parsePulls_def parseIndex_itoa
        parseIssueView_def parsePullView_def viewFlags_def pullViewAliases_def flag_eval command_def)
qed

lemma comment_readsBack:
  assumes "oper = GtIssueComment (Some r)"
    and "gt_validateOperation lib oper = Inr ()" and "ValidRepositoryIdentity ProviderGitea owner name"
    and "expressible lib stamps oper" and "validateArgv (teaArgs stamps (owner @ ''/'' @ name) oper) = Inr ()"
  shows "readsBack lib stamps owner name oper"
proof -
  have "0 < gcmIndex r" "gcmIndex r < 2 ^ 63" "validMutationText (gcmBody r) False 65536 0"
    using assms(1,2,4) by (auto simp: gt_check_def maximumMutationBodyBytes_def split: if_splits)
  then show ?thesis
    using assms(1,5) teaSlug_arg [OF assms(3)]
    by (cases r) (simp add: readsBack_def tea_Parse_def parseIndex_itoa parseIssueComment_def commentAliases_def hasPrefix_def
        validateMutationText_iff flag_eval command_def)
qed

lemma state_readsBack:
  assumes "oper = GtIssueClose (Some n) \<or> oper = GtIssueReopen (Some n)"
    and "gt_validateOperation lib oper = Inr ()" and "ValidRepositoryIdentity ProviderGitea owner name"
    and "expressible lib stamps oper" and "validateArgv (teaArgs stamps (owner @ ''/'' @ name) oper) = Inr ()"
  shows "readsBack lib stamps owner name oper"
proof -
  have "0 < n" "n < 2 ^ 63"
    using assms(1,2,4) by (auto simp: positive_def gt_check_def split: if_splits)
  then show ?thesis
    using assms(1,5) teaSlug_arg [OF assms(3)]
    by (elim disjE) (simp_all add: readsBack_def tea_Parse_def parseIssues_def parseIssueState_def parseIndex_itoa flag_eval command_def)
qed

text \<open>
  C19. Every request of the service can be made with the client. A valid Gitea request on a validly
  named repository, if the arguments for it fit the limits of the client and it has nothing that the
  syntax cannot express, is what the client reads from those arguments; the two time stamps of a list
  are the ones that the times written for \<^verbatim>\<open>--from\<close> and \<^verbatim>\<open>--until\<close> denote.
\<close>

theorem tea_request_written:
  assumes "gt_validateOperation lib oper = Inr ()" and "ValidRepositoryIdentity ProviderGitea owner name"
    and "expressible lib stamps oper" and "validateArgv (teaArgs stamps (owner @ ''/'' @ name) oper) = Inr ()"
  shows "\<exists>cmd. tea_Parse lib (teaArgs stamps (owner @ ''/'' @ name) oper) = Inr cmd \<and> cmdRequest cmd = requestFor owner name oper"
proof -
  note slug = teaSlug_arg [OF assms(2)]
  note dispatch = readsBack_def tea_Parse_def parseIssues_def parsePulls_def hasPrefix_def
  have "readsBack lib stamps owner name oper"
  proof (cases "(stamps, owner @ ''/'' @ name, oper)" rule: teaArgs.cases)
    case (1 tm s v)
    then have "oper = GtRepositoryView (Some ())" using assms(1) by (cases v) (auto simp: fail_def)
    then show ?thesis using repository_readsBack assms(2,4) by simp
  next
    case (2 tm s r)
    then show ?thesis
      using parseIssueList_args [of lib r stamps "owner @ ''/'' @ name" "(owner, name)"] assms slug by (simp add: dispatch)
  next
    case (4 tm s r)
    then show ?thesis
      using parseIssueCreate_args [of r lib stamps "owner @ ''/'' @ name" "(owner, name)"] assms slug by (simp add: dispatch)
  next
    case (8 tm s r)
    then show ?thesis
      using parseIssueEdit_args [of r lib stamps "owner @ ''/'' @ name" "(owner, name)"] assms slug by (simp add: dispatch)
  next
    case (9 tm s r)
    then show ?thesis
      using parsePullList_args [of r lib stamps "owner @ ''/'' @ name" "(owner, name)"] assms slug by (simp add: dispatch)
  qed (use assms view_readsBack comment_readsBack state_readsBack in
      \<open>simp_all add: gt_validateIssueList_def gt_validateIssueCreate_def gt_validateIssueEdit_def
        gt_validatePullList_def positive_def fail_def\<close>)
  then show ?thesis by (simp add: readsBack_def)
qed


section \<open>Examples\<close>

definition exampleTimestamps :: timestamp_lib where
  "exampleTimestamps = \<lparr>tsIsValid = \<lambda>x. 0 \<le> tsNanos x \<and> tsNanos x < 1000000000,
     tsAsTime = \<lambda>x. tsSeconds x * 1000000000 + tsNanos x,
     tsNew = \<lambda>n. \<lparr>tsSeconds = n div 1000000000, tsNanos = n mod 1000000000\<rparr>\<rparr>"

definition exampleListArgs :: "string list" where
  "exampleListArgs = [''issues'', ''list'', ''-r'', ''Team/Repo'', ''--from'', ''2026-01-02T3:04:05.25+01:30'', ''--fields'', ''index,title'']"

definition exampleNew :: gitea_operation where
  "exampleNew = GtIssueCreate (Some \<lparr>gicTitle = ''New'', gicDescription = Some [], gicAssignees = [], gicLabels = [''bug'', ''urgent'']\<rparr>)"

lemma exampleListArgs_parsed: "isOK (tea_Parse exampleTimestamps exampleListArgs)"
  by code_simp

text \<open>
  The one divergence: the range of protobuf's time stamps begins with the year 1, and a time of the year 0
  is a time for the client.
\<close>

definition protoTimestamps :: timestamp_lib where
  "protoTimestamps = \<lparr>tsIsValid = \<lambda>x. - 62135596800 \<le> tsSeconds x \<and> tsSeconds x \<le> 253402300799
       \<and> 0 \<le> tsNanos x \<and> tsNanos x < 1000000000,
     tsAsTime = \<lambda>x. (tsSeconds x + 62135596800) * 1000000000 + tsNanos x,
     tsNew = \<lambda>n. \<lparr>tsSeconds = n div 1000000000 - 62135596800, tsNanos = n mod 1000000000\<rparr>\<rparr>"

lemma early_time_refused:
  "case tea_Parse protoTimestamps [''issues'', ''list'', ''--repo'', ''Team/Repo'', ''--from'', ''0000-01-01T00:00:00Z''] of
     Inl _ \<Rightarrow> False
   | Inr cmd \<Rightarrow> \<not> isOK (gitea_ValidateRequest protoTimestamps (Some (cmdRequest cmd)))"
  by code_simp

theorem tea_request_accepted_witness:
  "\<exists>cmd owner name oper. tea_Parse exampleTimestamps exampleListArgs = Inr cmd \<and> cmdRequest cmd = requestFor owner name oper
     \<and> (gitea_ValidateRequest exampleTimestamps (Some (cmdRequest cmd)) = Inr () \<longleftrightarrow> timesValid exampleTimestamps oper)"
proof -
  obtain cmd where "tea_Parse exampleTimestamps exampleListArgs = Inr cmd"
    using exampleListArgs_parsed by (auto simp: isOK_iff)
  with tea_request_accepted [OF this] show ?thesis by blast
qed

theorem tea_request_written_witness:
  "\<exists>cmd. tea_Parse exampleTimestamps [''issues'', ''create'', ''--repo'', ''Team/Repo'', ''--title'', ''New'', ''--description'', [],
       ''--labels'', ''bug,urgent''] = Inr cmd \<and> cmdRequest cmd = requestFor ''Team'' ''Repo'' exampleNew"
proof -
  have "gt_validateOperation exampleTimestamps exampleNew = Inr ()" "ValidRepositoryIdentity ProviderGitea ''Team'' ''Repo''"
    "expressible exampleTimestamps (None, None) exampleNew" "validateArgv (teaArgs (None, None) (''Team'' @ ''/'' @ ''Repo'') exampleNew) = Inr ()"
    by code_simp+
  from tea_request_written [OF this] show ?thesis
    by (simp add: exampleNew_def flagOpt_def csvOpt_def)
qed

end
