(* ===== verification/Server_Chain_Correct.thy ===== *)
theory Server_Chain_Correct
  imports Server_Chain
begin

text \<open>
  What the interceptors and the provider services guarantee: a provider is called only for an
  authenticated and authorized request, right after its accepted record, and no request succeeds
  without its terminal record. The two services share the interface \<open>provider_service\<close>.
\<close>

section \<open>The interceptors\<close>

text \<open>A call whose only token authenticates a principal, and the context its handler gets.\<close>

definition bearer :: "('d, 'x) srv_env_scheme \<Rightarrow> rpc_context \<Rightarrow> string \<Rightarrow> rpc_context \<Rightarrow> bool" where
  "bearer env ctx who ctx' \<longleftrightarrow> (\<exists>token rid. mapGet [] (Metadata ctx) ''authorization'' = [''Bearer '' @ token]
     \<and> Authenticate (sha256 env) (tokens env) token = Some who
     \<and> ctx' = ctx\<lparr>ctxPrincipal := Some who, ctxRequestID := Some rid\<rparr>)"

lemma hasPrefix_exists: "hasPrefix s p \<Longrightarrow> \<exists>t. s = p @ t"
  by (auto simp: hasPrefix_def prefix_def)

lemma authenticatedContext_Inr:
  assumes "authenticatedContext (sha256 env) (tokens env) (entropy env) ctx = Inr ctx'"
  shows "\<exists>who. bearer env ctx who ctx'"
proof -
  let ?vs = "mapGet [] (Metadata ctx) ''authorization''"
  have one: "length ?vs = 1" "hasPrefix (?vs ! 0) ''Bearer ''"
    using assms by (auto simp: authenticatedContext_def Let_def split: if_splits)
  then obtain v where v: "?vs = [v]" by (auto simp: length_Suc_conv)
  then obtain token where "v = ''Bearer '' @ token" using one(2) hasPrefix_exists by fastforce
  then have vs: "?vs = [''Bearer '' @ token]" using v by simp
  have "trimPrefix (''Bearer '' @ token) ''Bearer '' = token" by (rule trimPrefix_append)
  then obtain who rid where "Authenticate (sha256 env) (tokens env) token = Some who"
    "ctx' = ctx\<lparr>ctxPrincipal := Some who, ctxRequestID := Some rid\<rparr>"
    using assms vs
    by (auto simp: authenticatedContext_def Let_def WithPrincipal_def WithRequestID_def split: if_splits option.splits)
  then show ?thesis using vs unfolding bearer_def by blast
qed

lemma authUnary_cases:
  assumes "\<not> isHealthMethod method" and "authUnary env method h ctx st = (r, st')"
  obtains e where "r = Inl e" "st' = st" | who ctx' where "bearer env ctx who ctx'" "h ctx' st = (r, st')"
proof (cases "authenticatedContext (sha256 env) (tokens env) (entropy env) ctx")
  case (Inl e)
  then show ?thesis using assms that(1) [of e] by (auto simp: authUnary_def ServerInterceptor_def)
next
  case (Inr ctx')
  then show ?thesis
    using assms authenticatedContext_Inr [OF Inr] that(2) by (auto simp: authUnary_def ServerInterceptor_def)
qed

text \<open>A record of the audit log for a principal, other than the acceptance of a provider request.\<close>

definition terminalFor :: "string \<Rightarrow> srv_action \<Rightarrow> bool" where
  "terminalFor who a \<longleftrightarrow> (\<exists>ev. a = Recorded ev \<and> evPrincipal ev = who \<and> Outcome ev \<noteq> Accepted)"

lemma auditOutcome_terminal: "auditOutcome g err \<noteq> Accepted"
  by (auto simp: auditOutcome_def split: grpc_code.splits)

lemma terminalEvent_for:
  assumes "ctxPrincipal ctx = Some who"
  shows "evPrincipal (terminalEvent env ctx operation err md) = who"
    "Outcome (terminalEvent env ctx operation err md) \<noteq> Accepted"
  using assms auditOutcome_terminal [of "grpc env" err]
  by (auto simp: terminalEvent_def Let_def split: option.splits)

lemma writeTerminal_cases:
  assumes "writeTerminal env ctx operation err st = (werr, st')" and "ctxPrincipal ctx = Some who"
  shows "chWorld st' = chWorld st
    \<and> (if werr = None then \<exists>ev. chLog st' = chLog st @ [Recorded ev] \<and> terminalFor who (Recorded ev)
          \<and> ev = terminalEvent env ctx operation err (chMeta st)
       else chLog st' = chLog st)"
proof (cases "auditSink env (terminalEvent env ctx operation err (chMeta st))")
  case None
  then show ?thesis
    using assms terminalEvent_for [OF assms(2), of env operation err "chMeta st"]
    by (auto simp: writeTerminal_def writeRecord_def terminalFor_def)
next
  case (Some e)
  then have "werr = Some e" "st' = st" using assms(1) by (simp_all add: writeTerminal_def writeRecord_def)
  then show ?thesis by simp
qed

text \<open>
  An authenticated call after its authentication: it is rejected with at most a terminal record, or
  its handler runs once and the terminal record follows; success needs that record.
\<close>

definition handled ::
  "string \<Rightarrow> rpc_context \<Rightarrow> ('w, 'r) handler \<Rightarrow> 'w chain \<Rightarrow> 'r result \<Rightarrow> 'w chain \<Rightarrow> bool" where
  "handled who ctx' h st r st' \<longleftrightarrow>
     (\<exists>e end. r = Inl e \<and> chWorld st' = chWorld st \<and> chLog st' = chLog st @ end \<and> list_all (terminalFor who) end)
     \<or> (\<exists>md r1 st1 end. h ctx' (st\<lparr>chMeta := Some md\<rparr>) = (r1, st1) \<and> chWorld st' = chWorld st1
          \<and> chLog st' = chLog st1 @ end \<and> list_all (terminalFor who) end \<and> length end \<le> 1
          \<and> (\<forall>v. r = Inr v \<longrightarrow> r1 = Inr v \<and> end \<noteq> []))"

lemma auditUnary_handled:
  assumes "ctxPrincipal ctx = Some who" and "auditUnary env n sizeOf method h ctx st = (r, st')"
  shows "handled who ctx h st r st'"
proof -
  let ?md = "\<lparr>pmOperation = method, pmProvider = [], pmRepository = [], pmInputBytes = n,
                pmOutputBytes = 0, pmTransitioned = None, pmCompleted = False\<rparr>"
  obtain r1 st1 where h: "h ctx (st\<lparr>chMeta := Some ?md\<rparr>) = (r1, st1)" by fastforce
  let ?st2 = "case r1 of Inr v \<Rightarrow> st1\<lparr>chMeta := map_option (pmOutputBytes_update (\<lambda>_. sizeOf v)) (chMeta st1)\<rparr> | Inl _ \<Rightarrow> st1"
  obtain werr st3 where w: "writeTerminal env ctx method (errOf r1) ?st2 = (werr, st3)" by fastforce
  have r: "r = (if werr \<noteq> None then Inl auditUnavailable else r1)" "st' = st3"
    using assms(2) h w by (simp_all add: auditUnary_def Let_def)
  have keep: "chWorld ?st2 = chWorld st1" "chLog ?st2 = chLog st1" by (simp_all split: sum.splits)
  define tail where "tail = drop (length (chLog st1)) (chLog st')"
  have "chWorld st' = chWorld st1" "chLog st' = chLog st1 @ tail" "list_all (terminalFor who) tail" "length tail \<le> 1"
    "tail = [] \<longleftrightarrow> werr \<noteq> None"
    using writeTerminal_cases [OF w assms(1)] keep r(2) by (auto simp: tail_def split: if_splits)
  then show ?thesis
    unfolding handled_def using h r(1) by (intro disjI2 exI conjI) auto
qed

lemma handled_reject: "handled who ctx h st (Inl e) st"
  unfolding handled_def by (intro disjI1 exI [of _ e] exI [of _ "[]"]) simp

lemma auditRejection_handled:
  assumes "ctxPrincipal ctx = Some who" and "auditRejection env ctx method err st = (r, st')"
  shows "handled who ctx h st r st'"
proof -
  obtain werr where w: "writeTerminal env ctx method (Some err) st = (werr, st')" "\<exists>e. r = Inl e"
    using assms by (auto simp: auditRejection_def split: prod.splits if_splits)
  define tail where "tail = drop (length (chLog st)) (chLog st')"
  have "chWorld st' = chWorld st" "chLog st' = chLog st @ tail" "list_all (terminalFor who) tail"
    using writeTerminal_cases [OF w(1) assms(1)] by (auto simp: tail_def split: if_splits)
  then show ?thesis
    using w(2) unfolding handled_def by blast
qed

text \<open>An interceptor that only translates the error of the handler.\<close>

lemma handled_map:
  assumes "handled who ctx h st r st'" and "\<And>v. f r = Inr v \<Longrightarrow> r = Inr v" and "\<And>e. r = Inl e \<Longrightarrow> \<exists>e'. f r = Inl e'"
  shows "handled who ctx h st (f r) st'"
  using assms unfolding handled_def by metis

lemma deadlineUnary_handled:
  assumes "\<And>r st'. h1 ctx st = (r, st') \<Longrightarrow> handled who ctx h st r st'" and "deadlineUnary env h1 ctx st = (r, st')"
  shows "handled who ctx h st r st'"
proof -
  obtain r1 st1 where "h1 ctx st = (r1, st1)" by fastforce
  then show ?thesis
    using handled_map [OF assms(1), of r1 st1 "\<lambda>r. case r of
           Inl e \<Rightarrow> Inl (if errors_Is e ContextCanceled \<or> errors_Is e ContextDeadlineExceeded
                         then the (rpc_Error (grpc env) (Some e)) else e)
         | Inr v \<Rightarrow> Inr v"] assms(2)
    by (auto simp: deadlineUnary_def split: sum.splits)
qed

lemma statusUnary_handled:
  assumes "\<And>r st'. h1 ctx st = (r, st') \<Longrightarrow> handled who ctx h st r st'" and "statusUnary env h1 ctx st = (r, st')"
  shows "handled who ctx h st r st'"
proof -
  obtain r1 st1 where "h1 ctx st = (r1, st1)" by fastforce
  then show ?thesis
    using handled_map [OF assms(1), of r1 st1 "\<lambda>r. case r of
           Inl e \<Rightarrow> Inl (the (rpc_Error (grpc env) (Some e))) | Inr v \<Rightarrow> Inr v"] assms(2)
    by (auto simp: statusUnary_def split: sum.splits)
qed

lemma serveUnary_cases:
  assumes health: "\<not> isHealthMethod method" and run: "serveUnary env n sizeOf method h ctx st = (r, st')"
  obtains e where "r = Inl e" "st' = st" | who ctx' where "bearer env ctx who ctx'" "handled who ctx' h st r st'"
proof (cases "globalFree env")
  case False
  then show ?thesis using run that(1) by (auto simp: serveUnary_def globalConcurrencyUnary_def)
next
  case True
  let ?inner = "statusUnary env (admissionUnary env method
       (concurrencyUnary env method (deadlineUnary env (auditUnary env n sizeOf method h))))"
  have "authUnary env method ?inner ctx st = (r, st')"
    using run True by (simp add: serveUnary_def globalConcurrencyUnary_def)
  with health show ?thesis
  proof (rule authUnary_cases)
    fix who ctx'
    assume b: "bearer env ctx who ctx'" and inner: "?inner ctx' st = (r, st')"
    have p: "ctxPrincipal ctx' = Some who" using b by (auto simp: bearer_def)
    have d: "handled who ctx' h st r st'" if "deadlineUnary env (auditUnary env n sizeOf method h) ctx' st = (r, st')" for r st'
      by (rule deadlineUnary_handled [OF _ that]) (rule auditUnary_handled [OF p])
    have c: "handled who ctx' h st r st'"
      if "concurrencyUnary env method (deadlineUnary env (auditUnary env n sizeOf method h)) ctx' st = (r, st')" for r st'
      using that d health p auditRejection_handled [OF p]
      by (auto simp: concurrencyUnary_def split: if_splits)
    have a: "handled who ctx' h st r st'" if "admissionUnary env method
       (concurrencyUnary env method (deadlineUnary env (auditUnary env n sizeOf method h))) ctx' st = (r, st')" for r st'
      using that c auditRejection_handled [OF p] by (auto simp: admissionUnary_def split: if_splits)
    show thesis
      by (rule that(2) [OF b], rule statusUnary_handled [OF _ inner]) (rule a)
  qed (use that(1) in blast)
qed


section \<open>The provider services\<close>

lemma lifecycle_Resolve_cases:
  assumes "lifecycle_Resolve env sn sel cap kind operation ctx st = (r, st')"
  obtains e where "r = Inl e" "chWorld st' = chWorld st" "chLog st' = chLog st"
  | who repo where "r = Inr repo" "ctxPrincipal ctx = Some who" "Resolve sn who sel cap = Inr repo"
      "Kind (resProvider repo) = kind" "chWorld st' = chWorld st"
      "chLog st' = chLog st @ [Recorded (acceptedEvent ctx who kind repo operation)]"
proof (cases "ctxPrincipal ctx")
  case None
  then show ?thesis using assms that(1) by (auto simp: lifecycle_Resolve_def fail_def)
next
  case (Some who)
  show ?thesis
  proof (cases "Resolve sn who sel cap")
    case (Inl e)
    then show ?thesis using assms Some that(1) by (auto simp: lifecycle_Resolve_def fail_def Let_def)
  next
    case (Inr repo)
    show ?thesis
    proof (cases "Kind (resProvider repo) = kind \<and> auditSink env (acceptedEvent ctx who kind repo operation) = None")
      case True
      then have "r = Inr repo" "chWorld st' = chWorld st"
        "chLog st' = chLog st @ [Recorded (acceptedEvent ctx who kind repo operation)]"
        using assms Some Inr by (auto simp: lifecycle_Resolve_def writeRecord_def Let_def)
      then show ?thesis
        using that(2) [OF _ Some Inr] True by blast
    next
      case False
      then show ?thesis
        using assms Some Inr that(1)
        by (auto simp: lifecycle_Resolve_def writeRecord_def fail_def Let_def split: if_splits option.splits)
    qed
  qed
qed

lemma requestFacts_Inr:
  "requestFacts valid cap name sel = Inr (c, n, s) \<longleftrightarrow> isOK valid \<and> cap = Inr c \<and> name = Inr n \<and> sel = Inr s"
  by (cases valid; cases cap; cases name; cases sel) (auto simp: requestFacts_def)

text \<open>
  The interface of a provider service: it records and calls nothing, or it resolves the repository
  for the principal of the context with the capability of the request, records the acceptance and
  calls the executor once, whose effect on the world is \<open>effect\<close>.
\<close>

locale provider_service =
  fixes serve :: "'q \<Rightarrow> ('w, 'r) handler"
    and sn :: snapshot
    and kind :: provider_kind
    and capOf :: "'q \<Rightarrow> capability result"
    and effect :: "resolved \<Rightarrow> 'q \<Rightarrow> 'w \<Rightarrow> 'w"
  assumes calls: "serve q ctx st = (r, st') \<Longrightarrow>
     chWorld st' = chWorld st \<and> chLog st' = chLog st
     \<or> (\<exists>who cap sel repo op ev. ctxPrincipal ctx = Some who \<and> capOf q = Inr cap
          \<and> Resolve sn who sel cap = Inr repo \<and> Kind (resProvider repo) = kind
          \<and> Outcome ev = Accepted \<and> evPrincipal ev = who \<and> evRepository ev = ID repo
          \<and> chLog st' = chLog st @ [Recorded ev, Executed repo op]
          \<and> chWorld st' = effect repo q (chWorld st))"
begin

lemma served:
  assumes health: "\<not> isHealthMethod method" and run: "serveUnary env n sizeOf method (serve q) ctx st = (r, st')"
  shows "chWorld st' = chWorld st \<and> (\<exists>end. chLog st' = chLog st @ end \<and> (\<forall>repo op. Executed repo op \<notin> set end))
    \<or> (\<exists>who ctx' cap sel repo op ev end. bearer env ctx who ctx' \<and> capOf q = Inr cap
          \<and> Resolve sn who sel cap = Inr repo \<and> Kind (resProvider repo) = kind
          \<and> Outcome ev = Accepted \<and> evPrincipal ev = who \<and> evRepository ev = ID repo
          \<and> chLog st' = chLog st @ Recorded ev # Executed repo op # end \<and> (\<forall>repo op. Executed repo op \<notin> set end)
          \<and> chWorld st' = effect repo q (chWorld st))"
  using health run
proof (rule serveUnary_cases)
  fix who ctx'
  assume b: "bearer env ctx who ctx'" and h: "handled who ctx' (serve q) st r st'"
  have noExec: "\<forall>repo op. Executed repo op \<notin> set end" if "list_all (terminalFor who) end" for "end"
    using that by (auto simp: list_all_iff terminalFor_def)
  from h consider
    (rejected) "end" where "chWorld st' = chWorld st" "chLog st' = chLog st @ end" "list_all (terminalFor who) end"
  | (ran) md r1 st1 "end" where "serve q ctx' (st\<lparr>chMeta := Some md\<rparr>) = (r1, st1)" "chWorld st' = chWorld st1"
      "chLog st' = chLog st1 @ end" "list_all (terminalFor who) end"
    unfolding handled_def by blast
  then show ?thesis
  proof cases
    case rejected
    then show ?thesis using noExec by blast
  next
    case ran
    have p: "ctxPrincipal ctx' = Some who" using b by (auto simp: bearer_def)
    from calls [OF ran(1)] show ?thesis
    proof (elim disjE exE conjE)
      assume "chWorld st1 = chWorld (st\<lparr>chMeta := Some md\<rparr>)" "chLog st1 = chLog (st\<lparr>chMeta := Some md\<rparr>)"
      then show ?thesis using ran noExec by auto
    next
      fix who' cap sel repo op ev
      assume "ctxPrincipal ctx' = Some who'" "capOf q = Inr cap" "Resolve sn who' sel cap = Inr repo"
        "Kind (resProvider repo) = kind" "Outcome ev = Accepted" "evPrincipal ev = who'" "evRepository ev = ID repo"
        "chLog st1 = chLog (st\<lparr>chMeta := Some md\<rparr>) @ [Recorded ev, Executed repo op]"
        "chWorld st1 = effect repo q (chWorld (st\<lparr>chMeta := Some md\<rparr>))"
      then show ?thesis
        using b p ran noExec by (intro disjI2 exI conjI) auto
    qed
  qed
qed auto

end

lemma github_calls:
  assumes "githubService_Execute env sizeOf (Some sn) (Some execute) q ctx st = (r, st')"
  shows "chWorld st' = chWorld st \<and> chLog st' = chLog st
     \<or> (\<exists>who cap sel repo op ev. ctxPrincipal ctx = Some who \<and> github_Capability (Some q) = Inr cap
          \<and> Resolve sn who sel cap = Inr repo \<and> Kind (resProvider repo) = ProviderGitHub
          \<and> Outcome ev = Accepted \<and> evPrincipal ev = who \<and> evRepository ev = ID repo
          \<and> chLog st' = chLog st @ [Recorded ev, Executed repo op]
          \<and> chWorld st' = snd (execute repo q (chWorld st)))"
proof (cases "requestFacts (ValidateGitHubRequest (Some q)) (github_Capability (Some q))
    (github_OperationName (Some q)) (githubSelector q)")
  case (Inl e)
  then show ?thesis using assms by (auto simp: githubService_Execute_def)
next
  case (Inr f)
  then obtain cap operation sel where f: "f = (cap, operation, sel)" by (cases f)
  obtain r1 st1 where r1: "lifecycle_Resolve env sn sel cap ProviderGitHub operation ctx st = (r1, st1)" by fastforce
  from r1 show ?thesis
  proof (rule lifecycle_Resolve_cases)
    fix e
    assume "r1 = Inl e" "chWorld st1 = chWorld st" "chLog st1 = chLog st"
    then show ?thesis using assms Inr f r1 by (auto simp: githubService_Execute_def)
  next
    fix who repo
    assume a: "r1 = Inr repo" "ctxPrincipal ctx = Some who" "Resolve sn who sel cap = Inr repo"
      "Kind (resProvider repo) = ProviderGitHub" "chWorld st1 = chWorld st"
      "chLog st1 = chLog st @ [Recorded (acceptedEvent ctx who ProviderGitHub repo operation)]"
    have "chLog st' = chLog st1 @ [Executed repo operation]" "chWorld st' = snd (execute repo q (chWorld st1))"
      using assms Inr f r1 a(1) by (auto simp: githubService_Execute_def Let_def split: prod.splits)
    moreover have "github_Capability (Some q) = Inr cap"
      using Inr f by (simp add: requestFacts_Inr)
    ultimately show ?thesis
      using a by (intro disjI2 exI conjI) (auto simp: acceptedEvent_def)
  qed
qed

lemma gitea_calls:
  assumes "giteaService_Execute env lib sizeOf (Some sn) (Some execute) q ctx st = (r, st')"
  shows "chWorld st' = chWorld st \<and> chLog st' = chLog st
     \<or> (\<exists>who cap sel repo op ev. ctxPrincipal ctx = Some who \<and> gitea_Capability lib (Some q) = Inr cap
          \<and> Resolve sn who sel cap = Inr repo \<and> Kind (resProvider repo) = ProviderGitea
          \<and> Outcome ev = Accepted \<and> evPrincipal ev = who \<and> evRepository ev = ID repo
          \<and> chLog st' = chLog st @ [Recorded ev, Executed repo op]
          \<and> chWorld st' = snd (execute repo q (chWorld st)))"
proof (cases "requestFacts (gitea_ValidateRequest lib (Some q)) (gitea_Capability lib (Some q))
    (gitea_OperationName lib (Some q)) (giteaSelector q)")
  case (Inl e)
  then show ?thesis using assms by (auto simp: giteaService_Execute_def)
next
  case (Inr f)
  then obtain cap operation sel where f: "f = (cap, operation, sel)" by (cases f)
  obtain r1 st1 where r1: "lifecycle_Resolve env sn sel cap ProviderGitea operation ctx st = (r1, st1)" by fastforce
  from r1 show ?thesis
  proof (rule lifecycle_Resolve_cases)
    fix e
    assume "r1 = Inl e" "chWorld st1 = chWorld st" "chLog st1 = chLog st"
    then show ?thesis using assms Inr f r1 by (auto simp: giteaService_Execute_def)
  next
    fix who repo
    assume a: "r1 = Inr repo" "ctxPrincipal ctx = Some who" "Resolve sn who sel cap = Inr repo"
      "Kind (resProvider repo) = ProviderGitea" "chWorld st1 = chWorld st"
      "chLog st1 = chLog st @ [Recorded (acceptedEvent ctx who ProviderGitea repo operation)]"
    have "chLog st' = chLog st1 @ [Executed repo operation]" "chWorld st' = snd (execute repo q (chWorld st1))"
      using assms Inr f r1 a(1) by (auto simp: giteaService_Execute_def Let_def split: prod.splits sum.splits)
    moreover have "gitea_Capability lib (Some q) = Inr cap"
      using Inr f by (simp add: requestFacts_Inr)
    ultimately show ?thesis
      using a by (intro disjI2 exI conjI) (auto simp: acceptedEvent_def)
  qed
qed

interpretation github: provider_service "githubService_Execute env sizeOf (Some sn) (Some execute)" sn ProviderGitHub
    "\<lambda>q. github_Capability (Some q)" "\<lambda>repo q w. snd (execute repo q w)"
  for env :: "('d, 'x) srv_env_scheme" and sizeOf sn execute
  by unfold_locales (rule github_calls)

interpretation gitea: provider_service "giteaService_Execute env lib sizeOf (Some sn) (Some execute)" sn ProviderGitea
    "\<lambda>q. gitea_Capability lib (Some q)" "\<lambda>repo q w. snd (execute repo q w)"
  for env :: "('d, 'x) srv_env_scheme" and lib sizeOf sn execute
  by unfold_locales (rule gitea_calls)


section \<open>Authorized calls\<close>

text \<open>
  A call of an executor in the log of a request: the caller's only bearer token authenticates a
  principal to whom the configuration grants the capability of the request on the repository; the
  repository and its provider are the configured ones, of the kind of the service; and the call is
  the first action after the accepted record that names both.
\<close>

definition callAuthorized ::
  "config \<Rightarrow> ('d, 'x) srv_env_scheme \<Rightarrow> provider_kind \<Rightarrow> capability result \<Rightarrow> rpc_context \<Rightarrow> srv_action list \<Rightarrow> resolved
    \<Rightarrow> string \<Rightarrow> bool" where
  "callAuthorized cfg env kind cap ctx new repo op \<longleftrightarrow>
     (\<exists>token who c ev rest. mapGet [] (Metadata ctx) ''authorization'' = [''Bearer '' @ token]
        \<and> Authenticate (sha256 env) (tokens env) token = Some who
        \<and> cap = Inr c \<and> authorized cfg who (ID repo) c
        \<and> map_of (Repositories cfg) (ID repo) = Some (resRepository repo)
        \<and> map_of (Providers cfg) (Provider (resRepository repo)) = Some (resProvider repo)
        \<and> Kind (resProvider repo) = kind
        \<and> new = Recorded ev # Executed repo op # rest
        \<and> Outcome ev = Accepted \<and> evPrincipal ev = who \<and> evRepository ev = ID repo)"

lemma Resolve_from_config:
  assumes "wfConfig cfg" and "policy_New cfg = Inr sn" and "Resolve sn who sel cap = Inr x"
  shows "authorized cfg who (ID x) cap" "map_of (Repositories cfg) (ID x) = Some (resRepository x)"
    "map_of (Providers cfg) (Provider (resRepository x)) = Some (resProvider x)"
proof -
  note wf = policy_New_cases(4) [OF assms(2)]
  show "authorized cfg who (ID x) cap"
    using granted_authorized [OF assms(1,2)] api.granted [OF wf assms(3)] by blast
  show "map_of (Repositories cfg) (ID x) = Some (resRepository x)"
    "map_of (Providers cfg) (Provider (resRepository x)) = Some (resProvider x)"
    using resolved_from_config [OF assms(1,2) api.known [OF wf assms(3)]] by simp_all
qed

context provider_service
begin

lemma authorized_call:
  assumes "wfConfig cfg" and "policy_New cfg = Inr sn" and "\<not> isHealthMethod method"
    and "serveUnary env n sizeOf method (serve q) ctx st = (r, st')"
    and "chLog st' = chLog st @ new" and "Executed repo op \<in> set new"
  shows "callAuthorized cfg env kind (capOf q) ctx new repo op"
  using served [OF assms(3,4)]
proof (elim disjE exE conjE)
  fix who ctx' cap sel repo' op' ev "end"
  assume a: "bearer env ctx who ctx'" "capOf q = Inr cap" "Resolve sn who sel cap = Inr repo'"
    "Kind (resProvider repo') = kind" "Outcome ev = Accepted" "evPrincipal ev = who" "evRepository ev = ID repo'"
    "chLog st' = chLog st @ Recorded ev # Executed repo' op' # end" "\<forall>repo op. Executed repo op \<notin> set end"
  have new: "new = Recorded ev # Executed repo' op' # end" using a(8) assms(5) by simp
  then have "repo = repo'" "op = op'" using assms(6) a(9) by auto
  then show ?thesis
    using a new Resolve_from_config [OF assms(1,2) a(3)] unfolding callAuthorized_def bearer_def by blast
qed (use assms(5,6) in auto)

lemma world_changed:
  assumes "\<not> isHealthMethod method" and "serveUnary env n sizeOf method (serve q) ctx st = (r, st')"
    and "chWorld st' \<noteq> chWorld st"
  obtains who ctx' cap sel repo where "bearer env ctx who ctx'" "capOf q = Inr cap" "Resolve sn who sel cap = Inr repo"
    "Kind (resProvider repo) = kind" "chWorld st' = effect repo q (chWorld st)"
  using served [OF assms(1,2)] assms(3) by blast

end

text \<open>
  C8. A provider is called only for an authorized request. Whatever the caller sends to either
  provider service, and whatever state the server is in, every call of an executor is authorized by
  the configuration for the principal of the caller's only bearer token, with the capability that
  the request needs, on a configured repository of a provider of that kind, and it follows the
  accepted record of the audit log that says so.
\<close>

theorem provider_calls_authorized:
  assumes "wfConfig cfg" and "policy_New cfg = Inr sn" and "\<not> isHealthMethod method"
  shows "(serveUnary env n sz method (githubService_Execute env full (Some sn) (Some execute) q) ctx st = (r, st')
      \<and> chLog st' = chLog st @ new \<and> Executed repo op \<in> set new \<longrightarrow>
        callAuthorized cfg env ProviderGitHub (github_Capability (Some q)) ctx new repo op)
    \<and> (serveUnary env n sz' method (giteaService_Execute env lib full' (Some sn) (Some execute') q') ctx st2 = (r', st2')
      \<and> chLog st2' = chLog st2 @ new' \<and> Executed repo' op' \<in> set new' \<longrightarrow>
        callAuthorized cfg env ProviderGitea (gitea_Capability lib (Some q')) ctx new' repo' op')"
  by (intro conjI impI; elim conjE)
    (erule (2) github.authorized_call [OF assms], erule (2) gitea.authorized_call [OF assms])

text \<open>
  C9. No request succeeds unrecorded. For every method but the health checks and every handler, a
  call that returns a response was authenticated, its handler ran and returned that response, and
  the last action in the log is a terminal record for its principal; and no call adds more than one
  record to those of its handler.
\<close>

theorem success_recorded:
  assumes "\<not> isHealthMethod method" and "serveUnary env n sz method h ctx st = (Inr v, st')"
  shows "\<exists>who ctx' md st1 ev. bearer env ctx who ctx' \<and> h ctx' (st\<lparr>chMeta := Some md\<rparr>) = (Inr v, st1)
    \<and> chLog st' = chLog st1 @ [Recorded ev] \<and> evPrincipal ev = who \<and> Outcome ev \<noteq> Accepted
    \<and> chWorld st' = chWorld st1"
  using assms
proof (rule serveUnary_cases)
  fix who ctx'
  assume b: "bearer env ctx who ctx'" and "handled who ctx' h st (Inr v) st'"
  then obtain md st1 tail where h: "h ctx' (st\<lparr>chMeta := Some md\<rparr>) = (Inr v, st1)" "chWorld st' = chWorld st1"
    "chLog st' = chLog st1 @ tail" "list_all (terminalFor who) tail" "length tail \<le> 1" "tail \<noteq> []"
    unfolding handled_def by blast
  from h(5,6) obtain a where a: "tail = [a]" by (cases tail) auto
  then obtain ev where "a = Recorded ev" "evPrincipal ev = who" "Outcome ev \<noteq> Accepted"
    using h(4) by (auto simp: terminalFor_def)
  then show ?thesis
    using b h(1-3) a by blast
qed simp


section \<open>A request\<close>

definition exampleChainEnv :: "string srv_env" where
  "exampleChainEnv = \<lparr>sha256 = \<lambda>e. e,
     tokens = (case NewIndex (\<lambda>e. e) [(''agent'', [exampleToken CHR ''a''])] of Inl _ \<Rightarrow> None | Inr ix \<Rightarrow> Some ix),
     entropy = Some (replicate 16 CHR ''e''), globalFree = True, admits = True, perFree = \<lambda>_. True,
     grpc = exampleGrpc, codeName = \<lambda>_. ''code'', auditSink = \<lambda>_. None\<rparr>"

definition exampleCaller :: rpc_context where
  "exampleCaller = \<lparr>Metadata = [(''authorization'', [''Bearer '' @ exampleToken CHR ''a''])], ctxPrincipal = None,
     ctxRequestID = None\<rparr>"

definition exampleIssueList :: github_request where
  "exampleIssueList = \<lparr>ghContext = Some \<lparr>ctxRepository = Some \<lparr>msgHost = ''github.com'', msgOwner = ''acme'',
     msgName = ''app'', msgSshPort = 0, msgSshUser = []\<rparr>\<rparr>, ghOperation = GhIssueList (Some \<lparr>ilState = 1, ilLimit = 5\<rparr>)\<rparr>"

definition exampleHandler :: "(unit, string \<times> string) handler" where
  "exampleHandler = githubService_Execute exampleChainEnv (\<lambda>_. 1) (Some exampleSnapshot)
     (Some (\<lambda>repo q w. (Inr (Some ''answer''), w))) exampleIssueList"

definition exampleServed :: "(string \<times> string) result \<times> unit chain" where
  "exampleServed = serveUnary exampleChainEnv 0 (\<lambda>_. 1) ''/repowolf.v1.GitHubService/Execute'' exampleHandler
     exampleCaller \<lparr>chWorld = (), chLog = [], chMeta = None\<rparr>"

fun executedIDs :: "srv_action list \<Rightarrow> string list" where
  "executedIDs [] = []"
| "executedIDs (Recorded ev # as) = executedIDs as"
| "executedIDs (Executed repo op # as) = ID repo # executedIDs as"

lemma executedIDs_mem: "i \<in> set (executedIDs as) \<Longrightarrow> \<exists>repo op. Executed repo op \<in> set as \<and> ID repo = i"
  by (induct as rule: executedIDs.induct) auto

lemma exampleServed_executes: "isOK (fst exampleServed) \<and> executedIDs (chLog (snd exampleServed)) = [''alpha'']"
  by code_simp

lemma exampleMethod: "\<not> isHealthMethod ''/repowolf.v1.GitHubService/Execute''"
  by code_simp

theorem provider_calls_authorized_witness:
  "\<exists>repo op. ID repo = ''alpha''
     \<and> callAuthorized exampleConfig exampleChainEnv ProviderGitHub (github_Capability (Some exampleIssueList)) exampleCaller
         (chLog (snd exampleServed)) repo op"
proof -
  obtain repo op where e: "Executed repo op \<in> set (chLog (snd exampleServed))" "ID repo = ''alpha''"
    using exampleServed_executes executedIDs_mem [of "''alpha''" "chLog (snd exampleServed)"] by auto
  have run: "serveUnary exampleChainEnv 0 (\<lambda>_. 1) ''/repowolf.v1.GitHubService/Execute''
      (githubService_Execute exampleChainEnv (\<lambda>_. 1) (Some exampleSnapshot)
        (Some (\<lambda>repo q w. (Inr (Some ''answer''), w))) exampleIssueList) exampleCaller
      \<lparr>chWorld = (), chLog = [], chMeta = None\<rparr> = (fst exampleServed, snd exampleServed)"
    by (simp add: exampleServed_def exampleHandler_def)
  have log: "chLog (snd exampleServed) = chLog \<lparr>chWorld = (), chLog = [], chMeta = None\<rparr> @ chLog (snd exampleServed)"
    by simp
  show ?thesis
    using provider_calls_authorized [OF exampleConfig_wf exampleConfig_New exampleMethod, THEN conjunct1, THEN mp,
        OF conjI [OF run conjI [OF log e(1)]]] e(2) by blast
qed

theorem success_recorded_witness:
  "\<exists>v st' ev before. exampleServed = (Inr v, st') \<and> chLog st' = before @ [Recorded ev] \<and> Outcome ev \<noteq> Accepted"
proof -
  obtain r st' where rs: "exampleServed = (r, st')" by fastforce
  then have "isOK r"
    using exampleServed_executes by (metis fst_conv)
  then obtain v where v: "r = Inr v"
    by (auto simp: isOK_iff)
  with rs show ?thesis
    using success_recorded [OF exampleMethod, of exampleChainEnv 0 "\<lambda>_. 1" exampleHandler exampleCaller
        "\<lparr>chWorld = (), chLog = [], chMeta = None\<rparr>" v st']
    unfolding exampleServed_def by blast
qed

end
