(* ===== verification/Tea_Client.thy ===== *)
theory Tea_Client
  imports Tea_Correct Server_Chain_Correct
begin

text \<open>
  Package \<^verbatim>\<open>internal/client/gitea\<close>, \<^verbatim>\<open>client.go\<close>: what the client tells the user when a request fails. An error
  of a mutation is told apart by what may have happened to the issue.
\<close>

definition mutationOutcomeUnknown :: "grpc_lib \<Rightarrow> go_error \<Rightarrow> bool" where
  "mutationOutcomeUnknown g err =
     (if IsGiteaWriteOutcomeUnknown g err then True
      else case FromError g err of
        None \<Rightarrow> True
      | Some v \<Rightarrow> Code v \<in> {Unavailable, Canceled, DeadlineExceeded, Internal, ResourceExhausted})"

definition newline :: string where "newline = [CHR 0x0A]"

definition pullKindMessage :: string where "pullKindMessage = ''tea: index is a pull request; use tea pulls'' @ newline"
definition issueKindMessage :: string where "issueKindMessage = ''tea: index is an issue; use tea issues'' @ newline"
definition partialMessage :: string where
  "partialMessage = ''tea: issue edit partially applied; inspect issue state before retrying'' @ newline"
definition unknownMessage :: string where
  "unknownMessage = ''tea: write outcome unknown; inspect repository state before retrying'' @ newline"
definition failedMessage :: string where "failedMessage = ''tea: Gitea operation failed'' @ newline"
definition interruptedMessage :: string where "interruptedMessage = ''tea: interrupted'' @ newline"

text \<open>\<^verbatim>\<open>interrupted\<close>; \<open>exitCause\<close> is the exit code of the cause of the context if it has one.\<close>

definition interrupted :: "int option \<Rightarrow> string \<times> int" where
  "interrupted exitCause = (interruptedMessage, case exitCause of Some c \<Rightarrow> c | None \<Rightarrow> 130)"

text \<open>The diagnostic and the exit status; \<open>isCancelled\<close> is whether the context was cancelled.\<close>

definition reportExecutionError :: "grpc_lib \<Rightarrow> bool \<Rightarrow> int option \<Rightarrow> tea_command \<Rightarrow> go_error \<Rightarrow> string \<times> int" where
  "reportExecutionError g isCancelled exitCause parsed err =
     (if IsIssueKindStatus g err then (pullKindMessage, 1)
      else if IsPullKindStatus g err then (issueKindMessage, 1)
      else if (case gtOperation (cmdRequest parsed) of GtIssueEdit (Some _) \<Rightarrow> True | _ \<Rightarrow> False) \<and> IsGiteaEditPartial g err
      then (partialMessage, 1)
      else if cmdMutation parsed \<and> mutationOutcomeUnknown g err then (unknownMessage, 1)
      else if isCancelled then interrupted exitCause
      else (failedMessage, 1))"


section \<open>Errors that admit a write\<close>

text \<open>
  The statuses that a client has to read as a possible write: an unknown outcome, a partial edit, and
  the codes with which a request may end after its write.
\<close>

definition admitsWrite :: "gitea_operation \<Rightarrow> grpc_status \<Rightarrow> bool" where
  "admitsWrite oper s \<longleftrightarrow> Code s \<in> {Unavailable, Canceled, DeadlineExceeded, Internal, ResourceExhausted}
     \<or> (case oper of GtIssueEdit (Some _) \<Rightarrow> True | _ \<Rightarrow> False) \<and> Code s = FailedPrecondition
       \<and> Message s = ''issue edit partially applied''
       \<and> Details s = [\<lparr>Reason = giteaEditPartialReason, Domain = giteaEditPartialDomain\<rparr>]"

lemma report_admitted:
  assumes "FromError g err = Some s" and "admitsWrite (gtOperation (cmdRequest cmd)) s" and "cmdMutation cmd"
  shows "fst (reportExecutionError g isCancelled exitCause cmd err) \<in> {partialMessage, unknownMessage}"
proof (cases "Code s = FailedPrecondition")
  case True
  then have s: "Message s = ''issue edit partially applied''"
    "Details s = [\<lparr>Reason = giteaEditPartialReason, Domain = giteaEditPartialDomain\<rparr>]"
    "case gtOperation (cmdRequest cmd) of GtIssueEdit (Some _) \<Rightarrow> True | _ \<Rightarrow> False"
    using assms(2) by (auto simp: admitsWrite_def)
  have "\<not> IsIssueKindStatus g err" "\<not> IsPullKindStatus g err" "IsGiteaEditPartial g err"
    using s True assms(1)
    by (simp_all add: IsIssueKindStatus_def IsPullKindStatus_def IsGiteaEditPartial_def isTuple_def reason_defs)
  with s(3) show ?thesis by (simp add: reportExecutionError_def)
next
  case False
  then have "Code s \<in> {Unavailable, Canceled, DeadlineExceeded, Internal, ResourceExhausted}"
    using assms(2) by (auto simp: admitsWrite_def)
  then have "mutationOutcomeUnknown g err" using assms(1) by (simp add: mutationOutcomeUnknown_def)
  moreover have "\<not> IsIssueKindStatus g err" "\<not> IsPullKindStatus g err"
    using False assms(1) by (simp_all add: IsIssueKindStatus_def IsPullKindStatus_def isTuple_def)
  ultimately show ?thesis
    using assms(3) by (simp add: reportExecutionError_def)
qed


section \<open>Errors of the chain\<close>

text \<open>What the interceptors around the audit interceptor make of an error.\<close>

definition translated :: "grpc_lib \<Rightarrow> go_error \<Rightarrow> go_error" where
  "translated g e =
     the (rpc_Error g (Some (if errors_Is e ContextCanceled \<or> errors_Is e ContextDeadlineExceeded
       then the (rpc_Error g (Some e)) else e)))"

lemma writeRecord_world: "chWorld (snd (writeRecord env ev st)) = chWorld st"
  by (simp add: writeRecord_def split: option.splits)

lemma auditRejection_world: "chWorld (snd (auditRejection env ctx operation err st)) = chWorld st"
  using writeRecord_world [of env "terminalEvent env ctx operation (Some err) (chMeta st)" st]
  by (simp add: auditRejection_def writeTerminal_def split_beta)

lemma auditUnary_error:
  assumes "auditUnary env n sizeOf method h ctx st = (Inl e, st')"
  obtains md r1 st1 where "h ctx (st\<lparr>chMeta := Some md\<rparr>) = (r1, st1)" "chWorld st' = chWorld st1"
    "e = auditUnavailable \<or> r1 = Inl e"
proof -
  let ?md = "\<lparr>pmOperation = method, pmProvider = [], pmRepository = [], pmInputBytes = n,
                pmOutputBytes = 0, pmTransitioned = None, pmCompleted = False\<rparr>"
  obtain r1 st1 where h: "h ctx (st\<lparr>chMeta := Some ?md\<rparr>) = (r1, st1)" by fastforce
  let ?st2 = "case r1 of Inr v \<Rightarrow> st1\<lparr>chMeta := map_option (pmOutputBytes_update (\<lambda>_. sizeOf v)) (chMeta st1)\<rparr> | Inl _ \<Rightarrow> st1"
  obtain werr st3 where w: "writeTerminal env ctx method (errOf r1) ?st2 = (werr, st3)" by fastforce
  have "st' = st3" "e = auditUnavailable \<or> r1 = Inl e"
    using assms h w by (auto simp: auditUnary_def Let_def split: if_splits)
  moreover have "chWorld st3 = chWorld ?st2"
    using w writeRecord_world [of env _ ?st2] unfolding writeTerminal_def by (metis snd_conv)
  ultimately show ?thesis
    using that [OF h] by (simp split: sum.splits)
qed

lemma serveUnary_error:
  assumes "\<not> isHealthMethod method" and "serveUnary env n sizeOf method h ctx st = (Inl e, st')" and "chWorld st' \<noteq> chWorld st"
  obtains ctx' md r1 st1 e1 where "h ctx' (st\<lparr>chMeta := Some md\<rparr>) = (r1, st1)" "chWorld st' = chWorld st1"
    "e1 = auditUnavailable \<or> r1 = Inl e1" "e = translated (grpc env) e1"
proof -
  let ?audit = "auditUnary env n sizeOf method h"
  let ?inner = "statusUnary env (admissionUnary env method (concurrencyUnary env method (deadlineUnary env ?audit)))"
  have "authUnary env method ?inner ctx st = (Inl e, st')"
    using assms(2,3) by (auto simp: serveUnary_def globalConcurrencyUnary_def split: if_splits)
  with assms(1) obtain who ctx' where b: "bearer env ctx who ctx'" and inner: "?inner ctx' st = (Inl e, st')"
    by (rule authUnary_cases) (use assms(3) in auto)
  have p: "ctxPrincipal ctx' = Some who" using b by (auto simp: bearer_def)
  from inner obtain e2 where e2: "admissionUnary env method (concurrencyUnary env method (deadlineUnary env ?audit)) ctx' st = (Inl e2, st')"
    "e = the (rpc_Error (grpc env) (Some e2))"
    by (auto simp: statusUnary_def split: prod.splits sum.splits)
  have rejected: "auditRejection env ctx' method err st \<noteq> (x, st')" for err x
    using assms(3) by (auto dest: arg_cong [where f = "\<lambda>p. chWorld (snd p)"] simp: auditRejection_world)
  from e2(1) have "deadlineUnary env ?audit ctx' st = (Inl e2, st')"
    using p assms(1) rejected by (auto simp: admissionUnary_def concurrencyUnary_def split: if_splits)
  then obtain e1 where e1: "?audit ctx' st = (Inl e1, st')"
    "e2 = (if errors_Is e1 ContextCanceled \<or> errors_Is e1 ContextDeadlineExceeded then the (rpc_Error (grpc env) (Some e1)) else e1)"
    by (auto simp: deadlineUnary_def split: prod.splits sum.splits)
  show ?thesis
    using e1(1)
    by (rule auditUnary_error) (rule that, assumption, assumption, assumption, simp add: translated_def e1(2) e2(2))
qed


lemma giteaService_world:
  assumes "giteaService_Execute env lib sizeOf (Some sn) (Some execute) q ctx st = (r, st')" and "chWorld st' \<noteq> chWorld st"
  obtains repo v transition where "execute repo q (chWorld st) = ((v, transition), chWorld st')"
    "\<And>e. r = Inl e \<Longrightarrow> v = Inl e \<or> e \<in> {Sentinel ErrRepositoryUnavailable, Sentinel ErrOutputLimit}"
proof (cases "requestFacts (gitea_ValidateRequest lib (Some q)) (gitea_Capability lib (Some q))
    (gitea_OperationName lib (Some q)) (giteaSelector q)")
  case (Inl e)
  then show ?thesis using assms by (auto simp: giteaService_Execute_def)
next
  case (Inr f)
  then obtain cap operation sel where f: "f = (cap, operation, sel)" by (cases f)
  obtain r1 st1 where r1: "lifecycle_Resolve env sn sel cap ProviderGitea operation ctx st = (r1, st1)" by fastforce
  from r1 show ?thesis
  proof (rule lifecycle_Resolve_cases)
    fix e
    assume "r1 = Inl e" "chWorld st1 = chWorld st"
    then show ?thesis using assms Inr f r1 by (auto simp: giteaService_Execute_def)
  next
    fix who repo
    assume a: "r1 = Inr repo" "chWorld st1 = chWorld st"
    obtain v transition w where x: "execute repo q (chWorld st) = ((v, transition), w)" by (metis surj_pair)
    have "w = chWorld st'"
      "r = (case v of Inl e \<Rightarrow> Inl e | Inr response \<Rightarrow> lifecycle_Complete sizeOf ctx response)"
      using assms(1) Inr f r1 a x by (auto simp: giteaService_Execute_def Let_def split: sum.splits)
    then show ?thesis
      using that [of repo v transition] x
      by (auto simp: lifecycle_Complete_def fail_def Let_def split: sum.splits option.splits if_splits)
  qed
qed

lemma translated_admits:
  assumes g: "grpcDocumented g"
    and e: "e \<in> {Sentinel ErrWriteOutcomeUnknown, Sentinel ErrResourceExhausted, Sentinel ErrOutputLimit,
        Sentinel ErrRepositoryUnavailable, auditUnavailable}
      \<or> (case oper of GtIssueEdit (Some _) \<Rightarrow> True | _ \<Rightarrow> False) \<and> e = Sentinel ErrEditPartial"
  shows "\<exists>s. FromError g (translated g e) = Some s \<and> admitsWrite oper s"
proof -
  note lib = g [unfolded grpcDocumented_def]
  note eval = translated_def rpc_Error_def mapDomainError_def writeOutcomeUnknownError_def editPartialError_def newStatus_def
    statusError_def auditUnavailable_def canonical_def internalFailure_def admitsWrite_def
  consider "e = Sentinel ErrWriteOutcomeUnknown" | "e = Sentinel ErrResourceExhausted" | "e = Sentinel ErrOutputLimit"
    | "e = Sentinel ErrRepositoryUnavailable" | "e = auditUnavailable"
    | "case oper of GtIssueEdit (Some _) \<Rightarrow> True | _ \<Rightarrow> False" "e = Sentinel ErrEditPartial"
    using e by blast
  then show ?thesis
    by cases (simp_all add: eval lib)
qed

end
