(* ===== verification/Go_Strings.thy ===== *)
theory Go_Strings
  imports Go_Errors
begin

text \<open>
  What the clients use of \<^verbatim>\<open>strings\<close>, \<^verbatim>\<open>strconv\<close> and \<^verbatim>\<open>path/filepath\<close> beyond the prelude: trimming
  white space, comparing without case, cleaning paths and unquoting Go string literals.
\<close>

section \<open>Strings\<close>

definition trimSpace :: "string \<Rightarrow> string" where
  "trimSpace s =
     (let spaces = (\<lambda>r. isSpace (fst r)) in
      concat (map snd (rev (dropWhile spaces (rev (dropWhile spaces (runes s)))))))"

text \<open>
  \<^verbatim>\<open>strings.ToLower\<close> as far as a comparison with an ASCII text can tell: the lower case of a rune above
  127 is an ASCII letter for the capital I with a dot and for the Kelvin sign only, and every other such
  rune stays above 127.
\<close>

definition lowerRune :: "int \<Rightarrow> int" where
  "lowerRune r =
     (if 65 \<le> r \<and> r \<le> 90 then r + 32 else if r = 304 then 105 else if r = 8490 then 107 else r)"

definition lowerRunes :: "string \<Rightarrow> int list" where
  "lowerRunes s = map (\<lambda>r. lowerRune (fst r)) (runes s)"

text \<open>\<^verbatim>\<open>strings.EqualFold(s, w)\<close> for an ASCII word without the letters k and s.\<close>

definition foldsTo :: "string \<Rightarrow> string \<Rightarrow> bool" where
  "foldsTo s w = (isASCII s \<and> toLower s = w)"


section \<open>Paths\<close>

text \<open>\<^verbatim>\<open>path.Clean\<close> and \<^verbatim>\<open>path.Join\<close>, which on Unix are those of \<^verbatim>\<open>filepath\<close> too.\<close>

fun cleanStep :: "bool \<Rightarrow> string list \<Rightarrow> string \<Rightarrow> string list" where
  "cleanStep rooted out part =
     (if part = [] \<or> part = ''.'' then out
      else if part = ''..'' then
        (if out \<noteq> [] \<and> last out \<noteq> ''..'' then butlast out else if rooted then out else out @ [part])
      else out @ [part])"

definition path_Clean :: "string \<Rightarrow> string" where
  "path_Clean p =
     (let rooted = hasPrefix p ''/''; comps = foldl (cleanStep rooted) [] (split (CHR ''/'') p) in
      if rooted then ''/'' @ join (CHR ''/'') comps
      else if comps = [] then ''.'' else join (CHR ''/'') comps)"

definition path_Join :: "string list \<Rightarrow> string" where
  "path_Join parts =
     (let nonempty = filter (\<lambda>p. p \<noteq> []) parts in
      if nonempty = [] then [] else path_Clean (join (CHR ''/'') nonempty))"

definition path_Base :: "string \<Rightarrow> string" where
  "path_Base p =
     (if p = [] then ''.''
      else let q = rev (dropWhile (\<lambda>c. c = CHR ''/'') (rev p)) in
        if q = [] then ''/'' else last (split CHR ''/'' q))"

definition path_Dir :: "string \<Rightarrow> string" where
  "path_Dir p = path_Clean (concat (map (\<lambda>part. part @ ''/'') (butlast (split CHR ''/'' p))))"


section \<open>String literals\<close>

text \<open>\<^verbatim>\<open>utf8.ValidRune\<close> and \<^verbatim>\<open>utf8.AppendRune\<close>.\<close>

definition validRune :: "int \<Rightarrow> bool" where
  "validRune r = (0 \<le> r \<and> r < 55296 \<or> 57343 < r \<and> r \<le> 1114111)"

definition encodeRune :: "int \<Rightarrow> string" where
  "encodeRune r =
     (let r = (if validRune r then r else runeError) in
      if r < 128 then [char_of r]
      else if r < 2048 then [char_of (192 + r div 64), char_of (128 + r mod 64)]
      else if r < 65536 then [char_of (224 + r div 4096), char_of (128 + r div 64 mod 64), char_of (128 + r mod 64)]
      else [char_of (240 + r div 262144), char_of (128 + r div 4096 mod 64), char_of (128 + r div 64 mod 64),
            char_of (128 + r mod 64)])"

definition hexDigitValue :: "char \<Rightarrow> int option" where
  "hexDigitValue c =
     (if isDigit c then Some (code c - 48)
      else if 97 \<le> code c \<and> code c \<le> 102 then Some (code c - 87)
      else if 65 \<le> code c \<and> code c \<le> 70 then Some (code c - 55) else None)"

fun hexDigits :: "nat \<Rightarrow> int \<Rightarrow> string \<Rightarrow> (int \<times> string) option" where
  "hexDigits 0 v s = Some (v, s)"
| "hexDigits (Suc n) v s =
     (case s of
        [] \<Rightarrow> None
      | c # cs \<Rightarrow> (case hexDigitValue c of None \<Rightarrow> None | Some d \<Rightarrow> hexDigits n (16 * v + d) cs))"

fun octalDigits :: "nat \<Rightarrow> int \<Rightarrow> string \<Rightarrow> (int \<times> string) option" where
  "octalDigits 0 v s = Some (v, s)"
| "octalDigits (Suc n) v s =
     (case s of
        [] \<Rightarrow> None
      | c # cs \<Rightarrow> if 48 \<le> code c \<and> code c \<le> 55 then octalDigits n (8 * v + (code c - 48)) cs else None)"

text \<open>The bytes of one escape sequence after its backslash, in double quotes, and what follows it.\<close>

definition simpleEscapes :: "(char \<times> int) list" where
  "simpleEscapes =
     [(CHR ''a'', 7), (CHR ''b'', 8), (CHR ''f'', 12), (CHR ''n'', 10), (CHR ''r'', 13), (CHR ''t'', 9), (CHR ''v'', 11),
      (CHR 0x5C, 92), (CHR 0x22, 34)]"

definition escapedBytes :: "char \<Rightarrow> string \<Rightarrow> (string \<times> string) option" where
  "escapedBytes c s =
     (case map_of simpleEscapes c of
        Some b \<Rightarrow> Some ([char_of b], s)
      | None \<Rightarrow>
          if c = CHR ''x'' then map_option (\<lambda>(v, rest). ([char_of v], rest)) (hexDigits 2 0 s)
          else if c = CHR ''u'' \<or> c = CHR ''U'' then
            (case hexDigits (if c = CHR ''u'' then 4 else 8) 0 s of
               None \<Rightarrow> None
             | Some (v, rest) \<Rightarrow> if validRune v then Some (encodeRune v, rest) else None)
          else if 48 \<le> code c \<and> code c \<le> 55 then
            (case octalDigits 2 (code c - 48) s of
               None \<Rightarrow> None
             | Some (v, rest) \<Rightarrow> if v > 255 then None else Some ([char_of v], rest))
          else None)"

lemma hexDigits_length: "hexDigits n v s = Some (x, rest) \<Longrightarrow> length rest \<le> length s"
  by (induction n arbitrary: v s) (auto split: list.splits option.splits intro: le_SucI)

lemma octalDigits_length: "octalDigits n v s = Some (x, rest) \<Longrightarrow> length rest \<le> length s"
  by (induction n arbitrary: v s) (auto split: list.splits if_splits intro: le_SucI)

lemma escapedBytes_length: "escapedBytes c s = Some (bytes, rest) \<Longrightarrow> length rest \<le> length s"
  by (auto simp: escapedBytes_def split: option.splits if_splits dest!: hexDigits_length octalDigits_length)

text \<open>The loop over the text after the opening quote: the value, if its closing quote ends the text.\<close>

function unquoteLoop :: "string \<Rightarrow> string option" where
  "unquoteLoop [] = None"
| "unquoteLoop (c # cs) =
     (if c = CHR 0x22 then (if cs = [] then Some [] else None)
      else if c = LF then None
      else if c = CHR 0x5C then
        (case cs of
           [] \<Rightarrow> None
         | d # ds \<Rightarrow>
             (case escapedBytes d ds of
                None \<Rightarrow> None
              | Some (bytes, rest) \<Rightarrow> map_option (\<lambda>out. bytes @ out) (unquoteLoop rest)))
      else (case decodeRune c cs of (r, w) \<Rightarrow>
        map_option (\<lambda>out. (if code c < 128 then [c] else encodeRune r) @ out) (unquoteLoop (drop (w - 1) cs))))"
  by pat_completeness auto
termination by (relation "measure length") (auto dest: escapedBytes_length)

text \<open>\<^verbatim>\<open>strconv.Unquote\<close> of a text that starts with a double quote.\<close>

definition unquote :: "string \<Rightarrow> string option" where
  "unquote s = (if length s < 2 then None else unquoteLoop (tl s))"

end
