(* ===== verification/Client_Repository.thy ===== *)
theory Client_Repository
  imports Go_Strings Config_Validate Proto_Common
begin

text \<open>
  Package \<^verbatim>\<open>internal/client\<close>: the repository that a client names in its requests, from an explicit
  selector or from the origin remote of the Git repository around the working directory
  (\<^verbatim>\<open>repository.go\<close>, \<^verbatim>\<open>gitconfig.go\<close>, \<^verbatim>\<open>metadataio.go\<close>). It is a hint only: the service decides.

  The file system is a parameter: the directories that can be held open, and what the calls
  \<^verbatim>\<open>open\<close>, \<^verbatim>\<open>openat\<close>, \<^verbatim>\<open>fstatat\<close> and \<^verbatim>\<open>fstat\<close> of the system answer with the flags that the code gives
  them. \<^verbatim>\<open>url.Parse\<close> is a parameter too.
\<close>

section \<open>Selectors\<close>

definition alphaNumericRune :: "int \<Rightarrow> bool" where
  "alphaNumericRune r = (97 \<le> r \<and> r \<le> 122 \<or> 65 \<le> r \<and> r \<le> 90 \<or> 48 \<le> r \<and> r \<le> 57)"

definition validHost :: "string \<Rightarrow> bool" where
  "validHost v =
     (if v = [] \<or> length v > 253 \<or> hasPrefix v ''.'' \<or> hasSuffix v ''.'' then False
      else list_all (\<lambda>label. \<not> (label = [] \<or> hd label = CHR ''-'' \<or> last label = CHR ''-'')
             \<and> allRunes (\<lambda>r. alphaNumericRune r \<or> r = 45) label) (split CHR ''.'' v))"

definition validSlug :: "string \<Rightarrow> string \<Rightarrow> bool" where
  "validSlug owner name =
     (if owner = [] \<or> length owner > 39 \<or> name = [] \<or> length name > 100 \<or> name = ''.'' \<or> name = ''..'' then False
      else if hd owner = CHR ''-'' \<or> last owner = CHR ''-'' \<or> contains owner ''--'' then False
      else allRunes (\<lambda>r. alphaNumericRune r \<or> r = 45) owner
         \<and> allRunes (\<lambda>r. alphaNumericRune r \<or> r = 46 \<or> r = 95 \<or> r = 45) name)"

definition selectorOf :: "string \<Rightarrow> string \<Rightarrow> string \<Rightarrow> repo_selector" where
  "selectorOf host owner name =
     \<lparr>msgHost = toLower host, msgOwner = owner, msgName = name, msgSshPort = 0, msgSshUser = []\<rparr>"

definition parseExplicit :: "string \<Rightarrow> repo_selector result" where
  "parseExplicit v =
     (let parts = split CHR ''/'' v;
          (host, parts) = (if length parts = 3 then (hd parts, tl parts) else (''github.com'', parts)) in
      case parts of
        [owner, name] \<Rightarrow>
          if \<not> validHost host \<or> \<not> validSlug owner name then errorf ''invalid repository'' else Inr (selectorOf host owner name)
      | _ \<Rightarrow> errorf ''invalid repository'')"

text \<open>
  \<^verbatim>\<open>url.PathUnescape\<close> fails on a malformed escape and shortens the text at every other, so that its result
  is the text itself only when there is no percent sign.
\<close>

definition selectorFromPath :: "string \<Rightarrow> string \<Rightarrow> repo_selector result" where
  "selectorFromPath host path =
     (let rawPath = trimPrefix path ''/'' in
      if CHR ''%'' \<in> set rawPath then errorf ''invalid remote path''
      else case split CHR ''/'' (trimSuffix rawPath ''.git'') of
        [owner, name] \<Rightarrow>
          if \<not> validHost host \<or> \<not> validSlug owner name then errorf ''invalid remote'' else Inr (selectorOf host owner name)
      | _ \<Rightarrow> errorf ''invalid remote'')"

text \<open>What the code reads of a parsed URL.\<close>

record remote_url =
  ruScheme :: string
  ruHasUser :: bool
  ruHostname :: string
  ruPort :: string
  ruEscapedPath :: string
  ruRawQuery :: string
  ruFragment :: string

definition indexByte :: "string \<Rightarrow> char \<Rightarrow> nat option" where
  "indexByte s c = (if c \<in> set s then Some (length (takeWhile (\<lambda>x. x \<noteq> c) s)) else None)"

definition parseRemote :: "(string \<Rightarrow> remote_url option) \<Rightarrow> string \<Rightarrow> repo_selector result" where
  "parseRemote parseURL text =
     (let remote = trimSpace text in
      if containsAny remote [CR, LF, NUL] then errorf ''invalid remote''
      else if \<not> contains remote ''://'' then
        (case (lastIndex remote [CHR 0x40], indexByte remote CHR '':'') of
           (Some at, Some colon) \<Rightarrow>
             if at < 1 \<or> colon \<le> at + 1 then errorf ''invalid remote''
             else selectorFromPath (substr remote (at + 1) colon) (drop (colon + 1) remote)
         | _ \<Rightarrow> errorf ''invalid remote'')
      else case parseURL remote of
        None \<Rightarrow> errorf ''invalid remote''
      | Some u \<Rightarrow>
          if ruRawQuery u \<noteq> [] \<or> ruFragment u \<noteq> [] \<or> ruScheme u \<noteq> ''https'' \<and> ruScheme u \<noteq> ''ssh'' then errorf ''invalid remote''
          else if ruScheme u = ''https'' \<and> ruHasUser u \<or> ruPort u \<noteq> [] then errorf ''invalid remote''
          else selectorFromPath (ruHostname u) (ruEscapedPath u))"


section \<open>Metadata files\<close>

datatype file_kind = S_IFDIR | S_IFREG | S_IFOTHER

record file_stat =
  stDev :: int
  stIno :: int
  stKind :: file_kind
  stSize :: int

datatype stat_result = StatOK file_stat | StatENOENT | StatError

text \<open>An open file: its status, unless \<^verbatim>\<open>fstat\<close> fails, its bytes and whether reading them fails.\<close>

record open_file =
  ofStat :: "file_stat option"
  ofContent :: string
  ofReadFails :: bool

text \<open>
  The calls of the system on directories of type \<^typ>\<open>'d\<close>: the root and the working directory's path, a
  child without following a link, the parent, the status of an entry without following a link, the status
  of a directory and a file opened without following a link.
\<close>

record 'd metadata_fs =
  fsRoot :: "'d option"
  fsAbs :: "string \<Rightarrow> string option"
  fsChild :: "'d \<Rightarrow> string \<Rightarrow> 'd option"
  fsParent :: "'d \<Rightarrow> 'd option"
  fsStatAt :: "'d \<Rightarrow> string \<Rightarrow> stat_result"
  fsStat :: "'d \<Rightarrow> file_stat option"
  fsOpenFile :: "'d \<Rightarrow> string \<Rightarrow> open_file option"

definition sameFile :: "file_stat \<Rightarrow> file_stat \<Rightarrow> bool" where
  "sameFile left right = (stDev left = stDev right \<and> stIno left = stIno right)"

text \<open>A component of a path that names an entry of its directory.\<close>

definition metadataComponent :: "string \<Rightarrow> bool" where
  "metadataComponent name = (name \<noteq> [] \<and> name \<noteq> ''.'' \<and> name \<noteq> ''..'' \<and> \<not> contains name ''/'')"

definition fsResult :: "'a option \<Rightarrow> 'a result" where
  "fsResult v = (case v of None \<Rightarrow> errorf ''system call'' | Some x \<Rightarrow> Inr x)"

definition openDirectoryAt :: "'d metadata_fs \<Rightarrow> 'd \<Rightarrow> string \<Rightarrow> 'd result" where
  "openDirectoryAt fs directory name =
     (if \<not> metadataComponent name then errorf ''invalid metadata directory component'' else fsResult (fsChild fs directory name))"

definition openDirectoryPath :: "'d metadata_fs \<Rightarrow> string \<Rightarrow> 'd result" where
  "openDirectoryPath fs path =
     bindE (fsResult (fsAbs fs path)) (\<lambda>absolute.
     bindE (fsResult (fsRoot fs)) (\<lambda>root.
     foldE (\<lambda>current component. if component = [] then Inr current else openDirectoryAt fs current component) root
       (split CHR ''/'' (trimPrefix (path_Clean absolute) ''/''))))"

definition openParentDirectory :: "'d metadata_fs \<Rightarrow> 'd \<Rightarrow> 'd result" where
  "openParentDirectory fs directory = fsResult (fsParent fs directory)"

text \<open>What \<^verbatim>\<open>io.ReadAll\<close> returns from an \<^verbatim>\<open>io.LimitReader\<close>.\<close>

fun takeBytes :: "int \<Rightarrow> string \<Rightarrow> string" where
  "takeBytes n [] = []"
| "takeBytes n (c # cs) = (if n \<le> 0 then [] else c # takeBytes (n - 1) cs)"

definition readRegularAt :: "'d metadata_fs \<Rightarrow> 'd \<Rightarrow> string \<Rightarrow> int \<Rightarrow> string result" where
  "readRegularAt fs directory name limit =
     (if \<not> metadataComponent name then errorf ''invalid metadata file component''
      else
        bindE (fsResult (fsOpenFile fs directory name)) (\<lambda>file.
        bindE (fsResult (ofStat file)) (\<lambda>info.
        if stKind info \<noteq> S_IFREG then errorf ''metadata is not a regular file''
        else if stSize info < 0 \<or> stSize info > limit then errorf ''metadata exceeds client limit''
        else if ofReadFails file then errorf ''system call''
        else let contents = takeBytes (limit + 1) (ofContent file) in
          if int (length contents) > limit then errorf ''metadata exceeds client limit'' else Inr contents)))"

definition regularFileStatAt :: "'d metadata_fs \<Rightarrow> 'd \<Rightarrow> string \<Rightarrow> file_stat result" where
  "regularFileStatAt fs directory name =
     (case fsStatAt fs directory name of
        StatOK info \<Rightarrow> if stKind info \<noteq> S_IFREG then errorf ''metadata is not a regular file'' else Inr info
      | _ \<Rightarrow> errorf ''system call'')"


section \<open>The configuration file of the repository\<close>

definition gitdirPointer :: "string \<Rightarrow> string result" where
  "gitdirPointer contents =
     (let line = trimSpace contents in
      if \<not> prefix (map code ''gitdir:'') (lowerRunes line) then errorf ''invalid git directory pointer''
      else let v = trimSpace (drop 7 line) in
        if \<not> isAbs v \<or> path_Clean v \<noteq> v \<or> NUL \<in> set v then errorf ''invalid git directory pointer'' else Inr v)"

definition validateBackPointer :: "'d metadata_fs \<Rightarrow> file_stat \<Rightarrow> string \<Rightarrow> unit result" where
  "validateBackPointer fs marker path =
     (if \<not> isAbs path \<or> path_Clean path \<noteq> path then errorf ''invalid linked-worktree back pointer''
      else case openDirectoryPath fs (path_Dir path) of
        Inl _ \<Rightarrow> errorf ''invalid linked-worktree back pointer''
      | Inr parent \<Rightarrow>
          (case regularFileStatAt fs parent (path_Base path) of
             Inl _ \<Rightarrow> errorf ''invalid linked-worktree back pointer''
           | Inr backMarker \<Rightarrow>
               if \<not> sameFile marker backMarker then errorf ''invalid linked-worktree back pointer'' else Inr ()))"

definition linkedWorktreeConfig :: "'d metadata_fs \<Rightarrow> file_stat \<Rightarrow> string \<Rightarrow> string result" where
  "linkedWorktreeConfig fs marker pointer =
     bindE (gitdirPointer pointer) (\<lambda>target.
     if path_Base (path_Dir target) \<noteq> ''worktrees'' \<or> path_Base target = ''worktrees''
     then errorf ''invalid linked-worktree layout''
     else
       bindE (openDirectoryPath fs target) (\<lambda>metadata.
       case readRegularAt fs metadata ''commondir'' 4096 of
         Inl _ \<Rightarrow> errorf ''invalid linked-worktree common directory''
       | Inr commonPointer \<Rightarrow>
           if trimSpace commonPointer \<noteq> ''../..'' then errorf ''invalid linked-worktree common directory''
           else (case readRegularAt fs metadata ''gitdir'' 4096 of
             Inl _ \<Rightarrow> errorf ''invalid linked-worktree back pointer''
           | Inr backPointer \<Rightarrow>
               bindE (validateBackPointer fs marker (trimSpace backPointer)) (\<lambda>_.
               bindE (openParentDirectory fs metadata) (\<lambda>worktrees.
               bindE (openParentDirectory fs worktrees) (\<lambda>common.
               readRegularAt fs common ''config'' 65536))))))"

text \<open>The walk to the ancestors, with the depth that is left.\<close>

fun discoverLoop :: "'d metadata_fs \<Rightarrow> nat \<Rightarrow> 'd \<Rightarrow> string result" where
  "discoverLoop fs 0 current = errorf ''Git repository discovery depth exceeded''"
| "discoverLoop fs (Suc depth) current =
     (case fsStatAt fs current ''.git'' of
        StatOK marker \<Rightarrow>
          (case stKind marker of
             S_IFDIR \<Rightarrow>
               bindE (openDirectoryAt fs current ''.git'') (\<lambda>gitDirectory. readRegularAt fs gitDirectory ''config'' 65536)
           | S_IFREG \<Rightarrow>
               bindE (readRegularAt fs current ''.git'' 4096) (\<lambda>pointer. linkedWorktreeConfig fs marker pointer)
           | S_IFOTHER \<Rightarrow> errorf ''invalid .git metadata type'')
      | StatError \<Rightarrow> errorf ''system call''
      | StatENOENT \<Rightarrow>
          bindE (openParentDirectory fs current) (\<lambda>parent.
          case (fsStat fs current, fsStat fs parent) of
            (Some hereInfo, Some parentInfo) \<Rightarrow>
              if sameFile hereInfo parentInfo then errorf ''Git repository unavailable'' else discoverLoop fs depth parent
          | _ \<Rightarrow> errorf ''inspect repository ancestors''))"

definition discoverGitConfig :: "'d metadata_fs \<Rightarrow> string \<Rightarrow> string result" where
  "discoverGitConfig fs cwd = bindE (openDirectoryPath fs cwd) (discoverLoop fs 64)"


section \<open>The origin remote\<close>

text \<open>
  One line of the configuration file, without its line feed: the section it opens, the URL it gives or
  nothing.
\<close>

datatype config_line = SectionLine bool | URLLine string | OtherLine

definition dropCR :: "string \<Rightarrow> string" where
  "dropCR s = (if s \<noteq> [] \<and> last s = CR then butlast s else s)"

definition configLine :: "bool \<Rightarrow> string \<Rightarrow> config_line" where
  "configLine inOrigin text =
     (let line = trimSpace (dropCR text) in
      if line = [] \<or> hasPrefix line ''#'' \<or> hasPrefix line '';'' then OtherLine
      else if hasPrefix line ''['' \<and> hasSuffix line '']'' then
        (let heading = lowerRunes (trimSpace (substr line 1 (length line - 1))) in
         SectionLine (heading = map code (''remote '' @ [CHR 0x22] @ ''origin'' @ [CHR 0x22]) \<or> heading = map code ''remote.origin''))
      else if \<not> inOrigin then OtherLine
      else case cut CHR ''='' line of (key, v, found) \<Rightarrow>
        if \<not> found \<or> \<not> foldsTo (trimSpace key) ''url'' then OtherLine else URLLine (trimSpace v))"

definition decodedURL :: "string \<Rightarrow> string result" where
  "decodedURL v =
     bindE (if hasPrefix v [CHR 0x22] then (case unquote v of None \<Rightarrow> errorf ''invalid syntax'' | Some d \<Rightarrow> Inr d) else Inr v) (\<lambda>d.
       if d = [] \<or> containsAny d [CR, LF, NUL] then errorf ''invalid origin URL'' else Inr d)"

text \<open>\<^verbatim>\<open>bufio.Scanner\<close> fails on a line that fills its buffer of 65536 bytes.\<close>

fun originLoop :: "bool \<Rightarrow> string list \<Rightarrow> string result" where
  "originLoop inOrigin [] = errorf ''origin URL unavailable''"
| "originLoop inOrigin (line # lines) =
     (if int (length line) \<ge> 65536 then errorf ''bufio.Scanner: token too long''
      else case configLine inOrigin line of
        OtherLine \<Rightarrow> originLoop inOrigin lines
      | SectionLine origin \<Rightarrow> originLoop origin lines
      | URLLine v \<Rightarrow> decodedURL v)"

text \<open>The lines of a text; the end of the text ends a line too, unless it is empty.\<close>

definition scanLines :: "string \<Rightarrow> string list" where
  "scanLines s = (let parts = split LF s in if last parts = [] then butlast parts else parts)"

definition originURL :: "string \<Rightarrow> string result" where
  "originURL contents = originLoop False (scanLines contents)"

definition originRemote :: "'d metadata_fs \<Rightarrow> string \<Rightarrow> string result" where
  "originRemote fs cwd = bindE (discoverGitConfig fs cwd) originURL"

text \<open>The hint. The origin remote of the working directory is given as a function.\<close>

definition RepositoryHint ::
  "(string \<Rightarrow> string result) \<Rightarrow> (string \<Rightarrow> remote_url option) \<Rightarrow> string \<Rightarrow> string \<Rightarrow> repo_selector result" where
  "RepositoryHint origin parseURL cwd explicit =
     (if explicit \<noteq> [] then
        (case parseExplicit explicit of
           Inl _ \<Rightarrow> errorf ''invalid --repo; expected [HOST/]OWNER/REPO''
         | Inr selector \<Rightarrow> Inr selector)
      else case origin cwd of
        Inl _ \<Rightarrow> errorf ''repository unavailable; use --repo OWNER/REPO''
      | Inr remote \<Rightarrow>
          (case parseRemote parseURL remote of
             Inl _ \<Rightarrow> errorf ''repository unavailable; use --repo OWNER/REPO''
           | Inr selector \<Rightarrow> Inr selector))"

section \<open>The configuration that the walk finds\<close>

text \<open>A walk from a directory to an ancestor, over directories with no entry for Git.\<close>

inductive ascends :: "'d metadata_fs \<Rightarrow> 'd \<Rightarrow> nat \<Rightarrow> 'd \<Rightarrow> bool" where
  here: "ascends fs d 0 d"
| up: "fsStatAt fs d ''.git'' = StatENOENT \<Longrightarrow> fsParent fs d = Some d' \<Longrightarrow> ascends fs d' n e \<Longrightarrow> ascends fs d (Suc n) e"

text \<open>
  A file is the marker of a linked worktree when the metadata directory that it points to lies in a
  directory of that name, has the common directory two levels above it, and names by its back pointer a
  regular file which is the marker itself.
\<close>

definition linkedTo :: "'d metadata_fs \<Rightarrow> file_stat \<Rightarrow> string \<Rightarrow> 'd \<Rightarrow> bool" where
  "linkedTo fs marker pointer common \<longleftrightarrow>
     (\<exists>target metadata worktrees commonPointer back parent info.
        gitdirPointer pointer = Inr target \<and> path_Base (path_Dir target) = ''worktrees''
        \<and> openDirectoryPath fs target = Inr metadata
        \<and> readRegularAt fs metadata ''commondir'' 4096 = Inr commonPointer \<and> trimSpace commonPointer = ''../..''
        \<and> readRegularAt fs metadata ''gitdir'' 4096 = Inr back
        \<and> openDirectoryPath fs (path_Dir (trimSpace back)) = Inr parent
        \<and> fsStatAt fs parent (path_Base (trimSpace back)) = StatOK info \<and> stKind info = S_IFREG \<and> sameFile marker info
        \<and> fsParent fs metadata = Some worktrees \<and> fsParent fs worktrees = Some common)"

text \<open>The repository of a directory: a Git directory in it, or the common directory of its linked worktree.\<close>

definition repositoryAt :: "'d metadata_fs \<Rightarrow> 'd \<Rightarrow> 'd \<Rightarrow> bool" where
  "repositoryAt fs d gitDirectory \<longleftrightarrow>
     (\<exists>marker. fsStatAt fs d ''.git'' = StatOK marker \<and>
        (stKind marker = S_IFDIR \<and> fsChild fs d ''.git'' = Some gitDirectory
         \<or> stKind marker = S_IFREG \<and>
             (\<exists>pointer. readRegularAt fs d ''.git'' 4096 = Inr pointer \<and> linkedTo fs marker pointer gitDirectory)))"

lemma fsResult_Inr [simp]: "fsResult v = Inr x \<longleftrightarrow> v = Some x"
  by (simp add: fsResult_def split: option.splits)

lemma takeBytes_short: "int (length (takeBytes n s)) < n \<Longrightarrow> takeBytes n s = s"
  by (induction n s rule: takeBytes.induct) (auto split: if_splits)

lemma readRegularAt_Inr:
  assumes "readRegularAt fs d name limit = Inr contents"
  shows "\<exists>f info. fsOpenFile fs d name = Some f \<and> ofStat f = Some info \<and> stKind info = S_IFREG
    \<and> contents = ofContent f \<and> int (length contents) \<le> limit"
  using assms takeBytes_short by (fastforce simp: readRegularAt_def bindE_eq_Inr Let_def split: if_splits)

text \<open>A failure that is reported with a message of the caller.\<close>

lemma relabelled_Inr [simp]: "(case m of Inl _ \<Rightarrow> errorf msg | Inr x \<Rightarrow> k x) = Inr y \<longleftrightarrow> (\<exists>x. m = Inr x \<and> k x = Inr y)"
  by (simp split: sum.splits)

lemma validateBackPointer_Inr:
  "validateBackPointer fs marker path = Inr () \<Longrightarrow> \<exists>parent info. openDirectoryPath fs (path_Dir path) = Inr parent
     \<and> fsStatAt fs parent (path_Base path) = StatOK info \<and> stKind info = S_IFREG \<and> sameFile marker info"
  by (auto simp: validateBackPointer_def regularFileStatAt_def split: if_splits stat_result.splits)

lemma linkedWorktreeConfig_Inr:
  assumes "linkedWorktreeConfig fs marker pointer = Inr contents"
  shows "\<exists>common. linkedTo fs marker pointer common \<and> readRegularAt fs common ''config'' 65536 = Inr contents"
proof -
  obtain target metadata commonPointer backText worktrees common where
    t: "gitdirPointer pointer = Inr target" "path_Base (path_Dir target) = ''worktrees''" "openDirectoryPath fs target = Inr metadata"
      "readRegularAt fs metadata ''commondir'' 4096 = Inr commonPointer" "trimSpace commonPointer = ''../..''"
      "readRegularAt fs metadata ''gitdir'' 4096 = Inr backText" and
    b: "validateBackPointer fs marker (trimSpace backText) = Inr ()" and
    c: "fsParent fs metadata = Some worktrees" "fsParent fs worktrees = Some common"
      "readRegularAt fs common ''config'' 65536 = Inr contents"
    using assms
    by (simp add: linkedWorktreeConfig_def bindE_eq_Inr openParentDirectory_def if_distrib [of "\<lambda>x. x = Inr _"] cong: if_cong)
      (auto split: if_splits)
  with validateBackPointer_Inr [OF b] have "linkedTo fs marker pointer common"
    unfolding linkedTo_def by blast
  with c(3) show ?thesis by blast
qed

lemma discoverLoop_Inr:
  "discoverLoop fs depth current = Inr contents \<Longrightarrow>
     \<exists>n d gitDirectory. n < depth \<and> ascends fs current n d \<and> repositoryAt fs d gitDirectory
       \<and> readRegularAt fs gitDirectory ''config'' 65536 = Inr contents"
proof (induction depth arbitrary: current)
  case (Suc depth)
  show ?case
  proof (cases "fsStatAt fs current ''.git''")
    case (StatOK marker)
    have "\<exists>g. repositoryAt fs current g \<and> readRegularAt fs g ''config'' 65536 = Inr contents"
    proof (cases "stKind marker")
      case S_IFDIR
      with StatOK Suc.prems obtain g where "fsChild fs current ''.git'' = Some g" "readRegularAt fs g ''config'' 65536 = Inr contents"
        by (auto simp: openDirectoryAt_def bindE_eq_Inr split: if_splits)
      with StatOK S_IFDIR show ?thesis unfolding repositoryAt_def by blast
    next
      case S_IFREG
      with StatOK Suc.prems obtain pointer where "readRegularAt fs current ''.git'' 4096 = Inr pointer"
          "linkedWorktreeConfig fs marker pointer = Inr contents"
        by (auto simp: bindE_eq_Inr)
      with StatOK S_IFREG linkedWorktreeConfig_Inr show ?thesis unfolding repositoryAt_def by blast
    next
      case S_IFOTHER
      with StatOK Suc.prems show ?thesis by simp
    qed
    then obtain g where "repositoryAt fs current g" "readRegularAt fs g ''config'' 65536 = Inr contents" by blast
    with ascends.here [of fs current] show ?thesis by (intro exI [of _ 0] exI [of _ current] exI [of _ g]) simp
  next
    case StatENOENT
    then obtain parent where "fsParent fs current = Some parent" "discoverLoop fs depth parent = Inr contents"
      using Suc.prems by (auto simp: bindE_eq_Inr openParentDirectory_def split: option.splits if_splits)
    with Suc.IH StatENOENT show ?thesis by (blast intro: ascends.up)
  next
    case StatError
    with Suc.prems show ?thesis by simp
  qed
qed simp

text \<open>
  C22. The metadata that the client trusts for its hint. When the client finds a Git configuration, it is a
  regular file of at most 65536 bytes in the Git directory of the nearest of the first 64 ancestors that
  has an entry for Git. A file in place of that directory counts only when the metadata it points to
  points back at this very file, so that a copied or forged marker cannot borrow another repository.
\<close>

theorem discovered_config:
  assumes "discoverGitConfig fs cwd = Inr contents"
  shows "\<exists>start n d gitDirectory f. openDirectoryPath fs cwd = Inr start \<and> n < 64 \<and> ascends fs start n d
    \<and> repositoryAt fs d gitDirectory \<and> fsOpenFile fs gitDirectory ''config'' = Some f
    \<and> map_option stKind (ofStat f) = Some S_IFREG \<and> contents = ofContent f \<and> length contents \<le> 65536"
proof -
  obtain start where s: "openDirectoryPath fs cwd = Inr start" "discoverLoop fs 64 start = Inr contents"
    using assms by (auto simp: discoverGitConfig_def bindE_eq_Inr)
  then obtain n d g where d: "n < 64" "ascends fs start n d" "repositoryAt fs d g" "readRegularAt fs g ''config'' 65536 = Inr contents"
    using discoverLoop_Inr [OF s(2)] by blast
  from readRegularAt_Inr [OF d(4)] obtain f where
    "fsOpenFile fs g ''config'' = Some f" "map_option stKind (ofStat f) = Some S_IFREG" "contents = ofContent f" "length contents \<le> 65536"
    by auto
  with s(1) d(1-3) show ?thesis by blast
qed

text \<open>
  An example: the working directory \<^verbatim>\<open>/wt/sub\<close> lies in a linked worktree of the repository
  \<^verbatim>\<open>/repo/.git\<close>. Directories are their paths.
\<close>

definition exampleStat :: "int \<Rightarrow> file_kind \<Rightarrow> file_stat" where
  "exampleStat ino kind = \<lparr>stDev = 1, stIno = ino, stKind = kind, stSize = 60\<rparr>"

definition exampleConfigText :: string where
  "exampleConfigText = ''[remote '' @ [CHR 0x22] @ ''origin'' @ [CHR 0x22] @ '']'' @ [LF] @ ''url = git'' @ [CHR 0x40] @ ''github.com:Team/Repo.git'' @ [LF]"

definition exampleFiles :: "string gomap" where
  "exampleFiles =
     [(''/wt/.git'', ''gitdir: /repo/.git/worktrees/wt'' @ [LF]),
      (''/repo/.git/worktrees/wt/commondir'', ''../..'' @ [LF]),
      (''/repo/.git/worktrees/wt/gitdir'', ''/wt/.git'' @ [LF]),
      (''/repo/.git/config'', exampleConfigText)]"

definition exampleDirectories :: "string list" where
  "exampleDirectories = [''/'', ''/wt'', ''/wt/sub'', ''/repo'', ''/repo/.git'', ''/repo/.git/worktrees'', ''/repo/.git/worktrees/wt'']"

definition exampleFS :: "string metadata_fs" where
  "exampleFS =
     \<lparr>fsRoot = Some ''/'',
      fsAbs = Some,
      fsChild = \<lambda>d n. let p = path_Join [d, n] in if p \<in> set exampleDirectories then Some p else None,
      fsParent = \<lambda>d. Some (path_Dir d),
      fsStatAt = \<lambda>d n. let p = path_Join [d, n] in
        if p \<in> set exampleDirectories then StatOK (exampleStat (int (length p)) S_IFDIR)
        else if map_of exampleFiles p \<noteq> None then StatOK (exampleStat (int (length p)) S_IFREG) else StatENOENT,
      fsStat = \<lambda>d. Some (exampleStat (int (length d)) S_IFDIR),
      fsOpenFile = \<lambda>d n. map_option (\<lambda>f. \<lparr>ofStat = Some (exampleStat 100 S_IFREG), ofContent = f, ofReadFails = False\<rparr>)
        (map_of exampleFiles (path_Join [d, n]))\<rparr>"

lemma exampleFS_found: "discoverGitConfig exampleFS ''/wt/sub'' = Inr exampleConfigText"
  by code_simp

theorem discovered_config_witness:
  "\<exists>start n d gitDirectory f. openDirectoryPath exampleFS ''/wt/sub'' = Inr start \<and> n < 64 \<and> ascends exampleFS start n d
    \<and> repositoryAt exampleFS d gitDirectory \<and> fsOpenFile exampleFS gitDirectory ''config'' = Some f
    \<and> map_option stKind (ofStat f) = Some S_IFREG \<and> exampleConfigText = ofContent f \<and> length exampleConfigText \<le> 65536"
  by (rule discovered_config [OF exampleFS_found])

end
