(* ===== verification/Gh_Parse.thy ===== *)
theory Gh_Parse
  imports GitHub_Request Client_Repository
begin

text \<open>
  Package \<^verbatim>\<open>internal/client/github\<close>, the arguments: the program that stands for \<^verbatim>\<open>gh\<close> in the sandbox turns a
  bounded list of arguments into one typed request (\<^verbatim>\<open>parse.go\<close>, \<^verbatim>\<open>flags.go\<close>, \<^verbatim>\<open>issue.go\<close>, \<^verbatim>\<open>label.go\<close>,
  \<^verbatim>\<open>pull.go\<close>, \<^verbatim>\<open>run.go\<close>, \<^verbatim>\<open>identity.go\<close>, \<^verbatim>\<open>repository.go\<close>, \<^verbatim>\<open>body_file.go\<close>).

  The functions of the code return their values with an error beside them; the callers use the values only
  when the error is nil, so a result here is either. Where the code keeps the first of several errors
  (\<^verbatim>\<open>firstError\<close>), the checks follow each other. Two loops of the code range over a map of two or three
  flags; the checks here are in the order in which the code writes these flags, so that only the choice
  between two error messages differs.
\<close>

section \<open>Commands\<close>

datatype operation_kind =
    operationUnknown | operationRepositoryView | operationAuthStatus | operationCurrentUserLogin
  | operationIssueList | operationIssueView | operationIssueCreate | operationIssueEdit | operationIssueComment
  | operationIssueClose | operationIssueReopen | operationLabelList | operationLabelCreate
  | operationIssueLabelChange | operationPullList | operationPullView | operationPullCreate | operationPullEdit
  | operationPullComment | operationPullClose | operationPullReopen | operationPullReady | operationPullChecks
  | operationRunList | operationRunView | operationStatusView

record gh_client_command =
  ghcRequest :: github_request
  ghcKind :: operation_kind
  ghcFields :: "string list"

definition gh_addArgument :: "int \<Rightarrow> string \<Rightarrow> int result" where
  "gh_addArgument n arg =
     (let n' = n + int (length arg) in
      if n' > 65536 \<or> \<not> validString arg \<or> NUL \<in> set arg then errorf ''invalid argument data'' else Inr n')"

definition gh_validateArgv :: "string list \<Rightarrow> unit result" where
  "gh_validateArgv args =
     (if length args < 2 \<or> length args > 64 then errorf ''an approved command and subcommand are required''
      else bindE (foldE gh_addArgument 0 args) (\<lambda>_. Inr ()))"


section \<open>Flags\<close>

datatype flag_kind = ValueFlag | BoolFlag

record parsed_flags =
  flValues :: "string gomap"
  flBools :: "bool gomap"

definition noFlags :: parsed_flags where
  "noFlags = \<lparr>flValues = [], flBools = []\<rparr>"

type_synonym parsed_operation = "github_operation \<times> parsed_flags \<times> operation_kind"

definition setValue :: "string \<Rightarrow> string \<Rightarrow> parsed_flags \<Rightarrow> parsed_flags" where
  "setValue name v p = p\<lparr>flValues := mapSet name v (flValues p)\<rparr>"

definition setBool :: "string \<Rightarrow> parsed_flags \<Rightarrow> parsed_flags" where
  "setBool name p = p\<lparr>flBools := mapSet name True (flBools p)\<rparr>"

fun flagsLoop :: "flag_kind gomap \<Rightarrow> string set \<Rightarrow> parsed_flags \<Rightarrow> string list \<Rightarrow> parsed_flags result" where
  "flagsLoop allowed seen parsed [] = Inr parsed"
| "flagsLoop allowed seen parsed (name # rest) =
     (case map_of allowed name of
        None \<Rightarrow> Inl (Errorf ''unsupported argument %q'' [ArgS name])
      | Some kind \<Rightarrow>
          if \<not> hasPrefix name ''--'' \<or> contains name ''='' then Inl (Errorf ''unsupported argument %q'' [ArgS name])
          else if name \<in> seen then Inl (Errorf ''duplicate flag %s'' [ArgS name])
          else if kind = BoolFlag then flagsLoop allowed (insert name seen) (setBool name parsed) rest
          else (case rest of
                  [] \<Rightarrow> Inl (Errorf ''flag %s requires a value'' [ArgS name])
                | v # rest' \<Rightarrow>
                    if hasPrefix v ''--'' then Inl (Errorf ''flag %s requires a value'' [ArgS name])
                    else flagsLoop allowed (insert name seen) (setValue name v parsed) rest'))"

definition parseFlags :: "string list \<Rightarrow> flag_kind gomap \<Rightarrow> parsed_flags result" where
  "parseFlags args allowed = flagsLoop allowed {} noFlags args"

definition operationFlags :: "string list \<Rightarrow> flag_kind gomap" where
  "operationFlags names =
     foldl (\<lambda>m name. mapSet name ValueFlag m) [(''--repo'', ValueFlag), (''--json'', ValueFlag)] names"

definition operationFlagsWithBools :: "string list \<Rightarrow> string list \<Rightarrow> flag_kind gomap" where
  "operationFlagsWithBools names bools = foldl (\<lambda>m name. mapSet name BoolFlag m) (operationFlags names) bools"

definition flagValue :: "parsed_flags \<Rightarrow> string \<Rightarrow> string option" where
  "flagValue p name = map_of (flValues p) name"

definition valueOr :: "parsed_flags \<Rightarrow> string \<Rightarrow> string \<Rightarrow> string" where
  "valueOr p name fallback = (case flagValue p name of Some v \<Rightarrow> v | None \<Rightarrow> fallback)"

definition positiveDecimal :: "string \<Rightarrow> 64 word result" where
  "positiveDecimal v =
     (if v = [] \<or> hd v = CHR ''+'' \<or> hd v = CHR ''-'' \<or> length v > 1 \<and> hd v = CHR ''0''
      then errorf ''expected a positive decimal integer''
      else case parseUint 64 v of
        None \<Rightarrow> errorf ''expected a positive decimal integer''
      | Some n \<Rightarrow> if n = 0 then errorf ''expected a positive decimal integer'' else Inr (word_of_int n))"

definition requiredNumber :: "string list \<Rightarrow> (64 word \<times> string list) result" where
  "requiredNumber args =
     (case args of
        [] \<Rightarrow> errorf ''positive number is required''
      | arg # rest \<Rightarrow> bindE (positiveDecimal arg) (\<lambda>n. Inr (n, rest)))"

definition listLimit :: "string \<Rightarrow> int \<Rightarrow> 64 word result" where
  "listLimit v maximum =
     (case positiveDecimal v of
        Inl _ \<Rightarrow> Inl (Errorf ''limit must be between 1 and %d'' [ArgI maximum])
      | Inr n \<Rightarrow> if uint n > maximum then Inl (Errorf ''limit must be between 1 and %d'' [ArgI maximum]) else Inr n)"

text \<open>A check that stops with a message.\<close>

definition require :: "bool \<Rightarrow> string \<Rightarrow> unit result" where
  "require b msg = (if b then Inr () else errorf msg)"

text \<open>A flag that must be there and pass a check.\<close>

definition requiredFlag :: "parsed_flags \<Rightarrow> string \<Rightarrow> (string \<Rightarrow> bool) \<Rightarrow> string \<Rightarrow> string result" where
  "requiredFlag p name check msg =
     (case flagValue p name of None \<Rightarrow> errorf msg | Some v \<Rightarrow> if check v then Inr v else errorf msg)"

text \<open>A flag that is absent, or must pass a check.\<close>

definition absentOr :: "parsed_flags \<Rightarrow> string \<Rightarrow> (string \<Rightarrow> bool) \<Rightarrow> bool" where
  "absentOr p name check = (case flagValue p name of None \<Rightarrow> True | Some v \<Rightarrow> check v)"


section \<open>Response fields\<close>

definition gh_issueFields :: "bool \<Rightarrow> string list" where
  "gh_issueFields includeComments =
     [''number'', ''title'', ''body'', ''state'', ''author'', ''assignees'', ''labels'', ''url'', ''createdAt'', ''updatedAt'']
     @ (if includeComments then [''comments''] else [])"

definition gh_pullFields :: "bool \<Rightarrow> string list" where
  "gh_pullFields details =
     [''number'', ''title'', ''body'', ''state'', ''draft'', ''author'', ''head'', ''base'', ''headObjectId'', ''url'',
      ''createdAt'', ''updatedAt''] @ (if details then [''mergeableState''] else [])"

definition gh_runFields :: "bool \<Rightarrow> string list" where
  "gh_runFields details =
     [''id'', ''name'', ''workflowName'', ''status'', ''conclusion'', ''event'', ''headBranch'', ''headObjectId'', ''url'',
      ''createdAt'', ''updatedAt''] @ (if details then [''attempt'', ''jobsUrl''] else [])"

fun responseFields :: "operation_kind \<Rightarrow> string list option" where
  "responseFields operationRepositoryView =
     Some [''repository'', ''name'', ''owner'', ''nameWithOwner'', ''description'', ''private'', ''url'', ''defaultBranch'', ''sshUrl'']"
| "responseFields operationIssueList =
     Some [''number'', ''title'', ''body'', ''state'', ''author'', ''assignees'', ''labels'', ''url'', ''createdAt'', ''updatedAt'']"
| "responseFields operationIssueView = Some (gh_issueFields True)"
| "responseFields operationIssueCreate = Some (gh_issueFields False)"
| "responseFields operationIssueEdit = Some (gh_issueFields False)"
| "responseFields operationIssueClose = Some (gh_issueFields False)"
| "responseFields operationIssueReopen = Some (gh_issueFields False)"
| "responseFields operationIssueLabelChange = Some (gh_issueFields False)"
| "responseFields operationLabelList = Some [''name'']"
| "responseFields operationIssueComment = Some [''id'', ''author'', ''body'', ''url'', ''createdAt'', ''updatedAt'']"
| "responseFields operationPullList = Some (gh_pullFields False)"
| "responseFields operationPullView = Some (gh_pullFields True)"
| "responseFields operationPullCreate = Some (gh_pullFields True)"
| "responseFields operationPullEdit = Some (gh_pullFields True)"
| "responseFields operationPullClose = Some (gh_pullFields True)"
| "responseFields operationPullReopen = Some (gh_pullFields True)"
| "responseFields operationPullReady = Some (gh_pullFields True)"
| "responseFields operationPullComment = Some [''id'', ''author'', ''body'', ''url'', ''createdAt'', ''updatedAt'']"
| "responseFields operationPullChecks =
     Some [''name'', ''state'', ''conclusion'', ''detailsUrl'', ''description'', ''startedAt'', ''completedAt'']"
| "responseFields operationRunList = Some (gh_runFields False)"
| "responseFields operationRunView = Some (gh_runFields True)"
| "responseFields operationStatusView = Some [''state'', ''objectId'', ''statuses'']"
| "responseFields _ = None"

fun fieldsUnique :: "string list \<Rightarrow> string set \<Rightarrow> string list \<Rightarrow> unit result" where
  "fieldsUnique allowed seen [] = Inr ()"
| "fieldsUnique allowed seen (field # rest) =
     (if field \<notin> set allowed \<or> field = [] then Inl (Errorf ''unsupported JSON field %q'' [ArgS field])
      else if field \<in> seen then Inl (Errorf ''duplicate JSON field %q'' [ArgS field])
      else fieldsUnique allowed (insert field seen) rest)"

definition selectedFields :: "operation_kind \<Rightarrow> string \<Rightarrow> string list result" where
  "selectedFields kind v =
     (if v = [] then Inr []
      else case responseFields kind of
        None \<Rightarrow> errorf ''operation does not support selected JSON fields''
      | Some allowed \<Rightarrow> let parts = split CHR '','' v in bindE (fieldsUnique allowed {} parts) (\<lambda>_. Inr parts))"


section \<open>Values\<close>

definition validTitle :: "string \<Rightarrow> bool" where
  "validTitle v = (v \<noteq> [] \<and> length v \<le> 256 \<and> validString v)"

definition validBody :: "string \<Rightarrow> bool \<Rightarrow> bool" where
  "validBody v required = ((\<not> required \<or> v \<noteq> []) \<and> int (length v) \<le> 65536 \<and> validString v)"

definition validName :: "string \<Rightarrow> bool \<Rightarrow> bool" where
  "validName v required =
     ((\<not> required \<or> v \<noteq> []) \<and> length v \<le> 255 \<and> validString v \<and> \<not> containsAny v [CHR '' '', CHR 0x09, CR, LF, NUL])"

definition validLabelName :: "string \<Rightarrow> bool" where
  "validLabelName v = (v \<noteq> [] \<and> validString v \<and> NUL \<notin> set v \<and> runeCount v \<le> 50)"

definition validLabelColor :: "string \<Rightarrow> bool" where
  "validLabelColor v = (length v = 6 \<and> allRunes hexRune v)"

definition validLabelDescription :: "string \<Rightarrow> bool" where
  "validLabelDescription v = (validString v \<and> NUL \<notin> set v \<and> runeCount v \<le> 100)"

definition gh_validObjectID :: "string \<Rightarrow> bool" where
  "gh_validObjectID v = ((length v = 40 \<or> length v = 64) \<and> allRunes hexRune v)"

fun labelLoop :: "string list \<Rightarrow> string list \<Rightarrow> string list result" where
  "labelLoop labels [] = Inr labels"
| "labelLoop labels (part # parts) =
     (let label = trim part [CHR '' '', CHR 0x09] in
      if label = [] \<or> length label > 255 \<or> \<not> validString label \<or> NUL \<in> set label then errorf ''invalid label list''
      else if label \<in> set labels then errorf ''duplicate label''
      else labelLoop (labels @ [label]) parts)"

definition labelCSV :: "string \<Rightarrow> string list result" where
  "labelCSV v =
     (let parts = split CHR '','' v in
      if length parts > 100 then errorf ''too many labels'' else labelLoop [] parts)"

text \<open>The labels of a flag, none if it is absent.\<close>

definition labelFlag :: "parsed_flags \<Rightarrow> string \<Rightarrow> string list result" where
  "labelFlag p name = (case flagValue p name of None \<Rightarrow> Inr [] | Some v \<Rightarrow> labelCSV v)"

definition stateNames :: "int gomap" where
  "stateNames = [(''open'', 1), (''closed'', 2), (''all'', 3)]"

definition gh_issueState :: "string \<Rightarrow> int result" where
  "gh_issueState v = (case map_of stateNames v of None \<Rightarrow> errorf ''invalid issue state'' | Some n \<Rightarrow> Inr n)"

definition gh_pullState :: "string \<Rightarrow> int result" where
  "gh_pullState v = (case map_of stateNames v of None \<Rightarrow> errorf ''invalid pull-request state'' | Some n \<Rightarrow> Inr n)"

definition runStatuses :: "int gomap" where
  "runStatuses =
     [(''queued'', 1), (''in_progress'', 2), (''completed'', 3), (''success'', 4), (''failure'', 5), (''cancelled'', 6),
      (''skipped'', 7), (''timed_out'', 8), (''action_required'', 9), (''neutral'', 10), (''stale'', 11),
      (''startup_failure'', 12), (''requested'', 13), (''waiting'', 14), (''pending'', 15)]"

definition gh_runStatus :: "string \<Rightarrow> int result" where
  "gh_runStatus v = (case map_of runStatuses v of None \<Rightarrow> errorf ''invalid run status'' | Some n \<Rightarrow> Inr n)"


section \<open>Identity and repository\<close>

definition parseAuth :: "string list \<Rightarrow> parsed_operation result" where
  "parseAuth args =
     (if args \<noteq> [''status''] then errorf ''unsupported auth operation''
      else Inr (GhCurrentUser (Some ()), noFlags, operationAuthStatus))"

definition parseAPI :: "string list \<Rightarrow> parsed_operation result" where
  "parseAPI args =
     (if args \<noteq> [''user'', ''--jq'', ''.login''] then errorf ''unsupported API operation''
      else Inr (GhCurrentUser (Some ()), noFlags, operationCurrentUserLogin))"

text \<open>The slug before the flags of \<^verbatim>\<open>repo view\<close>, if there is one.\<close>

definition leadingSlug :: "string list \<Rightarrow> (string \<times> string list) result" where
  "leadingSlug arguments =
     (case arguments of
        [] \<Rightarrow> Inr ([], [])
      | arg # rest \<Rightarrow>
          if hasPrefix arg ''--'' then Inr ([], arguments)
          else if arg = [] then errorf ''repository slug cannot be empty''
          else Inr (arg, rest))"

definition gh_parseRepository :: "string list \<Rightarrow> parsed_operation result" where
  "gh_parseRepository args =
     (if args = [] \<or> hd args \<noteq> ''view'' then errorf ''unsupported repository operation''
      else
        bindE (leadingSlug (tl args)) (\<lambda>(slug, arguments).
        bindE (parseFlags arguments (operationFlags [])) (\<lambda>p.
        if slug \<noteq> [] then
          (if flagValue p ''--repo'' \<noteq> None then errorf ''repository slug and --repo cannot be combined''
           else Inr (GhRepositoryView (Some ()), setValue ''--repo'' slug p, operationRepositoryView))
        else Inr (GhRepositoryView (Some ()), p, operationRepositoryView))))"


section \<open>Issues\<close>

definition gh_parseIssueList :: "string list \<Rightarrow> parsed_operation result" where
  "gh_parseIssueList args =
     bindE (parseFlags args (operationFlags [''--state'', ''--limit''])) (\<lambda>p.
     bindE (gh_issueState (valueOr p ''--state'' ''open'')) (\<lambda>state.
     bindE (listLimit (valueOr p ''--limit'' ''30'') 1001) (\<lambda>limit.
     Inr (GhIssueList (Some \<lparr>ilState = state, ilLimit = limit\<rparr>), p, operationIssueList))))"

definition gh_parseIssueCreate :: "string list \<Rightarrow> parsed_operation result" where
  "gh_parseIssueCreate args =
     bindE (parseFlags args (operationFlags [''--title'', ''--body'', ''--label''])) (\<lambda>p.
     bindE (requiredFlag p ''--title'' validTitle ''--title is required'') (\<lambda>title.
     bindE (require (absentOr p ''--body'' (\<lambda>v. validBody v False)) ''invalid --body'') (\<lambda>_.
     bindE (labelFlag p ''--label'') (\<lambda>labels.
     Inr (GhIssueCreate (Some \<lparr>icTitle = title, icBody = flagValue p ''--body'', icLabels = labels, icAssignees = []\<rparr>),
          p, operationIssueCreate)))))"

definition gh_parseIssueLabelChange :: "64 word \<Rightarrow> parsed_flags \<Rightarrow> parsed_operation result" where
  "gh_parseIssueLabelChange number p =
     bindE (require (flagValue p ''--title'' = None) ''label changes cannot be combined with --title or --body'') (\<lambda>_.
     bindE (require (flagValue p ''--body'' = None) ''label changes cannot be combined with --title or --body'') (\<lambda>_.
     bindE (labelFlag p ''--add-label'') (\<lambda>adds.
     bindE (labelFlag p ''--remove-label'') (\<lambda>removes.
     bindE (require (list_all (\<lambda>a. list_all (\<lambda>r. a \<noteq> r) removes) adds) ''label cannot be both added and removed'') (\<lambda>_.
     Inr (GhIssueLabelChange (Some \<lparr>lhNumber = number, AddLabels = adds, RemoveLabels = removes\<rparr>), p,
          operationIssueLabelChange))))))"

text \<open>An edit of the title or the body.\<close>

definition issueFieldEdit :: "64 word \<Rightarrow> parsed_flags \<Rightarrow> parsed_operation result" where
  "issueFieldEdit number p =
     bindE (require (absentOr p ''--title'' validTitle) ''invalid --title'') (\<lambda>_.
     bindE (require (absentOr p ''--body'' (\<lambda>v. validBody v False)) ''invalid --body'') (\<lambda>_.
     bindE (require (flagValue p ''--title'' \<noteq> None \<or> flagValue p ''--body'' \<noteq> None) ''issue edit requires a mutable field'') (\<lambda>_.
     Inr (GhIssueEdit (Some \<lparr>ieNumber = number, ieTitle = flagValue p ''--title'', ieBody = flagValue p ''--body'',
            ieLabels = None, ieAssignees = None\<rparr>), p, operationIssueEdit))))"

definition gh_parseIssueEdit :: "string list \<Rightarrow> parsed_operation result" where
  "gh_parseIssueEdit args =
     bindE (requiredNumber args) (\<lambda>(number, rest).
     bindE (parseFlags rest (operationFlags [''--title'', ''--body'', ''--add-label'', ''--remove-label''])) (\<lambda>p.
     if flagValue p ''--add-label'' \<noteq> None \<or> flagValue p ''--remove-label'' \<noteq> None then gh_parseIssueLabelChange number p
     else issueFieldEdit number p))"

text \<open>The comment commands of issues and pull requests read their arguments alike.\<close>

definition commentArguments :: "string list \<Rightarrow> (gh_comment \<times> parsed_flags) result" where
  "commentArguments args =
     bindE (requiredNumber args) (\<lambda>(number, rest).
     bindE (parseFlags rest (operationFlags [''--body''])) (\<lambda>p.
     bindE (requiredFlag p ''--body'' (\<lambda>v. validBody v True) ''--body is required'') (\<lambda>body.
     Inr (\<lparr>cmNumber = number, cmBody = body\<rparr>, p))))"

definition gh_parseIssueComment :: "string list \<Rightarrow> parsed_operation result" where
  "gh_parseIssueComment args =
     bindE (commentArguments args) (\<lambda>(comment, p). Inr (GhIssueComment (Some comment), p, operationIssueComment))"

definition parseIssueNumber :: "string list \<Rightarrow> operation_kind \<Rightarrow> parsed_operation result" where
  "parseIssueNumber args kind =
     bindE (requiredNumber args) (\<lambda>(number, rest).
     bindE (parseFlags rest (operationFlags [])) (\<lambda>p.
     case kind of
       operationIssueView \<Rightarrow> Inr (GhIssueView (Some \<lparr>ivNumber = number, ivIncludeComments = False\<rparr>), p, kind)
     | operationIssueClose \<Rightarrow> Inr (GhIssueClose (Some number), p, kind)
     | operationIssueReopen \<Rightarrow> Inr (GhIssueReopen (Some number), p, kind)
     | _ \<Rightarrow> errorf ''invalid issue operation''))"

definition parseIssue :: "string list \<Rightarrow> parsed_operation result" where
  "parseIssue args =
     (case args of
        [] \<Rightarrow> errorf ''issue subcommand is required''
      | sub # rest \<Rightarrow>
          if sub = ''list'' then gh_parseIssueList rest
          else if sub = ''view'' then parseIssueNumber rest operationIssueView
          else if sub = ''create'' then gh_parseIssueCreate rest
          else if sub = ''edit'' then gh_parseIssueEdit rest
          else if sub = ''comment'' then gh_parseIssueComment rest
          else if sub = ''close'' then parseIssueNumber rest operationIssueClose
          else if sub = ''reopen'' then parseIssueNumber rest operationIssueReopen
          else errorf ''unsupported issue operation'')"


section \<open>Labels\<close>

definition parseLabelList :: "string list \<Rightarrow> parsed_operation result" where
  "parseLabelList args =
     bindE (parseFlags args (operationFlags [''--limit''])) (\<lambda>p.
     bindE (requiredFlag p ''--limit'' (\<lambda>_. True) ''--limit is required'') (\<lambda>limit.
     bindE (require (valueOr p ''--json'' [] = ''name'') ''--json name is required'') (\<lambda>_.
     bindE (listLimit limit 1000) (\<lambda>n. Inr (GhLabelList (Some n), p, operationLabelList)))))"

definition parseLabelCreate :: "string list \<Rightarrow> parsed_operation result" where
  "parseLabelCreate args =
     (case args of
        [] \<Rightarrow> errorf ''label name is required''
      | name # rest \<Rightarrow>
          if hasPrefix name ''--'' then errorf ''label name is required''
          else
            bindE (parseFlags rest (operationFlags [''--color'', ''--description''])) (\<lambda>p.
            bindE (require (validLabelName name) ''invalid label name'') (\<lambda>_.
            bindE (requiredFlag p ''--color'' validLabelColor ''valid --color is required'') (\<lambda>color.
            bindE (requiredFlag p ''--description'' validLabelDescription ''valid --description is required'') (\<lambda>description.
            Inr (GhLabelCreate (Some \<lparr>lcName = name, lcColor = color, lcDescription = description\<rparr>), p,
                 operationLabelCreate))))))"

definition parseLabel :: "string list \<Rightarrow> parsed_operation result" where
  "parseLabel args =
     (case args of
        [] \<Rightarrow> errorf ''label subcommand is required''
      | sub # rest \<Rightarrow>
          if sub = ''list'' then parseLabelList rest
          else if sub = ''create'' then parseLabelCreate rest
          else errorf ''unsupported label operation'')"


section \<open>Pull requests\<close>

definition gh_parsePullList :: "string list \<Rightarrow> parsed_operation result" where
  "gh_parsePullList args =
     bindE (parseFlags args (operationFlags [''--state'', ''--base'', ''--head'', ''--limit''])) (\<lambda>p.
     bindE (require (absentOr p ''--base'' (\<lambda>v. validName v False)) ''invalid --base'') (\<lambda>_.
     bindE (require (absentOr p ''--head'' (\<lambda>v. validName v False)) ''invalid --head'') (\<lambda>_.
     bindE (gh_pullState (valueOr p ''--state'' ''open'')) (\<lambda>state.
     bindE (listLimit (valueOr p ''--limit'' ''30'') 100) (\<lambda>limit.
     Inr (GhPullList (Some \<lparr>plState = state, plBase = flagValue p ''--base'', plHead = flagValue p ''--head'', plLimit = limit\<rparr>),
          p, operationPullList))))))"

definition parsePullCreate :: "string list \<Rightarrow> parsed_operation result" where
  "parsePullCreate args =
     bindE (parseFlags args (operationFlagsWithBools [''--head'', ''--base'', ''--title'', ''--body''] [''--draft''])) (\<lambda>p.
     let head = valueOr p ''--head'' []; base = valueOr p ''--base'' []; title = valueOr p ''--title'' [] in
     bindE (require (validName head True) ''--head is required'') (\<lambda>_.
     bindE (require (validName base True) ''--base is required'') (\<lambda>_.
     bindE (require (validTitle title) ''--title is required'') (\<lambda>_.
     bindE (require (absentOr p ''--body'' (\<lambda>v. validBody v False)) ''invalid --body'') (\<lambda>_.
     Inr (GhPullCreate (Some \<lparr>pcTitle = title, pcHead = head, pcBase = base, pcBody = flagValue p ''--body'',
            pcDraft = (if mapGet False (flBools p) ''--draft'' then Some True else None)\<rparr>), p, operationPullCreate))))))"

text \<open>
  The body file of \<^verbatim>\<open>pr edit\<close>. The open without following a link, the status and the read are the
  system's; a file is what they say of it.
\<close>

record body_file =
  bfRegular :: bool
  bfContent :: string
  bfReadFails :: bool

definition readBodyFile :: "(string \<Rightarrow> body_file option) \<Rightarrow> string \<Rightarrow> string \<Rightarrow> string result" where
  "readBodyFile openFile cwd path =
     (if path = [] then errorf ''body file path is required''
      else let resolved = (if hasPrefix path ''/'' then path else path_Join [cwd, path]) in
        (case openFile resolved of
           None \<Rightarrow> errorf ''open body file''
         | Some file \<Rightarrow>
             if \<not> bfRegular file then errorf ''body file must be regular''
             else let raw = takeBytes 65537 (bfContent file) in
               if bfReadFails file \<or> int (length raw) > 65536 \<or> \<not> validString raw then errorf ''invalid body file'' else Inr raw))"

text \<open>The body of an edit: the flag's, or the file's.\<close>

definition editBody :: "(string \<Rightarrow> body_file option) \<Rightarrow> string \<Rightarrow> parsed_flags \<Rightarrow> string option result" where
  "editBody openFile cwd p =
     (case flagValue p ''--body-file'' of
        None \<Rightarrow> Inr (flagValue p ''--body'')
      | Some path \<Rightarrow> bindE (readBodyFile openFile cwd path) (\<lambda>b. Inr (Some b)))"

definition parsePullEdit :: "(string \<Rightarrow> body_file option) \<Rightarrow> string list \<Rightarrow> string \<Rightarrow> parsed_operation result" where
  "parsePullEdit openFile args cwd =
     bindE (requiredNumber args) (\<lambda>(number, rest).
     bindE (parseFlags rest (operationFlags [''--title'', ''--body'', ''--body-file'', ''--base''])) (\<lambda>p.
     bindE (require (absentOr p ''--title'' validTitle) ''invalid --title'') (\<lambda>_.
     bindE (require (absentOr p ''--body'' (\<lambda>v. validBody v False)) ''invalid --body'') (\<lambda>_.
     bindE (require (absentOr p ''--base'' (\<lambda>v. validName v True)) ''invalid --base'') (\<lambda>_.
     bindE (require (flagValue p ''--body'' = None \<or> flagValue p ''--body-file'' = None)
              ''--body and --body-file cannot be combined'') (\<lambda>_.
     bindE (editBody openFile cwd p) (\<lambda>body.
     bindE (require (flagValue p ''--title'' \<noteq> None \<or> body \<noteq> None \<or> flagValue p ''--base'' \<noteq> None)
              ''pull-request edit requires a mutable field'') (\<lambda>_.
     Inr (GhPullEdit (Some \<lparr>peNumber = number, peTitle = flagValue p ''--title'', peBody = body,
            peBase = flagValue p ''--base''\<rparr>), p, operationPullEdit)))))))))"

definition parsePullComment :: "string list \<Rightarrow> parsed_operation result" where
  "parsePullComment args =
     bindE (commentArguments args) (\<lambda>(comment, p). Inr (GhPullComment (Some comment), p, operationPullComment))"

definition parsePullNumber :: "string list \<Rightarrow> operation_kind \<Rightarrow> parsed_operation result" where
  "parsePullNumber args kind =
     bindE (requiredNumber args) (\<lambda>(number, rest).
     bindE (parseFlags rest (operationFlags [])) (\<lambda>p.
     case kind of
       operationPullView \<Rightarrow> Inr (GhPullView (Some number), p, kind)
     | operationPullClose \<Rightarrow> Inr (GhPullClose (Some number), p, kind)
     | operationPullReopen \<Rightarrow> Inr (GhPullReopen (Some number), p, kind)
     | operationPullReady \<Rightarrow> Inr (GhPullReady (Some number), p, kind)
     | operationPullChecks \<Rightarrow> Inr (GhPullChecks (Some number), p, kind)
     | _ \<Rightarrow> errorf ''invalid pull-request operation''))"

definition parsePull :: "(string \<Rightarrow> body_file option) \<Rightarrow> string list \<Rightarrow> string \<Rightarrow> parsed_operation result" where
  "parsePull openFile args cwd =
     (case args of
        [] \<Rightarrow> errorf ''pull-request subcommand is required''
      | sub # rest \<Rightarrow>
          if sub = ''list'' then gh_parsePullList rest
          else if sub = ''view'' then parsePullNumber rest operationPullView
          else if sub = ''create'' then parsePullCreate rest
          else if sub = ''edit'' then parsePullEdit openFile rest cwd
          else if sub = ''comment'' then parsePullComment rest
          else if sub = ''close'' then parsePullNumber rest operationPullClose
          else if sub = ''reopen'' then parsePullNumber rest operationPullReopen
          else if sub = ''ready'' then parsePullNumber rest operationPullReady
          else if sub = ''checks'' then parsePullNumber rest operationPullChecks
          else errorf ''unsupported pull-request operation'')"


section \<open>Runs and statuses\<close>

definition statusFlag :: "parsed_flags \<Rightarrow> int option result" where
  "statusFlag p =
     (case flagValue p ''--status'' of None \<Rightarrow> Inr None | Some v \<Rightarrow> bindE (gh_runStatus v) (\<lambda>s. Inr (Some s)))"

definition parseRunList :: "string list \<Rightarrow> parsed_operation result" where
  "parseRunList args =
     bindE (parseFlags args (operationFlags [''--branch'', ''--status'', ''--limit''])) (\<lambda>p.
     bindE (require (absentOr p ''--branch'' (\<lambda>v. validName v False)) ''invalid --branch'') (\<lambda>_.
     bindE (statusFlag p) (\<lambda>status.
     bindE (listLimit (valueOr p ''--limit'' ''30'') 100) (\<lambda>limit.
     Inr (GhRunList (Some \<lparr>rlBranch = flagValue p ''--branch'', rlStatus = status, rlLimit = limit\<rparr>), p, operationRunList)))))"

definition parseRunView :: "string list \<Rightarrow> parsed_operation result" where
  "parseRunView args =
     (case requiredNumber args of
        Inl _ \<Rightarrow> errorf ''run ID is required''
      | Inr (number, rest) \<Rightarrow>
          bindE (parseFlags rest (operationFlags [])) (\<lambda>p. Inr (GhRunView (Some number), p, operationRunView)))"

definition parseRun :: "string list \<Rightarrow> parsed_operation result" where
  "parseRun args =
     (case args of
        [] \<Rightarrow> errorf ''run subcommand is required''
      | sub # rest \<Rightarrow>
          if sub = ''list'' then parseRunList rest
          else if sub = ''view'' then parseRunView rest
          else errorf ''unsupported run operation'')"

definition parseStatus :: "string list \<Rightarrow> parsed_operation result" where
  "parseStatus args =
     (case args of
        sub # object # rest \<Rightarrow>
          if sub \<noteq> ''get'' \<or> \<not> gh_validObjectID object then errorf ''status get requires a full object ID''
          else bindE (parseFlags rest (operationFlags [])) (\<lambda>p. Inr (GhStatusView (Some object), p, operationStatusView))
      | _ \<Rightarrow> errorf ''status get requires a full object ID'')"


section \<open>The request\<close>

text \<open>
  What the client asks its system for: the files a body is read from and the hint of the origin remote
  (see \<^const>\<open>RepositoryHint\<close>).
\<close>

record gh_system =
  ghOpenFile :: "string \<Rightarrow> body_file option"
  ghRemote :: "string \<Rightarrow> string result"
  ghParseURL :: "string \<Rightarrow> remote_url option"

definition parseOperation :: "gh_system \<Rightarrow> string list \<Rightarrow> string \<Rightarrow> parsed_operation result" where
  "parseOperation sys args cwd =
     (let sub = hd args; rest = tl args in
      if sub = ''auth'' then parseAuth rest
      else if sub = ''api'' then parseAPI rest
      else if sub = ''repo'' then gh_parseRepository rest
      else if sub = ''issue'' then parseIssue rest
      else if sub = ''label'' then parseLabel rest
      else if sub = ''pr'' then parsePull (ghOpenFile sys) rest cwd
      else if sub = ''run'' then parseRun rest
      else if sub = ''status'' then parseStatus rest
      else Inl (Errorf ''unsupported gh command %q'' [ArgS sub]))"

fun includeComments :: "bool \<Rightarrow> github_operation \<Rightarrow> github_operation" where
  "includeComments b (GhIssueView (Some v)) = GhIssueView (Some (v\<lparr>ivIncludeComments := b\<rparr>))"
| "includeComments b oper = oper"

definition parseArgs :: "gh_system \<Rightarrow> string list \<Rightarrow> string \<Rightarrow> gh_client_command result" where
  "parseArgs sys args cwd =
     bindE (gh_validateArgv args) (\<lambda>_.
     bindE (parseOperation sys args cwd) (\<lambda>(oper, p, kind).
     bindE (selectedFields kind (valueOr p ''--json'' [])) (\<lambda>selected.
     bindE (RepositoryHint (ghRemote sys) (ghParseURL sys) cwd (valueOr p ''--repo'' [])) (\<lambda>repository.
     Inr \<lparr>ghcRequest = \<lparr>ghContext = Some \<lparr>ctxRepository = Some repository\<rparr>,
            ghOperation = includeComments (''comments'' \<in> set selected) oper\<rparr>,
          ghcKind = kind, ghcFields = selected\<rparr>))))"

definition gh_Parse :: "gh_system \<Rightarrow> string list \<Rightarrow> string \<Rightarrow> github_request result" where
  "gh_Parse sys args cwd = bindE (parseArgs sys args cwd) (\<lambda>cmd. Inr (ghcRequest cmd))"

end
