(* ===== verification/Gh_Correct.thy ===== *)
theory Gh_Correct
  imports Gh_Parse Server_Chain Go_Text
begin

text \<open>
  Correctness of the arguments of the \<^verbatim>\<open>gh\<close> client: the checks of the client and of the service agree, so
  that the service accepts every request of the client but a label with a control character; every
  request of the service that the syntax can express is read back from its arguments; and the repository
  that a request names is one the configuration may grant.
\<close>

section \<open>Checks on both sides\<close>

text \<open>A predicate of the client and the check of the service for the same value.\<close>

locale same_check =
  fixes client :: "'a \<Rightarrow> bool" and server :: "'a \<Rightarrow> unit result"
  assumes agrees: "isOK (server v) \<longleftrightarrow> client v"
begin

lemma accepted [simp]: "server v = Inr () \<longleftrightarrow> client v"
  using agrees [of v] by (auto simp: isOK_unit)

lemma optional [simp]: "whenSet v server = Inr () \<longleftrightarrow> (case v of None \<Rightarrow> True | Some x \<Rightarrow> client x)"
  by (auto simp: whenSet_def split: option.splits)

lemma all_accepted: "checkAll server vs = Inr () \<longleftrightarrow> list_all client vs"
  by (simp add: checkAll_Inr list_all_iff)

end

lemma gh_invalid_neq_Inr [simp]: "gh_invalid field \<noteq> Inr x" "\<not> isOK (gh_invalid field)"
  by (simp_all add: gh_invalid_def)

lemmas gh_limits = maximumTitleBytes_def maximumBodyBytes_def maximumNameBytes_def maximumListLimit_def
  maximumIssueListLimit_def maximumLabelListLimit_def

interpretation title: same_check validTitle gh_title
  by unfold_locales (auto simp: validTitle_def gh_title_def gh_limits)

interpretation body: same_check "\<lambda>v. validBody v required" "\<lambda>v. gh_body v required" for required
  by unfold_locales (auto simp: validBody_def gh_body_def gh_limits)

interpretation name: same_check "\<lambda>v. validName v required" "\<lambda>v. gh_name v required" for required
  by unfold_locales (auto simp: validName_def gh_name_def gh_limits)

interpretation label_color: same_check validLabelColor labelColor
  by unfold_locales (auto simp: validLabelColor_def labelColor_def)

interpretation label_description: same_check validLabelDescription labelDescription
  by unfold_locales (auto simp: validLabelDescription_def labelDescription_def)

interpretation object_id: same_check gh_validObjectID gh_objectID
  by unfold_locales (auto simp: gh_validObjectID_def gh_objectID_def)

text \<open>The items of a list of labels.\<close>

definition labelItem :: "string \<Rightarrow> bool" where
  "labelItem v \<longleftrightarrow> v \<noteq> [] \<and> length v \<le> 255 \<and> validString v \<and> NUL \<notin> set v"

lemma gh_labels_Inr: "gh_labels vs = Inr () \<longleftrightarrow> length vs \<le> 100 \<and> list_all labelItem vs"
  by (auto simp: gh_labels_def checkAll_Inr labelItem_def gh_limits list_all_iff gh_invalid_def)

text \<open>A label name with no control character; the service asks for that, the client only for no NUL.\<close>

definition printableLabel :: "string \<Rightarrow> bool" where
  "printableLabel v \<longleftrightarrow> allRunes (\<lambda>r. \<not> isControl r) v"

lemma NUL_control: "printableLabel v \<Longrightarrow> NUL \<notin> set v"
proof (rule ccontr)
  assume p: "printableLabel v" and "\<not> NUL \<notin> set v"
  have "allRunes (\<lambda>r. r \<noteq> 0) v \<longleftrightarrow> (\<forall>c \<in> set v. code c \<noteq> 0)"
    by (intro allRunes_bytes) auto
  moreover have "allRunes (\<lambda>r. r \<noteq> 0) v"
    using p by (auto simp: printableLabel_def allRunes_def isControl_def list_all_iff)
  ultimately show False
    using \<open>\<not> NUL \<notin> set v\<close> by (auto dest: bspec [of _ _ NUL])
qed

lemma labelCreateName_Inr: "labelCreateName v = Inr () \<longleftrightarrow> validLabelName v \<and> printableLabel v"
  using NUL_control [of v]
  by (auto simp: labelCreateName_def validLabelName_def printableLabel_def)


section \<open>The service accepts what the client asks\<close>

lemma require_Inr [simp]: "require b msg = Inr x \<longleftrightarrow> b"
  by (simp add: require_def)

lemma parseUint_bounds: "parseUint bits s = Some n \<Longrightarrow> 0 \<le> n \<and> n < 2 ^ bits"
proof -
  have "list_all isDigit s \<Longrightarrow> 0 \<le> v \<Longrightarrow> 0 \<le> foldl (\<lambda>v c. 10 * v + (code c - 48)) v s" for v :: int
    by (induction s arbitrary: v) (auto simp: isDigit_def)
  then show "parseUint bits s = Some n \<Longrightarrow> 0 \<le> n \<and> n < 2 ^ bits"
    by (auto simp: parseUint_def decimalValue_def split: if_splits)
qed

lemma positiveDecimal_Inr: "positiveDecimal v = Inr n \<Longrightarrow> n \<noteq> 0"
proof -
  have "word_of_int m \<noteq> (0 :: 64 word)" if "0 \<le> m" "m < 2 ^ 64" "m \<noteq> 0" for m :: int
    using that by (simp add: word_of_int_eq_0_iff zdvd_not_zless)
  then show "positiveDecimal v = Inr n \<Longrightarrow> n \<noteq> 0"
    by (auto simp: positiveDecimal_def dest!: parseUint_bounds split: if_splits option.splits)
qed

lemma requiredNumber_Inr: "requiredNumber args = Inr (n, rest) \<Longrightarrow> gh_number n = Inr ()"
  by (auto simp: requiredNumber_def gh_number_def bindE_eq_Inr dest: positiveDecimal_Inr split: list.splits)

lemma listLimit_Inr: "listLimit v maximum = Inr n \<Longrightarrow> gh_limit n maximum = Inr ()"
  by (auto simp: listLimit_def gh_limit_def dest: positiveDecimal_Inr split: sum.splits if_splits)

lemma labelLoop_Inr:
  "labelLoop labels parts = Inr out \<Longrightarrow> list_all labelItem labels \<Longrightarrow> distinct labels \<Longrightarrow>
     list_all labelItem out \<and> distinct out \<and> length out = length labels + length parts"
proof (induction labels parts rule: labelLoop.induct)
  case (2 labels part parts)
  let ?l = "trim part [CHR '' '', CHR 0x09]"
  from "2.prems"(1) have ok: "labelItem ?l" "?l \<notin> set labels" "labelLoop (labels @ [?l]) parts = Inr out"
    by (auto simp: Let_def labelItem_def split: if_splits)
  then have n: "\<not> (?l = [] \<or> length ?l > 255 \<or> \<not> validString ?l \<or> NUL \<in> set ?l)"
    by (auto simp: labelItem_def)
  show ?case
    using "2.IH" [OF refl n ok(2,3)] "2.prems"(2,3) ok(1,2) by simp
qed simp

lemma labelCSV_Inr: "labelCSV v = Inr ls \<Longrightarrow> gh_labels ls = Inr () \<and> distinct ls \<and> ls \<noteq> []"
  using labelLoop_Inr [of "[]" "split CHR '','' v" ls]
  by (auto simp: labelCSV_def gh_labels_Inr Let_def split: if_splits)

lemma state_Inr: "map_of stateNames v = Some n \<Longrightarrow> 1 \<le> n \<and> n \<le> 3"
  by (auto simp: stateNames_def split: if_splits)

lemma gh_issueState_Inr: "gh_issueState v = Inr n \<Longrightarrow> 1 \<le> n \<and> n \<le> 3"
  by (auto simp: gh_issueState_def dest: state_Inr split: option.splits)

lemma gh_pullState_Inr: "gh_pullState v = Inr n \<Longrightarrow> 1 \<le> n \<and> n \<le> 3"
  by (auto simp: gh_pullState_def dest: state_Inr split: option.splits)

lemma requiredFlag_Inr: "requiredFlag p name check msg = Inr v \<longleftrightarrow> flagValue p name = Some v \<and> check v"
  by (auto simp: requiredFlag_def split: option.splits if_splits)

lemma labelFlag_Inr:
  "labelFlag p name = Inr ls \<Longrightarrow> gh_labels ls = Inr () \<and> distinct ls \<and> (flagValue p name \<noteq> None \<longrightarrow> ls \<noteq> [])"
  by (auto simp: labelFlag_def gh_labels_Inr dest!: labelCSV_Inr split: option.splits)

lemma gh_runStatus_Inr: "gh_runStatus v = Inr n \<Longrightarrow> 1 \<le> n \<and> n \<le> 15"
  by (auto simp: gh_runStatus_def runStatuses_def split: if_splits)

lemma statusFlag_Inr: "statusFlag p = Inr s \<Longrightarrow> s = None \<or> (\<exists>n. s = Some n \<and> 1 \<le> n \<and> n \<le> 15)"
  by (auto simp: statusFlag_def bindE_eq_Inr dest: gh_runStatus_Inr split: option.splits)

lemma distinctLabels_Inr_iff: "distinctLabels vs seen = Inr out \<longleftrightarrow> distinct vs \<and> set vs \<inter> seen = {} \<and> out = set vs \<union> seen"
  unfolding distinctLabels_def
  by (induction vs arbitrary: seen) (auto simp: addDistinctLabel_def bindE_eq_Inr split: if_splits)

text \<open>What the service asks beyond the client.\<close>

fun serviceOnly :: "github_operation \<Rightarrow> bool" where
  "serviceOnly (GhLabelCreate (Some r)) = printableLabel (lcName r)"
| "serviceOnly _ = True"

definition acceptable :: "github_operation \<Rightarrow> bool" where
  "acceptable oper \<longleftrightarrow> (validateOperation oper = Inr () \<longleftrightarrow> serviceOnly oper) \<and> oper \<noteq> GhNone"

named_theorems gh_parsers

lemmas [gh_parsers] = parseAuth_def parseAPI_def gh_parseRepository_def gh_parseIssueList_def gh_parseIssueCreate_def
  gh_parseIssueLabelChange_def gh_parseIssueEdit_def commentArguments_def gh_parseIssueComment_def parseIssueNumber_def
  issueFieldEdit_def parseLabelList_def parseLabelCreate_def gh_parsePullList_def parsePullCreate_def parsePullEdit_def parsePullComment_def
  parsePullNumber_def parseRunList_def parseRunView_def parseStatus_def

lemmas accept_simps = gh_parsers bindE_eq_Inr requiredFlag_Inr acceptable_def absentOr_def gh_limits

lemma parseRepository_acceptable: "gh_parseRepository args = Inr (oper, p, kind) \<Longrightarrow> acceptable oper"
  by (auto simp: accept_simps split: if_splits)

lemma parseIssueList_acceptable: "gh_parseIssueList args = Inr (oper, p, kind) \<Longrightarrow> acceptable oper"
  by (auto simp: accept_simps validateIssueList_def dest!: listLimit_Inr gh_issueState_Inr)

lemma parseIssueCreate_acceptable: "gh_parseIssueCreate args = Inr (oper, p, kind) \<Longrightarrow> acceptable oper"
  by (auto simp: accept_simps validateIssueCreate_def gh_names_def dest!: labelFlag_Inr)

lemma parseIssueLabelChange_acceptable:
  assumes "gh_parseIssueLabelChange number p = Inr (oper, p', kind)" and "gh_number number = Inr ()"
    and "flagValue p ''--add-label'' \<noteq> None \<or> flagValue p ''--remove-label'' \<noteq> None"
  shows "acceptable oper"
proof -
  obtain adds removes where l: "labelFlag p ''--add-label'' = Inr adds" "labelFlag p ''--remove-label'' = Inr removes"
    and r: "list_all (\<lambda>a. list_all (\<lambda>r. a \<noteq> r) removes) adds"
      "oper = GhIssueLabelChange (Some \<lparr>lhNumber = number, AddLabels = adds, RemoveLabels = removes\<rparr>)"
    using assms(1) by (auto simp: gh_parsers bindE_eq_Inr)
  have "gh_labels adds = Inr ()" "distinct adds" "gh_labels removes = Inr ()" "distinct removes" "adds \<noteq> [] \<or> removes \<noteq> []"
    using labelFlag_Inr [OF l(1)] labelFlag_Inr [OF l(2)] assms(3) by auto
  with assms(2) r show ?thesis
    by (auto simp: acceptable_def validateIssueLabelChange_def bindE_eq_Inr distinctLabels_Inr_iff list_all_iff)
qed

lemma issueFieldEdit_acceptable:
  "issueFieldEdit number p = Inr (oper, p', kind) \<Longrightarrow> gh_number number = Inr () \<Longrightarrow> acceptable oper"
  by (auto simp: accept_simps validateIssueEdit_def)
    (auto simp: whenSet_def)

lemma parseIssueEdit_acceptable: "gh_parseIssueEdit args = Inr (oper, p, kind) \<Longrightarrow> acceptable oper"
  by (auto simp: gh_parseIssueEdit_def bindE_eq_Inr
      dest: requiredNumber_Inr parseIssueLabelChange_acceptable issueFieldEdit_acceptable split: if_splits)

lemma commentArguments_Inr: "commentArguments args = Inr (c, p) \<Longrightarrow> validateComment (cmNumber c) (cmBody c) = Inr ()"
  by (auto simp: accept_simps validateComment_def dest!: requiredNumber_Inr)

lemma comment_acceptable:
  "gh_parseIssueComment args = Inr (oper, p, kind) \<Longrightarrow> acceptable oper"
  "parsePullComment args = Inr (oper, p, kind) \<Longrightarrow> acceptable oper"
  by (auto simp: gh_parseIssueComment_def parsePullComment_def bindE_eq_Inr acceptable_def validateComment'_def getComment_def
      dest!: commentArguments_Inr)

lemma number_acceptable:
  "parseIssueNumber args kind = Inr (oper, p, kind') \<Longrightarrow> acceptable oper"
  "parsePullNumber args kind = Inr (oper, p, kind') \<Longrightarrow> acceptable oper"
  by (cases kind; auto simp: accept_simps getNumber_def dest!: requiredNumber_Inr)+

lemma parseLabelList_acceptable: "parseLabelList args = Inr (oper, p, kind) \<Longrightarrow> acceptable oper"
  by (auto simp: accept_simps validateLabelList_def dest!: listLimit_Inr)

lemma parseLabelCreate_acceptable: "parseLabelCreate args = Inr (oper, p, kind) \<Longrightarrow> acceptable oper"
  by (auto simp: accept_simps validateLabelCreate_def labelCreateName_Inr split: list.splits if_splits)

lemma parsePullList_acceptable: "gh_parsePullList args = Inr (oper, p, kind) \<Longrightarrow> acceptable oper"
  by (auto simp: accept_simps validatePullList_def dest!: listLimit_Inr gh_pullState_Inr split: option.splits)

lemma parsePullCreate_acceptable: "parsePullCreate args = Inr (oper, p, kind) \<Longrightarrow> acceptable oper"
  by (auto simp: accept_simps validatePullCreate_def Let_def)

lemma readBodyFile_Inr: "readBodyFile openFile cwd path = Inr b \<Longrightarrow> validBody b False"
  by (auto simp: readBodyFile_def validBody_def Let_def split: if_splits option.splits)

lemma editBody_Inr:
  "editBody openFile cwd p = Inr b \<Longrightarrow> absentOr p ''--body'' (\<lambda>v. validBody v False) \<Longrightarrow>
     case b of None \<Rightarrow> True | Some v \<Rightarrow> validBody v False"
  by (auto simp: editBody_def absentOr_def bindE_eq_Inr dest: readBodyFile_Inr split: option.splits)

lemma parsePullEdit_acceptable: "parsePullEdit openFile args cwd = Inr (oper, p, kind) \<Longrightarrow> acceptable oper"
  by (auto simp: acceptable_def gh_parsers bindE_eq_Inr validatePullEdit_def absentOr_def [of _ "''--title''"]
      absentOr_def [of _ "''--base''"] dest!: requiredNumber_Inr editBody_Inr)

lemma parseRunList_acceptable: "parseRunList args = Inr (oper, p, kind) \<Longrightarrow> acceptable oper"
  by (auto simp: accept_simps validateRunList_def whenSet_def dest!: listLimit_Inr statusFlag_Inr split: option.splits)

lemma parseRunView_acceptable: "parseRunView args = Inr (oper, p, kind) \<Longrightarrow> acceptable oper"
  by (auto simp: accept_simps getNumber_def dest!: requiredNumber_Inr split: sum.splits)

lemma parseStatus_acceptable: "parseStatus args = Inr (oper, p, kind) \<Longrightarrow> acceptable oper"
  by (auto simp: accept_simps split: list.splits if_splits)

lemma identity_acceptable:
  "parseAuth args = Inr (oper, p, kind) \<Longrightarrow> acceptable oper"
  "parseAPI args = Inr (oper, p, kind) \<Longrightarrow> acceptable oper"
  by (auto simp: accept_simps validateCurrentUser_def split: if_splits)

lemmas parser_acceptable = identity_acceptable parseRepository_acceptable parseIssueList_acceptable
  parseIssueCreate_acceptable parseIssueEdit_acceptable comment_acceptable number_acceptable parseLabelList_acceptable
  parseLabelCreate_acceptable parsePullList_acceptable parsePullCreate_acceptable parsePullEdit_acceptable
  parseRunList_acceptable parseRunView_acceptable parseStatus_acceptable

lemma parseOperation_acceptable: "parseOperation sys args cwd = Inr (oper, p, kind) \<Longrightarrow> acceptable oper"
  by (auto simp: parseOperation_def parseIssue_def parseLabel_def parsePull_def parseRun_def Let_def image_Un
      dest: parser_acceptable split: if_splits list.splits)

lemma includeComments_acceptable: "acceptable oper \<Longrightarrow> acceptable (includeComments b oper)"
  by (cases "(b, oper)" rule: includeComments.cases) (auto simp: acceptable_def)


section \<open>The repository of a request\<close>

lemma selectorFromPath_Inr:
  "selectorFromPath host path = Inr sel \<Longrightarrow> \<exists>owner name. sel = selectorOf host owner name \<and> validHost host \<and> validSlug owner name"
  by (auto simp: selectorFromPath_def Let_def split: if_splits list.splits)

lemma parseExplicit_Inr:
  "parseExplicit v = Inr sel \<Longrightarrow> \<exists>host owner name. sel = selectorOf host owner name \<and> validHost host \<and> validSlug owner name"
  by (auto simp: parseExplicit_def Let_def split: if_splits list.splits)

lemma parseRemote_Inr:
  "parseRemote parseURL v = Inr sel \<Longrightarrow> \<exists>host owner name. sel = selectorOf host owner name \<and> validHost host \<and> validSlug owner name"
  by (fastforce simp: parseRemote_def Let_def dest: selectorFromPath_Inr split: if_splits option.splits prod.splits)

lemma RepositoryHint_Inr:
  "RepositoryHint origin parseURL cwd explicit = Inr sel \<Longrightarrow>
     \<exists>host owner name. sel = selectorOf host owner name \<and> validHost host \<and> validSlug owner name"
  by (auto simp: RepositoryHint_def dest: parseExplicit_Inr parseRemote_Inr split: if_splits sum.splits)

lemma hint_selector:
  assumes "validHost host" and "validSlug owner name"
  shows "githubSelector \<lparr>ghContext = Some \<lparr>ctxRepository = Some (selectorOf host owner name)\<rparr>, ghOperation = oper\<rparr> =
    Inr \<lparr>selKind = ProviderGitHub, selHost = toLower host, selSSHPort = 0, selOwner = owner, selName = name\<rparr>"
proof -
  have "toLower host \<noteq> []" "owner \<noteq> []" "name \<noteq> []"
    using assms length_toLower [of host] by (auto simp: validHost_def validSlug_def simp del: length_toLower split: if_splits)
  then show ?thesis
    by (simp add: githubSelector_def selectorOf_def)
qed

text \<open>
  C20. The service accepts what the client asks. A request that the client makes from its arguments has an
  operation with a capability and a name, names a repository by a host and a slug in the form the client
  admits, from which the service makes a selector, and passes the validation of the service, unless it
  creates a label whose name has a control character.
\<close>

theorem gh_request_accepted:
  assumes "parseArgs sys args cwd = Inr cmd"
  shows "(\<exists>host owner name. validHost host \<and> validSlug owner name \<and> githubSelector (ghcRequest cmd) =
           Inr \<lparr>selKind = ProviderGitHub, selHost = toLower host, selSSHPort = 0, selOwner = owner, selName = name\<rparr>)
    \<and> isOK (github_Capability (Some (ghcRequest cmd))) \<and> isOK (github_OperationName (Some (ghcRequest cmd)))
    \<and> (ValidateGitHubRequest (Some (ghcRequest cmd)) = Inr () \<longleftrightarrow> serviceOnly (ghOperation (ghcRequest cmd)))"
proof -
  from assms obtain oper p kind selected repository where
    o: "parseOperation sys args cwd = Inr (oper, p, kind)" and
    h: "RepositoryHint (ghRemote sys) (ghParseURL sys) cwd (valueOr p ''--repo'' []) = Inr repository" and
    c: "ghcRequest cmd = \<lparr>ghContext = Some \<lparr>ctxRepository = Some repository\<rparr>,
          ghOperation = includeComments (''comments'' \<in> set selected) oper\<rparr>"
    by (auto simp: parseArgs_def bindE_eq_Inr)
  let ?oper = "includeComments (''comments'' \<in> set selected) oper"
  have a: "acceptable ?oper"
    using parseOperation_acceptable [OF o] by (rule includeComments_acceptable)
  then have "isOK (operationCapability ?oper)" "isOK (operationName ?oper)"
    by (cases ?oper; simp add: acceptable_def)+
  with a c RepositoryHint_Inr [OF h] hint_selector show ?thesis
    by (auto simp: github_Capability_def github_OperationName_def ValidateGitHubRequest_def acceptable_def)
qed


section \<open>Requests as arguments\<close>

definition flagArgs :: "(string \<times> string) list \<Rightarrow> string list" where
  "flagArgs ps = concat (map (\<lambda>(n, v). [n, v]) ps)"

definition optionalFlag :: "string \<Rightarrow> string option \<Rightarrow> (string \<times> string) list" where
  "optionalFlag name v = (case v of None \<Rightarrow> [] | Some x \<Rightarrow> [(name, x)])"

definition listFlag :: "string \<Rightarrow> string list \<Rightarrow> (string \<times> string) list" where
  "listFlag name vs = (if vs = [] then [] else [(name, join CHR '','' vs)])"

definition nameFor :: "int gomap \<Rightarrow> int \<Rightarrow> string" where
  "nameFor names n = (case map_of (map (\<lambda>(s, k). (k, s)) names) n of Some s \<Rightarrow> s | None \<Rightarrow> [])"

definition numberArg :: "64 word \<Rightarrow> string" where
  "numberArg n = itoa (uint n)"

text \<open>The words of a request before its flags, and the flags with their values.\<close>

fun ghWords :: "github_operation \<Rightarrow> string list" where
  "ghWords (GhRepositoryView _) = [''repo'', ''view'']"
| "ghWords (GhLabelList _) = [''label'', ''list'']"
| "ghWords (GhIssueList _) = [''issue'', ''list'']"
| "ghWords (GhIssueView (Some r)) = [''issue'', ''view'', numberArg (ivNumber r)]"
| "ghWords (GhIssueCreate _) = [''issue'', ''create'']"
| "ghWords (GhIssueEdit (Some r)) = [''issue'', ''edit'', numberArg (ieNumber r)]"
| "ghWords (GhIssueComment (Some r)) = [''issue'', ''comment'', numberArg (cmNumber r)]"
| "ghWords (GhIssueClose (Some n)) = [''issue'', ''close'', numberArg n]"
| "ghWords (GhIssueReopen (Some n)) = [''issue'', ''reopen'', numberArg n]"
| "ghWords (GhLabelCreate (Some r)) = [''label'', ''create'', lcName r]"
| "ghWords (GhIssueLabelChange (Some r)) = [''issue'', ''edit'', numberArg (lhNumber r)]"
| "ghWords (GhPullList _) = [''pr'', ''list'']"
| "ghWords (GhPullView (Some n)) = [''pr'', ''view'', numberArg n]"
| "ghWords (GhPullCreate (Some r)) = [''pr'', ''create''] @ (if pcDraft r = Some True then [''--draft''] else [])"
| "ghWords (GhPullEdit (Some r)) = [''pr'', ''edit'', numberArg (peNumber r)]"
| "ghWords (GhPullComment (Some r)) = [''pr'', ''comment'', numberArg (cmNumber r)]"
| "ghWords (GhPullClose (Some n)) = [''pr'', ''close'', numberArg n]"
| "ghWords (GhPullReopen (Some n)) = [''pr'', ''reopen'', numberArg n]"
| "ghWords (GhPullReady (Some n)) = [''pr'', ''ready'', numberArg n]"
| "ghWords (GhPullChecks (Some n)) = [''pr'', ''checks'', numberArg n]"
| "ghWords (GhRunList _) = [''run'', ''list'']"
| "ghWords (GhRunView (Some n)) = [''run'', ''view'', numberArg n]"
| "ghWords (GhStatusView (Some s)) = [''status'', ''get'', s]"
| "ghWords _ = []"

fun ghFlags :: "github_operation \<Rightarrow> (string \<times> string) list" where
  "ghFlags (GhLabelList (Some n)) = [(''--limit'', numberArg n), (''--json'', ''name'')]"
| "ghFlags (GhIssueList (Some r)) = [(''--state'', nameFor stateNames (ilState r)), (''--limit'', numberArg (ilLimit r))]"
| "ghFlags (GhIssueView (Some r)) = (if ivIncludeComments r then [(''--json'', ''comments'')] else [])"
| "ghFlags (GhIssueCreate (Some r)) = [(''--title'', icTitle r)] @ optionalFlag ''--body'' (icBody r) @ listFlag ''--label'' (icLabels r)"
| "ghFlags (GhIssueEdit (Some r)) = optionalFlag ''--title'' (ieTitle r) @ optionalFlag ''--body'' (ieBody r)"
| "ghFlags (GhIssueComment (Some r)) = [(''--body'', cmBody r)]"
| "ghFlags (GhLabelCreate (Some r)) = [(''--color'', lcColor r), (''--description'', lcDescription r)]"
| "ghFlags (GhIssueLabelChange (Some r)) = listFlag ''--add-label'' (AddLabels r) @ listFlag ''--remove-label'' (RemoveLabels r)"
| "ghFlags (GhPullList (Some r)) = [(''--state'', nameFor stateNames (plState r)), (''--limit'', numberArg (plLimit r))]
     @ optionalFlag ''--base'' (plBase r) @ optionalFlag ''--head'' (plHead r)"
| "ghFlags (GhPullCreate (Some r)) = [(''--head'', pcHead r), (''--base'', pcBase r), (''--title'', pcTitle r)]
     @ optionalFlag ''--body'' (pcBody r)"
| "ghFlags (GhPullEdit (Some r)) = optionalFlag ''--title'' (peTitle r) @ optionalFlag ''--body'' (peBody r)
     @ optionalFlag ''--base'' (peBase r)"
| "ghFlags (GhPullComment (Some r)) = [(''--body'', cmBody r)]"
| "ghFlags (GhRunList (Some r)) = [(''--limit'', numberArg (rlLimit r))] @ optionalFlag ''--branch'' (rlBranch r)
     @ optionalFlag ''--status'' (map_option (nameFor runStatuses) (rlStatus r))"
| "ghFlags _ = []"

definition ghArgs :: "string \<Rightarrow> github_operation \<Rightarrow> string list" where
  "ghArgs slug oper = ghWords oper @ flagArgs (ghFlags oper @ [(''--repo'', slug)])"

text \<open>A list of labels that the flag with commas can carry.\<close>

definition carried :: "string list \<Rightarrow> bool" where
  "carried vs \<longleftrightarrow> distinct vs \<and> list_all (\<lambda>v. CHR '','' \<notin> set v \<and> trim v [CHR '' '', CHR 0x09] = v) vs"

text \<open>
  What the syntax of the client can express: no assignees, no edit of the labels as a whole, lists of
  labels with no comma in them, no value that looks like a flag, and the draft flag only when it is set.
  A request for the current user has no repository in its arguments.
\<close>

fun gh_expressible :: "github_operation \<Rightarrow> bool" where
  "gh_expressible (GhCurrentUser _) = False"
| "gh_expressible (GhIssueCreate (Some r)) = (icAssignees r = [] \<and> carried (icLabels r))"
| "gh_expressible (GhIssueEdit (Some r)) = (ieLabels r = None \<and> ieAssignees r = None)"
| "gh_expressible (GhLabelCreate (Some r)) = (\<not> hasPrefix (lcName r) ''--'')"
| "gh_expressible (GhIssueLabelChange (Some r)) = (carried (AddLabels r) \<and> carried (RemoveLabels r))"
| "gh_expressible (GhPullCreate (Some r)) = (pcDraft r \<noteq> Some False)"
| "gh_expressible _ = True"

definition noFlagValue :: "(string \<times> string) list \<Rightarrow> bool" where
  "noFlagValue ps \<longleftrightarrow> list_all (\<lambda>(n, v). \<not> hasPrefix v ''--'') ps"

definition flagNames :: "flag_kind gomap \<Rightarrow> string list \<Rightarrow> bool" where
  "flagNames allowed names \<longleftrightarrow> distinct names \<and>
     list_all (\<lambda>n. map_of allowed n = Some ValueFlag \<and> hasPrefix n ''--'' \<and> \<not> contains n ''='') names"

lemma mapSet_new: "k \<notin> fst ` set m \<Longrightarrow> mapSet k v m = m @ [(k, v)]"
  by (induction m) auto

lemma flagsLoop_args:
  "flagNames allowed (map fst ps) \<Longrightarrow> noFlagValue ps \<Longrightarrow> fst ` set ps \<inter> seen = {} \<Longrightarrow> fst ` set (flValues p) \<subseteq> seen \<Longrightarrow>
     flagsLoop allowed seen p (flagArgs ps) = Inr (p\<lparr>flValues := flValues p @ ps\<rparr>)"
proof (induction ps arbitrary: seen p)
  case Nil
  then show ?case by (simp add: flagArgs_def)
next
  case (Cons a ps)
  obtain n v where a: "a = (n, v)" by force
  have fresh: "n \<notin> seen" "n \<notin> fst ` set (flValues p)" "n \<notin> fst ` set ps"
    using Cons.prems by (auto simp: a flagNames_def)
  have "flagsLoop allowed (insert n seen) (setValue n v p) (flagArgs ps)
    = Inr (setValue n v p\<lparr>flValues := flValues (setValue n v p) @ ps\<rparr>)"
    using Cons.prems fresh by (intro Cons.IH) (auto simp: a flagNames_def noFlagValue_def setValue_def mapSet_new)
  with Cons.prems fresh show ?case
    by (simp add: a flagArgs_def flagNames_def noFlagValue_def setValue_def mapSet_new)
qed

lemma parseFlags_args:
  "flagNames allowed (map fst ps) \<Longrightarrow> noFlagValue ps \<Longrightarrow> parseFlags (flagArgs ps) allowed = Inr \<lparr>flValues = ps, flBools = []\<rparr>"
  by (simp add: parseFlags_def flagsLoop_args noFlags_def)

lemma parseFlags_draft:
  "flagNames allowed (map fst ps) \<Longrightarrow> noFlagValue ps \<Longrightarrow> map_of allowed ''--draft'' = Some BoolFlag \<Longrightarrow> ''--draft'' \<notin> fst ` set ps \<Longrightarrow>
     parseFlags (''--draft'' # flagArgs ps) allowed = Inr \<lparr>flValues = ps, flBools = [(''--draft'', True)]\<rparr>"
  by (simp add: parseFlags_def noFlags_def setBool_def hasPrefix_def contains_def sublist_code flagsLoop_args)

lemma itoa_head: "0 < n \<Longrightarrow> hd (itoa n) \<noteq> CHR ''0''"
proof (induction n rule: itoa.induct)
  case (1 n)
  show ?case
  proof (cases "n < 10")
    case True
    have "char_of (48 + n) \<noteq> CHR ''0''"
    proof
      assume "char_of (48 + n) = CHR ''0''"
      then have "code (char_of (48 + n)) = code CHR ''0''" by simp
      with True "1.prems" show False by (simp add: of_char_of)
    qed
    with True show ?thesis by (simp add: itoa.simps [of n])
  next
    case False
    then have "0 < n div 10" by (simp add: pos_imp_zdiv_pos_iff)
    with "1.IH" False have "hd (itoa (n div 10)) \<noteq> CHR ''0''" "itoa (n div 10) \<noteq> []"
      using itoa_digits [of "n div 10"] by auto
    with False show ?thesis by (simp add: itoa.simps [of n])
  qed
qed

lemma parseUint_itoa: "0 \<le> n \<Longrightarrow> n < 2 ^ bits \<Longrightarrow> parseUint bits (itoa n) = Some n"
  using itoa_digits [of n] atoi_itoa [of n] by (simp add: parseUint_def decimalValue_def atoi_def mult.commute)

lemma positiveDecimal_numberArg: "n \<noteq> 0 \<Longrightarrow> positiveDecimal (numberArg n) = Inr n"
proof -
  assume n: "n \<noteq> 0"
  then have pos: "0 < uint n" using uint_ge_0 [of n] uint_0_iff [of n] by linarith
  have "uint n < 2 ^ 64" using uint_lt2p [of n] by simp
  moreover obtain c cs where s: "itoa (uint n) = c # cs" "isDigit c"
    using itoa_digits [of "uint n"] by (cases "itoa (uint n)") auto
  ultimately show ?thesis
    using pos itoa_head [OF pos] parseUint_itoa [of "uint n" 64] by (auto simp: positiveDecimal_def numberArg_def isDigit_def)
qed

lemma requiredNumber_numberArg [simp]: "n \<noteq> 0 \<Longrightarrow> requiredNumber (numberArg n # rest) = Inr (n, rest)"
  by (simp add: requiredNumber_def positiveDecimal_numberArg)

lemma gh_number_Inr [simp]: "gh_number n = Inr () \<longleftrightarrow> n \<noteq> 0"
  by (simp add: gh_number_def)

lemma listLimit_numberArg: "gh_limit n maximum = Inr () \<Longrightarrow> listLimit (numberArg n) maximum = Inr n"
  by (auto simp: listLimit_def gh_limit_def positiveDecimal_numberArg split: if_splits)

lemma numberArg_noFlag [simp]: "\<not> hasPrefix (numberArg n) ''--''"
  using itoa_digits [of "uint n"] by (cases "itoa (uint n)") (auto simp: numberArg_def hasPrefix_def isDigit_def)

lemma stateArg_parsed:
  assumes "1 \<le> n" and "n \<le> 3"
  shows "map_of stateNames (nameFor stateNames n) = Some n \<and> \<not> hasPrefix (nameFor stateNames n) ''--''"
proof -
  have "n = 1 \<or> n = 2 \<or> n = 3" using assms by presburger
  then show ?thesis by (auto simp: nameFor_def stateNames_def hasPrefix_def)
qed

lemma gh_runStatus_parsed:
  assumes "1 \<le> n" and "n \<le> 15"
  shows "gh_runStatus (nameFor runStatuses n) = Inr n \<and> \<not> hasPrefix (nameFor runStatuses n) ''--''"
  using assms by (simp add: nameFor_def gh_runStatus_def runStatuses_def hasPrefix_def) presburger

lemma labelLoop_carried:
  "list_all labelItem vs \<Longrightarrow> carried (ls @ vs) \<Longrightarrow> labelLoop ls vs = Inr (ls @ vs)"
proof (induction vs arbitrary: ls)
  case (Cons v vs)
  have "trim v [CHR '' '', CHR 0x09] = v" "v \<notin> set ls" using Cons.prems by (auto simp: carried_def)
  with Cons show ?case by (simp add: labelItem_def)
qed simp

lemma labelCSV_carried: "gh_labels vs = Inr () \<Longrightarrow> carried vs \<Longrightarrow> vs \<noteq> [] \<Longrightarrow> labelCSV (join CHR '','' vs) = Inr vs"
  using labelLoop_carried [of vs "[]"]
  by (simp add: labelCSV_def gh_labels_Inr split_join carried_def list_all_iff)

lemma operationFlags_map: "map_of (operationFlags ns) n = (if n \<in> set ns \<union> {''--repo'', ''--json''} then Some ValueFlag else None)"
proof -
  have "map_of (foldl (\<lambda>m name. mapSet name ValueFlag m) m ns) n = (if n \<in> set ns then Some ValueFlag else map_of m n)" for m
    by (induction ns arbitrary: m) auto
  then show ?thesis by (simp add: operationFlags_def)
qed

lemma operationFlagsWithBools_map:
  "map_of (operationFlagsWithBools ns bs) n = (if n \<in> set bs then Some BoolFlag else map_of (operationFlags ns) n)"
proof -
  have "map_of (foldl (\<lambda>m name. mapSet name BoolFlag m) m bs) n = (if n \<in> set bs then Some BoolFlag else map_of m n)" for m
    by (induction bs arbitrary: m) auto
  then show ?thesis by (simp add: operationFlagsWithBools_def)
qed

lemma hasPrefix_steps:
  "hasPrefix s []" "\<not> hasPrefix [] (d # ds)" "hasPrefix (c # cs) (d # ds) \<longleftrightarrow> c = d \<and> hasPrefix cs ds"
  by (auto simp: hasPrefix_def)

lemmas name_eval = flagNames_def operationFlags_map operationFlagsWithBools_map contains_def sublist_code hasPrefix_steps
lemma flag_find [simp]:
  "flagValue \<lparr>flValues = [], flBools = bs\<rparr> n = None"
  "flagValue \<lparr>flValues = (k, v) # ps, flBools = bs\<rparr> n = (if n = k then Some v else flagValue \<lparr>flValues = ps, flBools = bs\<rparr> n)"
  "flagValue \<lparr>flValues = optionalFlag k x @ ps, flBools = bs\<rparr> n =
     (if n = k \<and> x \<noteq> None then x else flagValue \<lparr>flValues = ps, flBools = bs\<rparr> n)"
  "flagValue \<lparr>flValues = listFlag k vs @ ps, flBools = bs\<rparr> n =
     (if n = k \<and> vs \<noteq> [] then Some (join CHR '','' vs) else flagValue \<lparr>flValues = ps, flBools = bs\<rparr> n)"
  by (auto simp: flagValue_def optionalFlag_def listFlag_def split: option.splits)

lemmas value_eval = valueOr_def absentOr_def requiredFlag_Inr require_def

text \<open>The client reads a request back from arguments, in the parts of its parser.\<close>

definition readBack :: "gh_system \<Rightarrow> string \<Rightarrow> string \<Rightarrow> github_operation \<Rightarrow> bool" where
  "readBack sys cwd slug oper \<longleftrightarrow>
     (\<exists>oper' p kind selected. parseOperation sys (ghArgs slug oper) cwd = Inr (oper', p, kind) \<and> valueOr p ''--repo'' [] = slug
        \<and> selectedFields kind (valueOr p ''--json'' []) = Inr selected
        \<and> includeComments (''comments'' \<in> set selected) oper' = oper)"

lemma readBackI:
  assumes "parseOperation sys (ghArgs slug oper) cwd = Inr (oper, \<lparr>flValues = ghFlags oper @ [(''--repo'', slug)], flBools = bs\<rparr>, kind)"
    and "''--repo'' \<notin> fst ` set (ghFlags oper)" and "''--json'' \<notin> fst ` set (ghFlags oper)"
    and "\<And>r. oper \<noteq> GhIssueView (Some r)"
  shows "readBack sys cwd slug oper"
proof -
  have "map_of (ghFlags oper) ''--repo'' = None" "map_of (ghFlags oper) ''--json'' = None"
    using assms(2,3) by (simp_all add: map_of_eq_None_iff)
  moreover have "includeComments b oper = oper" for b
    using assms(4) by (cases "(b, oper)" rule: includeComments.cases) auto
  ultimately show ?thesis
    using assms(1) by (auto simp: readBack_def valueOr_def flagValue_def selectedFields_def map_add_def)
qed

lemmas gh_dispatch = ghArgs_def parseOperation_def parseIssue_def parseLabel_def parsePull_def parseRun_def Let_def image_Un

text \<open>The requests that hold a number only.\<close>

lemma number_read:
  assumes "\<not> hasPrefix slug ''--''" and "n \<noteq> 0"
    and "oper \<in> {GhIssueClose (Some n), GhIssueReopen (Some n), GhPullView (Some n), GhPullClose (Some n), GhPullReopen (Some n),
      GhPullReady (Some n), GhPullChecks (Some n), GhRunView (Some n)}"
  shows "readBack sys cwd slug oper"
proof -
  have "parseFlags (flagArgs [(''--repo'', slug)]) (operationFlags []) = Inr \<lparr>flValues = [(''--repo'', slug)], flBools = []\<rparr>"
    using assms(1) by (intro parseFlags_args) (simp_all add: name_eval noFlagValue_def)
  with assms(2,3) show ?thesis
    by (elim insertE; (intro readBackI [where bs = "[]"])?) (simp_all add: gh_dispatch parseIssueNumber_def parsePullNumber_def parseRunView_def)
qed

lemma repositoryView_read: "\<not> hasPrefix slug ''--'' \<Longrightarrow> readBack sys cwd slug (GhRepositoryView (Some ()))"
proof -
  assume "\<not> hasPrefix slug ''--''"
  then have "parseFlags (flagArgs [(''--repo'', slug)]) (operationFlags []) = Inr \<lparr>flValues = [(''--repo'', slug)], flBools = []\<rparr>"
    by (intro parseFlags_args) (simp_all add: name_eval noFlagValue_def)
  moreover have "leadingSlug (flagArgs [(''--repo'', slug)]) = Inr ([], flagArgs [(''--repo'', slug)])"
    by (simp add: leadingSlug_def flagArgs_def hasPrefix_def)
  ultimately show ?thesis
    by (intro readBackI [where bs = "[]"]) (simp_all add: gh_dispatch gh_parseRepository_def)
qed

lemma statusView_read: "\<not> hasPrefix slug ''--'' \<Longrightarrow> gh_validObjectID s \<Longrightarrow> readBack sys cwd slug (GhStatusView (Some s))"
proof -
  assume "\<not> hasPrefix slug ''--''" and "gh_validObjectID s"
  moreover from this have
    "parseFlags (flagArgs [(''--repo'', slug)]) (operationFlags []) = Inr \<lparr>flValues = [(''--repo'', slug)], flBools = []\<rparr>"
    by (intro parseFlags_args) (simp_all add: name_eval noFlagValue_def)
  ultimately show ?thesis
    by (intro readBackI [where bs = "[]"]) (simp_all add: gh_dispatch parseStatus_def)
qed

lemma issueView_read:
  assumes "\<not> hasPrefix slug ''--''" and "ivNumber r \<noteq> 0"
  shows "readBack sys cwd slug (GhIssueView (Some r))"
proof -
  let ?ps = "ghFlags (GhIssueView (Some r)) @ [(''--repo'', slug)]"
  have "parseFlags (flagArgs ?ps) (operationFlags []) = Inr \<lparr>flValues = ?ps, flBools = []\<rparr>"
    using assms(1) by (intro parseFlags_args) (simp_all add: name_eval noFlagValue_def)
  with assms(2) have "parseOperation sys (ghArgs slug (GhIssueView (Some r))) cwd
      = Inr (GhIssueView (Some \<lparr>ivNumber = ivNumber r, ivIncludeComments = False\<rparr>), \<lparr>flValues = ?ps, flBools = []\<rparr>, operationIssueView)"
    by (simp add: gh_dispatch parseIssueNumber_def)
  then show ?thesis
    by (cases r) (auto simp: readBack_def value_eval selectedFields_def gh_issueFields_def)
qed

lemma labelList_read:
  assumes "\<not> hasPrefix slug ''--''" and "gh_limit n 1000 = Inr ()"
  shows "readBack sys cwd slug (GhLabelList (Some n))"
proof -
  let ?ps = "ghFlags (GhLabelList (Some n)) @ [(''--repo'', slug)]"
  have "parseFlags (flagArgs ?ps) (operationFlags [''--limit'']) = Inr \<lparr>flValues = ?ps, flBools = []\<rparr>"
    using assms(1) by (intro parseFlags_args) (simp_all add: name_eval noFlagValue_def)
  with listLimit_numberArg [OF assms(2)]
  have "parseOperation sys (ghArgs slug (GhLabelList (Some n))) cwd
      = Inr (GhLabelList (Some n), \<lparr>flValues = ?ps, flBools = []\<rparr>, operationLabelList)"
    by (simp add: gh_dispatch parseLabelList_def requiredFlag_def value_eval)
  then show ?thesis
    by (auto simp: readBack_def value_eval selectedFields_def)
qed

lemma issueList_read:
  assumes "\<not> hasPrefix slug ''--''" and "validateIssueList (Some r) = Inr ()"
  shows "readBack sys cwd slug (GhIssueList (Some r))"
proof -
  let ?ps = "ghFlags (GhIssueList (Some r)) @ [(''--repo'', slug)]"
  have v: "1 \<le> ilState r" "ilState r \<le> 3" "gh_limit (ilLimit r) 1001 = Inr ()"
    using assms(2) by (auto simp: validateIssueList_def gh_limits split: if_splits)
  note state = stateArg_parsed [OF v(1,2)]
  have "parseFlags (flagArgs ?ps) (operationFlags [''--state'', ''--limit'']) = Inr \<lparr>flValues = ?ps, flBools = []\<rparr>"
    using assms(1) state by (intro parseFlags_args) (simp_all add: name_eval noFlagValue_def)
  with listLimit_numberArg [OF v(3)] state show ?thesis
    by (intro readBackI [where bs = "[]"]) (simp_all add: gh_dispatch gh_parseIssueList_def value_eval gh_issueState_def)
qed

lemma comment_read:
  assumes "\<not> hasPrefix slug ''--''" and "validateComment (cmNumber c) (cmBody c) = Inr ()" and "\<not> hasPrefix (cmBody c) ''--''"
  shows "readBack sys cwd slug (GhIssueComment (Some c))" "readBack sys cwd slug (GhPullComment (Some c))"
proof -
  let ?ps = "[(''--body'', cmBody c), (''--repo'', slug)]"
  have v: "cmNumber c \<noteq> 0" "validBody (cmBody c) True"
    using assms(2) by (auto simp: validateComment_def bindE_eq_Inr)
  have "parseFlags (flagArgs ?ps) (operationFlags [''--body'']) = Inr \<lparr>flValues = ?ps, flBools = []\<rparr>"
    using assms(1,3) by (intro parseFlags_args) (simp_all add: name_eval noFlagValue_def)
  with v have "commentArguments (numberArg (cmNumber c) # flagArgs ?ps) = Inr (c, \<lparr>flValues = ?ps, flBools = []\<rparr>)"
    by (simp add: commentArguments_def requiredFlag_def value_eval)
  then show "readBack sys cwd slug (GhIssueComment (Some c))" "readBack sys cwd slug (GhPullComment (Some c))"
    by (intro readBackI [where bs = "[]"]; simp add: gh_dispatch gh_parseIssueComment_def parsePullComment_def)+
qed

lemma labelCreate_read:
  assumes "\<not> hasPrefix slug ''--''" and "validateLabelCreate (Some r) = Inr ()" and "gh_expressible (GhLabelCreate (Some r))"
    and "noFlagValue (ghFlags (GhLabelCreate (Some r)))"
  shows "readBack sys cwd slug (GhLabelCreate (Some r))"
proof -
  let ?ps = "ghFlags (GhLabelCreate (Some r)) @ [(''--repo'', slug)]"
  have v: "validLabelName (lcName r)" "validLabelColor (lcColor r)" "validLabelDescription (lcDescription r)"
    using assms(2) by (auto simp: validateLabelCreate_def bindE_eq_Inr labelCreateName_Inr)
  have "parseFlags (flagArgs ?ps) (operationFlags [''--color'', ''--description'']) = Inr \<lparr>flValues = ?ps, flBools = []\<rparr>"
    using assms(1,4) by (intro parseFlags_args) (simp_all add: name_eval noFlagValue_def)
  with v assms(3) show ?thesis
    by (intro readBackI [where bs = "[]"]) (simp_all add: gh_dispatch parseLabelCreate_def requiredFlag_def value_eval)
qed

text \<open>The flags with an optional value or a list, as the client finds them.\<close>

lemma optionalFlag_value [simp]:
  "fst ` set (optionalFlag n v) = (if v = None then {} else {n})"
  "map fst (optionalFlag n v) = (if v = None then [] else [n])"
  by (auto simp: optionalFlag_def split: option.splits)

lemma listFlag_value [simp]:
  "fst ` set (listFlag n vs) = (if vs = [] then {} else {n})"
  "map fst (listFlag n vs) = (if vs = [] then [] else [n])"
  by (auto simp: listFlag_def)

lemma labelFlag_written:
  "gh_labels vs = Inr () \<Longrightarrow> carried vs \<Longrightarrow> flagValue p n = (if vs = [] then None else Some (join CHR '','' vs)) \<Longrightarrow> labelFlag p n = Inr vs"
  by (simp add: labelFlag_def labelCSV_carried)

lemma parseFlags_written:
  "flagNames allowed (map fst ps @ [''--repo'']) \<Longrightarrow> noFlagValue ps \<Longrightarrow> \<not> hasPrefix slug ''--'' \<Longrightarrow>
     parseFlags (flagArgs (ps @ [(''--repo'', slug)])) allowed = Inr \<lparr>flValues = ps @ [(''--repo'', slug)], flBools = []\<rparr>"
  by (intro parseFlags_args) (simp_all add: noFlagValue_def)

lemma issueCreate_read:
  assumes "\<not> hasPrefix slug ''--''" and "validateIssueCreate (Some r) = Inr ()" and "gh_expressible (GhIssueCreate (Some r))"
    and "noFlagValue (ghFlags (GhIssueCreate (Some r)))"
  shows "readBack sys cwd slug (GhIssueCreate (Some r))"
proof -
  let ?ps = "ghFlags (GhIssueCreate (Some r))"
  have v: "validTitle (icTitle r)" "case icBody r of None \<Rightarrow> True | Some b \<Rightarrow> validBody b False" "gh_labels (icLabels r) = Inr ()"
    using assms(2) by (auto simp: validateIssueCreate_def bindE_eq_Inr)
  have "parseFlags (flagArgs (?ps @ [(''--repo'', slug)])) (operationFlags [''--title'', ''--body'', ''--label''])
      = Inr \<lparr>flValues = ?ps @ [(''--repo'', slug)], flBools = []\<rparr>"
    using assms(1,4) by (intro parseFlags_written) (simp_all add: name_eval)
  moreover have "labelFlag \<lparr>flValues = ?ps @ [(''--repo'', slug)], flBools = []\<rparr> ''--label'' = Inr (icLabels r)"
    using v(3) assms(3) by (intro labelFlag_written) simp_all
  ultimately show ?thesis
    using v assms(3) by (intro readBackI [where bs = "[]"];
      cases "icBody r"; cases r; simp add: gh_dispatch gh_parseIssueCreate_def requiredFlag_def value_eval)
qed

lemma labelChange_read:
  assumes "\<not> hasPrefix slug ''--''" and "validateIssueLabelChange (Some r) = Inr ()"
    and "gh_expressible (GhIssueLabelChange (Some r))" and "noFlagValue (ghFlags (GhIssueLabelChange (Some r)))"
  shows "readBack sys cwd slug (GhIssueLabelChange (Some r))"
proof -
  let ?ps = "ghFlags (GhIssueLabelChange (Some r))" and ?p = "\<lparr>flValues = ghFlags (GhIssueLabelChange (Some r)) @ [(''--repo'', slug)], flBools = []\<rparr>"
  have v: "lhNumber r \<noteq> 0" "AddLabels r \<noteq> [] \<or> RemoveLabels r \<noteq> []" "gh_labels (AddLabels r) = Inr ()"
      "gh_labels (RemoveLabels r) = Inr ()" "set (AddLabels r) \<inter> set (RemoveLabels r) = {}"
    using assms(2) by (auto simp: validateIssueLabelChange_def bindE_eq_Inr distinctLabels_Inr_iff split: if_splits)
  have "parseFlags (flagArgs (?ps @ [(''--repo'', slug)])) (operationFlags [''--title'', ''--body'', ''--add-label'', ''--remove-label'']) = Inr ?p"
    using assms(1,4) by (intro parseFlags_written) (simp_all add: name_eval)
  moreover have "labelFlag ?p ''--add-label'' = Inr (AddLabels r)" "labelFlag ?p ''--remove-label'' = Inr (RemoveLabels r)"
    using v(3,4) assms(3) by (intro labelFlag_written; simp)+
  moreover from this v(5) have "gh_parseIssueLabelChange (lhNumber r) ?p = Inr (GhIssueLabelChange (Some r), ?p, operationIssueLabelChange)"
    by (cases r) (auto simp: gh_parseIssueLabelChange_def value_eval list_all_iff)
  ultimately show ?thesis
    using v(1,2) by (intro readBackI [where bs = "[]"]; elim disjE) (simp_all add: gh_dispatch gh_parseIssueEdit_def)
qed

lemma issueEdit_read:
  assumes "\<not> hasPrefix slug ''--''" and "validateIssueEdit (Some r) = Inr ()" and "gh_expressible (GhIssueEdit (Some r))"
    and "noFlagValue (ghFlags (GhIssueEdit (Some r)))"
  shows "readBack sys cwd slug (GhIssueEdit (Some r))"
proof -
  let ?ps = "ghFlags (GhIssueEdit (Some r))" and ?p = "\<lparr>flValues = ghFlags (GhIssueEdit (Some r)) @ [(''--repo'', slug)], flBools = []\<rparr>"
  have v: "ieNumber r \<noteq> 0" "ieTitle r \<noteq> None \<or> ieBody r \<noteq> None" "case ieTitle r of None \<Rightarrow> True | Some t \<Rightarrow> validTitle t"
      "case ieBody r of None \<Rightarrow> True | Some b \<Rightarrow> validBody b False"
    using assms(2,3) by (auto simp: validateIssueEdit_def bindE_eq_Inr split: if_splits)
  have "parseFlags (flagArgs (?ps @ [(''--repo'', slug)])) (operationFlags [''--title'', ''--body'', ''--add-label'', ''--remove-label'']) = Inr ?p"
    using assms(1,4) by (intro parseFlags_written) (simp_all add: name_eval)
  moreover have "issueFieldEdit (ieNumber r) ?p = Inr (GhIssueEdit (Some r), ?p, operationIssueEdit)"
    using v(2-4) assms(3) by (cases r) (auto simp: issueFieldEdit_def value_eval split: if_splits)
  ultimately show ?thesis
    using v(1) by (intro readBackI [where bs = "[]"]) (simp_all add: gh_dispatch gh_parseIssueEdit_def)
qed

lemma pullList_read:
  assumes "\<not> hasPrefix slug ''--''" and "validatePullList (Some r) = Inr ()" and "noFlagValue (ghFlags (GhPullList (Some r)))"
  shows "readBack sys cwd slug (GhPullList (Some r))"
proof -
  let ?ps = "ghFlags (GhPullList (Some r))"
  have v: "1 \<le> plState r" "plState r \<le> 3" "gh_limit (plLimit r) 100 = Inr ()"
      "case plBase r of None \<Rightarrow> True | Some b \<Rightarrow> validName b False" "case plHead r of None \<Rightarrow> True | Some b \<Rightarrow> validName b False"
    using assms(2) by (auto simp: validatePullList_def bindE_eq_Inr gh_limits split: if_splits)
  have "parseFlags (flagArgs (?ps @ [(''--repo'', slug)])) (operationFlags [''--state'', ''--base'', ''--head'', ''--limit''])
      = Inr \<lparr>flValues = ?ps @ [(''--repo'', slug)], flBools = []\<rparr>"
    using assms(1,3) by (intro parseFlags_written) (simp_all add: name_eval)
  with listLimit_numberArg [OF v(3)] stateArg_parsed [OF v(1,2)] v(4,5) show ?thesis
    by (intro readBackI [where bs = "[]"]; cases "plBase r"; cases "plHead r"; cases r;
        simp add: gh_dispatch gh_parsePullList_def value_eval gh_pullState_def)
qed

lemma pullCreate_read:
  assumes "\<not> hasPrefix slug ''--''" and "validatePullCreate (Some r) = Inr ()" and "gh_expressible (GhPullCreate (Some r))"
    and "noFlagValue (ghFlags (GhPullCreate (Some r)))"
  shows "readBack sys cwd slug (GhPullCreate (Some r))"
proof -
  let ?ps = "ghFlags (GhPullCreate (Some r)) @ [(''--repo'', slug)]" and ?draft = "pcDraft r = Some True"
  let ?allowed = "operationFlagsWithBools [''--head'', ''--base'', ''--title'', ''--body''] [''--draft'']"
  have v: "validTitle (pcTitle r)" "validName (pcHead r) True" "validName (pcBase r) True"
      "case pcBody r of None \<Rightarrow> True | Some b \<Rightarrow> validBody b False"
    using assms(2) by (auto simp: validatePullCreate_def bindE_eq_Inr)
  have "flagNames ?allowed (map fst ?ps)" "noFlagValue ?ps" "''--draft'' \<notin> fst ` set ?ps" "map_of ?allowed ''--draft'' = Some BoolFlag"
    using assms(1,4) by (auto simp: name_eval noFlagValue_def)
  then have "parseFlags ((if ?draft then [''--draft''] else []) @ flagArgs ?ps) ?allowed
      = Inr \<lparr>flValues = ?ps, flBools = (if ?draft then [(''--draft'', True)] else [])\<rparr>"
    by (simp add: parseFlags_args parseFlags_draft)
  moreover have "pcDraft r = None \<or> pcDraft r = Some True"
    using assms(3) by (cases "pcDraft r") auto
  ultimately show ?thesis
    using v by (intro readBackI [where bs = "if ?draft then [(''--draft'', True)] else []"]; elim disjE; cases "pcBody r"; cases r;
        simp add: gh_dispatch parsePullCreate_def value_eval mapGet_def)
qed

lemma pullEdit_read:
  assumes "\<not> hasPrefix slug ''--''" and "validatePullEdit (Some r) = Inr ()" and "noFlagValue (ghFlags (GhPullEdit (Some r)))"
  shows "readBack sys cwd slug (GhPullEdit (Some r))"
proof -
  let ?ps = "ghFlags (GhPullEdit (Some r))"
  have v: "peNumber r \<noteq> 0" "peTitle r \<noteq> None \<or> peBody r \<noteq> None \<or> peBase r \<noteq> None" "case peTitle r of None \<Rightarrow> True | Some t \<Rightarrow> validTitle t"
      "case peBody r of None \<Rightarrow> True | Some b \<Rightarrow> validBody b False" "case peBase r of None \<Rightarrow> True | Some b \<Rightarrow> validName b True"
    using assms(2) by (auto simp: validatePullEdit_def bindE_eq_Inr split: if_splits)
  have "parseFlags (flagArgs (?ps @ [(''--repo'', slug)])) (operationFlags [''--title'', ''--body'', ''--body-file'', ''--base''])
      = Inr \<lparr>flValues = ?ps @ [(''--repo'', slug)], flBools = []\<rparr>"
    using assms(1,3) by (intro parseFlags_written) (simp_all add: name_eval)
  with v show ?thesis
    by (intro readBackI [where bs = "[]"]; cases "peTitle r"; cases "peBody r"; cases "peBase r"; cases r;
        simp add: gh_dispatch parsePullEdit_def editBody_def value_eval)
qed

lemma runList_read:
  assumes "\<not> hasPrefix slug ''--''" and "validateRunList (Some r) = Inr ()" and "noFlagValue (ghFlags (GhRunList (Some r)))"
  shows "readBack sys cwd slug (GhRunList (Some r))"
proof -
  let ?ps = "ghFlags (GhRunList (Some r))" and ?p = "\<lparr>flValues = ghFlags (GhRunList (Some r)) @ [(''--repo'', slug)], flBools = []\<rparr>"
  have v: "gh_limit (rlLimit r) 100 = Inr ()" "case rlBranch r of None \<Rightarrow> True | Some b \<Rightarrow> validName b False"
      "case rlStatus r of None \<Rightarrow> True | Some n \<Rightarrow> 1 \<le> n \<and> n \<le> 15"
    using assms(2) by (auto simp: validateRunList_def bindE_eq_Inr gh_limits whenSet_def split: if_splits option.splits)
  have "parseFlags (flagArgs (?ps @ [(''--repo'', slug)])) (operationFlags [''--branch'', ''--status'', ''--limit'']) = Inr ?p"
    using assms(1,3) by (intro parseFlags_written) (simp_all add: name_eval)
  moreover have "statusFlag ?p = Inr (rlStatus r)"
    using v(3) gh_runStatus_parsed by (auto simp: statusFlag_def split: option.splits)
  ultimately show ?thesis
    using listLimit_numberArg [OF v(1)] v(2) by (intro readBackI [where bs = "[]"]; cases "rlBranch r"; cases "rlStatus r"; cases r;
        simp add: gh_dispatch parseRunList_def value_eval)
qed

lemma operation_read:
  assumes "\<not> hasPrefix slug ''--''" and "validateOperation oper = Inr ()" and "gh_expressible oper" and "noFlagValue (ghFlags oper)"
  shows "readBack sys cwd slug oper"
proof (cases oper)
  case (GhIssueComment v)
  then obtain c where "oper = GhIssueComment (Some c)"
    using assms(2) by (cases v) (auto simp: validateComment'_def getComment_def validateComment_def bindE_eq_Inr)
  with assms comment_read show ?thesis by (simp add: validateComment'_def getComment_def noFlagValue_def)
next
  case (GhPullComment v)
  then obtain c where "oper = GhPullComment (Some c)"
    using assms(2) by (cases v) (auto simp: validateComment'_def getComment_def validateComment_def bindE_eq_Inr)
  with assms comment_read show ?thesis by (simp add: validateComment'_def getComment_def noFlagValue_def)
next
  case (GhStatusView v)
  with assms statusView_read show ?thesis by (cases v) (auto simp: gh_validObjectID_def)
next
  case (GhLabelList v)
  with assms labelList_read show ?thesis by (cases v) (auto simp: validateLabelList_def gh_limits)
next
  case (GhIssueView v)
  with assms issueView_read show ?thesis by (cases v) (auto simp: getNumber_def)
next
  case (GhRepositoryView v)
  with assms repositoryView_read show ?thesis by (cases v) auto
next
  case (GhIssueList v)
  with assms issueList_read show ?thesis by (cases v) (auto simp: validateIssueList_def)
next
  case (GhIssueCreate v)
  with assms issueCreate_read show ?thesis by (cases v) (auto simp: validateIssueCreate_def)
next
  case (GhIssueEdit v)
  with assms issueEdit_read show ?thesis by (cases v) (auto simp: validateIssueEdit_def)
next
  case (GhLabelCreate v)
  with assms labelCreate_read show ?thesis by (cases v) (auto simp: validateLabelCreate_def)
next
  case (GhIssueLabelChange v)
  with assms labelChange_read show ?thesis by (cases v) (auto simp: validateIssueLabelChange_def)
next
  case (GhPullList v)
  with assms pullList_read show ?thesis by (cases v) (auto simp: validatePullList_def)
next
  case (GhPullCreate v)
  with assms pullCreate_read show ?thesis by (cases v) (auto simp: validatePullCreate_def)
next
  case (GhPullEdit v)
  with assms pullEdit_read show ?thesis by (cases v) (auto simp: validatePullEdit_def)
next
  case (GhRunList v)
  with assms runList_read show ?thesis by (cases v) (auto simp: validateRunList_def)
qed (use assms number_read in \<open>auto simp: getNumber_def split: option.splits\<close>)

text \<open>The slug of a repository with its host.\<close>

lemma allRunes_mono: "allRunes P s \<Longrightarrow> (\<And>r. P r \<Longrightarrow> Q r) \<Longrightarrow> allRunes Q s"
  by (auto simp: allRunes_def list_all_iff)

lemma slash_rune: "allRunes P s \<Longrightarrow> \<not> P 47 \<Longrightarrow> CHR ''/'' \<notin> set s"
proof
  assume "allRunes P s" and "\<not> P 47" and "CHR ''/'' \<in> set s"
  then have "allRunes (\<lambda>r. r \<noteq> 47) s"
    by (auto elim: allRunes_mono)
  moreover have "allRunes (\<lambda>r. r \<noteq> 47) s \<longleftrightarrow> (\<forall>c \<in> set s. code c \<noteq> 47)"
    by (intro allRunes_bytes) auto
  ultimately show False
    using \<open>CHR ''/'' \<in> set s\<close> by (auto dest: bspec [of _ _ "CHR ''/''"])
qed

lemma validSlug_chars: "validSlug owner name \<Longrightarrow> CHR ''/'' \<notin> set owner \<and> CHR ''/'' \<notin> set name"
  by (auto simp: validSlug_def alphaNumericRune_def dest!: slash_rune split: if_splits)

lemma split_chars: "c \<in> set s \<Longrightarrow> c \<noteq> d \<Longrightarrow> \<exists>p \<in> set (split d s). c \<in> set p"
  by (induction s) (auto split: list.splits)

lemma validHost_label:
  "validHost host \<Longrightarrow> l \<in> set (split CHR ''.'' host) \<Longrightarrow> l \<noteq> [] \<and> hd l \<noteq> CHR ''-'' \<and> CHR ''/'' \<notin> set l"
  by (auto simp: validHost_def list_all_iff alphaNumericRune_def dest!: slash_rune split: if_splits)

lemma validHost_chars: "validHost host \<Longrightarrow> CHR ''/'' \<notin> set host \<and> host \<noteq> [] \<and> hd host \<noteq> CHR ''-''"
proof -
  assume v: "validHost host"
  have "CHR ''/'' \<notin> set host"
    using validHost_label [OF v] split_chars [of "CHR ''/''" host "CHR ''.''"] by auto
  moreover obtain c cs where h: "host = c # cs" "c \<noteq> CHR ''.''"
    using v by (cases host) (auto simp: validHost_def hasPrefix_def split: if_splits)
  moreover have "hd (hd (split CHR ''.'' host)) = c" "hd (split CHR ''.'' host) \<in> set (split CHR ''.'' host)"
    using h by (auto split: list.splits)
  ultimately show ?thesis using validHost_label [OF v] by auto
qed

definition slugArg :: "string \<Rightarrow> string \<Rightarrow> string \<Rightarrow> string" where
  "slugArg host owner name = host @ ''/'' @ owner @ ''/'' @ name"

lemma parseExplicit_slugArg:
  assumes "validHost host" and "validSlug owner name"
  shows "parseExplicit (slugArg host owner name) = Inr (selectorOf host owner name)"
proof -
  have "split CHR ''/'' (slugArg host owner name) = [host, owner, name]"
    using validSlug_chars [OF assms(2)] validHost_chars [OF assms(1)]
    by (simp add: slugArg_def split_append split_single)
  with assms show ?thesis by (simp add: parseExplicit_def)
qed

text \<open>
  C21. Every request of the service can be made with the client. A valid GitHub request on a repository
  with a valid slug, if its arguments fit the limits of the client and it has nothing that the syntax
  cannot express, is what the client reads from those arguments.
\<close>

theorem gh_request_written:
  assumes "validateOperation oper = Inr ()" and "gh_expressible oper" and "noFlagValue (ghFlags oper)"
    and "validHost host" and "validSlug owner name" and "gh_validateArgv (ghArgs (slugArg host owner name) oper) = Inr ()"
  shows "gh_Parse sys (ghArgs (slugArg host owner name) oper) cwd =
    Inr \<lparr>ghContext = Some \<lparr>ctxRepository = Some (selectorOf host owner name)\<rparr>, ghOperation = oper\<rparr>"
proof -
  have h: "slugArg host owner name \<noteq> []" "\<not> hasPrefix (slugArg host owner name) ''--''"
    using validHost_chars [OF assms(4)] by (cases host; auto simp: slugArg_def hasPrefix_def)+
  then obtain oper' p kind selected where
    "parseOperation sys (ghArgs (slugArg host owner name) oper) cwd = Inr (oper', p, kind)"
    "valueOr p ''--repo'' [] = slugArg host owner name" "selectedFields kind (valueOr p ''--json'' []) = Inr selected"
    "includeComments (''comments'' \<in> set selected) oper' = oper"
    using operation_read [OF h(2) assms(1-3), of sys cwd] unfolding readBack_def by blast
  with assms(6) h(1) parseExplicit_slugArg [OF assms(4,5)] show ?thesis
    by (simp add: gh_Parse_def parseArgs_def RepositoryHint_def)
qed


section \<open>Examples\<close>

definition exampleSystem :: gh_system where
  "exampleSystem =
     \<lparr>ghOpenFile = \<lambda>path. if path = ''/work/notes/body.md''
        then Some \<lparr>bfRegular = True, bfContent = ''Fixes the walk.'', bfReadFails = False\<rparr> else None,
      ghRemote = originRemote exampleFS, ghParseURL = \<lambda>_. None\<rparr>"

text \<open>An edit with its body in a file; the repository is the origin of the example worktree.\<close>

definition examplePullEditArgs :: "string list" where
  "examplePullEditArgs = [''pr'', ''edit'', ''7'', ''--title'', ''Walk'', ''--body-file'', ''/work/notes/body.md'']"

lemma examplePullEdit_parsed: "isOK (parseArgs exampleSystem examplePullEditArgs ''/wt/sub'')"
  by code_simp

theorem gh_request_accepted_witness:
  "\<exists>cmd. parseArgs exampleSystem examplePullEditArgs ''/wt/sub'' = Inr cmd
    \<and> (\<exists>host owner name. validHost host \<and> validSlug owner name \<and> githubSelector (ghcRequest cmd) =
           Inr \<lparr>selKind = ProviderGitHub, selHost = toLower host, selSSHPort = 0, selOwner = owner, selName = name\<rparr>)
    \<and> isOK (github_Capability (Some (ghcRequest cmd))) \<and> isOK (github_OperationName (Some (ghcRequest cmd)))
    \<and> (ValidateGitHubRequest (Some (ghcRequest cmd)) = Inr () \<longleftrightarrow> serviceOnly (ghOperation (ghcRequest cmd)))"
proof -
  obtain cmd where c: "parseArgs exampleSystem examplePullEditArgs ''/wt/sub'' = Inr cmd"
    using examplePullEdit_parsed by (auto simp: isOK_iff)
  with gh_request_accepted [OF c] show ?thesis by blast
qed

definition exampleNewIssue :: github_operation where
  "exampleNewIssue = GhIssueCreate (Some \<lparr>icTitle = ''Broken walk'', icBody = Some [], icLabels = [''bug'', ''good first issue''], icAssignees = []\<rparr>)"

lemma exampleNewIssue_valid:
  "validateOperation exampleNewIssue = Inr ()" "gh_expressible exampleNewIssue" "noFlagValue (ghFlags exampleNewIssue)"
  "validHost ''github.com''" "validSlug ''Team'' ''Repo''"
  "gh_validateArgv (ghArgs (slugArg ''github.com'' ''Team'' ''Repo'') exampleNewIssue) = Inr ()"
  by code_simp+

theorem gh_request_written_witness:
  "gh_Parse exampleSystem (ghArgs (slugArg ''github.com'' ''Team'' ''Repo'') exampleNewIssue) ''/'' =
    Inr \<lparr>ghContext = Some \<lparr>ctxRepository = Some (selectorOf ''github.com'' ''Team'' ''Repo'')\<rparr>, ghOperation = exampleNewIssue\<rparr>"
  by (rule gh_request_written [OF exampleNewIssue_valid])

end
