(* ===== verification/Git_Session_Correct.thy ===== *)
theory Git_Session_Correct
  imports Git_Session
begin

text \<open>
  What a Git session does: the process it starts is the one the configuration authorises, nothing
  reaches the process before the checks, and every session ends with one terminal frame and one
  final audit record.
\<close>

section \<open>The command\<close>

lemma git_command_Inr:
  assumes "git_command opts ctx m cap svc kinds = Inr (command, repo)"
  obtains sn sel who where "svcPolicy opts = Some sn" "ctxPrincipal ctx = Some who"
    "ResolveGit sn who (gitSelectorOf sel) cap = Inr repo" "Kind (resProvider repo) \<in> set kinds"
    "ValidRepositoryIdentity (Kind (resProvider repo)) (Owner (resRepository repo)) (Name (resRepository repo))"
    "svc = ''git-upload-pack'' \<or> svc = ''git-receive-pack''" "command = sshCommand opts svc repo"
  using assms
  by (auto simp: git_command_def list_ex_iff split: option.splits sum.splits if_splits)

lemma receiveCommand_Inr:
  assumes "receiveCommand opts ctx m = Inr (repo, command)"
  obtains repo' where
    "git_command opts ctx m GitRead ''git-receive-pack'' [ProviderGitHub, ProviderGitea] =
       Inr (sshCommand opts ''git-receive-pack'' repo', repo')"
    "git_command opts ctx m GitWrite ''git-receive-pack'' [ProviderGitHub, ProviderGitea] = Inr (command, repo)"
    "ID repo' = ID repo"
  using assms
  by (auto simp: receiveCommand_def Let_def split: sum.splits if_splits elim!: git_command_Inr)

text \<open>
  How a POSIX shell splits a command line of plain characters, blanks and single quotes; \<^term>\<open>None\<close>
  for every other character outside quotes and for an unterminated quote.
\<close>

definition plainShellChar :: "char \<Rightarrow> bool" where
  "plainShellChar c = (isAlnum c \<or> c = CHR ''-'' \<or> c = CHR ''_'' \<or> c = CHR ''.'' \<or> c = CHR ''/'')"

fun shellWords :: "bool \<Rightarrow> string \<Rightarrow> string \<Rightarrow> string list option" where
  "shellWords quoted word [] = (if quoted then None else Some (if word = [] then [] else [word]))"
| "shellWords True word (c # cs) =
     (if c = CHR 0x27 then shellWords False word cs else shellWords True (word @ [c]) cs)"
| "shellWords False word (c # cs) =
     (if c = CHR 0x27 then shellWords True word cs
      else if c = CHR '' '' then map_option (\<lambda>ws. if word = [] then ws else word # ws) (shellWords False [] cs)
      else if plainShellChar c then shellWords False (word @ [c]) cs
      else None)"

lemma shellWords_quoted:
  "CHR 0x27 \<notin> set s \<Longrightarrow> shellWords True word (s @ CHR 0x27 # rest) = shellWords False (word @ s) rest"
  by (induct s arbitrary: word) auto

lemma shellWords_plain:
  "list_all plainShellChar s \<Longrightarrow> shellWords False word (s @ rest) = shellWords False (word @ s) rest"
  by (induct s arbitrary: word) (auto simp: plainShellChar_def char_class_defs)

lemma quote_not_alnum [simp]: "\<not> isAlnum (CHR 0x27)"
  by code_simp

lemma name_no_quote:
  "ownerName s \<Longrightarrow> CHR 0x27 \<notin> set s" "repositoryName s \<Longrightarrow> CHR 0x27 \<notin> set s" "giteaName s \<Longrightarrow> CHR 0x27 \<notin> set s"
  by (cases s; force simp: ownerName_def repositoryName_def giteaName_def list_all_iff)+

lemma identity_no_quote:
  "ValidRepositoryIdentity kind owner name \<Longrightarrow> CHR 0x27 \<notin> set owner \<and> CHR 0x27 \<notin> set name"
  using name_no_quote by (auto simp: ValidRepositoryIdentity_def validGiteaName_def split: if_splits)

lemma remoteCommand_words:
  assumes "ValidRepositoryIdentity kind (Owner repo) (Name repo)"
    and "svc = ''git-upload-pack'' \<or> svc = ''git-receive-pack''"
  shows "shellWords False [] (remoteCommand svc repo) = Some [svc, Owner repo @ ''/'' @ Name repo @ ''.git'']"
proof -
  let ?p = "Owner repo @ ''/'' @ Name repo @ ''.git''"
  have "list_all plainShellChar svc" "svc \<noteq> []"
    using assms(2) by (auto simp: plainShellChar_def char_class_defs)
  moreover have "shellWords True [] (?p @ CHR 0x27 # []) = Some [?p]"
    using identity_no_quote [OF assms(1)] by (subst shellWords_quoted) auto
  ultimately show ?thesis
    using shellWords_plain [of svc "[]" "'' '' @ [CHR 0x27] @ ?p @ [CHR 0x27]"]
    by (simp add: remoteCommand_def)
qed


section \<open>The shape of a session\<close>

text \<open>A process is started at most once, right after its accepted audit record has been written.\<close>

definition gated :: "surroundings \<Rightarrow> (runner_command \<Rightarrow> event \<Rightarrow> bool) \<Rightarrow> action list \<Rightarrow> bool" where
  "gated env ok acts \<longleftrightarrow>
     (\<exists>rest. (\<forall>c. StartProcess c \<notin> set rest) \<and>
        (acts = rest \<and> (\<forall>w. ToProcess w \<notin> set rest)
         \<or> (\<exists>ev c. acts = AuditRecord ev # StartProcess c # rest \<and> sink env ev = None \<and> ok c ev)))"

text \<open>
  What the sessions rely on: \<^verbatim>\<open>processFailure\<close> is a private type of the package that only
  \<^verbatim>\<open>causeWithExit\<close> constructs, so no error the surroundings report is one, and the exit code of a
  process fits the field of the terminal frame.
\<close>

definition ordinary :: "surroundings \<Rightarrow> bool" where
  "ordinary env \<longleftrightarrow>
     (\<forall>e. firstFrame env = Inl e \<or> started env = Some e \<or> e = serverFault env \<or> cause env = Some e
        \<or> snd (stopped env) = Some e \<or> Inl e \<in> set (clientFrames env) \<or> (\<exists>fs. pump env fs = Some e) \<longrightarrow>
        errors_AsFailure e = None)
     \<and> resExitCode (fst (waited env)) < 2 ^ 32"

interpretation exitless: error_class "\<lambda>e. errors_AsFailure e = None"
  by unfold_locales simp_all

lemma sendLoop_error: "sendLoop send n sent data = (fs, Some e) \<Longrightarrow> \<exists>fs. send fs = Some e"
proof (induction send n sent data rule: sendLoop.induct)
  case (1 send n sent data)
  then show ?case
    by (cases "send sent") (auto simp: sendLoop.simps [of send n sent data] Let_def split: if_splits)
qed

lemma sendBytes_error:
  "sendBytes send data n = (fs, Some e) \<Longrightarrow> (\<exists>fs. send fs = Some e) \<or> e = Sentinel ErrChunkLimit"
  by (auto simp: sendBytes_def dest: sendLoop_error split: if_splits)

lemma client_Accept_exitless: "client_Accept st f = (Some e, st') \<Longrightarrow> errors_AsFailure e = None"
  by (auto simp: client_Accept_def clientReject_def validChunk_def
      split: option.splits frame_payload.splits if_splits)

lemma clientStream_error:
  "clientStream st tot mx fs = Some (bytes, e) \<Longrightarrow> errors_AsFailure e = None \<or> Inl e \<in> set fs"
proof (induction st tot mx fs arbitrary: bytes rule: clientStream.induct)
  case (3 st tot mx frame rest)
  then show ?case
    by (cases "client_Accept st frame")
      (auto simp: Let_def client_Accept_exitless split: option.splits if_splits)
qed (auto simp: client_Close_def split: if_splits option.splits)

lemma classify_exitless: "errors_AsFailure e = None \<Longrightarrow> errors_AsFailure (classifyReceiveRequestError e) = None"
  by (simp add: classifyReceiveRequestError_def)

lemma ParseReceivePack_exitless:
  "ParseReceivePack inp flt opts = Inl e \<Longrightarrow> errors_AsFailure flt = None \<Longrightarrow> errors_AsFailure e = None"
  using exitless.ParseReceivePack_Inl by fastforce

lemma git_command_exitless: "git_command opts ctx m cap svc kinds = Inl e \<Longrightarrow> errors_AsFailure e = None"
  by (auto simp: git_command_def fail_def split: option.splits sum.splits if_splits)

lemma receiveCommand_exitless: "receiveCommand opts ctx m = Inl (repo, e) \<Longrightarrow> errors_AsFailure e = None"
  using git_command_exitless by (auto simp: receiveCommand_def Let_def split: sum.splits prod.splits if_splits)

text \<open>
  What the error a session ends with tells: its terminal frame is valid, and there is no error only
  after the process has exited with code 0, unforced and in time.
\<close>

definition told :: "surroundings \<Rightarrow> go_error option \<Rightarrow> bool" where
  "told env err \<longleftrightarrow>
     (ordinary env \<longrightarrow> validTerminal (Some (terminalOf err)))
     \<and> (err = None \<longrightarrow> resExitCode (fst (waited env)) = 0 \<and> snd (waited env) = None
          \<and> \<not> TimedOut (fst (waited env)) \<and> cause env = None)"

lemma category_failure:
  "terminalCategory (Some e) \<in> {TermPermissionDenied, TermInvalidRequest, TermProviderFailure,
     TermDeadlineExceeded, TermLimitExceeded, TermUnavailable}"
  by (simp add: terminalCategory_def)

lemma validTerminal_Some:
  assumes "\<And>c. errors_AsFailure e = Some c \<Longrightarrow> c < 2 ^ 32"
  shows "validTerminal (Some (terminalOf (Some e)))"
proof -
  have "word_of_int c \<noteq> (0 :: 32 word)" if "0 < c" "c < 2 ^ 32" for c :: int
    using that by (simp add: word_of_int_eq_0_iff zdvd_not_zless)
  then show ?thesis
    using assms category_failure [of e]
    by (auto simp: validTerminal_def terminalOf_def Let_def split: option.splits)
qed

lemma told_error: "(ordinary env \<Longrightarrow> errors_AsFailure e = None) \<Longrightarrow> told env (Some e)"
  using validTerminal_Some [of e] by (auto simp: told_def)

lemma told_first:
  assumes "\<And>e. ordinary env \<Longrightarrow> Some e \<in> set vals \<Longrightarrow> errors_AsFailure e = None" and "Some e' \<in> set vals"
  shows "told env (firstError vals)"
proof -
  have "\<exists>e. firstError vals = Some e \<and> Some e \<in> set vals"
    using assms(2) by (induction vals) (auto simp: firstError_def map_filter_simps split: option.splits)
  then show ?thesis
    using assms(1) told_error by metis
qed

lemma firstError_None: "firstError vals = None \<Longrightarrow> v \<in> set vals \<Longrightarrow> v = None"
  by (induction vals) (auto simp: firstError_def map_filter_simps split: option.splits list.splits)

lemma told_exit:
  assumes "cause env \<in> set vals" and "snd (waited env) \<in> set vals"
  shows "told env (causeWithExit (if TimedOut (fst (waited env)) then Some (Sentinel ContextDeadlineExceeded)
      else firstError vals) (resExitCode (fst (waited env))))"
proof -
  let ?x = "resExitCode (fst (waited env))"
  have failure: "told env (Some (ProcessFailure e ?x))" for e
    using validTerminal_Some [of "ProcessFailure e ?x"] by (auto simp: told_def ordinary_def)
  have completed: "told env None" if "\<not> TimedOut (fst (waited env))" "firstError vals = None" "?x = 0"
    using assms that firstError_None [of vals] by (auto simp: told_def terminalOf_def validTerminal_def terminalCategory_def)
  show ?thesis
    using failure completed by (auto simp: causeWithExit_def split: option.splits)
qed

lemma told_intros:
  "told env (Some (Sentinel s))"
  "firstFrame env = Inl e \<Longrightarrow> told env (Some e)"
  "started env = Some e \<Longrightarrow> told env (Some e)"
  "client_Accept st f = (Some e, st') \<Longrightarrow> told env (Some e)"
  "git_command opts ctx m cap svc kinds = Inl e \<Longrightarrow> told env (Some e)"
  "receiveCommand opts ctx m = Inl (repo, e) \<Longrightarrow> told env (Some e)"
  by (rule told_error; auto simp: ordinary_def client_Accept_exitless git_command_exitless receiveCommand_exitless)+

lemma told_advertisement:
  "ParseAdvertisement (serverBytes env) (serverFault env) n = Inl err \<Longrightarrow>
     told env (firstError [cause env, Some err, snd (stopped env)])"
  by (rule told_first [of _ _ err]) (auto simp: ordinary_def exitless.ParseAdvertisement_foreign)

lemma told_send:
  "sendBytes (pump env) data n = (fs, Some err) \<Longrightarrow> told env (firstError [Some err, snd (stopped env)])"
  using sendBytes_error [of "pump env" data n fs err]
  by (intro told_first [of _ _ err]) (auto simp: ordinary_def)

lemma told_request:
  assumes "delivers (clientReader opts env st) = Some (bytes, flt)" and "ParseReceivePack bytes flt ropts = Inl err"
  shows "told env (firstError [Some (classifyReceiveRequestError err), snd (stopped env)])"
proof (rule told_first [of _ _ "classifyReceiveRequestError err"])
  fix e assume env: "ordinary env" and e: "Some e \<in> set [Some (classifyReceiveRequestError err), snd (stopped env)]"
  have "errors_AsFailure flt = None \<or> Inl flt \<in> set (clientFrames env)"
    using assms(1) clientStream_error by (auto simp: delivers_def clientReader_def)
  with env have "errors_AsFailure err = None"
    using ParseReceivePack_exitless [OF assms(2)] by (auto simp: ordinary_def)
  with env e show "errors_AsFailure e = None"
    by (auto simp: classify_exitless ordinary_def)
qed simp

text \<open>The end of a session: the terminal frame, if it is valid, and the audit record.\<close>

definition ended :: "surroundings \<Rightarrow> rpc_context \<Rightarrow> action list \<Rightarrow> go_error option \<Rightarrow> bool" where
  "ended env ctx acts res \<longleftrightarrow>
     (\<exists>before err ev. let t = terminalOf err in
        acts = before @ (if validTerminal (Some t) then [Terminal t] else []) @ [AuditRecord ev]
        \<and> told env err \<and> (\<forall>t'. Terminal t' \<notin> set before)
        \<and> Outcome ev = outcomeOf err \<and> evReason ev = categoryName (Category t)
        \<and> evPrincipal ev = (case ctxPrincipal ctx of None \<Rightarrow> [] | Some who \<Rightarrow> who)
        \<and> (res = None \<longleftrightarrow> validTerminal (Some t) \<and> deliver env t = None \<and> sink env ev = None))"

lemma finish_ended:
  assumes "\<forall>t. Terminal t \<notin> set before" and "told env err"
  shows "ended env ctx (fst (having before (finish env ctx repo opn i o' refs n err)))
    (snd (having before (finish env ctx repo opn i o' refs n err)))"
  unfolding ended_def Let_def
  by (rule exI [of _ before], rule exI [of _ err])
    (use assms in \<open>auto simp: having_def finish_def Let_def server_Accept_def finishDeliveryError_def
       auditEvent_def zeroEvent_def split: option.splits if_splits\<close>)

lemma having_nil: "having [] r = r"
  by (simp add: having_def)

lemma having_having: "having a (having b r) = having (a @ b) r"
  by (simp add: having_def)

lemma finish_quiet:
  "StartProcess c \<notin> set (fst (finish env ctx repo opn i o' refs n err))"
  "ToProcess w \<notin> set (fst (finish env ctx repo opn i o' refs n err))"
  by (auto simp: finish_def Let_def split: if_splits)

text \<open>Every course of a session is some actions without start or terminal, followed by \<^verbatim>\<open>finish\<close>.\<close>

definition course ::
  "surroundings \<Rightarrow> rpc_context \<Rightarrow> action list \<Rightarrow> action list \<times> go_error option \<Rightarrow> bool" where
  "course env ctx acts r \<longleftrightarrow>
     (\<exists>repo opn i n out refs err. told env err \<and> r = having acts (finish env ctx repo opn i out refs n err))"

lemma course_ended:
  "course env ctx acts (as, res) \<Longrightarrow> \<forall>t. Terminal t \<notin> set acts \<Longrightarrow> ended env ctx as res"
  unfolding course_def by (metis finish_ended fst_conv snd_conv)

lemma course_having: "course env ctx acts r \<Longrightarrow> course env ctx (b @ acts) (having b r)"
  unfolding course_def by (metis having_having)

lemma course_finish: "told env err \<Longrightarrow> course env ctx [] (finish env ctx repo opn i out refs n err)"
  unfolding course_def by (metis having_nil)

lemma course_having_finish: "told env err \<Longrightarrow> course env ctx b (having b (finish env ctx repo opn i out refs n err))"
  unfolding course_def by blast

lemma course_acts:
  "course env ctx acts (as, res) \<Longrightarrow>
     (StartProcess c \<in> set as \<longleftrightarrow> StartProcess c \<in> set acts) \<and> (ToProcess w \<in> set as \<longleftrightarrow> ToProcess w \<in> set acts)"
  using finish_quiet by (auto simp: course_def having_def)

definition calm :: "action list \<Rightarrow> bool" where
  "calm acts \<longleftrightarrow> (\<forall>t. Terminal t \<notin> set acts) \<and> (\<forall>c. StartProcess c \<notin> set acts)"

text \<open>
  What justifies the bytes \<open>w\<close> that a push passes to the process: they are the beginning of the
  client's stream, whose request was parsed and accepted under the policy of the repository and the
  capabilities the server advertised.
\<close>

definition justified ::
  "service_options \<Rightarrow> surroundings \<Rightarrow> client_frame_state \<Rightarrow> resolved \<Rightarrow> string \<Rightarrow> bool" where
  "justified opts env st repo w \<longleftrightarrow>
     (\<exists>bytes flt adv rest parsed r tl.
        ParseAdvertisement (serverBytes env) (serverFault env) (MaxPushPrefixBytes (svcLimits opts)) = Inr (adv, rest)
        \<and> delivers (clientReader opts env st) = Some (bytes, flt)
        \<and> ParseReceivePack bytes flt (receiveOptionsOf opts repo (advCapabilities adv)) = Inr (parsed, r)
        \<and> bytes = w @ tl \<and> ValidatePush (Git (resRepository repo)) (Updates parsed) = Inr ())"

lemma writeValidatedInput_prefix:
  "writeValidatedInput acc pre rest flt = (w, e) \<Longrightarrow> \<exists>tl. pre @ rest = w @ tl"
  by (auto simp: writeValidatedInput_def split: prod.splits if_splits) (metis append_take_drop_id append.assoc)+

lemma ParseReceivePack_split:
  "ParseReceivePack inp flt opts = Inr (parsed, r) \<Longrightarrow>
     inp = Prefix parsed @ input r \<and> ValidatePush (optPolicy opts) (Updates parsed) = Inr ()"
proof -
  assume m: "ParseReceivePack inp flt opts = Inr (parsed, r)"
  obtain r0 p where r0: "newPacketReader inp flt (MaxBytes opts) = Inr r0"
    and acc: "accepted (newReceiveParser r0 opts) p" and r: "r = reader p"
    and v: "ValidatePush (optPolicy opts) (updates p) = Inr ()"
    and res: "parsed = \<lparr>Prefix = raw r, Updates = updates p, resCapabilities = pCapabilities p\<rparr>"
    using ParseReceivePack_accepted [OF m] by blast
  have "raw r0 = []" "input r0 = inp"
    using r0 by (auto simp: newPacketReader_def split: if_splits)
  moreover have "reads r0 r"
    using acc r by (simp add: accepted_def newReceiveParser_def)
  ultimately show ?thesis
    using reads_facts(1) [of r0 r] v res by simp
qed

lemma relayPush_course:
  assumes "relayPush opts env ctx repo adv frames parsed r = Some x"
  obtains w sent where "course env ctx [ToProcess w, ToClient sent] x" "\<exists>tl. Prefix parsed @ input r = w @ tl"
proof -
  obtain w e where w: "writeValidatedInput (stdinAccepts env) (Prefix parsed) (input r) (fault r) = (w, e)"
    by fastforce
  obtain sent out err where o: "copyOutputToFrames (\<lambda>sent. pump env (frames @ sent))
      (MaxStreamChunkBytes (svcLimits opts)) (outputReads env) = Some (sent, out, err)"
    using assms w by (auto simp: relayPush_def split: option.splits)
  have "course env ctx [ToProcess w, ToClient sent] x"
    using assms w o by (auto simp: relayPush_def Let_def intro!: course_having_finish told_exit)
  then show thesis
    using that writeValidatedInput_prefix [OF w] by blast
qed

definition pushCourse ::
  "service_options \<Rightarrow> surroundings \<Rightarrow> rpc_context \<Rightarrow> client_frame_state \<Rightarrow> resolved
     \<Rightarrow> action list \<times> go_error option \<Rightarrow> bool" where
  "pushCourse opts env ctx st repo x \<longleftrightarrow>
     (\<exists>acts. course env ctx acts x \<and> calm acts \<and> (\<forall>w. ToProcess w \<in> set acts \<longrightarrow> justified opts env st repo w))"

lemma pushCourse_finish:
  "told env err \<Longrightarrow> pushCourse opts env ctx st repo (finish env ctx repo' opn i out refs n err)"
  "told env err \<Longrightarrow> pushCourse opts env ctx st repo (having [ToClient fs] (finish env ctx repo' opn i out refs n err))"
  unfolding pushCourse_def
   apply (rule exI [of _ "[]"], simp add: course_finish calm_def)
  apply (rule exI [of _ "[ToClient fs]"], simp add: course_having_finish calm_def)
  done

lemma runPush_course:
  assumes "runPush opts env ctx st repo = Some x"
  shows "pushCourse opts env ctx st repo x"
proof -
  show ?thesis
  proof (cases "ParseAdvertisement (serverBytes env) (serverFault env) (MaxPushPrefixBytes (svcLimits opts))")
    case (Inl err)
    with assms told_advertisement [OF Inl] show ?thesis by (auto simp: runPush_def Let_def pushCourse_finish)
  next
    case (Inr a)
    obtain adv rest where a: "a = (adv, rest)" by (cases a)
    obtain frames se where s: "sendBytes (pump env) (Raw adv) (MaxStreamChunkBytes (svcLimits opts)) = (frames, se)"
      by (cases "sendBytes (pump env) (Raw adv) (MaxStreamChunkBytes (svcLimits opts))")
    show ?thesis
    proof (cases "se")
      case (Some e)
      with assms Inr a s told_send [of env] show ?thesis by (auto simp: runPush_def Let_def pushCourse_finish)
    next
      case None
      with assms Inr a s obtain bytes flt where d: "delivers (clientReader opts env st) = Some (bytes, flt)"
        by (auto simp: runPush_def Let_def split: option.splits)
      show ?thesis
      proof (cases "ParseReceivePack bytes flt (receiveOptionsOf opts repo (advCapabilities adv))")
        case (Inl err)
        with assms Inr a s None d told_request [OF d Inl] show ?thesis
          by (auto simp: runPush_def Let_def pushCourse_finish)
      next
        case p: (Inr pr)
        obtain parsed r where pr: "pr = (parsed, r)" by (cases pr)
        with assms Inr a s None d p obtain y where
          y: "relayPush opts env ctx repo adv frames parsed r = Some y" "x = having [ToClient frames] y"
          by (auto simp: runPush_def Let_def)
        obtain w sent where w: "course env ctx [ToProcess w, ToClient sent] y" "\<exists>tl. Prefix parsed @ input r = w @ tl"
          using relayPush_course [OF y(1)] by blast
        have "justified opts env st repo w"
          using ParseReceivePack_split [OF p [unfolded pr]] Inr a d p pr w(2)
          by (auto simp: justified_def receiveOptionsOf_def)
        then show ?thesis
          using course_having [OF w(1), of "[ToClient frames]"] y(2) unfolding pushCourse_def
          by (intro exI [of _ "[ToClient frames, ToProcess w, ToClient sent]"]) (auto simp: calm_def)
      qed
    qed
  qed
qed

lemma runFetch_course:
  assumes "runFetch opts env ctx st repo = Some x"
  shows "\<exists>acts. course env ctx acts x \<and> calm acts"
proof -
  obtain inp outp live sent out outErr where
    s: "selectLoop True True True (arrivals env) = Some (inp, outp, live)"
    "copyOutputToFrames (pump env) (MaxStreamChunkBytes (svcLimits opts)) (outputReads env) = Some (sent, out, outErr)"
    using assms by (auto simp: runFetch_def split: option.splits)
  let ?c = "\<lambda>e. firstError [cause env, if live then None else cause env, e, outErr, snd (waited env)]"
  obtain acts i e where "x = having acts (finish env ctx repo fetchOperation i out [] 0
      (causeWithExit (if TimedOut (fst (waited env)) then Some (Sentinel ContextDeadlineExceeded) else ?c e)
         (resExitCode (fst (waited env)))))" "calm acts"
    using assms s by (fastforce simp: runFetch_def Let_def calm_def split: option.splits if_splits)
  moreover have "told env (causeWithExit (if TimedOut (fst (waited env)) then Some (Sentinel ContextDeadlineExceeded) else ?c e)
      (resExitCode (fst (waited env))))"
    by (rule told_exit) simp_all
  ultimately show ?thesis
    using course_having_finish by blast
qed


section \<open>Sessions as an interface\<close>

text \<open>The accepted record of an operation on the repository the configuration resolves.\<close>

definition acceptedRecord :: "rpc_context \<Rightarrow> resolved \<Rightarrow> string \<Rightarrow> event" where
  "acceptedRecord ctx repo opn = auditEvent ctx repo opn Accepted [] 0 0 [] 0"

text \<open>
  The process of a session: the SSH command of one repository that resolves for every capability the
  operation needs.
\<close>

definition authorizedStart ::
  "service_options \<Rightarrow> rpc_context \<Rightarrow> capability list \<Rightarrow> string \<Rightarrow> string \<Rightarrow> runner_command \<Rightarrow> event \<Rightarrow> bool" where
  "authorizedStart opts ctx caps svc opn command ev \<longleftrightarrow>
     (\<exists>repo. command = sshCommand opts svc repo \<and> ev = acceptedRecord ctx repo opn
        \<and> (svc = ''git-upload-pack'' \<or> svc = ''git-receive-pack'')
        \<and> ValidRepositoryIdentity (Kind (resProvider repo)) (Owner (resRepository repo)) (Name (resRepository repo))
        \<and> (\<forall>cap \<in> set caps. \<exists>sn who sel repo'. svcPolicy opts = Some sn \<and> ctxPrincipal ctx = Some who
              \<and> ResolveGit sn who sel cap = Inr repo' \<and> ID repo' = ID repo)
        \<and> (\<exists>sn who sel cap. svcPolicy opts = Some sn \<and> ResolveGit sn who sel cap = Inr repo))"

definition sessionCourse ::
  "surroundings \<Rightarrow> rpc_context \<Rightarrow> (runner_command \<Rightarrow> event \<Rightarrow> bool) \<Rightarrow> action list \<times> go_error option \<Rightarrow> bool" where
  "sessionCourse env ctx ok x \<longleftrightarrow>
     (\<exists>acts. course env ctx acts x \<and> (\<forall>t. Terminal t \<notin> set acts) \<and> gated env ok acts)"

lemma sessionCourse_refused:
  "told env err \<Longrightarrow> sessionCourse env ctx ok (finish env ctx repo opn i out refs n err)"
  "told env err \<Longrightarrow> sessionCourse env ctx ok (having [AuditRecord ev] (finish env ctx repo opn i out refs n err))"
  unfolding sessionCourse_def
   apply (rule exI [of _ "[]"], simp add: course_finish gated_def)
  apply (rule exI [of _ "[AuditRecord ev]"], simp add: course_having_finish gated_def)
  done

lemma sessionCourse_started:
  assumes "sink env ev = None" and "ok c ev" and "course env ctx acts x" and "calm acts"
  shows "sessionCourse env ctx ok (having [AuditRecord ev, StartProcess c] x)"
  using assms course_having [OF assms(3), of "[AuditRecord ev, StartProcess c]"]
  by (force simp: sessionCourse_def gated_def calm_def)

lemma calm_nil: "calm []"
  by (simp add: calm_def)

lemma receiveCommand_authorized:
  assumes "receiveCommand opts ctx m = Inr (repo, command)"
  shows "authorizedStart opts ctx [GitRead, GitWrite] ''git-receive-pack'' pushOperation command
    (acceptedRecord ctx repo pushOperation)"
proof -
  obtain repo' where r: "git_command opts ctx m GitRead ''git-receive-pack'' [ProviderGitHub, ProviderGitea] =
       Inr (sshCommand opts ''git-receive-pack'' repo', repo')"
    and w: "git_command opts ctx m GitWrite ''git-receive-pack'' [ProviderGitHub, ProviderGitea] = Inr (command, repo)"
    and same: "ID repo' = ID repo"
    using receiveCommand_Inr [OF assms] .
  obtain sn sel who where rd: "svcPolicy opts = Some sn" "ctxPrincipal ctx = Some who"
    "ResolveGit sn who (gitSelectorOf sel) GitRead = Inr repo'"
    using git_command_Inr [OF r] by metis
  obtain sn' sel' who' where wr: "svcPolicy opts = Some sn'" "ctxPrincipal ctx = Some who'"
    "ResolveGit sn' who' (gitSelectorOf sel') GitWrite = Inr repo" "command = sshCommand opts ''git-receive-pack'' repo"
    "ValidRepositoryIdentity (Kind (resProvider repo)) (Owner (resRepository repo)) (Name (resRepository repo))"
    using git_command_Inr [OF w] by metis
  show ?thesis
    unfolding authorizedStart_def using rd wr same by auto
qed

lemma uploadPack_course:
  assumes "uploadPack opts env ctx = Some x"
  shows "sessionCourse env ctx (authorizedStart opts ctx [GitRead] ''git-upload-pack'' fetchOperation) x"
proof (cases "\<exists>frame st. firstFrame env = Inr frame \<and> client_Accept newClientState frame = (None, st)")
  case False
  with assms show ?thesis
    by (auto simp: uploadPack_def intro!: sessionCourse_refused intro: told_intros
        split: sum.splits option.splits prod.splits)
next
  case True
  then obtain frame st where f: "firstFrame env = Inr frame" "client_Accept newClientState frame = (None, st)"
    by blast
  show ?thesis
  proof (cases "git_command opts ctx (openOf frame) GitRead ''git-upload-pack'' [ProviderGitHub, ProviderGitea]")
    case (Inl e)
    with assms f told_intros(5) [OF Inl] show ?thesis by (auto simp: uploadPack_def sessionCourse_refused)
  next
    case (Inr cr)
    obtain command repo where cr: "cr = (command, repo)" by (cases cr)
    let ?ok = "authorizedStart opts ctx [GitRead] ''git-upload-pack'' fetchOperation"
    let ?ev = "acceptedRecord ctx repo fetchOperation"
    have ok: "?ok command ?ev"
      using git_command_Inr [OF Inr [unfolded cr]] unfolding authorizedStart_def by (metis empty_iff list.set set_ConsD)
    have run: "sessionCourse env ctx ?ok (having [AuditRecord ?ev, StartProcess command] y)"
      if "sink env ?ev = None" and "runFetch opts env ctx st repo = Some y" for y
      using runFetch_course [OF that(2)] sessionCourse_started [of env ?ev ?ok, OF that(1) ok] by blast
    show ?thesis
      using assms f Inr cr run sessionCourse_started [of env ?ev ?ok, OF _ ok course_finish calm_nil]
      by (auto simp: uploadPack_def Let_def acceptedRecord_def sessionCourse_refused told_intros split: option.splits)
  qed
qed

lemma receivePack_course:
  assumes "receivePack opts env ctx = Some x"
  shows "sessionCourse env ctx (authorizedStart opts ctx [GitRead, GitWrite] ''git-receive-pack'' pushOperation) x"
proof (cases "\<exists>frame st. firstFrame env = Inr frame \<and> client_Accept newClientState frame = (None, st)")
  case False
  with assms show ?thesis
    by (auto simp: receivePack_def intro!: sessionCourse_refused intro: told_intros
        split: sum.splits option.splits prod.splits)
next
  case True
  then obtain frame st where f: "firstFrame env = Inr frame" "client_Accept newClientState frame = (None, st)"
    by blast
  show ?thesis
  proof (cases "receiveCommand opts ctx (openOf frame)")
    case (Inl e)
    with assms f told_intros(6) show ?thesis
      by (cases e) (auto simp: receivePack_def sessionCourse_refused)
  next
    case (Inr rc)
    obtain repo command where rc: "rc = (repo, command)" by (cases rc)
    let ?ok = "authorizedStart opts ctx [GitRead, GitWrite] ''git-receive-pack'' pushOperation"
    let ?ev = "acceptedRecord ctx repo pushOperation"
    have ok: "?ok command ?ev"
      using receiveCommand_authorized [OF Inr [unfolded rc]] .
    have run: "sessionCourse env ctx ?ok (having [AuditRecord ?ev, StartProcess command] y)"
      if "sink env ?ev = None" and "runPush opts env ctx st repo = Some y" for y
      using runPush_course [OF that(2)] sessionCourse_started [of env ?ev ?ok, OF that(1) ok] unfolding pushCourse_def by blast
    show ?thesis
      using assms f Inr rc run sessionCourse_started [of env ?ev ?ok, OF _ ok course_finish calm_nil]
      by (auto simp: receivePack_def Let_def acceptedRecord_def sessionCourse_refused told_intros split: option.splits)
  qed
qed

locale git_session =
  fixes session :: "service_options \<Rightarrow> surroundings \<Rightarrow> rpc_context \<Rightarrow> (action list \<times> go_error option) option"
    and caps :: "capability list"
    and svc :: string
    and opn :: string
  assumes shaped: "session opts env ctx = Some x \<Longrightarrow>
      sessionCourse env ctx (authorizedStart opts ctx caps svc opn) x"
begin

lemma ends: "session opts env ctx = Some (as, res) \<Longrightarrow> ended env ctx as res"
  using shaped course_ended unfolding sessionCourse_def by blast

lemma starts:
  assumes "session opts env ctx = Some (as, res)" and "StartProcess c \<in> set as"
  shows "\<exists>ev rest. as = AuditRecord ev # StartProcess c # rest \<and> sink env ev = None
    \<and> authorizedStart opts ctx caps svc opn c ev"
proof -
  obtain acts where acts: "course env ctx acts (as, res)" "gated env (authorizedStart opts ctx caps svc opn) acts"
    using shaped [OF assms(1)] unfolding sessionCourse_def by blast
  with assms(2) have "StartProcess c \<in> set acts"
    using course_acts by blast
  with acts(2) obtain ev rest where "acts = AuditRecord ev # StartProcess c # rest" "sink env ev = None"
    "authorizedStart opts ctx caps svc opn c ev"
    by (auto simp: gated_def)
  with acts(1) show ?thesis
    by (auto simp: course_def having_def)
qed

lemma input_needs_start:
  assumes "session opts env ctx = Some (as, res)" and "ToProcess w \<in> set as"
  shows "\<exists>c. StartProcess c \<in> set as"
proof -
  obtain acts where acts: "course env ctx acts (as, res)" "gated env (authorizedStart opts ctx caps svc opn) acts"
    using shaped [OF assms(1)] unfolding sessionCourse_def by blast
  with assms(2) have "ToProcess w \<in> set acts"
    using course_acts by blast
  with acts(2) obtain c where "StartProcess c \<in> set acts"
    by (auto simp: gated_def)
  with acts(1) show ?thesis
    using course_acts by blast
qed

end

interpretation fetch: git_session uploadPack "[GitRead]" "''git-upload-pack''" fetchOperation
  by unfold_locales (rule uploadPack_course)

interpretation push: git_session receivePack "[GitRead, GitWrite]" "''git-receive-pack''" pushOperation
  by unfold_locales (rule receivePack_course)


section \<open>Properties\<close>

lemma authorizedStart_config:
  assumes "wfConfig cfg" and "policy_New cfg = Inr sn" and "svcPolicy opts = Some sn" and "caps \<noteq> []"
    and "authorizedStart opts ctx caps svc opn command ev"
  shows "\<exists>who repo. ctxPrincipal ctx = Some who \<and> (\<forall>cap \<in> set caps. authorized cfg who (ID repo) cap)
    \<and> map_of (Repositories cfg) (ID repo) = Some (resRepository repo)
    \<and> map_of (Providers cfg) (Provider (resRepository repo)) = Some (resProvider repo)
    \<and> command = sshCommand opts svc repo
    \<and> shellWords False [] (last (Args command)) =
        Some [svc, Owner (resRepository repo) @ ''/'' @ Name (resRepository repo) @ ''.git'']
    \<and> ev = acceptedRecord ctx repo opn"
proof -
  note wf = policy_New_cases(4) [OF assms(2)]
  obtain repo where c: "command = sshCommand opts svc repo" "ev = acceptedRecord ctx repo opn"
    and i: "ValidRepositoryIdentity (Kind (resProvider repo)) (Owner (resRepository repo)) (Name (resRepository repo))"
    and s: "svc = ''git-upload-pack'' \<or> svc = ''git-receive-pack''"
    and each: "\<forall>cap \<in> set caps. \<exists>who sel repo'. ctxPrincipal ctx = Some who
          \<and> ResolveGit sn who sel cap = Inr repo' \<and> ID repo' = ID repo"
    and single: "\<exists>who sel cap. ResolveGit sn who sel cap = Inr repo"
    using assms(3,5) unfolding authorizedStart_def by auto
  obtain who where who: "ctxPrincipal ctx = Some who"
    using each assms(4) by (cases caps) auto
  have "authorized cfg who (ID repo) cap" if cap: "cap \<in> set caps" for cap
  proof -
    obtain sel repo' where r: "ResolveGit sn who sel cap = Inr repo'" "ID repo' = ID repo"
      using each cap who by auto
    show ?thesis
      using git.granted [OF wf r(1)] granted_authorized [OF assms(1,2)] r(2) by metis
  qed
  moreover obtain who' sel cap where "ResolveGit sn who' sel cap = Inr repo"
    using single by blast
  ultimately show ?thesis
    using c who remoteCommand_words [OF i s] resolved_from_config [OF assms(1,2) git.known [OF wf]]
    by (intro exI [of _ who] exI [of _ repo]) (auto simp: sshCommand_def)
qed

lemma finish_no_input [simp]:
  "ToProcess w \<in> set (fst (having b (finish env ctx repo opn i out refs n err))) \<longleftrightarrow> ToProcess w \<in> set b"
  "(finish env ctx repo opn i out refs n err = (as, res)) \<Longrightarrow> ToProcess w \<notin> set as"
  "(having b (finish env ctx repo opn i out refs n err) = (as, res)) \<Longrightarrow> ToProcess w \<in> set as \<longleftrightarrow> ToProcess w \<in> set b"
  using finish_quiet(2) [of w env ctx repo opn i out refs n err] by (auto simp: having_def)

lemma receivePack_input:
  assumes "receivePack opts env ctx = Some (as, res)" and "ToProcess w \<in> set as"
  obtains frame st repo command where "firstFrame env = Inr frame" "clientStep newClientState frame st"
    "receiveCommand opts ctx (openOf frame) = Inr (repo, command)" "StartProcess command \<in> set as"
    "justified opts env st repo w"
proof -
  obtain frame where f1: "firstFrame env = Inr frame"
    using assms by (cases "firstFrame env") (auto simp: receivePack_def)
  obtain st where f2: "client_Accept newClientState frame = (None, st)"
    using assms f1 by (cases "client_Accept newClientState frame") (auto simp: receivePack_def split: option.splits)
  obtain repo command where f3: "receiveCommand opts ctx (openOf frame) = Inr (repo, command)"
    using assms f1 f2 by (cases "receiveCommand opts ctx (openOf frame)") (auto simp: receivePack_def)
  let ?ev = "auditEvent ctx repo pushOperation Accepted [] 0 0 [] 0"
  have f4: "sink env ?ev = None"
    using assms f1 f2 f3 by (cases "sink env ?ev") (auto simp: receivePack_def)
  have f5: "started env = None"
    using assms f1 f2 f3 f4 by (cases "started env") (auto simp: receivePack_def)
  obtain y where y: "runPush opts env ctx st repo = Some y" "(as, res) = having [AuditRecord ?ev, StartProcess command] y"
    using assms(1) f1 f2 f3 f4 f5 by (auto simp: receivePack_def)
  obtain acts where acts: "course env ctx acts y" "\<forall>w. ToProcess w \<in> set acts \<longrightarrow> justified opts env st repo w"
    using runPush_course [OF y(1)] by (auto simp: pushCourse_def)
  have "ToProcess w \<in> set acts"
    using assms(2) y(2) acts(1) course_acts [of env ctx acts "fst y" "snd y"] by (auto simp: having_def)
  moreover have "StartProcess command \<in> set as"
    using y(2) by (simp add: having_def)
  ultimately show thesis
    using that f1 f2 f3 acts(2) client_Accept_None_iff by blast
qed

definition exampleService :: service_options where
  "exampleService =
     \<lparr>svcPolicy = Some exampleSnapshot, SSHPath = ''/usr/bin/ssh'', svcEnvironment = [''PATH=/usr/bin''],
      svcLimits = defaultLimits\<lparr>MaxStreamChunkBytes := 40\<rparr>, hasRunner = True, hasAudit = True\<rparr>"

definition exampleContext :: rpc_context where
  "exampleContext = \<lparr>Metadata = [], ctxPrincipal = Some ''agent'', ctxRequestID = Some ''r1''\<rparr>"

definition exampleOpen :: git_frame where
  "exampleOpen = Some (FrameOpen (Some \<lparr>openRepository = Some
     \<lparr>msgHost = ''GitHub.com'', msgOwner = ''acme'', msgName = ''app'', msgSshPort = 22, msgSshUser = ''git''\<rparr>\<rparr>))"

definition exampleRequest :: string where
  "exampleRequest = encodeRequest (exampleUpdates ''refs/tags/v1'') [(''push-options'', [])] [''ci.skip''] @ ''PACK''"

definition exampleSurroundings :: surroundings where
  "exampleSurroundings =
     \<lparr>firstFrame = Inr exampleOpen, sink = (\<lambda>_. None), started = None, serverBytes = exampleAdvertisement,
      serverFault = Sentinel IoEOF, cause = None, pump = (\<lambda>_. None),
      stopped = (\<lparr>Stdout = [], resExitCode = 0, TimedOut = False, StdinBytes = 0, StdoutBytes = 0, StderrBytes = 0\<rparr>, None),
      clientFrames = [Inr (dataFrameForWire (take 50 exampleRequest)), Inr (dataFrameForWire (drop 50 exampleRequest)),
        Inl (Sentinel IoEOF)],
      outputReads = [(''ok'', Some (Sentinel IoEOF))], stdinAccepts = (1000, Sentinel ErrInputLimit),
      pipeTakes = (\<lambda>_ data. (length data, None)), arrivals = [InputDone],
      waited = (\<lparr>Stdout = [], resExitCode = 0, TimedOut = False, StdinBytes = 0, StdoutBytes = 0, StderrBytes = 0\<rparr>, None),
      deliver = (\<lambda>_. None)\<rparr>"

definition examplePush :: "(action list \<times> go_error option) option" where
  "examplePush = receivePack exampleService exampleSurroundings exampleContext"

lemma examplePush_runs:
  "case examplePush of
     Some (acts, res) \<Rightarrow> res = None \<and> ToProcess exampleRequest \<in> set acts
       \<and> list_ex (\<lambda>a. case a of StartProcess _ \<Rightarrow> True | _ \<Rightarrow> False) acts
   | None \<Rightarrow> False"
  by code_simp

lemma startProcess_case: "(case a of StartProcess _ \<Rightarrow> True | _ \<Rightarrow> False) \<longleftrightarrow> (\<exists>c. a = StartProcess c)"
  by (cases a) auto

lemma examplePush_acts:
  obtains acts command where "receivePack exampleService exampleSurroundings exampleContext = Some (acts, None)"
    "ToProcess exampleRequest \<in> set acts" "StartProcess command \<in> set acts"
  using examplePush_runs
  by (auto simp: examplePush_def list_ex_iff startProcess_case split: option.splits prod.splits)

lemma exampleService_policy: "svcPolicy exampleService = Some exampleSnapshot"
  by (simp add: exampleService_def)

text \<open>
  C7. No process without a grant and a record: whatever the client sends, if a fetch or a push
  starts a process, the context names a principal that the configuration grants every capability the
  operation needs (reading, and for a push writing too) on one configured repository; the process is
  the SSH command for that repository, whose remote command line is exactly the two words of the
  service and the repository path; and it is started right after an accepted audit record for that
  principal and repository was written.
\<close>

theorem sessions_start_authorized:
  assumes "wfConfig cfg" and "policy_New cfg = Inr sn" and "svcPolicy opts = Some sn"
    and "session = uploadPack \<and> caps = [GitRead] \<and> svc = ''git-upload-pack''
      \<or> session = receivePack \<and> caps = [GitRead, GitWrite] \<and> svc = ''git-receive-pack''"
    and "session opts env ctx = Some (acts, res)" and "StartProcess command \<in> set acts"
  shows "\<exists>who repo ev rest. ctxPrincipal ctx = Some who \<and> (\<forall>cap \<in> set caps. authorized cfg who (ID repo) cap)
    \<and> map_of (Repositories cfg) (ID repo) = Some (resRepository repo)
    \<and> map_of (Providers cfg) (Provider (resRepository repo)) = Some (resProvider repo)
    \<and> command = sshCommand opts svc repo
    \<and> shellWords False [] (last (Args command)) =
        Some [svc, Owner (resRepository repo) @ ''/'' @ Name (resRepository repo) @ ''.git'']
    \<and> acts = AuditRecord ev # StartProcess command # rest \<and> sink env ev = None
    \<and> Outcome ev = Accepted \<and> evPrincipal ev = who \<and> evRepository ev = ID repo"
proof -
  obtain opn ev rest where "acts = AuditRecord ev # StartProcess command # rest" "sink env ev = None"
    and "authorizedStart opts ctx caps svc opn command ev" "caps \<noteq> []"
    using assms(4) fetch.starts [of opts env ctx acts res command] push.starts [of opts env ctx acts res command] assms(5,6)
    by auto
  with authorizedStart_config [OF assms(1-3)] show ?thesis
    by (fastforce simp: acceptedRecord_def auditEvent_def zeroEvent_def)
qed

theorem sessions_start_authorized_witness:
  "\<exists>acts command. receivePack exampleService exampleSurroundings exampleContext = Some (acts, None)
     \<and> StartProcess command \<in> set acts
     \<and> (\<exists>i. authorized exampleConfig ''agent'' i GitRead \<and> authorized exampleConfig ''agent'' i GitWrite)"
proof -
  obtain acts command where run: "receivePack exampleService exampleSurroundings exampleContext = Some (acts, None)"
    "StartProcess command \<in> set acts"
    using examplePush_acts by metis
  have "\<exists>who i. ctxPrincipal exampleContext = Some who \<and> (\<forall>cap \<in> set [GitRead, GitWrite]. authorized exampleConfig who i cap)"
    using sessions_start_authorized [where session = receivePack and caps = "[GitRead, GitWrite]"
        and svc = "''git-receive-pack''", OF exampleConfig_wf exampleConfig_New exampleService_policy _ run] by blast
  with run show ?thesis
    by (auto simp: exampleContext_def)
qed

text \<open>
  C6. Nothing of a push reaches the repository's server unchecked: the bytes a push passes to the
  process are the beginning of what the client's frames deliver; that stream was parsed against the
  server's own advertisement and accepted under the push policy the configuration gives the
  repository, for which the principal holds both capabilities; and the process is the one for that
  repository.
\<close>

theorem receivePack_forwards_checked:
  assumes "wfConfig cfg" and "policy_New cfg = Inr sn" and "svcPolicy opts = Some sn"
    and "receivePack opts env ctx = Some (acts, res)" and "ToProcess w \<in> set acts"
  shows "\<exists>who repo conf frame st adv rest bytes flt parsed r tl.
      ctxPrincipal ctx = Some who
    \<and> authorized cfg who (ID repo) GitRead \<and> authorized cfg who (ID repo) GitWrite
    \<and> map_of (Repositories cfg) (ID repo) = Some conf
    \<and> StartProcess (sshCommand opts ''git-receive-pack'' repo) \<in> set acts
    \<and> firstFrame env = Inr frame \<and> clientStep newClientState frame st
    \<and> ParseAdvertisement (serverBytes env) (serverFault env) (MaxPushPrefixBytes (svcLimits opts)) = Inr (adv, rest)
    \<and> delivers (clientReader opts env st) = Some (bytes, flt)
    \<and> ParseReceivePack bytes flt
        \<lparr>MaxBytes = MaxPushPrefixBytes (svcLimits opts), MaxCommands = MaxPushPrefixBytes (svcLimits opts),
         optPolicy = Git conf, AdvertisedCaps = advCapabilities adv\<rparr> = Inr (parsed, r)
    \<and> ValidatePush (Git conf) (Updates parsed) = Inr () \<and> bytes = w @ tl"
proof -
  obtain frame st repo command where f: "firstFrame env = Inr frame" "clientStep newClientState frame st"
    and rc: "receiveCommand opts ctx (openOf frame) = Inr (repo, command)" and start: "StartProcess command \<in> set acts"
    and j: "justified opts env st repo w"
    using receivePack_input [OF assms(4,5)] .
  note ok = receiveCommand_authorized [OF rc]
  obtain who repo2 where who: "ctxPrincipal ctx = Some who"
    and auth: "\<forall>cap \<in> set [GitRead, GitWrite]. authorized cfg who (ID repo2) cap"
    and conf: "map_of (Repositories cfg) (ID repo2) = Some (resRepository repo2)"
    and rec: "acceptedRecord ctx repo pushOperation = acceptedRecord ctx repo2 pushOperation"
    using authorizedStart_config [OF assms(1-3) _ ok] by auto
  have same: "ID repo2 = ID repo"
    using arg_cong [OF rec, of evRepository] by (simp add: acceptedRecord_def auditEvent_def)
  have wr: "git_command opts ctx (openOf frame) GitWrite ''git-receive-pack'' [ProviderGitHub, ProviderGitea] =
      Inr (command, repo)"
    using receiveCommand_Inr [OF rc] .
  obtain sn' who' sel where "svcPolicy opts = Some sn'" "ResolveGit sn' who' sel GitWrite = Inr repo"
    and cmd: "command = sshCommand opts ''git-receive-pack'' repo"
    using git_command_Inr [OF wr] .
  then have conf: "map_of (Repositories cfg) (ID repo) = Some (resRepository repo)"
    using resolved_from_config [OF assms(1,2) git.known [OF policy_New_cases(4) [OF assms(2)]]] assms(3) by auto
  have auth: "authorized cfg who (ID repo) GitRead" "authorized cfg who (ID repo) GitWrite"
    using auth same by auto
  obtain bytes flt adv rest parsed r tl where
    adv: "ParseAdvertisement (serverBytes env) (serverFault env) (MaxPushPrefixBytes (svcLimits opts)) = Inr (adv, rest)"
    and del: "delivers (clientReader opts env st) = Some (bytes, flt)"
    and parsed: "ParseReceivePack bytes flt
        \<lparr>MaxBytes = MaxPushPrefixBytes (svcLimits opts), MaxCommands = MaxPushPrefixBytes (svcLimits opts),
         optPolicy = Git (resRepository repo), AdvertisedCaps = advCapabilities adv\<rparr> = Inr (parsed, r)"
    and v: "ValidatePush (Git (resRepository repo)) (Updates parsed) = Inr ()" and w: "bytes = w @ tl"
    using j unfolding justified_def receiveOptionsOf_def by (elim exE conjE)
  show ?thesis
    by (intro exI conjI) (rule who, rule auth(1), rule auth(2), rule conf, rule start [unfolded cmd],
      rule f(1), rule f(2), rule adv, rule del, rule parsed, rule v, rule w)
qed

theorem receivePack_forwards_checked_witness:
  "\<exists>acts (parsed :: receive_result). receivePack exampleService exampleSurroundings exampleContext = Some (acts, None)
     \<and> ToProcess exampleRequest \<in> set acts
     \<and> (\<exists>i conf. map_of (Repositories exampleConfig) i = Some conf \<and> ValidatePush (Git conf) (Updates parsed) = Inr ())"
proof -
  obtain acts where run: "receivePack exampleService exampleSurroundings exampleContext = Some (acts, None)"
    "ToProcess exampleRequest \<in> set acts"
    using examplePush_acts by metis
  obtain i conf and parsed :: receive_result where "map_of (Repositories exampleConfig) i = Some conf"
    "ValidatePush (Git conf) (Updates parsed) = Inr ()"
    using receivePack_forwards_checked [OF exampleConfig_wf exampleConfig_New exampleService_policy run]
    by (elim exE conjE) (rule that, assumption+)
  with run show ?thesis by blast
qed

text \<open>
  C26. Every session that returns ends in one way: exactly one terminal frame, a valid one, is sent,
  as the last frame; after it exactly one final audit record is written, for the context's principal,
  with the outcome and the category of the same error; the terminal reports completion only after the
  process exited with code 0, in time and without a cancellation; and the call reports success exactly
  if the terminal frame was delivered and the record was written. This relies on the surroundings
  reporting no \<^verbatim>\<open>processFailure\<close>, which is private to the package, and on exit codes that fit the
  frame.
\<close>

theorem sessions_end_once:
  assumes "session = uploadPack \<or> session = receivePack" and "session opts env ctx = Some (acts, res)"
    and "ordinary env"
  shows "\<exists>before err ev. let t = terminalOf err in
      acts = before @ [Terminal t, AuditRecord ev] \<and> validTerminal (Some t)
    \<and> (\<forall>t'. Terminal t' \<notin> set before)
    \<and> (Category t = Completed \<longrightarrow> resExitCode (fst (waited env)) = 0 \<and> snd (waited env) = None
         \<and> \<not> TimedOut (fst (waited env)) \<and> cause env = None)
    \<and> Outcome ev = outcomeOf err \<and> evReason ev = categoryName (Category t)
    \<and> evPrincipal ev = (case ctxPrincipal ctx of None \<Rightarrow> [] | Some who \<Rightarrow> who)
    \<and> (res = None \<longleftrightarrow> deliver env t = None \<and> sink env ev = None)"
proof -
  have "ended env ctx acts res"
    using assms(1,2) fetch.ends push.ends by blast
  then obtain before err ev where e: "told env err"
    "acts = before @ (if validTerminal (Some (terminalOf err)) then [Terminal (terminalOf err)] else []) @ [AuditRecord ev]"
    "\<forall>t'. Terminal t' \<notin> set before" "Outcome ev = outcomeOf err"
    "evReason ev = categoryName (Category (terminalOf err))"
    "evPrincipal ev = (case ctxPrincipal ctx of None \<Rightarrow> [] | Some who \<Rightarrow> who)"
    "res = None \<longleftrightarrow> validTerminal (Some (terminalOf err)) \<and> deliver env (terminalOf err) = None \<and> sink env ev = None"
    unfolding ended_def Let_def by (elim exE conjE) (rule that)
  have valid: "validTerminal (Some (terminalOf err))"
    using e(1) assms(3) by (simp add: told_def)
  have "Category (terminalOf err) = Completed \<Longrightarrow> err = None"
    using category_failure [of "the err"] by (cases err) (auto simp: terminalOf_def Let_def)
  with e(1) have done': "Category (terminalOf err) = Completed \<longrightarrow> resExitCode (fst (waited env)) = 0
      \<and> snd (waited env) = None \<and> \<not> TimedOut (fst (waited env)) \<and> cause env = None"
    by (auto simp: told_def)
  show ?thesis
    unfolding Let_def
    by (rule exI [of _ before], rule exI [of _ err], rule exI [of _ ev]) (use e valid done' in auto)
qed

lemma exampleSurroundings_ordinary: "ordinary exampleSurroundings"
  by (auto simp: ordinary_def exampleSurroundings_def)

theorem sessions_end_once_witness:
  "\<exists>before t ev. receivePack exampleService exampleSurroundings exampleContext =
     Some (before @ [Terminal t, AuditRecord ev], None)"
proof -
  obtain acts where run: "receivePack exampleService exampleSurroundings exampleContext = Some (acts, None)"
    using examplePush_acts by metis
  with sessions_end_once [where session = receivePack, OF _ run exampleSurroundings_ordinary] show ?thesis
    by (auto simp: Let_def)
qed

end
