(* ===== verification/GitHub_Command.thy ===== *)
theory GitHub_Command
  imports GitHub_Request Go_Text Policy Runner
begin

text \<open>
  Package \<^verbatim>\<open>internal/provider/github\<close>, the commands: how a validated request becomes calls of the
  GitHub CLI (\<^verbatim>\<open>command.go\<close>, and the commands of \<^verbatim>\<open>adapter_special.go\<close>, \<^verbatim>\<open>issue_list.go\<close>,
  \<^verbatim>\<open>label_list.go\<close>, \<^verbatim>\<open>checks.go\<close>), the budget that several calls share (\<^verbatim>\<open>budget.go\<close>) and the new
  label list of an issue (\<^verbatim>\<open>issue_labels.go\<close>).
\<close>

section \<open>Commands\<close>

record github_adapter =
  adPath :: string
  adEnvironment :: "string list"
  adTimeout :: int

definition miB :: int where "miB = 2 ^ 20"

definition maximumMutationBytes :: int where "maximumMutationBytes = 4 * miB"

definition maximumPaginatedReadBytes :: int where "maximumPaginatedReadBytes = 8 * miB"

definition maximumCheckBytes :: int where "maximumCheckBytes = 8 * miB"

definition gh_command :: "github_adapter \<Rightarrow> string list \<Rightarrow> string \<Rightarrow> int \<Rightarrow> runner_command" where
  "gh_command ad args stdin stdoutLimit =
     \<lparr>cmdPath = adPath ad, Args = args, cmdStdin = stdin, Env = adEnvironment ad, Timeout = adTimeout ad,
      StdinLimit = miB, StdoutLimit = stdoutLimit, StderrLimit = 65536\<rparr>"

definition apiHeader :: "string \<Rightarrow> string \<Rightarrow> string list" where
  "apiHeader host meth =
     [''api'', ''--hostname'', host, ''--method'', meth, ''-H'', ''Accept: application/vnd.github+json'',
      ''-H'', ''X-GitHub-Api-Version: 2022-11-28'']"

definition apiCommand ::
  "github_adapter \<Rightarrow> string \<Rightarrow> string \<Rightarrow> string \<Rightarrow> json option \<Rightarrow> int \<Rightarrow> runner_command" where
  "apiCommand ad host meth endpoint val stdoutLimit =
     gh_command ad
       (apiHeader host meth @ (if val = None then [] else [''--input'', ''-'']) @ [endpoint])
       (case val of None \<Rightarrow> [] | Some v \<Rightarrow> jsonMarshal v) stdoutLimit"

definition decimal :: "64 word \<Rightarrow> string" where
  "decimal v = itoa (uint v)"

definition pullState :: "int \<Rightarrow> string" where
  "pullState v = (if v = 1 then ''open'' else if v = 2 then ''closed'' else if v = 3 then ''all'' else [])"

definition runStatusNames :: "string list" where
  "runStatusNames =
     [''queued'', ''in_progress'', ''completed'', ''success'', ''failure'', ''cancelled'', ''skipped'', ''timed_out'',
      ''action_required'', ''neutral'', ''stale'', ''startup_failure'', ''requested'', ''waiting'', ''pending'']"

definition runStatus :: "int \<Rightarrow> string" where
  "runStatus v = (if 1 \<le> v \<and> v \<le> 15 then runStatusNames ! nat (v - 1) else [])"

definition outputLimit :: "string \<Rightarrow> int" where
  "outputLimit normalizer =
     (if normalizer = ''repository'' \<or> normalizer = ''current_user'' then miB
      else if normalizer = ''label_create'' then maximumMutationBytes
      else if normalizer = ''issue'' \<or> normalizer = ''pull'' \<or> normalizer = ''comment'' \<or> normalizer = ''run''
      then 2 * miB
      else 8 * miB)"

definition optional :: "string \<Rightarrow> 'a option \<Rightarrow> ('a \<Rightarrow> json) \<Rightarrow> json gomap" where
  "optional key v f = (case v of None \<Rightarrow> [] | Some x \<Rightarrow> [(key, f x)])"

definition createIssueBody :: "gh_issue_create \<Rightarrow> json" where
  "createIssueBody v =
     jsonMap ([(''title'', JString (icTitle v)), (''labels'', jsonStrings (icLabels v)),
               (''assignees'', jsonStrings (icAssignees v))] @ optional ''body'' (icBody v) JString)"

definition editIssueBody :: "gh_issue_edit \<Rightarrow> json" where
  "editIssueBody v =
     jsonMap (optional ''title'' (ieTitle v) JString @ optional ''body'' (ieBody v) JString
       @ optional ''labels'' (ieLabels v) jsonStrings @ optional ''assignees'' (ieAssignees v) jsonStrings)"

definition createPullBody :: "gh_pull_create \<Rightarrow> json" where
  "createPullBody v =
     jsonMap ([(''title'', JString (pcTitle v)), (''head'', JString (pcHead v)), (''base'', JString (pcBase v))]
       @ optional ''body'' (pcBody v) JString @ optional ''draft'' (pcDraft v) JBool)"

definition editPullBody :: "gh_pull_edit \<Rightarrow> json" where
  "editPullBody v =
     jsonMap (optional ''title'' (peTitle v) JString @ optional ''body'' (peBody v) JString
       @ optional ''base'' (peBase v) JString)"

definition repoPath :: "resolved \<Rightarrow> string" where
  "repoPath repo = ''/repos/'' @ Owner (resRepository repo) @ ''/'' @ Name (resRepository repo)"

definition nilDereference :: "'a result" where
  "nilDereference = Inl (Errorf ''invalid memory address or nil pointer dereference'' [])"

text \<open>
  The \<^verbatim>\<open>switch\<close> of \<^verbatim>\<open>plan\<close>: method, path below the host, name of the normaliser and input. Reading a
  field of a nil message would panic; validation excludes it.
\<close>

type_synonym api_call = "string \<times> string \<times> string \<times> json option"

definition forMessage :: "'a option \<Rightarrow> ('a \<Rightarrow> api_call) \<Rightarrow> api_call result" where
  "forMessage v f = (case v of None \<Rightarrow> nilDereference | Some x \<Rightarrow> Inr (f x))"

definition stateBody :: "string \<Rightarrow> json option" where
  "stateBody s = Some (jsonMap [(''state'', JString s)])"

fun planCall :: "string \<Rightarrow> github_operation \<Rightarrow> api_call result" where
  "planCall base (GhCurrentUser _) = Inr (''GET'', ''/user'', ''current_user'', None)"
| "planCall base (GhRepositoryView _) = Inr (''GET'', base, ''repository'', None)"
| "planCall base (GhLabelCreate v) = forMessage v (\<lambda>v.
     (''POST'', base @ ''/labels'', ''label_create'',
      Some (jsonMap [(''name'', JString (lcName v)), (''color'', JString (lcColor v)),
                     (''description'', JString (lcDescription v))])))"
| "planCall base (GhIssueCreate v) = forMessage v (\<lambda>v.
     (''POST'', base @ ''/issues'', ''issue'', Some (createIssueBody v)))"
| "planCall base (GhIssueEdit v) = forMessage v (\<lambda>v.
     (''PATCH'', base @ ''/issues/'' @ decimal (ieNumber v), ''issue'', Some (editIssueBody v)))"
| "planCall base (GhIssueComment v) = forMessage v (\<lambda>v.
     (''POST'', base @ ''/issues/'' @ decimal (cmNumber v) @ ''/comments'', ''comment'',
      Some (jsonMap [(''body'', JString (cmBody v))])))"
| "planCall base (GhIssueClose v) = forMessage v (\<lambda>n.
     (''PATCH'', base @ ''/issues/'' @ decimal n, ''issue'', stateBody ''closed''))"
| "planCall base (GhIssueReopen v) = forMessage v (\<lambda>n.
     (''PATCH'', base @ ''/issues/'' @ decimal n, ''issue'', stateBody ''open''))"
| "planCall base (GhPullList v) = forMessage v (\<lambda>v.
     (''GET'', base @ ''/pulls?'' @ queryEncode
        ([(''per_page'', decimal (plLimit v)), (''state'', pullState (plState v))]
         @ (case plBase v of None \<Rightarrow> [] | Some s \<Rightarrow> [(''base'', s)])
         @ (case plHead v of None \<Rightarrow> [] | Some s \<Rightarrow> [(''head'', s)])), ''pull_list'', None))"
| "planCall base (GhPullView v) = forMessage v (\<lambda>n.
     (''GET'', base @ ''/pulls/'' @ decimal n, ''pull'', None))"
| "planCall base (GhPullCreate v) = forMessage v (\<lambda>v.
     (''POST'', base @ ''/pulls'', ''pull'', Some (createPullBody v)))"
| "planCall base (GhPullEdit v) = forMessage v (\<lambda>v.
     (''PATCH'', base @ ''/pulls/'' @ decimal (peNumber v), ''pull'', Some (editPullBody v)))"
| "planCall base (GhPullComment v) = forMessage v (\<lambda>v.
     (''POST'', base @ ''/issues/'' @ decimal (cmNumber v) @ ''/comments'', ''comment'',
      Some (jsonMap [(''body'', JString (cmBody v))])))"
| "planCall base (GhPullClose v) = forMessage v (\<lambda>n.
     (''PATCH'', base @ ''/pulls/'' @ decimal n, ''pull'', stateBody ''closed''))"
| "planCall base (GhPullReopen v) = forMessage v (\<lambda>n.
     (''PATCH'', base @ ''/pulls/'' @ decimal n, ''pull'', stateBody ''open''))"
| "planCall base (GhRunList v) = forMessage v (\<lambda>v.
     (''GET'', base @ ''/actions/runs?'' @ queryEncode
        ([(''per_page'', decimal (rlLimit v))]
         @ (case rlBranch v of None \<Rightarrow> [] | Some s \<Rightarrow> [(''branch'', s)])
         @ (case rlStatus v of None \<Rightarrow> [] | Some s \<Rightarrow> [(''status'', runStatus s)])), ''run_list'', None))"
| "planCall base (GhRunView v) = forMessage v (\<lambda>n.
     (''GET'', base @ ''/actions/runs/'' @ decimal n, ''run'', None))"
| "planCall base (GhStatusView v) = forMessage v (\<lambda>oid.
     (''GET'', base @ ''/commits/'' @ oid @ ''/status'', ''status'', None))"
| "planCall base _ = fail GitHubErrInvalidRequest"

definition plan ::
  "github_adapter \<Rightarrow> resolved \<Rightarrow> github_request \<Rightarrow> (runner_command \<times> string) result" where
  "plan ad repo request =
     bindE (planCall (repoPath repo) (ghOperation request)) (\<lambda>(meth, endpoint, normalizer, inp).
       Inr (apiCommand ad (APIHost (resProvider repo)) meth endpoint inp (outputLimit normalizer), normalizer))"

definition issueViewCommand :: "github_adapter \<Rightarrow> resolved \<Rightarrow> 64 word \<Rightarrow> int \<Rightarrow> runner_command" where
  "issueViewCommand ad repo n lim =
     apiCommand ad (APIHost (resProvider repo)) ''GET'' (repoPath repo @ ''/issues/'' @ decimal n) None lim"

definition pageQuery :: "int \<Rightarrow> int \<Rightarrow> string" where
  "pageQuery page perPage = queryEncode [(''page'', itoa page), (''per_page'', itoa perPage)]"

definition issueCommentsCommand ::
  "github_adapter \<Rightarrow> resolved \<Rightarrow> 64 word \<Rightarrow> int \<Rightarrow> int \<Rightarrow> int \<Rightarrow> runner_command" where
  "issueCommentsCommand ad repo n page perPage lim =
     apiCommand ad (APIHost (resProvider repo)) ''GET''
       (repoPath repo @ ''/issues/'' @ decimal n @ ''/comments?'' @ pageQuery page perPage) None lim"

text \<open>\<^verbatim>\<open>callLabelPage\<close>: the command with \<^verbatim>\<open>--include\<close> after its first argument.\<close>

definition labelPageCommand :: "github_adapter \<Rightarrow> resolved \<Rightarrow> int \<Rightarrow> int \<Rightarrow> runner_command" where
  "labelPageCommand ad repo page perPage =
     (let c = apiCommand ad (APIHost (resProvider repo)) ''GET''
                (repoPath repo @ ''/labels?'' @ pageQuery page perPage) None maximumPaginatedReadBytes in
      c\<lparr>Args := [hd (Args c), ''--include''] @ tl (Args c)\<rparr>)"

definition checkPageCommand :: "github_adapter \<Rightarrow> resolved \<Rightarrow> string \<Rightarrow> int \<Rightarrow> int \<Rightarrow> runner_command" where
  "checkPageCommand ad repo endpoint page used =
     apiCommand ad (APIHost (resProvider repo)) ''GET'' (endpoint @ ''?'' @ pageQuery page 100) None
       (maximumCheckBytes - used)"

definition readyCommand :: "github_adapter \<Rightarrow> resolved \<Rightarrow> 64 word \<Rightarrow> runner_command" where
  "readyCommand ad repo n =
     gh_command ad [''pr'', ''ready'', decimal n, ''--repo'',
       APIHost (resProvider repo) @ ''/'' @ Owner (resRepository repo) @ ''/'' @ Name (resRepository repo)] [] miB"

fun requiresPreflight :: "github_operation \<Rightarrow> bool" where
  "requiresPreflight (GhIssueEdit _) = True"
| "requiresPreflight (GhIssueComment _) = True"
| "requiresPreflight (GhIssueClose _) = True"
| "requiresPreflight (GhIssueReopen _) = True"
| "requiresPreflight (GhPullComment _) = True"
| "requiresPreflight _ = False"

text \<open>The read that \<^verbatim>\<open>preflight\<close> makes: the number and whether it must be a pull request.\<close>

fun preflightTarget :: "github_operation \<Rightarrow> (64 word \<times> bool) result" where
  "preflightTarget (GhIssueEdit (Some v)) = Inr (ieNumber v, False)"
| "preflightTarget (GhIssueComment (Some v)) = Inr (cmNumber v, False)"
| "preflightTarget (GhIssueClose (Some n)) = Inr (n, False)"
| "preflightTarget (GhIssueReopen (Some n)) = Inr (n, False)"
| "preflightTarget (GhPullComment (Some v)) = Inr (cmNumber v, True)"
| "preflightTarget (GhIssueEdit None) = nilDereference"
| "preflightTarget (GhIssueComment None) = nilDereference"
| "preflightTarget (GhIssueClose None) = nilDereference"
| "preflightTarget (GhIssueReopen None) = nilDereference"
| "preflightTarget (GhPullComment None) = nilDereference"
| "preflightTarget _ = fail GitHubErrInvalidRequest"

definition preflightCommand :: "github_adapter \<Rightarrow> resolved \<Rightarrow> github_request \<Rightarrow> runner_command result" where
  "preflightCommand ad repo request =
     bindE (preflightTarget (ghOperation request)) (\<lambda>(n, pull).
       Inr (apiCommand ad (APIHost (resProvider repo)) ''GET''
              (repoPath repo @ (if pull then ''/pulls/'' else ''/issues/'') @ decimal n) None maximumMutationBytes))"


section \<open>The issue list query\<close>

definition issueListQuery :: string where
  "issueListQuery = join LF
    [''query IssueList($owner: String!, $name: String!, $states: [IssueState!], $cursor: String, $first: Int!) {'',
     ''  repository(owner: $owner, name: $name) {'',
     ''    issues(first: $first, after: $cursor, states: $states, orderBy: {field: CREATED_AT, direction: ASC}) {'',
     ''      nodes {'',
     ''        number'',
     ''        title'',
     ''        body'',
     ''        state'',
     ''        labels(first: 100) { nodes { name } pageInfo { hasNextPage } }'',
     ''        author { login }'',
     ''        createdAt'',
     ''        updatedAt'',
     ''        url'',
     ''      }'',
     ''      pageInfo { hasNextPage endCursor }'',
     ''    }'',
     ''  }'',
     ''}'']"

definition issueGraphQLRequest :: "resolved \<Rightarrow> int \<Rightarrow> string option \<Rightarrow> int \<Rightarrow> json" where
  "issueGraphQLRequest repo state cursor first =
     JObject
       [(''query'', JString issueListQuery),
        (''variables'', JObject
          [(''owner'', JString (Owner (resRepository repo))),
           (''name'', JString (Name (resRepository repo))),
           (''states'', if state = 3 then JNull
              else JArray [JString (if state = 1 then ''OPEN'' else if state = 2 then ''CLOSED'' else [])]),
           (''cursor'', case cursor of None \<Rightarrow> JNull | Some c \<Rightarrow> JString c),
           (''first'', JNumber first)])]"

definition issueGraphQLCommand ::
  "github_adapter \<Rightarrow> resolved \<Rightarrow> int \<Rightarrow> string option \<Rightarrow> int \<Rightarrow> runner_command" where
  "issueGraphQLCommand ad repo state cursor first =
     apiCommand ad (APIHost (resProvider repo)) ''POST'' ''graphql''
       (Some (issueGraphQLRequest repo state cursor first)) maximumPaginatedReadBytes"


section \<open>The shared budget\<close>

record aggregate_budget =
  abLimit :: int
  abUsed :: int

definition budget_remaining :: "aggregate_budget option \<Rightarrow> int result" where
  "budget_remaining b =
     (case b of
        None \<Rightarrow> fail ErrOutputLimit
      | Some b \<Rightarrow> if abUsed b \<ge> abLimit b then fail ErrOutputLimit else Inr (abLimit b - abUsed b))"

definition budget_consume :: "aggregate_budget option \<Rightarrow> string \<Rightarrow> aggregate_budget result" where
  "budget_consume b raw =
     (case b of
        None \<Rightarrow> fail ErrOutputLimit
      | Some b \<Rightarrow> if int (length raw) > abLimit b - abUsed b then fail ErrOutputLimit
                  else Inr (b\<lparr>abUsed := abUsed b + int (length raw)\<rparr>))"

text \<open>\<^verbatim>\<open>call\<close>: the caller is what it returns for a command.\<close>

type_synonym gh_caller = "runner_command \<Rightarrow> runner_result \<times> go_error option"

definition gh_call :: "gh_caller \<Rightarrow> runner_command \<Rightarrow> runner_result result" where
  "gh_call caller command =
     (case caller command of (res, err) \<Rightarrow>
        case err of
          Some e \<Rightarrow> Inl e
        | None \<Rightarrow> if int (length (Stdout res)) > StdoutLimit command then fail ErrOutputLimit else Inr res)"

text \<open>\<^verbatim>\<open>callBudgeted\<close>: the error of the context, the caller and the command; the budget after it.\<close>

definition callBudgeted ::
  "go_error option \<Rightarrow> gh_caller \<Rightarrow> runner_command \<Rightarrow> aggregate_budget \<Rightarrow> runner_result result \<times> aggregate_budget" where
  "callBudgeted ctxErr caller command b =
     (case ctxErr of
        Some e \<Rightarrow> (Inl e, b)
      | None \<Rightarrow>
          (case budget_remaining (Some b) of
             Inl e \<Rightarrow> (Inl e, b)
           | Inr remaining \<Rightarrow>
               (case gh_call caller (command\<lparr>StdoutLimit := min (StdoutLimit command) remaining\<rparr>) of
                  Inl e \<Rightarrow> (Inl e, b)
                | Inr res \<Rightarrow>
                    (case budget_consume (Some b) (Stdout res) of
                       Inl e \<Rightarrow> (Inl e, b)
                     | Inr b' \<Rightarrow> (Inr res, b')))))"


section \<open>Changed labels\<close>

definition providerResponse :: "go_error option \<Rightarrow> string \<Rightarrow> 'a result" where
  "providerResponse cause field =
     (case cause of
        Some e \<Rightarrow> Inl (Wrapf ''invalid GitHub response %s: %w'' [ArgS field] e)
      | None \<Rightarrow> Inl (Errorf ''invalid GitHub response: missing %s'' [ArgS field]))"

definition addCurrentLabel :: "string set \<Rightarrow> string \<Rightarrow> string set result" where
  "addCurrentLabel seen label =
     (if label \<in> seen then providerResponse None ''unique issue labels'' else Inr (insert label seen))"

fun appendNew :: "string set \<Rightarrow> string list \<Rightarrow> string list \<Rightarrow> string list" where
  "appendNew seen changed [] = changed"
| "appendNew seen changed (label # add) =
     (if label \<in> seen then appendNew seen changed add
      else appendNew (insert label seen) (changed @ [label]) add)"

definition changedLabels :: "string list \<Rightarrow> string list \<Rightarrow> string list \<Rightarrow> string list result" where
  "changedLabels current add remove =
     bindE (foldE addCurrentLabel {} current) (\<lambda>seen.
       let changed = appendNew seen (filter (\<lambda>label. label \<notin> set remove) current) add in
       if length changed > 100 then providerResponse None ''issue label limit'' else Inr changed)"

end
