(* ===== verification/GitHub_Decode.thy ===== *)
theory GitHub_Decode
  imports GitHub_Command
begin

text \<open>
  Package \<^verbatim>\<open>internal/provider/github\<close>, the responses: how the JSON that the GitHub CLI prints becomes
  a typed response (\<^verbatim>\<open>normalize.go\<close>, \<^verbatim>\<open>normalize_records.go\<close>, \<^verbatim>\<open>normalize_response.go\<close>,
  \<^verbatim>\<open>normalize_patchmill.go\<close>, and the normalizers of \<^verbatim>\<open>issue_comments.go\<close> and \<^verbatim>\<open>label_list.go\<close>).

  The syntax of JSON is a parameter: what the decoder of \<^verbatim>\<open>encoding/json\<close> reads as the first value of
  a text, and whether only white space follows it. How that value is stored in the structs of the code is
  modelled: an object sets the fields whose tags equal its keys up to case, in the order of its members,
  null clears a pointer and leaves a struct as it is, a number is stored if its literal is one of the type, a
  member that is repeated is decoded into what the earlier one left.
\<close>

section \<open>Decoding\<close>

datatype jdoc =
    DNull
  | DBool bool
  | DNumber string
  | DString string
  | DArray "jdoc list"
  | DObject "(string \<times> jdoc) list"

type_synonym json_reader = "string \<Rightarrow> (jdoc \<times> bool) option"

text \<open>Decoding into a value that is there already.\<close>

type_synonym 'a into = "'a \<Rightarrow> jdoc \<Rightarrow> 'a result"

definition typeError :: "'a result" where
  "typeError = errorf ''json: cannot unmarshal''"

definition intoString :: "string option into" where
  "intoString _ d = (case d of DNull \<Rightarrow> Inr None | DString s \<Rightarrow> Inr (Some s) | _ \<Rightarrow> typeError)"

definition intoBool :: "bool option into" where
  "intoBool _ d = (case d of DNull \<Rightarrow> Inr None | DBool b \<Rightarrow> Inr (Some b) | _ \<Rightarrow> typeError)"

definition intoUint :: "64 word option into" where
  "intoUint _ d =
     (case d of
        DNull \<Rightarrow> Inr None
      | DNumber s \<Rightarrow> (case parseUint 64 s of None \<Rightarrow> typeError | Some n \<Rightarrow> Inr (Some (word_of_int n)))
      | _ \<Rightarrow> typeError)"

text \<open>\<^verbatim>\<open>*int\<close>: a literal with an optional minus sign.\<close>

definition intLiteral :: "string \<Rightarrow> int option" where
  "intLiteral s =
     (if hasPrefix s ''-'' then
        (if tl s \<noteq> [] \<and> list_all isDigit (tl s) \<and> decimalValue (tl s) \<le> 2 ^ 63 then Some (- decimalValue (tl s)) else None)
      else parseUint 63 s)"

definition intoInt :: "int option into" where
  "intoInt _ d =
     (case d of
        DNull \<Rightarrow> Inr None
      | DNumber s \<Rightarrow> (case intLiteral s of None \<Rightarrow> typeError | Some n \<Rightarrow> Inr (Some n))
      | _ \<Rightarrow> typeError)"

text \<open>\<^verbatim>\<open>json.RawMessage\<close>: the value itself, null included.\<close>

definition intoRaw :: "jdoc option into" where
  "intoRaw _ d = Inr (Some d)"

text \<open>
  The folding of \<^verbatim>\<open>encoding/json\<close> for the names of fields, which are ASCII: of the other runes only the
  Kelvin sign and the long s fold to an ASCII letter.
\<close>

definition foldKey :: "string \<Rightarrow> int list" where
  "foldKey s = map (\<lambda>r. let c = fst r in
     if 65 \<le> c \<and> c \<le> 90 then c + 32 else if c = 8490 then 107 else if c = 383 then 115 else c) (runes s)"

fun fieldFor :: "(string \<times> 'a into) list \<Rightarrow> string \<Rightarrow> 'a into option" where
  "fieldFor [] key = None"
| "fieldFor ((name, f) # fs) key = (if foldKey name = foldKey key then Some f else fieldFor fs key)"

definition setMember :: "(string \<times> 'a into) list \<Rightarrow> 'a \<Rightarrow> string \<times> jdoc \<Rightarrow> 'a result" where
  "setMember fs x m = (case fieldFor fs (fst m) of None \<Rightarrow> Inr x | Some f \<Rightarrow> f x (snd m))"

definition intoStruct :: "(string \<times> 'a into) list \<Rightarrow> 'a into" where
  "intoStruct fs x d = (case d of DNull \<Rightarrow> Inr x | DObject ms \<Rightarrow> foldE (setMember fs) x ms | _ \<Rightarrow> typeError)"

definition intoPointer :: "'a \<Rightarrow> 'a into \<Rightarrow> 'a option into" where
  "intoPointer zero f x d =
     (case d of DNull \<Rightarrow> Inr None | _ \<Rightarrow> bindE (f (case x of None \<Rightarrow> zero | Some y \<Rightarrow> y) d) (\<lambda>y. Inr (Some y)))"

text \<open>The elements of an array, each decoded into the old element at its place or into a zero value.\<close>

fun intoElements :: "'a \<Rightarrow> 'a into \<Rightarrow> 'a list \<Rightarrow> jdoc list \<Rightarrow> 'a list result" where
  "intoElements zero f old [] = Inr []"
| "intoElements zero f old (d # ds) =
     bindE (f (case old of [] \<Rightarrow> zero | x # _ \<Rightarrow> x) d) (\<lambda>y.
     bindE (intoElements zero f (tl old) ds) (\<lambda>ys. Inr (y # ys)))"

text \<open>A slice (nil and empty are the same here), and a pointer to one.\<close>

definition intoSlice :: "'a \<Rightarrow> 'a into \<Rightarrow> 'a list into" where
  "intoSlice zero f x d = (case d of DNull \<Rightarrow> Inr [] | DArray ds \<Rightarrow> intoElements zero f x ds | _ \<Rightarrow> typeError)"

definition intoSlicePointer :: "'a \<Rightarrow> 'a into \<Rightarrow> 'a list option into" where
  "intoSlicePointer zero f = intoPointer [] (intoSlice zero f)"

text \<open>A field of a record, by what reads and what replaces it.\<close>

definition member :: "('r \<Rightarrow> 'a) \<Rightarrow> ('a \<Rightarrow> 'r \<Rightarrow> 'r) \<Rightarrow> 'a into \<Rightarrow> 'r into" where
  "member get put f r d = bindE (f (get r) d) (\<lambda>x. Inr (put x r))"

definition gh_decode :: "json_reader \<Rightarrow> 'a into \<Rightarrow> 'a \<Rightarrow> string \<Rightarrow> 'a result" where
  "gh_decode reader f zero raw =
     (if \<not> validString raw then providerResponse None ''json''
      else case reader raw of
        None \<Rightarrow> providerResponse (Some (Errorf ''invalid JSON'' [])) ''json''
      | Some (d, ended) \<Rightarrow>
          (case f zero d of
             Inl e \<Rightarrow> providerResponse (Some e) ''json''
           | Inr x \<Rightarrow> if \<not> ended then providerResponse None ''json'' else Inr x))"


section \<open>The structs of the provider\<close>

type_synonym api_user = "string option"
type_synonym api_label = "string option"

definition intoUser :: "api_user into" where
  "intoUser = intoStruct [(''login'', intoString)]"

definition intoLabel :: "api_label into" where
  "intoLabel = intoStruct [(''name'', intoString)]"

record api_issue =
  aiNumber :: "64 word option"
  aiTitle :: "string option"
  aiBody :: "jdoc option"
  aiState :: "string option"
  aiUser :: "api_user option"
  aiAssignees :: "api_user list option"
  aiLabels :: "api_label list option"
  aiURL :: "string option"
  aiCreatedAt :: "string option"
  aiUpdatedAt :: "string option"
  aiPullRequest :: "jdoc option"

definition zeroIssue :: api_issue where
  "zeroIssue = \<lparr>aiNumber = None, aiTitle = None, aiBody = None, aiState = None, aiUser = None, aiAssignees = None,
     aiLabels = None, aiURL = None, aiCreatedAt = None, aiUpdatedAt = None, aiPullRequest = None\<rparr>"

definition intoIssue :: "api_issue into" where
  "intoIssue = intoStruct
     [(''number'', member aiNumber (\<lambda>v r. r\<lparr>aiNumber := v\<rparr>) intoUint),
      (''title'', member aiTitle (\<lambda>v r. r\<lparr>aiTitle := v\<rparr>) intoString),
      (''body'', member aiBody (\<lambda>v r. r\<lparr>aiBody := v\<rparr>) intoRaw),
      (''state'', member aiState (\<lambda>v r. r\<lparr>aiState := v\<rparr>) intoString),
      (''user'', member aiUser (\<lambda>v r. r\<lparr>aiUser := v\<rparr>) (intoPointer None intoUser)),
      (''assignees'', member aiAssignees (\<lambda>v r. r\<lparr>aiAssignees := v\<rparr>) (intoSlicePointer None intoUser)),
      (''labels'', member aiLabels (\<lambda>v r. r\<lparr>aiLabels := v\<rparr>) (intoSlicePointer None intoLabel)),
      (''html_url'', member aiURL (\<lambda>v r. r\<lparr>aiURL := v\<rparr>) intoString),
      (''created_at'', member aiCreatedAt (\<lambda>v r. r\<lparr>aiCreatedAt := v\<rparr>) intoString),
      (''updated_at'', member aiUpdatedAt (\<lambda>v r. r\<lparr>aiUpdatedAt := v\<rparr>) intoString),
      (''pull_request'', member aiPullRequest (\<lambda>v r. r\<lparr>aiPullRequest := v\<rparr>) intoRaw)]"

record api_comment =
  acID :: "64 word option"
  acUser :: "api_user option"
  acBody :: "string option"
  acURL :: "string option"
  acCreatedAt :: "string option"
  acUpdatedAt :: "string option"

definition zeroComment :: api_comment where
  "zeroComment = \<lparr>acID = None, acUser = None, acBody = None, acURL = None, acCreatedAt = None, acUpdatedAt = None\<rparr>"

definition intoComment :: "api_comment into" where
  "intoComment = intoStruct
     [(''id'', member acID (\<lambda>v r. r\<lparr>acID := v\<rparr>) intoUint),
      (''user'', member acUser (\<lambda>v r. r\<lparr>acUser := v\<rparr>) (intoPointer None intoUser)),
      (''body'', member acBody (\<lambda>v r. r\<lparr>acBody := v\<rparr>) intoString),
      (''html_url'', member acURL (\<lambda>v r. r\<lparr>acURL := v\<rparr>) intoString),
      (''created_at'', member acCreatedAt (\<lambda>v r. r\<lparr>acCreatedAt := v\<rparr>) intoString),
      (''updated_at'', member acUpdatedAt (\<lambda>v r. r\<lparr>acUpdatedAt := v\<rparr>) intoString)]"

record api_ref =
  arRef :: "string option"
  arSHA :: "string option"

definition zeroRef :: api_ref where "zeroRef = \<lparr>arRef = None, arSHA = None\<rparr>"

definition intoRef :: "api_ref into" where
  "intoRef = intoStruct
     [(''ref'', member arRef (\<lambda>v r. r\<lparr>arRef := v\<rparr>) intoString), (''sha'', member arSHA (\<lambda>v r. r\<lparr>arSHA := v\<rparr>) intoString)]"

record api_pull =
  apNumber :: "64 word option"
  apTitle :: "string option"
  apBody :: "jdoc option"
  apState :: "string option"
  apDraft :: "bool option"
  apUser :: "api_user option"
  apHead :: "api_ref option"
  apBase :: "api_ref option"
  apURL :: "string option"
  apCreatedAt :: "string option"
  apUpdatedAt :: "string option"
  apMergeableState :: "string option"

definition zeroPull :: api_pull where
  "zeroPull = \<lparr>apNumber = None, apTitle = None, apBody = None, apState = None, apDraft = None, apUser = None, apHead = None,
     apBase = None, apURL = None, apCreatedAt = None, apUpdatedAt = None, apMergeableState = None\<rparr>"

definition intoPull :: "api_pull into" where
  "intoPull = intoStruct
     [(''number'', member apNumber (\<lambda>v r. r\<lparr>apNumber := v\<rparr>) intoUint),
      (''title'', member apTitle (\<lambda>v r. r\<lparr>apTitle := v\<rparr>) intoString),
      (''body'', member apBody (\<lambda>v r. r\<lparr>apBody := v\<rparr>) intoRaw),
      (''state'', member apState (\<lambda>v r. r\<lparr>apState := v\<rparr>) intoString),
      (''draft'', member apDraft (\<lambda>v r. r\<lparr>apDraft := v\<rparr>) intoBool),
      (''user'', member apUser (\<lambda>v r. r\<lparr>apUser := v\<rparr>) (intoPointer None intoUser)),
      (''head'', member apHead (\<lambda>v r. r\<lparr>apHead := v\<rparr>) (intoPointer zeroRef intoRef)),
      (''base'', member apBase (\<lambda>v r. r\<lparr>apBase := v\<rparr>) (intoPointer zeroRef intoRef)),
      (''html_url'', member apURL (\<lambda>v r. r\<lparr>apURL := v\<rparr>) intoString),
      (''created_at'', member apCreatedAt (\<lambda>v r. r\<lparr>apCreatedAt := v\<rparr>) intoString),
      (''updated_at'', member apUpdatedAt (\<lambda>v r. r\<lparr>apUpdatedAt := v\<rparr>) intoString),
      (''mergeable_state'', member apMergeableState (\<lambda>v r. r\<lparr>apMergeableState := v\<rparr>) intoString)]"

record api_run =
  anID :: "64 word option"
  anWorkflowName :: "string option"
  anDisplayTitle :: "string option"
  anStatus :: "string option"
  anConclusion :: "string option"
  anEvent :: "string option"
  anHeadBranch :: "string option"
  anHeadSHA :: "string option"
  anURL :: "string option"
  anCreatedAt :: "string option"
  anUpdatedAt :: "string option"
  anAttempt :: "64 word option"
  anJobsURL :: "string option"

definition zeroRun :: api_run where
  "zeroRun = \<lparr>anID = None, anWorkflowName = None, anDisplayTitle = None, anStatus = None, anConclusion = None, anEvent = None,
     anHeadBranch = None, anHeadSHA = None, anURL = None, anCreatedAt = None, anUpdatedAt = None, anAttempt = None,
     anJobsURL = None\<rparr>"

definition intoRun :: "api_run into" where
  "intoRun = intoStruct
     [(''id'', member anID (\<lambda>v r. r\<lparr>anID := v\<rparr>) intoUint),
      (''name'', member anWorkflowName (\<lambda>v r. r\<lparr>anWorkflowName := v\<rparr>) intoString),
      (''display_title'', member anDisplayTitle (\<lambda>v r. r\<lparr>anDisplayTitle := v\<rparr>) intoString),
      (''status'', member anStatus (\<lambda>v r. r\<lparr>anStatus := v\<rparr>) intoString),
      (''conclusion'', member anConclusion (\<lambda>v r. r\<lparr>anConclusion := v\<rparr>) intoString),
      (''event'', member anEvent (\<lambda>v r. r\<lparr>anEvent := v\<rparr>) intoString),
      (''head_branch'', member anHeadBranch (\<lambda>v r. r\<lparr>anHeadBranch := v\<rparr>) intoString),
      (''head_sha'', member anHeadSHA (\<lambda>v r. r\<lparr>anHeadSHA := v\<rparr>) intoString),
      (''html_url'', member anURL (\<lambda>v r. r\<lparr>anURL := v\<rparr>) intoString),
      (''created_at'', member anCreatedAt (\<lambda>v r. r\<lparr>anCreatedAt := v\<rparr>) intoString),
      (''updated_at'', member anUpdatedAt (\<lambda>v r. r\<lparr>anUpdatedAt := v\<rparr>) intoString),
      (''run_attempt'', member anAttempt (\<lambda>v r. r\<lparr>anAttempt := v\<rparr>) intoUint),
      (''jobs_url'', member anJobsURL (\<lambda>v r. r\<lparr>anJobsURL := v\<rparr>) intoString)]"

record api_repository =
  aeName :: "string option"
  aeOwner :: "api_user option"
  aeFullName :: "string option"
  aeDescription :: "string option"
  aePrivate :: "bool option"
  aeURL :: "string option"
  aeDefaultBranch :: "string option"
  aeSSHURL :: "string option"

definition zeroApiRepository :: api_repository where
  "zeroApiRepository = \<lparr>aeName = None, aeOwner = None, aeFullName = None, aeDescription = None, aePrivate = None, aeURL = None,
     aeDefaultBranch = None, aeSSHURL = None\<rparr>"

definition intoRepository :: "api_repository into" where
  "intoRepository = intoStruct
     [(''name'', member aeName (\<lambda>v r. r\<lparr>aeName := v\<rparr>) intoString),
      (''owner'', member aeOwner (\<lambda>v r. r\<lparr>aeOwner := v\<rparr>) (intoPointer None intoUser)),
      (''full_name'', member aeFullName (\<lambda>v r. r\<lparr>aeFullName := v\<rparr>) intoString),
      (''description'', member aeDescription (\<lambda>v r. r\<lparr>aeDescription := v\<rparr>) intoString),
      (''private'', member aePrivate (\<lambda>v r. r\<lparr>aePrivate := v\<rparr>) intoBool),
      (''html_url'', member aeURL (\<lambda>v r. r\<lparr>aeURL := v\<rparr>) intoString),
      (''default_branch'', member aeDefaultBranch (\<lambda>v r. r\<lparr>aeDefaultBranch := v\<rparr>) intoString),
      (''ssh_url'', member aeSSHURL (\<lambda>v r. r\<lparr>aeSSHURL := v\<rparr>) intoString)]"

record api_status =
  atContext :: "string option"
  atState :: "string option"
  atDescription :: "string option"
  atTargetURL :: "string option"
  atCreatedAt :: "string option"
  atUpdatedAt :: "string option"

definition zeroStatus :: api_status where
  "zeroStatus = \<lparr>atContext = None, atState = None, atDescription = None, atTargetURL = None, atCreatedAt = None, atUpdatedAt = None\<rparr>"

definition intoStatus :: "api_status into" where
  "intoStatus = intoStruct
     [(''context'', member atContext (\<lambda>v r. r\<lparr>atContext := v\<rparr>) intoString),
      (''state'', member atState (\<lambda>v r. r\<lparr>atState := v\<rparr>) intoString),
      (''description'', member atDescription (\<lambda>v r. r\<lparr>atDescription := v\<rparr>) intoString),
      (''target_url'', member atTargetURL (\<lambda>v r. r\<lparr>atTargetURL := v\<rparr>) intoString),
      (''created_at'', member atCreatedAt (\<lambda>v r. r\<lparr>atCreatedAt := v\<rparr>) intoString),
      (''updated_at'', member atUpdatedAt (\<lambda>v r. r\<lparr>atUpdatedAt := v\<rparr>) intoString)]"

text \<open>The structs of one, two or three members are tuples.\<close>

type_synonym api_statuses = "string option \<times> string option \<times> api_status list option"

definition intoStatuses :: "api_statuses into" where
  "intoStatuses = intoStruct
     [(''state'', member fst (\<lambda>v r. (v, snd r)) intoString),
      (''sha'', member (fst \<circ> snd) (\<lambda>v r. (fst r, v, snd (snd r))) intoString),
      (''statuses'', member (snd \<circ> snd) (\<lambda>v r. (fst r, fst (snd r), v)) (intoSlicePointer zeroStatus intoStatus))]"

record api_check_run =
  akName :: "string option"
  akStatus :: "string option"
  akConclusion :: "string option"
  akDetailsURL :: "string option"
  akOutput :: "string option option"
  akStartedAt :: "string option"
  akCompletedAt :: "string option"

definition zeroCheckRun :: api_check_run where
  "zeroCheckRun = \<lparr>akName = None, akStatus = None, akConclusion = None, akDetailsURL = None, akOutput = None, akStartedAt = None,
     akCompletedAt = None\<rparr>"

definition intoCheckRun :: "api_check_run into" where
  "intoCheckRun = intoStruct
     [(''name'', member akName (\<lambda>v r. r\<lparr>akName := v\<rparr>) intoString),
      (''status'', member akStatus (\<lambda>v r. r\<lparr>akStatus := v\<rparr>) intoString),
      (''conclusion'', member akConclusion (\<lambda>v r. r\<lparr>akConclusion := v\<rparr>) intoString),
      (''details_url'', member akDetailsURL (\<lambda>v r. r\<lparr>akDetailsURL := v\<rparr>) intoString),
      (''output'', member akOutput (\<lambda>v r. r\<lparr>akOutput := v\<rparr>) (intoPointer None (intoStruct [(''title'', intoString)]))),
      (''started_at'', member akStartedAt (\<lambda>v r. r\<lparr>akStartedAt := v\<rparr>) intoString),
      (''completed_at'', member akCompletedAt (\<lambda>v r. r\<lparr>akCompletedAt := v\<rparr>) intoString)]"

end
