(* ===== verification/GitHub_Normalize.thy ===== *)
theory GitHub_Normalize
  imports GitHub_Decode
begin

text \<open>
  Package \<^verbatim>\<open>internal/provider/github\<close>, the records: the messages of the responses
  (\<^verbatim>\<open>proto/repowolf/v1/github.proto\<close>) and how they are made of the decoded structs
  (\<^verbatim>\<open>normalize.go\<close>, \<^verbatim>\<open>normalize_records.go\<close>, \<^verbatim>\<open>normalize_response.go\<close>, \<^verbatim>\<open>normalize_patchmill.go\<close>).
\<close>

section \<open>Responses\<close>

record gh_repository_record =
  rrRepository :: string
  rrOwner :: string
  rrNameWithOwner :: string
  rrDescription :: "string option"
  rrPrivate :: bool
  rrUrl :: string
  rrDefaultBranch :: string
  rrSshUrl :: string

record gh_comment_record =
  crId :: "64 word"
  crAuthor :: string
  crBody :: string
  crUrl :: string
  crCreatedAt :: string
  crUpdatedAt :: string

record gh_issue_record =
  irNumber :: "64 word"
  irTitle :: string
  irBody :: "string option"
  irState :: string
  irAuthor :: string
  irAssignees :: "string list"
  irLabels :: "string list"
  irUrl :: string
  irCreatedAt :: string
  irUpdatedAt :: string
  irComments :: "gh_comment_record list"

record gh_pull_record =
  prNumber :: "64 word"
  prTitle :: string
  prBody :: "string option"
  prState :: string
  prDraft :: bool
  prAuthor :: string
  prHead :: string
  prBase :: string
  prHeadObjectId :: string
  prUrl :: string
  prCreatedAt :: string
  prUpdatedAt :: string
  prMergeableState :: "string option"

record gh_check_record =
  kcName :: string
  kcState :: string
  kcConclusion :: "string option"
  kcDetailsUrl :: "string option"
  kcDescription :: "string option"
  kcStartedAt :: "string option"
  kcCompletedAt :: "string option"

record gh_run_record =
  nrId :: "64 word"
  nrName :: string
  nrWorkflowName :: string
  nrStatus :: string
  nrConclusion :: "string option"
  nrEvent :: string
  nrHeadBranch :: string
  nrHeadObjectId :: string
  nrUrl :: string
  nrCreatedAt :: string
  nrUpdatedAt :: string
  nrAttempt :: "64 word option"
  nrJobsUrl :: "string option"

record gh_status_record =
  srName :: string
  srState :: string
  srDescription :: "string option"
  srTargetUrl :: "string option"
  srCreatedAt :: "string option"
  srUpdatedAt :: "string option"

record gh_status_summary =
  smState :: string
  smObjectId :: string
  smStatuses :: "gh_status_record list"

text \<open>
  The \<^verbatim>\<open>oneof\<close> of a response with the record of its message, which may be nil; a user and a label are their
  only field.
\<close>

datatype github_response =
    GrNone
  | GrCurrentUser "string option"
  | GrRepositoryView "gh_repository_record option"
  | GrLabelList "string list"
  | GrIssueList "gh_issue_record list"
  | GrIssueView "gh_issue_record option"
  | GrIssueCreate "gh_issue_record option"
  | GrIssueEdit "gh_issue_record option"
  | GrIssueComment "gh_comment_record option"
  | GrIssueClose "gh_issue_record option"
  | GrIssueReopen "gh_issue_record option"
  | GrLabelCreate "string option"
  | GrIssueLabelChange "gh_issue_record option"
  | GrPullList "gh_pull_record list"
  | GrPullView "gh_pull_record option"
  | GrPullCreate "gh_pull_record option"
  | GrPullEdit "gh_pull_record option"
  | GrPullComment "gh_comment_record option"
  | GrPullClose "gh_pull_record option"
  | GrPullReopen "gh_pull_record option"
  | GrPullReady "gh_pull_record option"
  | GrPullChecks "gh_check_record list"
  | GrRunList "gh_run_record list"
  | GrRunView "gh_run_record option"
  | GrStatusView "gh_status_summary option"


section \<open>Fields\<close>

definition requiredField :: "'a option \<Rightarrow> string \<Rightarrow> 'a result" where
  "requiredField v field = (case v of None \<Rightarrow> providerResponse None field | Some x \<Rightarrow> Inr x)"

definition nullable :: "jdoc option \<Rightarrow> string \<Rightarrow> string option result" where
  "nullable raw field =
     (case raw of
        None \<Rightarrow> providerResponse None field
      | Some DNull \<Rightarrow> Inr None
      | Some (DString s) \<Rightarrow> Inr (Some s)
      | Some _ \<Rightarrow> providerResponse (Some (Errorf ''json: cannot unmarshal'' [])) field)"

definition userLogin :: "api_user option \<Rightarrow> string \<Rightarrow> string result" where
  "userLogin v field = (case v of None \<Rightarrow> providerResponse None field | Some login \<Rightarrow> requiredField login (field @ ''.login''))"

fun collectAll :: "('a \<Rightarrow> 'b result) \<Rightarrow> 'a list \<Rightarrow> 'b list result" where
  "collectAll f [] = Inr []"
| "collectAll f (x # xs) = bindE (f x) (\<lambda>y. bindE (collectAll f xs) (\<lambda>ys. Inr (y # ys)))"

definition gh_users :: "api_user list option \<Rightarrow> string \<Rightarrow> string list result" where
  "gh_users vs field =
     (case vs of None \<Rightarrow> providerResponse None field | Some us \<Rightarrow> collectAll (\<lambda>u. userLogin (Some u) field) us)"

definition labelNames :: "api_label list option \<Rightarrow> string list result" where
  "labelNames vs =
     (case vs of None \<Rightarrow> providerResponse None ''labels'' | Some ls \<Rightarrow> collectAll (\<lambda>l. requiredField l ''label.name'') ls)"


section \<open>Records\<close>

definition repositoryRecord :: "api_repository \<Rightarrow> gh_repository_record result" where
  "repositoryRecord v =
     bindE (requiredField (aeName v) ''name'') (\<lambda>name.
     bindE (userLogin (aeOwner v) ''owner'') (\<lambda>owner.
     bindE (requiredField (aeFullName v) ''full_name'') (\<lambda>full.
     bindE (requiredField (aePrivate v) ''private'') (\<lambda>private.
     bindE (requiredField (aeURL v) ''html_url'') (\<lambda>link.
     bindE (requiredField (aeDefaultBranch v) ''default_branch'') (\<lambda>branch.
     bindE (requiredField (aeSSHURL v) ''ssh_url'') (\<lambda>ssh.
     Inr \<lparr>rrRepository = name, rrOwner = owner, rrNameWithOwner = full, rrDescription = aeDescription v, rrPrivate = private,
          rrUrl = link, rrDefaultBranch = branch, rrSshUrl = ssh\<rparr>)))))))"

definition gh_issueRecord :: "api_issue \<Rightarrow> bool \<Rightarrow> gh_issue_record result" where
  "gh_issueRecord v includeBody =
     bindE (requiredField (aiNumber v) ''number'') (\<lambda>n.
     bindE (requiredField (aiTitle v) ''title'') (\<lambda>title.
     bindE (requiredField (aiState v) ''state'') (\<lambda>state.
     bindE (userLogin (aiUser v) ''user'') (\<lambda>author.
     bindE (gh_users (aiAssignees v) ''assignees'') (\<lambda>assignees.
     bindE (labelNames (aiLabels v)) (\<lambda>labels.
     bindE (requiredField (aiURL v) ''html_url'') (\<lambda>link.
     bindE (requiredField (aiCreatedAt v) ''created_at'') (\<lambda>created.
     bindE (requiredField (aiUpdatedAt v) ''updated_at'') (\<lambda>updated.
     bindE (if includeBody then nullable (aiBody v) ''body'' else Inr None) (\<lambda>body.
     Inr \<lparr>irNumber = n, irTitle = title, irBody = body, irState = state, irAuthor = author, irAssignees = assignees,
          irLabels = labels, irUrl = link, irCreatedAt = created, irUpdatedAt = updated, irComments = []\<rparr>))))))))))"

definition gh_commentRecord :: "api_comment \<Rightarrow> gh_comment_record result" where
  "gh_commentRecord v =
     bindE (requiredField (acID v) ''id'') (\<lambda>n.
     bindE (userLogin (acUser v) ''user'') (\<lambda>author.
     bindE (requiredField (acBody v) ''body'') (\<lambda>body.
     bindE (requiredField (acURL v) ''html_url'') (\<lambda>link.
     bindE (requiredField (acCreatedAt v) ''created_at'') (\<lambda>created.
     bindE (requiredField (acUpdatedAt v) ''updated_at'') (\<lambda>updated.
     Inr \<lparr>crId = n, crAuthor = author, crBody = body, crUrl = link, crCreatedAt = created, crUpdatedAt = updated\<rparr>))))))"

definition gh_pullRecord :: "api_pull \<Rightarrow> bool \<Rightarrow> gh_pull_record result" where
  "gh_pullRecord v details =
     bindE (requiredField (apNumber v) ''number'') (\<lambda>n.
     bindE (requiredField (apTitle v) ''title'') (\<lambda>title.
     bindE (nullable (apBody v) ''body'') (\<lambda>body.
     bindE (requiredField (apState v) ''state'') (\<lambda>state.
     bindE (requiredField (apDraft v) ''draft'') (\<lambda>draft.
     bindE (userLogin (apUser v) ''user'') (\<lambda>author.
     case (apHead v, apBase v) of
       (Some h, Some b) \<Rightarrow>
         bindE (requiredField (arRef h) ''head.ref'') (\<lambda>head.
         bindE (requiredField (arRef b) ''base.ref'') (\<lambda>base.
         bindE (requiredField (arSHA h) ''head.sha'') (\<lambda>sha.
         bindE (requiredField (apURL v) ''html_url'') (\<lambda>link.
         bindE (requiredField (apCreatedAt v) ''created_at'') (\<lambda>created.
         bindE (requiredField (apUpdatedAt v) ''updated_at'') (\<lambda>updated.
         Inr \<lparr>prNumber = n, prTitle = title, prBody = body, prState = state, prDraft = draft, prAuthor = author, prHead = head,
              prBase = base, prHeadObjectId = sha, prUrl = link, prCreatedAt = created, prUpdatedAt = updated,
              prMergeableState = (if details then apMergeableState v else None)\<rparr>))))))
     | _ \<Rightarrow> providerResponse None ''head/base''))))))"

definition gh_runRecord :: "api_run \<Rightarrow> bool \<Rightarrow> gh_run_record result" where
  "gh_runRecord v details =
     bindE (requiredField (anID v) ''id'') (\<lambda>n.
     bindE (requiredField (anDisplayTitle v) ''display_title'') (\<lambda>name.
     bindE (requiredField (anWorkflowName v) ''name'') (\<lambda>workflow.
     bindE (requiredField (anStatus v) ''status'') (\<lambda>status.
     bindE (requiredField (anEvent v) ''event'') (\<lambda>event.
     bindE (requiredField (anHeadBranch v) ''head_branch'') (\<lambda>branch.
     bindE (requiredField (anHeadSHA v) ''head_sha'') (\<lambda>sha.
     bindE (requiredField (anURL v) ''html_url'') (\<lambda>link.
     bindE (requiredField (anCreatedAt v) ''created_at'') (\<lambda>created.
     bindE (requiredField (anUpdatedAt v) ''updated_at'') (\<lambda>updated.
     let r = \<lparr>nrId = n, nrName = name, nrWorkflowName = workflow, nrStatus = status, nrConclusion = anConclusion v, nrEvent = event,
              nrHeadBranch = branch, nrHeadObjectId = sha, nrUrl = link, nrCreatedAt = created, nrUpdatedAt = updated,
              nrAttempt = None, nrJobsUrl = None\<rparr> in
     if details then
       (if anAttempt v = None \<or> anJobsURL v = None then providerResponse None ''run details''
        else Inr (r\<lparr>nrAttempt := anAttempt v, nrJobsUrl := anJobsURL v\<rparr>))
     else Inr r))))))))))"

definition gh_statusRecord :: "api_status \<Rightarrow> gh_status_record result" where
  "gh_statusRecord v =
     bindE (requiredField (atContext v) ''status.context'') (\<lambda>name.
     bindE (requiredField (atState v) ''status.state'') (\<lambda>state.
     Inr \<lparr>srName = name, srState = state, srDescription = atDescription v, srTargetUrl = atTargetURL v, srCreatedAt = atCreatedAt v,
          srUpdatedAt = atUpdatedAt v\<rparr>))"

definition statusSummary :: "api_statuses \<Rightarrow> gh_status_summary result" where
  "statusSummary v =
     (case v of (st, sha, statuses) \<Rightarrow>
        bindE (requiredField st ''state'') (\<lambda>state.
        bindE (requiredField sha ''sha'') (\<lambda>object.
        bindE (requiredField statuses ''statuses'') (\<lambda>vs.
        bindE (collectAll gh_statusRecord vs) (\<lambda>records.
        Inr \<lparr>smState = state, smObjectId = object, smStatuses = records\<rparr>)))))"

definition gh_checkRecord :: "api_check_run \<Rightarrow> gh_check_record result" where
  "gh_checkRecord v =
     bindE (requiredField (akName v) ''check.name'') (\<lambda>name.
     bindE (requiredField (akStatus v) ''check.status'') (\<lambda>state.
     Inr \<lparr>kcName = name, kcState = state, kcConclusion = akConclusion v, kcDetailsUrl = akDetailsURL v,
          kcDescription = (case akOutput v of None \<Rightarrow> None | Some title \<Rightarrow> title), kcStartedAt = akStartedAt v,
          kcCompletedAt = akCompletedAt v\<rparr>))"

text \<open>The record of a commit status among the checks of a pull request.\<close>

definition statusCheck :: "api_status \<Rightarrow> gh_check_record result" where
  "statusCheck v =
     bindE (requiredField (atContext v) ''status.context'') (\<lambda>name.
     bindE (requiredField (atState v) ''status.state'') (\<lambda>state.
     Inr \<lparr>kcName = name, kcState = state, kcConclusion = None, kcDetailsUrl = atTargetURL v, kcDescription = atDescription v,
          kcStartedAt = atCreatedAt v, kcCompletedAt = atUpdatedAt v\<rparr>))"

definition githubLogin :: "string \<Rightarrow> bool" where
  "githubLogin v =
     (v \<noteq> [] \<and> length v \<le> 39 \<and> isAlnum (hd v) \<and> list_all (\<lambda>c. isAlnum c \<or> c = CHR ''-'') (tl v))"

definition gh_labelRecord :: "api_label \<Rightarrow> string result" where
  "gh_labelRecord v =
     bindE (requiredField v ''name'') (\<lambda>name.
       if isOK (labelCreateName name) then Inr name else providerResponse None ''name'')"

text \<open>
  What the code reads of a parsed URL (\<^verbatim>\<open>url.Parse\<close>) and of the comparison of hosts without case
  (\<^verbatim>\<open>strings.EqualFold\<close>).
\<close>

record link_url =
  luScheme :: string
  luHost :: string
  luHasUser :: bool
  luEscapedPath :: string
  luRawQuery :: string
  luFragment :: string

record link_lib =
  linkParse :: "string \<Rightarrow> link_url option"
  hostFold :: "string \<Rightarrow> string \<Rightarrow> bool"

definition repositoryTarget :: "link_lib \<Rightarrow> gh_repository_record \<Rightarrow> resolved \<Rightarrow> unit result" where
  "repositoryTarget lib r repo =
     (let name = Name (resRepository repo); owner = Owner (resRepository repo); provider = resProvider repo in
      if rrRepository r \<noteq> name \<or> rrOwner r \<noteq> owner \<or> rrNameWithOwner r \<noteq> owner @ ''/'' @ name
      then providerResponse None ''repository''
      else case linkParse lib (rrUrl r) of
        None \<Rightarrow> providerResponse None ''html_url''
      | Some u \<Rightarrow>
          if luScheme u \<noteq> ''https'' \<or> \<not> hostFold lib (luHost u) (APIHost provider) \<or> luHasUser u
            \<or> luEscapedPath u \<noteq> ''/'' @ owner @ ''/'' @ name \<or> luRawQuery u \<noteq> [] \<or> luFragment u \<noteq> []
          then providerResponse None ''html_url''
          else if rrSshUrl r \<noteq> SSHUser provider @ [CHR 0x40] @ GitHost provider @ '':'' @ owner @ ''/'' @ name @ ''.git''
          then providerResponse None ''ssh_url'' else Inr ())"


section \<open>Responses to a request\<close>

fun issueResponse :: "github_operation \<Rightarrow> gh_issue_record \<Rightarrow> github_response result" where
  "issueResponse (GhIssueView _) r = Inr (GrIssueView (Some r))"
| "issueResponse (GhIssueCreate _) r = Inr (GrIssueCreate (Some r))"
| "issueResponse (GhIssueEdit _) r = Inr (GrIssueEdit (Some r))"
| "issueResponse (GhIssueClose _) r = Inr (GrIssueClose (Some r))"
| "issueResponse (GhIssueReopen _) r = Inr (GrIssueReopen (Some r))"
| "issueResponse (GhIssueLabelChange _) r = Inr (GrIssueLabelChange (Some r))"
| "issueResponse _ r = fail GitHubErrInvalidRequest"

fun commentResponse :: "github_operation \<Rightarrow> gh_comment_record \<Rightarrow> github_response result" where
  "commentResponse (GhIssueComment _) r = Inr (GrIssueComment (Some r))"
| "commentResponse (GhPullComment _) r = Inr (GrPullComment (Some r))"
| "commentResponse _ r = fail GitHubErrInvalidRequest"

fun pullResponse :: "github_operation \<Rightarrow> gh_pull_record \<Rightarrow> github_response result" where
  "pullResponse (GhPullView _) r = Inr (GrPullView (Some r))"
| "pullResponse (GhPullCreate _) r = Inr (GrPullCreate (Some r))"
| "pullResponse (GhPullEdit _) r = Inr (GrPullEdit (Some r))"
| "pullResponse (GhPullClose _) r = Inr (GrPullClose (Some r))"
| "pullResponse (GhPullReopen _) r = Inr (GrPullReopen (Some r))"
| "pullResponse (GhPullReady _) r = Inr (GrPullReady (Some r))"
| "pullResponse _ r = fail GitHubErrInvalidRequest"

definition currentUserResponse :: "api_user \<Rightarrow> github_response result" where
  "currentUserResponse v =
     bindE (requiredField v ''login'') (\<lambda>login.
       if \<not> githubLogin login then providerResponse None ''login'' else Inr (GrCurrentUser (Some login)))"

text \<open>\<^verbatim>\<open>label_create\<close>: the created label must have the name that was asked for.\<close>

definition labelCreated :: "github_operation \<Rightarrow> api_label \<Rightarrow> github_response result" where
  "labelCreated oper v =
     bindE (gh_labelRecord v) (\<lambda>name.
       case oper of
         GhLabelCreate (Some r) \<Rightarrow> if name \<noteq> lcName r then providerResponse None ''label name'' else Inr (GrLabelCreate (Some name))
       | _ \<Rightarrow> providerResponse None ''label name'')"

text \<open>The list of a struct with one member; a failure to decode is reported for that member.\<close>

definition memberList :: "json_reader \<Rightarrow> string \<Rightarrow> 'a \<Rightarrow> 'a into \<Rightarrow> string \<Rightarrow> 'a list result" where
  "memberList reader field zero f raw =
     (case gh_decode reader (intoStruct [(field, intoSlicePointer zero f)]) None raw of
        Inl e \<Rightarrow> providerResponse (Some e) field
      | Inr None \<Rightarrow> providerResponse None field
      | Inr (Some vs) \<Rightarrow> Inr vs)"

definition normalizeWithRepository ::
  "json_reader \<Rightarrow> link_lib \<Rightarrow> resolved option \<Rightarrow> github_operation \<Rightarrow> string \<Rightarrow> string \<Rightarrow> github_response result" where
  "normalizeWithRepository reader lib repository oper kind raw =
     (if kind = ''current_user'' then bindE (gh_decode reader intoUser None raw) currentUserResponse
      else if kind = ''repository'' then
        bindE (gh_decode reader intoRepository zeroApiRepository raw) (\<lambda>v.
        bindE (repositoryRecord v) (\<lambda>r.
        bindE (case repository of None \<Rightarrow> Inr () | Some repo \<Rightarrow> repositoryTarget lib r repo) (\<lambda>_.
        Inr (GrRepositoryView (Some r)))))
      else if kind = ''label_create'' then bindE (gh_decode reader intoLabel None raw) (labelCreated oper)
      else if kind = ''issue_list'' then
        bindE (memberList reader ''items'' zeroIssue intoIssue raw) (\<lambda>vs.
        bindE (collectAll (\<lambda>v. gh_issueRecord v False) vs) (\<lambda>rs. Inr (GrIssueList rs)))
      else if kind = ''issue'' then
        bindE (gh_decode reader intoIssue zeroIssue raw) (\<lambda>v. bindE (gh_issueRecord v True) (issueResponse oper))
      else if kind = ''comment'' then
        bindE (gh_decode reader intoComment zeroComment raw) (\<lambda>v. bindE (gh_commentRecord v) (commentResponse oper))
      else if kind = ''pull_list'' then
        bindE (gh_decode reader (intoSlice zeroPull intoPull) [] raw) (\<lambda>vs.
        bindE (collectAll (\<lambda>v. gh_pullRecord v False) vs) (\<lambda>rs. Inr (GrPullList rs)))
      else if kind = ''pull'' then
        bindE (gh_decode reader intoPull zeroPull raw) (\<lambda>v. bindE (gh_pullRecord v True) (pullResponse oper))
      else if kind = ''run_list'' then
        bindE (memberList reader ''workflow_runs'' zeroRun intoRun raw) (\<lambda>vs.
        bindE (collectAll (\<lambda>v. gh_runRecord v False) vs) (\<lambda>rs. Inr (GrRunList rs)))
      else if kind = ''run'' then
        bindE (gh_decode reader intoRun zeroRun raw) (\<lambda>v. bindE (gh_runRecord v True) (\<lambda>r. Inr (GrRunView (Some r))))
      else if kind = ''status'' then
        bindE (gh_decode reader intoStatuses (None, None, None) raw) (\<lambda>v.
        bindE (statusSummary v) (\<lambda>r. Inr (GrStatusView (Some r))))
      else fail GitHubErrInvalidRequest)"


section \<open>Pages of issues, labels and comments\<close>

type_synonym graphql_page_info = "bool option \<times> string option"

definition intoPageInfo :: "graphql_page_info into" where
  "intoPageInfo = intoStruct
     [(''hasNextPage'', member fst (\<lambda>v r. (v, snd r)) intoBool), (''endCursor'', member snd (\<lambda>v r. (fst r, v)) intoString)]"

text \<open>A connection: its nodes and its page information.\<close>

definition intoConnection :: "'a \<Rightarrow> 'a into \<Rightarrow> ('a list option \<times> graphql_page_info option) into" where
  "intoConnection zero f = intoStruct
     [(''nodes'', member fst (\<lambda>v r. (v, snd r)) (intoSlicePointer zero f)),
      (''pageInfo'', member snd (\<lambda>v r. (fst r, v)) (intoPointer (None, None) intoPageInfo))]"

record graphql_issue =
  giqNumber :: "64 word option"
  giqTitle :: "string option"
  giqBody :: "string option"
  giqState :: "string option"
  giqLabels :: "(api_label list option \<times> graphql_page_info option) option"
  giqAuthor :: "jdoc option"
  giqCreatedAt :: "string option"
  giqUpdatedAt :: "string option"
  giqURL :: "string option"

definition zeroGraphQLIssue :: graphql_issue where
  "zeroGraphQLIssue = \<lparr>giqNumber = None, giqTitle = None, giqBody = None, giqState = None, giqLabels = None, giqAuthor = None,
     giqCreatedAt = None, giqUpdatedAt = None, giqURL = None\<rparr>"

definition intoGraphQLIssue :: "graphql_issue into" where
  "intoGraphQLIssue = intoStruct
     [(''number'', member giqNumber (\<lambda>v r. r\<lparr>giqNumber := v\<rparr>) intoUint),
      (''title'', member giqTitle (\<lambda>v r. r\<lparr>giqTitle := v\<rparr>) intoString),
      (''body'', member giqBody (\<lambda>v r. r\<lparr>giqBody := v\<rparr>) intoString),
      (''state'', member giqState (\<lambda>v r. r\<lparr>giqState := v\<rparr>) intoString),
      (''labels'', member giqLabels (\<lambda>v r. r\<lparr>giqLabels := v\<rparr>) (intoPointer (None, None) (intoConnection None intoLabel))),
      (''author'', member giqAuthor (\<lambda>v r. r\<lparr>giqAuthor := v\<rparr>) intoRaw),
      (''createdAt'', member giqCreatedAt (\<lambda>v r. r\<lparr>giqCreatedAt := v\<rparr>) intoString),
      (''updatedAt'', member giqUpdatedAt (\<lambda>v r. r\<lparr>giqUpdatedAt := v\<rparr>) intoString),
      (''url'', member giqURL (\<lambda>v r. r\<lparr>giqURL := v\<rparr>) intoString)]"

type_synonym graphql_connection = "graphql_issue list option \<times> graphql_page_info option"

text \<open>The whole answer: the data with the repository with its issues, and the errors.\<close>

definition intoGraphQLResponse :: "(graphql_connection option option option \<times> jdoc option list) into" where
  "intoGraphQLResponse = intoStruct
     [(''data'', member fst (\<lambda>v r. (v, snd r)) (intoPointer None (intoStruct
        [(''repository'', intoPointer None (intoStruct
           [(''issues'', intoPointer (None, None) (intoConnection zeroGraphQLIssue intoGraphQLIssue))]))]))),
      (''errors'', member snd (\<lambda>v r. (fst r, v)) (intoSlice None intoRaw))]"

definition relabel :: "'a result \<Rightarrow> string \<Rightarrow> 'a result" where
  "relabel r field = (case r of Inl e \<Rightarrow> providerResponse (Some e) field | Inr x \<Rightarrow> Inr x)"

text \<open>A text of an issue; the check is absent for the ones that only must not be empty.\<close>

definition graphQLIssueText :: "string option \<Rightarrow> string \<Rightarrow> (string \<Rightarrow> unit result) option \<Rightarrow> string result" where
  "graphQLIssueText v field validate =
     bindE (relabel (requiredField v field) field) (\<lambda>text.
       if \<not> validString text \<or> NUL \<in> set text then providerResponse None field
       else case validate of
         None \<Rightarrow> if text = [] then providerResponse None field else Inr text
       | Some check \<Rightarrow> bindE (relabel (check text) field) (\<lambda>_. Inr text))"

definition graphQLActorLogin :: "string \<Rightarrow> bool" where
  "graphQLActorLogin v =
     (v \<noteq> [] \<and> int (length v) \<le> maximumNameBytes \<and> validString v \<and> allRunes (\<lambda>r. \<not> isControl r \<and> \<not> isSpace r) v)"

text \<open>
  The author. The text of the raw value is valid UTF-8 and holds one value, as the whole answer did when it was
  decoded, so that only a mismatch of types can fail.
\<close>

definition graphQLIssueAuthor :: "jdoc option \<Rightarrow> string result" where
  "graphQLIssueAuthor raw =
     (case raw of
        None \<Rightarrow> providerResponse None ''issue.author''
      | Some DNull \<Rightarrow> Inr ''ghost''
      | Some d \<Rightarrow>
          (case intoUser None d of
             Inl e \<Rightarrow> relabel (providerResponse (Some e) ''json'') ''issue.author''
           | Inr v \<Rightarrow>
               bindE (relabel (userLogin (Some v) ''issue.author'') ''issue.author'') (\<lambda>author.
                 if \<not> graphQLActorLogin author then providerResponse None ''issue.author'' else Inr author)))"

definition graphQLIssueLabels :: "(api_label list option \<times> graphql_page_info option) option \<Rightarrow> string list result" where
  "graphQLIssueLabels connection =
     (case connection of
        Some (Some nodes, Some (Some further, _)) \<Rightarrow>
          if further \<or> length nodes > 100 then providerResponse None ''issue labels pagination''
          else bindE (relabel (labelNames (Some nodes)) ''issue.labels'') (\<lambda>names.
            if \<not> isOK (gh_labels names) then providerResponse None ''issue.labels'' else Inr names)
      | _ \<Rightarrow> providerResponse None ''issue.labels'')"

definition graphQLIssueRecord :: "graphql_issue \<Rightarrow> gh_issue_record result" where
  "graphQLIssueRecord v =
     bindE (relabel (requiredField (giqNumber v) ''issue.number'') ''issue.number'') (\<lambda>n.
     if \<not> isOK (gh_number n) then providerResponse None ''issue.number''
     else
     bindE (graphQLIssueText (giqTitle v) ''issue.title'' (Some gh_title)) (\<lambda>title.
     bindE (graphQLIssueText (giqBody v) ''issue.body'' (Some (\<lambda>t. gh_body t False))) (\<lambda>body.
     bindE (relabel (requiredField (giqState v) ''issue.state'') ''issue.state'') (\<lambda>state.
     if state \<noteq> ''OPEN'' \<and> state \<noteq> ''CLOSED'' then providerResponse None ''issue.state''
     else
     bindE (graphQLIssueAuthor (giqAuthor v)) (\<lambda>author.
     bindE (graphQLIssueLabels (giqLabels v)) (\<lambda>labels.
     bindE (graphQLIssueText (giqCreatedAt v) ''issue.createdAt'' None) (\<lambda>created.
     bindE (graphQLIssueText (giqUpdatedAt v) ''issue.updatedAt'' None) (\<lambda>updated.
     bindE (graphQLIssueText (giqURL v) ''issue.url'' None) (\<lambda>link.
     Inr \<lparr>irNumber = n, irTitle = title, irBody = Some body, irState = toLower state, irAuthor = author, irAssignees = [],
          irLabels = labels, irUrl = link, irCreatedAt = created, irUpdatedAt = updated, irComments = []\<rparr>)))))))))"

record issue_page =
  ipRecords :: "gh_issue_record list"
  ipHasNext :: bool
  ipEndCursor :: "string option"

definition normalizeIssueGraphQLPage :: "json_reader \<Rightarrow> string \<Rightarrow> int \<Rightarrow> issue_page result" where
  "normalizeIssueGraphQLPage reader raw first =
     bindE (gh_decode reader intoGraphQLResponse (None, []) raw) (\<lambda>(response, errs).
       if errs \<noteq> [] then providerResponse None ''GraphQL errors''
       else case response of
         Some (Some (Some (nodes, info))) \<Rightarrow>
           (case (nodes, info) of
              (Some vs, Some (Some further, cursor)) \<Rightarrow>
                if int (length vs) > first then providerResponse None ''issues page size''
                else bindE (collectAll graphQLIssueRecord vs) (\<lambda>rs.
                  Inr \<lparr>ipRecords = rs, ipHasNext = further, ipEndCursor = cursor\<rparr>)
            | _ \<Rightarrow> providerResponse None ''issues page'')
       | _ \<Rightarrow> providerResponse None ''issues data'')"

text \<open>A page that is one array, of at most so many elements.\<close>

definition normalizeLabelPage :: "json_reader \<Rightarrow> string \<Rightarrow> int \<Rightarrow> string list result" where
  "normalizeLabelPage reader raw maximum =
     bindE (gh_decode reader (intoSlicePointer None intoLabel) None raw) (\<lambda>vs.
       case vs of
         None \<Rightarrow> providerResponse None ''labels''
       | Some ls \<Rightarrow> if int (length ls) > maximum then fail ErrOutputLimit else collectAll gh_labelRecord ls)"

definition normalizeIssueCommentPage :: "json_reader \<Rightarrow> string \<Rightarrow> int \<Rightarrow> gh_comment_record list result" where
  "normalizeIssueCommentPage reader raw maximum =
     bindE (gh_decode reader (intoSlicePointer zeroComment intoComment) None raw) (\<lambda>vs.
       case vs of
         None \<Rightarrow> providerResponse None ''comments''
       | Some cs \<Rightarrow> if int (length cs) > maximum then providerResponse None ''comments page size'' else collectAll gh_commentRecord cs)"

definition rejectPullIssue :: "json_reader \<Rightarrow> string \<Rightarrow> unit result" where
  "rejectPullIssue reader raw =
     bindE (gh_decode reader (intoStruct [(''pull_request'', intoRaw)]) None raw) (\<lambda>v.
       if v \<noteq> None then providerResponse None ''issue'' else Inr ())"

definition normalizeIssueViewRecord :: "json_reader \<Rightarrow> string \<Rightarrow> gh_issue_record result" where
  "normalizeIssueViewRecord reader raw =
     bindE (rejectPullIssue reader raw) (\<lambda>_.
     bindE (gh_decode reader intoIssue zeroIssue raw) (\<lambda>v. gh_issueRecord v True))"

end
