(* ===== verification/GitHub_Command_Correct.thy ===== *)
theory GitHub_Command_Correct
  imports GitHub_Command
begin

text \<open>
  What the commands of the GitHub provider can reach, the budget they share, and the labels an issue
  has after a change.
\<close>

section \<open>Endpoints\<close>

definition pathChar :: "char \<Rightarrow> bool" where
  "pathChar c = (isAlnum c \<or> c = CHR ''/'' \<or> c = CHR ''-'')"

text \<open>
  An endpoint below the repository: more path segments of letters, digits and dashes, so none that
  is \<^verbatim>\<open>..\<close>, and a query whose delimiters are its own.
\<close>

definition confined :: "resolved \<Rightarrow> string \<Rightarrow> bool" where
  "confined repo endpoint \<longleftrightarrow>
     (\<exists>path query. endpoint = repoPath repo @ path @ query
        \<and> (path = [] \<or> hd path = CHR ''/'') \<and> list_all pathChar path
        \<and> (query = [] \<or> hd query = CHR ''?'' \<and> list_all queryChar (tl query)))"

lemma pathChar_simps [simp]: "pathChar CHR ''/''" "pathChar CHR ''-''" "isAlnum c \<Longrightarrow> pathChar c"
  by (auto simp: pathChar_def)

lemma decimal_path [simp]: "list_all pathChar (decimal n)"
  using itoa_digits [of "uint n"]
  by (auto simp: decimal_def pathChar_def isAlnum_def list_all_iff)

lemma objectID_path: "gh_objectID v = Inr () \<Longrightarrow> list_all pathChar v"
proof -
  assume "gh_objectID v = Inr ()"
  then have "allRunes hexRune v"
    by (auto simp: gh_objectID_def gh_invalid_def split: if_splits)
  then have "\<forall>c \<in> set v. hexRune (code c)"
    by (subst (asm) allRunes_bytes) (auto simp: hexRune_def)
  then show ?thesis
    by (auto simp: list_all_iff pathChar_def hexRune_def char_class_defs)
qed

lemma confined_path:
  "path = [] \<or> hd path = CHR ''/'' \<Longrightarrow> list_all pathChar path \<Longrightarrow> confined repo (repoPath repo @ path)"
  unfolding confined_def by (rule exI [of _ path], rule exI [of _ "[]"]) simp

lemma confined_query:
  "hd path = CHR ''/'' \<Longrightarrow> list_all pathChar path \<Longrightarrow> list_all queryChar q \<Longrightarrow>
     confined repo (repoPath repo @ path @ CHR ''?'' # q)"
  unfolding confined_def by (rule exI [of _ path], rule exI [of _ "CHR ''?'' # q"]) simp

lemma alnum_literals [simp]:
  "list_all pathChar ''/issues''" "list_all pathChar ''/issues/''" "list_all pathChar ''/labels''"
  "list_all pathChar ''/pulls''" "list_all pathChar ''/pulls/''" "list_all pathChar ''/comments''"
  "list_all pathChar ''/actions/runs''" "list_all pathChar ''/actions/runs/''"
  "list_all pathChar ''/commits/''" "list_all pathChar ''/status''"
  by code_simp+

lemma confined_endpoints:
  "confined repo (repoPath repo)"
  "confined repo (repoPath repo @ ''/issues'')" "confined repo (repoPath repo @ ''/labels'')"
  "confined repo (repoPath repo @ ''/pulls'')"
  "confined repo (repoPath repo @ ''/issues/'' @ decimal n)"
  "confined repo (repoPath repo @ ''/issues/'' @ decimal n @ ''/comments'')"
  "confined repo (repoPath repo @ ''/pulls/'' @ decimal n)"
  "confined repo (repoPath repo @ ''/actions/runs/'' @ decimal n)"
  "list_all pathChar v \<Longrightarrow> confined repo (repoPath repo @ ''/commits/'' @ v @ ''/status'')"
  "confined repo (repoPath repo @ ''/pulls?'' @ queryEncode vals)"
  "confined repo (repoPath repo @ ''/actions/runs?'' @ queryEncode vals)"
  "confined repo (repoPath repo @ ''/labels?'' @ queryEncode vals)"
  "confined repo (repoPath repo @ ''/issues/'' @ decimal n @ ''/comments?'' @ queryEncode vals)"
  using confined_path [of "[]" repo] confined_path [of "''/issues''" repo] confined_path [of "''/labels''" repo]
    confined_path [of "''/pulls''" repo] confined_path [of "''/issues/'' @ decimal n" repo]
    confined_path [of "''/issues/'' @ decimal n @ ''/comments''" repo]
    confined_path [of "''/pulls/'' @ decimal n" repo] confined_path [of "''/actions/runs/'' @ decimal n" repo]
    confined_path [of "''/commits/'' @ v @ ''/status''" repo]
    confined_query [of "''/pulls''" "queryEncode vals" repo]
    confined_query [of "''/actions/runs''" "queryEncode vals" repo]
    confined_query [of "''/labels''" "queryEncode vals" repo]
    confined_query [of "''/issues/'' @ decimal n @ ''/comments''" "queryEncode vals" repo]
  by (simp_all add: queryEncode_chars del: alnum_literals)
    (use alnum_literals in \<open>simp_all add: queryEncode_chars\<close>)

lemmas confined_simps = confined_endpoints [simplified]


section \<open>Planned calls\<close>

fun multiCall :: "github_operation \<Rightarrow> bool" where
  "multiCall (GhLabelList _) = True"
| "multiCall (GhIssueList _) = True"
| "multiCall (GhIssueView _) = True"
| "multiCall (GhIssueLabelChange _) = True"
| "multiCall (GhPullChecks _) = True"
| "multiCall (GhPullReady _) = True"
| "multiCall _ = False"

definition readCapability :: "capability \<Rightarrow> bool" where
  "readCapability cap = (cap \<in> {RepositoryRead, IssuesRead, PullRequestsRead, StatusesRead, ActionsRead})"

lemma readCapability_simps [simp]:
  "readCapability RepositoryRead" "readCapability IssuesRead" "readCapability PullRequestsRead"
  "readCapability StatusesRead" "readCapability ActionsRead"
  "\<not> readCapability IssuesWrite" "\<not> readCapability PullRequestsWrite"
  by code_simp+

text \<open>A call as it should be: within the repository, and changing nothing unless the capability is to write.\<close>

definition properCall :: "resolved \<Rightarrow> github_operation \<Rightarrow> api_call \<Rightarrow> bool" where
  "properCall repo op call \<longleftrightarrow>
     (case call of (meth, endpoint, _, inp) \<Rightarrow>
        (confined repo endpoint \<or> endpoint = ''/user'' \<and> (\<exists>u. op = GhCurrentUser u))
        \<and> (\<exists>cap. operationCapability op = Inr cap
             \<and> (if readCapability cap then meth = ''GET'' \<and> inp = None
                else (meth = ''POST'' \<or> meth = ''PATCH'') \<and> inp \<noteq> None)))"

lemma gh_invalid_neq [simp]: "gh_invalid f \<noteq> Inr x"
  by (simp add: gh_invalid_def)

lemma gh_number_None [simp]: "gh_number (getNumber None) = gh_invalid ''number''"
  by (simp add: gh_number_def getNumber_def)

lemma planCall_proper:
  assumes "validateOperation op = Inr ()" and "\<not> multiCall op"
  shows "\<exists>call. planCall (repoPath repo) op = Inr call \<and> properCall repo op call"
proof (cases op)
  case (GhStatusView v)
  then obtain s where "v = Some s"
    using assms(1) by (cases v) (auto simp: gh_objectID_def)
  moreover from this have "list_all pathChar s"
    using GhStatusView assms(1) objectID_path by simp
  ultimately show ?thesis
    using GhStatusView confined_endpoints(9) [of s repo]
    by (auto simp: forMessage_def properCall_def)
next
  case (GhIssueComment v)
  then obtain s where "v = Some s"
    using assms(1) by (cases v) (auto simp: validateComment'_def validateComment_def getComment_def gh_number_def result_simps)
  with GhIssueComment show ?thesis
    by (auto simp: forMessage_def properCall_def confined_simps)
next
  case (GhPullComment v)
  then obtain s where "v = Some s"
    using assms(1) by (cases v) (auto simp: validateComment'_def validateComment_def getComment_def gh_number_def result_simps)
  with GhPullComment show ?thesis
    by (auto simp: forMessage_def properCall_def confined_simps)
qed (use assms in \<open>auto simp: forMessage_def properCall_def confined_simps stateBody_def
        validateLabelCreate_def validateIssueCreate_def validateIssueEdit_def validatePullList_def
        validatePullCreate_def validatePullEdit_def validateRunList_def split: option.splits\<close>)

text \<open>
  A GitHub request acts on the resolved repository only, and changes nothing without a write
  capability: for every valid request that is served by one call, the adapter issues exactly one
  \<^verbatim>\<open>gh api\<close> command, with fixed options and a single endpoint as last argument; that endpoint is
  below the configured repository (whatever strings the request holds), or is \<^verbatim>\<open>/user\<close> for the
  current user; the method is GET without input if the capability the request needs is a reading
  one, and POST or PATCH with the JSON input on standard input otherwise.
\<close>

theorem plan_confined:
  assumes "ValidateGitHubRequest (Some request) = Inr ()" and "\<not> multiCall (ghOperation request)"
  shows "\<exists>command normalizer meth inp endpoint cap.
      plan ad repo request = Inr (command, normalizer)
    \<and> Args command = apiHeader (APIHost (resProvider repo)) meth @ inp @ [endpoint]
    \<and> (confined repo endpoint \<or> endpoint = ''/user'' \<and> (\<exists>u. ghOperation request = GhCurrentUser u))
    \<and> github_Capability (Some request) = Inr cap
    \<and> (if readCapability cap then meth = ''GET'' \<and> inp = [] \<and> cmdStdin command = []
       else (meth = ''POST'' \<or> meth = ''PATCH'') \<and> inp = [''--input'', ''-''])"
proof -
  obtain meth endpoint normalizer inp where
    call: "planCall (repoPath repo) (ghOperation request) = Inr (meth, endpoint, normalizer, inp)"
    and proper: "properCall repo (ghOperation request) (meth, endpoint, normalizer, inp)"
    using planCall_proper [of "ghOperation request" repo] assms
    by (auto simp: ValidateGitHubRequest_def)
  obtain cap where "operationCapability (ghOperation request) = Inr cap"
    "if readCapability cap then meth = ''GET'' \<and> inp = None else (meth = ''POST'' \<or> meth = ''PATCH'') \<and> inp \<noteq> None"
    using proper unfolding properCall_def by auto
  moreover from this(1) have "github_Capability (Some request) = Inr cap"
    by (simp add: github_Capability_def)
  moreover have "plan ad repo request =
      Inr (apiCommand ad (APIHost (resProvider repo)) meth endpoint inp (outputLimit normalizer), normalizer)"
    using call by (simp add: plan_def)
  moreover have "confined repo endpoint \<or> endpoint = ''/user'' \<and> (\<exists>u. ghOperation request = GhCurrentUser u)"
    using proper by (simp add: properCall_def)
  ultimately show ?thesis
    by (cases inp; cases "readCapability cap") (fastforce simp: apiCommand_def gh_command_def)+
qed

definition exampleAdapter :: github_adapter where
  "exampleAdapter = \<lparr>adPath = ''/usr/bin/gh'', adEnvironment = [], adTimeout = 1\<rparr>"

definition exampleGitHubRequest :: github_request where
  "exampleGitHubRequest = \<lparr>ghContext = None, ghOperation = GhPullList (Some
     \<lparr>plState = 1, plBase = Some ''../../other'', plHead = Some ''a&b=c'', plLimit = 5\<rparr>)\<rparr>"

theorem plan_confined_witness:
  "\<exists>command normalizer. plan exampleAdapter (lookupRepository exampleSnapshot ''alpha'') exampleGitHubRequest =
     Inr (command, normalizer)"
proof -
  have "ValidateGitHubRequest (Some exampleGitHubRequest) = Inr ()" "\<not> multiCall (ghOperation exampleGitHubRequest)"
    by code_simp+
  from plan_confined [OF this, of exampleAdapter "lookupRepository exampleSnapshot ''alpha''"] show ?thesis
    by blast
qed


section \<open>The shared budget\<close>

definition budgetOK :: "aggregate_budget \<times> int \<Rightarrow> bool" where
  "budgetOK s = (case s of (b, tot) \<Rightarrow> 0 \<le> tot \<and> tot = abUsed b \<and> abUsed b \<le> abLimit b)"

text \<open>One budgeted call, with the bytes it has let through so far.\<close>

definition budgetStep ::
  "aggregate_budget \<times> int \<Rightarrow> go_error option \<times> gh_caller \<times> runner_command \<Rightarrow> aggregate_budget \<times> int" where
  "budgetStep s x =
     (case (s, x) of ((b, tot), (ctxErr, caller, command)) \<Rightarrow>
        case callBudgeted ctxErr caller command b of
          (Inl _, b') \<Rightarrow> (b', tot)
        | (Inr res, b') \<Rightarrow> (b', tot + int (length (Stdout res))))"

interpretation read_budget: byte_budget budgetStep snd "\<lambda>s. abLimit (fst s)" budgetOK
proof
  fix s x
  assume ok: "budgetOK s"
  show "budgetOK (budgetStep s x)" "abLimit (fst (budgetStep s x)) = abLimit (fst s)"
    using ok by (auto simp: budgetStep_def budgetOK_def callBudgeted_def budget_remaining_def budget_consume_def
        fail_def split: prod.splits option.splits sum.splits if_splits)
  show "snd s \<le> abLimit (fst s)"
    using ok by (auto simp: budgetOK_def split: prod.splits)
qed

text \<open>
  Paginated reads are bounded as a whole: however many budgeted calls an operation makes and
  whatever the GitHub CLI prints, the output of all calls that succeed is together within the
  budget, and no call is allowed more output than is left of it.
\<close>

theorem budgeted_reads_bounded:
  assumes "0 \<le> lim"
  shows "snd (foldl budgetStep (\<lparr>abLimit = lim, abUsed = 0\<rparr>, 0) calls) \<le> lim
    \<and> (callBudgeted ctxErr caller command b = (Inr res, b') \<longrightarrow>
         int (length (Stdout res)) \<le> abLimit b - abUsed b
         \<and> int (length (Stdout res)) \<le> StdoutLimit command
         \<and> abUsed b' = abUsed b + int (length (Stdout res)) \<and> abLimit b' = abLimit b)"
proof -
  have "budgetOK (\<lparr>abLimit = lim, abUsed = 0\<rparr>, 0)"
    using assms by (simp add: budgetOK_def)
  from read_budget.bounded [OF this, of calls] show ?thesis
    by (auto simp: callBudgeted_def gh_call_def budget_remaining_def budget_consume_def fail_def
        split: option.splits sum.splits prod.splits if_splits)
qed

theorem budgeted_reads_bounded_witness:
  "snd (foldl budgetStep (\<lparr>abLimit = 5, abUsed = 0\<rparr>, 0) (replicate 3 (None,
     \<lambda>c. (\<lparr>Stdout = ''abc'', resExitCode = 0, TimedOut = False, StdinBytes = 0, StdoutBytes = 3, StderrBytes = 0\<rparr>, None),
     readyCommand exampleAdapter (lookupRepository exampleSnapshot ''alpha'') 7))) \<le> 5"
  using budgeted_reads_bounded [of 5] by simp


section \<open>Changed labels\<close>

lemma addCurrentLabel_fold:
  "foldE addCurrentLabel seen ls = Inr seen' \<Longrightarrow> distinct ls \<and> set ls \<inter> seen = {} \<and> seen' = seen \<union> set ls"
  by (induct ls arbitrary: seen) (auto simp: addCurrentLabel_def providerResponse_def result_simps split: if_splits)

lemma addCurrentLabel_total:
  "distinct ls \<Longrightarrow> set ls \<inter> seen = {} \<Longrightarrow> foldE addCurrentLabel seen ls = Inr (seen \<union> set ls)"
  by (induct ls arbitrary: seen) (auto simp: addCurrentLabel_def)

lemma distinctLabels_Inr:
  "distinctLabels vs seen = Inr seen' \<Longrightarrow> distinct vs \<and> set vs \<inter> seen = {} \<and> seen' = seen \<union> set vs"
  unfolding distinctLabels_def
  by (induct vs arbitrary: seen) (auto simp: addDistinctLabel_def result_simps split: if_splits)

lemma appendNew_eq:
  "distinct add \<Longrightarrow> appendNew seen changed add = changed @ filter (\<lambda>l. l \<notin> seen) add"
proof (induct add arbitrary: seen changed)
  case (Cons l add)
  then have "filter (\<lambda>x. x \<noteq> l \<and> x \<notin> seen) add = filter (\<lambda>x. x \<notin> seen) add"
    by (auto intro!: filter_cong)
  with Cons show ?case by auto
qed simp

lemma validLabelChange_distinct:
  assumes "validateIssueLabelChange (Some v) = Inr ()"
  shows "distinct (AddLabels v) \<and> distinct (RemoveLabels v) \<and> set (AddLabels v) \<inter> set (RemoveLabels v) = {}"
  using assms
  by (auto simp: validateIssueLabelChange_def result_simps split: if_splits dest!: distinctLabels_Inr)

text \<open>
  A label change is exactly the requested one: for a valid request and the labels the issue has,
  the new labels are the current ones without the removed ones, in their order, followed by the
  added ones that were not there; none is repeated; and the change fails exactly if the provider
  reports a label twice or the result has more than 100 labels.
\<close>

theorem changedLabels_spec:
  assumes "validateIssueLabelChange (Some v) = Inr ()"
  shows "(\<forall>changed. changedLabels current (AddLabels v) (RemoveLabels v) = Inr changed \<longrightarrow>
        set changed = (set current - set (RemoveLabels v)) \<union> set (AddLabels v) \<and> distinct changed
        \<and> changed = filter (\<lambda>l. l \<notin> set (RemoveLabels v)) current @ filter (\<lambda>l. l \<notin> set current) (AddLabels v))
    \<and> (isOK (changedLabels current (AddLabels v) (RemoveLabels v)) \<longleftrightarrow>
        distinct current
        \<and> card ((set current - set (RemoveLabels v)) \<union> set (AddLabels v)) \<le> 100)"
proof -
  note d = validLabelChange_distinct [OF assms]
  let ?changed = "filter (\<lambda>l. l \<notin> set (RemoveLabels v)) current @ filter (\<lambda>l. l \<notin> set current) (AddLabels v)"
  have eq: "changedLabels current (AddLabels v) (RemoveLabels v) =
      (if length ?changed > 100 then providerResponse None ''issue label limit'' else Inr ?changed)" if "distinct current"
    using that d by (simp add: changedLabels_def addCurrentLabel_total appendNew_eq Let_def)
  have no: "\<not> isOK (changedLabels current (AddLabels v) (RemoveLabels v))" if "\<not> distinct current"
    using that by (cases "foldE addCurrentLabel {} current")
      (auto simp: changedLabels_def dest!: addCurrentLabel_fold)
  have set: "set ?changed = (set current - set (RemoveLabels v)) \<union> set (AddLabels v)"
    using d by auto
  have dist: "distinct current \<Longrightarrow> distinct ?changed"
    using d by auto
  then have len: "distinct current \<Longrightarrow> length ?changed = card ((set current - set (RemoveLabels v)) \<union> set (AddLabels v))"
    using set distinct_card by metis
  show ?thesis
  proof (cases "distinct current")
    case True
    then show ?thesis
      using eq [OF True] set dist len by (auto simp: providerResponse_def)
  next
    case False
    then show ?thesis using no by (auto simp: isOK_iff)
  qed
qed

theorem changedLabels_spec_witness:
  "changedLabels [''bug'', ''old''] [''new'', ''bug''] [''old''] = Inr [''bug'', ''new'']
   \<and> set [''bug'', ''new''] = set [''bug'', ''old''] - set [''old''] \<union> set [''new'', ''bug'']"
proof -
  let ?v = "\<lparr>lhNumber = 3, AddLabels = [''new'', ''bug''], RemoveLabels = [''old'']\<rparr>"
  have v: "validateIssueLabelChange (Some ?v) = Inr ()"
    by code_simp
  have "changedLabels [''bug'', ''old''] (AddLabels ?v) (RemoveLabels ?v) = Inr [''bug'', ''new'']"
    by code_simp
  with changedLabels_spec [OF v, of "[''bug'', ''old'']"] show ?thesis
    by simp
qed

end
