(* ===== verification/GitHub_Execute.thy ===== *)
theory GitHub_Execute
  imports GitHub_Normalize GitHub_Command_Correct Go_Strings
begin

text \<open>
  Package \<^verbatim>\<open>internal/provider/github\<close>, the adapter that carries out a request: \<^verbatim>\<open>adapter.go\<close>,
  \<^verbatim>\<open>adapter_special.go\<close>, \<^verbatim>\<open>issue_list.go\<close>, \<^verbatim>\<open>label_list.go\<close>, \<^verbatim>\<open>issue_comments.go\<close>, \<^verbatim>\<open>issue_labels.go\<close>
  and \<^verbatim>\<open>checks.go\<close>.

  A call of the GitHub CLI and the error of the context are functions on a world that the model does not
  inspect, so that a call may answer differently each time and the context may end at any moment. The log
  of the commands that were run, with their answers, is part of the state. The loops over pages recurse over the number of
  pages that are left, which is the bound that the code has for them.
\<close>

section \<open>Calls\<close>

text \<open>
  Parameters: what \<^verbatim>\<open>http.ReadResponse\<close> and \<^verbatim>\<open>io.ReadAll\<close> read of the text that \<^verbatim>\<open>gh api --include\<close> prints, with
  whether bytes follow the response, \<^verbatim>\<open>url.ParseQuery\<close>, and \<^verbatim>\<open>proto.Size\<close>.
\<close>

record http_page =
  hpStatus :: int
  hpLinks :: "string list"
  hpBody :: "string result"
  hpTrailing :: bool

record 'w gh_env =
  geCall :: "runner_command \<Rightarrow> 'w \<Rightarrow> (runner_result \<times> go_error option) \<times> 'w"
  geCtxErr :: "'w \<Rightarrow> go_error option \<times> 'w"
  geJson :: json_reader
  geLink :: link_lib
  geQuery :: "string \<Rightarrow> string list gomap result"
  geHttp :: "string \<Rightarrow> http_page result"
  geSize :: "github_response \<Rightarrow> int"

record 'w gh_state =
  ghWorld :: 'w
  ghCalls :: "(runner_command \<times> runner_result result) list"

type_synonym ('w, 'a) gh_m = "'w gh_state \<Rightarrow> 'a result \<times> 'w gh_state"

definition bindH :: "('w, 'a) gh_m \<Rightarrow> ('a \<Rightarrow> ('w, 'b) gh_m) \<Rightarrow> ('w, 'b) gh_m" where
  "bindH m f s = (case m s of (r, s') \<Rightarrow> case r of Inl e \<Rightarrow> (Inl e, s') | Inr a \<Rightarrow> f a s')"

definition liftH :: "'a result \<Rightarrow> ('w, 'a) gh_m" where
  "liftH r s = (r, s)"

definition callH :: "'w gh_env \<Rightarrow> runner_command \<Rightarrow> ('w, runner_result) gh_m" where
  "callH env command s =
     (let res = gh_call (\<lambda>c. fst (geCall env c (ghWorld s))) command in
      (res, \<lparr>ghWorld = snd (geCall env command (ghWorld s)), ghCalls = ghCalls s @ [(command, res)]\<rparr>))"

definition ctxH :: "'w gh_env \<Rightarrow> ('w, unit) gh_m" where
  "ctxH env s = (case geCtxErr env (ghWorld s) of (err, w) \<Rightarrow>
     (case err of None \<Rightarrow> Inr () | Some e \<Rightarrow> Inl e, s\<lparr>ghWorld := w\<rparr>))"

definition callBudgetedH ::
  "'w gh_env \<Rightarrow> runner_command \<Rightarrow> aggregate_budget \<Rightarrow> ('w, string \<times> aggregate_budget) gh_m" where
  "callBudgetedH env command b =
     bindH (ctxH env) (\<lambda>_.
     bindH (liftH (budget_remaining (Some b))) (\<lambda>remaining.
     bindH (callH env (command\<lparr>StdoutLimit := min (StdoutLimit command) remaining\<rparr>)) (\<lambda>res.
     bindH (liftH (budget_consume (Some b) (Stdout res))) (\<lambda>b'.
     liftH (Inr (Stdout res, b'))))))"

definition maximumResponseBytes :: int where "maximumResponseBytes = miB"

definition boundedBy :: "'w gh_env \<Rightarrow> int \<Rightarrow> github_response \<Rightarrow> github_response result" where
  "boundedBy env maximum response = (if geSize env response > maximum then fail ErrOutputLimit else Inr response)"

text \<open>A message that is read through its pointer.\<close>

definition withMessage :: "'a option \<Rightarrow> ('a \<Rightarrow> ('w, 'b) gh_m) \<Rightarrow> ('w, 'b) gh_m" where
  "withMessage v f = (case v of None \<Rightarrow> liftH nilDereference | Some x \<Rightarrow> f x)"


section \<open>Issue list\<close>

definition maximumIssueListPages :: nat where "maximumIssueListPages = 11"

text \<open>The check of the end cursor against the ones before, and the cursor of the next page.\<close>

definition nextCursor :: "issue_page \<Rightarrow> string list \<Rightarrow> string option result" where
  "nextCursor page seen =
     (if (case ipEndCursor page of None \<Rightarrow> False | Some c \<Rightarrow> c \<in> set seen) then providerResponse None ''issues cursor''
      else if \<not> ipHasNext page then Inr None
      else case ipEndCursor page of
        None \<Rightarrow> providerResponse None ''issues pagination''
      | Some c \<Rightarrow> if ipRecords page = [] \<or> c = [] then providerResponse None ''issues pagination'' else Inr (Some c))"

fun issuePages ::
  "'w gh_env \<Rightarrow> github_adapter \<Rightarrow> resolved \<Rightarrow> gh_issue_list \<Rightarrow> nat \<Rightarrow> aggregate_budget \<Rightarrow> string option \<Rightarrow> string list
    \<Rightarrow> gh_issue_record list \<Rightarrow> ('w, gh_issue_record list) gh_m" where
  "issuePages env ad repo r 0 b cursor seen records =
     liftH (if int (length records) < uint (ilLimit r) then fail ErrOutputLimit else Inr records)"
| "issuePages env ad repo r (Suc k) b cursor seen records =
     (if int (length records) \<ge> uint (ilLimit r) then liftH (Inr records)
      else
        let first = min 100 (uint (ilLimit r) - int (length records)) in
        bindH (callBudgetedH env (issueGraphQLCommand ad repo (ilState r) cursor first) b) (\<lambda>(raw, b').
        bindH (liftH (normalizeIssueGraphQLPage (geJson env) raw first)) (\<lambda>page.
        bindH (liftH (nextCursor page seen)) (\<lambda>next.
        let records' = records @ ipRecords page in
        case next of
          None \<Rightarrow> liftH (Inr records')
        | Some c \<Rightarrow> issuePages env ad repo r k b' (Some c) (seen @ [c]) records'))))"

definition executeIssueList ::
  "'w gh_env \<Rightarrow> github_adapter \<Rightarrow> resolved \<Rightarrow> gh_issue_list option \<Rightarrow> ('w, github_response) gh_m" where
  "executeIssueList env ad repo v = withMessage v (\<lambda>r.
     bindH (issuePages env ad repo r maximumIssueListPages \<lparr>abLimit = maximumPaginatedReadBytes, abUsed = 0\<rparr> None [] [])
       (\<lambda>records. liftH (boundedBy env maximumPaginatedReadBytes (GrIssueList records))))"


section \<open>Label list\<close>

definition labelListPageSize :: int where "labelListPageSize = 100"
definition maximumLabelListPages :: nat where "maximumLabelListPages = 10"

text \<open>\<^verbatim>\<open>strconv.Atoi\<close>: an optional sign and digits, in the range of 64 bits.\<close>

definition strconv_Atoi :: "string \<Rightarrow> int option" where
  "strconv_Atoi s =
     (let body = (if hasPrefix s ''-'' \<or> hasPrefix s ''+'' then tl s else s);
          n = (if hasPrefix s ''-'' then - decimalValue body else decimalValue body) in
      if body \<noteq> [] \<and> list_all isDigit body \<and> - (2 ^ 63) \<le> n \<and> n < 2 ^ 63 then Some n else None)"

record expected_link_target =
  ltHost :: string
  ltPath :: string
  ltPerPage :: int

definition validLabelLinkPath :: "string \<Rightarrow> string \<Rightarrow> bool" where
  "validLabelLinkPath path repositoryPath =
     (path = repositoryPath
      \<or> (case split CHR ''/'' path of
           [a, b, c, d] \<Rightarrow>
             a = [] \<and> b = ''repositories'' \<and> d = ''labels''
             \<and> (case parseUint 64 c of None \<Rightarrow> False | Some n \<Rightarrow> n > 0 \<and> itoa n = c)
         | _ \<Rightarrow> False))"

definition validExpectedLinkTarget :: "link_lib \<Rightarrow> link_url \<Rightarrow> string list gomap \<Rightarrow> expected_link_target \<Rightarrow> bool" where
  "validExpectedLinkTarget lib parsed query expected =
     (let public = hostFold lib (ltHost expected) ''github.com'';
          host = (if public then ''api.github.com'' else ltHost expected);
          path = (if public then luEscapedPath parsed else trimPrefix (luEscapedPath parsed) ''/api/v3'') in
      hostFold lib (luHost parsed) host \<and> validLabelLinkPath path (ltPath expected) \<and> length query = 2
      \<and> (case map_of query ''per_page'' of Some [v] \<Rightarrow> strconv_Atoi v = Some (ltPerPage expected) | _ \<Rightarrow> False))"

definition decodePageLink :: "'w gh_env \<Rightarrow> string \<Rightarrow> expected_link_target option \<Rightarrow> (int \<times> string) result" where
  "decodePageLink env raw expected =
     (let target = takeWhile (\<lambda>c. c \<noteq> CHR ''>'') raw; rest = drop (length target) raw in
      if \<not> hasPrefix raw ''<'' \<or> rest = [] \<or> length target < 2 then providerResponse None ''Link target''
      else case linkParse (geLink env) (tl target) of
        None \<Rightarrow> providerResponse (Some (Errorf ''parse'' [])) ''Link target''
      | Some parsed \<Rightarrow>
          if luScheme parsed \<noteq> ''https'' \<or> luHost parsed = [] \<or> luHasUser parsed \<or> luFragment parsed \<noteq> []
          then providerResponse None ''Link target''
          else
            let parameters = trimSpace (tl rest); prefix = ''; rel='' @ [CHR 0x22] in
            if \<not> hasPrefix parameters prefix \<or> \<not> hasSuffix parameters [CHR 0x22] then providerResponse None ''Link relation''
            else
              let relation = trimSuffix (trimPrefix parameters prefix) [CHR 0x22] in
              if relation \<notin> {''next'', ''prev'', ''first'', ''last''} then providerResponse None ''Link relation''
              else case geQuery env (luRawQuery parsed) of
                Inl e \<Rightarrow> providerResponse (Some e) ''Link query''
              | Inr query \<Rightarrow>
                  (case map_of query ''page'' of
                     Some [v] \<Rightarrow>
                       (case strconv_Atoi v of
                          None \<Rightarrow> providerResponse (Some (Errorf ''invalid syntax'' [])) ''Link page''
                        | Some page \<Rightarrow>
                            if page < 1 then providerResponse None ''Link page''
                            else if (case expected of None \<Rightarrow> False | Some x \<Rightarrow> \<not> validExpectedLinkTarget (geLink env) parsed query x)
                            then providerResponse None ''Link target''
                            else Inr (page, relation))
                   | _ \<Rightarrow> providerResponse None ''Link page''))"

definition validatePageRelations :: "int gomap \<Rightarrow> int \<Rightarrow> unit result" where
  "validatePageRelations relations expectedPage =
     (let holds = (\<lambda>key p. case map_of relations key of None \<Rightarrow> True | Some n \<Rightarrow> p n);
          hasNext = (map_of relations ''next'' \<noteq> None) in
      if \<not> holds ''next'' (\<lambda>n. n = expectedPage + 1) then providerResponse None ''next Link page''
      else if \<not> holds ''prev'' (\<lambda>n. expectedPage \<noteq> 1 \<and> n = expectedPage - 1) then providerResponse None ''previous Link page''
      else if \<not> holds ''first'' (\<lambda>n. n = 1) then providerResponse None ''first Link page''
      else if \<not> holds ''last'' (\<lambda>n. if hasNext then n > expectedPage else n = expectedPage)
      then providerResponse None ''last Link page'' else Inr ())"

definition addRelation ::
  "'w gh_env \<Rightarrow> expected_link_target option \<Rightarrow> int gomap \<Rightarrow> string \<Rightarrow> int gomap result" where
  "addRelation env target relations rawLink =
     bindE (decodePageLink env (trimSpace rawLink) target) (\<lambda>(page, relation).
       if map_of relations relation \<noteq> None then providerResponse None ''Link relation''
       else Inr (mapSet relation page relations))"

definition decodeLinkHeader :: "'w gh_env \<Rightarrow> string \<Rightarrow> int \<Rightarrow> expected_link_target option \<Rightarrow> bool result" where
  "decodeLinkHeader env raw expectedPage target =
     (if trimSpace raw = [] then providerResponse None ''Link header''
      else
        bindE (foldE (addRelation env target) [] (split CHR '','' raw)) (\<lambda>relations.
        bindE (validatePageRelations relations expectedPage) (\<lambda>_.
        Inr (map_of relations ''next'' \<noteq> None))))"

text \<open>The body of the page and whether another one follows.\<close>

definition decodeIncludedPageForTarget ::
  "'w gh_env \<Rightarrow> string \<Rightarrow> int \<Rightarrow> expected_link_target option \<Rightarrow> (string \<times> bool) result" where
  "decodeIncludedPageForTarget env raw expectedPage target =
     (case geHttp env raw of
        Inl e \<Rightarrow> providerResponse (Some e) ''HTTP response''
      | Inr p \<Rightarrow>
          if hpStatus p < 200 \<or> hpStatus p \<ge> 300 then providerResponse None ''successful HTTP status''
          else if length (hpLinks p) > 1 then providerResponse None ''Link header''
          else
            bindE (if length (hpLinks p) = 1 then decodeLinkHeader env (hd (hpLinks p)) expectedPage target else Inr False) (\<lambda>hasNext.
            case hpBody p of
              Inl e \<Rightarrow> providerResponse (Some e) ''HTTP body''
            | Inr body \<Rightarrow> if hpTrailing p then providerResponse None ''trailing HTTP data'' else Inr (body, hasNext)))"

definition callLabelPage ::
  "'w gh_env \<Rightarrow> github_adapter \<Rightarrow> resolved \<Rightarrow> int \<Rightarrow> int \<Rightarrow> aggregate_budget \<Rightarrow> ('w, (string \<times> bool) \<times> aggregate_budget) gh_m" where
  "callLabelPage env ad repo page perPage b =
     bindH (callBudgetedH env (labelPageCommand ad repo page perPage) b) (\<lambda>(raw, b').
     bindH (liftH (decodeIncludedPageForTarget env raw page
       (Some \<lparr>ltHost = APIHost (resProvider repo), ltPath = repoPath repo @ ''/labels'', ltPerPage = perPage\<rparr>)))
       (\<lambda>included. liftH (Inr (included, b'))))"

fun ghLabelPages ::
  "'w gh_env \<Rightarrow> github_adapter \<Rightarrow> resolved \<Rightarrow> int \<Rightarrow> nat \<Rightarrow> int \<Rightarrow> aggregate_budget \<Rightarrow> string list \<Rightarrow> ('w, string list) gh_m" where
  "ghLabelPages env ad repo lim 0 page b labels = liftH (fail ErrOutputLimit)"
| "ghLabelPages env ad repo lim (Suc k) page b labels =
     bindH (callLabelPage env ad repo page labelListPageSize b) (\<lambda>((body, hasNext), b').
     bindH (liftH (normalizeLabelPage (geJson env) body labelListPageSize)) (\<lambda>records.
     let kept = take (nat (lim - int (length labels))) records; labels' = labels @ kept in
     if int (length labels') \<ge> lim \<or> \<not> hasNext then liftH (Inr labels')
     else if int (length kept) < labelListPageSize then liftH (providerResponse None ''labels pagination'')
     else ghLabelPages env ad repo lim k (page + 1) b' labels'))"

definition executeLabelList ::
  "'w gh_env \<Rightarrow> github_adapter \<Rightarrow> resolved \<Rightarrow> 64 word option \<Rightarrow> ('w, github_response) gh_m" where
  "executeLabelList env ad repo v =
     bindH (ghLabelPages env ad repo (uint (getNumber v)) maximumLabelListPages 1
              \<lparr>abLimit = maximumPaginatedReadBytes, abUsed = 0\<rparr> [])
       (\<lambda>labels. liftH (boundedBy env maximumPaginatedReadBytes (GrLabelList labels)))"


section \<open>Issue view\<close>

definition issueCommentPageSize :: int where "issueCommentPageSize = 100"
definition maximumIssueCommentPages :: nat where "maximumIssueCommentPages = 10"

definition callIssueCommentPage ::
  "'w gh_env \<Rightarrow> github_adapter \<Rightarrow> resolved \<Rightarrow> 64 word \<Rightarrow> int \<Rightarrow> int \<Rightarrow> aggregate_budget
    \<Rightarrow> ('w, gh_comment_record list \<times> aggregate_budget) gh_m" where
  "callIssueCommentPage env ad repo n page perPage b =
     bindH (callBudgetedH env (issueCommentsCommand ad repo n page perPage maximumPaginatedReadBytes) b) (\<lambda>(raw, b').
     bindH (liftH (normalizeIssueCommentPage (geJson env) raw perPage)) (\<lambda>records. liftH (Inr (records, b'))))"

text \<open>After the last page one more comment is asked for, the one that would be too many.\<close>

fun ghCommentPages ::
  "'w gh_env \<Rightarrow> github_adapter \<Rightarrow> resolved \<Rightarrow> 64 word \<Rightarrow> nat \<Rightarrow> int \<Rightarrow> aggregate_budget \<Rightarrow> gh_comment_record list
    \<Rightarrow> ('w, gh_comment_record list) gh_m" where
  "ghCommentPages env ad repo n 0 page b comments =
     bindH (callIssueCommentPage env ad repo n (int maximumIssueCommentPages * issueCommentPageSize + 1) 1 b) (\<lambda>(probe, _).
       liftH (if probe \<noteq> [] then fail ErrOutputLimit else Inr comments))"
| "ghCommentPages env ad repo n (Suc k) page b comments =
     bindH (callIssueCommentPage env ad repo n page issueCommentPageSize b) (\<lambda>(records, b').
       let comments' = comments @ records in
       if int (length records) < issueCommentPageSize then liftH (Inr comments')
       else ghCommentPages env ad repo n k (page + 1) b' comments')"

definition fetchIssueComments ::
  "'w gh_env \<Rightarrow> github_adapter \<Rightarrow> resolved \<Rightarrow> 64 word \<Rightarrow> aggregate_budget \<Rightarrow> ('w, gh_comment_record list) gh_m" where
  "fetchIssueComments env ad repo n b = ghCommentPages env ad repo n maximumIssueCommentPages 1 b []"

definition boundedIssueViewResponse :: "'w gh_env \<Rightarrow> gh_issue_record \<Rightarrow> github_response result" where
  "boundedIssueViewResponse env r = boundedBy env maximumPaginatedReadBytes (GrIssueView (Some r))"

definition normalizeBoundedIssueView :: "'w gh_env \<Rightarrow> string \<Rightarrow> github_response result" where
  "normalizeBoundedIssueView env raw = bindE (normalizeIssueViewRecord (geJson env) raw) (boundedIssueViewResponse env)"

definition executeIssueView ::
  "'w gh_env \<Rightarrow> github_adapter \<Rightarrow> resolved \<Rightarrow> gh_issue_view option \<Rightarrow> ('w, github_response) gh_m" where
  "executeIssueView env ad repo v = withMessage v (\<lambda>r.
     let command = issueViewCommand ad repo (ivNumber r) (outputLimit ''issue'') in
     if \<not> ivIncludeComments r then
       bindH (callH env command) (\<lambda>res. liftH (normalizeBoundedIssueView env (Stdout res)))
     else
       bindH (callBudgetedH env command \<lparr>abLimit = maximumPaginatedReadBytes, abUsed = 0\<rparr>) (\<lambda>(raw, b).
       bindH (liftH (normalizeIssueViewRecord (geJson env) raw)) (\<lambda>issue.
       bindH (fetchIssueComments env ad repo (ivNumber r) b) (\<lambda>comments.
       liftH (boundedIssueViewResponse env (issue\<lparr>irComments := comments\<rparr>))))))"


section \<open>Label change\<close>

text \<open>The labels an issue, which must not be a pull request, has after the change.\<close>

definition relabelled :: "json_reader \<Rightarrow> gh_label_change \<Rightarrow> string \<Rightarrow> string list result" where
  "relabelled reader r raw =
     bindE (gh_decode reader intoIssue zeroIssue raw) (\<lambda>issue.
       if aiPullRequest issue \<noteq> None then providerResponse None ''issue''
       else
         bindE (labelNames (aiLabels issue)) (\<lambda>current.
           if \<not> isOK (gh_labels current) then providerResponse None ''valid issue labels''
           else changedLabels current (AddLabels r) (RemoveLabels r)))"

text \<open>\<^verbatim>\<open>changedLabels\<close> makes its slice, so that no labels are an empty array and not null.\<close>

definition labelWriteCommand :: "github_adapter \<Rightarrow> resolved \<Rightarrow> 64 word \<Rightarrow> string list \<Rightarrow> runner_command" where
  "labelWriteCommand ad repo n labels =
     apiCommand ad (APIHost (resProvider repo)) ''PATCH'' (repoPath repo @ ''/issues/'' @ decimal n)
       (Some (jsonMap [(''labels'', JArray (map JString labels))])) maximumMutationBytes"

definition executeIssueLabelChange ::
  "'w gh_env \<Rightarrow> github_adapter \<Rightarrow> resolved \<Rightarrow> gh_label_change option \<Rightarrow> ('w, github_response) gh_m" where
  "executeIssueLabelChange env ad repo v = withMessage v (\<lambda>r.
     bindH (callBudgetedH env (issueViewCommand ad repo (lhNumber r) maximumMutationBytes)
              \<lparr>abLimit = maximumMutationBytes, abUsed = 0\<rparr>) (\<lambda>(raw, b).
     bindH (liftH (relabelled (geJson env) r raw)) (\<lambda>changed.
     bindH (ctxH env) (\<lambda>_.
     bindH (callBudgetedH env (labelWriteCommand ad repo (lhNumber r) changed) b) (\<lambda>(answer, _).
     liftH (bindE (normalizeWithRepository (geJson env) (geLink env) (Some repo) (GhIssueLabelChange v) ''issue'' answer)
       (boundedBy env maximumResponseBytes)))))))"


section \<open>Checks\<close>

definition maximumCheckPages :: nat where "maximumCheckPages = 10"
definition maximumCheckRecords :: int where "maximumCheckRecords = 1000"

text \<open>
  The budget of the pages: the bytes read and the number of pages that are left; the number of records is the
  length of their list.
\<close>

definition checkPage ::
  "'w gh_env \<Rightarrow> github_adapter \<Rightarrow> resolved \<Rightarrow> string \<Rightarrow> int \<Rightarrow> int \<Rightarrow> ('w, string \<times> int) gh_m" where
  "checkPage env ad repo endpoint page used =
     (if used \<ge> maximumCheckBytes then liftH (fail ErrOutputLimit)
      else
        bindH (callH env (checkPageCommand ad repo endpoint page used)) (\<lambda>res.
          let used' = used + int (length (Stdout res)) in
          liftH (if used' > maximumCheckBytes then fail ErrOutputLimit else Inr (Stdout res, used'))))"

definition countedList ::
  "json_reader \<Rightarrow> string \<Rightarrow> 'a \<Rightarrow> 'a into \<Rightarrow> string \<Rightarrow> string \<Rightarrow> (int \<times> 'a list) result" where
  "countedList reader field zero f what raw =
     bindE (gh_decode reader (intoStruct
       [(''total_count'', member fst (\<lambda>v r. (v, snd r)) intoInt),
        (field, member snd (\<lambda>v r. (fst r, v)) (intoSlicePointer zero f))]) (None, None) raw) (\<lambda>v.
       case v of
         (Some n, Some entries) \<Rightarrow> if n < 0 then providerResponse None what else Inr (n, entries)
       | _ \<Rightarrow> providerResponse None what)"

definition addCheck ::
  "('a \<Rightarrow> gh_check_record result) \<Rightarrow> int \<Rightarrow> int \<times> gh_check_record list \<Rightarrow> 'a \<Rightarrow> (int \<times> gh_check_record list) result" where
  "addCheck convert tot acc entry =
     (case acc of (seen, records) \<Rightarrow>
        if int (length records) \<ge> maximumCheckRecords \<or> seen \<ge> tot then fail ErrOutputLimit
        else bindE (convert entry) (\<lambda>r. Inr (seen + 1, records @ [r])))"

text \<open>
  The loop that \<^verbatim>\<open>appendCheckPages\<close> and \<^verbatim>\<open>appendStatusPages\<close> share: the entries and the total of a page, when the
  total is too large, the name of an incomplete list, and the record of an entry.
\<close>

fun appendPages ::
  "'w gh_env \<Rightarrow> github_adapter \<Rightarrow> resolved \<Rightarrow> string \<Rightarrow> (string \<Rightarrow> (int \<times> 'a list) result) \<Rightarrow> (int \<Rightarrow> bool) \<Rightarrow> string
    \<Rightarrow> ('a \<Rightarrow> gh_check_record result) \<Rightarrow> nat \<Rightarrow> int \<Rightarrow> int \<Rightarrow> int \<Rightarrow> gh_check_record list
    \<Rightarrow> ('w, nat \<times> int \<times> gh_check_record list) gh_m" where
  "appendPages env ad repo endpoint entriesOf tooMany incomplete convert 0 page used seen records = liftH (fail ErrOutputLimit)"
| "appendPages env ad repo endpoint entriesOf tooMany incomplete convert (Suc k) page used seen records =
     bindH (checkPage env ad repo endpoint page used) (\<lambda>(raw, used').
     bindH (liftH (entriesOf raw)) (\<lambda>(tot, entries).
     if tooMany tot then liftH (fail ErrOutputLimit)
     else if entries = [] \<and> seen < tot then liftH (providerResponse None incomplete)
     else
       bindH (liftH (foldE (addCheck convert tot) (seen, records) entries)) (\<lambda>(seen', records').
       if tot \<le> page * 100 then
         (if seen' < tot then liftH (providerResponse None incomplete) else liftH (Inr (k, used', records')))
       else appendPages env ad repo endpoint entriesOf tooMany incomplete convert k (page + 1) used' seen' records')))"

definition appendCheckPages ::
  "'w gh_env \<Rightarrow> github_adapter \<Rightarrow> resolved \<Rightarrow> string \<Rightarrow> nat \<Rightarrow> int \<Rightarrow> gh_check_record list
    \<Rightarrow> ('w, nat \<times> int \<times> gh_check_record list) gh_m" where
  "appendCheckPages env ad repo sha pages used records =
     appendPages env ad repo (repoPath repo @ ''/commits/'' @ sha @ ''/check-runs'')
       (countedList (geJson env) ''check_runs'' zeroCheckRun intoCheckRun ''check-runs page'')
       (\<lambda>tot. tot > maximumCheckRecords) ''complete check-runs'' gh_checkRecord pages 1 used 0 records"

definition appendStatusPages ::
  "'w gh_env \<Rightarrow> github_adapter \<Rightarrow> resolved \<Rightarrow> string \<Rightarrow> nat \<Rightarrow> int \<Rightarrow> gh_check_record list
    \<Rightarrow> ('w, nat \<times> int \<times> gh_check_record list) gh_m" where
  "appendStatusPages env ad repo sha pages used records =
     appendPages env ad repo (repoPath repo @ ''/commits/'' @ sha @ ''/status'')
       (countedList (geJson env) ''statuses'' zeroStatus intoStatus ''statuses page'')
       (\<lambda>tot. tot > maximumCheckRecords \<or> tot + int (length records) > maximumCheckRecords) ''complete statuses''
       statusCheck pages 1 used 0 records"

text \<open>The object ID at the head of the pull request.\<close>

definition pullHead :: "json_reader \<Rightarrow> string \<Rightarrow> string result" where
  "pullHead reader raw =
     bindE (gh_decode reader (intoStruct [(''head'', intoPointer zeroRef intoRef)]) None raw) (\<lambda>head.
       case head of
         None \<Rightarrow> providerResponse None ''pull head''
       | Some r \<Rightarrow>
           (case arSHA r of
              None \<Rightarrow> providerResponse None ''pull head''
            | Some sha \<Rightarrow> if isOK (gh_objectID sha) then Inr sha else providerResponse None ''pull head''))"

definition pullCommand :: "github_adapter \<Rightarrow> resolved \<Rightarrow> 64 word \<Rightarrow> int \<Rightarrow> runner_command" where
  "pullCommand ad repo n lim =
     apiCommand ad (APIHost (resProvider repo)) ''GET'' (repoPath repo @ ''/pulls/'' @ decimal n) None lim"

definition executeChecks ::
  "'w gh_env \<Rightarrow> github_adapter \<Rightarrow> resolved \<Rightarrow> 64 word option \<Rightarrow> ('w, github_response) gh_m" where
  "executeChecks env ad repo v = withMessage v (\<lambda>n.
     bindH (callH env (pullCommand ad repo n maximumCheckBytes)) (\<lambda>res.
     bindH (liftH (pullHead (geJson env) (Stdout res))) (\<lambda>sha.
     bindH (appendCheckPages env ad repo sha maximumCheckPages (int (length (Stdout res))) []) (\<lambda>(pages, used, records).
     bindH (appendStatusPages env ad repo sha pages used records) (\<lambda>(_, _, records').
     liftH (boundedBy env maximumResponseBytes (GrPullChecks records')))))))"


section \<open>Ready\<close>

definition executeReady ::
  "'w gh_env \<Rightarrow> github_adapter \<Rightarrow> resolved \<Rightarrow> 64 word option \<Rightarrow> ('w, github_response) gh_m" where
  "executeReady env ad repo v = withMessage v (\<lambda>n.
     bindH (callH env (readyCommand ad repo n)) (\<lambda>_.
     bindH (callH env (pullCommand ad repo n (2 * miB))) (\<lambda>res.
     liftH (bindE (normalizeWithRepository (geJson env) (geLink env) None (GhPullReady v) ''pull'' (Stdout res))
       (boundedBy env maximumResponseBytes)))))"


section \<open>Execute\<close>

text \<open>
  \<^verbatim>\<open>preflight\<close>: an issue must not be a pull request, a pull request must have a head. The bytes that are left for
  the write.
\<close>

definition preflightAnswer :: "json_reader \<Rightarrow> github_operation \<Rightarrow> string \<Rightarrow> unit result" where
  "preflightAnswer reader oper raw =
     bindE (preflightTarget oper) (\<lambda>(_, pull).
       if pull then
         bindE (gh_decode reader (intoStruct [(''head'', intoPointer zeroRef intoRef)]) None raw) (\<lambda>head.
           if head = None then providerResponse None ''pull request'' else Inr ())
       else rejectPullIssue reader raw)"

definition preflight :: "'w gh_env \<Rightarrow> github_adapter \<Rightarrow> resolved \<Rightarrow> github_request \<Rightarrow> ('w, int) gh_m" where
  "preflight env ad repo request =
     bindH (liftH (preflightCommand ad repo request)) (\<lambda>command.
     bindH (callH env command) (\<lambda>res.
     let remaining = maximumMutationBytes - int (length (Stdout res)) in
     if remaining \<le> 0 then liftH (fail ErrOutputLimit)
     else bindH (liftH (preflightAnswer (geJson env) (ghOperation request) (Stdout res))) (\<lambda>_. liftH (Inr remaining))))"

definition executePlanned :: "'w gh_env \<Rightarrow> github_adapter \<Rightarrow> resolved \<Rightarrow> github_request \<Rightarrow> ('w, github_response) gh_m" where
  "executePlanned env ad repo request =
     bindH (if requiresPreflight (ghOperation request) then preflight env ad repo request else liftH (Inr 0)) (\<lambda>mutationBudget.
     bindH (liftH (plan ad repo request)) (\<lambda>(command, normalizer).
     bindH (callH env (if mutationBudget > 0 then command\<lparr>StdoutLimit := mutationBudget\<rparr> else command)) (\<lambda>res.
     liftH (bindE (normalizeWithRepository (geJson env) (geLink env) (Some repo) (ghOperation request) normalizer (Stdout res))
       (boundedBy env maximumResponseBytes)))))"

definition github_dispatch :: "'w gh_env \<Rightarrow> github_adapter \<Rightarrow> resolved \<Rightarrow> github_request \<Rightarrow> ('w, github_response) gh_m" where
  "github_dispatch env ad repo request =
     (case ghOperation request of
        GhLabelList v \<Rightarrow> executeLabelList env ad repo v
      | GhIssueList v \<Rightarrow> executeIssueList env ad repo v
      | GhIssueView v \<Rightarrow> executeIssueView env ad repo v
      | GhIssueLabelChange v \<Rightarrow> executeIssueLabelChange env ad repo v
      | GhPullChecks v \<Rightarrow> executeChecks env ad repo v
      | GhPullReady v \<Rightarrow> executeReady env ad repo v
      | _ \<Rightarrow> executePlanned env ad repo request)"

definition github_Execute ::
  "'w gh_env \<Rightarrow> github_adapter option \<Rightarrow> resolved \<Rightarrow> github_request option \<Rightarrow> ('w, github_response) gh_m" where
  "github_Execute env adapter repo request =
     (case adapter of
        None \<Rightarrow> liftH (errorf ''GitHub adapter unavailable'')
      | Some ad \<Rightarrow>
          bindH (liftH (ValidateGitHubRequest request)) (\<lambda>_.
          if Kind (resProvider repo) \<noteq> ProviderGitHub then liftH (fail ErrDenied)
          else withMessage request (github_dispatch env ad repo)))"

end
