(* ===== verification/GitHub_Execute_Correct.thy ===== *)
theory GitHub_Execute_Correct
  imports GitHub_Execute
begin

text \<open>
  What the GitHub adapter does when it carries out a request: which commands it runs and how many, what it
  has seen before it changes an issue, and what it answers.
\<close>

section \<open>Commands of a computation\<close>

text \<open>
  All commands that a computation runs satisfy \<open>P\<close>, at most \<open>w\<close> of them are not reads (\<open>R\<close>), and there are at
  most \<open>n\<close>.
\<close>

definition emits :: "(runner_command \<Rightarrow> bool) \<Rightarrow> (runner_command \<Rightarrow> bool) \<Rightarrow> nat \<Rightarrow> nat \<Rightarrow> ('w, 'a) gh_m \<Rightarrow> bool" where
  "emits P R w n m \<longleftrightarrow>
     (\<forall>s. \<exists>cs. ghCalls (snd (m s)) = ghCalls s @ cs \<and> list_all (\<lambda>c. P (fst c)) cs
        \<and> length (filter (\<lambda>c. \<not> R (fst c)) cs) \<le> w \<and> length cs \<le> n)"

lemma emitsI:
  "(\<And>s. \<exists>cs. ghCalls (snd (m s)) = ghCalls s @ cs \<and> list_all (\<lambda>c. P (fst c)) cs
     \<and> length (filter (\<lambda>c. \<not> R (fst c)) cs) \<le> w \<and> length cs \<le> n) \<Longrightarrow> emits P R w n m"
  by (simp add: emits_def)

lemma emitsE:
  assumes "emits P R w n m"
  obtains cs where "ghCalls (snd (m s)) = ghCalls s @ cs" "list_all (\<lambda>c. P (fst c)) cs"
    "length (filter (\<lambda>c. \<not> R (fst c)) cs) \<le> w" "length cs \<le> n"
  using assms unfolding emits_def by metis

lemma emits_bind:
  assumes "emits P R w n m" and "\<And>x s s'. m s = (Inr x, s') \<Longrightarrow> emits P R w' n' (f x)"
  shows "emits P R (w + w') (n + n') (bindH m f)"
proof (rule emitsI)
  fix s
  obtain cs where cs: "ghCalls (snd (m s)) = ghCalls s @ cs" "list_all (\<lambda>c. P (fst c)) cs"
    "length (filter (\<lambda>c. \<not> R (fst c)) cs) \<le> w" "length cs \<le> n"
    using assms(1) by (rule emitsE)
  show "\<exists>cs. ghCalls (snd (bindH m f s)) = ghCalls s @ cs \<and> list_all (\<lambda>c. P (fst c)) cs
      \<and> length (filter (\<lambda>c. \<not> R (fst c)) cs) \<le> w + w' \<and> length cs \<le> n + n'"
  proof (cases "m s")
    case (Pair r s')
    show ?thesis
    proof (cases r)
      case (Inl e)
      with Pair cs show ?thesis by (intro exI [of _ cs]) (simp add: bindH_def)
    next
      case (Inr x)
      with Pair have "emits P R w' n' (f x)" using assms(2) by simp
      then obtain ds where "ghCalls (snd (f x s')) = ghCalls s' @ ds" "list_all (\<lambda>c. P (fst c)) ds"
        "length (filter (\<lambda>c. \<not> R (fst c)) ds) \<le> w'" "length ds \<le> n'"
        by (rule emitsE)
      with Pair Inr cs show ?thesis by (intro exI [of _ "cs @ ds"]) (simp add: bindH_def)
    qed
  qed
qed

lemma emits_lift [simp]: "emits P R w n (liftH r)"
  by (rule emitsI, rule exI [of _ "[]"]) (simp add: liftH_def)

lemma emits_ctx [simp]: "emits P R w n (ctxH env)"
  by (rule emitsI, rule exI [of _ "[]"]) (simp add: ctxH_def split: prod.split)

lemma emits_mono: "emits P R w n m \<Longrightarrow> w \<le> w' \<Longrightarrow> n \<le> n' \<Longrightarrow> emits P R w' n' m"
  unfolding emits_def by (meson order_trans)

lemma emits_call: "P c \<Longrightarrow> R c \<or> 0 < w \<Longrightarrow> emits P R w 1 (callH env c)"
  by (rule emitsI, rule exI [of _ "[_]"]) (auto simp: callH_def Let_def)

lemma emits_pure: "(\<And>x. r = Inr x \<Longrightarrow> emits P R w n (f x)) \<Longrightarrow> emits P R w n (bindH (liftH r) f)"
  using emits_bind [of P R 0 0 "liftH r" w n f] by (simp add: liftH_def)

lemma emits_after_ctx: "(\<And>x. emits P R w n (f x)) \<Longrightarrow> emits P R w n (bindH (ctxH env) f)"
  using emits_bind [of P R 0 0 "ctxH env" w n f] by simp

lemma emits_then: "emits P R 0 1 m \<Longrightarrow> (\<And>x. emits P R w n (f x)) \<Longrightarrow> emits P R w (Suc n) (bindH m f)"
  using emits_bind [of P R 0 1 m w n f] by simp

lemma emits_map: "emits P R w n m \<Longrightarrow> emits P R w n (bindH m (\<lambda>x. liftH (g x)))"
  using emits_bind [of P R w n m 0 0 "\<lambda>x. liftH (g x)"] by simp

lemma emits_read:
  "P c \<Longrightarrow> R c \<Longrightarrow> (\<And>x. emits P R w n (f x)) \<Longrightarrow> emits P R w (Suc n) (bindH (callH env c) f)"
  using emits_bind [OF emits_call [of P c R 0 env], of w n f] by simp

lemma emits_write:
  "P c \<Longrightarrow> (\<And>x. emits P R w n (f x)) \<Longrightarrow> emits P R (Suc w) (Suc n) (bindH (callH env c) f)"
  using emits_bind [OF emits_call [of P c R 1 env], of w n f] by simp

lemma emits_budgeted:
  fixes env :: "'w gh_env"
  assumes "\<And>lim. P (c\<lparr>StdoutLimit := lim\<rparr>)" and "\<And>lim. R (c\<lparr>StdoutLimit := lim\<rparr>) \<or> 0 < w"
  shows "emits P R w 1 (callBudgetedH env c b)"
proof -
  have "emits P R w 1 (bindH (callH env (c\<lparr>StdoutLimit := lim\<rparr>)) f)" if "\<And>x. emits P R 0 0 (f x)" for lim and f :: "_ \<Rightarrow> ('w, string \<times> aggregate_budget) gh_m"
    using emits_bind [OF emits_call [of P "c\<lparr>StdoutLimit := lim\<rparr>" R w env], of 0 0 f] assms that by simp
  then show ?thesis
    unfolding callBudgetedH_def by (intro emits_after_ctx emits_pure) (simp add: emits_pure)
qed

lemma emits_budgeted_read:
  assumes "\<And>lim. P (c\<lparr>StdoutLimit := lim\<rparr>)" and "\<And>lim. R (c\<lparr>StdoutLimit := lim\<rparr>)" and "\<And>x. emits P R w n (f x)"
  shows "emits P R w (Suc n) (bindH (callBudgetedH env c b) f)"
  using emits_bind [OF emits_budgeted [of P c R 0 env b], of w n f] assms by simp


section \<open>Reads and writes\<close>

text \<open>
  A read: \<^verbatim>\<open>gh api\<close> with GET and no input on an endpoint below the repository (or the current user, when asked
  for), or the fixed GraphQL query for the issues of the repository.
\<close>

definition ghRead :: "resolved \<Rightarrow> github_operation \<Rightarrow> runner_command \<Rightarrow> bool" where
  "ghRead repo oper c \<longleftrightarrow>
     (\<exists>pre endpoint. pre \<in> {[], [''--include'']} \<and> cmdStdin c = []
        \<and> Args c = ''api'' # pre @ tl (apiHeader (APIHost (resProvider repo)) ''GET'') @ [endpoint]
        \<and> (confined repo endpoint \<or> endpoint = ''/user'' \<and> (\<exists>u. oper = GhCurrentUser u)))
   \<or> (\<exists>v state cursor first. oper = GhIssueList v
        \<and> Args c = apiHeader (APIHost (resProvider repo)) ''POST'' @ [''--input'', ''-'', ''graphql'']
        \<and> cmdStdin c = jsonMarshal (issueGraphQLRequest repo state cursor first))"

text \<open>A write: POST or PATCH below the repository, or marking a pull request of the repository as ready.\<close>

definition ghWrite :: "resolved \<Rightarrow> github_operation \<Rightarrow> runner_command \<Rightarrow> bool" where
  "ghWrite repo oper c \<longleftrightarrow>
     (\<exists>meth endpoint. (meth = ''POST'' \<or> meth = ''PATCH'') \<and> confined repo endpoint
        \<and> Args c = apiHeader (APIHost (resProvider repo)) meth @ [''--input'', ''-'', endpoint])
   \<or> (\<exists>n. oper = GhPullReady (Some n)
        \<and> Args c = [''pr'', ''ready'', decimal n, ''--repo'',
             APIHost (resProvider repo) @ ''/'' @ Owner (resRepository repo) @ ''/'' @ Name (resRepository repo)])"

definition pinned :: "github_adapter \<Rightarrow> runner_command \<Rightarrow> bool" where
  "pinned ad c \<longleftrightarrow> cmdPath c = adPath ad \<and> Env c = adEnvironment ad \<and> Timeout c = adTimeout ad"

abbreviation ghProper :: "github_adapter \<Rightarrow> resolved \<Rightarrow> github_operation \<Rightarrow> runner_command \<Rightarrow> bool" where
  "ghProper ad repo oper c \<equiv> pinned ad c \<and> (ghRead repo oper c \<or> ghWrite repo oper c)"

abbreviation ghEmits :: "github_adapter \<Rightarrow> resolved \<Rightarrow> github_operation \<Rightarrow> nat \<Rightarrow> nat \<Rightarrow> ('w, 'a) gh_m \<Rightarrow> bool" where
  "ghEmits ad repo oper \<equiv> emits (ghProper ad repo oper) (ghRead repo oper)"

lemma limit_irrelevant [simp]:
  "ghRead repo oper (c\<lparr>StdoutLimit := lim\<rparr>) = ghRead repo oper c"
  "ghWrite repo oper (c\<lparr>StdoutLimit := lim\<rparr>) = ghWrite repo oper c"
  "pinned ad (c\<lparr>StdoutLimit := lim\<rparr>) = pinned ad c"
  by (simp_all add: ghRead_def ghWrite_def pinned_def)

lemma pinned_command [simp]:
  "pinned ad (gh_command ad args input lim)" "pinned ad (apiCommand ad host meth endpoint val lim)"
  "pinned ad (c\<lparr>Args := args\<rparr>) = pinned ad c"
  by (simp_all add: pinned_def gh_command_def apiCommand_def)

lemma ghRead_get:
  "confined repo endpoint \<or> endpoint = ''/user'' \<and> (\<exists>u. oper = GhCurrentUser u) \<Longrightarrow>
     ghRead repo oper (apiCommand ad (APIHost (resProvider repo)) ''GET'' endpoint None lim)"
  unfolding ghRead_def
  by (rule disjI1, rule exI [of _ "[]"], rule exI [of _ endpoint]) (auto simp: apiCommand_def gh_command_def apiHeader_def)

lemma ghRead_graphql: "ghRead repo (GhIssueList v) (issueGraphQLCommand ad repo state cursor first)"
  unfolding ghRead_def
  by (rule disjI2, rule exI [of _ v], rule exI [of _ state], rule exI [of _ cursor], rule exI [of _ first])
    (simp add: issueGraphQLCommand_def apiCommand_def gh_command_def)

lemma ghRead_labels: "ghRead repo oper (labelPageCommand ad repo page perPage)"
proof -
  have "confined repo (repoPath repo @ ''/labels?'' @ pageQuery page perPage)"
    unfolding pageQuery_def by (rule confined_endpoints)
  then show ?thesis
    unfolding ghRead_def
    by (intro disjI1 exI [of _ "[''--include'']"] exI [of _ "repoPath repo @ ''/labels?'' @ pageQuery page perPage"])
      (simp add: labelPageCommand_def apiCommand_def gh_command_def apiHeader_def Let_def)
qed

lemma ghWrite_api:
  "confined repo endpoint \<Longrightarrow> meth = ''POST'' \<or> meth = ''PATCH'' \<Longrightarrow>
     ghWrite repo oper (apiCommand ad (APIHost (resProvider repo)) meth endpoint (Some v) lim)"
  unfolding ghWrite_def
  by (rule disjI1, rule exI [of _ meth], rule exI [of _ endpoint]) (simp add: apiCommand_def gh_command_def)

lemma ghWrite_ready: "ghWrite repo (GhPullReady (Some n)) (readyCommand ad repo n)"
  unfolding ghWrite_def by (rule disjI2, rule exI [of _ n]) (simp add: readyCommand_def gh_command_def)

lemma confined_checks:
  assumes "list_all pathChar sha"
  shows "confined repo ((repoPath repo @ ''/commits/'' @ sha @ ''/check-runs'') @ ''?'' @ pageQuery page 100)"
    and "confined repo ((repoPath repo @ ''/commits/'' @ sha @ ''/status'') @ ''?'' @ pageQuery page 100)"
proof -
  have lit: "list_all pathChar ''/check-runs''" by code_simp
  show "confined repo ((repoPath repo @ ''/commits/'' @ sha @ ''/check-runs'') @ ''?'' @ pageQuery page 100)"
    using confined_query [of "''/commits/'' @ sha @ ''/check-runs''" "pageQuery page 100" repo] assms lit alnum_literals(9)
    by (simp add: pageQuery_def queryEncode_chars del: alnum_literals)
  show "confined repo ((repoPath repo @ ''/commits/'' @ sha @ ''/status'') @ ''?'' @ pageQuery page 100)"
    using confined_query [of "''/commits/'' @ sha @ ''/status''" "pageQuery page 100" repo] assms alnum_literals(9,10)
    by (simp add: pageQuery_def queryEncode_chars del: alnum_literals)
qed

lemma commands_read:
  "ghRead repo oper (issueViewCommand ad repo n lim)" "ghRead repo oper (pullCommand ad repo n lim)"
  "ghRead repo oper (issueCommentsCommand ad repo n page perPage lim)"
  "confined repo (endpoint @ ''?'' @ pageQuery page 100) \<Longrightarrow> ghRead repo oper (checkPageCommand ad repo endpoint page used)"
  unfolding issueViewCommand_def pullCommand_def issueCommentsCommand_def checkPageCommand_def pageQuery_def
  by (rule ghRead_get, simp add: confined_endpoints del: append_assoc append.simps)+

lemma commands_pinned [simp]:
  "pinned ad (issueViewCommand ad repo n lim)" "pinned ad (pullCommand ad repo n lim)"
  "pinned ad (issueCommentsCommand ad repo n page perPage lim)" "pinned ad (checkPageCommand ad repo endpoint page used)"
  "pinned ad (labelPageCommand ad repo page perPage)" "pinned ad (issueGraphQLCommand ad repo state cursor first)"
  "pinned ad (readyCommand ad repo n)" "pinned ad (labelWriteCommand ad repo n labels)"
  by (simp_all add: issueViewCommand_def pullCommand_def issueCommentsCommand_def checkPageCommand_def labelPageCommand_def
      issueGraphQLCommand_def readyCommand_def labelWriteCommand_def Let_def)


section \<open>Commands of the operations\<close>

lemma budgeted_read:
  assumes "ghRead repo oper c" and "pinned ad c" and "\<And>x. ghEmits ad repo oper w n (f x)"
  shows "ghEmits ad repo oper w (Suc n) (bindH (callBudgetedH env c b) f)"
  using assms by (intro emits_budgeted_read) simp_all

lemma issuePages_emits:
  "ghEmits ad repo (GhIssueList v) 0 n (issuePages env ad repo r n b cursor seen records)"
proof (induction n arbitrary: b cursor seen records)
  case (Suc n)
  show ?case
    by (auto simp: Let_def ghRead_graphql Suc.IH intro!: budgeted_read emits_pure split: option.split)
qed simp

lemma labelPages_emits: "ghEmits ad repo oper 0 n (ghLabelPages env ad repo lim n page b labels)"
proof (induction n arbitrary: page b labels)
  case (Suc n)
  have "ghEmits ad repo oper 0 1 (callLabelPage env ad repo page labelListPageSize b)"
    unfolding callLabelPage_def
    by (auto simp: ghRead_labels intro!: budgeted_read [where n = 0, simplified] emits_pure)
  then show ?case
    by (auto simp: Let_def Suc.IH intro!: emits_then emits_pure)
qed simp

lemma commentPage_emits: "ghEmits ad repo oper 0 1 (callIssueCommentPage env ad repo i page perPage b)"
  unfolding callIssueCommentPage_def
  by (auto simp: commands_read intro!: budgeted_read [where n = 0, simplified] emits_pure)

lemma commentPages_emits: "ghEmits ad repo oper 0 (Suc n) (ghCommentPages env ad repo i n page b comments)"
proof (induction n arbitrary: page b comments)
  case 0
  show ?case by (auto intro!: emits_then commentPage_emits)
next
  case (Suc n)
  show ?case by (auto simp: Let_def Suc.IH intro!: emits_then commentPage_emits)
qed

lemma checkPage_emits:
  assumes "confined repo (endpoint @ ''?'' @ pageQuery page 100)"
  shows "ghEmits ad repo oper 0 1 (checkPage env ad repo endpoint page used)"
  unfolding checkPage_def using commands_read(4) [OF assms]
  by (auto simp: Let_def intro!: emits_read [where n = 0, simplified])

lemma appendPages_emits:
  assumes "\<And>page. confined repo (endpoint @ ''?'' @ pageQuery page 100)"
  shows "ghEmits ad repo oper 0 n (appendPages env ad repo endpoint entriesOf tooMany incomplete convert n page used seen records)"
proof (induction n arbitrary: page used seen records)
  case (Suc n)
  show ?case by (auto simp: Suc.IH intro!: emits_then checkPage_emits assms emits_pure)
qed simp

text \<open>The pages that are left make up for the commands that were run.\<close>

definition leaves :: "('a \<Rightarrow> nat) \<Rightarrow> nat \<Rightarrow> ('w, 'a) gh_m \<Rightarrow> bool" where
  "leaves left n m \<longleftrightarrow> (\<forall>s x s'. m s = (Inr x, s') \<longrightarrow> length (ghCalls s') + left x \<le> length (ghCalls s) + n)"

lemma emits_bind_leaves:
  assumes "emits P R w n m" and "leaves left n m" and "\<And>x. emits P R w' (left x) (f x)"
  shows "emits P R (w + w') n (bindH m f)"
proof (rule emitsI)
  fix s
  obtain cs where cs: "ghCalls (snd (m s)) = ghCalls s @ cs" "list_all (\<lambda>c. P (fst c)) cs"
    "length (filter (\<lambda>c. \<not> R (fst c)) cs) \<le> w" "length cs \<le> n"
    using assms(1) by (rule emitsE)
  show "\<exists>cs. ghCalls (snd (bindH m f s)) = ghCalls s @ cs \<and> list_all (\<lambda>c. P (fst c)) cs
      \<and> length (filter (\<lambda>c. \<not> R (fst c)) cs) \<le> w + w' \<and> length cs \<le> n"
  proof (cases "\<exists>x s'. m s = (Inr x, s')")
    case True
    then obtain x s' where x: "m s = (Inr x, s')" by blast
    obtain ds where "ghCalls (snd (f x s')) = ghCalls s' @ ds" "list_all (\<lambda>c. P (fst c)) ds"
      "length (filter (\<lambda>c. \<not> R (fst c)) ds) \<le> w'" "length ds \<le> left x"
      using assms(3) by (rule emitsE)
    moreover have "length (ghCalls s') + left x \<le> length (ghCalls s) + n" using assms(2) x by (simp add: leaves_def)
    ultimately show ?thesis using x cs by (intro exI [of _ "cs @ ds"]) (simp add: bindH_def)
  next
    case False
    then obtain e s' where "m s = (Inl e, s')" by (metis surj_pair sum.exhaust)
    with cs show ?thesis by (intro exI [of _ cs]) (simp add: bindH_def)
  qed
qed

lemma leavesI: "(\<And>s x s'. m s = (Inr x, s') \<Longrightarrow> length (ghCalls s') + left x \<le> length (ghCalls s) + n) \<Longrightarrow> leaves left n m"
  by (simp add: leaves_def)

lemma bindH_Inr:
  "bindH m f s = (Inr x, s') \<longleftrightarrow> (\<exists>y t. m s = (Inr y, t) \<and> f y t = (Inr x, s'))"
  by (auto simp: bindH_def split: prod.split sum.split)

lemma liftH_Inr: "liftH r s = (Inr x, s') \<longleftrightarrow> r = Inr x \<and> s' = s"
  by (auto simp: liftH_def)

lemma checkPage_leaves: "checkPage env ad repo endpoint page used s = (Inr x, s') \<Longrightarrow> length (ghCalls s') = Suc (length (ghCalls s))"
  by (auto simp: checkPage_def bindH_Inr liftH_Inr callH_def Let_def split: if_splits)

lemma appendPages_leaves:
  "leaves fst n (appendPages env ad repo endpoint entriesOf tooMany incomplete convert n page used seen records)"
proof (induction n arbitrary: page used seen records)
  case 0
  show ?case by (simp add: leaves_def liftH_def fail_def)
next
  case (Suc n)
  show ?case
  proof (rule leavesI)
    fix s x s'
    assume "appendPages env ad repo endpoint entriesOf tooMany incomplete convert (Suc n) page used seen records s = (Inr x, s')"
    then obtain raw used' t tot entries where "checkPage env ad repo endpoint page used s = (Inr (raw, used'), t)"
      and rest: "(\<exists>seen' records'. appendPages env ad repo endpoint entriesOf tooMany incomplete convert n (page + 1) used' seen' records' t = (Inr x, s'))
        \<or> fst x = n \<and> s' = t"
      by (auto simp: bindH_Inr liftH_Inr case_prod_beta fail_def providerResponse_def split: if_splits)
    then have "length (ghCalls t) = Suc (length (ghCalls s))" using checkPage_leaves by blast
    with rest Suc.IH show "length (ghCalls s') + fst x \<le> length (ghCalls s) + Suc n"
      unfolding leaves_def by fastforce
  qed
qed


lemma plan_command:
  assumes "validateOperation (ghOperation q) = Inr ()" and "\<not> multiCall (ghOperation q)" and "plan ad repo q = Inr (c, k)"
    and "operationCapability (ghOperation q) = Inr cap"
  shows "pinned ad c \<and> (if readCapability cap then ghRead repo (ghOperation q) c else ghWrite repo (ghOperation q) c)"
proof -
  obtain meth endpoint normalizer inp where
    call: "planCall (repoPath repo) (ghOperation q) = Inr (meth, endpoint, normalizer, inp)"
    and proper: "properCall repo (ghOperation q) (meth, endpoint, normalizer, inp)"
    using planCall_proper [OF assms(1,2), of repo] by auto
  have c: "c = apiCommand ad (APIHost (resProvider repo)) meth endpoint inp (outputLimit normalizer)"
    using assms(3) call by (auto simp: plan_def)
  show ?thesis
  proof (cases "readCapability cap")
    case True
    with proper assms(4) have "meth = ''GET''" "inp = None"
      "confined repo endpoint \<or> endpoint = ''/user'' \<and> (\<exists>u. ghOperation q = GhCurrentUser u)"
      by (simp_all add: properCall_def)
    with c True show ?thesis using ghRead_get by simp
  next
    case False
    with proper assms(4) obtain v where "meth = ''POST'' \<or> meth = ''PATCH''" "inp = Some v" by (auto simp: properCall_def)
    moreover have "confined repo endpoint" using proper assms(4) False by (auto simp: properCall_def)
    ultimately show ?thesis using c False ghWrite_api by simp
  qed
qed

lemma preflight_emits: "ghEmits ad repo oper 0 1 (preflight env ad repo q)"
proof -
  have "pinned ad c \<and> ghRead repo oper c" if "preflightCommand ad repo q = Inr c" for c
    using that ghRead_get confined_endpoints(5,7) by (auto simp: preflightCommand_def result_simps)
  then show ?thesis
    unfolding preflight_def One_nat_def by (intro emits_pure emits_then) (auto simp: Let_def intro!: emits_call [unfolded One_nat_def] emits_pure)
qed

lemma requiresPreflight_writes: "requiresPreflight oper \<Longrightarrow> operationCapability oper = Inr cap \<Longrightarrow> \<not> readCapability cap"
  by (cases oper) auto

lemma executePlanned_emits:
  assumes "validateOperation (ghOperation q) = Inr ()" and "\<not> multiCall (ghOperation q)"
    and "operationCapability (ghOperation q) = Inr cap"
  shows "ghEmits ad repo (ghOperation q) (if readCapability cap then 0 else 1) 2 (executePlanned env ad repo q)"
proof -
  let ?w = "if readCapability cap then 0 else 1 :: nat"
  have call: "ghEmits ad repo (ghOperation q) ?w 1 (bindH (liftH (plan ad repo q)) (\<lambda>(command, normalizer).
      bindH (callH env (if budget > 0 then command\<lparr>StdoutLimit := budget\<rparr> else command)) (\<lambda>res. liftH (f normalizer res))))"
    for budget :: int and f :: "string \<Rightarrow> runner_result \<Rightarrow> github_response result"
  proof (rule emits_pure)
    fix x
    assume "plan ad repo q = Inr x"
    moreover obtain c k where "x = (c, k)" by (cases x)
    ultimately have "pinned ad c \<and> (if readCapability cap then ghRead repo (ghOperation q) c else ghWrite repo (ghOperation q) c)"
      using plan_command [OF assms(1,2) _ assms(3)] by blast
    then show "ghEmits ad repo (ghOperation q) ?w 1 (case x of (command, normalizer) \<Rightarrow>
        bindH (callH env (if budget > 0 then command\<lparr>StdoutLimit := budget\<rparr> else command)) (\<lambda>res. liftH (f normalizer res)))"
      using \<open>x = (c, k)\<close> by (auto intro!: emits_read [where n = 0, simplified] emits_write [where n = 0 and w = 0, simplified])
  qed
  have first: "ghEmits ad repo (ghOperation q) 0 1
      (if requiresPreflight (ghOperation q) then preflight env ad repo q else liftH (Inr 0))"
    by (simp add: preflight_emits [unfolded One_nat_def])
  show ?thesis
    unfolding executePlanned_def Suc_1 [symmetric] by (rule emits_then [OF first]) (use call in simp)
qed

lemma checks_emits: "ghEmits ad repo oper 0 11 (executeChecks env ad repo v)"
proof (cases v)
  case (Some n)
  have pages: "ghEmits ad repo oper 0 10 (bindH (appendCheckPages env ad repo sha maximumCheckPages used []) (\<lambda>(pages, used, records).
      bindH (appendStatusPages env ad repo sha pages used records) (\<lambda>(_, _, records'). liftH (f records'))))"
    if "list_all pathChar sha" for sha used and f :: "gh_check_record list \<Rightarrow> github_response result"
  proof -
    note c = confined_checks [OF that]
    have checks: "ghEmits ad repo oper 0 10 (appendCheckPages env ad repo sha maximumCheckPages used [])"
      "leaves fst 10 (appendCheckPages env ad repo sha maximumCheckPages used [])"
      unfolding appendCheckPages_def maximumCheckPages_def by (rule appendPages_emits [OF c(1)], rule appendPages_leaves)
    have statuses: "ghEmits ad repo oper 0 k (bindH (appendStatusPages env ad repo sha k used records) (\<lambda>(_, _, records'). liftH (f records')))"
      for k used records
      unfolding appendStatusPages_def case_prod_beta by (rule emits_map [OF appendPages_emits [OF c(2)]])
    show ?thesis
      by (rule emits_bind_leaves [OF checks, of 0, simplified]) (use statuses in \<open>simp add: case_prod_beta\<close>)
  qed
  have head: "list_all pathChar sha" if "pullHead reader raw = Inr sha" for reader raw sha
    using that objectID_path
    by (auto simp: pullHead_def result_simps providerResponse_def isOK_unit split: option.splits if_splits)
  have "ghEmits ad repo oper 0 (Suc 10) (executeChecks env ad repo v)"
    unfolding executeChecks_def withMessage_def Some option.case
    by (intro emits_read emits_pure pages) (simp_all add: commands_read head)
  then show ?thesis by simp
qed (simp add: executeChecks_def withMessage_def)


lemma labelWrite: "ghWrite repo oper (labelWriteCommand ad repo n labels)"
  unfolding labelWriteCommand_def by (rule ghWrite_api) (simp_all add: confined_simps)

lemma labelChange_emits: "ghEmits ad repo oper 1 2 (executeIssueLabelChange env ad repo v)"
proof (cases v)
  case (Some r)
  have wr: "ghEmits ad repo oper 1 1 (callBudgetedH env (labelWriteCommand ad repo (lhNumber r) changed) b)" for changed b
    using labelWrite by (intro emits_budgeted) simp_all
  show ?thesis
    unfolding executeIssueLabelChange_def withMessage_def Some option.case Suc_1 [symmetric] case_prod_beta
    by (intro budgeted_read emits_pure emits_after_ctx emits_map wr) (simp_all add: commands_read)
qed (simp add: executeIssueLabelChange_def withMessage_def)

lemma issueView_emits: "ghEmits ad repo oper 0 12 (executeIssueView env ad repo v)"
proof (cases v)
  case (Some r)
  have comments: "ghEmits ad repo oper 0 11 (fetchIssueComments env ad repo n b)" for n b
    using commentPages_emits [of ad repo oper 10 env] by (simp add: fetchIssueComments_def maximumIssueCommentPages_def)
  have single: "ghEmits ad repo oper 0 (Suc 11) (bindH (callH env (issueViewCommand ad repo n lim)) (\<lambda>res. liftH (f res)))"
    for n lim and f :: "runner_result \<Rightarrow> github_response result"
    by (intro emits_read) (simp_all add: commands_read)
  have "ghEmits ad repo oper 0 (Suc 11) (executeIssueView env ad repo v)"
    unfolding executeIssueView_def withMessage_def Some option.case Let_def case_prod_beta
    by (cases "ivIncludeComments r") (simp_all only: if_True if_False not_True_eq_False not_False_eq_True single,
        intro budgeted_read emits_pure emits_map comments, simp_all add: commands_read)
  then show ?thesis by simp
qed (simp add: executeIssueView_def withMessage_def)

lemma ready_emits: "ghEmits ad repo (GhPullReady v) 1 2 (executeReady env ad repo v)"
proof (cases v)
  case (Some n)
  show ?thesis
    unfolding executeReady_def withMessage_def Some option.case Suc_1 [symmetric] One_nat_def
    by (intro emits_write emits_read) (simp_all add: ghWrite_ready commands_read)
qed (simp add: executeReady_def withMessage_def)

lemma dispatch_emits:
  assumes "validateOperation (ghOperation q) = Inr ()" and "operationCapability (ghOperation q) = Inr cap"
  shows "ghEmits ad repo (ghOperation q) (if readCapability cap then 0 else 1) 12 (github_dispatch env ad repo q)"
proof (cases "multiCall (ghOperation q)")
  case True
  then show ?thesis
  proof (cases "ghOperation q")
    case (GhLabelList v)
    with assms(2) show ?thesis
      using emits_mono [OF emits_map [OF labelPages_emits [of ad repo "ghOperation q" 10]], of 0 12]
      by (auto simp: github_dispatch_def executeLabelList_def maximumLabelListPages_def)
  next
    case (GhIssueList v)
    with assms(2) show ?thesis
      using emits_mono [OF emits_map [OF issuePages_emits [of ad repo v 11]], of 0 12]
      by (cases v) (auto simp: github_dispatch_def executeIssueList_def maximumIssueListPages_def withMessage_def)
  next
    case (GhIssueView v)
    with assms(2) show ?thesis by (auto simp: github_dispatch_def issueView_emits)
  next
    case (GhIssueLabelChange v)
    with assms(2) show ?thesis
      using emits_mono [OF labelChange_emits, of 1 12] by (auto simp: github_dispatch_def)
  next
    case (GhPullChecks v)
    with assms(2) show ?thesis using emits_mono [OF checks_emits, of 0 12] by (auto simp: github_dispatch_def)
  next
    case (GhPullReady v)
    with assms(2) show ?thesis using emits_mono [OF ready_emits, of 1 12] by (auto simp: github_dispatch_def)
  qed simp_all
next
  case False
  then have "github_dispatch env ad repo q = executePlanned env ad repo q"
    by (cases "ghOperation q") (simp_all add: github_dispatch_def)
  then show ?thesis
    by (simp only:) (rule emits_mono [OF executePlanned_emits [OF assms(1) False assms(2)]], simp_all)
qed


text \<open>
  A GitHub request reaches the resolved repository only. Whatever a request holds and however the GitHub CLI
  answers, \<^verbatim>\<open>Execute\<close> runs no command unless the request is valid and the provider is a GitHub one; every
  command has the path, the environment and the timeout of the adapter; each is a read of an endpoint below
  the repository (or of the current user, or the fixed GraphQL query with the owner and name of the
  repository) or a write below it, on the host of the provider; none is a write if the capability that the
  request needs is a reading one, and at most one is otherwise; and there are at most twelve.
\<close>

lemma github_Execute_sent:
  assumes "github_Execute env adapter repo request s = (r, s')"
  shows "\<exists>sent. ghCalls s' = ghCalls s @ sent \<and> (sent \<noteq> [] \<longrightarrow>
    (\<exists>ad q cap. adapter = Some ad \<and> request = Some q \<and> ValidateGitHubRequest request = Inr ()
       \<and> Kind (resProvider repo) = ProviderGitHub \<and> github_Capability request = Inr cap
       \<and> list_all (\<lambda>c. pinned ad (fst c) \<and> (ghRead repo (ghOperation q) (fst c) \<or> ghWrite repo (ghOperation q) (fst c))) sent
       \<and> length (filter (\<lambda>c. \<not> ghRead repo (ghOperation q) (fst c)) sent) \<le> (if readCapability cap then 0 else 1)
       \<and> length sent \<le> 12))"
proof (cases "\<exists>ad q. adapter = Some ad \<and> request = Some q \<and> ValidateGitHubRequest request = Inr () \<and> Kind (resProvider repo) = ProviderGitHub")
  case True
  then obtain ad q where q: "adapter = Some ad" "request = Some q" "ValidateGitHubRequest (Some q) = Inr ()"
    "Kind (resProvider repo) = ProviderGitHub" by auto
  then have valid: "validateOperation (ghOperation q) = Inr ()" by (simp add: ValidateGitHubRequest_def)
  then obtain cap where cap: "operationCapability (ghOperation q) = Inr cap"
    by (cases "ghOperation q") auto
  have "github_dispatch env ad repo q s = (r, s')"
    using assms q by (simp add: github_Execute_def bindH_def liftH_def withMessage_def)
  moreover obtain cs where "ghCalls (snd (github_dispatch env ad repo q s)) = ghCalls s @ cs"
    "list_all (\<lambda>c. ghProper ad repo (ghOperation q) (fst c)) cs"
    "length (filter (\<lambda>c. \<not> ghRead repo (ghOperation q) (fst c)) cs) \<le> (if readCapability cap then 0 else 1)" "length cs \<le> 12"
    using dispatch_emits [OF valid cap] by (rule emitsE)
  ultimately show ?thesis
    using q cap by (intro exI [of _ cs]) (simp add: github_Capability_def)
next
  case False
  then have "ghCalls s' = ghCalls s"
    using assms by (auto simp: github_Execute_def bindH_def liftH_def withMessage_def split: option.splits sum.splits if_splits)
  then show ?thesis by (intro exI [of _ "[]"]) simp
qed



section \<open>What is known before an issue changes\<close>

text \<open>The answer is one JSON value that has no \<^verbatim>\<open>pull_request\<close> member, under any spelling of the key that the decoder takes for it.\<close>

definition notPull :: "json_reader \<Rightarrow> string \<Rightarrow> bool" where
  "notPull reader raw =
     (case reader raw of
        Some (DObject ms, True) \<Rightarrow> list_all (\<lambda>m. foldKey (fst m) \<noteq> foldKey ''pull_request'') ms
      | Some (DNull, True) \<Rightarrow> True
      | _ \<Rightarrow> False)"

lemma gh_decode_Inr: "gh_decode reader f zero raw = Inr x \<longleftrightarrow> validString raw \<and> (\<exists>d. reader raw = Some (d, True) \<and> f zero d = Inr x)"
  by (auto simp: gh_decode_def providerResponse_def split: option.split sum.split if_splits)

lemma typeError_neq [simp]: "typeError \<noteq> Inr x"
  by (simp add: typeError_def)

lemma intoStruct_Inr:
  "intoStruct fs x d = Inr y \<longleftrightarrow> d = DNull \<and> y = x \<or> (\<exists>ms. d = DObject ms \<and> foldE (setMember fs) x ms = Inr y)"
  by (cases d) (auto simp: intoStruct_def)

text \<open>Members that set a field and members that leave it as it is.\<close>

lemma foldE_unset:
  assumes "\<And>x m y. f x m = Inr y \<Longrightarrow> get y = (if is m then Some (snd m) else get x)"
  shows "foldE f x ms = Inr y \<Longrightarrow> get y = None \<Longrightarrow> list_all (\<lambda>m. \<not> is m) ms \<and> get x = None"
proof (induction ms arbitrary: x)
  case (Cons m ms)
  then obtain z where z: "f x m = Inr z" "foldE f z ms = Inr y" by (auto simp: result_simps)
  with Cons have "list_all (\<lambda>m. \<not> is m) ms \<and> get z = None" by blast
  with assms [OF z(1)] show ?case by (auto split: if_splits)
qed simp

lemma notPull_struct:
  assumes "gh_decode reader (intoStruct fs) zero raw = Inr x" and "get x = None"
    and "\<And>x m y. setMember fs x m = Inr y \<Longrightarrow> get y = (if foldKey (fst m) = foldKey ''pull_request'' then Some (snd m) else get x)"
  shows "notPull reader raw"
proof -
  obtain d where d: "reader raw = Some (d, True)" "intoStruct fs zero d = Inr x"
    using assms(1) by (auto simp: gh_decode_Inr)
  then consider "d = DNull" | ms where "d = DObject ms" "foldE (setMember fs) zero ms = Inr x"
    by (auto simp: intoStruct_Inr)
  then show ?thesis
    using foldE_unset [of "setMember fs" get "\<lambda>m. foldKey (fst m) = foldKey ''pull_request''", OF assms(3)] assms(2) d(1)
    by cases (auto simp: notPull_def)
qed

lemma rejectPullIssue_notPull: "rejectPullIssue reader raw = Inr () \<Longrightarrow> notPull reader raw"
  by (rule notPull_struct [of reader "[(''pull_request'', intoRaw)]" None raw None "\<lambda>x. x"])
    (auto simp: rejectPullIssue_def result_simps providerResponse_def setMember_def intoRaw_def split: if_splits)

lemma issue_keys:
  "list_all (\<lambda>k. foldKey k \<noteq> foldKey ''pull_request'')
     [''number'', ''title'', ''body'', ''state'', ''user'', ''assignees'', ''labels'', ''html_url'', ''created_at'', ''updated_at'']"
  by code_simp

lemma relabelled_notPull: "relabelled reader r raw = Inr changed \<Longrightarrow> notPull reader raw"
proof -
  assume "relabelled reader r raw = Inr changed"
  then obtain issue where "gh_decode reader intoIssue zeroIssue raw = Inr issue" "aiPullRequest issue = None"
    by (auto simp: relabelled_def result_simps providerResponse_def split: if_splits)
  then show ?thesis
    unfolding intoIssue_def
  proof (rule notPull_struct)
    fix x y :: api_issue and m :: "string \<times> jdoc"
    assume "setMember
       [(''number'', member aiNumber (\<lambda>v r. r\<lparr>aiNumber := v\<rparr>) intoUint),
        (''title'', member aiTitle (\<lambda>v r. r\<lparr>aiTitle := v\<rparr>) intoString),
        (''body'', member aiBody (\<lambda>v r. r\<lparr>aiBody := v\<rparr>) intoRaw),
        (''state'', member aiState (\<lambda>v r. r\<lparr>aiState := v\<rparr>) intoString),
        (''user'', member aiUser (\<lambda>v r. r\<lparr>aiUser := v\<rparr>) (intoPointer None intoUser)),
        (''assignees'', member aiAssignees (\<lambda>v r. r\<lparr>aiAssignees := v\<rparr>) (intoSlicePointer None intoUser)),
        (''labels'', member aiLabels (\<lambda>v r. r\<lparr>aiLabels := v\<rparr>) (intoSlicePointer None intoLabel)),
        (''html_url'', member aiURL (\<lambda>v r. r\<lparr>aiURL := v\<rparr>) intoString),
        (''created_at'', member aiCreatedAt (\<lambda>v r. r\<lparr>aiCreatedAt := v\<rparr>) intoString),
        (''updated_at'', member aiUpdatedAt (\<lambda>v r. r\<lparr>aiUpdatedAt := v\<rparr>) intoString),
        (''pull_request'', member aiPullRequest (\<lambda>v r. r\<lparr>aiPullRequest := v\<rparr>) intoRaw)] x m = Inr y"
    then show "aiPullRequest y = (if foldKey (fst m) = foldKey ''pull_request'' then Some (snd m) else aiPullRequest x)"
      using issue_keys unfolding setMember_def fieldFor.simps list.pred_inject
      by (simp only: split: if_split_asm) (auto simp: member_def result_simps intoRaw_def)
  qed
qed


section \<open>Guarded writes\<close>

lemma bindH_cases:
  assumes "bindH m f s = (r, s')"
  obtains (err) e where "m s = (Inl e, s')" "r = Inl e" | (ok) x t where "m s = (Inr x, t)" "f x t = (r, s')"
  using assms by (cases "m s"; cases "fst (m s)") (auto simp: bindH_def)

lemma liftH_run [simp]: "liftH r s = (r, s)"
  by (simp add: liftH_def)

lemma callH_run:
  "callH env c s = (r, s') \<Longrightarrow> ghCalls s' = ghCalls s @ [(c, r)]"
  by (auto simp: callH_def Let_def)

lemma bind_lift: "bindH (liftH r) f s = (case r of Inl e \<Rightarrow> (Inl e, s) | Inr x \<Rightarrow> f x s)"
  by (simp add: bindH_def)

lemma bind_map_calls: "ghCalls (snd (bindH m (\<lambda>x. liftH (g x)) s)) = ghCalls (snd (m s))"
  by (auto simp: bindH_def split: prod.split sum.split)

text \<open>A budgeted call runs the command with some limit, or does not run it.\<close>

lemma callBudgetedH_run:
  assumes "callBudgetedH env c b s = (r, s')"
  shows "(\<exists>e. r = Inl e \<and> ghCalls s' = ghCalls s)
    \<or> (\<exists>lim a. ghCalls s' = ghCalls s @ [(c\<lparr>StdoutLimit := lim\<rparr>, a)]
         \<and> (\<forall>x. r = Inr x \<longrightarrow> (\<exists>res. a = Inr res \<and> fst x = Stdout res)))"
proof -
  have ctx: "ghCalls t = ghCalls s" if "ctxH env s = (x, t)" for x t
    using that by (auto simp: ctxH_def split: prod.splits)
  from assms show ?thesis
    unfolding callBudgetedH_def
  proof (cases rule: bindH_cases)
    case (ok u t)
    note t = ctx [OF ok(1)]
    show ?thesis
    proof (cases "budget_remaining (Some b)")
      case (Inr remaining)
      let ?c = "c\<lparr>StdoutLimit := min (StdoutLimit c) remaining\<rparr>"
      obtain a t' where a: "callH env ?c t = (a, t')" by fastforce
      then have "ghCalls t' = ghCalls s @ [(?c, a)]" using callH_run t by metis
      moreover have "s' = t'" "\<forall>x. r = Inr x \<longrightarrow> (\<exists>res. a = Inr res \<and> fst x = Stdout res)"
        using ok(2) a Inr by (auto simp: bind_lift bindH_def split: sum.splits)
      ultimately show ?thesis by blast
    qed (use ok t in \<open>auto simp: bind_lift\<close>)
  qed (use ctx in blast)
qed


fun ghIssueTarget :: "github_operation \<Rightarrow> 64 word option" where
  "ghIssueTarget (GhIssueEdit (Some v)) = Some (ieNumber v)"
| "ghIssueTarget (GhIssueComment (Some v)) = Some (cmNumber v)"
| "ghIssueTarget (GhIssueClose v) = v"
| "ghIssueTarget (GhIssueReopen v) = v"
| "ghIssueTarget (GhIssueLabelChange (Some v)) = Some (lhNumber v)"
| "ghIssueTarget _ = None"

text \<open>
  The labels that a label change asks for, given the answer to the read: the labels the issue has
  without the ones to remove, in their order, and then the ones to add that it did not have.
\<close>

definition labelsAsked :: "json_reader \<Rightarrow> github_operation \<Rightarrow> string \<Rightarrow> string \<Rightarrow> bool" where
  "labelsAsked reader oper raw input =
     (case oper of
        GhIssueLabelChange (Some r) \<Rightarrow>
          (\<exists>issue current. gh_decode reader intoIssue zeroIssue raw = Inr issue
             \<and> labelNames (aiLabels issue) = Inr current
             \<and> input = jsonMarshal (jsonMap [(''labels'', JArray (map JString
                 (filter (\<lambda>l. l \<notin> set (RemoveLabels r)) current @ filter (\<lambda>l. l \<notin> set current) (AddLabels r))))]))
      | _ \<Rightarrow> True)"

definition guardedWrite ::
  "'w gh_env \<Rightarrow> resolved \<Rightarrow> github_operation \<Rightarrow> 64 word \<Rightarrow> (runner_command \<times> runner_result result) list \<Rightarrow> bool" where
  "guardedWrite env repo oper n sent \<longleftrightarrow>
     (\<exists>view res c a. sent = [(view, Inr res), (c, a)]
        \<and> Args view = apiHeader (APIHost (resProvider repo)) ''GET'' @ [repoPath repo @ ''/issues/'' @ decimal n]
        \<and> notPull (geJson env) (Stdout res)
        \<and> last (Args c) \<in> {repoPath repo @ ''/issues/'' @ decimal n, repoPath repo @ ''/issues/'' @ decimal n @ ''/comments''}
        \<and> labelsAsked (geJson env) oper (Stdout res) (cmdStdin c))"

lemma preflight_run:
  assumes "preflight env ad repo q s = (r, s')" and "preflightTarget (ghOperation q) = Inr (n, False)"
  shows "\<exists>view a. ghCalls s' = ghCalls s @ [(view, a)]
    \<and> Args view = apiHeader (APIHost (resProvider repo)) ''GET'' @ [repoPath repo @ ''/issues/'' @ decimal n]
    \<and> ghRead repo (ghOperation q) view
    \<and> (\<forall>x. r = Inr x \<longrightarrow> (\<exists>res. a = Inr res \<and> notPull (geJson env) (Stdout res)))"
proof -
  let ?c = "apiCommand ad (APIHost (resProvider repo)) ''GET'' (repoPath repo @ ''/issues/'' @ decimal n) None maximumMutationBytes"
  have c: "preflightCommand ad repo q = Inr ?c" using assms(2) by (simp add: preflightCommand_def)
  obtain a t where a: "callH env ?c s = (a, t)" by fastforce
  have "s' = t \<and> (\<forall>x. r = Inr x \<longrightarrow> (\<exists>res. a = Inr res \<and> preflightAnswer (geJson env) (ghOperation q) (Stdout res) = Inr ()))"
    using assms(1) a by (auto simp: preflight_def c bind_lift bindH_def Let_def fail_def split: sum.splits if_splits)
  moreover have "preflightAnswer (geJson env) (ghOperation q) raw = rejectPullIssue (geJson env) raw" for raw
    using assms(2) by (simp add: preflightAnswer_def)
  ultimately show ?thesis
    using callH_run [OF a] rejectPullIssue_notPull ghRead_get [of repo "repoPath repo @ ''/issues/'' @ decimal n" "ghOperation q"]
      confined_endpoints(5)
    by (intro exI [of _ ?c] exI [of _ a]) (auto simp: apiCommand_def gh_command_def)
qed

lemma planned_target:
  assumes "ghIssueTarget (ghOperation q) = Some n" and "\<not> multiCall (ghOperation q)"
  shows "requiresPreflight (ghOperation q) \<and> preflightTarget (ghOperation q) = Inr (n, False)
    \<and> labelsAsked reader (ghOperation q) raw input
    \<and> (\<exists>c k. plan ad repo q = Inr (c, k)
         \<and> last (Args c) \<in> {repoPath repo @ ''/issues/'' @ decimal n, repoPath repo @ ''/issues/'' @ decimal n @ ''/comments''})"
  using assms
  by (cases "ghOperation q" rule: ghIssueTarget.cases)
    (auto simp: plan_def forMessage_def labelsAsked_def apiCommand_def gh_command_def stateBody_def)

lemma executePlanned_guarded:
  assumes "executePlanned env ad repo q s = (r, s')" and "ghIssueTarget (ghOperation q) = Some n" and "\<not> multiCall (ghOperation q)"
  shows "\<exists>sent. ghCalls s' = ghCalls s @ sent
    \<and> (list_all (\<lambda>c. ghRead repo (ghOperation q) (fst c)) sent \<or> guardedWrite env repo (ghOperation q) n sent)"
proof -
  have target: "requiresPreflight (ghOperation q)" "preflightTarget (ghOperation q) = Inr (n, False)"
    "labelsAsked reader (ghOperation q) raw input" for reader raw input
    using planned_target [OF assms(2,3)] by blast+
  obtain c k where plan: "plan ad repo q = Inr (c, k)"
    "last (Args c) \<in> {repoPath repo @ ''/issues/'' @ decimal n, repoPath repo @ ''/issues/'' @ decimal n @ ''/comments''}"
    using planned_target [OF assms(2,3)] by blast
  obtain p t where p: "preflight env ad repo q s = (p, t)" by fastforce
  obtain view a where v: "ghCalls t = ghCalls s @ [(view, a)]"
    "Args view = apiHeader (APIHost (resProvider repo)) ''GET'' @ [repoPath repo @ ''/issues/'' @ decimal n]"
    "ghRead repo (ghOperation q) view" "\<forall>x. p = Inr x \<longrightarrow> (\<exists>res. a = Inr res \<and> notPull (geJson env) (Stdout res))"
    using preflight_run [OF p target(2)] by (elim exE conjE) (rule that)
  show ?thesis
  proof (cases p)
    case (Inl e)
    then have "s' = t" using assms(1) p target by (auto simp: executePlanned_def bindH_def)
    with v show ?thesis by simp
  next
    case (Inr budget)
    then obtain res where res: "a = Inr res" "notPull (geJson env) (Stdout res)" using v(4) by blast
    let ?c = "if budget > 0 then c\<lparr>StdoutLimit := budget\<rparr> else c"
    obtain b t' where b: "callH env ?c t = (b, t')" by fastforce
    then have "s' = t'"
      using assms(1) p target Inr plan(1) by (auto simp: executePlanned_def bindH_def split: sum.splits)
    then have calls: "ghCalls s' = ghCalls s @ [(view, Inr res), (?c, b)]" using callH_run [OF b] v(1) res(1) by simp
    have "guardedWrite env repo (ghOperation q) n [(view, Inr res), (?c, b)]"
      unfolding guardedWrite_def using v(2) res(2) plan(2) target by auto
    with calls show ?thesis by blast
  qed
qed

lemma relabelled_asked:
  assumes "relabelled reader r raw = Inr changed" and "validateIssueLabelChange (Some r) = Inr ()"
  shows "labelsAsked reader (GhIssueLabelChange (Some r)) raw (jsonMarshal (jsonMap [(''labels'', JArray (map JString changed))]))"
proof -
  obtain issue current where i: "gh_decode reader intoIssue zeroIssue raw = Inr issue"
    "labelNames (aiLabels issue) = Inr current" "changedLabels current (AddLabels r) (RemoveLabels r) = Inr changed"
    using assms(1) by (auto simp: relabelled_def result_simps providerResponse_def split: if_splits)
  then have "changed = filter (\<lambda>l. l \<notin> set (RemoveLabels r)) current @ filter (\<lambda>l. l \<notin> set current) (AddLabels r)"
    using changedLabels_spec [OF assms(2), of current] by blast
  with i show ?thesis
    unfolding labelsAsked_def by auto
qed

lemma labelChange_guarded:
  assumes "executeIssueLabelChange env ad repo (Some v) s = (r, s')" and "validateIssueLabelChange (Some v) = Inr ()"
  shows "\<exists>sent. ghCalls s' = ghCalls s @ sent
    \<and> (list_all (\<lambda>c. ghRead repo oper (fst c)) sent \<or> guardedWrite env repo (GhIssueLabelChange (Some v)) (lhNumber v) sent)"
proof -
  let ?view = "issueViewCommand ad repo (lhNumber v) maximumMutationBytes"
  obtain p t where p: "callBudgetedH env ?view \<lparr>abLimit = maximumMutationBytes, abUsed = 0\<rparr> s = (p, t)" by fastforce
  have view: "ghRead repo oper (?view\<lparr>StdoutLimit := lim\<rparr>)" for lim by (simp add: commands_read)
  show ?thesis
  proof (cases p)
    case (Inl e)
    then have "s' = t" using assms(1) p by (auto simp: executeIssueLabelChange_def withMessage_def bindH_def)
    with callBudgetedH_run [OF p] view show ?thesis by fastforce
  next
    case (Inr x)
    then obtain lim res where first: "ghCalls t = ghCalls s @ [(?view\<lparr>StdoutLimit := lim\<rparr>, Inr res)]" "fst x = Stdout res"
      using callBudgetedH_run [OF p] by fastforce
    show ?thesis
    proof (cases "\<exists>changed t1. relabelled (geJson env) v (Stdout res) = Inr changed \<and> ctxH env t = (Inr (), t1)")
      case False
      have "ghCalls s' = ghCalls t"
        using assms(1) p Inr first(2) False
        by (cases x; cases "ctxH env t"; cases "fst (ctxH env t)")
          (auto simp: executeIssueLabelChange_def withMessage_def bindH_def ctxH_def split: sum.splits prod.splits)
      with first(1) view show ?thesis by (intro exI [of _ "[(?view\<lparr>StdoutLimit := lim\<rparr>, Inr res)]"]) simp
    next
      case True
      then obtain changed t1 where ch: "relabelled (geJson env) v (Stdout res) = Inr changed" "ctxH env t = (Inr (), t1)" by blast
      then have t1: "ghCalls t1 = ghCalls t" by (auto simp: ctxH_def split: prod.splits)
      let ?wr = "labelWriteCommand ad repo (lhNumber v) changed"
      obtain w t2 where w: "callBudgetedH env ?wr (snd x) t1 = (w, t2)" by fastforce
      have "s' = t2"
        using assms(1) p Inr first(2) ch w
        by (cases x) (auto simp: executeIssueLabelChange_def withMessage_def bindH_def split: sum.splits)
      with callBudgetedH_run [OF w] t1 first(1) consider
          "ghCalls s' = ghCalls s @ [(?view\<lparr>StdoutLimit := lim\<rparr>, Inr res)]"
        | lim' b where "ghCalls s' = ghCalls s @ [(?view\<lparr>StdoutLimit := lim\<rparr>, Inr res), (?wr\<lparr>StdoutLimit := lim'\<rparr>, b)]"
        by auto
      then show ?thesis
      proof cases
        case 1
        with view show ?thesis by (intro exI [of _ "[(?view\<lparr>StdoutLimit := lim\<rparr>, Inr res)]"]) simp
      next
        case 2
        have "guardedWrite env repo (GhIssueLabelChange (Some v)) (lhNumber v)
            [(?view\<lparr>StdoutLimit := lim\<rparr>, Inr res), (?wr\<lparr>StdoutLimit := lim'\<rparr>, b)]"
          unfolding guardedWrite_def using relabelled_notPull [OF ch(1)] relabelled_asked [OF ch(1) assms(2)]
          by (simp add: issueViewCommand_def labelWriteCommand_def apiCommand_def gh_command_def)
        with 2 show ?thesis by blast
      qed
    qed
  qed
qed


text \<open>
  C31. A request that changes an issue changes no pull request. If \<^verbatim>\<open>Execute\<close> of an edit, a comment, a closing, a
  reopening or a label change of issue number n runs a command that is not a read, then it ran exactly two:
  first it read issue n, which was answered by one JSON value without a \<^verbatim>\<open>pull_request\<close> member (GitHub numbers
  issues and pull requests together, and a caller may hold the right to one only); then it wrote to issue n or
  its comments; and the labels a label change writes are the labels that were read without the removed ones,
  followed by the added ones that were not there.
\<close>

theorem issue_writes_guarded:
  assumes "github_Execute env (Some ad) repo (Some q) s = (r, s')" and "ghIssueTarget (ghOperation q) = Some n"
    and "(c, a) \<in> set (drop (length (ghCalls s)) (ghCalls s'))" and "\<not> ghRead repo (ghOperation q) c"
  shows "guardedWrite env repo (ghOperation q) n (drop (length (ghCalls s)) (ghCalls s'))"
proof -
  have "(\<exists>sent. ghCalls s' = ghCalls s @ sent
      \<and> (list_all (\<lambda>c. ghRead repo (ghOperation q) (fst c)) sent \<or> guardedWrite env repo (ghOperation q) n sent))
    \<or> ghCalls s' = ghCalls s"
  proof (cases "ValidateGitHubRequest (Some q) = Inr () \<and> Kind (resProvider repo) = ProviderGitHub")
    case valid: True
    then have d: "github_dispatch env ad repo q s = (r, s')"
      using assms(1) by (simp add: github_Execute_def bindH_def withMessage_def)
    show ?thesis
    proof (cases "multiCall (ghOperation q)")
      case True
      with assms(2) obtain v where "ghOperation q = GhIssueLabelChange (Some v)" "n = lhNumber v"
        by (cases "ghOperation q" rule: ghIssueTarget.cases) auto
      moreover have "validateIssueLabelChange (Some v) = Inr ()"
        using valid calculation by (simp add: ValidateGitHubRequest_def)
      ultimately show ?thesis
        using d labelChange_guarded [of env ad repo v s r s' "ghOperation q"] by (simp add: github_dispatch_def)
    next
      case False
      then have "github_dispatch env ad repo q = executePlanned env ad repo q"
        by (cases "ghOperation q") (simp_all add: github_dispatch_def)
      with d executePlanned_guarded [OF _ assms(2) False, of env ad repo s r s'] show ?thesis by simp
    qed
  next
    case False
    then show ?thesis
      using assms(1) by (auto simp: github_Execute_def bindH_def split: sum.splits if_splits)
  qed
  with assms(3,4) show ?thesis by (force simp: list_all_iff)
qed



section \<open>Responses\<close>

text \<open>The response has the case of the request, and its records are what the request asked for.\<close>

definition issueListed :: "gh_issue_record \<Rightarrow> bool" where
  "issueListed r \<longleftrightarrow> irNumber r \<noteq> 0 \<and> (irState r = ''open'' \<or> irState r = ''closed'') \<and> irBody r \<noteq> None"

text \<open>A repository record that names the resolved repository everywhere.\<close>

definition namesRepository :: "resolved \<Rightarrow> gh_repository_record \<Rightarrow> bool" where
  "namesRepository repo r \<longleftrightarrow>
     rrOwner r = Owner (resRepository repo) \<and> rrRepository r = Name (resRepository repo)
     \<and> rrNameWithOwner r = Owner (resRepository repo) @ ''/'' @ Name (resRepository repo)
     \<and> rrSshUrl r = SSHUser (resProvider repo) @ [CHR 0x40] @ GitHost (resProvider repo) @ '':''
         @ Owner (resRepository repo) @ ''/'' @ Name (resRepository repo) @ ''.git''"

definition responseFor :: "resolved \<Rightarrow> github_operation \<Rightarrow> github_response \<Rightarrow> bool" where
  "responseFor repo oper response =
     (case oper of
        GhCurrentUser _ \<Rightarrow> (case response of GrCurrentUser (Some login) \<Rightarrow> githubLogin login | _ \<Rightarrow> False)
      | GhRepositoryView _ \<Rightarrow>
          (case response of
             GrRepositoryView (Some r) \<Rightarrow> namesRepository repo r
           | _ \<Rightarrow> False)
      | GhLabelList v \<Rightarrow>
          (case response of
             GrLabelList labels \<Rightarrow> int (length labels) \<le> uint (getNumber v) \<and> list_all (\<lambda>l. isOK (labelCreateName l)) labels
           | _ \<Rightarrow> False)
      | GhIssueList v \<Rightarrow>
          (case (v, response) of
             (Some r, GrIssueList issues) \<Rightarrow> int (length issues) \<le> uint (ilLimit r) \<and> list_all issueListed issues
           | _ \<Rightarrow> False)
      | GhIssueView v \<Rightarrow>
          (case (v, response) of
             (Some r, GrIssueView (Some issue)) \<Rightarrow>
               length (irComments issue) \<le> 1000 \<and> (ivIncludeComments r \<or> irComments issue = [])
           | _ \<Rightarrow> False)
      | GhIssueCreate _ \<Rightarrow> (case response of GrIssueCreate (Some _) \<Rightarrow> True | _ \<Rightarrow> False)
      | GhIssueEdit _ \<Rightarrow> (case response of GrIssueEdit (Some _) \<Rightarrow> True | _ \<Rightarrow> False)
      | GhIssueComment _ \<Rightarrow> (case response of GrIssueComment (Some _) \<Rightarrow> True | _ \<Rightarrow> False)
      | GhIssueClose _ \<Rightarrow> (case response of GrIssueClose (Some _) \<Rightarrow> True | _ \<Rightarrow> False)
      | GhIssueReopen _ \<Rightarrow> (case response of GrIssueReopen (Some _) \<Rightarrow> True | _ \<Rightarrow> False)
      | GhLabelCreate v \<Rightarrow> (case (v, response) of (Some r, GrLabelCreate (Some name)) \<Rightarrow> name = lcName r | _ \<Rightarrow> False)
      | GhIssueLabelChange _ \<Rightarrow> (case response of GrIssueLabelChange (Some _) \<Rightarrow> True | _ \<Rightarrow> False)
      | GhPullList _ \<Rightarrow> (case response of GrPullList rs \<Rightarrow> list_all (\<lambda>r. prMergeableState r = None) rs | _ \<Rightarrow> False)
      | GhPullView _ \<Rightarrow> (case response of GrPullView (Some _) \<Rightarrow> True | _ \<Rightarrow> False)
      | GhPullCreate _ \<Rightarrow> (case response of GrPullCreate (Some _) \<Rightarrow> True | _ \<Rightarrow> False)
      | GhPullEdit _ \<Rightarrow> (case response of GrPullEdit (Some _) \<Rightarrow> True | _ \<Rightarrow> False)
      | GhPullComment _ \<Rightarrow> (case response of GrPullComment (Some _) \<Rightarrow> True | _ \<Rightarrow> False)
      | GhPullClose _ \<Rightarrow> (case response of GrPullClose (Some _) \<Rightarrow> True | _ \<Rightarrow> False)
      | GhPullReopen _ \<Rightarrow> (case response of GrPullReopen (Some _) \<Rightarrow> True | _ \<Rightarrow> False)
      | GhPullReady _ \<Rightarrow> (case response of GrPullReady (Some _) \<Rightarrow> True | _ \<Rightarrow> False)
      | GhPullChecks _ \<Rightarrow> (case response of GrPullChecks checks \<Rightarrow> length checks \<le> 1000 | _ \<Rightarrow> False)
      | GhRunList _ \<Rightarrow> (case response of GrRunList rs \<Rightarrow> list_all (\<lambda>r. nrAttempt r = None \<and> nrJobsUrl r = None) rs | _ \<Rightarrow> False)
      | GhRunView _ \<Rightarrow> (case response of GrRunView (Some r) \<Rightarrow> nrAttempt r \<noteq> None \<and> nrJobsUrl r \<noteq> None | _ \<Rightarrow> False)
      | GhStatusView _ \<Rightarrow> (case response of GrStatusView (Some _) \<Rightarrow> True | _ \<Rightarrow> False)
      | GhNone \<Rightarrow> False)"

fun paginated :: "github_operation \<Rightarrow> bool" where
  "paginated (GhLabelList _) = True"
| "paginated (GhIssueList _) = True"
| "paginated (GhIssueView _) = True"
| "paginated _ = False"

definition gives :: "('a \<Rightarrow> bool) \<Rightarrow> ('w, 'a) gh_m \<Rightarrow> bool" where
  "gives Q m \<longleftrightarrow> (\<forall>s x s'. m s = (Inr x, s') \<longrightarrow> Q x)"

lemma gives_bind: "(\<And>x s s'. m s = (Inr x, s') \<Longrightarrow> gives Q (f x)) \<Longrightarrow> gives Q (bindH m f)"
  unfolding gives_def bindH_Inr by blast

lemma gives_then: "gives P m \<Longrightarrow> (\<And>x. P x \<Longrightarrow> gives Q (f x)) \<Longrightarrow> gives Q (bindH m f)"
  unfolding gives_def bindH_Inr by blast

lemma gives_lift: "gives Q (liftH r) \<longleftrightarrow> (\<forall>x. r = Inr x \<longrightarrow> Q x)"
  by (auto simp: gives_def)

lemma gives_pure: "(\<And>x. r = Inr x \<Longrightarrow> gives Q (f x)) \<Longrightarrow> gives Q (bindH (liftH r) f)"
  by (rule gives_bind) simp

lemma gives_if: "(c \<Longrightarrow> gives Q m) \<Longrightarrow> (\<not> c \<Longrightarrow> gives Q m') \<Longrightarrow> gives Q (if c then m else m')"
  by simp

lemma providerResponse_neq [simp]: "providerResponse e f \<noteq> Inr x"
  by (cases e) (simp_all add: providerResponse_def)

lemma collectAll_Inr: "collectAll f xs = Inr ys \<longleftrightarrow> list_all2 (\<lambda>x y. f x = Inr y) xs ys"
  by (induction xs arbitrary: ys) (auto simp: result_simps list_all2_Cons1)

lemma relabel_Inr [simp]: "relabel r f = Inr x \<longleftrightarrow> r = Inr x"
  by (cases r) (simp_all add: relabel_def)

lemma graphQLIssueRecord_listed: "graphQLIssueRecord v = Inr r \<Longrightarrow> issueListed r"
proof -
  have "toLower ''OPEN'' = ''open''" "toLower ''CLOSED'' = ''closed''" by code_simp+
  then show "graphQLIssueRecord v = Inr r \<Longrightarrow> issueListed r"
    by (auto simp: graphQLIssueRecord_def result_simps issueListed_def gh_number_def gh_invalid_def split: if_splits)
qed

lemma page_listed:
  assumes "normalizeIssueGraphQLPage reader raw first = Inr page"
  shows "int (length (ipRecords page)) \<le> first \<and> list_all issueListed (ipRecords page)"
proof -
  obtain vs where "int (length vs) \<le> first" "collectAll graphQLIssueRecord vs = Inr (ipRecords page)"
    using assms by (auto simp: normalizeIssueGraphQLPage_def result_simps not_less split: if_splits option.splits prod.splits)
  then have "length vs = length (ipRecords page)" "list_all issueListed (ipRecords page)"
    using graphQLIssueRecord_listed by (auto simp: collectAll_Inr list_all2_conv_all_nth list_all_length)
  with \<open>int (length vs) \<le> first\<close> show ?thesis by simp
qed

lemma issuePages_gives:
  "int (length records) \<le> uint (ilLimit r) \<Longrightarrow> list_all issueListed records \<Longrightarrow>
     gives (\<lambda>rs. int (length rs) \<le> uint (ilLimit r) \<and> list_all issueListed rs) (issuePages env ad repo r n b cursor seen records)"
proof (induction n arbitrary: b cursor seen records)
  case (Suc n)
  show ?case
  proof (cases "int (length records) \<ge> uint (ilLimit r)")
    case False
    have grown: "int (length (records @ ipRecords page)) \<le> uint (ilLimit r) \<and> list_all issueListed (records @ ipRecords page)"
      if "normalizeIssueGraphQLPage reader raw (min 100 (uint (ilLimit r) - int (length records))) = Inr page" for reader raw page
      using page_listed [OF that] Suc.prems by simp
    show ?thesis
      using False grown Suc.IH
      by (auto simp: Let_def gives_lift intro!: gives_bind gives_pure split: option.split)
  qed (use Suc.prems in \<open>simp add: gives_def\<close>)
qed (simp add: gives_lift fail_def)

lemma labelPage_valid: "normalizeLabelPage reader raw n = Inr ls \<Longrightarrow> list_all (\<lambda>l. isOK (labelCreateName l)) ls"
proof -
  assume "normalizeLabelPage reader raw n = Inr ls"
  then obtain vs where "collectAll gh_labelRecord vs = Inr ls"
    by (auto simp: normalizeLabelPage_def result_simps split: option.splits if_splits)
  then have "\<exists>v. gh_labelRecord v = Inr l" if "l \<in> set ls" for l
    using that by (auto simp: collectAll_Inr list_all2_conv_all_nth in_set_conv_nth)
  then show ?thesis
    by (fastforce simp: list_all_iff gh_labelRecord_def result_simps split: if_splits)
qed

lemma labelPages_gives:
  "int (length labels) \<le> lim \<Longrightarrow> list_all (\<lambda>l. isOK (labelCreateName l)) labels \<Longrightarrow>
     gives (\<lambda>ls. int (length ls) \<le> lim \<and> list_all (\<lambda>l. isOK (labelCreateName l)) ls) (ghLabelPages env ad repo lim n page b labels)"
proof (induction n arbitrary: page b labels)
  case (Suc n)
  have grown: "int (length (labels @ take (nat (lim - int (length labels))) rs)) \<le> lim
      \<and> list_all (\<lambda>l. isOK (labelCreateName l)) (labels @ take (nat (lim - int (length labels))) rs)"
    if "normalizeLabelPage reader raw m = Inr rs" for reader raw m rs
    using labelPage_valid [OF that] Suc.prems by (auto simp: list_all_iff dest: in_set_takeD)
  show ?case
    unfolding ghLabelPages.simps Let_def
    by (intro gives_bind) (use grown Suc.IH in \<open>auto simp: gives_lift intro!: gives_pure\<close>)
qed (simp add: fail_def gives_lift)


lemma commentPage_size: "normalizeIssueCommentPage reader raw n = Inr cs \<Longrightarrow> int (length cs) \<le> n"
proof -
  assume "normalizeIssueCommentPage reader raw n = Inr cs"
  then obtain vs where "collectAll gh_commentRecord vs = Inr cs" "int (length vs) \<le> n"
    by (auto simp: normalizeIssueCommentPage_def result_simps not_less split: option.splits if_splits)
  then show ?thesis using list_all2_lengthD by (fastforce simp: collectAll_Inr)
qed

lemma commentPage_gives:
  "gives (\<lambda>x. int (length (fst x)) \<le> perPage) (callIssueCommentPage env ad repo n page perPage b)"
  unfolding callIssueCommentPage_def gives_def
  using commentPage_size by (fastforce simp: bindH_Inr)

lemma commentPages_gives:
  "length comments + 100 * k \<le> 1000 \<Longrightarrow> gives (\<lambda>cs. length cs \<le> 1000) (ghCommentPages env ad repo n k page b comments)"
proof (induction k arbitrary: page b comments)
  case 0
  then show ?case by (auto simp: gives_def bindH_Inr fail_def split: if_splits)
next
  case (Suc k)
  show ?case
    unfolding ghCommentPages.simps
  proof (rule gives_then [OF commentPage_gives])
    fix x :: "gh_comment_record list \<times> aggregate_budget"
    assume "int (length (fst x)) \<le> issueCommentPageSize"
    with Suc.prems show "gives (\<lambda>cs. length cs \<le> 1000) (case x of (records, b') \<Rightarrow> let comments' = comments @ records in
        if int (length records) < issueCommentPageSize then liftH (Inr comments')
        else ghCommentPages env ad repo n k (page + 1) b' comments')"
      using Suc.IH [of "comments @ fst x" "page + 1" "snd x"] by (cases x) (auto simp: Let_def issueCommentPageSize_def gives_def)
  qed
qed

lemma addCheck_Inr:
  "addCheck convert tot (seen, records) e = Inr x \<Longrightarrow> \<exists>r. x = (seen + 1, records @ [r]) \<and> length records < 1000"
  by (auto simp: addCheck_def result_simps fail_def maximumCheckRecords_def split: if_splits)

lemma addChecks_bound:
  "foldE (addCheck convert tot) (seen, records) entries = Inr x \<Longrightarrow> length records \<le> 1000 \<Longrightarrow> length (snd x) \<le> 1000"
proof (induction entries arbitrary: seen records)
  case (Cons e es)
  then obtain y where y: "addCheck convert tot (seen, records) e = Inr y" "foldE (addCheck convert tot) y es = Inr x"
    by (auto simp: result_simps)
  then obtain r where "y = (seen + 1, records @ [r])" "length records < 1000" using addCheck_Inr [OF y(1)] by blast
  with y(2) Cons.IH show ?case by simp
qed auto

lemma appendPages_gives:
  "length records \<le> 1000 \<Longrightarrow> gives (\<lambda>x. length (snd (snd x)) \<le> 1000)
     (appendPages env ad repo endpoint entriesOf tooMany incomplete convert n page used seen records)"
proof (induction n arbitrary: page used seen records)
  case (Suc n)
  have rest: "gives (\<lambda>x. length (snd (snd x)) \<le> 1000)
      (if tot \<le> page * 100 then (if fst y < tot then liftH (providerResponse None incomplete) else liftH (Inr (n, used', snd y)))
       else appendPages env ad repo endpoint entriesOf tooMany incomplete convert n (page + 1) used' (fst y) (snd y))"
    if "foldE (addCheck convert tot) (seen, records) entries = Inr y" for used' tot entries y
    using Suc.IH [of "snd y"] addChecks_bound [OF that Suc.prems] by (simp add: gives_def)
  show ?case
    unfolding appendPages.simps case_prod_beta
    by (rule gives_bind, rule gives_pure, rule gives_if, simp add: gives_def fail_def, rule gives_if, simp add: gives_def,
        rule gives_pure, rule rest)
qed (simp add: gives_def fail_def)

lemma boundedBy_Inr: "boundedBy env n x = Inr y \<longleftrightarrow> y = x \<and> geSize env x \<le> n"
  by (auto simp: boundedBy_def fail_def)

lemma repositoryTarget_Inr:
  "repositoryTarget lib r repo = Inr () \<Longrightarrow> namesRepository repo r"
  by (auto simp: repositoryTarget_def namesRepository_def Let_def split: if_splits option.splits)

lemma runDetails: "gh_runRecord v True = Inr r \<Longrightarrow> nrAttempt r \<noteq> None \<and> nrJobsUrl r \<noteq> None"
  by (auto simp: gh_runRecord_def result_simps Let_def split: if_splits)

lemma collectAll_all: "collectAll f xs = Inr ys \<Longrightarrow> (\<And>x y. f x = Inr y \<Longrightarrow> P y) \<Longrightarrow> list_all P ys"
  by (auto simp: collectAll_Inr list_all2_conv_all_nth list_all_length)

lemma pullsPlain: "collectAll (\<lambda>v. gh_pullRecord v False) vs = Inr rs \<Longrightarrow> list_all (\<lambda>r. prMergeableState r = None) rs"
proof (erule collectAll_all)
  show "prMergeableState r = None" if "gh_pullRecord v False = Inr r" for v r
    using that by (cases "apHead v"; cases "apBase v") (auto simp: gh_pullRecord_def result_simps)
qed

lemma runsPlain:
  "collectAll (\<lambda>v. gh_runRecord v False) vs = Inr rs \<Longrightarrow> list_all (\<lambda>r. nrAttempt r = None \<and> nrJobsUrl r = None) rs"
  by (erule collectAll_all) (auto simp: gh_runRecord_def result_simps Let_def)

text \<open>What each normalizer makes.\<close>

lemma normalizers:
  "normalizeWithRepository reader lib (Some repo) oper ''current_user'' raw = Inr x \<Longrightarrow> \<exists>l. x = GrCurrentUser (Some l) \<and> githubLogin l"
  "normalizeWithRepository reader lib (Some repo) oper ''repository'' raw = Inr x \<Longrightarrow> \<exists>r. x = GrRepositoryView (Some r) \<and> namesRepository repo r"
  "normalizeWithRepository reader lib (Some repo) (GhLabelCreate v) ''label_create'' raw = Inr x \<Longrightarrow> \<exists>r. v = Some r \<and> x = GrLabelCreate (Some (lcName r))"
  "normalizeWithRepository reader lib target oper ''issue'' raw = Inr x \<Longrightarrow> \<exists>r. issueResponse oper r = Inr x"
  "normalizeWithRepository reader lib target oper ''comment'' raw = Inr x \<Longrightarrow> \<exists>r. commentResponse oper r = Inr x"
  "normalizeWithRepository reader lib target oper ''pull_list'' raw = Inr x \<Longrightarrow> \<exists>rs. x = GrPullList rs
     \<and> list_all (\<lambda>r. prMergeableState r = None) rs"
  "normalizeWithRepository reader lib target oper ''pull'' raw = Inr x \<Longrightarrow> \<exists>r. pullResponse oper r = Inr x"
  "normalizeWithRepository reader lib target oper ''run_list'' raw = Inr x \<Longrightarrow> \<exists>rs. x = GrRunList rs
     \<and> list_all (\<lambda>r. nrAttempt r = None \<and> nrJobsUrl r = None) rs"
  "normalizeWithRepository reader lib target oper ''run'' raw = Inr x \<Longrightarrow> \<exists>r. x = GrRunView (Some r) \<and> nrAttempt r \<noteq> None \<and> nrJobsUrl r \<noteq> None"
  "normalizeWithRepository reader lib target oper ''status'' raw = Inr x \<Longrightarrow> \<exists>r. x = GrStatusView (Some r)"
  unfolding normalizeWithRepository_def
  using repositoryTarget_Inr runDetails pullsPlain runsPlain
  by (fastforce simp: result_simps currentUserResponse_def labelCreated_def split: if_splits option.splits)+

lemma planned_response:
  assumes "planCall base oper = Inr (meth, endpoint, kind, inp)" and "\<not> multiCall oper"
    and "normalizeWithRepository reader lib (Some repo) oper kind raw = Inr x"
  shows "responseFor repo oper x"
  using assms
  by (cases oper) (auto simp: forMessage_def nilDereference_def fail_def responseFor_def split: option.splits dest!: normalizers)


definition ghAnswer :: "'w gh_env \<Rightarrow> resolved \<Rightarrow> github_operation \<Rightarrow> github_response \<Rightarrow> bool" where
  "ghAnswer env repo oper x \<longleftrightarrow>
     responseFor repo oper x \<and> geSize env x \<le> (if paginated oper then maximumPaginatedReadBytes else maximumResponseBytes)"

lemma gives_message: "(\<And>x. v = Some x \<Longrightarrow> gives Q (f x)) \<Longrightarrow> gives Q (withMessage v f)"
  by (cases v) (simp_all add: withMessage_def gives_def nilDereference_def)

lemma executePlanned_gives:
  assumes "\<not> multiCall (ghOperation q)"
  shows "gives (ghAnswer env repo (ghOperation q)) (executePlanned env ad repo q)"
proof -
  have small: "\<not> paginated (ghOperation q)" using assms by (cases "ghOperation q") auto
  have answer: "ghAnswer env repo (ghOperation q) x"
    if "plan ad repo q = Inr (c, kind)"
      and "bindE (normalizeWithRepository (geJson env) (geLink env) (Some repo) (ghOperation q) kind raw) (boundedBy env maximumResponseBytes) = Inr x"
    for c kind raw x
  proof -
    note planned = that(1)
    obtain meth endpoint inp where "planCall (repoPath repo) (ghOperation q) = Inr (meth, endpoint, kind, inp)"
      using planned by (auto simp: plan_def result_simps)
    then have "responseFor repo (ghOperation q) y"
      if "normalizeWithRepository (geJson env) (geLink env) (Some repo) (ghOperation q) kind raw = Inr y" for y
      using planned_response assms that by blast
    with that(2) small show ?thesis by (auto simp: result_simps boundedBy_Inr ghAnswer_def)
  qed
  show ?thesis
    unfolding executePlanned_def
    by (rule gives_bind, rule gives_pure) (auto simp: gives_def bindH_Inr intro: answer)
qed

lemma labelList_gives: "gives (ghAnswer env repo (GhLabelList v)) (executeLabelList env ad repo v)"
  unfolding executeLabelList_def
  by (rule gives_then [OF labelPages_gives]) (auto simp: gives_def boundedBy_Inr responseFor_def ghAnswer_def)

lemma issueList_gives: "gives (ghAnswer env repo (GhIssueList v)) (executeIssueList env ad repo v)"
  unfolding executeIssueList_def
  by (rule gives_message, rule gives_then [OF issuePages_gives]) (auto simp: gives_def boundedBy_Inr responseFor_def ghAnswer_def)

lemma issueView_comments: "normalizeIssueViewRecord reader raw = Inr r \<Longrightarrow> irComments r = []"
  by (auto simp: normalizeIssueViewRecord_def gh_issueRecord_def result_simps)

lemma issueView_gives: "gives (ghAnswer env repo (GhIssueView v)) (executeIssueView env ad repo v)"
proof -
  have comments: "gives (\<lambda>cs. length cs \<le> 1000) (fetchIssueComments env ad repo n b)" for n b
    unfolding fetchIssueComments_def maximumIssueCommentPages_def by (rule commentPages_gives) simp
  have one: "ghAnswer env repo (GhIssueView (Some r)) x" if "normalizeBoundedIssueView env raw = Inr x" for raw x r
    using that issueView_comments
    by (auto simp: normalizeBoundedIssueView_def boundedIssueViewResponse_def result_simps boundedBy_Inr responseFor_def ghAnswer_def)
  have all: "gives (ghAnswer env repo (GhIssueView (Some r)))
      (bindH (fetchIssueComments env ad repo n b) (\<lambda>cs. liftH (boundedIssueViewResponse env (issue\<lparr>irComments := cs\<rparr>))))"
    if "ivIncludeComments r" for r n b issue
    by (rule gives_then [OF comments]) (use that in \<open>auto simp: gives_def boundedIssueViewResponse_def boundedBy_Inr responseFor_def ghAnswer_def\<close>)
  show ?thesis
    unfolding executeIssueView_def Let_def case_prod_beta
  proof (rule gives_message)
    fix r
    assume v: "v = Some r"
    show "gives (ghAnswer env repo (GhIssueView v))
       (if \<not> ivIncludeComments r
        then bindH (callH env (issueViewCommand ad repo (ivNumber r) (outputLimit ''issue''))) (\<lambda>res. liftH (normalizeBoundedIssueView env (Stdout res)))
        else bindH (callBudgetedH env (issueViewCommand ad repo (ivNumber r) (outputLimit ''issue'')) \<lparr>abLimit = maximumPaginatedReadBytes, abUsed = 0\<rparr>)
          (\<lambda>p. bindH (liftH (normalizeIssueViewRecord (geJson env) (fst p))) (\<lambda>issue. bindH (fetchIssueComments env ad repo (ivNumber r) (snd p))
            (\<lambda>comments. liftH (boundedIssueViewResponse env (issue\<lparr>irComments := comments\<rparr>))))))"
      unfolding v by (rule gives_if, rule gives_bind, simp only: gives_lift, blast intro: one, rule gives_bind, rule gives_pure, rule all, simp)
  qed
qed

lemma labelChange_gives: "gives (ghAnswer env repo (GhIssueLabelChange v)) (executeIssueLabelChange env ad repo v)"
  unfolding executeIssueLabelChange_def case_prod_beta
  by (intro gives_message gives_bind) (auto simp: gives_def result_simps boundedBy_Inr responseFor_def ghAnswer_def dest!: normalizers(4))

lemma ready_gives: "gives (ghAnswer env repo (GhPullReady v)) (executeReady env ad repo v)"
  unfolding executeReady_def
  by (intro gives_message gives_bind) (auto simp: gives_def result_simps boundedBy_Inr responseFor_def ghAnswer_def dest!: normalizers(7))

lemma checks_gives: "gives (ghAnswer env repo (GhPullChecks v)) (executeChecks env ad repo v)"
proof -
  have statuses: "gives (ghAnswer env repo (GhPullChecks v)) (bindH (appendStatusPages env ad repo sha pages used records)
      (\<lambda>x. liftH (boundedBy env maximumResponseBytes (GrPullChecks (snd (snd x))))))" if "length records \<le> 1000" for sha pages used records
    unfolding appendStatusPages_def
    by (rule gives_then [OF appendPages_gives [OF that]]) (auto simp: gives_def boundedBy_Inr responseFor_def ghAnswer_def)
  show ?thesis
    unfolding executeChecks_def appendCheckPages_def case_prod_beta
    by (rule gives_message, rule gives_bind, rule gives_pure, rule gives_then [OF appendPages_gives], simp, rule statuses)
qed

text \<open>
  C32. A successful answer is the one that was asked for. If \<^verbatim>\<open>Execute\<close> succeeds then the response is of the kind of
  the request and its record is there; a viewed repository has the owner, the name, the full name and the SSH
  address of the resolved one; the current user is a login; a created label has the requested name; lists of
  issues and labels are not longer than the limit of the request, and the listed issues have a number, a body
  and a known state; listed pull requests and runs carry no details and a viewed run carries all of them (how
  many of them are listed is left to the provider); there are at most 1000 comments and none that was not
  asked for, and at most 1000 checks; and the encoded response is within 8 MiB for the reads over several
  pages and within 1 MiB otherwise.
\<close>

theorem github_response_typed:
  assumes "github_Execute env adapter repo (Some q) s = (Inr response, s')"
  shows "responseFor repo (ghOperation q) response
    \<and> geSize env response \<le> (if paginated (ghOperation q) then maximumPaginatedReadBytes else maximumResponseBytes)"
proof -
  obtain ad where "github_dispatch env ad repo q s = (Inr response, s')"
    using assms by (auto simp: github_Execute_def bindH_Inr withMessage_def fail_def split: option.splits if_splits)
  moreover have "gives (ghAnswer env repo (ghOperation q)) (github_dispatch env ad repo q)"
    using executePlanned_gives [of q]
    by (cases "ghOperation q") (simp_all add: github_dispatch_def labelList_gives issueList_gives issueView_gives
        labelChange_gives checks_gives ready_gives)
  ultimately show ?thesis unfolding gives_def ghAnswer_def by blast
qed


section \<open>An example\<close>

text \<open>A label change of an issue that the GitHub CLI answers with the same record twice.\<close>

definition exampleIssueDoc :: jdoc where
  "exampleIssueDoc = DObject
     [(''number'', DNumber ''7''), (''title'', DString ''t''), (''body'', DNull), (''state'', DString ''open''),
      (''user'', DObject [(''login'', DString ''u'')]), (''assignees'', DArray []),
      (''labels'', DArray [DObject [(''name'', DString ''bug'')], DObject [(''name'', DString ''old'')]]), (''html_url'', DString ''h''),
      (''created_at'', DString ''c''), (''updated_at'', DString ''d'')]"

definition exampleGhEnv :: "unit gh_env" where
  "exampleGhEnv = \<lparr>geCall = (\<lambda>c w. ((\<lparr>Stdout = ''{}'', resExitCode = 0, TimedOut = False, StdinBytes = 0, StdoutBytes = 2,
       StderrBytes = 0\<rparr>, None), w)), geCtxErr = (\<lambda>w. (None, w)),
     geJson = (\<lambda>raw. if raw = ''{}'' then Some (exampleIssueDoc, True) else None),
     geLink = \<lparr>linkParse = (\<lambda>_. None), hostFold = (\<lambda>a b. a = b)\<rparr>, geQuery = (\<lambda>_. Inr []),
     geHttp = (\<lambda>_. errorf ''malformed HTTP response''), geSize = (\<lambda>_. 0)\<rparr>"

definition exampleLabelChange :: github_request where
  "exampleLabelChange = \<lparr>ghContext = None, ghOperation = GhIssueLabelChange (Some
     \<lparr>lhNumber = 7, AddLabels = [''ready''], RemoveLabels = [''old'']\<rparr>)\<rparr>"

definition exampleGhRun :: "github_response result \<times> unit gh_state" where
  "exampleGhRun = github_Execute exampleGhEnv (Some exampleAdapter) (lookupRepository exampleSnapshot ''alpha'')
     (Some exampleLabelChange) \<lparr>ghWorld = (), ghCalls = []\<rparr>"

lemma exampleGhRun_facts:
  "isOK (fst exampleGhRun)" "length (ghCalls (snd exampleGhRun)) = 2"
  "Args (fst (ghCalls (snd exampleGhRun) ! 1)) ! 4 = ''PATCH''"
  by code_simp+


text \<open>The fifth argument of a read is not PATCH.\<close>

lemma patch_not_read: "Args c ! 4 = ''PATCH'' \<Longrightarrow> \<not> ghRead repo oper c"
  by (auto simp: ghRead_def apiHeader_def)

theorem issue_writes_guarded_witness:
  "guardedWrite exampleGhEnv (lookupRepository exampleSnapshot ''alpha'') (ghOperation exampleLabelChange) 7 (ghCalls (snd exampleGhRun))"
proof -
  obtain r s' where run: "exampleGhRun = (r, s')" by fastforce
  then have e: "github_Execute exampleGhEnv (Some exampleAdapter) (lookupRepository exampleSnapshot ''alpha'')
      (Some exampleLabelChange) \<lparr>ghWorld = (), ghCalls = []\<rparr> = (r, s')" by (simp add: exampleGhRun_def)
  have target: "ghIssueTarget (ghOperation exampleLabelChange) = Some 7" by code_simp
  have mem: "(fst (ghCalls s' ! 1), snd (ghCalls s' ! 1)) \<in> set (drop (length (ghCalls \<lparr>ghWorld = (), ghCalls = []\<rparr>)) (ghCalls s'))"
    using exampleGhRun_facts(2) [unfolded run] by simp
  have "\<not> ghRead (lookupRepository exampleSnapshot ''alpha'') (ghOperation exampleLabelChange) (fst (ghCalls s' ! 1))"
    using patch_not_read exampleGhRun_facts(3) [unfolded run] by simp
  from issue_writes_guarded [OF e target mem this] show ?thesis by (simp add: run)
qed

theorem github_response_typed_witness:
  "\<exists>response. fst exampleGhRun = Inr response
     \<and> responseFor (lookupRepository exampleSnapshot ''alpha'') (ghOperation exampleLabelChange) response"
proof -
  obtain r s' where run: "exampleGhRun = (r, s')" by fastforce
  obtain response where "r = Inr response" using exampleGhRun_facts(1) [unfolded run] by (cases r) auto
  then have "github_Execute exampleGhEnv (Some exampleAdapter) (lookupRepository exampleSnapshot ''alpha'')
      (Some exampleLabelChange) \<lparr>ghWorld = (), ghCalls = []\<rparr> = (Inr response, s')" using run by (simp add: exampleGhRun_def)
  from github_response_typed [OF this] \<open>r = Inr response\<close> show ?thesis by (simp add: run)
qed

end
