(* ===== verification/Gitea_Edit.thy ===== *)
theory Gitea_Edit
  imports Gitea_Request
begin

text \<open>
  Package \<^verbatim>\<open>internal/provider/gitea\<close>, what an issue edit has to do: the intent of a request, whether an
  issue satisfies it and the plan that makes it so (\<^verbatim>\<open>issue_edit_plan.go\<close>), on the normalised form of
  an issue (\<^verbatim>\<open>issue_normalize.go\<close>).

  The maps that \<^verbatim>\<open>nameSet\<close> builds are sets; the names collected by ranging over one and then sorted
  are the sorted list of a set.
\<close>

record normalized_issue =
  niIndex :: int
  niAuthorID :: int
  niCommentCount :: int
  niState :: int
  niAuthor :: string
  niUrl :: string
  niTitle :: string
  niBody :: string
  niOwner :: string
  niRepo :: string
  niCreated :: int
  niUpdated :: int
  niDeadline :: "int option"
  niAssignees :: "string list"
  niLabels :: "string list"
  niLabelIDs :: "string \<rightharpoonup> int"
  niMilestone :: "string option"

datatype edit_mode = EditNone | EditSet | EditAdd | EditRemove

record edit_intent =
  inTitle :: "string option"
  inBody :: "string option"
  assigneeMode :: edit_mode
  inAssignees :: "string list"
  labelMode :: edit_mode
  inLabels :: "string list"

record edit_catalogs =
  catAssignees :: "string \<rightharpoonup> int"
  catLabels :: "string \<rightharpoonup> int"

record text_edit =
  teTitle :: string
  teBody :: "string option"

record edit_plan =
  planText :: "text_edit option"
  removeAssignees :: "string list"
  addAssignees :: "string list"
  addLabelIDs :: "int list"
  removeLabelIDs :: "int list"

text \<open>A missing key of an integer map reads as zero.\<close>

definition idOf :: "(string \<rightharpoonup> int) \<Rightarrow> string \<Rightarrow> int" where
  "idOf m k = (case m k of None \<Rightarrow> 0 | Some n \<Rightarrow> n)"

definition valuesOf :: "string list option \<Rightarrow> string list" where
  "valuesOf l = (case l of None \<Rightarrow> [] | Some vs \<Rightarrow> vs)"

definition normalizeEditIntent :: "gt_issue_edit option \<Rightarrow> edit_intent result" where
  "normalizeEditIntent request =
     bindE (gt_validateIssueEdit request) (\<lambda>_.
       case request of
         None \<Rightarrow> gt_invalid
       | Some r \<Rightarrow>
           (let (am, as) = (case gieAssigneeAction r of
                  None \<Rightarrow> (EditNone, [])
                | Some (SetAssignees l) \<Rightarrow> (EditSet, valuesOf l)
                | Some (AddAssignees l) \<Rightarrow> (EditAdd, valuesOf l)
                | Some (RemoveAssignees l) \<Rightarrow> (EditRemove, valuesOf l));
                (lm, ls) = (case gieLabelAction r of
                  None \<Rightarrow> (EditNone, [])
                | Some (GtAddLabels l) \<Rightarrow> (EditAdd, valuesOf l)
                | Some (GtRemoveLabels l) \<Rightarrow> (EditRemove, valuesOf l)) in
            Inr \<lparr>inTitle = gieTitle r, inBody = gieDescription r, assigneeMode = am, inAssignees = as,
                 labelMode = lm, inLabels = ls\<rparr>))"

definition textDiffers :: "edit_intent \<Rightarrow> normalized_issue \<Rightarrow> bool" where
  "textDiffers intent issue =
     ((case inTitle intent of None \<Rightarrow> False | Some t \<Rightarrow> niTitle issue \<noteq> t)
      \<or> (case inBody intent of None \<Rightarrow> False | Some b \<Rightarrow> niBody issue \<noteq> b))"

definition editSatisfied :: "edit_intent \<Rightarrow> normalized_issue option \<Rightarrow> bool" where
  "editSatisfied intent issue =
     (case issue of
        None \<Rightarrow> False
      | Some issue \<Rightarrow>
          if textDiffers intent issue then False
          else
            (let current = set (niAssignees issue); requested = set (inAssignees intent);
                 currentLabels = set (niLabels issue); requestedLabels = set (inLabels intent) in
             (case assigneeMode intent of
                EditSet \<Rightarrow> card current = card requested \<and> requested \<subseteq> current
              | EditAdd \<Rightarrow> requested \<subseteq> current
              | EditRemove \<Rightarrow> requested \<inter> current = {}
              | EditNone \<Rightarrow> True)
             \<and> (labelMode intent = EditAdd \<longrightarrow> requestedLabels \<subseteq> currentLabels)
             \<and> (labelMode intent = EditRemove \<longrightarrow> requestedLabels \<inter> currentLabels = {})))"

definition planText_of :: "edit_intent \<Rightarrow> normalized_issue \<Rightarrow> text_edit option" where
  "planText_of intent issue =
     (if textDiffers intent issue
      then Some \<lparr>teTitle = (case inTitle intent of None \<Rightarrow> niTitle issue | Some t \<Rightarrow> t), teBody = inBody intent\<rparr>
      else None)"

definition assigneeChanges :: "edit_intent \<Rightarrow> normalized_issue \<Rightarrow> string set \<times> string set" where
  "assigneeChanges intent issue =
     (let current = set (niAssignees issue); target = set (inAssignees intent) in
      case assigneeMode intent of
        EditSet \<Rightarrow> (current - target, target - current)
      | EditAdd \<Rightarrow> ({}, target - current)
      | EditRemove \<Rightarrow> (target \<inter> current, {})
      | EditNone \<Rightarrow> ({}, {}))"

definition labelChanges :: "edit_intent \<Rightarrow> normalized_issue \<Rightarrow> string set \<times> string set" where
  "labelChanges intent issue =
     (let current = set (niLabels issue); target = set (inLabels intent) in
      (if labelMode intent = EditAdd then target - current else {},
       if labelMode intent = EditRemove then target \<inter> current else {}))"

definition appendID :: "(string \<rightharpoonup> int) \<Rightarrow> int list \<Rightarrow> string \<Rightarrow> int list result" where
  "appendID m ids name =
     (if idOf m name \<le> 0 then errorf ''missing label'' else Inr (ids @ [idOf m name]))"

definition planIssueEdit ::
  "edit_intent \<Rightarrow> normalized_issue option \<Rightarrow> edit_catalogs \<Rightarrow> edit_plan result" where
  "planIssueEdit intent issue catalogs =
     (case issue of
        None \<Rightarrow> errorf ''invalid issue''
      | Some issue \<Rightarrow>
          (case (assigneeChanges intent issue, labelChanges intent issue) of
             ((removeA, addA), (addL, removeL)) \<Rightarrow>
               bindE (foldE (appendID (catLabels catalogs)) [] (sorted_list_of_set addL)) (\<lambda>adds.
               bindE (foldE (appendID (niLabelIDs issue)) [] (sorted_list_of_set removeL)) (\<lambda>removes.
                 Inr \<lparr>planText = planText_of intent issue,
                      removeAssignees = sorted_list_of_set removeA, addAssignees = sorted_list_of_set addA,
                      addLabelIDs = adds, removeLabelIDs = removes\<rparr>))))"

definition plan_empty :: "edit_plan \<Rightarrow> bool" where
  "plan_empty plan =
     (planText plan = None \<and> removeAssignees plan = [] \<and> addAssignees plan = []
      \<and> addLabelIDs plan = [] \<and> removeLabelIDs plan = [])"


section \<open>Correctness of plans\<close>

lemma foldE_appendID:
  "foldE (appendID m) ids names = Inr ids' \<longleftrightarrow> (\<forall>n \<in> set names. idOf m n > 0) \<and> ids' = ids @ map (idOf m) names"
  by (induct names arbitrary: ids) (auto simp: appendID_def result_simps)

lemma planIssueEdit_Inr:
  assumes "planIssueEdit intent (Some issue) catalogs = Inr plan"
  obtains removeA addA addL removeL where "assigneeChanges intent issue = (removeA, addA)"
    "labelChanges intent issue = (addL, removeL)"
    "\<forall>n \<in> addL. idOf (catLabels catalogs) n > 0" "\<forall>n \<in> removeL. idOf (niLabelIDs issue) n > 0"
    "plan = \<lparr>planText = planText_of intent issue, removeAssignees = sorted_list_of_set removeA,
       addAssignees = sorted_list_of_set addA, addLabelIDs = map (idOf (catLabels catalogs)) (sorted_list_of_set addL),
       removeLabelIDs = map (idOf (niLabelIDs issue)) (sorted_list_of_set removeL)\<rparr>"
proof -
  obtain removeA addA addL removeL where c: "assigneeChanges intent issue = (removeA, addA)"
    "labelChanges intent issue = (addL, removeL)"
    by fastforce
  have fin: "finite addL" "finite removeL"
    using c(2) by (auto simp: labelChanges_def Let_def split: if_splits)
  show thesis
    using assms c fin that by (simp add: planIssueEdit_def result_simps foldE_appendID)
qed

lemma changes_finite:
  "assigneeChanges intent issue = (r, a) \<Longrightarrow> finite r \<and> finite a"
  "labelChanges intent issue = (r, a) \<Longrightarrow> finite r \<and> finite a"
  by (auto simp: assigneeChanges_def labelChanges_def Let_def split: edit_mode.splits if_splits)

lemma card_subset_iff: "finite A \<Longrightarrow> B \<subseteq> A \<Longrightarrow> card A = card B \<longleftrightarrow> A \<subseteq> B"
  using card_subset_eq by (metis dual_order.eq_iff)

lemma editSatisfied_iff:
  "editSatisfied intent (Some issue) \<longleftrightarrow>
     planText_of intent issue = None \<and> assigneeChanges intent issue = ({}, {}) \<and> labelChanges intent issue = ({}, {})"
  by (cases "assigneeMode intent")
    (auto simp: editSatisfied_def planText_of_def assigneeChanges_def labelChanges_def Let_def card_subset_iff)

lemma plan_empty_iff:
  assumes "planIssueEdit intent (Some issue) catalogs = Inr plan"
  shows "plan_empty plan \<longleftrightarrow> editSatisfied intent (Some issue)"
  using assms
proof (rule planIssueEdit_Inr)
  fix removeA addA addL removeL
  assume c: "assigneeChanges intent issue = (removeA, addA)" "labelChanges intent issue = (addL, removeL)"
    and p: "plan = \<lparr>planText = planText_of intent issue, removeAssignees = sorted_list_of_set removeA,
       addAssignees = sorted_list_of_set addA, addLabelIDs = map (idOf (catLabels catalogs)) (sorted_list_of_set addL),
       removeLabelIDs = map (idOf (niLabelIDs issue)) (sorted_list_of_set removeL)\<rparr>"
  show ?thesis
    using changes_finite(1) [OF c(1)] changes_finite(2) [OF c(2)] c p
    by (auto simp: editSatisfied_iff plan_empty_def sorted_list_of_set_eq_Nil_iff)
qed

text \<open>
  What a provider that carries out a plan does to an issue: the specification of the write calls. A
  label is added or removed by its identifier, which \<open>labelName\<close> names.
\<close>

definition applyPlan :: "(int \<Rightarrow> string) \<Rightarrow> edit_plan \<Rightarrow> normalized_issue \<Rightarrow> normalized_issue" where
  "applyPlan labelName plan issue =
     issue\<lparr>
       niTitle := (case planText plan of None \<Rightarrow> niTitle issue | Some t \<Rightarrow> teTitle t),
       niBody := (case planText plan of
          Some t \<Rightarrow> (case teBody t of Some b \<Rightarrow> b | None \<Rightarrow> niBody issue) | None \<Rightarrow> niBody issue),
       niAssignees := filter (\<lambda>a. a \<notin> set (removeAssignees plan)) (niAssignees issue) @ addAssignees plan,
       niLabels := filter (\<lambda>l. l \<notin> labelName ` set (removeLabelIDs plan)) (niLabels issue)
         @ map labelName (addLabelIDs plan)\<rparr>"

lemma applyPlan_text:
  assumes "planText plan = planText_of intent issue"
  shows "\<not> textDiffers intent (applyPlan labelName plan issue)"
  using assms by (auto simp: applyPlan_def planText_of_def textDiffers_def split: option.splits if_splits)

lemma image_idOf:
  assumes "\<forall>n \<in> A. idOf m n > 0" and "\<And>n i. m n = Some i \<Longrightarrow> labelName i = n"
  shows "n \<in> A \<Longrightarrow> labelName (idOf m n) = n"
  using assms by (auto simp: idOf_def split: option.splits dest!: bspec)

text \<open>
  C33. An edit plan does exactly what the request asks. Carried out by a provider that names labels
  by their identifiers, it leaves the issue satisfying the request; it is empty exactly if the issue
  satisfied the request before, so a request is repeated without effect; and what the request does
  not mention, title, body, assignees or labels, it leaves as it was.
\<close>

theorem planIssueEdit_correct:
  assumes "planIssueEdit intent (Some issue) catalogs = Inr plan"
    and "\<And>n i. catLabels catalogs n = Some i \<Longrightarrow> labelName i = n"
    and "\<And>n i. niLabelIDs issue n = Some i \<Longrightarrow> labelName i = n"
  shows "editSatisfied intent (Some (applyPlan labelName plan issue))
    \<and> (plan_empty plan \<longleftrightarrow> editSatisfied intent (Some issue))
    \<and> (inTitle intent = None \<longrightarrow> niTitle (applyPlan labelName plan issue) = niTitle issue)
    \<and> (inBody intent = None \<longrightarrow> niBody (applyPlan labelName plan issue) = niBody issue)
    \<and> (assigneeMode intent = EditNone \<longrightarrow> niAssignees (applyPlan labelName plan issue) = niAssignees issue)
    \<and> (labelMode intent = EditNone \<longrightarrow> niLabels (applyPlan labelName plan issue) = niLabels issue)"
  using assms(1)
proof (rule planIssueEdit_Inr)
  fix removeA addA addL removeL
  assume c: "assigneeChanges intent issue = (removeA, addA)" "labelChanges intent issue = (addL, removeL)"
    and ids: "\<forall>n \<in> addL. idOf (catLabels catalogs) n > 0" "\<forall>n \<in> removeL. idOf (niLabelIDs issue) n > 0"
    and p: "plan = \<lparr>planText = planText_of intent issue, removeAssignees = sorted_list_of_set removeA,
       addAssignees = sorted_list_of_set addA, addLabelIDs = map (idOf (catLabels catalogs)) (sorted_list_of_set addL),
       removeLabelIDs = map (idOf (niLabelIDs issue)) (sorted_list_of_set removeL)\<rparr>"
  note fin = changes_finite(1) [OF c(1)] changes_finite(2) [OF c(2)]
  let ?new = "applyPlan labelName plan issue"
  have addNames: "labelName (idOf (catLabels catalogs) n) = n" if "n \<in> addL" for n
    using image_idOf [of addL "catLabels catalogs" labelName n] ids(1) assms(2) that by blast
  have removeNames: "labelName (idOf (niLabelIDs issue) n) = n" if "n \<in> removeL" for n
    using image_idOf [of removeL "niLabelIDs issue" labelName n] ids(2) assms(3) that by blast
  have assignees: "set (niAssignees ?new) = (set (niAssignees issue) - removeA) \<union> addA"
    using fin p by (auto simp: applyPlan_def)
  have labels: "set (niLabels ?new) = (set (niLabels issue) - removeL) \<union> addL"
    using fin p addNames removeNames by (auto simp: applyPlan_def image_iff)
  have "assigneeChanges intent ?new = ({}, {})"
    using assignees c(1) by (cases "assigneeMode intent") (auto simp: assigneeChanges_def Let_def)
  moreover have "labelChanges intent ?new = ({}, {})"
    using labels c(2) by (auto simp: labelChanges_def Let_def split: if_splits)
  moreover have "planText_of intent ?new = None"
    using applyPlan_text [of plan intent issue labelName] p by (simp add: planText_of_def)
  ultimately have "editSatisfied intent (Some ?new)"
    by (simp add: editSatisfied_iff)
  moreover have "inTitle intent = None \<longrightarrow> niTitle ?new = niTitle issue"
    "inBody intent = None \<longrightarrow> niBody ?new = niBody issue"
    using p by (auto simp: applyPlan_def planText_of_def split: option.splits)
  moreover have "assigneeMode intent = EditNone \<longrightarrow> niAssignees ?new = niAssignees issue"
    using p c(1) by (auto simp: applyPlan_def assigneeChanges_def Let_def)
  moreover have "labelMode intent = EditNone \<longrightarrow> niLabels ?new = niLabels issue"
    using p c(2) by (auto simp: applyPlan_def labelChanges_def Let_def)
  ultimately show ?thesis
    using plan_empty_iff [OF assms(1)] by blast
qed

definition exampleIssue :: normalized_issue where
  "exampleIssue = \<lparr>niIndex = 7, niAuthorID = 1, niCommentCount = 0, niState = 1, niAuthor = ''ann'',
     niUrl = ''https://git.example/Team/Repo/issues/7'', niTitle = ''Title'', niBody = ''Body'', niOwner = ''Team'',
     niRepo = ''Repo'', niCreated = 1, niUpdated = 2, niDeadline = None, niAssignees = [''ann'', ''bob''],
     niLabels = [''bug''], niLabelIDs = [''bug'' \<mapsto> 3], niMilestone = None\<rparr>"

definition exampleIntent :: edit_intent where
  "exampleIntent = \<lparr>inTitle = Some ''New'', inBody = None, assigneeMode = EditSet, inAssignees = [''cat'', ''bob''],
     labelMode = EditAdd, inLabels = [''new'', ''bug'']\<rparr>"

theorem planIssueEdit_correct_witness:
  "\<exists>plan. planIssueEdit exampleIntent (Some exampleIssue) \<lparr>catAssignees = Map.empty, catLabels = [''new'' \<mapsto> 9]\<rparr> = Inr plan
     \<and> removeAssignees plan = [''ann''] \<and> addLabelIDs plan = [9]
     \<and> editSatisfied exampleIntent (Some (applyPlan (\<lambda>i. if i = 9 then ''new'' else ''bug'') plan exampleIssue))"
proof -
  let ?cat = "\<lparr>catAssignees = Map.empty, catLabels = [''new'' \<mapsto> 9]\<rparr>"
  let ?plan = "\<lparr>planText = Some \<lparr>teTitle = ''New'', teBody = None\<rparr>, removeAssignees = [''ann''],
    addAssignees = [''cat''], addLabelIDs = [9], removeLabelIDs = []\<rparr>"
  have p: "planIssueEdit exampleIntent (Some exampleIssue) ?cat = Inr ?plan"
    by code_simp
  let ?name = "\<lambda>i :: int. if i = 9 then ''new'' else ''bug''"
  have added: "?name i = n" if "catLabels ?cat n = Some i" for n i
    using that by (simp split: if_splits)
  have held: "?name i = n" if "niLabelIDs exampleIssue n = Some i" for n i
    using that by (simp add: exampleIssue_def split: if_splits)
  have "editSatisfied exampleIntent (Some (applyPlan ?name ?plan exampleIssue))"
    using planIssueEdit_correct [where labelName = ?name, OF p added held] by blast
  with p show ?thesis by auto
qed

end
