(* ===== verification/Gitea_Normalize.thy ===== *)
theory Gitea_Normalize
  imports Gitea_Edit
begin

text \<open>
  Package \<^verbatim>\<open>internal/provider/gitea\<close>, the checks on what the provider returns and the records built
  from it: \<^verbatim>\<open>issue_normalize.go\<close>, \<^verbatim>\<open>pull_normalize.go\<close>, \<^verbatim>\<open>normalizePullReview\<close> of
  \<^verbatim>\<open>review_pagination.go\<close> and \<^verbatim>\<open>validateRepository\<close> of \<^verbatim>\<open>adapter.go\<close>.

  The values of the SDK are the fields the program reads; a pointer that may be nil is an option. The
  numbers of states and fields are those of \<^verbatim>\<open>gitea.proto\<close>.
\<close>

section \<open>Values of the SDK\<close>

text \<open>\<^verbatim>\<open>sdk.User\<close>, \<^verbatim>\<open>sdk.Label\<close> and \<^verbatim>\<open>sdk.Team\<close>: an identifier and a name.\<close>

record sdk_named =
  nID :: int
  nName :: string

datatype sdk_state = StateOpen | StateClosed | StateAll | StateOther string

record repository_meta =
  metaOwner :: string
  metaName :: string
  metaFullName :: string

record sdk_issue =
  siIndex :: int
  siPoster :: "sdk_named option"
  siIsPull :: bool
  siComments :: int
  siRepository :: "repository_meta option"
  siState :: sdk_state
  siHTMLURL :: string
  siTitle :: string
  siBody :: string
  siCreated :: int
  siUpdated :: int
  siDeadline :: "int option"
  siMilestone :: "string option"
  siAssignees :: "sdk_named option list"
  siLabels :: "sdk_named option list"

record sdk_comment =
  scID :: int
  scPoster :: "sdk_named option"
  scHTMLURL :: string
  scPRURL :: string
  scIssueURL :: string
  scBody :: string
  scCreated :: int
  scUpdated :: int

record sdk_repository =
  srFullName :: string
  srDescription :: string
  srDefaultBranch :: string
  srHTMLURL :: string
  srSSHURL :: string
  srCloneURL :: string
  srPrivate :: bool
  srArchived :: bool
  srFork :: bool
  srMirror :: bool
  srEmpty :: bool
  srStars :: int
  srForks :: int
  srOpenIssues :: int
  srSize :: int
  srTopics :: "string list"
  srCreated :: int
  srUpdated :: int

record branch_repository =
  brOwner :: "sdk_named option"
  brName :: string
  brFullName :: string

record pull_branch =
  pbRef :: string
  pbName :: string
  pbSha :: string
  pbRepository :: "branch_repository option"

record sdk_pull =
  spIndex :: int
  spPoster :: "sdk_named option"
  spComments :: int
  spBase :: "pull_branch option"
  spHead :: "pull_branch option"
  spState :: sdk_state
  spMergeable :: bool
  spAllowMaintainerEdit :: bool
  spDraft :: bool
  spHTMLURL :: string
  spTitle :: string
  spBody :: string
  spCreated :: "int option"
  spUpdated :: "int option"
  spDeadline :: "int option"
  spMilestone :: "string option"
  spAssignees :: "sdk_named option list"
  spLabels :: "sdk_named option list"
  spReviewers :: "sdk_named option list"
  spTeams :: "sdk_named option list"

datatype review_state =
  ReviewApproved | ReviewPending | ReviewComment | ReviewRequestChanges | ReviewRequestReview | ReviewOther string

record sdk_review =
  rvID :: int
  rvCodeComments :: int
  rvSubmitted :: int
  rvBody :: string
  rvCommitID :: string
  rvHTMLURL :: string
  rvReviewer :: "sdk_named option"
  rvTeam :: "sdk_named option"
  rvState :: review_state
  rvStale :: bool
  rvOfficial :: bool
  rvDismissed :: bool

record pull_presence =
  prMergeable :: "bool option"
  prAllowMaintainerEdit :: "bool option"


section \<open>Records of the responses\<close>

record gt_comment_record =
  cmrId :: int
  cmrAuthorId :: int
  cmrAuthor :: string
  cmrUrl :: string
  cmrBody :: string
  cmrCreated :: "timestamp option"
  cmrUpdated :: "timestamp option"

record gt_issue_record =
  irIndex :: int
  irState :: int
  irKind :: int
  irAuthorId :: int
  irAuthor :: string
  irUrl :: string
  irTitle :: string
  irBody :: string
  irRepo :: string
  irOwner :: string
  irCreated :: "timestamp option"
  irUpdated :: "timestamp option"
  irDeadline :: "timestamp option"
  irAssignees :: "string list"
  irMilestone :: "string option"
  irLabels :: "string list"
  irCommentCount :: int
  irComments :: "gt_comment_record list"

datatype review_actor = ReviewUser int string | ReviewTeam int string

record gt_review_record =
  rrId :: int
  rrActor :: review_actor
  rrState :: int
  rrBody :: string
  rrCommitId :: string
  rrStale :: bool
  rrOfficial :: bool
  rrDismissed :: bool
  rrCodeComments :: int
  rrSubmitted :: timestamp
  rrUrl :: string

record gt_pull_record =
  prrIndex :: int
  prrState :: int
  prrAuthorId :: int
  prrAuthor :: string
  prrUrl :: string
  prrTitle :: string
  prrBody :: string
  prrDraft :: bool
  prrMergeable :: "bool option"
  prrAllowEdit :: "bool option"
  prrBase :: string
  prrBaseCommit :: string
  prrHead :: string
  prrCreated :: "timestamp option"
  prrUpdated :: "timestamp option"
  prrDeadline :: "timestamp option"
  prrAssignees :: "string list"
  prrMilestone :: "string option"
  prrLabels :: "string list"
  prrCommentCount :: int
  prrComments :: "gt_comment_record list"
  prrReviewers :: "review_actor list"
  prrReviews :: "gt_review_record list"

record gt_repository_record =
  grFullName :: string
  grDescription :: string
  grDefaultBranch :: string
  grUrl :: string
  grSshUrl :: string
  grCloneUrl :: string
  grPrivate :: bool
  grArchived :: bool
  grFork :: bool
  grMirror :: bool
  grEmpty :: bool
  grStars :: int
  grForks :: int
  grOpenIssues :: int
  grSize :: int
  grTopics :: "string list"
  grCreated :: timestamp
  grUpdated :: timestamp

record normalized_pull =
  npIndex :: int
  npAuthorID :: int
  npCommentCount :: int
  npState :: int
  npAuthor :: string
  npUrl :: string
  npTitle :: string
  npBody :: string
  npBase :: string
  npBaseCommit :: string
  npHead :: string
  npDraft :: bool
  npMergeable :: "bool option"
  npAllowEdit :: "bool option"
  npCreated :: int
  npUpdated :: int
  npDeadline :: "int option"
  npAssignees :: "string list"
  npLabels :: "string list"
  npMilestone :: "string option"
  npReviewers :: "review_actor list"


section \<open>Issues\<close>

definition validProviderString :: "string \<Rightarrow> bool" where
  "validProviderString v = (validString v \<and> NUL \<notin> set v)"

definition validProtoTime :: "timestamp_lib \<Rightarrow> int \<Rightarrow> bool" where
  "validProtoTime lib t = (t \<noteq> 0 \<and> tsIsValid lib (tsNew lib t))"

definition badNamed :: "sdk_named \<Rightarrow> bool" where
  "badNamed a = (nID a \<le> 0 \<or> nName a = [] \<or> \<not> validProviderString (nName a))"

text \<open>The loops over assignees, and over the labels of a pull request: identifiers and names seen so far.\<close>

fun namesLoop :: "string \<Rightarrow> int set \<Rightarrow> string set \<Rightarrow> sdk_named option list \<Rightarrow> string list result" where
  "namesLoop msg ids names [] = Inr []"
| "namesLoop msg ids names (None # rest) = errorf msg"
| "namesLoop msg ids names (Some a # rest) =
     (if badNamed a \<or> nID a \<in> ids \<or> nName a \<in> names then errorf msg
      else bindE (namesLoop msg (insert (nID a) ids) (insert (nName a) names) rest) (\<lambda>ns. Inr (nName a # ns)))"

text \<open>The loop over the labels of an issue, which also builds \<^verbatim>\<open>labelIDs\<close>.\<close>

fun labelsLoop ::
  "int set \<Rightarrow> (string \<rightharpoonup> int) \<Rightarrow> sdk_named option list \<Rightarrow> (string list \<times> (string \<rightharpoonup> int)) result" where
  "labelsLoop ids m [] = Inr ([], m)"
| "labelsLoop ids m (None # rest) = errorf ''invalid label''"
| "labelsLoop ids m (Some l # rest) =
     (if badNamed l \<or> nID l \<in> ids \<or> idOf m (nName l) \<noteq> 0 then errorf ''invalid label''
      else bindE (labelsLoop (insert (nID l) ids) (m(nName l \<mapsto> nID l)) rest) (\<lambda>(ns, m'). Inr (nName l # ns, m')))"

fun issueStateOf :: "sdk_state \<Rightarrow> int result" where
  "issueStateOf StateOpen = Inr 1"
| "issueStateOf StateClosed = Inr 2"
| "issueStateOf _ = errorf ''invalid state''"

definition checkDeadline :: "timestamp_lib \<Rightarrow> int option \<Rightarrow> unit result" where
  "checkDeadline lib d =
     (case d of None \<Rightarrow> Inr () | Some t \<Rightarrow> if validProtoTime lib t then Inr () else errorf ''invalid deadline'')"

definition checkMilestone :: "string option \<Rightarrow> unit result" where
  "checkMilestone m =
     (case m of
        None \<Rightarrow> Inr ()
      | Some t \<Rightarrow> if t = [] \<or> \<not> validProviderString t then errorf ''invalid milestone'' else Inr ())"

definition normalizeIssue ::
  "timestamp_lib \<Rightarrow> sdk_issue option \<Rightarrow> string \<Rightarrow> string \<Rightarrow> normalized_issue result" where
  "normalizeIssue lib v owner repo =
     (case v of
        None \<Rightarrow> errorf ''invalid issue''
      | Some v \<Rightarrow>
          if siIsPull v \<or> siIndex v \<le> 0 then errorf ''invalid issue''
          else (case (siPoster v, siRepository v) of
            (Some poster, Some meta) \<Rightarrow>
              if nID poster \<le> 0 \<or> siComments v < 0 \<or> metaOwner meta \<noteq> owner \<or> metaName meta \<noteq> repo
                \<or> metaFullName meta \<noteq> owner @ ''/'' @ repo
              then errorf ''invalid issue''
              else
                bindE (issueStateOf (siState v)) (\<lambda>state.
                if \<not> list_all validProviderString
                     [nName poster, siHTMLURL v, siTitle v, siBody v, metaOwner meta, metaName meta]
                then errorf ''invalid issue string''
                else if nName poster = [] \<or> siHTMLURL v = [] \<or> siTitle v = []
                  \<or> \<not> validProtoTime lib (siCreated v) \<or> \<not> validProtoTime lib (siUpdated v)
                  \<or> siUpdated v < siCreated v
                then errorf ''invalid issue fields''
                else
                  bindE (checkDeadline lib (siDeadline v)) (\<lambda>_.
                  bindE (checkMilestone (siMilestone v)) (\<lambda>_.
                  bindE (namesLoop ''invalid assignee'' {} {} (siAssignees v)) (\<lambda>assignees.
                  bindE (labelsLoop {} Map.empty (siLabels v)) (\<lambda>(labels, ids).
                    Inr \<lparr>niIndex = siIndex v, niAuthorID = nID poster, niCommentCount = siComments v,
                         niState = state, niAuthor = nName poster, niUrl = siHTMLURL v, niTitle = siTitle v,
                         niBody = siBody v, niOwner = owner, niRepo = repo, niCreated = siCreated v,
                         niUpdated = siUpdated v, niDeadline = siDeadline v, niAssignees = assignees,
                         niLabels = labels, niLabelIDs = ids, niMilestone = siMilestone v\<rparr>)))))
          | _ \<Rightarrow> errorf ''invalid issue''))"

definition emptyIssueRecord :: gt_issue_record where
  "emptyIssueRecord = \<lparr>irIndex = 0, irState = 0, irKind = 0, irAuthorId = 0, irAuthor = [], irUrl = [],
     irTitle = [], irBody = [], irRepo = [], irOwner = [], irCreated = None, irUpdated = None, irDeadline = None,
     irAssignees = [], irMilestone = None, irLabels = [], irCommentCount = 0, irComments = []\<rparr>"

definition projectIssueField ::
  "timestamp_lib \<Rightarrow> normalized_issue \<Rightarrow> gt_issue_record \<Rightarrow> int \<Rightarrow> gt_issue_record" where
  "projectIssueField lib n r f =
     (if f = 3 then r\<lparr>irAuthor := niAuthor n\<rparr>
      else if f = 4 then r\<lparr>irAuthorId := niAuthorID n\<rparr>
      else if f = 5 then r\<lparr>irUrl := niUrl n\<rparr>
      else if f = 6 then r\<lparr>irTitle := niTitle n\<rparr>
      else if f = 7 then r\<lparr>irBody := niBody n\<rparr>
      else if f = 8 then r\<lparr>irCreated := Some (tsNew lib (niCreated n))\<rparr>
      else if f = 9 then r\<lparr>irUpdated := Some (tsNew lib (niUpdated n))\<rparr>
      else if f = 10 then (case niDeadline n of None \<Rightarrow> r | Some d \<Rightarrow> r\<lparr>irDeadline := Some (tsNew lib d)\<rparr>)
      else if f = 11 then r\<lparr>irAssignees := niAssignees n\<rparr>
      else if f = 12 then (case niMilestone n of None \<Rightarrow> r | Some m \<Rightarrow> r\<lparr>irMilestone := Some m\<rparr>)
      else if f = 13 then r\<lparr>irLabels := niLabels n\<rparr>
      else if f = 14 then r\<lparr>irCommentCount := niCommentCount n\<rparr>
      else if f = 15 then r\<lparr>irRepo := niRepo n\<rparr>
      else if f = 16 then r\<lparr>irOwner := niOwner n\<rparr>
      else r)"

definition projectIssue :: "timestamp_lib \<Rightarrow> normalized_issue \<Rightarrow> int list \<Rightarrow> gt_issue_record" where
  "projectIssue lib n fs =
     foldl (projectIssueField lib n) (emptyIssueRecord\<lparr>irIndex := niIndex n, irState := niState n, irKind := 1\<rparr>) fs"

definition allIssueFields :: "int list" where
  "allIssueFields = [1, 2, 3, 4, 5, 6, 7, 8, 9, 10, 11, 12, 13, 14, 15, 16, 17]"

definition normalizeComment :: "timestamp_lib \<Rightarrow> sdk_comment option \<Rightarrow> gt_comment_record result" where
  "normalizeComment lib v =
     (case v of
        None \<Rightarrow> errorf ''invalid comment''
      | Some v \<Rightarrow>
          (case scPoster v of
             None \<Rightarrow> errorf ''invalid comment''
           | Some poster \<Rightarrow>
               if scID v \<le> 0 \<or> nID poster \<le> 0 \<or> nName poster = [] \<or> scHTMLURL v = []
                 \<or> \<not> validProtoTime lib (scCreated v) \<or> \<not> validProtoTime lib (scUpdated v)
                 \<or> scUpdated v < scCreated v
               then errorf ''invalid comment''
               else if \<not> list_all validProviderString [nName poster, scHTMLURL v, scBody v]
               then errorf ''invalid comment string''
               else Inr \<lparr>cmrId = scID v, cmrAuthorId = nID poster, cmrAuthor = nName poster, cmrUrl = scHTMLURL v,
                         cmrBody = scBody v, cmrCreated = Some (tsNew lib (scCreated v)),
                         cmrUpdated = Some (tsNew lib (scUpdated v))\<rparr>))"

end
