(* ===== verification/Gitea_Pulls.thy ===== *)
theory Gitea_Pulls
  imports Gitea_Normalize Go_Text
begin

text \<open>
  Package \<^verbatim>\<open>internal/provider/gitea\<close>: pull requests (\<^verbatim>\<open>pull_normalize.go\<close>), reviews
  (\<^verbatim>\<open>review_pagination.go\<close>) and repositories (\<^verbatim>\<open>validateRepository\<close> and the record that
  \<^verbatim>\<open>repository\<close> builds, of \<^verbatim>\<open>adapter.go\<close>).
\<close>

section \<open>Pull requests\<close>

definition normalizeReviewActor :: "sdk_named option \<Rightarrow> sdk_named option \<Rightarrow> review_actor result" where
  "normalizeReviewActor user team =
     (case (user, team) of
        (Some u, None) \<Rightarrow> if badNamed u then errorf ''invalid review user'' else Inr (ReviewUser (nID u) (nName u))
      | (None, Some t) \<Rightarrow> if badNamed t then errorf ''invalid review team'' else Inr (ReviewTeam (nID t) (nName t))
      | _ \<Rightarrow> errorf ''invalid review actor'')"

fun pullStateOf :: "sdk_state \<Rightarrow> int result" where
  "pullStateOf StateOpen = Inr 1"
| "pullStateOf StateClosed = Inr 2"
| "pullStateOf _ = errorf ''invalid pull state''"

text \<open>What the SDK decoded as false may have been absent: the presence of a flag has to agree with its value.\<close>

definition presenceMismatch :: "bool option \<Rightarrow> bool \<Rightarrow> bool" where
  "presenceMismatch present v = (case present of None \<Rightarrow> v | Some p \<Rightarrow> p \<noteq> v)"

definition actorKey :: "string \<Rightarrow> sdk_named option \<Rightarrow> string" where
  "actorKey kind v = kind @ '':'' @ itoa (case v of None \<Rightarrow> 0 | Some a \<Rightarrow> nID a)"

definition addReviewer ::
  "(sdk_named option \<Rightarrow> review_actor result) \<Rightarrow> string \<Rightarrow> string set \<times> review_actor list \<Rightarrow> sdk_named option
    \<Rightarrow> (string set \<times> review_actor list) result" where
  "addReviewer actorOf kind acc v =
     bindE (actorOf v) (\<lambda>actor.
       if actorKey kind v \<in> fst acc then errorf ''duplicate reviewer''
       else Inr (insert (actorKey kind v) (fst acc), snd acc @ [actor]))"

definition normalizePull ::
  "timestamp_lib \<Rightarrow> sdk_pull option \<Rightarrow> pull_presence \<Rightarrow> string \<Rightarrow> string \<Rightarrow> normalized_pull result" where
  "normalizePull lib v presence owner repo =
     (case v of
        None \<Rightarrow> errorf ''invalid pull''
      | Some v \<Rightarrow>
          (case (spPoster v, spBase v, spHead v) of
             (Some poster, Some base, Some head) \<Rightarrow>
               (case (pbRepository base, pbRepository head) of
                  (Some baseRepo, Some headRepo) \<Rightarrow>
                    (case (brOwner baseRepo, brOwner headRepo) of
                       (Some baseOwner, Some headOwner) \<Rightarrow>
                         if spIndex v \<le> 0 \<or> nID poster \<le> 0 \<or> spComments v < 0 \<or> nName baseOwner \<noteq> owner
                           \<or> brName baseRepo \<noteq> repo \<or> brFullName baseRepo \<noteq> owner @ ''/'' @ repo
                         then errorf ''invalid pull''
                         else
                           bindE (pullStateOf (spState v)) (\<lambda>state.
                           if presenceMismatch (prMergeable presence) (spMergeable v)
                             \<or> presenceMismatch (prAllowMaintainerEdit presence) (spAllowMaintainerEdit v)
                           then errorf ''pull presence mismatch''
                           else if \<not> list_all validProviderString
                             [nName poster, spHTMLURL v, spTitle v, spBody v, pbRef base, pbName base, pbSha base,
                              pbName head, nName baseOwner, brName baseRepo, brFullName baseRepo,
                              nName headOwner, brName headRepo, brFullName headRepo]
                           then errorf ''invalid pull string''
                           else if nName poster = [] \<or> spHTMLURL v = [] \<or> spTitle v = [] \<or> pbRef base = []
                             \<or> pbName base = [] \<or> pbSha base = [] \<or> pbName head = [] \<or> nName headOwner = []
                             \<or> brName headRepo = []
                             \<or> brFullName headRepo \<noteq> [] \<and> brFullName headRepo \<noteq> nName headOwner @ ''/'' @ brName headRepo
                           then errorf ''invalid pull fields''
                           else (case (spCreated v, spUpdated v) of
                             (Some created, Some updated) \<Rightarrow>
                               if \<not> validProtoTime lib created \<or> \<not> validProtoTime lib updated \<or> updated < created
                               then errorf ''invalid pull fields''
                               else
                                 bindE (checkDeadline lib (spDeadline v)) (\<lambda>_.
                                 bindE (checkMilestone (spMilestone v)) (\<lambda>_.
                                 bindE (namesLoop ''invalid assignee'' {} {} (spAssignees v)) (\<lambda>assignees.
                                 bindE (namesLoop ''invalid label'' {} {} (spLabels v)) (\<lambda>labels.
                                 bindE (foldE (addReviewer (\<lambda>u. normalizeReviewActor u None) ''u'') ({}, [])
                                          (spReviewers v)) (\<lambda>users.
                                 bindE (foldE (addReviewer (\<lambda>t. normalizeReviewActor None t) ''t'') users
                                          (spTeams v)) (\<lambda>(_, reviewers).
                                   Inr \<lparr>npIndex = spIndex v, npAuthorID = nID poster, npCommentCount = spComments v,
                                     npState = state, npAuthor = nName poster, npUrl = spHTMLURL v,
                                     npTitle = spTitle v, npBody = spBody v, npBase = pbRef base,
                                     npBaseCommit = pbSha base, npHead = pbName head, npDraft = spDraft v,
                                     npMergeable = prMergeable presence,
                                     npAllowEdit = prAllowMaintainerEdit presence,
                                     npCreated = created, npUpdated = updated, npDeadline = spDeadline v,
                                     npAssignees = assignees, npLabels = labels, npMilestone = spMilestone v,
                                     npReviewers = reviewers\<rparr>))))))
                           | _ \<Rightarrow> errorf ''invalid pull fields''))
                     | _ \<Rightarrow> errorf ''invalid pull'')
                | _ \<Rightarrow> errorf ''invalid pull'')
           | _ \<Rightarrow> errorf ''invalid pull''))"

definition emptyPullRecord :: gt_pull_record where
  "emptyPullRecord = \<lparr>prrIndex = 0, prrState = 0, prrAuthorId = 0, prrAuthor = [], prrUrl = [], prrTitle = [],
     prrBody = [], prrDraft = False, prrMergeable = None, prrAllowEdit = None, prrBase = [], prrBaseCommit = [],
     prrHead = [], prrCreated = None, prrUpdated = None, prrDeadline = None, prrAssignees = [], prrMilestone = None,
     prrLabels = [], prrCommentCount = 0, prrComments = [], prrReviewers = [], prrReviews = []\<rparr>"

definition projectPullField ::
  "timestamp_lib \<Rightarrow> normalized_pull \<Rightarrow> gt_pull_record \<Rightarrow> int \<Rightarrow> gt_pull_record" where
  "projectPullField lib n r f =
     (if f = 3 then r\<lparr>prrAuthor := npAuthor n\<rparr>
      else if f = 4 then r\<lparr>prrAuthorId := npAuthorID n\<rparr>
      else if f = 5 then r\<lparr>prrUrl := npUrl n\<rparr>
      else if f = 6 then r\<lparr>prrTitle := npTitle n\<rparr>
      else if f = 7 then r\<lparr>prrBody := npBody n\<rparr>
      else if f = 8 then r\<lparr>prrMergeable := npMergeable n\<rparr>
      else if f = 9 then r\<lparr>prrBase := npBase n\<rparr>
      else if f = 10 then r\<lparr>prrBaseCommit := npBaseCommit n\<rparr>
      else if f = 11 then r\<lparr>prrHead := npHead n\<rparr>
      else if f = 12 then r\<lparr>prrCreated := Some (tsNew lib (npCreated n))\<rparr>
      else if f = 13 then r\<lparr>prrUpdated := Some (tsNew lib (npUpdated n))\<rparr>
      else if f = 14 then (case npDeadline n of None \<Rightarrow> r | Some d \<Rightarrow> r\<lparr>prrDeadline := Some (tsNew lib d)\<rparr>)
      else if f = 15 then r\<lparr>prrAssignees := npAssignees n\<rparr>
      else if f = 16 then (case npMilestone n of None \<Rightarrow> r | Some m \<Rightarrow> r\<lparr>prrMilestone := Some m\<rparr>)
      else if f = 17 then r\<lparr>prrLabels := npLabels n\<rparr>
      else if f = 18 then r\<lparr>prrCommentCount := npCommentCount n\<rparr>
      else r)"

definition projectPull :: "timestamp_lib \<Rightarrow> normalized_pull \<Rightarrow> int list \<Rightarrow> gt_pull_record" where
  "projectPull lib n fs =
     foldl (projectPullField lib n) (emptyPullRecord\<lparr>prrIndex := npIndex n, prrState := npState n\<rparr>) fs"

definition projectPullDetail :: "timestamp_lib \<Rightarrow> normalized_pull \<Rightarrow> gt_pull_record" where
  "projectPullDetail lib n =
     \<lparr>prrIndex = npIndex n, prrState = npState n, prrAuthorId = npAuthorID n, prrAuthor = npAuthor n,
      prrUrl = npUrl n, prrTitle = npTitle n, prrBody = npBody n, prrDraft = npDraft n,
      prrMergeable = npMergeable n, prrAllowEdit = npAllowEdit n, prrBase = npBase n, prrBaseCommit = npBaseCommit n,
      prrHead = npHead n, prrCreated = Some (tsNew lib (npCreated n)), prrUpdated = Some (tsNew lib (npUpdated n)),
      prrDeadline = map_option (tsNew lib) (npDeadline n), prrAssignees = npAssignees n,
      prrMilestone = npMilestone n, prrLabels = npLabels n, prrCommentCount = npCommentCount n,
      prrComments = [], prrReviewers = npReviewers n, prrReviews = []\<rparr>"


section \<open>Reviews\<close>

fun reviewStateOf :: "review_state \<Rightarrow> int result" where
  "reviewStateOf ReviewApproved = Inr 1"
| "reviewStateOf ReviewPending = Inr 2"
| "reviewStateOf ReviewComment = Inr 3"
| "reviewStateOf ReviewRequestChanges = Inr 4"
| "reviewStateOf ReviewRequestReview = Inr 5"
| "reviewStateOf (ReviewOther _) = errorf ''invalid review state''"

definition normalizePullReview :: "timestamp_lib \<Rightarrow> sdk_review option \<Rightarrow> gt_review_record result" where
  "normalizePullReview lib v =
     (case v of
        None \<Rightarrow> errorf ''invalid review''
      | Some v \<Rightarrow>
          if rvID v \<le> 0 \<or> rvCodeComments v < 0 \<or> \<not> validProtoTime lib (rvSubmitted v) then errorf ''invalid review''
          else if \<not> list_all validProviderString [rvBody v, rvCommitID v, rvHTMLURL v] then errorf ''invalid review string''
          else
            bindE (normalizeReviewActor (rvReviewer v) (rvTeam v)) (\<lambda>actor.
            bindE (reviewStateOf (rvState v)) (\<lambda>state.
              Inr \<lparr>rrId = rvID v, rrActor = actor, rrState = state, rrBody = rvBody v, rrCommitId = rvCommitID v,
                   rrStale = rvStale v, rrOfficial = rvOfficial v, rrDismissed = rvDismissed v,
                   rrCodeComments = rvCodeComments v, rrSubmitted = tsNew lib (rvSubmitted v), rrUrl = rvHTMLURL v\<rparr>)))"


section \<open>Repositories\<close>

definition gt_validateRepository :: "sdk_repository option \<Rightarrow> string \<Rightarrow> string \<Rightarrow> unit result" where
  "gt_validateRepository v owner name =
     (case v of
        None \<Rightarrow> errorf ''invalid repository''
      | Some r \<Rightarrow>
          if srFullName r \<noteq> owner @ ''/'' @ name \<or> srHTMLURL r = [] \<or> srSSHURL r = [] \<or> srCloneURL r = []
            \<or> srCreated r = 0 \<or> srUpdated r = 0 \<or> srUpdated r < srCreated r \<or> srStars r < 0 \<or> srForks r < 0
            \<or> srOpenIssues r < 0 \<or> srSize r < 0
          then errorf ''invalid repository''
          else if \<not> list_all validProviderString
            ([srFullName r, srDescription r, srDefaultBranch r, srHTMLURL r, srSSHURL r, srCloneURL r] @ srTopics r)
          then errorf ''invalid repository string''
          else Inr ())"

definition gt_repositoryRecord :: "timestamp_lib \<Rightarrow> sdk_repository \<Rightarrow> gt_repository_record" where
  "gt_repositoryRecord lib r =
     \<lparr>grFullName = srFullName r, grDescription = srDescription r, grDefaultBranch = srDefaultBranch r,
      grUrl = srHTMLURL r, grSshUrl = srSSHURL r, grCloneUrl = srCloneURL r, grPrivate = srPrivate r,
      grArchived = srArchived r, grFork = srFork r, grMirror = srMirror r, grEmpty = srEmpty r,
      grStars = srStars r, grForks = srForks r, grOpenIssues = srOpenIssues r, grSize = srSize r,
      grTopics = srTopics r, grCreated = tsNew lib (srCreated r), grUpdated = tsNew lib (srUpdated r)\<rparr>"


section \<open>What the checks guarantee\<close>

lemma namesLoop_Inr:
  "namesLoop msg ids names vs = Inr ns \<Longrightarrow>
     length ns = length vs \<and> distinct ns \<and> set ns \<inter> names = {}"
proof (induct msg ids names vs arbitrary: ns rule: namesLoop.induct)
  case (3 msg ids names a rest)
  then obtain ns' where ok: "\<not> badNamed a" "nID a \<notin> ids" "nName a \<notin> names"
    and rest: "namesLoop msg (insert (nID a) ids) (insert (nName a) names) rest = Inr ns'" and ns: "ns = nName a # ns'"
    by (auto simp: result_simps split: if_splits)
  show ?case
    using 3(1) [OF _ rest] ok ns by auto
qed auto

lemma labelsLoop_Inr:
  "labelsLoop ids m vs = Inr (ns, m') \<Longrightarrow> (\<And>n i. m n = Some i \<Longrightarrow> i > 0 \<and> i \<in> ids) \<Longrightarrow> inj_on m (dom m) \<Longrightarrow>
     set ns \<inter> dom m = {} \<and> distinct ns \<and> dom m' = dom m \<union> set ns
     \<and> (\<forall>n i. m' n = Some i \<longrightarrow> i > 0) \<and> inj_on m' (dom m')"
proof (induct ids m vs arbitrary: ns m' rule: labelsLoop.induct)
  case (3 ids m l rest)
  from 3(2) obtain ns' where ok: "\<not> badNamed l" "nID l \<notin> ids" "idOf m (nName l) = 0"
    and rest: "labelsLoop (insert (nID l) ids) (m(nName l \<mapsto> nID l)) rest = Inr (ns', m')" and ns: "ns = nName l # ns'"
    by (auto simp: result_simps split: if_splits)
  have pos: "nID l > 0"
    using ok(1) by (simp add: badNamed_def)
  have new: "m (nName l) = None"
    using ok(3) 3(3) by (cases "m (nName l)") (fastforce simp: idOf_def)+
  have "inj_on (m(nName l \<mapsto> nID l)) (dom (m(nName l \<mapsto> nID l)))"
    using 3(3,4) ok(2) new by (fastforce simp: inj_on_def dom_def)
  moreover have "i > 0 \<and> i \<in> insert (nID l) ids" if "(m(nName l \<mapsto> nID l)) n = Some i" for n i
    using that 3(3) pos by (auto split: if_splits)
  ultimately have ih: "set ns' \<inter> dom (m(nName l \<mapsto> nID l)) = {} \<and> distinct ns'
     \<and> dom m' = dom (m(nName l \<mapsto> nID l)) \<union> set ns' \<and> (\<forall>n i. m' n = Some i \<longrightarrow> i > 0) \<and> inj_on m' (dom m')"
    using 3(1) [OF _ rest] ok by blast
  moreover have "dom (m(nName l \<mapsto> nID l)) \<union> set ns' = dom m \<union> set ns"
    using ns by auto
  moreover have "set ns \<inter> dom m = {} \<and> distinct ns"
    using ih ns new by auto
  ultimately show ?case
    by metis
qed auto

text \<open>A normalised issue belongs to the repository that was asked for and its labels name each other uniquely.\<close>

definition issueWF :: "string \<Rightarrow> string \<Rightarrow> normalized_issue \<Rightarrow> bool" where
  "issueWF owner repo n \<longleftrightarrow> niOwner n = owner \<and> niRepo n = repo \<and> niIndex n > 0 \<and> (niState n = 1 \<or> niState n = 2)
     \<and> distinct (niAssignees n) \<and> distinct (niLabels n) \<and> dom (niLabelIDs n) = set (niLabels n)
     \<and> (\<forall>l i. niLabelIDs n l = Some i \<longrightarrow> i > 0) \<and> inj_on (niLabelIDs n) (set (niLabels n))"

lemma issueStateOf_Inr: "issueStateOf s = Inr n \<Longrightarrow> n = 1 \<or> n = 2"
  by (cases s) auto

lemma normalizeIssue_Inr:
  assumes "normalizeIssue lib v owner repo = Inr n"
  obtains i poster meta where "v = Some i" "\<not> siIsPull i" "siIndex i > 0" "siPoster i = Some poster"
    "siRepository i = Some meta" "metaOwner meta = owner" "metaName meta = repo"
    "issueStateOf (siState i) = Inr (niState n)"
    "namesLoop ''invalid assignee'' {} {} (siAssignees i) = Inr (niAssignees n)"
    "labelsLoop {} Map.empty (siLabels i) = Inr (niLabels n, niLabelIDs n)"
    "niIndex n = siIndex i" "niOwner n = owner" "niRepo n = repo" "niTitle n = siTitle i" "niBody n = siBody i"
  using assms
  by (auto simp: normalizeIssue_def result_simps split: option.splits if_splits prod.splits)

lemma normalizeIssue_wf:
  assumes "normalizeIssue lib v owner repo = Inr n"
  shows "issueWF owner repo n"
  using assms
proof (rule normalizeIssue_Inr)
  fix i
  assume names: "namesLoop ''invalid assignee'' {} {} (siAssignees i) = Inr (niAssignees n)"
    and labels: "labelsLoop {} Map.empty (siLabels i) = Inr (niLabels n, niLabelIDs n)"
    and "issueStateOf (siState i) = Inr (niState n)" "niIndex n = siIndex i" "siIndex i > 0"
      "niOwner n = owner" "niRepo n = repo"
  moreover have "distinct (niLabels n) \<and> dom (niLabelIDs n) = set (niLabels n)
      \<and> (\<forall>l i. niLabelIDs n l = Some i \<longrightarrow> i > 0) \<and> inj_on (niLabelIDs n) (set (niLabels n))"
    using labelsLoop_Inr [OF labels] by fastforce
  ultimately show ?thesis
    using namesLoop_Inr [OF names] issueStateOf_Inr [of "siState i" "niState n"] by (simp add: issueWF_def)
qed

end
