(* ===== verification/Gitea_Adapter.thy ===== *)
theory Gitea_Adapter
  imports Gitea_Pulls Policy
begin

text \<open>
  Package \<^verbatim>\<open>internal/provider/gitea\<close>, the adapter that carries out a request: \<^verbatim>\<open>adapter.go\<close>,
  \<^verbatim>\<open>issue_mutation.go\<close>, \<^verbatim>\<open>issue_create.go\<close>, \<^verbatim>\<open>issue_edit.go\<close>, \<^verbatim>\<open>issue_edit_catalog.go\<close>,
  \<^verbatim>\<open>write_outcome.go\<close>, \<^verbatim>\<open>comment_pagination.go\<close> and \<^verbatim>\<open>review_pagination.go\<close>.

  The interfaces \<^verbatim>\<open>giteaAPI\<close> and \<^verbatim>\<open>pullAPI\<close> are records of functions on a world that the model does not
  inspect: a call returns a value or an error and a new world, so the provider may change between and
  during calls and the context may end at any of them. The log of the calls that may change the
  provider is part of the state, and so is the metadata that \<^verbatim>\<open>recordTransition\<close> sets, if the context has it.
\<close>

section \<open>The provider\<close>

record create_option =
  coTitle :: string
  coBody :: string
  coAssignees :: "string list"
  coLabels :: "int list"

record edit_option =
  eoTitle :: string
  eoBody :: "string option"
  eoState :: "sdk_state option"

text \<open>\<^verbatim>\<open>sdk.IssueType\<close>.\<close>

datatype sdk_issue_type = IssueTypeAll | IssueTypeIssue | IssueTypePull

record list_issue_option =
  liPage :: int
  liPageSize :: int
  liState :: sdk_state
  liType :: sdk_issue_type
  liKeyWord :: string
  liCreatedBy :: string
  liAssignedBy :: string
  liMentionedBy :: string
  liOwner :: string
  liSince :: int
  liBefore :: int

record comment_page =
  cpEntryCount :: int
  cpComments :: "sdk_comment option list"

datatype write_call =
    CreateIssueCall string string create_option
  | CreateIssueCommentCall string string int string
  | EditIssueCall string string int edit_option
  | AddIssueAssigneesCall string string int "string list"
  | DeleteIssueAssigneesCall string string int "string list"
  | AddIssueLabelsCall string string int "int list"
  | DeleteIssueLabelCall string string int int

record 'w gitea_api =
  apiGetRepo :: "string \<Rightarrow> string \<Rightarrow> 'w \<Rightarrow> sdk_repository option result \<times> 'w"
  apiListRepoIssues :: "string \<Rightarrow> string \<Rightarrow> list_issue_option \<Rightarrow> 'w \<Rightarrow> sdk_issue option list result \<times> 'w"
  apiGetIssue :: "string \<Rightarrow> string \<Rightarrow> int \<Rightarrow> 'w \<Rightarrow> (int \<times> go_error + sdk_issue option) \<times> 'w"
  apiListIssueTimeline :: "string \<Rightarrow> string \<Rightarrow> int \<Rightarrow> int \<Rightarrow> int \<Rightarrow> 'w \<Rightarrow> comment_page result \<times> 'w"
  apiListRepoLabels :: "string \<Rightarrow> string \<Rightarrow> int \<Rightarrow> int \<Rightarrow> 'w \<Rightarrow> sdk_named option list result \<times> 'w"
  apiGetAssignees :: "string \<Rightarrow> string \<Rightarrow> 'w \<Rightarrow> sdk_named option list result \<times> 'w"
  apiCreateIssue :: "string \<Rightarrow> string \<Rightarrow> create_option \<Rightarrow> 'w \<Rightarrow> sdk_issue option result \<times> 'w"
  apiCreateIssueComment :: "string \<Rightarrow> string \<Rightarrow> int \<Rightarrow> string \<Rightarrow> 'w \<Rightarrow> sdk_comment option result \<times> 'w"
  apiEditIssue :: "string \<Rightarrow> string \<Rightarrow> int \<Rightarrow> edit_option \<Rightarrow> 'w \<Rightarrow> sdk_issue option result \<times> 'w"
  apiAddIssueAssignees :: "string \<Rightarrow> string \<Rightarrow> int \<Rightarrow> string list \<Rightarrow> 'w \<Rightarrow> sdk_issue option result \<times> 'w"
  apiDeleteIssueAssignees :: "string \<Rightarrow> string \<Rightarrow> int \<Rightarrow> string list \<Rightarrow> 'w \<Rightarrow> sdk_issue option result \<times> 'w"
  apiAddIssueLabels :: "string \<Rightarrow> string \<Rightarrow> int \<Rightarrow> int list \<Rightarrow> 'w \<Rightarrow> sdk_named option list result \<times> 'w"
  apiDeleteIssueLabel :: "string \<Rightarrow> string \<Rightarrow> int \<Rightarrow> int \<Rightarrow> 'w \<Rightarrow> unit result \<times> 'w"

record 'w pull_api =
  apiListRepoPullRequests :: "string \<Rightarrow> string \<Rightarrow> int \<Rightarrow> int \<Rightarrow> sdk_state
    \<Rightarrow> 'w \<Rightarrow> (sdk_pull option list \<times> (int \<times> pull_presence) list) result \<times> 'w"
  apiGetPullRequest :: "string \<Rightarrow> string \<Rightarrow> int
    \<Rightarrow> 'w \<Rightarrow> (sdk_pull option \<times> (int \<times> pull_presence) list) result \<times> 'w"
  apiListPullReviews :: "string \<Rightarrow> string \<Rightarrow> int \<Rightarrow> int \<Rightarrow> int \<Rightarrow> 'w \<Rightarrow> sdk_review option list result \<times> 'w"

datatype gitea_response =
    RRepositoryView gt_repository_record
  | RIssueList "gt_issue_record list"
  | RIssueView gt_issue_record
  | RIssueCreate gt_issue_record
  | RIssueComment gt_comment_record
  | RIssueClose gt_issue_record
  | RIssueReopen gt_issue_record
  | RIssueEdit gt_issue_record
  | RPullList "gt_pull_record list"
  | RPullView gt_pull_record

text \<open>
  The surroundings of a call: \<^verbatim>\<open>ctx.Err\<close>, the time stamps and \<^verbatim>\<open>proto.Size\<close> of the protobuf library, and
  \<^verbatim>\<open>url.Parse\<close> and \<^verbatim>\<open>strings.EqualFold\<close>.
\<close>

record parsed_url =
  urlScheme :: string
  urlHost :: string
  urlRawQuery :: string
  urlEscapedPath :: string

record 'w gt_env =
  ctxErr :: "'w \<Rightarrow> go_error option \<times> 'w"
  tsLib :: timestamp_lib
  protoSize :: "gitea_response \<Rightarrow> int"
  parseURL :: "string \<Rightarrow> parsed_url option"
  equalFold :: "string \<Rightarrow> string \<Rightarrow> bool"

record 'w repository_adapter =
  adApi :: "'w gitea_api option"
  adPulls :: "'w pull_api option"


section \<open>Calls\<close>

record 'w gt_state =
  gtWorld :: 'w
  gtWrites :: "write_call list"
  gtMeta :: "bool option option"

type_synonym ('w, 'e, 'a) gt_m = "'w gt_state \<Rightarrow> ('e + 'a) \<times> 'w gt_state"

definition bindG :: "('w, 'e, 'a) gt_m \<Rightarrow> ('a \<Rightarrow> ('w, 'e, 'b) gt_m) \<Rightarrow> ('w, 'e, 'b) gt_m" where
  "bindG m f s = (case m s of (r, s') \<Rightarrow> case r of Inl e \<Rightarrow> (Inl e, s') | Inr a \<Rightarrow> f a s')"

definition liftG :: "'e + 'a \<Rightarrow> ('w, 'e, 'a) gt_m" where
  "liftG r s = (r, s)"

definition readG :: "('w \<Rightarrow> 'a \<times> 'w) \<Rightarrow> 'w gt_state \<Rightarrow> 'a \<times> 'w gt_state" where
  "readG f s = (case f (gtWorld s) of (a, w) \<Rightarrow> (a, s\<lparr>gtWorld := w\<rparr>))"

definition writeG :: "write_call \<Rightarrow> ('w \<Rightarrow> 'a \<times> 'w) \<Rightarrow> 'w gt_state \<Rightarrow> 'a \<times> 'w gt_state" where
  "writeG call f s = (case f (gtWorld s) of (a, w) \<Rightarrow> (a, s\<lparr>gtWorld := w, gtWrites := gtWrites s @ [call]\<rparr>))"

definition checkCtx :: "'w gt_env \<Rightarrow> ('w, go_error, unit) gt_m" where
  "checkCtx env s = (case readG (ctxErr env) s of (r, s') \<Rightarrow> (case r of None \<Rightarrow> Inr () | Some e \<Rightarrow> Inl e, s'))"

definition classifyProviderError :: "'w gt_env \<Rightarrow> go_error \<Rightarrow> ('w, go_error, 'a) gt_m" where
  "classifyProviderError env err s =
     (if errors_Is err ContextCanceled \<or> errors_Is err ContextDeadlineExceeded then (Inl err, s)
      else case readG (ctxErr env) s of (r, s') \<Rightarrow>
        (case r of Some e \<Rightarrow> Inl e | None \<Rightarrow> fail ErrProviderFailure, s'))"

definition recordTransition :: "bool \<Rightarrow> ('w, 'e, unit) gt_m" where
  "recordTransition v s = (Inr (), s\<lparr>gtMeta := (case gtMeta s of None \<Rightarrow> None | Some _ \<Rightarrow> Some (Some v))\<rparr>)"

text \<open>A read of the provider whose error is classified.\<close>

definition readCall :: "'w gt_env \<Rightarrow> ('w \<Rightarrow> 'a result \<times> 'w) \<Rightarrow> ('w, go_error, 'a) gt_m" where
  "readCall env f s =
     (case readG f s of (r, s') \<Rightarrow> case r of Inl e \<Rightarrow> classifyProviderError env e s' | Inr a \<Rightarrow> (Inr a, s'))"

definition getIssue ::
  "'w gt_env \<Rightarrow> 'w gitea_api \<Rightarrow> string \<Rightarrow> string \<Rightarrow> int \<Rightarrow> ('w, go_error, sdk_issue option) gt_m" where
  "getIssue env api owner name index s =
     (case readG (apiGetIssue api owner name index) s of (r, s') \<Rightarrow>
        case r of
          Inr v \<Rightarrow> (Inr v, s')
        | Inl (statusCode, e) \<Rightarrow>
            if statusCode = 404 then (fail ErrNotFound, s') else classifyProviderError env e s')"

text \<open>
  \<^verbatim>\<open>invokeWrite\<close>. The checks assign the response to a variable of the caller; here they return it.
\<close>

definition invokeWrite ::
  "'w gt_env \<Rightarrow> ('w gt_state \<Rightarrow> 'a result \<times> 'w gt_state) \<Rightarrow> ('a \<Rightarrow> 'b result) \<Rightarrow> ('w, go_error, 'b) gt_m" where
  "invokeWrite env invoke validate =
     bindG (checkCtx env) (\<lambda>_ s.
       case invoke s of (r, s') \<Rightarrow>
         (case r of
            Inl _ \<Rightarrow> fail ErrWriteOutcomeUnknown
          | Inr v \<Rightarrow> (case validate v of Inl _ \<Rightarrow> fail ErrWriteOutcomeUnknown | Inr b \<Rightarrow> Inr b), s'))"

definition maximumResponse :: int where "maximumResponse = 8 * 2 ^ 20"

definition boundedResponse :: "'w gt_env \<Rightarrow> sentinel \<Rightarrow> gitea_response \<Rightarrow> gitea_response result" where
  "boundedResponse env err response = (if protoSize env response > maximumResponse then fail err else Inr response)"


section \<open>Reads\<close>

abbreviation ownerOf :: "resolved \<Rightarrow> string" where
  "ownerOf r \<equiv> Owner (resRepository r)"

abbreviation nameOf :: "resolved \<Rightarrow> string" where
  "nameOf r \<equiv> Name (resRepository r)"

definition gt_repository :: "'w gt_env \<Rightarrow> 'w gitea_api \<Rightarrow> resolved \<Rightarrow> ('w, go_error, gitea_response) gt_m" where
  "gt_repository env api repo =
     bindG (readCall env (apiGetRepo api (ownerOf repo) (nameOf repo))) (\<lambda>v.
       liftG (case (gt_validateRepository v (ownerOf repo) (nameOf repo), v) of
         (Inr _, Some r) \<Rightarrow> Inr (RRepositoryView (gt_repositoryRecord (tsLib env) r))
       | _ \<Rightarrow> fail ErrProviderFailure))"

definition canonicalOwnerFilter :: "gt_issue_list \<Rightarrow> string \<Rightarrow> string" where
  "canonicalOwnerFilter r owner = (if gilOwner r \<noteq> None then owner else [])"

text \<open>The map of states; a state that is no key reads as the empty string.\<close>

definition listState :: "int \<Rightarrow> sdk_state" where
  "listState n = (if n = 1 then StateOpen else if n = 2 then StateClosed else if n = 3 then StateAll else StateOther [])"

definition getString :: "string option \<Rightarrow> string" where
  "getString v = (case v of None \<Rightarrow> [] | Some s \<Rightarrow> s)"

fun normalizeAll :: "('a \<Rightarrow> 'b result) \<Rightarrow> 'a list \<Rightarrow> 'b list result" where
  "normalizeAll f [] = Inr []"
| "normalizeAll f (v # vs) =
     (case f v of
        Inl _ \<Rightarrow> fail ErrProviderFailure
      | Inr b \<Rightarrow> bindE (normalizeAll f vs) (\<lambda>bs. Inr (b # bs)))"

definition issueList ::
  "'w gt_env \<Rightarrow> 'w gitea_api \<Rightarrow> resolved \<Rightarrow> gt_issue_list \<Rightarrow> ('w, go_error, gitea_response) gt_m" where
  "issueList env api repo r =
     (if gilOwner r \<noteq> None \<and> \<not> equalFold env (getString (gilOwner r)) (ownerOf repo) then liftG (Inr (RIssueList []))
      else
        bindG (readCall env (apiListRepoIssues api (ownerOf repo) (nameOf repo)
          \<lparr>liPage = gilPage r, liPageSize = gilLimit r, liState = listState (gilState r), liType = IssueTypeIssue,
           liKeyWord = getString (gilKeyword r), liCreatedBy = getString (gilAuthor r),
           liAssignedBy = getString (gilAssignee r), liMentionedBy = getString (gilMentions r),
           liOwner = canonicalOwnerFilter r (ownerOf repo),
           liSince = (case gilFrom r of None \<Rightarrow> 0 | Some t \<Rightarrow> tsAsTime (tsLib env) t),
           liBefore = (case gilUntil r of None \<Rightarrow> 0 | Some t \<Rightarrow> tsAsTime (tsLib env) t)\<rparr>)) (\<lambda>issues.
        liftG (if int (length issues) > gilLimit r then fail ErrProviderFailure
               else bindE (normalizeAll (\<lambda>v. normalizeIssue (tsLib env) v (ownerOf repo) (nameOf repo)) issues) (\<lambda>ns.
                 Inr (RIssueList (map (\<lambda>n. projectIssue (tsLib env) n (gilFields r)) ns))))))"

text \<open>What \<^verbatim>\<open>issueView\<close> and \<^verbatim>\<open>issuePreflight\<close> do with the issue they got.\<close>

definition viewedIssue ::
  "timestamp_lib \<Rightarrow> resolved \<Rightarrow> int \<Rightarrow> sdk_issue option \<Rightarrow> normalized_issue result" where
  "viewedIssue lib repo index issue =
     (case issue of
        None \<Rightarrow> fail ErrProviderFailure
      | Some i \<Rightarrow>
          if siIsPull i then fail ErrIssueKind
          else (case normalizeIssue lib (Some i) (ownerOf repo) (nameOf repo) of
             Inl _ \<Rightarrow> fail ErrProviderFailure
           | Inr n \<Rightarrow> if niIndex n \<noteq> index then fail ErrProviderFailure else Inr n))"

definition issuePreflight ::
  "'w gt_env \<Rightarrow> 'w gitea_api \<Rightarrow> resolved \<Rightarrow> int \<Rightarrow> ('w, go_error, normalized_issue) gt_m" where
  "issuePreflight env api repo index =
     bindG (checkCtx env) (\<lambda>_.
     bindG (getIssue env api (ownerOf repo) (nameOf repo) index) (\<lambda>issue.
       liftG (viewedIssue (tsLib env) repo index issue)))"

definition commentPageSize :: int where "commentPageSize = 50"
definition maximumCommentPages :: int where "maximumCommentPages = 20"

definition completeOrdinaryComments :: "int \<Rightarrow> gt_comment_record list \<Rightarrow> gt_comment_record list result" where
  "completeOrdinaryComments expected comments =
     (if int (length comments) \<noteq> expected then fail ErrProviderFailure else Inr comments)"

fun normalizeCommentPage ::
  "timestamp_lib \<Rightarrow> sdk_comment option list \<Rightarrow> int \<Rightarrow> (gt_comment_record list \<times> int) result" where
  "normalizeCommentPage lib [] prev = Inr ([], prev)"
| "normalizeCommentPage lib (v # vs) prev =
     (case normalizeComment lib v of
        Inl _ \<Rightarrow> fail ErrProviderFailure
      | Inr c \<Rightarrow>
          if cmrId c \<le> prev then fail ErrProviderFailure
          else bindE (normalizeCommentPage lib vs (cmrId c)) (\<lambda>(cs, next). Inr (c # cs, next)))"

fun commentPages ::
  "'w gt_env \<Rightarrow> 'w gitea_api \<Rightarrow> string \<Rightarrow> string \<Rightarrow> int \<Rightarrow> int \<Rightarrow> int list \<Rightarrow> gt_comment_record list \<Rightarrow> int
    \<Rightarrow> ('w, go_error, gt_comment_record list) gt_m" where
  "commentPages env api owner repo index expected [] comments prev = liftG (fail ErrOutputLimit)"
| "commentPages env api owner repo index expected (page # pages) comments prev =
     bindG (checkCtx env) (\<lambda>_.
     bindG (readCall env (apiListIssueTimeline api owner repo index page commentPageSize)) (\<lambda>values.
       if page = maximumCommentPages + 1
       then liftG (if cpEntryCount values \<noteq> 0 then fail ErrOutputLimit
                   else completeOrdinaryComments expected comments)
       else if cpEntryCount values > commentPageSize \<or> int (length (cpComments values)) > cpEntryCount values
       then liftG (fail ErrProviderFailure)
       else
         bindG (liftG (normalizeCommentPage (tsLib env) (cpComments values) prev)) (\<lambda>(normalized, next).
           if cpEntryCount values < commentPageSize
           then liftG (completeOrdinaryComments expected (comments @ normalized))
           else commentPages env api owner repo index expected pages (comments @ normalized) next)))"

definition loadOrdinaryComments ::
  "'w gt_env \<Rightarrow> 'w gitea_api \<Rightarrow> string \<Rightarrow> string \<Rightarrow> int \<Rightarrow> int \<Rightarrow> ('w, go_error, gt_comment_record list) gt_m" where
  "loadOrdinaryComments env api owner repo index expected =
     (if expected < 0 then liftG (fail ErrProviderFailure)
      else commentPages env api owner repo index expected [1..maximumCommentPages + 1] [] 0)"

definition issueView ::
  "'w gt_env \<Rightarrow> 'w gitea_api \<Rightarrow> resolved \<Rightarrow> gt_view \<Rightarrow> ('w, go_error, gitea_response) gt_m" where
  "issueView env api repo r =
     bindG (getIssue env api (ownerOf repo) (nameOf repo) (gvIndex r)) (\<lambda>issue.
     bindG (liftG (viewedIssue (tsLib env) repo (gvIndex r) issue)) (\<lambda>n.
       let record = projectIssue (tsLib env) n allIssueFields in
       if gvIncludeComments r
       then bindG (loadOrdinaryComments env api (ownerOf repo) (nameOf repo) (gvIndex r) (irCommentCount record))
              (\<lambda>comments. liftG (Inr (RIssueView (record\<lparr>irComments := comments\<rparr>))))
       else liftG (Inr (RIssueView record))))"

fun reviewPage ::
  "timestamp_lib \<Rightarrow> sdk_review option list \<Rightarrow> int \<Rightarrow> (gt_review_record list \<times> int) result" where
  "reviewPage lib [] prev = Inr ([], prev)"
| "reviewPage lib (v # vs) prev =
     (case normalizePullReview lib v of
        Inl _ \<Rightarrow> fail ErrProviderFailure
      | Inr r \<Rightarrow>
          if rrId r \<le> prev then fail ErrProviderFailure
          else bindE (reviewPage lib vs (rrId r)) (\<lambda>(rs, next). Inr (r # rs, next)))"

fun reviewPages ::
  "'w gt_env \<Rightarrow> 'w pull_api \<Rightarrow> string \<Rightarrow> string \<Rightarrow> int \<Rightarrow> int list \<Rightarrow> gt_review_record list \<Rightarrow> int
    \<Rightarrow> ('w, go_error, gt_review_record list) gt_m" where
  "reviewPages env pulls owner repo index [] reviews prev = liftG (fail ErrOutputLimit)"
| "reviewPages env pulls owner repo index (page # pages) reviews prev =
     bindG (checkCtx env) (\<lambda>_.
     bindG (readCall env (apiListPullReviews pulls owner repo index page 50)) (\<lambda>values.
       if page = 21 then liftG (if values \<noteq> [] then fail ErrOutputLimit else Inr reviews)
       else if length values > 50 then liftG (fail ErrProviderFailure)
       else
         bindG (liftG (reviewPage (tsLib env) values prev)) (\<lambda>(normalized, next).
           if length values < 50 then liftG (Inr (reviews @ normalized))
           else reviewPages env pulls owner repo index pages (reviews @ normalized) next)))"

definition loadPullReviews ::
  "'w gt_env \<Rightarrow> 'w pull_api \<Rightarrow> string \<Rightarrow> string \<Rightarrow> int \<Rightarrow> ('w, go_error, gt_review_record list) gt_m" where
  "loadPullReviews env pulls owner repo index = reviewPages env pulls owner repo index [1..21] [] 0"

definition pullView ::
  "'w gt_env \<Rightarrow> 'w gitea_api \<Rightarrow> 'w pull_api option \<Rightarrow> resolved \<Rightarrow> gt_view \<Rightarrow> ('w, go_error, gitea_response) gt_m" where
  "pullView env api pulls repo r =
     (case pulls of
        None \<Rightarrow> liftG (fail ErrServiceUnavailable)
      | Some pulls \<Rightarrow>
          bindG (getIssue env api (ownerOf repo) (nameOf repo) (gvIndex r)) (\<lambda>issue.
          bindG (liftG (case issue of
              None \<Rightarrow> fail ErrProviderFailure
            | Some i \<Rightarrow> if siIndex i \<noteq> gvIndex r then fail ErrProviderFailure
                        else if \<not> siIsPull i then fail ErrPullKind else Inr ())) (\<lambda>_.
          bindG (readCall env (apiGetPullRequest pulls (ownerOf repo) (nameOf repo) (gvIndex r))) (\<lambda>(v, presence).
          bindG (liftG (case v of
              None \<Rightarrow> fail ErrProviderFailure
            | Some p \<Rightarrow>
                if spIndex p \<noteq> gvIndex r \<or> length presence \<noteq> 1 then fail ErrProviderFailure
                else (case map_of presence (spIndex p) of
                   None \<Rightarrow> fail ErrProviderFailure
                 | Some raw \<Rightarrow> (case normalizePull (tsLib env) v raw (ownerOf repo) (nameOf repo) of
                     Inl _ \<Rightarrow> fail ErrProviderFailure | Inr n \<Rightarrow> Inr (projectPullDetail (tsLib env) n))))) (\<lambda>record.
          bindG (loadPullReviews env pulls (ownerOf repo) (nameOf repo) (gvIndex r)) (\<lambda>reviews.
          bindG (if gvIncludeComments r
                 then loadOrdinaryComments env api (ownerOf repo) (nameOf repo) (gvIndex r) (prrCommentCount record)
                 else liftG (Inr [])) (\<lambda>comments.
            liftG (Inr (RPullView (record\<lparr>prrReviews := reviews, prrComments := comments\<rparr>))))))))))"

fun listedPulls ::
  "timestamp_lib \<Rightarrow> resolved \<Rightarrow> (int \<times> pull_presence) list \<Rightarrow> int set \<Rightarrow> sdk_pull option list \<Rightarrow> normalized_pull list result"
where
  "listedPulls lib repo presence seen [] = Inr []"
| "listedPulls lib repo presence seen (v # vs) =
     (case v of
        None \<Rightarrow> fail ErrProviderFailure
      | Some p \<Rightarrow>
          if spIndex p \<in> seen then fail ErrProviderFailure
          else (case map_of presence (spIndex p) of
             None \<Rightarrow> fail ErrProviderFailure
           | Some raw \<Rightarrow> (case normalizePull lib v raw (ownerOf repo) (nameOf repo) of
               Inl _ \<Rightarrow> fail ErrProviderFailure
             | Inr n \<Rightarrow> bindE (listedPulls lib repo presence (insert (spIndex p) seen) vs) (\<lambda>ns. Inr (n # ns)))))"

definition pullList ::
  "'w gt_env \<Rightarrow> 'w pull_api option \<Rightarrow> resolved \<Rightarrow> gt_pull_list \<Rightarrow> ('w, go_error, gitea_response) gt_m" where
  "pullList env pulls repo r =
     (case pulls of
        None \<Rightarrow> liftG (fail ErrServiceUnavailable)
      | Some pulls \<Rightarrow>
          bindG (readCall env (apiListRepoPullRequests pulls (ownerOf repo) (nameOf repo) (gplPage r) (gplLimit r)
                   (listState (gplState r)))) (\<lambda>(values, presence).
          liftG (if int (length values) > gplLimit r \<or> length values \<noteq> length presence then fail ErrProviderFailure
                 else bindE (listedPulls (tsLib env) repo presence {} values) (\<lambda>ns.
                   Inr (RPullList (map (\<lambda>n. projectPull (tsLib env) n (gplFields r)) ns))))))"

end
