(* ===== verification/Gitea_Write.thy ===== *)
theory Gitea_Write
  imports Gitea_Adapter Go_Strings
begin

text \<open>
  Package \<^verbatim>\<open>internal/provider/gitea\<close>, the operations that change an issue (\<^verbatim>\<open>issue_create.go\<close>,
  \<^verbatim>\<open>issue_mutation.go\<close>, \<^verbatim>\<open>issue_edit_catalog.go\<close>, \<^verbatim>\<open>issue_edit.go\<close>) and the dispatch of requests
  (\<^verbatim>\<open>Execute\<close> of \<^verbatim>\<open>adapter.go\<close>).
\<close>

section \<open>Creating an issue\<close>

definition addCatalogEntry ::
  "int set \<times> (string \<rightharpoonup> int) \<Rightarrow> sdk_named option \<Rightarrow> (int set \<times> (string \<rightharpoonup> int)) result" where
  "addCatalogEntry acc v =
     (case v of
        None \<Rightarrow> fail ErrProviderFailure
      | Some l \<Rightarrow>
          if badNamed l \<or> nID l \<in> fst acc then fail ErrProviderFailure
          else if snd acc (nName l) \<noteq> None then fail ErrProviderFailure
          else Inr (insert (nID l) (fst acc), (snd acc)(nName l \<mapsto> nID l)))"

fun labelPages ::
  "'w gt_env \<Rightarrow> 'w gitea_api \<Rightarrow> string \<Rightarrow> string \<Rightarrow> int list \<Rightarrow> int set \<times> (string \<rightharpoonup> int)
    \<Rightarrow> ('w, go_error, string \<rightharpoonup> int) gt_m" where
  "labelPages env api owner repo [] acc = liftG (fail ErrProviderFailure)"
| "labelPages env api owner repo (page # pages) acc =
     bindG (checkCtx env) (\<lambda>_.
     bindG (readCall env (apiListRepoLabels api owner repo page 50)) (\<lambda>labels.
       if length labels > 50 then liftG (fail ErrProviderFailure)
       else if page = 21
       then liftG (if length labels \<noteq> 0 then fail ErrFailedPrecondition else Inr (snd acc))
       else
         bindG (liftG (foldE addCatalogEntry acc labels)) (\<lambda>acc'.
           if length labels < 50 then liftG (Inr (snd acc')) else labelPages env api owner repo pages acc')))"

fun lookupIDs :: "(string \<rightharpoonup> int) \<Rightarrow> string list \<Rightarrow> int list result" where
  "lookupIDs m [] = Inr []"
| "lookupIDs m (name # names) =
     (case m name of
        None \<Rightarrow> fail ErrFailedPrecondition
      | Some i \<Rightarrow> bindE (lookupIDs m names) (\<lambda>is. Inr (i # is)))"

definition resolveLabelIDs ::
  "'w gt_env \<Rightarrow> 'w gitea_api \<Rightarrow> string \<Rightarrow> string \<Rightarrow> string list \<Rightarrow> ('w, go_error, int list) gt_m" where
  "resolveLabelIDs env api owner repo requested =
     (if requested = [] then liftG (Inr [])
      else bindG (labelPages env api owner repo [1..21] ({}, Map.empty)) (\<lambda>byName.
        liftG (lookupIDs byName requested)))"

definition issueCreate ::
  "'w gt_env \<Rightarrow> 'w gitea_api \<Rightarrow> resolved \<Rightarrow> gt_issue_create \<Rightarrow> ('w, go_error, gitea_response) gt_m" where
  "issueCreate env api repo r =
     bindG (resolveLabelIDs env api (ownerOf repo) (nameOf repo) (gicLabels r)) (\<lambda>labels.
       let option = \<lparr>coTitle = gicTitle r, coBody = getString (gicDescription r), coAssignees = gicAssignees r,
                     coLabels = labels\<rparr> in
       invokeWrite env
         (writeG (CreateIssueCall (ownerOf repo) (nameOf repo) option)
            (apiCreateIssue api (ownerOf repo) (nameOf repo) option))
         (\<lambda>issue. bindE (normalizeIssue (tsLib env) issue (ownerOf repo) (nameOf repo)) (\<lambda>n.
            boundedResponse env ErrResourceExhausted (RIssueCreate (projectIssue (tsLib env) n allIssueFields)))))"


section \<open>Comments\<close>

definition commentURLMatches :: "'w gt_env \<Rightarrow> string \<Rightarrow> string \<Rightarrow> string \<Rightarrow> int \<Rightarrow> bool \<Rightarrow> bool" where
  "commentURLMatches env rawURL owner repo index apiURL =
     (case parseURL env rawURL of
        None \<Rightarrow> False
      | Some u \<Rightarrow>
          if urlScheme u \<noteq> ''http'' \<and> urlScheme u \<noteq> ''https'' \<or> urlHost u = [] \<or> urlRawQuery u \<noteq> [] then False
          else
            (let want = path_Join [owner, repo, ''issues'', itoa index];
                 got = trimPrefix (path_Clean (urlEscapedPath u)) ''/'' in
             if \<not> apiURL then got = want else got = want \<or> got = path_Join [''api'', ''v1'', ''repos'', want]))"

definition normalizeIssueMutationComment ::
  "'w gt_env \<Rightarrow> sdk_comment option \<Rightarrow> string \<Rightarrow> string \<Rightarrow> int \<Rightarrow> gt_comment_record result" where
  "normalizeIssueMutationComment env comment owner repo index =
     (case comment of
        None \<Rightarrow> errorf ''invalid issue comment association''
      | Some c \<Rightarrow>
          if scPRURL c \<noteq> [] \<or> scIssueURL c \<noteq> [] \<and> \<not> commentURLMatches env (scIssueURL c) owner repo index True
            \<or> \<not> commentURLMatches env (scHTMLURL c) owner repo index False
          then errorf ''invalid issue comment association''
          else normalizeComment (tsLib env) comment)"

definition issueComment ::
  "'w gt_env \<Rightarrow> 'w gitea_api \<Rightarrow> resolved \<Rightarrow> gt_issue_comment \<Rightarrow> ('w, go_error, gitea_response) gt_m" where
  "issueComment env api repo r =
     bindG (issuePreflight env api repo (gcmIndex r)) (\<lambda>_.
       invokeWrite env
         (writeG (CreateIssueCommentCall (ownerOf repo) (nameOf repo) (gcmIndex r) (gcmBody r))
            (apiCreateIssueComment api (ownerOf repo) (nameOf repo) (gcmIndex r) (gcmBody r)))
         (\<lambda>comment.
            bindE (normalizeIssueMutationComment env comment (ownerOf repo) (nameOf repo) (gcmIndex r)) (\<lambda>record.
              boundedResponse env ErrResourceExhausted (RIssueComment record))))"


section \<open>Closing and reopening\<close>

datatype issue_state_operation = IssueStateClose | IssueStateReopen

fun targetOf :: "issue_state_operation \<Rightarrow> sdk_state \<times> int" where
  "targetOf IssueStateClose = (StateClosed, 2)"
| "targetOf IssueStateReopen = (StateOpen, 1)"

fun issueStateResponse :: "issue_state_operation \<Rightarrow> gt_issue_record \<Rightarrow> gitea_response" where
  "issueStateResponse IssueStateClose record = RIssueClose record"
| "issueStateResponse IssueStateReopen record = RIssueReopen record"

definition issueState ::
  "'w gt_env \<Rightarrow> 'w gitea_api \<Rightarrow> resolved \<Rightarrow> int \<Rightarrow> issue_state_operation \<Rightarrow> ('w, go_error, gitea_response) gt_m" where
  "issueState env api repo index operation =
     bindG (issuePreflight env api repo index) (\<lambda>current.
       if niState current = snd (targetOf operation)
       then
         bindG (liftG (boundedResponse env ErrProviderFailure
                  (issueStateResponse operation (projectIssue (tsLib env) current allIssueFields)))) (\<lambda>response.
         bindG (recordTransition False) (\<lambda>_. liftG (Inr response)))
       else
         (let option = \<lparr>eoTitle = [], eoBody = None, eoState = Some (fst (targetOf operation))\<rparr> in
          bindG (invokeWrite env
            (writeG (EditIssueCall (ownerOf repo) (nameOf repo) index option)
               (apiEditIssue api (ownerOf repo) (nameOf repo) index option))
            (\<lambda>issue. case normalizeIssue (tsLib env) issue (ownerOf repo) (nameOf repo) of
                Inl _ \<Rightarrow> fail ErrProviderFailure
              | Inr n \<Rightarrow>
                  if niIndex n \<noteq> index \<or> niState n \<noteq> snd (targetOf operation) then fail ErrProviderFailure
                  else boundedResponse env ErrResourceExhausted
                         (issueStateResponse operation (projectIssue (tsLib env) n allIssueFields)))) (\<lambda>response.
          bindG (recordTransition True) (\<lambda>_. liftG (Inr response)))))"


section \<open>Editing an issue\<close>

definition neededLabelNames :: "edit_intent \<Rightarrow> normalized_issue \<Rightarrow> string list" where
  "neededLabelNames intent issue =
     filter (\<lambda>name. labelMode intent = EditAdd \<and> name \<notin> set (niLabels issue)
        \<or> labelMode intent = EditRemove \<and> name \<in> set (niLabels issue)) (inLabels intent)"

definition assigneeCatalog ::
  "'w gt_env \<Rightarrow> 'w gitea_api \<Rightarrow> string \<Rightarrow> string \<Rightarrow> edit_intent \<Rightarrow> ('w, go_error, string \<rightharpoonup> int) gt_m" where
  "assigneeCatalog env api owner repo intent =
     (if (assigneeMode intent = EditSet \<or> assigneeMode intent = EditAdd) \<and> inAssignees intent \<noteq> []
      then
        bindG (checkCtx env) (\<lambda>_.
        bindG (readCall env (apiGetAssignees api owner repo)) (\<lambda>users.
          liftG (bindE (foldE addCatalogEntry ({}, Map.empty) users) (\<lambda>(_, m).
            if list_ex (\<lambda>name. idOf m name \<le> 0) (inAssignees intent) then fail ErrFailedPrecondition else Inr m))))
      else liftG (Inr Map.empty))"

definition keptLabels :: "edit_intent \<Rightarrow> normalized_issue \<Rightarrow> (string \<rightharpoonup> int)" where
  "keptLabels intent issue =
     (if labelMode intent = EditAdd
      then foldl (\<lambda>m name. if name \<in> set (inLabels intent) then m(name \<mapsto> idOf (niLabelIDs issue) name) else m)
             Map.empty (niLabels issue)
      else Map.empty)"

definition addNeededLabel ::
  "edit_intent \<Rightarrow> normalized_issue \<Rightarrow> (string \<rightharpoonup> int) \<Rightarrow> string \<times> int \<Rightarrow> (string \<rightharpoonup> int) result" where
  "addNeededLabel intent issue m e =
     (if labelMode intent = EditRemove \<and> idOf (niLabelIDs issue) (fst e) \<noteq> snd e then fail ErrProviderFailure
      else Inr (m(fst e \<mapsto> snd e)))"

definition collectEditCatalogs ::
  "'w gt_env \<Rightarrow> 'w gitea_api \<Rightarrow> string \<Rightarrow> string \<Rightarrow> edit_intent \<Rightarrow> normalized_issue \<Rightarrow> ('w, go_error, edit_catalogs) gt_m"
where
  "collectEditCatalogs env api owner repo intent issue =
     bindG (assigneeCatalog env api owner repo intent) (\<lambda>assignees.
       let needed = neededLabelNames intent issue; kept = keptLabels intent issue in
       if needed \<noteq> []
       then
         bindG (resolveLabelIDs env api owner repo needed) (\<lambda>ids.
           liftG (bindE (foldE (addNeededLabel intent issue) kept (zip needed ids)) (\<lambda>labels.
             Inr \<lparr>catAssignees = assignees, catLabels = labels\<rparr>)))
       else liftG (Inr \<lparr>catAssignees = assignees, catLabels = kept\<rparr>))"

record edit_execution =
  confirmed :: bool

text \<open>One write of a plan: the facts are updated once it is confirmed, and accompany its error otherwise.\<close>

definition confirming ::
  "edit_execution \<Rightarrow> ('w, go_error, 'a) gt_m \<Rightarrow> ('w, go_error \<times> edit_execution, edit_execution) gt_m" where
  "confirming facts m s =
     (case m s of (r, s') \<Rightarrow> (case r of Inl e \<Rightarrow> Inl (e, facts) | Inr _ \<Rightarrow> Inr (facts\<lparr>confirmed := True\<rparr>), s'))"

definition checkedIssue ::
  "'w gt_env \<Rightarrow> string \<Rightarrow> string \<Rightarrow> int \<Rightarrow> (normalized_issue \<Rightarrow> bool) \<Rightarrow> sdk_issue option \<Rightarrow> unit result" where
  "checkedIssue env owner repo index ok v =
     (case normalizeIssue (tsLib env) v owner repo of
        Inl _ \<Rightarrow> errorf ''invalid response''
      | Inr n \<Rightarrow> if niIndex n \<noteq> index \<or> \<not> ok n then errorf ''invalid response'' else Inr ())"

fun labelsSeen :: "int set \<Rightarrow> string set \<Rightarrow> sdk_named option list \<Rightarrow> int set result" where
  "labelsSeen ids names [] = Inr ids"
| "labelsSeen ids names (None # vs) = errorf ''invalid label response''"
| "labelsSeen ids names (Some l # vs) =
     (if badNamed l \<or> nID l \<in> ids \<or> nName l \<in> names then errorf ''invalid label response''
      else labelsSeen (insert (nID l) ids) (insert (nName l) names) vs)"

definition validateEditLabels :: "sdk_named option list \<Rightarrow> int list \<Rightarrow> unit result" where
  "validateEditLabels values required =
     bindE (labelsSeen {} {} values) (\<lambda>ids.
       if list_ex (\<lambda>i. i \<notin> ids) required then errorf ''missing added label'' else Inr ())"

fun deleteLabels ::
  "'w gt_env \<Rightarrow> 'w gitea_api \<Rightarrow> string \<Rightarrow> string \<Rightarrow> int \<Rightarrow> int list \<Rightarrow> edit_execution
    \<Rightarrow> ('w, go_error \<times> edit_execution, edit_execution) gt_m" where
  "deleteLabels env api owner repo index [] facts = liftG (Inr facts)"
| "deleteLabels env api owner repo index (labelID # rest) facts =
     bindG (confirming facts (invokeWrite env
         (writeG (DeleteIssueLabelCall owner repo index labelID) (apiDeleteIssueLabel api owner repo index labelID)) Inr))
       (deleteLabels env api owner repo index rest)"

definition onlyIf :: "bool \<Rightarrow> (edit_execution \<Rightarrow> ('w, 'e, edit_execution) gt_m) \<Rightarrow> edit_execution \<Rightarrow> ('w, 'e, edit_execution) gt_m" where
  "onlyIf b m facts = (if b then m facts else liftG (Inr facts))"

definition executeIssueEditPlan ::
  "'w gt_env \<Rightarrow> 'w gitea_api \<Rightarrow> string \<Rightarrow> string \<Rightarrow> int \<Rightarrow> edit_plan \<Rightarrow> edit_execution
    \<Rightarrow> ('w, go_error \<times> edit_execution, edit_execution) gt_m" where
  "executeIssueEditPlan env api owner repo index plan facts =
     bindG (case planText plan of
        None \<Rightarrow> liftG (Inr facts)
      | Some t \<Rightarrow>
          (let option = \<lparr>eoTitle = teTitle t, eoBody = teBody t, eoState = None\<rparr> in
           confirming facts (invokeWrite env
             (writeG (EditIssueCall owner repo index option) (apiEditIssue api owner repo index option))
             (checkedIssue env owner repo index (\<lambda>n. niTitle n = teTitle t
                \<and> (case teBody t of None \<Rightarrow> True | Some b \<Rightarrow> niBody n = b)))))) (\<lambda>facts.
     bindG (onlyIf (removeAssignees plan \<noteq> []) (\<lambda>facts. confirming facts (invokeWrite env
             (writeG (DeleteIssueAssigneesCall owner repo index (removeAssignees plan))
                (apiDeleteIssueAssignees api owner repo index (removeAssignees plan)))
             (checkedIssue env owner repo index (\<lambda>n. set (removeAssignees plan) \<inter> set (niAssignees n) = {})))) facts) (\<lambda>facts.
     bindG (onlyIf (addAssignees plan \<noteq> []) (\<lambda>facts. confirming facts (invokeWrite env
             (writeG (AddIssueAssigneesCall owner repo index (addAssignees plan))
                (apiAddIssueAssignees api owner repo index (addAssignees plan)))
             (checkedIssue env owner repo index (\<lambda>n. set (addAssignees plan) \<subseteq> set (niAssignees n))))) facts) (\<lambda>facts.
     bindG (onlyIf (addLabelIDs plan \<noteq> []) (\<lambda>facts. confirming facts (invokeWrite env
             (writeG (AddIssueLabelsCall owner repo index (addLabelIDs plan))
                (apiAddIssueLabels api owner repo index (addLabelIDs plan)))
             (\<lambda>values. validateEditLabels values (addLabelIDs plan)))) facts) (\<lambda>facts.
     deleteLabels env api owner repo index (removeLabelIDs plan) facts))))"

definition classifyEditKnownFailure :: "edit_execution \<Rightarrow> go_error \<Rightarrow> go_error" where
  "classifyEditKnownFailure facts err = (if confirmed facts then Sentinel ErrEditPartial else err)"

definition editResponse :: "'w gt_env \<Rightarrow> normalized_issue \<Rightarrow> gitea_response result" where
  "editResponse env issue =
     boundedResponse env ErrResourceExhausted (RIssueEdit (projectIssue (tsLib env) issue allIssueFields))"

definition transitioned :: "'w gt_env \<Rightarrow> bool \<Rightarrow> normalized_issue \<Rightarrow> ('w, go_error, gitea_response) gt_m" where
  "transitioned env v issue = bindG (recordTransition v) (\<lambda>_. liftG (editResponse env issue))"

definition resolveIssueEditFailure ::
  "'w gt_env \<Rightarrow> 'w gitea_api \<Rightarrow> resolved \<Rightarrow> int \<Rightarrow> edit_intent \<Rightarrow> edit_execution \<Rightarrow> go_error
    \<Rightarrow> ('w, go_error, gitea_response) gt_m" where
  "resolveIssueEditFailure env api repo index intent facts err s =
     (if \<not> errors_Is err ErrWriteOutcomeUnknown then (Inl (classifyEditKnownFailure facts err), s)
      else case readG (ctxErr env) s of (r, s') \<Rightarrow>
        (if r = None
         then (case issuePreflight env api repo index s' of (issue, s'') \<Rightarrow>
           case issue of
             Inr n \<Rightarrow> if editSatisfied intent (Some n) then transitioned env True n s''
                      else (fail ErrWriteOutcomeUnknown, s'')
           | Inl _ \<Rightarrow> (fail ErrWriteOutcomeUnknown, s''))
         else (fail ErrWriteOutcomeUnknown, s')))"

text \<open>The re-read of an edited issue: a failure is partial once a write is confirmed.\<close>

definition rereadIssue ::
  "'w gt_env \<Rightarrow> 'w gitea_api \<Rightarrow> resolved \<Rightarrow> int \<Rightarrow> edit_execution \<Rightarrow> ('w, go_error, normalized_issue) gt_m" where
  "rereadIssue env api repo index facts s =
     (case issuePreflight env api repo index s of (r, s') \<Rightarrow>
        (case r of Inl e \<Rightarrow> Inl (classifyEditKnownFailure facts e) | Inr n \<Rightarrow> Inr n, s'))"

text \<open>A round of writes, continued with the facts once it succeeded.\<close>

definition editRound ::
  "'w gt_env \<Rightarrow> 'w gitea_api \<Rightarrow> resolved \<Rightarrow> int \<Rightarrow> edit_intent \<Rightarrow> edit_plan \<Rightarrow> edit_execution
    \<Rightarrow> (edit_execution \<Rightarrow> ('w, go_error, gitea_response) gt_m) \<Rightarrow> ('w, go_error, gitea_response) gt_m" where
  "editRound env api repo index intent plan facts continue s =
     (case executeIssueEditPlan env api (ownerOf repo) (nameOf repo) index plan facts s of (r, s') \<Rightarrow>
        case r of
          Inl (e, facts') \<Rightarrow> resolveIssueEditFailure env api repo index intent facts' e s'
        | Inr facts' \<Rightarrow> continue facts' s')"

text \<open>After a round: \<open>finishEdit\<close> for the last one, \<open>reviewEdit\<close> for the first, which may start a corrective one.\<close>

definition finishEdit ::
  "'w gt_env \<Rightarrow> 'w gitea_api \<Rightarrow> resolved \<Rightarrow> int \<Rightarrow> edit_intent \<Rightarrow> edit_execution \<Rightarrow> ('w, go_error, gitea_response) gt_m" where
  "finishEdit env api repo index intent facts =
     bindG (rereadIssue env api repo index facts) (\<lambda>final.
       if \<not> editSatisfied intent (Some final)
       then liftG (Inl (classifyEditKnownFailure facts (Sentinel ErrFailedPrecondition)))
       else transitioned env True final)"

definition reviewEdit ::
  "'w gt_env \<Rightarrow> 'w gitea_api \<Rightarrow> resolved \<Rightarrow> int \<Rightarrow> edit_intent \<Rightarrow> edit_catalogs \<Rightarrow> edit_execution
    \<Rightarrow> ('w, go_error, gitea_response) gt_m" where
  "reviewEdit env api repo index intent catalogs facts =
     bindG (rereadIssue env api repo index facts) (\<lambda>final.
       if editSatisfied intent (Some final) then transitioned env True final
       else (case planIssueEdit intent (Some final) catalogs of
         Inl _ \<Rightarrow> liftG (Inl (classifyEditKnownFailure facts (Sentinel ErrProviderFailure)))
       | Inr corrective \<Rightarrow>
           editRound env api repo index intent corrective facts (finishEdit env api repo index intent)))"

definition startEdit ::
  "'w gt_env \<Rightarrow> 'w gitea_api \<Rightarrow> resolved \<Rightarrow> int \<Rightarrow> edit_intent \<Rightarrow> normalized_issue \<Rightarrow> edit_catalogs
    \<Rightarrow> ('w, go_error, gitea_response) gt_m" where
  "startEdit env api repo index intent issue catalogs =
     (case planIssueEdit intent (Some issue) catalogs of
        Inl _ \<Rightarrow> liftG (fail ErrProviderFailure)
      | Inr plan \<Rightarrow>
          if plan_empty plan then transitioned env False issue
          else editRound env api repo index intent plan \<lparr>confirmed = False\<rparr>
                 (reviewEdit env api repo index intent catalogs))"

definition issueEdit ::
  "'w gt_env \<Rightarrow> 'w gitea_api \<Rightarrow> resolved \<Rightarrow> gt_issue_edit \<Rightarrow> ('w, go_error, gitea_response) gt_m" where
  "issueEdit env api repo request =
     bindG (liftG (normalizeEditIntent (Some request))) (\<lambda>intent.
     bindG (issuePreflight env api repo (gieIndex request)) (\<lambda>issue.
     bindG (collectEditCatalogs env api (ownerOf repo) (nameOf repo) intent issue)
       (startEdit env api repo (gieIndex request) intent issue)))"


section \<open>Dispatch\<close>

fun dispatch ::
  "'w gt_env \<Rightarrow> 'w gitea_api \<Rightarrow> 'w pull_api option \<Rightarrow> resolved \<Rightarrow> gitea_operation \<Rightarrow> ('w, go_error, gitea_response) gt_m" where
  "dispatch env api pulls repo (GtRepositoryView (Some _)) = gt_repository env api repo"
| "dispatch env api pulls repo (GtIssueList (Some r)) = issueList env api repo r"
| "dispatch env api pulls repo (GtIssueView (Some r)) = issueView env api repo r"
| "dispatch env api pulls repo (GtIssueCreate (Some r)) = issueCreate env api repo r"
| "dispatch env api pulls repo (GtIssueComment (Some r)) = issueComment env api repo r"
| "dispatch env api pulls repo (GtIssueClose (Some i)) = issueState env api repo i IssueStateClose"
| "dispatch env api pulls repo (GtIssueReopen (Some i)) = issueState env api repo i IssueStateReopen"
| "dispatch env api pulls repo (GtIssueEdit (Some r)) = issueEdit env api repo r"
| "dispatch env api pulls repo (GtPullList (Some r)) = pullList env pulls repo r"
| "dispatch env api pulls repo (GtPullView (Some r)) = pullView env api pulls repo r"
| "dispatch env api pulls repo _ = liftG (fail GiteaErrInvalidRequest)"

definition gitea_Execute ::
  "'w gt_env \<Rightarrow> 'w repository_adapter option \<Rightarrow> resolved \<Rightarrow> gitea_request option \<Rightarrow> ('w, go_error, gitea_response) gt_m" where
  "gitea_Execute env adapter repo request =
     (case adapter of
        None \<Rightarrow> liftG (fail ErrServiceUnavailable)
      | Some a \<Rightarrow>
          (case adApi a of
             None \<Rightarrow> liftG (fail ErrServiceUnavailable)
           | Some api \<Rightarrow>
               (case (gitea_ValidateRequest (tsLib env) request, request) of
                  (Inr _, Some r) \<Rightarrow> dispatch env api (adPulls a) repo (gtOperation r)
                | _ \<Rightarrow> liftG (fail GiteaErrInvalidRequest))))"

end
