(* ===== verification/Gitea_Write_Correct.thy ===== *)
theory Gitea_Write_Correct
  imports Gitea_Write
begin

text \<open>
  What the Gitea adapter does to the provider: which operations write, to which repository, and what
  an error tells about the writes. The proofs compose two judgements over the calls of the adapter:
  \<open>quiet\<close> for a computation that only reads, and \<open>runs\<close>, a triple with a postcondition for the result and
  one for the error.
\<close>

section \<open>Computations that only read\<close>

text \<open>Errors that do not claim that something was written.\<close>

definition plainError :: "go_error \<Rightarrow> bool" where
  "plainError e \<longleftrightarrow> e \<noteq> Sentinel ErrWriteOutcomeUnknown \<and> e \<noteq> Sentinel ErrEditPartial"

text \<open>The documented behaviour of \<^verbatim>\<open>Context.Err\<close>: nil, or one of two errors.\<close>

definition ctxOK :: "'w gt_env \<Rightarrow> bool" where
  "ctxOK env \<longleftrightarrow> (\<forall>w. fst (ctxErr env w) \<in> {None, Some (Sentinel ContextCanceled), Some (Sentinel ContextDeadlineExceeded)})"

definition yields :: "('a \<Rightarrow> bool) \<Rightarrow> 'a result \<Rightarrow> bool" where
  "yields R r \<longleftrightarrow> (case r of Inl e \<Rightarrow> plainError e | Inr a \<Rightarrow> R a)"

abbreviation anything :: "'a \<Rightarrow> bool" where
  "anything \<equiv> \<lambda>_. True"

definition quiet :: "('w, go_error, 'a) gt_m \<Rightarrow> ('a \<Rightarrow> bool) \<Rightarrow> bool" where
  "quiet m R \<longleftrightarrow> (\<forall>s. gtWrites (snd (m s)) = gtWrites s \<and> gtMeta (snd (m s)) = gtMeta s \<and> yields R (fst (m s)))"

named_theorems quiet_rules \<open>computations that only read\<close>

lemma plainError_Sentinel [simp]:
  "plainError (Sentinel x) \<longleftrightarrow> x \<noteq> ErrWriteOutcomeUnknown \<and> x \<noteq> ErrEditPartial"
  by (simp add: plainError_def)

lemma yields_simps [simp]:
  "yields R (Inr a) \<longleftrightarrow> R a" "yields R (Inl e) \<longleftrightarrow> plainError e"
  "yields R (fail x) \<longleftrightarrow> x \<noteq> ErrWriteOutcomeUnknown \<and> x \<noteq> ErrEditPartial"
  by (simp_all add: yields_def fail_def)

lemma yields_bindE: "yields R m \<Longrightarrow> (\<And>a. R a \<Longrightarrow> yields S (f a)) \<Longrightarrow> yields S (bindE m f)"
  by (cases m) auto

lemma yields_then: "yields anything m \<Longrightarrow> (\<And>a. yields S (f a)) \<Longrightarrow> yields S (bindE m f)"
  by (rule yields_bindE)

lemma quietI:
  "(\<And>s r s'. m s = (r, s') \<Longrightarrow> gtWrites s' = gtWrites s \<and> gtMeta s' = gtMeta s \<and> yields R r) \<Longrightarrow> quiet m R"
  unfolding quiet_def by (metis prod.collapse)

lemma quietD:
  "quiet m R \<Longrightarrow> m s = (r, s') \<Longrightarrow> gtWrites s' = gtWrites s \<and> gtMeta s' = gtMeta s \<and> yields R r"
  by (metis fst_conv quiet_def snd_conv)

lemma quiet_bind:
  assumes m: "quiet m R" and f: "\<And>a. R a \<Longrightarrow> quiet (f a) S"
  shows "quiet (bindG m f) S"
proof (rule quietI)
  fix s r s'
  assume run: "bindG m f s = (r, s')"
  obtain r1 s1 where r1: "m s = (r1, s1)"
    by fastforce
  note q = quietD [OF m r1]
  show "gtWrites s' = gtWrites s \<and> gtMeta s' = gtMeta s \<and> yields S r"
  proof (cases r1)
    case (Inl e)
    then show ?thesis using run r1 q by (simp add: bindG_def) auto
  next
    case (Inr a)
    then have "f a s1 = (r, s')" "R a" using run r1 q by (simp_all add: bindG_def)
    then show ?thesis using quietD [OF f] q by metis
  qed
qed

lemma quiet_then: "quiet m anything \<Longrightarrow> (\<And>a. quiet (f a) S) \<Longrightarrow> quiet (bindG m f) S"
  by (rule quiet_bind)

lemma quiet_lift: "yields R r \<Longrightarrow> quiet (liftG r) R"
  by (simp add: quiet_def liftG_def)

lemma quiet_if: "(b \<Longrightarrow> quiet m R) \<Longrightarrow> (\<not> b \<Longrightarrow> quiet m' R) \<Longrightarrow> quiet (if b then m else m') R"
  by simp

lemma readG_state: "readG f s = (a, s') \<Longrightarrow> gtWrites s' = gtWrites s \<and> gtMeta s' = gtMeta s"
  by (auto simp: readG_def split: prod.splits)

lemma readG_ctx:
  assumes "ctxOK env" and "readG (ctxErr env) s = (Some e, s')"
  shows "e = Sentinel ContextCanceled \<or> e = Sentinel ContextDeadlineExceeded"
proof -
  have "fst (ctxErr env (gtWorld s)) = Some e"
    using assms(2) by (simp add: readG_def split: prod.splits)
  then show ?thesis
    using assms(1) by (metis ctxOK_def insertE option.distinct(1) option.inject singletonD)
qed

lemma quiet_checkCtx [quiet_rules]: "ctxOK env \<Longrightarrow> quiet (checkCtx env) anything"
  by (rule quietI) (auto simp: checkCtx_def split: prod.splits option.splits dest: readG_state readG_ctx)

lemma quiet_classify: "ctxOK env \<Longrightarrow> quiet (classifyProviderError env e) R"
  by (rule quietI) (auto simp: classifyProviderError_def plainError_def split: prod.splits option.splits if_splits
      dest: readG_state readG_ctx)

lemma quiet_readCall [quiet_rules]:
  assumes "ctxOK env"
  shows "quiet (readCall env f) anything"
  by (rule quietI) (auto simp: readCall_def split: prod.splits sum.splits
      dest!: readG_state quietD [OF quiet_classify [OF assms, where R = anything]])

lemma quiet_getIssue [quiet_rules]:
  assumes "ctxOK env"
  shows "quiet (getIssue env api owner name index) anything"
  by (rule quietI) (auto simp: getIssue_def split: prod.splits sum.splits if_splits
      dest!: readG_state quietD [OF quiet_classify [OF assms, where R = anything]])

lemma yields_viewedIssue:
  "yields (\<lambda>n. issueWF (ownerOf repo) (nameOf repo) n \<and> niIndex n = index) (viewedIssue lib repo index v)"
  by (auto simp: viewedIssue_def normalizeIssue_wf split: option.splits sum.splits)

lemma quiet_issuePreflight [quiet_rules]:
  assumes "ctxOK env"
  shows "quiet (issuePreflight env api repo index) (\<lambda>n. issueWF (ownerOf repo) (nameOf repo) n \<and> niIndex n = index)"
  unfolding issuePreflight_def
  by (intro quiet_then quiet_rules quiet_lift yields_viewedIssue assms)


section \<open>The operations that read\<close>

lemma yields_normalizeAll: "yields anything (normalizeAll f vs)"
  by (induct vs) (auto intro: yields_then split: sum.splits)

lemma yields_normalizeCommentPage: "yields anything (normalizeCommentPage lib vs prev)"
  by (induct lib vs prev rule: normalizeCommentPage.induct) (auto intro: yields_then split: sum.splits)

lemma yields_reviewPage: "yields anything (reviewPage lib vs prev)"
  by (induct lib vs prev rule: reviewPage.induct) (auto intro: yields_then split: sum.splits)

lemma yields_listedPulls: "yields anything (listedPulls lib repo presence seen vs)"
  by (induct vs arbitrary: seen) (auto intro: yields_then split: sum.splits option.splits)

lemma yields_completeOrdinaryComments: "yields anything (completeOrdinaryComments n cs)"
  by (simp add: completeOrdinaryComments_def)

lemma quiet_commentPages:
  assumes "ctxOK env"
  shows "quiet (commentPages env api owner repo index expected pages comments prev) anything"
proof (induct pages arbitrary: comments prev)
  case Nil
  then show ?case by (simp add: quiet_lift)
next
  case (Cons page pages)
  have tail: "quiet (case p of (normalized, next) \<Rightarrow>
      if cpEntryCount vals < commentPageSize
      then liftG (completeOrdinaryComments expected (comments @ normalized))
      else commentPages env api owner repo index expected pages (comments @ normalized) next) anything" for p vals
    by (cases p) (auto intro: quiet_lift Cons yields_completeOrdinaryComments)
  show ?case
    unfolding commentPages.simps
    by (intro quiet_then [OF quiet_checkCtx] quiet_then [OF quiet_readCall] quiet_if assms tail
        quiet_then [OF quiet_lift [OF yields_normalizeCommentPage]] quiet_lift)
      (simp_all add: yields_completeOrdinaryComments)
qed

lemma quiet_loadOrdinaryComments [quiet_rules]:
  "ctxOK env \<Longrightarrow> quiet (loadOrdinaryComments env api owner repo index expected) anything"
  by (simp add: loadOrdinaryComments_def quiet_commentPages quiet_lift)

lemma quiet_reviewPages:
  assumes "ctxOK env"
  shows "quiet (reviewPages env pulls owner repo index pages reviews prev) anything"
proof (induct pages arbitrary: reviews prev)
  case Nil
  then show ?case by (simp add: quiet_lift)
next
  case (Cons page pages)
  have tail: "quiet (case p of (normalized, next) \<Rightarrow>
      if length vals < 50 then liftG (Inr (reviews @ normalized))
      else reviewPages env pulls owner repo index pages (reviews @ normalized) next) anything"
    for p and vals :: "sdk_review option list"
    by (cases p) (auto intro: quiet_lift Cons)
  show ?case
    unfolding reviewPages.simps
    by (intro quiet_then [OF quiet_checkCtx] quiet_then [OF quiet_readCall] quiet_if assms tail
        quiet_then [OF quiet_lift [OF yields_reviewPage]] quiet_lift) simp_all
qed

lemma quiet_loadPullReviews [quiet_rules]:
  "ctxOK env \<Longrightarrow> quiet (loadPullReviews env pulls owner repo index) anything"
  by (simp add: loadPullReviews_def quiet_reviewPages)

lemma quiet_gt_repository:
  assumes "ctxOK env"
  shows "quiet (gt_repository env api repo) anything"
proof -
  have "yields anything (case (x, v) of (Inr _, Some r) \<Rightarrow> Inr (f r) | _ \<Rightarrow> fail ErrProviderFailure)"
    for x :: "unit result" and v :: "sdk_repository option" and f :: "sdk_repository \<Rightarrow> gitea_response"
    by (cases x; cases v) simp_all
  then show ?thesis
    unfolding gt_repository_def by (intro quiet_then [OF quiet_readCall] quiet_lift assms)
qed

lemma quiet_issueList: "ctxOK env \<Longrightarrow> quiet (issueList env api repo r) anything"
  unfolding issueList_def
  by (intro quiet_if quiet_then [OF quiet_readCall] quiet_lift)
    (auto intro: yields_then [OF yields_normalizeAll])

lemma quiet_issueView: "ctxOK env \<Longrightarrow> quiet (issueView env api repo r) anything"
  unfolding issueView_def Let_def
  by (intro quiet_if quiet_then [OF quiet_getIssue] quiet_bind [OF quiet_lift [OF yields_viewedIssue]]
      quiet_then [OF quiet_loadOrdinaryComments] quiet_lift) auto

lemma quiet_pullList:
  assumes "ctxOK env"
  shows "quiet (pullList env pulls repo r) anything"
proof (cases pulls)
  case (Some p)
  have "yields anything (if b then fail ErrProviderFailure
      else bindE (listedPulls lib repo presence {} vals) (\<lambda>ns. Inr (f ns)))"
    for b lib presence vals and f :: "normalized_pull list \<Rightarrow> gitea_response"
    by (auto intro: yields_then [OF yields_listedPulls])
  then show ?thesis
    unfolding pullList_def Some option.case split_beta
    by (intro quiet_then [OF quiet_readCall] quiet_lift assms)
qed (simp add: pullList_def quiet_lift)

lemma quiet_pullView:
  assumes "ctxOK env"
  shows "quiet (pullView env api pulls repo r) anything"
proof (cases pulls)
  case (Some p)
  show ?thesis
    unfolding pullView_def Some option.case split_beta
    by (intro quiet_then [OF quiet_getIssue] quiet_then [OF quiet_readCall] quiet_then [OF quiet_loadPullReviews]
        quiet_then [OF quiet_if] quiet_then [OF quiet_lift] quiet_loadOrdinaryComments quiet_lift assms)
      (auto split: option.splits sum.splits)
qed (simp add: pullView_def quiet_lift)

section \<open>Writes\<close>

text \<open>The owner, repository and, if it has one, issue that a write addresses.\<close>

fun callTarget :: "write_call \<Rightarrow> string \<times> string \<times> int option" where
  "callTarget (CreateIssueCall owner repo _) = (owner, repo, None)"
| "callTarget (CreateIssueCommentCall owner repo index _) = (owner, repo, Some index)"
| "callTarget (EditIssueCall owner repo index _) = (owner, repo, Some index)"
| "callTarget (AddIssueAssigneesCall owner repo index _) = (owner, repo, Some index)"
| "callTarget (DeleteIssueAssigneesCall owner repo index _) = (owner, repo, Some index)"
| "callTarget (AddIssueLabelsCall owner repo index _) = (owner, repo, Some index)"
| "callTarget (DeleteIssueLabelCall owner repo index _) = (owner, repo, Some index)"

text \<open>The log grew by at least one write, all of them on the target.\<close>

definition wrote :: "string \<times> string \<times> int option \<Rightarrow> write_call list \<Rightarrow> 'w gt_state \<Rightarrow> bool" where
  "wrote target ws s \<longleftrightarrow> (\<exists>new. new \<noteq> [] \<and> gtWrites s = ws @ new \<and> (\<forall>c \<in> set new. callTarget c = target))"

lemma wrote_one: "gtWrites s = ws \<Longrightarrow> gtWrites s' = gtWrites s @ [c] \<Longrightarrow> callTarget c = target \<Longrightarrow> wrote target ws s'"
  by (auto simp: wrote_def)

lemma wrote_more:
  "wrote target ws s \<Longrightarrow> gtWrites s' = gtWrites s @ [c] \<Longrightarrow> callTarget c = target \<Longrightarrow> wrote target ws s'"
  by (fastforce simp: wrote_def)

lemma wrote_cong: "gtWrites s' = gtWrites s \<Longrightarrow> wrote target ws s' \<longleftrightarrow> wrote target ws s"
  by (simp add: wrote_def)

abbreviation ctxError :: "go_error \<Rightarrow> bool" where
  "ctxError e \<equiv> e = Sentinel ContextCanceled \<or> e = Sentinel ContextDeadlineExceeded"

abbreviation outcomeUnknown :: go_error where
  "outcomeUnknown \<equiv> Sentinel ErrWriteOutcomeUnknown"

lemma checkCtx_run:
  assumes "ctxOK env" and "checkCtx env s = (r, s')"
  shows "gtWrites s' = gtWrites s \<and> gtMeta s' = gtMeta s \<and> (case r of Inl e \<Rightarrow> ctxError e | Inr _ \<Rightarrow> True)"
  using assms by (auto simp: checkCtx_def split: prod.splits option.splits dest: readG_state readG_ctx)

lemma writeG_run: "writeG c g s = (r, s') \<Longrightarrow> gtWrites s' = gtWrites s @ [c] \<and> gtMeta s' = gtMeta s"
  by (auto simp: writeG_def split: prod.splits)

text \<open>\<^verbatim>\<open>invokeWrite\<close>: nothing was sent and the context had ended, or the call was sent and its outcome is its response or unknown.\<close>

lemma invokeWrite_run:
  assumes "ctxOK env" and "invokeWrite env (writeG c g) v s = (r, s')"
  shows "gtMeta s' = gtMeta s \<and>
    (gtWrites s' = gtWrites s \<and> (\<exists>e. r = Inl e \<and> ctxError e)
     \<or> gtWrites s' = gtWrites s @ [c] \<and> (r = Inl outcomeUnknown \<or> (\<exists>a b. v a = Inr b \<and> r = Inr b)))"
proof -
  obtain r1 s1 where c: "checkCtx env s = (r1, s1)" by fastforce
  note q = checkCtx_run [OF assms(1) c]
  show ?thesis
  proof (cases r1)
    case (Inl e)
    then show ?thesis using assms(2) c q by (auto simp: invokeWrite_def bindG_def)
  next
    case (Inr u)
    obtain r2 s2 where w: "writeG c g s1 = (r2, s2)" by fastforce
    have r: "s' = s2" "r = (case r2 of Inl _ \<Rightarrow> fail ErrWriteOutcomeUnknown
        | Inr a \<Rightarrow> (case v a of Inl _ \<Rightarrow> fail ErrWriteOutcomeUnknown | Inr b \<Rightarrow> Inr b))"
      using assms(2) c Inr w by (simp_all add: invokeWrite_def bindG_def)
    have "r = Inl outcomeUnknown \<or> (\<exists>a b. v a = Inr b \<and> r = Inr b)"
    proof (cases r2)
      case (Inr a)
      then show ?thesis using r(2) by (cases "v a") (auto simp: fail_def)
    qed (use r(2) in \<open>simp add: fail_def\<close>)
    then show ?thesis
      using r(1) q writeG_run [OF w] by simp
  qed
qed

definition runs ::
  "('w gt_state \<Rightarrow> bool) \<Rightarrow> ('w, 'e, 'a) gt_m \<Rightarrow> ('a \<Rightarrow> 'w gt_state \<Rightarrow> bool) \<Rightarrow> ('e \<Rightarrow> 'w gt_state \<Rightarrow> bool) \<Rightarrow> bool" where
  "runs P m Q E \<longleftrightarrow> (\<forall>s r s'. P s \<longrightarrow> m s = (r, s') \<longrightarrow> (case r of Inl e \<Rightarrow> E e s' | Inr a \<Rightarrow> Q a s'))"

lemma runsI:
  "(\<And>s r s'. P s \<Longrightarrow> m s = (r, s') \<Longrightarrow> (case r of Inl e \<Rightarrow> E e s' | Inr a \<Rightarrow> Q a s')) \<Longrightarrow> runs P m Q E"
  by (simp add: runs_def)

lemma runsD: "runs P m Q E \<Longrightarrow> P s \<Longrightarrow> m s = (r, s') \<Longrightarrow> (case r of Inl e \<Rightarrow> E e s' | Inr a \<Rightarrow> Q a s')"
  by (simp add: runs_def)

lemma runs_weaken:
  assumes "runs P m Q E" and "\<And>s. P' s \<Longrightarrow> P s" and "\<And>a s. Q a s \<Longrightarrow> Q' a s" and "\<And>e s. E e s \<Longrightarrow> E' e s"
  shows "runs P' m Q' E'"
proof (rule runsI)
  fix s r s'
  assume "P' s" "m s = (r, s')"
  then have "case r of Inl e \<Rightarrow> E e s' | Inr a \<Rightarrow> Q a s'"
    using runsD [OF assms(1)] assms(2) by blast
  then show "case r of Inl e \<Rightarrow> E' e s' | Inr a \<Rightarrow> Q' a s'"
    using assms(3,4) by (cases r) auto
qed

lemma runs_bind:
  assumes m: "runs P m R E" and f: "\<And>a. runs (R a) (f a) Q E"
  shows "runs P (bindG m f) Q E"
proof (rule runsI)
  fix s r s'
  assume P: "P s" and run: "bindG m f s = (r, s')"
  obtain r1 s1 where r1: "m s = (r1, s1)" by fastforce
  note q = runsD [OF m P r1]
  show "case r of Inl e \<Rightarrow> E e s' | Inr a \<Rightarrow> Q a s'"
  proof (cases r1)
    case (Inl e)
    then show ?thesis using run r1 q by (auto simp: bindG_def)
  next
    case (Inr a)
    then show ?thesis using run r1 q runsD [OF f, of a s1 r s'] by (simp add: bindG_def)
  qed
qed

lemma runs_lift: "(\<And>s. P s \<Longrightarrow> case r of Inl e \<Rightarrow> E e s | Inr a \<Rightarrow> Q a s) \<Longrightarrow> runs P (liftG r) Q E"
  by (auto simp: runs_def liftG_def)

lemma runs_fact: "(F \<Longrightarrow> runs P m Q E) \<Longrightarrow> runs (\<lambda>s. P s \<and> F) m Q E"
  unfolding runs_def by blast

lemma runs_quiet:
  assumes "quiet m R" and "\<And>s s'. P s \<Longrightarrow> gtWrites s' = gtWrites s \<Longrightarrow> P s'"
  shows "runs P m (\<lambda>a s. P s \<and> R a) (\<lambda>e s. P s \<and> plainError e)"
  by (rule runsI) (use assms(2) in \<open>auto dest!: quietD [OF assms(1)] split: sum.splits\<close>)


section \<open>Plans\<close>

text \<open>What the facts say: a write is confirmed, or none was sent.\<close>

definition factsHold :: "string \<times> string \<times> int option \<Rightarrow> write_call list \<Rightarrow> edit_execution \<Rightarrow> 'w gt_state \<Rightarrow> bool" where
  "factsHold target ws facts s \<longleftrightarrow> (if confirmed facts then wrote target ws s else gtWrites s = ws)"

definition planFailure ::
  "string \<times> string \<times> int option \<Rightarrow> write_call list \<Rightarrow> go_error \<times> edit_execution \<Rightarrow> 'w gt_state \<Rightarrow> bool" where
  "planFailure target ws ef s \<longleftrightarrow>
     factsHold target ws (snd ef) s \<and> ctxError (fst ef) \<or> wrote target ws s \<and> fst ef = outcomeUnknown"

definition stepOK ::
  "string \<times> string \<times> int option \<Rightarrow> write_call list \<Rightarrow> bool \<Rightarrow> edit_execution
    \<Rightarrow> ('w, go_error \<times> edit_execution, edit_execution) gt_m \<Rightarrow> bool" where
  "stepOK target ws b facts m \<longleftrightarrow>
     runs (factsHold target ws facts) m
       (\<lambda>facts' s. factsHold target ws facts' s \<and> (b \<or> confirmed facts \<longrightarrow> confirmed facts'))
       (planFailure target ws)"

lemma factsHold_cong: "factsHold target ws facts s \<Longrightarrow> gtWrites s' = gtWrites s \<Longrightarrow> factsHold target ws facts s'"
  by (cases "confirmed facts") (simp_all add: factsHold_def wrote_def)

lemma factsHold_write:
  "factsHold target ws facts s \<Longrightarrow> gtWrites s' = gtWrites s @ [c] \<Longrightarrow> callTarget c = target \<Longrightarrow> wrote target ws s'"
  by (auto simp: factsHold_def intro: wrote_one wrote_more split: if_splits)

lemma stepOK_write:
  assumes "ctxOK env" and "callTarget c = target"
  shows "stepOK target ws True facts (confirming facts (invokeWrite env (writeG c g) v))"
  unfolding stepOK_def
proof (rule runsI)
  fix s r s'
  assume P: "factsHold target ws facts s" and run: "confirming facts (invokeWrite env (writeG c g) v) s = (r, s')"
  obtain r1 where r1: "invokeWrite env (writeG c g) v s = (r1, s')"
    and r: "r = (case r1 of Inl e \<Rightarrow> Inl (e, facts) | Inr _ \<Rightarrow> Inr (facts\<lparr>confirmed := True\<rparr>))"
    using run by (auto simp: confirming_def split: prod.splits)
  from invokeWrite_run [OF assms(1) r1]
  consider (1) e where "gtWrites s' = gtWrites s" "r1 = Inl e" "ctxError e"
    | (2) "gtWrites s' = gtWrites s @ [c]" "r1 = Inl outcomeUnknown"
    | (3) b where "gtWrites s' = gtWrites s @ [c]" "r1 = Inr b"
    by (elim conjE disjE exE) blast+
  then show "case r of Inl ef \<Rightarrow> planFailure target ws ef s'
      | Inr facts' \<Rightarrow> factsHold target ws facts' s' \<and> (True \<or> confirmed facts \<longrightarrow> confirmed facts')"
  proof cases
    case 1
    then have "factsHold target ws facts s'" using factsHold_cong [OF P] by blast
    then show ?thesis using 1(2,3) r by (simp add: planFailure_def)
  next
    case 2
    then show ?thesis using factsHold_write [OF P] assms(2) r by (simp add: planFailure_def)
  next
    case 3
    then show ?thesis using factsHold_write [OF P] assms(2) r by (simp add: factsHold_def)
  qed
qed

lemma stepOK_skip: "stepOK target ws False facts (liftG (Inr facts))"
  by (auto simp: stepOK_def intro: runs_lift)

lemma stepOK_onlyIf:
  "(\<And>facts. stepOK target ws True facts (m facts)) \<Longrightarrow> stepOK target ws b facts (onlyIf b m facts)"
  by (simp add: onlyIf_def stepOK_skip)

lemma stepOK_bind:
  assumes "stepOK target ws b facts m" and "\<And>facts. stepOK target ws b' facts (f facts)"
  shows "stepOK target ws (b \<or> b') facts (bindG m f)"
  unfolding stepOK_def
proof (rule runs_bind [OF assms(1) [unfolded stepOK_def]])
  fix facts1
  show "runs (\<lambda>s. factsHold target ws facts1 s \<and> (b \<or> confirmed facts \<longrightarrow> confirmed facts1)) (f facts1)
     (\<lambda>facts' s. factsHold target ws facts' s \<and> ((b \<or> b') \<or> confirmed facts \<longrightarrow> confirmed facts'))
     (planFailure target ws)"
    by (rule runs_fact, rule runs_weaken [OF assms(2) [unfolded stepOK_def, of facts1]]) auto
qed

lemma stepOK_deleteLabels:
  assumes "ctxOK env"
  shows "stepOK (owner, repo, Some index) ws (ids \<noteq> []) facts (deleteLabels env api owner repo index ids facts)"
proof (induct ids arbitrary: facts)
  case (Cons i ids)
  have "stepOK (owner, repo, Some index) ws True facts (confirming facts (invokeWrite env
      (writeG (DeleteIssueLabelCall owner repo index i) (apiDeleteIssueLabel api owner repo index i)) Inr))"
    by (rule stepOK_write [OF assms]) simp
  from stepOK_bind [OF this Cons] show ?case by simp
qed (simp add: stepOK_skip)

lemma stepOK_executeIssueEditPlan:
  assumes ctx: "ctxOK env"
  shows "stepOK (owner, repo, Some index) ws (\<not> plan_empty plan) facts
    (executeIssueEditPlan env api owner repo index plan facts)"
proof -
  let ?t = "(owner, repo, Some index)"
  have one: "stepOK ?t ws (planText plan \<noteq> None) facts (case planText plan of
        None \<Rightarrow> liftG (Inr facts)
      | Some t \<Rightarrow> confirming facts (invokeWrite env (writeG (EditIssueCall owner repo index (opt t)) (g t)) (v t)))"
    for opt :: "text_edit \<Rightarrow> edit_option" and g :: "text_edit \<Rightarrow> 'a \<Rightarrow> sdk_issue option result \<times> 'a"
      and v :: "text_edit \<Rightarrow> sdk_issue option \<Rightarrow> unit result"
    by (cases "planText plan") (simp_all add: stepOK_skip stepOK_write [OF ctx])
  have "stepOK ?t ws (planText plan \<noteq> None \<or> removeAssignees plan \<noteq> [] \<or> addAssignees plan \<noteq> []
      \<or> addLabelIDs plan \<noteq> [] \<or> removeLabelIDs plan \<noteq> []) facts
      (executeIssueEditPlan env api owner repo index plan facts)"
    unfolding executeIssueEditPlan_def Let_def
    by (intro stepOK_bind one stepOK_onlyIf stepOK_write [OF ctx] stepOK_deleteLabels [OF ctx]) simp_all
  then show ?thesis
    by (simp add: plan_empty_def)
qed

end
