(* ===== verification/Gitea_Execute.thy ===== *)
theory Gitea_Execute
  imports Gitea_Write_Correct
begin

text \<open>
  What an issue edit and a whole request to the Gitea adapter promise: the outcome that is reported
  agrees with the calls that were made.
\<close>

section \<open>Reads of a write operation\<close>

lemma yields_addCatalogEntry: "yields anything (foldE addCatalogEntry acc vs)"
  by (induct vs arbitrary: acc) (auto simp: addCatalogEntry_def split: option.splits)

lemma yields_lookupIDs: "yields anything (lookupIDs m names)"
  by (induct names) (auto intro: yields_then split: option.splits)

lemma yields_addNeededLabel: "yields anything (foldE (addNeededLabel intent issue) m es)"
  by (induct es arbitrary: m) (auto simp: addNeededLabel_def)

lemma yields_gt_validateIssueEdit: "yields anything (gt_validateIssueEdit v)"
  by (auto simp: gt_validateIssueEdit_def Let_def split: option.splits prod.splits)

lemma yields_normalizeEditIntent: "yields (\<lambda>i. normalizeEditIntent v = Inr i) (normalizeEditIntent v)"
proof (cases "normalizeEditIntent v")
  case (Inl e)
  then have "gt_validateIssueEdit v = Inl e \<or> e = Sentinel GiteaErrInvalidRequest"
    by (auto simp: normalizeEditIntent_def result_simps fail_def Let_def split: option.splits prod.splits)
  then show ?thesis
    using Inl yields_gt_validateIssueEdit [of v] by auto
qed simp

lemma quiet_labelPages:
  assumes "ctxOK env"
  shows "quiet (labelPages env api owner repo pages acc) anything"
proof (induct pages arbitrary: acc)
  case (Cons page pages)
  show ?case
    unfolding labelPages.simps
    by (intro quiet_then [OF quiet_checkCtx] quiet_then [OF quiet_readCall] quiet_if assms
        quiet_then [OF quiet_lift [OF yields_addCatalogEntry]] quiet_lift Cons) simp_all
qed (simp add: quiet_lift)

lemma quiet_resolveLabelIDs [quiet_rules]:
  "ctxOK env \<Longrightarrow> quiet (resolveLabelIDs env api owner repo requested) anything"
  unfolding resolveLabelIDs_def
  by (intro quiet_if quiet_then [OF quiet_labelPages] quiet_lift) (simp_all add: yields_lookupIDs)

lemma quiet_assigneeCatalog: "ctxOK env \<Longrightarrow> quiet (assigneeCatalog env api owner repo intent) anything"
  unfolding assigneeCatalog_def
  by (intro quiet_if quiet_then [OF quiet_checkCtx] quiet_then [OF quiet_readCall] quiet_lift)
    (auto intro: yields_then [OF yields_addCatalogEntry])

lemma quiet_collectEditCatalogs [quiet_rules]:
  "ctxOK env \<Longrightarrow> quiet (collectEditCatalogs env api owner repo intent issue) anything"
  unfolding collectEditCatalogs_def Let_def
  by (intro quiet_if quiet_then [OF quiet_assigneeCatalog] quiet_then [OF quiet_resolveLabelIDs] quiet_lift)
    (auto intro: yields_then [OF yields_addNeededLabel])


section \<open>Issue edits\<close>

abbreviation issueTarget :: "resolved \<Rightarrow> int \<Rightarrow> string \<times> string \<times> int option" where
  "issueTarget repo index \<equiv> (ownerOf repo, nameOf repo, Some index)"

text \<open>The metadata of the context, if it has any, says whether the request changed anything.\<close>

definition metaIs :: "bool \<Rightarrow> 'w gt_state \<Rightarrow> bool" where
  "metaIs v s \<longleftrightarrow> gtMeta s = None \<or> gtMeta s = Some (Some v)"

text \<open>The response shows an issue of the repository, as it was read, that satisfies the intent.\<close>

definition showsSatisfied ::
  "'w gt_env \<Rightarrow> resolved \<Rightarrow> int \<Rightarrow> edit_intent \<Rightarrow> gitea_response \<Rightarrow> bool" where
  "showsSatisfied env repo index intent response \<longleftrightarrow> (\<exists>issue. editSatisfied intent (Some issue)
     \<and> issueWF (ownerOf repo) (nameOf repo) issue \<and> niIndex issue = index
     \<and> response = RIssueEdit (projectIssue (tsLib env) issue allIssueFields))"

definition editReported ::
  "'w gt_env \<Rightarrow> resolved \<Rightarrow> int \<Rightarrow> edit_intent \<Rightarrow> write_call list \<Rightarrow> gitea_response \<Rightarrow> 'w gt_state \<Rightarrow> bool" where
  "editReported env repo index intent ws response s \<longleftrightarrow> showsSatisfied env repo index intent response
     \<and> (gtWrites s = ws \<and> metaIs False s \<or> wrote (issueTarget repo index) ws s \<and> metaIs True s)"

definition failureReported :: "bool \<Rightarrow> string \<times> string \<times> int option \<Rightarrow> write_call list \<Rightarrow> go_error \<Rightarrow> 'w gt_state \<Rightarrow> bool" where
  "failureReported mayPartial target ws e s \<longleftrightarrow> gtWrites s = ws \<and> plainError e
     \<or> wrote target ws s
       \<and> (e = outcomeUnknown
          \<or> mayPartial \<and> (e = Sentinel ErrEditPartial \<or> e = Sentinel ErrResourceExhausted \<and> metaIs True s))"

lemma recordTransition_run:
  "recordTransition v s = (r, s') \<Longrightarrow> r = Inr () \<and> gtWrites s' = gtWrites s \<and> metaIs v s'"
  by (auto simp: recordTransition_def metaIs_def split: option.splits)

lemma transitioned_run:
  assumes "editSatisfied intent (Some issue)" and "issueWF (ownerOf repo) (nameOf repo) issue" and "niIndex issue = index"
    and "transitioned env v issue s = (r, s')"
  shows "gtWrites s' = gtWrites s \<and> metaIs v s'
    \<and> (case r of Inl e \<Rightarrow> e = Sentinel ErrResourceExhausted | Inr response \<Rightarrow> showsSatisfied env repo index intent response)"
proof -
  obtain r1 s1 where r1: "recordTransition v s = (r1 :: go_error + unit, s1)" by fastforce
  note q = recordTransition_run [OF r1]
  then have "s' = s1" "r = editResponse env issue"
    using assms(4) r1 by (auto simp: transitioned_def bindG_def liftG_def)
  then show ?thesis
    using q assms(1-3) by (auto simp: editResponse_def boundedResponse_def fail_def showsSatisfied_def)
qed

lemma transitioned_unchanged:
  assumes "editSatisfied intent (Some issue)" and "issueWF (ownerOf repo) (nameOf repo) issue" and "niIndex issue = index"
  shows "runs (\<lambda>s. gtWrites s = ws) (transitioned env False issue)
    (editReported env repo index intent ws) (failureReported True (issueTarget repo index) ws)"
  by (rule runsI) (auto simp: editReported_def failureReported_def split: sum.splits dest!: transitioned_run [OF assms])

lemma transitioned_changed:
  assumes "editSatisfied intent (Some issue)" and "issueWF (ownerOf repo) (nameOf repo) issue" and "niIndex issue = index"
  shows "runs (wrote (issueTarget repo index) ws) (transitioned env True issue)
    (editReported env repo index intent ws) (failureReported True (issueTarget repo index) ws)"
  by (rule runsI) (auto simp: editReported_def failureReported_def wrote_def split: sum.splits
      dest!: transitioned_run [OF assms])

lemma resolveIssueEditFailure_runs:
  assumes ctx: "ctxOK env"
  shows "runs (planFailure (issueTarget repo index) ws (e, facts))
    (resolveIssueEditFailure env api repo index intent facts e)
    (editReported env repo index intent ws) (failureReported True (issueTarget repo index) ws)"
proof (rule runsI)
  fix s r s'
  let ?t = "issueTarget repo index"
  assume P: "planFailure ?t ws (e, facts) s" and run: "resolveIssueEditFailure env api repo index intent facts e s = (r, s')"
  show "case r of Inl e \<Rightarrow> failureReported True ?t ws e s' | Inr a \<Rightarrow> editReported env repo index intent ws a s'"
  proof (cases "e = outcomeUnknown")
    case False
    then have "ctxError e" and f: "factsHold ?t ws facts s" using P by (auto simp: planFailure_def)
    then have "r = Inl (classifyEditKnownFailure facts e)" "s' = s"
      using run by (auto simp: resolveIssueEditFailure_def)
    then show ?thesis
      using f \<open>ctxError e\<close> by (auto simp: factsHold_def failureReported_def classifyEditKnownFailure_def)
  next
    case True
    then have w: "wrote ?t ws s" using P by (auto simp: planFailure_def factsHold_def)
    obtain c s1 where c: "readG (ctxErr env) s = (c, s1)" by fastforce
    have w1: "wrote ?t ws s1" using w readG_state [OF c] by (simp add: wrote_def)
    obtain i s2 where i: "issuePreflight env api repo index s1 = (i, s2)" by fastforce
    note q = quietD [OF quiet_issuePreflight [OF ctx] i]
    have w2: "wrote ?t ws s2" using w1 q by (simp add: wrote_def)
    consider n where "i = Inr n" "editSatisfied intent (Some n)" "transitioned env True n s2 = (r, s')" "c = None"
      | "r = fail ErrWriteOutcomeUnknown" "s' = s1 \<or> s' = s2"
      using run True c i by (auto simp: resolveIssueEditFailure_def split: if_splits sum.splits)
    then show ?thesis
    proof cases
      case 1
      then show ?thesis
        using runsD [OF transitioned_changed [of intent n repo index] w2 1(3)] q by simp
    next
      case 2
      then show ?thesis using w1 w2 by (auto simp: fail_def failureReported_def)
    qed
  qed
qed

lemma rereadIssue_runs:
  assumes ctx: "ctxOK env" and "confirmed facts"
  shows "runs (wrote (issueTarget repo index) ws) (rereadIssue env api repo index facts)
    (\<lambda>n s. wrote (issueTarget repo index) ws s \<and> issueWF (ownerOf repo) (nameOf repo) n \<and> niIndex n = index)
    (failureReported True (issueTarget repo index) ws)"
proof (rule runsI)
  fix s r s'
  assume w: "wrote (issueTarget repo index) ws s" and run: "rereadIssue env api repo index facts s = (r, s')"
  obtain i where i: "issuePreflight env api repo index s = (i, s')"
    and r: "r = (case i of Inl e \<Rightarrow> Inl (classifyEditKnownFailure facts e) | Inr n \<Rightarrow> Inr n)"
    using run by (auto simp: rereadIssue_def split: prod.splits)
  note q = quietD [OF quiet_issuePreflight [OF ctx] i]
  have "wrote (issueTarget repo index) ws s'" using w q by (simp add: wrote_def)
  then show "case r of Inl e \<Rightarrow> failureReported True (issueTarget repo index) ws e s'
      | Inr n \<Rightarrow> wrote (issueTarget repo index) ws s' \<and> issueWF (ownerOf repo) (nameOf repo) n \<and> niIndex n = index"
    using q r assms(2) by (cases i) (auto simp: failureReported_def classifyEditKnownFailure_def)
qed

lemma editRound_runs:
  assumes ctx: "ctxOK env" and some: "\<not> plan_empty plan \<or> confirmed facts"
    and continue: "\<And>facts. confirmed facts \<Longrightarrow> runs (wrote (issueTarget repo index) ws) (continue facts)
      (editReported env repo index intent ws) (failureReported True (issueTarget repo index) ws)"
  shows "runs (factsHold (issueTarget repo index) ws facts) (editRound env api repo index intent plan facts continue)
      (editReported env repo index intent ws) (failureReported True (issueTarget repo index) ws)"
proof (rule runsI)
  fix s r s'
  let ?t = "issueTarget repo index"
  assume P: "factsHold ?t ws facts s" and run: "editRound env api repo index intent plan facts continue s = (r, s')"
  obtain x s1 where x: "executeIssueEditPlan env api (ownerOf repo) (nameOf repo) index plan facts s = (x, s1)"
    by fastforce
  note q = runsD [OF stepOK_executeIssueEditPlan [OF ctx, unfolded stepOK_def] P x]
  show "case r of Inl e \<Rightarrow> failureReported True ?t ws e s' | Inr a \<Rightarrow> editReported env repo index intent ws a s'"
  proof (cases x)
    case (Inl ef)
    then have "resolveIssueEditFailure env api repo index intent (snd ef) (fst ef) s1 = (r, s')"
      using run x by (cases ef) (simp add: editRound_def)
    moreover have "planFailure ?t ws (fst ef, snd ef) s1" using q Inl by simp
    ultimately show ?thesis
      using runsD [OF resolveIssueEditFailure_runs [OF ctx]] by blast
  next
    case (Inr facts')
    then have "confirmed facts'" "wrote ?t ws s1" using q some by (auto simp: factsHold_def)
    moreover have "continue facts' s1 = (r, s')" using run x Inr by (simp add: editRound_def)
    ultimately show ?thesis
      using runsD [OF continue] by blast
  qed
qed

lemma finishEdit_runs:
  assumes ctx: "ctxOK env" and "confirmed facts"
  shows "runs (wrote (issueTarget repo index) ws) (finishEdit env api repo index intent facts)
    (editReported env repo index intent ws) (failureReported True (issueTarget repo index) ws)"
  unfolding finishEdit_def
  by (rule runs_bind [OF rereadIssue_runs [OF assms]], rule runs_fact)
    (use assms(2) in \<open>auto intro!: runs_lift transitioned_changed simp: failureReported_def classifyEditKnownFailure_def\<close>)

lemma editRound_confirmed:
  assumes "ctxOK env" and "confirmed facts"
    and "\<And>facts. confirmed facts \<Longrightarrow> runs (wrote (issueTarget repo index) ws) (continue facts)
      (editReported env repo index intent ws) (failureReported True (issueTarget repo index) ws)"
  shows "runs (wrote (issueTarget repo index) ws) (editRound env api repo index intent plan facts continue)
      (editReported env repo index intent ws) (failureReported True (issueTarget repo index) ws)"
  by (rule runs_weaken [OF editRound_runs [OF assms(1) _ assms(3)]]) (use assms(2) in \<open>auto simp: factsHold_def\<close>)

lemma reviewEdit_runs:
  assumes ctx: "ctxOK env" and "confirmed facts"
  shows "runs (wrote (issueTarget repo index) ws) (reviewEdit env api repo index intent catalogs facts)
    (editReported env repo index intent ws) (failureReported True (issueTarget repo index) ws)"
  unfolding reviewEdit_def
  by (rule runs_bind [OF rereadIssue_runs [OF assms]], rule runs_fact)
    (use assms(2) in \<open>auto intro!: runs_lift transitioned_changed editRound_confirmed [OF ctx] finishEdit_runs [OF ctx]
      simp: failureReported_def classifyEditKnownFailure_def split: sum.splits\<close>)

lemma startEdit_runs:
  assumes ctx: "ctxOK env" and wf: "issueWF (ownerOf repo) (nameOf repo) issue" "niIndex issue = index"
  shows "runs (\<lambda>s. gtWrites s = ws) (startEdit env api repo index intent issue catalogs)
    (editReported env repo index intent ws) (failureReported True (issueTarget repo index) ws)"
proof (cases "planIssueEdit intent (Some issue) catalogs")
  case (Inl e)
  then show ?thesis by (auto intro!: runs_lift simp: startEdit_def failureReported_def fail_def)
next
  case (Inr plan)
  show ?thesis
  proof (cases "plan_empty plan")
    case True
    then have "editSatisfied intent (Some issue)" using plan_empty_iff [OF Inr] by simp
    then show ?thesis using True Inr transitioned_unchanged [OF _ wf] by (simp add: startEdit_def)
  next
    case False
    then show ?thesis
      using Inr by (auto intro!: runs_weaken [OF editRound_runs [OF ctx]] reviewEdit_runs [OF ctx]
          simp: startEdit_def factsHold_def)
  qed
qed

lemma read_runs:
  assumes "quiet m R"
  shows "runs (\<lambda>s. gtWrites s = ws) m (\<lambda>a s. gtWrites s = ws \<and> R a) (failureReported p target ws)"
  by (rule runs_weaken [OF runs_quiet [OF assms, of "\<lambda>s. gtWrites s = ws"]]) (auto simp: failureReported_def)

lemma issueEdit_runs:
  assumes ctx: "ctxOK env"
  shows "runs (\<lambda>s. gtWrites s = ws) (issueEdit env api repo request)
    (\<lambda>response s. \<exists>intent. normalizeEditIntent (Some request) = Inr intent
       \<and> editReported env repo (gieIndex request) intent ws response s)
    (failureReported True (issueTarget repo (gieIndex request)) ws)"
  unfolding issueEdit_def
  by (intro runs_bind [OF read_runs [OF quiet_lift [OF yields_normalizeEditIntent]]]
      runs_bind [OF read_runs [OF quiet_issuePreflight [OF ctx]]]
      runs_bind [OF read_runs [OF quiet_collectEditCatalogs [OF ctx]]] runs_fact)
    (auto intro: runs_weaken [OF startEdit_runs [OF ctx]])

section \<open>Single writes\<close>

lemma invokeWrite_runs:
  assumes "ctxOK env" and "callTarget c = target"
  shows "runs (\<lambda>s. gtWrites s = ws) (invokeWrite env (writeG c g) v)
    (\<lambda>b s. gtWrites s = ws @ [c] \<and> (\<exists>a. v a = Inr b)) (failureReported False target ws)"
proof (rule runsI)
  fix s r s'
  assume "gtWrites s = ws" and run: "invokeWrite env (writeG c g) v s = (r, s')"
  then show "case r of Inl e \<Rightarrow> failureReported False target ws e s' | Inr b \<Rightarrow> gtWrites s' = ws @ [c] \<and> (\<exists>a. v a = Inr b)"
    using invokeWrite_run [OF assms(1) run] assms(2)
    by (auto simp: failureReported_def wrote_def)
qed

lemma issueCreate_runs:
  assumes "ctxOK env"
  shows "runs (\<lambda>s. gtWrites s = ws) (issueCreate env api repo r)
    (\<lambda>_ s. wrote (ownerOf repo, nameOf repo, None) ws s) (failureReported False (ownerOf repo, nameOf repo, None) ws)"
  unfolding issueCreate_def Let_def
  by (rule runs_bind [OF read_runs [OF quiet_resolveLabelIDs [OF assms]]], rule runs_fact,
      rule runs_weaken [OF invokeWrite_runs [OF assms]]) (auto simp: wrote_def)

lemma issueComment_runs:
  assumes "ctxOK env"
  shows "runs (\<lambda>s. gtWrites s = ws) (issueComment env api repo r)
    (\<lambda>_ s. wrote (issueTarget repo (gcmIndex r)) ws s) (failureReported False (issueTarget repo (gcmIndex r)) ws)"
  unfolding issueComment_def
  by (rule runs_bind [OF read_runs [OF quiet_issuePreflight [OF assms]]], rule runs_fact,
      rule runs_weaken [OF invokeWrite_runs [OF assms]]) (auto simp: wrote_def)

text \<open>The response shows an issue of the repository in the state that was asked for.\<close>

definition showsState ::
  "'w gt_env \<Rightarrow> resolved \<Rightarrow> int \<Rightarrow> issue_state_operation \<Rightarrow> gitea_response \<Rightarrow> bool" where
  "showsState env repo index operation response \<longleftrightarrow> (\<exists>n. issueWF (ownerOf repo) (nameOf repo) n \<and> niIndex n = index
     \<and> niState n = snd (targetOf operation)
     \<and> response = issueStateResponse operation (projectIssue (tsLib env) n allIssueFields))"

definition stateCall :: "resolved \<Rightarrow> int \<Rightarrow> issue_state_operation \<Rightarrow> write_call" where
  "stateCall repo index operation = EditIssueCall (ownerOf repo) (nameOf repo) index
     \<lparr>eoTitle = [], eoBody = None, eoState = Some (fst (targetOf operation))\<rparr>"

lemma runs_transition:
  fixes E :: "'e \<Rightarrow> 'w gt_state \<Rightarrow> bool"
  assumes "\<And>s. P s \<Longrightarrow> R (gtWrites s)"
  shows "runs P (bindG (recordTransition v) (\<lambda>_. liftG (Inr a))) (\<lambda>b s. b = a \<and> R (gtWrites s) \<and> metaIs v s) E"
proof (rule runsI)
  fix s s' and r :: "'e + 'a"
  assume P: "P s" and run: "bindG (recordTransition v) (\<lambda>_. liftG (Inr a)) s = (r, s')"
  obtain r1 s1 where r1: "recordTransition v s = (r1 :: 'e + unit, s1)" by fastforce
  show "case r of Inl e \<Rightarrow> E e s' | Inr b \<Rightarrow> b = a \<and> R (gtWrites s') \<and> metaIs v s'"
    using recordTransition_run [OF r1] run r1 assms [OF P] by (auto simp: bindG_def liftG_def)
qed

lemma boundedResponse_Inr: "boundedResponse env err response = Inr a \<longleftrightarrow> a = response \<and> protoSize env response \<le> maximumResponse"
  by (auto simp: boundedResponse_def)

lemma runs_if: "(b \<Longrightarrow> runs P m Q E) \<Longrightarrow> (\<not> b \<Longrightarrow> runs P m' Q E) \<Longrightarrow> runs P (if b then m else m') Q E"
  by simp

lemma issueState_runs:
  assumes ctx: "ctxOK env"
  shows "runs (\<lambda>s. gtWrites s = ws) (issueState env api repo index operation)
    (\<lambda>response s. showsState env repo index operation response
       \<and> (gtWrites s = ws \<and> metaIs False s \<or> gtWrites s = ws @ [stateCall repo index operation] \<and> metaIs True s))
    (failureReported False (issueTarget repo index) ws)"
  unfolding issueState_def
proof (rule runs_bind [OF read_runs [OF quiet_issuePreflight [OF ctx]]], rule runs_fact)
  fix current
  assume wf: "issueWF (ownerOf repo) (nameOf repo) current \<and> niIndex current = index"
  let ?Q = "\<lambda>response s. showsState env repo index operation response
       \<and> (gtWrites s = ws \<and> metaIs False s \<or> gtWrites s = ws @ [stateCall repo index operation] \<and> metaIs True s)"
  let ?shown = "\<lambda>n. issueStateResponse operation (projectIssue (tsLib env) n allIssueFields)"
  let ?check = "\<lambda>issue. case normalizeIssue (tsLib env) issue (ownerOf repo) (nameOf repo) of
      Inl _ \<Rightarrow> fail ErrProviderFailure
    | Inr n \<Rightarrow> if niIndex n \<noteq> index \<or> niState n \<noteq> snd (targetOf operation) then fail ErrProviderFailure
        else boundedResponse env ErrResourceExhausted (?shown n)"
  have checked: "showsState env repo index operation a" if "?check v = Inr a" for v a
    using that by (auto simp: showsState_def boundedResponse_Inr split: sum.splits if_splits dest: normalizeIssue_wf)
  have same: "runs (\<lambda>s. gtWrites s = ws) (bindG (liftG (boundedResponse env ErrProviderFailure (?shown current)))
      (\<lambda>response. bindG (recordTransition False) (\<lambda>_. liftG (Inr response)))) ?Q (failureReported False (issueTarget repo index) ws)"
    if "niState current = snd (targetOf operation)"
  proof (rule runs_bind [OF read_runs [OF quiet_lift]])
    show "yields (\<lambda>a. a = ?shown current) (boundedResponse env ErrProviderFailure (?shown current))"
      by (simp add: boundedResponse_def)
    show "runs (\<lambda>s. gtWrites s = ws \<and> a = ?shown current) (bindG (recordTransition False) (\<lambda>_. liftG (Inr a)))
        ?Q (failureReported False (issueTarget repo index) ws)" for a
      by (rule runs_fact, rule runs_weaken [OF runs_transition [where P = "\<lambda>s. gtWrites s = ws" and R = "\<lambda>w. w = ws"]])
        (use wf that in \<open>auto simp: showsState_def\<close>)
  qed
  have other: "runs (\<lambda>s. gtWrites s = ws) (bindG (invokeWrite env (writeG (stateCall repo index operation) g) ?check)
      (\<lambda>response. bindG (recordTransition True) (\<lambda>_. liftG (Inr response)))) ?Q (failureReported False (issueTarget repo index) ws)"
    for g
    by (rule runs_bind [OF invokeWrite_runs [OF ctx]], simp add: stateCall_def, rule runs_fact,
        rule runs_weaken [OF runs_transition [where
          P = "\<lambda>s. gtWrites s = ws @ [stateCall repo index operation]" and R = "\<lambda>w. w = ws @ [stateCall repo index operation]"]])
      (use checked in auto)
  show "runs (\<lambda>s. gtWrites s = ws) (if niState current = snd (targetOf operation)
       then bindG (liftG (boundedResponse env ErrProviderFailure (?shown current)))
         (\<lambda>response. bindG (recordTransition False) (\<lambda>_. liftG (Inr response)))
       else let option = \<lparr>eoTitle = [], eoBody = None, eoState = Some (fst (targetOf operation))\<rparr>
         in bindG (invokeWrite env (writeG (EditIssueCall (ownerOf repo) (nameOf repo) index option)
               (apiEditIssue api (ownerOf repo) (nameOf repo) index option)) ?check)
           (\<lambda>response. bindG (recordTransition True) (\<lambda>_. liftG (Inr response)))) ?Q
      (failureReported False (issueTarget repo index) ws)"
    unfolding Let_def stateCall_def [symmetric] by (intro runs_if same other)
qed

section \<open>Outcomes\<close>

text \<open>
  The outcome of an issue edit agrees with what was sent. On success the response shows the
  issue as it was read from the provider, in the repository that was resolved, satisfying the whole
  request; either nothing was sent and the metadata says so, or every write went to that issue and
  the metadata says that it changed. An error tells whether something was sent: after a failure
  without any write it is neither of the two errors that admit one, and after a write it is one of
  these two, or the size limit of the response.
\<close>

theorem issueEdit_outcome:
  assumes "ctxOK env" and "issueEdit env api repo request s = (r, s')"
  shows "case r of
      Inr response \<Rightarrow> \<exists>intent. normalizeEditIntent (Some request) = Inr intent
        \<and> showsSatisfied env repo (gieIndex request) intent response
        \<and> (gtWrites s' = gtWrites s \<and> metaIs False s'
           \<or> wrote (ownerOf repo, nameOf repo, Some (gieIndex request)) (gtWrites s) s' \<and> metaIs True s')
    | Inl e \<Rightarrow> gtWrites s' = gtWrites s \<and> e \<notin> {Sentinel ErrWriteOutcomeUnknown, Sentinel ErrEditPartial}
        \<or> wrote (ownerOf repo, nameOf repo, Some (gieIndex request)) (gtWrites s) s'
          \<and> e \<in> {Sentinel ErrWriteOutcomeUnknown, Sentinel ErrEditPartial, Sentinel ErrResourceExhausted}"
  using runsD [OF issueEdit_runs [OF assms(1), where ws = "gtWrites s"] refl assms(2)]
  by (cases r) (auto simp: editReported_def failureReported_def plainError_def)

text \<open>
  Closing and reopening are idempotent. A successful request returns the issue in the state
  asked for; it sends one edit of that issue, of its state only, exactly if the issue was read in
  another state, and none otherwise.
\<close>

theorem issueState_outcome:
  assumes "ctxOK env" and "issueState env api repo index operation s = (Inr response, s')"
  shows "(\<exists>n. issueWF (ownerOf repo) (nameOf repo) n \<and> niIndex n = index \<and> niState n = snd (targetOf operation)
      \<and> response = issueStateResponse operation (projectIssue (tsLib env) n allIssueFields))
    \<and> (gtWrites s' = gtWrites s \<and> metaIs False s'
       \<or> gtWrites s' = gtWrites s @ [EditIssueCall (ownerOf repo) (nameOf repo) index
            \<lparr>eoTitle = [], eoBody = None, eoState = Some (fst (targetOf operation))\<rparr>] \<and> metaIs True s')"
  using runsD [OF issueState_runs [OF assms(1), where ws = "gtWrites s"] refl assms(2)]
  by (auto simp: showsState_def stateCall_def)


section \<open>Whole requests\<close>

text \<open>A request without a write capability sends nothing; one with it writes at most to its repository.\<close>

definition outcomeOK :: "resolved \<Rightarrow> bool \<Rightarrow> bool \<Rightarrow> write_call list \<Rightarrow> 'a result \<Rightarrow> 'w gt_state \<Rightarrow> bool" where
  "outcomeOK repo mayWrite mayPartial ws r s \<longleftrightarrow>
     gtWrites s = ws \<and> (\<forall>e. r = Inl e \<longrightarrow> plainError e)
     \<or> mayWrite \<and> (\<exists>index. wrote (ownerOf repo, nameOf repo, index) ws s)
       \<and> (\<forall>e. r = Inl e \<longrightarrow>
            e = outcomeUnknown
            \<or> mayPartial \<and> (e = Sentinel ErrEditPartial \<or> e = Sentinel ErrResourceExhausted \<and> metaIs True s))"

definition isIssueEdit :: "gitea_operation \<Rightarrow> bool" where
  "isIssueEdit op = (case op of GtIssueEdit _ \<Rightarrow> True | _ \<Rightarrow> False)"

lemma outcome_quiet: "quiet m anything \<Longrightarrow> m s = (r, s') \<Longrightarrow> outcomeOK repo b p (gtWrites s) r s'"
  by (auto simp: outcomeOK_def dest: quietD)

lemma outcome_runs:
  assumes m: "runs (\<lambda>s. gtWrites s = ws) m Q (failureReported p (ownerOf repo, nameOf repo, index) ws)"
    and Q: "\<And>a s. Q a s \<Longrightarrow> gtWrites s = ws \<or> wrote (ownerOf repo, nameOf repo, index) ws s"
    and run: "m s = (r, s')" and ws: "ws = gtWrites s"
  shows "outcomeOK repo True p (gtWrites s) r s'"
  using runsD [OF m _ run] ws by (cases r) (auto simp: outcomeOK_def failureReported_def dest!: Q)

lemma dispatch_outcome:
  assumes ctx: "ctxOK env" and run: "dispatch env api pulls repo op s = (r, s')"
  shows "outcomeOK repo (gt_operationCapability op = Inr IssuesWrite) (isIssueEdit op) (gtWrites s) r s'"
proof -
  have lift: ?thesis if "dispatch env api pulls repo op = liftG (fail GiteaErrInvalidRequest)"
    using run that by (auto simp: liftG_def outcomeOK_def fail_def)
  have state: "gtWrites s = ws \<or> wrote (issueTarget repo i) ws s"
    if "showsState env repo i x response \<and> (gtWrites s = ws \<and> metaIs False s \<or> gtWrites s = ws @ [stateCall repo i x] \<and> metaIs True s)"
    for i x response ws and s :: "'a gt_state"
    using that by (auto simp: wrote_def stateCall_def)
  have edit: "gtWrites s = ws \<or> wrote (issueTarget repo i) ws s"
    if "\<exists>intent. normalizeEditIntent v = Inr intent \<and> editReported env repo i intent ws response s"
    for i v response ws and s :: "'a gt_state"
    using that by (auto simp: editReported_def)
  show ?thesis
  proof (cases "(env, api, pulls, repo, op)" rule: dispatch.cases)
    case (1 env api pulls repo v)
    then show ?thesis using run outcome_quiet [OF quiet_gt_repository [OF ctx]] by (auto simp: isIssueEdit_def)
  next
    case (2 env api pulls repo v)
    then show ?thesis using run outcome_quiet [OF quiet_issueList [OF ctx]] by (auto simp: isIssueEdit_def)
  next
    case (3 env api pulls repo v)
    then show ?thesis using run outcome_quiet [OF quiet_issueView [OF ctx]] by (auto simp: isIssueEdit_def)
  next
    case (4 env api pulls repo v)
    then show ?thesis using run outcome_runs [OF issueCreate_runs [OF ctx] _ _ refl] by (auto simp: isIssueEdit_def)
  next
    case (5 env api pulls repo v)
    then show ?thesis using run outcome_runs [OF issueComment_runs [OF ctx] _ _ refl] by (auto simp: isIssueEdit_def)
  next
    case (6 env api pulls repo v)
    then show ?thesis using run outcome_runs [OF issueState_runs [OF ctx] state _ refl] by (auto simp: isIssueEdit_def)
  next
    case (7 env api pulls repo v)
    then show ?thesis using run outcome_runs [OF issueState_runs [OF ctx] state _ refl] by (auto simp: isIssueEdit_def)
  next
    case (8 env api pulls repo v)
    then show ?thesis using run outcome_runs [OF issueEdit_runs [OF ctx] edit _ refl] by (auto simp: isIssueEdit_def)
  next
    case (9 env api pulls repo v)
    then show ?thesis using run outcome_quiet [OF quiet_pullList [OF ctx]] by (auto simp: isIssueEdit_def)
  next
    case (10 env api pulls repo v)
    then show ?thesis using run outcome_quiet [OF quiet_pullView [OF ctx]] by (auto simp: isIssueEdit_def)
  qed (use lift in simp_all)
qed

lemma Execute_outcomeOK:
  assumes "ctxOK env" and "gitea_Execute env adapter repo request s = (r, s')"
  shows "outcomeOK repo (gitea_Capability (tsLib env) request = Inr IssuesWrite)
    (case request of None \<Rightarrow> False | Some q \<Rightarrow> isIssueEdit (gtOperation q)) (gtWrites s) r s'"
proof -
  have refused: ?thesis if "gitea_Execute env adapter repo request = liftG (fail x)" "x = ErrServiceUnavailable \<or> x = GiteaErrInvalidRequest" for x
    using assms(2) that by (auto simp: liftG_def fail_def outcomeOK_def plainError_def)
  show ?thesis
  proof (cases "\<exists>a api q. adapter = Some a \<and> adApi a = Some api \<and> request = Some q
      \<and> gitea_ValidateRequest (tsLib env) request = Inr ()")
    case True
    then obtain a api q where a: "adapter = Some a" "adApi a = Some api" "request = Some q"
      "gitea_ValidateRequest (tsLib env) request = Inr ()"
      by blast
    then have "dispatch env api (adPulls a) repo (gtOperation q) s = (r, s')"
      using assms(2) by (simp add: gitea_Execute_def)
    from dispatch_outcome [OF assms(1) this] show ?thesis
      using a by (simp add: gitea_Capability_def)
  next
    case False
    then have "\<exists>x. gitea_Execute env adapter repo request = liftG (fail x) \<and> (x = ErrServiceUnavailable \<or> x = GiteaErrInvalidRequest)"
      by (cases "gitea_ValidateRequest (tsLib env) request") (auto simp: gitea_Execute_def split: option.splits)
    then show ?thesis using refused by blast
  qed
qed


section \<open>A provider with one issue\<close>

text \<open>The issue is the world; editing it changes the title or the state, every other call fails.\<close>

definition exampleResolved :: resolved where
  "exampleResolved = \<lparr>ID = ''repo'', resRepository = \<lparr>Provider = ''gitea'', Owner = ''Team'', Name = ''Repo'',
     Git = \<lparr>DenyRefs = [], DenyDeletes = False, MaxRefUpdates = 1\<rparr>\<rparr>, resProvider = zeroProvider\<rparr>"

definition exampleProviderIssue :: sdk_issue where
  "exampleProviderIssue = \<lparr>siIndex = 7, siPoster = Some \<lparr>nID = 1, nName = ''ann''\<rparr>, siIsPull = False, siComments = 0,
     siRepository = Some \<lparr>metaOwner = ''Team'', metaName = ''Repo'', metaFullName = ''Team/Repo''\<rparr>,
     siState = StateOpen, siHTMLURL = ''https://git.example/Team/Repo/issues/7'', siTitle = ''Old'', siBody = ''Body'',
     siCreated = 1, siUpdated = 2, siDeadline = None, siMilestone = None, siAssignees = [], siLabels = []\<rparr>"

definition exampleWorldEnv :: "sdk_issue gt_env" where
  "exampleWorldEnv = \<lparr>ctxErr = \<lambda>w. (None, w),
     tsLib = \<lparr>tsIsValid = \<lambda>_. True, tsAsTime = \<lambda>t. tsSeconds t * 1000000000 + tsNanos t,
       tsNew = \<lambda>n. \<lparr>tsSeconds = n div 1000000000, tsNanos = n mod 1000000000\<rparr>\<rparr>,
     protoSize = \<lambda>_. 100, parseURL = \<lambda>_. None, equalFold = \<lambda>a b. a = b\<rparr>"

definition exampleEditIssue :: "edit_option \<Rightarrow> sdk_issue \<Rightarrow> sdk_issue option result \<times> sdk_issue" where
  "exampleEditIssue opt w =
     (let w' = w\<lparr>siTitle := (if eoTitle opt = [] then siTitle w else eoTitle opt),
                 siState := (case eoState opt of None \<Rightarrow> siState w | Some x \<Rightarrow> x)\<rparr> in (Inr (Some w'), w'))"

definition exampleGiteaApi :: "sdk_issue gitea_api" where
  "exampleGiteaApi =
     \<lparr>apiGetRepo = \<lambda>_ _ w. (fail ErrNotFound, w), apiListRepoIssues = \<lambda>_ _ _ w. (fail ErrNotFound, w),
      apiGetIssue = \<lambda>_ _ _ w. (Inr (Some w), w), apiListIssueTimeline = \<lambda>_ _ _ _ _ w. (fail ErrNotFound, w),
      apiListRepoLabels = \<lambda>_ _ _ _ w. (fail ErrNotFound, w), apiGetAssignees = \<lambda>_ _ w. (fail ErrNotFound, w),
      apiCreateIssue = \<lambda>_ _ _ w. (fail ErrNotFound, w), apiCreateIssueComment = \<lambda>_ _ _ _ w. (fail ErrNotFound, w),
      apiEditIssue = \<lambda>_ _ _ opt w. exampleEditIssue opt w,
      apiAddIssueAssignees = \<lambda>_ _ _ _ w. (fail ErrNotFound, w),
      apiDeleteIssueAssignees = \<lambda>_ _ _ _ w. (fail ErrNotFound, w),
      apiAddIssueLabels = \<lambda>_ _ _ _ w. (fail ErrNotFound, w), apiDeleteIssueLabel = \<lambda>_ _ _ _ w. (fail ErrNotFound, w)\<rparr>"

definition exampleStart :: "sdk_issue gt_state" where
  "exampleStart = \<lparr>gtWorld = exampleProviderIssue, gtWrites = [], gtMeta = Some None\<rparr>"

definition exampleEdit :: gt_issue_edit where
  "exampleEdit = \<lparr>gieIndex = 7, gieTitle = Some ''New'', gieDescription = None, gieAssigneeAction = None,
     gieLabelAction = None\<rparr>"

lemma ctxOK_example: "ctxOK exampleWorldEnv"
  by (simp add: ctxOK_def exampleWorldEnv_def)

definition exampleEdited :: "gitea_response result \<times> sdk_issue gt_state" where
  "exampleEdited = issueEdit exampleWorldEnv exampleGiteaApi exampleResolved exampleEdit exampleStart"

definition editCalls :: "'a result \<times> 'w gt_state \<Rightarrow> bool \<times> int \<times> bool option option" where
  "editCalls p = (isOK (fst p), int (length (gtWrites (snd p))), gtMeta (snd p))"

lemma editCalls_one:
  assumes "editCalls p = (True, 1, m)"
  obtains a s' where "p = (Inr a, s')" "gtMeta s' = m" "gtWrites s' \<noteq> []"
proof -
  obtain r s' where p: "p = (r, s')" by fastforce
  then obtain a where "r = Inr a" "gtMeta s' = m" "length (gtWrites s') = 1"
    using assms by (cases r) (auto simp: editCalls_def)
  then show thesis
    using that [of a s'] p by fastforce
qed

lemma exampleEdited_calls: "editCalls exampleEdited = (True, 1, Some (Some True))"
  by code_simp

theorem issueEdit_outcome_witness:
  "\<exists>response s'. exampleEdited = (Inr response, s') \<and> gtMeta s' = Some (Some True)
     \<and> wrote (''Team'', ''Repo'', Some 7) [] s'
     \<and> (\<exists>intent. normalizeEditIntent (Some exampleEdit) = Inr intent
         \<and> showsSatisfied exampleWorldEnv exampleResolved 7 intent response)"
proof -
  obtain response s' where run: "exampleEdited = (Inr response, s')" "gtMeta s' = Some (Some True)" "gtWrites s' \<noteq> []"
    using exampleEdited_calls by (rule editCalls_one)
  have "gtWrites exampleStart = []" "gieIndex exampleEdit = 7" "ownerOf exampleResolved = ''Team''" "nameOf exampleResolved = ''Repo''"
    by (simp_all add: exampleStart_def exampleEdit_def exampleResolved_def)
  then show ?thesis
    using issueEdit_outcome [OF ctxOK_example run(1) [unfolded exampleEdited_def]] run by fastforce
qed

theorem issueState_outcome_witness:
  "\<exists>response s'. issueState exampleWorldEnv exampleGiteaApi exampleResolved 7 IssueStateClose exampleStart = (Inr response, s')
     \<and> gtWrites s' = [EditIssueCall ''Team'' ''Repo'' 7 \<lparr>eoTitle = [], eoBody = None, eoState = Some StateClosed\<rparr>]
     \<and> metaIs True s'"
proof -
  let ?run = "issueState exampleWorldEnv exampleGiteaApi exampleResolved 7 IssueStateClose exampleStart"
  have "editCalls ?run = (True, 1, Some (Some True))"
    by code_simp
  then obtain response s' where run: "?run = (Inr response, s')" "gtMeta s' = Some (Some True)" "gtWrites s' \<noteq> []"
    by (rule editCalls_one)
  have "gtWrites exampleStart = []" "ownerOf exampleResolved = ''Team''" "nameOf exampleResolved = ''Repo''"
    by (simp_all add: exampleStart_def exampleResolved_def)
  then show ?thesis
    using issueState_outcome [OF ctxOK_example run(1)] run by auto
qed


end
