(* ===== verification/Config_Decode.thy ===== *)
theory Config_Decode
  imports Config_Validate Policy
begin

text \<open>
  \<^verbatim>\<open>internal/config/decode.go\<close>: from the bytes of a configuration file to a validated configuration.

  The YAML package is third-party code. What it returns is a field of \<open>yaml_lib\<close>: the node graph of
  the first document, what follows it, the decoded \<^verbatim>\<open>rawConfig\<close> (it calls the two \<^verbatim>\<open>UnmarshalYAML\<close>
  methods, which are its arguments) and \<^verbatim>\<open>Node.ShortTag\<close>; so is \<^verbatim>\<open>time.ParseDuration\<close>. A node graph is a list of nodes, a pointer is a position in it, and a position
  outside is nil: aliases share nodes and may form cycles. The set \<^verbatim>\<open>active\<close> holds pointers and is
  passed down, because the deferred \<^verbatim>\<open>delete\<close> restores it on the way back.
\<close>

section \<open>Node graphs\<close>

datatype yaml_kind = DocumentNode | SequenceNode | MappingNode | ScalarNode | AliasNode

record yaml_node =
  yKind :: yaml_kind
  yTag :: string
  yValue :: string
  yAlias :: "nat option"
  yContent :: "nat list"

type_synonym yaml_graph = "yaml_node list"

text \<open>The content of a mapping node: its keys and values in turn.\<close>

fun pairsOf :: "nat list \<Rightarrow> (nat \<times> nat) list" where
  "pairsOf (k # v # xs) = (k, v) # pairsOf xs"
| "pairsOf _ = []"

lemma foldE_fundef_cong [fundef_cong]:
  "s = s' \<Longrightarrow> xs = ys \<Longrightarrow> (\<And>s x. x \<in> set ys \<Longrightarrow> f s x = g s x) \<Longrightarrow> foldE f s xs = foldE g s' ys"
  using foldE_cong [of ys f g] by simp

lemma checkAll_fundef_cong [fundef_cong]:
  "xs = ys \<Longrightarrow> (\<And>x. x \<in> set ys \<Longrightarrow> f x = g x) \<Longrightarrow> checkAll f xs = checkAll g ys"
  by (induction ys arbitrary: xs) (auto intro!: bindE_cong)

definition cyclicAlias :: "'a result" where
  "cyclicAlias = errorf ''cyclic YAML alias''"

function duplicateKeyPath :: "yaml_graph \<Rightarrow> nat set \<Rightarrow> nat \<Rightarrow> unit result" where
  "duplicateKeyPath g active n =
     (if n \<ge> length g then Inr ()
      else if n \<in> active then cyclicAlias
      else if yKind (g ! n) = MappingNode then
        bindE (foldE (\<lambda>seen (k, v).
            if yValue (g ! k) \<in> seen then Inl (Errorf ''duplicate YAML key %q'' [ArgS (yValue (g ! k))])
            else bindE (duplicateKeyPath g (insert n active) v) (\<lambda>_. Inr (insert (yValue (g ! k)) seen)))
          {} (pairsOf (yContent (g ! n)))) (\<lambda>_. Inr ())
      else
        bindE (checkAll (duplicateKeyPath g (insert n active)) (yContent (g ! n))) (\<lambda>_.
          case yAlias (g ! n) of None \<Rightarrow> Inr () | Some a \<Rightarrow> duplicateKeyPath g (insert n active) a))"
  by pat_completeness auto

text \<open>The nodes that are not yet on the path: both recursions below end because they become fewer.\<close>

definition remaining :: "yaml_graph \<Rightarrow> nat set \<Rightarrow> nat" where
  "remaining g active = card ({..<length g} - active)"

lemma remaining_decreases: "\<not> length g \<le> n \<Longrightarrow> n \<notin> active \<Longrightarrow> remaining g (insert n active) < remaining g active"
  unfolding remaining_def not_le by (rule psubset_card_mono) auto

termination duplicateKeyPath
  by (relation "measure (\<lambda>(g, active, n). remaining g active)") (auto simp: remaining_decreases)

declare duplicateKeyPath.simps [simp del]

definition duplicateKey :: "yaml_graph \<Rightarrow> nat \<Rightarrow> unit result" where
  "duplicateKey g n = duplicateKeyPath g {} n"


section \<open>The configuration as decoded\<close>

text \<open>A pointer field of the raw configuration is an option.\<close>

record optional_string =
  present :: bool
  optValue :: string

record raw_provider =
  rawKind :: provider_kind
  rawAPIHost :: string
  rawGitHost :: string
  rawSSHUser :: string
  rawSSHPort :: "16 word option"
  rawTokenEnv :: optional_string
  rawCAFile :: optional_string

record raw_push_policy =
  rawDenyRefs :: "string list option"
  rawDenyDeletes :: "bool option"
  rawMaxRefUpdates :: "int option"

record raw_repository =
  rawRepoProvider :: string
  rawOwner :: string
  rawName :: string
  rawGit :: raw_push_policy

record raw_limits =
  rawMaxConcurrentRequests :: "int option"
  rawMaxConcurrentRequestsPerPrincipal :: "int option"
  rawMaxMessageBytes :: "int option"
  rawMaxStreamChunkBytes :: "int option"
  rawMaxPushPrefixBytes :: "int option"
  rawMaxGitBytesPerDirection :: "int option"
  rawInitialStreamTimeout :: "string option"
  rawOperationTimeout :: "string option"
  rawIdleStreamTimeout :: "string option"

record raw_config =
  rawAPIVersion :: string
  rawListen :: string
  rawTLS :: tls
  rawTools :: tools
  rawProviders :: "raw_provider gomap"
  rawRepositories :: "raw_repository gomap"
  rawPrincipals :: "principal gomap"
  rawLimits :: raw_limits

text \<open>\<^verbatim>\<open>rawOptionalString.UnmarshalYAML\<close> and \<^verbatim>\<open>rawCAFile.UnmarshalYAML\<close> on a node.\<close>

definition optionalString_UnmarshalYAML :: "yaml_node \<Rightarrow> optional_string result" where
  "optionalString_UnmarshalYAML node =
     (if yTag node \<noteq> ''!!str'' then errorf ''tokenEnv must be a string''
      else Inr \<lparr>present = True, optValue = yValue node\<rparr>)"

definition caFile_UnmarshalYAML :: "yaml_node \<Rightarrow> optional_string result" where
  "caFile_UnmarshalYAML node =
     (if yTag node \<noteq> ''!!str'' then errorf ''caFile must be a string''
      else Inr \<lparr>present = True, optValue = yValue node\<rparr>)"

text \<open>
  The YAML decoder on some bytes: the first document as nodes and the position of its root, the
  first document as \<^verbatim>\<open>rawConfig\<close> with unknown fields refused, given the methods that it calls on the
  nodes of \<^verbatim>\<open>tokenEnv\<close> and \<^verbatim>\<open>caFile\<close>, and the call after either of them, which fails, reaches the end,
  or finds another document.
\<close>

datatype next_document = NextError go_error | NextEOF | NextDocument

record yaml_lib =
  shortTag :: "yaml_node \<Rightarrow> string"
  firstNode :: "string \<Rightarrow> (yaml_graph \<times> nat) result"
  firstRaw :: "(yaml_node \<Rightarrow> optional_string result) \<Rightarrow> (yaml_node \<Rightarrow> optional_string result)
    \<Rightarrow> string \<Rightarrow> raw_config result"
  afterFirst :: "string \<Rightarrow> next_document"
  parseDuration :: "string \<Rightarrow> int result"


section \<open>Effective mappings\<close>

definition isMergeKey :: "('x) yaml_lib_scheme \<Rightarrow> yaml_node \<Rightarrow> bool" where
  "isMergeKey lib node \<longleftrightarrow>
     yKind node = ScalarNode \<and> yValue node = ''<<'' \<and> (yTag node = [] \<or> yTag node = ''!'' \<or> shortTag lib node = ''!!merge'')"

type_synonym effective_entries = "(string \<times> nat) list"

text \<open>The first loop over a mapping: the keys of its own that were not seen before.\<close>

definition addOwn ::
  "'x yaml_lib_scheme \<Rightarrow> yaml_graph \<Rightarrow> string set \<times> effective_entries \<Rightarrow> nat \<times> nat \<Rightarrow> string set \<times> effective_entries" where
  "addOwn lib g st kv =
     (case st of (seen, entries) \<Rightarrow> case kv of (k, v) \<Rightarrow>
        if isMergeKey lib (g ! k) then (seen, entries)
        else if yValue (g ! k) \<in> seen then (seen, entries)
        else (insert (yValue (g ! k)) seen, entries @ [(yValue (g ! k), v)]))"

function collectEffectiveMapping ::
  "'x yaml_lib_scheme \<Rightarrow> yaml_graph \<Rightarrow> bool \<Rightarrow> nat set \<Rightarrow> nat \<Rightarrow> string set \<times> effective_entries
    \<Rightarrow> (string set \<times> effective_entries) result" where
  "collectEffectiveMapping lib g allowSequence active n st =
     (if n \<ge> length g then Inr st
      else if n \<in> active then cyclicAlias
      else if yKind (g ! n) = AliasNode then
        (case yAlias (g ! n) of
           None \<Rightarrow> Inr st
         | Some a \<Rightarrow> collectEffectiveMapping lib g allowSequence (insert n active) a st)
      else if yKind (g ! n) = SequenceNode \<and> allowSequence then
        foldE (\<lambda>st m. collectEffectiveMapping lib g False (insert n active) m st) st (yContent (g ! n))
      else if yKind (g ! n) \<noteq> MappingNode then Inr st
      else
        foldE (\<lambda>st (k, v).
            if isMergeKey lib (g ! k) then collectEffectiveMapping lib g True (insert n active) v st else Inr st)
          (foldl (addOwn lib g) st (pairsOf (yContent (g ! n)))) (pairsOf (yContent (g ! n))))"
  by pat_completeness auto

termination collectEffectiveMapping
  by (relation "measure (\<lambda>(lib, g, allow, active, n, st). remaining g active)") (auto simp: remaining_decreases)

declare collectEffectiveMapping.simps [simp del]

definition resolveEffectiveMapping :: "'x yaml_lib_scheme \<Rightarrow> yaml_graph \<Rightarrow> nat \<Rightarrow> effective_entries result" where
  "resolveEffectiveMapping lib g n = bindE (collectEffectiveMapping lib g False {} n ({}, [])) (\<lambda>(_, entries). Inr entries)"

definition effectiveMappingValue :: "effective_entries \<Rightarrow> string \<Rightarrow> nat option" where
  "effectiveMappingValue entries field = map_option snd (List.find (\<lambda>(k, _). k = field) entries)"

text \<open>The loop of \<^verbatim>\<open>isNullNode\<close> follows aliases and does not look for cycles: \<^term>\<open>None\<close> is a loop that never ends.\<close>

partial_function (option) isNullNode :: "'x yaml_lib_scheme \<Rightarrow> yaml_graph \<Rightarrow> nat \<Rightarrow> bool option" where
  "isNullNode lib g n =
     (if n \<ge> length g then Some False
      else if yKind (g ! n) = AliasNode
      then (case yAlias (g ! n) of None \<Rightarrow> Some False | Some a \<Rightarrow> isNullNode lib g a)
      else Some (shortTag lib (g ! n) = ''!!null''))"

declare isNullNode.simps [code]

text \<open>The outer \<^term>\<open>None\<close> is a run that does not return.\<close>

definition nullField :: "'x yaml_lib_scheme \<Rightarrow> yaml_graph \<Rightarrow> effective_entries \<Rightarrow> string \<Rightarrow> unit result option" where
  "nullField lib g entries field =
     (case effectiveMappingValue entries field of
        None \<Rightarrow> Some (Inr ())
      | Some v \<Rightarrow> map_option (\<lambda>null. if null then Inl (Errorf ''%s must be a string'' [ArgS field]) else Inr ()) (isNullNode lib g v))"

text \<open>A loop whose body may return an error, or not return.\<close>

fun checkEach :: "('a \<Rightarrow> ('e + unit) option) \<Rightarrow> 'a list \<Rightarrow> ('e + unit) option" where
  "checkEach f [] = Some (Inr ())"
| "checkEach f (x # xs) =
     (case f x of None \<Rightarrow> None | Some (Inl e) \<Rightarrow> Some (Inl e) | Some (Inr _) \<Rightarrow> checkEach f xs)"

definition rejectNullProviderFields :: "'x yaml_lib_scheme \<Rightarrow> yaml_graph \<Rightarrow> nat \<Rightarrow> unit result option" where
  "rejectNullProviderFields lib g document =
     (if yContent (g ! document) = [] then Some (Inr ())
      else case resolveEffectiveMapping lib g (hd (yContent (g ! document))) of
        Inl e \<Rightarrow> Some (Inl e)
      | Inr root \<Rightarrow>
          (case effectiveMappingValue root ''providers'' of
             None \<Rightarrow> Some (Inr ())
           | Some ps \<Rightarrow>
               (case resolveEffectiveMapping lib g ps of
                  Inl e \<Rightarrow> Some (Inl e)
                | Inr entries \<Rightarrow>
                    checkEach (\<lambda>(_, v). case resolveEffectiveMapping lib g v of
                        Inl e \<Rightarrow> Some (Inl e)
                      | Inr fs \<Rightarrow> checkEach (nullField lib g fs) [''tokenEnv'', ''caFile'']) entries)))"

definition secondDocument :: "'x yaml_lib_scheme \<Rightarrow> string \<Rightarrow> unit result" where
  "secondDocument lib bytes =
     (case afterFirst lib bytes of
        NextEOF \<Rightarrow> Inr ()
      | NextError e \<Rightarrow> Inl (Wrapf ''decode YAML: %w'' [] e)
      | NextDocument \<Rightarrow> errorf ''configuration contains more than one YAML document'')"

definition rejectDuplicateKeys :: "'x yaml_lib_scheme \<Rightarrow> string \<Rightarrow> unit result option" where
  "rejectDuplicateKeys lib bytes =
     (case firstNode lib bytes of
        Inl e \<Rightarrow> Some (Inl (Wrapf ''decode YAML: %w'' [] e))
      | Inr (g, document) \<Rightarrow>
          (case duplicateKey g document of
             Inl e \<Rightarrow> Some (Inl e)
           | Inr _ \<Rightarrow>
               (case rejectNullProviderFields lib g document of
                  None \<Rightarrow> None
                | Some (Inl e) \<Rightarrow> Some (Inl e)
                | Some (Inr _) \<Rightarrow> Some (secondDocument lib bytes))))"


section \<open>Normalization\<close>

definition orElse :: "'a option \<Rightarrow> 'a \<Rightarrow> 'a" where
  "orElse x d = (case x of None \<Rightarrow> d | Some v \<Rightarrow> v)"

definition normalizeProvider :: "string \<times> raw_provider \<Rightarrow> (string \<times> provider) result" where
  "normalizeProvider ip =
     (case ip of (i, p) \<Rightarrow>
        if present (rawTokenEnv p) \<and> optValue (rawTokenEnv p) = []
        then Inl (Errorf ''provider %q tokenEnv must not be empty'' [ArgS i])
        else if present (rawCAFile p) \<and> optValue (rawCAFile p) = []
        then Inl (Errorf ''provider %q caFile must not be empty'' [ArgS i])
        else Inr (i, \<lparr>Kind = rawKind p, APIHost = rawAPIHost p, GitHost = rawGitHost p, SSHUser = rawSSHUser p,
               SSHPort = orElse (rawSSHPort p) defaultSSHPort, TokenEnv = optValue (rawTokenEnv p),
               CAFile = optValue (rawCAFile p)\<rparr>))"

definition normalizeRepository :: "raw_repository \<Rightarrow> repository" where
  "normalizeRepository r =
     \<lparr>Provider = rawRepoProvider r, Owner = rawOwner r, Name = rawName r,
      Git = \<lparr>DenyRefs = orElse (rawDenyRefs (rawGit r)) (DenyRefs defaultPushPolicy),
        DenyDeletes = orElse (rawDenyDeletes (rawGit r)) (DenyDeletes defaultPushPolicy),
        MaxRefUpdates = orElse (rawMaxRefUpdates (rawGit r)) (MaxRefUpdates defaultPushPolicy)\<rparr>\<rparr>"

definition normalizeDuration :: "'x yaml_lib_scheme \<Rightarrow> string option \<Rightarrow> int \<Rightarrow> int result" where
  "normalizeDuration lib raw d =
     (case raw of
        None \<Rightarrow> Inr d
      | Some s \<Rightarrow> (case parseDuration lib s of
            Inl e \<Rightarrow> Inl (Wrapf ''invalid duration %q: %w'' [ArgS s] e)
          | Inr v \<Rightarrow> Inr v))"

definition normalizeLimits :: "'x yaml_lib_scheme \<Rightarrow> limits \<Rightarrow> raw_limits \<Rightarrow> limits result" where
  "normalizeLimits lib l raw =
     bindE (normalizeDuration lib (rawInitialStreamTimeout raw) (InitialStreamTimeout l)) (\<lambda>initial.
     bindE (normalizeDuration lib (rawOperationTimeout raw) (OperationTimeout l)) (\<lambda>operation.
     bindE (normalizeDuration lib (rawIdleStreamTimeout raw) (IdleStreamTimeout l)) (\<lambda>idle.
       Inr \<lparr>MaxConcurrentRequests = orElse (rawMaxConcurrentRequests raw) (MaxConcurrentRequests l),
         MaxConcurrentRequestsPerPrincipal =
           orElse (rawMaxConcurrentRequestsPerPrincipal raw) (MaxConcurrentRequestsPerPrincipal l),
         MaxMessageBytes = orElse (rawMaxMessageBytes raw) (MaxMessageBytes l),
         MaxStreamChunkBytes = orElse (rawMaxStreamChunkBytes raw) (MaxStreamChunkBytes l),
         MaxPushPrefixBytes = orElse (rawMaxPushPrefixBytes raw) (MaxPushPrefixBytes l),
         MaxGitBytesPerDirection = orElse (rawMaxGitBytesPerDirection raw) (MaxGitBytesPerDirection l),
         InitialStreamTimeout = initial, OperationTimeout = operation, IdleStreamTimeout = idle\<rparr>)))"

text \<open>\<^verbatim>\<open>clonePrincipals\<close> copies, which is the identity here.\<close>

definition normalize :: "'x yaml_lib_scheme \<Rightarrow> raw_config \<Rightarrow> config result" where
  "normalize lib raw =
     bindE (foldE (\<lambda>acc ip. bindE (normalizeProvider ip) (\<lambda>p. Inr (acc @ [p]))) [] (rawProviders raw)) (\<lambda>ps.
     bindE (normalizeLimits lib defaultLimits (rawLimits raw)) (\<lambda>lims.
       Inr \<lparr>APIVersion = rawAPIVersion raw, Listen = rawListen raw, TLS = rawTLS raw, Tools = rawTools raw,
         Providers = ps, Repositories = map (\<lambda>(i, r). (i, normalizeRepository r)) (rawRepositories raw),
         Principals = rawPrincipals raw, Limits = lims\<rparr>))"

text \<open>\<^verbatim>\<open>Decode\<close>, given what \<^verbatim>\<open>io.ReadAll\<close> returned.\<close>

definition Decode :: "'x yaml_lib_scheme \<Rightarrow> string result \<Rightarrow> config result option" where
  "Decode lib input =
     (case input of
        Inl e \<Rightarrow> Some (Inl (Wrapf ''read configuration: %w'' [] e))
      | Inr bytes \<Rightarrow>
          (case rejectDuplicateKeys lib bytes of
             None \<Rightarrow> None
           | Some (Inl e) \<Rightarrow> Some (Inl e)
           | Some (Inr _) \<Rightarrow>
               Some (case firstRaw lib optionalString_UnmarshalYAML caFile_UnmarshalYAML bytes of
                  Inl e \<Rightarrow> Inl (Wrapf ''decode YAML: %w'' [] e)
                | Inr raw \<Rightarrow>
                    bindE (secondDocument lib bytes) (\<lambda>_.
                    bindE (normalize lib raw) (\<lambda>cfg.
                    bindE (Validate cfg) (\<lambda>_. Inr cfg))))))"

definition LoadFile :: "'x yaml_lib_scheme \<Rightarrow> string result result \<Rightarrow> config result option" where
  "LoadFile lib opened =
     (case opened of
        Inl e \<Rightarrow> Some (Inl (Wrapf ''open configuration: %w'' [] e))
      | Inr input \<Rightarrow> Decode lib input)"


section \<open>Duplicate keys and cycles\<close>

text \<open>
  The nodes that the checks visit from a node: the values of a mapping, the children and the target
  of every other node.
\<close>

definition visits :: "yaml_graph \<Rightarrow> nat \<Rightarrow> nat \<Rightarrow> bool" where
  "visits g n m \<longleftrightarrow> n < length g \<and> m < length g
     \<and> (if yKind (g ! n) = MappingNode then m \<in> snd ` set (pairsOf (yContent (g ! n)))
        else m \<in> set (yContent (g ! n)) \<or> yAlias (g ! n) = Some m)"

definition uniqueKeys :: "yaml_graph \<Rightarrow> nat \<Rightarrow> bool" where
  "uniqueKeys g n \<longleftrightarrow>
     yKind (g ! n) = MappingNode \<longrightarrow> distinct (map (\<lambda>(k, _). yValue (g ! k)) (pairsOf (yContent (g ! n))))"

lemma foldE_pairs_isOK:
  "isOK (foldE (\<lambda>seen (k, v). if key k \<in> seen then Inl (e k) else bindE (f v) (\<lambda>_. Inr (insert (key k) seen))) S ps)
     \<longleftrightarrow> distinct (map (\<lambda>(k, _). key k) ps) \<and> key ` fst ` set ps \<inter> S = {} \<and> (\<forall>m \<in> snd ` set ps. isOK (f m))"
proof (induction ps arbitrary: S)
  case (Cons p ps)
  then show ?case
    by (cases p; cases "f (snd p)") (auto simp: image_iff)
qed simp

lemma duplicateKeyPath_step:
  assumes "n < length g"
  shows "isOK (duplicateKeyPath g active n) \<longleftrightarrow>
    n \<notin> active \<and> uniqueKeys g n \<and> (\<forall>m. visits g n m \<longrightarrow> isOK (duplicateKeyPath g (insert n active) m))"
proof -
  have nil: "isOK (duplicateKeyPath g A m)" if "\<not> m < length g" for A m
    using that by (subst duplicateKeyPath.simps) simp
  show ?thesis
  proof (cases "n \<in> active")
    case False
    have "isOK (duplicateKeyPath g active n) \<longleftrightarrow> uniqueKeys g n
        \<and> (\<forall>m. (if yKind (g ! n) = MappingNode then m \<in> snd ` set (pairsOf (yContent (g ! n)))
            else m \<in> set (yContent (g ! n)) \<or> yAlias (g ! n) = Some m) \<longrightarrow> isOK (duplicateKeyPath g (insert n active) m))"
      using assms False
      by (subst duplicateKeyPath.simps)
        (auto simp: foldE_pairs_isOK uniqueKeys_def isOK_bindE_const isOK_checkAll split: option.splits)
    then show ?thesis
      using assms False nil unfolding visits_def by metis
  next
    case True
    then show ?thesis
      using assms by (subst duplicateKeyPath.simps) (simp add: cyclicAlias_def)
  qed
qed

lemma visits_tranclp_range: "(visits g)\<^sup>+\<^sup>+ n m \<Longrightarrow> n < length g \<and> m < length g"
  by (induct rule: tranclp_induct) (auto simp: visits_def)

lemma duplicateKeyPath_spec:
  assumes "n < length g"
  shows "isOK (duplicateKeyPath g active n) \<longleftrightarrow>
    (\<forall>m. (visits g)\<^sup>*\<^sup>* n m \<longrightarrow> m \<notin> active \<and> uniqueKeys g m \<and> \<not> (visits g)\<^sup>+\<^sup>+ m m)"
  using assms
proof (induction "remaining g active" arbitrary: active n rule: less_induct)
  case less
  show ?case
  proof (cases "n \<in> active")
    case False
    have ih: "isOK (duplicateKeyPath g (insert n active) c) \<longleftrightarrow>
        (\<forall>m. (visits g)\<^sup>*\<^sup>* c m \<longrightarrow> m \<notin> insert n active \<and> uniqueKeys g m \<and> \<not> (visits g)\<^sup>+\<^sup>+ m m)"
      if "visits g n c" for c
      using less.hyps [of "insert n active" c] remaining_decreases [of g n active] less.prems False that
      by (simp add: visits_def)
    have loop: "(visits g)\<^sup>+\<^sup>+ n n \<longleftrightarrow> (\<exists>c. visits g n c \<and> (visits g)\<^sup>*\<^sup>* c n)"
      using rtranclp_into_tranclp2 [of "visits g" n _ n] tranclpD [of "visits g" n n] by blast
    have reach: "(visits g)\<^sup>*\<^sup>* n m \<longleftrightarrow> m = n \<or> (\<exists>c. visits g n c \<and> (visits g)\<^sup>*\<^sup>* c m)" for m
      by (metis converse_rtranclpE converse_rtranclp_into_rtranclp rtranclp.rtrancl_refl)
    have "(\<forall>c. visits g n c \<longrightarrow> isOK (duplicateKeyPath g (insert n active) c)) \<longleftrightarrow>
        (\<forall>c m. visits g n c \<and> (visits g)\<^sup>*\<^sup>* c m \<longrightarrow> m \<noteq> n \<and> m \<notin> active \<and> uniqueKeys g m \<and> \<not> (visits g)\<^sup>+\<^sup>+ m m)"
      using ih by auto
    then show ?thesis
      unfolding duplicateKeyPath_step [OF less.prems] reach using loop False by blast
  next
    case True
    then show ?thesis
      using duplicateKeyPath_step [OF less.prems, of active] by blast
  qed
qed

text \<open>
  C40. The check for duplicate keys accepts exactly the documents without them: it accepts a document
  if and only if no mapping that can be reached from it through values, children and aliases has two
  entries with the same key, and no node that can be reached lies on a cycle of aliases. It always
  returns, on cyclic documents too.
\<close>

theorem duplicateKey_spec:
  assumes "document < length g"
  shows "duplicateKey g document = Inr () \<longleftrightarrow>
    (\<forall>m. (visits g)\<^sup>*\<^sup>* document m \<longrightarrow> uniqueKeys g m \<and> \<not> (visits g)\<^sup>+\<^sup>+ m m)"
  using duplicateKeyPath_spec [OF assms, of "{}"] by (simp add: duplicateKey_def isOK_unit)


section \<open>Decoding returns\<close>

lemma foldE_invariant_mem:
  "foldE f s xs = Inr s' \<Longrightarrow> P s \<Longrightarrow> (\<And>s x s'. x \<in> set xs \<Longrightarrow> f s x = Inr s' \<Longrightarrow> P s \<Longrightarrow> P s') \<Longrightarrow> P s'"
  by (induction xs arbitrary: s) (auto simp: result_simps)

lemma foldl_invariant: "P s \<Longrightarrow> (\<And>s x. x \<in> set xs \<Longrightarrow> P s \<Longrightarrow> P (f s x)) \<Longrightarrow> P (foldl f s xs)"
  by (induction xs arbitrary: s) auto

lemma isNullNode_returns:
  assumes "isOK (duplicateKeyPath g active n)"
  shows "\<exists>b. isNullNode lib g n = Some b"
  using assms
proof (induction "remaining g active" arbitrary: active n rule: less_induct)
  case less
  show ?case
  proof (cases "n < length g \<and> yKind (g ! n) = AliasNode \<and> (\<exists>a. yAlias (g ! n) = Some a)")
    case True
    then obtain a where a: "n < length g" "yKind (g ! n) = AliasNode" "yAlias (g ! n) = Some a" by blast
    have "n \<notin> active" and ok: "visits g n a \<Longrightarrow> isOK (duplicateKeyPath g (insert n active) a)"
      using duplicateKeyPath_step [OF a(1), of active] less.prems by auto
    then have "a < length g \<Longrightarrow> \<exists>b. isNullNode lib g a = Some b"
      using less.hyps [OF remaining_decreases ok] a by (simp add: visits_def)
    moreover have "\<not> a < length g \<Longrightarrow> isNullNode lib g a = Some False"
      by (subst isNullNode.simps) simp
    ultimately show ?thesis
      using a by (subst isNullNode.simps) auto
  next
    case False
    then show ?thesis
      by (subst isNullNode.simps) (auto split: option.splits)
  qed
qed

text \<open>An effective mapping holds nodes that the check for duplicate keys has visited.\<close>

definition entriesFrom :: "yaml_graph \<Rightarrow> nat \<Rightarrow> string set \<times> effective_entries \<Rightarrow> string set \<times> effective_entries \<Rightarrow> bool" where
  "entriesFrom g n st st' \<longleftrightarrow>
     (\<forall>e \<in> set (snd st'). e \<in> set (snd st) \<or> (visits g)\<^sup>*\<^sup>* n (snd e) \<or> \<not> snd e < length g)"

lemma entriesFrom_trans: "entriesFrom g n st st1 \<Longrightarrow> entriesFrom g n st1 st2 \<Longrightarrow> entriesFrom g n st st2"
  by (auto simp: entriesFrom_def)

lemma entriesFrom_visited: "entriesFrom g m st st' \<Longrightarrow> visits g n m \<or> \<not> m < length g \<Longrightarrow> entriesFrom g n st st'"
  unfolding entriesFrom_def
  by (metis converse_rtranclpE converse_rtranclp_into_rtranclp visits_def)

lemma entriesFrom_foldE:
  assumes "foldE f st xs = Inr st'" and "\<And>x s s'. x \<in> set xs \<Longrightarrow> f s x = Inr s' \<Longrightarrow> entriesFrom g n s s'"
  shows "entriesFrom g n st st'"
  using foldE_invariant_mem [OF assms(1), of "entriesFrom g n st"] assms(2) entriesFrom_trans
  by (metis entriesFrom_def)

lemma entriesFrom_own:
  assumes "n < length g" and "yKind (g ! n) = MappingNode"
  shows "entriesFrom g n st (foldl (addOwn lib g) st (pairsOf (yContent (g ! n))))"
proof (rule foldl_invariant)
  fix s x
  assume "x \<in> set (pairsOf (yContent (g ! n)))" and s: "entriesFrom g n st s"
  then have "visits g n (snd x) \<or> \<not> snd x < length g"
    using assms by (auto simp: visits_def)
  then have "entriesFrom g n s (addOwn lib g s x)"
    by (auto simp: addOwn_def entriesFrom_def split: prod.splits)
  with s show "entriesFrom g n st (addOwn lib g s x)"
    by (rule entriesFrom_trans)
qed (simp add: entriesFrom_def)

lemma collect_entriesFrom:
  "collectEffectiveMapping lib g allow active n st = Inr st' \<Longrightarrow> entriesFrom g n st st'"
proof (induction lib g allow active n st arbitrary: st' rule: collectEffectiveMapping.induct)
  case (1 lib g allow active n st)
  note run = "1.prems" [unfolded collectEffectiveMapping.simps [of lib g allow active n st]]
  have same: "entriesFrom g n st st" by (simp add: entriesFrom_def)
  show ?case
  proof (cases "n < length g \<and> n \<notin> active")
    case in_range: True
    show ?thesis
    proof (cases "yKind (g ! n)")
      case AliasNode
      show ?thesis
      proof (cases "yAlias (g ! n)")
        case (Some a)
        then have "entriesFrom g a st st'"
          using run in_range AliasNode "1.IH"(1) [OF _ _ AliasNode Some] by simp
        moreover have "visits g n a \<or> \<not> a < length g"
          using in_range AliasNode Some by (simp add: visits_def)
        ultimately show ?thesis by (rule entriesFrom_visited)
      qed (use run in_range AliasNode same in simp)
    next
      case SequenceNode
      have "entriesFrom g n s s'"
        if "x \<in> set (yContent (g ! n))" "collectEffectiveMapping lib g False (insert n active) x s = Inr s'" allow for x s s'
        using "1.IH"(2) [OF _ _ _ _ that(1,2)] in_range SequenceNode that(1,3)
        by (auto simp: visits_def intro: entriesFrom_visited)
      then show ?thesis
        using run in_range same SequenceNode entriesFrom_foldE [of _ st "yContent (g ! n)" st' g n] by (auto split: if_splits)
    next
      case MappingNode
      have step: "entriesFrom g n s s'"
        if "(k, v) \<in> set (pairsOf (yContent (g ! n)))" "isMergeKey lib (g ! k)"
          "collectEffectiveMapping lib g True (insert n active) v s = Inr s'" for k v s s'
      proof (rule entriesFrom_visited)
        show "entriesFrom g v s s'"
          using "1.IH"(3) [OF _ _ _ _ _ that(1) refl that(2,3)] in_range MappingNode by simp
        show "visits g n v \<or> \<not> v < length g"
          using in_range MappingNode that(1) by (force simp: visits_def)
      qed
      have "foldE (\<lambda>st (k, v). if isMergeKey lib (g ! k) then collectEffectiveMapping lib g True (insert n active) v st
              else Inr st) (foldl (addOwn lib g) st (pairsOf (yContent (g ! n)))) (pairsOf (yContent (g ! n))) = Inr st'"
        using run in_range MappingNode by simp
      then have "entriesFrom g n (foldl (addOwn lib g) st (pairsOf (yContent (g ! n)))) st'"
      proof (rule entriesFrom_foldE)
        fix x s s'
        assume x: "x \<in> set (pairsOf (yContent (g ! n)))"
          and r: "(case x of (k, v) \<Rightarrow> if isMergeKey lib (g ! k)
              then collectEffectiveMapping lib g True (insert n active) v s else Inr s) = Inr s'"
        show "entriesFrom g n s s'"
        proof (cases "isMergeKey lib (g ! fst x)")
          case True
          then show ?thesis using x r step [of "fst x" "snd x"] by (simp add: case_prod_beta)
        next
          case False
          then show ?thesis using r by (simp add: case_prod_beta entriesFrom_def)
        qed
      qed
      with entriesFrom_own show ?thesis
        using in_range MappingNode entriesFrom_trans by blast
    qed (use run in_range same in auto)
  next
    case False
    then show ?thesis
      using run same by (auto simp: cyclicAlias_def split: if_splits)
  qed
qed

lemma resolve_visited:
  assumes "resolveEffectiveMapping lib g n = Inr entries" and "(k, v) \<in> set entries"
  shows "(visits g)\<^sup>*\<^sup>* n v \<or> \<not> v < length g"
proof -
  obtain seen where "collectEffectiveMapping lib g False {} n ({}, []) = Inr (seen, entries)"
    using assms(1) by (auto simp: resolveEffectiveMapping_def result_simps)
  from collect_entriesFrom [OF this] show ?thesis
    using assms(2) by (force simp: entriesFrom_def)
qed

lemma effectiveMappingValue_map_of: "effectiveMappingValue entries field = map_of entries field"
  unfolding effectiveMappingValue_def by (induction entries) auto

lemma effectiveMappingValue_mem: "effectiveMappingValue entries field = Some v \<Longrightarrow> (field, v) \<in> set entries"
  by (simp add: effectiveMappingValue_map_of map_of_SomeD)

lemma checkEach_returns: "(\<And>x. x \<in> set xs \<Longrightarrow> \<exists>r. f x = Some r) \<Longrightarrow> \<exists>r. checkEach f xs = Some r"
proof (induction xs)
  case (Cons x xs)
  then obtain r where "f x = Some r" by fastforce
  with Cons show ?case by (cases r) auto
qed simp

text \<open>What the package documents of the nodes it returns: a document node in the graph.\<close>

definition yamlDocumented :: "'x yaml_lib_scheme \<Rightarrow> bool" where
  "yamlDocumented lib \<longleftrightarrow>
     (\<forall>bytes g d. firstNode lib bytes = Inr (g, d) \<longrightarrow> d < length g \<and> yKind (g ! d) = DocumentNode)"

lemma visited_or_nil:
  assumes "(visits g)\<^sup>*\<^sup>* n m \<or> \<not> m < length g" and "resolveEffectiveMapping lib g m = Inr entries"
    and "(k, v) \<in> set entries"
  shows "(visits g)\<^sup>*\<^sup>* n v \<or> \<not> v < length g"
proof (cases "m < length g")
  case True
  then show ?thesis
    using assms(1) resolve_visited [OF assms(2,3)] by (meson rtranclp_trans)
next
  case False
  then have "entries = []"
    using assms(2) by (simp add: resolveEffectiveMapping_def collectEffectiveMapping.simps)
  with assms(3) show ?thesis by simp
qed

lemma nullField_returns:
  assumes "duplicateKey g document = Inr ()" and "document < length g"
    and "\<And>v. effectiveMappingValue entries field = Some v \<Longrightarrow> (visits g)\<^sup>*\<^sup>* document v \<or> \<not> v < length g"
  shows "\<exists>r. nullField lib g entries field = Some r"
proof (cases "effectiveMappingValue entries field")
  case (Some v)
  have "isOK (duplicateKeyPath g {} v)"
  proof (cases "v < length g")
    case True
    then have "(visits g)\<^sup>*\<^sup>* document v" using assms(3) [OF Some] by blast
    then show ?thesis
      using assms(1) duplicateKeyPath_spec [OF assms(2), of "{}"] duplicateKeyPath_spec [OF True, of "{}"]
      unfolding duplicateKey_def isOK_unit by (meson rtranclp_trans)
  qed (simp add: duplicateKeyPath.simps)
  then show ?thesis
    using isNullNode_returns [of g "{}" v lib] Some by (auto simp: nullField_def)
qed (simp add: nullField_def)

lemma rejectNullProviderFields_returns:
  assumes "duplicateKey g document = Inr ()" and "document < length g" and "yKind (g ! document) = DocumentNode"
  shows "\<exists>r. rejectNullProviderFields lib g document = Some r"
proof -
  let ?at = "\<lambda>v. (visits g)\<^sup>*\<^sup>* document v \<or> \<not> v < length g"
  have root: "?at (hd (yContent (g ! document)))" if "yContent (g ! document) \<noteq> []"
    using assms(2,3) that by (auto simp: visits_def)
  have each: "\<exists>r. checkEach (\<lambda>(_, v). case resolveEffectiveMapping lib g v of Inl e \<Rightarrow> Some (Inl e)
        | Inr fs \<Rightarrow> checkEach (nullField lib g fs) [''tokenEnv'', ''caFile'']) entries = Some r"
    if "\<And>k v. (k, v) \<in> set entries \<Longrightarrow> ?at v" for entries
  proof (rule checkEach_returns, clarify)
    fix k v
    assume "(k, v) \<in> set entries"
    then have v: "?at v" by (rule that)
    show "\<exists>r. (case resolveEffectiveMapping lib g v of Inl e \<Rightarrow> Some (Inl e)
        | Inr fs \<Rightarrow> checkEach (nullField lib g fs) [''tokenEnv'', ''caFile'']) = Some r"
    proof (cases "resolveEffectiveMapping lib g v")
      case (Inr fs)
      have "\<exists>r. nullField lib g fs field = Some r" for field
        using nullField_returns [OF assms(1,2)] visited_or_nil [OF v Inr] effectiveMappingValue_mem by metis
      then have "\<exists>r. checkEach (nullField lib g fs) [''tokenEnv'', ''caFile''] = Some r"
        by (intro checkEach_returns) blast
      then show ?thesis using Inr by simp
    qed simp
  qed
  show ?thesis
  proof (cases "yContent (g ! document) = []")
    case False
    show ?thesis
    proof (cases "resolveEffectiveMapping lib g (hd (yContent (g ! document)))")
      case r: (Inr top)
      show ?thesis
      proof (cases "effectiveMappingValue top ''providers''")
        case (Some v)
        then have v: "?at v"
          using visited_or_nil [OF root [OF False] r] effectiveMappingValue_mem by blast
        show ?thesis
        proof (cases "resolveEffectiveMapping lib g v")
          case (Inr entries)
          then show ?thesis
            using each [of entries] visited_or_nil [OF v Inr] False r Some by (simp add: rejectNullProviderFields_def)
        qed (use False r Some in \<open>simp add: rejectNullProviderFields_def\<close>)
      qed (use False r in \<open>simp add: rejectNullProviderFields_def\<close>)
    qed (use False in \<open>simp add: rejectNullProviderFields_def\<close>)
  qed (simp add: rejectNullProviderFields_def)
qed

text \<open>
  C39. Decoding a configuration always returns, whatever the file contains: the loop of
  \<^verbatim>\<open>isNullNode\<close> has no check of its own, but it only ever runs on nodes that the check for duplicate
  keys has found to be free of alias cycles.
\<close>

theorem Decode_returns:
  assumes "yamlDocumented lib"
  shows "\<exists>r. Decode lib input = Some r"
proof -
  have "\<exists>r. rejectDuplicateKeys lib bytes = Some r" for bytes
  proof (cases "firstNode lib bytes")
    case (Inr p)
    then obtain g d where p: "firstNode lib bytes = Inr (g, d)" by (cases p) auto
    then have d: "d < length g" "yKind (g ! d) = DocumentNode"
      using assms by (auto simp: yamlDocumented_def)
    show ?thesis
    proof (cases "duplicateKey g d")
      case (Inr u)
      then obtain r where "rejectNullProviderFields lib g d = Some r"
        using rejectNullProviderFields_returns [OF _ d] by fastforce
      then show ?thesis
        using p Inr by (cases r) (simp_all add: rejectDuplicateKeys_def)
    qed (simp add: rejectDuplicateKeys_def p)
  qed (simp add: rejectDuplicateKeys_def)
  then show ?thesis
    unfolding Decode_def by (auto split: sum.splits option.splits) (metis option.distinct(1))+
qed


section \<open>What is decoded\<close>

text \<open>The entries collected so far have the keys seen so far, each once, and only grow.\<close>

definition growsTo :: "string set \<times> effective_entries \<Rightarrow> string set \<times> effective_entries \<Rightarrow> bool" where
  "growsTo st st' \<longleftrightarrow> (fst st = fst ` set (snd st) \<and> distinct (map fst (snd st)) \<longrightarrow>
     fst st' = fst ` set (snd st') \<and> distinct (map fst (snd st'))) \<and> (\<exists>more. snd st' = snd st @ more)"

lemma growsTo_refl [simp]: "growsTo st st"
  by (simp add: growsTo_def)

lemma growsTo_trans: "growsTo st st1 \<Longrightarrow> growsTo st1 st2 \<Longrightarrow> growsTo st st2"
  by (auto simp: growsTo_def)

lemma addOwn_grows: "growsTo st (addOwn lib g st kv)"
  by (auto simp: growsTo_def addOwn_def split: prod.splits)

lemma foldl_grows: "growsTo st (foldl (addOwn lib g) st ps)"
  by (rule foldl_invariant) (auto intro: growsTo_trans addOwn_grows)

lemma foldE_grows:
  assumes "foldE f st xs = Inr st'" and "\<And>x s s'. x \<in> set xs \<Longrightarrow> f s x = Inr s' \<Longrightarrow> growsTo s s'"
  shows "growsTo st st'"
  using foldE_invariant_mem [OF assms(1), of "growsTo st"] assms(2) growsTo_trans growsTo_refl by metis

lemma collect_grows:
  "collectEffectiveMapping lib g allow active n st = Inr st' \<Longrightarrow> growsTo st st'"
proof (induction lib g allow active n st arbitrary: st' rule: collectEffectiveMapping.induct)
  case (1 lib g allow active n st)
  note run = "1.prems" [unfolded collectEffectiveMapping.simps [of lib g allow active n st]]
  consider (nil) "length g \<le> n" | (cycle) "\<not> length g \<le> n" "n \<in> active"
    | (aliased) "\<not> length g \<le> n" "n \<notin> active" "yKind (g ! n) = AliasNode"
    | (seq) "\<not> length g \<le> n" "n \<notin> active" "yKind (g ! n) = SequenceNode" "allow"
    | (other) "\<not> length g \<le> n" "n \<notin> active" "yKind (g ! n) \<noteq> AliasNode" "\<not> (yKind (g ! n) = SequenceNode \<and> allow)"
        "yKind (g ! n) \<noteq> MappingNode"
    | (mapping) "\<not> length g \<le> n" "n \<notin> active" "yKind (g ! n) = MappingNode"
    by blast
  then show ?case
  proof cases
    case aliased
    then show ?thesis using run "1.IH"(1) [OF aliased] by (cases "yAlias (g ! n)") simp_all
  next
    case seq
    then have "foldE (\<lambda>st m. collectEffectiveMapping lib g False (insert n active) m st) st (yContent (g ! n)) = Inr st'"
      using run by simp
    then show ?thesis by (rule foldE_grows) (use "1.IH"(2) seq in simp)
  next
    case mapping
    then have "foldE (\<lambda>st (k, v). if isMergeKey lib (g ! k) then collectEffectiveMapping lib g True (insert n active) v st
              else Inr st) (foldl (addOwn lib g) st (pairsOf (yContent (g ! n)))) (pairsOf (yContent (g ! n))) = Inr st'"
      using run by simp
    then have "growsTo (foldl (addOwn lib g) st (pairsOf (yContent (g ! n)))) st'"
    proof (rule foldE_grows)
      fix x s s'
      assume "x \<in> set (pairsOf (yContent (g ! n)))"
        and "(case x of (k, v) \<Rightarrow> if isMergeKey lib (g ! k)
            then collectEffectiveMapping lib g True (insert n active) v s else Inr s) = Inr s'"
      then show "growsTo s s'"
        using "1.IH"(3) [of x "fst x" "snd x" s s'] mapping by (cases "isMergeKey lib (g ! fst x)") (auto simp: case_prod_beta)
    qed
    then show ?thesis using foldl_grows growsTo_trans by blast
  qed (use run in \<open>auto simp: cyclicAlias_def\<close>)
qed

text \<open>
  What a mapping node effectively holds for a key, as the YAML merge keys define it: an alias holds
  what its target holds; a mapping's own entry comes first; otherwise the first of the nodes merged
  into it that holds the key, where a merged sequence stands for its elements in their order.
\<close>

definition ownEntries :: "'x yaml_lib_scheme \<Rightarrow> yaml_graph \<Rightarrow> nat \<Rightarrow> effective_entries" where
  "ownEntries lib g n =
     map (\<lambda>(k, v). (yValue (g ! k), v)) (filter (\<lambda>(k, _). \<not> isMergeKey lib (g ! k)) (pairsOf (yContent (g ! n))))"

definition mergeTargets :: "'x yaml_lib_scheme \<Rightarrow> yaml_graph \<Rightarrow> nat \<Rightarrow> nat list" where
  "mergeTargets lib g n = map snd (filter (\<lambda>(k, _). isMergeKey lib (g ! k)) (pairsOf (yContent (g ! n))))"

inductive effective :: "'x yaml_lib_scheme \<Rightarrow> yaml_graph \<Rightarrow> bool \<Rightarrow> nat \<Rightarrow> string \<Rightarrow> nat option \<Rightarrow> bool"
  and effectiveFirst :: "'x yaml_lib_scheme \<Rightarrow> yaml_graph \<Rightarrow> bool \<Rightarrow> nat list \<Rightarrow> string \<Rightarrow> nat option \<Rightarrow> bool"
  for lib g where
  nil: "length g \<le> n \<Longrightarrow> effective lib g seqs n key None"
| aliased: "n < length g \<Longrightarrow> yKind (g ! n) = AliasNode \<Longrightarrow> yAlias (g ! n) = Some a \<Longrightarrow> effective lib g seqs a key r \<Longrightarrow>
    effective lib g seqs n key r"
| dangling: "n < length g \<Longrightarrow> yKind (g ! n) = AliasNode \<Longrightarrow> yAlias (g ! n) = None \<Longrightarrow> effective lib g seqs n key None"
| elements: "n < length g \<Longrightarrow> yKind (g ! n) = SequenceNode \<Longrightarrow> effectiveFirst lib g False (yContent (g ! n)) key r \<Longrightarrow>
    effective lib g True n key r"
| no_mapping: "n < length g \<Longrightarrow> yKind (g ! n) \<in> {DocumentNode, ScalarNode} \<or> yKind (g ! n) = SequenceNode \<and> \<not> seqs \<Longrightarrow>
    effective lib g seqs n key None"
| own: "n < length g \<Longrightarrow> yKind (g ! n) = MappingNode \<Longrightarrow> map_of (ownEntries lib g n) key = Some v \<Longrightarrow>
    effective lib g seqs n key (Some v)"
| merged: "n < length g \<Longrightarrow> yKind (g ! n) = MappingNode \<Longrightarrow> map_of (ownEntries lib g n) key = None \<Longrightarrow>
    effectiveFirst lib g True (mergeTargets lib g n) key r \<Longrightarrow> effective lib g seqs n key r"
| none: "effectiveFirst lib g seqs [] key None"
| found: "effective lib g seqs m key (Some v) \<Longrightarrow> effectiveFirst lib g seqs (m # ms) key (Some v)"
| later: "effective lib g seqs m key None \<Longrightarrow> effectiveFirst lib g seqs ms key r \<Longrightarrow>
    effectiveFirst lib g seqs (m # ms) key r"

definition tidy :: "string set \<times> effective_entries \<Rightarrow> bool" where
  "tidy st \<longleftrightarrow> fst st = fst ` set (snd st) \<and> distinct (map fst (snd st))"

definition firstOf :: "'a option \<Rightarrow> 'a option \<Rightarrow> 'a option" where
  "firstOf x y = (case x of None \<Rightarrow> y | Some v \<Rightarrow> Some v)"

lemma grows_tidy: "growsTo st st' \<Longrightarrow> tidy st \<Longrightarrow> tidy st'"
  by (simp add: growsTo_def tidy_def)

lemma grows_keeps: "growsTo st st' \<Longrightarrow> map_of (snd st) key = Some v \<Longrightarrow> map_of (snd st') key = Some v"
  by (auto simp: growsTo_def map_add_def split: option.splits)

lemma addOwns_lookup:
  "tidy st \<Longrightarrow>
     map_of (snd (foldl (addOwn lib g) st ps)) key =
       firstOf (map_of (snd st) key)
         (map_of (map (\<lambda>(k, v). (yValue (g ! k), v)) (filter (\<lambda>(k, _). \<not> isMergeKey lib (g ! k)) ps)) key)"
proof (induction ps arbitrary: st)
  case (Cons p ps)
  obtain k v where p: "p = (k, v)" by (cases p)
  obtain seen entries where st: "st = (seen, entries)" by (cases st)
  have seen: "yValue (g ! k) \<in> seen \<longleftrightarrow> map_of entries (yValue (g ! k)) \<noteq> None"
    using Cons.prems st by (auto simp: tidy_def map_of_eq_None_iff)
  have "tidy (addOwn lib g st p)"
    using Cons.prems grows_tidy addOwn_grows by blast
  from Cons.IH [OF this] show ?case
    using seen by (auto simp: p st addOwn_def firstOf_def map_add_def split: option.splits)
qed (simp add: firstOf_def split: option.splits)

lemma foldE_merges:
  "foldE (\<lambda>st (k, v). if isMergeKey lib (g ! k) then f v st else Inr st) st ps =
     foldE (\<lambda>st m. f m st) st (map snd (filter (\<lambda>(k, _). isMergeKey lib (g ! k)) ps))"
  by (induction ps arbitrary: st) auto

text \<open>The accumulating walk finds for every key what the mapping effectively holds.\<close>

lemma collect_effective:
  "effective lib g seqs n key r \<Longrightarrow>
     (\<forall>active st st'. collectEffectiveMapping lib g seqs active n st = Inr st' \<longrightarrow> tidy st \<longrightarrow>
        map_of (snd st') key = firstOf (map_of (snd st) key) r)"
  "effectiveFirst lib g seqs ms key r \<Longrightarrow>
     (\<forall>active st st'. foldE (\<lambda>st m. collectEffectiveMapping lib g seqs active m st) st ms = Inr st' \<longrightarrow> tidy st \<longrightarrow>
        map_of (snd st') key = firstOf (map_of (snd st) key) r)"
proof (induction rule: effective_effectiveFirst.inducts)
  case (own n key v seqs)
  show ?case
  proof (intro allI impI)
    fix active st st'
    assume run: "collectEffectiveMapping lib g seqs active n st = Inr st'" and st: "tidy st"
    let ?st = "foldl (addOwn lib g) st (pairsOf (yContent (g ! n)))"
    have "foldE (\<lambda>st m. collectEffectiveMapping lib g True (insert n active) m st) ?st (mergeTargets lib g n) = Inr st'"
      using run own by (subst (asm) collectEffectiveMapping.simps)
        (auto simp: foldE_merges mergeTargets_def cyclicAlias_def split: if_splits)
    then have "growsTo ?st st'"
      by (rule foldE_grows) (rule collect_grows)
    moreover have "map_of (snd ?st) key = firstOf (map_of (snd st) key) (Some v)"
      using addOwns_lookup [OF st, of lib g] own by (simp add: ownEntries_def)
    ultimately show "map_of (snd st') key = firstOf (map_of (snd st) key) (Some v)"
      using grows_keeps by (fastforce simp: firstOf_def split: option.splits)
  qed
next
  case (merged n key r seqs)
  show ?case
  proof (intro allI impI)
    fix active st st'
    assume run: "collectEffectiveMapping lib g seqs active n st = Inr st'" and st: "tidy st"
    let ?st = "foldl (addOwn lib g) st (pairsOf (yContent (g ! n)))"
    have "foldE (\<lambda>st m. collectEffectiveMapping lib g True (insert n active) m st) ?st (mergeTargets lib g n) = Inr st'"
      using run merged(1,2) by (subst (asm) collectEffectiveMapping.simps)
        (auto simp: foldE_merges mergeTargets_def cyclicAlias_def split: if_splits)
    moreover have "tidy ?st"
      using st grows_tidy foldl_grows by blast
    ultimately have "map_of (snd st') key = firstOf (map_of (snd ?st) key) r"
      using merged(5) by blast
    moreover have "map_of (snd ?st) key = map_of (snd st) key"
      using addOwns_lookup [OF st, of lib g] merged(3) by (simp add: ownEntries_def firstOf_def split: option.splits)
    ultimately show "map_of (snd st') key = firstOf (map_of (snd st) key) r"
      by simp
  qed
next
  case (found seqs m key v ms)
  show ?case
  proof (intro allI impI)
    fix active st st'
    assume run: "foldE (\<lambda>st m. collectEffectiveMapping lib g seqs active m st) st (m # ms) = Inr st'" and st: "tidy st"
    then obtain st1 where one: "collectEffectiveMapping lib g seqs active m st = Inr st1"
      and rest: "foldE (\<lambda>st m. collectEffectiveMapping lib g seqs active m st) st1 ms = Inr st'"
      by (auto simp: result_simps)
    have "growsTo st1 st'"
      using rest by (rule foldE_grows) (rule collect_grows)
    moreover have "map_of (snd st1) key = firstOf (map_of (snd st) key) (Some v)"
      using found(2) one st by blast
    ultimately show "map_of (snd st') key = firstOf (map_of (snd st) key) (Some v)"
      using grows_keeps by (fastforce simp: firstOf_def split: option.splits)
  qed
next
  case (later seqs m key ms r)
  show ?case
  proof (intro allI impI)
    fix active st st'
    assume run: "foldE (\<lambda>st m. collectEffectiveMapping lib g seqs active m st) st (m # ms) = Inr st'" and st: "tidy st"
    then obtain st1 where one: "collectEffectiveMapping lib g seqs active m st = Inr st1"
      and rest: "foldE (\<lambda>st m. collectEffectiveMapping lib g seqs active m st) st1 ms = Inr st'"
      by (auto simp: result_simps)
    have "tidy st1" using grows_tidy [OF collect_grows [OF one] st] .
    then have "map_of (snd st') key = firstOf (map_of (snd st1) key) r"
      using later(4) rest by blast
    also have "map_of (snd st1) key = firstOf (map_of (snd st) key) None"
      using later(2) one st by blast
    finally show "map_of (snd st') key = firstOf (map_of (snd st) key) r"
      by (simp add: firstOf_def split: option.splits)
  qed
next
  case (aliased n a seqs key r)
  show ?case
  proof (intro allI impI)
    fix active st st'
    assume run: "collectEffectiveMapping lib g seqs active n st = Inr st'" and st: "tidy st"
    have "collectEffectiveMapping lib g seqs (insert n active) a st = Inr st'"
      using run aliased(1-3) by (subst (asm) collectEffectiveMapping.simps) (auto simp: cyclicAlias_def split: if_splits)
    then show "map_of (snd st') key = firstOf (map_of (snd st) key) r"
      using aliased(5) st by blast
  qed
next
  case (elements n key r)
  show ?case
  proof (intro allI impI)
    fix active st st'
    assume run: "collectEffectiveMapping lib g True active n st = Inr st'" and st: "tidy st"
    have "foldE (\<lambda>st m. collectEffectiveMapping lib g False (insert n active) m st) st (yContent (g ! n)) = Inr st'"
      using run elements(1,2) by (subst (asm) collectEffectiveMapping.simps) (auto simp: cyclicAlias_def split: if_splits)
    then show "map_of (snd st') key = firstOf (map_of (snd st) key) r"
      using elements(4) st by blast
  qed
next
  case (nil n seqs key)
  then show ?case
    by (subst collectEffectiveMapping.simps) (auto simp: firstOf_def split: option.splits)
next
  case (dangling n seqs key)
  then show ?case
    by (subst collectEffectiveMapping.simps) (auto simp: cyclicAlias_def firstOf_def split: if_splits option.splits)
next
  case (no_mapping n seqs key)
  then show ?case
    by (subst collectEffectiveMapping.simps) (auto simp: cyclicAlias_def firstOf_def split: if_splits option.splits)
qed (auto simp: firstOf_def split: option.splits)

lemma resolve_effective:
  assumes "resolveEffectiveMapping lib g n = Inr entries" and "effective lib g False n key (Some v)"
  shows "effectiveMappingValue entries key = Some v"
proof -
  obtain seen where c: "collectEffectiveMapping lib g False {} n ({}, []) = Inr (seen, entries)"
    using assms(1) by (auto simp: resolveEffectiveMapping_def result_simps)
  have "tidy ({}, [])" by (simp add: tidy_def)
  then show ?thesis
    using collect_effective(1) [OF assms(2)] c by (fastforce simp: effectiveMappingValue_map_of firstOf_def)
qed

text \<open>
  The configuration says what the file says, and has the documented default for what it leaves out. A
  token variable or a trust file that is set is not empty.
\<close>

definition keepsProvider :: "raw_provider \<Rightarrow> provider \<Rightarrow> bool" where
  "keepsProvider p q \<longleftrightarrow>
     Kind q = rawKind p \<and> APIHost q = rawAPIHost p \<and> GitHost q = rawGitHost p \<and> SSHUser q = rawSSHUser p
     \<and> SSHPort q = (case rawSSHPort p of None \<Rightarrow> 22 | Some port \<Rightarrow> port)
     \<and> TokenEnv q = optValue (rawTokenEnv p) \<and> (present (rawTokenEnv p) \<longrightarrow> TokenEnv q \<noteq> [])
     \<and> CAFile q = optValue (rawCAFile p) \<and> (present (rawCAFile p) \<longrightarrow> CAFile q \<noteq> [])"

definition keepsRepository :: "raw_repository \<Rightarrow> repository \<Rightarrow> bool" where
  "keepsRepository r q \<longleftrightarrow>
     Provider q = rawRepoProvider r \<and> Owner q = rawOwner r \<and> Name q = rawName r
     \<and> DenyRefs (Git q) = (case rawDenyRefs (rawGit r) of None \<Rightarrow> [''refs/heads/main''] | Some refs \<Rightarrow> refs)
     \<and> DenyDeletes (Git q) = (case rawDenyDeletes (rawGit r) of None \<Rightarrow> False | Some b \<Rightarrow> b)
     \<and> MaxRefUpdates (Git q) = (case rawMaxRefUpdates (rawGit r) of None \<Rightarrow> 0 | Some n \<Rightarrow> n)"

definition keepsDuration :: "'x yaml_lib_scheme \<Rightarrow> string option \<Rightarrow> int \<Rightarrow> int \<Rightarrow> bool" where
  "keepsDuration lib text seconds d \<longleftrightarrow>
     (case text of None \<Rightarrow> d = seconds * 1000000000 | Some s \<Rightarrow> parseDuration lib s = Inr d)"

definition keepsLimits :: "'x yaml_lib_scheme \<Rightarrow> raw_limits \<Rightarrow> limits \<Rightarrow> bool" where
  "keepsLimits lib raw l \<longleftrightarrow>
     MaxConcurrentRequests l = (case rawMaxConcurrentRequests raw of None \<Rightarrow> 8 | Some n \<Rightarrow> n)
     \<and> MaxConcurrentRequestsPerPrincipal l = (case rawMaxConcurrentRequestsPerPrincipal raw of None \<Rightarrow> 4 | Some n \<Rightarrow> n)
     \<and> MaxMessageBytes l = (case rawMaxMessageBytes raw of None \<Rightarrow> 1048576 | Some n \<Rightarrow> n)
     \<and> MaxStreamChunkBytes l = (case rawMaxStreamChunkBytes raw of None \<Rightarrow> 65536 | Some n \<Rightarrow> n)
     \<and> MaxPushPrefixBytes l = (case rawMaxPushPrefixBytes raw of None \<Rightarrow> 1048576 | Some n \<Rightarrow> n)
     \<and> MaxGitBytesPerDirection l = (case rawMaxGitBytesPerDirection raw of None \<Rightarrow> 8589934592 | Some n \<Rightarrow> n)
     \<and> keepsDuration lib (rawInitialStreamTimeout raw) 5 (InitialStreamTimeout l)
     \<and> keepsDuration lib (rawOperationTimeout raw) 600 (OperationTimeout l)
     \<and> keepsDuration lib (rawIdleStreamTimeout raw) 120 (IdleStreamTimeout l)"

definition keepsConfig :: "'x yaml_lib_scheme \<Rightarrow> raw_config \<Rightarrow> config \<Rightarrow> bool" where
  "keepsConfig lib raw cfg \<longleftrightarrow>
     APIVersion cfg = rawAPIVersion raw \<and> Listen cfg = rawListen raw \<and> TLS cfg = rawTLS raw \<and> Tools cfg = rawTools raw
     \<and> list_all2 (\<lambda>(i, p) (j, q). j = i \<and> keepsProvider p q) (rawProviders raw) (Providers cfg)
     \<and> list_all2 (\<lambda>(i, r) (j, q). j = i \<and> keepsRepository r q) (rawRepositories raw) (Repositories cfg)
     \<and> Principals cfg = rawPrincipals raw \<and> keepsLimits lib (rawLimits raw) (Limits cfg)"

lemma normalizeProvider_Inr: "normalizeProvider (i, p) = Inr (j, q) \<Longrightarrow> j = i \<and> keepsProvider p q"
  by (auto simp: normalizeProvider_def keepsProvider_def orElse_def defaultSSHPort_def split: if_splits option.splits)

lemma normalizeRepository_keeps: "keepsRepository r (normalizeRepository r)"
  by (simp add: keepsRepository_def normalizeRepository_def orElse_def defaultPushPolicy_def split: option.splits)

lemma normalizeDuration_keeps:
  "normalizeDuration lib raw d = Inr d' \<Longrightarrow> d = seconds * 1000000000 \<Longrightarrow> keepsDuration lib raw seconds d'"
  by (auto simp: normalizeDuration_def keepsDuration_def split: option.splits sum.splits)

lemma normalizeLimits_keeps:
  assumes "normalizeLimits lib defaultLimits raw = Inr l"
  shows "keepsLimits lib raw l"
proof -
  obtain initial operation idle where
    "normalizeDuration lib (rawInitialStreamTimeout raw) (InitialStreamTimeout defaultLimits) = Inr initial"
    "normalizeDuration lib (rawOperationTimeout raw) (OperationTimeout defaultLimits) = Inr operation"
    "normalizeDuration lib (rawIdleStreamTimeout raw) (IdleStreamTimeout defaultLimits) = Inr idle"
    and l: "InitialStreamTimeout l = initial" "OperationTimeout l = operation" "IdleStreamTimeout l = idle"
    using assms by (auto simp: normalizeLimits_def result_simps)
  then have "keepsDuration lib (rawInitialStreamTimeout raw) 5 initial"
    "keepsDuration lib (rawOperationTimeout raw) 600 operation" "keepsDuration lib (rawIdleStreamTimeout raw) 120 idle"
    by (auto intro: normalizeDuration_keeps simp: defaultLimits_def second_def)
  with l assms show ?thesis
    by (auto simp: normalizeLimits_def result_simps keepsLimits_def orElse_def defaultLimits_def limit_defs
        split: option.splits)
qed

lemma foldE_collect:
  "foldE (\<lambda>acc x. bindE (f x) (\<lambda>y. Inr (acc @ [y]))) acc xs = Inr ys \<longleftrightarrow>
     (\<exists>zs. ys = acc @ zs \<and> list_all2 (\<lambda>x y. f x = Inr y) xs zs)"
proof (induction xs arbitrary: acc)
  case (Cons x xs)
  then show ?case
    by (cases "f x") (auto simp: list_all2_Cons1)
qed auto

lemma normalize_keeps:
  assumes "normalize lib raw = Inr cfg"
  shows "keepsConfig lib raw cfg"
proof -
  have n: "list_all2 (\<lambda>ip jq. normalizeProvider ip = Inr jq) (rawProviders raw) (Providers cfg)"
    "Repositories cfg = map (\<lambda>(i, r). (i, normalizeRepository r)) (rawRepositories raw)"
    "normalizeLimits lib defaultLimits (rawLimits raw) = Inr (Limits cfg)"
    using assms by (auto simp: normalize_def result_simps foldE_collect)
  have "list_all2 (\<lambda>(i, p) (j, q). j = i \<and> keepsProvider p q) (rawProviders raw) (Providers cfg)"
    using n(1) by (rule list_all2_mono) (use normalizeProvider_Inr in force)
  moreover have "list_all2 (\<lambda>(i, r) (j, q). j = i \<and> keepsRepository r q) (rawRepositories raw) (Repositories cfg)"
    by (auto simp: n(2) list_all2_conv_all_nth case_prod_beta normalizeRepository_keeps)
  ultimately show ?thesis
    using assms normalizeLimits_keeps [OF n(3)] by (auto simp: keepsConfig_def normalize_def result_simps)
qed

definition wfRaw :: "raw_config \<Rightarrow> bool" where
  "wfRaw raw \<longleftrightarrow> wfMap (rawProviders raw) \<and> wfMap (rawRepositories raw) \<and> wfMap (rawPrincipals raw)"

lemma list_all2_keys:
  "list_all2 (\<lambda>(i, x) (j, y). j = i \<and> P x y) xs ys \<Longrightarrow> map fst ys = map fst xs"
  by (induction rule: list_all2_induct) auto

lemma normalize_wf:
  assumes "keepsConfig lib raw cfg" and "wfRaw raw"
  shows "wfConfig cfg"
  using assms unfolding keepsConfig_def wfConfig_def wfRaw_def wfMap_def keys_def
  by (auto dest!: list_all2_keys)

lemma checkEach_Inr: "checkEach f xs = Some (Inr u) \<Longrightarrow> x \<in> set xs \<Longrightarrow> f x = Some (Inr ())"
  by (induction xs) (auto split: option.splits sum.splits)

lemma nullField_Inr:
  "nullField lib g entries field = Some (Inr u) \<Longrightarrow> effectiveMappingValue entries field = Some v \<Longrightarrow> isNullNode lib g v = Some False"
  by (auto simp: nullField_def split: if_splits)

text \<open>One alias to follow.\<close>

definition aliasOf :: "yaml_graph \<Rightarrow> nat \<Rightarrow> nat \<Rightarrow> bool" where
  "aliasOf g n m \<longleftrightarrow> n < length g \<and> yKind (g ! n) = AliasNode \<and> yAlias (g ! n) = Some m"

lemma isNullNode_follows: "(aliasOf g)\<^sup>*\<^sup>* n m \<Longrightarrow> isNullNode lib g n = isNullNode lib g m"
proof (induction rule: converse_rtranclp_induct)
  case (step n n')
  then show ?case
    by (subst isNullNode.simps) (simp add: aliasOf_def)
qed simp

lemma rejectNullProviderFields_Inr:
  assumes run: "rejectNullProviderFields lib g document = Some (Inr u)" and content: "yContent (g ! document) = root # rest"
    and path: "effective lib g False root ''providers'' (Some ps)" "effective lib g False ps name (Some v)"
      "effective lib g False v field (Some f)"
    and field: "field \<in> {''tokenEnv'', ''caFile''}"
  shows "isNullNode lib g f = Some False"
proof -
  obtain top where top: "resolveEffectiveMapping lib g root = Inr top"
    using run content by (cases "resolveEffectiveMapping lib g root") (auto simp: rejectNullProviderFields_def)
  then have "effectiveMappingValue top ''providers'' = Some ps"
    using path(1) by (rule resolve_effective)
  then obtain entries where entries: "resolveEffectiveMapping lib g ps = Inr entries"
    and each: "checkEach (\<lambda>(_, v). case resolveEffectiveMapping lib g v of Inl e \<Rightarrow> Some (Inl e)
        | Inr fs \<Rightarrow> checkEach (nullField lib g fs) [''tokenEnv'', ''caFile'']) entries = Some (Inr u)"
    using run content top by (auto simp: rejectNullProviderFields_def split: sum.splits)
  have "(name, v) \<in> set entries"
    using resolve_effective [OF entries path(2)] by (rule effectiveMappingValue_mem)
  from checkEach_Inr [OF each this] obtain fs where fs: "resolveEffectiveMapping lib g v = Inr fs"
    "checkEach (nullField lib g fs) [''tokenEnv'', ''caFile''] = Some (Inr ())"
    by (auto split: sum.splits)
  then have "nullField lib g fs field = Some (Inr ())"
    using checkEach_Inr [OF fs(2), of field] field by auto
  then show ?thesis
    using nullField_Inr resolve_effective [OF fs(1) path(3)] by blast
qed

lemma Decode_Inr:
  assumes "Decode lib (Inr bytes) = Some (Inr cfg)"
  obtains g document raw where "firstNode lib bytes = Inr (g, document)" "duplicateKey g document = Inr ()"
    "rejectNullProviderFields lib g document = Some (Inr ())" "afterFirst lib bytes = NextEOF"
    "firstRaw lib optionalString_UnmarshalYAML caFile_UnmarshalYAML bytes = Inr raw"
    "normalize lib raw = Inr cfg" "Validate cfg = Inr ()"
proof -
  have dup: "rejectDuplicateKeys lib bytes = Some (Inr ())"
    using assms by (auto simp: Decode_def split: option.splits sum.splits)
  then obtain g document where a: "firstNode lib bytes = Inr (g, document)" "duplicateKey g document = Inr ()"
    "rejectNullProviderFields lib g document = Some (Inr ())" "secondDocument lib bytes = Inr ()"
    by (auto simp: rejectDuplicateKeys_def split: option.splits sum.splits)
  then have "afterFirst lib bytes = NextEOF"
    by (auto simp: secondDocument_def split: next_document.splits)
  moreover obtain raw where "firstRaw lib optionalString_UnmarshalYAML caFile_UnmarshalYAML bytes = Inr raw"
    "normalize lib raw = Inr cfg" "Validate cfg = Inr ()"
    using assms dup by (auto simp: Decode_def result_simps split: sum.splits)
  ultimately show thesis using a that by blast
qed

text \<open>
  What the package documents of custom decoding: a field with an \<^verbatim>\<open>UnmarshalYAML\<close> method is left at its
  zero value, or is what that method made of a node of the document.
\<close>

definition unset :: optional_string where "unset = \<lparr>present = False, optValue = []\<rparr>"

definition decodedBy :: "yaml_graph \<Rightarrow> (yaml_node \<Rightarrow> optional_string result) \<Rightarrow> optional_string \<Rightarrow> bool" where
  "decodedBy g method raw \<longleftrightarrow> raw = unset \<or> (\<exists>node \<in> set g. method node = Inr raw)"

definition callbacksDocumented :: "'x yaml_lib_scheme \<Rightarrow> bool" where
  "callbacksDocumented lib \<longleftrightarrow>
     (\<forall>tokenEnv caFile bytes g document raw i p. firstNode lib bytes = Inr (g, document)
        \<and> firstRaw lib tokenEnv caFile bytes = Inr raw \<and> (i, p) \<in> set (rawProviders raw) \<longrightarrow>
        decodedBy g tokenEnv (rawTokenEnv p) \<and> decodedBy g caFile (rawCAFile p))"

text \<open>A setting of a provider: empty because it was left out, or the text of a string node of the document, and not empty.\<close>

definition stringSetting :: "yaml_graph \<Rightarrow> optional_string \<Rightarrow> string \<Rightarrow> bool" where
  "stringSetting g raw v \<longleftrightarrow>
     (if present raw then v \<noteq> [] \<and> (\<exists>node \<in> set g. yTag node = ''!!str'' \<and> yValue node = v) else v = [])"

lemma keepsProvider_settings:
  assumes "keepsProvider p q" and "decodedBy g optionalString_UnmarshalYAML (rawTokenEnv p)"
    and "decodedBy g caFile_UnmarshalYAML (rawCAFile p)"
  shows "stringSetting g (rawTokenEnv p) (TokenEnv q) \<and> stringSetting g (rawCAFile p) (CAFile q)"
proof -
  have "stringSetting g raw v"
    if "decodedBy g optionalString_UnmarshalYAML raw \<or> decodedBy g caFile_UnmarshalYAML raw" "v = optValue raw"
      "present raw \<longrightarrow> v \<noteq> []" for raw v
    using that by (auto simp: stringSetting_def decodedBy_def unset_def optionalString_UnmarshalYAML_def
      caFile_UnmarshalYAML_def split: if_splits)
  then show ?thesis
    using assms unfolding keepsProvider_def by blast
qed

text \<open>
  C38. An accepted configuration is what its file says: the file holds one document without duplicate
  keys and without alias cycles; the configuration has passed validation, and its maps have distinct
  keys if the decoder's have; every field is the decoded one, and every field that the file leaves
  out has its default: the SSH port 22, the main branch as the only denied ref, deletions allowed, no
  number of updates (which validation refuses), and the nine limits. No provider sets \<^verbatim>\<open>tokenEnv\<close> or
  \<^verbatim>\<open>caFile\<close> to null, where a provider and its fields are what the document effectively holds through
  its aliases and merge keys, and a null is found through aliases; a token variable or trust file that
  is set is the text of a string node of the document and not empty, and one that is not set is empty.
\<close>

theorem Decode_sound:
  assumes "yamlDocumented lib" and "callbacksDocumented lib" and "Decode lib (Inr bytes) = Some (Inr cfg)"
  shows "\<exists>g document raw. firstNode lib bytes = Inr (g, document)
    \<and> firstRaw lib optionalString_UnmarshalYAML caFile_UnmarshalYAML bytes = Inr raw
    \<and> afterFirst lib bytes = NextEOF
    \<and> (\<forall>m. (visits g)\<^sup>*\<^sup>* document m \<longrightarrow> uniqueKeys g m \<and> \<not> (visits g)\<^sup>+\<^sup>+ m m)
    \<and> Validate cfg = Inr () \<and> (wfRaw raw \<longrightarrow> wfConfig cfg) \<and> keepsConfig lib raw cfg
    \<and> (\<forall>root rest ps name v field f m. yContent (g ! document) = root # rest
         \<and> effective lib g False root ''providers'' (Some ps) \<and> effective lib g False ps name (Some v)
         \<and> effective lib g False v field (Some f) \<and> field \<in> {''tokenEnv'', ''caFile''}
         \<and> (aliasOf g)\<^sup>*\<^sup>* f m \<and> m < length g \<and> yKind (g ! m) \<noteq> AliasNode
         \<longrightarrow> shortTag lib (g ! m) \<noteq> ''!!null'')
    \<and> list_all2 (\<lambda>(i, p) (j, q). stringSetting g (rawTokenEnv p) (TokenEnv q) \<and> stringSetting g (rawCAFile p) (CAFile q))
        (rawProviders raw) (Providers cfg)"
proof -
  from assms(3) obtain g document raw where d: "firstNode lib bytes = Inr (g, document)" "duplicateKey g document = Inr ()"
    "rejectNullProviderFields lib g document = Some (Inr ())" "afterFirst lib bytes = NextEOF"
    "firstRaw lib optionalString_UnmarshalYAML caFile_UnmarshalYAML bytes = Inr raw"
    "normalize lib raw = Inr cfg" "Validate cfg = Inr ()"
    by (rule Decode_Inr)
  have doc: "document < length g"
    using assms(1) d(1) by (auto simp: yamlDocumented_def)
  have ok: "\<forall>m. (visits g)\<^sup>*\<^sup>* document m \<longrightarrow> uniqueKeys g m \<and> \<not> (visits g)\<^sup>+\<^sup>+ m m"
    using duplicateKeyPath_spec [OF doc, of "{}"] d(2) by (simp add: duplicateKey_def isOK_unit)
  have nulls: "shortTag lib (g ! m) \<noteq> ''!!null''"
    if path: "yContent (g ! document) = root # rest" "effective lib g False root ''providers'' (Some ps)"
      "effective lib g False ps name (Some v)" "effective lib g False v field (Some f)" "field \<in> {''tokenEnv'', ''caFile''}"
      and m: "(aliasOf g)\<^sup>*\<^sup>* f m" "m < length g" "yKind (g ! m) \<noteq> AliasNode" for root rest ps name v field f m
  proof -
    have "isNullNode lib g m = Some False"
      using rejectNullProviderFields_Inr [OF d(3) path] isNullNode_follows [OF m(1), of lib] by simp
    then show ?thesis
      using m(2,3) by (subst (asm) isNullNode.simps) simp
  qed
  note keeps = normalize_keeps [OF d(6)]
  have "list_all2 (\<lambda>(i, p) (j, q). j = i \<and> keepsProvider p q) (rawProviders raw) (Providers cfg)"
    using keeps by (simp add: keepsConfig_def)
  then have settings: "list_all2 (\<lambda>(i, p) (j, q). stringSetting g (rawTokenEnv p) (TokenEnv q) \<and> stringSetting g (rawCAFile p) (CAFile q))
        (rawProviders raw) (Providers cfg)"
    by (rule list.rel_mono_strong)
      (use assms(2) d(1,5) keepsProvider_settings in \<open>fastforce simp: callbacksDocumented_def\<close>)
  show ?thesis
    by (intro exI [of _ g] exI [of _ document] exI [of _ raw] conjI allI impI)
      (use d ok nulls keeps settings normalize_wf [OF keeps] in blast)+
qed


section \<open>A document\<close>

text \<open>
  Two providers, of which the second merges the first and overrides its token variable. The decoder is
  the one that returns this graph for every input, and the raw configuration that the example
  configuration comes from, with the token variables read from the nodes of the graph.
\<close>

definition scalar :: "string \<Rightarrow> yaml_node" where
  "scalar s = \<lparr>yKind = ScalarNode, yTag = ''!!str'', yValue = s, yAlias = None, yContent = []\<rparr>"

definition exampleGraph :: yaml_graph where
  "exampleGraph =
     [\<lparr>yKind = DocumentNode, yTag = [], yValue = [], yAlias = None, yContent = [1]\<rparr>,
      \<lparr>yKind = MappingNode, yTag = ''!!map'', yValue = [], yAlias = None, yContent = [2, 3]\<rparr>,
      scalar ''providers'',
      \<lparr>yKind = MappingNode, yTag = ''!!map'', yValue = [], yAlias = None, yContent = [4, 5, 6, 9]\<rparr>,
      scalar ''gh'',
      \<lparr>yKind = MappingNode, yTag = ''!!map'', yValue = [], yAlias = None, yContent = [7, 8]\<rparr>,
      scalar ''forge'', scalar ''tokenEnv'', scalar ''REPOWOLF_TOKEN_GH'',
      \<lparr>yKind = MappingNode, yTag = ''!!map'', yValue = [], yAlias = None, yContent = [10, 11, 12, 13]\<rparr>,
      \<lparr>yKind = ScalarNode, yTag = ''!!merge'', yValue = ''<<'', yAlias = None, yContent = []\<rparr>,
      \<lparr>yKind = AliasNode, yTag = [], yValue = ''base'', yAlias = Some 5, yContent = []\<rparr>,
      scalar ''tokenEnv'', scalar ''REPOWOLF_TOKEN_FORGE'']"

fun rawProvidersOf :: "(yaml_node \<Rightarrow> optional_string result) \<Rightarrow> provider gomap \<Rightarrow> raw_provider gomap result" where
  "rawProvidersOf tokenEnv [] = Inr []"
| "rawProvidersOf tokenEnv ((i, p) # ps) =
     bindE (tokenEnv (scalar (TokenEnv p))) (\<lambda>value.
     bindE (rawProvidersOf tokenEnv ps) (\<lambda>qs.
       Inr ((i, \<lparr>rawKind = Kind p, rawAPIHost = APIHost p, rawGitHost = GitHost p, rawSSHUser = SSHUser p,
         rawSSHPort = Some (SSHPort p), rawTokenEnv = value, rawCAFile = unset\<rparr>) # qs)))"

lemma rawProvidersOf_decoded:
  assumes "rawProvidersOf tokenEnv ps = Inr qs" and "(i, q) \<in> set qs" and "(\<lambda>p. scalar (TokenEnv (snd p))) ` set ps \<subseteq> set g"
  shows "decodedBy g tokenEnv (rawTokenEnv q) \<and> decodedBy g caFile (rawCAFile q)"
  using assms by (induction ps arbitrary: qs) (auto simp: decodedBy_def result_simps)

definition rawOf :: "config \<Rightarrow> raw_provider gomap \<Rightarrow> raw_config" where
  "rawOf cfg ps = \<lparr>rawAPIVersion = APIVersion cfg, rawListen = Listen cfg, rawTLS = TLS cfg, rawTools = Tools cfg,
     rawProviders = ps,
     rawRepositories = map (\<lambda>(i, r). (i, \<lparr>rawRepoProvider = Provider r, rawOwner = Owner r, rawName = Name r,
       rawGit = \<lparr>rawDenyRefs = None, rawDenyDeletes = Some (DenyDeletes (Git r)),
         rawMaxRefUpdates = Some (MaxRefUpdates (Git r))\<rparr>\<rparr>)) (Repositories cfg),
     rawPrincipals = Principals cfg,
     rawLimits = \<lparr>rawMaxConcurrentRequests = None, rawMaxConcurrentRequestsPerPrincipal = None,
       rawMaxMessageBytes = None, rawMaxStreamChunkBytes = None, rawMaxPushPrefixBytes = None,
       rawMaxGitBytesPerDirection = None, rawInitialStreamTimeout = None, rawOperationTimeout = None,
       rawIdleStreamTimeout = Some ''90s''\<rparr>\<rparr>"

definition yamlOf :: "config \<Rightarrow> yaml_lib" where
  "yamlOf cfg = \<lparr>shortTag = yTag, firstNode = \<lambda>_. Inr (exampleGraph, 0),
     firstRaw = \<lambda>tokenEnv _ _. bindE (rawProvidersOf tokenEnv (Providers cfg)) (\<lambda>ps. Inr (rawOf cfg ps)),
     afterFirst = \<lambda>_. NextEOF, parseDuration = \<lambda>_. Inr (90 * 1000000000)\<rparr>"

definition exampleYaml :: yaml_lib where
  "exampleYaml = yamlOf exampleConfig"

lemma exampleYaml_documented: "yamlDocumented exampleYaml"
  by (simp add: yamlDocumented_def exampleYaml_def yamlOf_def exampleGraph_def)

lemma exampleYaml_callbacks: "callbacksDocumented exampleYaml"
proof -
  have nodes: "(\<lambda>p. scalar (TokenEnv (snd p))) ` set (Providers exampleConfig) \<subseteq> set exampleGraph"
    by (simp add: exampleConfig_def exampleGraph_def)
  show ?thesis
    unfolding callbacksDocumented_def
    by (auto simp: exampleYaml_def yamlOf_def rawOf_def result_simps dest: rawProvidersOf_decoded [OF _ _ nodes])
qed

theorem duplicateKey_spec_witness:
  "duplicateKey exampleGraph 0 = Inr () \<and> uniqueKeys exampleGraph 3 \<and> \<not> (visits exampleGraph)\<^sup>+\<^sup>+ 3 3"
proof -
  have ok: "0 < length exampleGraph" "duplicateKey exampleGraph 0 = Inr ()"
    by code_simp+
  have "visits exampleGraph 0 1" "visits exampleGraph 1 3"
    by code_simp+
  then have "(visits exampleGraph)\<^sup>*\<^sup>* 0 3" by auto
  then show ?thesis using duplicateKey_spec [OF ok(1)] ok(2) by blast
qed

theorem Decode_returns_witness: "\<exists>r. Decode exampleYaml (Inr ''providers'') = Some r"
  by (rule Decode_returns [OF exampleYaml_documented])

definition exampleDecoded :: "bool \<times> int" where
  "exampleDecoded = (case Decode exampleYaml (Inr []) of Some (Inr cfg) \<Rightarrow> (True, IdleStreamTimeout (Limits cfg)) | _ \<Rightarrow> (False, 0))"

lemma exampleDecoded_ok: "exampleDecoded = (True, 90000000000)"
  by code_simp

theorem Decode_sound_witness:
  "\<exists>cfg raw. Decode exampleYaml (Inr []) = Some (Inr cfg) \<and> Validate cfg = Inr () \<and> keepsConfig exampleYaml raw cfg
     \<and> rawOperationTimeout (rawLimits raw) = None \<and> OperationTimeout (Limits cfg) = 600 * 1000000000"
proof -
  obtain cfg where cfg: "Decode exampleYaml (Inr []) = Some (Inr cfg)"
    using exampleDecoded_ok by (auto simp: exampleDecoded_def split: option.splits sum.splits)
  from Decode_sound [OF exampleYaml_documented exampleYaml_callbacks cfg] obtain raw
    where raw: "firstRaw exampleYaml optionalString_UnmarshalYAML caFile_UnmarshalYAML [] = Inr raw"
      "Validate cfg = Inr ()" "keepsConfig exampleYaml raw cfg" by blast
  have none: "rawOperationTimeout (rawLimits raw) = None"
    using raw(1) by (auto simp: exampleYaml_def yamlOf_def rawOf_def result_simps)
  have "OperationTimeout (Limits cfg) = 600 * 1000000000"
    using raw(3) unfolding keepsConfig_def keepsLimits_def keepsDuration_def none by simp
  with cfg raw(2,3) none show ?thesis by blast
qed

end
