(* ===== verification/Credentials.thy ===== *)
theory Credentials
  imports Auth Policy
begin

text \<open>
  Package \<^verbatim>\<open>internal/credentials\<close>: the credentials of all principals and providers, read from the
  environment once at startup (\<^verbatim>\<open>load.go\<close>) into a snapshot (\<^verbatim>\<open>snapshot.go\<close>).

  The environment is a function that may change its answers: it takes and returns the state \<open>'s\<close> of
  the world. \<^verbatim>\<open>cachedLookup\<close> keeps the first answer for each name in the closure's map, which is the
  field \<open>cache\<close> of the state below. A nil \<^verbatim>\<open>LookupEnv\<close> is \<^term>\<open>None\<close>.
\<close>

type_synonym 's lookup_env = "(string \<Rightarrow> 's \<Rightarrow> string option \<times> 's) option"

record provider_credential =
  credValue :: string
  credEnvironment :: string
  legacy :: bool

record 'd cred_snapshot =
  authIndex :: "'d index"
  credProviders :: "provider_credential gomap"
  environments :: "string list"

text \<open>The local variables of \<^verbatim>\<open>Load\<close> and the map captured by \<^verbatim>\<open>read\<close>.\<close>

record ('s, 'd) load_state =
  cache :: "string \<rightharpoonup> string option"
  world :: 's
  seen :: "'d \<rightharpoonup> string"
  tokenValues :: "string list gomap"
  loadedProviders :: "provider_credential gomap"
  loadedEnvironments :: "string list"

definition cachedLookup ::
  "'s lookup_env \<Rightarrow> string \<Rightarrow> ('s, 'd) load_state \<Rightarrow> string option \<times> ('s, 'd) load_state" where
  "cachedLookup lookup name st =
     (case cache st name of
        Some answer \<Rightarrow> (answer, st)
      | None \<Rightarrow>
          (case (case lookup of None \<Rightarrow> (None, world st) | Some f \<Rightarrow> f name (world st)) of (answer, w) \<Rightarrow>
             (answer, st\<lparr>cache := (cache st)(name \<mapsto> answer), world := w\<rparr>)))"

definition addValue ::
  "(string \<Rightarrow> 'd) \<Rightarrow> string \<Rightarrow> string \<Rightarrow> ('s, 'd) load_state \<Rightarrow> ('s, 'd) load_state result" where
  "addValue sha val source st =
     (case seen st (sha val) of
        Some previous \<Rightarrow>
          Inl (Errorf ''credential source %q duplicates credential source %q'' [ArgS source, ArgS previous])
      | None \<Rightarrow> Inr (st\<lparr>seen := (seen st)(sha val \<mapsto> source)\<rparr>))"

text \<open>The body of the loop over a principal's token environments.\<close>

definition loadToken ::
  "(string \<Rightarrow> 'd) \<Rightarrow> 's lookup_env \<Rightarrow> ('s, 'd) load_state \<Rightarrow> string \<times> string \<Rightarrow> ('s, 'd) load_state result" where
  "loadToken sha lookup st idn =
     (case idn of (pid, name) \<Rightarrow>
      case cachedLookup lookup name st of (answer, st1) \<Rightarrow>
        case answer of
          None \<Rightarrow> Inl (Errorf ''token environment %q is missing'' [ArgS name])
        | Some val \<Rightarrow>
            if val = [] then Inl (Errorf ''token environment %q is empty'' [ArgS name])
            else if \<not> ValidToken val
            then Inl (Errorf ''token environment %q has an invalid token'' [ArgS name])
            else bindE (addValue sha val name st1) (\<lambda>st2.
              Inr (st2\<lparr>tokenValues := mapSet pid (mapGet [] (tokenValues st2) pid @ [val]) (tokenValues st2),
                       loadedEnvironments := loadedEnvironments st2 @ [name]\<rparr>)))"

definition legacyGHToken :: string where
  "legacyGHToken = ''GH_TOKEN''"

definition legacyGitHubToken :: string where
  "legacyGitHubToken = ''GITHUB_TOKEN''"

definition legacyCredential ::
  "(string \<Rightarrow> 'd) \<Rightarrow> string \<Rightarrow> string \<Rightarrow> string \<Rightarrow> ('s, 'd) load_state
     \<Rightarrow> (provider_credential \<times> ('s, 'd) load_state) result" where
  "legacyCredential sha pid name val st =
     (if val = [] then Inl (Errorf ''provider %q token environment %q is empty'' [ArgS pid, ArgS name])
      else bindE (addValue sha val name st) (\<lambda>st'.
        Inr (\<lparr>credValue = val, credEnvironment = name, legacy = True\<rparr>, st')))"

definition loadLegacyGitHubToken ::
  "(string \<Rightarrow> 'd) \<Rightarrow> 's lookup_env \<Rightarrow> string \<Rightarrow> ('s, 'd) load_state
     \<Rightarrow> (provider_credential \<times> ('s, 'd) load_state) result" where
  "loadLegacyGitHubToken sha lookup pid st =
     (case cachedLookup lookup legacyGHToken st of (gh, st1) \<Rightarrow>
      case cachedLookup lookup legacyGitHubToken st1 of (github, st2) \<Rightarrow>
        case (gh, github) of
          (Some _, Some _) \<Rightarrow>
            Inl (Errorf ''provider %q has both legacy token environments %q and %q''
              [ArgS pid, ArgS legacyGHToken, ArgS legacyGitHubToken])
        | (Some val, None) \<Rightarrow> legacyCredential sha pid legacyGHToken val st2
        | (None, Some val) \<Rightarrow> legacyCredential sha pid legacyGitHubToken val st2
        | (None, None) \<Rightarrow>
            Inl (Errorf ''provider %q requires %q or %q'' [ArgS pid, ArgS legacyGHToken, ArgS legacyGitHubToken]))"

definition addCredential ::
  "string \<Rightarrow> provider_credential \<Rightarrow> ('s, 'd) load_state \<Rightarrow> ('s, 'd) load_state" where
  "addCredential pid cred st =
     st\<lparr>loadedProviders := mapSet pid cred (loadedProviders st),
        loadedEnvironments := loadedEnvironments st @ [credEnvironment cred]\<rparr>"

text \<open>The body of the loop over the providers.\<close>

definition loadProvider ::
  "(string \<Rightarrow> 'd) \<Rightarrow> 's lookup_env \<Rightarrow> ('s, 'd) load_state \<Rightarrow> string \<times> provider \<Rightarrow> ('s, 'd) load_state result" where
  "loadProvider sha lookup st idp =
     (case idp of (pid, p) \<Rightarrow>
        if Kind p = ProviderGitHub \<and> TokenEnv p = [] then
          bindE (loadLegacyGitHubToken sha lookup pid st) (\<lambda>(cred, st'). Inr (addCredential pid cred st'))
        else if TokenEnv p = [] then Inl (Errorf ''provider %q has no token environment'' [ArgS pid])
        else case cachedLookup lookup (TokenEnv p) st of (answer, st1) \<Rightarrow>
          case answer of
            None \<Rightarrow> Inl (Errorf ''provider %q token environment %q is missing'' [ArgS pid, ArgS (TokenEnv p)])
          | Some val \<Rightarrow>
              if val = []
              then Inl (Errorf ''provider %q token environment %q is empty'' [ArgS pid, ArgS (TokenEnv p)])
              else bindE (addValue sha val (TokenEnv p) st1) (\<lambda>st2.
                Inr (addCredential pid
                  \<lparr>credValue = val, credEnvironment = TokenEnv p, legacy = False\<rparr> st2)))"

definition loadStart :: "'s \<Rightarrow> ('s, 'd) load_state" where
  "loadStart w =
     \<lparr>cache = Map.empty, world = w, seen = Map.empty, tokenValues = [], loadedProviders = [],
      loadedEnvironments = []\<rparr>"

definition tokenNames :: "principal gomap \<Rightarrow> (string \<times> string) list" where
  "tokenNames ps =
     concat (map (\<lambda>pid. case map_of ps pid of None \<Rightarrow> [] | Some p \<Rightarrow> map (Pair pid) (TokenEnvs p)) (sortedIDs ps))"

definition sortedProviders :: "provider gomap \<Rightarrow> (string \<times> provider) list" where
  "sortedProviders ps =
     concat (map (\<lambda>pid. case map_of ps pid of None \<Rightarrow> [] | Some p \<Rightarrow> [(pid, p)]) (sortedIDs ps))"

text \<open>\<^verbatim>\<open>Load\<close>, with the state of the world after it.\<close>

definition Load ::
  "(string \<Rightarrow> 'd) \<Rightarrow> config \<Rightarrow> 's lookup_env \<Rightarrow> 's \<Rightarrow> ('d cred_snapshot \<times> 's) result" where
  "Load sha cfg lookup w =
     bindE (foldE (loadToken sha lookup) (loadStart w) (tokenNames (Principals cfg))) (\<lambda>st1.
     bindE (NewIndex sha (tokenValues st1)) (\<lambda>index.
     bindE (foldE (loadProvider sha lookup) st1 (sortedProviders (Providers cfg))) (\<lambda>st2.
     Inr (\<lparr>authIndex = index, credProviders = loadedProviders st2,
           environments = sort (loadedEnvironments st2)\<rparr>, world st2))))"

text \<open>The accessors of the snapshot; \<^term>\<open>None\<close> is a nil snapshot.\<close>

definition AuthIndex :: "'d cred_snapshot option \<Rightarrow> 'd index option" where
  "AuthIndex sn = map_option authIndex sn"

definition ProviderToken :: "'d cred_snapshot option \<Rightarrow> string \<Rightarrow> string option" where
  "ProviderToken sn pid =
     (case sn of None \<Rightarrow> None | Some s \<Rightarrow> map_option credValue (map_of (credProviders s) pid))"

definition EnvironmentNames :: "'d cred_snapshot option \<Rightarrow> string list" where
  "EnvironmentNames sn = (case sn of None \<Rightarrow> [] | Some s \<Rightarrow> environments s)"

definition UsesLegacyProviderToken :: "'d cred_snapshot option \<Rightarrow> string \<Rightarrow> bool" where
  "UsesLegacyProviderToken sn pid =
     (case sn of None \<Rightarrow> False
      | Some s \<Rightarrow> (case map_of (credProviders s) pid of None \<Rightarrow> False | Some c \<Rightarrow> legacy c))"


section \<open>No credential is used twice\<close>

definition tokensOf :: "('s, 'd) load_state \<Rightarrow> string list" where
  "tokensOf st = concat (map snd (tokenValues st))"

definition secretsOf :: "provider_credential gomap \<Rightarrow> string list" where
  "secretsOf ps = map (\<lambda>(_, c). credValue c) ps"

definition separate :: "(string \<Rightarrow> 'd) \<Rightarrow> ('s, 'd) load_state \<Rightarrow> bool" where
  "separate sha st =
     (distinct (map sha (tokensOf st @ secretsOf (loadedProviders st)))
      \<and> sha ` set (tokensOf st @ secretsOf (loadedProviders st)) \<subseteq> dom (seen st))"

lemma cachedLookup_same:
  assumes "cachedLookup lookup name st = (answer, st')"
  shows "seen st' = seen st" "tokenValues st' = tokenValues st" "loadedProviders st' = loadedProviders st"
    "loadedEnvironments st' = loadedEnvironments st"
  using assms by (auto simp: cachedLookup_def split: option.splits prod.splits)

lemma addValue_Inr:
  "addValue sha v source st = Inr st' \<longleftrightarrow>
     sha v \<notin> dom (seen st) \<and> st' = st\<lparr>seen := (seen st)(sha v \<mapsto> source)\<rparr>"
  by (auto simp: addValue_def split: option.splits)

lemma mset_concat_mapSet:
  "mset (concat (map snd (mapSet k (mapGet [] m k @ [v]) m))) = add_mset v (mset (concat (map snd m)))"
  by (induction m) (auto simp: mapGet_def)

lemma secretsOf_simps [simp]: "secretsOf [] = []" "secretsOf ((k, c) # m) = credValue c # secretsOf m"
  by (simp_all add: secretsOf_def)

lemma secretsOf_mapSet_set: "set (secretsOf (mapSet k c m)) \<subseteq> insert (credValue c) (set (secretsOf m))"
  by (induction k c m rule: mapSet.induct) auto

lemma secretsOf_mapSet_distinct:
  "distinct (map sha (secretsOf m)) \<Longrightarrow> sha (credValue c) \<notin> sha ` set (secretsOf m) \<Longrightarrow>
     distinct (map sha (secretsOf (mapSet k c m)))"
proof (induction k c m rule: mapSet.induct)
  case (2 k c k' c' m)
  show ?case
  proof (cases "k' = k")
    case False
    have "sha ` set (secretsOf (mapSet k c m)) \<subseteq> insert (sha (credValue c)) (sha ` set (secretsOf m))"
      using secretsOf_mapSet_set [of k c m] by blast
    then have "sha (credValue c') \<notin> sha ` set (secretsOf (mapSet k c m))"
      using 2 by auto
    with False 2 show ?thesis by simp
  qed (use 2 in simp)
qed simp

lemma loadToken_separate:
  assumes "loadToken sha lookup st idn = Inr st'" and sep: "separate sha st"
  shows "separate sha st'"
proof -
  obtain pid name where idn: "idn = (pid, name)" by force
  obtain answer st1 where c: "cachedLookup lookup name st = (answer, st1)" by force
  note same = cachedLookup_same [OF c]
  from assms(1) idn c obtain v where v: "sha v \<notin> dom (seen st)"
    and st': "st' = st1\<lparr>seen := (seen st1)(sha v \<mapsto> name),
      tokenValues := mapSet pid (mapGet [] (tokenValues st) pid @ [v]) (tokenValues st),
      loadedEnvironments := loadedEnvironments st1 @ [name]\<rparr>"
    using same by (auto simp: loadToken_def result_simps addValue_Inr split: option.splits if_splits)
  have "mset (tokensOf st') = add_mset v (mset (tokensOf st))"
    by (simp add: st' tokensOf_def mset_concat_mapSet)
  then have m: "mset (map sha (tokensOf st' @ secretsOf (loadedProviders st'))) =
      mset (map sha (v # tokensOf st @ secretsOf (loadedProviders st)))"
    by (simp add: st' same)
  have "sha v \<notin> sha ` set (tokensOf st @ secretsOf (loadedProviders st))"
    using v sep by (auto simp: separate_def)
  then have "distinct (map sha (v # tokensOf st @ secretsOf (loadedProviders st)))"
    using sep unfolding separate_def list.map distinct.simps set_map by blast
  then have "distinct (map sha (tokensOf st' @ secretsOf (loadedProviders st')))"
    using m mset_eq_imp_distinct_iff by blast
  moreover have "sha ` set (tokensOf st' @ secretsOf (loadedProviders st')) =
      insert (sha v) (sha ` set (tokensOf st @ secretsOf (loadedProviders st)))"
    using mset_eq_setD [OF m] by (simp add: image_Un)
  ultimately show ?thesis
    using sep by (auto simp: separate_def st' same)
qed

lemma disjoint_grow: "A \<inter> B = {} \<Longrightarrow> B' \<subseteq> insert x B \<Longrightarrow> x \<notin> A \<Longrightarrow> A \<inter> B' = {}"
  by blast

lemma addCredential_separate:
  assumes sep: "separate sha st" and same: "tokenValues st1 = tokenValues st" "seen st1 = seen st"
    "loadedProviders st1 = loadedProviders st"
    and new: "addValue sha v source st1 = Inr st2" and c: "credValue c = v"
  shows "separate sha (addCredential pid c st2)"
proof -
  have st2: "st2 = st1\<lparr>seen := (seen st)(sha v \<mapsto> source)\<rparr>" "sha v \<notin> dom (seen st)"
    using new same by (simp_all add: addValue_Inr)
  let ?T = "tokensOf st" let ?P = "secretsOf (loadedProviders st)"
  let ?P' = "secretsOf (mapSet pid c (loadedProviders st))"
  have fresh: "sha v \<notin> sha ` set ?T" "sha v \<notin> sha ` set ?P"
    using sep st2(2) by (auto simp: separate_def)
  have P': "distinct (map sha ?P')" "set ?P' \<subseteq> insert v (set ?P)"
    using sep fresh c secretsOf_mapSet_distinct [of sha "loadedProviders st" c pid]
      secretsOf_mapSet_set [of pid c "loadedProviders st"]
    by (auto simp: separate_def)
  have T: "sha ` set ?T \<inter> sha ` set ?P = {}" "distinct (map sha ?T)"
    using sep by (simp_all add: separate_def)
  have "sha ` set ?P' \<subseteq> insert (sha v) (sha ` set ?P)"
    using P'(2) by blast
  then have "sha ` set ?T \<inter> sha ` set ?P' = {}"
    using T(1) fresh(1) disjoint_grow by metis
  then have "distinct (map sha (?T @ ?P'))"
    using P'(1) T(2) by simp
  moreover have "sha ` set (?T @ ?P') \<subseteq> insert (sha v) (dom (seen st))"
    using sep P'(2) unfolding separate_def set_append by blast
  moreover have "tokensOf (addCredential pid c st2) = ?T"
    "loadedProviders (addCredential pid c st2) = mapSet pid c (loadedProviders st)"
    "seen (addCredential pid c st2) = (seen st)(sha v \<mapsto> source)"
    by (simp_all add: addCredential_def st2 same tokensOf_def)
  ultimately show ?thesis
    by (simp add: separate_def)
qed

lemma legacyCredential_Inr:
  "legacyCredential sha pid name v st = Inr (c, st') \<Longrightarrow>
     addValue sha v name st = Inr st' \<and> c = \<lparr>credValue = v, credEnvironment = name, legacy = True\<rparr> \<and> v \<noteq> []"
  by (auto simp: legacyCredential_def result_simps split: if_splits)

text \<open>A provider that is loaded gets one credential, whose value was not seen before.\<close>

lemma loadProvider_Inr:
  assumes "loadProvider sha lookup st (pid, p) = Inr st'"
  shows "\<exists>st1 st2 c. tokenValues st1 = tokenValues st \<and> seen st1 = seen st \<and> loadedProviders st1 = loadedProviders st
    \<and> addValue sha (credValue c) (credEnvironment c) st1 = Inr st2 \<and> st' = addCredential pid c st2"
proof (cases "Kind p = ProviderGitHub \<and> TokenEnv p = []")
  case True
  obtain gh st1 github st2 where c: "cachedLookup lookup legacyGHToken st = (gh, st1)"
    "cachedLookup lookup legacyGitHubToken st1 = (github, st2)"
    by (metis surj_pair)
  note same = cachedLookup_same [OF c(1)] cachedLookup_same [OF c(2)]
  from assms True c obtain name v cred st3
    where l: "legacyCredential sha pid name v st2 = Inr (cred, st3)" and st': "st' = addCredential pid cred st3"
    by (cases gh; cases github) (auto simp: loadProvider_def loadLegacyGitHubToken_def result_simps)
  from legacyCredential_Inr [OF l] st' same show ?thesis
    by (intro exI [of _ st2] exI [of _ st3] exI [of _ cred]) simp
next
  case False
  obtain answer st1 where c: "cachedLookup lookup (TokenEnv p) st = (answer, st1)" by force
  from assms False c obtain v st2
    where "addValue sha v (TokenEnv p) st1 = Inr st2"
      "st' = addCredential pid \<lparr>credValue = v, credEnvironment = TokenEnv p, legacy = False\<rparr> st2"
    by (auto simp: loadProvider_def result_simps split: option.splits if_splits)
  with cachedLookup_same [OF c] show ?thesis
    by (intro exI [of _ st1] exI [of _ st2] exI [of _ "\<lparr>credValue = v, credEnvironment = TokenEnv p, legacy = False\<rparr>"])
      simp
qed

lemma loadProvider_separate:
  assumes "loadProvider sha lookup st idp = Inr st'" and "separate sha st"
  shows "separate sha st'"
proof (cases idp)
  case (Pair pid p)
  with assms(1) loadProvider_Inr obtain st1 st2 c where
    "tokenValues st1 = tokenValues st" "seen st1 = seen st" "loadedProviders st1 = loadedProviders st"
    "addValue sha (credValue c) (credEnvironment c) st1 = Inr st2" "st' = addCredential pid c st2"
    by blast
  with addCredential_separate [OF assms(2)] show ?thesis by blast
qed

lemma loadProvider_tokenValues:
  assumes "loadProvider sha lookup st idp = Inr st'"
  shows "tokenValues st' = tokenValues st"
proof (cases idp)
  case (Pair pid p)
  with assms loadProvider_Inr obtain st1 st2 c where
    "tokenValues st1 = tokenValues st" "addValue sha (credValue c) (credEnvironment c) st1 = Inr st2"
    "st' = addCredential pid c st2"
    by blast
  then show ?thesis by (auto simp: addValue_Inr addCredential_def)
qed

lemma foldE_invariant:
  "foldE f s xs = Inr s' \<Longrightarrow> P s \<Longrightarrow> (\<And>s x s'. f s x = Inr s' \<Longrightarrow> P s \<Longrightarrow> P s') \<Longrightarrow> P s'"
  by (induction xs arbitrary: s) (auto simp: result_simps)

lemma Load_Inr:
  assumes "Load sha cfg lookup w = Inr (sn, w')"
  shows "\<exists>st1 st2. foldE (loadToken sha lookup) (loadStart w) (tokenNames (Principals cfg)) = Inr st1
    \<and> NewIndex sha (tokenValues st1) = Inr (authIndex sn)
    \<and> foldE (loadProvider sha lookup) st1 (sortedProviders (Providers cfg)) = Inr st2
    \<and> credProviders sn = loadedProviders st2 \<and> environments sn = sort (loadedEnvironments st2) \<and> w' = world st2"
  using assms by (auto simp: Load_def result_simps)

text \<open>
  C25. No secret serves two purposes: after a successful \<^verbatim>\<open>Load\<close>, whatever the environment answered
  and whatever the digest function is, the bearer tokens behind the authentication index and the
  provider tokens are pairwise different. A client token is never also a provider's token, and no
  two providers or principals share one.
\<close>

theorem Load_separates_secrets:
  assumes "Load sha cfg lookup w = Inr (sn, w')"
  shows "\<exists>tokens. NewIndex sha tokens = Inr (authIndex sn)
    \<and> distinct (concat (map snd tokens) @ map (\<lambda>(_, c). credValue c) (credProviders sn))"
proof -
  obtain st1 st2 where st1: "foldE (loadToken sha lookup) (loadStart w) (tokenNames (Principals cfg)) = Inr st1"
    and ix: "NewIndex sha (tokenValues st1) = Inr (authIndex sn)"
    and st2: "foldE (loadProvider sha lookup) st1 (sortedProviders (Providers cfg)) = Inr st2"
    and sn: "credProviders sn = loadedProviders st2"
    using Load_Inr [OF assms] by blast
  have "separate sha (loadStart w)"
    by (simp add: separate_def tokensOf_def secretsOf_def loadStart_def)
  with st1 have "separate sha st1"
    using loadToken_separate by (rule foldE_invariant)
  with st2 have "separate sha st2"
    using loadProvider_separate by (rule foldE_invariant)
  then have "distinct (tokensOf st2 @ secretsOf (loadedProviders st2))"
    unfolding separate_def distinct_map by blast
  moreover have "tokenValues st2 = tokenValues st1"
    using foldE_invariant [OF st2, of "\<lambda>st. tokenValues st = tokenValues st1"] loadProvider_tokenValues by fastforce
  ultimately show ?thesis
    using ix sn by (auto simp: tokensOf_def secretsOf_def intro!: exI [of _ "tokenValues st1"])
qed


text \<open>An environment with a valid token for the principal of the example and one token per provider.\<close>

definition exampleEnv :: "string \<Rightarrow> string option" where
  "exampleEnv name =
     (if name = ''REPOWOLF_TOKEN_AGENT'' then Some (exampleToken CHR ''a'')
      else if name = ''REPOWOLF_TOKEN_GH'' then Some ''gh-secret''
      else if name = ''REPOWOLF_TOKEN_FORGE'' then Some ''forge-secret'' else None)"

text \<open>An environment whose answers do not change.\<close>

definition fixedEnv :: "(string \<Rightarrow> string option) \<Rightarrow> unit lookup_env" where
  "fixedEnv env = Some (\<lambda>name w. (env name, w))"

lemma example_Load: "\<exists>sn. Load (\<lambda>s. s) exampleConfig (fixedEnv exampleEnv) () = Inr (sn, ())"
proof -
  have "isOK (Load (\<lambda>s. s) exampleConfig (fixedEnv exampleEnv) ())"
    by code_simp
  then show ?thesis by (auto simp: isOK_iff)
qed

theorem Load_separates_secrets_witness:
  "\<exists>sn tokens. Load (\<lambda>s. s) exampleConfig (fixedEnv exampleEnv) () = Inr (sn, ())
     \<and> NewIndex (\<lambda>s. s) tokens = Inr (authIndex sn)
     \<and> distinct (concat (map snd tokens) @ map (\<lambda>(_, c). credValue c) (credProviders sn))"
proof -
  obtain sn where *: "Load (\<lambda>s. s) exampleConfig (fixedEnv exampleEnv) () = Inr (sn, ())"
    using example_Load by blast
  with Load_separates_secrets [OF *] show ?thesis by blast
qed


section \<open>What is loaded\<close>

definition consistent :: "(string \<Rightarrow> string option) \<Rightarrow> ('s, 'd) load_state \<Rightarrow> bool" where
  "consistent env st = (\<forall>n a. cache st n = Some a \<longrightarrow> a = env n)"

lemma cachedLookup_fixedEnv:
  assumes "cachedLookup (fixedEnv env) n st = (a, st')" and "consistent env st"
  shows "a = env n \<and> consistent env st'"
  using assms by (auto simp: cachedLookup_def fixedEnv_def consistent_def split: option.splits if_splits)

lemma loadToken_fixedEnv:
  assumes "loadToken sha (fixedEnv env) st (pid, n) = Inr st'" and "consistent env st"
  shows "\<exists>v. env n = Some v \<and> consistent env st'
    \<and> tokenValues st' = mapSet pid (mapGet [] (tokenValues st) pid @ [v]) (tokenValues st)"
proof -
  obtain a st1 where c: "cachedLookup (fixedEnv env) n st = (a, st1)" by force
  from cachedLookup_fixedEnv [OF c assms(2)] have a: "a = env n" "consistent env st1" by simp_all
  from assms(1) c a(1) cachedLookup_same(2) [OF c] show ?thesis
    using a(2) by (auto simp: loadToken_def result_simps addValue_Inr consistent_def
        split: option.splits if_splits)
qed

lemma foldE_loadToken_fixedEnv:
  "foldE (loadToken sha (fixedEnv env)) st names = Inr st' \<Longrightarrow> consistent env st \<Longrightarrow>
     consistent env st' \<and> (\<forall>q v. v \<in> set (mapGet [] (tokenValues st') q) \<longleftrightarrow>
       v \<in> set (mapGet [] (tokenValues st) q) \<or> (\<exists>n. (q, n) \<in> set names \<and> env n = Some v))"
proof (induction names arbitrary: st)
  case (Cons x names)
  obtain pid n where x: "x = (pid, n)" by force
  from Cons.prems(1) x obtain st1 where st1: "loadToken sha (fixedEnv env) st (pid, n) = Inr st1"
    and rest: "foldE (loadToken sha (fixedEnv env)) st1 names = Inr st'"
    by (auto simp: result_simps)
  from loadToken_fixedEnv [OF st1 Cons.prems(2)] obtain v where v: "env n = Some v" "consistent env st1"
    "tokenValues st1 = mapSet pid (mapGet [] (tokenValues st) pid @ [v]) (tokenValues st)"
    by blast
  have "set (mapGet [] (tokenValues st1) q) =
      (if q = pid then insert v (set (mapGet [] (tokenValues st) q)) else set (mapGet [] (tokenValues st) q))" for q
    by (auto simp: v(3) mapGet_def split: option.splits)
  with Cons.IH [OF rest v(2)] v(1) x show ?case by auto
qed simp

lemma set_tokenNames:
  "(q, n) \<in> set (tokenNames ps) \<longleftrightarrow> (\<exists>p. map_of ps q = Some p \<and> n \<in> set (TokenEnvs p))"
proof
  assume "\<exists>p. map_of ps q = Some p \<and> n \<in> set (TokenEnvs p)"
  then obtain p where p: "map_of ps q = Some p" "n \<in> set (TokenEnvs p)" by blast
  then have "q \<in> set (sortedIDs ps)"
    using map_of_keys [of q ps] by simp
  moreover have "(q, n) \<in> set (case map_of ps q of None \<Rightarrow> [] | Some p \<Rightarrow> map (Pair q) (TokenEnvs p))"
    using p by simp
  ultimately show "(q, n) \<in> set (tokenNames ps)"
    unfolding tokenNames_def set_concat set_map by blast
qed (auto simp: tokenNames_def split: option.splits, metis)

text \<open>The tokens behind the index are the values of the configured variables.\<close>

lemma Load_index:
  assumes "Load sha cfg (fixedEnv env) () = Inr (sn, ())"
  obtains tokens where "NewIndex sha tokens = Inr (authIndex sn)"
    "\<And>q v. v \<in> set (mapGet [] tokens q) \<longleftrightarrow>
      (\<exists>p n. map_of (Principals cfg) q = Some p \<and> n \<in> set (TokenEnvs p) \<and> env n = Some v)"
proof -
  obtain st where st: "foldE (loadToken sha (fixedEnv env)) (loadStart ()) (tokenNames (Principals cfg)) = Inr st"
    and ix: "NewIndex sha (tokenValues st) = Inr (authIndex sn)"
    using Load_Inr [OF assms(1)] by blast
  have "consistent env (loadStart ())"
    by (simp add: consistent_def loadStart_def)
  then have "v \<in> set (mapGet [] (tokenValues st) q) \<longleftrightarrow>
      (\<exists>p n. map_of (Principals cfg) q = Some p \<and> n \<in> set (TokenEnvs p) \<and> env n = Some v)" for q v
    using foldE_loadToken_fixedEnv [OF st] set_tokenNames by (force simp: loadStart_def mapGet_def)
  then show thesis using that ix by blast
qed

text \<open>Whoever authenticates presents the digest of such a value.\<close>

lemma authenticated_by_variable:
  assumes "Load sha cfg (fixedEnv env) () = Inr (sn, ())" and "Authenticate sha (AuthIndex (Some sn)) t = Some who"
  shows "\<exists>p n v. map_of (Principals cfg) who = Some p \<and> n \<in> set (TokenEnvs p) \<and> env n = Some v
    \<and> tokenDigest sha v = tokenDigest sha t"
proof -
  obtain tokens where ix: "NewIndex sha tokens = Inr (authIndex sn)"
    and mem: "\<And>q v. v \<in> set (mapGet [] tokens q) \<longleftrightarrow>
      (\<exists>p n. map_of (Principals cfg) q = Some p \<and> n \<in> set (TokenEnvs p) \<and> env n = Some v)"
    using assms(1) by (rule Load_index) blast
  obtain v where "v \<in> set (mapGet [] tokens who)" "tokenDigest sha v = tokenDigest sha t"
    using assms(2) unfolding AuthIndex_def option.map Authenticate_iff [OF ix] by force
  then show ?thesis unfolding mem by blast
qed

text \<open>
  The tokens of a principal are those of its own environment variables. With an environment that
  does not change, a caller authenticates through the loaded index as a principal exactly by
  presenting the value of one of the variables configured for that principal (provided the digest
  does not collide on it and a configured token).
\<close>

theorem Load_authenticates:
  assumes "Load sha cfg (fixedEnv env) () = Inr (sn, ())"
    and "\<forall>q p n v. map_of (Principals cfg) q = Some p \<longrightarrow> n \<in> set (TokenEnvs p) \<longrightarrow> env n = Some v \<longrightarrow>
      tokenDigest sha v = tokenDigest sha t \<longrightarrow> v = t"
  shows "Authenticate sha (AuthIndex (Some sn)) t = Some who \<longleftrightarrow>
    (\<exists>p n. map_of (Principals cfg) who = Some p \<and> n \<in> set (TokenEnvs p) \<and> env n = Some t)"
proof -
  obtain tokens where ix: "NewIndex sha tokens = Inr (authIndex sn)"
    and mem: "\<And>q v. v \<in> set (mapGet [] tokens q) \<longleftrightarrow>
      (\<exists>p n. map_of (Principals cfg) q = Some p \<and> n \<in> set (TokenEnvs p) \<and> env n = Some v)"
    using assms(1) by (rule Load_index) blast
  have "\<forall>q v. v \<in> set (mapGet [] tokens q) \<longrightarrow> tokenDigest sha v = tokenDigest sha t \<longrightarrow> v = t"
    using assms(2) unfolding mem by blast
  then have tok: "Authenticate sha (Some (authIndex sn)) t = Some who \<longleftrightarrow> t \<in> set (mapGet [] tokens who)"
    using Authenticate_iff [OF ix, of t who] NewIndex_Inr(3) [OF ix] by (metis option.exhaust)
  show ?thesis
    using tok by (simp add: AuthIndex_def mem)
qed

theorem Load_authenticates_witness:
  "\<exists>sn. Load (\<lambda>s. s) exampleConfig (fixedEnv exampleEnv) () = Inr (sn, ())
     \<and> Authenticate (\<lambda>s. s) (AuthIndex (Some sn)) (exampleToken CHR ''a'') = Some ''agent''"
proof -
  obtain sn where sn: "Load (\<lambda>s. s) exampleConfig (fixedEnv exampleEnv) () = Inr (sn, ())"
    using example_Load by blast
  have "tokenDigest (\<lambda>s. s) (exampleToken CHR ''a'') = Some (replicate 32 CHR ''a'')"
    by code_simp
  then have nc: "tokenDigest (\<lambda>s. s) v = tokenDigest (\<lambda>s. s) (exampleToken CHR ''a'') \<longrightarrow> v = exampleToken CHR ''a''" for v
    by (simp only:) (auto simp: exampleToken_def tokenDigest_Some)
  have "map_of (Principals exampleConfig) ''agent'' = Some (snd (hd (Principals exampleConfig)))"
    "''REPOWOLF_TOKEN_AGENT'' \<in> set (TokenEnvs (snd (hd (Principals exampleConfig))))"
    "exampleEnv ''REPOWOLF_TOKEN_AGENT'' = Some (exampleToken CHR ''a'')"
    by (simp_all add: exampleConfig_def exampleEnv_def)
  then show ?thesis
    using Load_authenticates [OF sn, of "exampleToken CHR ''a''"] nc sn by blast
qed

end
