(* ===== verification/App_Runtime.thy ===== *)
theory App_Runtime
  imports Config_Decode Credentials GitHub_Command Gitea_Write Server_Chain Git_Session
begin

text \<open>
  Package \<^verbatim>\<open>internal/app\<close>: the provider instances (\<^verbatim>\<open>providers.go\<close>), the executors that pick the adapter of
  a repository's provider (\<^verbatim>\<open>github_executor.go\<close>, \<^verbatim>\<open>gitea_executor.go\<close>), and \<^verbatim>\<open>NewRuntime\<close> (\<^verbatim>\<open>runtime.go\<close>),
  which assembles the service; with \<^verbatim>\<open>validateOptions\<close> and \<^verbatim>\<open>New\<close> of \<^verbatim>\<open>internal/server/server.go\<close>.

  The Gitea SDK is third-party code: a client is a value of a type \<open>'c\<close>, its constructor is an
  argument, and \<open>adapterOf\<close> is the adapter over the calls of a client. The surroundings of \<^verbatim>\<open>NewRuntime\<close>
  (files, environment, TLS material) are fields of \<open>startup\<close>.
\<close>

section \<open>Provider instances\<close>

record 'c provider_instance =
  piProvider :: provider
  piLegacy :: bool
  piGithub :: "github_adapter option"
  piGitea :: "'c option"

definition github_New :: "string \<Rightarrow> string list \<Rightarrow> int \<Rightarrow> bool \<Rightarrow> github_adapter result" where
  "github_New path environment timeout hasCaller =
     (if \<not> isAbs path \<or> timeout \<le> 0 \<or> \<not> hasCaller then errorf ''invalid GitHub adapter options''
      else Inr \<lparr>adPath = path, adEnvironment = environment, adTimeout = timeout\<rparr>)"

type_synonym 'c gitea_constructor = "provider \<Rightarrow> string \<Rightarrow> 'c result"

definition buildInstance ::
  "config \<Rightarrow> 'd cred_snapshot \<Rightarrow> toolset \<Rightarrow> string list \<Rightarrow> bool \<Rightarrow> 'c gitea_constructor \<Rightarrow> string \<times> provider
    \<Rightarrow> (string \<times> 'c provider_instance) result" where
  "buildInstance cfg sn ts tokenFree hasCaller newGitea ip =
     (case ip of (i, p) \<Rightarrow>
      case ProviderToken (Some sn) i of
        None \<Rightarrow> Inl (Errorf ''create provider %q: credential unavailable'' [ArgS i])
      | Some token \<Rightarrow>
          let inst = \<lparr>piProvider = p, piLegacy = UsesLegacyProviderToken (Some sn) i, piGithub = None, piGitea = None\<rparr> in
          if Kind p = ProviderGitHub then
            (case github_New (toolGH ts) (GitHubEnvironment tokenFree token) (OperationTimeout (Limits cfg)) hasCaller of
               Inl e \<Rightarrow> Inl (Wrapf ''create GitHub provider %q: %w'' [ArgS i] e)
             | Inr a \<Rightarrow> Inr (i, inst\<lparr>piGithub := Some a\<rparr>))
          else if Kind p = ProviderGitea then
            (case newGitea p token of
               Inl e \<Rightarrow> Inl (Wrapf ''create Gitea provider %q: %w'' [ArgS i] e)
             | Inr c \<Rightarrow> Inr (i, inst\<lparr>piGitea := Some c\<rparr>))
          else Inl (Errorf ''create provider %q: unsupported kind'' [ArgS i]))"

definition buildProviderInstances ::
  "config \<Rightarrow> 'd cred_snapshot \<Rightarrow> toolset \<Rightarrow> string list \<Rightarrow> bool \<Rightarrow> 'c gitea_constructor \<Rightarrow> 'c provider_instance gomap result" where
  "buildProviderInstances cfg sn ts tokenFree hasCaller newGitea =
     foldE (\<lambda>acc ip. bindE (buildInstance cfg sn ts tokenFree hasCaller newGitea ip) (\<lambda>x. Inr (acc @ [x])))
       [] (sortedProviders (Providers cfg))"

text \<open>The maps of the executors. A nil executor is \<^term>\<open>None\<close>.\<close>

definition buildGitHubExecutor :: "'c provider_instance gomap \<Rightarrow> github_adapter gomap option" where
  "buildGitHubExecutor instances =
     (let adapters = List.map_filter (\<lambda>(i, inst). map_option (Pair i) (piGithub inst)) instances in
      if adapters = [] then None else Some adapters)"

definition buildGiteaExecutor :: "('c \<Rightarrow> 'a) \<Rightarrow> 'c provider_instance gomap \<Rightarrow> 'a gomap option" where
  "buildGiteaExecutor adapterOf instances =
     (let adapters = List.map_filter (\<lambda>(i, inst). map_option (\<lambda>c. (i, adapterOf c)) (piGitea inst)) instances in
      if adapters = [] then None else Some adapters)"

definition githubExecutor_Execute ::
  "(github_adapter \<Rightarrow> ('w, 'r) github_executor) \<Rightarrow> github_adapter gomap option \<Rightarrow> ('w, 'r) github_executor" where
  "githubExecutor_Execute run executor repo request w =
     (case executor of
        None \<Rightarrow> (fail ErrServiceUnavailable, w)
      | Some adapters \<Rightarrow>
          (case map_of adapters (Provider (resRepository repo)) of
             None \<Rightarrow> (fail ErrServiceUnavailable, w)
           | Some a \<Rightarrow> run a repo request w))"

text \<open>
  The executor of Gitea in the context that the service prepares: \<^verbatim>\<open>WithMutationMetadata\<close> puts empty
  metadata into it, and what the adapter recorded there is returned beside the response.
\<close>

definition giteaExecutor_Execute ::
  "'w gt_env \<Rightarrow> 'w repository_adapter gomap option \<Rightarrow> ('w gt_state, gitea_response) gitea_executor" where
  "giteaExecutor_Execute env executor repo request s =
     (case executor of
        None \<Rightarrow> ((fail ErrServiceUnavailable, None), s)
      | Some adapters \<Rightarrow>
          (case map_of adapters (Provider (resRepository repo)) of
             None \<Rightarrow> ((fail ErrServiceUnavailable, None), s)
           | Some a \<Rightarrow>
               (case gitea_Execute env (Some a) repo (Some request) (s\<lparr>gtMeta := Some None\<rparr>) of (r, s') \<Rightarrow>
                  ((case r of Inl e \<Rightarrow> Inl e | Inr v \<Rightarrow> Inr (Some v),
                    case gtMeta s' of None \<Rightarrow> None | Some transition \<Rightarrow> transition), s'))))"


section \<open>The runtime\<close>

record tls_config =
  tlsCertificates :: nat
  tlsMinVersion :: int

definition VersionTLS13 :: int where "VersionTLS13 = 0x304"

text \<open>\<^verbatim>\<open>tlsconfig.LoadServer\<close>; \<^verbatim>\<open>tls.LoadX509KeyPair\<close> reads the files.\<close>

definition LoadServer :: "(string \<Rightarrow> string \<Rightarrow> unit result) \<Rightarrow> string \<Rightarrow> string \<Rightarrow> tls_config result" where
  "LoadServer loadX509KeyPair certPath keyPath =
     (case loadX509KeyPair certPath keyPath of
        Inl _ \<Rightarrow> errorf ''failed to load server TLS certificate''
      | Inr _ \<Rightarrow> Inr \<lparr>tlsCertificates = 1, tlsMinVersion = VersionTLS13\<rparr>)"

record 'd server_options =
  soTLS :: "tls_config option"
  soTokens :: "'d index option"
  soHasAudit :: bool
  soMaxRequests :: int
  soMaxPerPrincipal :: int
  soOperationTimeout :: int
  soGracePeriod :: int
  soPolicy :: "snapshot option"
  soHasGitHub :: bool
  soHasGitea :: bool

definition validateOptions :: "'d server_options \<Rightarrow> unit result" where
  "validateOptions opts =
     (if (case soTLS opts of None \<Rightarrow> True | Some t \<Rightarrow> tlsCertificates t = 0 \<or> tlsMinVersion t < VersionTLS13)
      then errorf ''TLS 1.3 server configuration is required''
      else if soTokens opts = None then errorf ''authentication index is required''
      else if \<not> soHasAudit opts then errorf ''audit writer is required''
      else if soMaxRequests opts \<le> 0 \<or> soMaxPerPrincipal opts \<le> 0 \<or> soMaxPerPrincipal opts > soMaxRequests opts
      then errorf ''invalid concurrency limits''
      else if soOperationTimeout opts \<le> 0 \<or> soGracePeriod opts \<le> 0 then errorf ''invalid server time limits''
      else if soPolicy opts = None \<and> (soHasGitHub opts \<or> soHasGitea opts) then errorf ''provider policy is required''
      else if soPolicy opts \<noteq> None \<and> \<not> soHasGitHub opts \<and> \<not> soHasGitea opts
      then errorf ''provider executor is required''
      else Inr ())"

definition server_New :: "'d server_options \<Rightarrow> server result" where
  "server_New opts = bindE (validateOptions opts) (\<lambda>_. Inr (newServer (soMaxRequests opts) (soMaxPerPrincipal opts)))"

text \<open>What \<^verbatim>\<open>NewRuntime\<close> finds: the configuration file, the environment, the files.\<close>

record ('s, 'd, 'c) startup =
  suYaml :: yaml_lib
  suFile :: "string \<Rightarrow> string result result"
  suSha :: "string \<Rightarrow> 'd"
  suLookup :: "'s lookup_env"
  suWorld :: 's
  suEnviron :: "string list"
  suLoadX509KeyPair :: "string \<Rightarrow> string \<Rightarrow> unit result"
  suFS :: file_system
  suLookPath :: "string \<Rightarrow> string result"
  suNewGitea :: "'c gitea_constructor"

record ('d, 'c) runtime =
  rtConfig :: config
  rtTokens :: "'d index option"
  rtTLS :: tls_config
  rtTools :: toolset
  rtPolicy :: snapshot
  rtSSHEnvironment :: "string list"
  rtGitHub :: "github_adapter gomap option"
  rtGitea :: "'c gomap option"
  rtGit :: service_options
  rtServer :: "server option"
  rtProviders :: "'c provider_instance gomap"

definition wrapE :: "string \<Rightarrow> 'a result \<Rightarrow> 'a result" where
  "wrapE msg r = (case r of Inl e \<Rightarrow> Inl (Wrapf msg [] e) | Inr v \<Rightarrow> Inr v)"

definition hasProviderKind :: "provider gomap \<Rightarrow> provider_kind \<Rightarrow> bool" where
  "hasProviderKind ps kind \<longleftrightarrow> list_ex (\<lambda>(_, p). Kind p = kind) ps"

definition shutdownGracePeriod :: int where "shutdownGracePeriod = 30 * second"

text \<open>\<^verbatim>\<open>NewRuntime\<close> after the configuration is read.\<close>

definition assemble :: "('s, 'd, 'c) startup \<Rightarrow> config \<Rightarrow> ('d, 'c) runtime result" where
  "assemble su cfg =
     bindE (wrapE ''load credentials: %w'' (Load (suSha su) cfg (suLookup su) (suWorld su))) (\<lambda>(sn, _).
     bindE (wrapE ''load TLS: %w'' (LoadServer (suLoadX509KeyPair su) (Certificate (TLS cfg)) (PrivateKey (TLS cfg)))) (\<lambda>tls.
     bindE (wrapE ''resolve tools: %w'' (ResolveTools (suFS su) (Tools cfg) (hasProviderKind (Providers cfg) ProviderGitHub)
         (Some (suLookPath su)))) (\<lambda>ts.
     bindE (wrapE ''build policy: %w'' (policy_New cfg)) (\<lambda>pol.
     let tokenFree = TokenFreeEnvironment (suEnviron su) (EnvironmentNames (Some sn)) in
     bindE (wrapE ''create provider instances: %w''
         (buildProviderInstances cfg sn ts tokenFree True (suNewGitea su))) (\<lambda>instances.
     let github = buildGitHubExecutor instances; gitea = buildGiteaExecutor (\<lambda>c. c) instances in
     bindE (wrapE ''create Git service: %w''
         (service_New \<lparr>svcPolicy = Some pol, SSHPath = toolSSH ts, svcEnvironment = tokenFree, svcLimits = Limits cfg,
            hasRunner = True, hasAudit = True\<rparr>)) (\<lambda>git.
     bindE (wrapE ''create server: %w''
         (server_New \<lparr>soTLS = Some tls, soTokens = AuthIndex (Some sn), soHasAudit = True,
            soMaxRequests = MaxConcurrentRequests (Limits cfg),
            soMaxPerPrincipal = MaxConcurrentRequestsPerPrincipal (Limits cfg),
            soOperationTimeout = OperationTimeout (Limits cfg), soGracePeriod = shutdownGracePeriod,
            soPolicy = (if github \<noteq> None \<or> gitea \<noteq> None then Some pol else None),
            soHasGitHub = (github \<noteq> None), soHasGitea = (gitea \<noteq> None)\<rparr>)) (\<lambda>server.
     Inr \<lparr>rtConfig = cfg, rtTokens = AuthIndex (Some sn), rtTLS = tls, rtTools = ts, rtPolicy = pol,
          rtSSHEnvironment = tokenFree, rtGitHub = github, rtGitea = gitea, rtGit = git,
          rtServer = MarkReady (Some server), rtProviders = instances\<rparr>)))))))"

definition NewRuntime :: "('s, 'd, 'c) startup \<Rightarrow> string \<Rightarrow> ('d, 'c) runtime result option" where
  "NewRuntime su configPath =
     (case LoadFile (suYaml su) (suFile su configPath) of
        None \<Rightarrow> None
      | Some r \<Rightarrow> Some (bindE (wrapE ''load configuration: %w'' r) (assemble su)))"

end
