(* ===== verification/App_Correct.thy ===== *)
theory App_Correct
  imports App_Runtime
begin

text \<open>
  What \<^verbatim>\<open>NewRuntime\<close> guarantees: a service that starts has a validated configuration, every adapter
  acts with the credential of its own provider, and no process environment holds a credential that
  is not its own.
\<close>

section \<open>Credentials\<close>

text \<open>The credential of a provider in an environment that does not change.\<close>

definition secretOf :: "(string \<Rightarrow> string option) \<Rightarrow> provider \<Rightarrow> string option" where
  "secretOf env p =
     (if Kind p = ProviderGitHub \<and> TokenEnv p = []
      then (case env legacyGHToken of Some t \<Rightarrow> Some t | None \<Rightarrow> env legacyGitHubToken)
      else env (TokenEnv p))"

lemma legacy_fixedEnv:
  assumes "loadLegacyGitHubToken sha (fixedEnv env) pid st = Inr (c, st')" and "consistent env st"
  shows "(case env legacyGHToken of Some t \<Rightarrow> Some t | None \<Rightarrow> env legacyGitHubToken) = Some (credValue c)"
    "consistent env st'" "loadedProviders st' = loadedProviders st" "loadedEnvironments st' = loadedEnvironments st"
proof -
  obtain gh st1 where c1: "cachedLookup (fixedEnv env) legacyGHToken st = (gh, st1)" by fastforce
  obtain github st2 where c2: "cachedLookup (fixedEnv env) legacyGitHubToken st1 = (github, st2)" by fastforce
  have a: "gh = env legacyGHToken" "consistent env st1" using cachedLookup_fixedEnv [OF c1 assms(2)] by simp_all
  have b: "github = env legacyGitHubToken" "consistent env st2" using cachedLookup_fixedEnv [OF c2 a(2)] by simp_all
  note same = cachedLookup_same [OF c1] cachedLookup_same [OF c2]
  obtain name v where l: "legacyCredential sha pid name v st2 = Inr (c, st')"
    "(case env legacyGHToken of Some t \<Rightarrow> Some t | None \<Rightarrow> env legacyGitHubToken) = Some v"
    using assms(1) c1 c2 unfolding a(1) b(1)
    by (cases "env legacyGHToken"; cases "env legacyGitHubToken") (auto simp: loadLegacyGitHubToken_def)
  from legacyCredential_Inr [OF l(1)] have "addValue sha v name st2 = Inr st'" "credValue c = v" by auto
  then show "(case env legacyGHToken of Some t \<Rightarrow> Some t | None \<Rightarrow> env legacyGitHubToken) = Some (credValue c)"
    "consistent env st'" "loadedProviders st' = loadedProviders st" "loadedEnvironments st' = loadedEnvironments st"
    using l(2) b(2) same by (auto simp: addValue_Inr consistent_def)
qed

lemma loadProvider_fixedEnv:
  assumes "loadProvider sha (fixedEnv env) st (pid, p) = Inr st'" and "consistent env st"
  shows "\<exists>c. secretOf env p = Some (credValue c) \<and> loadedProviders st' = mapSet pid c (loadedProviders st)
    \<and> loadedEnvironments st' = loadedEnvironments st @ [credEnvironment c]
    \<and> (TokenEnv p \<noteq> [] \<longrightarrow> credEnvironment c = TokenEnv p) \<and> consistent env st'"
proof (cases "Kind p = ProviderGitHub \<and> TokenEnv p = []")
  case True
  then obtain c st1 where l: "loadLegacyGitHubToken sha (fixedEnv env) pid st = Inr (c, st1)" "st' = addCredential pid c st1"
    using assms(1) by (auto simp: loadProvider_def result_simps)
  note f = legacy_fixedEnv [OF l(1) assms(2)]
  then show ?thesis
    using True l(2) by (intro exI [of _ c]) (auto simp: secretOf_def addCredential_def consistent_def)
next
  case False
  obtain a st1 where c: "cachedLookup (fixedEnv env) (TokenEnv p) st = (a, st1)" by fastforce
  have a: "a = env (TokenEnv p)" "consistent env st1" using cachedLookup_fixedEnv [OF c assms(2)] by simp_all
  obtain v st2 where v: "a = Some v" "addValue sha v (TokenEnv p) st1 = Inr st2"
    "st' = addCredential pid \<lparr>credValue = v, credEnvironment = TokenEnv p, legacy = False\<rparr> st2"
    using assms(1) False c by (auto simp: loadProvider_def result_simps split: option.splits if_splits)
  have "secretOf env p = Some v" unfolding secretOf_def if_not_P [OF False] using a(1) v(1) by simp
  then show ?thesis
    using v(2,3) a(2) cachedLookup_same [OF c]
    by (intro exI [of _ "\<lparr>credValue = v, credEnvironment = TokenEnv p, legacy = False\<rparr>"])
      (auto simp: addCredential_def addValue_Inr consistent_def)
qed

lemma foldE_loadProvider_fixedEnv:
  assumes "foldE (loadProvider sha (fixedEnv env)) st ps = Inr st'" and "consistent env st" and "distinct (map fst ps)"
  shows "(\<forall>(i, p) \<in> set ps. \<exists>c. map_of (loadedProviders st') i = Some c \<and> secretOf env p = Some (credValue c))
    \<and> (\<forall>i. i \<notin> fst ` set ps \<longrightarrow> map_of (loadedProviders st') i = map_of (loadedProviders st) i)
    \<and> set (loadedEnvironments st) \<subseteq> set (loadedEnvironments st')
    \<and> (\<forall>(i, p) \<in> set ps. TokenEnv p \<noteq> [] \<longrightarrow> TokenEnv p \<in> set (loadedEnvironments st'))"
  using assms
proof (induction ps arbitrary: st)
  case (Cons x ps)
  obtain i p where x: "x = (i, p)" by force
  obtain st1 where st1: "loadProvider sha (fixedEnv env) st (i, p) = Inr st1"
    and rest: "foldE (loadProvider sha (fixedEnv env)) st1 ps = Inr st'"
    using Cons.prems(1) x by (auto simp: result_simps)
  from loadProvider_fixedEnv [OF st1 Cons.prems(2)] obtain c where c: "secretOf env p = Some (credValue c)"
    "loadedProviders st1 = mapSet i c (loadedProviders st)" "loadedEnvironments st1 = loadedEnvironments st @ [credEnvironment c]"
    "TokenEnv p \<noteq> [] \<longrightarrow> credEnvironment c = TokenEnv p" "consistent env st1"
    by blast
  have i: "i \<notin> fst ` set ps" and d: "distinct (map fst ps)" using Cons.prems(3) x by auto
  note ih = Cons.IH [OF rest c(5) d]
  have "map_of (loadedProviders st') i = Some c" using ih i c(2) by simp
  then show ?case using ih c x by auto
qed simp

lemma loadToken_environments:
  assumes "loadToken sha lookup st (pid, n) = Inr st'"
  shows "loadedEnvironments st' = loadedEnvironments st @ [n]"
proof -
  obtain a st1 where c: "cachedLookup lookup n st = (a, st1)" by fastforce
  then show ?thesis
    using assms cachedLookup_same [OF c]
    by (auto simp: loadToken_def addValue_Inr result_simps split: option.splits if_splits)
qed

lemma foldE_loadToken_environments:
  "foldE (loadToken sha lookup) st names = Inr st' \<Longrightarrow> loadedEnvironments st' = loadedEnvironments st @ map snd names"
proof (induction names arbitrary: st)
  case (Cons x names)
  obtain pid n where "x = (pid, n)" by force
  with Cons show ?case by (auto simp: result_simps dest!: loadToken_environments)
qed simp

lemma map_fst_sortedProviders: "map fst (sortedProviders ps) = sortedIDs ps"
proof -
  have "map fst (concat (map (\<lambda>i. case map_of ps i of None \<Rightarrow> [] | Some p \<Rightarrow> [(i, p)]) is)) = is"
    if "set is \<subseteq> set (keys ps)" for "is"
    using that by (induction "is") (auto simp: map_of_keys)
  then show ?thesis by (simp add: sortedProviders_def)
qed

lemma mem_sortedProviders: "(i, p) \<in> set (sortedProviders ps) \<longleftrightarrow> map_of ps i = Some p"
  by (auto simp: sortedProviders_def map_of_keys split: option.splits intro: bexI [of _ i])

lemma Load_fixedEnv:
  assumes "Load sha cfg (fixedEnv env) () = Inr (sn, ())" and "wfConfig cfg"
  shows "\<And>i p. map_of (Providers cfg) i = Some p \<Longrightarrow> ProviderToken (Some sn) i = secretOf env p \<and> secretOf env p \<noteq> None"
    "\<And>i p. map_of (Providers cfg) i = Some p \<Longrightarrow> TokenEnv p \<noteq> [] \<Longrightarrow> TokenEnv p \<in> set (EnvironmentNames (Some sn))"
    "\<And>q p n. map_of (Principals cfg) q = Some p \<Longrightarrow> n \<in> set (TokenEnvs p) \<Longrightarrow> n \<in> set (EnvironmentNames (Some sn))"
proof -
  obtain st1 st2 where l: "foldE (loadToken sha (fixedEnv env)) (loadStart ()) (tokenNames (Principals cfg)) = Inr st1"
    "foldE (loadProvider sha (fixedEnv env)) st1 (sortedProviders (Providers cfg)) = Inr st2"
    "credProviders sn = loadedProviders st2" "environments sn = sort (loadedEnvironments st2)"
    using Load_Inr [OF assms(1)] by blast
  have "consistent env (loadStart ())" by (simp add: consistent_def loadStart_def)
  then have c: "consistent env st1" using foldE_loadToken_fixedEnv [OF l(1)] by blast
  have "distinct (map fst (sortedProviders (Providers cfg)))"
    using assms(2) distinct_sortedIDs [of "Providers cfg"] by (simp add: map_fst_sortedProviders wfConfig_def)
  note p = foldE_loadProvider_fixedEnv [OF l(2) c this]
  show "ProviderToken (Some sn) i = secretOf env q \<and> secretOf env q \<noteq> None" if "map_of (Providers cfg) i = Some q" for i q
    using p that mem_sortedProviders [of i q "Providers cfg"] l(3) by (fastforce simp: ProviderToken_def)
  show "TokenEnv q \<in> set (EnvironmentNames (Some sn))" if "map_of (Providers cfg) i = Some q" "TokenEnv q \<noteq> []" for i q
    using p that mem_sortedProviders [of i q "Providers cfg"] l(4) by (fastforce simp: EnvironmentNames_def)
  show "n \<in> set (EnvironmentNames (Some sn))" if "map_of (Principals cfg) q = Some r" "n \<in> set (TokenEnvs r)" for q r n
  proof -
    have "(q, n) \<in> set (tokenNames (Principals cfg))" using that set_tokenNames by blast
    then have "n \<in> set (loadedEnvironments st1)"
      using foldE_loadToken_environments [OF l(1)] by force
    then show ?thesis using p l(4) by (auto simp: EnvironmentNames_def)
  qed
qed


section \<open>Adapters\<close>

lemma map_of_map_filter:
  "distinct (map fst xs) \<Longrightarrow>
     map_of (List.map_filter (\<lambda>(i, x). map_option (\<lambda>y. (i, h y)) (f x)) xs) i =
       (case map_of xs i of None \<Rightarrow> None | Some x \<Rightarrow> map_option h (f x))"
proof (induction xs)
  case (Cons a xs)
  have "map_of xs (fst a) = None" using Cons.prems by (auto simp: map_of_eq_None_iff)
  with Cons show ?case by (cases a; cases "f (snd a)") (auto simp: map_filter_simps split: option.splits)
qed (simp add: map_filter_simps)

lemma list_all2_map_of:
  assumes "list_all2 (\<lambda>ip x. f ip = Inr x) ps xs" and "\<And>i p x. f (i, p) = Inr x \<Longrightarrow> fst x = i"
    and "distinct (map fst ps)"
  shows "map fst xs = map fst ps" "map_of ps i = Some p \<Longrightarrow> \<exists>x. f (i, p) = Inr (i, x) \<and> map_of xs i = Some x"
proof -
  show fst: "map fst xs = map fst ps"
    using assms(1) by (induction rule: list_all2_induct) (auto dest!: assms(2))
  assume "map_of ps i = Some p"
  then obtain n where n: "n < length ps" "ps ! n = (i, p)"
    by (metis in_set_conv_nth map_of_SomeD)
  then have "f (i, p) = Inr (xs ! n)" "n < length xs"
    using assms(1) by (auto simp: list_all2_conv_all_nth)
  moreover from this have "xs ! n = (i, snd (xs ! n))" using assms(2) by (metis prod.collapse)
  ultimately show "\<exists>x. f (i, p) = Inr (i, x) \<and> map_of xs i = Some x"
    using assms(3) fst by (intro exI [of _ "snd (xs ! n)"]) (metis map_of_is_SomeI nth_mem)
qed

lemma buildInstance_Inr:
  assumes "buildInstance cfg sn ts tf hc newGitea (i, p) = Inr x"
  shows "fst x = i" "\<exists>token. ProviderToken (Some sn) i = Some token
    \<and> (Kind p = ProviderGitHub \<longrightarrow> (\<exists>a. piGithub (snd x) = Some a \<and> adEnvironment a = GitHubEnvironment tf token
          \<and> adPath a = toolGH ts) \<and> piGitea (snd x) = None)
    \<and> (Kind p = ProviderGitea \<longrightarrow> (\<exists>c. piGitea (snd x) = Some c \<and> newGitea p token = Inr c) \<and> piGithub (snd x) = None)
    \<and> (Kind p = ProviderGitHub \<or> Kind p = ProviderGitea)"
  using assms
  by (auto simp: buildInstance_def github_New_def Let_def kind_defs split: option.splits if_splits sum.splits)

text \<open>The assembly, one step after the other.\<close>

lemma wrapE_Inr [simp]: "wrapE msg r = Inr v \<longleftrightarrow> r = Inr v"
  by (cases r) (auto simp: wrapE_def)

lemma assemble_Inr:
  assumes "assemble su cfg = Inr rt"
  obtains sn w ts instances v where "rtConfig rt = cfg" "Load (suSha su) cfg (suLookup su) (suWorld su) = Inr (sn, w)"
    "policy_New cfg = Inr (rtPolicy rt)" "rtTokens rt = AuthIndex (Some sn)"
    "rtSSHEnvironment rt = TokenFreeEnvironment (suEnviron su) (EnvironmentNames (Some sn))"
    "buildProviderInstances cfg sn ts (rtSSHEnvironment rt) True (suNewGitea su) = Inr instances"
    "rtGitHub rt = buildGitHubExecutor instances" "rtGitea rt = buildGiteaExecutor (\<lambda>c. c) instances"
    "rtServer rt = MarkReady (Some (newServer (MaxConcurrentRequests (Limits cfg)) (MaxConcurrentRequestsPerPrincipal (Limits cfg))))"
    "svcPolicy (rtGit rt) = Some (rtPolicy rt)" "svcEnvironment (rtGit rt) = rtSSHEnvironment rt"
  using assms
  by (auto simp: assemble_def Let_def result_simps server_New_def service_New_def split: prod.splits if_splits)

lemma NewRuntime_Inr:
  assumes "NewRuntime su path = Some (Inr rt)"
  obtains bytes where "suFile su path = Inr (Inr bytes)" "Decode (suYaml su) (Inr bytes) = Some (Inr (rtConfig rt))"
    "assemble su (rtConfig rt) = Inr rt"
proof -
  obtain r where r: "LoadFile (suYaml su) (suFile su path) = Some r" "bindE (wrapE ''load configuration: %w'' r) (assemble su) = Inr rt"
    using assms by (auto simp: NewRuntime_def split: option.splits)
  then obtain cfg where cfg: "r = Inr cfg" "assemble su cfg = Inr rt" by (auto simp: result_simps)
  obtain bytes where "suFile su path = Inr (Inr bytes)" "Decode (suYaml su) (Inr bytes) = Some (Inr cfg)"
    using r(1) cfg(1) by (auto simp: LoadFile_def Decode_def split: sum.splits)
  moreover have "rtConfig rt = cfg" using cfg(2) by (rule assemble_Inr)
  ultimately show thesis using that cfg(2) by blast
qed

text \<open>Every configured provider has the adapter of its kind, built with its own credential.\<close>

lemma instances_of_providers:
  assumes "buildProviderInstances cfg sn ts tf hc newGitea = Inr instances" and "wfMap (Providers cfg)"
    and "map_of (Providers cfg) i = Some p"
  shows "\<exists>inst. buildInstance cfg sn ts tf hc newGitea (i, p) = Inr (i, inst) \<and> map_of instances i = Some inst"
    and "distinct (map fst instances)"
proof -
  have l: "list_all2 (\<lambda>ip x. buildInstance cfg sn ts tf hc newGitea ip = Inr x) (sortedProviders (Providers cfg)) instances"
    using assms(1) by (simp add: buildProviderInstances_def foldE_collect)
  have d: "distinct (map fst (sortedProviders (Providers cfg)))"
    using distinct_sortedIDs [OF assms(2)] by (simp add: map_fst_sortedProviders)
  have "map_of (sortedProviders (Providers cfg)) i = Some p"
    using d assms(3) mem_sortedProviders by (metis map_of_is_SomeI)
  then show "\<exists>inst. buildInstance cfg sn ts tf hc newGitea (i, p) = Inr (i, inst) \<and> map_of instances i = Some inst"
    using list_all2_map_of(2) [OF l _ d] buildInstance_Inr(1) by metis
  show "distinct (map fst instances)"
    using list_all2_map_of(1) [OF l _ d] buildInstance_Inr(1) d by metis
qed

lemma executors_lookup:
  assumes "distinct (map fst instances)" and "map_of instances i = Some inst"
  shows "piGithub inst = Some a \<Longrightarrow> \<exists>ads. buildGitHubExecutor instances = Some ads \<and> map_of ads i = Some a"
    and "piGitea inst = Some c \<Longrightarrow> \<exists>cs. buildGiteaExecutor (\<lambda>c. c) instances = Some cs \<and> map_of cs i = Some c"
  using map_of_map_filter [OF assms(1), of "\<lambda>c. c" piGithub i] map_of_map_filter [OF assms(1), of "\<lambda>c. c" piGitea i] assms(2)
  by (auto simp: buildGitHubExecutor_def buildGiteaExecutor_def Let_def)

lemma provider_adapter:
  assumes "assemble su (rtConfig rt) = Inr rt" and "suLookup su = fixedEnv env" and "wfConfig (rtConfig rt)"
    and "map_of (Providers (rtConfig rt)) i = Some p"
  shows "\<exists>token. secretOf env p = Some token
    \<and> (Kind p = ProviderGitHub \<longrightarrow> (\<exists>ads a. rtGitHub rt = Some ads \<and> map_of ads i = Some a
          \<and> adEnvironment a = GitHubEnvironment (rtSSHEnvironment rt) token))
    \<and> (Kind p = ProviderGitea \<longrightarrow> (\<exists>cs c. rtGitea rt = Some cs \<and> map_of cs i = Some c \<and> suNewGitea su p token = Inr c))"
proof -
  obtain sn w ts instances where r: "Load (suSha su) (rtConfig rt) (suLookup su) (suWorld su) = Inr (sn, w)"
    "buildProviderInstances (rtConfig rt) sn ts (rtSSHEnvironment rt) True (suNewGitea su) = Inr instances"
    "rtGitHub rt = buildGitHubExecutor instances" "rtGitea rt = buildGiteaExecutor (\<lambda>c. c) instances"
    using assms(1) by (rule assemble_Inr) blast
  have token: "ProviderToken (Some sn) i = secretOf env p"
    using Load_fixedEnv(1) [of "suSha su" "rtConfig rt" env sn i p] r(1) assms(2-4) by simp
  have wf: "wfMap (Providers (rtConfig rt))" using assms(3) by (simp add: wfConfig_def)
  obtain inst where inst: "buildInstance (rtConfig rt) sn ts (rtSSHEnvironment rt) True (suNewGitea su) (i, p) = Inr (i, inst)"
    "map_of instances i = Some inst"
    using instances_of_providers(1) [OF r(2) wf assms(4)] by blast
  note lookup = executors_lookup [OF instances_of_providers(2) [OF r(2) wf assms(4)] inst(2)]
  show ?thesis
    using buildInstance_Inr(2) [OF inst(1)] lookup r(3,4) token by auto
qed

text \<open>
  C4. Every adapter of a service that starts acts with the credential of its own provider and no
  process holds another. In an environment that does not change, \<^verbatim>\<open>NewRuntime\<close> gives each configured
  provider an adapter of its kind, made with the value of the provider's own variable; the
  environment of the SSH and GitHub processes is a part of the service's own that holds no variable
  of a principal or provider; the configuration has passed validation and the policy is its own.
\<close>

theorem runtime_credentials:
  assumes "NewRuntime su path = Some (Inr rt)" and "suLookup su = fixedEnv env" and "wfConfig (rtConfig rt)"
  shows "Validate (rtConfig rt) = Inr () \<and> policy_New (rtConfig rt) = Inr (rtPolicy rt)
    \<and> (\<forall>i p. map_of (Providers (rtConfig rt)) i = Some p \<longrightarrow> (\<exists>token. secretOf env p = Some token
        \<and> (Kind p = ProviderGitHub \<longrightarrow> (\<exists>ads a. rtGitHub rt = Some ads \<and> map_of ads i = Some a
              \<and> adEnvironment a = GitHubEnvironment (rtSSHEnvironment rt) token))
        \<and> (Kind p = ProviderGitea \<longrightarrow> (\<exists>cs c. rtGitea rt = Some cs \<and> map_of cs i = Some c \<and> suNewGitea su p token = Inr c))))
    \<and> (\<forall>e \<in> set (rtSSHEnvironment rt). e \<in> set (suEnviron su) \<and> \<not> hasTokenEnvironmentPrefix (entryName e)
        \<and> (\<forall>i p. map_of (Providers (rtConfig rt)) i = Some p \<and> TokenEnv p \<noteq> [] \<longrightarrow> entryName e \<noteq> TokenEnv p)
        \<and> (\<forall>q p. map_of (Principals (rtConfig rt)) q = Some p \<longrightarrow> entryName e \<notin> set (TokenEnvs p)))"
proof -
  obtain bytes where d: "Decode (suYaml su) (Inr bytes) = Some (Inr (rtConfig rt))" "assemble su (rtConfig rt) = Inr rt"
    using assms(1) by (rule NewRuntime_Inr) blast
  have valid: "Validate (rtConfig rt) = Inr ()"
    using d(1) by (rule Decode_Inr)
  obtain sn w where r: "Load (suSha su) (rtConfig rt) (suLookup su) (suWorld su) = Inr (sn, w)"
    "policy_New (rtConfig rt) = Inr (rtPolicy rt)"
    "rtSSHEnvironment rt = TokenFreeEnvironment (suEnviron su) (EnvironmentNames (Some sn))"
    using d(2) by (rule assemble_Inr) blast
  have load: "Load (suSha su) (rtConfig rt) (fixedEnv env) () = Inr (sn, ())"
    using r(1) assms(2) by simp
  have env: "e \<in> set (suEnviron su) \<and> \<not> hasTokenEnvironmentPrefix (entryName e) \<and> entryName e \<notin> set (EnvironmentNames (Some sn))"
    if "e \<in> set (rtSSHEnvironment rt)" for e
    using that by (auto simp: r(3) TokenFreeEnvironment_def tokenFreeLoop_eq)
  have "\<forall>e \<in> set (rtSSHEnvironment rt). e \<in> set (suEnviron su) \<and> \<not> hasTokenEnvironmentPrefix (entryName e)
        \<and> (\<forall>i p. map_of (Providers (rtConfig rt)) i = Some p \<and> TokenEnv p \<noteq> [] \<longrightarrow> entryName e \<noteq> TokenEnv p)
        \<and> (\<forall>q p. map_of (Principals (rtConfig rt)) q = Some p \<longrightarrow> entryName e \<notin> set (TokenEnvs p))"
    using env Load_fixedEnv(2,3) [OF load assms(3)] by metis
  then show ?thesis
    using valid r(2) provider_adapter [OF d(2) assms(2,3)] by blast
qed


section \<open>A startup\<close>

text \<open>The example configuration with one more grant, and surroundings in which its service starts.\<close>

definition exampleWriters :: config where
  "exampleWriters = exampleConfig\<lparr>Principals :=
     [(''agent'', \<lparr>TokenEnvs = [''REPOWOLF_TOKEN_AGENT''], Grants =
        [\<lparr>Repository = ''alpha'', GrantCapabilities = [GitRead, IssuesRead]\<rparr>,
         \<lparr>Repository = ''beta'', GrantCapabilities = [GitRead, IssuesWrite]\<rparr>]\<rparr>)]\<rparr>"

definition startupWith :: "'c gitea_constructor \<Rightarrow> (unit, string, 'c) startup" where
  "startupWith newGitea =
     \<lparr>suYaml = yamlOf exampleWriters, suFile = \<lambda>_. Inr (Inr []), suSha = \<lambda>e. e,
      suLookup = fixedEnv exampleEnv, suWorld = (),
      suEnviron = [''PATH=/usr/bin'', ''REPOWOLF_TOKEN_FORGE=forge-secret'', ''HOME=/home/x''],
      suLoadX509KeyPair = \<lambda>_ _. Inr (),
      suFS = \<lparr>Abs = Inr, EvalSymlinks = Inr, Stat = \<lambda>_. Inr \<lparr>isRegular = True, perm = 0x1ED\<rparr>\<rparr>,
      suLookPath = \<lambda>name. Inr (''/usr/bin/'' @ name), suNewGitea = newGitea\<rparr>"

definition exampleStartup :: "(unit, string, string) startup" where
  "exampleStartup = startupWith (\<lambda>p token. Inr token)"

text \<open>The facts of a runtime that the example looks at.\<close>

definition runtimeFacts :: "('d, 'c) runtime result option \<Rightarrow> (string list \<times> string list \<times> bool) option" where
  "runtimeFacts r =
     (case r of Some (Inr rt) \<Rightarrow> Some (rtSSHEnvironment rt, keys (Providers (rtConfig rt)), wfConfig (rtConfig rt)) | _ \<Rightarrow> None)"

lemma runtimeFacts_Some:
  assumes "runtimeFacts r = Some (sshEnv, ids, b)"
  obtains rt where "r = Some (Inr rt)" "rtSSHEnvironment rt = sshEnv" "keys (Providers (rtConfig rt)) = ids"
    "wfConfig (rtConfig rt) = b"
  using assms by (auto simp: runtimeFacts_def split: option.splits sum.splits)

lemma exampleStartup_facts:
  "runtimeFacts (NewRuntime exampleStartup ''config.yaml'') =
     Some ([''PATH=/usr/bin'', ''HOME=/home/x''], [''gh'', ''forge''], True)"
  by code_simp

theorem runtime_credentials_witness:
  "\<exists>rt. NewRuntime exampleStartup ''config.yaml'' = Some (Inr rt)
     \<and> rtSSHEnvironment rt = [''PATH=/usr/bin'', ''HOME=/home/x'']
     \<and> (\<exists>p token. map_of (Providers (rtConfig rt)) ''forge'' = Some p \<and> secretOf exampleEnv p = Some token)"
proof -
  obtain rt where rt: "NewRuntime exampleStartup ''config.yaml'' = Some (Inr rt)"
    "rtSSHEnvironment rt = [''PATH=/usr/bin'', ''HOME=/home/x'']" "keys (Providers (rtConfig rt)) = [''gh'', ''forge'']"
    "wfConfig (rtConfig rt) = True"
    using exampleStartup_facts by (rule runtimeFacts_Some)
  have "suLookup exampleStartup = fixedEnv exampleEnv" by (simp add: exampleStartup_def startupWith_def)
  moreover obtain p where "map_of (Providers (rtConfig rt)) ''forge'' = Some p"
    using rt(3) map_of_keys [of "''forge''" "Providers (rtConfig rt)"] by auto
  ultimately show ?thesis
    using runtime_credentials [OF rt(1)] rt by blast
qed

end
