(* ===== verification/Spec2Isabelle.thy ===== *)
theory Spec2Isabelle
  imports Client_Ssh Tea_Client Gh_Correct Git_Session_Correct Receive_Requests Receive_Denied GitHub_Execute_Correct Gitea_Execute
    Server_Chain_Correct Audit_Log App_Correct
begin

text \<open>
  RepoWolf is a broker between sandboxed agents and the providers of Git repositories. An agent holds
  a bearer token and no provider credential. It sends its Git traffic and its issue and pull request
  operations over gRPC to the service, which authenticates it, checks a configured policy, and acts
  on the provider with credentials of its own. This development models the service and its
  clients (Go, under \<^verbatim>\<open>src/internal\<close>) as HOL functions and proves what makes it a safe broker.

  \<^bold>\<open>Parts and how they interact.\<close> \<^verbatim>\<open>app.NewRuntime\<close> decodes and validates the configuration (\<^verbatim>\<open>config\<close>),
  loads the credentials from the environment (\<^verbatim>\<open>credentials\<close>, \<^verbatim>\<open>auth\<close>), builds the policy snapshot
  (\<^verbatim>\<open>policy\<close>), one adapter per provider, the Git service and the server. A request passes the
  interceptors of \<^verbatim>\<open>server\<close> (global slot, authentication, status, admission, capacity of the principal,
  deadline, audit) and reaches a service. The provider services resolve the repository against the
  policy, record the acceptance, and call the executor, which routes to the adapter of the
  repository's provider: \<^verbatim>\<open>provider/github\<close> runs the GitHub CLI through \<^verbatim>\<open>runner\<close>, \<^verbatim>\<open>provider/gitea\<close>
  calls an SDK. The Git service (\<^verbatim>\<open>gitservice\<close>) relays fetches and pushes to an SSH process; a push is
  parsed and checked (\<^verbatim>\<open>gitproto\<close>) before any byte of it reaches the process. Errors reach the client
  through \<^verbatim>\<open>rpcstatus\<close> only, and every request leaves records in \<^verbatim>\<open>audit\<close>. In the sandbox
  \<^verbatim>\<open>client/gitssh\<close> stands for \<^verbatim>\<open>ssh\<close>, \<^verbatim>\<open>client/gitea\<close> for \<^verbatim>\<open>tea\<close> and \<^verbatim>\<open>client/github\<close> for \<^verbatim>\<open>gh\<close>: they turn
  arguments into requests.

  \<^bold>\<open>Conventions.\<close> A Go string or byte slice is a \<^typ>\<open>string\<close>; a Go map is an association list with
  distinct keys, whose order is one iteration order; a struct is a record with the field names of
  the source, prefixed where they would clash; a fallible function returns \<open>go_error + 'a\<close>; a pointer
  that may be nil is an option; fixed-width integers are words where they wrap and \<^typ>\<open>int\<close> where they
  are only compared. A computation that may block or not return has an outer option (\<open>isNullNode\<close>,
  \<open>Decode\<close>, the Git sessions), and there is a theorem that it returns or under which arrivals it does;
  every other recursion is total. Nothing is bounded by fuel. Third-party code is a parameter: the
  gRPC status package (\<open>grpc_lib\<close>), protobuf timestamps and sizes (\<open>timestamp_lib\<close>, \<open>gt_env\<close>, \<open>gh_env\<close>), the syntax of
  JSON, HTTP responses and URLs (\<open>json_reader\<close>, \<open>gh_env\<close>, \<open>link_lib\<close>), the YAML
  package (\<open>yaml_lib\<close>), SHA-256, the Gitea SDK (\<open>gitea_api\<close>, \<open>pull_api\<close>), and the operating system (files,
  environment, processes). What the code relies on is a named hypothesis: \<open>ctxOK\<close> (a context's error
  is a context error), \<open>grpcDocumented\<close>, \<open>yamlDocumented\<close>, \<open>callbacksDocumented\<close> (the YAML package sets a field
  with an \<^verbatim>\<open>UnmarshalYAML\<close> method only through that method, which is modelled and passed to it), \<open>ordinary\<close> (the
  surroundings of a session report no error of a type that is private to \<^verbatim>\<open>gitservice\<close>). The identifiers of active
  requests, a \<^verbatim>\<open>uint64\<close> counter in the code, are natural numbers: a wrap-around after \<open>2 ^ 64\<close> requests is not
  modelled.

  \<^bold>\<open>Theories.\<close>
  \<^item> \<open>Go_Prelude\<close>, \<open>Go_Errors\<close>, \<open>Go_Text\<close>, \<open>Go_Time\<close>, \<open>Go_Strings\<close>: the part of Go and of its library that the sources use,
    errors and \<^verbatim>\<open>errors.Is\<close>, JSON, decimal text, RFC 3339 times, paths and string literals. The locale \<open>unique_index\<close> is the loop that files elements
    under unique keys; it is interpreted for credential names, slugs, tokens, refs and capabilities.
  \<^item> \<open>Config_Types\<close>, \<open>Ref_Grammar\<close>, \<open>Config_Validate\<close>, \<open>Config_Decode\<close> (\<^verbatim>\<open>internal/config\<close>): the configuration,
    every check of \<^verbatim>\<open>Validate\<close>, and \<^verbatim>\<open>Decode\<close> over node graphs with aliases and merge keys: the check for
    duplicate keys equals its graph-theoretic specification, decoding returns on cyclic documents, the
    walk over merge keys finds what an inductive definition of effective mappings says (\<open>effective\<close>), and
    what is accepted is validated and says what the file says, with the defaults for what it leaves out.
  \<^item> \<open>Policy\<close> (\<^verbatim>\<open>internal/policy\<close>): resolution is sound, complete for unique matches and independent of
    other principals' grants; the push policy equals its declarative specification, over a grammar of
    ref names by components.
  \<^item> \<open>Auth\<close>, \<open>Credentials\<close> (\<^verbatim>\<open>internal/auth\<close>, \<^verbatim>\<open>internal/credentials\<close>): tokens, the index and its
    interceptor; no secret serves two purposes, and a caller authenticates exactly with a variable
    of its principal.
  \<^item> \<open>Proto_Common\<close>, \<open>Pktline\<close>, \<open>Capabilities\<close>, \<open>Wire_Grammar\<close>, \<open>Advertised\<close>, \<open>Receive\<close> (\<^verbatim>\<open>internal/gitproto\<close>)
    and \<open>Receive_Correct\<close>, \<open>Receive_Requests\<close>, \<open>Receive_Denied\<close>: the pkt-line reader and the push request
    with certificates and options: soundness, completeness as a round trip, and denials, which carry the
    updates of the stream. The locale \<open>error_class\<close> follows a class of errors through the parser; it is
    interpreted for policy errors here and for the exit-carrying errors of \<open>Git_Session_Correct\<close>.
  \<^item> \<open>Git_Frames\<close>, \<open>Git_Session\<close>, \<open>Git_Session_Correct\<close> (\<^verbatim>\<open>internal/gitservice\<close>): the frame checker equals a
    grammar, the reader over frames refines a byte stream; a session starts a process only when
    authorized, forwards only checked bytes, and ends with exactly one valid terminal frame and one record.
  \<^item> \<open>Runner\<close> (\<^verbatim>\<open>internal/runner\<close>): commands, environments, tools, and the pipes with their budgets (locale
    \<open>byte_budget\<close>, interpreted for both directions); any sequence of calls signals a process group exactly
    once, and the snapshot of \<^verbatim>\<open>Cleanup\<close> misses no process.
  \<^item> \<open>Rpcstatus\<close>, \<open>Audit_Log\<close> (\<^verbatim>\<open>internal/rpcstatus\<close>, \<^verbatim>\<open>internal/audit\<close>): sanitized statuses, structured
    outcomes, the bounded queue of the writer.
  \<^item> \<open>GitHub_Request\<close>, \<open>GitHub_Command\<close>, \<open>GitHub_Command_Correct\<close> (\<^verbatim>\<open>internal/provider/github\<close>): validation, the
    planned commands and the byte budget of paginated reads; an endpoint is below the resolved repository.
  \<^item> \<open>GitHub_Decode\<close>, \<open>GitHub_Normalize\<close>, \<open>GitHub_Execute\<close>, \<open>GitHub_Execute_Correct\<close> (\<^verbatim>\<open>internal/provider/github\<close>): the
    decoding of the CLI's output into the structs by their tags, the normalizers, and the adapter in a state
    monad with a log of the commands and their answers: which commands are run and how many, what is known
    before an issue changes, and that a response is the one asked for.
  \<^item> \<open>Gitea_Request\<close>, \<open>Gitea_Edit\<close>, \<open>Gitea_Normalize\<close>, \<open>Gitea_Pulls\<close>, \<open>Gitea_Adapter\<close>, \<open>Gitea_Write\<close>,
    \<open>Gitea_Write_Correct\<close>, \<open>Gitea_Execute\<close> (\<^verbatim>\<open>internal/provider/gitea\<close>): validation, normalization, paginated
    reads, and the writes in a state monad over a world that the provider may change at any call; an
    edit plan makes the issue satisfy the request, and the error of a request says whether it wrote, but
    for one case of an edit that is stated with it.
  \<^item> \<open>Server_Limits\<close>, \<open>Server_Chain\<close>, \<open>Server_Chain_Correct\<close> (\<^verbatim>\<open>internal/server\<close>): capacity and shutdown as a
    step relation over any number of requests, with invariants by rule induction: the counters are
    exact, and every run can be continued until everything is given back; the interceptors
    in their order and the provider services, which share the locale \<open>provider_service\<close>.
  \<^item> \<open>App_Runtime\<close>, \<open>App_Correct\<close> (\<^verbatim>\<open>internal/app\<close>): the assembly of the service and its credentials.
  \<^item> \<open>Client_Ssh\<close> (\<^verbatim>\<open>internal/client/gitssh\<close>): the invocations of Git that are accepted are exactly those
    of a grammar, they reach every configured repository, and a session is relayed to its end.
  \<^item> \<open>Tea_Parse\<close>, \<open>Tea_Correct\<close>, \<open>Tea_Client\<close> (\<^verbatim>\<open>internal/client/gitea\<close>): the arguments of the Gitea client
    make requests that the service accepts, time stamps outside of protobuf's range apart (the loops over flags share the locale \<open>flag_switch\<close>), every
    request can be written as arguments, and what is told of a failure.
  \<^item> \<open>Client_Repository\<close> (\<^verbatim>\<open>internal/client\<close>): the repository that a client names, from its arguments or from the
    Git configuration around the working directory, over a file system that is a parameter.
  \<^item> \<open>Gh_Parse\<close>, \<open>Gh_Correct\<close> (\<^verbatim>\<open>internal/client/github\<close>): the arguments of the GitHub client. The locale \<open>same_check\<close>
    pairs a predicate of the client with the check of the service and is interpreted for every kind of value;
    the service accepts the requests of the client, and every request it can express is read back.
  \<^item> this theory: from the startup to a write or a command of the CLI, across all of the above, and back to the user: a
    write is never passed off as a plain failure.

  \<^bold>\<open>Not modelled.\<close> The renderers of
  the clients (\<^verbatim>\<open>internal/client\<close>), the commands (\<^verbatim>\<open>cmd\<close>), and the generation of
  certificates are outside the service's trusted path; the generated protobuf code, the gRPC server,
  the SDK and the HTTP transports (\<^verbatim>\<open>providerhttp\<close>, \<^verbatim>\<open>pull_presence.go\<close>) are libraries or wrappers of
  libraries; goroutines, timers and the operating system's processes appear as the arrivals of
  a session; the stream interceptors repeat the unary ones.
\<close>

section \<open>From the startup to a write\<close>

text \<open>A request to the Gitea service of a runtime, through the interceptors, to the adapters of its clients.\<close>

definition serveGitea ::
  "('d, 'x) srv_env_scheme \<Rightarrow> 'w gt_env \<Rightarrow> ('c \<Rightarrow> 'w repository_adapter) \<Rightarrow> ('d, 'c) runtime \<Rightarrow> int
    \<Rightarrow> (string \<times> gitea_response \<Rightarrow> int) \<Rightarrow> string \<Rightarrow> gitea_request \<Rightarrow> ('w gt_state, string \<times> gitea_response) handler" where
  "serveGitea env genv adapterOf rt inputBytes sizeOf method request =
     serveUnary env inputBytes sizeOf method
       (giteaService_Execute env (tsLib genv) sizeOf (Some (rtPolicy rt))
         (Some (giteaExecutor_Execute genv (map_option (map (\<lambda>(i, c). (i, adapterOf c))) (rtGitea rt)))) request)"

lemma giteaExecutor_writes:
  assumes "ctxOK genv" and "gtWrites (snd (giteaExecutor_Execute genv executor repo request s)) \<noteq> gtWrites s"
  shows "\<exists>adapters a index. executor = Some adapters \<and> map_of adapters (Provider (resRepository repo)) = Some a
    \<and> gitea_Capability (tsLib genv) (Some request) = Inr IssuesWrite
    \<and> snd (giteaExecutor_Execute genv executor repo request s)
        = snd (gitea_Execute genv (Some a) repo (Some request) (s\<lparr>gtMeta := Some None\<rparr>))
    \<and> wrote (ownerOf repo, nameOf repo, index) (gtWrites s) (snd (giteaExecutor_Execute genv executor repo request s))"
proof -
  obtain adapters a where a: "executor = Some adapters" "map_of adapters (Provider (resRepository repo)) = Some a"
    using assms(2) by (auto simp: giteaExecutor_Execute_def split: option.splits)
  obtain r s' where run: "gitea_Execute genv (Some a) repo (Some request) (s\<lparr>gtMeta := Some None\<rparr>) = (r, s')" by fastforce
  then have s': "snd (giteaExecutor_Execute genv executor repo request s) = s'"
    by (simp add: giteaExecutor_Execute_def a)
  show ?thesis
    using Execute_outcomeOK [OF assms(1) run] assms(2) a s' run by (auto simp: outcomeOK_def)
qed

text \<open>
  C1. A write reaches Gitea only for a caller to whom the configuration grants it. In a runtime that
  \<^verbatim>\<open>NewRuntime\<close> assembled, when serving a request changes a provider: the caller presented one bearer
  token with the digest of the value of a variable of a principal; the validated configuration
  grants this principal issue writing on a repository of a Gitea provider; the request went through
  the client made for this provider with the provider's own credential; and every write it sent is
  addressed to the owner and name configured for the repository.
\<close>

theorem gitea_writes_granted:
  assumes "NewRuntime su path = Some (Inr rt)" and "suLookup su = fixedEnv vars" and "wfConfig (rtConfig rt)"
    and "ctxOK genv" and "tokens env = rtTokens rt" and "sha256 env = suSha su" and "\<not> isHealthMethod method"
    and "serveGitea env genv adapterOf rt n sz method q ctx st = (r, st')"
    and "gtWrites (chWorld st') \<noteq> gtWrites (chWorld st)"
  shows "\<exists>token who principal var val repo secret client index.
      mapGet [] (Metadata ctx) ''authorization'' = [''Bearer '' @ token]
    \<and> map_of (Principals (rtConfig rt)) who = Some principal \<and> var \<in> set (TokenEnvs principal)
    \<and> vars var = Some val \<and> tokenDigest (suSha su) val = tokenDigest (suSha su) token
    \<and> Validate (rtConfig rt) = Inr () \<and> authorized (rtConfig rt) who (ID repo) IssuesWrite
    \<and> map_of (Repositories (rtConfig rt)) (ID repo) = Some (resRepository repo)
    \<and> map_of (Providers (rtConfig rt)) (Provider (resRepository repo)) = Some (resProvider repo)
    \<and> Kind (resProvider repo) = ProviderGitea
    \<and> secretOf vars (resProvider repo) = Some secret \<and> suNewGitea su (resProvider repo) secret = Inr client
    \<and> chWorld st' = snd (gitea_Execute genv (Some (adapterOf client)) repo (Some q) ((chWorld st)\<lparr>gtMeta := Some None\<rparr>))
    \<and> wrote (Owner (resRepository repo), Name (resRepository repo), index) (gtWrites (chWorld st)) (chWorld st')"
proof -
  obtain bytes where d: "Decode (suYaml su) (Inr bytes) = Some (Inr (rtConfig rt))" "assemble su (rtConfig rt) = Inr rt"
    using assms(1) by (rule NewRuntime_Inr) blast
  obtain sn w where a: "Load (suSha su) (rtConfig rt) (suLookup su) (suWorld su) = Inr (sn, w)"
    "policy_New (rtConfig rt) = Inr (rtPolicy rt)" "rtTokens rt = AuthIndex (Some sn)"
    using d(2) by (rule assemble_Inr) blast
  let ?ex = "giteaExecutor_Execute genv (map_option (map (\<lambda>(i, c). (i, adapterOf c))) (rtGitea rt))"
  have "chWorld st' \<noteq> chWorld st" using assms(9) by auto
  with assms(7,8) obtain who ctx' cap sel repo where s: "bearer env ctx who ctx'"
    "gitea_Capability (tsLib genv) (Some q) = Inr cap" "Resolve (rtPolicy rt) who sel cap = Inr repo"
    "Kind (resProvider repo) = ProviderGitea" "chWorld st' = snd (?ex repo q (chWorld st))"
    unfolding serveGitea_def by (rule gitea.world_changed) blast
  note cfg = Resolve_from_config [OF assms(3) a(2) s(3)]
  obtain adapters ad index where e: "map_option (map (\<lambda>(i, c). (i, adapterOf c))) (rtGitea rt) = Some adapters"
    "map_of adapters (Provider (resRepository repo)) = Some ad" "cap = IssuesWrite"
    "chWorld st' = snd (gitea_Execute genv (Some ad) repo (Some q) ((chWorld st)\<lparr>gtMeta := Some None\<rparr>))"
    "wrote (ownerOf repo, nameOf repo, index) (gtWrites (chWorld st)) (chWorld st')"
    using giteaExecutor_writes [OF assms(4)] assms(9) s(2,5) by (metis sum.inject(2))
  obtain secret cs client where c: "secretOf vars (resProvider repo) = Some secret" "rtGitea rt = Some cs"
    "map_of cs (Provider (resRepository repo)) = Some client" "suNewGitea su (resProvider repo) secret = Inr client"
    using provider_adapter [OF d(2) assms(2,3) cfg(3)] s(4) by blast
  have ad: "ad = adapterOf client"
    using e(1,2) c(2,3) by (auto simp: map_of_map)
  obtain token where t: "mapGet [] (Metadata ctx) ''authorization'' = [''Bearer '' @ token]"
    "Authenticate (suSha su) (AuthIndex (Some sn)) token = Some who"
    using s(1) assms(5,6) a(3) unfolding bearer_def by metis
  obtain principal var val where p: "map_of (Principals (rtConfig rt)) who = Some principal" "var \<in> set (TokenEnvs principal)"
    "vars var = Some val" "tokenDigest (suSha su) val = tokenDigest (suSha su) token"
    using authenticated_by_variable [of "suSha su" "rtConfig rt" vars sn token who] t(2) a(1) assms(2) by auto
  have "Validate (rtConfig rt) = Inr ()" using d(1) by (rule Decode_Inr)
  then show ?thesis
    using t(1) p cfg s(4) c(1,4) e(3,4,5) ad by blast
qed

lemma giteaExecutor_error:
  assumes "ctxOK genv" and "giteaExecutor_Execute genv executor repo request s = ((v, transition), s')"
    and "gtWrites s' \<noteq> gtWrites s" and "v = Inl e"
  shows "e \<in> {Sentinel ErrWriteOutcomeUnknown, Sentinel ErrResourceExhausted}
      \<or> (case gtOperation request of GtIssueEdit (Some _) \<Rightarrow> True | _ \<Rightarrow> False) \<and> e = Sentinel ErrEditPartial"
proof -
  have "gtWrites (snd (giteaExecutor_Execute genv executor repo request s)) \<noteq> gtWrites s" using assms(2,3) by simp
  from giteaExecutor_writes [OF assms(1) this] obtain adapters a where a: "executor = Some adapters"
    "map_of adapters (Provider (resRepository repo)) = Some a" "gitea_Capability (tsLib genv) (Some request) = Inr IssuesWrite"
    by blast
  obtain r where run: "gitea_Execute genv (Some a) repo (Some request) (s\<lparr>gtMeta := Some None\<rparr>) = (r, s')" "r = Inl e"
    using assms(2,4) a(1,2) by (auto simp: giteaExecutor_Execute_def split: prod.splits sum.splits)
  from Execute_outcomeOK [OF assms(1) run(1)] have "e \<in> {Sentinel ErrWriteOutcomeUnknown, Sentinel ErrResourceExhausted}
      \<or> isIssueEdit (gtOperation request) \<and> e = Sentinel ErrEditPartial"
    using run(2) assms(3) by (auto simp: outcomeOK_def)
  moreover have "gt_validateOperation (tsLib genv) (gtOperation request) = Inr ()"
    using a(3) by (auto simp: gitea_Capability_def gitea_ValidateRequest_def result_simps)
  ultimately show ?thesis
    by (cases "gtOperation request"; auto simp: isIssueEdit_def gt_validateIssueEdit_def split: option.splits)
qed

text \<open>
  C3. A write is never passed off as a plain failure. When the client's request ends with an error
  after something was written to Gitea, then whatever the error is, at whatever stage it arose, and
  even if the client was interrupted, what the client tells the user is that an edit was partially
  applied or that the outcome is unknown. (\<open>err\<close> is the error as the client receives it: it carries the
  status of the one the server returned.)
\<close>

theorem tea_reports_writes:
  assumes "grpcDocumented (grpc env)" and "ctxOK genv" and "\<not> isHealthMethod method"
    and "tea_Parse (tsLib genv) args = Inr cmd"
    and "serveGitea env genv adapterOf rt n sz method (cmdRequest cmd) ctx st = (Inl e, st')"
    and "gtWrites (chWorld st') \<noteq> gtWrites (chWorld st)"
    and "FromError (grpc env) err = FromError (grpc env) e"
  shows "fst (reportExecutionError (grpc env) isCancelled exitCause cmd err) \<in> {partialMessage, unknownMessage}"
proof -
  let ?ex = "giteaExecutor_Execute genv (map_option (map (\<lambda>(i, c). (i, adapterOf c))) (rtGitea rt))"
  have changed: "chWorld st' \<noteq> chWorld st" using assms(6) by auto
  from assms(3,5) changed obtain ctx' md r1 st1 e1 where run:
    "giteaService_Execute env (tsLib genv) sz (Some (rtPolicy rt)) (Some ?ex) (cmdRequest cmd) ctx' (st\<lparr>chMeta := Some md\<rparr>) = (r1, st1)"
    "chWorld st' = chWorld st1" "e1 = auditUnavailable \<or> r1 = Inl e1" "e = translated (grpc env) e1"
    unfolding serveGitea_def by (rule serveUnary_error) blast
  have "chWorld st1 \<noteq> chWorld (st\<lparr>chMeta := Some md\<rparr>)" using run(2) changed by simp
  with run(1) obtain repo v transition where x: "?ex repo (cmdRequest cmd) (chWorld (st\<lparr>chMeta := Some md\<rparr>)) = ((v, transition), chWorld st1)"
    and v2: "\<And>e. r1 = Inl e \<Longrightarrow> v = Inl e \<or> e \<in> {Sentinel ErrRepositoryUnavailable, Sentinel ErrOutputLimit}"
    by (rule giteaService_world) blast
  have v: "?ex repo (cmdRequest cmd) (chWorld st) = ((v, transition), chWorld st')" using x run(2) by simp
  let ?oper = "gtOperation (cmdRequest cmd)"
  have "e1 \<in> {Sentinel ErrWriteOutcomeUnknown, Sentinel ErrResourceExhausted, Sentinel ErrOutputLimit,
        Sentinel ErrRepositoryUnavailable, auditUnavailable}
      \<or> (case ?oper of GtIssueEdit (Some _) \<Rightarrow> True | _ \<Rightarrow> False) \<and> e1 = Sentinel ErrEditPartial"
    using giteaExecutor_error [OF assms(2) v assms(6), of e1] v2 [of e1] run(3) by blast
  then obtain s where s: "FromError (grpc env) err = Some s" "admitsWrite ?oper s"
    using translated_admits [OF assms(1)] assms(7) run(4) by metis
  have "gitea_Capability (tsLib genv) (Some (cmdRequest cmd)) = Inr IssuesWrite"
    using giteaExecutor_writes [OF assms(2), of _ repo "cmdRequest cmd" "chWorld st"] v assms(6) by (metis snd_conv)
  then have "cmdMutation cmd"
    using tea_Parse_ok [OF assms(4)]
    by (auto simp: requestOK_def gitea_Capability_def gitea_ValidateRequest_def requestFor_def result_simps)
  from report_admitted [OF s this] show ?thesis .
qed


section \<open>From the startup to a command of the GitHub CLI\<close>

text \<open>A request to the GitHub service of a runtime, through the interceptors, to its adapters.\<close>

definition runGitHub :: "'w gh_env \<Rightarrow> github_adapter \<Rightarrow> ('w gh_state, github_response) github_executor" where
  "runGitHub genv ad repo request s =
     (case github_Execute genv (Some ad) repo (Some request) s of (r, s') \<Rightarrow> (case r of Inl e \<Rightarrow> Inl e | Inr v \<Rightarrow> Inr (Some v), s'))"

definition serveGitHub ::
  "('d, 'x) srv_env_scheme \<Rightarrow> 'w gh_env \<Rightarrow> ('d, 'c) runtime \<Rightarrow> int
    \<Rightarrow> (string \<times> github_response \<Rightarrow> int) \<Rightarrow> string \<Rightarrow> github_request \<Rightarrow> ('w gh_state, string \<times> github_response) handler" where
  "serveGitHub env genv rt inputBytes sizeOf method request =
     serveUnary env inputBytes sizeOf method
       (githubService_Execute env sizeOf (Some (rtPolicy rt)) (Some (githubExecutor_Execute (runGitHub genv) (rtGitHub rt))) request)"

lemma githubExecutor_sent:
  assumes "ghCalls (snd (githubExecutor_Execute (runGitHub genv) executor repo q s)) \<noteq> ghCalls s"
    and "github_Capability (Some q) = Inr cap"
  shows "\<exists>adapters ad sent. executor = Some adapters \<and> map_of adapters (Provider (resRepository repo)) = Some ad
    \<and> ghCalls (snd (githubExecutor_Execute (runGitHub genv) executor repo q s)) = ghCalls s @ sent
    \<and> list_all (\<lambda>c. pinned ad (fst c) \<and> (ghRead repo (ghOperation q) (fst c) \<or> \<not> readCapability cap \<and> ghWrite repo (ghOperation q) (fst c))) sent
    \<and> length (filter (\<lambda>c. \<not> ghRead repo (ghOperation q) (fst c)) sent) \<le> 1 \<and> length sent \<le> 12"
proof -
  obtain adapters ad where a: "executor = Some adapters" "map_of adapters (Provider (resRepository repo)) = Some ad"
    using assms(1) by (auto simp: githubExecutor_Execute_def split: option.splits)
  obtain r s' where run: "github_Execute genv (Some ad) repo (Some q) s = (r, s')" by fastforce
  then have s': "snd (githubExecutor_Execute (runGitHub genv) executor repo q s) = s'"
    by (simp add: githubExecutor_Execute_def runGitHub_def a)
  obtain sent where sent: "ghCalls s' = ghCalls s @ sent"
    "list_all (\<lambda>c. pinned ad (fst c) \<and> (ghRead repo (ghOperation q) (fst c) \<or> ghWrite repo (ghOperation q) (fst c))) sent"
    "length (filter (\<lambda>c. \<not> ghRead repo (ghOperation q) (fst c)) sent) \<le> (if readCapability cap then 0 else 1)" "length sent \<le> 12"
    using github_Execute_sent [OF run] assms s' by auto
  have "list_all (\<lambda>c. pinned ad (fst c) \<and> (ghRead repo (ghOperation q) (fst c) \<or> \<not> readCapability cap \<and> ghWrite repo (ghOperation q) (fst c))) sent"
    using sent(2,3) by (auto simp: list_all_iff filter_empty_conv split: if_splits)
  moreover have "length (filter (\<lambda>c. \<not> ghRead repo (ghOperation q) (fst c)) sent) \<le> 1" using sent(3) by (auto split: if_splits)
  ultimately show ?thesis using a s' sent(1,4) by blast
qed

text \<open>
  C2. The GitHub CLI is run only for a caller to whom the configuration grants it, and only on the repository of the
  grant. In a runtime that \<^verbatim>\<open>NewRuntime\<close> assembled, when serving a request runs commands: the caller
  presented one bearer token with the digest of the value of a variable of a principal; the validated
  configuration grants this principal the capability that the request needs on a repository of a GitHub
  provider; every command has the path and timeout of the adapter of that provider, and the
  environment without credentials to which the provider's own was added; each is a read below the repository
  on the provider's host, or, if the capability is one to write, a write below it, where the request for the
  current user reads \<^verbatim>\<open>/user\<close> instead and a GraphQL call carries the owner and the name of the repository; at
  most one is not a read, and there are at most twelve.
\<close>

theorem github_commands_granted:
  assumes "NewRuntime su path = Some (Inr rt)" and "suLookup su = fixedEnv vars" and "wfConfig (rtConfig rt)"
    and "tokens env = rtTokens rt" and "sha256 env = suSha su" and "\<not> isHealthMethod method"
    and "serveGitHub env genv rt n sz method q ctx st = (r, st')" and "ghCalls (chWorld st') \<noteq> ghCalls (chWorld st)"
  shows "\<exists>token who principal var val repo cap secret ad sent.
      mapGet [] (Metadata ctx) ''authorization'' = [''Bearer '' @ token]
    \<and> map_of (Principals (rtConfig rt)) who = Some principal \<and> var \<in> set (TokenEnvs principal)
    \<and> vars var = Some val \<and> tokenDigest (suSha su) val = tokenDigest (suSha su) token
    \<and> Validate (rtConfig rt) = Inr () \<and> github_Capability (Some q) = Inr cap \<and> authorized (rtConfig rt) who (ID repo) cap
    \<and> map_of (Repositories (rtConfig rt)) (ID repo) = Some (resRepository repo)
    \<and> map_of (Providers (rtConfig rt)) (Provider (resRepository repo)) = Some (resProvider repo)
    \<and> Kind (resProvider repo) = ProviderGitHub \<and> secretOf vars (resProvider repo) = Some secret
    \<and> adEnvironment ad = GitHubEnvironment (rtSSHEnvironment rt) secret
    \<and> ghCalls (chWorld st') = ghCalls (chWorld st) @ sent
    \<and> list_all (\<lambda>c. pinned ad (fst c) \<and> (ghRead repo (ghOperation q) (fst c) \<or> \<not> readCapability cap \<and> ghWrite repo (ghOperation q) (fst c))) sent
    \<and> length (filter (\<lambda>c. \<not> ghRead repo (ghOperation q) (fst c)) sent) \<le> 1 \<and> length sent \<le> 12"
proof -
  obtain bytes where d: "Decode (suYaml su) (Inr bytes) = Some (Inr (rtConfig rt))" "assemble su (rtConfig rt) = Inr rt"
    using assms(1) by (rule NewRuntime_Inr) blast
  obtain sn w where a: "Load (suSha su) (rtConfig rt) (suLookup su) (suWorld su) = Inr (sn, w)"
    "policy_New (rtConfig rt) = Inr (rtPolicy rt)" "rtTokens rt = AuthIndex (Some sn)"
    using d(2) by (rule assemble_Inr) blast
  let ?ex = "githubExecutor_Execute (runGitHub genv) (rtGitHub rt)"
  have "chWorld st' \<noteq> chWorld st" using assms(8) by auto
  with assms(6,7) obtain who ctx' cap sel repo where s: "bearer env ctx who ctx'"
    "github_Capability (Some q) = Inr cap" "Resolve (rtPolicy rt) who sel cap = Inr repo"
    "Kind (resProvider repo) = ProviderGitHub" "chWorld st' = snd (?ex repo q (chWorld st))"
    unfolding serveGitHub_def by (rule github.world_changed) blast
  note cfg = Resolve_from_config [OF assms(3) a(2) s(3)]
  obtain adapters ad sent where e: "rtGitHub rt = Some adapters" "map_of adapters (Provider (resRepository repo)) = Some ad"
    "ghCalls (chWorld st') = ghCalls (chWorld st) @ sent"
    "list_all (\<lambda>c. pinned ad (fst c) \<and> (ghRead repo (ghOperation q) (fst c) \<or> \<not> readCapability cap \<and> ghWrite repo (ghOperation q) (fst c))) sent"
    "length (filter (\<lambda>c. \<not> ghRead repo (ghOperation q) (fst c)) sent) \<le> 1" "length sent \<le> 12"
    using githubExecutor_sent [OF _ s(2), of genv "rtGitHub rt" repo "chWorld st"] assms(8) s(5) by auto
  obtain secret where c: "secretOf vars (resProvider repo) = Some secret" "adEnvironment ad = GitHubEnvironment (rtSSHEnvironment rt) secret"
    using provider_adapter [OF d(2) assms(2,3) cfg(3)] s(4) e(1,2) by auto
  obtain token where t: "mapGet [] (Metadata ctx) ''authorization'' = [''Bearer '' @ token]"
    "Authenticate (suSha su) (AuthIndex (Some sn)) token = Some who"
    using s(1) assms(4,5) a(3) unfolding bearer_def by metis
  obtain principal var val where p: "map_of (Principals (rtConfig rt)) who = Some principal" "var \<in> set (TokenEnvs principal)"
    "vars var = Some val" "tokenDigest (suSha su) val = tokenDigest (suSha su) token"
    using authenticated_by_variable [of "suSha su" "rtConfig rt" vars sn token who] t(2) a(1) assms(2) by auto
  have "Validate (rtConfig rt) = Inr ()" using d(1) by (rule Decode_Inr)
  then show ?thesis
    using t(1) p cfg s(2,4) c e(3-6) by blast
qed


section \<open>A write from the startup on\<close>

definition exampleGiteaStartup :: "(unit, string, sdk_issue repository_adapter) startup" where
  "exampleGiteaStartup = startupWith (\<lambda>p token. Inr \<lparr>adApi = Some exampleGiteaApi, adPulls = None\<rparr>)"

definition exampleEditRequest :: gitea_request where
  "exampleEditRequest =
     \<lparr>gtContext = Some \<lparr>ctxRepository = Some \<lparr>msgHost = [], msgOwner = ''Team'', msgName = ''Repo'', msgSshPort = 0,
        msgSshUser = []\<rparr>\<rparr>, gtOperation = GtIssueEdit (Some exampleEdit)\<rparr>"

definition exampleWriteEnv :: "(string, sdk_issue repository_adapter) runtime \<Rightarrow> string srv_env" where
  "exampleWriteEnv rt = exampleChainEnv\<lparr>tokens := rtTokens rt\<rparr>"

definition exampleBefore :: "sdk_issue gt_state chain" where
  "exampleBefore = \<lparr>chWorld = exampleStart, chLog = [], chMeta = None\<rparr>"

definition exampleWrite ::
  "int \<Rightarrow> (string, sdk_issue repository_adapter) runtime \<Rightarrow> (string \<times> gitea_response) result \<times> sdk_issue gt_state chain" where
  "exampleWrite bytes rt =
     serveGitea (exampleWriteEnv rt) exampleWorldEnv (\<lambda>c. c) rt 0 (\<lambda>_. bytes) ''/repowolf.v1.GiteaService/Execute''
       exampleEditRequest exampleCaller exampleBefore"

text \<open>The writes of a request, and of one whose response is too large to be returned.\<close>

definition writesSent :: "(string, sdk_issue repository_adapter) runtime result option \<Rightarrow> (bool \<times> int \<times> bool \<times> int) option" where
  "writesSent r =
     (case r of
        Some (Inr rt) \<Rightarrow> Some (wfConfig (rtConfig rt), int (length (gtWrites (chWorld (snd (exampleWrite 1 rt))))),
          isOK (fst (exampleWrite 9000000 rt)), int (length (gtWrites (chWorld (snd (exampleWrite 9000000 rt))))))
      | _ \<Rightarrow> None)"

lemma exampleWrite_sent: "writesSent (NewRuntime exampleGiteaStartup ''config.yaml'') = Some (True, 1, False, 1)"
  by code_simp

theorem gitea_writes_granted_witness:
  "\<exists>rt who (repo :: resolved) index. NewRuntime exampleGiteaStartup ''config.yaml'' = Some (Inr rt)
     \<and> authorized (rtConfig rt) who (ID repo) IssuesWrite
     \<and> wrote (Owner (resRepository repo), Name (resRepository repo), index) [] (chWorld (snd (exampleWrite 1 rt)))"
proof -
  obtain rt where rt: "NewRuntime exampleGiteaStartup ''config.yaml'' = Some (Inr rt)" "wfConfig (rtConfig rt)"
    "length (gtWrites (chWorld (snd (exampleWrite 1 rt)))) = 1"
    using exampleWrite_sent by (auto simp: writesSent_def split: option.splits sum.splits)
  have start: "suLookup exampleGiteaStartup = fixedEnv exampleEnv" "tokens (exampleWriteEnv rt) = rtTokens rt"
    "sha256 (exampleWriteEnv rt) = suSha exampleGiteaStartup" "gtWrites (chWorld exampleBefore) = []"
    by (simp_all add: exampleGiteaStartup_def startupWith_def exampleWriteEnv_def exampleChainEnv_def exampleBefore_def
        exampleStart_def)
  have health: "\<not> isHealthMethod ''/repowolf.v1.GiteaService/Execute''" by code_simp
  have run: "serveGitea (exampleWriteEnv rt) exampleWorldEnv (\<lambda>c. c) rt 0 (\<lambda>_. 1) ''/repowolf.v1.GiteaService/Execute''
      exampleEditRequest exampleCaller exampleBefore = (fst (exampleWrite 1 rt), snd (exampleWrite 1 rt))"
    by (simp add: exampleWrite_def)
  have grew: "gtWrites (chWorld (snd (exampleWrite 1 rt))) \<noteq> gtWrites (chWorld exampleBefore)"
    using rt(3) start(4) by auto
  show ?thesis
    using gitea_writes_granted [OF rt(1) start(1) rt(2) ctxOK_example start(2,3) health run grew] rt(1)
    unfolding start(4) by blast
qed


definition exampleEditArgs :: "string list" where
  "exampleEditArgs = [''issues'', ''edit'', ''7'', ''--repo'', ''Team/Repo'', ''--title'', ''New'']"

definition exampleEditCommand :: tea_command where
  "exampleEditCommand = \<lparr>cmdRequest = exampleEditRequest, cmdFormat = OutputSimple, cmdFields = [], cmdPullFields = [], cmdMutation = True\<rparr>"

lemma exampleEditArgs_parsed: "tea_Parse (tsLib exampleWorldEnv) exampleEditArgs = Inr exampleEditCommand"
  by code_simp

theorem tea_reports_writes_witness:
  "\<exists>rt e. fst (exampleWrite 9000000 rt) = Inl e \<and> length (gtWrites (chWorld (snd (exampleWrite 9000000 rt)))) = 1
     \<and> fst (reportExecutionError exampleGrpc True None exampleEditCommand e) \<in> {partialMessage, unknownMessage}"
proof -
  obtain rt e where rt: "length (gtWrites (chWorld (snd (exampleWrite 9000000 rt)))) = 1" "fst (exampleWrite 9000000 rt) = Inl e"
    using exampleWrite_sent by (auto simp: writesSent_def isOK_def split: option.splits sum.splits)
  have g: "grpcDocumented (grpc (exampleWriteEnv rt))" "grpc (exampleWriteEnv rt) = exampleGrpc"
    using exampleGrpc_documented by (simp_all add: exampleWriteEnv_def exampleChainEnv_def)
  have health: "\<not> isHealthMethod ''/repowolf.v1.GiteaService/Execute''" by code_simp
  have run: "serveGitea (exampleWriteEnv rt) exampleWorldEnv (\<lambda>c. c) rt 0 (\<lambda>_. 9000000) ''/repowolf.v1.GiteaService/Execute''
      (cmdRequest exampleEditCommand) exampleCaller exampleBefore = (Inl e, snd (exampleWrite 9000000 rt))"
    using rt(2) by (simp add: exampleWrite_def exampleEditCommand_def prod_eq_iff)
  have "gtWrites (chWorld (snd (exampleWrite 9000000 rt))) \<noteq> gtWrites (chWorld exampleBefore)"
    using rt(1) by (auto simp: exampleBefore_def exampleStart_def)
  from tea_reports_writes [OF g(1) ctxOK_example health exampleEditArgs_parsed run this refl] show ?thesis
    using rt g(2) by auto
qed


section \<open>A command from the startup on\<close>

definition exampleListing :: "(string, string) runtime \<Rightarrow> (string \<times> github_response) result \<times> unit gh_state chain" where
  "exampleListing rt =
     serveGitHub (exampleChainEnv\<lparr>tokens := rtTokens rt\<rparr>) exampleGhEnv rt 0 (\<lambda>_. 1) ''/repowolf.v1.GitHubService/Execute''
       exampleIssueList exampleCaller \<lparr>chWorld = \<lparr>ghWorld = (), ghCalls = []\<rparr>, chLog = [], chMeta = None\<rparr>"

definition commandsRun :: "(string, string) runtime result option \<Rightarrow> (bool \<times> int) option" where
  "commandsRun r =
     (case r of Some (Inr rt) \<Rightarrow> Some (wfConfig (rtConfig rt), int (length (ghCalls (chWorld (snd (exampleListing rt)))))) | _ \<Rightarrow> None)"

lemma exampleListing_runs: "commandsRun (NewRuntime exampleStartup ''config.yaml'') = Some (True, 1)"
  by code_simp

theorem github_commands_granted_witness:
  "\<exists>rt who (repo :: resolved) cap c. NewRuntime exampleStartup ''config.yaml'' = Some (Inr rt)
     \<and> authorized (rtConfig rt) who (ID repo) cap \<and> Kind (resProvider repo) = ProviderGitHub
     \<and> map fst (ghCalls (chWorld (snd (exampleListing rt)))) = [c]
     \<and> (ghRead repo (ghOperation exampleIssueList) c \<or> \<not> readCapability cap)"
proof -
  obtain rt where rt: "NewRuntime exampleStartup ''config.yaml'' = Some (Inr rt)" "wfConfig (rtConfig rt)"
    "length (ghCalls (chWorld (snd (exampleListing rt)))) = 1"
    using exampleListing_runs by (auto simp: commandsRun_def split: option.splits sum.splits)
  let ?st = "\<lparr>chWorld = \<lparr>ghWorld = (), ghCalls = []\<rparr>, chLog = [], chMeta = None\<rparr> :: unit gh_state chain"
  have start: "suLookup exampleStartup = fixedEnv exampleEnv" "tokens (exampleChainEnv\<lparr>tokens := rtTokens rt\<rparr>) = rtTokens rt"
    "sha256 (exampleChainEnv\<lparr>tokens := rtTokens rt\<rparr>) = suSha exampleStartup"
    by (simp_all add: exampleStartup_def startupWith_def exampleChainEnv_def)
  have health: "\<not> isHealthMethod ''/repowolf.v1.GitHubService/Execute''" by code_simp
  have run: "serveGitHub (exampleChainEnv\<lparr>tokens := rtTokens rt\<rparr>) exampleGhEnv rt 0 (\<lambda>_. 1) ''/repowolf.v1.GitHubService/Execute''
      exampleIssueList exampleCaller ?st = (fst (exampleListing rt), snd (exampleListing rt))"
    by (simp add: exampleListing_def)
  have grew: "ghCalls (chWorld (snd (exampleListing rt))) \<noteq> ghCalls (chWorld ?st)" using rt(3) by auto
  obtain c where c: "ghCalls (chWorld (snd (exampleListing rt))) = [c]"
    using rt(3) by (auto simp: length_Suc_conv)
  have "\<exists>who (repo :: resolved) cap. authorized (rtConfig rt) who (ID repo) cap \<and> Kind (resProvider repo) = ProviderGitHub
      \<and> (ghRead repo (ghOperation exampleIssueList) (fst c) \<or> \<not> readCapability cap)"
    using github_commands_granted [OF rt(1) start(1) rt(2) start(2,3) health run grew] c by auto
  then show ?thesis using rt(1) c by auto
qed

end
